(* ===== verification/Prelude.thy ===== *)
theory Prelude
  imports Complex_Main "HOL-Library.Sublist" "HOL-Library.Multiset"
begin

text \<open>
  The values of the source language that every component shares: strings as lists of UTF-16
  code units, numbers with the non-finite values told apart, unknown JSON values, insertion
  ordered maps, array slices, and the POSIX path functions of the standard library. The lemmas
  on them are declared for automation or collected in \<open>js_simps\<close>.
\<close>

named_theorems js_simps \<open>unfolding rules for the standard-library functions of the source\<close>

section \<open>Strings\<close>

text \<open>
  A string of the source is a sequence of UTF-16 code units. \<open>js\<close> embeds a literal.
\<close>

type_synonym jstring = "nat list"

definition js :: "string \<Rightarrow> jstring" where
  "js s = map of_char s"

lemma js_Nil [simp]: "js [] = []"
  by (simp add: js_def)

lemma js_Cons [js_simps]: "js (c # cs) = of_char c # js cs"
  by (simp add: js_def)

text \<open>Literals are compared without spelling out their code units.\<close>
lemma js_eq_iff [simp]: "js s = js t \<longleftrightarrow> s = t"
  by (simp add: js_def inj_map_eq_map inj_on_def)

lemma js_eq_Nil [simp]: "js s = [] \<longleftrightarrow> s = []" "[] = js s \<longleftrightarrow> s = []"
  by (simp_all add: js_def)

lemma length_js [simp]: "length (js s) = length s"
  by (simp add: js_def)

abbreviation starts_with :: "jstring \<Rightarrow> jstring \<Rightarrow> bool" where
  "starts_with s p \<equiv> prefix p s"

abbreviation ends_with :: "jstring \<Rightarrow> jstring \<Rightarrow> bool" where
  "ends_with s p \<equiv> suffix p s"

text \<open>The white space and line terminators that \<open>String.prototype.trim\<close> removes.\<close>

definition is_space :: "nat \<Rightarrow> bool" where
  "is_space c \<longleftrightarrow> (9 \<le> c \<and> c \<le> 13) \<or> c = 32 \<or> c = 160 \<or> c = 0x1680 \<or>
     (0x2000 \<le> c \<and> c \<le> 0x200A) \<or> c = 0x2028 \<or> c = 0x2029 \<or> c = 0x202F \<or> c = 0x205F \<or>
     c = 0x3000 \<or> c = 0xFEFF"

definition trim_start :: "jstring \<Rightarrow> jstring" where
  "trim_start s = dropWhile is_space s"

definition trim_end :: "jstring \<Rightarrow> jstring" where
  "trim_end s = rev (dropWhile is_space (rev s))"

definition trim :: "jstring \<Rightarrow> jstring" where
  "trim s = trim_end (trim_start s)"

lemma dropWhile_hd: "dropWhile P xs = y # ys \<Longrightarrow> \<not> P y"
  by (induction xs) (auto split: if_splits)

lemma trim_end_append_last: "\<not> is_space c \<Longrightarrow> trim_end (s @ [c]) = s @ [c]"
  by (simp add: trim_end_def)

lemma trim_end_cases:
  obtains "trim_end s = []" | t c where "trim_end s = t @ [c]" and "\<not> is_space c"
proof (cases "dropWhile is_space (rev s)")
  case Nil
  then show ?thesis using that(1) by (simp add: trim_end_def)
next
  case (Cons c t)
  then have "trim_end s = rev t @ [c]" and "\<not> is_space c"
    using dropWhile_hd [OF Cons] by (auto simp: trim_end_def)
  then show ?thesis by (rule that(2))
qed

lemma trim_end_prefix: "prefix (trim_end s) s"
proof -
  have "suffix (dropWhile is_space (rev s)) (rev s)"
    by (rule suffix_dropWhile)
  then show ?thesis by (simp add: suffix_to_prefix trim_end_def)
qed

lemma trim_end_idem [simp]: "trim_end (trim_end s) = trim_end s"
  by (rule trim_end_cases [of s]) (auto simp: trim_end_def)

lemma trim_start_idem [simp]: "trim_start (trim_start s) = trim_start s"
  by (simp add: trim_start_def)

lemma trim_start_trim: "trim_start (trim s) = trim s"
proof (cases "trim s")
  case Nil
  then show ?thesis by (simp add: trim_start_def)
next
  case (Cons c t)
  have "prefix (trim s) (dropWhile is_space s)"
    using trim_end_prefix [of "trim_start s"] unfolding trim_def trim_start_def .
  with Cons obtain u where "dropWhile is_space s = c # u"
    by (auto elim!: prefixE)
  then have "\<not> is_space c" by (rule dropWhile_hd)
  with Cons show ?thesis by (simp add: trim_start_def)
qed

lemma trim_idem [simp]: "trim (trim s) = trim s"
proof -
  have "trim (trim s) = trim_end (trim s)"
    by (subst trim_def) (simp only: trim_start_trim)
  then show ?thesis by (simp add: trim_def)
qed

lemma trim_Nil [simp]: "trim [] = []"
  by (simp add: trim_def trim_start_def trim_end_def)

lemma length_trim_le: "length (trim s) \<le> length s"
proof -
  have "length (trim s) \<le> length (trim_start s)"
    unfolding trim_def by (rule prefix_length_le [OF trim_end_prefix])
  also have "\<dots> \<le> length s"
    unfolding trim_start_def by (rule length_dropWhile_le)
  finally show ?thesis .
qed

text \<open>
  \<open>Buffer.byteLength(s, 'utf8')\<close>: a pair of surrogates takes four bytes, a lone surrogate is
  replaced by U+FFFD and takes three.
\<close>

definition high_surrogate :: "nat \<Rightarrow> bool" where
  "high_surrogate c \<longleftrightarrow> 0xD800 \<le> c \<and> c < 0xDC00"

definition low_surrogate :: "nat \<Rightarrow> bool" where
  "low_surrogate c \<longleftrightarrow> 0xDC00 \<le> c \<and> c < 0xE000"

definition unit_bytes :: "nat \<Rightarrow> nat" where
  "unit_bytes c = (if c < 0x80 then 1 else if c < 0x800 then 2 else 3)"

fun byte_length :: "jstring \<Rightarrow> nat" where
  "byte_length [] = 0"
| "byte_length [c] = unit_bytes c"
| "byte_length (c # d # s) =
     (if high_surrogate c \<and> low_surrogate d then 4 + byte_length s
      else unit_bytes c + byte_length (d # s))"

lemma byte_length_pos: "s \<noteq> [] \<Longrightarrow> 0 < byte_length s"
  by (induction s rule: byte_length.induct) (auto simp: unit_bytes_def)

lemma length_le_byte_length: "length s \<le> byte_length s"
  by (induction s rule: byte_length.induct) (auto simp: unit_bytes_def)

section \<open>Numbers\<close>

text \<open>
  A number of the source. Finite doubles are rationals; the rounding of their arithmetic is not
  modelled.
\<close>

datatype jsnum = NaN | PosInf | NegInf | Num rat

fun is_finite :: "jsnum \<Rightarrow> bool" where
  "is_finite (Num _) = True"
| "is_finite _ = False"

fun is_integer :: "jsnum \<Rightarrow> bool" where
  "is_integer (Num q) = (of_int \<lfloor>q\<rfloor> = q)"
| "is_integer _ = False"

definition max_safe_integer :: rat where
  "max_safe_integer = 9007199254740991"

fun is_safe_integer :: "jsnum \<Rightarrow> bool" where
  "is_safe_integer (Num q) = (of_int \<lfloor>q\<rfloor> = q \<and> - max_safe_integer \<le> q \<and> q \<le> max_safe_integer)"
| "is_safe_integer _ = False"

text \<open>\<open>x <= y\<close> and \<open>x < y\<close> of the source: false when an operand is NaN.\<close>

fun num_le :: "jsnum \<Rightarrow> jsnum \<Rightarrow> bool" where
  "num_le NaN _ = False"
| "num_le _ NaN = False"
| "num_le NegInf _ = True"
| "num_le _ PosInf = True"
| "num_le (Num p) (Num q) = (p \<le> q)"
| "num_le _ _ = False"

fun num_lt :: "jsnum \<Rightarrow> jsnum \<Rightarrow> bool" where
  "num_lt NaN _ = False"
| "num_lt _ NaN = False"
| "num_lt NegInf NegInf = False"
| "num_lt NegInf _ = True"
| "num_lt PosInf _ = False"
| "num_lt (Num p) PosInf = True"
| "num_lt (Num p) (Num q) = (p < q)"
| "num_lt (Num p) NegInf = False"

lemma is_integer_Num: "is_integer x \<Longrightarrow> \<exists>q. x = Num q"
  by (cases x) auto

lemma is_integer_obtain:
  assumes "is_integer x"
  obtains n :: int where "x = Num (of_int n)"
proof (cases x)
  case (Num q)
  with assms have "x = Num (of_int \<lfloor>q\<rfloor>)" by auto
  then show ?thesis by (rule that)
qed (use assms in auto)

lemma is_safe_integer_integer: "is_safe_integer x \<Longrightarrow> is_integer x"
  by (cases x) auto

section \<open>Unknown values\<close>

text \<open>
  A value of type \<open>unknown\<close>: what \<open>JSON.parse\<close> can produce, and \<open>undefined\<close> for an absent
  field. An object keeps its own enumerable properties in order.
\<close>

datatype json = JUndefined | JNull | JBool bool | JNum jsnum | JStr jstring
  | JArr "json list" | JObj "(jstring \<times> json) list"

fun is_record :: "json \<Rightarrow> bool" where
  "is_record (JObj _) = True"
| "is_record _ = False"

text \<open>Property access: \<open>undefined\<close> when the object has no such property.\<close>

fun get_field :: "json \<Rightarrow> jstring \<Rightarrow> json" where
  "get_field (JObj fs) k = (case map_of fs k of None \<Rightarrow> JUndefined | Some v \<Rightarrow> v)"
| "get_field _ _ = JUndefined"

section \<open>Arrays and insertion ordered maps\<close>

text \<open>\<open>xs.slice(-n)\<close> for a positive \<open>n\<close>.\<close>

definition slice_last :: "nat \<Rightarrow> 'a list \<Rightarrow> 'a list" where
  "slice_last n xs = drop (length xs - n) xs"

lemma length_slice_last [simp]: "length (slice_last n xs) = min n (length xs)"
  by (simp add: slice_last_def min_def)

lemma slice_last_all: "length xs \<le> n \<Longrightarrow> slice_last n xs = xs"
  by (simp add: slice_last_def)

lemma set_slice_last_subset: "set (slice_last n xs) \<subseteq> set xs"
  by (simp add: slice_last_def set_drop_subset)

lemma suffix_slice_last: "suffix (slice_last n xs) xs"
  by (simp add: slice_last_def suffix_drop)

text \<open>\<open>xs.findIndex(p)\<close>: \<open>None\<close> stands for -1.\<close>

fun find_index :: "('a \<Rightarrow> bool) \<Rightarrow> 'a list \<Rightarrow> nat option" where
  "find_index P [] = None"
| "find_index P (x # xs) = (if P x then Some 0 else map_option Suc (find_index P xs))"

lemma find_index_SomeD:
  "find_index P xs = Some i \<Longrightarrow> i < length xs \<and> P (xs ! i) \<and> (\<forall>j<i. \<not> P (xs ! j))"
proof (induction xs arbitrary: i)
  case (Cons x xs)
  then show ?case
    by (cases i) (auto split: if_splits simp: nth_Cons split: nat.splits)
qed simp

lemma find_index_None_iff: "find_index P xs = None \<longleftrightarrow> (\<forall>x\<in>set xs. \<not> P x)"
  by (induction xs) auto

lemma find_index_Some_ex: "(\<exists>i. find_index P xs = Some i) \<longleftrightarrow> (\<exists>x\<in>set xs. P x)"
  using find_index_None_iff [of P xs] by (cases "find_index P xs") auto

text \<open>A \<open>Map\<close> as the list of its entries: \<open>set\<close> keeps the place of an existing key.\<close>

fun map_set :: "'k \<Rightarrow> 'v \<Rightarrow> ('k \<times> 'v) list \<Rightarrow> ('k \<times> 'v) list" where
  "map_set k v [] = [(k, v)]"
| "map_set k v ((k', v') # m) = (if k' = k then (k, v) # m else (k', v') # map_set k v m)"

definition map_delete :: "'k \<Rightarrow> ('k \<times> 'v) list \<Rightarrow> ('k \<times> 'v) list" where
  "map_delete k m = filter (\<lambda>e. fst e \<noteq> k) m"

lemma map_of_map_set [simp]: "map_of (map_set k v m) = (map_of m)(k \<mapsto> v)"
  by (induction k v m rule: map_set.induct) auto

lemma map_of_map_delete [simp]: "map_of (map_delete k m) = (map_of m)(k := None)"
  by (induction m) (auto simp: map_delete_def fun_eq_iff)

lemma map_set_new: "map_of m k = None \<Longrightarrow> map_set k v m = m @ [(k, v)]"
  by (induction k v m rule: map_set.induct) (auto split: if_splits)

lemma distinct_map_set [simp]:
  "distinct (map fst m) \<Longrightarrow> distinct (map fst (map_set k v m))"
proof (induction k v m rule: map_set.induct)
  case (2 k v k' v' m)
  have "set (map fst (map_set k v m)) = insert k (set (map fst m))"
    by (induction k v m rule: map_set.induct) auto
  with 2 show ?case by auto
qed simp

lemma distinct_map_delete [simp]:
  "distinct (map fst m) \<Longrightarrow> distinct (map fst (map_delete k m))"
  by (induction m) (auto simp: map_delete_def)

lemma set_map_delete: "set (map_delete k m) = {e \<in> set m. fst e \<noteq> k}"
  by (auto simp: map_delete_def)

text \<open>\<open>[...new Set(xs)]\<close>: the first occurrence of each element, in order.\<close>

definition unique :: "'a list \<Rightarrow> 'a list" where
  "unique xs = rev (remdups (rev xs))"

lemma set_unique [simp]: "set (unique xs) = set xs"
  by (simp add: unique_def)

lemma distinct_unique [simp]: "distinct (unique xs)"
  by (simp add: unique_def)

lemma unique_distinct: "distinct xs \<Longrightarrow> unique xs = xs"
  by (simp add: unique_def distinct_remdups_id)

lemma unique_Nil [simp]: "unique [] = []"
  by (simp add: unique_def)

lemma remdups_snoc: "remdups (xs @ [x]) = filter (\<lambda>y. y \<noteq> x) (remdups xs) @ [x]"
  by (induction xs) auto

lemma unique_Cons [simp]: "unique (x # xs) = x # filter (\<lambda>y. y \<noteq> x) (unique xs)"
  by (simp add: unique_def remdups_snoc rev_filter)

lemma unique_append: "unique (xs @ ys) = unique xs @ filter (\<lambda>y. y \<notin> set xs) (unique ys)"
  by (induction xs) (auto intro: filter_cong)

text \<open>Pairwise facts about the elements of a list, kept by removing one of them.\<close>
lemma sorted_wrt_filter_sub: "sorted_wrt P xs \<Longrightarrow> sorted_wrt P (filter Q xs)"
  by (induction xs) auto

text \<open>
  \<open>xs.sort(compare)\<close>, which is stable: \<open>le x y\<close> stands for \<open>compare(x, y) <= 0\<close>.
\<close>

fun insert_by :: "('a \<Rightarrow> 'a \<Rightarrow> bool) \<Rightarrow> 'a \<Rightarrow> 'a list \<Rightarrow> 'a list" where
  "insert_by le x [] = [x]"
| "insert_by le x (y # ys) = (if le x y then x # y # ys else y # insert_by le x ys)"

definition sort_by :: "('a \<Rightarrow> 'a \<Rightarrow> bool) \<Rightarrow> 'a list \<Rightarrow> 'a list" where
  "sort_by le xs = foldr (insert_by le) xs []"

lemma mset_insert_by [simp]: "mset (insert_by le x ys) = add_mset x (mset ys)"
  by (induction ys) auto

lemma mset_sort_by [simp]: "mset (sort_by le xs) = mset xs"
  unfolding sort_by_def by (induction xs) auto

lemma set_insert_by [simp]: "set (insert_by le x ys) = insert x (set ys)"
  by (induction ys) auto

lemma set_sort_by [simp]: "set (sort_by le xs) = set xs"
  unfolding sort_by_def by (induction xs) auto

lemma distinct_sort_by [simp]: "distinct (sort_by le xs) = distinct xs"
  by (metis mset_eq_imp_distinct_iff mset_sort_by)

text \<open>A relation that holds one way or the other for each comparison is established by sorting.\<close>
lemma sorted_wrt_insert_by:
  assumes "\<And>a b. le a b \<Longrightarrow> P a b" and "\<And>a b. \<not> le a b \<Longrightarrow> P b a" and "transp P"
    and "sorted_wrt P ys"
  shows "sorted_wrt P (insert_by le x ys)"
  using assms(4)
proof (induction ys)
  case (Cons y ys)
  show ?case
  proof (cases "le x y")
    case True
    then have "P x y" by (rule assms(1))
    with Cons.prems True show ?thesis using assms(3) by (auto dest: transpD)
  next
    case False
    then have "P y x" by (rule assms(2))
    with Cons False show ?thesis by auto
  qed
qed simp

lemma sorted_wrt_sort_by:
  assumes "\<And>a b. le a b \<Longrightarrow> P a b" and "\<And>a b. \<not> le a b \<Longrightarrow> P b a" and "transp P"
  shows "sorted_wrt P (sort_by le xs)"
  unfolding sort_by_def
  by (induction xs) (auto intro: sorted_wrt_insert_by [where P = P, OF assms])

end
