(* ===== verification/PosixPath.thy ===== *)
theory PosixPath
  imports Prelude
begin

text \<open>
  The POSIX path functions of the standard library that the source calls:
  \<open>path.posix.normalize\<close>, \<open>join\<close> and \<open>resolve\<close>, as functions on the segments between
  slashes, and the absolute paths they produce.
\<close>

abbreviation slash :: nat where "slash \<equiv> 47"
abbreviation dot :: jstring where "dot \<equiv> [46]"
abbreviation dotdot :: jstring where "dotdot \<equiv> [46, 46]"

text \<open>\<open>s.split(d)\<close> for a one-unit separator.\<close>

fun split_on :: "nat \<Rightarrow> jstring \<Rightarrow> jstring list" where
  "split_on d [] = [[]]"
| "split_on d (c # s) =
     (if c = d then [] # split_on d s
      else case split_on d s of [] \<Rightarrow> [[c]] | x # xs \<Rightarrow> (c # x) # xs)"

fun join_with :: "nat \<Rightarrow> jstring list \<Rightarrow> jstring" where
  "join_with d [] = []"
| "join_with d [x] = x"
| "join_with d (x # y # xs) = x @ d # join_with d (y # xs)"

lemma split_on_not_Nil [simp]: "split_on d s \<noteq> []"
  by (induction s) (auto split: list.splits)

lemma split_on_no_sep: "x \<in> set (split_on d s) \<Longrightarrow> d \<notin> set x"
proof (induction s arbitrary: x)
  case (Cons c s)
  then show ?case
    by (cases "split_on d s") (auto split: if_splits)
qed simp

lemma split_on_plain: "d \<notin> set x \<Longrightarrow> split_on d x = [x]"
  by (induction x) auto

lemma split_on_append: "d \<notin> set x \<Longrightarrow> split_on d (x @ d # s) = x # split_on d s"
  by (induction x) auto

lemma split_join:
  "xs \<noteq> [] \<Longrightarrow> \<forall>x\<in>set xs. d \<notin> set x \<Longrightarrow> split_on d (join_with d xs) = xs"
  by (induction xs rule: join_with.induct) (auto simp: split_on_plain split_on_append)

lemma join_split: "join_with d (split_on d s) = s"
proof (induction s)
  case (Cons c s)
  then show ?case
    by (cases "split_on d s" rule: list.exhaust;
        cases "tl (split_on d s)" rule: list.exhaust) auto
qed simp

section \<open>Segments\<close>

text \<open>One segment of \<open>normalizeString\<close>: \<open>allow\<close> keeps a leading \<open>..\<close> of a relative path.\<close>

definition push_segment :: "bool \<Rightarrow> jstring list \<Rightarrow> jstring \<Rightarrow> jstring list" where
  "push_segment allow st seg =
     (if seg = [] \<or> seg = dot then st
      else if seg = dotdot then
        (if st \<noteq> [] \<and> last st \<noteq> dotdot then butlast st
         else if allow then st @ [dotdot] else st)
      else st @ [seg])"

definition normalize_segments :: "bool \<Rightarrow> jstring list \<Rightarrow> jstring list" where
  "normalize_segments allow segs = foldl (push_segment allow) [] segs"

definition posix_normalize :: "jstring \<Rightarrow> jstring" where
  "posix_normalize s =
     (if s = [] then dot
      else
        let is_abs = (hd s = slash);
            trailing = (last s = slash);
            p = join_with slash (normalize_segments (\<not> is_abs) (split_on slash s))
        in if p = [] then (if is_abs then [slash] else if trailing then [46, slash] else dot)
           else
             let p' = (if trailing then p @ [slash] else p)
             in if is_abs then slash # p' else p')"

definition posix_join :: "jstring list \<Rightarrow> jstring" where
  "posix_join parts =
     (let ps = filter (\<lambda>p. p \<noteq> []) parts
      in if ps = [] then dot else posix_normalize (join_with slash ps))"

text \<open>
  \<open>resolve(base, target)\<close>: the target when absolute, else the target under the base, else under
  the working directory \<open>cwd\<close> of the process; a trailing slash is dropped.
\<close>

definition posix_resolve2 :: "jstring \<Rightarrow> jstring \<Rightarrow> jstring \<Rightarrow> jstring" where
  "posix_resolve2 cwd base target =
     (let full = (if starts_with target [slash] then target
                  else if starts_with base [slash] then base @ slash # target
                  else cwd @ slash # base @ slash # target);
          p = join_with slash (normalize_segments (\<not> starts_with full [slash]) (split_on slash full))
      in if starts_with full [slash] then slash # p else if p = [] then dot else p)"

text \<open>A segment that survives normalization, and the absolute path of a list of them.\<close>

definition plain_segment :: "jstring \<Rightarrow> bool" where
  "plain_segment x \<longleftrightarrow> x \<noteq> [] \<and> slash \<notin> set x \<and> x \<noteq> dot \<and> x \<noteq> dotdot"

definition abs_path :: "jstring list \<Rightarrow> jstring" where
  "abs_path segs = slash # join_with slash segs"

lemma abs_path_Nil [simp]: "abs_path [] = [slash]"
  by (simp add: abs_path_def)

lemma push_segment_plain:
  assumes "slash \<notin> set seg" and "list_all plain_segment st"
  shows "list_all plain_segment (push_segment False st seg)"
  using assms
  by (auto simp: push_segment_def plain_segment_def list_all_iff dest: in_set_butlastD)

lemma normalize_segments_plain:
  assumes "\<forall>x\<in>set segs. slash \<notin> set x"
  shows "list_all plain_segment (normalize_segments False segs)"
proof -
  have "list_all plain_segment st \<Longrightarrow>
      list_all plain_segment (foldl (push_segment False) st segs)" for st
    using assms by (induction segs arbitrary: st) (auto simp: push_segment_plain)
  then show ?thesis by (simp add: normalize_segments_def)
qed

lemma foldl_push_plain:
  "list_all plain_segment segs \<Longrightarrow> foldl (push_segment allow) st segs = st @ segs"
  by (induction segs arbitrary: st) (auto simp: push_segment_def plain_segment_def)

lemma normalize_segments_id [simp]:
  "list_all plain_segment segs \<Longrightarrow> normalize_segments allow segs = segs"
  by (simp add: normalize_segments_def foldl_push_plain)

lemma normalize_segments_Nil_Cons:
  "normalize_segments allow ([] # segs) = normalize_segments allow segs"
  by (simp add: normalize_segments_def push_segment_def)

lemma normalize_segments_snoc_Nil:
  "normalize_segments allow (segs @ [[]]) = normalize_segments allow segs"
  by (simp add: normalize_segments_def push_segment_def)

lemma plain_no_slash: "list_all plain_segment segs \<Longrightarrow> \<forall>x\<in>set segs. slash \<notin> set x"
  by (auto simp: list_all_iff plain_segment_def)

lemma split_abs_path:
  assumes "list_all plain_segment segs" and "segs \<noteq> []"
  shows "split_on slash (abs_path segs) = [] # segs"
  using split_join [OF assms(2) plain_no_slash [OF assms(1)]] by (simp add: abs_path_def)

lemma join_with_eq_Nil: "list_all plain_segment segs \<Longrightarrow> join_with slash segs = [] \<longleftrightarrow> segs = []"
  by (cases segs; cases "tl segs") (auto simp: plain_segment_def)

lemma join_with_last:
  "list_all plain_segment segs \<Longrightarrow> segs \<noteq> [] \<Longrightarrow>
     join_with slash segs \<noteq> [] \<and> last (join_with slash segs) \<noteq> slash"
proof (induction "slash" segs rule: join_with.induct)
  case (2 x)
  then have "x \<noteq> []" and "slash \<notin> set x" by (auto simp: plain_segment_def)
  moreover from this have "last x \<noteq> slash" by (metis last_in_set)
  ultimately show ?case by simp
qed auto

text \<open>Normalizing an absolute path gives the absolute path of plain segments, up to a final slash.\<close>
lemma posix_normalize_abs:
  assumes "starts_with s [slash]"
  obtains segs where "list_all plain_segment segs"
    and "segs = normalize_segments False (split_on slash s)"
    and "posix_normalize s = abs_path segs \<or> posix_normalize s = abs_path segs @ [slash] \<and> segs \<noteq> []"
proof
  let ?segs = "normalize_segments False (split_on slash s)"
  show plain: "list_all plain_segment ?segs"
    by (rule normalize_segments_plain) (simp add: split_on_no_sep)
  show "?segs = ?segs" by simp
  obtain t where s: "s = slash # t" using assms by (auto simp: prefix_def)
  show "posix_normalize s = abs_path ?segs \<or>
      posix_normalize s = abs_path ?segs @ [slash] \<and> ?segs \<noteq> []"
    using join_with_eq_Nil [OF plain]
    by (auto simp: posix_normalize_def s Let_def abs_path_def)
qed

lemma posix_normalize_abs_path [simp]:
  assumes "list_all plain_segment segs"
  shows "posix_normalize (abs_path segs) = abs_path segs"
proof (cases "segs = []")
  case True
  then show ?thesis by (simp add: posix_normalize_def normalize_segments_def push_segment_def)
next
  case False
  have "normalize_segments False (split_on slash (abs_path segs)) = segs"
    using assms False by (simp add: split_abs_path normalize_segments_Nil_Cons)
  moreover have "last (abs_path segs) \<noteq> slash"
    using join_with_last [OF assms False] by (simp add: abs_path_def)
  ultimately show ?thesis
    using join_with_eq_Nil [OF assms] False
    by (simp add: posix_normalize_def Let_def abs_path_def)
qed

lemma abs_path_inject:
  assumes "list_all plain_segment xs" and "list_all plain_segment ys"
  shows "abs_path xs = abs_path ys \<longleftrightarrow> xs = ys"
proof
  assume eq: "abs_path xs = abs_path ys"
  then have j: "join_with slash xs = join_with slash ys" by (simp add: abs_path_def)
  have "xs = [] \<longleftrightarrow> ys = []"
    unfolding join_with_eq_Nil [OF assms(1), symmetric] join_with_eq_Nil [OF assms(2), symmetric]
    by (simp only: j)
  moreover have "xs = ys" if "xs \<noteq> []" and "ys \<noteq> []"
  proof -
    have "[] # xs = split_on slash (abs_path xs)"
      by (rule split_abs_path [OF assms(1) that(1), symmetric])
    also have "\<dots> = split_on slash (abs_path ys)" by (simp only: eq)
    also have "\<dots> = [] # ys" by (rule split_abs_path [OF assms(2) that(2)])
    finally show ?thesis by simp
  qed
  ultimately show "xs = ys" by blast
qed simp

text \<open>The string prefix that the source tests is the prefix order on segments.\<close>
lemma abs_path_append:
  "xs \<noteq> [] \<Longrightarrow> ys \<noteq> [] \<Longrightarrow> abs_path (xs @ ys) = abs_path xs @ slash # join_with slash ys"
proof -
  assume ne: "xs \<noteq> []" "ys \<noteq> []"
  then have "join_with slash (xs @ ys) = join_with slash xs @ slash # join_with slash ys"
  proof (induction xs rule: join_with.induct)
    case (2 d x)
    then show ?case by (cases ys) auto
  qed auto
  then show ?thesis by (simp add: abs_path_def)
qed

lemma split_on_prefix_sep:
  "split_on d (p @ d # s) = split_on d p @ split_on d s"
proof (induction p)
  case (Cons c p)
  then show ?case by (cases "split_on d p") auto
qed simp

lemma starts_with_abs_path:
  assumes "list_all plain_segment xs" and "list_all plain_segment ys" and "ys \<noteq> []" and "xs \<noteq> []"
  shows "starts_with (abs_path xs) (abs_path ys @ [slash]) \<longleftrightarrow> strict_prefix ys xs"
proof
  assume "starts_with (abs_path xs) (abs_path ys @ [slash])"
  then obtain t where t: "abs_path xs = abs_path ys @ slash # t"
    by (auto simp: prefix_def)
  have "split_on slash (abs_path xs) = split_on slash (abs_path ys) @ split_on slash t"
    unfolding t by (rule split_on_prefix_sep)
  then have "xs = ys @ split_on slash t"
    by (simp add: split_abs_path assms)
  then show "strict_prefix ys xs"
    by (auto simp: strict_prefix_def)
next
  assume "strict_prefix ys xs"
  then obtain zs where "xs = ys @ zs" "zs \<noteq> []" by (auto simp: strict_prefix_def prefix_def)
  then show "starts_with (abs_path xs) (abs_path ys @ [slash])"
    using assms by (simp add: abs_path_append)
qed

text \<open>A relative path stays relative.\<close>
lemma normalize_segments_parts:
  assumes "\<forall>x\<in>set segs. slash \<notin> set x" and "x \<in> set (normalize_segments allow segs)"
  shows "x \<noteq> [] \<and> slash \<notin> set x"
proof -
  have "\<forall>x\<in>set st. x \<noteq> [] \<and> slash \<notin> set x \<Longrightarrow>
      \<forall>x\<in>set (foldl (push_segment allow) st segs). x \<noteq> [] \<and> slash \<notin> set x" for st
    using assms(1)
  proof (induction segs arbitrary: st)
    case (Cons seg segs)
    have "set (push_segment allow st seg) \<subseteq> set st \<union> {dotdot} \<union> ({seg} - {[]})"
      by (auto simp: push_segment_def dest: in_set_butlastD)
    with Cons.prems have "\<forall>x\<in>set (push_segment allow st seg). x \<noteq> [] \<and> slash \<notin> set x"
      by auto
    then have "\<forall>x\<in>set (foldl (push_segment allow) (push_segment allow st seg) segs).
        x \<noteq> [] \<and> slash \<notin> set x"
      by (rule Cons.IH) (use Cons.prems in simp)
    then show ?case by (simp only: foldl.simps)
  qed simp
  from this [of "[]"] assms(2) show ?thesis
    unfolding normalize_segments_def by auto
qed

lemma starts_join_with:
  "\<forall>x\<in>set xs. x \<noteq> [] \<and> slash \<notin> set x \<Longrightarrow> \<not> starts_with (join_with slash xs) [slash]"
proof (induction "slash" xs rule: join_with.induct)
  case (2 x)
  then show ?case by (cases x) (auto simp: prefix_Cons)
next
  case (3 x y xs)
  then show ?case by (cases x) (auto simp: prefix_Cons)
qed simp

lemma posix_normalize_relative:
  assumes "\<not> starts_with s [slash]"
  shows "\<not> starts_with (posix_normalize s) [slash]"
proof (cases s)
  case Nil
  then show ?thesis by (simp add: posix_normalize_def)
next
  case (Cons c t)
  with assms have c: "c \<noteq> slash" by (auto simp: prefix_Cons)
  let ?p = "join_with slash (normalize_segments True (split_on slash s))"
  have rel: "\<not> starts_with ?p [slash]"
  proof (rule starts_join_with, rule ballI)
    have ns: "\<forall>x\<in>set (split_on slash s). slash \<notin> set x" by (simp add: split_on_no_sep)
    fix x assume "x \<in> set (normalize_segments True (split_on slash s))"
    with ns show "x \<noteq> [] \<and> slash \<notin> set x" by (rule normalize_segments_parts)
  qed
  have "posix_normalize s \<in> {[46, slash], dot} \<or>
      (?p \<noteq> [] \<and> (posix_normalize s = ?p \<or> posix_normalize s = ?p @ [slash]))"
    using c Cons by (simp add: posix_normalize_def Let_def)
  then show ?thesis
  proof
    assume "posix_normalize s \<in> {[46, slash], dot}"
    then show ?thesis by auto
  next
    assume *: "?p \<noteq> [] \<and> (posix_normalize s = ?p \<or> posix_normalize s = ?p @ [slash])"
    then obtain a b where ab: "?p = a # b" by (auto simp: neq_Nil_conv)
    with rel have "a \<noteq> slash" by (simp add: prefix_Cons)
    with * ab show ?thesis by (auto simp: prefix_Cons)
  qed
qed

end
