(* ===== verification/ClaimPaths.thy ===== *)
theory ClaimPaths
  imports PosixPath
begin

text \<open>
  The path claims of the SFTP task scheduler (packages/backend/src/sftp/task-scheduler.ts): how a
  raw remote path becomes a canonical claim, when two claims conflict, and how a task's claims are
  minimized. Canonical claims are the absolute paths of plain segments, and conflict is
  comparability in the prefix order on segments.
\<close>

section \<open>The operations\<close>

definition strip_trailing_slashes :: "jstring \<Rightarrow> jstring" where
  "strip_trailing_slashes s = rev (dropWhile (\<lambda>c. c = slash) (rev s))"

definition normalizeSftpTaskClaimPath :: "jstring \<Rightarrow> jstring" where
  "normalizeSftpTaskClaimPath input =
     (let trimmed = trim input
      in if trimmed = [] then [slash]
         else
           let normalized = posix_normalize (map (\<lambda>c. if c = 92 then slash else c) trimmed)
           in if \<not> starts_with normalized [slash] then [slash]
              else if normalized = [slash] then normalized
              else strip_trailing_slashes normalized)"

definition doSftpTaskClaimsConflict :: "jstring \<Rightarrow> jstring \<Rightarrow> bool" where
  "doSftpTaskClaimsConflict left right =
     (if left = right \<or> left = [slash] \<or> right = [slash] then True
      else starts_with left (right @ [slash]) \<or> starts_with right (left @ [slash]))"

definition doClaimSetsConflict :: "jstring list \<Rightarrow> jstring list \<Rightarrow> bool" where
  "doClaimSetsConflict left right =
     list_ex (\<lambda>leftClaim. list_ex (\<lambda>rightClaim. doSftpTaskClaimsConflict leftClaim rightClaim) right) left"

text \<open>
  \<open>locale_le\<close> is \<open>localeCompare(...) <= 0\<close>, the collation of the host, which only orders claims of
  the same length.
\<close>

definition claim_le :: "(jstring \<Rightarrow> jstring \<Rightarrow> bool) \<Rightarrow> jstring \<Rightarrow> jstring \<Rightarrow> bool" where
  "claim_le locale_le left right \<longleftrightarrow>
     length left < length right \<or> length left = length right \<and> locale_le left right"

fun minimize_claims :: "jstring list \<Rightarrow> jstring list \<Rightarrow> jstring list" where
  "minimize_claims minimal [] = minimal"
| "minimize_claims minimal (claim # claims) =
     (if list_ex (\<lambda>existing. doSftpTaskClaimsConflict existing claim) minimal
      then minimize_claims minimal claims
      else minimize_claims (minimal @ [claim]) claims)"

definition normalizeSftpTaskClaims ::
    "(jstring \<Rightarrow> jstring \<Rightarrow> bool) \<Rightarrow> jstring list \<Rightarrow> jstring list" where
  "normalizeSftpTaskClaims locale_le claims =
     minimize_claims []
       (sort_by (claim_le locale_le) (unique (map normalizeSftpTaskClaimPath claims)))"

section \<open>Canonical claims\<close>

definition canonical_claim :: "jstring \<Rightarrow> bool" where
  "canonical_claim p \<longleftrightarrow> (\<exists>segs. list_all plain_segment segs \<and> p = abs_path segs)"

lemma canonical_claim_root [simp]: "canonical_claim [slash]"
  unfolding canonical_claim_def by (rule exI [of _ "[]"]) simp

lemma strip_no_slash: "s \<noteq> [] \<Longrightarrow> last s \<noteq> slash \<Longrightarrow> strip_trailing_slashes s = s"
  by (cases s rule: rev_cases) (auto simp: strip_trailing_slashes_def)

lemma strip_snoc_slash [simp]: "strip_trailing_slashes (s @ [slash]) = strip_trailing_slashes s"
  by (simp add: strip_trailing_slashes_def)

lemma strip_abs_path:
  assumes "list_all plain_segment segs" and "segs \<noteq> []"
  shows "strip_trailing_slashes (abs_path segs) = abs_path segs"
  using join_with_last [OF assms] by (intro strip_no_slash) (auto simp: abs_path_def)

lemma abs_path_eq_root:
  "list_all plain_segment segs \<Longrightarrow> abs_path segs = [slash] \<longleftrightarrow> segs = []"
  using abs_path_inject [of segs "[]"] by simp

lemma normalizeSftpTaskClaimPath_canonical:
  "canonical_claim (normalizeSftpTaskClaimPath input)"
proof -
  let ?t = "map (\<lambda>c. if c = 92 then slash else c) (trim input)"
  show ?thesis
  proof (cases "trim input \<noteq> [] \<and> starts_with (posix_normalize ?t) [slash] \<and>
      posix_normalize ?t \<noteq> [slash]")
    case False
    then show ?thesis by (auto simp: normalizeSftpTaskClaimPath_def Let_def)
  next
    case True
    have "starts_with ?t [slash]"
      using True posix_normalize_relative by blast
    then obtain segs where segs: "list_all plain_segment segs"
      and "posix_normalize ?t = abs_path segs \<or>
        posix_normalize ?t = abs_path segs @ [slash] \<and> segs \<noteq> []"
      by (rule posix_normalize_abs)
    then have "normalizeSftpTaskClaimPath input = abs_path segs"
      using True strip_abs_path [OF segs] abs_path_eq_root [OF segs]
      by (auto simp: normalizeSftpTaskClaimPath_def Let_def)
    with segs show ?thesis by (auto simp: canonical_claim_def)
  qed
qed

lemma doSftpTaskClaimsConflict_abs_path:
  assumes "list_all plain_segment xs" and "list_all plain_segment ys"
  shows "doSftpTaskClaimsConflict (abs_path xs) (abs_path ys) \<longleftrightarrow> prefix xs ys \<or> prefix ys xs"
proof (cases "xs = [] \<or> ys = []")
  case True
  then show ?thesis by (auto simp: doSftpTaskClaimsConflict_def)
next
  case False
  then show ?thesis
    using assms
    by (auto simp: doSftpTaskClaimsConflict_def abs_path_inject abs_path_eq_root
        starts_with_abs_path strict_prefix_def)
qed

lemma conflict_refl [simp]: "doSftpTaskClaimsConflict c c"
  by (simp add: doSftpTaskClaimsConflict_def)

lemma conflict_sym: "doSftpTaskClaimsConflict a b = doSftpTaskClaimsConflict b a"
  by (auto simp: doSftpTaskClaimsConflict_def)

lemma doClaimSetsConflict_iff:
  "doClaimSetsConflict left right \<longleftrightarrow>
     (\<exists>l\<in>set left. \<exists>r\<in>set right. doSftpTaskClaimsConflict l r)"
  by (simp add: doClaimSetsConflict_def list_ex_iff)

lemma doClaimSetsConflict_sym: "doClaimSetsConflict a b = doClaimSetsConflict b a"
  unfolding doClaimSetsConflict_iff by (metis conflict_sym)

text \<open>A canonical claim covers another when it is the same path or an ancestor.\<close>

definition covers :: "jstring \<Rightarrow> jstring \<Rightarrow> bool" where
  "covers a c \<longleftrightarrow> (\<exists>xs ys. list_all plain_segment xs \<and> list_all plain_segment ys \<and>
     a = abs_path xs \<and> c = abs_path ys \<and> prefix xs ys)"

lemma covers_refl: "canonical_claim c \<Longrightarrow> covers c c"
  by (auto simp: covers_def canonical_claim_def)

lemma length_abs_path_strict:
  "xs \<noteq> [] \<Longrightarrow> zs \<noteq> [] \<Longrightarrow> length (abs_path xs) < length (abs_path (xs @ zs))"
  by (simp add: abs_path_append)

lemma conflict_covers:
  assumes "canonical_claim a" and "canonical_claim c" and "length a \<le> length c"
    and "doSftpTaskClaimsConflict a c"
  shows "covers a c"
proof -
  from assms obtain xs ys where xs: "list_all plain_segment xs" "a = abs_path xs"
    and ys: "list_all plain_segment ys" "c = abs_path ys"
    by (auto simp: canonical_claim_def)
  with assms(4) have "prefix xs ys \<or> prefix ys xs"
    by (simp add: doSftpTaskClaimsConflict_abs_path)
  moreover have "xs = ys" if "prefix ys xs"
  proof (rule ccontr)
    assume "xs \<noteq> ys"
    with that obtain zs where zs: "xs = ys @ zs" "zs \<noteq> []" by (auto simp: prefix_def)
    have "length (abs_path ys) < length (abs_path xs)"
    proof (cases "ys = []")
      case True
      with zs xs(1) show ?thesis
        using join_with_eq_Nil [OF xs(1)] by (simp add: abs_path_def)
    next
      case False
      with zs show ?thesis by (simp add: length_abs_path_strict)
    qed
    with assms(3) xs ys show False by simp
  qed
  ultimately show ?thesis using xs ys by (auto simp: covers_def)
qed

lemma covers_conflict:
  assumes "covers a c" and "canonical_claim b" and "doSftpTaskClaimsConflict c b"
  shows "doSftpTaskClaimsConflict a b"
proof -
  from assms obtain xs ys zs where "list_all plain_segment xs" "list_all plain_segment ys"
    "list_all plain_segment zs" "a = abs_path xs" "c = abs_path ys" "b = abs_path zs" "prefix xs ys"
    by (auto simp: covers_def canonical_claim_def)
  with assms(3) show ?thesis
    using prefix_same_cases [of xs ys zs] prefix_order.trans [of xs ys zs]
    by (auto simp: doSftpTaskClaimsConflict_abs_path)
qed

section \<open>Minimized claim sets\<close>

lemma minimize_claims_subset:
  "set (minimize_claims m cs) \<subseteq> set m \<union> set cs \<and> set m \<subseteq> set (minimize_claims m cs)"
  by (induction m cs rule: minimize_claims.induct) auto

lemma minimize_claims_antichain:
  assumes "sorted_wrt (\<lambda>a b. \<not> doSftpTaskClaimsConflict a b) m"
  shows "sorted_wrt (\<lambda>a b. \<not> doSftpTaskClaimsConflict a b) (minimize_claims m cs)"
  using assms
  by (induction m cs rule: minimize_claims.induct)
    (auto simp: list_ex_iff sorted_wrt_append)

lemma minimize_claims_covers:
  assumes "sorted_wrt (\<lambda>a b. length a \<le> length b) (m @ cs)"
    and "\<forall>c\<in>set (m @ cs). canonical_claim c" and "c \<in> set (m @ cs)"
  shows "\<exists>a\<in>set (minimize_claims m cs). covers a c"
  using assms
proof (induction m cs arbitrary: c rule: minimize_claims.induct)
  case (1 m)
  then show ?case using covers_refl by auto
next
  case (2 m claim claims)
  show ?case
  proof (cases "list_ex (\<lambda>e. doSftpTaskClaimsConflict e claim) m")
    case False
    then show ?thesis using 2 by simp
  next
    case True
    have rest: "\<exists>a\<in>set (minimize_claims m claims). covers a c" if "c \<in> set (m @ claims)" for c
      using 2(1) [OF True _ _ that] 2(3-4) by (simp add: sorted_wrt_append)
    obtain e where e: "e \<in> set m" "doSftpTaskClaimsConflict e claim"
      using True by (auto simp: list_ex_iff)
    then have "covers e claim"
      using 2(3,4) by (intro conflict_covers) (auto simp: sorted_wrt_append)
    moreover have "e \<in> set (minimize_claims m claims)"
      using e minimize_claims_subset by blast
    ultimately show ?thesis
      using rest 2(5) True by (cases "c = claim") auto
  qed
qed

text \<open>The sort puts shorter claims first whatever the collation is.\<close>
lemma sorted_claims:
  "sorted_wrt (\<lambda>a b. length a \<le> length b) (sort_by (claim_le locale_le) cs)"
  by (rule sorted_wrt_sort_by) (auto simp: claim_le_def transp_def)

lemma normalizeSftpTaskClaims_canonical:
  "c \<in> set (normalizeSftpTaskClaims locale_le claims) \<Longrightarrow> canonical_claim c"
  using minimize_claims_subset normalizeSftpTaskClaimPath_canonical
  unfolding normalizeSftpTaskClaims_def by fastforce

lemma normalizeSftpTaskClaims_from_raw:
  "c \<in> set (normalizeSftpTaskClaims locale_le claims) \<Longrightarrow>
     \<exists>raw\<in>set claims. c = normalizeSftpTaskClaimPath raw"
  using minimize_claims_subset unfolding normalizeSftpTaskClaims_def by fastforce

lemma normalizeSftpTaskClaims_covers:
  assumes "raw \<in> set claims"
  shows "\<exists>a\<in>set (normalizeSftpTaskClaims locale_le claims). covers a (normalizeSftpTaskClaimPath raw)"
  unfolding normalizeSftpTaskClaims_def
  using assms normalizeSftpTaskClaimPath_canonical
  by (intro minimize_claims_covers) (auto simp: sorted_claims)

lemma normalizeSftpTaskClaims_antichain:
  "sorted_wrt (\<lambda>a b. \<not> doSftpTaskClaimsConflict a b) (normalizeSftpTaskClaims locale_le claims)"
  unfolding normalizeSftpTaskClaims_def by (rule minimize_claims_antichain) simp

lemma normalized_conflict:
  "doClaimSetsConflict (normalizeSftpTaskClaims le xs) (normalizeSftpTaskClaims le ys) \<longleftrightarrow>
     (\<exists>x\<in>set xs. \<exists>y\<in>set ys.
        doSftpTaskClaimsConflict (normalizeSftpTaskClaimPath x) (normalizeSftpTaskClaimPath y))"
proof
  assume "doClaimSetsConflict (normalizeSftpTaskClaims le xs) (normalizeSftpTaskClaims le ys)"
  then show "\<exists>x\<in>set xs. \<exists>y\<in>set ys.
      doSftpTaskClaimsConflict (normalizeSftpTaskClaimPath x) (normalizeSftpTaskClaimPath y)"
    unfolding doClaimSetsConflict_iff by (metis normalizeSftpTaskClaims_from_raw)
next
  assume "\<exists>x\<in>set xs. \<exists>y\<in>set ys.
      doSftpTaskClaimsConflict (normalizeSftpTaskClaimPath x) (normalizeSftpTaskClaimPath y)"
  then obtain x y where xy: "x \<in> set xs" "y \<in> set ys"
    "doSftpTaskClaimsConflict (normalizeSftpTaskClaimPath x) (normalizeSftpTaskClaimPath y)"
    by blast
  obtain a where a: "a \<in> set (normalizeSftpTaskClaims le xs)" "covers a (normalizeSftpTaskClaimPath x)"
    using normalizeSftpTaskClaims_covers [OF xy(1)] by blast
  obtain b where b: "b \<in> set (normalizeSftpTaskClaims le ys)" "covers b (normalizeSftpTaskClaimPath y)"
    using normalizeSftpTaskClaims_covers [OF xy(2)] by blast
  have "doSftpTaskClaimsConflict a (normalizeSftpTaskClaimPath y)"
    using a(2) normalizeSftpTaskClaimPath_canonical xy(3) by (rule covers_conflict)
  then have "doSftpTaskClaimsConflict b a"
    using covers_conflict [OF b(2) normalizeSftpTaskClaims_canonical [OF a(1)]] conflict_sym by blast
  then show "doClaimSetsConflict (normalizeSftpTaskClaims le xs) (normalizeSftpTaskClaims le ys)"
    using a(1) b(1) conflict_sym unfolding doClaimSetsConflict_iff by blast
qed

end
