(* ===== verification/TaskScheduler.thy ===== *)
theory TaskScheduler
  imports ClaimPaths
begin

text \<open>
  The per-session SFTP task scheduler (class \<open>SftpTaskScheduler\<close> of
  packages/backend/src/sftp/task-scheduler.ts): its records, its methods and the events that drive
  it. Task records are mutable objects shared by three collections, so they live in a store
  addressed by their sequence number, and \<open>records\<close>, \<open>queue\<close> and \<open>active\<close> hold addresses. The
  promise chain that \<open>startRecord\<close> builds is the field \<open>rc_chain\<close>, advanced by one event per
  microtask. Promises that the code resolves, hooks and runners it calls are appended to
  \<open>effects\<close>. The clock is read once per event, as the argument \<open>now\<close>.
\<close>

section \<open>Data\<close>

datatype task_state = Queued | Running | Succeeded | Failed | Cancelled

datatype task_impact = ReadImpact | MutationImpact | LifecycleImpact

datatype task_workload = Light | Heavy

record task_resources =
  impact :: task_impact
  workload :: task_workload
  exclusive :: bool

record task_failure =
  fl_code :: jstring
  fl_message :: jstring
  fl_outcomeUnknown :: "bool option"

datatype 'v run_outcome =
    RunSucceeded "'v option"
  | RunFailed task_failure "'v option"
  | RunCancelled "'v option"

record 'v task_spec =
  ts_taskId :: "jstring option"
  ts_operation :: jstring
  ts_resources :: task_resources
  ts_claims :: "jstring list"
  ts_absoluteTimeoutMs :: jsnum
  ts_cancellationSignal :: "bool option" \<comment> \<open>a signal, and whether it is aborted already\<close>
  ts_mapFailure :: "('v \<Rightarrow> task_failure option) option" \<comment> \<open>\<open>None\<close> inside: it throws\<close>
  ts_onAbort :: bool

record 'v task_snapshot =
  sn_taskId :: jstring
  sn_sessionId :: jstring
  sn_operation :: jstring
  sn_state :: task_state
  sn_resources :: task_resources
  sn_claims :: "jstring list"
  sn_createdAt :: rat
  sn_deadlineAt :: rat
  sn_startedAt :: "rat option"
  sn_finishedAt :: "rat option"
  sn_cancelRequested :: bool
  sn_result :: "'v option"
  sn_partialResult :: "'v option"
  sn_failure :: "task_failure option"

record task_limits =
  lm_total :: nat
  lm_heavy :: nat
  lm_mutation :: nat

record 'v stored_spec =
  sp_operation :: jstring
  sp_resources :: task_resources
  sp_absoluteTimeoutMs :: jsnum
  sp_cancellationSignal :: bool
  sp_mapFailure :: "('v \<Rightarrow> task_failure option) option"
  sp_onAbort :: bool

datatype abort_reason = AbortCancelled | AbortDeadline

datatype chain = NotStarted | Admitted | Invoked | Settled | Finalized

record 'v task_record =
  rc_sequence :: nat
  rc_spec :: "'v stored_spec"
  rc_snapshot :: "'v task_snapshot"
  rc_aborted :: "abort_reason option"
  rc_deadlineTimer :: "rat option"
  rc_cancellationListener :: bool
  rc_abortHookInvoked :: bool
  rc_completionResolved :: bool
  rc_releaseResolved :: bool
  rc_chain :: chain

datatype 'v effect =
    CompletionResolved nat "'v task_snapshot"
  | ReleasedResolved nat
  | RunnerInvoked nat
  | AbortHook nat abort_reason
  | IdleResolved nat

record 'v scheduler =
  sc_sessionId :: jstring
  sc_limits :: task_limits
  store :: "nat \<Rightarrow> 'v task_record"
  records :: "(jstring \<times> nat) list"
  queue :: "nat list"
  active :: "(jstring \<times> nat) list"
  idleWaiters :: "nat list"
  sequence :: nat
  isDispatching :: bool
  effects :: "'v effect list"

definition DEADLINE_EXCEEDED_CODE :: jstring where
  "DEADLINE_EXCEEDED_CODE = js ''SFTP_TASK_DEADLINE_EXCEEDED''"

definition TASK_FAILED_CODE :: jstring where
  "TASK_FAILED_CODE = js ''SFTP_OPERATION_FAILED''"

datatype scheduler_error = RangeError string | DuplicateTaskId jstring

section \<open>Helpers\<close>

fun isTerminalState :: "task_state \<Rightarrow> bool" where
  "isTerminalState st = (st = Succeeded \<or> st = Failed \<or> st = Cancelled)"

definition copyFailure :: "task_failure \<Rightarrow> task_failure" where
  "copyFailure f =
     \<lparr>fl_code = fl_code f, fl_message = fl_message f,
      fl_outcomeUnknown = (if fl_outcomeUnknown f = Some True then Some True else None)\<rparr>"

definition copySnapshot :: "'v task_snapshot \<Rightarrow> 'v task_snapshot" where
  "copySnapshot sn = sn\<lparr>sn_failure := map_option copyFailure (sn_failure sn)\<rparr>"

text \<open>The entries are checked in the order total, heavy, mutation.\<close>

definition positive_integer :: "jsnum \<Rightarrow> bool" where
  "positive_integer x \<longleftrightarrow> is_integer x \<and> num_lt (Num 0) x"

fun num_nat :: "jsnum \<Rightarrow> nat" where
  "num_nat (Num q) = nat \<lfloor>q\<rfloor>"
| "num_nat _ = 0"

definition validateLimits :: "jsnum \<Rightarrow> jsnum \<Rightarrow> jsnum \<Rightarrow> scheduler_error + task_limits" where
  "validateLimits totalLimit heavyLimit mutationLimit =
     (if \<not> positive_integer totalLimit then Inl (RangeError ''total'')
      else if \<not> positive_integer heavyLimit then Inl (RangeError ''heavy'')
      else if \<not> positive_integer mutationLimit then Inl (RangeError ''mutation'')
      else if num_lt totalLimit heavyLimit \<or> num_lt totalLimit mutationLimit then Inl (RangeError ''specialized'')
      else Inr \<lparr>lm_total = num_nat totalLimit, lm_heavy = num_nat heavyLimit, lm_mutation = num_nat mutationLimit\<rparr>)"

definition DEFAULT_LIMITS :: "jsnum \<times> jsnum \<times> jsnum" where
  "DEFAULT_LIMITS = (Num 3, Num 2, Num 1)"

definition validateTaskSpec :: "'v task_spec \<Rightarrow> scheduler_error option" where
  "validateTaskSpec spec =
     (if trim (ts_operation spec) = [] then Some (RangeError ''operation'')
      else if \<not> is_finite (ts_absoluteTimeoutMs spec) \<or> num_le (ts_absoluteTimeoutMs spec) (Num 0)
      then Some (RangeError ''timeout'')
      else None)"

text \<open>The constructor: \<open>None\<close> for a limit that the options leave out.\<close>

definition new_scheduler ::
    "jstring \<Rightarrow> jsnum option \<Rightarrow> jsnum option \<Rightarrow> jsnum option \<Rightarrow> scheduler_error + 'v scheduler" where
  "new_scheduler sid totalLimit heavyLimit mutationLimit =
     (if trim sid = [] then Inl (RangeError ''session'')
      else
        let pick = (\<lambda>opt d. case opt of None \<Rightarrow> d | Some x \<Rightarrow> x)
        in case validateLimits (pick totalLimit (fst DEFAULT_LIMITS)) (pick heavyLimit (fst (snd DEFAULT_LIMITS)))
                  (pick mutationLimit (snd (snd DEFAULT_LIMITS))) of
             Inl e \<Rightarrow> Inl e
           | Inr lims \<Rightarrow>
               Inr \<lparr>sc_sessionId = sid, sc_limits = lims, store = (\<lambda>_. undefined), records = [],
                    queue = [], active = [], idleWaiters = [], sequence = 0,
                    isDispatching = False, effects = []\<rparr>)"

text \<open>Reading and updating a record through its address.\<close>

abbreviation state_of :: "'v scheduler \<Rightarrow> nat \<Rightarrow> task_state" where
  "state_of s r \<equiv> sn_state (rc_snapshot (store s r))"

abbreviation taskId_of :: "'v scheduler \<Rightarrow> nat \<Rightarrow> jstring" where
  "taskId_of s r \<equiv> sn_taskId (rc_snapshot (store s r))"

abbreviation claims_of :: "'v scheduler \<Rightarrow> nat \<Rightarrow> jstring list" where
  "claims_of s r \<equiv> sn_claims (rc_snapshot (store s r))"

abbreviation resources_of :: "'v scheduler \<Rightarrow> nat \<Rightarrow> task_resources" where
  "resources_of s r \<equiv> sp_resources (rc_spec (store s r))"

abbreviation chain_of :: "'v scheduler \<Rightarrow> nat \<Rightarrow> chain" where
  "chain_of s r \<equiv> rc_chain (store s r)"

abbreviation active_refs :: "'v scheduler \<Rightarrow> nat list" where
  "active_refs s \<equiv> map snd (active s)"

definition update_record ::
    "nat \<Rightarrow> ('v task_record \<Rightarrow> 'v task_record) \<Rightarrow> 'v scheduler \<Rightarrow> 'v scheduler" where
  "update_record r f s = s\<lparr>store := (store s)(r := f (store s r))\<rparr>"

definition emit :: "'v effect list \<Rightarrow> 'v scheduler \<Rightarrow> 'v scheduler" where
  "emit es s = s\<lparr>effects := effects s @ es\<rparr>"

section \<open>Admission\<close>

definition hasCapacityFor :: "'v scheduler \<Rightarrow> nat \<Rightarrow> bool" where
  "hasCapacityFor s r =
     (if list_ex (\<lambda>a. exclusive (resources_of s a)) (active_refs s) then False
      else if length (active s) \<ge> lm_total (sc_limits s) then False
      else
        let heavyCount = length (filter (\<lambda>a. workload (resources_of s a) = Heavy) (active_refs s))
        in if workload (resources_of s r) = Heavy \<and> heavyCount \<ge> lm_heavy (sc_limits s) then False
           else
             let mutationCount =
               length (filter (\<lambda>a. impact (resources_of s a) = MutationImpact) (active_refs s))
             in impact (resources_of s r) \<noteq> MutationImpact \<or> mutationCount < lm_mutation (sc_limits s))"

definition conflictsWithActive :: "'v scheduler \<Rightarrow> nat \<Rightarrow> bool" where
  "conflictsWithActive s r =
     list_ex (\<lambda>a. doClaimSetsConflict (claims_of s r) (claims_of s a)) (active_refs s)"

definition conflictsWithOlderQueuedClaim :: "'v scheduler \<Rightarrow> nat \<Rightarrow> nat \<Rightarrow> bool" where
  "conflictsWithOlderQueuedClaim s r index =
     list_ex (\<lambda>older. doClaimSetsConflict (claims_of s r) (claims_of s older)) (take index (queue s))"

fun scan_queue :: "'v scheduler \<Rightarrow> nat \<Rightarrow> nat list \<Rightarrow> nat option" where
  "scan_queue s index [] = None"
| "scan_queue s index (r # rs) =
     (if exclusive (resources_of s r)
      then (if index = 0 \<and> active s = [] then Some index else None)
      else if \<not> hasCapacityFor s r \<or> conflictsWithActive s r then scan_queue s (Suc index) rs
      else if conflictsWithOlderQueuedClaim s r index then scan_queue s (Suc index) rs
      else Some index)"

definition findNextRunnableIndex :: "'v scheduler \<Rightarrow> nat option" where
  "findNextRunnableIndex s =
     (let scanLength =
        (case find_index (\<lambda>r. exclusive (resources_of s r)) (queue s) of
           None \<Rightarrow> length (queue s) | Some i \<Rightarrow> i + 1)
      in scan_queue s 0 (take scanLength (queue s)))"

definition startRecord :: "rat \<Rightarrow> nat \<Rightarrow> 'v scheduler \<Rightarrow> 'v scheduler" where
  "startRecord now r s =
     (let s1 = update_record r (\<lambda>rc. rc\<lparr>rc_snapshot := (rc_snapshot rc)
                 \<lparr>sn_state := Running, sn_startedAt := Some now\<rparr>, rc_chain := Admitted\<rparr>) s
      in s1\<lparr>active := map_set (taskId_of s1 r) r (active s1)\<rparr>)"

definition remove_at :: "nat \<Rightarrow> 'a list \<Rightarrow> 'a list" where
  "remove_at i xs = take i xs @ drop (Suc i) xs"

lemma scan_queue_SomeD:
  "scan_queue s i rs = Some j \<Longrightarrow> i \<le> j \<and> j < i + length rs"
  by (induction rs arbitrary: i) (fastforce split: if_splits)+

lemma findNextRunnableIndex_less: "findNextRunnableIndex s = Some i \<Longrightarrow> i < length (queue s)"
  unfolding findNextRunnableIndex_def Let_def by (drule scan_queue_SomeD) simp

lemma queue_startRecord [simp]: "queue (startRecord now r s) = queue s"
  by (simp add: startRecord_def update_record_def Let_def)

text \<open>The \<open>while (true)\<close> loop of \<open>dispatch\<close>: each round removes one record from the queue.\<close>

function dispatch_loop :: "rat \<Rightarrow> 'v scheduler \<Rightarrow> 'v scheduler" where
  "dispatch_loop now s =
     (case findNextRunnableIndex s of
        None \<Rightarrow> s
      | Some i \<Rightarrow>
          dispatch_loop now
            (startRecord now (queue s ! i) (s\<lparr>queue := remove_at i (queue s)\<rparr>)))"
  by pat_completeness auto
termination
  by (relation "measure (\<lambda>(now, s). length (queue s))")
    (auto simp: remove_at_def dest!: findNextRunnableIndex_less)

declare dispatch_loop.simps [simp del]

definition resolveIdleWaiters :: "'v scheduler \<Rightarrow> 'v scheduler" where
  "resolveIdleWaiters s =
     (if queue s \<noteq> [] \<or> active s \<noteq> [] then s
      else (emit (map IdleResolved (idleWaiters s)) s)\<lparr>idleWaiters := []\<rparr>)"

definition dispatch :: "rat \<Rightarrow> 'v scheduler \<Rightarrow> 'v scheduler" where
  "dispatch now s =
     (if isDispatching s then s
      else resolveIdleWaiters
             ((dispatch_loop now (s\<lparr>isDispatching := True\<rparr>))\<lparr>isDispatching := False\<rparr>))"

section \<open>Settlement\<close>

definition cleanupLifecycle :: "nat \<Rightarrow> 'v scheduler \<Rightarrow> 'v scheduler" where
  "cleanupLifecycle r s =
     update_record r (\<lambda>rc. rc\<lparr>rc_deadlineTimer := None,
       rc_cancellationListener :=
         (if rc_cancellationListener rc \<and> sp_cancellationSignal (rc_spec rc) then False
          else rc_cancellationListener rc)\<rparr>) s"

definition clearExecutionReferences :: "nat \<Rightarrow> 'v scheduler \<Rightarrow> 'v scheduler" where
  "clearExecutionReferences r s =
     update_record r (\<lambda>rc. rc\<lparr>rc_spec := (rc_spec rc)
       \<lparr>sp_cancellationSignal := False, sp_mapFailure := None, sp_onAbort := False\<rparr>\<rparr>) s"

definition resolveReleased :: "nat \<Rightarrow> 'v scheduler \<Rightarrow> 'v scheduler" where
  "resolveReleased r s =
     (if rc_releaseResolved (store s r) then s
      else emit [ReleasedResolved r] (update_record r (\<lambda>rc. rc\<lparr>rc_releaseResolved := True\<rparr>) s))"

datatype 'v patch =
    PatchSucceeded "'v option"
  | PatchFailed task_failure "'v option"
  | PatchCancelled "'v option"

fun apply_patch :: "'v patch \<Rightarrow> 'v task_snapshot \<Rightarrow> 'v task_snapshot" where
  "apply_patch (PatchSucceeded v) sn = sn\<lparr>sn_state := Succeeded, sn_result := v\<rparr>"
| "apply_patch (PatchFailed f v) sn =
     sn\<lparr>sn_state := Failed, sn_failure := Some f,
        sn_result := (case v of None \<Rightarrow> sn_result sn | Some _ \<Rightarrow> v)\<rparr>"
| "apply_patch (PatchCancelled v) sn =
     sn\<lparr>sn_state := Cancelled, sn_cancelRequested := True,
        sn_result := (case v of None \<Rightarrow> sn_result sn | Some _ \<Rightarrow> v)\<rparr>"

definition resolveCompletion :: "nat \<Rightarrow> 'v scheduler \<Rightarrow> 'v scheduler" where
  "resolveCompletion r s =
     (if rc_completionResolved (store s r) then s
      else emit [CompletionResolved r (copySnapshot (rc_snapshot (store s r)))]
             (update_record r (\<lambda>rc. rc\<lparr>rc_completionResolved := True\<rparr>) s))"

definition finishRecord :: "rat \<Rightarrow> nat \<Rightarrow> 'v patch \<Rightarrow> 'v scheduler \<Rightarrow> 'v scheduler" where
  "finishRecord now r p s =
     (if isTerminalState (state_of s r) then s
      else
        let s1 = cleanupLifecycle r s;
            s2 = update_record r (\<lambda>rc. rc\<lparr>rc_snapshot :=
                   (apply_patch p (rc_snapshot rc))\<lparr>sn_finishedAt := Some now\<rparr>\<rparr>) s1;
            s3 = clearExecutionReferences r (resolveCompletion r s2)
        in if map_of (active s3) (taskId_of s3 r) = None then resolveReleased r s3 else s3)"

definition applyRunOutcome :: "rat \<Rightarrow> nat \<Rightarrow> 'v run_outcome \<Rightarrow> 'v scheduler \<Rightarrow> 'v scheduler" where
  "applyRunOutcome now r outcome s =
     (if state_of s r \<noteq> Running then s
      else case outcome of
             RunSucceeded v \<Rightarrow> finishRecord now r (PatchSucceeded v) s
           | RunFailed f v \<Rightarrow> finishRecord now r (PatchFailed (copyFailure f) v) s
           | RunCancelled v \<Rightarrow> finishRecord now r (PatchCancelled v) s)"

definition default_failure :: task_failure where
  "default_failure =
     \<lparr>fl_code = TASK_FAILED_CODE, fl_message = js ''The SFTP task failed.'', fl_outcomeUnknown = None\<rparr>"

definition applyUnexpectedFailure :: "rat \<Rightarrow> nat \<Rightarrow> 'v \<Rightarrow> 'v scheduler \<Rightarrow> 'v scheduler" where
  "applyUnexpectedFailure now r err s =
     (if state_of s r \<noteq> Running then s
      else
        let failure =
          (case sp_mapFailure (rc_spec (store s r)) of
             None \<Rightarrow> default_failure
           | Some mapFailure \<Rightarrow>
               (case mapFailure err of None \<Rightarrow> default_failure | Some f \<Rightarrow> f))
        in finishRecord now r (PatchFailed (copyFailure failure) None) s)"

definition invokeAbortHook :: "nat \<Rightarrow> abort_reason \<Rightarrow> 'v scheduler \<Rightarrow> 'v scheduler" where
  "invokeAbortHook r reason s =
     (if rc_abortHookInvoked (store s r) \<or> \<not> sp_onAbort (rc_spec (store s r)) then s
      else emit [AbortHook r reason]
             (update_record r (\<lambda>rc. rc\<lparr>rc_abortHookInvoked := True\<rparr>) s))"

definition abort_controller :: "nat \<Rightarrow> abort_reason \<Rightarrow> 'v scheduler \<Rightarrow> 'v scheduler" where
  "abort_controller r reason s =
     update_record r (\<lambda>rc. rc\<lparr>rc_aborted :=
       (case rc_aborted rc of None \<Rightarrow> Some reason | Some old \<Rightarrow> Some old)\<rparr>) s"

definition removeQueuedRecord :: "nat \<Rightarrow> 'v scheduler \<Rightarrow> 'v scheduler" where
  "removeQueuedRecord r s = s\<lparr>queue := remove1 r (queue s)\<rparr>"

definition handleDeadline :: "rat \<Rightarrow> nat \<Rightarrow> 'v scheduler \<Rightarrow> 'v scheduler" where
  "handleDeadline now r s =
     (if isTerminalState (state_of s r) then s
      else
        let wasRunning = (state_of s r = Running);
            s1 = (if \<not> wasRunning then removeQueuedRecord r s
                  else invokeAbortHook r AbortDeadline (abort_controller r AbortDeadline s));
            s2 = finishRecord now r
                   (PatchFailed
                     \<lparr>fl_code = DEADLINE_EXCEEDED_CODE,
                      fl_message = js ''The SFTP task did not complete before its absolute deadline.'',
                      fl_outcomeUnknown =
                        (if wasRunning \<and> impact (resources_of s1 r) = MutationImpact
                         then Some True else None)\<rparr> None) s1;
            s3 = (if \<not> wasRunning then dispatch now s2 else s2)
        in resolveIdleWaiters s3)"

definition cancelRecord :: "rat \<Rightarrow> nat \<Rightarrow> 'v scheduler \<Rightarrow> 'v scheduler" where
  "cancelRecord now r s =
     (if isTerminalState (state_of s r) then s
      else
        let wasRunning = (state_of s r = Running);
            s1 = (if \<not> wasRunning then removeQueuedRecord r s
                  else invokeAbortHook r AbortCancelled (abort_controller r AbortCancelled s))
        in if wasRunning \<and> impact (resources_of s1 r) = MutationImpact
           then finishRecord now r
                  (PatchFailed
                    \<lparr>fl_code = TASK_FAILED_CODE,
                     fl_message = js ''The SFTP task was cancelled after remote work started.'',
                     fl_outcomeUnknown = Some True\<rparr> None) s1
           else finishRecord now r (PatchCancelled None) s1)"

definition releaseRecord :: "rat \<Rightarrow> nat \<Rightarrow> 'v scheduler \<Rightarrow> 'v scheduler" where
  "releaseRecord now r s =
     (if map_of (active s) (taskId_of s r) \<noteq> Some r then s
      else
        let s1 = s\<lparr>active := map_delete (taskId_of s r) (active s)\<rparr>
        in resolveIdleWaiters (dispatch now (resolveReleased r s1)))"

section \<open>The public operations\<close>

definition getTask :: "jstring \<Rightarrow> 'v scheduler \<Rightarrow> 'v task_snapshot option" where
  "getTask taskId s =
     map_option (\<lambda>r. copySnapshot (rc_snapshot (store s r))) (map_of (records s) taskId)"

definition listTasks :: "'v scheduler \<Rightarrow> 'v task_snapshot list" where
  "listTasks s =
     map (\<lambda>r. copySnapshot (rc_snapshot (store s r)))
       (sort_by (\<lambda>l r. rc_sequence (store s l) \<le> rc_sequence (store s r)) (map snd (records s)))"

definition forgetTask :: "jstring \<Rightarrow> 'v scheduler \<Rightarrow> bool \<times> 'v scheduler" where
  "forgetTask taskId s =
     (case map_of (records s) taskId of
        None \<Rightarrow> (False, s)
      | Some r \<Rightarrow>
          if \<not> isTerminalState (state_of s r) \<or> map_of (active s) taskId \<noteq> None then (False, s)
          else (True, s\<lparr>records := map_delete taskId (records s)\<rparr>))"

definition cancelAll :: "rat \<Rightarrow> 'v scheduler \<Rightarrow> 'v scheduler" where
  "cancelAll now s =
     (let s1 = fold (cancelRecord now) (queue s) s;
          s2 = fold (cancelRecord now) (active_refs s1) s1
      in resolveIdleWaiters (dispatch now s2))"

text \<open>\<open>waiter\<close> names the promise returned; it is resolved at once when the scheduler is idle.\<close>

definition waitForIdle :: "nat \<Rightarrow> 'v scheduler \<Rightarrow> 'v scheduler" where
  "waitForIdle waiter s =
     (if queue s = [] \<and> active s = [] then emit [IdleResolved waiter] s
      else s\<lparr>idleWaiters := idleWaiters s @ [waiter]\<rparr>)"

definition armDeadline :: "rat \<Rightarrow> nat \<Rightarrow> 'v scheduler \<Rightarrow> 'v scheduler" where
  "armDeadline now r s =
     update_record r (\<lambda>rc. rc\<lparr>rc_deadlineTimer :=
       Some (max 0 (sn_deadlineAt (rc_snapshot rc) - now))\<rparr>) s"

definition observeCancellation :: "nat \<Rightarrow> 'v scheduler \<Rightarrow> 'v scheduler" where
  "observeCancellation r s =
     (if \<not> sp_cancellationSignal (rc_spec (store s r)) then s
      else update_record r (\<lambda>rc. rc\<lparr>rc_cancellationListener := True\<rparr>) s)"

fun timeout_rat :: "jsnum \<Rightarrow> rat" where
  "timeout_rat (Num q) = q"
| "timeout_rat _ = 0"

definition new_record ::
    "(jstring \<Rightarrow> jstring \<Rightarrow> bool) \<Rightarrow> rat \<Rightarrow> jstring \<Rightarrow> 'v task_spec \<Rightarrow> 'v scheduler \<Rightarrow> 'v task_record" where
  "new_record locale_le now taskId spec s =
     \<lparr>rc_sequence = sequence s,
      rc_spec = \<lparr>sp_operation = ts_operation spec, sp_resources = ts_resources spec,
                 sp_absoluteTimeoutMs = ts_absoluteTimeoutMs spec,
                 sp_cancellationSignal = (ts_cancellationSignal spec \<noteq> None),
                 sp_mapFailure = ts_mapFailure spec, sp_onAbort = ts_onAbort spec\<rparr>,
      rc_snapshot = \<lparr>sn_taskId = taskId, sn_sessionId = sc_sessionId s,
                     sn_operation = ts_operation spec, sn_state = Queued,
                     sn_resources = ts_resources spec,
                     sn_claims = normalizeSftpTaskClaims locale_le (ts_claims spec),
                     sn_createdAt = now,
                     sn_deadlineAt = now + timeout_rat (ts_absoluteTimeoutMs spec),
                     sn_startedAt = None, sn_finishedAt = None, sn_cancelRequested = False,
                     sn_result = None, sn_partialResult = None, sn_failure = None\<rparr>,
      rc_aborted = None, rc_deadlineTimer = None, rc_cancellationListener = False,
      rc_abortHookInvoked = False, rc_completionResolved = False, rc_releaseResolved = False,
      rc_chain = NotStarted\<rparr>"

text \<open>\<open>generatedId\<close> is what \<open>idFactory()\<close> returns. The result is the address of the new record.\<close>

definition schedule ::
    "(jstring \<Rightarrow> jstring \<Rightarrow> bool) \<Rightarrow> rat \<Rightarrow> jstring \<Rightarrow> 'v task_spec \<Rightarrow> 'v scheduler \<Rightarrow>
     scheduler_error + nat \<times> 'v scheduler" where
  "schedule locale_le now generatedId spec s =
     (case validateTaskSpec spec of
        Some e \<Rightarrow> Inl e
      | None \<Rightarrow>
          let taskId = (case ts_taskId spec of None \<Rightarrow> generatedId | Some i \<Rightarrow> i)
          in if map_of (records s) taskId \<noteq> None then Inl (DuplicateTaskId taskId)
             else
               let r = sequence s;
                   s1 = s\<lparr>store := (store s)(r := new_record locale_le now taskId spec s),
                          sequence := Suc r,
                          records := map_set taskId r (records s),
                          queue := queue s @ [r]\<rparr>;
                   s2 = observeCancellation r (armDeadline now r s1);
                   s3 = (if ts_cancellationSignal spec = Some True then cancelRecord now r s2 else s2)
               in Inr (r, dispatch now s3))"

section \<open>The callbacks of a running task\<close>

definition reportPartial :: "nat \<Rightarrow> 'v \<Rightarrow> 'v scheduler \<Rightarrow> 'v scheduler" where
  "reportPartial r partial s =
     (if state_of s r \<noteq> Running then s
      else update_record r (\<lambda>rc. rc\<lparr>rc_snapshot := (rc_snapshot rc)
             \<lparr>sn_partialResult := Some partial\<rparr>\<rparr>) s)"

definition set_chain :: "nat \<Rightarrow> chain \<Rightarrow> 'v scheduler \<Rightarrow> 'v scheduler" where
  "set_chain r c s = update_record r (\<lambda>rc. rc\<lparr>rc_chain := c\<rparr>) s"

text \<open>The first microtask of the chain: a task that settled while it waited is not run.\<close>

definition run_microtask :: "nat \<Rightarrow> 'v scheduler \<Rightarrow> 'v scheduler" where
  "run_microtask r s =
     (if state_of s r \<noteq> Running then set_chain r Settled s
      else emit [RunnerInvoked r] (set_chain r Invoked s))"

definition runner_resolves :: "rat \<Rightarrow> nat \<Rightarrow> 'v run_outcome \<Rightarrow> 'v scheduler \<Rightarrow> 'v scheduler" where
  "runner_resolves now r outcome s = set_chain r Settled (applyRunOutcome now r outcome s)"

definition runner_rejects :: "rat \<Rightarrow> nat \<Rightarrow> 'v \<Rightarrow> 'v scheduler \<Rightarrow> 'v scheduler" where
  "runner_rejects now r err s = set_chain r Settled (applyUnexpectedFailure now r err s)"

definition finally_release :: "rat \<Rightarrow> nat \<Rightarrow> 'v scheduler \<Rightarrow> 'v scheduler" where
  "finally_release now r s = releaseRecord now r (set_chain r Finalized s)"

definition cancellation_fires :: "rat \<Rightarrow> nat \<Rightarrow> 'v scheduler \<Rightarrow> 'v scheduler" where
  "cancellation_fires now r s = resolveIdleWaiters (dispatch now (cancelRecord now r s))"

text \<open>
  One event. A deadline timer or a cancellation listener fires while it is armed; each microtask of
  a record's chain happens once, in the order of the chain; the runner may report partial results
  at any time after it was invoked, and resolve or reject once.
\<close>

inductive sched_step :: "(jstring \<Rightarrow> jstring \<Rightarrow> bool) \<Rightarrow> 'v scheduler \<Rightarrow> 'v scheduler \<Rightarrow> bool"
  for locale_le :: "jstring \<Rightarrow> jstring \<Rightarrow> bool" where
  step_schedule: "schedule locale_le now gid spec s = Inr (r, s') \<Longrightarrow> sched_step locale_le s s'"
| step_microtask: "r < sequence s \<Longrightarrow> chain_of s r = Admitted \<Longrightarrow>
     sched_step locale_le s (run_microtask r s)"
| step_resolve: "r < sequence s \<Longrightarrow> chain_of s r = Invoked \<Longrightarrow>
     sched_step locale_le s (runner_resolves now r outcome s)"
| step_reject: "r < sequence s \<Longrightarrow> chain_of s r = Invoked \<Longrightarrow>
     sched_step locale_le s (runner_rejects now r err s)"
| step_partial: "r < sequence s \<Longrightarrow> chain_of s r \<in> {Invoked, Settled, Finalized} \<Longrightarrow>
     sched_step locale_le s (reportPartial r v s)"
| step_finally: "r < sequence s \<Longrightarrow> chain_of s r = Settled \<Longrightarrow>
     sched_step locale_le s (finally_release now r s)"
| step_deadline: "r < sequence s \<Longrightarrow> rc_deadlineTimer (store s r) \<noteq> None \<Longrightarrow>
     sched_step locale_le s (handleDeadline now r s)"
| step_signal: "r < sequence s \<Longrightarrow> rc_cancellationListener (store s r) \<Longrightarrow>
     sched_step locale_le s (cancellation_fires now r s)"
| step_cancelAll: "sched_step locale_le s (cancelAll now s)"
| step_waitForIdle: "sched_step locale_le s (waitForIdle waiter s)"
| step_forget: "sched_step locale_le s (snd (forgetTask taskId s))"

inductive sched_reachable ::
    "(jstring \<Rightarrow> jstring \<Rightarrow> bool) \<Rightarrow> 'v scheduler \<Rightarrow> bool"
  for locale_le :: "jstring \<Rightarrow> jstring \<Rightarrow> bool" where
  reach_new: "new_scheduler sid t h m = Inr s \<Longrightarrow> sched_reachable locale_le s"
| reach_step: "sched_reachable locale_le s \<Longrightarrow> sched_step locale_le s s' \<Longrightarrow>
     sched_reachable locale_le s'"

end
