(* ===== verification/SchedulerLemmas.thy ===== *)
theory SchedulerLemmas
  imports TaskScheduler
begin

text \<open>
  The library of the task scheduler: what each method leaves unchanged and what it writes, the
  characterization of \<open>findNextRunnableIndex\<close>, and the induction rule of the dispatch loop.
\<close>

named_theorems sched_frame \<open>fields read back after an operation of the scheduler\<close>

section \<open>Frames\<close>

lemma update_record_fields [simp]:
  "store (update_record r f s) = (store s)(r := f (store s r))"
  "queue (update_record r f s) = queue s"
  "active (update_record r f s) = active s"
  "records (update_record r f s) = records s"
  "sequence (update_record r f s) = sequence s"
  "sc_limits (update_record r f s) = sc_limits s"
  "idleWaiters (update_record r f s) = idleWaiters s"
  "isDispatching (update_record r f s) = isDispatching s"
  "effects (update_record r f s) = effects s"
  by (simp_all add: update_record_def)

lemma emit_fields [simp]:
  "store (emit es s) = store s"
  "queue (emit es s) = queue s"
  "active (emit es s) = active s"
  "records (emit es s) = records s"
  "sequence (emit es s) = sequence s"
  "sc_limits (emit es s) = sc_limits s"
  "idleWaiters (emit es s) = idleWaiters s"
  "isDispatching (emit es s) = isDispatching s"
  "effects (emit es s) = effects s @ es"
  by (simp_all add: emit_def)

fun patch_state :: "'v patch \<Rightarrow> task_state" where
  "patch_state (PatchSucceeded _) = Succeeded"
| "patch_state (PatchFailed _ _) = Failed"
| "patch_state (PatchCancelled _) = Cancelled"

lemma apply_patch_fields [simp]:
  "sn_state (apply_patch p sn) = patch_state p"
  "sn_taskId (apply_patch p sn) = sn_taskId sn"
  "sn_claims (apply_patch p sn) = sn_claims sn"
  "sn_deadlineAt (apply_patch p sn) = sn_deadlineAt sn"
  by (cases p; simp)+

lemma patch_state_terminal [simp]: "isTerminalState (patch_state p)"
  by (cases p) auto

lemma patch_state_neq [simp]: "patch_state p \<noteq> Queued" "patch_state p \<noteq> Running"
  by (cases p; simp)+

text \<open>The record that \<open>finishRecord\<close> leaves behind.\<close>

definition finished_record :: "rat \<Rightarrow> 'v patch \<Rightarrow> bool \<Rightarrow> 'v task_record \<Rightarrow> 'v task_record" where
  "finished_record now p released rc =
     rc\<lparr>rc_deadlineTimer := None,
        rc_cancellationListener :=
          (if rc_cancellationListener rc \<and> sp_cancellationSignal (rc_spec rc) then False
           else rc_cancellationListener rc),
        rc_snapshot := (apply_patch p (rc_snapshot rc))\<lparr>sn_finishedAt := Some now\<rparr>,
        rc_completionResolved := True,
        rc_releaseResolved := rc_releaseResolved rc \<or> released,
        rc_spec := (rc_spec rc)
          \<lparr>sp_cancellationSignal := False, sp_mapFailure := None, sp_onAbort := False\<rparr>\<rparr>"

definition finish_effects :: "rat \<Rightarrow> 'v patch \<Rightarrow> bool \<Rightarrow> nat \<Rightarrow> 'v task_record \<Rightarrow> 'v effect list" where
  "finish_effects now p released r rc =
     (if rc_completionResolved rc then []
      else [CompletionResolved r
              (copySnapshot ((apply_patch p (rc_snapshot rc))\<lparr>sn_finishedAt := Some now\<rparr>))]) @
     (if released \<and> \<not> rc_releaseResolved rc then [ReleasedResolved r] else [])"

lemma finishRecord_store:
  assumes "\<not> isTerminalState (state_of s r)"
  shows "store (finishRecord now r p s) = (store s)(r := finished_record now p
           (map_of (active s) (taskId_of s r) = None) (store s r))"
proof (cases "rc_completionResolved (store s r)"; cases "rc_releaseResolved (store s r)";
    cases "map_of (active s) (taskId_of s r)"; cases "store s r")
qed (use assms in \<open>auto simp: finishRecord_def cleanupLifecycle_def clearExecutionReferences_def
      resolveCompletion_def resolveReleased_def Let_def finished_record_def\<close>)

lemma finishRecord_effects:
  assumes "\<not> isTerminalState (state_of s r)"
  shows "effects (finishRecord now r p s) = effects s @ finish_effects now p
           (map_of (active s) (taskId_of s r) = None) r (store s r)"
  using assms
  by (simp add: finishRecord_def cleanupLifecycle_def clearExecutionReferences_def
      resolveCompletion_def resolveReleased_def Let_def finish_effects_def)

lemma finishRecord_terminal [simp]:
  "isTerminalState (state_of s r) \<Longrightarrow> finishRecord now r p s = s"
  by (simp add: finishRecord_def)

lemma finishRecord_fields [sched_frame]:
  "queue (finishRecord now r p s) = queue s"
  "active (finishRecord now r p s) = active s"
  "records (finishRecord now r p s) = records s"
  "sequence (finishRecord now r p s) = sequence s"
  "sc_limits (finishRecord now r p s) = sc_limits s"
  "idleWaiters (finishRecord now r p s) = idleWaiters s"
  "isDispatching (finishRecord now r p s) = isDispatching s"
  by (simp_all add: finishRecord_def cleanupLifecycle_def clearExecutionReferences_def
      resolveCompletion_def resolveReleased_def Let_def)

lemma abort_path_fields [sched_frame]:
  "queue (invokeAbortHook r reason s) = queue s"
  "active (invokeAbortHook r reason s) = active s"
  "records (invokeAbortHook r reason s) = records s"
  "sequence (invokeAbortHook r reason s) = sequence s"
  "sc_limits (invokeAbortHook r reason s) = sc_limits s"
  "isDispatching (invokeAbortHook r reason s) = isDispatching s"
  "idleWaiters (invokeAbortHook r reason s) = idleWaiters s"
  by (simp_all add: invokeAbortHook_def)

text \<open>What admission reads of a record never changes after the record was created.\<close>

definition same_static :: "'v scheduler \<Rightarrow> 'v scheduler \<Rightarrow> bool" where
  "same_static s s' \<longleftrightarrow> sc_limits s' = sc_limits s \<and> sequence s' = sequence s \<and>
     (\<forall>r. taskId_of s' r = taskId_of s r \<and> claims_of s' r = claims_of s r \<and>
          resources_of s' r = resources_of s r)"

lemma same_static_refl [simp]: "same_static s s"
  by (simp add: same_static_def)

lemma same_static_trans: "same_static s s' \<Longrightarrow> same_static s' s'' \<Longrightarrow> same_static s s''"
  by (simp add: same_static_def)

lemma same_static_update:
  assumes "\<And>rc. sn_taskId (rc_snapshot (f rc)) = sn_taskId (rc_snapshot rc)"
    and "\<And>rc. sn_claims (rc_snapshot (f rc)) = sn_claims (rc_snapshot rc)"
    and "\<And>rc. sp_resources (rc_spec (f rc)) = sp_resources (rc_spec rc)"
  shows "same_static s (update_record r f s)"
  using assms by (simp add: same_static_def)

lemma same_static_finish [simp]: "same_static s (finishRecord now r p s)"
  by (cases "isTerminalState (state_of s r)")
    (simp_all add: same_static_def finishRecord_store finished_record_def sched_frame)

lemma same_static_abort [simp]: "same_static s (abort_controller r reason s)"
  unfolding abort_controller_def by (rule same_static_update) auto

lemma same_static_hook [simp]: "same_static s (invokeAbortHook r reason s)"
  by (auto simp: invokeAbortHook_def same_static_def)

section \<open>What admission decides\<close>

text \<open>The admission rule, stated on an index of the queue and without the order of the scan.\<close>

definition admissible :: "'v scheduler \<Rightarrow> nat \<Rightarrow> bool" where
  "admissible s i \<longleftrightarrow> i < length (queue s) \<and>
     (\<forall>j<i. \<not> exclusive (resources_of s (queue s ! j))) \<and>
     (if exclusive (resources_of s (queue s ! i)) then i = 0 \<and> active s = []
      else hasCapacityFor s (queue s ! i) \<and> \<not> conflictsWithActive s (queue s ! i) \<and>
           \<not> conflictsWithOlderQueuedClaim s (queue s ! i) i)"

definition startable :: "'v scheduler \<Rightarrow> nat \<Rightarrow> nat \<Rightarrow> bool" where
  "startable s i r \<longleftrightarrow>
     (if exclusive (resources_of s r) then i = 0 \<and> active s = []
      else hasCapacityFor s r \<and> \<not> conflictsWithActive s r \<and> \<not> conflictsWithOlderQueuedClaim s r i)"

lemma scan_queue_Some:
  "scan_queue s k rs = Some j \<Longrightarrow>
     k \<le> j \<and> j < k + length rs \<and> startable s j (rs ! (j - k)) \<and>
     (\<forall>i. k \<le> i \<longrightarrow> i < j \<longrightarrow> \<not> startable s i (rs ! (i - k)) \<and> \<not> exclusive (resources_of s (rs ! (i - k))))"
proof (induction rs arbitrary: k)
  case (Cons r rs)
  show ?case
  proof (cases "startable s k r \<or> exclusive (resources_of s r)")
    case True
    with Cons.prems show ?thesis by (auto simp: startable_def split: if_splits)
  next
    case False
    with Cons.prems have "scan_queue s (Suc k) rs = Some j"
      by (auto simp: startable_def split: if_splits)
    from Cons.IH [OF this] False show ?thesis
      by (auto simp: nth_Cons' Suc_le_eq)
  qed
qed simp

lemma scan_queue_None:
  assumes "scan_queue s k rs = None"
    and "\<forall>i. Suc i < length rs \<longrightarrow> \<not> exclusive (resources_of s (rs ! i))"
  shows "\<forall>i<length rs. \<not> startable s (k + i) (rs ! i)"
  using assms
proof (induction rs arbitrary: k)
  case (Cons r rs)
  show ?case
  proof (cases "exclusive (resources_of s r)")
    case True
    then have "rs = []" using Cons.prems(2) by (cases rs) auto
    with True Cons.prems(1) show ?thesis by (auto simp: startable_def split: if_splits)
  next
    case False
    with Cons.prems(1) have *: "\<not> startable s k r" and "scan_queue s (Suc k) rs = None"
      by (auto simp: startable_def split: if_splits)
    moreover have "\<forall>i. Suc i < length rs \<longrightarrow> \<not> exclusive (resources_of s (rs ! i))"
      using Cons.prems(2) by (metis Suc_less_eq length_Cons nth_Cons_Suc)
    ultimately have "\<forall>i<length rs. \<not> startable s (Suc k + i) (rs ! i)"
      using Cons.IH by blast
    with * show ?thesis by (auto simp: less_Suc_eq_0_disj)
  qed
qed simp

lemma admissible_startable:
  "admissible s i \<longleftrightarrow> i < length (queue s) \<and>
     (\<forall>j<i. \<not> exclusive (resources_of s (queue s ! j))) \<and> startable s i (queue s ! i)"
  by (auto simp: admissible_def startable_def)

definition scan_length :: "'v scheduler \<Rightarrow> nat" where
  "scan_length s =
     (case find_index (\<lambda>r. exclusive (resources_of s r)) (queue s) of
        None \<Rightarrow> length (queue s) | Some i \<Rightarrow> i + 1)"

lemma scan_length_le: "scan_length s \<le> length (queue s)"
  by (auto simp: scan_length_def split: option.splits dest!: find_index_SomeD)

lemma scan_length_exclusive:
  "Suc i < scan_length s \<Longrightarrow> \<not> exclusive (resources_of s (queue s ! i))"
  by (auto simp: scan_length_def split: option.splits dest!: find_index_SomeD
      simp: find_index_None_iff)

lemma admissible_scan_length: "admissible s i \<Longrightarrow> i < scan_length s"
  unfolding admissible_def scan_length_def
  by (cases "find_index (\<lambda>r. exclusive (resources_of s r)) (queue s)")
    (use not_less_eq in \<open>auto dest!: find_index_SomeD\<close>)

lemma findNextRunnableIndex_scan:
  "findNextRunnableIndex s = scan_queue s 0 (take (scan_length s) (queue s))"
  by (simp add: findNextRunnableIndex_def scan_length_def Let_def)

lemma findNextRunnableIndex_Some:
  assumes "findNextRunnableIndex s = Some i"
  shows "admissible s i \<and> (\<forall>j<i. \<not> admissible s j)"
  using scan_queue_Some [OF assms [unfolded findNextRunnableIndex_scan]] scan_length_le [of s]
  by (auto simp: admissible_startable)

lemma findNextRunnableIndex_None:
  assumes "findNextRunnableIndex s = None"
  shows "\<not> admissible s i"
proof
  assume adm: "admissible s i"
  have "\<forall>i<length (take (scan_length s) (queue s)).
      \<not> startable s (0 + i) (take (scan_length s) (queue s) ! i)"
    using assms scan_length_exclusive [of _ s] scan_length_le [of s]
    by (intro scan_queue_None) (auto simp: findNextRunnableIndex_scan)
  then show False
    using adm admissible_scan_length [OF adm] scan_length_le [of s]
    by (auto simp: admissible_startable)
qed

section \<open>The dispatch loop\<close>

definition start_at :: "rat \<Rightarrow> nat \<Rightarrow> 'v scheduler \<Rightarrow> 'v scheduler" where
  "start_at now i s = startRecord now (queue s ! i) (s\<lparr>queue := remove_at i (queue s)\<rparr>)"

lemma dispatch_loop_unfold:
  "dispatch_loop now s =
     (case findNextRunnableIndex s of None \<Rightarrow> s | Some i \<Rightarrow> dispatch_loop now (start_at now i s))"
  unfolding start_at_def by (rule dispatch_loop.simps)

lemma dispatch_loop_invariant:
  assumes "\<And>s i. P s \<Longrightarrow> findNextRunnableIndex s = Some i \<Longrightarrow> P (start_at now i s)" and "P s"
  shows "P (dispatch_loop now s)"
  using assms
proof (induction now s rule: dispatch_loop.induct)
  case (1 now s)
  show ?case
  proof (cases "findNextRunnableIndex s")
    case None
    with 1 show ?thesis by (simp add: dispatch_loop_unfold [of now s])
  next
    case (Some i)
    have "P (dispatch_loop now (start_at now i s))"
      unfolding start_at_def
      by (rule "1.IH" [OF Some "1.prems"(1)])
        (use "1.prems" Some in \<open>auto simp: start_at_def\<close>)
    with Some show ?thesis by (simp add: dispatch_loop_unfold [of now s])
  qed
qed

lemma dispatch_loop_quiescent: "findNextRunnableIndex (dispatch_loop now s) = None"
proof (induction now s rule: dispatch_loop.induct)
  case (1 now s)
  show ?case
    by (cases "findNextRunnableIndex s") (use 1 in \<open>auto simp: dispatch_loop.simps [of now s]\<close>)
qed

end
