(* ===== verification/SchedulerInvariants.thy ===== *)
theory SchedulerInvariants
  imports SchedulerLemmas
begin

text \<open>
  The invariant of the scheduler (packages/backend/src/sftp/task-scheduler.ts): well-formedness of
  the queue, the active map and the records; the limits and the disjointness of active claims; the
  settlement flags and the effects they count; and its preservation by admission and settlement.
\<close>

declare isTerminalState.simps [simp del]

lemma terminal_simps [simp]:
  "isTerminalState Succeeded" "isTerminalState Failed" "isTerminalState Cancelled"
  "\<not> isTerminalState Queued" "\<not> isTerminalState Running"
  by (simp_all add: isTerminalState.simps)

lemma not_terminal_iff: "\<not> isTerminalState st \<longleftrightarrow> st = Queued \<or> st = Running"
  by (cases st) simp_all

section \<open>Invariants\<close>

definition live_chain :: "chain \<Rightarrow> bool" where
  "live_chain c \<longleftrightarrow> c = Admitted \<or> c = Invoked \<or> c = Settled"

definition record_ok :: "'v scheduler \<Rightarrow> nat \<Rightarrow> bool" where
  "record_ok s r \<longleftrightarrow>
     (state_of s r = Queued \<longleftrightarrow> r \<in> set (queue s)) \<and>
     (r \<in> set (queue s) \<longrightarrow> chain_of s r = NotStarted) \<and>
     (state_of s r = Running \<longrightarrow> chain_of s r = Admitted \<or> chain_of s r = Invoked) \<and>
     (live_chain (chain_of s r) \<longleftrightarrow> r \<in> set (active_refs s)) \<and>
     (r \<in> set (queue s) \<union> set (active_refs s) \<longrightarrow> map_of (records s) (taskId_of s r) = Some r)"

definition sched_wf :: "'v scheduler \<Rightarrow> bool" where
  "sched_wf s \<longleftrightarrow>
     distinct (queue s) \<and> distinct (map fst (active s)) \<and> distinct (map fst (records s)) \<and>
     (\<forall>r\<in>set (queue s). r < sequence s) \<and>
     (\<forall>e\<in>set (active s). snd e < sequence s \<and> taskId_of s (snd e) = fst e) \<and>
     (\<forall>e\<in>set (records s). snd e < sequence s \<and> taskId_of s (snd e) = fst e) \<and>
     (\<forall>r<sequence s. record_ok s r)"

definition heavy_count :: "'v scheduler \<Rightarrow> nat" where
  "heavy_count s = length (filter (\<lambda>a. workload (resources_of s a) = Heavy) (active_refs s))"

definition mutation_count :: "'v scheduler \<Rightarrow> nat" where
  "mutation_count s =
     length (filter (\<lambda>a. impact (resources_of s a) = MutationImpact) (active_refs s))"

definition sched_safe :: "'v scheduler \<Rightarrow> bool" where
  "sched_safe s \<longleftrightarrow>
     length (active s) \<le> lm_total (sc_limits s) \<and>
     heavy_count s \<le> lm_heavy (sc_limits s) \<and>
     mutation_count s \<le> lm_mutation (sc_limits s) \<and>
     (\<forall>a\<in>set (active_refs s). exclusive (resources_of s a) \<longrightarrow> active_refs s = [a]) \<and>
     sorted_wrt (\<lambda>a b. \<not> doClaimSetsConflict (claims_of s a) (claims_of s b)) (active_refs s)"

fun is_completion :: "nat \<Rightarrow> 'v effect \<Rightarrow> bool" where
  "is_completion r (CompletionResolved r' _) = (r' = r)"
| "is_completion r _ = False"

fun is_released :: "nat \<Rightarrow> 'v effect \<Rightarrow> bool" where
  "is_released r (ReleasedResolved r') = (r' = r)"
| "is_released r _ = False"

definition settle_ok :: "'v scheduler \<Rightarrow> nat \<Rightarrow> bool" where
  "settle_ok s r \<longleftrightarrow>
     rc_completionResolved (store s r) = isTerminalState (state_of s r) \<and>
     rc_releaseResolved (store s r) =
       (isTerminalState (state_of s r) \<and> r \<notin> set (active_refs s)) \<and>
     (rc_deadlineTimer (store s r) = None) = isTerminalState (state_of s r) \<and>
     (rc_cancellationListener (store s r) \<longrightarrow> sp_cancellationSignal (rc_spec (store s r))) \<and>
     (sp_cancellationSignal (rc_spec (store s r)) \<longrightarrow> \<not> isTerminalState (state_of s r)) \<and>
     length (filter (is_completion r) (effects s)) =
       (if isTerminalState (state_of s r) then 1 else 0) \<and>
     length (filter (is_released r) (effects s)) =
       (if rc_releaseResolved (store s r) then 1 else 0)"

definition sched_settled :: "'v scheduler \<Rightarrow> bool" where
  "sched_settled s \<longleftrightarrow> (\<forall>r<sequence s. settle_ok s r) \<and>
     (\<forall>r\<ge>sequence s. filter (is_completion r) (effects s) = [] \<and>
        filter (is_released r) (effects s) = [])"

definition limits_ok :: "task_limits \<Rightarrow> bool" where
  "limits_ok l \<longleftrightarrow> 0 < lm_heavy l \<and> 0 < lm_mutation l \<and> lm_heavy l \<le> lm_total l \<and>
     lm_mutation l \<le> lm_total l"

definition sched_inv :: "'v scheduler \<Rightarrow> bool" where
  "sched_inv s \<longleftrightarrow> sched_wf s \<and> sched_safe s \<and> sched_settled s \<and> limits_ok (sc_limits s)"

lemma sched_wfD:
  assumes "sched_wf s"
  shows "distinct (queue s)" "distinct (map fst (active s))" "distinct (map fst (records s))"
    and "r \<in> set (queue s) \<Longrightarrow> r < sequence s"
    and "(i, r) \<in> set (active s) \<Longrightarrow> r < sequence s \<and> taskId_of s r = i"
    and "(i, r) \<in> set (records s) \<Longrightarrow> r < sequence s \<and> taskId_of s r = i"
    and "r < sequence s \<Longrightarrow> record_ok s r"
  using assms by (auto simp: sched_wf_def)

lemma distinct_active_refs:
  assumes "sched_wf s"
  shows "distinct (active_refs s)"
proof -
  have "map fst (active s) = map (taskId_of s) (active_refs s)"
    using sched_wfD(5) [OF assms] by (auto simp: comp_def)
  with sched_wfD(2) [OF assms] show ?thesis by (metis distinct_map)
qed

lemma active_lookup:
  assumes "sched_wf s" and "r < sequence s"
  shows "map_of (active s) (taskId_of s r) = Some r \<longleftrightarrow> r \<in> set (active_refs s)"
proof
  assume "map_of (active s) (taskId_of s r) = Some r"
  then show "r \<in> set (active_refs s)" by (force dest: map_of_SomeD)
next
  assume "r \<in> set (active_refs s)"
  then obtain i where i: "(i, r) \<in> set (active s)" by auto
  then have "taskId_of s r = i" using sched_wfD(5) [OF assms(1)] by blast
  with i show "map_of (active s) (taskId_of s r) = Some r"
    using sched_wfD(2) [OF assms(1)] by simp
qed

text \<open>A queued id is not the id of a running task.\<close>
lemma queued_not_active:
  assumes "sched_wf s" and "r \<in> set (queue s)"
  shows "map_of (active s) (taskId_of s r) = None"
proof (rule ccontr)
  assume "map_of (active s) (taskId_of s r) \<noteq> None"
  then obtain a where a: "(taskId_of s r, a) \<in> set (active s)" by (auto dest: map_of_SomeD)
  note r = sched_wfD(4) [OF assms]
  have "a < sequence s" and tid: "taskId_of s a = taskId_of s r"
    using sched_wfD(5) [OF assms(1) a] by auto
  moreover have "a \<in> set (active_refs s)" using a by force
  ultimately have "map_of (records s) (taskId_of s r) = Some a"
    using sched_wfD(7) [OF assms(1), of a] by (auto simp: record_ok_def)
  moreover have "map_of (records s) (taskId_of s r) = Some r"
    using sched_wfD(7) [OF assms(1) r] assms(2) by (auto simp: record_ok_def)
  ultimately have "a = r" by simp
  with \<open>a \<in> set (active_refs s)\<close> assms(2) sched_wfD(7) [OF assms(1) r] show False
    by (auto simp: record_ok_def live_chain_def)
qed

section \<open>Starting a task\<close>

lemma start_at_fields [sched_frame]:
  "queue (start_at now i s) = remove_at i (queue s)"
  "records (start_at now i s) = records s"
  "sequence (start_at now i s) = sequence s"
  "sc_limits (start_at now i s) = sc_limits s"
  "effects (start_at now i s) = effects s"
  "idleWaiters (start_at now i s) = idleWaiters s"
  "isDispatching (start_at now i s) = isDispatching s"
  "active (start_at now i s) = map_set (taskId_of s (queue s ! i)) (queue s ! i) (active s)"
  by (simp_all add: start_at_def startRecord_def Let_def)

lemma start_at_store [sched_frame]:
  "store (start_at now i s) = (store s)(queue s ! i := (store s (queue s ! i))
     \<lparr>rc_snapshot := (rc_snapshot (store s (queue s ! i)))
        \<lparr>sn_state := Running, sn_startedAt := Some now\<rparr>, rc_chain := Admitted\<rparr>)"
  by (simp add: start_at_def startRecord_def Let_def)

lemma remove_at_distinct:
  assumes "distinct xs" and "i < length xs"
  shows "set (remove_at i xs) = set xs - {xs ! i}" and "distinct (remove_at i xs)"
proof -
  have "xs = take i xs @ xs ! i # drop (Suc i) xs"
    by (rule id_take_nth_drop [OF assms(2)])
  then obtain ys zs x where *: "xs = ys @ x # zs" "remove_at i xs = ys @ zs" "xs ! i = x"
    unfolding remove_at_def by blast
  show "set (remove_at i xs) = set xs - {xs ! i}" and "distinct (remove_at i xs)"
    unfolding *(2,3) using assms(1) unfolding *(1) by auto
qed

lemma start_at_wf:
  assumes wf: "sched_wf s" and i: "i < length (queue s)"
  shows "sched_wf (start_at now i s)"
    and "active_refs (start_at now i s) = active_refs s @ [queue s ! i]"
proof -
  let ?r = "queue s ! i"
  have rq: "?r \<in> set (queue s)" using i by simp
  note r = sched_wfD(4) [OF wf rq]
  have ok: "record_ok s ?r" by (rule sched_wfD(7) [OF wf r])
  have act: "map_set (taskId_of s ?r) ?r (active s) = active s @ [(taskId_of s ?r, ?r)]"
    by (rule map_set_new) (rule queued_not_active [OF wf rq])
  then show refs: "active_refs (start_at now i s) = active_refs s @ [?r]"
    by (simp add: sched_frame)
  have new: "?r \<notin> set (active_refs s)"
    using ok rq by (auto simp: record_ok_def live_chain_def)
  have q: "set (remove_at i (queue s)) = set (queue s) - {?r}"
    by (rule remove_at_distinct(1) [OF sched_wfD(1) [OF wf] i])
  have "record_ok (start_at now i s) r'" if "r' < sequence s" for r'
    using sched_wfD(7) [OF wf that] ok rq new
    by (auto simp: record_ok_def sched_frame q act live_chain_def)
  moreover have "distinct (map fst (active s @ [(taskId_of s ?r, ?r)]))"
    using sched_wfD(2) [OF wf] queued_not_active [OF wf rq] by (auto simp: map_of_eq_None_iff)
  ultimately show "sched_wf (start_at now i s)"
    using wf r remove_at_distinct(2) [OF sched_wfD(1) [OF wf] i]
    by (auto simp: sched_wf_def sched_frame act q)
qed

lemma start_at_safe:
  assumes wf: "sched_wf s" and safe: "sched_safe s" and lim: "limits_ok (sc_limits s)"
    and adm: "admissible s i"
  shows "sched_safe (start_at now i s)"
proof -
  let ?r = "queue s ! i"
  have i: "i < length (queue s)" using adm by (simp add: admissible_def)
  note refs = start_at_wf(2) [OF wf i, of now]
  have len: "length (active (start_at now i s)) = Suc (length (active s))"
    using arg_cong [OF refs, of length] by simp
  have static: "resources_of (start_at now i s) a = resources_of s a"
    "claims_of (start_at now i s) a = claims_of s a" for a
    by (simp_all add: sched_frame)
  have lims: "sc_limits (start_at now i s) = sc_limits s"
    by (simp add: sched_frame)
  show ?thesis
  proof (cases "exclusive (resources_of s ?r)")
    case True
    then have "active s = []" using adm by (simp add: admissible_def)
    with refs len lim show ?thesis
      by (auto simp: sched_safe_def static lims heavy_count_def mutation_count_def limits_ok_def)
  next
    case False
    then have cap: "hasCapacityFor s ?r" and conf: "\<not> conflictsWithActive s ?r"
      using adm by (auto simp: admissible_def)
    have noex: "\<forall>a\<in>set (active_refs s). \<not> exclusive (resources_of s a)"
      using cap by (auto simp: hasCapacityFor_def list_ex_iff split: if_splits)
    have "\<forall>a\<in>set (active_refs s). \<not> doClaimSetsConflict (claims_of s a) (claims_of s ?r)"
      using conf doClaimSetsConflict_sym by (auto simp: conflictsWithActive_def list_ex_iff)
    moreover have "heavy_count (start_at now i s) \<le> lm_heavy (sc_limits s)"
      using cap safe
      by (auto simp: heavy_count_def refs static hasCapacityFor_def Let_def sched_safe_def split: if_splits)
    moreover have "mutation_count (start_at now i s) \<le> lm_mutation (sc_limits s)"
      using cap safe
      by (auto simp: mutation_count_def refs static hasCapacityFor_def Let_def sched_safe_def split: if_splits)
    moreover have "Suc (length (active s)) \<le> lm_total (sc_limits s)"
      using cap by (auto simp: hasCapacityFor_def split: if_splits)
    ultimately show ?thesis
      using safe noex False by (auto simp: sched_safe_def refs static len lims sorted_wrt_append)
  qed
qed

lemma start_at_settled:
  assumes wf: "sched_wf s" and "sched_settled s" and i: "i < length (queue s)"
  shows "sched_settled (start_at now i s)"
proof -
  let ?r = "queue s ! i"
  have rq: "?r \<in> set (queue s)" using i by simp
  have "state_of s ?r = Queued"
    using sched_wfD(7) [OF wf sched_wfD(4) [OF wf rq]] rq by (simp add: record_ok_def)
  then show ?thesis
    using assms(2) start_at_wf(2) [OF wf i, of now]
    by (auto simp: sched_settled_def settle_ok_def sched_frame)
qed

lemma start_at_inv:
  assumes "sched_inv s" and "findNextRunnableIndex s = Some i"
  shows "sched_inv (start_at now i s)"
proof -
  have "admissible s i" using findNextRunnableIndex_Some [OF assms(2)] by blast
  moreover from this have "i < length (queue s)" by (simp add: admissible_def)
  ultimately show ?thesis
    using assms(1) start_at_wf(1) [of s i now] start_at_safe [of s i now]
      start_at_settled [of s i now]
    by (auto simp: sched_inv_def sched_frame)
qed

section \<open>Dispatching\<close>

text \<open>What the invariant reads of a record.\<close>

definition record_view where
  "record_view rc =
     (sn_state (rc_snapshot rc), sn_taskId (rc_snapshot rc), sn_claims (rc_snapshot rc),
      sp_resources (rc_spec rc), rc_chain rc, rc_completionResolved rc, rc_releaseResolved rc,
      rc_deadlineTimer rc, rc_cancellationListener rc, sp_cancellationSignal (rc_spec rc))"

lemma sched_inv_cong:
  assumes "\<And>r. record_view (store s' r) = record_view (store s r)"
    and "queue s' = queue s" "active s' = active s" "records s' = records s"
    "sequence s' = sequence s" "sc_limits s' = sc_limits s"
    and "\<And>r. filter (is_completion r) (effects s') = filter (is_completion r) (effects s)"
    "\<And>r. filter (is_released r) (effects s') = filter (is_released r) (effects s)"
  shows "sched_inv s' = sched_inv s"
proof -
  have v: "state_of s' r = state_of s r" "taskId_of s' r = taskId_of s r"
    "claims_of s' r = claims_of s r" "resources_of s' r = resources_of s r"
    "chain_of s' r = chain_of s r"
    "rc_completionResolved (store s' r) = rc_completionResolved (store s r)"
    "rc_releaseResolved (store s' r) = rc_releaseResolved (store s r)"
    "rc_deadlineTimer (store s' r) = rc_deadlineTimer (store s r)"
    "rc_cancellationListener (store s' r) = rc_cancellationListener (store s r)"
    "sp_cancellationSignal (rc_spec (store s' r)) = sp_cancellationSignal (rc_spec (store s r))" for r
    using assms(1) [of r] by (simp_all add: record_view_def)
  show ?thesis
    by (simp only: sched_inv_def sched_wf_def sched_safe_def sched_settled_def record_ok_def
      settle_ok_def heavy_count_def mutation_count_def assms(2-) v)
qed

lemma filter_idle [simp]:
  "filter (is_completion r) (map IdleResolved ws) = []"
  "filter (is_released r) (map IdleResolved ws) = []"
  by (induction ws) auto

lemma resolveIdleWaiters_fields [sched_frame]:
  "store (resolveIdleWaiters s) = store s"
  "queue (resolveIdleWaiters s) = queue s"
  "active (resolveIdleWaiters s) = active s"
  "records (resolveIdleWaiters s) = records s"
  "sequence (resolveIdleWaiters s) = sequence s"
  "sc_limits (resolveIdleWaiters s) = sc_limits s"
  "isDispatching (resolveIdleWaiters s) = isDispatching s"
  by (simp_all add: resolveIdleWaiters_def)

lemma resolveIdleWaiters_inv [simp]: "sched_inv (resolveIdleWaiters s) = sched_inv s"
  by (rule sched_inv_cong) (simp_all add: resolveIdleWaiters_def)

lemma isDispatching_inv [simp]: "sched_inv (s\<lparr>isDispatching := b\<rparr>) = sched_inv s"
  by (rule sched_inv_cong) simp_all

lemma findNext_cong:
  assumes "queue s' = queue s" "active s' = active s" "same_static s s'"
  shows "findNextRunnableIndex s' = findNextRunnableIndex s"
proof -
  have st: "sc_limits s' = sc_limits s"
    "claims_of s' r = claims_of s r" "resources_of s' r = resources_of s r" for r
    using assms(3) by (auto simp: same_static_def)
  have "scan_queue s' k rs = scan_queue s k rs" for k rs
    by (induction rs arbitrary: k)
      (simp_all add: assms st hasCapacityFor_def conflictsWithActive_def
        conflictsWithOlderQueuedClaim_def)
  then show ?thesis unfolding findNextRunnableIndex_def assms(1) st(3) by simp
qed

lemma dispatch_loop_inv: "sched_inv s \<Longrightarrow> sched_inv (dispatch_loop now s)"
  by (rule dispatch_loop_invariant [where P = sched_inv]) (auto intro: start_at_inv)

lemma dispatch_inv: "sched_inv s \<Longrightarrow> sched_inv (dispatch now s)"
  by (simp add: dispatch_def dispatch_loop_inv)

definition sched_idle_ok :: "'v scheduler \<Rightarrow> bool" where
  "sched_idle_ok s \<longleftrightarrow> (idleWaiters s \<noteq> [] \<longrightarrow> queue s \<noteq> [] \<or> active s \<noteq> [])"

definition sched_good :: "'v scheduler \<Rightarrow> bool" where
  "sched_good s \<longleftrightarrow> sched_inv s \<and> \<not> isDispatching s \<and> findNextRunnableIndex s = None \<and>
     sched_idle_ok s"

lemma resolveIdleWaiters_idle [simp]: "sched_idle_ok (resolveIdleWaiters s)"
  by (auto simp: sched_idle_ok_def resolveIdleWaiters_def)

lemma findNext_resolveIdle [simp]:
  "findNextRunnableIndex (resolveIdleWaiters s) = findNextRunnableIndex s"
  by (rule findNext_cong) (simp_all add: sched_frame same_static_def)

lemma findNext_isDispatching [simp]:
  "findNextRunnableIndex (s\<lparr>isDispatching := b\<rparr>) = findNextRunnableIndex s"
  by (rule findNext_cong) (simp_all add: same_static_def)

lemma dispatch_good:
  assumes "sched_inv s" and "\<not> isDispatching s"
  shows "sched_good (dispatch now s)"
  using assms dispatch_loop_inv [of "s\<lparr>isDispatching := True\<rparr>" now]
  by (simp add: sched_good_def dispatch_def dispatch_loop_quiescent sched_frame)

lemma resolveIdle_good: "sched_good s \<Longrightarrow> sched_good (resolveIdleWaiters s)"
  by (simp add: sched_good_def sched_frame)

text \<open>A step that leaves the queue, the owners and the static fields alone stays quiescent.\<close>
lemma sched_good_frame:
  assumes "sched_good s" and "sched_inv s'" and "queue s' = queue s" and "active s' = active s"
    and "same_static s s'" and "isDispatching s' = isDispatching s"
    and "idleWaiters s' = idleWaiters s"
  shows "sched_good s'"
  using assms findNext_cong [OF assms(3-5)] by (simp add: sched_good_def sched_idle_ok_def)

section \<open>Settling a task\<close>

lemma finish_filters:
  "filter (is_completion r') (finish_effects now p b r rc) =
     (if r' = r \<and> \<not> rc_completionResolved rc
      then [CompletionResolved r (copySnapshot ((apply_patch p (rc_snapshot rc))\<lparr>sn_finishedAt := Some now\<rparr>))]
      else [])"
  "filter (is_released r') (finish_effects now p b r rc) =
     (if r' = r \<and> b \<and> \<not> rc_releaseResolved rc then [ReleasedResolved r] else [])"
  by (auto simp: finish_effects_def)

lemma finished_record_fields [simp]:
  "sn_state (rc_snapshot (finished_record now p b rc)) = patch_state p"
  "sn_taskId (rc_snapshot (finished_record now p b rc)) = sn_taskId (rc_snapshot rc)"
  "sn_claims (rc_snapshot (finished_record now p b rc)) = sn_claims (rc_snapshot rc)"
  "sp_resources (rc_spec (finished_record now p b rc)) = sp_resources (rc_spec rc)"
  "rc_chain (finished_record now p b rc) = rc_chain rc"
  "rc_completionResolved (finished_record now p b rc)"
  "rc_releaseResolved (finished_record now p b rc) = (rc_releaseResolved rc \<or> b)"
  "rc_deadlineTimer (finished_record now p b rc) = None"
  "\<not> sp_cancellationSignal (rc_spec (finished_record now p b rc))"
  "rc_cancellationListener (finished_record now p b rc) =
     (rc_cancellationListener rc \<and> \<not> sp_cancellationSignal (rc_spec rc))"
  by (auto simp: finished_record_def)

lemma finish_settled:
  assumes "sched_settled s" and "r < sequence s" and "\<not> isTerminalState (state_of s r)"
    and "(map_of (active s) (taskId_of s r) = None) = (r \<notin> set (active_refs s))"
  shows "sched_settled (finishRecord now r p s)"
proof -
  have ok: "settle_ok s r'" if "r' < sequence s" for r'
    using assms(1) that by (simp add: sched_settled_def)
  have "settle_ok (finishRecord now r p s) r'" if "r' < sequence s" for r'
    using ok [OF that] ok [OF assms(2)] assms(3,4)
    by (cases "r' = r")
      (auto simp: settle_ok_def finishRecord_store finishRecord_effects finish_filters sched_frame)
  then show ?thesis
    using assms by (auto simp: sched_settled_def finishRecord_effects finish_filters sched_frame)
qed

lemma sched_safe_frame:
  assumes "sched_safe s" and "active s' = active s" and "same_static s s'"
  shows "sched_safe s'"
  using assms by (simp add: sched_safe_def heavy_count_def mutation_count_def same_static_def)

lemma finish_running_inv:
  assumes inv: "sched_inv s" and r: "r < sequence s" and run: "state_of s r = Running"
  shows "sched_inv (finishRecord now r p s)"
proof -
  have wf: "sched_wf s" using inv by (simp add: sched_inv_def)
  have nt: "\<not> isTerminalState (state_of s r)" using run by simp
  have act: "r \<in> set (active_refs s)"
    using sched_wfD(7) [OF wf r] run by (auto simp: record_ok_def live_chain_def)
  have "sched_wf (finishRecord now r p s)"
    using wf run r by (auto simp: sched_wf_def record_ok_def finishRecord_store nt sched_frame)
  moreover have "sched_settled (finishRecord now r p s)"
    using inv act active_lookup [OF wf r] by (intro finish_settled [OF _ r nt]) (auto simp: sched_inv_def)
  moreover have "sched_safe (finishRecord now r p s)"
    by (rule sched_safe_frame [of s]) (use inv in \<open>auto simp: sched_inv_def sched_frame\<close>)
  ultimately show ?thesis using inv by (simp add: sched_inv_def sched_frame)
qed

lemma drop_queued_inv:
  assumes inv: "sched_inv s" and q: "r \<in> set (queue s)"
  shows "sched_inv (finishRecord now r p (removeQueuedRecord r s))"
proof -
  let ?s = "removeQueuedRecord r s"
  have wf: "sched_wf s" using inv by (simp add: sched_inv_def)
  note r = sched_wfD(4) [OF wf q]
  have ok: "record_ok s r" by (rule sched_wfD(7) [OF wf r])
  have nt: "\<not> isTerminalState (state_of ?s r)" and st: "state_of s r = Queued"
    using ok q by (auto simp: record_ok_def removeQueuedRecord_def)
  have act: "r \<notin> set (active_refs s)" using ok q by (auto simp: record_ok_def live_chain_def)
  have f: "store ?s = store s" "active ?s = active s" "records ?s = records s"
    "sequence ?s = sequence s" "effects ?s = effects s" "sc_limits ?s = sc_limits s"
    by (simp_all add: removeQueuedRecord_def)
  have q': "set (queue ?s) = set (queue s) - {r}" "distinct (queue ?s)"
    using sched_wfD(1) [OF wf] by (auto simp: removeQueuedRecord_def)
  have "sched_wf (finishRecord now r p ?s)"
    using wf q ok act
    by (auto simp: sched_wf_def record_ok_def finishRecord_store [OF nt] sched_frame f q' live_chain_def)
  moreover have "sched_settled (finishRecord now r p ?s)"
  proof (rule finish_settled)
    show "sched_settled ?s"
      using inv by (auto simp: sched_inv_def sched_settled_def settle_ok_def f)
    show "(map_of (active ?s) (taskId_of ?s r) = None) = (r \<notin> set (active_refs ?s))"
      using act queued_not_active [OF wf q] by (simp add: f)
  qed (use r nt f in auto)
  moreover have "sched_safe (finishRecord now r p ?s)"
    by (rule sched_safe_frame [of ?s])
      (use inv in \<open>auto simp: sched_inv_def sched_frame f sched_safe_def heavy_count_def mutation_count_def\<close>)
  ultimately show ?thesis using inv by (simp add: sched_inv_def sched_frame f)
qed

lemma abort_inv:
  "sched_inv (invokeAbortHook r reason (abort_controller r reason s)) = sched_inv s"
  by (rule sched_inv_cong) (auto simp: invokeAbortHook_def abort_controller_def record_view_def)

lemma abort_fields [sched_frame]:
  "state_of (invokeAbortHook r reason (abort_controller r reason s)) r' = state_of s r'"
  "resources_of (invokeAbortHook r reason (abort_controller r reason s)) r' = resources_of s r'"
  "chain_of (invokeAbortHook r reason (abort_controller r reason s)) r' = chain_of s r'"
  by (auto simp: invokeAbortHook_def abort_controller_def)

lemma abort_controller_fields [sched_frame]:
  "queue (abort_controller r reason s) = queue s"
  "active (abort_controller r reason s) = active s"
  "records (abort_controller r reason s) = records s"
  "sequence (abort_controller r reason s) = sequence s"
  "sc_limits (abort_controller r reason s) = sc_limits s"
  "isDispatching (abort_controller r reason s) = isDispatching s"
  "idleWaiters (abort_controller r reason s) = idleWaiters s"
  by (simp_all add: abort_controller_def)

end
