(* ===== verification/SchedulerSteps.thy ===== *)
theory SchedulerSteps
  imports SchedulerInvariants
begin

text \<open>
  Every event of the scheduler but scheduling and release keeps \<open>sched_good\<close>: deadlines,
  cancellation, the microtasks of a running record, waiting and forgetting.
\<close>

section \<open>Every event keeps the invariant\<close>

lemma sched_good_inv: "sched_good s \<Longrightarrow> sched_inv s \<and> \<not> isDispatching s"
  by (simp add: sched_good_def)

lemma inv_state_cases:
  assumes "sched_inv s" and "r < sequence s" and "\<not> isTerminalState (state_of s r)"
  shows "(state_of s r = Running \<and> r \<in> set (active_refs s)) \<or>
         (state_of s r = Queued \<and> r \<in> set (queue s))"
proof -
  have "record_ok s r" using assms(1,2) by (simp add: sched_inv_def sched_wf_def)
  then show ?thesis using assms(3) by (auto simp: record_ok_def not_terminal_iff live_chain_def)
qed

lemma inv_chain_terminal:
  assumes "sched_inv s" and "r < sequence s" and "chain_of s r \<noteq> NotStarted" and "state_of s r \<noteq> Running"
  shows "isTerminalState (state_of s r)"
proof -
  have "record_ok s r" using assms(1,2) by (simp add: sched_inv_def sched_wf_def)
  then show ?thesis using assms(3,4) not_terminal_iff [of "state_of s r"] by (auto simp: record_ok_def)
qed

lemma cancelRecord_inv:
  assumes "sched_inv s" and "r < sequence s"
  shows "sched_inv (cancelRecord now r s)"
proof (cases "isTerminalState (state_of s r)")
  case True
  with assms(1) show ?thesis by (simp add: cancelRecord_def)
next
  case False
  from inv_state_cases [OF assms False] show ?thesis
  proof
    assume "state_of s r = Running \<and> r \<in> set (active_refs s)"
    then show ?thesis
      using assms by (simp add: cancelRecord_def Let_def finish_running_inv abort_inv sched_frame)
  next
    assume "state_of s r = Queued \<and> r \<in> set (queue s)"
    then show ?thesis
      using assms by (simp add: cancelRecord_def Let_def drop_queued_inv)
  qed
qed

lemma cancelRecord_fields [sched_frame]:
  "active (cancelRecord now r s) = active s"
  "records (cancelRecord now r s) = records s"
  "sequence (cancelRecord now r s) = sequence s"
  "isDispatching (cancelRecord now r s) = isDispatching s"
  "queue (cancelRecord now r s) =
     (if state_of s r = Queued then remove1 r (queue s) else queue s)"
  by (cases "state_of s r"; simp add: cancelRecord_def Let_def sched_frame removeQueuedRecord_def)+

lemma handleDeadline_good:
  assumes good: "sched_good s" and r: "r < sequence s"
  shows "sched_good (handleDeadline now r s)"
proof (cases "isTerminalState (state_of s r)")
  case True
  with good show ?thesis by (simp add: handleDeadline_def)
next
  case False
  have inv: "sched_inv s" and nd: "\<not> isDispatching s" using good by (simp_all add: sched_good_def)
  from inv_state_cases [OF inv r False] show ?thesis
  proof
    assume run: "state_of s r = Running \<and> r \<in> set (active_refs s)"
    let ?s1 = "invokeAbortHook r AbortDeadline (abort_controller r AbortDeadline s)"
    have "sched_good (finishRecord now r p ?s1)" for p
    proof (rule sched_good_frame [OF good])
      show "sched_inv (finishRecord now r p ?s1)"
        using run inv r by (intro finish_running_inv) (simp_all add: abort_inv sched_frame)
      show "same_static s (finishRecord now r p ?s1)"
        by (rule same_static_trans [of _ "abort_controller r AbortDeadline s"], simp)
          (rule same_static_trans [of _ ?s1], simp_all)
    qed (simp_all add: sched_frame)
    with run show ?thesis by (simp add: handleDeadline_def Let_def resolveIdle_good)
  next
    assume "state_of s r = Queued \<and> r \<in> set (queue s)"
    then show ?thesis
      using inv nd
      by (auto simp: handleDeadline_def Let_def sched_frame removeQueuedRecord_def [symmetric]
          intro!: resolveIdle_good dispatch_good drop_queued_inv)
        (simp add: removeQueuedRecord_def)
  qed
qed

lemma cancellation_fires_good:
  "sched_good s \<Longrightarrow> r < sequence s \<Longrightarrow> sched_good (cancellation_fires now r s)"
  unfolding cancellation_fires_def
  by (intro resolveIdle_good dispatch_good cancelRecord_inv)
    (auto simp: sched_good_def sched_frame)

lemma fold_cancel_inv:
  "sched_inv s \<Longrightarrow> \<forall>r\<in>set rs. r < sequence s \<Longrightarrow>
     sched_inv (fold (cancelRecord now) rs s) \<and> active (fold (cancelRecord now) rs s) = active s \<and>
     sequence (fold (cancelRecord now) rs s) = sequence s \<and>
     isDispatching (fold (cancelRecord now) rs s) = isDispatching s"
  by (induction rs arbitrary: s) (simp_all add: cancelRecord_inv sched_frame)

lemma cancelAll_good:
  assumes "sched_good s"
  shows "sched_good (cancelAll now s)"
proof -
  have inv: "sched_inv s" and nd: "\<not> isDispatching s" using assms by (simp_all add: sched_good_def)
  then have wf: "sched_wf s" by (simp add: sched_inv_def)
  let ?s1 = "fold (cancelRecord now) (queue s) s"
  have s1: "sched_inv ?s1 \<and> active ?s1 = active s \<and> sequence ?s1 = sequence s \<and>
      isDispatching ?s1 = isDispatching s"
    by (rule fold_cancel_inv [OF inv]) (simp add: sched_wfD(4) [OF wf])
  moreover have "\<forall>r\<in>set (active_refs ?s1). r < sequence ?s1"
    using s1 sched_wfD(5) [OF wf] by auto
  ultimately have "sched_inv (fold (cancelRecord now) (active_refs ?s1) ?s1) \<and>
      \<not> isDispatching (fold (cancelRecord now) (active_refs ?s1) ?s1)"
    using fold_cancel_inv [of ?s1 "active_refs ?s1" now] nd by simp
  then show ?thesis
    by (simp add: cancelAll_def Let_def resolveIdle_good dispatch_good)
qed

lemma waitForIdle_good: "sched_good s \<Longrightarrow> sched_good (waitForIdle w s)"
proof -
  assume good: "sched_good s"
  have "sched_inv (waitForIdle w s) = sched_inv s"
    by (rule sched_inv_cong) (simp_all add: waitForIdle_def)
  moreover have "findNextRunnableIndex (waitForIdle w s) = findNextRunnableIndex s"
    by (rule findNext_cong) (simp_all add: waitForIdle_def same_static_def)
  ultimately show ?thesis
    using good by (auto simp: sched_good_def sched_idle_ok_def waitForIdle_def)
qed

lemma forgetTask_good:
  assumes good: "sched_good s"
  shows "sched_good (snd (forgetTask taskId s))"
proof (cases "fst (forgetTask taskId s)")
  case False
  then have "snd (forgetTask taskId s) = s"
    by (auto simp: forgetTask_def split: option.splits)
  with good show ?thesis by simp
next
  case True
  then obtain r where r: "map_of (records s) taskId = Some r" "isTerminalState (state_of s r)"
    "map_of (active s) taskId = None"
    and eq: "snd (forgetTask taskId s) = s\<lparr>records := map_delete taskId (records s)\<rparr>"
    by (auto simp: forgetTask_def split: option.splits if_splits)
  have inv: "sched_inv s" and wf: "sched_wf s"
    using good by (simp_all add: sched_good_def sched_inv_def)
  have tid: "taskId_of s r = taskId" using sched_wfD(6) [OF wf map_of_SomeD [OF r(1)]] by simp
  have "taskId_of s r' \<noteq> taskId" if "r' \<in> set (queue s) \<union> set (active_refs s)" for r'
  proof
    assume t: "taskId_of s r' = taskId"
    have "r' < sequence s" using that sched_wfD(4,5) [OF wf] by auto
    then have ok: "record_ok s r'" by (rule sched_wfD(7) [OF wf])
    then have "r' = r" using that t r(1) by (auto simp: record_ok_def)
    moreover have "r \<notin> set (queue s)" using ok r(2) \<open>r' = r\<close> by (auto simp: record_ok_def)
    ultimately have "r \<in> set (active_refs s)" using that by simp
    then show False using r(3) tid sched_wfD(5) [OF wf] by (force simp: map_of_eq_None_iff)
  qed
  then have "sched_wf (snd (forgetTask taskId s))"
    unfolding eq using wf by (auto simp: sched_wf_def record_ok_def set_map_delete)
  then have "sched_inv (snd (forgetTask taskId s))"
    unfolding eq using inv
    by (auto simp: sched_inv_def sched_safe_def sched_settled_def settle_ok_def
        heavy_count_def mutation_count_def)
  then show ?thesis
    by (rule sched_good_frame [OF good]) (simp_all add: eq same_static_def)
qed

section \<open>The chain of a running task\<close>

lemma set_chain_fields [sched_frame]:
  "queue (set_chain r c s) = queue s"
  "active (set_chain r c s) = active s"
  "sequence (set_chain r c s) = sequence s"
  "isDispatching (set_chain r c s) = isDispatching s"
  "idleWaiters (set_chain r c s) = idleWaiters s"
  "state_of (set_chain r c s) r' = state_of s r'"
  "taskId_of (set_chain r c s) r' = taskId_of s r'"
  by (simp_all add: set_chain_def)

lemma same_static_chain [simp]: "same_static s (set_chain r c s)"
  by (auto simp: set_chain_def same_static_def)

lemma set_chain_inv:
  assumes inv: "sched_inv s" and r: "r < sequence s" and live: "live_chain (chain_of s r)" "live_chain c"
    and run: "state_of s r = Running \<Longrightarrow> c = Admitted \<or> c = Invoked"
  shows "sched_inv (set_chain r c s)"
proof -
  have wf: "sched_wf s" using inv by (simp add: sched_inv_def)
  have nq: "r \<notin> set (queue s)"
    using sched_wfD(7) [OF wf r] live(1) by (auto simp: record_ok_def live_chain_def)
  have "sched_wf (set_chain r c s)"
    using wf nq live run by (auto simp: sched_wf_def record_ok_def set_chain_def)
  moreover have "sched_safe (set_chain r c s)"
    by (rule sched_safe_frame [of s]) (use inv in \<open>simp_all add: sched_inv_def sched_frame\<close>)
  moreover have "sched_settled (set_chain r c s)"
    using inv by (auto simp: sched_inv_def sched_settled_def settle_ok_def set_chain_def)
  ultimately show ?thesis
    using inv by (simp add: sched_inv_def set_chain_def)
qed

lemma run_microtask_good:
  assumes good: "sched_good s" and r: "r < sequence s" and c: "chain_of s r = Admitted"
  shows "sched_good (run_microtask r s)"
proof (rule sched_good_frame [OF good])
  have inv: "sched_inv s" using good by (simp add: sched_good_def)
  have "sched_inv (emit [RunnerInvoked r] (set_chain r Invoked s)) = sched_inv (set_chain r Invoked s)"
    by (rule sched_inv_cong) simp_all
  then show "sched_inv (run_microtask r s)"
    using inv r c by (auto simp: run_microtask_def live_chain_def intro!: set_chain_inv)
  show "same_static s (run_microtask r s)"
    by (auto simp: run_microtask_def set_chain_def same_static_def)
qed (auto simp: run_microtask_def sched_frame)

lemma applyRunOutcome_cases:
  "state_of s r = Running \<Longrightarrow> \<exists>p. applyRunOutcome now r outcome s = finishRecord now r p s"
  "state_of s r \<noteq> Running \<Longrightarrow> applyRunOutcome now r outcome s = s"
  "state_of s r = Running \<Longrightarrow> \<exists>p. applyUnexpectedFailure now r err s = finishRecord now r p s"
  "state_of s r \<noteq> Running \<Longrightarrow> applyUnexpectedFailure now r err s = s"
  by (cases outcome; force simp: applyRunOutcome_def applyUnexpectedFailure_def Let_def)+

lemma settle_chain_good:
  assumes good: "sched_good s" and r: "r < sequence s" and c: "chain_of s r = Invoked"
    and s': "(state_of s r = Running \<and> (\<exists>p. s' = finishRecord now r p s)) \<or>
             (state_of s r \<noteq> Running \<and> s' = s)"
  shows "sched_good (set_chain r Settled s')"
proof -
  have inv: "sched_inv s" using good by (simp add: sched_good_def)
  have inv': "sched_inv s'" using s' inv r by (auto intro: finish_running_inv)
  have term': "isTerminalState (state_of s' r)"
    using s' inv_chain_terminal [OF inv r] c
    by (auto simp: finishRecord_store)
  have c': "chain_of s' r = Invoked" and q': "queue s' = queue s" "active s' = active s"
    "sequence s' = sequence s" "isDispatching s' = isDispatching s" "idleWaiters s' = idleWaiters s"
    and st: "same_static s s'"
    using s' c by (auto simp: finishRecord_store sched_frame)
  have "sched_inv (set_chain r Settled s')"
    using inv' r c' term' q' by (intro set_chain_inv) (auto simp: live_chain_def)
  then show ?thesis
    by (rule sched_good_frame [OF good])
      (simp_all add: sched_frame q' same_static_trans [OF st])
qed

lemma runner_resolves_good:
  assumes "sched_good s" and "r < sequence s" and "chain_of s r = Invoked"
  shows "sched_good (runner_resolves now r x s)"
  unfolding runner_resolves_def
proof (rule settle_chain_good [OF assms])
  show "(state_of s r = Running \<and> (\<exists>p. applyRunOutcome now r x s = finishRecord now r p s)) \<or>
      (state_of s r \<noteq> Running \<and> applyRunOutcome now r x s = s)"
    by (cases "state_of s r = Running") (simp_all add: applyRunOutcome_cases)
qed

lemma runner_rejects_good:
  assumes "sched_good s" and "r < sequence s" and "chain_of s r = Invoked"
  shows "sched_good (runner_rejects now r x s)"
  unfolding runner_rejects_def
proof (rule settle_chain_good [OF assms])
  show "(state_of s r = Running \<and> (\<exists>p. applyUnexpectedFailure now r x s = finishRecord now r p s)) \<or>
      (state_of s r \<noteq> Running \<and> applyUnexpectedFailure now r x s = s)"
    by (cases "state_of s r = Running") (simp_all add: applyRunOutcome_cases)
qed

lemma reportPartial_good: "sched_good s \<Longrightarrow> sched_good (reportPartial r v s)"
proof (rule sched_good_frame)
  assume "sched_good s"
  moreover have "sched_inv (reportPartial r v s) = sched_inv s"
    by (rule sched_inv_cong) (auto simp: reportPartial_def record_view_def)
  ultimately show "sched_inv (reportPartial r v s)" by (simp add: sched_good_def)
  show "same_static s (reportPartial r v s)" by (auto simp: reportPartial_def same_static_def)
qed (auto simp: reportPartial_def)

end
