(* ===== verification/SchedulerSafety.thy ===== *)
theory SchedulerSafety
  imports SchedulerSteps
begin

text \<open>
  The two events that move records in and out of the scheduler, releasing a slot and scheduling a
  task, keep \<open>sched_good\<close> too; so every reachable scheduler satisfies it.
\<close>

section \<open>Release\<close>

lemma map_snd_map_delete:
  assumes "\<And>e. e \<in> set m \<Longrightarrow> fst e = k \<longleftrightarrow> snd e = v"
  shows "map snd (map_delete k m) = filter (\<lambda>r. r \<noteq> v) (map snd m)"
  using assms by (induction m) (auto simp: map_delete_def)

lemma filter_length_mono:
  "length (filter P (filter Q xs)) \<le> length (filter P xs)"
  by (induction xs) auto

lemma release_inv:
  assumes inv: "sched_inv s" and r: "r < sequence s" and c: "chain_of s r = Settled"
  defines "s1 \<equiv> (set_chain r Finalized s)\<lparr>active := map_delete (taskId_of s r) (active s)\<rparr>"
  shows "sched_inv (resolveReleased r s1)" and "set (active_refs s1) = set (active_refs s) - {r}"
    and "map_of (active s) (taskId_of s r) = Some r"
proof -
  have wf: "sched_wf s" using inv by (simp add: sched_inv_def)
  have ok: "record_ok s r" by (rule sched_wfD(7) [OF wf r])
  have trm: "isTerminalState (state_of s r)"
    using inv_chain_terminal [OF inv r] ok c by (auto simp: record_ok_def)
  have act: "r \<in> set (active_refs s)" and nq: "r \<notin> set (queue s)"
    using ok c by (auto simp: record_ok_def live_chain_def)
  show lk: "map_of (active s) (taskId_of s r) = Some r" using active_lookup [OF wf r] act by simp
  have key: "fst e = taskId_of s r \<longleftrightarrow> snd e = r" if "e \<in> set (active s)" for e
  proof
    assume "fst e = taskId_of s r"
    then have "map_of (active s) (taskId_of s r) = Some (snd e)"
      using that sched_wfD(2) [OF wf] by (metis map_of_eq_Some_iff prod.collapse)
    with lk show "snd e = r" by simp
  next
    assume "snd e = r"
    then show "fst e = taskId_of s r"
      using that sched_wfD(5) [OF wf, of "fst e" r] by (metis prod.collapse)
  qed
  have refs: "active_refs s1 = filter (\<lambda>a. a \<noteq> r) (active_refs s)"
    unfolding s1_def using key by (simp add: map_snd_map_delete)
  then show setrefs: "set (active_refs s1) = set (active_refs s) - {r}" by auto
  have f: "queue s1 = queue s" "records s1 = records s" "sequence s1 = sequence s"
    "sc_limits s1 = sc_limits s" "effects s1 = effects s"
    and sub: "set (active s1) \<subseteq> set (active s)" "distinct (map fst (active s1))"
    and st: "store s1 = (store s)(r := (store s r)\<lparr>rc_chain := Finalized\<rparr>)"
    using sched_wfD(2) [OF wf] by (auto simp: s1_def set_chain_def set_map_delete)
  have "record_ok (resolveReleased r s1) r'" if "r' < sequence s" for r'
  proof (cases "r' = r")
    case True
    have "state_of s r \<noteq> Queued" and "state_of s r \<noteq> Running" using trm by auto
    moreover have "r \<notin> set (active_refs s1)" unfolding setrefs by blast
    ultimately show ?thesis
      unfolding True record_ok_def
      by (simp add: resolveReleased_def f st live_chain_def nq del: set_map)
  next
    case False
    then show ?thesis
      using sched_wfD(7) [OF wf that] setrefs
      by (auto simp: record_ok_def resolveReleased_def f st simp del: set_map)
  qed
  then have "sched_wf (resolveReleased r s1)"
    using wf sub by (auto simp: sched_wf_def resolveReleased_def f st)
  moreover have "sched_safe s1"
  proof -
    have "sched_safe s" using inv by (simp add: sched_inv_def)
    moreover have static: "claims_of s1 a = claims_of s a" "resources_of s1 a = resources_of s a" for a
      by (auto simp: st)
    moreover have "length (active s1) \<le> length (active s)"
      by (simp add: s1_def map_delete_def)
    moreover have "heavy_count s1 \<le> heavy_count s" "mutation_count s1 \<le> mutation_count s"
      unfolding heavy_count_def mutation_count_def refs static by (rule filter_length_mono)+
    ultimately show ?thesis
      unfolding sched_safe_def refs static f
      by (auto intro: sorted_wrt_filter_sub simp del: set_map)
  qed
  then have "sched_safe (resolveReleased r s1)"
    by (rule sched_safe_frame) (auto simp: resolveReleased_def same_static_def)
  moreover have "sched_settled (resolveReleased r s1)"
  proof -
    have s: "sched_settled s" using inv by (simp add: sched_inv_def)
    then have "settle_ok s r" using r by (simp add: sched_settled_def)
    then have "\<not> rc_releaseResolved (store s1 r)" using act by (simp add: settle_ok_def st)
    then have "settle_ok (resolveReleased r s1) r'" if "r' < sequence s" for r'
      using s that trm act unfolding settle_ok_def sched_settled_def resolveReleased_def
      by (cases "r' = r") (auto simp: setrefs f st simp del: set_map)
    then show ?thesis
      using s r by (auto simp: sched_settled_def f resolveReleased_def)
  qed
  ultimately show "sched_inv (resolveReleased r s1)"
    using inv by (simp add: sched_inv_def resolveReleased_def f)
qed

lemma finally_release_eq:
  assumes inv: "sched_inv s" and r: "r < sequence s" and c: "chain_of s r = Settled"
  shows "finally_release now r s = resolveIdleWaiters (dispatch now (resolveReleased r
           ((set_chain r Finalized s)\<lparr>active := map_delete (taskId_of s r) (active s)\<rparr>)))"
  using release_inv(3) [OF assms] by (simp add: finally_release_def releaseRecord_def Let_def sched_frame)

lemma finally_release_good:
  assumes good: "sched_good s" and r: "r < sequence s" and c: "chain_of s r = Settled"
  shows "sched_good (finally_release now r s)"
proof -
  have inv: "sched_inv s" and nd: "\<not> isDispatching s" using good by (simp_all add: sched_good_def)
  show ?thesis
    unfolding finally_release_eq [OF inv r c]
    by (intro resolveIdle_good dispatch_good release_inv(1) [OF inv r c])
      (use nd in \<open>simp add: resolveReleased_def sched_frame\<close>)
qed

section \<open>Scheduling\<close>

lemma enqueue_inv:
  assumes inv: "sched_inv s" and new: "map_of (records s) tid = None"
    and rc: "sn_state (rc_snapshot rc) = Queued" "sn_taskId (rc_snapshot rc) = tid"
      "rc_chain rc = NotStarted" "\<not> rc_completionResolved rc" "\<not> rc_releaseResolved rc"
      "rc_deadlineTimer rc \<noteq> None"
      "rc_cancellationListener rc \<longrightarrow> sp_cancellationSignal (rc_spec rc)"
    and s': "queue s' = queue s @ [sequence s]" "active s' = active s"
      "records s' = map_set tid (sequence s) (records s)" "sequence s' = Suc (sequence s)"
      "sc_limits s' = sc_limits s" "effects s' = effects s"
      "store s' = (store s)(sequence s := rc)"
  shows "sched_inv s'"
proof -
  let ?n = "sequence s"
  have wf: "sched_wf s" using inv by (simp add: sched_inv_def)
  have fresh: "?n \<notin> set (queue s)" "?n \<notin> set (active_refs s)" "?n \<notin> snd ` set (active s)"
    using wf by (auto simp: sched_wf_def)
  have recs: "records s' = records s @ [(tid, ?n)]" using map_set_new [OF new] s' by simp
  have "record_ok s' r" if "r < Suc ?n" for r
  proof (cases "r = ?n")
    case True
    then show ?thesis using rc fresh new by (auto simp: record_ok_def s' live_chain_def)
  next
    case False
    then have "record_ok s r" using that sched_wfD(7) [OF wf] by simp
    then show ?thesis
      using False new by (auto simp: record_ok_def s')
  qed
  moreover have "distinct (map fst (records s'))"
    using sched_wfD(3) [OF wf] new unfolding recs by (auto simp: map_of_eq_None_iff)
  moreover have "\<forall>e\<in>set (records s'). snd e < Suc ?n \<and> taskId_of s' (snd e) = fst e"
    using wf rc unfolding recs by (auto simp: sched_wf_def s')
  moreover have "\<forall>e\<in>set (active s'). snd e < Suc ?n \<and> taskId_of s' (snd e) = fst e"
    using wf by (auto simp: sched_wf_def s')
  ultimately have "sched_wf s'"
    using wf fresh by (auto simp: sched_wf_def s' less_Suc_eq)
  moreover have "sched_safe s'"
  proof -
    have "resources_of s' a = resources_of s a" "claims_of s' a = claims_of s a"
      if "a \<in> set (active_refs s)" for a
    proof -
      have "a \<noteq> ?n" using that fresh(2) by blast
      then show "resources_of s' a = resources_of s a" "claims_of s' a = claims_of s a"
        by (simp_all add: s')
    qed
    note eq = this
    have "heavy_count s' = heavy_count s" "mutation_count s' = mutation_count s"
      unfolding heavy_count_def mutation_count_def s'(2)
      by (auto simp del: set_map simp: eq cong: filter_cong intro!: arg_cong [where f = length])
    moreover have "sorted_wrt (\<lambda>a b. \<not> doClaimSetsConflict (claims_of s' a) (claims_of s' b)) (active_refs s)"
      if "sorted_wrt (\<lambda>a b. \<not> doClaimSetsConflict (claims_of s a) (claims_of s b)) (active_refs s)"
      using that by (rule sorted_wrt_mono_rel [rotated]) (simp add: eq)
    ultimately show ?thesis
      using inv eq by (simp add: sched_inv_def sched_safe_def s'(2,5) del: set_map)
  qed
  moreover have "sched_settled s'"
  proof -
    have "sched_settled s" using inv by (simp add: sched_inv_def)
    then show ?thesis
      using rc by (auto simp: sched_settled_def settle_ok_def s' less_Suc_eq)
  qed
  ultimately show ?thesis using inv by (simp add: sched_inv_def s')
qed

text \<open>The state between the insertion of the record and the dispatch.\<close>

definition enqueued ::
    "(jstring \<Rightarrow> jstring \<Rightarrow> bool) \<Rightarrow> rat \<Rightarrow> jstring \<Rightarrow> 'v task_spec \<Rightarrow> 'v scheduler \<Rightarrow> 'v scheduler" where
  "enqueued locale_le now tid spec s =
     observeCancellation (sequence s) (armDeadline now (sequence s)
       (s\<lparr>store := (store s)(sequence s := new_record locale_le now tid spec s),
          sequence := Suc (sequence s), records := map_set tid (sequence s) (records s),
          queue := queue s @ [sequence s]\<rparr>))"

lemma schedule_InrE:
  assumes "schedule locale_le now gid spec s = Inr (r, s')"
  obtains tid where "map_of (records s) tid = None" and "r = sequence s"
    and "tid = (case ts_taskId spec of None \<Rightarrow> gid | Some i \<Rightarrow> i)"
    and "s' = dispatch now (if ts_cancellationSignal spec = Some True
           then cancelRecord now r (enqueued locale_le now tid spec s)
           else enqueued locale_le now tid spec s)"
proof -
  let ?tid = "case ts_taskId spec of None \<Rightarrow> gid | Some i \<Rightarrow> i"
  have "validateTaskSpec spec = None" and new: "map_of (records s) ?tid = None"
    using assms by (simp_all add: schedule_def Let_def split: option.splits if_splits)
  with assms have "r = sequence s \<and> s' = dispatch now (if ts_cancellationSignal spec = Some True
           then cancelRecord now (sequence s) (enqueued locale_le now ?tid spec s)
           else enqueued locale_le now ?tid spec s)"
    unfolding schedule_def enqueued_def by (simp only: Let_def option.case new) simp
  with new show ?thesis using that by blast
qed

lemma enqueued_fields [sched_frame]:
  "queue (enqueued le now tid spec s) = queue s @ [sequence s]"
  "active (enqueued le now tid spec s) = active s"
  "records (enqueued le now tid spec s) = map_set tid (sequence s) (records s)"
  "sequence (enqueued le now tid spec s) = Suc (sequence s)"
  "sc_limits (enqueued le now tid spec s) = sc_limits s"
  "effects (enqueued le now tid spec s) = effects s"
  "isDispatching (enqueued le now tid spec s) = isDispatching s"
  "r \<noteq> sequence s \<Longrightarrow> store (enqueued le now tid spec s) r = store s r"
  by (simp_all add: enqueued_def observeCancellation_def armDeadline_def)

lemma enqueued_inv:
  "sched_inv s \<Longrightarrow> map_of (records s) tid = None \<Longrightarrow> sched_inv (enqueued le now tid spec s)"
  by (rule enqueue_inv [of s tid "store (enqueued le now tid spec s) (sequence s)"])
    (auto simp: enqueued_def observeCancellation_def armDeadline_def new_record_def)

lemma schedule_good:
  assumes good: "sched_good s" and sch: "schedule locale_le now gid spec s = Inr (r, s')"
  shows "sched_good s'"
proof -
  obtain tid where tid: "map_of (records s) tid = None" and r: "r = sequence s"
    and s': "s' = dispatch now (if ts_cancellationSignal spec = Some True
           then cancelRecord now r (enqueued locale_le now tid spec s)
           else enqueued locale_le now tid spec s)"
    using schedule_InrE [OF sch] by metis
  have "sched_inv (enqueued locale_le now tid spec s)"
    using good tid by (intro enqueued_inv) (simp_all add: sched_good_def)
  then show ?thesis
    using sched_good_inv [OF good] unfolding s' r
    by (auto intro!: dispatch_good cancelRecord_inv simp: sched_frame)
qed

lemma positive_integer_nat:
  "positive_integer x \<Longrightarrow> 0 < num_nat x \<and> x = Num (of_nat (num_nat x))"
  by (cases x) (auto simp: positive_integer_def floor_less_iff le_floor_iff)

lemma validateLimits_ok:
  assumes "validateLimits t h m = Inr l"
  shows "limits_ok l"
proof -
  have pos: "positive_integer t" "positive_integer h" "positive_integer m"
    and le: "\<not> num_lt t h" "\<not> num_lt t m"
    and l: "l = \<lparr>lm_total = num_nat t, lm_heavy = num_nat h, lm_mutation = num_nat m\<rparr>"
    using assms by (auto simp: validateLimits_def split: if_splits)
  note [simp] = pos [THEN positive_integer_nat, THEN conjunct1]
  have "\<not> num_lt (Num (of_nat (num_nat t))) (Num (of_nat (num_nat h)))"
    "\<not> num_lt (Num (of_nat (num_nat t))) (Num (of_nat (num_nat m)))"
    using le pos [THEN positive_integer_nat] by metis+
  then show ?thesis by (simp add: limits_ok_def l not_less)
qed

lemma new_scheduler_good:
  assumes "new_scheduler sid t h m = Inr s"
  shows "sched_good s"
proof -
  obtain a b c lims where v: "validateLimits a b c = Inr lims" and s: "s = \<lparr>sc_sessionId = sid, sc_limits = lims,
      store = (\<lambda>_. undefined), records = [], queue = [], active = [], idleWaiters = [],
      sequence = 0, isDispatching = False, effects = []\<rparr>"
    using assms by (auto simp: new_scheduler_def Let_def split: if_splits sum.splits)
  have "findNextRunnableIndex s = None" by (simp add: s findNextRunnableIndex_def)
  then show "sched_good s"
    using validateLimits_ok [OF v]
    by (simp add: s sched_good_def sched_inv_def sched_wf_def sched_safe_def sched_settled_def
        heavy_count_def mutation_count_def sched_idle_ok_def)
qed

lemma sched_step_good: "sched_step locale_le s s' \<Longrightarrow> sched_good s \<Longrightarrow> sched_good s'"
  by (induction rule: sched_step.induct)
    (auto intro: schedule_good run_microtask_good runner_resolves_good runner_rejects_good
      reportPartial_good finally_release_good handleDeadline_good cancellation_fires_good
      cancelAll_good waitForIdle_good forgetTask_good)

lemma sched_reachable_good: "sched_reachable locale_le s \<Longrightarrow> sched_good s"
  by (induction rule: sched_reachable.induct) (auto intro: new_scheduler_good sched_step_good)

end
