(* ===== verification/SchedulerHistory.thy ===== *)
theory SchedulerHistory
  imports SchedulerSafety
begin

text \<open>
  What one event may change of the past: the snapshot of a settled task is never written again, by
  any method or callback of the scheduler.
\<close>

section \<open>Settled snapshots are final\<close>

definition frozen :: "'v scheduler \<Rightarrow> 'v scheduler \<Rightarrow> bool" where
  "frozen s s' \<longleftrightarrow> (\<forall>r<sequence s. isTerminalState (state_of s r) \<longrightarrow>
     rc_snapshot (store s' r) = rc_snapshot (store s r))"

lemma frozen_refl [simp]: "frozen s s"
  by (simp add: frozen_def)

lemma frozen_trans: "frozen s t \<Longrightarrow> sequence t = sequence s \<Longrightarrow> frozen t u \<Longrightarrow> frozen s u"
  by (simp add: frozen_def)

lemma frozen_store: "store s' = store s \<Longrightarrow> frozen s s'"
  by (simp add: frozen_def)

lemma frozen_finish: "frozen s (finishRecord now r p s)"
  by (cases "isTerminalState (state_of s r)") (auto simp: frozen_def finishRecord_store)

lemma frozen_abort: "frozen s (invokeAbortHook r reason (abort_controller r reason s))"
  by (simp add: frozen_def invokeAbortHook_def abort_controller_def)

lemma frozen_cancel: "frozen s (cancelRecord now r s)"
proof -
  have "frozen s (finishRecord now r p (removeQueuedRecord r s))" for p
    by (rule frozen_trans [OF _ _ frozen_finish])
      (simp_all add: frozen_store removeQueuedRecord_def)
  moreover have "frozen s (finishRecord now r p (invokeAbortHook r reason (abort_controller r reason s)))"
    for p reason
    by (rule frozen_trans [OF frozen_abort _ frozen_finish]) (simp add: sched_frame)
  ultimately show ?thesis by (simp add: cancelRecord_def Let_def)
qed

lemma start_at_frozen:
  assumes "sched_inv s" and "findNextRunnableIndex s = Some i"
  shows "frozen s (start_at now i s)"
proof -
  have wf: "sched_wf s" using assms(1) by (simp add: sched_inv_def)
  have "i < length (queue s)"
    using findNextRunnableIndex_Some [OF assms(2)] by (simp add: admissible_def)
  then have q: "queue s ! i \<in> set (queue s)" by simp
  have "state_of s (queue s ! i) = Queued"
    using sched_wfD(7) [OF wf sched_wfD(4) [OF wf q]] q by (simp add: record_ok_def)
  then show ?thesis by (auto simp: frozen_def sched_frame)
qed

lemma dispatch_frozen:
  assumes "sched_inv s"
  shows "frozen s (dispatch now s)" and "sequence (dispatch now s) = sequence s"
proof -
  let ?P = "\<lambda>t. sched_inv t \<and> sequence t = sequence s \<and> frozen s t"
  have "?P (dispatch_loop now (s\<lparr>isDispatching := True\<rparr>))"
  proof (rule dispatch_loop_invariant [where P = ?P])
    fix t i
    assume "?P t" and "findNextRunnableIndex t = Some i"
    then show "?P (start_at now i t)"
      using start_at_inv start_at_frozen frozen_trans by (simp add: sched_frame) blast
  qed (use assms in \<open>simp add: frozen_def\<close>)
  then show "frozen s (dispatch now s)" and "sequence (dispatch now s) = sequence s"
    by (simp_all add: dispatch_def sched_frame frozen_def)
qed

lemma frozen_idle: "frozen s t \<Longrightarrow> frozen s (resolveIdleWaiters t)"
  by (simp add: frozen_def sched_frame)

lemma frozen_dispatch_after:
  "sched_inv t \<Longrightarrow> sequence t = sequence s \<Longrightarrow> frozen s t \<Longrightarrow> frozen s (dispatch now t)"
  using dispatch_frozen(1) frozen_trans by blast

lemma frozen_fold_cancel:
  "frozen s (fold (cancelRecord now) rs s)"
proof (induction rs arbitrary: s)
  case (Cons r rs)
  show ?case
    using frozen_trans [OF frozen_cancel [of s now r] _ Cons.IH] by (simp add: sched_frame)
qed simp

lemma schedule_frozen:
  assumes good: "sched_good s" and sch: "schedule locale_le now gid spec s = Inr (r, s')"
  shows "frozen s s'"
proof -
  obtain tid where new: "map_of (records s) tid = None" and r: "r = sequence s"
    and s'': "s' = dispatch now (if ts_cancellationSignal spec = Some True
           then cancelRecord now r (enqueued locale_le now tid spec s)
           else enqueued locale_le now tid spec s)"
    using schedule_InrE [OF sch] by metis
  define s2 where s2: "s2 = enqueued locale_le now tid spec s"
  note s' = s'' [folded s2, unfolded r]
  have f2: "frozen s s2" "sequence s2 = Suc (sequence s)"
    by (auto simp: s2 frozen_def sched_frame)
  have inv2: "sched_inv s2"
    using good new unfolding s2 by (intro enqueued_inv) (simp_all add: sched_good_def)
  let ?s3 = "if ts_cancellationSignal spec = Some True then cancelRecord now (sequence s) s2 else s2"
  have "frozen s2 ?s3" "sched_inv ?s3" "sequence ?s3 = sequence s2"
    using inv2 f2(2) by (auto simp: frozen_cancel cancelRecord_inv sched_frame)
  then have "frozen s2 s'" unfolding s' by (intro frozen_dispatch_after)
  with f2 show ?thesis by (auto simp: frozen_def)
qed

lemma sched_step_frozen:
  assumes "sched_step locale_le s s'" and "sched_good s"
  shows "frozen s s'"
  using assms
proof (induction rule: sched_step.induct)
  case (step_schedule now gid spec s r s')
  then show ?case by (rule schedule_frozen [rotated])
next
  case (step_microtask r s)
  show ?case by (auto simp: frozen_def run_microtask_def set_chain_def)
next
  case (step_resolve r s now outcome)
  have "frozen s (applyRunOutcome now r outcome s)"
    using applyRunOutcome_cases(1,2) [of s r now outcome] frozen_finish
    by (cases "state_of s r = Running") auto
  then show ?case by (auto simp: frozen_def runner_resolves_def set_chain_def)
next
  case (step_reject r s now err)
  have "frozen s (applyUnexpectedFailure now r err s)"
    using applyRunOutcome_cases(3,4) [of s r now err] frozen_finish
    by (cases "state_of s r = Running") auto
  then show ?case by (auto simp: frozen_def runner_rejects_def set_chain_def)
next
  case (step_partial r s v)
  show ?case by (auto simp: frozen_def reportPartial_def)
next
  case (step_finally r s now)
  let ?s1 = "resolveReleased r ((set_chain r Finalized s)\<lparr>active := map_delete (taskId_of s r) (active s)\<rparr>)"
  have inv: "sched_inv s" using step_finally by (simp add: sched_good_def)
  have "frozen s ?s1" "sequence ?s1 = sequence s"
    by (auto simp: frozen_def resolveReleased_def set_chain_def)
  then show ?case
    unfolding finally_release_eq [OF inv step_finally(1,2)]
    using release_inv(1) [OF inv step_finally(1,2)]
    by (intro frozen_idle frozen_dispatch_after)
next
  case (step_deadline r s now)
  then have inv: "sched_inv s" by (simp add: sched_good_def)
  show ?case
  proof (cases "state_of s r = Queued")
    case True
    have q: "r \<in> set (queue s)" using inv_state_cases [OF inv step_deadline(1)] True by simp
    have "frozen s (finishRecord now r p (removeQueuedRecord r s))" for p
      by (rule frozen_trans [OF _ _ frozen_finish]) (simp_all add: frozen_store removeQueuedRecord_def)
    then show ?thesis
      using True drop_queued_inv [OF inv q]
      by (auto simp: handleDeadline_def Let_def intro!: frozen_idle frozen_dispatch_after)
        (simp add: sched_frame removeQueuedRecord_def)
  next
    case False
    have "frozen s (finishRecord now r p (invokeAbortHook r AbortDeadline (abort_controller r AbortDeadline s)))" for p
      by (rule frozen_trans [OF frozen_abort _ frozen_finish]) (simp add: sched_frame)
    with False show ?thesis
      by (cases "state_of s r") (auto simp: handleDeadline_def Let_def intro!: frozen_idle)
  qed
next
  case (step_signal r s now)
  then show ?case
    unfolding cancellation_fires_def
    by (intro frozen_idle frozen_dispatch_after frozen_cancel cancelRecord_inv)
      (auto simp: sched_good_def sched_frame)
next
  case (step_cancelAll s now)
  then have inv: "sched_inv s" and wf: "sched_wf s" by (auto simp: sched_good_def sched_inv_def)
  let ?s1 = "fold (cancelRecord now) (queue s) s"
  let ?s2 = "fold (cancelRecord now) (active_refs ?s1) ?s1"
  have s1: "sched_inv ?s1 \<and> active ?s1 = active s \<and> sequence ?s1 = sequence s \<and>
      isDispatching ?s1 = isDispatching s"
    by (rule fold_cancel_inv [OF inv]) (simp add: sched_wfD(4) [OF wf])
  have "\<forall>r\<in>set (active_refs ?s1). r < sequence ?s1"
    using s1 sched_wfD(5) [OF wf] by auto
  from fold_cancel_inv [OF conjunct1 [OF s1] this]
  have s2: "sched_inv ?s2 \<and> sequence ?s2 = sequence ?s1" by blast
  have "frozen s ?s2"
    using frozen_trans [OF frozen_fold_cancel _ frozen_fold_cancel] s1 by blast
  then show ?case
    unfolding cancelAll_def Let_def
    using s1 s2 by (intro frozen_idle frozen_dispatch_after) auto
next
  case (step_waitForIdle s waiter)
  show ?case by (rule frozen_store) (simp add: waitForIdle_def)
next
  case (step_forget s taskId)
  show ?case by (rule frozen_store) (auto simp: forgetTask_def split: option.splits)
qed

end
