(* ===== verification/SchedulerFairness.thy ===== *)
theory SchedulerFairness
  imports SchedulerSafety
begin

text \<open>
  Order of service: no task that owns a slot is younger than a queued task it overlaps, in every
  reachable state.
\<close>

section \<open>No overtaking\<close>

text \<open>
  Addresses grow with arrival, so the queue is sorted, and no owner of a slot is younger than a
  queued task that it overlaps or that asked for exclusive use.
\<close>

definition fair :: "'v scheduler \<Rightarrow> bool" where
  "fair s \<longleftrightarrow> sorted_wrt (<) (queue s) \<and>
     (\<forall>a\<in>set (queue s). \<forall>b\<in>set (active_refs s). a < b \<longrightarrow>
        \<not> doClaimSetsConflict (claims_of s a) (claims_of s b) \<and>
        \<not> exclusive (resources_of s a) \<and> \<not> exclusive (resources_of s b))"

lemma fair_shrink:
  assumes "fair s" and "sorted_wrt (<) (queue s')" and "set (queue s') \<subseteq> set (queue s)"
    and "set (active_refs s') \<subseteq> set (active_refs s)"
    and "\<And>r. r \<in> set (queue s) \<union> set (active_refs s) \<Longrightarrow>
           claims_of s' r = claims_of s r \<and> resources_of s' r = resources_of s r"
  shows "fair s'"
proof -
  have "\<not> doClaimSetsConflict (claims_of s' a) (claims_of s' b) \<and>
      \<not> exclusive (resources_of s' a) \<and> \<not> exclusive (resources_of s' b)"
    if "a \<in> set (queue s')" "b \<in> set (active_refs s')" "a < b" for a b
  proof -
    have ab: "a \<in> set (queue s)" "b \<in> set (active_refs s)" using that assms(3,4) by blast+
    then have "\<not> doClaimSetsConflict (claims_of s a) (claims_of s b) \<and>
        \<not> exclusive (resources_of s a) \<and> \<not> exclusive (resources_of s b)"
      using assms(1) that(3) unfolding fair_def by blast
    then show ?thesis using assms(5) [of a] assms(5) [of b] ab by simp
  qed
  then show ?thesis using assms(2) unfolding fair_def by blast
qed

lemma fair_static:
  assumes "fair s" and "queue s' = queue s" and "active s' = active s" and "same_static s s'"
  shows "fair s'"
  using assms(1)
  by (rule fair_shrink) (use assms in \<open>auto simp: fair_def same_static_def\<close>)

lemma sorted_remove1: "sorted_wrt (<) (xs :: nat list) \<Longrightarrow> sorted_wrt (<) (remove1 x xs)"
  using set_remove1_subset by (induction xs) fastforce+

lemma sorted_remove_at:
  assumes "sorted_wrt P xs" and "i < length xs"
  shows "sorted_wrt P (remove_at i xs)"
proof -
  have *: "xs = take i xs @ xs ! i # drop (Suc i) xs"
    by (rule id_take_nth_drop [OF assms(2)])
  show ?thesis
  proof -
    have "sorted_wrt P (take i xs @ xs ! i # drop (Suc i) xs)" using assms(1) * by simp
    then show ?thesis by (simp add: remove_at_def sorted_wrt_append)
  qed
qed

lemma start_at_fair:
  assumes inv: "sched_inv s" and fair: "fair s" and next_: "findNextRunnableIndex s = Some i"
  shows "fair (start_at now i s)"
proof -
  let ?r = "queue s ! i"
  have adm: "admissible s i" using findNextRunnableIndex_Some [OF next_] by blast
  then have i: "i < length (queue s)" by (simp add: admissible_def)
  have wf: "sched_wf s" using inv by (simp add: sched_inv_def)
  note refs = start_at_wf(2) [OF wf i, of now]
  have srt: "sorted_wrt (<) (queue s)" using fair by (simp add: fair_def)
  have static: "claims_of (start_at now i s) a = claims_of s a"
    "resources_of (start_at now i s) a = resources_of s a" for a by (simp_all add: sched_frame)
  have q: "queue (start_at now i s) = remove_at i (queue s)" by (simp add: sched_frame)
  have sub: "set (remove_at i (queue s)) \<subseteq> set (queue s)"
    by (auto simp: remove_at_def dest: in_set_takeD in_set_dropD)
  have older: "\<not> doClaimSetsConflict (claims_of s a) (claims_of s ?r) \<and>
      \<not> exclusive (resources_of s a) \<and> \<not> exclusive (resources_of s ?r)"
    if a: "a \<in> set (queue s)" "a < ?r" for a
  proof -
    obtain j where j: "j < length (queue s)" "queue s ! j = a"
      using a(1) unfolding in_set_conv_nth by blast
    have "j < i"
    proof (rule ccontr)
      assume "\<not> j < i"
      then have "i = j \<or> ?r < queue s ! j"
        using sorted_wrt_nth_less [OF srt, of i j] j(1) by linarith
      with a j show False by auto
    qed
    then have ne: "\<not> exclusive (resources_of s a)" and ner: "\<not> exclusive (resources_of s ?r)"
      using adm j by (auto simp: admissible_def)
    have "a \<in> set (take i (queue s))"
      unfolding in_set_conv_nth using \<open>j < i\<close> i j by (intro exI [of _ j]) simp
    then have "\<not> doClaimSetsConflict (claims_of s ?r) (claims_of s a)"
      using adm ner by (auto simp: admissible_def conflictsWithOlderQueuedClaim_def list_ex_iff)
    then show ?thesis using ne ner doClaimSetsConflict_sym by blast
  qed
  have "\<not> doClaimSetsConflict (claims_of s a) (claims_of s b) \<and>
      \<not> exclusive (resources_of s a) \<and> \<not> exclusive (resources_of s b)"
    if "a \<in> set (remove_at i (queue s))" "b \<in> set (active_refs s @ [?r])" "a < b" for a b
    using that sub older [of a] fair unfolding fair_def set_append list.set by blast
  note pairs = this
  have "sorted_wrt (<) (queue (start_at now i s))" unfolding q by (rule sorted_remove_at [OF srt i])
  moreover have "\<not> doClaimSetsConflict (claims_of (start_at now i s) a) (claims_of (start_at now i s) b) \<and>
      \<not> exclusive (resources_of (start_at now i s) a) \<and> \<not> exclusive (resources_of (start_at now i s) b)"
    if "a \<in> set (queue (start_at now i s))" "b \<in> set (active_refs (start_at now i s))" "a < b" for a b
    unfolding static(1) static(2) by (rule pairs [OF that(1) [unfolded q] that(2) [unfolded refs] that(3)])
  ultimately show ?thesis unfolding fair_def by blast
qed

lemma fair_resolveIdle [simp]: "fair (resolveIdleWaiters s) = fair s"
  by (simp add: fair_def sched_frame)

lemma fair_dispatching [simp]: "fair (s\<lparr>isDispatching := b\<rparr>) = fair s"
  by (simp add: fair_def)

lemma dispatch_fair:
  assumes "sched_inv s" and "fair s"
  shows "fair (dispatch now s)"
proof (cases "isDispatching s")
  case False
  have "sched_inv (dispatch_loop now (s\<lparr>isDispatching := True\<rparr>)) \<and>
      fair (dispatch_loop now (s\<lparr>isDispatching := True\<rparr>))"
    by (rule dispatch_loop_invariant [where P = "\<lambda>s. sched_inv s \<and> fair s"])
      (simp_all add: assms start_at_inv start_at_fair)
  with False show ?thesis by (simp add: dispatch_def)
qed (simp add: dispatch_def assms)

lemma same_static_dequeue [simp]: "same_static s (removeQueuedRecord r s)"
  by (simp add: same_static_def removeQueuedRecord_def)

lemma cancel_static [simp]: "same_static s (cancelRecord now r s)"
proof -
  have "same_static s (finishRecord now r p (removeQueuedRecord r s))" for p
    by (rule same_static_trans [OF same_static_dequeue same_static_finish])
  moreover have "same_static s (finishRecord now r p (invokeAbortHook r reason (abort_controller r reason s)))"
    for p reason
    by (rule same_static_trans [OF same_static_trans [OF same_static_abort same_static_hook]
          same_static_finish])
  ultimately show ?thesis by (simp add: cancelRecord_def Let_def)
qed

lemma dequeue_fair:
  assumes "fair s" and "same_static s s'" and "queue s' = queue s \<or> queue s' = remove1 r (queue s)"
    and "active s' = active s"
  shows "fair s'"
proof (rule fair_shrink [OF assms(1)])
  show "sorted_wrt (<) (queue s')" using assms(1,3) by (auto simp: fair_def sorted_remove1)
  show "set (queue s') \<subseteq> set (queue s)" using assms(3) set_remove1_subset [of r "queue s"] by auto
qed (use assms in \<open>simp_all add: same_static_def\<close>)

lemma cancel_fair: "fair s \<Longrightarrow> fair (cancelRecord now r s)"
  by (erule dequeue_fair [where r = r, OF _ cancel_static]) (simp_all add: sched_frame)

lemma fold_cancel_fair: "fair s \<Longrightarrow> fair (fold (cancelRecord now) rs s)"
  by (induction rs arbitrary: s) (simp_all add: cancel_fair)

lemma enqueued_fair:
  assumes "sched_inv s" and "fair s"
  shows "fair (enqueued le now tid spec s)"
proof -
  have wf: "sched_wf s" using assms(1) by (simp add: sched_inv_def)
  have lt: "\<forall>a\<in>set (queue s) \<union> set (active_refs s). a < sequence s"
    using sched_wfD(4,5) [OF wf] by fastforce
  let ?t = "enqueued le now tid spec s"
  have "sorted_wrt (<) (queue ?t)"
    using lt assms(2) by (auto simp: fair_def sched_frame sorted_wrt_append)
  moreover have "\<not> doClaimSetsConflict (claims_of ?t a) (claims_of ?t b) \<and>
      \<not> exclusive (resources_of ?t a) \<and> \<not> exclusive (resources_of ?t b)"
    if "a \<in> set (queue ?t)" "b \<in> set (active_refs ?t)" "a < b" for a b
  proof -
    have b: "b \<in> set (active_refs s)" and b_lt: "b < sequence s"
      using that(2) lt by (auto simp only: sched_frame)
    then have a: "a \<in> set (queue s)" using that(1,3) by (auto simp: sched_frame)
    have "a \<noteq> sequence s" "b \<noteq> sequence s" using a b_lt lt by auto
    then have eq: "store ?t a = store s a" "store ?t b = store s b" by (simp_all add: sched_frame)
    show ?thesis
      unfolding eq using assms(2) a b that(3) unfolding fair_def by blast
  qed
  ultimately show ?thesis unfolding fair_def by blast
qed

lemma schedule_fair:
  assumes good: "sched_good s" and fair: "fair s"
    and sch: "schedule locale_le now gid spec s = Inr (r, s')"
  shows "fair s'"
proof -
  obtain tid where new: "map_of (records s) tid = None" and r: "r = sequence s"
    and s'': "s' = dispatch now (if ts_cancellationSignal spec = Some True
           then cancelRecord now r (enqueued locale_le now tid spec s)
           else enqueued locale_le now tid spec s)"
    using schedule_InrE [OF sch] by metis
  have inv: "sched_inv s" using good by (simp add: sched_good_def)
  note e = enqueued_inv [OF inv new, of locale_le now spec]
    enqueued_fair [OF inv fair, of locale_le now tid spec]
  show ?thesis
    unfolding s'' r using e
    by (auto intro!: dispatch_fair cancelRecord_inv cancel_fair simp: sched_frame)
qed

lemma sched_step_fair:
  assumes "sched_step locale_le s s'" and "sched_good s" and "fair s"
  shows "fair s'"
  using assms
proof (induction rule: sched_step.induct)
  case (step_schedule now gid spec s r s')
  then show ?case by (metis schedule_fair)
next
  case (step_microtask r s)
  show ?case
    by (rule fair_static [OF step_microtask(4)])
      (auto simp: run_microtask_def set_chain_def same_static_def)
next
  case (step_resolve r s now outcome)
  have "applyRunOutcome now r outcome s = s \<or> (\<exists>p. applyRunOutcome now r outcome s = finishRecord now r p s)"
    using applyRunOutcome_cases(1,2) [of s r now outcome] by blast
  then have "same_static s (applyRunOutcome now r outcome s)"
    "queue (applyRunOutcome now r outcome s) = queue s"
    "active (applyRunOutcome now r outcome s) = active s" by (auto simp: sched_frame)
  then show ?case
    unfolding runner_resolves_def
    by (intro fair_static [OF step_resolve(4)])
      (auto simp: sched_frame intro: same_static_trans)
next
  case (step_reject r s now err)
  have "applyUnexpectedFailure now r err s = s \<or>
      (\<exists>p. applyUnexpectedFailure now r err s = finishRecord now r p s)"
    using applyRunOutcome_cases(3,4) [of s r now err] by blast
  then have "same_static s (applyUnexpectedFailure now r err s)"
    "queue (applyUnexpectedFailure now r err s) = queue s"
    "active (applyUnexpectedFailure now r err s) = active s" by (auto simp: sched_frame)
  then show ?case
    unfolding runner_rejects_def
    by (intro fair_static [OF step_reject(4)])
      (auto simp: sched_frame intro: same_static_trans)
next
  case (step_partial r s v)
  show ?case
    by (rule fair_static [OF step_partial(4)]) (auto simp: reportPartial_def same_static_def)
next
  case (step_finally r s now)
  let ?s1 = "(set_chain r Finalized s)\<lparr>active := map_delete (taskId_of s r) (active s)\<rparr>"
  have inv: "sched_inv s" using step_finally by (simp add: sched_good_def)
  note rel = release_inv [OF inv step_finally(1,2)]
  have "fair ?s1"
  proof (rule fair_shrink [OF step_finally(4)])
    show "set (active_refs ?s1) \<subseteq> set (active_refs s)" using rel(2) by blast
  qed (use step_finally(4) in \<open>simp_all add: fair_def set_chain_def\<close>)
  then have "fair (resolveReleased r ?s1)"
    by (rule fair_static) (auto simp: resolveReleased_def same_static_def)
  then show ?case
    unfolding finally_release_eq [OF inv step_finally(1,2)]
    using dispatch_fair rel(1) by simp
next
  case (step_deadline r s now)
  then have inv: "sched_inv s" and f: "fair s" by (simp_all add: sched_good_def)
  show ?case
  proof (cases "state_of s r")
    case Queued
    have q: "r \<in> set (queue s)" using inv_state_cases [OF inv step_deadline(1)] Queued by simp
    have "fair (finishRecord now r p (removeQueuedRecord r s))" for p
      by (rule dequeue_fair [OF f, of _ r])
        (auto simp: sched_frame removeQueuedRecord_def intro: same_static_trans [OF same_static_dequeue same_static_finish, unfolded removeQueuedRecord_def])
    with Queued drop_queued_inv [OF inv q] show ?thesis
      by (simp add: handleDeadline_def Let_def dispatch_fair)
  next
    case Running
    have "fair (finishRecord now r p (invokeAbortHook r AbortDeadline (abort_controller r AbortDeadline s)))" for p
      by (rule fair_static [OF f])
        (auto simp: sched_frame intro: same_static_trans [OF same_static_trans [OF same_static_abort same_static_hook]
          same_static_finish])
    with Running show ?thesis by (simp add: handleDeadline_def Let_def)
  qed (use f in \<open>simp_all add: handleDeadline_def\<close>)
next
  case (step_signal r s now)
  then have inv: "sched_inv s" and f: "fair s" by (simp_all add: sched_good_def)
  show ?case
    unfolding cancellation_fires_def
    using dispatch_fair [OF cancelRecord_inv [OF inv step_signal(1)] cancel_fair [OF f]] by simp
next
  case (step_cancelAll s now)
  then have inv: "sched_inv s" and wf: "sched_wf s" and f: "fair s"
    by (auto simp: sched_good_def sched_inv_def)
  let ?s1 = "fold (cancelRecord now) (queue s) s"
  let ?s2 = "fold (cancelRecord now) (active_refs ?s1) ?s1"
  have s1: "sched_inv ?s1 \<and> active ?s1 = active s \<and> sequence ?s1 = sequence s \<and>
      isDispatching ?s1 = isDispatching s"
    by (rule fold_cancel_inv [OF inv]) (simp add: sched_wfD(4) [OF wf])
  have "\<forall>r\<in>set (active_refs ?s1). r < sequence ?s1"
    using s1 sched_wfD(5) [OF wf] by auto
  from fold_cancel_inv [OF conjunct1 [OF s1] this]
  have s2: "sched_inv ?s2" by blast
  have "fair ?s2" by (intro fold_cancel_fair f)
  then show ?case unfolding cancelAll_def Let_def using dispatch_fair [OF s2] by simp
next
  case (step_waitForIdle s waiter)
  show ?case by (rule fair_static [OF step_waitForIdle(2)]) (simp_all add: waitForIdle_def same_static_def)
next
  case (step_forget s taskId)
  show ?case
    by (rule fair_static [OF step_forget(2)])
      (auto simp: forgetTask_def same_static_def split: option.splits)
qed

lemma sched_reachable_fair: "sched_reachable locale_le s \<Longrightarrow> fair s"
proof (induction rule: sched_reachable.induct)
  case (reach_new sid t h m s)
  then show ?case
    by (auto simp: new_scheduler_def Let_def fair_def split: if_splits sum.splits)
qed (blast intro: sched_step_fair sched_reachable_good)

end
