(* ===== verification/SchedulerProgress.thy ===== *)
theory SchedulerProgress
  imports SchedulerSafety
begin

text \<open>
  Progress: an idle scheduler queues nothing, and the microtasks of the tasks that own slots, with
  runners that settle in any order and in any way, lead to an idle one after a bounded number of steps.
\<close>
lemma no_starvation:
  assumes good: "sched_good s" and idle: "active s = []"
  shows "queue s = []"
proof (rule ccontr)
  assume q: "queue s \<noteq> []"
  have "limits_ok (sc_limits s)" using good by (simp add: sched_good_def sched_inv_def)
  then have "admissible s 0"
    using q idle by (auto simp: admissible_def hasCapacityFor_def conflictsWithActive_def
        conflictsWithOlderQueuedClaim_def limits_ok_def)
  then show False
    using findNextRunnableIndex_None [of s] good unfolding sched_good_def by blast
qed

text \<open>What a task that owns a slot still does: its first microtask, the end of its runner, its release.\<close>

inductive chain_step :: "'v scheduler \<Rightarrow> 'v scheduler \<Rightarrow> bool" where
  chain_microtask: "r < sequence s \<Longrightarrow> chain_of s r = Admitted \<Longrightarrow> chain_step s (run_microtask r s)"
| chain_resolve: "r < sequence s \<Longrightarrow> chain_of s r = Invoked \<Longrightarrow> chain_step s (runner_resolves now r outcome s)"
| chain_reject: "r < sequence s \<Longrightarrow> chain_of s r = Invoked \<Longrightarrow> chain_step s (runner_rejects now r err s)"
| chain_finally: "r < sequence s \<Longrightarrow> chain_of s r = Settled \<Longrightarrow> chain_step s (finally_release now r s)"

lemma chain_step_sched_step: "chain_step s s' \<Longrightarrow> sched_step le s s'"
  by (induction rule: chain_step.induct) (auto intro: sched_step.intros)

fun chain_weight :: "chain \<Rightarrow> nat" where
  "chain_weight Invoked = 2"
| "chain_weight Settled = 1"
| "chain_weight Finalized = 0"
| "chain_weight _ = 3"

definition work_left :: "'v scheduler \<Rightarrow> nat" where
  "work_left s = 3 * length (queue s) + (\<Sum>r\<in>set (active_refs s). chain_weight (chain_of s r))"

lemma start_at_work:
  assumes wf: "sched_wf s" and i: "i < length (queue s)"
  shows "work_left (start_at now i s) = work_left s"
proof -
  let ?r = "queue s ! i" and ?t = "start_at now i s"
  have refs: "active_refs ?t = active_refs s @ [?r]" by (rule start_at_wf(2) [OF assms])
  have "distinct (active_refs ?t)" by (rule distinct_active_refs [OF start_at_wf(1) [OF assms]])
  then have new: "?r \<notin> set (active_refs s)" unfolding refs by simp
  have chain: "chain_of ?t a = (if a = ?r then Admitted else chain_of s a)" for a by (simp add: sched_frame)
  have "(\<Sum>a\<in>set (active_refs s). chain_weight (chain_of ?t a)) = (\<Sum>a\<in>set (active_refs s). chain_weight (chain_of s a))"
    by (rule sum.cong) (use new chain in metis)+
  moreover have "set (active_refs ?t) = insert ?r (set (active_refs s))" unfolding refs by simp
  ultimately have "(\<Sum>a\<in>set (active_refs ?t). chain_weight (chain_of ?t a)) =
      3 + (\<Sum>a\<in>set (active_refs s). chain_weight (chain_of s a))"
    using new by (simp add: sum.insert chain)
  moreover have "length (queue ?t) = length (queue s) - 1" using i by (simp add: sched_frame remove_at_def)
  ultimately show ?thesis using i by (simp add: work_left_def)
qed

lemma dispatch_work:
  assumes "sched_inv s"
  shows "work_left (dispatch now s) = work_left s"
proof (cases "isDispatching s")
  case False
  let ?P = "\<lambda>t. sched_inv t \<and> work_left t = work_left s"
  have "?P (dispatch_loop now (s\<lparr>isDispatching := True\<rparr>))"
  proof (rule dispatch_loop_invariant [where P = ?P])
    fix t i
    assume t: "?P t" and i: "findNextRunnableIndex t = Some i"
    have "work_left (start_at now i t) = work_left t"
      using t by (intro start_at_work findNextRunnableIndex_less [OF i]) (simp add: sched_inv_def)
    with t show "?P (start_at now i t)" using start_at_inv i by metis
  qed (use assms in \<open>simp add: work_left_def\<close>)
  with False show ?thesis by (simp add: dispatch_def work_left_def sched_frame)
qed (simp add: dispatch_def)

lemma set_chain_work:
  assumes "r \<in> set (active_refs s)"
  shows "work_left (set_chain r c s) + chain_weight (chain_of s r) = work_left s + chain_weight c"
proof -
  have "(\<Sum>a\<in>set (active_refs s). chain_weight (chain_of (set_chain r c s) a)) =
      chain_weight c + (\<Sum>a\<in>set (active_refs s) - {r}. chain_weight (chain_of s a))"
    using assms by (subst sum.remove [of _ r]) (auto simp: set_chain_def intro!: sum.cong)
  moreover have "(\<Sum>a\<in>set (active_refs s). chain_weight (chain_of s a)) =
      chain_weight (chain_of s r) + (\<Sum>a\<in>set (active_refs s) - {r}. chain_weight (chain_of s a))"
    using assms by (simp add: sum.remove)
  ultimately show ?thesis by (simp add: work_left_def) (simp add: set_chain_def)
qed

lemma finally_release_work:
  assumes good: "sched_good s" and r: "r < sequence s" and c: "chain_of s r = Settled"
  shows "work_left (finally_release now r s) < work_left s"
proof -
  have inv: "sched_inv s" using good by (simp add: sched_good_def)
  let ?s1 = "(set_chain r Finalized s)\<lparr>active := map_delete (taskId_of s r) (active s)\<rparr>"
  note rel = release_inv [OF inv r c]
  have mem: "r \<in> set (active_refs s)" using rel(3) by (force dest: map_of_SomeD)
  have "work_left (resolveReleased r ?s1) = work_left ?s1"
    by (auto simp: work_left_def resolveReleased_def intro!: sum.cong)
  also have "\<dots> = 3 * length (queue s) + (\<Sum>a\<in>set (active_refs s) - {r}. chain_weight (chain_of s a))"
    unfolding work_left_def rel(2) by (auto simp: set_chain_def intro!: sum.cong)
  also have "\<dots> < work_left s"
    using sum.remove [of "set (active_refs s)" r "\<lambda>a. chain_weight (chain_of s a)"] mem c by (simp add: work_left_def)
  finally show ?thesis
    unfolding finally_release_eq [OF inv r c]
    using dispatch_work [OF rel(1), of now] by (simp add: work_left_def sched_frame)
qed

lemma live_active:
  assumes "sched_good s" and "r < sequence s" and "chain_of s r \<in> {Admitted, Invoked, Settled}"
  shows "r \<in> set (active_refs s)"
proof -
  have "sched_wf s" using assms(1) by (simp add: sched_good_def sched_inv_def)
  then show ?thesis using sched_wfD(7) [OF _ assms(2)] assms(3) by (auto simp: record_ok_def live_chain_def)
qed

lemma settle_work:
  assumes good: "sched_good s" and r: "r < sequence s" and c: "chain_of s r = Invoked"
    and t: "(state_of s r = Running \<and> (\<exists>p. t = finishRecord now r p s)) \<or> t = s"
  shows "work_left (set_chain r Settled t) < work_left s"
proof -
  have frame: "queue t = queue s" "active t = active s" "chain_of t a = chain_of s a" for a
    using t by (auto simp: finishRecord_store finished_record_def sched_frame)
  have "r \<in> set (active_refs s)" using live_active [OF good r] c by simp
  then have "work_left (set_chain r Settled t) + 2 = work_left t + 1"
    using set_chain_work [of r t Settled] c by (simp add: frame)
  then show ?thesis by (simp add: work_left_def frame)
qed

lemma chain_step_work:
  assumes "chain_step s s'" and "sched_good s"
  shows "work_left s' < work_left s"
  using assms
proof (induction rule: chain_step.induct)
  case (chain_microtask r s)
  have "r \<in> set (active_refs s)" using live_active chain_microtask by blast
  then have "work_left (set_chain r c s) < work_left s" if "chain_weight c < 3" for c
    using set_chain_work [of r s c] that chain_microtask(2) by simp
  then show ?case by (auto simp: run_microtask_def work_left_def)
next
  case (chain_resolve r s now outcome)
  then show ?case
    unfolding runner_resolves_def
    by (intro settle_work [where now = now]) (simp_all, metis applyRunOutcome_cases(1,2))
next
  case (chain_reject r s now err)
  then show ?case
    unfolding runner_rejects_def
    by (intro settle_work [where now = now]) (simp_all, metis applyRunOutcome_cases(3,4))
next
  case (chain_finally r s now)
  then show ?case by (intro finally_release_work)
qed

text \<open>While a slot is taken, its task has something left to do.\<close>
lemma active_moves:
  assumes good: "sched_good s" and ne: "active s \<noteq> []"
  shows "\<exists>s'. chain_step s s'"
proof -
  have wf: "sched_wf s" using good by (simp add: sched_good_def sched_inv_def)
  obtain r where mem: "r \<in> set (active_refs s)" using ne by (cases "active s") auto
  then have r: "r < sequence s" using sched_wfD(5) [OF wf] by auto
  have "live_chain (chain_of s r)" using sched_wfD(7) [OF wf r] mem by (simp add: record_ok_def)
  then show ?thesis using r by (auto simp: live_chain_def intro: chain_step.intros)
qed

lemma chain_steps_good: "(chain_step ^^ n) s s' \<Longrightarrow> sched_good s \<Longrightarrow> sched_good s' \<and> n + work_left s' \<le> work_left s"
proof (induction n arbitrary: s')
  case (Suc n)
  then obtain t where t: "(chain_step ^^ n) s t" "chain_step t s'" by auto
  then have "sched_good t" "n + work_left t \<le> work_left s" using Suc by auto
  with t(2) show ?case
    using chain_step_work [OF t(2)] sched_step_good [OF chain_step_sched_step [OF t(2)]] by force
qed simp

lemma steps_good: "(sched_step le)\<^sup>*\<^sup>* s s' \<Longrightarrow> sched_good s \<Longrightarrow> sched_good s'"
  by (induction rule: rtranclp_induct) (auto intro: sched_step_good)

lemma drains:
  assumes "sched_good s" and "(chain_step ^^ n) s s'"
  shows "n \<le> work_left s"
    and "(\<And>t. \<not> chain_step s' t) \<Longrightarrow> queue s' = [] \<and> active s' = [] \<and> idleWaiters s' = []"
proof -
  note reached = chain_steps_good [OF assms(2,1)]
  then show "n \<le> work_left s" by simp
  assume "\<And>t. \<not> chain_step s' t"
  then have idle: "active s' = []" using active_moves reached by blast
  then have "queue s' = []" using no_starvation reached by blast
  then show "queue s' = [] \<and> active s' = [] \<and> idleWaiters s' = []"
    using idle reached by (auto simp: sched_good_def sched_idle_ok_def)
qed

end
