(* ===== verification/Contracts.thy ===== *)
theory Contracts
  imports Prelude
begin

text \<open>
  The interfaces that several components share, each with the lemmas its clients use: a symmetric
  conflict relation (the claims of the task scheduler), a result that is chosen once (settling a
  guarded operation, a task or a confirmation), and a log that keeps its newest entries (debug
  events, request traces, the command timeline). The components that provide them interpret them.
\<close>

section \<open>Conflicts\<close>

locale conflict_relation =
  fixes conflict :: "'a \<Rightarrow> 'a \<Rightarrow> bool"
  assumes conflict_sym: "conflict a b \<Longrightarrow> conflict b a"
begin

definition independent :: "'a list \<Rightarrow> bool" where
  "independent xs \<longleftrightarrow> sorted_wrt (\<lambda>a b. \<not> conflict a b) xs"

lemma independent_nth:
  assumes "independent xs" and "i < length xs" and "j < length xs" and "i \<noteq> j"
  shows "\<not> conflict (xs ! i) (xs ! j)"
proof (cases "i < j")
  case True
  then show ?thesis using sorted_wrt_nth_less [of _ xs i j] assms unfolding independent_def by blast
next
  case False
  with assms(4) have "j < i" by simp
  then have "\<not> conflict (xs ! j) (xs ! i)"
    using sorted_wrt_nth_less [of _ xs j i] assms unfolding independent_def by blast
  then show ?thesis using conflict_sym by blast
qed

lemma independent_perm:
  assumes "independent xs" and "distinct xs" and "a \<in> set xs" and "b \<in> set xs" and "a \<noteq> b"
  shows "\<not> conflict a b"
proof -
  obtain i where i: "i < length xs" "xs ! i = a" using assms(3) unfolding in_set_conv_nth by blast
  obtain j where j: "j < length xs" "xs ! j = b" using assms(4) unfolding in_set_conv_nth by blast
  have "i \<noteq> j" using i(2) j(2) assms(5) by blast
  then show ?thesis using independent_nth [OF assms(1) i(1) j(1)] i(2) j(2) by blast
qed

lemma independent_snoc:
  "independent (xs @ [x]) \<longleftrightarrow> independent xs \<and> (\<forall>a\<in>set xs. \<not> conflict x a)"
  using conflict_sym by (auto simp: independent_def sorted_wrt_append)

lemma independent_filter: "independent xs \<Longrightarrow> independent (filter P xs)"
  by (simp add: independent_def sorted_wrt_filter_sub)

end

section \<open>Results chosen once\<close>

locale settle_once =
  fixes settle :: "'r \<Rightarrow> 's \<Rightarrow> 's"
    and settled :: "'s \<Rightarrow> bool"
  assumes settle_settled: "settled s \<Longrightarrow> settle r s = s"
    and settle_settles: "settled (settle r s)"
begin

lemma settle_fold: "settled s \<Longrightarrow> fold settle rs s = s"
  by (induction rs) (simp_all add: settle_settled)

text \<open>However many results arrive, the first one is the result.\<close>
lemma first_wins: "fold settle (r # rs) s = settle r s"
  by (simp add: settle_fold settle_settles)

lemma settle_idem: "settle q (settle r s) = settle r s"
  by (rule settle_settled [OF settle_settles])

end

section \<open>Logs that keep the newest entries\<close>

locale bounded_log =
  fixes append :: "'a \<Rightarrow> 'l \<Rightarrow> 'l"
    and entries :: "'l \<Rightarrow> 'a list"
    and limit :: nat
  assumes entries_append: "entries (append x l) = slice_last limit (entries l @ [x])"
begin

lemma append_bounded: "length (entries (append x l)) \<le> limit"
  by (simp add: entries_append)

lemma slice_last_snoc: "slice_last n (slice_last n xs @ [x]) = slice_last n (xs @ [x])"
proof (cases "length xs \<le> n")
  case False
  then have "Suc (length xs - n) = length xs - (n - 1) \<or> n = 0" by linarith
  with False show ?thesis
    by (cases n) (auto simp: slice_last_def)
qed (simp add: slice_last_all)

text \<open>A run of appends keeps the newest entries of everything that was ever logged.\<close>
lemma entries_fold:
  "xs \<noteq> [] \<Longrightarrow> entries (fold append xs l) = slice_last limit (entries l @ xs)"
proof (induction xs rule: rev_induct)
  case (snoc x xs)
  show ?case
  proof (cases "xs = []")
    case False
    then show ?thesis
      using snoc.IH slice_last_snoc [of limit "entries l @ xs" x] by (simp add: entries_append)
  qed (simp add: entries_append)
qed simp

lemma fold_bounded: "length (entries l) \<le> limit \<Longrightarrow> length (entries (fold append xs l)) \<le> limit"
  by (cases "xs = []") (simp_all add: entries_fold)

lemma newest_kept: "0 < limit \<Longrightarrow> last (entries (append x l)) = x"
  by (cases limit) (simp_all add: entries_append slice_last_def Suc_diff_le)

end

section \<open>Invariants of a system that reacts to events\<close>

locale step_invariant =
  fixes step :: "'e \<Rightarrow> 's \<Rightarrow> 's"
    and inv :: "'s \<Rightarrow> bool"
  assumes preserved: "inv s \<Longrightarrow> inv (step e s)"
begin

lemma run: "inv s \<Longrightarrow> inv (fold step es s)"
  by (induction es arbitrary: s) (simp_all add: preserved)

end

end
