(* ===== verification/SchedulerTheorems.thy ===== *)
theory SchedulerTheorems
  imports SchedulerHistory SchedulerFairness SchedulerProgress Contracts
begin

text \<open>
  What the SFTP task scheduler (packages/backend/src/sftp/task-scheduler.ts) guarantees in every
  state it can reach, with the interpretations of the shared contracts on it, and a sample run that
  the witnesses use: a mutation on \<open>/d/x\<close> runs and a read of \<open>/d\<close> waits for it.
\<close>

section \<open>The contracts\<close>

interpretation path_claims: conflict_relation doSftpTaskClaimsConflict
  by unfold_locales (simp add: conflict_sym)

interpretation claim_sets: conflict_relation doClaimSetsConflict
  by unfold_locales (simp add: doClaimSetsConflict_sym)

lemma finishRecord_settles: "isTerminalState (state_of (finishRecord now r p s) r)"
proof (cases "isTerminalState (state_of s r)")
  case False
  then show ?thesis by (simp add: finishRecord_store finished_record_def)
qed simp

interpretation task_result: settle_once "\<lambda>(now, p) s. finishRecord now r p s" "\<lambda>s. isTerminalState (state_of s r)"
  for r :: nat
  by unfold_locales (auto simp: finishRecord_settles)

lemma active_independent:
  "sched_safe s \<Longrightarrow> claim_sets.independent (map (claims_of s) (active_refs s))"
  by (simp add: sched_safe_def claim_sets.independent_def sorted_wrt_map)

section \<open>Steps keep addresses\<close>

lemma dispatch_loop_sequence [sched_frame]: "sequence (dispatch_loop now s) = sequence s"
  by (rule dispatch_loop_invariant [where P = "\<lambda>t. sequence t = sequence s"]) (simp_all add: sched_frame)

lemma dispatch_sequence [sched_frame]: "sequence (dispatch now s) = sequence s"
  by (simp add: dispatch_def sched_frame)

lemma fold_cancel_sequence [sched_frame]: "sequence (fold (cancelRecord now) rs s) = sequence s"
  by (induction rs arbitrary: s) (simp_all add: sched_frame)

lemma abort_controller_sequence [sched_frame]: "sequence (abort_controller r reason s) = sequence s"
  by (simp add: abort_controller_def)

lemma resolveReleased_sequence [sched_frame]: "sequence (resolveReleased r s) = sequence s"
  by (simp add: resolveReleased_def)

lemma step_sequence: "sched_step le s s' \<Longrightarrow> sequence s \<le> sequence s'"
proof (induction rule: sched_step.induct)
  case (step_schedule now gid spec s r s')
  from step_schedule show ?case
    by (rule schedule_InrE) (simp add: sched_frame)
qed (simp_all add: sched_frame run_microtask_def runner_resolves_def runner_rejects_def
    applyRunOutcome_def applyUnexpectedFailure_def reportPartial_def finally_release_def
    releaseRecord_def handleDeadline_def removeQueuedRecord_def cancellation_fires_def cancelAll_def
    waitForIdle_def forgetTask_def Let_def split: run_outcome.split option.split)

lemma steps_frozen:
  "(sched_step le)\<^sup>*\<^sup>* s s' \<Longrightarrow> sched_good s \<Longrightarrow> r < sequence s \<Longrightarrow> isTerminalState (state_of s r) \<Longrightarrow>
   r < sequence s' \<and> rc_snapshot (store s' r) = rc_snapshot (store s r)"
proof (induction rule: rtranclp_induct)
  case (step t u)
  have "sched_good t" using steps_good [OF step(1)] step.prems by blast
  then have "frozen t u" using sched_step_frozen [OF step(2)] by blast
  then show ?case using step.IH step.prems step_sequence [OF step(2)] by (auto simp: frozen_def)
qed simp

section \<open>Cancelling everything\<close>

lemma cancelRecord_terminal: "isTerminalState (state_of (cancelRecord now r s) r)"
  by (cases "isTerminalState (state_of s r)")
    (simp_all add: cancelRecord_def finishRecord_settles Let_def)

lemma finishRecord_other: "q \<noteq> r \<Longrightarrow> store (finishRecord now r p s) q = store s q"
  by (cases "isTerminalState (state_of s r)") (simp_all add: finishRecord_store)

lemma cancelRecord_other: "q \<noteq> r \<Longrightarrow> store (cancelRecord now r s) q = store s q"
  by (simp add: cancelRecord_def Let_def finishRecord_other removeQueuedRecord_def
      invokeAbortHook_def abort_controller_def)

lemma cancelRecord_keeps_terminal:
  "isTerminalState (state_of s q) \<Longrightarrow> isTerminalState (state_of (cancelRecord now r s) q)"
  using cancelRecord_terminal [of now r s] by (cases "q = r") (simp_all add: cancelRecord_other)

lemma fold_cancel_terminal:
  "q \<in> set rs \<or> isTerminalState (state_of s q) \<Longrightarrow>
   isTerminalState (state_of (fold (cancelRecord now) rs s) q)"
  by (induction rs arbitrary: s) (auto simp: cancelRecord_terminal cancelRecord_keeps_terminal)

lemma dispatch_empty: "queue s = [] \<Longrightarrow> store (dispatch now s) = store s \<and> queue (dispatch now s) = [] \<and> active (dispatch now s) = active s"
  by (simp add: dispatch_def dispatch_loop.simps findNextRunnableIndex_def sched_frame)

lemma cancelAll_effect:
  assumes good: "sched_good s"
  shows "queue (cancelAll now s) = []" and "active (cancelAll now s) = active s"
    and "r < sequence s \<Longrightarrow> isTerminalState (state_of (cancelAll now s) r)"
proof -
  have inv: "sched_inv s" using good by (simp add: sched_good_def)
  then have wf: "sched_wf s" by (simp add: sched_inv_def)
  let ?s1 = "fold (cancelRecord now) (queue s) s"
  let ?s2 = "fold (cancelRecord now) (active_refs ?s1) ?s1"
  have 1: "sched_inv ?s1" "active ?s1 = active s" "sequence ?s1 = sequence s"
    using fold_cancel_inv [OF inv, of "queue s" now] sched_wfD(4) [OF wf] by auto
  have "\<forall>r\<in>set (active_refs ?s1). r < sequence ?s1"
    using sched_wfD(5) [OF wf] by (auto simp: 1)
  then have 2: "sched_inv ?s2" "active ?s2 = active s" "sequence ?s2 = sequence s"
    using fold_cancel_inv [OF 1(1), of "active_refs ?s1" now] by (simp_all add: 1)
  have over: "isTerminalState (state_of ?s2 r)" if "r < sequence s" for r
  proof (cases "isTerminalState (state_of s r)")
    case False
    then have "r \<in> set (queue s) \<or> r \<in> set (active_refs s)" using inv_state_cases [OF inv that] by blast
    then show ?thesis unfolding 1 by (blast intro: fold_cancel_terminal)
  qed (blast intro: fold_cancel_terminal)
  have "queue ?s2 = []"
  proof (rule ccontr)
    assume "queue ?s2 \<noteq> []"
    then obtain r where r: "r \<in> set (queue ?s2)" by (cases "queue ?s2") auto
    have wf2: "sched_wf ?s2" using 2(1) by (simp add: sched_inv_def)
    then have lt: "r < sequence ?s2" using r by (rule sched_wfD(4))
    then have "state_of ?s2 r = Queued" using sched_wfD(7) [OF wf2 lt] r by (simp add: record_ok_def)
    then show False using over [of r] lt by (simp add: 2)
  qed
  then show "queue (cancelAll now s) = []" "active (cancelAll now s) = active s"
    "r < sequence s \<Longrightarrow> isTerminalState (state_of (cancelAll now s) r)"
    using dispatch_empty [of ?s2 now] over by (simp_all add: cancelAll_def Let_def sched_frame 2)
qed

section \<open>A sample run\<close>

definition sample_task :: "task_impact \<Rightarrow> string \<Rightarrow> string \<Rightarrow> nat task_spec" where
  "sample_task i tid p =
     \<lparr>ts_taskId = Some (js tid), ts_operation = js ''copy'',
      ts_resources = \<lparr>impact = i, workload = Light, exclusive = False\<rparr>,
      ts_claims = [js p], ts_absoluteTimeoutMs = Num 1000, ts_cancellationSignal = None,
      ts_mapFailure = None, ts_onAbort = True\<rparr>"

definition sample_start :: "nat scheduler" where
  "sample_start = projr (new_scheduler (js ''session'') None None None)"

definition sample_schedule :: "nat task_spec \<Rightarrow> nat scheduler \<Rightarrow> nat scheduler" where
  "sample_schedule spec s = snd (projr (schedule (\<lambda>_ _. True) 5 [] spec s))"

definition sample_one :: "nat scheduler" where
  "sample_one = sample_schedule (sample_task MutationImpact ''a'' ''/d/x'') sample_start"

definition sample_two :: "nat scheduler" where
  "sample_two = sample_schedule (sample_task ReadImpact ''b'' ''/d'') sample_one"

definition sample_three :: "nat scheduler" where
  "sample_three = sample_schedule (sample_task ReadImpact ''c'' ''/e'') sample_one"

definition sample_four :: "nat scheduler" where
  "sample_four = sample_schedule (sample_task ReadImpact ''c'' ''/d/y'') sample_two"

definition sample_five :: "nat scheduler" where
  "sample_five = sample_schedule (sample_task ReadImpact ''c'' ''/e'') sample_two"

lemmas claim_eval = normalizeSftpTaskClaims_def sort_by_def claim_le_def normalizeSftpTaskClaimPath_def
  posix_normalize_def normalize_segments_def push_segment_def strip_trailing_slashes_def
  trim_def trim_start_def trim_end_def is_space_def

lemma sample_claims [simp]:
  "normalizeSftpTaskClaims (\<lambda>_ _. True) [js ''/d/x''] = [js ''/d/x'']"
  "normalizeSftpTaskClaims (\<lambda>_ _. True) [js ''/d/y''] = [js ''/d/y'']"
  "normalizeSftpTaskClaims (\<lambda>_ _. True) [js ''/d''] = [js ''/d'']"
  "normalizeSftpTaskClaims (\<lambda>_ _. True) [js ''/e''] = [js ''/e'']"
  by (simp_all add: claim_eval js_simps)

lemma sample_trim [simp]: "trim (js ''copy'') \<noteq> []" "trim (js ''session'') \<noteq> []"
  by (simp_all add: trim_def trim_start_def trim_end_def is_space_def js_simps)

lemma sample_conflict [simp]:
  "doClaimSetsConflict [js ''/d''] [js ''/d/x'']" "doClaimSetsConflict [js ''/d/y''] [js ''/d'']"
  "\<not> doClaimSetsConflict [js ''/e''] [js ''/d/x'']" "\<not> doClaimSetsConflict [js ''/e''] [js ''/d'']"
  "\<not> doClaimSetsConflict [js ''/d/y''] [js ''/d/x'']"
  by (simp_all add: doClaimSetsConflict_def doSftpTaskClaimsConflict_def js_simps)

lemmas step_eval = Let_def schedule_def validateTaskSpec_def sample_task_def new_record_def
  observeCancellation_def armDeadline_def update_record_def emit_def dispatch_def
  dispatch_loop.simps findNextRunnableIndex_def startRecord_def resolveIdleWaiters_def
  hasCapacityFor_def conflictsWithActive_def remove_at_def conflictsWithOlderQueuedClaim_def

lemma sample_new: "new_scheduler (js ''session'') None None None = Inr sample_start"
  by (simp add: sample_start_def new_scheduler_def validateLimits_def DEFAULT_LIMITS_def
      positive_integer_def)

lemma sample_start_fields [simp]:
  "queue sample_start = []" "active sample_start = []" "records sample_start = []"
  "sequence sample_start = 0" "isDispatching sample_start = False" "idleWaiters sample_start = []"
  "sc_limits sample_start = \<lparr>lm_total = 3, lm_heavy = 2, lm_mutation = 1\<rparr>"
  by (simp_all add: sample_start_def new_scheduler_def validateLimits_def DEFAULT_LIMITS_def
      positive_integer_def)

lemma sample_schedules:
  "map_of (records s) (js tid) = None \<Longrightarrow>
   schedule (\<lambda>_ _. True) 5 [] (sample_task i tid p) s =
     Inr (sequence s, sample_schedule (sample_task i tid p) s)"
  by (simp add: sample_schedule_def schedule_def validateTaskSpec_def sample_task_def Let_def)

lemma sample_step:
  "sched_reachable (\<lambda>_ _. True) s \<Longrightarrow> map_of (records s) (js tid) = None \<Longrightarrow>
   sched_reachable (\<lambda>_ _. True) (sample_schedule (sample_task i tid p) s)"
  by (rule reach_step [OF _ step_schedule [OF sample_schedules]])

lemma sample_one_fields [simp]:
  "queue sample_one = []" "active sample_one = [(js ''a'', 0)]" "records sample_one = [(js ''a'', 0)]"
  "sequence sample_one = 1" "isDispatching sample_one = False"
  "sc_limits sample_one = \<lparr>lm_total = 3, lm_heavy = 2, lm_mutation = 1\<rparr>"
  "claims_of sample_one 0 = [js ''/d/x'']"
  "resources_of sample_one 0 = \<lparr>impact = MutationImpact, workload = Light, exclusive = False\<rparr>"
  "state_of sample_one 0 = Running"
  by (simp_all add: sample_one_def sample_schedule_def step_eval)

lemma sample_two_fields [simp]:
  "queue sample_two = [1]" "active sample_two = [(js ''a'', 0)]"
  "records sample_two = [(js ''a'', 0), (js ''b'', 1)]"
  "sequence sample_two = 2" "isDispatching sample_two = False"
  "sc_limits sample_two = \<lparr>lm_total = 3, lm_heavy = 2, lm_mutation = 1\<rparr>"
  "claims_of sample_two 0 = [js ''/d/x'']" "claims_of sample_two (Suc 0) = [js ''/d'']"
  "resources_of sample_two 0 = \<lparr>impact = MutationImpact, workload = Light, exclusive = False\<rparr>"
  "resources_of sample_two (Suc 0) = \<lparr>impact = ReadImpact, workload = Light, exclusive = False\<rparr>"
  "state_of sample_two 0 = Running" "state_of sample_two (Suc 0) = Queued"
  by (simp_all add: sample_two_def sample_schedule_def step_eval)

lemma sample_three_fields [simp]:
  "queue sample_three = []" "active sample_three = [(js ''a'', 0), (js ''c'', 1)]"
  "claims_of sample_three 0 = [js ''/d/x'']" "claims_of sample_three (Suc 0) = [js ''/e'']"
  by (simp_all add: sample_three_def sample_schedule_def step_eval)

text \<open>For the third task, the queue is scanned on the state before dispatching.\<close>
lemma enqueued_new:
  "claims_of (enqueued le now tid spec s) (sequence s) = normalizeSftpTaskClaims le (ts_claims spec)"
  "resources_of (enqueued le now tid spec s) (sequence s) = ts_resources spec"
  "taskId_of (enqueued le now tid spec s) (sequence s) = tid"
  by (simp_all add: enqueued_def observeCancellation_def armDeadline_def new_record_def)

lemma sample_schedule_dispatch:
  "map_of (records s) (js tid) = None \<Longrightarrow>
   sample_schedule (sample_task i tid p) s =
     dispatch 5 (enqueued (\<lambda>_ _. True) 5 (js tid) (sample_task i tid p) s)"
  by (simp add: sample_schedule_def schedule_def validateTaskSpec_def sample_task_def enqueued_def Let_def)

lemma dispatch_none:
  "findNextRunnableIndex s = None \<Longrightarrow> \<not> isDispatching s \<Longrightarrow> queue s \<noteq> [] \<Longrightarrow> dispatch now s = s"
  by (simp add: dispatch_def dispatch_loop.simps resolveIdleWaiters_def)

lemma dispatch_once:
  assumes "findNextRunnableIndex s = Some i" and "findNextRunnableIndex (start_at now i s) = None"
    and "\<not> isDispatching s" and "active (start_at now i s) \<noteq> []"
  shows "dispatch now s = start_at now i s"
proof -
  have "start_at now i (s\<lparr>isDispatching := True\<rparr>) = (start_at now i s)\<lparr>isDispatching := True\<rparr>"
    by (simp add: start_at_def startRecord_def update_record_def Let_def)
  moreover have "(start_at now i s)\<lparr>isDispatching := False\<rparr> = start_at now i s"
    using assms(3) by (simp add: sched_frame)
  ultimately show ?thesis
    using assms by (simp add: dispatch_def dispatch_loop_unfold resolveIdleWaiters_def)
qed

definition sample_enqueued :: "string \<Rightarrow> nat scheduler" where
  "sample_enqueued p = enqueued (\<lambda>_ _. True) 5 (js ''c'') (sample_task ReadImpact ''c'' p) sample_two"

lemma sample_enqueued_fields [simp]:
  "queue (sample_enqueued p) = [1, 2]" "active (sample_enqueued p) = [(js ''a'', 0)]"
  "isDispatching (sample_enqueued p) = False"
  "sc_limits (sample_enqueued p) = \<lparr>lm_total = 3, lm_heavy = 2, lm_mutation = 1\<rparr>"
  "store (sample_enqueued p) 0 = store sample_two 0"
  "store (sample_enqueued p) (Suc 0) = store sample_two (Suc 0)"
  "claims_of (sample_enqueued p) 2 = normalizeSftpTaskClaims (\<lambda>_ _. True) [js p]"
  "resources_of (sample_enqueued p) 2 = \<lparr>impact = ReadImpact, workload = Light, exclusive = False\<rparr>"
  "taskId_of (sample_enqueued p) 2 = js ''c''"
  using enqueued_new [of "\<lambda>_ _. True" 5 "js ''c''" "sample_task ReadImpact ''c'' p" sample_two]
  by (simp_all add: sample_enqueued_def sched_frame sample_task_def)

lemmas scan_eval = findNextRunnableIndex_def hasCapacityFor_def conflictsWithActive_def
  conflictsWithOlderQueuedClaim_def

lemma sample_four_eq: "sample_four = sample_enqueued ''/d/y''"
proof -
  have "findNextRunnableIndex (sample_enqueued ''/d/y'') = None" by (simp add: scan_eval Let_def)
  then have "dispatch 5 (sample_enqueued ''/d/y'') = sample_enqueued ''/d/y''"
    by (rule dispatch_none) simp_all
  then show ?thesis
    by (simp add: sample_four_def sample_schedule_dispatch sample_enqueued_def)
qed

lemma sample_started [simp]:
  "queue (start_at 5 (Suc 0) (sample_enqueued p)) = [1]"
  "active (start_at 5 (Suc 0) (sample_enqueued p)) = [(js ''a'', 0), (js ''c'', 2)]"
  "claims_of (start_at 5 (Suc 0) (sample_enqueued p)) r = claims_of (sample_enqueued p) r"
  "resources_of (start_at 5 (Suc 0) (sample_enqueued p)) r = resources_of (sample_enqueued p) r"
  by (simp_all add: sched_frame remove_at_def)

lemma sample_five_eq: "sample_five = start_at 5 1 (sample_enqueued ''/e'')"
proof -
  let ?t = "start_at 5 1 (sample_enqueued ''/e'')"
  have lims: "sc_limits ?t = \<lparr>lm_total = 3, lm_heavy = 2, lm_mutation = 1\<rparr>" by (simp add: sched_frame)
  have "findNextRunnableIndex (sample_enqueued ''/e'') = Some 1" by (simp add: scan_eval Let_def)
  moreover have "findNextRunnableIndex ?t = None" by (simp add: scan_eval Let_def lims)
  ultimately have "dispatch 5 (sample_enqueued ''/e'') = ?t" by (intro dispatch_once) simp_all
  then show ?thesis by (simp add: sample_five_def sample_schedule_dispatch sample_enqueued_def)
qed

lemma sample_five_fields [simp]:
  "queue sample_five = [1]" "active sample_five = [(js ''a'', 0), (js ''c'', 2)]"
  by (simp_all add: sample_five_eq)

lemma sample_four_fields [simp]:
  "queue sample_four = [1, 2]" "active sample_four = [(js ''a'', 0)]"
  "sc_limits sample_four = \<lparr>lm_total = 3, lm_heavy = 2, lm_mutation = 1\<rparr>"
  "claims_of sample_four 0 = [js ''/d/x'']" "claims_of sample_four (Suc 0) = [js ''/d'']"
  "claims_of sample_four 2 = [js ''/d/y'']"
  "resources_of sample_four 0 = \<lparr>impact = MutationImpact, workload = Light, exclusive = False\<rparr>"
  "resources_of sample_four (Suc 0) = \<lparr>impact = ReadImpact, workload = Light, exclusive = False\<rparr>"
  "resources_of sample_four 2 = \<lparr>impact = ReadImpact, workload = Light, exclusive = False\<rparr>"
  by (simp_all add: sample_four_eq)

lemma sample_one_reachable: "sched_reachable (\<lambda>_ _. True) sample_one"
  unfolding sample_one_def by (rule sample_step [OF reach_new [OF sample_new]]) simp

lemma sample_two_reachable: "sched_reachable (\<lambda>_ _. True) sample_two"
  unfolding sample_two_def by (rule sample_step [OF sample_one_reachable]) simp

lemma sample_three_reachable: "sched_reachable (\<lambda>_ _. True) sample_three"
  unfolding sample_three_def by (rule sample_step [OF sample_one_reachable]) simp

lemma sample_four_reachable: "sched_reachable (\<lambda>_ _. True) sample_four"
  unfolding sample_four_def by (rule sample_step [OF sample_two_reachable]) simp

lemma sample_five_reachable: "sched_reachable (\<lambda>_ _. True) sample_five"
  unfolding sample_five_def by (rule sample_step [OF sample_two_reachable]) simp

section \<open>Properties\<close>

text \<open>C1: In every reachable scheduler the running tasks respect the limits: not more than the total,
  heavy and mutation slots, and an exclusive task runs alone.\<close>
theorem running_within_limits:
  assumes "sched_reachable le s"
  shows "length (active s) \<le> lm_total (sc_limits s) \<and>
    length (filter (\<lambda>a. workload (resources_of s a) = Heavy) (active_refs s)) \<le> lm_heavy (sc_limits s) \<and>
    length (filter (\<lambda>a. impact (resources_of s a) = MutationImpact) (active_refs s)) \<le> lm_mutation (sc_limits s) \<and>
    (\<forall>a\<in>set (active_refs s). exclusive (resources_of s a) \<longrightarrow> active_refs s = [a])"
  using sched_reachable_good [OF assms]
  by (simp add: sched_good_def sched_inv_def sched_safe_def heavy_count_def mutation_count_def)

theorem running_within_limits_witness:
  "length (active sample_two) \<le> lm_total (sc_limits sample_two) \<and> active sample_two \<noteq> []"
  using running_within_limits [OF sample_two_reachable] by simp

text \<open>C2: Two tasks that hold a slot at the same time never claim overlapping paths.\<close>
theorem running_claims_disjoint:
  assumes "sched_reachable le s" and "i < length (active s)" and "j < length (active s)" and "i \<noteq> j"
    and "c \<in> set (claims_of s (active_refs s ! i))" and "d \<in> set (claims_of s (active_refs s ! j))"
  shows "\<not> doSftpTaskClaimsConflict c d"
proof -
  have "claim_sets.independent (map (claims_of s) (active_refs s))"
    using sched_reachable_good [OF assms(1)] active_independent by (auto simp: sched_good_def sched_inv_def)
  from claim_sets.independent_nth [OF this, of i j] assms(2-) show ?thesis
    by (auto simp: doClaimSetsConflict_iff)
qed

theorem running_claims_disjoint_witness:
  "active sample_three = [(js ''a'', 0), (js ''c'', 1)] \<and> \<not> doSftpTaskClaimsConflict (js ''/d/x'') (js ''/e'')"
  using running_claims_disjoint [OF sample_three_reachable, of 0 1 "js ''/d/x''" "js ''/e''"] by simp

text \<open>C3: In every reachable scheduler the promises of a task are resolved exactly once: its completion
  when it has a terminal state, its release when it also holds no slot; and the deadline timer is
  armed exactly while the task is not terminal.\<close>
theorem promises_resolved_once:
  assumes "sched_reachable le s" and "r < sequence s"
  shows "length (filter (is_completion r) (effects s)) = (if isTerminalState (state_of s r) then 1 else 0) \<and>
    length (filter (is_released r) (effects s)) =
      (if isTerminalState (state_of s r) \<and> r \<notin> set (active_refs s) then 1 else 0) \<and>
    (rc_deadlineTimer (store s r) = None \<longleftrightarrow> isTerminalState (state_of s r))"
proof -
  have "settle_ok s r"
    using sched_reachable_good [OF assms(1)] assms(2) by (simp add: sched_good_def sched_inv_def sched_settled_def)
  then show ?thesis by (simp add: settle_ok_def)
qed

theorem promises_resolved_once_witness:
  "length (filter (is_completion 0) (effects sample_two)) = 0 \<and> rc_deadlineTimer (store sample_two 0) \<noteq> None"
  using promises_resolved_once [OF sample_two_reachable, of 0] by simp

text \<open>A task that reached a terminal state keeps its snapshot, result and failure included, in
  every later state, whatever events follow.\<close>
theorem terminal_snapshot_frozen:
  assumes "sched_reachable le s" and "(sched_step le)\<^sup>*\<^sup>* s s'" and "r < sequence s"
    and "isTerminalState (state_of s r)"
  shows "rc_snapshot (store s' r) = rc_snapshot (store s r)"
  using steps_frozen [OF assms(2) sched_reachable_good [OF assms(1)] assms(3,4)] by blast

theorem terminal_snapshot_frozen_witness:
  "state_of (cancelAll 9 (cancelAll 7 sample_two)) 1 = state_of (cancelAll 7 sample_two) 1"
proof -
  have good: "sched_good sample_two" by (rule sched_reachable_good [OF sample_two_reachable])
  have reach: "sched_reachable (\<lambda>_ _. True) (cancelAll 7 sample_two)"
    by (rule reach_step [OF sample_two_reachable step_cancelAll])
  have "sequence (cancelAll 7 sample_two) = 2" by (simp add: cancelAll_def Let_def sched_frame)
  then show ?thesis
    using terminal_snapshot_frozen [OF reach r_into_rtranclp, OF step_cancelAll [of _ _ 9], of 1]
      cancelAll_effect(3) [OF good, of 1 7] by simp
qed

text \<open>C31: Admission is work-conserving: in every reachable state, a queued task that is not behind an
  exclusive one and has capacity and no conflict with the running tasks is held back only by a claim
  of an older queued task.\<close>
theorem admission_work_conserving:
  assumes "sched_reachable le s" and "i < length (queue s)"
    and "\<forall>j\<le>i. \<not> exclusive (resources_of s (queue s ! j))"
    and "hasCapacityFor s (queue s ! i)" and "\<not> conflictsWithActive s (queue s ! i)"
  shows "\<exists>j<i. doClaimSetsConflict (claims_of s (queue s ! i)) (claims_of s (queue s ! j))"
proof -
  have "\<not> admissible s i"
    using findNextRunnableIndex_None [of s i] sched_reachable_good [OF assms(1)] by (simp add: sched_good_def)
  then have "conflictsWithOlderQueuedClaim s (queue s ! i) i" using assms by (auto simp: admissible_def)
  then obtain b where "b \<in> set (take i (queue s))" "doClaimSetsConflict (claims_of s (queue s ! i)) (claims_of s b)"
    by (auto simp: conflictsWithOlderQueuedClaim_def list_ex_iff)
  moreover from this(1) obtain j where "j < i" "b = queue s ! j"
    using assms(2) by (auto simp: in_set_conv_nth)
  ultimately show ?thesis by blast
qed

theorem admission_work_conserving_witness:
  "doClaimSetsConflict (claims_of sample_four 2) (claims_of sample_four 1) \<and> queue sample_four = [1, 2]"
  using admission_work_conserving [OF sample_four_reachable, of 1]
  by (simp add: hasCapacityFor_def conflictsWithActive_def less_Suc_eq le_Suc_eq)

text \<open>No starvation: when no task holds a slot, no task is queued.\<close>
theorem idle_means_empty:
  assumes "sched_reachable le s" and "active s = []"
  shows "queue s = []"
  by (rule no_starvation [OF sched_reachable_good [OF assms(1)] assms(2)])

theorem idle_means_empty_witness: "queue sample_start = []"
  by (rule idle_means_empty [OF reach_new [OF sample_new]]) simp

text \<open>C32: Fairness: a queued task is never overtaken by a younger one that claims an overlapping path,
  and nothing overtakes an exclusive task or lets an exclusive one overtake.\<close>
theorem never_overtaken:
  assumes "sched_reachable le s" and "a \<in> set (queue s)" and "b \<in> set (active_refs s)" and "a < b"
  shows "\<not> doClaimSetsConflict (claims_of s a) (claims_of s b) \<and>
    \<not> exclusive (resources_of s a) \<and> \<not> exclusive (resources_of s b)"
  using sched_reachable_fair [OF assms(1)] assms(2-) by (auto simp: fair_def)

theorem never_overtaken_witness:
  "\<not> doClaimSetsConflict (claims_of sample_five 1) (claims_of sample_five 2) \<and> queue sample_five = [1]"
  using never_overtaken [OF sample_five_reachable, of 1 2] by simp

text \<open>C33: The scheduler drains: in whatever order and with whatever outcomes the runners of the running tasks
  settle, and with no help from cancellations or deadlines, only a bounded number of steps can follow, and
  where no step is left nothing is queued, nothing runs and no idle waiter is left waiting.\<close>
theorem scheduler_drains:
  assumes "sched_reachable le s"
  shows "\<exists>bound. \<forall>n s'. (chain_step ^^ n) s s' \<longrightarrow>
    n \<le> bound \<and> ((\<forall>t. \<not> chain_step s' t) \<longrightarrow> queue s' = [] \<and> active s' = [] \<and> idleWaiters s' = [])"
  using drains [OF sched_reachable_good [OF assms]] by blast

theorem scheduler_drains_witness:
  "\<exists>n s'. (chain_step ^^ n) sample_two s' \<and> queue s' = [] \<and> active s' = [] \<and> idleWaiters s' = []"
proof -
  obtain bound where bound: "\<And>n s'. (chain_step ^^ n) sample_two s' \<Longrightarrow>
    n \<le> bound \<and> ((\<forall>t. \<not> chain_step s' t) \<longrightarrow> queue s' = [] \<and> active s' = [] \<and> idleWaiters s' = [])"
    using scheduler_drains [OF sample_two_reachable] by blast
  have "\<exists>n s'. (chain_step ^^ n) sample_two s' \<and> (\<forall>t. \<not> chain_step s' t)"
  proof (rule ccontr)
    assume "\<not> ?thesis"
    then have next_step: "\<exists>t. chain_step s' t" if "(chain_step ^^ n) sample_two s'" for n s' using that by blast
    have "\<exists>s'. (chain_step ^^ n) sample_two s'" for n
      by (induction n) (auto, metis next_step relcomppI)
    from this [of "Suc bound"] bound show False by (metis Suc_n_not_le_n)
  qed
  with bound show ?thesis by blast
qed

text \<open>When the deadline of a running task expires the task fails at once with the deadline code,
  its outcome unknown exactly for a mutation, but it keeps its slot until its runner settles.\<close>
theorem deadline_of_running_task:
  assumes "state_of s r = Running"
  shows "state_of (handleDeadline now r s) r = Failed \<and>
    map_option fl_code (sn_failure (rc_snapshot (store (handleDeadline now r s) r))) = Some DEADLINE_EXCEEDED_CODE \<and>
    (Option.bind (sn_failure (rc_snapshot (store (handleDeadline now r s) r))) fl_outcomeUnknown = Some True \<longleftrightarrow>
       impact (resources_of s r) = MutationImpact) \<and>
    active (handleDeadline now r s) = active s \<and> queue (handleDeadline now r s) = queue s"
proof -
  let ?s1 = "invokeAbortHook r AbortDeadline (abort_controller r AbortDeadline s)"
  have st: "state_of ?s1 r = Running" "resources_of ?s1 r = resources_of s r"
    using assms by (simp_all add: invokeAbortHook_def abort_controller_def)
  show ?thesis
    using assms st
    by (simp add: handleDeadline_def Let_def resolveIdleWaiters_fields finishRecord_store
        finished_record_def sched_frame)
qed

theorem deadline_of_running_task_witness:
  "state_of (handleDeadline 1005 0 sample_two) 0 = Failed \<and> active (handleDeadline 1005 0 sample_two) = [(js ''a'', 0)]"
  using deadline_of_running_task [of sample_two 0 1005] by simp

text \<open>Cancelling everything empties the queue and settles every task, while tasks that run keep
  their slots until their runners settle.\<close>
theorem cancelAll_settles:
  assumes "sched_reachable le s"
  shows "queue (cancelAll now s) = [] \<and> active (cancelAll now s) = active s \<and>
    (\<forall>r<sequence s. isTerminalState (state_of (cancelAll now s) r))"
  using cancelAll_effect [OF sched_reachable_good [OF assms]] by blast

theorem cancelAll_settles_witness:
  "queue (cancelAll 7 sample_two) = [] \<and> isTerminalState (state_of (cancelAll 7 sample_two) 1)"
  using cancelAll_settles [OF sample_two_reachable, of 7] by simp

text \<open>However many outcomes arrive for a task, the first one is its result.\<close>
theorem first_outcome_wins:
  "fold (\<lambda>(now, p) s. finishRecord now r p s) ((now, p) # outcomes) s = finishRecord now r p s"
  using task_result.first_wins [of r "(now, p)" outcomes s] by simp

text \<open>Minimizing claims loses no conflict: two tasks conflict exactly when some pair of the paths
  they were given conflicts after normalization.\<close>
theorem claims_conflict_preserved:
  "doClaimSetsConflict (normalizeSftpTaskClaims le xs) (normalizeSftpTaskClaims le ys) \<longleftrightarrow>
     (\<exists>x\<in>set xs. \<exists>y\<in>set ys.
        doSftpTaskClaimsConflict (normalizeSftpTaskClaimPath x) (normalizeSftpTaskClaimPath y))"
  by (rule normalized_conflict)

text \<open>Normalized claims are absolute paths of plain segments, and two of them conflict exactly when
  one path is a prefix of the other, segment by segment.\<close>
theorem normalized_claims_prefix_order:
  "\<exists>xs ys. list_all plain_segment xs \<and> list_all plain_segment ys \<and>
     normalizeSftpTaskClaimPath a = abs_path xs \<and> normalizeSftpTaskClaimPath b = abs_path ys \<and>
     doSftpTaskClaimsConflict (normalizeSftpTaskClaimPath a) (normalizeSftpTaskClaimPath b) =
       (prefix xs ys \<or> prefix ys xs)"
  using normalizeSftpTaskClaimPath_canonical [of a] normalizeSftpTaskClaimPath_canonical [of b]
    doSftpTaskClaimsConflict_abs_path unfolding canonical_claim_def by metis

end
