(* ===== verification/OperationGuard.thy ===== *)
theory OperationGuard
  imports Contracts
begin

text \<open>
  The guard around one SFTP request (\<open>runGuardedSftpOperation\<close> of
  packages/backend/src/sftp/operation-guard.ts): an idle deadline that progress refreshes, an
  absolute deadline, the abort signal of the transport and the operation's own result race to
  settle one promise. A timer holds the time at which it fires; what the guard does to the promise,
  the abort controller and the session is appended to \<open>gd_effects\<close>.
\<close>

section \<open>Data\<close>

datatype failure_code = OPERATION_TIMEOUT | TRANSPORT_CLOSED

datatype operation_impact = ReadOp | MutationOp

datatype timeout_kind = Idle | Absolute

text \<open>The three texts of a failure message; the first two name the limit in milliseconds.\<close>

datatype failure_detail =
    AbsoluteLimit jstring jsnum
  | NoProgress jstring jsnum
  | TransportInterrupted jstring

record operation_failure =
  of_code :: failure_code
  of_operation :: jstring
  of_outcomeUnknown :: bool
  of_detail :: failure_detail

definition SftpOperationFailure ::
    "failure_code \<Rightarrow> jstring \<Rightarrow> operation_impact \<Rightarrow> jsnum option \<Rightarrow> timeout_kind \<Rightarrow> operation_failure" where
  "SftpOperationFailure code operation impact timeoutMs timeoutKind =
     (let ms = (case timeoutMs of None \<Rightarrow> Num 0 | Some m \<Rightarrow> m)
      in \<lparr>of_code = code, of_operation = operation, of_outcomeUnknown = (impact = MutationOp),
          of_detail =
            (if code = OPERATION_TIMEOUT
             then (if timeoutKind = Absolute then AbsoluteLimit operation ms else NoProgress operation ms)
             else TransportInterrupted operation)\<rparr>)"

text \<open>What the promise is rejected with: a failure of the guard, or what the operation threw.\<close>

datatype 'e guard_error = GuardFailure operation_failure | Thrown 'e

fun isSftpOperationFailure :: "'e guard_error \<Rightarrow> bool" where
  "isSftpOperationFailure (GuardFailure _) = True"
| "isSftpOperationFailure (Thrown _) = False"

record guard_options =
  go_operation :: jstring
  go_impact :: operation_impact
  go_idleTimeoutMs :: jsnum
  go_absoluteTimeoutMs :: jsnum

datatype ('v, 'e) guard_effect =
    Resolved 'v
  | Rejected "'e guard_error"
  | Aborted "'e guard_error"
  | TimeoutReported operation_failure

record ('v, 'e) guard =
  gd_idleTimer :: "rat option"
  gd_absoluteTimer :: "rat option"
  gd_settled :: bool
  gd_listening :: bool
  gd_effects :: "('v, 'e) guard_effect list"

section \<open>Operations\<close>

definition guard_emit :: "('v, 'e) guard_effect list \<Rightarrow> ('v, 'e) guard \<Rightarrow> ('v, 'e) guard" where
  "guard_emit es g = g\<lparr>gd_effects := gd_effects g @ es\<rparr>"

definition cleanup :: "('v, 'e) guard \<Rightarrow> ('v, 'e) guard" where
  "cleanup g = g\<lparr>gd_idleTimer := None, gd_absoluteTimer := None, gd_listening := False\<rparr>"

definition settleSuccess :: "'v \<Rightarrow> ('v, 'e) guard \<Rightarrow> bool \<times> ('v, 'e) guard" where
  "settleSuccess value g =
     (if gd_settled g then (False, g)
      else (True, guard_emit [Resolved value] (cleanup (g\<lparr>gd_settled := True\<rparr>))))"

definition settleFailure :: "'e guard_error \<Rightarrow> ('v, 'e) guard \<Rightarrow> bool \<times> ('v, 'e) guard" where
  "settleFailure err g =
     (if gd_settled g then (False, g)
      else (True, guard_emit [Aborted err, Rejected err] (cleanup (g\<lparr>gd_settled := True\<rparr>))))"

definition handleTransportAbort :: "guard_options \<Rightarrow> ('v, 'e) guard \<Rightarrow> ('v, 'e) guard" where
  "handleTransportAbort opts g =
     snd (settleFailure
       (GuardFailure (SftpOperationFailure TRANSPORT_CLOSED (go_operation opts) (go_impact opts) None Idle)) g)"

definition timeout_failure :: "guard_options \<Rightarrow> jsnum \<Rightarrow> timeout_kind \<Rightarrow> operation_failure" where
  "timeout_failure opts timeoutMs timeoutKind =
     SftpOperationFailure OPERATION_TIMEOUT (go_operation opts) (go_impact opts) (Some timeoutMs) timeoutKind"

text \<open>An exception of \<open>onTimeout\<close> is caught and logged, so it changes nothing here.\<close>

definition handleTimeout :: "guard_options \<Rightarrow> jsnum \<Rightarrow> timeout_kind \<Rightarrow> ('v, 'e) guard \<Rightarrow> ('v, 'e) guard" where
  "handleTimeout opts timeoutMs timeoutKind g =
     (let timeoutError = timeout_failure opts timeoutMs timeoutKind;
          (won, g') = settleFailure (GuardFailure timeoutError) g
      in if \<not> won then g' else guard_emit [TimeoutReported timeoutError] g')"

text \<open>
  The delay that \<open>setTimeout\<close> uses: the integral part, and 1 for a value outside 1 to
  \<open>2\<^sup>31 - 1\<close>.
\<close>

fun timer_delay :: "jsnum \<Rightarrow> rat" where
  "timer_delay (Num q) = (if 1 \<le> q \<and> q \<le> 2147483647 then of_int \<lfloor>q\<rfloor> else 1)"
| "timer_delay _ = 1"

definition markProgress :: "guard_options \<Rightarrow> rat \<Rightarrow> ('v, 'e) guard \<Rightarrow> ('v, 'e) guard" where
  "markProgress opts now g =
     (if gd_settled g then g
      else g\<lparr>gd_idleTimer := Some (now + timer_delay (go_idleTimeoutMs opts))\<rparr>)"

text \<open>
  The body: \<open>thrown\<close> is what \<open>options.start\<close> throws before it returns a promise. The result is
  \<open>Inl\<close> the message of the \<open>RangeError\<close> that rejects an invalid timeout.
\<close>

definition valid_timeout :: "jsnum \<Rightarrow> bool" where
  "valid_timeout ms \<longleftrightarrow> \<not> (\<not> is_finite ms \<or> num_le ms (Num 0))"

definition runGuardedSftpOperation ::
    "guard_options \<Rightarrow> bool \<Rightarrow> 'e option \<Rightarrow> rat \<Rightarrow> string + ('v, 'e) guard" where
  "runGuardedSftpOperation opts transportAborted thrown now =
     (if \<not> valid_timeout (go_idleTimeoutMs opts) then Inl ''idle''
      else if \<not> valid_timeout (go_absoluteTimeoutMs opts) then Inl ''absolute''
      else
        let g0 = \<lparr>gd_idleTimer = None, gd_absoluteTimer = None, gd_settled = False,
                  gd_listening = True, gd_effects = []\<rparr>
        in if transportAborted then Inr (handleTransportAbort opts g0)
           else
             let g1 = markProgress opts now g0;
                 g2 = g1\<lparr>gd_absoluteTimer := Some (now + timer_delay (go_absoluteTimeoutMs opts))\<rparr>
             in Inr (case thrown of None \<Rightarrow> g2 | Some e \<Rightarrow> snd (settleFailure (Thrown e) g2)))"

text \<open>
  The events, with the clock and the time of the last progress (the start, at first): any time may
  pass; an armed timer fires at its time or later; the transport may abort while the guard listens;
  the operation may settle and report progress at any time.
\<close>

inductive guard_step ::
    "guard_options \<Rightarrow> rat \<times> rat \<times> ('v, 'e) guard \<Rightarrow> rat \<times> rat \<times> ('v, 'e) guard \<Rightarrow> bool" for opts where
  guard_time: "now \<le> later \<Longrightarrow> guard_step opts (now, since, g) (later, since, g)"
| guard_idle: "gd_idleTimer g = Some t \<Longrightarrow> t \<le> now \<Longrightarrow>
     guard_step opts (now, since, g) (now, since, handleTimeout opts (go_idleTimeoutMs opts) Idle g)"
| guard_absolute: "gd_absoluteTimer g = Some t \<Longrightarrow> t \<le> now \<Longrightarrow>
     guard_step opts (now, since, g) (now, since, handleTimeout opts (go_absoluteTimeoutMs opts) Absolute g)"
| guard_transport: "gd_listening g \<Longrightarrow> guard_step opts (now, since, g) (now, since, handleTransportAbort opts g)"
| guard_success: "guard_step opts (now, since, g) (now, since, snd (settleSuccess v g))"
| guard_failure: "guard_step opts (now, since, g) (now, since, snd (settleFailure (Thrown e) g))"
| guard_progress: "guard_step opts (now, since, g) (now, if gd_settled g then since else now, markProgress opts now g)"

inductive guard_reachable ::
    "guard_options \<Rightarrow> rat \<Rightarrow> rat \<times> rat \<times> ('v, 'e) guard \<Rightarrow> bool" for opts start where
  guard_init: "runGuardedSftpOperation opts aborted thrown start = Inr g \<Longrightarrow>
     guard_reachable opts start (start, start, g)"
| guard_next: "guard_reachable opts start c \<Longrightarrow> guard_step opts c c' \<Longrightarrow>
     guard_reachable opts start c'"

text \<open>A turn of the event loop: the handlers of the timers that are due run.\<close>

definition run_due_timers :: "guard_options \<Rightarrow> rat \<Rightarrow> ('v, 'e) guard \<Rightarrow> ('v, 'e) guard" where
  "run_due_timers opts now g =
     (let g1 = (case gd_idleTimer g of
                  Some t \<Rightarrow> if t \<le> now then handleTimeout opts (go_idleTimeoutMs opts) Idle g else g
                | None \<Rightarrow> g)
      in case gd_absoluteTimer g1 of
           Some t \<Rightarrow> if t \<le> now then handleTimeout opts (go_absoluteTimeoutMs opts) Absolute g1 else g1
         | None \<Rightarrow> g1)"

section \<open>Settling\<close>

lemmas guard_defs = settleSuccess_def settleFailure_def guard_emit_def cleanup_def

lemma settled_noop [simp]:
  "gd_settled g \<Longrightarrow> settleSuccess v g = (False, g)"
  "gd_settled g \<Longrightarrow> settleFailure e g = (False, g)"
  "gd_settled g \<Longrightarrow> markProgress opts now g = g"
  "gd_settled g \<Longrightarrow> handleTimeout opts ms k g = g"
  "gd_settled g \<Longrightarrow> handleTransportAbort opts g = g"
  by (simp_all add: guard_defs markProgress_def handleTimeout_def handleTransportAbort_def Let_def)

fun settle_with :: "'e guard_error + 'v \<Rightarrow> ('v, 'e) guard \<Rightarrow> ('v, 'e) guard" where
  "settle_with (Inl e) g = snd (settleFailure e g)"
| "settle_with (Inr v) g = snd (settleSuccess v g)"

interpretation operation_result: settle_once settle_with gd_settled
proof
  show "gd_settled s \<Longrightarrow> settle_with r s = s" for r s by (cases r) simp_all
  show "gd_settled (settle_with r s)" for r s by (cases r) (simp_all add: guard_defs)
qed

fun is_result :: "('v, 'e) guard_effect \<Rightarrow> bool" where
  "is_result (Resolved _) = True"
| "is_result (Rejected _) = True"
| "is_result _ = False"

text \<open>The traces that a guard can leave behind.\<close>

definition settled_trace :: "guard_options \<Rightarrow> ('v, 'e) guard_effect list \<Rightarrow> bool" where
  "settled_trace opts es \<longleftrightarrow>
     (\<exists>v. es = [Resolved v]) \<or> (\<exists>e. es = [Aborted (Thrown e), Rejected (Thrown e)]) \<or>
     (let f = SftpOperationFailure TRANSPORT_CLOSED (go_operation opts) (go_impact opts) None Idle
      in es = [Aborted (GuardFailure f), Rejected (GuardFailure f)]) \<or>
     (\<exists>(ms, k)\<in>{(go_idleTimeoutMs opts, Idle), (go_absoluteTimeoutMs opts, Absolute)}.
        let f = timeout_failure opts ms k
        in es = [Aborted (GuardFailure f), Rejected (GuardFailure f), TimeoutReported f])"

text \<open>The times of the two deadlines.\<close>

definition absolute_deadline :: "guard_options \<Rightarrow> rat \<Rightarrow> rat" where
  "absolute_deadline opts start = start + timer_delay (go_absoluteTimeoutMs opts)"

definition idle_deadline :: "guard_options \<Rightarrow> rat \<Rightarrow> rat" where
  "idle_deadline opts since = since + timer_delay (go_idleTimeoutMs opts)"

definition times_out :: "guard_options \<Rightarrow> timeout_kind \<Rightarrow> ('v, 'e) guard \<Rightarrow> bool" where
  "times_out opts k g \<longleftrightarrow>
     Rejected (GuardFailure (timeout_failure opts
       (case k of Idle \<Rightarrow> go_idleTimeoutMs opts | Absolute \<Rightarrow> go_absoluteTimeoutMs opts) k)) \<in> set (gd_effects g)"

text \<open>
  An unsettled guard has both deadlines armed, at their times; a settled one holds nothing, and it timed out
  only after the deadline.
\<close>

definition guard_inv :: "guard_options \<Rightarrow> rat \<Rightarrow> rat \<times> rat \<times> ('v, 'e) guard \<Rightarrow> bool" where
  "guard_inv opts start c \<longleftrightarrow>
     (case c of (now, since, g) \<Rightarrow>
        start \<le> since \<and> since \<le> now \<and>
        (if gd_settled g
         then gd_idleTimer g = None \<and> gd_absoluteTimer g = None \<and> \<not> gd_listening g \<and>
              settled_trace opts (gd_effects g) \<and>
              (times_out opts Absolute g \<longrightarrow> absolute_deadline opts start \<le> now) \<and>
              (times_out opts Idle g \<longrightarrow> idle_deadline opts since \<le> now)
         else gd_absoluteTimer g = Some (absolute_deadline opts start) \<and>
              gd_idleTimer g = Some (idle_deadline opts since) \<and> gd_listening g \<and> gd_effects g = []))"

lemma timer_delay_pos: "0 < timer_delay ms"
proof (cases ms)
  case (Num q)
  have "1 \<le> q \<Longrightarrow> 0 < \<lfloor>q\<rfloor>" by (simp add: less_floor_iff)
  with Num show ?thesis by auto
qed simp_all

lemma guard_init_inv:
  assumes "runGuardedSftpOperation opts aborted thrown start = Inr g"
  shows "guard_inv opts start (start, start, g)"
  using assms timer_delay_pos [of "go_absoluteTimeoutMs opts"] timer_delay_pos [of "go_idleTimeoutMs opts"]
  by (auto simp: runGuardedSftpOperation_def Let_def guard_inv_def handleTransportAbort_def
      markProgress_def guard_defs settled_trace_def absolute_deadline_def
      idle_deadline_def times_out_def timeout_failure_def SftpOperationFailure_def split: if_splits option.splits)

lemma guard_step_inv:
  assumes "guard_step opts c c'" and "guard_inv opts start c"
  shows "guard_inv opts start c'"
  using assms
  by (induction rule: guard_step.induct)
    (auto simp: guard_inv_def handleTimeout_def handleTransportAbort_def markProgress_def guard_defs settled_trace_def
      idle_deadline_def times_out_def timeout_failure_def SftpOperationFailure_def Let_def split: if_splits)

lemma guard_reachable_inv: "guard_reachable opts start c \<Longrightarrow> guard_inv opts start c"
  by (induction rule: guard_reachable.induct) (auto intro: guard_init_inv guard_step_inv)

text \<open>Once settled, no event changes the guard any more.\<close>
lemma guard_step_settled:
  assumes "guard_step opts c c'" and "gd_settled (snd (snd c))"
  shows "snd c' = snd c"
  using assms by (induction rule: guard_step.induct) simp_all

lemma settled_trace_results: "settled_trace opts es \<Longrightarrow> length (filter is_result es) = 1"
  by (auto simp: settled_trace_def Let_def)

end
