(* ===== verification/Utf8.thy ===== *)
theory Utf8
  imports Prelude "HOL-Library.Word"
begin

text \<open>
  Bytes and the text encodings of the standard library: UTF-8 decoding with replacement
  (\<open>Buffer.toString('utf8')\<close>), strict decoding (\<open>TextDecoder\<close> with \<open>fatal\<close>), UTF-8 encoding
  (\<open>Buffer.from(s, 'utf8')\<close>) and base64 encoding (\<open>Buffer.toString('base64')\<close>).
\<close>

type_synonym bytes = "8 word list"

section \<open>Decoding\<close>

text \<open>
  UTF-8 decoding as the standard library does it: a maximal ill-formed prefix becomes one U+FFFD,
  a code point above U+FFFF a pair of surrogates.
\<close>

definition code_units :: "nat \<Rightarrow> jstring" where
  "code_units cp =
     (if cp < 0x10000 then [cp]
      else [0xD800 + (cp - 0x10000) div 0x400, 0xDC00 + (cp - 0x10000) mod 0x400])"

definition continuation :: "nat \<Rightarrow> nat \<Rightarrow> nat list \<Rightarrow> nat list \<Rightarrow> bool" where
  "continuation lo hi pre rest \<longleftrightarrow> rest \<noteq> [] \<and> lo \<le> hd rest \<and> hd rest \<le> hi"

text \<open>
  The lead byte fixes how many continuation bytes follow and the range of the first of them.
\<close>

definition lead :: "nat \<Rightarrow> (nat \<times> nat \<times> nat \<times> nat) option" where
  "lead b =
     (if 0xC2 \<le> b \<and> b \<le> 0xDF then Some (1, b - 0xC0, 0x80, 0xBF)
      else if b = 0xE0 then Some (2, 0, 0xA0, 0xBF)
      else if b = 0xED then Some (2, 0xD, 0x80, 0x9F)
      else if 0xE1 \<le> b \<and> b \<le> 0xEF then Some (2, b - 0xE0, 0x80, 0xBF)
      else if b = 0xF0 then Some (3, 0, 0x90, 0xBF)
      else if 0xF1 \<le> b \<and> b \<le> 0xF3 then Some (3, b - 0xF0, 0x80, 0xBF)
      else if b = 0xF4 then Some (3, 4, 0x80, 0x8F)
      else None)"

fun utf8_sequence :: "nat \<Rightarrow> nat \<Rightarrow> nat \<Rightarrow> nat \<Rightarrow> nat list \<Rightarrow> nat option \<times> nat list" where
  "utf8_sequence 0 cp lo hi bs = (Some cp, bs)"
| "utf8_sequence (Suc n) cp lo hi [] = (None, [])"
| "utf8_sequence (Suc n) cp lo hi (b # bs) =
     (if lo \<le> b \<and> b \<le> hi then utf8_sequence n (cp * 64 + (b - 0x80)) 0x80 0xBF bs
      else (None, b # bs))"

lemma utf8_sequence_length: "length (snd (utf8_sequence n cp lo hi bs)) \<le> length bs"
  by (induction n cp lo hi bs rule: utf8_sequence.induct) auto

function utf8_decode :: "nat list \<Rightarrow> jstring" where
  "utf8_decode [] = []"
| "utf8_decode (b # bs) =
     (if b < 0x80 then b # utf8_decode bs
      else case lead b of
             None \<Rightarrow> 0xFFFD # utf8_decode bs
           | Some (n, cp, lo, hi) \<Rightarrow>
               (case fst (utf8_sequence n cp lo hi bs) of
                  Some c \<Rightarrow> code_units c
                | None \<Rightarrow> [0xFFFD]) @ utf8_decode (snd (utf8_sequence n cp lo hi bs)))"
  by pat_completeness auto
termination
  by (relation "measure length") (auto simp: le_imp_less_Suc utf8_sequence_length)

definition buffer_to_utf8 :: "bytes \<Rightarrow> jstring" where
  "buffer_to_utf8 bs = utf8_decode (map unat bs)"

lemma utf8_decode_ascii: "\<forall>b\<in>set bs. b < 0x80 \<Longrightarrow> utf8_decode bs = bs"
  by (induction bs) simp_all

text \<open>
  Strict decoding: \<open>None\<close> for an ill-formed sequence. The decoder drops a leading byte order mark.
\<close>

function utf8_strict :: "nat list \<Rightarrow> jstring option" where
  "utf8_strict [] = Some []"
| "utf8_strict (b # bs) =
     (if b < 0x80 then map_option (Cons b) (utf8_strict bs)
      else case lead b of
             None \<Rightarrow> None
           | Some (n, cp, lo, hi) \<Rightarrow>
               (case fst (utf8_sequence n cp lo hi bs) of
                  None \<Rightarrow> None
                | Some c \<Rightarrow>
                    map_option (append (code_units c)) (utf8_strict (snd (utf8_sequence n cp lo hi bs)))))"
  by pat_completeness auto
termination
  by (relation "measure length") (auto simp: le_imp_less_Suc utf8_sequence_length)

definition strip_bom :: "nat list \<Rightarrow> nat list" where
  "strip_bom bs = (if take 3 bs = [0xEF, 0xBB, 0xBF] then drop 3 bs else bs)"

definition text_decoder_fatal :: "bytes \<Rightarrow> jstring option" where
  "text_decoder_fatal bs = utf8_strict (strip_bom (map unat bs))"

text \<open>Where strict decoding succeeds, both decoders agree.\<close>
lemma strict_decode: "utf8_strict bs = Some s \<Longrightarrow> utf8_decode bs = s"
proof (induction bs arbitrary: s rule: utf8_strict.induct)
  case (2 b bs)
  then show ?case by (auto split: if_splits option.splits prod.splits)
qed simp

section \<open>Encoding\<close>

fun utf8_encode :: "jstring \<Rightarrow> nat list" where
  "utf8_encode [] = []"
| "utf8_encode [c] =
     (if c < 0x80 then [c]
      else if c < 0x800 then [0xC0 + c div 64, 0x80 + c mod 64]
      else if high_surrogate c \<or> low_surrogate c then [0xEF, 0xBF, 0xBD]
      else [0xE0 + c div 4096, 0x80 + c div 64 mod 64, 0x80 + c mod 64])"
| "utf8_encode (c # d # s) =
     (if high_surrogate c \<and> low_surrogate d
      then let cp = 0x10000 + (c - 0xD800) * 0x400 + (d - 0xDC00)
           in [0xF0 + cp div 262144, 0x80 + cp div 4096 mod 64, 0x80 + cp div 64 mod 64, 0x80 + cp mod 64]
              @ utf8_encode s
      else utf8_encode [c] @ utf8_encode (d # s))"

lemma surrogate_range: "high_surrogate c \<or> low_surrogate c \<Longrightarrow> \<not> c < 0x800"
  by (auto simp: high_surrogate_def low_surrogate_def)

lemma length_utf8_encode: "length (utf8_encode s) = byte_length s"
proof (induction s rule: utf8_encode.induct)
  case (2 c)
  then show ?case by (simp add: unit_bytes_def)
next
  case (3 c d s)
  then show ?case by (auto simp: Let_def unit_bytes_def)
qed simp

definition base64_char :: "nat \<Rightarrow> nat" where
  "base64_char v =
     (if v < 26 then 65 + v else if v < 52 then 71 + v else if v < 62 then v - 4
      else if v = 62 then 43 else 47)"

fun base64_encode :: "nat list \<Rightarrow> jstring" where
  "base64_encode [] = []"
| "base64_encode [a] = [base64_char (a div 4), base64_char (a mod 4 * 16), 61, 61]"
| "base64_encode [a, b] =
     [base64_char (a div 4), base64_char (a mod 4 * 16 + b div 16), base64_char (b mod 16 * 4), 61]"
| "base64_encode (a # b # c # bs) =
     [base64_char (a div 4), base64_char (a mod 4 * 16 + b div 16),
      base64_char (b mod 16 * 4 + c div 64), base64_char (c mod 64)] @ base64_encode bs"

definition to_base64 :: "bytes \<Rightarrow> jstring" where
  "to_base64 bs = base64_encode (map unat bs)"

lemma length_base64: "length (base64_encode bs) = (length bs + 2) div 3 * 4"
proof (induction bs rule: base64_encode.induct)
  case (4 a b c bs)
  have "(Suc (Suc (Suc (length bs))) + 2) div 3 = Suc ((length bs + 2) div 3)" by simp
  with 4 show ?case by simp
qed simp_all

end
