(* ===== verification/Socks5.thy ===== *)
theory Socks5
  imports Utf8
begin

text \<open>
  The SOCKS5 server side of dynamic port forwarding (packages/backend/src/port-forward/socks5.ts).
  A buffer is a list of bytes; what the code writes to the client socket is returned as a second
  component.
\<close>

datatype socks5_request =
    Connect jstring nat nat  \<comment> \<open>host, port, consumed bytes\<close>
  | NeedMoreData
  | Unsupported nat nat      \<comment> \<open>reply code, consumed bytes\<close>
  | Invalid nat nat

definition SOCKS_VERSION :: "8 word" where "SOCKS_VERSION = 0x05"
definition METHOD_NO_AUTH :: "8 word" where "METHOD_NO_AUTH = 0x00"
definition METHOD_NO_ACCEPTABLE :: "8 word" where "METHOD_NO_ACCEPTABLE = 0xff"
definition COMMAND_CONNECT :: "8 word" where "COMMAND_CONNECT = 0x01"
definition ADDRESS_TYPE_IPV4 :: "8 word" where "ADDRESS_TYPE_IPV4 = 0x01"
definition ADDRESS_TYPE_DOMAIN :: "8 word" where "ADDRESS_TYPE_DOMAIN = 0x03"
definition ADDRESS_TYPE_IPV6 :: "8 word" where "ADDRESS_TYPE_IPV6 = 0x04"

lemmas socks_constants = SOCKS_VERSION_def METHOD_NO_AUTH_def METHOD_NO_ACCEPTABLE_def
  COMMAND_CONNECT_def ADDRESS_TYPE_IPV4_def ADDRESS_TYPE_DOMAIN_def ADDRESS_TYPE_IPV6_def

text \<open>\<open>buffer.subarray(from, to)\<close>, clamped at the end of the buffer.\<close>

definition subarray :: "nat \<Rightarrow> nat \<Rightarrow> 'a list \<Rightarrow> 'a list" where
  "subarray from to xs = take (to - from) (drop from xs)"

text \<open>\<open>buffer.readUInt16BE(offset)\<close>: the code reads only inside the buffer.\<close>

definition readUInt16BE :: "bytes \<Rightarrow> nat \<Rightarrow> nat" where
  "readUInt16BE buf offset = 256 * unat (buf ! offset) + unat (buf ! Suc offset)"

text \<open>\<open>n.toString(radix)\<close> for a natural number, and \<open>strings.join(separator)\<close>.\<close>

definition digit :: "nat \<Rightarrow> nat" where
  "digit d = (if d < 10 then 48 + d else 87 + d)"

fun to_radix :: "nat \<Rightarrow> nat \<Rightarrow> jstring" where
  "to_radix radix n =
     (if radix < 2 \<or> n < radix then [digit n] else to_radix radix (n div radix) @ [digit (n mod radix)])"

declare to_radix.simps [simp del]

fun join_strings :: "jstring \<Rightarrow> jstring list \<Rightarrow> jstring" where
  "join_strings sep [] = []"
| "join_strings sep [x] = x"
| "join_strings sep (x # xs) = x @ sep @ join_strings sep xs"

text \<open>The greeting: \<open>None\<close> is the \<open>null\<close> that ends the negotiation.\<close>

definition handleSocks5Greeting :: "bytes \<Rightarrow> bytes option \<times> bytes list" where
  "handleSocks5Greeting chunk =
     (if length chunk < 2 \<or> chunk ! 0 \<noteq> SOCKS_VERSION
      then (None, [[SOCKS_VERSION, METHOD_NO_ACCEPTABLE]])
      else
        let methodCount = unat (chunk ! 1);
            expectedLength = 2 + methodCount
        in if length chunk < expectedLength then (Some [], [])
           else
             let methods = subarray 2 expectedLength chunk
             in if METHOD_NO_AUTH \<notin> set methods
                then (None, [[SOCKS_VERSION, METHOD_NO_ACCEPTABLE]])
                else (Some (drop expectedLength chunk), [[SOCKS_VERSION, METHOD_NO_AUTH]]))"

definition finish_connect :: "bytes \<Rightarrow> jstring \<Rightarrow> nat \<Rightarrow> socks5_request" where
  "finish_connect buf host offset =
     (let port = readUInt16BE buf offset
      in if host = [] \<or> port < 1 \<or> port > 65535 then Invalid 0x04 (offset + 2)
         else Connect host port (offset + 2))"

definition ipv6_segments :: "bytes \<Rightarrow> nat \<Rightarrow> jstring list" where
  "ipv6_segments buf offset =
     map (\<lambda>i. to_radix 16 (readUInt16BE buf (offset + 2 * i))) [0..<8]"

definition parseSocks5ConnectRequest :: "bytes \<Rightarrow> socks5_request" where
  "parseSocks5ConnectRequest buf =
     (if length buf < 4 then NeedMoreData
      else if buf ! 0 \<noteq> SOCKS_VERSION then Invalid 0x01 (length buf)
      else
        let command = buf ! 1; addressType = buf ! 3; offset = 4
        in if command \<noteq> COMMAND_CONNECT then Unsupported 0x07 (length buf)
           else if addressType = ADDRESS_TYPE_IPV4 then
             (if length buf < offset + 4 + 2 then NeedMoreData
              else finish_connect buf
                     (join_strings (js ''.'') (map (\<lambda>b. to_radix 10 (unat b)) (subarray offset (offset + 4) buf)))
                     (offset + 4))
           else if addressType = ADDRESS_TYPE_DOMAIN then
             (if length buf < offset + 1 then NeedMoreData
              else
                let domainLength = unat (buf ! offset); offset' = offset + 1
                in if length buf < offset' + domainLength + 2 then NeedMoreData
                   else finish_connect buf
                          (buffer_to_utf8 (subarray offset' (offset' + domainLength) buf))
                          (offset' + domainLength))
           else if addressType = ADDRESS_TYPE_IPV6 then
             (if length buf < offset + 16 + 2 then NeedMoreData
              else finish_connect buf (join_strings (js '':'') (ipv6_segments buf offset)) (offset + 16))
           else Unsupported 0x08 (length buf))"

definition writeSocks5Response :: "8 word \<Rightarrow> bytes" where
  "writeSocks5Response code = [SOCKS_VERSION, code, 0x00, ADDRESS_TYPE_IPV4, 0, 0, 0, 0, 0, 0]"

section \<open>Incremental parsing\<close>

fun consumed :: "socks5_request \<Rightarrow> nat" where
  "consumed (Connect h p n) = n"
| "consumed NeedMoreData = 0"
| "consumed (Unsupported c n) = n"
| "consumed (Invalid c n) = n"

lemma subarray_append: "to \<le> length xs \<Longrightarrow> subarray from to (xs @ ys) = subarray from to xs"
  by (cases "from \<le> length xs") (auto simp: subarray_def)

lemma readUInt16BE_append: "Suc (Suc i) \<le> length xs \<Longrightarrow> readUInt16BE (xs @ ys) i = readUInt16BE xs i"
  by (simp add: readUInt16BE_def nth_append)

lemma finish_connect_append:
  "offset + 2 \<le> length xs \<Longrightarrow> finish_connect (xs @ ys) h offset = finish_connect xs h offset"
  by (simp add: finish_connect_def readUInt16BE_append)

lemma ipv6_segments_append:
  "offset + 16 \<le> length xs \<Longrightarrow> ipv6_segments (xs @ ys) offset = ipv6_segments xs offset"
  by (auto simp: ipv6_segments_def intro!: arg_cong [where f = "to_radix 16"] readUInt16BE_append)

lemmas parse_cases = parseSocks5ConnectRequest_def Let_def

lemma parse_connect_append:
  assumes "parseSocks5ConnectRequest xs = Connect h p n"
  shows "parseSocks5ConnectRequest (xs @ ys) = Connect h p n"
proof -
  have len: "4 \<le> length xs" and hd: "xs ! 0 = SOCKS_VERSION" "xs ! 1 = COMMAND_CONNECT"
    using assms by (auto simp: parse_cases split: if_splits)
  have nth: "(xs @ ys) ! 0 = xs ! 0" "(xs @ ys) ! Suc 0 = xs ! Suc 0" "(xs @ ys) ! 3 = xs ! 3"
    "4 < length xs \<Longrightarrow> (xs @ ys) ! 4 = xs ! 4"
    using len by (auto simp: nth_append)
  consider "xs ! 3 = ADDRESS_TYPE_IPV4" | "xs ! 3 = ADDRESS_TYPE_DOMAIN" | "xs ! 3 = ADDRESS_TYPE_IPV6"
    using assms hd len by (auto simp: parse_cases split: if_splits)
  then show ?thesis
  proof cases
    case 1
    then have "10 \<le> length xs" using assms hd len by (simp add: parse_cases split: if_splits)
    then show ?thesis
      using assms hd len 1 by (simp add: parse_cases nth subarray_append finish_connect_append)
  next
    case 2
    then have l: "5 \<le> length xs" "7 + unat (xs ! 4) \<le> length xs"
      using assms hd len by (simp_all add: parse_cases socks_constants split: if_splits)
    then show ?thesis
      using assms hd len 2
      by (simp add: parse_cases nth subarray_append finish_connect_append socks_constants)
  next
    case 3
    then have "22 \<le> length xs" using assms hd len
      by (simp add: parse_cases socks_constants split: if_splits)
    then show ?thesis
      using assms hd len 3
      by (simp add: parse_cases nth finish_connect_append ipv6_segments_append socks_constants)
  qed
qed

lemma finish_connect_consumed: "consumed (finish_connect buf h offset) = offset + 2"
  by (simp add: finish_connect_def Let_def)

lemma finish_connect_not_more [simp]: "finish_connect buf h offset \<noteq> NeedMoreData"
  by (simp add: finish_connect_def Let_def)

lemma parse_consumed_le: "consumed (parseSocks5ConnectRequest buf) \<le> length buf"
  by (auto simp: parse_cases finish_connect_consumed)

lemma readUInt16BE_le: "readUInt16BE buf i \<le> 65535"
proof -
  have "unat (buf ! i) < 256" "unat (buf ! Suc i) < 256"
    using unsigned_less [of "buf ! i"] unsigned_less [of "buf ! Suc i"] by simp_all
  then show ?thesis by (simp add: readUInt16BE_def)
qed

lemma finish_connect_ConnectD:
  "finish_connect buf h offset = Connect h' p n \<Longrightarrow> h' = h \<and> h \<noteq> [] \<and> 1 \<le> p \<and> p \<le> 65535 \<and>
     p = readUInt16BE buf offset \<and> n = offset + 2"
  by (auto simp: finish_connect_def Let_def readUInt16BE_le split: if_splits)

lemma parse_connect_port:
  assumes "parseSocks5ConnectRequest buf = Connect h p n"
  shows "h \<noteq> [] \<and> 1 \<le> p \<and> p \<le> 65535 \<and> 4 < n \<and> n \<le> length buf \<and> p = readUInt16BE buf (n - 2)"
  using assms by (auto simp: parse_cases split: if_splits dest!: finish_connect_ConnectD)

text \<open>A request longer than the longest one always gets an answer: the buffer cannot grow forever.\<close>
lemma parse_decides:
  assumes "262 \<le> length buf"
  shows "parseSocks5ConnectRequest buf \<noteq> NeedMoreData"
proof -
  have "unat (buf ! 4) < 256" using unsigned_less [of "buf ! 4"] by simp
  then show ?thesis using assms by (auto simp: parse_cases)
qed

section \<open>Round trip\<close>

text \<open>The request that a client sends for a domain name, and for an IPv4 address.\<close>

definition domain_request :: "bytes \<Rightarrow> 16 word \<Rightarrow> bytes" where
  "domain_request name port =
     [SOCKS_VERSION, COMMAND_CONNECT, 0, ADDRESS_TYPE_DOMAIN, word_of_nat (length name)] @ name @
     [word_of_nat (unat port div 256), word_of_nat (unat port mod 256)]"

definition ipv4_request :: "8 word \<Rightarrow> 8 word \<Rightarrow> 8 word \<Rightarrow> 8 word \<Rightarrow> 16 word \<Rightarrow> bytes" where
  "ipv4_request a b c d port =
     [SOCKS_VERSION, COMMAND_CONNECT, 0, ADDRESS_TYPE_IPV4, a, b, c, d] @
     [word_of_nat (unat port div 256), word_of_nat (unat port mod 256)]"

lemma port_bytes:
  fixes port :: "16 word"
  shows "256 * unat (word_of_nat (unat port div 256) :: 8 word) +
     unat (word_of_nat (unat port mod 256) :: 8 word) = unat port"
proof -
  have "unat port < 65536" using unsigned_less [of port] by simp
  then have "unat port div 256 < 256" by (simp add: less_mult_imp_div_less)
  moreover have "unat port mod 256 < 256" by simp
  ultimately have "unat (word_of_nat (unat port div 256) :: 8 word) = unat port div 256"
    "unat (word_of_nat (unat port mod 256) :: 8 word) = unat port mod 256"
    by (simp_all add: unat_of_nat take_bit_eq_mod)
  then show ?thesis by simp
qed

lemma domain_roundtrip:
  assumes len: "1 \<le> length name" "length name \<le> 255" and ascii: "\<forall>b\<in>set name. b < 0x80"
    and port: "port \<noteq> 0"
  shows "parseSocks5ConnectRequest (domain_request name port @ rest) =
           Connect (map unat name) (unat port) (length name + 7)"
proof -
  let ?b = "domain_request name port @ rest"
  have n: "unat (word_of_nat (length name) :: 8 word) = length name"
    using len by (simp add: unat_of_nat take_bit_eq_mod)
  have sub: "subarray 5 (5 + length name) ?b = name"
    by (simp add: subarray_def domain_request_def)
  have rd: "readUInt16BE ?b (5 + length name) = unat port"
    using port_bytes [of port] by (simp add: readUInt16BE_def domain_request_def nth_append)
  have "unat b < 0x80" if "b \<in> set name" for b
    using ascii that by (auto simp: word_less_nat_alt)
  then have dec: "buffer_to_utf8 name = map unat name"
    unfolding buffer_to_utf8_def by (intro utf8_decode_ascii) auto
  have pos: "1 \<le> unat port" "unat port \<le> 65535"
    using port unsigned_less [of port, where ?'a = nat] by (auto simp: Suc_le_eq unat_gt_0)
  have "parseSocks5ConnectRequest ?b =
      finish_connect ?b (buffer_to_utf8 (subarray 5 (5 + length name) ?b)) (5 + length name)"
    using n by (simp add: parse_cases domain_request_def socks_constants)
  also have "\<dots> = Connect (map unat name) (unat port) (length name + 7)"
    unfolding sub dec finish_connect_def rd using pos len(1) by auto
  finally show ?thesis .
qed

lemma to_radix_nonempty [simp]: "to_radix r n \<noteq> []"
  by (subst to_radix.simps) simp

lemma ipv4_roundtrip:
  assumes port: "port \<noteq> 0"
  shows "parseSocks5ConnectRequest (ipv4_request a b c d port @ rest) =
           Connect (join_strings (js ''.'') (map (\<lambda>b. to_radix 10 (unat b)) [a, b, c, d])) (unat port) 10"
proof -
  let ?b = "ipv4_request a b c d port @ rest"
  have sub: "subarray 4 8 ?b = [a, b, c, d]" by (simp add: subarray_def ipv4_request_def)
  have rd: "readUInt16BE ?b 8 = unat port"
    using port_bytes [of port] by (simp add: readUInt16BE_def ipv4_request_def)
  have pos: "1 \<le> unat port" "unat port \<le> 65535"
    using port unsigned_less [of port, where ?'a = nat] by (auto simp: Suc_le_eq unat_gt_0)
  have "parseSocks5ConnectRequest ?b =
      finish_connect ?b (join_strings (js ''.'') (map (\<lambda>b. to_radix 10 (unat b)) (subarray 4 8 ?b))) 8"
    by (simp add: parse_cases ipv4_request_def socks_constants)
  also have "\<dots> = Connect (join_strings (js ''.'') (map (\<lambda>b. to_radix 10 (unat b)) [a, b, c, d])) (unat port) 10"
    unfolding sub finish_connect_def rd using pos by simp
  finally show ?thesis .
qed

end
