(* ===== verification/TransferTheorems.thy ===== *)
theory TransferTheorems
  imports OperationGuard Socks5
begin

text \<open>
  What the guard around a single SFTP operation (packages/backend/src/sftp/operation-guard.ts) and
  the SOCKS5 server side (packages/backend/src/port-forward/socks5.ts) guarantee.
\<close>

section \<open>The operation guard\<close>

definition sample_options :: guard_options where
  "sample_options = \<lparr>go_operation = js ''list'', go_impact = MutationOp,
     go_idleTimeoutMs = Num 100, go_absoluteTimeoutMs = Num 1000\<rparr>"

definition sample_guard :: "(nat, nat) guard" where
  "sample_guard = projr (runGuardedSftpOperation sample_options False None 5)"

lemma sample_guard_started: "runGuardedSftpOperation sample_options False None 5 = Inr sample_guard"
  by (simp add: sample_guard_def runGuardedSftpOperation_def sample_options_def valid_timeout_def Let_def)

lemma sample_guard_fields [simp]:
  "gd_idleTimer sample_guard = Some 105" "gd_absoluteTimer sample_guard = Some 1005"
  "\<not> gd_settled sample_guard"
  by (simp_all add: sample_guard_def runGuardedSftpOperation_def sample_options_def valid_timeout_def
      markProgress_def Let_def)

lemma sample_guard_reachable: "guard_reachable sample_options 5 (5, 5, sample_guard)"
  by (rule guard_init [OF sample_guard_started])

text \<open>C30: A guarded operation never outlives its deadlines and is never cut off before them.  Whatever happened
  before and however late the event loop is: when the absolute timeout since the start or the idle timeout
  since the last progress has passed, the timers that are due settle the operation, with one result; and an
  operation that was rejected with a timeout has really reached that deadline.\<close>
theorem guard_bounded:
  assumes "guard_reachable opts start (now, since, g)"
  shows "(absolute_deadline opts start \<le> now \<or> idle_deadline opts since \<le> now \<longrightarrow>
      gd_settled (run_due_timers opts now g) \<and>
      length (filter is_result (gd_effects (run_due_timers opts now g))) = 1) \<and>
    (times_out opts Absolute g \<longrightarrow> absolute_deadline opts start \<le> now) \<and>
    (times_out opts Idle g \<longrightarrow> idle_deadline opts since \<le> now)"
proof -
  have inv: "guard_inv opts start (now, since, g)" by (rule guard_reachable_inv [OF assms])
  show ?thesis
  proof (cases "gd_settled g")
    case True
    then show ?thesis
      using inv settled_trace_results by (auto simp: guard_inv_def run_due_timers_def)
  next
    case False
    then have "times_out opts k g = False" for k using inv by (simp add: guard_inv_def times_out_def)
    then show ?thesis
      using inv False by (simp add: guard_inv_def run_due_timers_def handleTimeout_def guard_defs Let_def)
  qed
qed

lemma sample_times:
  "absolute_deadline sample_options 5 = 1005" "idle_deadline sample_options 5 = 105"
  by (simp_all add: absolute_deadline_def idle_deadline_def sample_options_def)

theorem guard_bounded_witness:
  "gd_settled (run_due_timers sample_options 2000 sample_guard) \<and>
   length (filter is_result (gd_effects (run_due_timers sample_options 2000 sample_guard))) = 1"
  using guard_bounded [OF guard_next [OF sample_guard_reachable guard_time [of 5 2000]]] sample_times by simp

text \<open>A settled guard holds no timer and no transport listener, and what it did is one of four traces:
  it resolved, it aborted and rejected with what the operation threw, with the transport failure, or
  with a timeout that it then reported.\<close>
theorem guard_settled_trace:
  assumes "guard_reachable opts start (now, since, g)" and "gd_settled g"
  shows "gd_idleTimer g = None \<and> gd_absoluteTimer g = None \<and> \<not> gd_listening g \<and>
    settled_trace opts (gd_effects g) \<and> length (filter is_result (gd_effects g)) = 1"
proof -
  have "guard_inv opts start (now, since, g)" by (rule guard_reachable_inv [OF assms(1)])
  then have "gd_idleTimer g = None \<and> gd_absoluteTimer g = None \<and> \<not> gd_listening g \<and> settled_trace opts (gd_effects g)"
    using assms(2) by (simp add: guard_inv_def)
  then show ?thesis using settled_trace_results by blast
qed

theorem guard_settled_trace_witness:
  "length (filter is_result (gd_effects (handleTransportAbort sample_options sample_guard))) = 1"
proof -
  have "gd_listening sample_guard"
    using guard_reachable_inv [OF sample_guard_reachable] by (simp add: guard_inv_def)
  then have "guard_reachable sample_options 5 (5, 5, handleTransportAbort sample_options sample_guard)"
    by (rule guard_next [OF sample_guard_reachable guard_transport])
  moreover have "gd_settled (handleTransportAbort sample_options sample_guard)"
    by (simp add: handleTransportAbort_def guard_defs)
  ultimately show ?thesis using guard_settled_trace by blast
qed

text \<open>However many results reach a guard, only the first settles it.\<close>
theorem guard_first_result_wins:
  "fold settle_with (r # rs) g = settle_with r g"
  by (rule operation_result.first_wins)

section \<open>SOCKS5\<close>

text \<open>Parsing a connect request does not depend on how the bytes arrive: once a request is accepted,
  bytes that follow change neither the host and port nor the number of bytes consumed.\<close>
theorem connect_prefix_stable:
  assumes "parseSocks5ConnectRequest xs = Connect h p n"
  shows "parseSocks5ConnectRequest (xs @ ys) = Connect h p n"
  by (rule parse_connect_append [OF assms])

theorem connect_prefix_stable_witness:
  "parseSocks5ConnectRequest (ipv4_request 10 0 0 1 22 @ [1, 2, 3]) =
     parseSocks5ConnectRequest (ipv4_request 10 0 0 1 22)"
  using connect_prefix_stable [OF ipv4_roundtrip [of 22 10 0 0 1 "[]"], of "[1, 2, 3]"]
    ipv4_roundtrip [of 22 10 0 0 1 "[]"] by simp

text \<open>An accepted connect request names a nonempty host and a port from 1 to 65535, and it consumes
  only bytes that are in the buffer; the port is read from the last two of them.\<close>
theorem connect_request_bounds:
  assumes "parseSocks5ConnectRequest buf = Connect h p n"
  shows "h \<noteq> [] \<and> 1 \<le> p \<and> p \<le> 65535 \<and> 4 < n \<and> n \<le> length buf \<and> p = readUInt16BE buf (n - 2)"
  by (rule parse_connect_port [OF assms])

theorem connect_request_bounds_witness:
  "(10::nat) \<le> length (ipv4_request 10 0 0 1 22)"
  using connect_request_bounds [OF ipv4_roundtrip [of 22 10 0 0 1 "[]"]] by simp

text \<open>The parser decides after at most 262 bytes, so a client cannot make the server buffer more.\<close>
theorem connect_request_decided:
  assumes "262 \<le> length buf"
  shows "parseSocks5ConnectRequest buf \<noteq> NeedMoreData"
  by (rule parse_decides [OF assms])

theorem connect_request_decided_witness:
  "parseSocks5ConnectRequest (replicate 262 5) \<noteq> NeedMoreData"
  by (rule connect_request_decided) simp

text \<open>Round trip: the request a client encodes for an ASCII domain name of 1 to 255 bytes is parsed back
  to that name and port, whatever follows it in the buffer.\<close>
theorem connect_domain_roundtrip:
  assumes "1 \<le> length name" and "length name \<le> 255" and "\<forall>b\<in>set name. b < 0x80" and "port \<noteq> 0"
  shows "parseSocks5ConnectRequest (domain_request name port @ rest) =
    Connect (map unat name) (unat port) (length name + 7)"
  by (rule domain_roundtrip [OF assms])

theorem connect_domain_roundtrip_witness:
  "parseSocks5ConnectRequest (domain_request [97, 98] 443 @ [9]) = Connect [97, 98] 443 9"
  using connect_domain_roundtrip [of "[97, 98]" 443 "[9]"] by simp

end
