(* ===== verification/Procedures.thy ===== *)
theory Procedures
  imports Prelude
begin

text \<open>
  Asynchronous procedures of the source, run to the end: what they throw and return as values, the
  state they leave, loops over lists, and monotonicity of the combinators, so that a recursion that may not end is a
  \<open>partial_function\<close>.
\<close>


text \<open>
  A procedure over a state \<open>'s\<close>: \<open>None\<close> when it does not return, else a failure \<open>'e\<close> or a value,
  and the state after it.
\<close>

type_synonym ('s, 'e, 'a) proc = "'s \<Rightarrow> (('e + 'a) \<times> 's) option"

definition return_io :: "'a \<Rightarrow> ('s, 'e, 'a) proc" where
  "return_io x = (\<lambda>s. Some (Inr x, s))"

definition throw_io :: "'e \<Rightarrow> ('s, 'e, 'a) proc" where
  "throw_io e = (\<lambda>s. Some (Inl e, s))"

definition modify_io :: "('s \<Rightarrow> 's) \<Rightarrow> ('s, 'e, unit) proc" where
  "modify_io f = (\<lambda>s. Some (Inr (), f s))"

definition read_io :: "('s \<Rightarrow> 'a) \<Rightarrow> ('s, 'e, 'a) proc" where
  "read_io f = (\<lambda>s. Some (Inr (f s), s))"

definition bind_io :: "('s, 'e, 'a) proc \<Rightarrow> ('a \<Rightarrow> ('s, 'e, 'b) proc) \<Rightarrow> ('s, 'e, 'b) proc" where
  "bind_io m k = (\<lambda>s. case m s of
      None \<Rightarrow> None
    | Some (Inl e, s') \<Rightarrow> Some (Inl e, s')
    | Some (Inr x, s') \<Rightarrow> k x s')"

text \<open>\<open>try { m } catch (e) { h(e) }\<close>\<close>

definition catch_io :: "('s, 'e, 'a) proc \<Rightarrow> ('e \<Rightarrow> ('s, 'f, 'a) proc) \<Rightarrow> ('s, 'f, 'a) proc" where
  "catch_io m h = (\<lambda>s. case m s of
      None \<Rightarrow> None
    | Some (Inl e, s') \<Rightarrow> h e s'
    | Some (Inr x, s') \<Rightarrow> Some (Inr x, s'))"

definition then_io :: "('s, 'e, 'a) proc \<Rightarrow> ('s, 'e, 'b) proc \<Rightarrow> ('s, 'e, 'b) proc" where
  "then_io m k = bind_io m (\<lambda>_. k)"

definition when_io :: "bool \<Rightarrow> ('s, 'e, unit) proc \<Rightarrow> ('s, 'e, unit) proc" where
  "when_io b m = (if b then m else return_io ())"

text \<open>\<open>for (const x of xs) f(x)\<close>\<close>

primrec for_each :: "('x \<Rightarrow> ('s, 'e, unit) proc) \<Rightarrow> 'x list \<Rightarrow> ('s, 'e, unit) proc" where
  "for_each f [] = return_io ()"
| "for_each f (x # xs) = then_io (f x) (for_each f xs)"

lemmas io_defs = return_io_def throw_io_def modify_io_def read_io_def bind_io_def catch_io_def then_io_def when_io_def

lemma bind_io_mono [partial_function_mono]:
  fixes B :: "('p \<Rightarrow> 'q option) \<Rightarrow> ('s, 'e, 'a) proc"
  assumes "\<And>s. mono_option (\<lambda>f. B f s)" and "\<And>x s. mono_option (\<lambda>f. C x f s)"
  shows "mono_option (\<lambda>f. bind_io (B f) (\<lambda>x. C x f) s)"
proof (rule monotoneI)
  fix f g :: "'p \<Rightarrow> 'q option"
  assume le: "fun_ord option_ord f g"
  have B: "option_ord (B f s) (B g s)" using monotoneD [of _ _ "\<lambda>f. B f s" f g, OF assms(1)] le by simp
  have C: "option_ord (C x f s') (C x g s')" for x s' using monotoneD [of _ _ "\<lambda>f. C x f s'" f g, OF assms(2)] le by simp
  show "option_ord (bind_io (B f) (\<lambda>x. C x f) s) (bind_io (B g) (\<lambda>x. C x g) s)"
  proof (cases "B f s")
    case (Some a)
    then have "B g s = Some a" using B by (auto simp: flat_ord_def)
    with Some show ?thesis
      using C by (cases a; cases "fst a") (simp_all add: bind_io_def flat_ord_def)
  qed (simp add: bind_io_def flat_ord_def)
qed

lemma catch_io_mono [partial_function_mono]:
  fixes B :: "('p \<Rightarrow> 'q option) \<Rightarrow> ('s, 'e, 'a) proc"
  assumes "\<And>s. mono_option (\<lambda>f. B f s)" and "\<And>x s. mono_option (\<lambda>f. C x f s)"
  shows "mono_option (\<lambda>f. catch_io (B f) (\<lambda>x. C x f) s)"
proof (rule monotoneI)
  fix f g :: "'p \<Rightarrow> 'q option"
  assume le: "fun_ord option_ord f g"
  have B: "option_ord (B f s) (B g s)" using monotoneD [of _ _ "\<lambda>f. B f s" f g, OF assms(1)] le by simp
  have C: "option_ord (C x f s') (C x g s')" for x s' using monotoneD [of _ _ "\<lambda>f. C x f s'" f g, OF assms(2)] le by simp
  show "option_ord (catch_io (B f) (\<lambda>x. C x f) s) (catch_io (B g) (\<lambda>x. C x g) s)"
  proof (cases "B f s")
    case (Some a)
    then have "B g s = Some a" using B by (auto simp: flat_ord_def)
    with Some show ?thesis
      using C by (cases a; cases "fst a") (simp_all add: catch_io_def flat_ord_def)
  qed (simp add: catch_io_def flat_ord_def)
qed

lemma then_io_mono [partial_function_mono]:
  assumes "\<And>s. mono_option (\<lambda>f. B f s)" and "\<And>s. mono_option (\<lambda>f. C f s)"
  shows "mono_option (\<lambda>f. then_io (B f) (C f) s)"
  unfolding then_io_def by (intro partial_function_mono assms)

lemma for_each_mono [partial_function_mono]:
  assumes "\<And>x s. mono_option (\<lambda>f. B f x s)"
  shows "mono_option (\<lambda>f. for_each (B f) xs s)"
proof (induction xs arbitrary: s)
  case Nil
  then show ?case by (simp add: return_io_def option.const_mono)
next
  case (Cons x xs)
  then show ?case by (simp only: for_each.simps) (intro partial_function_mono assms)
qed

text \<open>A conditional procedure.\<close>
lemma if_io_mono [partial_function_mono]:
  assumes "mono_option (\<lambda>f. B f s)" and "mono_option (\<lambda>f. C f s)"
  shows "mono_option (\<lambda>f. (if b then B f else C f) s)"
  using assms by (cases b) simp_all

end
