(* ===== verification/PosixNames.thy ===== *)
theory PosixNames
  imports PosixPath
begin

text \<open>
  \<open>path.posix.basename\<close>, \<open>dirname\<close> and \<open>isAbsolute\<close> of the standard library, and what they give on the
  absolute paths of plain segments.
\<close>

definition posix_is_absolute :: "jstring \<Rightarrow> bool" where
  "posix_is_absolute s \<longleftrightarrow> s \<noteq> [] \<and> hd s = slash"

definition posix_basename :: "jstring \<Rightarrow> jstring" where
  "posix_basename s = rev (takeWhile (\<lambda>c. c \<noteq> slash) (dropWhile (\<lambda>c. c = slash) (rev s)))"

text \<open>The slash before the last name ends the directory, except at index 0.\<close>

definition posix_dirname :: "jstring \<Rightarrow> jstring" where
  "posix_dirname s =
     (let before = dropWhile (\<lambda>c. c \<noteq> slash) (dropWhile (\<lambda>c. c = slash) (rev s));
          directory = rev (tl before)
      in if s = [] then dot
         else if directory = [] then (if hd s = slash then [slash] else dot)
         else if hd s = slash \<and> length directory = 1 then [slash, slash]
         else directory)"

lemma takeWhile_not_in: "d \<notin> set xs \<Longrightarrow> takeWhile (\<lambda>c. c \<noteq> d) (xs @ d # ys) = xs"
  by (induction xs) auto

lemma dropWhile_not_in: "d \<notin> set xs \<Longrightarrow> dropWhile (\<lambda>c. c \<noteq> d) (xs @ d # ys) = d # ys"
  by (induction xs) auto

lemma abs_path_snoc:
  "abs_path (segs @ [x]) = (if segs = [] then slash # x else abs_path segs @ slash # x)"
proof (cases "segs = []")
  case False
  then show ?thesis using abs_path_append [of segs "[x]"] by simp
qed (simp add: abs_path_def)

lemma abs_path_single: "abs_path [x] = slash # x"
  by (simp add: abs_path_def)

lemma plain_last: "plain_segment x \<Longrightarrow> dropWhile (\<lambda>c. c = slash) (rev x @ ys) = rev x @ ys"
  by (cases x rule: rev_cases) (auto simp: plain_segment_def)

lemma plain_segment_slash: "plain_segment x \<Longrightarrow> slash \<notin> set x"
  by (simp add: plain_segment_def)

lemma posix_basename_abs [simp]: "plain_segment x \<Longrightarrow> posix_basename (abs_path (segs @ [x])) = x"
  by (cases "segs = []") (simp_all add: abs_path_snoc abs_path_single posix_basename_def plain_last takeWhile_not_in
      plain_segment_slash)

lemma posix_dirname_abs [simp]:
  assumes "plain_segment x" and "list_all plain_segment segs"
  shows "posix_dirname (abs_path (segs @ [x])) = abs_path segs"
proof (cases "segs = []")
  case True
  with assms show ?thesis
    by (simp add: abs_path_single posix_dirname_def Let_def plain_last [where ys = "[slash]", simplified]
        dropWhile_not_in plain_segment_slash plain_segment_def)
next
  case False
  then have "abs_path segs \<noteq> []" and "length (abs_path segs) \<noteq> 1"
    using assms(2) join_with_last [of segs] by (auto simp: abs_path_def)
  with False assms show ?thesis
    by (simp add: abs_path_snoc posix_dirname_def Let_def plain_last dropWhile_not_in plain_segment_slash)
qed

lemma posix_is_absolute_abs [simp]: "posix_is_absolute (abs_path segs)"
  by (simp add: posix_is_absolute_def abs_path_def)

text \<open>Joining a plain name to an absolute path adds it as the last segment.\<close>
lemma posix_join_abs [simp]:
  assumes "plain_segment x" and "list_all plain_segment segs"
  shows "posix_join [abs_path segs, x] = abs_path (segs @ [x])"
proof (cases "segs = []")
  case True
  have "posix_normalize (slash # slash # x) = abs_path [x]"
  proof -
    have "normalize_segments False (split_on slash (slash # slash # x)) = [x]"
      using assms(1) by (simp add: normalize_segments_Nil_Cons split_on_plain plain_segment_slash)
    moreover have "last x \<noteq> slash" using assms(1) by (metis last_in_set plain_segment_def)
    ultimately show ?thesis
      using assms(1) by (simp add: posix_normalize_def Let_def abs_path_def plain_segment_def)
  qed
  then show ?thesis using True assms by (simp add: posix_join_def plain_segment_def abs_path_def)
next
  case False
  then have "posix_join [abs_path segs, x] = posix_normalize (abs_path (segs @ [x]))"
    using assms by (simp add: posix_join_def plain_segment_def abs_path_snoc)
      (simp add: abs_path_def)
  then show ?thesis using assms by simp
qed

end
