(* ===== verification/ArchiveCommands.thy ===== *)
theory ArchiveCommands
  imports PosixNames
begin

text \<open>
  The pure part of the archive service (packages/backend/src/sftp/archive-service.ts): archive
  names and formats, the checks on a request and on the members of an archive, the shell commands
  that the service builds, and the check of an archive header.  Requests come from
  packages/api-contract/src/generated.ts.
\<close>

section \<open>Formats and names\<close>

datatype archive_format = Tar | TarGzip | Zip | TarXz | TarBzip2 | SevenZip

datatype compression_level = Store | Fast | Standard | Maximum

datatype destination_mode = Smart | CurrentDirectory | ArchiveNameDirectory

datatype archive_request =
    CompressRequest (sourcePaths: "jstring list") (targetDirectoryPath: jstring) (archiveName: jstring)
      (request_format: archive_format) (compressionLevel: compression_level)
  | ExtractRequest (archivePath: jstring) (targetDirectoryPath: jstring) (destinationMode: destination_mode)

datatype archive_error_code =
    ArchiveUnsupported | ArchiveBusy | ArchiveTargetExists | ArchiveUnsafeEntry
  | ArchiveOperationNotFound | ArchiveOperationFailed | ArchiveTimeout | ArchiveCancelFailed
  | ValidationFailed

text \<open>
  \<open>toLowerCase\<close>, as far as it decides whether a name ends with one of the ASCII suffixes below: no
  other letter is lowered to a text that ends in one of their letters.
\<close>

definition lower_unit :: "nat \<Rightarrow> nat" where
  "lower_unit c = (if 65 \<le> c \<and> c \<le> 90 then c + 32 else c)"

definition lower_case :: "jstring \<Rightarrow> jstring" where
  "lower_case s = map lower_unit s"

definition detectArchiveFormatFromName :: "jstring \<Rightarrow> archive_format option" where
  "detectArchiveFormatFromName name =
     (let normalized = lower_case name
      in if ends_with normalized (js ''.tar.gz'') \<or> ends_with normalized (js ''.tgz'') then Some TarGzip
         else if ends_with normalized (js ''.tar.xz'') \<or> ends_with normalized (js ''.txz'') then Some TarXz
         else if ends_with normalized (js ''.tar.bz2'') \<or> ends_with normalized (js ''.tbz2'') then Some TarBzip2
         else if ends_with normalized (js ''.tar'') then Some Tar
         else if ends_with normalized (js ''.zip'') then Some Zip
         else if ends_with normalized (js ''.7z'') then Some SevenZip
         else None)"

fun format_suffixes :: "archive_format \<Rightarrow> jstring list" where
  "format_suffixes Tar = [js ''.tar'']"
| "format_suffixes TarGzip = [js ''.tar.gz'', js ''.tgz'']"
| "format_suffixes Zip = [js ''.zip'']"
| "format_suffixes TarXz = [js ''.tar.xz'', js ''.txz'']"
| "format_suffixes TarBzip2 = [js ''.tar.bz2'', js ''.tbz2'']"
| "format_suffixes SevenZip = [js ''.7z'']"

definition stripArchiveExtension :: "jstring \<Rightarrow> jstring" where
  "stripArchiveExtension name =
     (case detectArchiveFormatFromName name of
        None \<Rightarrow> name
      | Some format \<Rightarrow>
          (case find (\<lambda>candidate. ends_with (lower_case name) candidate) (format_suffixes format) of
             None \<Rightarrow> name
           | Some suf \<Rightarrow>
               let stem = take (length name - length suf) name
               in if stem = [] then js ''archive'' else stem))"

fun archiveExtension :: "archive_format \<Rightarrow> jstring" where
  "archiveExtension Tar = js ''.tar''"
| "archiveExtension TarGzip = js ''.tar.gz''"
| "archiveExtension Zip = js ''.zip''"
| "archiveExtension TarXz = js ''.tar.xz''"
| "archiveExtension TarBzip2 = js ''.tar.bz2''"
| "archiveExtension SevenZip = js ''.7z''"

definition isCompressedTarFormat :: "archive_format \<Rightarrow> bool" where
  "isCompressedTarFormat format \<longleftrightarrow> format = TarGzip \<or> format = TarXz \<or> format = TarBzip2"

fun numericCompressionLevel :: "compression_level \<Rightarrow> jstring" where
  "numericCompressionLevel Store = js ''0''"
| "numericCompressionLevel Fast = js ''1''"
| "numericCompressionLevel Standard = js ''6''"
| "numericCompressionLevel Maximum = js ''9''"

section \<open>Checks\<close>

definition control_unit :: "nat \<Rightarrow> bool" where
  "control_unit c \<longleftrightarrow> c < 0x20 \<or> c = 0x7f"

definition hasControlCharacters :: "jstring \<Rightarrow> bool" where
  "hasControlCharacters s = list_ex control_unit s"

text \<open>\<open>s.replace(/\\/g, '/')\<close>\<close>

definition forward_slashes :: "jstring \<Rightarrow> jstring" where
  "forward_slashes s = map (\<lambda>c. if c = 92 then slash else c) s"

definition normalizeRemotePath :: "jstring \<Rightarrow> jstring" where
  "normalizeRemotePath s = posix_normalize (forward_slashes s)"

text \<open>\<open>/^[a-zA-Z]:\//.test(s)\<close>\<close>

fun drive_prefix :: "jstring \<Rightarrow> bool" where
  "drive_prefix (a # b # c # s) \<longleftrightarrow>
     ((97 \<le> a \<and> a \<le> 122) \<or> (65 \<le> a \<and> a \<le> 90)) \<and> b = 58 \<and> c = slash"
| "drive_prefix s \<longleftrightarrow> False"

definition isSafeArchiveMember :: "jstring \<Rightarrow> bool" where
  "isSafeArchiveMember memberName =
     (let normalizedSeparators = forward_slashes memberName
      in if normalizedSeparators = [] \<or> hasControlCharacters normalizedSeparators then False
         else if starts_with normalizedSeparators [slash] \<or> drive_prefix normalizedSeparators then False
         else list_all (\<lambda>segment. segment \<noteq> dotdot)
                (filter (\<lambda>s. s \<noteq> []) (split_on slash normalizedSeparators)))"

definition request_paths :: "archive_request \<Rightarrow> jstring list" where
  "request_paths request =
     (case request of
        CompressRequest sources target name format level \<Rightarrow> sources @ [target]
      | ExtractRequest archive target mode \<Rightarrow> [archive, target])"

text \<open>\<open>None\<close> when the request is accepted.\<close>

definition validateArchiveRequest :: "archive_request \<Rightarrow> archive_error_code option" where
  "validateArchiveRequest request =
     (if list_ex (\<lambda>candidate. trim candidate = [] \<or> hasControlCharacters candidate) (request_paths request)
      then Some ValidationFailed
      else case request of
        ExtractRequest archive target mode \<Rightarrow> None
      | CompressRequest sources target name format level \<Rightarrow>
          if name \<noteq> posix_basename name \<or> name = dot \<or> name = dotdot \<or>
             list_ex (\<lambda>c. c = 92 \<or> c = slash) name \<or> hasControlCharacters name
          then Some ValidationFailed
          else if detectArchiveFormatFromName name \<noteq> Some format then Some ValidationFailed
          else if (format = Tar \<and> level \<noteq> Store) \<or> (format \<noteq> Tar \<and> level = Store)
          then Some ValidationFailed
          else None)"

section \<open>Tools\<close>

definition probed_formats :: "jstring list \<Rightarrow> bool \<Rightarrow> archive_format list" where
  "probed_formats tools zip_tool =
     (let has7z = (js ''7z'' \<in> set tools \<or> js ''7zz'' \<in> set tools)
      in (if js ''tar'' \<in> set tools
          then [Tar] @ (if js ''gzip'' \<in> set tools then [TarGzip] else []) @
               (if js ''xz'' \<in> set tools then [TarXz] else []) @
               (if js ''bzip2'' \<in> set tools then [TarBzip2] else [])
          else []) @
         (if zip_tool \<or> has7z then [Zip] else []) @ (if has7z then [SevenZip] else []))"

record archive_capabilities =
  canExec :: bool
  createFormats :: "archive_format list"
  extractFormats :: "archive_format list"

definition buildArchiveCapabilities :: "jstring list \<Rightarrow> archive_capabilities" where
  "buildArchiveCapabilities tools =
     \<lparr>canExec = True, createFormats = probed_formats tools (js ''zip'' \<in> set tools),
      extractFormats = probed_formats tools (js ''unzip'' \<in> set tools)\<rparr>"

section \<open>Commands\<close>

text \<open>\<open>value.replace(/'/g, "'\\''")\<close> in single quotes.\<close>

definition escape_quotes :: "jstring \<Rightarrow> jstring" where
  "escape_quotes value = concat (map (\<lambda>c. if c = 39 then [39, 92, 39, 39] else [c]) value)"

definition quotePosixShellToken :: "jstring \<Rightarrow> jstring" where
  "quotePosixShellToken value = [39] @ escape_quotes value @ [39]"

definition here :: "jstring \<Rightarrow> jstring" where
  "here name = js ''./'' @ name"

definition quote_sources :: "jstring list \<Rightarrow> jstring" where
  "quote_sources names = join_with 32 (map (\<lambda>name. quotePosixShellToken (here name)) names)"

definition seven_zip :: "jstring list \<Rightarrow> jstring" where
  "seven_zip tools = (if js ''7zz'' \<in> set tools then js ''7zz'' else js ''7z'')"

definition compressor :: "archive_format \<Rightarrow> jstring" where
  "compressor format = (if format = TarGzip then js ''gzip'' else if format = TarXz then js ''xz'' else js ''bzip2'')"

definition buildCompressionCommand ::
  "archive_format \<Rightarrow> compression_level \<Rightarrow> jstring \<Rightarrow> jstring \<Rightarrow> jstring option \<Rightarrow> jstring list \<Rightarrow> jstring list \<Rightarrow> jstring" where
  "buildCompressionCommand format level directoryPath temporaryName intermediateName sourceNames tools =
     (let cwd = quotePosixShellToken directoryPath;
          outp = quotePosixShellToken (here temporaryName);
          sources = quote_sources sourceNames;
          numericLevel = numericCompressionLevel level;
          intermediate = quotePosixShellToken (here
            (case intermediateName of None \<Rightarrow> temporaryName @ js ''.tar'' | Some n \<Rightarrow> n))
      in if format = Tar then js ''cd '' @ cwd @ js '' && tar -cf '' @ outp @ js '' -- '' @ sources
         else if isCompressedTarFormat format then
           js ''cd '' @ cwd @ js '' && tar -cf '' @ intermediate @ js '' -- '' @ sources @ js '' && '' @
           compressor format @ js '' -'' @ numericLevel @ js '' -c -- '' @ intermediate @ js '' > '' @ outp @
           js '' && rm -f -- '' @ intermediate
         else if format = Zip \<and> js ''zip'' \<in> set tools then
           js ''cd '' @ cwd @ js '' && zip -q -r -y -'' @ numericLevel @ [32] @ outp @ js '' -- '' @ sources
         else js ''cd '' @ cwd @ js '' && '' @ seven_zip tools @ js '' a -bd -y -mx='' @ numericLevel @
           js '' -snl -- '' @ outp @ [32] @ sources)"

definition buildCompressedTarExpansionCommand :: "archive_format \<Rightarrow> jstring \<Rightarrow> jstring \<Rightarrow> jstring" where
  "buildCompressedTarExpansionCommand format archive outputPath =
     js ''exec '' @ compressor format @ js '' -dc -- '' @ quotePosixShellToken archive @ js '' > '' @
     quotePosixShellToken outputPath"

definition UNSUPPORTED_PASSWORD :: jstring where
  "UNSUPPORTED_PASSWORD = js ''__cosmosh_encrypted_archives_are_unsupported__''"

fun tar_flag :: "archive_format \<Rightarrow> jstring" where
  "tar_flag TarGzip = js ''z''"
| "tar_flag TarXz = js ''J''"
| "tar_flag TarBzip2 = js ''j''"
| "tar_flag _ = []"

definition buildArchiveListCommand :: "archive_format \<Rightarrow> jstring \<Rightarrow> jstring list \<Rightarrow> jstring" where
  "buildArchiveListCommand format archive_path tools =
     (let archive = quotePosixShellToken archive_path
      in if format = Tar \<or> isCompressedTarFormat format
         then js ''exec tar -t'' @ tar_flag format @ js ''f '' @ archive
         else if format = Zip \<and> js ''unzip'' \<in> set tools then js ''exec unzip -Z1 -- '' @ archive
         else js ''exec '' @ seven_zip tools @ js '' l -slt -p'' @ UNSUPPORTED_PASSWORD @ js '' -- '' @ archive)"

definition buildZipIntegrityCommand :: "jstring \<Rightarrow> jstring" where
  "buildZipIntegrityCommand archive_path =
     js ''exec unzip -P '' @ [39, 39] @ js '' -tqq -- '' @ quotePosixShellToken archive_path"

definition buildExtractionCommand :: "archive_format \<Rightarrow> jstring \<Rightarrow> jstring \<Rightarrow> jstring list \<Rightarrow> jstring" where
  "buildExtractionCommand format archive_path stagingPath tools =
     (let archive = quotePosixShellToken archive_path; staging = quotePosixShellToken stagingPath
      in if format = Tar \<or> isCompressedTarFormat format
         then js ''exec tar -x'' @ tar_flag format @ js ''f '' @ archive @ js '' -C '' @ staging @ js '' --''
         else if format = Zip \<and> js ''unzip'' \<in> set tools
         then js ''exec unzip -P '' @ [39, 39] @ js '' -qq -n -- '' @ archive @ js '' -d '' @ staging
         else js ''exec '' @ seven_zip tools @ js '' x -bd -y -aoa -p'' @ UNSUPPORTED_PASSWORD @ js '' -o'' @
              staging @ js '' -- '' @ archive)"

section \<open>Output of the tools\<close>

text \<open>\<open>s.split(/\\r?\\n/)\<close>\<close>

fun split_lines :: "jstring \<Rightarrow> jstring list" where
  "split_lines [] = [[]]"
| "split_lines (c # s) =
     (if c = 10 then [] # split_lines s
      else if c = 13 \<and> s \<noteq> [] \<and> hd s = 10 then split_lines s
      else case split_lines s of [] \<Rightarrow> [[c]] | x # xs \<Rightarrow> (c # x) # xs)"

text \<open>\<open>/^Encrypted\\s*=\\s*\\+/im.test(stdout)\<close>\<close>

definition line_starts :: "jstring \<Rightarrow> jstring list" where
  "line_starts s = s # concat (map (\<lambda>i. if s ! i \<in> {10, 13, 0x2028, 0x2029} then [drop (Suc i) s] else []) [0..<length s])"

definition encrypted_at :: "jstring \<Rightarrow> bool" where
  "encrypted_at s \<longleftrightarrow>
     lower_case (take 9 s) = js ''encrypted'' \<and>
     (let r = dropWhile is_space (drop 9 s)
      in r \<noteq> [] \<and> hd r = 61 \<and> (let q = dropWhile is_space (tl r) in q \<noteq> [] \<and> hd q = 43))"

definition lists_encrypted :: "jstring \<Rightarrow> bool" where
  "lists_encrypted out = list_ex encrypted_at (line_starts out)"

definition parse_members :: "archive_format \<Rightarrow> jstring list \<Rightarrow> jstring \<Rightarrow> jstring \<Rightarrow> jstring list" where
  "parse_members format tools archive_path out =
     (if format = SevenZip \<or> (format = Zip \<and> js ''unzip'' \<notin> set tools)
      then filter (\<lambda>m. m \<noteq> [] \<and> m \<noteq> archive_path \<and> m \<noteq> posix_basename archive_path)
             (map (\<lambda>line. trim (drop 7 line))
               (filter (\<lambda>line. starts_with line (js ''Path = '')) (split_lines out)))
      else filter (\<lambda>m. m \<noteq> []) (map trim (split_lines out)))"

text \<open>\<open>.replace(/\\s+/g, ' ')\<close>: a run of white space becomes one space.\<close>

fun squeeze_spaces :: "jstring \<Rightarrow> jstring" where
  "squeeze_spaces [] = []"
| "squeeze_spaces (c # s) =
     (if is_space c then (case s of [] \<Rightarrow> [32] | d # s' \<Rightarrow> if is_space d then squeeze_spaces s else 32 # squeeze_spaces s)
      else c # squeeze_spaces s)"

definition sanitizeRemoteOutput :: "jstring \<Rightarrow> jstring" where
  "sanitizeRemoteOutput value =
     take 512 (trim (squeeze_spaces
       (filter (\<lambda>c. c = 9 \<or> c = 10 \<or> c = 13 \<or> (c \<ge> 0x20 \<and> c \<noteq> 0x7f)) value)))"

definition ARCHIVE_OUTPUT_LIMIT_BYTES :: nat where "ARCHIVE_OUTPUT_LIMIT_BYTES = 256 * 1024"

definition appendBounded :: "'b list \<Rightarrow> 'b list \<Rightarrow> 'b list \<times> bool" where
  "appendBounded current inp =
     (let availableBytes = ARCHIVE_OUTPUT_LIMIT_BYTES - length current
      in (if availableBytes > 0 then current @ take availableBytes inp else current,
          length inp > availableBytes))"

section \<open>Headers\<close>

text \<open>\<open>.replace(/\\0.*$/, '')\<close>: the tail after the first NUL that no line terminator follows.\<close>

fun drop_nul_tail :: "nat list \<Rightarrow> nat list" where
  "drop_nul_tail [] = []"
| "drop_nul_tail (c # s) =
     (if c = 0 \<and> list_all (\<lambda>d. d \<noteq> 10 \<and> d \<noteq> 13) s then [] else c # drop_nul_tail s)"

text \<open>\<open>Number.parseInt(text, 8)\<close> on a trimmed text: \<open>None\<close> is NaN.\<close>

definition parse_octal :: "nat list \<Rightarrow> int option" where
  "parse_octal s =
     (let neg = (s \<noteq> [] \<and> hd s = 45);
          u = (if s \<noteq> [] \<and> (hd s = 45 \<or> hd s = 43) then tl s else s);
          ds = takeWhile (\<lambda>c. 48 \<le> c \<and> c \<le> 55) u;
          n = foldl (\<lambda>n c. 8 * n + int (c - 48)) 0 ds
      in if ds = [] then None else Some (if neg then - n else n))"

definition tar_checksum :: "nat list \<Rightarrow> int" where
  "tar_checksum header =
     int (sum_list (map (\<lambda>i. if 148 \<le> i \<and> i < 156 then 0x20 else header ! i) [0..<512]))"

definition isTarHeader :: "nat list \<Rightarrow> bool" where
  "isTarHeader header =
     (if length header < 512 then False
      else if list_all (\<lambda>b. b = 0) (take 512 header) then True
      else case parse_octal (trim (drop_nul_tail (map (\<lambda>b. b mod 128) (take 8 (drop 148 header))))) of
             None \<Rightarrow> False
           | Some expectedChecksum \<Rightarrow> tar_checksum header = expectedChecksum)"

fun header_matches :: "archive_format \<Rightarrow> nat list \<Rightarrow> bool" where
  "header_matches Tar header = isTarHeader header"
| "header_matches TarGzip header = (take 2 header = [0x1f, 0x8b])"
| "header_matches Zip header = (take 2 header = [0x50, 0x4b])"
| "header_matches TarXz header = (take 6 header = [0xfd, 0x37, 0x7a, 0x58, 0x5a, 0x00])"
| "header_matches TarBzip2 header = (map (\<lambda>b. b mod 128) (take 3 header) = js ''BZh'')"
| "header_matches SevenZip header = (take 6 header = [0x37, 0x7a, 0xbc, 0xaf, 0x27, 0x1c])"

end
