(* ===== verification/RemoteIo.thy ===== *)
theory RemoteIo
  imports Procedures ArchiveCommands
begin

text \<open>
  Asynchronous procedures over a remote host, as they occur in
  packages/backend/src/sftp/archive-service.ts.  A procedure takes the state of its job and gives a
  failure or a value and the state after it, or \<open>None\<close> when it does not return.  The SFTP client and
  the remote command channel are third-party code: they are the fields of a record \<open>remote\<close> over an
  arbitrary world \<open>'w\<close>.  While a request is in flight the other handlers of the service can run, so
  every request also tells which of them ran, in order, and \<open>await\<close> applies them to the job.
\<close>

section \<open>Failures\<close>

text \<open>
  \<open>SftpArchiveError\<close>, \<open>SftpArchiveCancelledError\<close> and the errors of the SFTP client, with their
  \<open>code\<close> and \<open>message\<close>.
\<close>

datatype failure =
    ArchiveFailure archive_error_code
  | CancelledFailure
  | RemoteFailure json jstring

fun contains_text :: "jstring \<Rightarrow> jstring \<Rightarrow> bool" where
  "contains_text pat [] = (pat = [])"
| "contains_text pat (c # s) = (starts_with (c # s) pat \<or> contains_text pat s)"

fun isNoSuchFileError :: "failure \<Rightarrow> bool" where
  "isNoSuchFileError (RemoteFailure code message) =
     (code = JNum (Num 2) \<or> code = JStr (js ''ENOENT'') \<or>
      contains_text (js ''no such file'') (lower_case message))"
| "isNoSuchFileError _ = False"

text \<open>A procedure of the archive service.\<close>

type_synonym ('s, 'a) io = "('s, failure, 'a) proc"

end
