(* ===== verification/ArchiveJobs.thy ===== *)
theory ArchiveJobs
  imports RemoteIo
begin

unbundle bit_operations_syntax

text \<open>
  The record of an archive operation (packages/backend/src/sftp/archive-service.ts), the handlers
  that change it while a procedure waits - cancellation, timeout, a lost transport, the decision on a
  conflict - and the requests to the remote host.  Diagnostic texts, the signals to the channel of a
  running command and the retention timer are left out; times are milliseconds.
\<close>

section \<open>State\<close>

datatype operation_state = Running | AwaitingConflict | Succeeded | Failed | Cancelled

datatype operation_stage =
    Preparing | Compressing | Extracting | Verifying | Committing | ConflictStage | Cleaning | Completed

datatype resolution = Overwrite | KeepBoth | CancelResolution

datatype entry_type = DirectoryEntry | FileEntry | SymlinkEntry | OtherEntry

record conflict =
  conflict_path :: jstring
  conflict_targetPath :: jstring
  conflict_type :: entry_type

text \<open>
  \<open>jb_waiter\<close> is \<open>Some None\<close> while the decision of the user is awaited, \<open>Some (Some r)\<close> once its promise
  is resolved.  \<open>jb_closed\<close> is \<open>session.isClosed\<close>.
\<close>

record 'w job =
  jb_world :: 'w
  jb_deadlineAt :: rat
  jb_state :: operation_state
  jb_stage :: operation_stage
  jb_cancelRequested :: bool
  jb_conflicts :: "conflict list option"
  jb_resultPaths :: "jstring list option"
  jb_errorCode :: "archive_error_code option"
  jb_forcedFailure :: "archive_error_code option"
  jb_temporaryPaths :: "jstring list"
  jb_provisionalDirectories :: "jstring list"
  jb_waiter :: "resolution option option"
  jb_closed :: bool
  jb_toolSet :: "jstring list option"
  jb_capabilities :: "archive_capabilities option"
  jb_completions :: "operation_state list"

definition isTerminalState :: "operation_state \<Rightarrow> bool" where
  "isTerminalState st \<longleftrightarrow> st = Succeeded \<or> st = Failed \<or> st = Cancelled"

section \<open>Handlers that run while a procedure waits\<close>

text \<open>Resolving a promise: the first resolution counts.\<close>

definition resolve_waiter :: "resolution \<Rightarrow> 'w job \<Rightarrow> 'w job" where
  "resolve_waiter r j =
     (case jb_waiter j of Some None \<Rightarrow> j\<lparr>jb_waiter := Some (Some r)\<rparr> | _ \<Rightarrow> j)"

definition resolveConflict :: "resolution \<Rightarrow> 'w job \<Rightarrow> archive_error_code option \<times> 'w job" where
  "resolveConflict r j =
     (if jb_state j \<noteq> AwaitingConflict \<or> jb_waiter j = None then (Some ValidationFailed, j)
      else (None, resolve_waiter r j))"

definition cancelOperation :: "'w job \<Rightarrow> 'w job" where
  "cancelOperation j =
     (if isTerminalState (jb_state j) then j
      else resolve_waiter CancelResolution (j\<lparr>jb_cancelRequested := True\<rparr>))"

definition timeoutOperation :: "'w job \<Rightarrow> 'w job" where
  "timeoutOperation j =
     (if isTerminalState (jb_state j) then j
      else resolve_waiter CancelResolution (j\<lparr>jb_forcedFailure := Some ArchiveTimeout\<rparr>))"

definition handleTransportClosed :: "'w job \<Rightarrow> 'w job" where
  "handleTransportClosed j =
     resolve_waiter CancelResolution
       (j\<lparr>jb_capabilities := None, jb_toolSet := None, jb_cancelRequested := True\<rparr>)"

text \<open>\<open>SessionClosed\<close> is the owner setting \<open>isClosed\<close>.\<close>

datatype job_event = Cancel | TimeOut | TransportClosed | Resolve resolution | SessionClosed

fun handle_event :: "job_event \<Rightarrow> 'w job \<Rightarrow> 'w job" where
  "handle_event Cancel j = cancelOperation j"
| "handle_event TimeOut j = timeoutOperation j"
| "handle_event TransportClosed j = handleTransportClosed j"
| "handle_event (Resolve r) j = snd (resolveConflict r j)"
| "handle_event SessionClosed j = j\<lparr>jb_closed := True\<rparr>"

section \<open>Requests\<close>

text \<open>
  A request gets the time until which its caller waits, and gives its failure or its value, or \<open>None\<close> when
  neither came by then, with the handlers that ran meanwhile.
\<close>

type_synonym ('w, 'a) request = "rat \<Rightarrow> 'w \<Rightarrow> (failure + 'a) option \<times> job_event list \<times> 'w"

record command_result =
  cr_stdout :: jstring
  cr_stderr :: jstring
  cr_stdoutTruncated :: bool
  cr_exitCode :: "int option"

text \<open>
  The SFTP client, the command channel, the clock, the generator of identifiers and the user, who decides or
  lets the time pass.
\<close>

record 'w remote =
  rm_now :: "'w \<Rightarrow> rat"
  rm_uuid :: "'w \<Rightarrow> jstring \<times> 'w"
  rm_lstat :: "jstring \<Rightarrow> ('w, nat) request"
  rm_readdir :: "jstring \<Rightarrow> ('w, (jstring \<times> nat) list) request"
  rm_readlink :: "jstring \<Rightarrow> ('w, jstring) request"
  rm_mkdir :: "jstring \<Rightarrow> nat \<Rightarrow> ('w, unit) request"
  rm_rmdir :: "jstring \<Rightarrow> ('w, unit) request"
  rm_unlink :: "jstring \<Rightarrow> ('w, unit) request"
  rm_rename :: "jstring \<Rightarrow> jstring \<Rightarrow> ('w, unit) request"
  rm_readRange :: "jstring \<Rightarrow> nat \<Rightarrow> nat \<Rightarrow> ('w, nat list) request"
  rm_command :: "jstring \<Rightarrow> ('w, command_result) request"
  rm_awaitUser :: "rat \<Rightarrow> 'w \<Rightarrow> job_event list \<times> 'w"

definition remainingDuration :: "'w remote \<Rightarrow> 'w job \<Rightarrow> rat" where
  "remainingDuration R j = max 0 (jb_deadlineAt j - rm_now R (jb_world j))"

text \<open>The handlers run, in order, before the procedure goes on.\<close>

definition apply_events :: "job_event list \<Rightarrow> 'w \<Rightarrow> 'w job \<Rightarrow> 'w job" where
  "apply_events es w j = fold handle_event es (j\<lparr>jb_world := w\<rparr>)"

text \<open>Waiting for a reply until \<open>limit\<close>, when the timer of the caller rejects.\<close>

definition await :: "rat \<Rightarrow> ('w, 'a) request \<Rightarrow> ('w job, 'a) io" where
  "await limit request = (\<lambda>j.
     let (r, es, w) = request limit (jb_world j)
     in Some (case r of None \<Rightarrow> Inl (ArchiveFailure ArchiveTimeout) | Some x \<Rightarrow> x, apply_events es w j))"

definition waitForPromiseBeforeDeadline :: "'w remote \<Rightarrow> ('w, 'a) request \<Rightarrow> ('w job, 'a) io" where
  "waitForPromiseBeforeDeadline R request =
     (\<lambda>j. if remainingDuration R j = 0 then throw_io (ArchiveFailure ArchiveTimeout) j
          else await (jb_deadlineAt j) request j)"

definition runRemoteCommand :: "'w remote \<Rightarrow> jstring \<Rightarrow> rat \<Rightarrow> ('w job, command_result) io" where
  "runRemoteCommand R command timeoutMs =
     (\<lambda>j. if timeoutMs \<le> 0 then throw_io (ArchiveFailure ArchiveTimeout) j
          else await (rm_now R (jb_world j) + timeoutMs) (rm_command R command) j)"

definition lstatRemote :: "'w remote \<Rightarrow> jstring \<Rightarrow> ('w job, nat) io" where
  "lstatRemote R path = waitForPromiseBeforeDeadline R (rm_lstat R path)"

definition readdirRemote :: "'w remote \<Rightarrow> jstring \<Rightarrow> ('w job, (jstring \<times> nat) list) io" where
  "readdirRemote R path = waitForPromiseBeforeDeadline R (rm_readdir R path)"

definition readlinkRemote :: "'w remote \<Rightarrow> jstring \<Rightarrow> ('w job, jstring) io" where
  "readlinkRemote R path = waitForPromiseBeforeDeadline R (rm_readlink R path)"

definition mkdirRemote :: "'w remote \<Rightarrow> jstring \<Rightarrow> nat \<Rightarrow> ('w job, unit) io" where
  "mkdirRemote R path mode = waitForPromiseBeforeDeadline R (rm_mkdir R path mode)"

definition rmdirRemote :: "'w remote \<Rightarrow> jstring \<Rightarrow> ('w job, unit) io" where
  "rmdirRemote R path = waitForPromiseBeforeDeadline R (rm_rmdir R path)"

definition unlinkRemote :: "'w remote \<Rightarrow> jstring \<Rightarrow> ('w job, unit) io" where
  "unlinkRemote R path = waitForPromiseBeforeDeadline R (rm_unlink R path)"

definition renameRemote :: "'w remote \<Rightarrow> jstring \<Rightarrow> jstring \<Rightarrow> ('w job, unit) io" where
  "renameRemote R source target = waitForPromiseBeforeDeadline R (rm_rename R source target)"

definition readRemoteRange :: "'w remote \<Rightarrow> jstring \<Rightarrow> nat \<Rightarrow> nat \<Rightarrow> ('w job, nat list) io" where
  "readRemoteRange R path position len = waitForPromiseBeforeDeadline R (rm_readRange R path position len)"

definition assertOperationActive :: "'w remote \<Rightarrow> ('w job, unit) io" where
  "assertOperationActive R =
     (\<lambda>j. if remainingDuration R j = 0 then throw_io (ArchiveFailure ArchiveTimeout) j
          else if jb_cancelRequested j \<or> jb_closed j then throw_io CancelledFailure j
          else return_io () j)"

section \<open>Trees\<close>

definition S_IFMT :: nat where "S_IFMT = 0xF000"
definition S_IFDIR :: nat where "S_IFDIR = 0x4000"
definition S_IFREG :: nat where "S_IFREG = 0x8000"
definition S_IFLNK :: nat where "S_IFLNK = 0xA000"

definition mode_type :: "nat \<Rightarrow> nat" where
  "mode_type mode = mode AND S_IFMT"

definition entryType :: "nat \<Rightarrow> entry_type" where
  "entryType mode =
     (if mode_type mode = S_IFDIR then DirectoryEntry
      else if mode_type mode = S_IFREG then FileEntry
      else if mode_type mode = S_IFLNK then SymlinkEntry else OtherEntry)"

definition toConflict :: "jstring \<Rightarrow> jstring \<Rightarrow> entry_type \<Rightarrow> conflict" where
  "toConflict source target type =
     \<lparr>conflict_path = posix_basename source, conflict_targetPath = target, conflict_type = type\<rparr>"

definition pathExists :: "'w remote \<Rightarrow> jstring \<Rightarrow> ('w job, bool) io" where
  "pathExists R path =
     catch_io (then_io (lstatRemote R path) (return_io True))
       (\<lambda>e. if isNoSuchFileError e then return_io False else throw_io e)"

text \<open>
  The test on the target of a symbolic link. The directory of a staged entry is absolute, so
  \<open>path.resolve\<close> does not look at the working directory of the process.
\<close>

definition link_escapes :: "jstring \<Rightarrow> jstring \<Rightarrow> jstring \<Rightarrow> bool" where
  "link_escapes stagingRoot path link =
     (let resolved = (if posix_is_absolute link then link
                      else posix_resolve2 [] (posix_dirname path) link)
      in hasControlCharacters link \<or> (resolved \<noteq> stagingRoot \<and> \<not> starts_with resolved (stagingRoot @ [slash])))"

partial_function (option) validateStagedTree ::
  "'w remote \<Rightarrow> ('w job, unit) io \<Rightarrow> jstring \<Rightarrow> nat option \<Rightarrow> jstring \<Rightarrow> 'w job \<Rightarrow> ((failure + unit) \<times> 'w job) option" where
  "validateStagedTree R assertActive stagingRoot knownMode path s =
     then_io assertActive
     (bind_io (case knownMode of Some m \<Rightarrow> return_io m | None \<Rightarrow> lstatRemote R path) (\<lambda>mode.
      then_io assertActive
      (if mode_type mode = S_IFLNK then
         bind_io (readlinkRemote R path) (\<lambda>link.
         then_io assertActive
         (if link_escapes stagingRoot path link then throw_io (ArchiveFailure ArchiveUnsafeEntry)
          else return_io ()))
       else if mode_type mode \<noteq> S_IFDIR then return_io ()
       else
         bind_io (readdirRemote R path) (\<lambda>entries.
         then_io assertActive
         (for_each (\<lambda>entry.
            then_io assertActive
            (validateStagedTree R assertActive stagingRoot (Some (snd entry)) (posix_join [path, fst entry])))
            entries))))) s"

declare validateStagedTree.simps [simp del]

text \<open>
  The missing segments of a destination, deepest first.  The failure thrown inside the \<open>try\<close> for a
  segment that is no directory is not a missing file, so it is thrown again.
\<close>

partial_function (option) missing_paths ::
  "'w remote \<Rightarrow> jstring \<Rightarrow> jstring list \<Rightarrow> 'w job \<Rightarrow> ((failure + jstring list) \<times> 'w job) option" where
  "missing_paths R cursor missing s =
     (if cursor = [slash] then return_io missing
      else then_io (assertOperationActive R)
        (bind_io
          (catch_io
            (bind_io (lstatRemote R cursor) (\<lambda>mode.
             then_io (assertOperationActive R)
             (if mode_type mode \<noteq> S_IFDIR then throw_io (ArchiveFailure ValidationFailed) else return_io True)))
            (\<lambda>e. if isNoSuchFileError e then return_io False else throw_io e))
          (\<lambda>found. if found then return_io missing
                   else missing_paths R (posix_dirname cursor) (missing @ [cursor])))) s"

definition add_provisional :: "jstring \<Rightarrow> 'w job \<Rightarrow> 'w job" where
  "add_provisional path j =
     (if path \<in> set (jb_provisionalDirectories j) then j
      else j\<lparr>jb_provisionalDirectories := jb_provisionalDirectories j @ [path]\<rparr>)"

primrec create_missing :: "'w remote \<Rightarrow> jstring list \<Rightarrow> jstring list \<Rightarrow> ('w job, jstring list) io" where
  "create_missing R created [] = return_io created"
| "create_missing R created (path # paths) =
     then_io (assertOperationActive R)
       (bind_io
         (catch_io
           (then_io (mkdirRemote R path 493) (then_io (modify_io (add_provisional path)) (return_io True)))
           (\<lambda>e. bind_io
              (catch_io
                (bind_io (lstatRemote R path) (\<lambda>mode. return_io (mode_type mode = S_IFDIR)))
                (\<lambda>_. return_io False))
              (\<lambda>directory. if directory then return_io False else throw_io e)))
         (\<lambda>made. create_missing R (if made then created @ [path] else created) paths))"

definition ensureRemoteDirectory :: "'w remote \<Rightarrow> jstring \<Rightarrow> ('w job, jstring list) io" where
  "ensureRemoteDirectory R target =
     bind_io (missing_paths R target []) (\<lambda>missing. create_missing R [] (rev missing))"

partial_function (option) removeRemoteTree ::
  "'w remote \<Rightarrow> ('w job, unit) io \<Rightarrow> jstring \<Rightarrow> 'w job \<Rightarrow> ((failure + unit) \<times> 'w job) option" where
  "removeRemoteTree R assertActive path s =
     then_io assertActive
     (bind_io
       (catch_io (bind_io (lstatRemote R path) (\<lambda>mode. return_io (Some mode)))
          (\<lambda>e. if isNoSuchFileError e then return_io None else throw_io e))
       (\<lambda>found. if found = None then return_io ()
          else then_io assertActive
            (if mode_type (the found) \<noteq> S_IFDIR then unlinkRemote R path
             else bind_io (readdirRemote R path) (\<lambda>entries.
               then_io assertActive
               (then_io
                 (for_each (\<lambda>entry. then_io assertActive
                     (removeRemoteTree R assertActive (posix_join [path, fst entry]))) entries)
                 (then_io assertActive (rmdirRemote R path))))))) s"

declare removeRemoteTree.simps [simp del]

definition no_check :: "('w job, unit) io" where
  "no_check = return_io ()"

partial_function (option) mergeRemoteEntry ::
  "'w remote \<Rightarrow> ('w job, unit) io \<Rightarrow> jstring \<Rightarrow> jstring \<Rightarrow> 'w job \<Rightarrow> ((failure + unit) \<times> 'w job) option" where
  "mergeRemoteEntry R assertActive source target s =
     then_io assertActive
     (bind_io (lstatRemote R source) (\<lambda>sourceMode.
      then_io assertActive
      (bind_io (lstatRemote R target) (\<lambda>targetMode.
       then_io assertActive
       (if mode_type sourceMode \<noteq> S_IFDIR \<or> mode_type targetMode \<noteq> S_IFDIR
        then then_io assertActive (then_io (removeRemoteTree R no_check target) (renameRemote R source target))
        else bind_io (readdirRemote R source) (\<lambda>entries.
          then_io assertActive
          (then_io
            (for_each (\<lambda>entry.
               then_io assertActive
               (bind_io (pathExists R (posix_join [target, fst entry])) (\<lambda>childExists.
                then_io assertActive
                (if childExists
                 then mergeRemoteEntry R assertActive (posix_join [source, fst entry]) (posix_join [target, fst entry])
                 else renameRemote R (posix_join [source, fst entry]) (posix_join [target, fst entry])))))
              entries)
            (rmdirRemote R source)))))))) s"

declare mergeRemoteEntry.simps [simp del]

text \<open>\<open>basename (2)\<close>, \<open>basename (3)\<close>, \<dots>\<close>

fun decimal :: "nat \<Rightarrow> jstring" where
  "decimal n = (if n < 10 then [48 + n] else decimal (n div 10) @ [48 + n mod 10])"

declare decimal.simps [simp del]

definition numbered :: "jstring \<Rightarrow> nat \<Rightarrow> jstring" where
  "numbered path attempt =
     posix_join [posix_dirname path, posix_basename path @ js '' ('' @ decimal attempt @ js '')'']"

primrec first_available :: "'w remote \<Rightarrow> jstring \<Rightarrow> nat list \<Rightarrow> ('w job, jstring) io" where
  "first_available R path [] = throw_io (ArchiveFailure ArchiveOperationFailed)"
| "first_available R path (n # ns) =
     bind_io (pathExists R (numbered path n)) (\<lambda>taken.
       if taken then first_available R path ns else return_io (numbered path n))"

definition findAvailablePath :: "'w remote \<Rightarrow> jstring \<Rightarrow> ('w job, jstring) io" where
  "findAvailablePath R path =
     bind_io (pathExists R path) (\<lambda>taken.
       if taken then first_available R path [2..<10000] else return_io path)"

end
