(* ===== verification/ArchiveRuns.thy ===== *)
theory ArchiveRuns
  imports ArchiveJobs
begin

text \<open>
  The run of an archive operation (packages/backend/src/sftp/archive-service.ts): probing the tools,
  compressing into a sibling file, extracting into a private staging directory, checking what was
  extracted, committing it with the decision of the user, and cleaning up whatever happened.
\<close>

section \<open>Steps\<close>

definition set_stage :: "operation_stage \<Rightarrow> ('w job, unit) io" where
  "set_stage stage = modify_io (\<lambda>j. j\<lparr>jb_stage := stage\<rparr>)"

definition add_temporary :: "jstring \<Rightarrow> ('w job, unit) io" where
  "add_temporary path = modify_io (\<lambda>j.
     if path \<in> set (jb_temporaryPaths j) then j
     else j\<lparr>jb_temporaryPaths := jb_temporaryPaths j @ [path]\<rparr>)"

definition remove_temporary :: "jstring \<Rightarrow> ('w job, unit) io" where
  "remove_temporary path = modify_io (\<lambda>j.
     j\<lparr>jb_temporaryPaths := filter (\<lambda>p. p \<noteq> path) (jb_temporaryPaths j)\<rparr>)"

definition remove_provisional :: "jstring \<Rightarrow> ('w job, unit) io" where
  "remove_provisional path = modify_io (\<lambda>j.
     j\<lparr>jb_provisionalDirectories := filter (\<lambda>p. p \<noteq> path) (jb_provisionalDirectories j)\<rparr>)"

definition randomUUID :: "'w remote \<Rightarrow> ('w job, jstring) io" where
  "randomUUID R = (\<lambda>j. let (u, w) = rm_uuid R (jb_world j) in Some (Inr u, j\<lparr>jb_world := w\<rparr>))"

definition runCheckedCommand :: "'w remote \<Rightarrow> jstring \<Rightarrow> ('w job, command_result) io" where
  "runCheckedCommand R command =
     then_io (assertOperationActive R)
     (bind_io (read_io (remainingDuration R)) (\<lambda>timeoutMs.
      bind_io (runRemoteCommand R command timeoutMs) (\<lambda>result.
      then_io (assertOperationActive R)
      (if cr_exitCode result \<noteq> Some 0 then throw_io (ArchiveFailure ArchiveOperationFailed)
       else return_io result))))"

text \<open>\<open>printf '%s\\n'\<close> of every known tool that the remote host finds.\<close>

definition probe_command :: jstring where
  "probe_command =
     js ''for c in sh tar gzip xz bzip2 zip unzip 7z 7zz; do if command -v '' @ [34] @ js ''$c'' @ [34] @
     js '' >/dev/null 2>&1; then printf '' @ [39] @ js ''%s'' @ [92] @ js ''n'' @ [39, 32, 34] @ js ''$c'' @ [34] @
     js ''; fi; done''"

definition ARCHIVE_PROBE_TIMEOUT_MS :: rat where "ARCHIVE_PROBE_TIMEOUT_MS = 15 * 1000"

definition probeToolSet :: "'w remote \<Rightarrow> ('w job, jstring list) io" where
  "probeToolSet R =
     bind_io (runRemoteCommand R probe_command ARCHIVE_PROBE_TIMEOUT_MS) (\<lambda>result.
       if cr_exitCode result \<noteq> Some 0 then throw_io (RemoteFailure JUndefined (js ''Remote exec is unavailable.''))
       else return_io (unique (filter (\<lambda>line. line \<noteq> []) (map trim (split_lines (cr_stdout result))))))"

text \<open>A failed probe is not kept.\<close>

definition getToolSet :: "'w remote \<Rightarrow> ('w job, jstring list) io" where
  "getToolSet R =
     bind_io (read_io jb_toolSet) (\<lambda>cached.
       case cached of
         Some tools \<Rightarrow> return_io tools
       | None \<Rightarrow> bind_io (probeToolSet R) (\<lambda>tools.
           then_io (modify_io (\<lambda>j. j\<lparr>jb_toolSet := Some tools\<rparr>)) (return_io tools)))"

definition getCapabilities :: "'w remote \<Rightarrow> ('w job, archive_capabilities) io" where
  "getCapabilities R =
     bind_io (read_io jb_capabilities) (\<lambda>cached.
       case cached of
         Some capabilities \<Rightarrow> return_io capabilities
       | None \<Rightarrow>
           bind_io
             (catch_io (bind_io (getToolSet R) (\<lambda>tools. return_io (buildArchiveCapabilities tools)))
               (\<lambda>_. return_io \<lparr>canExec = False, createFormats = [], extractFormats = []\<rparr>))
             (\<lambda>capabilities. then_io (modify_io (\<lambda>j. j\<lparr>jb_capabilities := Some capabilities\<rparr>))
                (return_io capabilities)))"

definition validateArchiveHeader :: "'w remote \<Rightarrow> jstring \<Rightarrow> archive_format \<Rightarrow> ('w job, unit) io" where
  "validateArchiveHeader R path format =
     bind_io (readRemoteRange R path 0 512) (\<lambda>header.
       if header_matches format header then return_io () else throw_io (ArchiveFailure ArchiveUnsupported))"

definition listArchiveMembers ::
  "'w remote \<Rightarrow> jstring \<Rightarrow> archive_format \<Rightarrow> jstring list \<Rightarrow> ('w job, jstring list) io" where
  "listArchiveMembers R path format tools =
     bind_io (runCheckedCommand R (buildArchiveListCommand format path tools)) (\<lambda>result.
       if cr_stdoutTruncated result then throw_io (ArchiveFailure ArchiveUnsafeEntry)
       else then_io
         (if format = Zip \<and> js ''unzip'' \<in> set tools
          then then_io (runCheckedCommand R (buildZipIntegrityCommand path)) (return_io ()) else return_io ())
         (if lists_encrypted (cr_stdout result) then throw_io (ArchiveFailure ArchiveUnsupported)
          else return_io (parse_members format tools path (cr_stdout result))))"

section \<open>Compression\<close>

primrec check_sources :: "'w remote \<Rightarrow> jstring list \<Rightarrow> ('w job, unit) io" where
  "check_sources R [] = return_io ()"
| "check_sources R (path # paths) =
     bind_io (lstatRemote R path) (\<lambda>mode.
     then_io (assertOperationActive R)
     (if mode_type mode \<noteq> S_IFREG \<and> mode_type mode \<noteq> S_IFDIR \<and> mode_type mode \<noteq> S_IFLNK
      then throw_io (ArchiveFailure ArchiveUnsupported) else check_sources R paths))"

definition assertCompressionInputs ::
  "'w remote \<Rightarrow> jstring list \<Rightarrow> jstring \<Rightarrow> jstring \<Rightarrow> ('w job, unit) io" where
  "assertCompressionInputs R sources targetDirectory targetPath =
     (if targetDirectory = [slash] \<or> targetDirectory = dot then throw_io (ArchiveFailure ValidationFailed)
      else if list_ex (\<lambda>path. posix_dirname path \<noteq> targetDirectory) sources
      then throw_io (ArchiveFailure ValidationFailed)
      else bind_io (pathExists R targetPath) (\<lambda>taken.
        if taken then throw_io (ArchiveFailure ArchiveTargetExists)
        else then_io (assertOperationActive R) (check_sources R sources)))"

definition temporary_file :: "jstring \<Rightarrow> jstring \<Rightarrow> jstring" where
  "temporary_file uuid suf = js ''.cosmosh-'' @ uuid @ js ''.partial'' @ suf"

definition runCompression ::
  "'w remote \<Rightarrow> jstring list \<Rightarrow> jstring \<Rightarrow> jstring \<Rightarrow> compression_level \<Rightarrow> archive_format \<Rightarrow> ('w job, jstring list) io" where
  "runCompression R request_sources request_target name level format =
     (let targetDirectory = normalizeRemotePath request_target;
          sources = map normalizeRemotePath request_sources;
          targetPath = posix_join [targetDirectory, name]
      in then_io (assertCompressionInputs R sources targetDirectory targetPath)
        (bind_io (randomUUID R) (\<lambda>uuid.
         let temporaryName = temporary_file uuid (archiveExtension format);
             temporaryPath = posix_join [targetDirectory, temporaryName]
         in then_io (add_temporary temporaryPath)
           (bind_io
             (if isCompressedTarFormat format
              then bind_io (randomUUID R) (\<lambda>u. return_io (Some (temporary_file u (js ''.tar''))))
              else return_io None) (\<lambda>intermediateName.
            then_io (case intermediateName of None \<Rightarrow> return_io ()
                     | Some n \<Rightarrow> add_temporary (posix_join [targetDirectory, n]))
            (then_io (set_stage Compressing)
            (bind_io (getToolSet R) (\<lambda>tools.
             then_io (runCheckedCommand R (buildCompressionCommand format level targetDirectory temporaryName
                        intermediateName (map posix_basename sources) tools))
             (then_io (case intermediateName of None \<Rightarrow> return_io ()
                       | Some n \<Rightarrow> remove_temporary (posix_join [targetDirectory, n]))
             (then_io (assertOperationActive R)
             (then_io (set_stage Committing)
             (bind_io (pathExists R targetPath) (\<lambda>taken.
              if taken then throw_io (ArchiveFailure ArchiveTargetExists)
              else then_io (assertOperationActive R)
                (then_io (renameRemote R temporaryPath targetPath)
                (then_io (remove_temporary temporaryPath) (return_io [targetPath]))))))))))))))))"

section \<open>Committing an extraction\<close>

definition ARCHIVE_CONFLICT_TIMEOUT_MS :: rat where "ARCHIVE_CONFLICT_TIMEOUT_MS = 10 * 60 * 1000"

text \<open>
  The promise of a decision, under its own timer and under the deadline, whichever fires first; when
  both are due at once the timer, which was started first, runs first.
\<close>

definition waitForConflicts :: "'w remote \<Rightarrow> conflict list \<Rightarrow> ('w job, resolution) io" where
  "waitForConflicts R conflicts = (\<lambda>j.
     let j1 = j\<lparr>jb_state := AwaitingConflict, jb_stage := ConflictStage, jb_conflicts := Some conflicts,
                jb_waiter := Some None\<rparr>;
         finish = (\<lambda>j. j\<lparr>jb_waiter := None, jb_conflicts := None, jb_state := Running, jb_stage := Committing\<rparr>)
     in if remainingDuration R j1 = 0 then Some (Inl (ArchiveFailure ArchiveTimeout), finish j1)
        else
          let now = rm_now R (jb_world j1);
              (es, w) = rm_awaitUser R (min (now + ARCHIVE_CONFLICT_TIMEOUT_MS) (jb_deadlineAt j1)) (jb_world j1);
              j2 = apply_events es w j1
          in Some (case jb_waiter j2 of
                     Some (Some r) \<Rightarrow> Inr r
                   | _ \<Rightarrow> if remainingDuration R j1 < ARCHIVE_CONFLICT_TIMEOUT_MS
                         then Inl (ArchiveFailure ArchiveTimeout) else Inr CancelResolution,
                   finish j2))"

primrec find_conflicts ::
  "'w remote \<Rightarrow> jstring \<Rightarrow> jstring \<Rightarrow> conflict list \<Rightarrow> (jstring \<times> nat) list \<Rightarrow> ('w job, conflict list) io" where
  "find_conflicts R staging target found [] = return_io found"
| "find_conflicts R staging target found (entry # entries) =
     (let source_path = posix_join [staging, fst entry]; target_path = posix_join [target, fst entry]
      in then_io (assertOperationActive R)
        (bind_io (pathExists R target_path) (\<lambda>taken.
         then_io (assertOperationActive R)
         (find_conflicts R staging target
            (if taken then found @ [toConflict source_path target_path (entryType (snd entry))] else found)
            entries))))"

primrec commit_entries ::
  "'w remote \<Rightarrow> jstring \<Rightarrow> jstring \<Rightarrow> resolution \<Rightarrow> jstring list \<Rightarrow> (jstring \<times> nat) list \<Rightarrow> ('w job, jstring list) io" where
  "commit_entries R staging target resolution results [] = return_io results"
| "commit_entries R staging target resolution results (entry # entries) =
     (let sourcePath = posix_join [staging, fst entry]; desiredPath = posix_join [target, fst entry]
      in then_io (assertOperationActive R)
        (bind_io (pathExists R desiredPath) (\<lambda>taken.
         bind_io
           (if \<not> taken then
              then_io (assertOperationActive R)
                (then_io (renameRemote R sourcePath desiredPath) (return_io desiredPath))
            else if resolution = KeepBoth then
              bind_io (findAvailablePath R desiredPath) (\<lambda>uniquePath.
                then_io (assertOperationActive R)
                  (then_io (renameRemote R sourcePath uniquePath) (return_io uniquePath)))
            else
              then_io (assertOperationActive R)
                (then_io (mergeRemoteEntry R (assertOperationActive R) sourcePath desiredPath)
                  (return_io desiredPath)))
           (\<lambda>result. commit_entries R staging target resolution (results @ [result]) entries))))"

definition commit_unique :: "'w remote \<Rightarrow> jstring \<Rightarrow> jstring \<Rightarrow> ('w job, jstring list) io" where
  "commit_unique R stagingPath desired =
     bind_io (findAvailablePath R desired) (\<lambda>uniquePath.
       then_io (assertOperationActive R)
       (then_io (renameRemote R stagingPath uniquePath)
       (then_io (remove_temporary stagingPath) (return_io [uniquePath]))))"

definition commitExtractedEntries ::
  "'w remote \<Rightarrow> jstring \<Rightarrow> jstring \<Rightarrow> jstring \<Rightarrow> destination_mode \<Rightarrow> ('w job, jstring list) io" where
  "commitExtractedEntries R stagingPath targetDirectory archive mode =
     then_io (assertOperationActive R)
     (bind_io (readdirRemote R stagingPath) (\<lambda>entries.
      then_io (assertOperationActive R)
      (let targetPath = posix_join [targetDirectory, stripArchiveExtension (posix_basename archive)]
       in if mode = Smart \<and> length entries \<noteq> 1 then commit_unique R stagingPath targetPath
          else if mode = ArchiveNameDirectory then
            bind_io (pathExists R targetPath) (\<lambda>taken.
              if \<not> taken then
                then_io (assertOperationActive R)
                (then_io (renameRemote R stagingPath targetPath)
                (then_io (remove_temporary stagingPath) (return_io [targetPath])))
              else
                then_io (assertOperationActive R)
                (bind_io (waitForConflicts R [toConflict stagingPath targetPath DirectoryEntry]) (\<lambda>resolution.
                 if resolution = CancelResolution then throw_io CancelledFailure
                 else if resolution = KeepBoth then commit_unique R stagingPath targetPath
                 else then_io (assertOperationActive R)
                   (then_io (mergeRemoteEntry R (assertOperationActive R) stagingPath targetPath)
                   (then_io (remove_temporary stagingPath) (return_io [targetPath]))))))
          else
            bind_io (find_conflicts R stagingPath targetDirectory [] entries) (\<lambda>conflicts.
            bind_io (if length conflicts > 0 then waitForConflicts R conflicts else return_io Overwrite) (\<lambda>resolution.
              if resolution = CancelResolution then throw_io CancelledFailure
              else
                bind_io (commit_entries R stagingPath targetDirectory resolution [] entries) (\<lambda>resultPaths.
                then_io (removeRemoteTree R no_check stagingPath)
                (then_io (remove_temporary stagingPath) (return_io resultPaths))))))))"

section \<open>Extraction\<close>

definition extract_into ::
  "'w remote \<Rightarrow> jstring \<Rightarrow> jstring \<Rightarrow> archive_format \<Rightarrow> jstring option \<Rightarrow> jstring list \<Rightarrow> destination_mode \<Rightarrow> jstring
     \<Rightarrow> ('w job, jstring list) io" where
  "extract_into R archive extractionPath extractionFormat expanded tools mode targetDirectory =
     bind_io (listArchiveMembers R extractionPath extractionFormat tools) (\<lambda>members.
     if list_ex (\<lambda>member. \<not> isSafeArchiveMember member) members
     then throw_io (ArchiveFailure ArchiveUnsafeEntry)
     else bind_io (randomUUID R) (\<lambda>uuid.
       let stagingPath = posix_join [targetDirectory, js ''.cosmosh-'' @ uuid]
       in then_io (mkdirRemote R stagingPath 448)
         (then_io (add_temporary stagingPath)
         (then_io (set_stage Extracting)
         (then_io (runCheckedCommand R (buildExtractionCommand extractionFormat extractionPath stagingPath tools))
         (then_io (case expanded of None \<Rightarrow> return_io ()
                   | Some p \<Rightarrow> then_io (unlinkRemote R p) (remove_temporary p))
         (then_io (assertOperationActive R)
         (then_io (set_stage Verifying)
         (then_io (validateStagedTree R (assertOperationActive R) stagingPath (Some S_IFDIR) stagingPath)
         (then_io (set_stage Committing)
         (commitExtractedEntries R stagingPath targetDirectory archive mode)))))))))))"

definition runExtraction ::
  "'w remote \<Rightarrow> jstring \<Rightarrow> jstring \<Rightarrow> destination_mode \<Rightarrow> archive_format \<Rightarrow> ('w job, jstring list) io" where
  "runExtraction R request_archive request_target mode format =
     (let archive = normalizeRemotePath request_archive; targetDirectory = normalizeRemotePath request_target
      in if \<not> posix_is_absolute archive \<or> \<not> posix_is_absolute targetDirectory \<or> targetDirectory = [slash]
         then throw_io (ArchiveFailure ValidationFailed)
         else bind_io (lstatRemote R archive) (\<lambda>archiveMode.
           if mode_type archiveMode \<noteq> S_IFREG then throw_io (ArchiveFailure ArchiveUnsupported)
           else bind_io (ensureRemoteDirectory R targetDirectory) (\<lambda>createdDirectories.
             then_io (validateArchiveHeader R archive format)
             (bind_io (getToolSet R) (\<lambda>tools.
              bind_io
                (if isCompressedTarFormat format
                 then bind_io (randomUUID R) (\<lambda>uuid.
                   let expandedTarPath = posix_join [targetDirectory, temporary_file uuid (js ''.tar'')]
                   in then_io (add_temporary expandedTarPath)
                     (then_io (runCheckedCommand R
                        (buildCompressedTarExpansionCommand format archive expandedTarPath))
                     (then_io (validateArchiveHeader R expandedTarPath Tar)
                     (return_io (Some expandedTarPath)))))
                 else return_io None) (\<lambda>expanded.
              bind_io
                (case expanded of
                   None \<Rightarrow> extract_into R archive archive format None tools mode targetDirectory
                 | Some p \<Rightarrow> extract_into R archive p Tar expanded tools mode targetDirectory) (\<lambda>resultPaths.
              then_io (for_each remove_provisional createdDirectories) (return_io resultPaths))))))))"

section \<open>Cleaning up\<close>

text \<open>The result: whether everything was removed, and whether the deadline stopped the loop.\<close>

primrec cleanup_paths :: "'w remote \<Rightarrow> bool \<Rightarrow> jstring list \<Rightarrow> ('w job, bool \<times> bool) io" where
  "cleanup_paths R succeeded [] = return_io (succeeded, False)"
| "cleanup_paths R succeeded (path # paths) =
     bind_io
       (catch_io
         (then_io (removeRemoteTree R no_check path) (then_io (remove_temporary path) (return_io None)))
         (\<lambda>e. return_io (Some e)))
       (\<lambda>failed. case failed of
          None \<Rightarrow> cleanup_paths R succeeded paths
        | Some e \<Rightarrow> if e = ArchiveFailure ArchiveTimeout then return_io (False, True)
                    else cleanup_paths R False paths)"

primrec cleanup_directories :: "'w remote \<Rightarrow> bool \<Rightarrow> jstring list \<Rightarrow> ('w job, bool) io" where
  "cleanup_directories R succeeded [] = return_io succeeded"
| "cleanup_directories R succeeded (path # paths) =
     bind_io
       (catch_io
         (then_io (rmdirRemote R path) (then_io (remove_provisional path) (return_io None)))
         (\<lambda>e. if isNoSuchFileError e then then_io (remove_provisional path) (return_io None)
              else bind_io
                (catch_io (bind_io (readdirRemote R path) (\<lambda>entries. return_io (length entries > 0)))
                   (\<lambda>_. return_io False))
                (\<lambda>occupied. if occupied then then_io (remove_provisional path) (return_io None)
                            else return_io (Some e))))
       (\<lambda>failed. case failed of
          None \<Rightarrow> cleanup_directories R succeeded paths
        | Some e \<Rightarrow> if e = ArchiveFailure ArchiveTimeout then return_io False
                    else cleanup_directories R False paths)"

definition performTemporaryPathCleanup :: "'w remote \<Rightarrow> ('w job, bool) io" where
  "performTemporaryPathCleanup R =
     bind_io (read_io jb_temporaryPaths) (\<lambda>paths.
     bind_io (cleanup_paths R True (rev paths)) (\<lambda>(succeeded, stopped).
     if stopped then return_io False
     else bind_io (read_io jb_provisionalDirectories) (\<lambda>directories.
       cleanup_directories R succeeded (sort_by (\<lambda>left right. length right \<le> length left) directories))))"

section \<open>Running an operation\<close>

definition run_request :: "'w remote \<Rightarrow> archive_request \<Rightarrow> archive_format \<Rightarrow> ('w job, jstring list) io" where
  "run_request R request format =
     bind_io (getCapabilities R) (\<lambda>capabilities.
     bind_io (read_io jb_closed) (\<lambda>closed.
     if closed then throw_io (ArchiveFailure ArchiveUnsupported)
     else
       let supportedFormats = (case request of
             CompressRequest _ _ _ _ _ \<Rightarrow> createFormats capabilities
           | ExtractRequest _ _ _ \<Rightarrow> extractFormats capabilities)
       in if \<not> canExec capabilities \<or> format \<notin> set supportedFormats
          then throw_io (ArchiveFailure ArchiveUnsupported)
          else (case request of
              CompressRequest sources target name request_fmt level \<Rightarrow> runCompression R sources target name level format
            | ExtractRequest archive target mode \<Rightarrow> runExtraction R archive target mode format)))"

fun normalizeArchiveError :: "failure \<Rightarrow> archive_error_code" where
  "normalizeArchiveError (ArchiveFailure code) = code"
| "normalizeArchiveError _ = ArchiveOperationFailed"

text \<open>The \<open>catch\<close> block: the terminal state and the error recorded.\<close>

definition record_failure :: "failure \<Rightarrow> ('w job, operation_state) io" where
  "record_failure e = (\<lambda>j.
     case jb_forcedFailure j of
       Some code \<Rightarrow> Some (Inr Failed, j\<lparr>jb_errorCode := Some code\<rparr>)
     | None \<Rightarrow>
         if e = CancelledFailure \<or> jb_cancelRequested j then Some (Inr Cancelled, j)
         else Some (Inr Failed, j\<lparr>jb_errorCode := Some (normalizeArchiveError e)\<rparr>))"

definition begin_cleanup :: "'w job \<Rightarrow> 'w job" where
  "begin_cleanup j =
     j\<lparr>jb_state := (if jb_state j = AwaitingConflict then Running else jb_state j), jb_stage := Cleaning\<rparr>"

definition record_cleanup_failure :: "'w job \<Rightarrow> 'w job" where
  "record_cleanup_failure j =
     (if jb_errorCode j = None
      then j\<lparr>jb_errorCode := Some (if jb_cancelRequested j then ArchiveCancelFailed else ArchiveOperationFailed)\<rparr>
      else j)"

definition finish_operation :: "operation_state \<Rightarrow> 'w job \<Rightarrow> 'w job" where
  "finish_operation terminal j =
     j\<lparr>jb_state := terminal, jb_stage := Completed, jb_completions := jb_completions j @ [terminal]\<rparr>"

definition runOperation :: "'w remote \<Rightarrow> archive_request \<Rightarrow> archive_format \<Rightarrow> ('w job, unit) io" where
  "runOperation R request format =
     bind_io
       (catch_io
         (bind_io (run_request R request format) (\<lambda>resultPaths.
          then_io (modify_io (\<lambda>j. j\<lparr>jb_resultPaths := Some resultPaths\<rparr>)) (return_io Succeeded)))
         record_failure)
       (\<lambda>terminal.
        then_io (modify_io begin_cleanup)
        (bind_io (performTemporaryPathCleanup R) (\<lambda>cleaned.
         if cleaned then modify_io (finish_operation terminal)
         else then_io (modify_io record_cleanup_failure) (modify_io (finish_operation Failed)))))"

section \<open>Starting an operation\<close>

definition ARCHIVE_OPERATION_TIMEOUT_MS :: rat where "ARCHIVE_OPERATION_TIMEOUT_MS = 24 * 60 * 60 * 1000"

definition new_job :: "'w \<Rightarrow> rat \<Rightarrow> jstring list option \<Rightarrow> archive_capabilities option \<Rightarrow> bool \<Rightarrow> 'w job" where
  "new_job w deadlineAt tools capabilities isClosed =
     \<lparr>jb_world = w, jb_deadlineAt = deadlineAt, jb_state = Running, jb_stage = Preparing,
      jb_cancelRequested = False, jb_conflicts = None, jb_resultPaths = None, jb_errorCode = None,
      jb_forcedFailure = None, jb_temporaryPaths = [], jb_provisionalDirectories = [], jb_waiter = None,
      jb_closed = isClosed, jb_toolSet = tools, jb_capabilities = capabilities, jb_completions = []\<rparr>"

text \<open>
  \<open>busy\<close> tells whether the session has an active operation; \<open>deadlineAt\<close> is the deadline of the
  caller, \<open>now\<close> the clock and \<open>timeoutMs\<close> the limit of the service.
\<close>

definition startOperation ::
  "bool \<Rightarrow> archive_request \<Rightarrow> rat \<Rightarrow> rat \<Rightarrow> rat \<Rightarrow> 'w \<Rightarrow> jstring list option \<Rightarrow> archive_capabilities option \<Rightarrow> bool
     \<Rightarrow> archive_error_code + ('w job \<times> archive_format)" where
  "startOperation busy request deadlineAt now timeoutMs w tools capabilities isClosed =
     (if busy then Inl ArchiveBusy
      else case validateArchiveRequest request of
        Some code \<Rightarrow> Inl code
      | None \<Rightarrow>
          (case (case request of
                   CompressRequest _ _ _ format _ \<Rightarrow> Some format
                 | ExtractRequest archive _ _ \<Rightarrow> detectArchiveFormatFromName (posix_basename archive)) of
             None \<Rightarrow> Inl ArchiveUnsupported
           | Some format \<Rightarrow> Inr (new_job w (min deadlineAt (now + timeoutMs)) tools capabilities isClosed, format)))"

end
