(* ===== verification/ArchiveProofs.thy ===== *)
theory ArchiveProofs
  imports ArchiveRuns
begin

text \<open>
  Invariants of the procedures of the archive service, whatever the remote host answers and whichever
  handlers run while a procedure waits.
\<close>

section \<open>Invariants of procedures\<close>

definition keeps :: "('s \<Rightarrow> bool) \<Rightarrow> ('s, 'a) io \<Rightarrow> bool" where
  "keeps I m \<longleftrightarrow> (\<forall>s r s'. I s \<longrightarrow> m s = Some (r, s') \<longrightarrow> I s')"

named_theorems keeps_intros \<open>rules for invariants of procedures\<close>

lemma keepsI: "(\<And>s r s'. I s \<Longrightarrow> m s = Some (r, s') \<Longrightarrow> I s') \<Longrightarrow> keeps I m"
  by (auto simp: keeps_def)

lemma keepsD: "keeps I m \<Longrightarrow> I s \<Longrightarrow> m s = Some (r, s') \<Longrightarrow> I s'"
  by (auto simp: keeps_def)

lemma keeps_result: "keeps I m \<Longrightarrow> m s = Some y \<Longrightarrow> I s \<Longrightarrow> I (snd y)"
  by (cases y) (auto simp: keeps_def)

lemma keeps_alt: "keeps I m \<longleftrightarrow> (\<forall>s y. m s = Some y \<longrightarrow> I s \<longrightarrow> I (snd y))"
  by (force simp: keeps_def)

lemma keeps_simple [keeps_intros]:
  "keeps I (return_io x)" "keeps I (throw_io e)" "keeps I (read_io f)"
  by (auto simp: keeps_def io_defs)

lemma keeps_modify [keeps_intros]: "(\<And>s. I s \<Longrightarrow> I (f s)) \<Longrightarrow> keeps I (modify_io f)"
  by (auto simp: keeps_def io_defs)

lemma keeps_bind [keeps_intros]:
  assumes "keeps I m" and "\<And>x. keeps I (k x)"
  shows "keeps I (bind_io m k)"
proof (rule keepsI)
  fix s r s'
  assume s: "I s" and r: "bind_io m k s = Some (r, s')"
  from r obtain q t where q: "m s = Some (q, t)" by (auto simp: bind_io_def split: option.splits)
  with s have "I t" using keepsD [OF assms(1)] by blast
  with q r show "I s'" using keepsD [OF assms(2)] by (auto simp: bind_io_def split: sum.splits)
qed

lemma keeps_catch [keeps_intros]:
  assumes "keeps I m" and "\<And>e. keeps I (h e)"
  shows "keeps I (catch_io m h)"
proof (rule keepsI)
  fix s r s'
  assume s: "I s" and r: "catch_io m h s = Some (r, s')"
  from r obtain q t where q: "m s = Some (q, t)" by (auto simp: catch_io_def split: option.splits)
  with s have "I t" using keepsD [OF assms(1)] by blast
  with q r show "I s'" using keepsD [OF assms(2)] by (auto simp: catch_io_def split: sum.splits)
qed

lemma keeps_then [keeps_intros]: "keeps I m \<Longrightarrow> keeps I k \<Longrightarrow> keeps I (then_io m k)"
  unfolding then_io_def by (intro keeps_intros)

lemma keeps_if [keeps_intros]: "(b \<Longrightarrow> keeps I m) \<Longrightarrow> (\<not> b \<Longrightarrow> keeps I k) \<Longrightarrow> keeps I (if b then m else k)"
  by simp

lemma keeps_case_option [keeps_intros]:
  "(x = None \<Longrightarrow> keeps I m) \<Longrightarrow> (\<And>y. x = Some y \<Longrightarrow> keeps I (k y)) \<Longrightarrow>
     keeps I (case x of None \<Rightarrow> m | Some y \<Rightarrow> k y)"
  by (cases x) simp_all

lemma keeps_case_prod [keeps_intros]:
  "(\<And>a b. keeps I (k a b)) \<Longrightarrow> keeps I (case x of (a, b) \<Rightarrow> k a b)"
  by (cases x) simp

lemma keeps_for_each [keeps_intros]: "(\<And>x. keeps I (f x)) \<Longrightarrow> keeps I (for_each f xs)"
  by (induction xs) (auto intro: keeps_intros)

section \<open>What the environment cannot break\<close>

lemma handle_event_deadline [simp]: "jb_deadlineAt (handle_event e j) = jb_deadlineAt j"
  "jb_world (handle_event e j) = jb_world j"
  by (cases e; simp add: cancelOperation_def timeoutOperation_def handleTransportClosed_def resolve_waiter_def
      resolveConflict_def split: option.split)+

lemma apply_events_clock [simp]:
  "jb_deadlineAt (apply_events es w j) = jb_deadlineAt j" "jb_world (apply_events es w j) = w"
proof -
  have "jb_deadlineAt (fold handle_event es j) = jb_deadlineAt j" "jb_world (fold handle_event es j) = jb_world j"
    for j :: "'a job"
    by (induction es arbitrary: j) simp_all
  then show "jb_deadlineAt (apply_events es w j) = jb_deadlineAt j" "jb_world (apply_events es w j) = w"
    by (simp_all add: apply_events_def)
qed

text \<open>The invariant survives a request, with the handlers that run meanwhile.\<close>

definition answers :: "('w job \<Rightarrow> bool) \<Rightarrow> ('w, 'a) request \<Rightarrow> bool" where
  "answers I request \<longleftrightarrow> (\<forall>limit j r es w. I j \<longrightarrow> request limit (jb_world j) = (r, es, w) \<longrightarrow> I (apply_events es w j))"

lemma answers_any: "(\<And>es w j. I j \<Longrightarrow> I (apply_events es w j)) \<Longrightarrow> answers I request"
  by (simp add: answers_def)

lemma keeps_await: "answers I request \<Longrightarrow> keeps I (await limit request)"
  unfolding answers_def keeps_def await_def Let_def by (auto split: prod.splits option.splits)

lemma keeps_wait: "answers I request \<Longrightarrow> keeps I (waitForPromiseBeforeDeadline R request)"
  using keeps_await [of I request]
  by (auto simp: keeps_def waitForPromiseBeforeDeadline_def io_defs split: if_splits)

lemma keeps_command: "answers I (rm_command R command) \<Longrightarrow> keeps I (runRemoteCommand R command timeoutMs)"
  using keeps_await [of I "rm_command R command"]
  by (auto simp: keeps_def runRemoteCommand_def io_defs split: if_splits)

locale env_invariant =
  fixes R :: "'w remote" and I :: "'w job \<Rightarrow> bool"
  assumes requests: "answers I (rm_lstat R p)" "answers I (rm_readdir R p)" "answers I (rm_readlink R p)"
    "answers I (rm_rmdir R p)" "answers I (rm_unlink R p)" "answers I (rm_rename R p q)"
    "answers I (rm_readRange R p a b)"
begin

lemma keeps_requests:
  "keeps I (lstatRemote R p)" "keeps I (readdirRemote R p)" "keeps I (readlinkRemote R p)"
  "keeps I (rmdirRemote R p)" "keeps I (unlinkRemote R p)" "keeps I (renameRemote R p q)"
  "keeps I (readRemoteRange R p a b)"
  unfolding lstatRemote_def readdirRemote_def readlinkRemote_def rmdirRemote_def unlinkRemote_def renameRemote_def
    readRemoteRange_def
  by (intro keeps_wait requests)+

lemma keeps_active: "keeps I (assertOperationActive R)"
  by (auto simp: keeps_def assertOperationActive_def io_defs split: if_splits)

lemma keeps_no_check: "keeps I no_check"
  by (simp add: no_check_def keeps_simple)

lemmas keeps_env = keeps_intros keeps_requests keeps_active keeps_no_check

lemma keeps_pathExists: "keeps I (pathExists R p)"
  unfolding pathExists_def by (intro keeps_env)

lemma keeps_first_available: "keeps I (first_available R p ns)"
  by (induction ns) (auto intro!: keeps_env keeps_pathExists)

lemma keeps_findAvailablePath: "keeps I (findAvailablePath R p)"
  unfolding findAvailablePath_def by (intro keeps_env keeps_pathExists keeps_first_available)

lemma keeps_validateStagedTree:
  assumes "keeps I act"
  shows "keeps I (validateStagedTree R act staging known path)"
  unfolding keeps_alt [of I "validateStagedTree R act staging known path"]
proof (intro allI impI)
  fix s y
  assume s: "I s" and major: "validateStagedTree R act staging known path s = Some y"
  have "R = R \<longrightarrow> keeps I act \<longrightarrow> I s \<longrightarrow> I (snd y)"
  proof (rule validateStagedTree.raw_induct
      [where P = "\<lambda>Q act staging known path s y. Q = R \<longrightarrow> keeps I act \<longrightarrow> I s \<longrightarrow> I (snd y)", OF _ major], intro impI, goal_cases)
    case (1 f Q act staging known path s y)
    note 1 = 1(1) 1(2) [unfolded 1(3)] 1(4,5)
    then have "keeps I (f R act staging known path)" for known path
      unfolding keeps_alt by blast
    with 1(3) show ?case
      by - (rule keeps_result [where I = I and s = s and y = y, rotated], rule 1(2), rule 1(4), intro keeps_env)
  qed
  with assms s show "I (snd y)" by blast
qed

lemma keeps_removeRemoteTree:
  assumes "keeps I act"
  shows "keeps I (removeRemoteTree R act path)"
  unfolding keeps_alt [of I "removeRemoteTree R act path"]
proof (intro allI impI)
  fix s y
  assume s: "I s" and major: "removeRemoteTree R act path s = Some y"
  have "R = R \<longrightarrow> keeps I act \<longrightarrow> I s \<longrightarrow> I (snd y)"
  proof (rule removeRemoteTree.raw_induct
      [where P = "\<lambda>Q act path s y. Q = R \<longrightarrow> keeps I act \<longrightarrow> I s \<longrightarrow> I (snd y)", OF _ major], intro impI, goal_cases)
    case (1 f Q act path s y)
    note 1 = 1(1) 1(2) [unfolded 1(3)] 1(4,5)
    then have "keeps I (f R act path)" for path
      unfolding keeps_alt by blast
    with 1(3) show ?case
      by - (rule keeps_result [where I = I and s = s and y = y, rotated], rule 1(2), rule 1(4), intro keeps_env)
  qed
  with assms s show "I (snd y)" by blast
qed

lemma keeps_mergeRemoteEntry:
  assumes "keeps I act"
  shows "keeps I (mergeRemoteEntry R act source target)"
  unfolding keeps_alt [of I "mergeRemoteEntry R act source target"]
proof (intro allI impI)
  fix s y
  assume s: "I s" and major: "mergeRemoteEntry R act source target s = Some y"
  have "R = R \<longrightarrow> keeps I act \<longrightarrow> I s \<longrightarrow> I (snd y)"
  proof (rule mergeRemoteEntry.raw_induct
      [where P = "\<lambda>Q act source target s y. Q = R \<longrightarrow> keeps I act \<longrightarrow> I s \<longrightarrow> I (snd y)", OF _ major], intro impI, goal_cases)
    case (1 f Q act source target s y)
    note 1 = 1(1) 1(2) [unfolded 1(3)] 1(4,5)
    then have "keeps I (f R act source target)" for source target
      unfolding keeps_alt by blast
    with 1(3) show ?case
      by - (rule keeps_result [where I = I and s = s and y = y, rotated], rule 1(2), rule 1(4), intro keeps_env keeps_pathExists keeps_removeRemoteTree)
  qed
  with assms s show "I (snd y)" by blast
qed

end

section \<open>What the steps of a run change\<close>

text \<open>An invariant that survives the stages of a run, the caches and the wait for a decision.\<close>

locale step_keeping = env_invariant R I for R :: "'w remote" and I :: "'w job \<Rightarrow> bool" +
  assumes stage: "I j \<Longrightarrow> I (j\<lparr>jb_stage := st\<rparr>)"
    and tools: "I j \<Longrightarrow> I (j\<lparr>jb_toolSet := ts\<rparr>)"
    and capabilities: "I j \<Longrightarrow> I (j\<lparr>jb_capabilities := cs\<rparr>)"
    and drawn: "I j \<Longrightarrow> I (j\<lparr>jb_world := snd (rm_uuid R (jb_world j))\<rparr>)"
    and waiting: "I j \<Longrightarrow> I (j\<lparr>jb_state := AwaitingConflict, jb_stage := ConflictStage, jb_conflicts := Some c,
      jb_waiter := Some None\<rparr>)"
    and decided: "I j \<Longrightarrow> rm_awaitUser R limit (jb_world j) = (es, w) \<Longrightarrow> I (apply_events es w j)"
    and resumed: "I j \<Longrightarrow> I (j\<lparr>jb_waiter := None, jb_conflicts := None, jb_state := Running, jb_stage := Committing\<rparr>)"
    and probing: "answers I (rm_command R probe_command)"
begin

lemma keeps_caches:
  "keeps I (set_stage st)"
  "keeps I (modify_io (\<lambda>j. j\<lparr>jb_toolSet := ts\<rparr>))" "keeps I (modify_io (\<lambda>j. j\<lparr>jb_capabilities := cs\<rparr>))"
  unfolding set_stage_def by (auto intro!: keeps_modify simp: stage tools capabilities)

lemma keeps_randomUUID: "keeps I (randomUUID R)"
  using drawn by (fastforce simp: keeps_def randomUUID_def split: prod.splits)

lemmas keeps_steps = keeps_env keeps_caches keeps_randomUUID keeps_pathExists keeps_findAvailablePath

lemma keeps_checked: "answers I (rm_command R c) \<Longrightarrow> keeps I (runCheckedCommand R c)"
  unfolding runCheckedCommand_def by (intro keeps_steps keeps_command)

lemma keeps_getToolSet: "keeps I (getToolSet R)"
  unfolding getToolSet_def probeToolSet_def by (intro keeps_steps keeps_command probing)

lemma keeps_getCapabilities: "keeps I (getCapabilities R)"
  unfolding getCapabilities_def by (intro keeps_steps keeps_getToolSet)

lemma keeps_validateArchiveHeader: "keeps I (validateArchiveHeader R p f)"
  unfolding validateArchiveHeader_def by (intro keeps_steps)

lemma keeps_check_sources: "keeps I (check_sources R ps)"
  by (induction ps) (auto intro!: keeps_steps)

lemma keeps_inputs: "keeps I (assertCompressionInputs R ss t p)"
  unfolding assertCompressionInputs_def by (intro keeps_steps keeps_check_sources)

lemma keeps_waitForConflicts: "keeps I (waitForConflicts R c)"
  unfolding keeps_def waitForConflicts_def Let_def
  by (auto simp: split_beta intro!: resumed waiting decided [where w = "snd x" and es = "fst x" for x] split: if_splits)

lemma keeps_find_conflicts: "keeps I (find_conflicts R s t found es)"
  by (induction es arbitrary: found) (auto simp: Let_def intro!: keeps_steps)

lemma keeps_merge: "keeps I (mergeRemoteEntry R (assertOperationActive R) s t)"
  by (rule keeps_mergeRemoteEntry) (rule keeps_active)

lemma keeps_remove: "keeps I (removeRemoteTree R no_check p)"
  by (rule keeps_removeRemoteTree) (rule keeps_no_check)

lemma keeps_commit_entries: "keeps I (commit_entries R s t r results es)"
  by (induction es arbitrary: results) (auto simp: Let_def intro!: keeps_steps keeps_merge)

lemma keeps_missing_paths: "keeps I (missing_paths R cursor missing)"
  unfolding keeps_alt [of I "missing_paths R cursor missing"]
proof (intro allI impI)
  fix s y
  assume s: "I s" and major: "missing_paths R cursor missing s = Some y"
  have "R = R \<longrightarrow> I s \<longrightarrow> I (snd y)"
  proof (rule missing_paths.raw_induct
      [where P = "\<lambda>Q cursor missing s y. Q = R \<longrightarrow> I s \<longrightarrow> I (snd y)", OF _ major], intro impI, goal_cases)
    case (1 f Q cursor missing s y)
    note 1 = 1(1) 1(2) [unfolded 1(3)] 1(4)
    then have "keeps I (f R cursor missing)" for cursor missing
      unfolding keeps_alt by blast
    then show ?case
      by - (rule keeps_result [where I = I and s = s and y = y, rotated], rule 1(2), rule 1(3), intro keeps_steps)
  qed
  with s show "I (snd y)" by blast
qed

end

section \<open>What a run changes\<close>

text \<open>An invariant that also survives the bookkeeping of a run, new directories and every command.\<close>

locale job_invariant = step_keeping R I for R :: "'w remote" and I :: "'w job \<Rightarrow> bool" +
  assumes temporary: "I j \<Longrightarrow> I (j\<lparr>jb_temporaryPaths := ps\<rparr>)"
    and provisional: "I j \<Longrightarrow> I (j\<lparr>jb_provisionalDirectories := ps\<rparr>)"
    and creating: "answers I (rm_mkdir R p m)"
    and commanding: "answers I (rm_command R c)"
begin

lemma keeps_bookkeeping:
  "keeps I (add_temporary p)" "keeps I (remove_temporary p)"
  "keeps I (remove_provisional p)" "keeps I (modify_io (add_provisional p))"
  unfolding add_temporary_def remove_temporary_def remove_provisional_def
  by (auto intro!: keeps_modify simp: temporary provisional add_provisional_def)

lemma keeps_mkdir: "keeps I (mkdirRemote R p m)"
  unfolding mkdirRemote_def by (intro keeps_wait creating)

lemma keeps_runCheckedCommand: "keeps I (runCheckedCommand R c)"
  by (intro keeps_checked commanding)

lemmas keeps_job = keeps_steps keeps_bookkeeping keeps_mkdir keeps_runCheckedCommand

lemma keeps_listArchiveMembers: "keeps I (listArchiveMembers R p f ts)"
  unfolding listArchiveMembers_def by (intro keeps_job)

lemma keeps_runCompression: "keeps I (runCompression R ss t n l f)"
  unfolding runCompression_def Let_def
  by (intro keeps_job keeps_getToolSet keeps_inputs)

lemma keeps_commit_unique: "keeps I (commit_unique R s p)"
  unfolding commit_unique_def by (intro keeps_job)

lemma keeps_commitExtractedEntries: "keeps I (commitExtractedEntries R s t a m)"
  unfolding commitExtractedEntries_def Let_def
  by (intro keeps_job keeps_commit_unique keeps_waitForConflicts keeps_find_conflicts keeps_commit_entries
      keeps_merge keeps_remove)

lemma keeps_create_missing: "keeps I (create_missing R created ps)"
  by (induction ps arbitrary: created) (auto intro!: keeps_job)

lemma keeps_ensureRemoteDirectory: "keeps I (ensureRemoteDirectory R p)"
  unfolding ensureRemoteDirectory_def by (intro keeps_job keeps_missing_paths keeps_create_missing)

lemma keeps_extract_into: "keeps I (extract_into R a p f e ts m d)"
  unfolding extract_into_def Let_def
  by (intro keeps_job keeps_listArchiveMembers keeps_validateStagedTree
      keeps_commitExtractedEntries)

lemma keeps_runExtraction: "keeps I (runExtraction R a t m f)"
  unfolding runExtraction_def Let_def
  by (intro keeps_job keeps_ensureRemoteDirectory keeps_validateArchiveHeader keeps_getToolSet
      keeps_extract_into)

lemma keeps_run_request: "keeps I (run_request R request f)"
  unfolding run_request_def Let_def
  by (cases request)
    (auto intro!: keeps_job keeps_getCapabilities keeps_runCompression keeps_runExtraction)

lemma keeps_cleanup_paths: "keeps I (cleanup_paths R ok ps)"
  by (induction ps arbitrary: ok) (auto intro!: keeps_job keeps_remove)

lemma keeps_cleanup_directories: "keeps I (cleanup_directories R ok ps)"
  by (induction ps arbitrary: ok) (auto intro!: keeps_job)

lemma keeps_cleanup: "keeps I (performTemporaryPathCleanup R)"
  unfolding performTemporaryPathCleanup_def
  by (intro keeps_job keeps_cleanup_paths keeps_cleanup_directories)

end

end
