(* ===== verification/PathsBelow.thy ===== *)
theory PathsBelow
  imports PosixNames
begin

text \<open>
  How the length of a path changes when a name is joined to it, and when its last name is dropped: the
  measures of the recursions over remote trees.
\<close>
lemma push_segment_fixed:
  assumes "foldl (push_segment allow) [] st = st"
  shows "foldl (push_segment allow) [] (push_segment allow st seg) = push_segment allow st seg"
proof (cases "seg = dotdot \<and> st \<noteq> [] \<and> last st \<noteq> dotdot")
  case True
  then obtain ys y where st: "st = ys @ [y]" by (cases st rule: rev_cases) auto
  have short: "length (foldl (push_segment allow) zs xs) \<le> length zs + length xs" for zs xs
  proof (induction xs arbitrary: zs)
    case (Cons x xs)
    have "length (push_segment allow zs x) \<le> Suc (length zs)" by (auto simp: push_segment_def)
    then show ?case using Cons.IH [of "push_segment allow zs x"] by simp
  qed simp
  have push: "push_segment allow (foldl (push_segment allow) [] ys) y = ys @ [y]" using assms st by simp
  have "foldl (push_segment allow) [] ys = ys"
    using push short [of "[]" ys] True st by (auto simp: push_segment_def split: if_splits)
  then show ?thesis using True st by (simp add: push_segment_def)
next
  case False
  have snoc: "foldl (push_segment allow) [] (st @ [x]) = push_segment allow st x" for x
    using assms by simp
  show ?thesis
  proof (cases "push_segment allow st seg = st")
    case True
    then show ?thesis using assms by simp
  next
    case keep: False
    then have "push_segment allow st seg = st @ [seg]"
      using False by (auto simp: push_segment_def split: if_splits)
    then show ?thesis using snoc [of seg] by simp
  qed
qed

lemma normalize_segments_again [simp]:
  "normalize_segments allow (normalize_segments allow xs) = normalize_segments allow xs"
proof -
  have "foldl (push_segment allow) [] (foldl (push_segment allow) st xs) = foldl (push_segment allow) st xs"
    if "foldl (push_segment allow) [] st = st" for st
    using that by (induction xs arbitrary: st) (simp_all add: push_segment_fixed)
  then show ?thesis by (simp add: normalize_segments_def)
qed

text \<open>The normal form of a path with at least one segment.\<close>

definition path_of :: "bool \<Rightarrow> jstring list \<Rightarrow> jstring" where
  "path_of absolute xs = (if absolute then slash # join_with slash xs else join_with slash xs)"

definition normal_path :: "jstring \<Rightarrow> bool" where
  "normal_path p \<longleftrightarrow> (\<exists>absolute xs. p = path_of absolute xs \<and> xs \<noteq> [] \<and> normalize_segments (\<not> absolute) xs = xs \<and>
     (\<forall>x\<in>set xs. x \<noteq> [] \<and> slash \<notin> set x))"

lemma join_with_snoc: "xs \<noteq> [] \<Longrightarrow> join_with d (xs @ [x]) = join_with d xs @ d # x"
  by (induction xs rule: join_with.induct) simp_all

lemma join_with_parts: "xs \<noteq> [] \<Longrightarrow> \<forall>x\<in>set xs. x \<noteq> [] \<Longrightarrow> join_with d xs \<noteq> []"
  by (induction xs rule: join_with.induct) auto

lemma join_below:
  assumes "plain_segment n"
  shows "posix_join [p, n] =
    path_of (starts_with p [slash]) (normalize_segments (\<not> starts_with p [slash]) (split_on slash p) @ [n])"
proof -
  have n: "n \<noteq> []" "last n \<noteq> slash" "hd n \<noteq> slash" "slash \<notin> set n"
    using assms by (auto simp: plain_segment_def dest: last_in_set hd_in_set)
  have push: "normalize_segments allow (xs @ [n]) = normalize_segments allow xs @ [n]" for allow xs
    using assms by (simp add: normalize_segments_def push_segment_def plain_segment_def)
  show ?thesis
  proof (cases "p = []")
    case True
    have "normalize_segments True (split_on slash n) = [n]"
      using n push [of True "[]"] by (simp add: split_on_plain normalize_segments_def)
    moreover have "normalize_segments True (split_on slash []) = []" by (simp add: normalize_segments_def push_segment_def)
    ultimately show ?thesis
      using n True by (simp add: posix_join_def posix_normalize_def Let_def path_of_def)
  next
    case False
    let ?q = "p @ slash # n"
    have hd: "hd ?q = slash \<longleftrightarrow> starts_with p [slash]" using False by (cases p) (auto simp: prefix_Cons)
    have "split_on slash ?q = split_on slash p @ [n]"
      using n by (simp add: split_on_prefix_sep split_on_plain)
    moreover have "join_with slash (xs @ [n]) \<noteq> []" for xs
      using n by (cases "xs = []") (simp_all add: join_with_snoc)
    ultimately show ?thesis
      using n False hd by (simp add: posix_join_def posix_normalize_def Let_def path_of_def push)
  qed
qed

lemma normalized_parts: "x \<in> set (normalize_segments allow (split_on slash p)) \<Longrightarrow> x \<noteq> [] \<and> slash \<notin> set x"
  by (rule normalize_segments_parts [where segs = "split_on slash p" and allow = allow]) (simp_all add: split_on_no_sep)

lemma normal_path_below: "plain_segment n \<Longrightarrow> normal_path (posix_join [p, n])"
  unfolding normal_path_def join_below
  by (rule exI, rule exI, rule conjI, rule refl)
    (auto simp: normalize_segments_def push_segment_def plain_segment_def
      dest: normalized_parts [unfolded normalize_segments_def]
      simp: normalize_segments_again [unfolded normalize_segments_def])

lemma longer_below:
  assumes "normal_path p" and "plain_segment n"
  shows "length p < length (posix_join [p, n])"
proof -
  obtain absolute xs where p: "p = path_of absolute xs" "xs \<noteq> []" "normalize_segments (\<not> absolute) xs = xs"
    "\<forall>x\<in>set xs. x \<noteq> [] \<and> slash \<notin> set x"
    using assms(1) by (auto simp: normal_path_def)
  have start: "starts_with p [slash] \<longleftrightarrow> absolute"
    using p(1,4) starts_join_with [of xs] by (simp add: path_of_def)
  have "normalize_segments (\<not> absolute) (split_on slash p) = xs"
    using p split_join [of xs slash] by (cases absolute) (simp_all add: path_of_def normalize_segments_Nil_Cons)
  then have "posix_join [p, n] = path_of absolute (xs @ [n])"
    using join_below [OF assms(2), of p] start by simp
  then show ?thesis using p(1,2) by (simp add: path_of_def join_with_snoc)
qed

text \<open>The directory of an absolute path is shorter.\<close>
lemma shorter_above:
  assumes "starts_with p [slash]" and "p \<noteq> [slash]"
  shows "length (posix_dirname p) < length p \<and> starts_with (posix_dirname p) [slash]"
proof -
  obtain t where p: "p = slash # t" and t: "t \<noteq> []" using assms by (cases p) auto
  define before where "before = dropWhile (\<lambda>c. c \<noteq> slash) (dropWhile (\<lambda>c. c = slash) (rev p))"
  have suf: "suffix before (rev p)" unfolding before_def by (rule suffix_order.trans [OF suffix_dropWhile suffix_dropWhile])
  have len: "length (tl before) < length p"
    using suffix_length_le [OF suf] p by (cases before) simp_all
  have "p \<noteq> []" and "hd p = slash" and two: "1 < length p" using p t by simp_all
  then have dir: "posix_dirname p = (if tl before = [] then [slash] else if length (tl before) = 1 then [slash, slash] else rev (tl before))"
    by (simp add: posix_dirname_def before_def Let_def)
  show ?thesis
  proof (cases "tl before = []")
    case True
    then show ?thesis using two by (simp add: dir)
  next
    case False
    then obtain xs where before: "before = slash # xs" "xs \<noteq> []"
      using hd_dropWhile [of "\<lambda>c. c \<noteq> slash" "dropWhile (\<lambda>c. c = slash) (rev p)"] unfolding before_def [symmetric]
      by (cases before) auto
    obtain ys where ys: "rev p = ys @ slash # xs" using suf before by (auto simp: suffix_def)
    have q: "p = rev xs @ slash # rev ys" using arg_cong [OF ys, of rev] by simp
    then have hd: "hd (rev xs) = slash" using p before(2) by (cases "rev xs") auto
    have "ys \<noteq> []"
    proof
      assume "ys = []"
      then have "rev p = before" using ys before by simp
      moreover have "length before \<le> length (dropWhile (\<lambda>c. c = slash) (rev p))" unfolding before_def by (rule length_dropWhile_le)
      moreover have "length (dropWhile (\<lambda>c. c = slash) (rev p)) < length (rev p)"
        using \<open>ys = []\<close> ys length_dropWhile_le [of "\<lambda>c. c = slash" xs] by simp
      ultimately show False by (metis not_less)
    qed
    then have "2 < length p \<or> length xs \<noteq> 1" by (cases ys) (auto simp: q)
    moreover have "starts_with (rev xs) [slash]" using hd before(2) by (cases "rev xs") auto
    ultimately show ?thesis using len before by (auto simp: dir)
  qed
qed

end
