(* ===== verification/ArchiveTermination.thy ===== *)
theory ArchiveTermination
  imports ArchiveProofs PathsBelow
begin

text \<open>
  Every archive operation returns, and when: a recursion into a directory lengthens the path, which the
  remote host bounds, and every wait has a limit.  \<open>punctual_remote\<close> states what is relied on;
  \<open>ends_by k m\<close> says that \<open>m\<close> returns and bounds the clock then, \<open>k\<close> probes of the tools being among its waits.
\<close>

section \<open>What is relied on\<close>

text \<open>
  A timer does not fire much later than it is due: a wait ends at most \<open>slack\<close> milliseconds after its limit.
\<close>

definition timely :: "rat \<Rightarrow> 'w remote \<Rightarrow> ('w, 'a) request \<Rightarrow> bool" where
  "timely slack R request \<longleftrightarrow>
     (\<forall>limit w. rm_now R (snd (snd (request limit w))) \<le> max (rm_now R w) limit + slack)"

text \<open>No time passes while an identifier is drawn.\<close>

definition punctual :: "rat \<Rightarrow> 'w remote \<Rightarrow> bool" where
  "punctual slack R \<longleftrightarrow> 0 \<le> slack \<and>
     (\<forall>p. timely slack R (rm_lstat R p)) \<and> (\<forall>p. timely slack R (rm_readdir R p)) \<and>
     (\<forall>p. timely slack R (rm_readlink R p)) \<and> (\<forall>p m. timely slack R (rm_mkdir R p m)) \<and>
     (\<forall>p. timely slack R (rm_rmdir R p)) \<and> (\<forall>p. timely slack R (rm_unlink R p)) \<and>
     (\<forall>p q. timely slack R (rm_rename R p q)) \<and> (\<forall>p a b. timely slack R (rm_readRange R p a b)) \<and>
     (\<forall>c. timely slack R (rm_command R c)) \<and>
     (\<forall>limit w. rm_now R (snd (rm_awaitUser R limit w)) \<le> max (rm_now R w) limit + slack) \<and>
     (\<forall>w. rm_now R (snd (rm_uuid R w)) = rm_now R w)"

text \<open>
  The entries of a directory are single names other than \<open>.\<close> and \<open>..\<close>, which the client leaves out, and the
  host has a limit on the length of a path.
\<close>

definition bounded_paths :: "nat \<Rightarrow> 'w remote \<Rightarrow> bool" where
  "bounded_paths pathMax R \<longleftrightarrow>
     (\<forall>p limit w es. fst (rm_readdir R p limit w) = Some (Inr es) \<longrightarrow>
        length p \<le> pathMax \<and> (\<forall>e\<in>set es. plain_segment (fst e)))"

section \<open>Procedures that return\<close>

named_theorems ends_intros \<open>rules for procedures that return\<close>

locale punctual_remote =
  fixes R :: "'w remote" and slack :: rat and pathMax :: nat
  assumes punctual: "punctual slack R" and bounded: "bounded_paths pathMax R"
begin

definition allowance :: "nat \<Rightarrow> rat" where
  "allowance k = of_nat k * (ARCHIVE_PROBE_TIMEOUT_MS + slack)"

definition ends_by :: "nat \<Rightarrow> ('w job, 'a) io \<Rightarrow> bool" where
  "ends_by k m \<longleftrightarrow> (\<forall>j. \<exists>r j'. m j = Some (r, j') \<and> jb_deadlineAt j' = jb_deadlineAt j \<and>
     rm_now R (jb_world j') \<le> max (rm_now R (jb_world j)) (jb_deadlineAt j + slack) + allowance k)"

lemma slack_nonneg: "0 \<le> slack" "0 \<le> allowance k" "allowance 0 = 0" "allowance (k + l) = allowance k + allowance l"
proof -
  show "0 \<le> slack" using punctual by (simp add: punctual_def)
  then show "0 \<le> allowance k" by (simp add: allowance_def ARCHIVE_PROBE_TIMEOUT_MS_def)
qed (simp_all add: allowance_def algebra_simps)

lemma endsE:
  assumes "ends_by k m"
  obtains r j' where "m j = Some (r, j')" and "jb_deadlineAt j' = jb_deadlineAt j"
    and "rm_now R (jb_world j') \<le> max (rm_now R (jb_world j)) (jb_deadlineAt j + slack) + allowance k"
  using assms unfolding ends_by_def by blast

lemma ends_weaken: "ends_by 0 m \<Longrightarrow> ends_by k m"
  unfolding ends_by_def slack_nonneg(3)
proof (intro allI)
  fix j
  assume "\<forall>j. \<exists>r j'. m j = Some (r, j') \<and> jb_deadlineAt j' = jb_deadlineAt j \<and>
     rm_now R (jb_world j') \<le> max (rm_now R (jb_world j)) (jb_deadlineAt j + slack) + 0"
  then obtain r j' where "m j = Some (r, j')" "jb_deadlineAt j' = jb_deadlineAt j"
    "rm_now R (jb_world j') \<le> max (rm_now R (jb_world j)) (jb_deadlineAt j + slack)"
    by fastforce
  then show "\<exists>r j'. m j = Some (r, j') \<and> jb_deadlineAt j' = jb_deadlineAt j \<and>
     rm_now R (jb_world j') \<le> max (rm_now R (jb_world j)) (jb_deadlineAt j + slack) + allowance k"
    using slack_nonneg(2) [of k] by (intro exI [of _ r] exI [of _ j']) simp
qed

lemma ends_same:
  assumes "\<And>j. \<exists>r j'. m j = Some (r, j') \<and> jb_deadlineAt j' = jb_deadlineAt j \<and>
    rm_now R (jb_world j') = rm_now R (jb_world j)"
  shows "ends_by k m"
  unfolding ends_by_def using assms slack_nonneg(2) [of k] by (metis add_increasing2 max.cobounded1)

lemma ends_simple [ends_intros]:
  "ends_by k (return_io x)" "ends_by k (throw_io e)" "ends_by k (read_io f)"
  by (rule ends_same, simp add: io_defs)+

lemma ends_modify:
  "(\<And>j. jb_world (f j) = jb_world j \<and> jb_deadlineAt (f j) = jb_deadlineAt j) \<Longrightarrow> ends_by k (modify_io f)"
  by (rule ends_same) (simp add: io_defs)

lemma ends_bind_value:
  assumes "ends_by k m" and "\<And>x j j'. m j = Some (Inr x, j') \<Longrightarrow> ends_by l (f x)"
  shows "ends_by (k + l) (bind_io m f)"
  unfolding ends_by_def
proof
  fix j
  obtain r j1 where r: "m j = Some (r, j1)" "jb_deadlineAt j1 = jb_deadlineAt j"
    "rm_now R (jb_world j1) \<le> max (rm_now R (jb_world j)) (jb_deadlineAt j + slack) + allowance k"
    by (rule endsE [OF assms(1)])
  show "\<exists>r j'. bind_io m f j = Some (r, j') \<and> jb_deadlineAt j' = jb_deadlineAt j \<and>
      rm_now R (jb_world j') \<le> max (rm_now R (jb_world j)) (jb_deadlineAt j + slack) + allowance (k + l)"
  proof (cases r)
    case (Inl e)
    then show ?thesis using r slack_nonneg(2) [of l] by (simp add: bind_io_def slack_nonneg(4))
  next
    case (Inr x)
    have "ends_by l (f x)" using r(1) Inr by (intro assms(2)) simp
    then obtain q j2 where q: "f x j1 = Some (q, j2)" "jb_deadlineAt j2 = jb_deadlineAt j1"
      "rm_now R (jb_world j2) \<le> max (rm_now R (jb_world j1)) (jb_deadlineAt j1 + slack) + allowance l"
      by (rule endsE)
    moreover have "rm_now R (jb_world j2) \<le>
        max (rm_now R (jb_world j)) (jb_deadlineAt j + slack) + allowance (k + l)"
      using q(3) r(2,3) slack_nonneg(2) [of k] unfolding slack_nonneg(4) by (simp add: max_def split: if_splits)
    ultimately show ?thesis using r Inr by (simp add: bind_io_def)
  qed
qed

lemma ends_bind: "ends_by k m \<Longrightarrow> (\<And>x. ends_by l (f x)) \<Longrightarrow> ends_by (k + l) (bind_io m f)"
  by (rule ends_bind_value)

lemma ends_bind_early [ends_intros]: "ends_by 0 m \<Longrightarrow> (\<And>x. ends_by k (f x)) \<Longrightarrow> ends_by k (bind_io m f)"
  using ends_bind [of 0 m k f] by simp

lemma ends_then [ends_intros]: "ends_by 0 m \<Longrightarrow> ends_by k f \<Longrightarrow> ends_by k (then_io m f)"
  unfolding then_io_def by (rule ends_bind_early)

lemma ends_catch_late:
  assumes "ends_by k m" and "\<And>e. ends_by l (h e)"
  shows "ends_by (k + l) (catch_io m h)"
  unfolding ends_by_def
proof
  fix j
  obtain r j1 where r: "m j = Some (r, j1)" "jb_deadlineAt j1 = jb_deadlineAt j"
    "rm_now R (jb_world j1) \<le> max (rm_now R (jb_world j)) (jb_deadlineAt j + slack) + allowance k"
    by (rule endsE [OF assms(1)])
  show "\<exists>r j'. catch_io m h j = Some (r, j') \<and> jb_deadlineAt j' = jb_deadlineAt j \<and>
      rm_now R (jb_world j') \<le> max (rm_now R (jb_world j)) (jb_deadlineAt j + slack) + allowance (k + l)"
  proof (cases r)
    case (Inr x)
    then show ?thesis using r slack_nonneg(2) [of l] by (simp add: catch_io_def slack_nonneg(4))
  next
    case (Inl e)
    obtain q j2 where q: "h e j1 = Some (q, j2)" "jb_deadlineAt j2 = jb_deadlineAt j1"
      "rm_now R (jb_world j2) \<le> max (rm_now R (jb_world j1)) (jb_deadlineAt j1 + slack) + allowance l"
      by (rule endsE [OF assms(2) [of e]])
    moreover have "rm_now R (jb_world j2) \<le>
        max (rm_now R (jb_world j)) (jb_deadlineAt j + slack) + allowance (k + l)"
      using q(3) r(2,3) slack_nonneg(2) [of k] unfolding slack_nonneg(4) by (simp add: max_def split: if_splits)
    ultimately show ?thesis using r Inl by (simp add: catch_io_def)
  qed
qed

lemma ends_catch [ends_intros]: "ends_by k m \<Longrightarrow> (\<And>e. ends_by 0 (h e)) \<Longrightarrow> ends_by k (catch_io m h)"
  using ends_catch_late [of k m 0 h] by simp

lemma ends_if [ends_intros]: "(b \<Longrightarrow> ends_by k m) \<Longrightarrow> (\<not> b \<Longrightarrow> ends_by k f) \<Longrightarrow> ends_by k (if b then m else f)"
  by simp

lemma ends_case_option [ends_intros]:
  "(x = None \<Longrightarrow> ends_by k m) \<Longrightarrow> (\<And>y. x = Some y \<Longrightarrow> ends_by k (f y)) \<Longrightarrow>
     ends_by k (case x of None \<Rightarrow> m | Some y \<Rightarrow> f y)"
  by (cases x) simp_all

lemma ends_case_prod [ends_intros]: "(\<And>a b. ends_by k (f a b)) \<Longrightarrow> ends_by k (case x of (a, b) \<Rightarrow> f a b)"
  by (cases x) simp

lemma ends_for_each_set: "(\<And>x. x \<in> set xs \<Longrightarrow> ends_by 0 (f x)) \<Longrightarrow> ends_by 0 (for_each f xs)"
  by (induction xs) (auto intro: ends_intros)

lemma ends_for_each [ends_intros]: "(\<And>x. ends_by 0 (f x)) \<Longrightarrow> ends_by 0 (for_each f xs)"
  by (rule ends_for_each_set)

section \<open>Requests\<close>

lemma wait_ends:
  assumes "timely slack R request"
  shows "ends_by 0 (waitForPromiseBeforeDeadline R request)"
  unfolding ends_by_def slack_nonneg(3)
proof
  fix j
  show "\<exists>r j'. waitForPromiseBeforeDeadline R request j = Some (r, j') \<and> jb_deadlineAt j' = jb_deadlineAt j \<and>
      rm_now R (jb_world j') \<le> max (rm_now R (jb_world j)) (jb_deadlineAt j + slack) + 0"
  proof (cases "remainingDuration R j = 0")
    case False
    then have limit: "rm_now R (jb_world j) \<le> jb_deadlineAt j" by (auto simp: remainingDuration_def max_def split: if_splits)
    obtain r es w where rq: "request (jb_deadlineAt j) (jb_world j) = (r, es, w)" by (rule prod_cases3)
    then have "rm_now R w \<le> max (rm_now R (jb_world j)) (jb_deadlineAt j) + slack"
      using assms unfolding timely_def by (metis snd_conv)
    then show ?thesis using False limit rq by (simp add: waitForPromiseBeforeDeadline_def await_def max_def)
  qed (simp add: waitForPromiseBeforeDeadline_def throw_io_def)
qed

lemma requests_timely:
  "timely slack R (rm_lstat R p)" "timely slack R (rm_readdir R p)" "timely slack R (rm_readlink R p)"
  "timely slack R (rm_mkdir R p m)" "timely slack R (rm_rmdir R p)" "timely slack R (rm_unlink R p)"
  "timely slack R (rm_rename R p q)" "timely slack R (rm_readRange R p a b)" "timely slack R (rm_command R c)"
  using punctual by (auto simp: punctual_def)

lemma requests_end [ends_intros]:
  "ends_by 0 (lstatRemote R p)" "ends_by 0 (readdirRemote R p)" "ends_by 0 (readlinkRemote R p)"
  "ends_by 0 (mkdirRemote R p m)" "ends_by 0 (rmdirRemote R p)" "ends_by 0 (unlinkRemote R p)"
  "ends_by 0 (renameRemote R p q)" "ends_by 0 (readRemoteRange R p a b)"
  unfolding lstatRemote_def readdirRemote_def readlinkRemote_def mkdirRemote_def rmdirRemote_def
    unlinkRemote_def renameRemote_def readRemoteRange_def
  by (intro wait_ends requests_timely)+

lemma active_ends [ends_intros]: "ends_by k (assertOperationActive R)" "ends_by k no_check"
  by (rule ends_same, simp add: assertOperationActive_def no_check_def io_defs)+

lemma pathExists_ends [ends_intros]: "ends_by 0 (pathExists R p)"
  unfolding pathExists_def by (intro ends_intros)

lemma findAvailablePath_ends [ends_intros]: "ends_by 0 (findAvailablePath R p)"
proof -
  have "ends_by 0 (first_available R p ns)" for ns
    by (induction ns) (auto intro!: ends_intros)
  then show ?thesis unfolding findAvailablePath_def by (intro ends_intros)
qed

section \<open>Recursions over the remote tree\<close>

text \<open>A procedure that goes on below a directory: the entries have single names, and the path was not too long.\<close>
lemma readdir_plain:
  assumes "readdirRemote R p j = Some (Inr es, j')" and "e \<in> set es"
  shows "length p \<le> pathMax" and "plain_segment (fst e)"
proof -
  have "fst (rm_readdir R p (jb_deadlineAt j) (jb_world j)) = Some (Inr es)"
    using assms(1) by (auto simp: readdirRemote_def waitForPromiseBeforeDeadline_def await_def throw_io_def
        split: if_splits prod.splits option.splits)
  then show "length p \<le> pathMax" and "plain_segment (fst e)"
    using bounded assms(2) unfolding bounded_paths_def by blast+
qed

lemma ends_below:
  assumes "\<And>es. (\<And>e. e \<in> set es \<Longrightarrow> length p \<le> pathMax \<and> plain_segment (fst e)) \<Longrightarrow> ends_by 0 (f es)"
  shows "ends_by 0 (bind_io (readdirRemote R p) f)"
proof -
  have "ends_by (0 + 0) (bind_io (readdirRemote R p) f)"
  proof (rule ends_bind_value [OF requests_end(2)], rule assms, rule conjI)
    fix es j j' e
    assume "readdirRemote R p j = Some (Inr es, j')" and "e \<in> set es"
    then show "length p \<le> pathMax" and "plain_segment (fst e)" by (rule readdir_plain)+
  qed
  then show ?thesis by simp
qed

text \<open>Below a path of normal form the names make every path longer; the first step makes any path normal.\<close>
lemma tree_induct:
  assumes step: "\<And>p. (\<And>n. length p \<le> pathMax \<Longrightarrow> plain_segment n \<Longrightarrow> P (posix_join [p, n])) \<Longrightarrow> P p"
  shows "P p"
proof -
  have normal: "normal_path p \<Longrightarrow> P p" for p
  proof (induction "Suc pathMax - length p" arbitrary: p rule: less_induct)
    case less
    show ?case
    proof (rule step)
      fix n
      assume n: "length p \<le> pathMax" "plain_segment n"
      then have "Suc pathMax - length (posix_join [p, n]) < Suc pathMax - length p"
        using longer_below [OF less.prems n(2)] by linarith
      then show "P (posix_join [p, n])" by (rule less.hyps) (rule normal_path_below [OF n(2)])
    qed
  qed
  show "P p" by (rule step) (rule normal, rule normal_path_below)
qed

lemma validateStagedTree_ends:
  assumes "ends_by 0 act"
  shows "ends_by 0 (validateStagedTree R act staging known path)"
proof (induction path arbitrary: known rule: tree_induct)
  case (1 path)
  have "ends_by 0 (\<lambda>s. validateStagedTree R act staging known path s)"
    unfolding validateStagedTree.simps [of R act staging known path]
    by (intro ends_below ends_for_each_set ends_intros assms 1) auto
  then show ?case by simp
qed

lemma removeRemoteTree_ends:
  assumes "ends_by 0 act"
  shows "ends_by 0 (removeRemoteTree R act path)"
proof (induction path rule: tree_induct)
  case (1 path)
  have "ends_by 0 (\<lambda>s. removeRemoteTree R act path s)"
    unfolding removeRemoteTree.simps [of R act path]
    by (intro ends_below ends_for_each_set ends_intros assms 1) auto
  then show ?case by simp
qed

lemma mergeRemoteEntry_ends:
  assumes "ends_by 0 act"
  shows "ends_by 0 (mergeRemoteEntry R act source target)"
proof (induction source arbitrary: target rule: tree_induct)
  case (1 source)
  have "ends_by 0 (\<lambda>s. mergeRemoteEntry R act source target s)"
    unfolding mergeRemoteEntry.simps [of R act source target]
    by (intro ends_below ends_for_each_set ends_intros assms 1 removeRemoteTree_ends) auto
  then show ?case by simp
qed

lemma missing_paths_ends: "starts_with cursor [slash] \<Longrightarrow> ends_by 0 (missing_paths R cursor missing)"
proof (induction "length cursor" arbitrary: cursor missing rule: less_induct)
  case less
  have "ends_by 0 (\<lambda>s. missing_paths R cursor missing s)"
    unfolding missing_paths.simps [of R cursor missing]
    by (intro ends_intros less) (use shorter_above [OF less.prems] in auto)
  then show ?case by simp
qed

section \<open>The steps of a run\<close>

lemma bookkeeping_ends [ends_intros]:
  "ends_by k (set_stage st)" "ends_by k (add_temporary p)" "ends_by k (remove_temporary p)"
  "ends_by k (remove_provisional p)" "ends_by k (modify_io (add_provisional p))"
  "ends_by k (modify_io (\<lambda>j. j\<lparr>jb_toolSet := ts\<rparr>))" "ends_by k (modify_io (\<lambda>j. j\<lparr>jb_capabilities := cs\<rparr>))"
  unfolding set_stage_def add_temporary_def remove_temporary_def remove_provisional_def
  by (auto intro!: ends_modify simp: add_provisional_def)

lemma randomUUID_ends [ends_intros]: "ends_by k (randomUUID R)"
proof (rule ends_same)
  fix j :: "'w job"
  obtain u w where u: "rm_uuid R (jb_world j) = (u, w)" by (cases "rm_uuid R (jb_world j)")
  then have "rm_now R w = rm_now R (jb_world j)" using punctual unfolding punctual_def by (metis snd_conv)
  then show "\<exists>r j'. randomUUID R j = Some (r, j') \<and> jb_deadlineAt j' = jb_deadlineAt j \<and>
      rm_now R (jb_world j') = rm_now R (jb_world j)"
    by (simp add: randomUUID_def u)
qed

lemma command_runs:
  "\<exists>r j'. runRemoteCommand R command ms j = Some (r, j') \<and> jb_deadlineAt j' = jb_deadlineAt j \<and>
     rm_now R (jb_world j') \<le> rm_now R (jb_world j) + max 0 (ms + slack)"
proof (cases "ms \<le> 0")
  case False
  obtain r es w where rq: "rm_command R command (rm_now R (jb_world j) + ms) (jb_world j) = (r, es, w)" by (rule prod_cases3)
  then have "rm_now R w \<le> max (rm_now R (jb_world j)) (rm_now R (jb_world j) + ms) + slack"
    using requests_timely(9) unfolding timely_def by (metis snd_conv)
  then show ?thesis using False slack_nonneg(1) rq by (simp add: runRemoteCommand_def await_def max_def)
qed (simp add: runRemoteCommand_def throw_io_def)

lemma checked_command_wait:
  "ends_by 0 (bind_io (read_io (remainingDuration R)) (\<lambda>ms. runRemoteCommand R command ms))"
  unfolding ends_by_def slack_nonneg(3)
proof
  fix j
  let ?ms = "remainingDuration R j"
  obtain r j' where run: "runRemoteCommand R command ?ms j = Some (r, j')" "jb_deadlineAt j' = jb_deadlineAt j"
    and "rm_now R (jb_world j') \<le> rm_now R (jb_world j) + max 0 (?ms + slack)"
    using command_runs by blast
  moreover have "?ms = 0 \<Longrightarrow> j' = j" using run(1) by (simp add: runRemoteCommand_def throw_io_def)
  ultimately have "rm_now R (jb_world j') \<le> max (rm_now R (jb_world j)) (jb_deadlineAt j + slack)"
    using slack_nonneg(1) by (auto simp: remainingDuration_def max_def split: if_splits)
  then show "\<exists>r j'. bind_io (read_io (remainingDuration R)) (\<lambda>ms. runRemoteCommand R command ms) j = Some (r, j') \<and>
      jb_deadlineAt j' = jb_deadlineAt j \<and>
      rm_now R (jb_world j') \<le> max (rm_now R (jb_world j)) (jb_deadlineAt j + slack) + 0"
    using run by (simp add: bind_io_def read_io_def)
qed

lemma runCheckedCommand_ends [ends_intros]: "ends_by 0 (runCheckedCommand R c)"
proof -
  have assoc: "bind_io m (\<lambda>x. bind_io (f x) g) = bind_io (bind_io m f) g" for m :: "('w job, 'x) io" and f :: "'x \<Rightarrow> ('w job, 'y) io"
    and g :: "'y \<Rightarrow> ('w job, 'z) io"
    by (rule ext) (simp add: bind_io_def split: option.split prod.split sum.split)
  show ?thesis
    unfolding runCheckedCommand_def assoc by (intro ends_intros checked_command_wait)
qed

text \<open>A probe has a time limit of its own, which may pass the deadline.\<close>
lemma probe_ends: "ends_by 1 (runRemoteCommand R probe_command ARCHIVE_PROBE_TIMEOUT_MS)"
  unfolding ends_by_def
proof
  fix j
  obtain r j' where run: "runRemoteCommand R probe_command ARCHIVE_PROBE_TIMEOUT_MS j = Some (r, j')"
    "jb_deadlineAt j' = jb_deadlineAt j"
    and le: "rm_now R (jb_world j') \<le> rm_now R (jb_world j) + max 0 (ARCHIVE_PROBE_TIMEOUT_MS + slack)"
    using command_runs by blast
  have "max 0 (ARCHIVE_PROBE_TIMEOUT_MS + slack) = allowance 1"
    using slack_nonneg(1) by (simp add: allowance_def ARCHIVE_PROBE_TIMEOUT_MS_def)
  then have "rm_now R (jb_world j') \<le> max (rm_now R (jb_world j)) (jb_deadlineAt j + slack) + allowance 1"
    using le by linarith
  then show "\<exists>r j'. runRemoteCommand R probe_command ARCHIVE_PROBE_TIMEOUT_MS j = Some (r, j') \<and>
      jb_deadlineAt j' = jb_deadlineAt j \<and>
      rm_now R (jb_world j') \<le> max (rm_now R (jb_world j)) (jb_deadlineAt j + slack) + allowance 1"
    using run by blast
qed

lemma ends_bind_probe: "ends_by 1 m \<Longrightarrow> (\<And>x. ends_by 0 (f x)) \<Longrightarrow> ends_by 1 (bind_io m f)"
  using ends_bind [of 1 m 0 f] by simp

lemma getToolSet_ends: "ends_by 1 (getToolSet R)"
proof -
  have "ends_by 1 (probeToolSet R)"
    unfolding probeToolSet_def by (intro ends_bind_probe [OF probe_ends] ends_intros)
  then show ?thesis
    unfolding getToolSet_def by (intro ends_bind_early ends_case_option ends_bind_probe ends_then bookkeeping_ends ends_simple)
qed

lemma getCapabilities_ends: "ends_by 1 (getCapabilities R)"
  unfolding getCapabilities_def
  by (intro ends_bind_early ends_case_option ends_bind_probe ends_catch getToolSet_ends ends_simple ends_then bookkeeping_ends)

lemma tools_then: "(\<And>tools. ends_by 0 (f tools)) \<Longrightarrow> ends_by 1 (bind_io (getToolSet R) f)"
  by (rule ends_bind_probe [OF getToolSet_ends])

lemma waitForConflicts_ends [ends_intros]: "ends_by 0 (waitForConflicts R c)"
  unfolding ends_by_def slack_nonneg(3)
proof
  fix j :: "'w job"
  let ?j1 = "j\<lparr>jb_state := AwaitingConflict, jb_stage := ConflictStage, jb_conflicts := Some c, jb_waiter := Some None\<rparr>"
  let ?limit = "min (rm_now R (jb_world j) + ARCHIVE_CONFLICT_TIMEOUT_MS) (jb_deadlineAt j)"
  obtain es w where u: "rm_awaitUser R ?limit (jb_world j) = (es, w)" by (cases "rm_awaitUser R ?limit (jb_world j)")
  then have "rm_now R w \<le> max (rm_now R (jb_world j)) ?limit + slack" using punctual unfolding punctual_def by (metis snd_conv)
  moreover have "remainingDuration R ?j1 \<noteq> 0 \<Longrightarrow> rm_now R (jb_world j) \<le> jb_deadlineAt j"
    by (auto simp: remainingDuration_def max_def split: if_splits)
  ultimately have "remainingDuration R ?j1 \<noteq> 0 \<Longrightarrow> rm_now R w \<le> max (rm_now R (jb_world j)) (jb_deadlineAt j + slack)"
    by (auto simp: max_def min_def split: if_splits)
  then show "\<exists>r j'. waitForConflicts R c j = Some (r, j') \<and> jb_deadlineAt j' = jb_deadlineAt j \<and>
      rm_now R (jb_world j') \<le> max (rm_now R (jb_world j)) (jb_deadlineAt j + slack) + 0"
    by (simp add: waitForConflicts_def Let_def u)
qed

lemma listArchiveMembers_ends [ends_intros]: "ends_by 0 (listArchiveMembers R p f ts)"
  unfolding listArchiveMembers_def by (intro ends_intros)

lemma check_sources_ends [ends_intros]: "ends_by 0 (check_sources R ps)"
  by (induction ps) (auto intro!: ends_intros)

lemma runCompression_ends: "ends_by 1 (runCompression R ss t nm l f)"
  unfolding runCompression_def assertCompressionInputs_def Let_def
  by (intro tools_then ends_intros)

lemma find_conflicts_ends [ends_intros]: "ends_by 0 (find_conflicts R s t found es)"
  by (induction es arbitrary: found) (auto simp: Let_def intro!: ends_intros)

lemmas recursions_end [ends_intros] = mergeRemoteEntry_ends [OF active_ends(1)] removeRemoteTree_ends [OF active_ends(2)]
  validateStagedTree_ends [OF active_ends(1)]

lemma commit_entries_ends [ends_intros]: "ends_by 0 (commit_entries R s t r results es)"
  by (induction es arbitrary: results) (auto simp: Let_def intro!: ends_intros)

lemma commitExtractedEntries_ends [ends_intros]: "ends_by 0 (commitExtractedEntries R s t a m)"
  unfolding commitExtractedEntries_def commit_unique_def Let_def
  by (intro ends_intros)

lemma create_missing_ends [ends_intros]: "ends_by 0 (create_missing R created ps)"
  by (induction ps arbitrary: created) (auto intro!: ends_intros)

lemma extract_into_ends [ends_intros]: "ends_by 0 (extract_into R a p f e ts m d)"
  unfolding extract_into_def Let_def by (intro ends_intros)

lemma runExtraction_ends: "ends_by 1 (runExtraction R a t m f)"
proof -
  have "ends_by 0 (missing_paths R (normalizeRemotePath t) [])" if "posix_is_absolute (normalizeRemotePath t)"
    using that by (intro missing_paths_ends) (cases "normalizeRemotePath t"; simp add: posix_is_absolute_def)
  then show ?thesis
    unfolding runExtraction_def ensureRemoteDirectory_def validateArchiveHeader_def Let_def
    by (intro tools_then ends_intros) auto
qed

lemma run_request_ends: "ends_by 2 (run_request R request f)"
proof -
  have "ends_by (1 + 1) (run_request R request f)"
    unfolding run_request_def Let_def
    by (rule ends_bind [OF getCapabilities_ends], cases request)
      (auto intro!: ends_bind_early ends_if ends_simple runCompression_ends [unfolded One_nat_def]
        runExtraction_ends [unfolded One_nat_def])
  then show ?thesis by (simp add: numeral_2_eq_2)
qed

lemma cleanup_ends [ends_intros]: "ends_by 0 (performTemporaryPathCleanup R)"
proof -
  have "ends_by 0 (cleanup_paths R ok ps)" for ok ps
    by (induction ps arbitrary: ok) (auto intro!: ends_intros)
  moreover have "ends_by 0 (cleanup_directories R ok ps)" for ok ps
    by (induction ps arbitrary: ok) (auto intro!: ends_intros)
  ultimately show ?thesis
    unfolding performTemporaryPathCleanup_def by (intro ends_intros)
qed

lemma runOperation_ends: "ends_by 2 (runOperation R request f)"
proof -
  have "ends_by 0 (record_failure e)" for e
    by (rule ends_same) (auto simp: record_failure_def split: option.split)
  then have "ends_by (2 + 0) (runOperation R request f)"
    unfolding runOperation_def
  proof (intro ends_bind ends_catch)
    have "ends_by (2 + 0) (bind_io (run_request R request f) (\<lambda>resultPaths.
        then_io (modify_io (\<lambda>j. j\<lparr>jb_resultPaths := Some resultPaths\<rparr>)) (return_io Succeeded)))"
      by (intro ends_bind run_request_ends ends_then ends_modify ends_simple) simp
    then show "ends_by 2 (bind_io (run_request R request f) (\<lambda>resultPaths.
        then_io (modify_io (\<lambda>j. j\<lparr>jb_resultPaths := Some resultPaths\<rparr>)) (return_io Succeeded)))"
      by simp
  next
    show "ends_by 0 (then_io (modify_io begin_cleanup) (bind_io (performTemporaryPathCleanup R) (\<lambda>cleaned.
         if cleaned then modify_io (finish_operation t)
         else then_io (modify_io record_cleanup_failure) (modify_io (finish_operation Failed)))))" for t
      by (intro ends_intros ends_modify)
        (auto simp: begin_cleanup_def record_cleanup_failure_def finish_operation_def)
  qed
  then show ?thesis by simp
qed

end

end
