(* ===== verification/ArchiveTree.thy ===== *)
theory ArchiveTree
  imports ArchiveTermination
begin

text \<open>
  A remote host with a file tree, as an instance of the requests of \<open>ArchiveJobs\<close>: it answers without
  failures of its own, every request takes \<open>step\<close> milliseconds, one that would take longer than its caller waits
  is lost, commands do nothing, the user never decides, and no handler runs meanwhile.  On it the recursions over the remote tree are compared with functions on trees.
\<close>

section \<open>File trees\<close>

datatype node = FileNode jstring | LinkNode jstring | DirNode "(jstring \<times> node) list"

fun node_mode :: "node \<Rightarrow> nat" where
  "node_mode (FileNode c) = S_IFREG"
| "node_mode (LinkNode t) = S_IFLNK"
| "node_mode (DirNode es) = S_IFDIR"

fun lookup :: "jstring list \<Rightarrow> node \<Rightarrow> node option" where
  "lookup [] n = Some n"
| "lookup (x # xs) (DirNode es) = (case map_of es x of None \<Rightarrow> None | Some n \<Rightarrow> lookup xs n)"
| "lookup (x # xs) n = None"

text \<open>\<open>store xs (Some m)\<close> puts \<open>m\<close> at a path whose directory exists, \<open>store xs None\<close> removes what is there.\<close>

fun store :: "jstring list \<Rightarrow> node option \<Rightarrow> node \<Rightarrow> node" where
  "store [x] m (DirNode es) = DirNode (case m of None \<Rightarrow> map_delete x es | Some n \<Rightarrow> map_set x n es)"
| "store (x # xs) m (DirNode es) =
     DirNode (case map_of es x of None \<Rightarrow> es | Some n \<Rightarrow> map_set x (store xs m n) es)"
| "store xs m n = n"

fun well_named :: "node \<Rightarrow> bool" where
  "well_named (DirNode es) \<longleftrightarrow> distinct (map fst es) \<and> list_all (\<lambda>e. plain_segment (fst e) \<and> well_named (snd e)) es"
| "well_named n \<longleftrightarrow> True"

definition path_names :: "jstring \<Rightarrow> jstring list" where
  "path_names p = filter (\<lambda>x. x \<noteq> []) (split_on slash p)"

lemma path_names_abs [simp]: "list_all plain_segment segs \<Longrightarrow> path_names (abs_path segs) = segs"
proof (cases "segs = []")
  case False
  assume "list_all plain_segment segs"
  with False show ?thesis
    by (simp add: path_names_def split_abs_path filter_id_conv list_all_iff plain_segment_def)
qed (simp add: path_names_def)

section \<open>The host\<close>

record tree_world =
  tw_root :: node
  tw_now :: rat
  tw_uuids :: nat

definition no_such_file :: failure where
  "no_such_file = RemoteFailure (JNum (Num 2)) (js ''No such file'')"

definition general_failure :: failure where
  "general_failure = RemoteFailure (JNum (Num 4)) (js ''Failure'')"

definition answer :: "rat \<Rightarrow> (node \<Rightarrow> (failure + 'a) \<times> node) \<Rightarrow> (tree_world, 'a) request" where
  "answer step f limit w =
     (if limit < tw_now w + step then (None, [], w\<lparr>tw_now := max (tw_now w) limit\<rparr>)
      else let (r, t) = f (tw_root w) in (Some r, [], w\<lparr>tw_root := t, tw_now := tw_now w + step\<rparr>))"

definition tree_lstat :: "jstring \<Rightarrow> node \<Rightarrow> (failure + nat) \<times> node" where
  "tree_lstat p t = (case lookup (path_names p) t of None \<Rightarrow> Inl no_such_file | Some n \<Rightarrow> Inr (node_mode n), t)"

definition tree_readdir :: "jstring \<Rightarrow> node \<Rightarrow> (failure + (jstring \<times> nat) list) \<times> node" where
  "tree_readdir p t =
     (case lookup (path_names p) t of
        None \<Rightarrow> Inl no_such_file
      | Some (DirNode es) \<Rightarrow> Inr (map (\<lambda>e. (fst e, node_mode (snd e))) es)
      | Some _ \<Rightarrow> Inl general_failure, t)"

definition tree_readlink :: "jstring \<Rightarrow> node \<Rightarrow> (failure + jstring) \<times> node" where
  "tree_readlink p t =
     (case lookup (path_names p) t of
        None \<Rightarrow> Inl no_such_file | Some (LinkNode l) \<Rightarrow> Inr l | Some _ \<Rightarrow> Inl general_failure, t)"

definition is_dir_at :: "jstring list \<Rightarrow> node \<Rightarrow> bool" where
  "is_dir_at xs t = (case lookup xs t of Some (DirNode es) \<Rightarrow> True | _ \<Rightarrow> False)"

definition tree_mkdir :: "jstring \<Rightarrow> node \<Rightarrow> (failure + unit) \<times> node" where
  "tree_mkdir p t =
     (let xs = path_names p
      in if xs = [] \<or> \<not> is_dir_at (butlast xs) t \<or> lookup xs t \<noteq> None then (Inl general_failure, t)
         else (Inr (), store xs (Some (DirNode [])) t))"

definition tree_rmdir :: "jstring \<Rightarrow> node \<Rightarrow> (failure + unit) \<times> node" where
  "tree_rmdir p t =
     (let xs = path_names p
      in case lookup xs t of
           None \<Rightarrow> (Inl no_such_file, t)
         | Some n \<Rightarrow> if n = DirNode [] \<and> xs \<noteq> [] then (Inr (), store xs None t) else (Inl general_failure, t))"

definition tree_unlink :: "jstring \<Rightarrow> node \<Rightarrow> (failure + unit) \<times> node" where
  "tree_unlink p t =
     (let xs = path_names p
      in case lookup xs t of
           None \<Rightarrow> (Inl no_such_file, t)
         | Some (DirNode es) \<Rightarrow> (Inl general_failure, t)
         | Some _ \<Rightarrow> (Inr (), store xs None t))"

definition tree_rename :: "jstring \<Rightarrow> jstring \<Rightarrow> node \<Rightarrow> (failure + unit) \<times> node" where
  "tree_rename p q t =
     (let xs = path_names p; ys = path_names q
      in case lookup xs t of
           None \<Rightarrow> (Inl no_such_file, t)
         | Some n \<Rightarrow>
             if xs = [] \<or> ys = [] \<or> prefix xs ys \<or> \<not> is_dir_at (butlast ys) t \<or> lookup ys t \<noteq> None
             then (Inl general_failure, t)
             else (Inr (), store ys (Some n) (store xs None t)))"

fun digits_of :: "nat \<Rightarrow> jstring" where
  "digits_of 0 = [48]"
| "digits_of (Suc n) = 49 # digits_of n"

definition tree_remote :: "rat \<Rightarrow> tree_world remote" where
  "tree_remote step =
     \<lparr>rm_now = tw_now,
      rm_uuid = (\<lambda>w. (digits_of (tw_uuids w), w\<lparr>tw_uuids := tw_uuids w + 1\<rparr>)),
      rm_lstat = (\<lambda>p. answer step (tree_lstat p)),
      rm_readdir = (\<lambda>p. answer step (tree_readdir p)),
      rm_readlink = (\<lambda>p. answer step (tree_readlink p)),
      rm_mkdir = (\<lambda>p m. answer step (tree_mkdir p)),
      rm_rmdir = (\<lambda>p. answer step (tree_rmdir p)),
      rm_unlink = (\<lambda>p. answer step (tree_unlink p)),
      rm_rename = (\<lambda>p q. answer step (tree_rename p q)),
      rm_readRange = (\<lambda>p a b. answer step (\<lambda>t. (Inr (replicate b 0), t))),
      rm_command = (\<lambda>c. answer step (\<lambda>t.
        (Inr \<lparr>cr_stdout = [], cr_stderr = [], cr_stdoutTruncated = False, cr_exitCode = Some 0\<rparr>, t))),
      rm_awaitUser = (\<lambda>limit w. ([], w\<lparr>tw_now := max (tw_now w) limit\<rparr>))\<rparr>"

lemma tree_remote_fields [simp]:
  "rm_now (tree_remote step) = tw_now"
  "rm_uuid (tree_remote step) w = (digits_of (tw_uuids w), w\<lparr>tw_uuids := tw_uuids w + 1\<rparr>)"
  "rm_lstat (tree_remote step) p = answer step (tree_lstat p)"
  "rm_readdir (tree_remote step) p = answer step (tree_readdir p)"
  "rm_readlink (tree_remote step) p = answer step (tree_readlink p)"
  "rm_mkdir (tree_remote step) p m = answer step (tree_mkdir p)"
  "rm_rmdir (tree_remote step) p = answer step (tree_rmdir p)"
  "rm_unlink (tree_remote step) p = answer step (tree_unlink p)"
  "rm_rename (tree_remote step) p q = answer step (tree_rename p q)"
  "rm_readRange (tree_remote step) p a b = answer step (\<lambda>t. (Inr (replicate b 0), t))"
  "rm_command (tree_remote step) c = answer step (\<lambda>t.
     (Inr \<lparr>cr_stdout = [], cr_stderr = [], cr_stdoutTruncated = False, cr_exitCode = Some 0\<rparr>, t))"
  "rm_awaitUser (tree_remote step) limit w = ([], w\<lparr>tw_now := max (tw_now w) limit\<rparr>)"
  by (simp_all add: tree_remote_def)

text \<open>The same host with a limit on the length of a path, and no entries but those with single names.\<close>

definition PATH_MAX :: nat where "PATH_MAX = 4096"

definition limited_readdir :: "jstring \<Rightarrow> node \<Rightarrow> (failure + (jstring \<times> nat) list) \<times> node" where
  "limited_readdir p t =
     (if PATH_MAX < length p then (Inl general_failure, t)
      else (case fst (tree_readdir p t) of
              Inl e \<Rightarrow> Inl e | Inr es \<Rightarrow> Inr (filter (\<lambda>e. plain_segment (fst e)) es), t))"

definition limited_remote :: "rat \<Rightarrow> tree_world remote" where
  "limited_remote step = (tree_remote step)\<lparr>rm_readdir := (\<lambda>p. answer step (limited_readdir p))\<rparr>"

lemma answer_timely: "0 \<le> step \<Longrightarrow> rm_now R = tw_now \<Longrightarrow> timely 0 R (answer step f)"
  by (auto simp: timely_def answer_def Let_def split: prod.split)

lemma limited_punctual: "0 \<le> step \<Longrightarrow> punctual 0 (limited_remote step)"
  by (simp add: punctual_def limited_remote_def answer_timely)

lemma limited_bounded: "bounded_paths PATH_MAX (limited_remote step)"
  by (auto simp: bounded_paths_def limited_remote_def answer_def limited_readdir_def Let_def
      split: if_splits prod.splits sum.splits)

interpretation limited: punctual_remote "limited_remote 1" 0 PATH_MAX
  by unfold_locales (simp_all add: limited_punctual limited_bounded)

section \<open>Requests of an undisturbed job\<close>

text \<open>On a host that answers at once, nothing but the tree changes.\<close>

abbreviation quick :: "tree_world remote" where "quick \<equiv> tree_remote 0"

definition undisturbed :: "tree_world job \<Rightarrow> bool" where
  "undisturbed j \<longleftrightarrow> tw_now (jb_world j) < jb_deadlineAt j \<and> \<not> jb_cancelRequested j \<and> \<not> jb_closed j"

definition with_tree :: "node \<Rightarrow> tree_world job \<Rightarrow> tree_world job" where
  "with_tree t j = j\<lparr>jb_world := (jb_world j)\<lparr>tw_root := t\<rparr>\<rparr>"

abbreviation tree_of :: "tree_world job \<Rightarrow> node" where
  "tree_of j \<equiv> tw_root (jb_world j)"

lemma with_tree_simps [simp]:
  "tree_of (with_tree t j) = t" "with_tree u (with_tree t j) = with_tree u j" "with_tree (tree_of j) j = j"
  "undisturbed (with_tree t j) = undisturbed j"
  by (simp_all add: with_tree_def undisturbed_def)

lemma quick_request:
  "undisturbed j \<Longrightarrow> waitForPromiseBeforeDeadline quick (answer 0 f) j =
     Some (fst (f (tree_of j)), with_tree (snd (f (tree_of j))) j)"
  by (auto simp: waitForPromiseBeforeDeadline_def remainingDuration_def undisturbed_def await_def answer_def
      apply_events_def with_tree_def throw_io_def Let_def split: prod.split)

lemma quick_active: "undisturbed j \<Longrightarrow> assertOperationActive quick j = Some (Inr (), j)"
  by (simp add: assertOperationActive_def undisturbed_def remainingDuration_def return_io_def)

lemma quick_requests:
  assumes "undisturbed j"
  shows "lstatRemote quick p j = Some (fst (tree_lstat p (tree_of j)), j)"
    and "readdirRemote quick p j = Some (fst (tree_readdir p (tree_of j)), j)"
    and "readlinkRemote quick p j = Some (fst (tree_readlink p (tree_of j)), j)"
    and "rmdirRemote quick p j = Some (fst (tree_rmdir p (tree_of j)), with_tree (snd (tree_rmdir p (tree_of j))) j)"
    and "unlinkRemote quick p j = Some (fst (tree_unlink p (tree_of j)), with_tree (snd (tree_unlink p (tree_of j))) j)"
    and "renameRemote quick p q j =
      Some (fst (tree_rename p q (tree_of j)), with_tree (snd (tree_rename p q (tree_of j))) j)"
proof -
  have "snd (tree_lstat p t) = t" "snd (tree_readdir p t) = t" "snd (tree_readlink p t) = t" for t
    by (simp_all add: tree_lstat_def tree_readdir_def tree_readlink_def)
  then
  show "lstatRemote quick p j = Some (fst (tree_lstat p (tree_of j)), j)"
    "readdirRemote quick p j = Some (fst (tree_readdir p (tree_of j)), j)"
    "readlinkRemote quick p j = Some (fst (tree_readlink p (tree_of j)), j)"
    "rmdirRemote quick p j = Some (fst (tree_rmdir p (tree_of j)), with_tree (snd (tree_rmdir p (tree_of j))) j)"
    "unlinkRemote quick p j = Some (fst (tree_unlink p (tree_of j)), with_tree (snd (tree_unlink p (tree_of j))) j)"
    "renameRemote quick p q j =
      Some (fst (tree_rename p q (tree_of j)), with_tree (snd (tree_rename p q (tree_of j))) j)"
    by (simp_all add: lstatRemote_def readdirRemote_def readlinkRemote_def rmdirRemote_def unlinkRemote_def
        renameRemote_def quick_request [OF assms])
qed

section \<open>Checking what was extracted\<close>

text \<open>Every symbolic link below the entry passes the test on its target.\<close>

fun links_ok :: "jstring \<Rightarrow> jstring list \<Rightarrow> node \<Rightarrow> bool" where
  "links_ok staging segs (FileNode c) \<longleftrightarrow> True"
| "links_ok staging segs (LinkNode t) \<longleftrightarrow> \<not> link_escapes staging (abs_path segs) t"
| "links_ok staging segs (DirNode es) \<longleftrightarrow> list_all (\<lambda>e. links_ok staging (segs @ [fst e]) (snd e)) es"

lemma lookup_append:
  "lookup (xs @ ys) t = (case lookup xs t of None \<Rightarrow> None | Some n \<Rightarrow> lookup ys n)"
  by (induction xs t rule: lookup.induct) (auto split: option.split)

lemma lookup_child:
  assumes "lookup segs t = Some (DirNode es)" and "distinct (map fst es)" and "(x, n) \<in> set es"
  shows "lookup (segs @ [x]) t = Some n"
  using assms by (simp add: lookup_append)

lemma modes [simp]:
  "mode_type S_IFDIR = S_IFDIR" "mode_type S_IFREG = S_IFREG" "mode_type S_IFLNK = S_IFLNK"
  "S_IFLNK \<noteq> S_IFDIR" "S_IFREG \<noteq> S_IFDIR" "S_IFREG \<noteq> S_IFLNK"
  "S_IFDIR \<noteq> S_IFLNK" "S_IFDIR \<noteq> S_IFREG" "S_IFLNK \<noteq> S_IFREG"
  by (simp_all add: mode_type_def S_IFMT_def S_IFLNK_def S_IFDIR_def S_IFREG_def)

lemma io_apply [simp]: "return_io x j = Some (Inr x, j)" "throw_io e j = Some (Inl e, j)"
  by (simp_all add: io_defs)

lemma bind_steps [simp]:
  "m j = Some (Inr x, j') \<Longrightarrow> bind_io m k j = k x j'"
  "m j = Some (Inl e, j') \<Longrightarrow> bind_io m k j = Some (Inl e, j')"
  "m j = Some (Inr x, j') \<Longrightarrow> then_io m k' j = k' j'"
  "m j = Some (Inl e, j') \<Longrightarrow> then_io m k' j = Some (Inl e, j')"
  by (simp_all add: bind_io_def then_io_def)

lemma for_each_check:
  assumes "\<And>x. x \<in> set xs \<Longrightarrow> f x j = Some (if P x then Inr () else Inl e, j)"
  shows "for_each f xs j = Some (if list_all P xs then Inr () else Inl e, j)"
  using assms
proof (induction xs)
  case (Cons x xs)
  from Cons.prems [of x] have "f x j = Some (if P x then Inr () else Inl e, j)" by simp
  then show ?case using Cons by (cases "P x") simp_all
qed simp

lemma for_each_map: "for_each f (map g xs) = for_each (\<lambda>x. f (g x)) xs"
  by (induction xs) simp_all

lemma validate_tree:
  assumes "undisturbed j" and "lookup segs (tree_of j) = Some n" and "well_named n"
    and "list_all plain_segment segs"
  shows "validateStagedTree quick (assertOperationActive quick) staging (Some (node_mode n)) (abs_path segs) j =
    Some (if links_ok staging segs n then Inr () else Inl (ArchiveFailure ArchiveUnsafeEntry), j)"
  using assms(2-4)
proof (induction n arbitrary: segs)
  case (FileNode c)
  then show ?case
    by (subst validateStagedTree.simps) (simp add: quick_active [OF assms(1)] return_io_def)
next
  case (LinkNode t)
  then show ?case
    by (subst validateStagedTree.simps)
      (simp add: quick_active [OF assms(1)] quick_requests [OF assms(1)] tree_readlink_def return_io_def throw_io_def)
next
  case (DirNode es)
  have child: "(\<lambda>e. then_io (assertOperationActive quick) (validateStagedTree quick (assertOperationActive quick)
      staging (Some (snd e)) (posix_join [abs_path segs, fst e]))) (x, node_mode n) j =
      Some (if links_ok staging (segs @ [x]) n then Inr () else Inl (ArchiveFailure ArchiveUnsafeEntry), j)"
    if "(x, n) \<in> set es" for x n
  proof -
    have x: "plain_segment x" "well_named n" using DirNode.prems(2) that by (auto simp: list_all_iff)
    have "lookup (segs @ [x]) (tree_of j) = Some n"
      using DirNode.prems(1,2) that by (intro lookup_child) auto
    then show ?thesis
      using DirNode.IH [OF that, of n "segs @ [x]"] DirNode.prems(3) x
      by (simp add: quick_active [OF assms(1)])
  qed
  have "for_each (\<lambda>entry. then_io (assertOperationActive quick) (validateStagedTree quick (assertOperationActive quick)
      staging (Some (snd entry)) (posix_join [abs_path segs, fst entry])))
      (map (\<lambda>e. (fst e, node_mode (snd e))) es) j =
    Some (if list_all (\<lambda>e. links_ok staging (segs @ [fst e]) (snd e)) es then Inr ()
          else Inl (ArchiveFailure ArchiveUnsafeEntry), j)"
    unfolding for_each_map using child by (intro for_each_check) (auto simp: o_def)
  moreover have "fst (tree_readdir (abs_path segs) (tree_of j)) = Inr (map (\<lambda>e. (fst e, node_mode (snd e))) es)"
    using DirNode.prems by (simp add: tree_readdir_def)
  ultimately show ?case
    by (subst validateStagedTree.simps)
      (simp add: quick_active [OF assms(1)] quick_requests [OF assms(1)])
qed

end
