(* ===== verification/ArchiveLedger.thy ===== *)
theory ArchiveLedger
  imports ArchiveProofs
begin

text \<open>
  What an archive operation creates on the remote host, whatever it records: \<open>watch\<close> observes the requests
  to a host and keeps a ledger of the private directories and temporary files and of the shared
  directories that were created and not yet removed.  The ledger does not influence the run.  At every wait,
  everything on it is recorded in the job.
\<close>

section \<open>The ledger\<close>

text \<open>
  \<open>lg_private\<close>: directories with the private mode and files of the commands; \<open>lg_shared\<close>: the other directories,
  which are parents of the target.
\<close>

record ledger =
  lg_private :: "jstring list"
  lg_shared :: "jstring list"

definition strike :: "jstring \<Rightarrow> ledger \<Rightarrow> ledger" where
  "strike p l = \<lparr>lg_private = removeAll p (lg_private l), lg_shared = removeAll p (lg_shared l)\<rparr>"

definition observe ::
  "((failure + 'a) option \<Rightarrow> ledger \<Rightarrow> ledger) \<Rightarrow> ('w, 'a) request \<Rightarrow> ('w \<times> ledger, 'a) request" where
  "observe f request limit w = (let (r, es, w') = request limit (fst w) in (r, es, (w', f r (snd w))))"

fun struck_on_success :: "jstring \<Rightarrow> (failure + unit) option \<Rightarrow> ledger \<Rightarrow> ledger" where
  "struck_on_success p (Some (Inr ())) l = strike p l"
| "struck_on_success p r l = l"

text \<open>An entry is gone when the host says that there is no such file.\<close>

fun struck_when_missing :: "jstring \<Rightarrow> (failure + 'a) option \<Rightarrow> ledger \<Rightarrow> ledger" where
  "struck_when_missing p (Some (Inl e)) l = (if isNoSuchFileError e then strike p l else l)"
| "struck_when_missing p r l = l"

text \<open>A shared directory that others use is no longer one of the operation.\<close>

fun released_when_used :: "jstring \<Rightarrow> (failure + (jstring \<times> nat) list) option \<Rightarrow> ledger \<Rightarrow> ledger" where
  "released_when_used p (Some (Inr (e # es))) l = l\<lparr>lg_shared := removeAll p (lg_shared l)\<rparr>"
| "released_when_used p r l = l"

fun created :: "jstring \<Rightarrow> nat \<Rightarrow> (failure + unit) option \<Rightarrow> ledger \<Rightarrow> ledger" where
  "created p m (Some (Inr ())) l =
     (if m = 448 then l\<lparr>lg_private := p # lg_private l\<rparr> else l\<lparr>lg_shared := p # lg_shared l\<rparr>)"
| "created p m r l = l"

definition exits_well :: "(failure + command_result) option \<Rightarrow> bool" where
  "exits_well r = (case r of Some (Inr result) \<Rightarrow> cr_exitCode result = Some 0 | _ \<Rightarrow> False)"

text \<open>
  \<open>files c ok ps\<close>: the temporary files that are there after the command \<open>c\<close>, when \<open>ps\<close> were there before, and
  \<open>ok\<close> tells whether it exited with 0.
\<close>

definition watch :: "(jstring \<Rightarrow> bool \<Rightarrow> jstring list \<Rightarrow> jstring list) \<Rightarrow> 'w remote \<Rightarrow> ('w \<times> ledger) remote" where
  "watch files R =
     \<lparr>rm_now = (\<lambda>w. rm_now R (fst w)),
      rm_uuid = (\<lambda>w. (fst (rm_uuid R (fst w)), (snd (rm_uuid R (fst w)), snd w))),
      rm_lstat = (\<lambda>p. observe (struck_when_missing p) (rm_lstat R p)),
      rm_readdir = (\<lambda>p. observe (released_when_used p) (rm_readdir R p)),
      rm_readlink = (\<lambda>p. observe (\<lambda>r l. l) (rm_readlink R p)),
      rm_mkdir = (\<lambda>p m. observe (created p m) (rm_mkdir R p m)),
      rm_rmdir = (\<lambda>p. observe (\<lambda>r l. struck_when_missing p r (struck_on_success p r l)) (rm_rmdir R p)),
      rm_unlink = (\<lambda>p. observe (struck_on_success p) (rm_unlink R p)),
      rm_rename = (\<lambda>p q. observe (struck_on_success p) (rm_rename R p q)),
      rm_readRange = (\<lambda>p a b. observe (\<lambda>r l. l) (rm_readRange R p a b)),
      rm_command = (\<lambda>c. observe (\<lambda>r l. l\<lparr>lg_private := files c (exits_well r) (lg_private l)\<rparr>) (rm_command R c)),
      rm_awaitUser = (\<lambda>limit w. (fst (rm_awaitUser R limit (fst w)), (snd (rm_awaitUser R limit (fst w)), snd w)))\<rparr>"

text \<open>
  What the tools write: a compression its output, and its intermediate file, which it removes before it exits
  with 0; an expansion its output; the other commands nothing outside the staging directory.
\<close>

definition documented_files :: "(jstring \<Rightarrow> bool \<Rightarrow> jstring list \<Rightarrow> jstring list) \<Rightarrow> bool" where
  "documented_files files \<longleftrightarrow>
     (\<forall>format level directory temporary intermediate names tools ok ps.
        let command = buildCompressionCommand format level directory temporary intermediate names tools;
            own = (case intermediate of None \<Rightarrow> {} | Some n \<Rightarrow> {posix_join [directory, n]})
        in set (files command ok ps) \<subseteq> set ps \<union> {posix_join [directory, temporary]} \<union> own \<and>
           (ok \<longrightarrow> own \<inter> set (files command ok ps) = {})) \<and>
     (\<forall>format archive target ok ps.
        set (files (buildCompressedTarExpansionCommand format archive target) ok ps) \<subseteq> set ps \<union> {target}) \<and>
     (\<forall>format archive tools ok ps. set (files (buildArchiveListCommand format archive tools) ok ps) \<subseteq> set ps) \<and>
     (\<forall>archive ok ps. set (files (buildZipIntegrityCommand archive) ok ps) \<subseteq> set ps) \<and>
     (\<forall>format archive staging tools ok ps.
        set (files (buildExtractionCommand format archive staging tools) ok ps) \<subseteq> set ps) \<and>
     (\<forall>ok ps. set (files probe_command ok ps) \<subseteq> set ps)"

section \<open>Triples\<close>

text \<open>\<open>triple P m Q E\<close>: from \<open>P\<close>, a value of \<open>m\<close> comes with \<open>Q\<close> and a failure with \<open>E\<close>.\<close>

definition triple :: "('s \<Rightarrow> bool) \<Rightarrow> ('s, 'a) io \<Rightarrow> ('a \<Rightarrow> 's \<Rightarrow> bool) \<Rightarrow> (failure \<Rightarrow> 's \<Rightarrow> bool) \<Rightarrow> bool" where
  "triple P m Q E \<longleftrightarrow> (\<forall>s r s'. P s \<longrightarrow> m s = Some (r, s') \<longrightarrow> (case r of Inl e \<Rightarrow> E e s' | Inr x \<Rightarrow> Q x s'))"

named_theorems triple_rules \<open>the combinators keep the conditions of a triple\<close>

lemma tripleD:
  assumes "triple P m Q E" and "P s" and "m s = Some (r, s')"
  shows "r = Inl e \<Longrightarrow> E e s'" and "r = Inr x \<Longrightarrow> Q x s'"
  using assms by (auto simp: triple_def split: sum.splits)

lemma triple_weaken:
  assumes "triple P m Q E" and "\<And>s. P' s \<Longrightarrow> P s" and "\<And>x s. Q x s \<Longrightarrow> Q' x s" and "\<And>e s. E e s \<Longrightarrow> E' e s"
  shows "triple P' m Q' E'"
  using assms unfolding triple_def by (fastforce split: sum.splits)

lemma triple_bind [triple_rules]:
  assumes "triple P m Q' E" and "\<And>x. triple (Q' x) (k x) Q E"
  shows "triple P (bind_io m k) Q E"
  unfolding triple_def
proof (intro allI impI)
  fix s r s'
  assume s: "P s" and run: "bind_io m k s = Some (r, s')"
  then obtain q t where q: "m s = Some (q, t)" by (cases "m s") (auto simp: bind_io_def)
  show "case r of Inl e \<Rightarrow> E e s' | Inr x \<Rightarrow> Q x s'"
  proof (cases q)
    case (Inl e)
    then show ?thesis using run q tripleD(1) [OF assms(1) s q] by (auto simp: bind_io_def)
  next
    case (Inr x)
    then have "Q' x t" and "k x t = Some (r, s')" using run q tripleD(2) [OF assms(1) s q] by (auto simp: bind_io_def)
    then show ?thesis using assms(2) [of x] by (auto simp: triple_def)
  qed
qed

lemma triple_then [triple_rules]: "triple P m (\<lambda>_. Q') E \<Longrightarrow> triple Q' k Q E \<Longrightarrow> triple P (then_io m k) Q E"
  unfolding then_io_def by (rule triple_bind)

lemma triple_catch:
  assumes "triple P m Q E'" and "\<And>e. triple (E' e) (h e) Q E"
  shows "triple P (catch_io m h) Q E"
  unfolding triple_def
proof (intro allI impI)
  fix s r s'
  assume s: "P s" and run: "catch_io m h s = Some (r, s')"
  then obtain q t where q: "m s = Some (q, t)" by (cases "m s") (auto simp: catch_io_def)
  show "case r of Inl e \<Rightarrow> E e s' | Inr x \<Rightarrow> Q x s'"
  proof (cases q)
    case (Inr x)
    then show ?thesis using run q tripleD(2) [OF assms(1) s q] by (auto simp: catch_io_def)
  next
    case (Inl e)
    then have "E' e t" and "h e t = Some (r, s')" using run q tripleD(1) [OF assms(1) s q] by (auto simp: catch_io_def)
    then show ?thesis using assms(2) [of e] by (auto simp: triple_def)
  qed
qed

lemma triple_if [triple_rules]: "(b \<Longrightarrow> triple P m Q E) \<Longrightarrow> (\<not> b \<Longrightarrow> triple P k Q E) \<Longrightarrow> triple P (if b then m else k) Q E"
  by simp

lemma triple_option [triple_rules]:
  "(x = None \<Longrightarrow> triple P m Q E) \<Longrightarrow> (\<And>y. x = Some y \<Longrightarrow> triple P (k y) Q E) \<Longrightarrow>
     triple P (case x of None \<Rightarrow> m | Some y \<Rightarrow> k y) Q E"
  by (cases x) simp_all

lemma triple_prod [triple_rules]: "(\<And>a b. triple P (k a b) Q E) \<Longrightarrow> triple P (case x of (a, b) \<Rightarrow> k a b) Q E"
  by (cases x) simp

lemma triple_return: "(\<And>s. P s \<Longrightarrow> Q x s) \<Longrightarrow> triple P (return_io x) Q E"
  and triple_throw: "(\<And>s. P s \<Longrightarrow> E e s) \<Longrightarrow> triple P (throw_io e) Q E"
  and triple_read: "(\<And>s. P s \<Longrightarrow> Q (f s) s) \<Longrightarrow> triple P (read_io f) Q E"
  and triple_modify: "(\<And>s. P s \<Longrightarrow> Q () (g s)) \<Longrightarrow> triple P (modify_io g) Q E"
  by (simp_all add: triple_def io_defs)

lemma triple_leaf:
  "triple P (return_io x) Q E \<longleftrightarrow> (\<forall>s. P s \<longrightarrow> Q x s)" "triple P (throw_io e) Q E \<longleftrightarrow> (\<forall>s. P s \<longrightarrow> E e s)"
  by (simp_all add: triple_def io_defs)

lemma triple_keeps: "keeps I m \<Longrightarrow> triple I m (\<lambda>_. I) (\<lambda>_. I)"
  unfolding triple_def keeps_def by (auto split: sum.split)

section \<open>Everything created is recorded\<close>

text \<open>What the conditions are about: the ledger, the recorded temporary paths and provisional directories.\<close>

type_synonym books = "ledger \<times> jstring set \<times> jstring set"

definition book :: "('w \<times> ledger) job \<Rightarrow> books" where
  "book j = (snd (jb_world j), set (jb_temporaryPaths j), set (jb_provisionalDirectories j))"

text \<open>
  \<open>shared\<close> tells whether shared directories are still provisional; the paths of \<open>qs\<close> are recorded as temporary.
\<close>

fun noted :: "bool \<Rightarrow> jstring set \<Rightarrow> books \<Rightarrow> bool" where
  "noted shared qs (l, ts, ps) \<longleftrightarrow>
     set (lg_private l) \<subseteq> ts \<and> (shared \<longrightarrow> set (lg_shared l) \<subseteq> ps) \<and> qs \<subseteq> ts"

fun private_gone :: "jstring \<Rightarrow> books \<Rightarrow> bool" where
  "private_gone p (l, ts, ps) \<longleftrightarrow> p \<notin> set (lg_private l)"

fun shared_gone :: "jstring \<Rightarrow> books \<Rightarrow> bool" where
  "shared_gone p (l, ts, ps) \<longleftrightarrow> p \<notin> set (lg_shared l)"

abbreviation booked :: "bool \<Rightarrow> jstring set \<Rightarrow> ('w \<times> ledger) job \<Rightarrow> bool" where
  "booked shared qs \<equiv> (\<lambda>j. noted shared qs (book j))"

text \<open>Created, and recorded next.\<close>

fun noted_but :: "bool \<Rightarrow> jstring \<Rightarrow> books \<Rightarrow> bool" where
  "noted_but shared p (l, ts, ps) \<longleftrightarrow> set (lg_private l) \<subseteq> insert p ts \<and> (shared \<longrightarrow> set (lg_shared l) \<subseteq> ps)"

fun noted_but_shared :: "bool \<Rightarrow> jstring \<Rightarrow> books \<Rightarrow> bool" where
  "noted_but_shared shared p (l, ts, ps) \<longleftrightarrow> set (lg_private l) \<subseteq> ts \<and> (shared \<longrightarrow> set (lg_shared l) \<subseteq> insert p ps)"

lemma handle_event_paths [simp]:
  "jb_temporaryPaths (handle_event e j) = jb_temporaryPaths j"
  "jb_provisionalDirectories (handle_event e j) = jb_provisionalDirectories j"
  by (cases e; simp add: cancelOperation_def timeoutOperation_def handleTransportClosed_def resolve_waiter_def
      resolveConflict_def split: option.split)+

lemma apply_events_paths [simp]:
  "jb_temporaryPaths (apply_events es w j) = jb_temporaryPaths j"
  "jb_provisionalDirectories (apply_events es w j) = jb_provisionalDirectories j"
proof -
  have "jb_temporaryPaths (fold handle_event es j) = jb_temporaryPaths j"
    "jb_provisionalDirectories (fold handle_event es j) = jb_provisionalDirectories j" for j :: "'a job"
    by (induction es arbitrary: j) simp_all
  then show "jb_temporaryPaths (apply_events es w j) = jb_temporaryPaths j"
    "jb_provisionalDirectories (apply_events es w j) = jb_provisionalDirectories j"
    by (simp_all add: apply_events_def)
qed

lemma book_events: "book (apply_events es (w, l) j) = (l, snd (book j))"
  by (simp add: book_def)

lemma observed_await:
  assumes "\<And>l ts x. P (l, ts) \<Longrightarrow> Q x (f (Some (Inr x)) l, ts)" and "\<And>l ts e. P (l, ts) \<Longrightarrow> E e (f (Some (Inl e)) l, ts)"
    and "\<And>l ts. P (l, ts) \<Longrightarrow> E (ArchiveFailure ArchiveTimeout) (f None l, ts)"
  shows "triple (\<lambda>j. P (book j)) (await limit (observe f request)) (\<lambda>x j. Q x (book j)) (\<lambda>e j. E e (book j))"
proof -
  have "book j = (snd (jb_world j), snd (book j))" for j :: "('b \<times> ledger) job"
    by (simp add: book_def)
  then show ?thesis
    using assms by (auto simp: triple_def await_def observe_def Let_def book_events split: prod.splits option.splits sum.splits)
qed

lemma observed_wait:
  assumes "\<And>l ts x. P (l, ts) \<Longrightarrow> Q x (f (Some (Inr x)) l, ts)" and "\<And>l ts e. P (l, ts) \<Longrightarrow> E e (f (Some (Inl e)) l, ts)"
    and "\<And>l ts. P (l, ts) \<Longrightarrow> E (ArchiveFailure ArchiveTimeout) (f None l, ts)"
    and "\<And>b. P b \<Longrightarrow> E (ArchiveFailure ArchiveTimeout) b"
  shows "triple (\<lambda>j. P (book j)) (waitForPromiseBeforeDeadline W (observe f request)) (\<lambda>x j. Q x (book j))
    (\<lambda>e j. E e (book j))"
  unfolding triple_def
proof (intro allI impI)
  fix j r j'
  assume p: "P (book j)" and run: "waitForPromiseBeforeDeadline W (observe f request) j = Some (r, j')"
  show "case r of Inl e \<Rightarrow> E e (book j') | Inr x \<Rightarrow> Q x (book j')"
  proof (cases "remainingDuration W j = 0")
    case True
    then show ?thesis using run assms(4) [OF p] by (auto simp: waitForPromiseBeforeDeadline_def throw_io_def)
  next
    case False
    then have "await (jb_deadlineAt j) (observe f request) j = Some (r, j')"
      using run by (simp add: waitForPromiseBeforeDeadline_def)
    moreover have "triple (\<lambda>j. P (book j)) (await (jb_deadlineAt j) (observe f request)) (\<lambda>x j. Q x (book j)) (\<lambda>e j. E e (book j))"
      by (rule observed_await) (rule assms(1-3), assumption)+
    ultimately show ?thesis using p unfolding triple_def by blast
  qed
qed

lemma watch_fields [simp]:
  "rm_lstat (watch files R) p = observe (struck_when_missing p) (rm_lstat R p)"
  "rm_readdir (watch files R) p = observe (released_when_used p) (rm_readdir R p)"
  "rm_readlink (watch files R) p = observe (\<lambda>r l. l) (rm_readlink R p)"
  "rm_mkdir (watch files R) p m = observe (created p m) (rm_mkdir R p m)"
  "rm_rmdir (watch files R) p = observe (\<lambda>r l. struck_when_missing p r (struck_on_success p r l)) (rm_rmdir R p)"
  "rm_unlink (watch files R) p = observe (struck_on_success p) (rm_unlink R p)"
  "rm_rename (watch files R) p q = observe (struck_on_success p) (rm_rename R p q)"
  "rm_readRange (watch files R) p a b = observe (\<lambda>r l. l) (rm_readRange R p a b)"
  "rm_command (watch files R) c = observe (\<lambda>r l. l\<lparr>lg_private := files c (exits_well r) (lg_private l)\<rparr>) (rm_command R c)"
  "rm_uuid (watch files R) w = (fst (rm_uuid R (fst w)), (snd (rm_uuid R (fst w)), snd w))"
  "rm_awaitUser (watch files R) limit w = (fst (rm_awaitUser R limit (fst w)), (snd (rm_awaitUser R limit (fst w)), snd w))"
  by (simp_all add: watch_def)

text \<open>What a request does to the ledger, besides what it keeps.\<close>
lemma watched_requests:
  fixes R :: "'w remote"
  shows
  "triple (booked b qs) (renameRemote (watch files R) p q) (\<lambda>_ j. noted b qs (book j) \<and> private_gone p (book j))
     (\<lambda>_. booked b qs)" (is ?rename)
  "triple (booked b qs) (unlinkRemote (watch files R) p) (\<lambda>_ j. noted b qs (book j) \<and> private_gone p (book j))
     (\<lambda>_. booked b qs)" (is ?unlink)
  "triple (booked b qs) (rmdirRemote (watch files R) p)
     (\<lambda>_ j. noted b qs (book j) \<and> private_gone p (book j) \<and> shared_gone p (book j))
     (\<lambda>e j. noted b qs (book j) \<and> (isNoSuchFileError e \<longrightarrow> shared_gone p (book j)))" (is ?rmdir)
  "triple (booked b qs) (lstatRemote (watch files R) p) (\<lambda>_. booked b qs)
     (\<lambda>e j. noted b qs (book j) \<and> (isNoSuchFileError e \<longrightarrow> private_gone p (book j)))" (is ?lstat)
  "triple (booked b qs) (readdirRemote (watch files R) p)
     (\<lambda>es j. noted b qs (book j) \<and> (0 < length es \<longrightarrow> shared_gone p (book j))) (\<lambda>_. booked b qs)" (is ?readdir)
  "triple (booked b qs) (mkdirRemote (watch files R) p 448) (\<lambda>_ j. noted_but b p (book j))
     (\<lambda>_. booked b qs)" (is ?private)
  "triple (booked b qs) (mkdirRemote (watch files R) p 493) (\<lambda>_ j. noted_but_shared b p (book j))
     (\<lambda>_. booked b qs)" (is ?shared)
proof -
  show ?rename
    unfolding renameRemote_def watch_fields
    by (rule observed_wait [where P = "noted b qs" and Q = "\<lambda>_ x. noted b qs x \<and> private_gone p x" and E = "\<lambda>_. noted b qs"])
      (auto simp: strike_def)
  show ?unlink
    unfolding unlinkRemote_def watch_fields
    by (rule observed_wait [where P = "noted b qs" and Q = "\<lambda>_ x. noted b qs x \<and> private_gone p x" and E = "\<lambda>_. noted b qs"])
      (auto simp: strike_def)
  show ?rmdir
    unfolding rmdirRemote_def watch_fields
    by (rule observed_wait [where P = "noted b qs" and Q = "\<lambda>_ x. noted b qs x \<and> private_gone p x \<and> shared_gone p x"
          and E = "\<lambda>e x. noted b qs x \<and> (isNoSuchFileError e \<longrightarrow> shared_gone p x)"])
      (auto simp: strike_def)
  show ?lstat
    unfolding lstatRemote_def watch_fields
    by (rule observed_wait [where P = "noted b qs" and Q = "\<lambda>_. noted b qs"
          and E = "\<lambda>e x. noted b qs x \<and> (isNoSuchFileError e \<longrightarrow> private_gone p x)"])
      (auto simp: strike_def)
  have "noted b qs (l, ts) \<Longrightarrow> noted b qs (released_when_used p (Some (Inr es)) l, ts) \<and>
      (0 < length es \<longrightarrow> shared_gone p (released_when_used p (Some (Inr es)) l, ts))" for l ts es
    by (cases es; cases ts) auto
  then show ?readdir
    unfolding readdirRemote_def watch_fields
    by (intro observed_wait [where P = "noted b qs" and Q = "\<lambda>es x. noted b qs x \<and> (0 < length es \<longrightarrow> shared_gone p x)"
          and E = "\<lambda>_. noted b qs"]) simp_all
  show ?private
    unfolding mkdirRemote_def watch_fields
    by (rule observed_wait [where P = "noted b qs" and Q = "\<lambda>_. noted_but b p" and E = "\<lambda>_. noted b qs"]) auto
  show ?shared
    unfolding mkdirRemote_def watch_fields
    by (rule observed_wait [where P = "noted b qs" and Q = "\<lambda>_. noted_but_shared b p" and E = "\<lambda>_. noted b qs"]) auto
qed

section \<open>The steps of a run\<close>

text \<open>A procedure that only checks keeps every condition.\<close>
lemma triple_checks: "triple P (assertOperationActive R) (\<lambda>_. P) (\<lambda>_. P)" "triple P no_check (\<lambda>_. P) (\<lambda>_. P)"
  by (auto simp: triple_def assertOperationActive_def no_check_def io_defs)

lemma noted_mono: "noted b qs x \<Longrightarrow> (c \<Longrightarrow> b) \<Longrightarrow> rs \<subseteq> qs \<Longrightarrow> noted c rs x"
  by (cases x) auto

lemma noted_none: "noted b qs x \<Longrightarrow> noted b {} x"
  by (cases x) auto

text \<open>A step that keeps the books, before what follows.\<close>
lemma then_keep:
  assumes "keeps (booked b qs) m" and "triple (booked b qs) k Q (\<lambda>_. booked b {})"
  shows "triple (booked b qs) (then_io m k) Q (\<lambda>_. booked b {})"
  by (rule triple_then [OF triple_weaken [OF triple_keeps [OF assms(1)]] assms(2)]) (auto elim: noted_mono)

lemma bind_keep:
  assumes "keeps (booked b qs) m"
    and "\<And>x. triple (booked b qs) (k x) Q (\<lambda>_. booked b {})"
  shows "triple (booked b qs) (bind_io m k) Q (\<lambda>_. booked b {})"
  by (rule triple_bind [OF triple_weaken [OF triple_keeps [OF assms(1)]] assms(2)]) (auto elim: noted_mono)

lemma only_keep:
  assumes "keeps (booked b qs) m"
  shows "triple (booked b qs) m (\<lambda>_. booked b qs) (\<lambda>_. booked b {})"
  by (rule triple_weaken [OF triple_keeps [OF assms]]) (auto elim: noted_mono)

lemma triple_book:
  "triple (booked b qs) (add_temporary p) (\<lambda>_ j. noted b (insert p qs) (book j)) E"
  "triple (\<lambda>j. noted_but b p (book j)) (add_temporary p) (\<lambda>_. booked b {}) E"
  "triple (\<lambda>j. noted b qs (book j) \<and> private_gone p (book j)) (remove_temporary p) (\<lambda>_ j. noted b (qs - {p}) (book j)) E"
  "triple (\<lambda>j. noted_but_shared b p (book j)) (modify_io (add_provisional p)) (\<lambda>_. booked b {}) E"
  "triple (\<lambda>j. noted b qs (book j) \<and> (b \<longrightarrow> shared_gone p (book j))) (remove_provisional p) (\<lambda>_. booked b qs) E"
  unfolding add_temporary_def remove_temporary_def remove_provisional_def
  by (rule triple_modify; auto simp: book_def add_provisional_def)+

locale watched_tools =
  fixes files :: "jstring \<Rightarrow> bool \<Rightarrow> jstring list \<Rightarrow> jstring list" and R :: "'w remote"
  assumes documented: "documented_files files"
begin

lemma observed_answers:
  assumes "\<And>r l ts. noted b qs (l, ts) \<Longrightarrow> noted b qs (f r l, ts)"
  shows "answers (booked b qs) (observe f request)"
proof -
  have book: "book j = (snd (jb_world j), snd (book j))" for j :: "('b \<times> ledger) job"
    by (simp add: book_def)
  show ?thesis
    unfolding answers_def observe_def Let_def using assms book by (auto simp: book_events split: prod.splits)
qed

lemma quiet_command:
  assumes "\<And>ok ps. set (files c ok ps) \<subseteq> set ps"
  shows "answers (booked b qs) (rm_command (watch files R) c)"
  unfolding watch_fields
proof (rule observed_answers)
  fix r l ts
  assume "noted b qs (l, ts)"
  then show "noted b qs (l\<lparr>lg_private := files c (exits_well r) (lg_private l)\<rparr>, ts)"
    using assms [of "exits_well r" "lg_private l"] by (cases ts) auto
qed

lemma striking:
  "noted b qs (l, ts) \<Longrightarrow> noted b qs (strike p l, ts)"
  "noted b qs (l, ts) \<Longrightarrow> noted b qs (struck_on_success p r l, ts)"
  "noted b qs (l, ts) \<Longrightarrow> noted b qs (struck_when_missing p r' l, ts)"
  "noted b qs (l, ts) \<Longrightarrow> noted b qs (released_when_used p r'' l, ts)"
proof -
  assume noted: "noted b qs (l, ts)"
  then show struck: "noted b qs (strike p l, ts)" by (cases ts) (auto simp: strike_def)
  show "noted b qs (struck_on_success p r l, ts)"
    using noted struck by (cases "(p, r, l)" rule: struck_on_success.cases) simp_all
  show "noted b qs (struck_when_missing p r' l, ts)"
    using noted struck by (cases "(p, r', l)" rule: struck_when_missing.cases) simp_all
  show "noted b qs (released_when_used p r'' l, ts)"
    using noted by (cases "(p, r'', l)" rule: released_when_used.cases; cases ts) auto
qed

sublocale noted: step_keeping "watch files R" "booked b qs" for b qs
proof unfold_locales
  show "answers (booked b qs) (rm_lstat (watch files R) p)"
    "answers (booked b qs) (rm_readdir (watch files R) p)"
    "answers (booked b qs) (rm_readlink (watch files R) p)"
    "answers (booked b qs) (rm_rmdir (watch files R) p)"
    "answers (booked b qs) (rm_unlink (watch files R) p)"
    "answers (booked b qs) (rm_rename (watch files R) p q)"
    "answers (booked b qs) (rm_readRange (watch files R) p a n)" for p q a n
    unfolding watch_fields by (rule observed_answers; (intro striking)?; assumption)+
  show "answers (booked b qs) (rm_command (watch files R) probe_command)"
    using documented by (intro quiet_command) (simp add: documented_files_def)
  fix limit and j :: "('w \<times> ledger) job" and es and w :: "'w \<times> ledger"
  assume "noted b qs (book j)" and "rm_awaitUser (watch files R) limit (jb_world j) = (es, w)"
  then show "noted b qs (book (apply_events es w j))"
    by (cases w) (auto simp: book_def)
qed (auto simp: book_def)

lemmas noted_steps = noted.keeps_steps noted.keeps_remove noted.keeps_merge

text \<open>Removing and moving.\<close>
lemma request_then:
  assumes "triple (booked b qs) m (\<lambda>_ j. booked b qs j \<and> P j) (\<lambda>_. booked b qs)"
  shows "triple (booked b qs) m (\<lambda>_ j. booked b qs j \<and> P j) (\<lambda>_. booked b {})"
  by (rule triple_weaken [OF assms]) (auto elim: noted_mono)

lemma remove_gone:
  "triple (booked b qs) (removeRemoteTree (watch files R) no_check p) (\<lambda>_ j. booked b qs j \<and> private_gone p (book j))
     (\<lambda>_. booked b {})"
proof -
  let ?W = "watch files R"
  have look: "triple (booked b qs) (catch_io (bind_io (lstatRemote ?W p) (\<lambda>mode. return_io (Some mode)))
      (\<lambda>e. if isNoSuchFileError e then return_io None else throw_io e))
     (\<lambda>found j. booked b qs j \<and> (found = None \<longrightarrow> private_gone p (book j))) (\<lambda>_. booked b {})"
    by (rule triple_catch [OF triple_bind [OF watched_requests(4)]])
      (auto simp: triple_leaf intro: noted_none)
  have below: "triple (booked b qs) (if mode_type m \<noteq> S_IFDIR then unlinkRemote ?W p
       else bind_io (readdirRemote ?W p) (\<lambda>entries. then_io no_check (then_io
          (for_each (\<lambda>entry. then_io no_check (removeRemoteTree ?W no_check (posix_join [p, fst entry]))) entries)
          (then_io no_check (rmdirRemote ?W p)))))
     (\<lambda>_ j. booked b qs j \<and> private_gone p (book j)) (\<lambda>_. booked b {})" for m
  proof (intro triple_if request_then [OF watched_requests(2)] bind_keep then_keep noted_steps)
    show "triple (booked b qs) (rmdirRemote ?W p) (\<lambda>_ j. booked b qs j \<and> private_gone p (book j)) (\<lambda>_. booked b {})"
      by (rule triple_weaken [OF watched_requests(3)]) (auto elim: noted_mono)
  qed
  have "triple (booked b qs) (\<lambda>s. removeRemoteTree ?W no_check p s)
     (\<lambda>_ j. booked b qs j \<and> private_gone p (book j)) (\<lambda>_. booked b {})"
    unfolding removeRemoteTree.simps [of ?W no_check p]
  proof (rule then_keep [OF noted.keeps_no_check], rule triple_bind [OF look])
    fix found
    show "triple (\<lambda>j. booked b qs j \<and> (found = None \<longrightarrow> private_gone p (book j)))
      (if found = None then return_io ()
       else then_io no_check (if mode_type (the found) \<noteq> S_IFDIR then unlinkRemote ?W p
          else bind_io (readdirRemote ?W p) (\<lambda>entries. then_io no_check (then_io
            (for_each (\<lambda>entry. then_io no_check (removeRemoteTree ?W no_check (posix_join [p, fst entry]))) entries)
            (then_io no_check (rmdirRemote ?W p))))))
      (\<lambda>_ j. booked b qs j \<and> private_gone p (book j)) (\<lambda>_. booked b {})"
    proof (cases "found = None")
      case False
      have "triple (booked b qs) (then_io no_check (if mode_type (the found) \<noteq> S_IFDIR then unlinkRemote ?W p
          else bind_io (readdirRemote ?W p) (\<lambda>entries. then_io no_check (then_io
            (for_each (\<lambda>entry. then_io no_check (removeRemoteTree ?W no_check (posix_join [p, fst entry]))) entries)
            (then_io no_check (rmdirRemote ?W p))))))
        (\<lambda>_ j. booked b qs j \<and> private_gone p (book j)) (\<lambda>_. booked b {})"
        by (rule then_keep [OF noted.keeps_no_check below])
      then show ?thesis unfolding if_not_P [OF False] by (rule triple_weaken) (use False in auto)
    qed (simp add: triple_return)
  qed
  then show ?thesis by simp
qed

lemma merge_gone:
  "triple (booked b qs) (mergeRemoteEntry (watch files R) (assertOperationActive (watch files R)) p q)
     (\<lambda>_ j. booked b qs j \<and> private_gone p (book j)) (\<lambda>_. booked b {})"
proof -
  let ?W = "watch files R"
  have "triple (booked b qs) (\<lambda>s. mergeRemoteEntry ?W (assertOperationActive ?W) p q s)
     (\<lambda>_ j. booked b qs j \<and> private_gone p (book j)) (\<lambda>_. booked b {})"
    unfolding mergeRemoteEntry.simps [of ?W "assertOperationActive ?W" p q]
    by (intro triple_if bind_keep then_keep noted_steps request_then [OF watched_requests(1)]
        triple_weaken [OF watched_requests(3)]) (auto elim: noted_mono)
  then show ?thesis by simp
qed

lemma forget:
  assumes "triple (booked b qs) m (\<lambda>_ j. booked b qs j \<and> private_gone p (book j)) (\<lambda>_. booked b {})"
    and "triple (booked b {}) k Q (\<lambda>_. booked b {})"
  shows "triple (booked b qs) (then_io m (then_io (remove_temporary p) k)) Q (\<lambda>_. booked b {})"
  by (rule triple_then [OF assms(1)], rule triple_then [OF triple_weaken [OF triple_book(3)] assms(2)])
    (auto elim: noted_mono)

lemma done_io: "triple (booked b qs) (return_io x) (\<lambda>_. booked b qs) (\<lambda>_. booked b {})"
  "triple (booked b qs) (throw_io e) Q (\<lambda>_. booked b {})"
  by (auto simp: triple_leaf intro: noted_none)

text \<open>Commands.\<close>
lemma checked_command:
  assumes "\<And>ok l ts. noted b qs (l, ts) \<Longrightarrow> noted b qs (l\<lparr>lg_private := files c ok (lg_private l)\<rparr>, ts) \<and>
      (ok \<longrightarrow> P (l\<lparr>lg_private := files c ok (lg_private l)\<rparr>, ts))"
  shows "triple (booked b qs) (runCheckedCommand (watch files R) c) (\<lambda>_ j. booked b qs j \<and> P (book j)) (\<lambda>_. booked b {})"
proof -
  let ?W = "watch files R"
  have run: "triple (booked b qs) (await limit (rm_command ?W c))
      (\<lambda>result j. booked b qs j \<and> (cr_exitCode result = Some 0 \<longrightarrow> P (book j))) (\<lambda>_. booked b {})" for limit
  proof -
    have "triple (booked b qs) (await limit (rm_command ?W c))
      (\<lambda>result j. noted b qs (book j) \<and> (cr_exitCode result = Some 0 \<longrightarrow> P (book j))) (\<lambda>_ j. noted b qs (book j))"
      unfolding watch_fields
      by (rule observed_await [where P = "noted b qs" and E = "\<lambda>_. noted b qs"
            and Q = "\<lambda>result x. noted b qs x \<and> (cr_exitCode result = Some 0 \<longrightarrow> P x)"])
        (use assms in \<open>auto simp: exits_well_def\<close>)
    then show ?thesis by (rule triple_weaken) (auto elim: noted_mono)
  qed
  have remote: "triple (booked b qs) (runRemoteCommand ?W c ms)
      (\<lambda>result j. booked b qs j \<and> (cr_exitCode result = Some 0 \<longrightarrow> P (book j))) (\<lambda>_. booked b {})" for ms
    unfolding triple_def
  proof (intro allI impI)
    fix j r j'
    assume j: "booked b qs j" and r: "runRemoteCommand ?W c ms j = Some (r, j')"
    show "case r of Inl e \<Rightarrow> booked b {} j' | Inr x \<Rightarrow> booked b qs j' \<and> (cr_exitCode x = Some 0 \<longrightarrow> P (book j'))"
    proof (cases "ms \<le> 0")
      case True
      then show ?thesis using r j by (auto simp: runRemoteCommand_def throw_io_def elim: noted_mono)
    next
      case False
      then have "await (rm_now ?W (jb_world j) + ms) (rm_command ?W c) j = Some (r, j')"
        using r by (simp add: runRemoteCommand_def)
      then show ?thesis using run j unfolding triple_def by blast
    qed
  qed
  show ?thesis
    unfolding runCheckedCommand_def
  proof (rule then_keep [OF noted.keeps_active], rule bind_keep [OF keeps_simple(3)], rule triple_bind [OF remote])
    fix result
    show "triple (\<lambda>j. booked b qs j \<and> (cr_exitCode result = Some 0 \<longrightarrow> P (book j)))
      (then_io (assertOperationActive ?W) (if cr_exitCode result \<noteq> Some 0 then throw_io (ArchiveFailure ArchiveOperationFailed)
         else return_io result)) (\<lambda>_ j. booked b qs j \<and> P (book j)) (\<lambda>_. booked b {})"
      by (rule triple_then [OF triple_weaken [OF triple_checks(1)]], assumption, assumption)
        (auto simp: triple_leaf intro: noted_none)
  qed
qed

lemma quiet_commands:
  "keeps (booked b qs) (runCheckedCommand (watch files R) (buildArchiveListCommand format archive tools))"
  "keeps (booked b qs) (runCheckedCommand (watch files R) (buildZipIntegrityCommand archive))"
  "keeps (booked b qs) (runCheckedCommand (watch files R) (buildExtractionCommand format archive staging tools))"
proof -
  have laws: "\<forall>format archive tools ok ps. set (files (buildArchiveListCommand format archive tools) ok ps) \<subseteq> set ps"
    "\<forall>archive ok ps. set (files (buildZipIntegrityCommand archive) ok ps) \<subseteq> set ps"
    "\<forall>format archive staging tools ok ps. set (files (buildExtractionCommand format archive staging tools) ok ps) \<subseteq> set ps"
    by (insert documented, unfold documented_files_def, elim conjE, assumption)+
  show "keeps (booked b qs) (runCheckedCommand (watch files R) (buildArchiveListCommand format archive tools))"
    "keeps (booked b qs) (runCheckedCommand (watch files R) (buildZipIntegrityCommand archive))"
    "keeps (booked b qs) (runCheckedCommand (watch files R) (buildExtractionCommand format archive staging tools))"
    by (intro noted.keeps_checked quiet_command laws [rule_format])+
qed

lemma listing_keeps: "keeps (booked b qs) (listArchiveMembers (watch files R) p f ts)"
  unfolding listArchiveMembers_def by (intro noted_steps quiet_commands)

section \<open>Compression and extraction\<close>

lemma compression_command:
  assumes "posix_join [d, t] \<in> qs" and "case i of None \<Rightarrow> True | Some n \<Rightarrow> posix_join [d, n] \<in> qs"
  shows "triple (booked b qs) (runCheckedCommand (watch files R) (buildCompressionCommand f l d t i names tools))
     (\<lambda>_ j. booked b qs j \<and> (case i of None \<Rightarrow> True | Some n \<Rightarrow> private_gone (posix_join [d, n]) (book j)))
     (\<lambda>_. booked b {})"
proof (rule checked_command [where P = "\<lambda>x. case i of None \<Rightarrow> True | Some n \<Rightarrow> private_gone (posix_join [d, n]) x"])
  fix ok l' and ts :: "jstring set \<times> jstring set"
  assume noted: "noted b qs (l', ts)"
  let ?own = "case i of None \<Rightarrow> {} | Some n \<Rightarrow> {posix_join [d, n]}"
  let ?after = "files (buildCompressionCommand f l d t i names tools) ok (lg_private l')"
  have "set ?after \<subseteq> set (lg_private l') \<union> {posix_join [d, t]} \<union> ?own \<and> (ok \<longrightarrow> ?own \<inter> set ?after = {})"
    using conjunct1 [OF documented [unfolded documented_files_def Let_def]] by (elim allE) assumption
  then show "noted b qs (l'\<lparr>lg_private := ?after\<rparr>, ts) \<and>
      (ok \<longrightarrow> (case i of None \<Rightarrow> True | Some n \<Rightarrow> private_gone (posix_join [d, n]) (l'\<lparr>lg_private := ?after\<rparr>, ts)))"
    using noted assms by (cases ts; cases i) auto
qed

lemma compression_books:
  "triple (booked b {}) (runCompression (watch files R) ss d' name level format) (\<lambda>_. booked b {}) (\<lambda>_. booked b {})"
proof -
  let ?W = "watch files R" and ?d = "normalizeRemotePath d'"
  have finish: "triple (booked b qs) (then_io (assertOperationActive ?W) (then_io (set_stage Committing)
      (bind_io (pathExists ?W q) (\<lambda>taken. if taken then throw_io (ArchiveFailure ArchiveTargetExists)
        else then_io (assertOperationActive ?W) (then_io (renameRemote ?W p q) (then_io (remove_temporary p) (return_io [q])))))))
     (\<lambda>_. booked b {}) (\<lambda>_. booked b {})" for qs p q
    by (intro then_keep bind_keep triple_if noted_steps done_io forget request_then [OF watched_requests(1)])
  have rest: "triple (booked b (insert (posix_join [?d, t]) (case i of None \<Rightarrow> {} | Some n \<Rightarrow> {posix_join [?d, n]})))
     (then_io (set_stage Compressing) (bind_io (getToolSet ?W) (\<lambda>tools.
        then_io (runCheckedCommand ?W (buildCompressionCommand format level ?d t i names tools))
        (then_io (case i of None \<Rightarrow> return_io () | Some n \<Rightarrow> remove_temporary (posix_join [?d, n]))
        (then_io (assertOperationActive ?W) (then_io (set_stage Committing)
        (bind_io (pathExists ?W q) (\<lambda>taken. if taken then throw_io (ArchiveFailure ArchiveTargetExists)
          else then_io (assertOperationActive ?W) (then_io (renameRemote ?W (posix_join [?d, t]) q)
            (then_io (remove_temporary (posix_join [?d, t])) (return_io [q])))))))))))
     (\<lambda>_. booked b {}) (\<lambda>_. booked b {})" (is "triple (booked b ?qs) _ _ _") for t i names q
  proof (rule then_keep [OF noted.keeps_caches(1)], rule bind_keep [OF noted.keeps_getToolSet])
    fix tools
    have own: "triple (\<lambda>j. booked b ?qs j \<and> (case i of None \<Rightarrow> True | Some n \<Rightarrow> private_gone (posix_join [?d, n]) (book j)))
      (case i of None \<Rightarrow> return_io () | Some n \<Rightarrow> remove_temporary (posix_join [?d, n]))
      (\<lambda>_. booked b {}) (\<lambda>_. booked b {})"
    proof (cases i)
      case (Some n)
      have "triple (\<lambda>j. booked b ?qs j \<and> private_gone (posix_join [?d, n]) (book j)) (remove_temporary (posix_join [?d, n]))
          (\<lambda>_. booked b {}) (\<lambda>_. booked b {})"
        by (rule triple_weaken [OF triple_book(3)], assumption) (auto elim: noted_mono)
      then show ?thesis using Some by simp
    qed (auto simp: triple_leaf intro: noted_none)
    show "triple (booked b ?qs) (then_io (runCheckedCommand ?W (buildCompressionCommand format level ?d t i names tools))
        (then_io (case i of None \<Rightarrow> return_io () | Some n \<Rightarrow> remove_temporary (posix_join [?d, n]))
        (then_io (assertOperationActive ?W) (then_io (set_stage Committing)
        (bind_io (pathExists ?W q) (\<lambda>taken. if taken then throw_io (ArchiveFailure ArchiveTargetExists)
          else then_io (assertOperationActive ?W) (then_io (renameRemote ?W (posix_join [?d, t]) q)
            (then_io (remove_temporary (posix_join [?d, t])) (return_io [q])))))))))
      (\<lambda>_. booked b {}) (\<lambda>_. booked b {})"
      by (rule triple_then [OF compression_command triple_then [OF own finish]]) (auto split: option.split)
  qed
  have name: "triple (booked b qs) (if isCompressedTarFormat format
        then bind_io (randomUUID ?W) (\<lambda>u. return_io (Some (f u))) else return_io None)
      (\<lambda>_. booked b qs) (\<lambda>_. booked b {})" for qs and f :: "jstring \<Rightarrow> jstring"
    by (intro triple_if bind_keep noted.keeps_randomUUID done_io)
  show ?thesis
    unfolding runCompression_def Let_def
  proof (rule then_keep [OF noted.keeps_inputs], rule bind_keep [OF noted.keeps_randomUUID])
    fix uuid
    let ?t = "temporary_file uuid (archiveExtension format)"
    show "triple (booked b {}) (then_io (add_temporary (posix_join [?d, ?t]))
       (bind_io (if isCompressedTarFormat format then bind_io (randomUUID ?W) (\<lambda>u. return_io (Some (temporary_file u (js ''.tar''))))
                 else return_io None) (\<lambda>i.
        then_io (case i of None \<Rightarrow> return_io () | Some n \<Rightarrow> add_temporary (posix_join [?d, n]))
        (then_io (set_stage Compressing) (bind_io (getToolSet ?W) (\<lambda>tools.
          then_io (runCheckedCommand ?W (buildCompressionCommand format level ?d ?t i
             (map posix_basename (map normalizeRemotePath ss)) tools))
          (then_io (case i of None \<Rightarrow> return_io () | Some n \<Rightarrow> remove_temporary (posix_join [?d, n]))
          (then_io (assertOperationActive ?W) (then_io (set_stage Committing)
          (bind_io (pathExists ?W (posix_join [?d, name])) (\<lambda>taken. if taken then throw_io (ArchiveFailure ArchiveTargetExists)
            else then_io (assertOperationActive ?W) (then_io (renameRemote ?W (posix_join [?d, ?t]) (posix_join [?d, name]))
              (then_io (remove_temporary (posix_join [?d, ?t])) (return_io [posix_join [?d, name]]))))))))))))))
      (\<lambda>_. booked b {}) (\<lambda>_. booked b {})"
    proof (rule triple_then [OF triple_book(1)], rule triple_bind [OF name])
      fix i
      have "triple (booked b {posix_join [?d, ?t]}) (case i of None \<Rightarrow> return_io () | Some n \<Rightarrow> add_temporary (posix_join [?d, n]))
          (\<lambda>_. booked b (insert (posix_join [?d, ?t]) (case i of None \<Rightarrow> {} | Some n \<Rightarrow> {posix_join [?d, n]}))) (\<lambda>_. booked b {})"
      proof (cases i)
        case (Some n)
        show ?thesis
          unfolding Some option.case
          by (rule triple_weaken [OF triple_book(1)], assumption) (auto elim: noted_mono)
      qed (auto simp: triple_leaf intro: noted_none)
      then show "triple (booked b {posix_join [?d, ?t]})
        (then_io (case i of None \<Rightarrow> return_io () | Some n \<Rightarrow> add_temporary (posix_join [?d, n]))
        (then_io (set_stage Compressing) (bind_io (getToolSet ?W) (\<lambda>tools.
          then_io (runCheckedCommand ?W (buildCompressionCommand format level ?d ?t i
             (map posix_basename (map normalizeRemotePath ss)) tools))
          (then_io (case i of None \<Rightarrow> return_io () | Some n \<Rightarrow> remove_temporary (posix_join [?d, n]))
          (then_io (assertOperationActive ?W) (then_io (set_stage Committing)
          (bind_io (pathExists ?W (posix_join [?d, name])) (\<lambda>taken. if taken then throw_io (ArchiveFailure ArchiveTargetExists)
            else then_io (assertOperationActive ?W) (then_io (renameRemote ?W (posix_join [?d, ?t]) (posix_join [?d, name]))
              (then_io (remove_temporary (posix_join [?d, ?t])) (return_io [posix_join [?d, name]]))))))))))))
        (\<lambda>_. booked b {}) (\<lambda>_. booked b {})"
        by (rule triple_then [OF _ rest])
    qed
  qed
qed

lemma made_directory:
  "triple (booked b qs) (then_io (mkdirRemote (watch files R) p 448) (add_temporary p)) (\<lambda>_. booked b {}) (\<lambda>_. booked b {})"
  by (rule triple_then [OF triple_weaken [OF watched_requests(6)] triple_book(2)]) (auto intro: noted_none)

lemma then_assoc: "then_io m (then_io k l) = then_io (then_io m k) l"
  by (rule ext) (simp add: then_io_def bind_io_def split: option.split prod.split sum.split)

lemma commit_unique_books:
  "triple (booked b qs) (commit_unique (watch files R) staging p) (\<lambda>_. booked b {}) (\<lambda>_. booked b {})"
  unfolding commit_unique_def
  by (intro bind_keep then_keep forget request_then [OF watched_requests(1)] noted_steps done_io)

lemma commit_books:
  "triple (booked b qs) (commitExtractedEntries (watch files R) staging d a mode) (\<lambda>_. booked b {}) (\<lambda>_. booked b {})"
  unfolding commitExtractedEntries_def Let_def
  by (intro triple_if commit_unique_books forget request_then [OF watched_requests(1)] merge_gone remove_gone done_io
      bind_keep then_keep noted_steps noted.keeps_waitForConflicts noted.keeps_find_conflicts noted.keeps_commit_entries
      keeps_intros)

lemma extract_books:
  "triple (booked b {}) (extract_into (watch files R) a p f expanded tools mode d) (\<lambda>_. booked b {}) (\<lambda>_. booked b {})"
proof -
  let ?W = "watch files R"
  have unpacked: "triple (booked b {}) (case expanded of None \<Rightarrow> return_io () | Some q \<Rightarrow> then_io (unlinkRemote ?W q) (remove_temporary q))
      (\<lambda>_. booked b {}) (\<lambda>_. booked b {})"
  proof (cases expanded)
    case (Some q)
    have "triple (booked b {}) (then_io (unlinkRemote ?W q) (remove_temporary q)) (\<lambda>_. booked b {}) (\<lambda>_. booked b {})"
      by (rule triple_then [OF watched_requests(2) triple_weaken [OF triple_book(3)]]) (auto intro: noted_none)
    then show ?thesis using Some by simp
  qed (simp add: triple_leaf)
  have verify: "triple (booked b {}) (then_io (assertOperationActive ?W) (then_io (set_stage Verifying)
      (then_io (validateStagedTree ?W (assertOperationActive ?W) staging (Some S_IFDIR) staging)
      (then_io (set_stage Committing) (commitExtractedEntries ?W staging d a mode)))))
     (\<lambda>_. booked b {}) (\<lambda>_. booked b {})" for staging
    by (rule then_keep [OF noted.keeps_active], rule then_keep [OF noted.keeps_caches(1)],
      rule then_keep [OF noted.keeps_validateStagedTree [OF noted.keeps_active]],
      rule then_keep [OF noted.keeps_caches(1)], rule commit_books)
  show ?thesis
    unfolding extract_into_def Let_def then_assoc [of "mkdirRemote ?W _ 448"]
    by (rule bind_keep [OF listing_keeps], rule triple_if, rule done_io(2), rule bind_keep [OF noted.keeps_randomUUID],
      rule triple_then [OF made_directory], rule then_keep [OF noted.keeps_caches(1)], rule then_keep [OF quiet_commands(3)],
      rule triple_then [OF unpacked verify])
qed

lemma create_missing_books:
  "triple (booked b {}) (create_missing (watch files R) made paths) (\<lambda>_. booked b {}) (\<lambda>_. booked b {})"
proof (induction paths arbitrary: made)
  case (Cons p paths)
  let ?W = "watch files R"
  have create: "triple (booked b {}) (then_io (mkdirRemote ?W p 493) (then_io (modify_io (add_provisional p)) (return_io True)))
      (\<lambda>_. booked b {}) (\<lambda>_. booked b {})"
    by (rule triple_then [OF watched_requests(7)], rule triple_then [OF triple_book(4)]) (simp add: triple_leaf)
  have look: "keeps (booked b {}) (catch_io (bind_io (lstatRemote ?W p) (\<lambda>mode. return_io (mode_type mode = S_IFDIR)))
      (\<lambda>_. return_io False))"
    by (intro noted_steps)
  show ?case
    unfolding create_missing.simps
    by (rule then_keep [OF noted.keeps_active], rule triple_bind [OF triple_catch [OF create bind_keep [OF look]] Cons.IH])
      (intro triple_if done_io)
qed (simp add: triple_leaf)

lemma ensure_books:
  "triple (booked b {}) (ensureRemoteDirectory (watch files R) p) (\<lambda>_. booked b {}) (\<lambda>_. booked b {})"
  unfolding ensureRemoteDirectory_def
  by (rule bind_keep [OF noted.keeps_missing_paths create_missing_books])

lemma expansion_command:
  "triple (booked b {p}) (runCheckedCommand (watch files R) (buildCompressedTarExpansionCommand f a p))
     (\<lambda>_. booked b {p}) (\<lambda>_. booked b {})"
proof -
  have laws: "\<forall>format archive target ok ps.
      set (files (buildCompressedTarExpansionCommand format archive target) ok ps) \<subseteq> set ps \<union> {target}"
    by (insert documented, unfold documented_files_def, elim conjE, assumption)
  have "triple (booked b {p}) (runCheckedCommand (watch files R) (buildCompressedTarExpansionCommand f a p))
     (\<lambda>_ j. booked b {p} j \<and> True) (\<lambda>_. booked b {})"
  proof (rule checked_command)
    fix ok l and ts :: "jstring set \<times> jstring set"
    assume "noted b {p} (l, ts)"
    then show "noted b {p} (l\<lparr>lg_private := files (buildCompressedTarExpansionCommand f a p) ok (lg_private l)\<rparr>, ts) \<and> (ok \<longrightarrow> True)"
      using laws [rule_format, of f a p ok "lg_private l"] by (cases ts) auto
  qed
  then show ?thesis by simp
qed

text \<open>Shared directories stay when the extraction succeeded.\<close>
lemma extraction_books:
  "triple (booked True {}) (runExtraction (watch files R) a' t' mode format) (\<lambda>_. booked False {}) (\<lambda>_. booked True {})"
proof -
  let ?W = "watch files R" and ?a = "normalizeRemotePath a'" and ?d = "normalizeRemotePath t'"
  have keep: "triple (booked True {}) (for_each remove_provisional ps) (\<lambda>_. booked False {}) (\<lambda>_. booked True {})" for ps
  proof -
    have all: "triple (booked False {}) (for_each remove_provisional ps) (\<lambda>_. booked False {}) (\<lambda>_. booked True {})"
    proof (induction ps)
      case (Cons p ps)
      have one: "triple (booked False {}) (remove_provisional p) (\<lambda>_. booked False {}) (\<lambda>_. booked True {})"
        by (rule triple_weaken [OF triple_book(5) [of False "{}"]]) auto
      then show ?case using triple_then [OF one Cons.IH] by simp
    qed (simp add: triple_leaf)
    show ?thesis by (rule triple_weaken [OF all]) (auto elim: noted_mono)
  qed
  have expanded: "triple (booked True {}) (if isCompressedTarFormat format
      then bind_io (randomUUID ?W) (\<lambda>uuid. then_io (add_temporary (posix_join [?d, temporary_file uuid (js ''.tar'')]))
        (then_io (runCheckedCommand ?W (buildCompressedTarExpansionCommand format ?a (posix_join [?d, temporary_file uuid (js ''.tar'')])))
        (then_io (validateArchiveHeader ?W (posix_join [?d, temporary_file uuid (js ''.tar'')]) Tar)
        (return_io (Some (posix_join [?d, temporary_file uuid (js ''.tar'')]))))))
      else return_io None) (\<lambda>_. booked True {}) (\<lambda>_. booked True {})"
  proof (rule triple_if, rule bind_keep [OF noted.keeps_randomUUID])
    fix uuid
    let ?p = "posix_join [?d, temporary_file uuid (js ''.tar'')]"
    show "triple (booked True {}) (then_io (add_temporary ?p)
        (then_io (runCheckedCommand ?W (buildCompressedTarExpansionCommand format ?a ?p))
        (then_io (validateArchiveHeader ?W ?p Tar) (return_io (Some ?p))))) (\<lambda>_. booked True {}) (\<lambda>_. booked True {})"
      by (rule triple_then [OF triple_book(1)], rule triple_then [OF expansion_command],
        rule then_keep [OF noted.keeps_validateArchiveHeader]) (auto simp: triple_leaf intro: noted_none)
  qed (simp add: triple_leaf)
  show ?thesis
    unfolding runExtraction_def Let_def
  proof (intro triple_if done_io(2), rule bind_keep [OF noted.keeps_requests(1)], intro triple_if done_io(2))
    fix archiveMode
    show "triple (booked True {}) (bind_io (ensureRemoteDirectory ?W ?d) (\<lambda>createdDirectories.
        then_io (validateArchiveHeader ?W ?a format) (bind_io (getToolSet ?W) (\<lambda>tools.
        bind_io (if isCompressedTarFormat format
          then bind_io (randomUUID ?W) (\<lambda>uuid. then_io (add_temporary (posix_join [?d, temporary_file uuid (js ''.tar'')]))
            (then_io (runCheckedCommand ?W (buildCompressedTarExpansionCommand format ?a (posix_join [?d, temporary_file uuid (js ''.tar'')])))
            (then_io (validateArchiveHeader ?W (posix_join [?d, temporary_file uuid (js ''.tar'')]) Tar)
            (return_io (Some (posix_join [?d, temporary_file uuid (js ''.tar'')]))))))
          else return_io None) (\<lambda>expanded.
        bind_io (case expanded of None \<Rightarrow> extract_into ?W ?a ?a format None tools mode ?d
            | Some p \<Rightarrow> extract_into ?W ?a p Tar expanded tools mode ?d) (\<lambda>resultPaths.
        then_io (for_each remove_provisional createdDirectories) (return_io resultPaths)))))))
      (\<lambda>_. booked False {}) (\<lambda>_. booked True {})"
      by (rule triple_bind [OF ensure_books], rule then_keep [OF noted.keeps_validateArchiveHeader],
        rule bind_keep [OF noted.keeps_getToolSet], rule triple_bind [OF expanded], rule triple_bind,
        rule triple_option, rule extract_books, rule extract_books, rule triple_then [OF keep], simp add: triple_leaf)
  qed
qed

lemma request_books:
  "triple (booked True {}) (run_request (watch files R) request format) (\<lambda>_. booked False {}) (\<lambda>_. booked True {})"
proof -
  have compress: "triple (booked True {}) (runCompression (watch files R) ss d n l f) (\<lambda>_. booked False {}) (\<lambda>_. booked True {})"
    for ss d n l f
    by (rule triple_weaken [OF compression_books]) (auto elim: noted_mono)
  show ?thesis
    unfolding run_request_def Let_def
    by (rule bind_keep [OF noted.keeps_getCapabilities], rule bind_keep [OF keeps_simple(3)], intro triple_if done_io(2),
      cases request) (auto intro: compress extraction_books)
qed

section \<open>Cleaning up\<close>

lemma cleanup_paths_books:
  "triple (booked b {}) (cleanup_paths (watch files R) ok paths) (\<lambda>_. booked b {}) (\<lambda>_. booked b {})"
proof (induction paths arbitrary: ok)
  case (Cons p paths)
  have del: "triple (booked b {}) (then_io (removeRemoteTree (watch files R) no_check p)
      (then_io (remove_temporary p) (return_io None))) (\<lambda>_. booked b {}) (\<lambda>_. booked b {})"
    by (rule forget [OF remove_gone done_io(1)])
  have one: "triple (booked b {}) (catch_io (then_io (removeRemoteTree (watch files R) no_check p)
      (then_io (remove_temporary p) (return_io None))) (\<lambda>e. return_io (Some e))) (\<lambda>_. booked b {}) (\<lambda>_. booked b {})"
    by (rule triple_catch [OF del]) (simp add: triple_leaf)
  show ?case
    unfolding cleanup_paths.simps
    by (rule triple_bind [OF one], rule triple_option, rule Cons.IH, rule triple_if, rule done_io(1), rule Cons.IH)
qed (simp add: triple_leaf)

lemma cleanup_directories_books:
  "triple (booked b {}) (cleanup_directories (watch files R) ok paths) (\<lambda>_. booked b {}) (\<lambda>_. booked b {})"
proof (induction paths arbitrary: ok)
  case (Cons p paths)
  let ?W = "watch files R"
  have gone: "triple (\<lambda>j. booked b {} j \<and> shared_gone p (book j)) (then_io (remove_provisional p) (return_io (None :: failure option)))
      (\<lambda>_. booked b {}) E" for E
  proof (rule triple_then)
    show "triple (\<lambda>j. booked b {} j \<and> shared_gone p (book j)) (remove_provisional p) (\<lambda>_. booked b {}) E"
      by (rule triple_weaken [OF triple_book(5) [of b "{}"]]) auto
  qed (simp add: triple_leaf)
  have removed: "triple (booked b {}) (then_io (rmdirRemote ?W p) (then_io (remove_provisional p) (return_io (None :: failure option))))
      (\<lambda>_. booked b {}) (\<lambda>e j. booked b {} j \<and> (isNoSuchFileError e \<longrightarrow> shared_gone p (book j)))"
    by (rule triple_then [OF watched_requests(3)], rule triple_weaken [OF gone]) auto
  have occupied: "triple (booked b {}) (catch_io (bind_io (readdirRemote ?W p) (\<lambda>entries. return_io (length entries > 0)))
       (\<lambda>_. return_io False)) (\<lambda>occupied j. booked b {} j \<and> (occupied \<longrightarrow> shared_gone p (book j))) (\<lambda>_. booked b {})"
    by (rule triple_catch [OF triple_bind [OF watched_requests(5)]]) (auto simp: triple_leaf)
  have handler: "triple (\<lambda>j. booked b {} j \<and> (isNoSuchFileError e \<longrightarrow> shared_gone p (book j)))
      (if isNoSuchFileError e then then_io (remove_provisional p) (return_io None)
       else bind_io (catch_io (bind_io (readdirRemote ?W p) (\<lambda>entries. return_io (length entries > 0))) (\<lambda>_. return_io False))
         (\<lambda>occupied. if occupied then then_io (remove_provisional p) (return_io None) else return_io (Some e)))
      (\<lambda>_. booked b {}) (\<lambda>_. booked b {})" for e
  proof (cases "isNoSuchFileError e")
    case True
    then show ?thesis using gone by simp
  next
    case False
    have "triple (booked b {}) (bind_io (catch_io (bind_io (readdirRemote ?W p) (\<lambda>entries. return_io (length entries > 0))) (\<lambda>_. return_io False))
         (\<lambda>occupied. if occupied then then_io (remove_provisional p) (return_io None) else return_io (Some e)))
       (\<lambda>_. booked b {}) (\<lambda>_. booked b {})"
      by (rule triple_bind [OF occupied]) (auto simp: triple_leaf intro!: triple_if gone)
    then show ?thesis using False by simp
  qed
  show ?case
    unfolding cleanup_directories.simps
    by (rule triple_bind [OF triple_catch [OF removed handler]])
      (auto simp: triple_leaf intro!: triple_option triple_if Cons.IH)
qed (simp add: triple_leaf)

lemma cleanup_books:
  "triple (booked b {}) (performTemporaryPathCleanup (watch files R)) (\<lambda>_. booked b {}) (\<lambda>_. booked b {})"
  unfolding performTemporaryPathCleanup_def
  by (rule bind_keep [OF keeps_simple(3)], rule triple_bind [OF cleanup_paths_books], rule triple_prod, rule triple_if,
    rule done_io(1), rule bind_keep [OF keeps_simple(3)], rule cleanup_directories_books)

text \<open>The books at the end: shared directories are still recorded when the operation was cancelled.\<close>
lemma operation_books:
  "triple (booked True {}) (runOperation (watch files R) request format)
     (\<lambda>_ j. booked (jb_state j = Cancelled) {} j) (\<lambda>_ _. True)"
proof -
  let ?W = "watch files R"
  have "triple (booked True {}) (bind_io (run_request ?W request format) (\<lambda>resultPaths.
      then_io (modify_io (\<lambda>j. j\<lparr>jb_resultPaths := Some resultPaths\<rparr>)) (return_io Succeeded)))
     (\<lambda>t. booked (t = Cancelled) {}) (\<lambda>_. booked True {})"
    by (rule triple_bind [OF request_books]) (auto simp: triple_def io_defs book_def)
  moreover have "triple (booked True {}) (record_failure e) (\<lambda>t. booked (t = Cancelled) {}) (\<lambda>_ _. True)" for e
    by (auto simp: triple_def record_failure_def book_def split: option.splits if_splits)
  ultimately have ran: "triple (booked True {}) (catch_io (bind_io (run_request ?W request format) (\<lambda>resultPaths.
      then_io (modify_io (\<lambda>j. j\<lparr>jb_resultPaths := Some resultPaths\<rparr>)) (return_io Succeeded))) record_failure)
     (\<lambda>t. booked (t = Cancelled) {}) (\<lambda>_ _. True)"
    by (rule triple_catch)
  have cleaned: "triple (booked b {}) (performTemporaryPathCleanup ?W) (\<lambda>_. booked b {}) (\<lambda>_ _. True)" for b
    by (rule triple_weaken [OF cleanup_books]) simp_all
  have fin: "triple (booked (t = Cancelled) {}) (then_io (modify_io begin_cleanup) (bind_io (performTemporaryPathCleanup ?W) (\<lambda>cleaned.
       if cleaned then modify_io (finish_operation t)
       else then_io (modify_io record_cleanup_failure) (modify_io (finish_operation Failed)))))
     (\<lambda>_ j. booked (jb_state j = Cancelled) {} j) (\<lambda>_ _. True)" for t
  proof (rule triple_then [OF triple_modify [where Q = "\<lambda>_. booked (t = Cancelled) {}"]], simp add: book_def begin_cleanup_def,
      rule triple_bind [OF cleaned], rule triple_if)
    show "triple (booked (t = Cancelled) {}) (modify_io (finish_operation t)) (\<lambda>_ j. booked (jb_state j = Cancelled) {} j) (\<lambda>_ _. True)"
      by (rule triple_modify) (simp add: book_def finish_operation_def)
    show "triple (booked (t = Cancelled) {}) (then_io (modify_io record_cleanup_failure) (modify_io (finish_operation Failed)))
      (\<lambda>_ j. booked (jb_state j = Cancelled) {} j) (\<lambda>_ _. True)"
      by (auto simp: triple_def io_defs book_def finish_operation_def record_cleanup_failure_def)
  qed
  show ?thesis unfolding runOperation_def by (rule triple_bind [OF ran fin])
qed

end

end
