(* ===== verification/ShellWords.thy ===== *)
theory ShellWords
  imports ArchiveCommands
begin

text \<open>
  What a POSIX shell reads in the commands of \<open>ArchiveCommands\<close>.  The token recognition is the
  reference that the commands are checked against (POSIX 2.3, token recognition, and 2.2, quoting):
  it gives \<open>None\<close> for a text that would make the shell expand, glob, group, substitute, split into
  several lists or wait for a closing quote, so that whatever it accepts is read as plain words.
\<close>

section \<open>Token recognition\<close>

datatype shell_token = Word jstring | AndIf | RedirectOut

definition end_word :: "jstring option \<Rightarrow> shell_token list" where
  "end_word cur = (case cur of None \<Rightarrow> [] | Some w \<Rightarrow> [Word w])"

definition extend_word :: "jstring option \<Rightarrow> jstring \<Rightarrow> jstring option" where
  "extend_word cur w = Some ((case cur of None \<Rightarrow> [] | Some u \<Rightarrow> u) @ w)"

text \<open>Unquoted, these start something else than a word or change it.\<close>

definition shell_special :: "nat \<Rightarrow> bool" where
  "shell_special c \<longleftrightarrow> c \<in> {10, 33, 34, 35, 36, 38, 40, 41, 42, 59, 60, 62, 63, 91, 93, 94, 96, 123, 124, 125, 126}"

definition io_number :: "jstring option \<Rightarrow> bool" where
  "io_number cur \<longleftrightarrow> (case cur of None \<Rightarrow> False | Some w \<Rightarrow> w \<noteq> [] \<and> list_all (\<lambda>c. 48 \<le> c \<and> c \<le> 57) w)"

function shell_tokens :: "jstring option \<Rightarrow> jstring \<Rightarrow> shell_token list option" where
  "shell_tokens cur [] = Some (end_word cur)"
| "shell_tokens cur (c # s) =
     (if c = 39 then
        (let inner = takeWhile (\<lambda>d. d \<noteq> 39) s; r = dropWhile (\<lambda>d. d \<noteq> 39) s
         in if r = [] then None else shell_tokens (extend_word cur inner) (tl r))
      else if c = 92 then
        (if s = [] then None
         else shell_tokens (if hd s = 10 then cur else extend_word cur [hd s]) (tl s))
      else if c = 32 \<or> c = 9 then map_option (\<lambda>ts. end_word cur @ ts) (shell_tokens None s)
      else if c = 38 \<and> starts_with s [38]
      then map_option (\<lambda>ts. end_word cur @ AndIf # ts) (shell_tokens None (tl s))
      else if c = 62 \<and> \<not> io_number cur \<and> (s = [] \<or> hd s \<notin> {38, 62, 124})
      then map_option (\<lambda>ts. end_word cur @ RedirectOut # ts) (shell_tokens None s)
      else if shell_special c then None
      else shell_tokens (extend_word cur [c]) s)"
  by pat_completeness auto
termination
proof (relation "measure (length \<circ> snd)", goal_cases)
  case (2 cur c s inner r)
  then show ?case using length_dropWhile_le [of "\<lambda>d. d \<noteq> 39" s] by (cases "dropWhile (\<lambda>d. d \<noteq> 39) s") auto
next
  case (3 cur c s)
  then show ?case by (cases s) auto
next
  case (5 cur c s)
  then show ?case by (cases s) auto
qed auto

declare shell_tokens.simps(2) [simp del]

lemma shell_plain:
  "\<not> shell_special c \<Longrightarrow> c \<notin> {9, 32, 39, 92} \<Longrightarrow> shell_tokens cur (c # s) = shell_tokens (extend_word cur [c]) s"
  by (subst shell_tokens.simps) (auto simp: shell_special_def)

lemma shell_space:
  "shell_tokens cur (32 # s) = map_option (\<lambda>ts. end_word cur @ ts) (shell_tokens None s)"
  by (subst shell_tokens.simps) simp

lemma shell_and:
  "shell_tokens cur (38 # 38 # s) = map_option (\<lambda>ts. end_word cur @ AndIf # ts) (shell_tokens None s)"
  by (subst shell_tokens.simps) simp

lemma shell_redirect:
  "shell_tokens None (62 # 32 # s) = map_option (Cons RedirectOut) (shell_tokens None (32 # s))"
  by (subst shell_tokens.simps) (simp add: io_number_def end_word_def)

lemma shell_quoted:
  "39 \<notin> set p \<Longrightarrow> shell_tokens cur (39 # p @ 39 # s) = shell_tokens (extend_word cur p) s"
  by (subst shell_tokens.simps) (simp add: Let_def takeWhile_not_in dropWhile_not_in)

lemma shell_backslash:
  "d \<noteq> 10 \<Longrightarrow> shell_tokens cur (92 # d # s) = shell_tokens (extend_word cur [d]) s"
  by (subst shell_tokens.simps) simp

lemma extend_extend [simp]: "extend_word (extend_word cur v) w = extend_word cur (v @ w)"
  by (simp add: extend_word_def)

lemma escape_quotes_Cons:
  "escape_quotes (c # v) = (if c = 39 then [39, 92, 39, 39] @ escape_quotes v else c # escape_quotes v)"
  by (simp add: escape_quotes_def)

lemma escape_quotes_Nil [simp]: "escape_quotes [] = []"
  by (simp add: escape_quotes_def)

text \<open>Whatever the text is, the shell reads a quoted token as exactly that text.\<close>
lemma shell_escaped:
  "39 \<notin> set p \<Longrightarrow> shell_tokens cur (39 # p @ escape_quotes v @ 39 # s) = shell_tokens (extend_word cur (p @ v)) s"
proof (induction v arbitrary: p cur)
  case (Cons c v)
  show ?case
  proof (cases "c = 39")
    case True
    have "shell_tokens cur (39 # p @ escape_quotes (c # v) @ 39 # s) =
        shell_tokens cur (39 # p @ 39 # 92 # 39 # 39 # escape_quotes v @ 39 # s)"
      using True by (simp add: escape_quotes_Cons)
    also have "\<dots> = shell_tokens (extend_word (extend_word cur p) [39]) (39 # [] @ escape_quotes v @ 39 # s)"
      using Cons.prems by (simp add: shell_quoted shell_backslash)
    also have "\<dots> = shell_tokens (extend_word (extend_word (extend_word cur p) [39]) ([] @ v)) s"
      by (rule Cons.IH) simp
    finally show ?thesis using True by simp
  next
    case False
    then show ?thesis
      using Cons.IH [of "p @ [c]" cur] Cons.prems by (simp add: escape_quotes_Cons)
  qed
qed (simp add: shell_quoted)

lemma shell_quote:
  "shell_tokens cur (quotePosixShellToken v @ s) = shell_tokens (extend_word cur v) s"
  using shell_escaped [of "[]" cur v s] by (simp add: quotePosixShellToken_def)

lemma shell_quote_end: "shell_tokens cur (quotePosixShellToken v) = Some (end_word (extend_word cur v))"
  using shell_quote [of cur v "[]"] by simp

text \<open>A literal without special characters is a piece of a word.\<close>
lemma shell_literal:
  "list_all (\<lambda>c. \<not> shell_special c \<and> c \<notin> {9, 32, 39, 92}) w \<Longrightarrow> w \<noteq> [] \<Longrightarrow>
     shell_tokens cur (w @ s) = shell_tokens (extend_word cur w) s"
proof (induction w arbitrary: cur)
  case (Cons c w)
  then show ?case
    by (cases "w = []") (auto simp: shell_plain)
qed simp

end
