(* ===== verification/ShellCommands.thy ===== *)
theory ShellCommands
  imports ShellWords
begin

text \<open>
  The words that a shell reads in each command of the archive service, as the reference
  \<open>shell_tokens\<close> recognizes them.
\<close>

lemma end_extend [simp]: "end_word (extend_word None w) = [Word w]" "end_word None = []"
  by (simp_all add: end_word_def extend_word_def)

lemmas shell_steps = shell_plain shell_space shell_and shell_redirect shell_quote shell_quote_end

lemma special_cases [simp]:
  "shell_special c \<longleftrightarrow> c = 10 \<or> c = 33 \<or> c = 34 \<or> c = 35 \<or> c = 36 \<or> c = 38 \<or> c = 40 \<or> c = 41 \<or> c = 42 \<or>
     c = 59 \<or> c = 60 \<or> c = 62 \<or> c = 63 \<or> c = 91 \<or> c = 93 \<or> c = 94 \<or> c = 96 \<or> c = 123 \<or> c = 124 \<or> c = 125 \<or> c = 126"
  by (auto simp: shell_special_def)

lemma sources_Cons:
  "quote_sources (n # m # ns) = quotePosixShellToken (here n) @ 32 # quote_sources (m # ns)"
  by (simp add: quote_sources_def)

lemma sources_Nil [simp]: "quote_sources [] = []" "quote_sources [n] = quotePosixShellToken (here n)"
  by (simp_all add: quote_sources_def)

lemma shell_sources:
  "shell_tokens None (quote_sources names @ 32 # s) =
     map_option (\<lambda>ts. map (\<lambda>n. Word (here n)) names @ ts) (shell_tokens None s)"
proof (induction names rule: induct_list012)
  case (3 n m ns)
  then show ?case by (simp add: sources_Cons shell_steps option.map_comp o_def)
qed (simp_all add: shell_steps option.map_comp o_def)

lemma shell_sources_end:
  "shell_tokens None (quote_sources names) = Some (map (\<lambda>n. Word (here n)) names)"
proof (induction names rule: induct_list012)
  case (3 n m ns)
  then show ?case by (simp add: sources_Cons shell_steps)
qed (simp_all add: shell_steps)

text \<open>The expected words of a compression.\<close>

definition words :: "jstring list \<Rightarrow> shell_token list" where
  "words ws = map Word ws"

definition compression_tokens ::
  "archive_format \<Rightarrow> compression_level \<Rightarrow> jstring \<Rightarrow> jstring \<Rightarrow> jstring \<Rightarrow> jstring list \<Rightarrow> jstring list \<Rightarrow> shell_token list" where
  "compression_tokens format level directory temporary intermediate sources tools =
     words [js ''cd'', directory] @ [AndIf] @
     (if format = Tar
      then words ([js ''tar'', js ''-cf'', here temporary, js ''--''] @ map here sources)
      else if isCompressedTarFormat format
      then words ([js ''tar'', js ''-cf'', here intermediate, js ''--''] @ map here sources) @ [AndIf] @
        words [compressor format, js ''-'' @ numericCompressionLevel level, js ''-c'', js ''--'', here intermediate] @
        [RedirectOut] @ words [here temporary] @ [AndIf] @
        words [js ''rm'', js ''-f'', js ''--'', here intermediate]
      else if format = Zip \<and> js ''zip'' \<in> set tools
      then words ([js ''zip'', js ''-q'', js ''-r'', js ''-y'', js ''-'' @ numericCompressionLevel level,
        here temporary, js ''--''] @ map here sources)
      else words ([seven_zip tools, js ''a'', js ''-bd'', js ''-y'', js ''-mx='' @ numericCompressionLevel level,
        js ''-snl'', js ''--'', here temporary] @ map here sources))"

lemma compression_words:
  "shell_tokens None (buildCompressionCommand format level directory temporary intermediateName sources tools) =
     Some (compression_tokens format level directory temporary
       (case intermediateName of None \<Rightarrow> temporary @ js ''.tar'' | Some n \<Rightarrow> n) sources tools)"
  by (cases format; cases level)
    (simp_all add: buildCompressionCommand_def compression_tokens_def words_def Let_def isCompressedTarFormat_def
      compressor_def seven_zip_def js_simps shell_steps shell_sources shell_sources_end option.map_comp o_def)

text \<open>The other commands.\<close>

definition list_tokens :: "archive_format \<Rightarrow> jstring \<Rightarrow> jstring list \<Rightarrow> shell_token list" where
  "list_tokens format archive tools =
     words (if format = Tar \<or> isCompressedTarFormat format
       then [js ''exec'', js ''tar'', js ''-t'' @ tar_flag format @ js ''f'', archive]
       else if format = Zip \<and> js ''unzip'' \<in> set tools
       then [js ''exec'', js ''unzip'', js ''-Z1'', js ''--'', archive]
       else [js ''exec'', seven_zip tools, js ''l'', js ''-slt'', js ''-p'' @ UNSUPPORTED_PASSWORD, js ''--'', archive])"

definition extraction_tokens :: "archive_format \<Rightarrow> jstring \<Rightarrow> jstring \<Rightarrow> jstring list \<Rightarrow> shell_token list" where
  "extraction_tokens format archive staging tools =
     words (if format = Tar \<or> isCompressedTarFormat format
       then [js ''exec'', js ''tar'', js ''-x'' @ tar_flag format @ js ''f'', archive, js ''-C'', staging, js ''--'']
       else if format = Zip \<and> js ''unzip'' \<in> set tools
       then [js ''exec'', js ''unzip'', js ''-P'', [], js ''-qq'', js ''-n'', js ''--'', archive, js ''-d'', staging]
       else [js ''exec'', seven_zip tools, js ''x'', js ''-bd'', js ''-y'', js ''-aoa'',
         js ''-p'' @ UNSUPPORTED_PASSWORD, js ''-o'' @ staging, js ''--'', archive])"

definition expansion_tokens :: "archive_format \<Rightarrow> jstring \<Rightarrow> jstring \<Rightarrow> shell_token list" where
  "expansion_tokens format archive outp =
     words [js ''exec'', compressor format, js ''-dc'', js ''--'', archive] @ [RedirectOut] @ words [outp]"

lemma shell_empty_quotes: "shell_tokens cur (39 # 39 # s) = shell_tokens (extend_word cur []) s"
  using shell_quoted [of "[]" cur s] by simp

lemma password_words:
  "list_all (\<lambda>c. \<not> shell_special c \<and> c \<notin> {9, 32, 39, 92}) UNSUPPORTED_PASSWORD" "UNSUPPORTED_PASSWORD \<noteq> []"
  by (simp_all add: UNSUPPORTED_PASSWORD_def js_simps)

lemmas shell_password = shell_literal [OF password_words]

lemma list_words:
  "shell_tokens None (buildArchiveListCommand format archive tools) = Some (list_tokens format archive tools)"
  by (cases format)
    (simp_all add: buildArchiveListCommand_def list_tokens_def words_def Let_def isCompressedTarFormat_def
      seven_zip_def js_simps shell_steps shell_password option.map_comp o_def)

lemma extraction_words:
  "shell_tokens None (buildExtractionCommand format archive staging tools) =
     Some (extraction_tokens format archive staging tools)"
  by (cases format)
    (simp_all add: buildExtractionCommand_def extraction_tokens_def words_def Let_def isCompressedTarFormat_def
      seven_zip_def js_simps shell_steps shell_password shell_empty_quotes option.map_comp o_def)

lemma expansion_words:
  "shell_tokens None (buildCompressedTarExpansionCommand format archive outp) =
     Some (expansion_tokens format archive outp)"
  by (simp add: buildCompressedTarExpansionCommand_def expansion_tokens_def words_def compressor_def
      js_simps shell_steps option.map_comp o_def)

lemma integrity_words:
  "shell_tokens None (buildZipIntegrityCommand archive) =
     Some (words [js ''exec'', js ''unzip'', js ''-P'', [], js ''-tqq'', js ''--'', archive])"
  by (simp add: buildZipIntegrityCommand_def words_def js_simps shell_steps shell_empty_quotes
      option.map_comp o_def)

section \<open>Members stay inside the directory they are extracted to\<close>

lemma split_on_Cons_other:
  "c \<noteq> d \<Longrightarrow> split_on d (c # s) = (c # hd (split_on d s)) # tl (split_on d s)"
  by (cases "split_on d s") simp_all

lemma split_forward_slashes:
  "split_on slash (forward_slashes s) = concat (map (\<lambda>x. split_on slash (forward_slashes x)) (split_on slash s))"
proof (induction s)
  case (Cons c s)
  obtain x xs where x: "split_on slash s = x # xs" by (cases "split_on slash s") simp_all
  show ?case
  proof (cases "c = 92 \<or> c = slash")
    case True
    with Cons x show ?thesis by (auto simp: forward_slashes_def)
  next
    case False
    obtain y ys where y: "split_on slash (forward_slashes x) = y # ys"
      by (cases "split_on slash (forward_slashes x)") simp_all
    from False have "forward_slashes (c # t) = c # forward_slashes t" for t by (simp add: forward_slashes_def)
    with False Cons x y show ?thesis by (simp add: split_on_Cons_other)
  qed
qed (simp add: forward_slashes_def)

lemma split_forward_dotdot:
  assumes "dotdot \<in> set (split_on slash s)"
  shows "dotdot \<in> set (split_on slash (forward_slashes s))"
proof -
  have "split_on slash (forward_slashes dotdot) = [dotdot]" by (simp add: forward_slashes_def)
  with assms show ?thesis unfolding split_forward_slashes [of s] by force
qed

lemma foldl_push_no_dotdot:
  "dotdot \<notin> set xs \<Longrightarrow> foldl (push_segment allow) st xs = st @ filter (\<lambda>x. x \<noteq> [] \<and> x \<noteq> dot) xs"
  by (induction xs arbitrary: st) (auto simp: push_segment_def)

lemma safe_member_segments:
  assumes "isSafeArchiveMember m"
  shows "m \<noteq> []" "\<not> starts_with m [slash]" "dotdot \<notin> set (split_on slash m)"
proof -
  show "m \<noteq> []" using assms by (auto simp: isSafeArchiveMember_def forward_slashes_def Let_def)
  show "\<not> starts_with m [slash]"
    using assms by (cases m) (auto simp: isSafeArchiveMember_def forward_slashes_def Let_def prefix_Cons split: if_splits)
  have "dotdot \<notin> set (split_on slash (forward_slashes m))"
    using assms by (auto simp: isSafeArchiveMember_def Let_def list_all_iff split: if_splits)
  then show "dotdot \<notin> set (split_on slash m)" using split_forward_dotdot by blast
qed

lemma safe_member_inside:
  assumes "isSafeArchiveMember m" and "list_all plain_segment segs"
  obtains zs where "list_all plain_segment zs"
    and "posix_join [abs_path segs, m] = abs_path (segs @ zs) \<or>
      posix_join [abs_path segs, m] = abs_path (segs @ zs) @ [slash]"
proof -
  let ?s = "abs_path segs @ slash # m"
  let ?zs = "filter (\<lambda>x. x \<noteq> [] \<and> x \<noteq> dot) (split_on slash m)"
  note m = safe_member_segments [OF assms(1)]
  have joined: "posix_join [abs_path segs, m] = posix_normalize ?s"
    using m(1) by (simp add: posix_join_def abs_path_def)
  have "starts_with ?s [slash]" by (simp add: abs_path_def)
  then obtain ys where ys: "list_all plain_segment ys" "ys = normalize_segments False (split_on slash ?s)"
    "posix_normalize ?s = abs_path ys \<or> posix_normalize ?s = abs_path ys @ [slash] \<and> ys \<noteq> []"
    by (rule posix_normalize_abs)
  have ys_eq: "ys = segs @ ?zs"
  proof -
    have "normalize_segments False (split_on slash (abs_path segs)) = segs"
    proof (cases "segs = []")
      case True
      then show ?thesis by (simp add: normalize_segments_def push_segment_def)
    next
      case False
      with assms(2) show ?thesis by (simp add: split_abs_path normalize_segments_Nil_Cons)
    qed
    then show ?thesis
      unfolding ys(2) split_on_prefix_sep normalize_segments_def foldl_append
      using foldl_push_no_dotdot [OF m(3)] by simp
  qed
  show ?thesis
  proof (rule that)
    show "list_all plain_segment ?zs" using ys(1) by (simp add: ys_eq)
    show "posix_join [abs_path segs, m] = abs_path (segs @ ?zs) \<or>
        posix_join [abs_path segs, m] = abs_path (segs @ ?zs) @ [slash]"
      using ys(3) by (auto simp: joined ys_eq)
  qed
qed

end
