(* ===== verification/ArchiveTheorems.thy ===== *)
theory ArchiveTheorems
  imports ArchiveTree ArchiveLedger ShellCommands
begin

text \<open>
  What the archive service guarantees (packages/backend/src/sftp/archive-service.ts): its commands
  quote what the user chose, the members it accepts stay inside the staging directory, and every
  operation settles, once, with nothing left behind unless it failed.
\<close>

section \<open>Settlement\<close>

definition unsettled :: "archive_error_code option \<Rightarrow> jstring list option \<Rightarrow> 'w job \<Rightarrow> bool" where
  "unsettled code results j \<longleftrightarrow> jb_completions j = [] \<and> \<not> isTerminalState (jb_state j) \<and>
     jb_errorCode j = code \<and> jb_resultPaths j = results"

lemma unsettled_event: "unsettled code results j \<Longrightarrow> unsettled code results (handle_event e j)"
  by (cases e)
    (auto simp: unsettled_def cancelOperation_def timeoutOperation_def handleTransportClosed_def resolve_waiter_def
      resolveConflict_def isTerminalState_def split: option.split)

lemma unsettled_events: "unsettled code results j \<Longrightarrow> unsettled code results (apply_events es w j)"
proof -
  have "unsettled code results j \<Longrightarrow> unsettled code results (fold handle_event es j)" for j :: "'a job"
    by (induction es arbitrary: j) (simp_all add: unsettled_event)
  moreover assume "unsettled code results j"
  then have "unsettled code results (j\<lparr>jb_world := w\<rparr>)" by (simp add: unsettled_def)
  ultimately show ?thesis by (simp add: apply_events_def)
qed

interpretation unsettled: job_invariant R "unsettled code results" for R code results
  by unfold_locales (auto simp: unsettled_events intro!: answers_any, auto simp: unsettled_def isTerminalState_def)

text \<open>What the environment cannot touch.\<close>

definition leftovers :: "jstring list \<Rightarrow> jstring list \<Rightarrow> 'w job \<Rightarrow> bool" where
  "leftovers ts ps j \<longleftrightarrow> jb_temporaryPaths j = ts \<and> jb_provisionalDirectories j = ps"

lemma leftovers_events: "leftovers ts ps j \<Longrightarrow> leftovers ts ps (apply_events es w j)"
proof -
  have "leftovers ts ps j \<Longrightarrow> leftovers ts ps (handle_event e j)" for e and j :: "'a job"
    by (cases e) (auto simp: leftovers_def cancelOperation_def timeoutOperation_def handleTransportClosed_def
        resolve_waiter_def resolveConflict_def split: option.split)
  then have "leftovers ts ps j \<Longrightarrow> leftovers ts ps (fold handle_event es j)" for j :: "'a job"
    by (induction es arbitrary: j) simp_all
  moreover assume "leftovers ts ps j"
  then have "leftovers ts ps (j\<lparr>jb_world := w\<rparr>)" by (simp add: leftovers_def)
  ultimately show ?thesis by (simp add: apply_events_def)
qed

interpretation leftovers: env_invariant R "leftovers ts ps" for R ts ps
  by unfold_locales (rule answers_any, rule leftovers_events, assumption)+

lemma bind_someE:
  assumes "bind_io m k j = Some (r, j')"
  obtains (failure) e where "m j = Some (Inl e, j')" "r = Inl e"
  | (result) x j1 where "m j = Some (Inr x, j1)" "k x j1 = Some (r, j')"
  using assms by (auto simp: bind_io_def split: option.splits sum.splits)

lemma catch_someE:
  assumes "catch_io m h j = Some (r, j')"
  obtains (failure) e j1 where "m j = Some (Inl e, j1)" "h e j1 = Some (r, j')"
  | (result) x where "m j = Some (Inr x, j')" "r = Inr x"
  using assms by (auto simp: catch_io_def split: option.splits sum.splits)

text \<open>An attempt that the environment can only delay: it succeeds and is booked, or its failure is kept.\<close>
lemma attempt_result:
  assumes "\<And>ts ps. keeps (leftovers ts ps) m"
    and "catch_io (then_io m (then_io (modify_io f) (return_io None))) (\<lambda>e. return_io (Some e)) j = Some (r, j')"
  shows "(\<exists>j1. r = Inr None \<and> j' = f j1 \<and> leftovers (jb_temporaryPaths j) (jb_provisionalDirectories j) j1) \<or>
    (\<exists>e. r = Inr (Some e) \<and> leftovers (jb_temporaryPaths j) (jb_provisionalDirectories j) j')"
proof -
  have here: "leftovers (jb_temporaryPaths j) (jb_provisionalDirectories j) j" by (simp add: leftovers_def)
  obtain q j1 where q: "m j = Some (q, j1)"
    using assms(2) by (cases "m j") (auto simp: catch_io_def then_io_def bind_io_def)
  then have "leftovers (jb_temporaryPaths j) (jb_provisionalDirectories j) j1"
    using assms(1) here by (auto simp: keeps_def)
  with q assms(2) show ?thesis
    by (cases q) (auto simp: catch_io_def then_io_def bind_io_def modify_io_def)
qed

text \<open>A cleanup never throws, and one that succeeds has removed everything that was left.\<close>
lemma cleanup_paths_result:
  assumes "cleanup_paths R ok paths j = Some (r, j')"
  shows "\<exists>succeeded stopped. r = Inr (succeeded, stopped) \<and>
    (succeeded \<longrightarrow> ok \<and> set (jb_temporaryPaths j') \<subseteq> set (jb_temporaryPaths j) - set paths) \<and>
    jb_provisionalDirectories j' = jb_provisionalDirectories j"
  using assms
proof (induction paths arbitrary: ok j)
  case (Cons p ps)
  have remove: "keeps (leftovers ts qs) (removeRemoteTree R no_check p)" for ts qs
    by (rule leftovers.keeps_removeRemoteTree) (simp add: no_check_def keeps_simple)
  from Cons.prems show ?case unfolding cleanup_paths.simps remove_temporary_def
  proof (cases rule: bind_someE)
    case (failure e)
    with attempt_result [OF remove failure(1)] show ?thesis by auto
  next
    case (result x j1)
    show ?thesis
    proof (cases x)
      case None
      with attempt_result [OF remove result(1)] obtain j0
        where j0: "j1 = j0\<lparr>jb_temporaryPaths := filter (\<lambda>q. q \<noteq> p) (jb_temporaryPaths j0)\<rparr>"
          "leftovers (jb_temporaryPaths j) (jb_provisionalDirectories j) j0" by auto
      from result(2) None have "cleanup_paths R ok ps j1 = Some (r, j')" by simp
      from Cons.IH [OF this] j0 show ?thesis by (auto simp: leftovers_def)
    next
      case (Some e)
      with attempt_result [OF remove result(1)]
      have j1: "leftovers (jb_temporaryPaths j) (jb_provisionalDirectories j) j1" by auto
      show ?thesis
      proof (cases "e = ArchiveFailure ArchiveTimeout")
        case True
        with result(2) Some j1 show ?thesis by (auto simp: leftovers_def)
      next
        case False
        with result(2) Some have "cleanup_paths R False ps j1 = Some (r, j')" by simp
        from Cons.IH [OF this] j1 show ?thesis by (auto simp: leftovers_def)
      qed
    qed
  qed
qed auto

lemma keeps_leftovers_remote:
  "keeps (leftovers ts ps) (rmdirRemote R p)" "keeps (leftovers ts ps) (readdirRemote R p)"
  by (rule leftovers.keeps_requests)+

lemma attempt_directory:
  assumes "catch_io (then_io (rmdirRemote R p) (then_io (remove_provisional p) (return_io None)))
     (\<lambda>e. if isNoSuchFileError e then then_io (remove_provisional p) (return_io None)
          else bind_io (catch_io (bind_io (readdirRemote R p) (\<lambda>entries. return_io (length entries > 0)))
                 (\<lambda>_. return_io False))
            (\<lambda>occupied. if occupied then then_io (remove_provisional p) (return_io None)
                        else return_io (Some e))) j = Some (r, j')"
  shows "(r = Inr None \<and> leftovers (jb_temporaryPaths j) (filter (\<lambda>q. q \<noteq> p) (jb_provisionalDirectories j)) j') \<or>
    (\<exists>e. r = Inr (Some e) \<and> leftovers (jb_temporaryPaths j) (jb_provisionalDirectories j) j')"
proof -
  have here: "leftovers (jb_temporaryPaths j) (jb_provisionalDirectories j) j" by (simp add: leftovers_def)
  obtain q j1 where q: "rmdirRemote R p j = Some (q, j1)"
    using assms by (cases "rmdirRemote R p j") (auto simp: catch_io_def then_io_def bind_io_def)
  have j1: "leftovers (jb_temporaryPaths j) (jb_provisionalDirectories j) j1"
    by (rule keepsD [OF keeps_leftovers_remote(1) here q])
  show ?thesis
  proof (cases q)
    case (Inr u)
    with q j1 assms show ?thesis
      by (auto simp: catch_io_def then_io_def bind_io_def remove_provisional_def modify_io_def leftovers_def)
  next
    case (Inl e)
    show ?thesis
    proof (cases "isNoSuchFileError e")
      case True
      with Inl q j1 assms show ?thesis
        by (auto simp: catch_io_def then_io_def bind_io_def remove_provisional_def modify_io_def leftovers_def)
    next
      case False
      obtain x j2 where x: "readdirRemote R p j1 = Some (x, j2)"
        using False Inl q assms
        by (cases "readdirRemote R p j1") (auto simp: catch_io_def then_io_def bind_io_def)
      have "leftovers (jb_temporaryPaths j) (jb_provisionalDirectories j) j2"
        by (rule keepsD [OF keeps_leftovers_remote(2) j1 x])
      with False Inl q x assms show ?thesis
        by (cases x) (auto simp: catch_io_def then_io_def bind_io_def remove_provisional_def modify_io_def
            leftovers_def split: if_splits)
    qed
  qed
qed

lemma cleanup_directories_result:
  assumes "cleanup_directories R ok paths j = Some (r, j')"
  shows "\<exists>succeeded. r = Inr succeeded \<and> jb_temporaryPaths j' = jb_temporaryPaths j \<and>
    (succeeded \<longrightarrow> ok \<and> set (jb_provisionalDirectories j') \<subseteq> set (jb_provisionalDirectories j) - set paths)"
  using assms
proof (induction paths arbitrary: ok j)
  case (Cons p ps)
  from Cons.prems show ?case unfolding cleanup_directories.simps
  proof (cases rule: bind_someE)
    case (failure e)
    with attempt_directory [OF failure(1)] show ?thesis by auto
  next
    case (result x j1)
    show ?thesis
    proof (cases x)
      case None
      with attempt_directory [OF result(1)]
      have j1: "leftovers (jb_temporaryPaths j) (filter (\<lambda>q. q \<noteq> p) (jb_provisionalDirectories j)) j1" by auto
      from result(2) None have "cleanup_directories R ok ps j1 = Some (r, j')" by simp
      from Cons.IH [OF this] j1 show ?thesis by (auto simp: leftovers_def)
    next
      case (Some e)
      with attempt_directory [OF result(1)]
      have j1: "leftovers (jb_temporaryPaths j) (jb_provisionalDirectories j) j1" by auto
      show ?thesis
      proof (cases "e = ArchiveFailure ArchiveTimeout")
        case True
        with result(2) Some j1 show ?thesis by (auto simp: leftovers_def)
      next
        case False
        with result(2) Some have "cleanup_directories R False ps j1 = Some (r, j')" by simp
        from Cons.IH [OF this] j1 show ?thesis by (auto simp: leftovers_def)
      qed
    qed
  qed
qed auto

lemma read_bind [simp]: "bind_io (read_io f) k j = k (f j) j"
  by (simp add: bind_io_def read_io_def)

lemma cleanup_result:
  assumes "performTemporaryPathCleanup R j = Some (r, j')"
  shows "\<exists>cleaned. r = Inr cleaned \<and> (cleaned \<longrightarrow> jb_temporaryPaths j' = [] \<and> jb_provisionalDirectories j' = [])"
proof -
  from assms have "bind_io (cleanup_paths R True (rev (jb_temporaryPaths j))) (\<lambda>(succeeded, stopped).
     if stopped then return_io False
     else bind_io (read_io jb_provisionalDirectories) (\<lambda>directories.
       cleanup_directories R succeeded (sort_by (\<lambda>left right. length right \<le> length left) directories))) j = Some (r, j')"
    by (simp add: performTemporaryPathCleanup_def)
  then show ?thesis
  proof (cases rule: bind_someE)
    case (failure e)
    show ?thesis using cleanup_paths_result [OF failure(1)] by simp
  next
    case (result x j1)
    obtain succeeded stopped where x: "x = (succeeded, stopped)" by (cases x)
    show ?thesis
    proof (cases stopped)
      case True
      with result(2) x have "r = Inr False" by simp
      then show ?thesis by blast
    next
      case False
      with result(2) x have "cleanup_directories R succeeded
        (sort_by (\<lambda>left right. length right \<le> length left) (jb_provisionalDirectories j1)) j1 = Some (r, j')"
        by simp
      from cleanup_directories_result [OF this]
      obtain fin where d: "r = Inr fin" "jb_temporaryPaths j' = jb_temporaryPaths j1"
        "fin \<longrightarrow> succeeded \<and> set (jb_provisionalDirectories j') \<subseteq> {}"
        unfolding set_sort_by Diff_cancel by blast
      have "succeeded \<longrightarrow> jb_temporaryPaths j1 = []"
        using cleanup_paths_result [OF result(1)] by (simp add: x)
      with d have "fin \<longrightarrow> jb_temporaryPaths j' = [] \<and> jb_provisionalDirectories j' = []" by simp
      with d(1) show ?thesis by blast
    qed
  qed
qed

lemma record_failure_result:
  assumes "record_failure e j = Some (r, j')" and "unsettled None results j"
  shows "(r = Inr Failed \<and> (\<exists>code. unsettled (Some code) results j')) \<or> (r = Inr Cancelled \<and> unsettled None results j')"
proof (cases "jb_forcedFailure j")
  case None
  with assms show ?thesis
    by (cases "e = CancelledFailure \<or> jb_cancelRequested j") (auto simp: record_failure_def unsettled_def)
qed (use assms in \<open>auto simp: record_failure_def unsettled_def\<close>)

text \<open>How the run of an operation ends, before its cleanup.\<close>
lemma run_result:
  assumes "catch_io (bind_io (run_request R request format) (\<lambda>resultPaths.
      then_io (modify_io (\<lambda>j. j\<lparr>jb_resultPaths := Some resultPaths\<rparr>)) (return_io Succeeded))) record_failure j = Some (r, j')"
    and "unsettled None None j"
  shows "\<exists>t. r = Inr t \<and>
    ((t = Succeeded \<and> (\<exists>paths. unsettled None (Some paths) j')) \<or>
     (t = Failed \<and> (\<exists>code. unsettled (Some code) None j')) \<or> (t = Cancelled \<and> unsettled None None j'))"
proof -
  from assms(1) show ?thesis
  proof (cases rule: catch_someE)
    case (failure e j1)
    from failure(1) have "run_request R request format j = Some (Inl e, j1)"
      by (rule bind_someE) (auto simp: then_io_def bind_io_def modify_io_def)
    then have "unsettled None None j1"
      using keepsD [OF unsettled.keeps_run_request assms(2)] by blast
    from record_failure_result [OF failure(2) this] show ?thesis by blast
  next
    case (result x)
    from result(1) obtain paths j1 where r: "run_request R request format j = Some (Inr paths, j1)"
      "x = Succeeded" "j' = j1\<lparr>jb_resultPaths := Some paths\<rparr>"
      by (rule bind_someE) (auto simp: then_io_def bind_io_def modify_io_def)
    then have "unsettled None None j1"
      using keepsD [OF unsettled.keeps_run_request assms(2)] by blast
    then have "unsettled None (Some paths) j'" using r by (simp add: unsettled_def)
    with result r show ?thesis by auto
  qed
qed

definition settled_ok :: "'w job \<Rightarrow> bool" where
  "settled_ok j \<longleftrightarrow>
     isTerminalState (jb_state j) \<and> jb_stage j = Completed \<and> jb_completions j = [jb_state j] \<and>
     (jb_state j = Succeeded \<longrightarrow> jb_resultPaths j \<noteq> None) \<and>
     (jb_state j = Failed \<longleftrightarrow> jb_errorCode j \<noteq> None) \<and>
     (jb_state j \<noteq> Failed \<longrightarrow> jb_temporaryPaths j = [] \<and> jb_provisionalDirectories j = [])"

lemma operation_result:
  assumes "runOperation R request format j = Some (r, j')" and "unsettled None None j"
  shows "r = Inr () \<and> settled_ok j'"
proof -
  from assms(1) show ?thesis unfolding runOperation_def
  proof (cases rule: bind_someE)
    case (failure e)
    with run_result [OF failure(1) assms(2)] show ?thesis by auto
  next
    case (result t j1)
    from run_result [OF result(1) assms(2)] obtain code results where
      j1: "unsettled code results j1" "t = Succeeded \<longrightarrow> results \<noteq> None" "t = Failed \<longleftrightarrow> code \<noteq> None" "isTerminalState t"
      by (auto simp: isTerminalState_def)
    from j1(1) have b: "unsettled code results (begin_cleanup j1)"
      by (auto simp: unsettled_def begin_cleanup_def isTerminalState_def)
    from result(2) have c: "bind_io (performTemporaryPathCleanup R) (\<lambda>cleaned.
         if cleaned then modify_io (finish_operation t)
         else then_io (modify_io record_cleanup_failure) (modify_io (finish_operation Failed))) (begin_cleanup j1) =
      Some (r, j')"
      by (simp add: then_io_def bind_io_def modify_io_def)
    then show ?thesis
    proof (cases rule: bind_someE)
      case (failure e)
      with cleanup_result [OF failure(1)] show ?thesis by auto
    next
      case (result cleaned j2)
      have j2: "unsettled code results j2"
        by (rule keepsD [OF unsettled.keeps_cleanup b result(1)])
      show ?thesis
      proof (cases cleaned)
        case True
        with result(2) have "r = Inr () \<and> j' = finish_operation t j2" by (simp add: modify_io_def)
        with True j1 j2 cleanup_result [OF result(1)] show ?thesis
          by (auto simp: settled_ok_def finish_operation_def unsettled_def)
      next
        case False
        with result(2) have "r = Inr () \<and> j' = finish_operation Failed (record_cleanup_failure j2)"
          by (auto simp add: modify_io_def then_io_def bind_io_def)
        with j2 show ?thesis
          by (auto simp: settled_ok_def finish_operation_def record_cleanup_failure_def unsettled_def isTerminalState_def)
      qed
    qed
  qed
qed

lemma started_unsettled:
  "startOperation busy request deadlineAt now timeoutMs w tools capabilities isClosed = Inr (j, format) \<Longrightarrow>
     unsettled None None j"
  by (auto simp: startOperation_def new_job_def unsettled_def isTerminalState_def split: if_splits option.splits)


text \<open>A host on which an extraction succeeds: the archive is there, the target is not, and every tool prints one line.\<close>

definition still :: "failure + 'a \<Rightarrow> (rat, 'a) request" where
  "still r limit w = (Some r, [], w)"

definition extraction_host :: "rat remote" where
  "extraction_host =
     \<lparr>rm_now = (\<lambda>w. w), rm_uuid = (\<lambda>w. (js ''u'', w)),
      rm_lstat = (\<lambda>p. still (if p = js ''/d'' then Inr S_IFDIR else if p = js ''/d/x.zip'' then Inr S_IFREG else Inl no_such_file)),
      rm_readdir = (\<lambda>p. still (Inr [(js ''a'', S_IFREG)])), rm_readlink = (\<lambda>p. still (Inl general_failure)),
      rm_mkdir = (\<lambda>p m. still (Inr ())), rm_rmdir = (\<lambda>p. still (Inr ())),
      rm_unlink = (\<lambda>p. still (Inr ())), rm_rename = (\<lambda>p q. still (Inr ())),
      rm_readRange = (\<lambda>p a b. still (Inr [0x50, 0x4b])),
      rm_command = (\<lambda>c. still (Inr \<lparr>cr_stdout = js ''a'', cr_stderr = [], cr_stdoutTruncated = False,
        cr_exitCode = Some 0\<rparr>)),
      rm_awaitUser = (\<lambda>limit w. ([], max w limit))\<rparr>"

text \<open>The files of the commands: compressions clean up after themselves, the others leave what was there.\<close>

definition sample_files :: "jstring \<Rightarrow> bool \<Rightarrow> jstring list \<Rightarrow> jstring list" where
  "sample_files command ok ps = (if ok \<and> take 3 command = js ''cd '' then [] else ps)"

lemma sample_files_documented: "documented_files sample_files"
  by (auto simp: documented_files_def sample_files_def buildCompressionCommand_def Let_def js_simps split: option.split)

interpretation tools: watched_tools sample_files extraction_host
  by unfold_locales (rule sample_files_documented)







lemma host_entries [simp]:
  "rm_lstat extraction_host p = still (if p = js ''/d'' then Inr S_IFDIR else if p = js ''/d/x.zip'' then Inr S_IFREG else Inl no_such_file)"
  "rm_readdir extraction_host p = still (Inr [(js ''a'', S_IFREG)])"
  "rm_mkdir extraction_host p m = still (Inr ())"
  "rm_rename extraction_host p q = still (Inr ())"
  "rm_readRange extraction_host p a b = still (Inr [0x50, 0x4b])"
  "rm_uuid extraction_host w = (js ''u'', w)" "rm_now extraction_host w = w"
  by (simp_all add: extraction_host_def)







text \<open>C6: Every archive operation returns, settled, and soon after its deadline, whatever the remote host answers
  or leaves unanswered and whether or not the user decides: it ends at most two probes of the tools, of fifteen
  seconds each, after its deadline, or after its start when the deadline had passed by then.  Relied on: a timer
  fires at most slack milliseconds late, the entries of a directory are single names, and the host does not
  list directories with longer paths than its limit; its trees may be arbitrarily large and change meanwhile.\<close>
theorem operation_returns:
  assumes "punctual slack R" and "bounded_paths pathMax R"
    and "startOperation busy request deadlineAt now timeoutMs w tools capabilities isClosed = Inr (j, format)"
  shows "\<exists>r j'. runOperation R request format j = Some (r, j') \<and> settled_ok j' \<and>
    rm_now R (jb_world j') \<le> max (rm_now R w) (min deadlineAt (now + timeoutMs) + slack) + 2 * (ARCHIVE_PROBE_TIMEOUT_MS + slack)"
proof -
  have R: "punctual_remote R slack pathMax" by (rule punctual_remote.intro) (rule assms)+
  have start: "jb_world j = w" "jb_deadlineAt j = min deadlineAt (now + timeoutMs)"
    using assms(3) by (auto simp: startOperation_def new_job_def split: if_splits option.splits)
  obtain r j' where run: "runOperation R request format j = Some (r, j')"
    and "rm_now R (jb_world j') \<le> max (rm_now R (jb_world j)) (jb_deadlineAt j + slack) + punctual_remote.allowance slack 2"
    by (rule punctual_remote.endsE [OF R punctual_remote.runOperation_ends [OF R]])
  then show ?thesis
    using operation_result [OF run started_unsettled [OF assms(3)]] start
    by (auto simp: punctual_remote.allowance_def [OF R])
qed

text \<open>A compression that starts.\<close>

definition sample_request :: archive_request where
  "sample_request = CompressRequest [js ''/d/a''] (js ''/d'') (js ''x.zip'') Zip Fast"

definition sample_job :: "rat job" where
  "sample_job = new_job 0 100 None None False"

lemma host_started:
  "startOperation False sample_request 100 0 ARCHIVE_OPERATION_TIMEOUT_MS 0 None None False = Inr (sample_job, Zip)"
  by (simp add: startOperation_def sample_request_def validateArchiveRequest_def request_paths_def js_simps
      trim_def trim_start_def trim_end_def is_space_def hasControlCharacters_def control_unit_def posix_basename_def
      detectArchiveFormatFromName_def lower_case_def lower_unit_def sample_job_def ARCHIVE_OPERATION_TIMEOUT_MS_def
      suffix_def)

text \<open>A host that takes a minute for every answer: the operation ends within its deadline of 100 milliseconds.\<close>
theorem operation_returns_witness:
  "\<exists>r j'. runOperation (limited_remote 60000) sample_request Zip (new_job \<lparr>tw_root = DirNode [], tw_now = 0, tw_uuids = 0\<rparr>
     100 None None False) = Some (r, j') \<and> settled_ok j' \<and> tw_now (jb_world j') \<le> 30100"
proof -
  let ?w = "\<lparr>tw_root = DirNode [], tw_now = 0, tw_uuids = 0\<rparr>"
  have start: "startOperation False sample_request 100 0 ARCHIVE_OPERATION_TIMEOUT_MS ?w None None False =
      Inr (new_job ?w 100 None None False, Zip)"
    using host_started by (auto simp: startOperation_def sample_job_def new_job_def split: if_splits option.splits)
  show ?thesis
    using operation_returns [OF limited_punctual limited_bounded start, of 60000]
    by (simp add: ARCHIVE_PROBE_TIMEOUT_MS_def ARCHIVE_OPERATION_TIMEOUT_MS_def limited_remote_def)
qed

section \<open>Extraction stays inside its staging directory\<close>

text \<open>C8: A member name that is accepted stays inside the directory it is extracted to: joined to it,
  the name gives a path below that directory.\<close>
theorem safe_member_stays_inside:
  assumes "isSafeArchiveMember m" and "list_all plain_segment staging"
  shows "\<exists>zs. list_all plain_segment zs \<and>
    (posix_join [abs_path staging, m] = abs_path (staging @ zs) \<or>
     posix_join [abs_path staging, m] = abs_path (staging @ zs) @ [slash])"
  using safe_member_inside [OF assms] by blast

theorem safe_member_stays_inside_witness:
  "\<exists>zs. posix_join [abs_path [js ''s''], js ''a/b''] = abs_path ([js ''s''] @ zs) \<or>
     posix_join [abs_path [js ''s''], js ''a/b''] = abs_path ([js ''s''] @ zs) @ [slash]"
proof -
  have "isSafeArchiveMember (js ''a/b'')"
    by (simp add: isSafeArchiveMember_def js_simps forward_slashes_def hasControlCharacters_def control_unit_def)
  moreover have "list_all plain_segment [js ''s'']" by (simp add: plain_segment_def js_simps)
  ultimately show ?thesis using safe_member_stays_inside by blast
qed

text \<open>C9: On a remote tree the check of an extraction accepts exactly the trees in which every symbolic
  link passes the test on its target, and it changes nothing.\<close>
theorem staged_tree_checked:
  assumes "undisturbed j" and "lookup segs (tw_root (jb_world j)) = Some n" and "well_named n"
    and "list_all plain_segment segs"
  shows "validateStagedTree quick (assertOperationActive quick) staging (Some (node_mode n)) (abs_path segs) j =
    Some (if links_ok staging segs n then Inr () else Inl (ArchiveFailure ArchiveUnsafeEntry), j)"
  by (rule validate_tree [OF assms])

text \<open>An extracted tree with two links: \<open>d\<close> to its staging directory, and \<open>e\<close> to the parent of \<open>d\<close>.\<close>

definition linked_tree :: node where
  "linked_tree = DirNode [(js ''a'', DirNode [(js ''d'', LinkNode (js ''..'')), (js ''e'', LinkNode (js ''d/..''))])]"

definition linked_job :: "tree_world job" where
  "linked_job = new_job \<lparr>tw_root = DirNode [(js ''t'', DirNode [(js ''s'', linked_tree)])], tw_now = 0, tw_uuids = 0\<rparr>
     100 None None False"

lemma linked_facts:
  "undisturbed linked_job" "lookup [js ''t'', js ''s''] (tw_root (jb_world linked_job)) = Some linked_tree"
  "well_named linked_tree" "list_all plain_segment [js ''t'', js ''s'']" "node_mode linked_tree = S_IFDIR"
  by (simp_all add: linked_job_def new_job_def undisturbed_def linked_tree_def plain_segment_def js_simps)

lemma linked_ok: "links_ok (abs_path [js ''t'', js ''s'']) [js ''t'', js ''s''] linked_tree"
  by (simp add: linked_tree_def link_escapes_def abs_path_def js_simps posix_is_absolute_def posix_resolve2_def
      posix_dirname_def normalize_segments_def push_segment_def hasControlCharacters_def control_unit_def Let_def)

theorem staged_tree_checked_witness:
  "validateStagedTree quick (assertOperationActive quick) (abs_path [js ''t'', js ''s'']) (Some S_IFDIR)
     (abs_path [js ''t'', js ''s'']) linked_job = Some (Inr (), linked_job)"
  using staged_tree_checked [OF linked_facts(1-4), of "abs_path [js ''t'', js ''s'']"] linked_ok linked_facts(5)
  by simp

text \<open>
  Where a path leads on the remote host (POSIX 4.16, pathname resolution): \<open>cur\<close> is the directory
  reached, a symbolic link is replaced by its target, and \<open>..\<close> leaves the directory that was reached.
\<close>

fun follow :: "nat \<Rightarrow> node \<Rightarrow> jstring list \<Rightarrow> jstring list \<Rightarrow> jstring list option" where
  "follow 0 t cur names = None"
| "follow (Suc fuel) t cur [] = Some cur"
| "follow (Suc fuel) t cur (x # xs) =
     (if x = [] \<or> x = dot then follow fuel t cur xs
      else if x = dotdot then follow fuel t (butlast cur) xs
      else case lookup (cur @ [x]) t of
             None \<Rightarrow> None
           | Some (LinkNode l) \<Rightarrow>
               follow fuel t (if posix_is_absolute l then [] else cur) (split_on slash l @ xs)
           | Some n \<Rightarrow> follow fuel t (cur @ [x]) xs)"

text \<open>The test on a link is on the text of its target, so it does not see a link behind a link, nor
  what follows the staging directory in an absolute target: the tree above is accepted although its link
  "e" leads to the parent of the staging directory, and so is the target "/t/s/../x".\<close>
theorem accepted_link_can_escape:
  "validateStagedTree quick (assertOperationActive quick) (abs_path [js ''t'', js ''s'']) (Some S_IFDIR)
     (abs_path [js ''t'', js ''s'']) linked_job = Some (Inr (), linked_job) \<and>
   follow 9 (tw_root (jb_world linked_job)) [] [js ''t'', js ''s'', js ''a'', js ''e''] = Some [js ''t''] \<and>
   \<not> link_escapes (abs_path [js ''t'', js ''s'']) (abs_path [js ''t'', js ''s'', js ''l'']) (js ''/t/s/../x'')"
proof (intro conjI)
  show "validateStagedTree quick (assertOperationActive quick) (abs_path [js ''t'', js ''s'']) (Some S_IFDIR)
     (abs_path [js ''t'', js ''s'']) linked_job = Some (Inr (), linked_job)"
    using validate_tree [OF linked_facts(1-4), of "abs_path [js ''t'', js ''s'']"] linked_ok linked_facts(5) by simp
  show "follow 9 (tw_root (jb_world linked_job)) [] [js ''t'', js ''s'', js ''a'', js ''e''] = Some [js ''t'']"
    by (simp add: linked_job_def new_job_def linked_tree_def js_simps posix_is_absolute_def numeral_eq_Suc)
  show "\<not> link_escapes (abs_path [js ''t'', js ''s'']) (abs_path [js ''t'', js ''s'', js ''l'']) (js ''/t/s/../x'')"
    by (simp add: link_escapes_def abs_path_def js_simps posix_is_absolute_def hasControlCharacters_def
        control_unit_def Let_def)
qed

text \<open>An accepted relative link leads, read as text, to a path inside the staging directory.\<close>
theorem accepted_relative_link:
  assumes "\<not> link_escapes (abs_path staging) (abs_path (segs @ [x])) link"
    and "\<not> posix_is_absolute link" and "list_all plain_segment staging" and "staging \<noteq> []"
    and "list_all plain_segment segs" and "plain_segment x"
  shows "\<exists>zs. list_all plain_segment zs \<and>
    posix_resolve2 [] (posix_dirname (abs_path (segs @ [x]))) link = abs_path (staging @ zs)"
proof -
  let ?full = "abs_path segs @ slash # link"
  let ?ys = "normalize_segments False (split_on slash ?full)"
  have rel: "\<not> starts_with link [slash]" using assms(2) by (cases link) (auto simp: posix_is_absolute_def prefix_Cons)
  have resolved: "posix_resolve2 [] (posix_dirname (abs_path (segs @ [x]))) link = abs_path ?ys"
    using rel assms(5,6) by (simp add: posix_resolve2_def Let_def) (simp add: abs_path_def)
  have plain: "list_all plain_segment ?ys"
    by (rule normalize_segments_plain) (simp add: split_on_no_sep)
  from assms(1,2) resolved
  have "abs_path ?ys = abs_path staging \<or> starts_with (abs_path ?ys) (abs_path staging @ [slash])"
    by (auto simp: link_escapes_def Let_def)
  then have "prefix staging ?ys"
  proof
    assume "abs_path ?ys = abs_path staging"
    then show ?thesis using plain assms(3) by (simp add: abs_path_inject)
  next
    assume *: "starts_with (abs_path ?ys) (abs_path staging @ [slash])"
    have "?ys \<noteq> []"
    proof
      assume "?ys = []"
      with * assms(4) show False by (simp add: abs_path_def prefix_Cons)
    qed
    with * plain assms(3,4) show ?thesis by (simp add: starts_with_abs_path strict_prefix_def)
  qed
  then obtain zs where "?ys = staging @ zs" by (auto simp: prefix_def)
  with resolved plain show ?thesis by auto
qed

theorem accepted_relative_link_witness:
  "\<exists>zs. posix_resolve2 [] (posix_dirname (abs_path ([js ''s''] @ [js ''l'']))) (js ''a'') = abs_path ([js ''s''] @ zs)"
proof -
  have "\<not> link_escapes (abs_path [js ''s'']) (abs_path ([js ''s''] @ [js ''l''])) (js ''a'')"
    by (simp add: link_escapes_def abs_path_def js_simps posix_is_absolute_def posix_resolve2_def posix_dirname_def
        normalize_segments_def push_segment_def hasControlCharacters_def control_unit_def Let_def)
  moreover have "\<not> posix_is_absolute (js ''a'')" by (simp add: posix_is_absolute_def js_simps)
  moreover have "list_all plain_segment [js ''s'']" "plain_segment (js ''l'')"
    by (simp_all add: plain_segment_def js_simps)
  ultimately show ?thesis using accepted_relative_link [of "[js ''s'']" "[js ''s'']" "js ''l''" "js ''a''"] by auto
qed

section \<open>Commands\<close>

text \<open>C7: Whatever characters the paths and names of a request contain, a POSIX shell reads each command of
  the service as the fixed words of its tool with those paths and names as single words.\<close>
theorem commands_are_fixed_words:
  "shell_tokens None (buildCompressionCommand format level directory temporary intermediateName sources tools) =
     Some (compression_tokens format level directory temporary
       (case intermediateName of None \<Rightarrow> temporary @ js ''.tar'' | Some n \<Rightarrow> n) sources tools) \<and>
   shell_tokens None (buildArchiveListCommand format archive tools) = Some (list_tokens format archive tools) \<and>
   shell_tokens None (buildZipIntegrityCommand archive) =
     Some (words [js ''exec'', js ''unzip'', js ''-P'', [], js ''-tqq'', js ''--'', archive]) \<and>
   shell_tokens None (buildCompressedTarExpansionCommand format archive target) =
     Some (expansion_tokens format archive target) \<and>
   shell_tokens None (buildExtractionCommand format archive staging tools) =
     Some (extraction_tokens format archive staging tools)"
  by (simp add: compression_words list_words integrity_words expansion_words extraction_words)

end
