(* ===== verification/JsonValues.thy ===== *)
theory JsonValues
  imports Prelude "HOL-Library.Log_Nat"
begin

text \<open>
  The conversion \<open>Number(value)\<close> of the standard library, on the values that a JSON body can hold,
  with its rounding to the nearest double. An object whose own \<open>toString\<close> property is not a
  function would make \<open>Number\<close> throw; it is read as NaN here, like every other object.
\<close>

section \<open>Rounding\<close>

definition round_half_even :: "rat \<Rightarrow> int" where
  "round_half_even q =
     (let f = \<lfloor>q\<rfloor>; d = q - of_int f
      in if d < 1 / 2 then f else if d > 1 / 2 then f + 1 else if even f then f else f + 1)"

text \<open>\<open>2 ^ e\<close> for an integer exponent.\<close>

definition two_pow :: "int \<Rightarrow> rat" where
  "two_pow e = (if 0 \<le> e then 2 ^ nat e else 1 / 2 ^ nat (- e))"

text \<open>The double nearest to a rational: 53 bits of mantissa, exponents from -1074.\<close>

definition double_exponent :: "rat \<Rightarrow> int" where
  "double_exponent a =
     (let (n, d) = quotient_of a; k = int (floorlog 2 (nat n)) - int (floorlog 2 (nat d))
      in max (-1074) (if a < two_pow k then k - 53 else k - 52))"

definition round_double :: "rat \<Rightarrow> jsnum" where
  "round_double q =
     (if q = 0 then Num 0
      else
        let a = \<bar>q\<bar>; e = double_exponent a; r = of_int (round_half_even (a / two_pow e)) * two_pow e
        in if 2 ^ 1024 \<le> r then (if q < 0 then NegInf else PosInf)
           else Num (if q < 0 then - r else r))"

lemma round_half_even_of_int [simp]: "round_half_even (of_int n) = n"
  by (simp add: round_half_even_def)

lemma quotient_of_nat: "quotient_of (of_nat n) = (int n, 1)"
  using quotient_of_int [of "int n"] by simp

lemma floorlog_le: "n < 2 ^ k \<Longrightarrow> floorlog 2 n \<le> k"
proof -
  assume lt: "n < 2 ^ k"
  show ?thesis
  proof (cases "n = 0")
    case False
    then have "2 ^ (floorlog 2 n - 1) \<le> n" using floorlog_bounds [of n 2] by simp
    with lt have "(2::nat) ^ (floorlog 2 n - 1) < 2 ^ k" by linarith
    then have "floorlog 2 n - 1 < k" by (rule power_less_imp_less_exp [rotated]) simp
    then show ?thesis by simp
  qed (simp add: floorlog_def)
qed

lemma round_double_nat:
  assumes "n < 2 ^ 53"
  shows "round_double (of_nat n) = Num (of_nat n)"
proof (cases "n = 0")
  case False
  define k where "k = int (floorlog 2 n)"
  have k: "k \<le> 53" using floorlog_le [OF assms] by (simp add: k_def)
  have "floorlog 2 (1::nat) = 1" by (simp add: floorlog_def)
  then have e: "double_exponent (of_nat n) =
      max (- 1074) (if of_nat n < two_pow (k - 1) then k - 1 - 53 else k - 1 - 52)"
    by (simp add: double_exponent_def quotient_of_nat k_def)
  define x where "x = double_exponent (of_nat n)"
  have "x \<le> 0" unfolding x_def e using k by auto
  then have t: "two_pow x = 1 / 2 ^ nat (- x)" by (simp add: two_pow_def)
  have "of_nat n / two_pow x = of_int (int n * 2 ^ nat (- x))" unfolding t by simp
  then have "round_half_even (of_nat n / two_pow x) = int n * 2 ^ nat (- x)"
    by (simp only: round_half_even_of_int)
  then have r: "of_int (round_half_even (of_nat n / two_pow x)) * two_pow x = of_nat n"
    using t by simp
  have "(of_nat n :: rat) < 2 ^ 53" using assms by (metis of_nat_less_iff of_nat_numeral of_nat_power)
  then have "\<not> (2::rat) ^ 1024 \<le> of_nat n"
    using power_strict_increasing [of 53 1024 "2::rat"] by linarith
  with False r show ?thesis by (simp add: round_double_def Let_def x_def)
qed (simp add: round_double_def)

section \<open>Numeric strings\<close>

fun digit_value :: "nat \<Rightarrow> nat \<Rightarrow> nat option" where
  "digit_value radix c =
     (let v = (if 48 \<le> c \<and> c \<le> 57 then c - 48
               else if 97 \<le> c \<and> c \<le> 122 then c - 87
               else if 65 \<le> c \<and> c \<le> 90 then c - 55 else radix)
      in if v < radix then Some v else None)"

definition is_digit :: "nat \<Rightarrow> nat \<Rightarrow> bool" where
  "is_digit radix c \<longleftrightarrow> digit_value radix c \<noteq> None"

definition digits_value :: "nat \<Rightarrow> jstring \<Rightarrow> nat" where
  "digits_value radix s = foldl (\<lambda>n c. radix * n + the (digit_value radix c)) 0 s"

definition radix_literal :: "nat \<Rightarrow> jstring \<Rightarrow> jsnum" where
  "radix_literal radix s =
     (if s \<noteq> [] \<and> list_all (is_digit radix) s then round_double (of_nat (digits_value radix s)) else NaN)"

text \<open>The exponent part of a decimal literal; \<open>None\<close> when it is ill-formed.\<close>

fun exponent_part :: "jstring \<Rightarrow> int option" where
  "exponent_part [] = Some 0"
| "exponent_part (c # s) =
     (if c \<noteq> 101 \<and> c \<noteq> 69 then None
      else
        let (neg, ds) = (if s \<noteq> [] \<and> hd s = 45 then (True, tl s)
                         else if s \<noteq> [] \<and> hd s = 43 then (False, tl s) else (False, s))
        in if ds \<noteq> [] \<and> list_all (is_digit 10) ds
           then Some (if neg then - int (digits_value 10 ds) else int (digits_value 10 ds)) else None)"

definition ten_pow :: "int \<Rightarrow> rat" where
  "ten_pow e = (if 0 \<le> e then 10 ^ nat e else 1 / 10 ^ nat (- e))"

definition decimal_literal :: "jstring \<Rightarrow> rat option" where
  "decimal_literal s =
     (let whole = takeWhile (is_digit 10) s; rest = dropWhile (is_digit 10) s;
          (frac, rest') = (if rest \<noteq> [] \<and> hd rest = 46
                           then (takeWhile (is_digit 10) (tl rest), dropWhile (is_digit 10) (tl rest))
                           else ([], rest))
      in if whole = [] \<and> frac = [] then None
         else case exponent_part rest' of
                None \<Rightarrow> None
              | Some e \<Rightarrow>
                  Some (of_nat (digits_value 10 (whole @ frac)) * ten_pow (e - int (length frac))))"

definition unsigned_literal :: "bool \<Rightarrow> jstring \<Rightarrow> jsnum" where
  "unsigned_literal neg s =
     (if s = js ''Infinity'' then (if neg then NegInf else PosInf)
      else case decimal_literal s of
             None \<Rightarrow> NaN
           | Some q \<Rightarrow> round_double (if neg then - q else q))"

definition string_to_number :: "jstring \<Rightarrow> jsnum" where
  "string_to_number str =
     (let s = trim str; pre = take 2 s
      in if s = [] then Num 0
         else if pre = js ''0x'' \<or> pre = js ''0X'' then radix_literal 16 (drop 2 s)
         else if pre = js ''0o'' \<or> pre = js ''0O'' then radix_literal 8 (drop 2 s)
         else if pre = js ''0b'' \<or> pre = js ''0B'' then radix_literal 2 (drop 2 s)
         else if hd s = 45 then unsigned_literal True (tl s)
         else if hd s = 43 then unsigned_literal False (tl s)
         else unsigned_literal False s)"

section \<open>Conversion of a value\<close>

text \<open>An array is converted through its string, which has a comma unless it has at most one item.\<close>

fun item_to_number :: "json \<Rightarrow> jsnum" where
  "item_to_number JUndefined = Num 0"
| "item_to_number JNull = Num 0"
| "item_to_number (JBool b) = NaN"
| "item_to_number (JNum n) = n"
| "item_to_number (JStr s) = string_to_number s"
| "item_to_number (JArr []) = Num 0"
| "item_to_number (JArr [x]) = item_to_number x"
| "item_to_number (JArr (x # y # ys)) = NaN"
| "item_to_number (JObj fs) = NaN"

fun to_number :: "json \<Rightarrow> jsnum" where
  "to_number JUndefined = NaN"
| "to_number JNull = Num 0"
| "to_number (JBool b) = Num (if b then 1 else 0)"
| "to_number (JNum n) = n"
| "to_number (JStr s) = string_to_number s"
| "to_number (JArr xs) = item_to_number (JArr xs)"
| "to_number (JObj fs) = NaN"

text \<open>\<open>value ?? default\<close> on a JSON value.\<close>

fun nullish_default :: "json \<Rightarrow> json \<Rightarrow> json" where
  "nullish_default JUndefined d = d"
| "nullish_default JNull d = d"
| "nullish_default v d = v"

end
