(* ===== verification/Validation.thy ===== *)
theory Validation
  imports JsonValues
begin

text \<open>
  The field normalizers that every request parser of the backend shares
  (packages/backend/src/validation-utils.ts), the proxy and clipboard enumerations of the API
  contract (packages/api-contract/src/proxy.ts, terminal-clipboard.ts) and the parser of
  port-forwarding rules (packages/backend/src/port-forward/validation.ts). A parser returns
  \<open>Inl\<close> the error that the route reports, or \<open>Inr\<close> the normalized request; a field that the code
  leaves \<open>undefined\<close> is \<open>None\<close>.
\<close>

section \<open>Results and field normalizers\<close>

record ValidationError =
  i18nKey :: jstring
  fallbackMessage :: jstring

type_synonym 'a validation = "ValidationError + 'a"

definition buildValidationError :: "jstring \<Rightarrow> jstring \<Rightarrow> ValidationError" where
  "buildValidationError key msg = \<lparr>i18nKey = key, fallbackMessage = msg\<rparr>"

definition isRecord :: "json \<Rightarrow> bool" where
  "isRecord value = is_record value"

abbreviation field :: "json \<Rightarrow> string \<Rightarrow> json" where
  "field payload k \<equiv> get_field payload (js k)"

definition normalizeOptionalString :: "json \<Rightarrow> jstring option" where
  "normalizeOptionalString value =
     (case value of
        JStr s \<Rightarrow> (let trimmed = trim s in if length trimmed > 0 then Some trimmed else None)
      | _ \<Rightarrow> None)"

definition normalizeOptionalBoolean :: "json \<Rightarrow> bool option" where
  "normalizeOptionalBoolean value = (case value of JBool b \<Rightarrow> Some b | _ \<Rightarrow> None)"

definition normalizePort :: "json \<Rightarrow> jsnum" where
  "normalizePort value = (case value of JNum n \<Rightarrow> n | _ \<Rightarrow> to_number value)"

definition normalizePositiveInteger :: "json \<Rightarrow> jsnum option" where
  "normalizePositiveInteger value =
     (if value = JUndefined \<or> value = JNull \<or> value = JStr [] then None
      else
        let normalizedValue = (case value of JNum n \<Rightarrow> n | _ \<Rightarrow> to_number value)
        in if is_integer normalizedValue \<and> num_lt (Num 0) normalizedValue
           then Some normalizedValue else None)"

definition isValidTcpPort :: "jsnum \<Rightarrow> bool" where
  "isValidTcpPort value \<longleftrightarrow> is_integer value \<and> num_le (Num 1) value \<and> num_le value (Num 65535)"

definition normalizeUniqueStringIds :: "json \<Rightarrow> jstring list" where
  "normalizeUniqueStringIds ids =
     (case ids of
        JArr items \<Rightarrow>
          unique (filter (\<lambda>s. s \<noteq> [])
            (map (\<lambda>item. case item of JStr s \<Rightarrow> trim s | _ \<Rightarrow> []) items))
      | _ \<Rightarrow> [])"

definition normalizeOptionalUniqueStringIds :: "json \<Rightarrow> jstring list option" where
  "normalizeOptionalUniqueStringIds ids =
     (case ids of JArr items \<Rightarrow> Some (normalizeUniqueStringIds ids) | _ \<Rightarrow> None)"

text \<open>\<open>!value || value.length > limit\<close> and \<open>value && value.length > limit\<close>.\<close>

fun absent_or_longer :: "nat \<Rightarrow> jstring option \<Rightarrow> bool" where
  "absent_or_longer limit None = True"
| "absent_or_longer limit (Some s) = (s = [] \<or> length s > limit)"

fun present_and_longer :: "nat \<Rightarrow> jstring option \<Rightarrow> bool" where
  "present_and_longer limit None = False"
| "present_and_longer limit (Some s) = (s \<noteq> [] \<and> length s > limit)"

section \<open>Enumerations of the contract\<close>

definition GLOBAL_SERVER_PROXY_MODES :: "jstring list" where
  "GLOBAL_SERVER_PROXY_MODES = map js [''off'', ''system'', ''custom'']"

definition SSH_SERVER_PROXY_MODES :: "jstring list" where
  "SSH_SERVER_PROXY_MODES = map js [''default'', ''off'', ''custom'']"

definition SUPPORTED_PROXY_PROTOCOLS :: "jstring list" where
  "SUPPORTED_PROXY_PROTOCOLS = map js [''http:'', ''https:'', ''socks5:'']"

definition MAX_PROXY_URL_LENGTH :: nat where "MAX_PROXY_URL_LENGTH = 2048"

definition MAX_SYSTEM_PROXY_RULES_LENGTH :: nat where "MAX_SYSTEM_PROXY_RULES_LENGTH = 4096"

definition TERMINAL_CLIPBOARD_ACCESS_OPTIONS :: "jstring list" where
  "TERMINAL_CLIPBOARD_ACCESS_OPTIONS = map js [''off'', ''writeAskRead'', ''readWrite'', ''askAlways'']"

definition DEFAULT_TERMINAL_CLIPBOARD_ACCESS :: jstring where
  "DEFAULT_TERMINAL_CLIPBOARD_ACCESS = js ''off''"

definition isGlobalServerProxyMode :: "json \<Rightarrow> bool" where
  "isGlobalServerProxyMode value = (case value of JStr s \<Rightarrow> s \<in> set GLOBAL_SERVER_PROXY_MODES | _ \<Rightarrow> False)"

definition isSshServerProxyMode :: "json \<Rightarrow> bool" where
  "isSshServerProxyMode value = (case value of JStr s \<Rightarrow> s \<in> set SSH_SERVER_PROXY_MODES | _ \<Rightarrow> False)"

definition isTerminalClipboardAccess :: "json \<Rightarrow> bool" where
  "isTerminalClipboardAccess value =
     (case value of JStr s \<Rightarrow> s \<in> set TERMINAL_CLIPBOARD_ACCESS_OPTIONS | _ \<Rightarrow> False)"

text \<open>
  \<open>new URL(s)\<close> is the URL parser of the host: a parameter that returns the components the code
  reads, or \<open>None\<close> when it throws.
\<close>

record url =
  url_protocol :: jstring
  url_hostname :: jstring
  url_search :: jstring
  url_hash :: jstring
  url_pathname :: jstring
  url_href :: jstring

datatype proxy_url_reason = UrlRequired | UrlTooLong | InvalidUrl | UnsupportedProtocol | InvalidPath

definition validateProxyUrl :: "(jstring \<Rightarrow> url option) \<Rightarrow> json \<Rightarrow> proxy_url_reason + jstring" where
  "validateProxyUrl parse_url value =
     (case value of
        JStr s \<Rightarrow>
          if length (trim s) = 0 then Inl UrlRequired
          else
            let normalizedInput = trim s
            in if length normalizedInput > MAX_PROXY_URL_LENGTH then Inl UrlTooLong
               else (case parse_url normalizedInput of
                       None \<Rightarrow> Inl InvalidUrl
                     | Some parsed \<Rightarrow>
                         if url_protocol parsed \<notin> set SUPPORTED_PROXY_PROTOCOLS then Inl UnsupportedProtocol
                         else if url_hostname parsed = [] \<or> length (url_search parsed) > 0 \<or>
                                 length (url_hash parsed) > 0 \<or>
                                 (length (url_pathname parsed) > 0 \<and> url_pathname parsed \<noteq> js ''/'')
                         then Inl InvalidPath
                         else Inr (url_href parsed))
      | _ \<Rightarrow> Inl UrlRequired)"

section \<open>Port-forwarding rules\<close>

datatype rule_type = LocalRule | RemoteRule | DynamicRule

definition parse_rule_type :: "json \<Rightarrow> rule_type option" where
  "parse_rule_type v =
     (if v = JStr (js ''local'') then Some LocalRule
      else if v = JStr (js ''remote'') then Some RemoteRule
      else if v = JStr (js ''dynamic'') then Some DynamicRule else None)"

record rule_payload =
  pr_name :: jstring
  pr_serverId :: jstring
  pr_type :: rule_type
  pr_localBindHost :: "jstring option"
  pr_localBindPort :: "jsnum option"
  pr_remoteBindHost :: "jstring option"
  pr_remoteBindPort :: "jsnum option"
  pr_targetHost :: "jstring option"
  pr_targetPort :: "jsnum option"
  pr_note :: "jstring option"

definition LOCALHOST_BIND_HOST :: jstring where
  "LOCALHOST_BIND_HOST = js ''127.0.0.1''"

definition isValidHost :: "jstring option \<Rightarrow> bool" where
  "isValidHost value = (case value of None \<Rightarrow> False | Some s \<Rightarrow> length s \<ge> 1 \<and> length s \<le> 255)"

fun or_default :: "'a option \<Rightarrow> 'a \<Rightarrow> 'a" where
  "or_default None d = d"
| "or_default (Some x) d = x"

text \<open>
  A chain of early returns: the first condition that holds decides the error. The conditions are
  pure, so the order in which the code evaluates them does not matter.
\<close>

fun reject_first :: "(bool \<times> ValidationError) list \<Rightarrow> 'a \<Rightarrow> 'a validation" where
  "reject_first [] value = Inr value"
| "reject_first ((failed, e) # checks) value = (if failed then Inl e else reject_first checks value)"

abbreviation problem :: "string \<Rightarrow> string \<Rightarrow> ValidationError" where
  "problem key msg \<equiv> buildValidationError (js (''errors.validation.'' @ key)) (js msg)"

definition parsePortForwardRulePayload :: "json \<Rightarrow> rule_payload validation" where
  "parsePortForwardRulePayload payload =
     (if \<not> isRecord payload
      then Inl (problem ''requestBodyMustBeObject'' ''Request body must be a JSON object.'')
      else
        let name = normalizeOptionalString (field payload ''name'');
            serverId = normalizeOptionalString (field payload ''serverId'');
            type = parse_rule_type (field payload ''type'');
            note = normalizeOptionalString (field payload ''note'');
            localBindHost = or_default (normalizeOptionalString (field payload ''localBindHost'')) LOCALHOST_BIND_HOST;
            localBindPort = normalizePort (field payload ''localBindPort'');
            remoteBindHost = or_default (normalizeOptionalString (field payload ''remoteBindHost'')) (js ''127.0.0.1'');
            remoteBindPort = normalizePort (field payload ''remoteBindPort'');
            targetHost = normalizeOptionalString (field payload ''targetHost'');
            targetPort = normalizePort (field payload ''targetPort'');
            isLocal = (type = Some LocalRule \<or> type = Some DynamicRule);
            isRemote = (type = Some RemoteRule);
            isTarget = (type = Some LocalRule \<or> type = Some RemoteRule)
        in reject_first
             [(absent_or_longer 120 name,
               problem ''portForwardRuleNameLength'' ''Rule name is required and must be 1-120 characters.''),
              (serverId = None, problem ''serverIdRequired'' ''serverId is required.''),
              (type = None, problem ''portForwardRuleType'' ''type must be one of: local, remote, dynamic.''),
              (present_and_longer 3000 note, problem ''noteLength'' ''Note must be 3000 characters or fewer.''),
              (isLocal \<and> \<not> isValidHost (Some localBindHost),
               problem ''hostLength'' ''Host is required and must be 1-255 characters.''),
              (isLocal \<and> \<not> isValidTcpPort localBindPort,
               problem ''portRange'' ''Port must be an integer in range 1-65535.''),
              (isRemote \<and> \<not> isValidHost (Some remoteBindHost),
               problem ''hostLength'' ''Host is required and must be 1-255 characters.''),
              (isRemote \<and> \<not> isValidTcpPort remoteBindPort,
               problem ''portRange'' ''Port must be an integer in range 1-65535.''),
              (isTarget \<and> \<not> isValidHost targetHost,
               problem ''hostLength'' ''Host is required and must be 1-255 characters.''),
              (isTarget \<and> \<not> isValidTcpPort targetPort,
               problem ''portRange'' ''Port must be an integer in range 1-65535.'')]
             \<lparr>pr_name = the name, pr_serverId = the serverId, pr_type = the type,
              pr_localBindHost = (if isLocal then Some localBindHost else None),
              pr_localBindPort = (if isLocal then Some localBindPort else None),
              pr_remoteBindHost = (if isRemote then Some remoteBindHost else None),
              pr_remoteBindPort = (if isRemote then Some remoteBindPort else None),
              pr_targetHost = (if isTarget then targetHost else None),
              pr_targetPort = (if isTarget then Some targetPort else None),
              pr_note = note\<rparr>)"

lemma reject_first_Inr [simp]:
  "reject_first checks value = Inr r \<longleftrightarrow> value = r \<and> list_all (\<lambda>c. \<not> fst c) checks"
proof (induction checks)
  case (Cons c checks)
  then show ?case by (cases c) auto
qed simp

lemma reject_first_ok: "list_all (\<lambda>c. \<not> fst c) checks \<Longrightarrow> reject_first checks value = Inr value"
  by simp

section \<open>What the normalizers produce\<close>

definition clean :: "jstring \<Rightarrow> bool" where
  "clean s \<longleftrightarrow> s \<noteq> [] \<and> trim s = s"

lemma clean_nonempty: "clean s \<Longrightarrow> s \<noteq> []"
  by (simp add: clean_def)

lemma normalizeOptionalString_clean: "normalizeOptionalString v = Some s \<Longrightarrow> clean s"
  by (auto simp: normalizeOptionalString_def clean_def Let_def split: json.splits if_splits)

lemma normalizeOptionalString_JStr [simp]: "clean s \<Longrightarrow> normalizeOptionalString (JStr s) = Some s"
  by (simp add: normalizeOptionalString_def clean_def)

lemma normalizeOptionalString_undefined [simp]: "normalizeOptionalString JUndefined = None"
  by (simp add: normalizeOptionalString_def)

lemma isValidTcpPort_nat:
  "isValidTcpPort p \<longleftrightarrow> (\<exists>n::nat. p = Num (of_nat n) \<and> 1 \<le> n \<and> n \<le> 65535)"
proof
  assume v: "isValidTcpPort p"
  then obtain i where p: "p = Num (of_int i)"
    unfolding isValidTcpPort_def by (metis is_integer_obtain)
  have "(1::rat) \<le> of_int i" "of_int i \<le> (65535::rat)" using v p by (simp_all add: isValidTcpPort_def)
  then have "1 \<le> i" "i \<le> 65535" by linarith+
  with p show "\<exists>n::nat. p = Num (of_nat n) \<and> 1 \<le> n \<and> n \<le> 65535"
    by (intro exI [of _ "nat i"]) auto
qed (auto simp: isValidTcpPort_def)

lemma ids_clean:
  "s \<in> set (normalizeUniqueStringIds v) \<Longrightarrow> clean s"
  by (auto simp: normalizeUniqueStringIds_def clean_def split: json.splits)

lemma ids_distinct: "distinct (normalizeUniqueStringIds v)"
  by (simp add: normalizeUniqueStringIds_def split: json.splits)

lemma ids_idem:
  "normalizeUniqueStringIds (JArr (map JStr (normalizeUniqueStringIds v))) = normalizeUniqueStringIds v"
proof -
  let ?ids = "normalizeUniqueStringIds v"
  have "map (\<lambda>item. case item of JStr s \<Rightarrow> trim s | _ \<Rightarrow> []) (map JStr ?ids) = ?ids"
    using ids_clean [of _ v] by (simp add: map_idI clean_def)
  moreover have "filter (\<lambda>s. s \<noteq> []) ?ids = ?ids"
    using ids_clean [of _ v] by (simp add: filter_id_conv clean_def)
  ultimately show ?thesis
    using unique_distinct [OF ids_distinct [of v]]
    by (simp add: normalizeUniqueStringIds_def [of "JArr _"] del: map_map)
qed

section \<open>What an accepted rule looks like\<close>

definition host_ok :: "jstring option \<Rightarrow> bool" where
  "host_ok h \<longleftrightarrow> (\<exists>s. h = Some s \<and> clean s \<and> length s \<le> 255)"

definition port_ok :: "jsnum option \<Rightarrow> bool" where
  "port_ok p \<longleftrightarrow> (\<exists>x. p = Some x \<and> isValidTcpPort x)"

text \<open>Each kind of rule has exactly the endpoints that it uses, and they are valid.\<close>

definition rule_ok :: "rule_payload \<Rightarrow> bool" where
  "rule_ok r \<longleftrightarrow>
     clean (pr_name r) \<and> length (pr_name r) \<le> 120 \<and> clean (pr_serverId r) \<and>
     (\<forall>n. pr_note r = Some n \<longrightarrow> clean n \<and> length n \<le> 3000) \<and>
     (if pr_type r = RemoteRule
      then pr_localBindHost r = None \<and> pr_localBindPort r = None \<and>
           host_ok (pr_remoteBindHost r) \<and> port_ok (pr_remoteBindPort r)
      else host_ok (pr_localBindHost r) \<and> port_ok (pr_localBindPort r) \<and>
           pr_remoteBindHost r = None \<and> pr_remoteBindPort r = None) \<and>
     (if pr_type r = DynamicRule
      then pr_targetHost r = None \<and> pr_targetPort r = None
      else host_ok (pr_targetHost r) \<and> port_ok (pr_targetPort r))"

lemma present_and_longer_clean:
  "normalizeOptionalString v = Some n \<Longrightarrow> \<not> present_and_longer k (normalizeOptionalString v) \<Longrightarrow>
   clean n \<and> length n \<le> k"
  using normalizeOptionalString_clean [of v n] by (auto simp: clean_def)

lemma absent_or_longer_clean:
  "\<not> absent_or_longer k (normalizeOptionalString v) \<Longrightarrow>
   \<exists>n. normalizeOptionalString v = Some n \<and> clean n \<and> length n \<le> k"
  using normalizeOptionalString_clean [of v] by (cases "normalizeOptionalString v") auto

lemma or_default_clean: "clean d \<Longrightarrow> clean (or_default (normalizeOptionalString v) d)"
  using normalizeOptionalString_clean [of v] by (cases "normalizeOptionalString v") auto

lemma clean_localhost [simp]: "clean (js ''127.0.0.1'')" "clean LOCALHOST_BIND_HOST"
  by (simp_all add: LOCALHOST_BIND_HOST_def clean_def trim_def trim_start_def trim_end_def is_space_def js_simps)

lemma isValidHost_ok: "isValidHost (normalizeOptionalString v) \<Longrightarrow> host_ok (normalizeOptionalString v)"
  using normalizeOptionalString_clean [of v]
  by (cases "normalizeOptionalString v") (auto simp: isValidHost_def host_ok_def)

lemma isValidHost_default_ok:
  "clean d \<Longrightarrow> isValidHost (Some (or_default (normalizeOptionalString v) d)) \<Longrightarrow>
   host_ok (Some (or_default (normalizeOptionalString v) d))"
  using or_default_clean [of d v] by (auto simp: isValidHost_def host_ok_def)

lemma parse_rule_ok:
  assumes "parsePortForwardRulePayload payload = Inr r"
  shows "rule_ok r"
proof -
  have rec: "isRecord payload"
    by (rule ccontr) (use assms in \<open>simp add: parsePortForwardRulePayload_def\<close>)
  note c = assms [unfolded parsePortForwardRulePayload_def Let_def not_not if_not_P [where P = "\<not> isRecord payload", unfolded not_not, OF rec]
      reject_first_Inr list.pred_inject fst_conv]
  note eq = c [THEN conjunct1, symmetric] and ck = c [THEN conjunct2]
  obtain t where t: "parse_rule_type (field payload ''type'') = Some t" using ck by blast
  have fields: "pr_name r = the (normalizeOptionalString (field payload ''name''))"
    "pr_serverId r = the (normalizeOptionalString (field payload ''serverId''))" "pr_type r = t"
    "pr_note r = normalizeOptionalString (field payload ''note'')"
    unfolding eq by (simp_all add: t)
  have "\<not> absent_or_longer 120 (normalizeOptionalString (field payload ''name''))" using ck by blast
  then have "clean (pr_name r)" "length (pr_name r) \<le> 120"
    unfolding fields using absent_or_longer_clean by fastforce+
  moreover have "clean (pr_serverId r)"
    unfolding fields using ck normalizeOptionalString_clean by fastforce
  moreover have "\<not> present_and_longer 3000 (normalizeOptionalString (field payload ''note''))" using ck by blast
  then have "\<forall>n. pr_note r = Some n \<longrightarrow> clean n \<and> length n \<le> 3000"
    unfolding fields using present_and_longer_clean by blast
  moreover have "(if pr_type r = RemoteRule
      then pr_localBindHost r = None \<and> pr_localBindPort r = None \<and>
           host_ok (pr_remoteBindHost r) \<and> port_ok (pr_remoteBindPort r)
      else host_ok (pr_localBindHost r) \<and> port_ok (pr_localBindPort r) \<and>
           pr_remoteBindHost r = None \<and> pr_remoteBindPort r = None)"
  proof (cases t)
    case RemoteRule
    have "isValidHost (Some (or_default (normalizeOptionalString (field payload ''remoteBindHost'')) (js ''127.0.0.1'')))"
      "isValidTcpPort (normalizePort (field payload ''remoteBindPort''))"
      using ck t RemoteRule by blast+
    then show ?thesis
      unfolding fields unfolding eq using isValidHost_default_ok by (simp add: t RemoteRule port_ok_def)
  next
    case LocalRule
    have "isValidHost (Some (or_default (normalizeOptionalString (field payload ''localBindHost'')) LOCALHOST_BIND_HOST))"
      "isValidTcpPort (normalizePort (field payload ''localBindPort''))"
      using ck t LocalRule by blast+
    then show ?thesis
      unfolding fields unfolding eq using isValidHost_default_ok by (simp add: t LocalRule port_ok_def)
  next
    case DynamicRule
    have "isValidHost (Some (or_default (normalizeOptionalString (field payload ''localBindHost'')) LOCALHOST_BIND_HOST))"
      "isValidTcpPort (normalizePort (field payload ''localBindPort''))"
      using ck t DynamicRule by blast+
    then show ?thesis
      unfolding fields unfolding eq using isValidHost_default_ok by (simp add: t DynamicRule port_ok_def)
  qed
  moreover have "(if pr_type r = DynamicRule then pr_targetHost r = None \<and> pr_targetPort r = None
      else host_ok (pr_targetHost r) \<and> port_ok (pr_targetPort r))"
  proof (cases "t = DynamicRule")
    case False
    then have tt: "t = LocalRule \<or> t = RemoteRule" by (cases t) simp_all
    have "isValidHost (normalizeOptionalString (field payload ''targetHost''))"
      "isValidTcpPort (normalizePort (field payload ''targetPort''))"
      using ck t tt by blast+
    then show ?thesis
      unfolding fields unfolding eq using isValidHost_ok tt False by (auto simp: t port_ok_def)
  qed (simp add: fields, simp add: eq t)
  ultimately show ?thesis unfolding rule_ok_def by (intro conjI)
qed

section \<open>Parsing a normalized rule again\<close>

definition encode_string :: "string \<Rightarrow> jstring option \<Rightarrow> (jstring \<times> json) list" where
  "encode_string k v = (case v of None \<Rightarrow> [] | Some s \<Rightarrow> [(js k, JStr s)])"

definition encode_number :: "string \<Rightarrow> jsnum option \<Rightarrow> (jstring \<times> json) list" where
  "encode_number k v = (case v of None \<Rightarrow> [] | Some n \<Rightarrow> [(js k, JNum n)])"

fun rule_type_name :: "rule_type \<Rightarrow> jstring" where
  "rule_type_name LocalRule = js ''local''"
| "rule_type_name RemoteRule = js ''remote''"
| "rule_type_name DynamicRule = js ''dynamic''"

definition encode_rule :: "rule_payload \<Rightarrow> json" where
  "encode_rule r = JObj
     ([(js ''name'', JStr (pr_name r)), (js ''serverId'', JStr (pr_serverId r)),
       (js ''type'', JStr (rule_type_name (pr_type r)))] @
      encode_string ''localBindHost'' (pr_localBindHost r) @
      encode_number ''localBindPort'' (pr_localBindPort r) @
      encode_string ''remoteBindHost'' (pr_remoteBindHost r) @
      encode_number ''remoteBindPort'' (pr_remoteBindPort r) @
      encode_string ''targetHost'' (pr_targetHost r) @
      encode_number ''targetPort'' (pr_targetPort r) @
      encode_string ''note'' (pr_note r))"

lemma parse_rule_type_name [simp]: "parse_rule_type (JStr (rule_type_name t)) = Some t"
  by (cases t) (simp_all add: parse_rule_type_def)

lemma isValidHost_clean: "clean s \<Longrightarrow> length s \<le> 255 \<Longrightarrow> isValidHost (Some s)"
  by (cases s) (auto simp: isValidHost_def clean_def)

lemma not_absent_clean: "clean s \<Longrightarrow> length s \<le> k \<Longrightarrow> \<not> absent_or_longer k (Some s)"
  by (simp add: clean_def)

lemma rule_roundtrip:
  assumes "rule_ok r"
  shows "parsePortForwardRulePayload (encode_rule r) = Inr r"
proof -
  have note_ok: "\<not> present_and_longer 3000 (pr_note r)"
    "normalizeOptionalString (case pr_note r of None \<Rightarrow> JUndefined | Some s \<Rightarrow> JStr s) = pr_note r"
    using assms by (cases "pr_note r"; simp add: rule_ok_def)+
  have nt: "field (encode_rule r) ''note'' = (case pr_note r of None \<Rightarrow> JUndefined | Some s \<Rightarrow> JStr s)"
    by (auto simp: encode_rule_def encode_string_def encode_number_def split: option.splits)
  have base: "isRecord (encode_rule r)" "field (encode_rule r) ''name'' = JStr (pr_name r)"
    "field (encode_rule r) ''serverId'' = JStr (pr_serverId r)"
    "parse_rule_type (field (encode_rule r) ''type'') = Some (pr_type r)"
    by (simp_all add: encode_rule_def isRecord_def)
  have name: "clean (pr_name r)" "length (pr_name r) \<le> 120" "clean (pr_serverId r)"
    using assms by (simp_all add: rule_ok_def)
  show ?thesis
  proof (cases "pr_type r")
    case LocalRule
    then obtain lh lp th tp where e: "pr_localBindHost r = Some lh" "pr_localBindPort r = Some lp"
      "pr_targetHost r = Some th" "pr_targetPort r = Some tp" "pr_remoteBindHost r = None"
      "pr_remoteBindPort r = None" and ok: "clean lh" "length lh \<le> 255" "isValidTcpPort lp"
      "clean th" "length th \<le> 255" "isValidTcpPort tp"
      using assms by (auto simp: rule_ok_def host_ok_def port_ok_def)
    have f: "field (encode_rule r) ''localBindHost'' = JStr lh" "field (encode_rule r) ''localBindPort'' = JNum lp"
      "field (encode_rule r) ''targetHost'' = JStr th" "field (encode_rule r) ''targetPort'' = JNum tp"
      by (simp_all add: encode_rule_def encode_string_def encode_number_def e)
    show ?thesis
      unfolding parsePortForwardRulePayload_def Let_def base f nt note_ok(2)
      using LocalRule e ok name note_ok(1)
      by (simp add: base not_absent_clean isValidHost_clean normalizePort_def clean_nonempty)
  next
    case RemoteRule
    then obtain rh rp th tp where e: "pr_remoteBindHost r = Some rh" "pr_remoteBindPort r = Some rp"
      "pr_targetHost r = Some th" "pr_targetPort r = Some tp" "pr_localBindHost r = None"
      "pr_localBindPort r = None" and ok: "clean rh" "length rh \<le> 255" "isValidTcpPort rp"
      "clean th" "length th \<le> 255" "isValidTcpPort tp"
      using assms by (auto simp: rule_ok_def host_ok_def port_ok_def)
    have f: "field (encode_rule r) ''remoteBindHost'' = JStr rh" "field (encode_rule r) ''remoteBindPort'' = JNum rp"
      "field (encode_rule r) ''targetHost'' = JStr th" "field (encode_rule r) ''targetPort'' = JNum tp"
      by (simp_all add: encode_rule_def encode_string_def encode_number_def e)
    show ?thesis
      unfolding parsePortForwardRulePayload_def Let_def base f nt note_ok(2)
      using RemoteRule e ok name note_ok(1)
      by (simp add: base not_absent_clean isValidHost_clean normalizePort_def clean_nonempty)
  next
    case DynamicRule
    then obtain lh lp where e: "pr_localBindHost r = Some lh" "pr_localBindPort r = Some lp"
      "pr_targetHost r = None" "pr_targetPort r = None" "pr_remoteBindHost r = None"
      "pr_remoteBindPort r = None" and ok: "clean lh" "length lh \<le> 255" "isValidTcpPort lp"
      using assms by (auto simp: rule_ok_def host_ok_def port_ok_def)
    have f: "field (encode_rule r) ''localBindHost'' = JStr lh" "field (encode_rule r) ''localBindPort'' = JNum lp"
      by (simp_all add: encode_rule_def encode_string_def encode_number_def e)
    show ?thesis
      unfolding parsePortForwardRulePayload_def Let_def base f nt note_ok(2)
      using DynamicRule e ok name note_ok(1)
      by (simp add: base not_absent_clean isValidHost_clean normalizePort_def clean_nonempty)
  qed
qed

end
