(* ===== verification/SshValidation.thy ===== *)
theory SshValidation
  imports Validation
begin

text \<open>
  The parsers of the SSH routes (packages/backend/src/ssh/validation.ts): folders, tags, servers,
  sessions and trusted fingerprints. The URL parser of the host is the parameter \<open>parse_url\<close>.
\<close>

section \<open>Field normalizers\<close>

definition SSH_VISUAL_COLOR_KEY_SET :: "jstring list" where
  "SSH_VISUAL_COLOR_KEY_SET = map js [''slate'', ''blue'', ''emerald'', ''violet'', ''amber'', ''rose'',
     ''cyan'', ''indigo'', ''teal'', ''lime'']"

definition normalizeOptionalIconKey :: "json \<Rightarrow> jstring option" where
  "normalizeOptionalIconKey v =
     (case normalizeOptionalString v of
        None \<Rightarrow> None
      | Some normalized \<Rightarrow> if length normalized > 64 then None else Some normalized)"

definition normalizeOptionalColorKey :: "json \<Rightarrow> jstring option" where
  "normalizeOptionalColorKey v =
     (case normalizeOptionalString v of
        None \<Rightarrow> None
      | Some normalized \<Rightarrow> if normalized \<in> set SSH_VISUAL_COLOR_KEY_SET then Some normalized else None)"

definition isSshAuthType :: "json \<Rightarrow> bool" where
  "isSshAuthType v \<longleftrightarrow> v = JStr (js ''password'') \<or> v = JStr (js ''key'') \<or> v = JStr (js ''both'')"

definition normalizeOptionalTerminalClipboardAccess :: "json \<Rightarrow> jstring option" where
  "normalizeOptionalTerminalClipboardAccess v =
     (case normalizeOptionalString v of
        None \<Rightarrow> None
      | Some normalized \<Rightarrow> if isTerminalClipboardAccess (JStr normalized) then Some normalized else None)"

definition normalizeOptionalSystemProxyRules :: "json \<Rightarrow> jstring option" where
  "normalizeOptionalSystemProxyRules v =
     (case normalizeOptionalString v of
        None \<Rightarrow> None
      | Some normalized \<Rightarrow>
          if length normalized > MAX_SYSTEM_PROXY_RULES_LENGTH then None else Some normalized)"

record proxy_configuration =
  pc_proxyMode :: "jstring option"
  pc_proxyUrl :: "jstring option"

fun mode_string :: "json \<Rightarrow> jstring option" where
  "mode_string (JStr s) = Some s"
| "mode_string _ = None"

definition normalizeServerProxyConfiguration ::
    "(jstring \<Rightarrow> url option) \<Rightarrow> json \<Rightarrow> json \<Rightarrow> jstring option \<Rightarrow> proxy_configuration validation" where
  "normalizeServerProxyConfiguration parse_url mode raw_url defaultMode =
     (let normalizedMode =
        (if mode = JUndefined then (case defaultMode of None \<Rightarrow> JUndefined | Some d \<Rightarrow> JStr d) else mode)
      in if normalizedMode \<noteq> JUndefined \<and> \<not> isSshServerProxyMode normalizedMode
         then Inl (problem ''proxyModeEnum'' ''proxyMode must be one of: default, off, custom.'')
         else case normalizeOptionalString raw_url of
                None \<Rightarrow>
                  if normalizedMode = JStr (js ''custom'')
                  then Inl (problem ''proxyUrlInvalid'' ''proxyUrl is required when proxyMode is custom.'')
                  else Inr \<lparr>pc_proxyMode = mode_string normalizedMode, pc_proxyUrl = None\<rparr>
              | Some normalizedUrl \<Rightarrow>
                  (case validateProxyUrl parse_url (JStr normalizedUrl) of
                     Inl reason \<Rightarrow> Inl (problem ''proxyUrlInvalid''
                       ''proxyUrl must be a valid http, https, or socks5 proxy URL without a path, query, or fragment.'')
                   | Inr u \<Rightarrow> Inr \<lparr>pc_proxyMode = mode_string normalizedMode, pc_proxyUrl = Some u\<rparr>))"

abbreviation body_problem :: ValidationError where
  "body_problem \<equiv> problem ''requestBodyMustBeObject'' ''Request body must be a JSON object.''"

section \<open>Folders and tags\<close>

record folder_request =
  fr_name :: jstring
  fr_iconKey :: "jstring option"
  fr_colorKey :: "jstring option"
  fr_note :: "jstring option"

definition parseCreateFolderRequest :: "json \<Rightarrow> folder_request validation" where
  "parseCreateFolderRequest payload =
     (if \<not> isRecord payload then Inl body_problem
      else
        let name = normalizeOptionalString (field payload ''name'');
            note = normalizeOptionalString (field payload ''note'');
            iconKey = normalizeOptionalIconKey (field payload ''iconKey'');
            colorKey = normalizeOptionalColorKey (field payload ''colorKey'')
        in reject_first
             [(absent_or_longer 120 name,
               problem ''folderNameLength'' ''Folder name is required and must be 1-120 characters.''),
              (present_and_longer 1000 note,
               problem ''folderNoteLength'' ''Folder note must be 1000 characters or fewer.''),
              (field payload ''iconKey'' \<noteq> JUndefined \<and> iconKey = None,
               problem ''iconKeyLength'' ''Icon key must be between 1 and 64 characters when provided.''),
              (field payload ''colorKey'' \<noteq> JUndefined \<and> colorKey = None,
               problem ''colorKeyInvalid''
                 ''Color key must be one of the predefined SSH visual colors when provided.'')]
             \<lparr>fr_name = the name, fr_iconKey = iconKey, fr_colorKey = colorKey, fr_note = note\<rparr>)"

definition parseCreateTagRequest :: "json \<Rightarrow> jstring validation" where
  "parseCreateTagRequest payload =
     (if \<not> isRecord payload then Inl body_problem
      else
        let name = normalizeOptionalString (field payload ''name'')
        in reject_first
             [(absent_or_longer 64 name,
               problem ''tagNameLength'' ''Tag name is required and must be 1-64 characters.'')]
             (the name))"

definition parseUpdateFolderRequest :: "json \<Rightarrow> folder_request validation" where
  "parseUpdateFolderRequest payload =
     (if \<not> isRecord payload then Inl body_problem
      else
        let name = normalizeOptionalString (field payload ''name'');
            note = normalizeOptionalString (field payload ''note'');
            iconKey = normalizeOptionalIconKey (field payload ''iconKey'');
            colorKey = normalizeOptionalColorKey (field payload ''colorKey'')
        in reject_first
             [(absent_or_longer 120 name,
               problem ''folderNameLength'' ''Folder name is required and must be 1-120 characters.''),
              (present_and_longer 1000 note,
               problem ''folderNoteLength'' ''Folder note must be 1000 characters or fewer.''),
              (field payload ''iconKey'' \<noteq> JUndefined \<and> iconKey = None,
               problem ''iconKeyLength'' ''Icon key must be between 1 and 64 characters when provided.''),
              (field payload ''colorKey'' \<noteq> JUndefined \<and> colorKey = None,
               problem ''colorKeyInvalid''
                 ''Color key must be one of the predefined SSH visual colors when provided.'')]
             \<lparr>fr_name = the name, fr_iconKey = iconKey, fr_colorKey = colorKey, fr_note = note\<rparr>)"

section \<open>Servers\<close>

record server_request =
  sr_name :: jstring
  sr_host :: jstring
  sr_port :: jsnum
  sr_username :: jstring
  sr_authType :: "jstring option"
  sr_keychainId :: "jstring option"
  sr_password :: "jstring option"
  sr_privateKey :: "jstring option"
  sr_privateKeyPassphrase :: "jstring option"
  sr_strictHostKey :: "bool option"
  sr_enableSshCompression :: "bool option"
  sr_remoteEnhancementsEnabled :: "bool option"
  sr_disableCharacterWidthCompatibilityMode :: "bool option"
  sr_terminalClipboardAccess :: "jstring option"
  sr_proxyMode :: "jstring option"
  sr_proxyUrl :: "jstring option"
  sr_folderId :: "jstring option"
  sr_iconKey :: "jstring option"
  sr_colorKey :: "jstring option"
  sr_tagIds :: "jstring list option"
  sr_note :: "jstring option"

text \<open>A type error of an optional field: it is given, and its normalizer refuses it.\<close>

abbreviation given :: "json \<Rightarrow> string \<Rightarrow> bool" where
  "given payload k \<equiv> field payload k \<noteq> JUndefined"

definition parseCreateServerRequest :: "(jstring \<Rightarrow> url option) \<Rightarrow> json \<Rightarrow> server_request validation" where
  "parseCreateServerRequest parse_url payload =
     (if \<not> isRecord payload then Inl body_problem
      else
        let name = normalizeOptionalString (field payload ''name'');
            host = normalizeOptionalString (field payload ''host'');
            username = normalizeOptionalString (field payload ''username'');
            authType = field payload ''authType'';
            keychainId = normalizeOptionalString (field payload ''keychainId'');
            port = normalizePort (field payload ''port'');
            strictHostKey = normalizeOptionalBoolean (field payload ''strictHostKey'');
            enableSshCompression = normalizeOptionalBoolean (field payload ''enableSshCompression'');
            remoteEnhancementsEnabled = normalizeOptionalBoolean (field payload ''remoteEnhancementsEnabled'');
            disableCharacterWidthCompatibilityMode =
              normalizeOptionalBoolean (field payload ''disableCharacterWidthCompatibilityMode'');
            terminalClipboardAccess =
              normalizeOptionalTerminalClipboardAccess (field payload ''terminalClipboardAccess'');
            proxyConfiguration = normalizeServerProxyConfiguration parse_url
              (field payload ''proxyMode'') (field payload ''proxyUrl'') (Some (js ''default''));
            note = normalizeOptionalString (field payload ''note'');
            iconKey = normalizeOptionalIconKey (field payload ''iconKey'');
            colorKey = normalizeOptionalColorKey (field payload ''colorKey'')
        in reject_first
             [(absent_or_longer 120 name,
               problem ''serverNameLength'' ''Server name is required and must be 1-120 characters.''),
              (absent_or_longer 255 host,
               problem ''hostLength'' ''Host is required and must be 1-255 characters.''),
              (absent_or_longer 120 username,
               problem ''usernameLength'' ''Username is required and must be 1-120 characters.''),
              (\<not> isValidTcpPort port,
               problem ''portRange'' ''Port must be an integer in range 1-65535.''),
              (keychainId = None \<and> \<not> isSshAuthType authType,
               problem ''authTypeEnum'' ''Auth type must be one of: password, key, both.''),
              (isl proxyConfiguration, projl proxyConfiguration),
              (given payload ''strictHostKey'' \<and> strictHostKey = None,
               problem ''strictHostKeyType'' ''strictHostKey must be a boolean value.''),
              (given payload ''enableSshCompression'' \<and> enableSshCompression = None,
               problem ''enableSshCompressionType'' ''enableSshCompression must be a boolean value.''),
              (given payload ''remoteEnhancementsEnabled'' \<and> remoteEnhancementsEnabled = None,
               problem ''remoteEnhancementsEnabledType'' ''remoteEnhancementsEnabled must be a boolean value.''),
              (given payload ''disableCharacterWidthCompatibilityMode'' \<and>
                 disableCharacterWidthCompatibilityMode = None,
               problem ''disableCharacterWidthCompatibilityModeType''
                 ''disableCharacterWidthCompatibilityMode must be a boolean value.''),
              (given payload ''terminalClipboardAccess'' \<and> terminalClipboardAccess = None,
               problem ''terminalClipboardAccessEnum''
                 ''terminalClipboardAccess must be one of: off, writeAskRead, readWrite, askAlways.''),
              (given payload ''iconKey'' \<and> iconKey = None,
               problem ''iconKeyLength'' ''Icon key must be between 1 and 64 characters when provided.''),
              (given payload ''colorKey'' \<and> colorKey = None,
               problem ''colorKeyInvalid''
                 ''Color key must be one of the predefined SSH visual colors when provided.''),
              (present_and_longer 3000 note,
               problem ''noteLength'' ''Note must be 3000 characters or fewer.'')]
             \<lparr>sr_name = the name, sr_host = the host, sr_port = port, sr_username = the username,
              sr_authType = (if keychainId \<noteq> None then None else mode_string authType),
              sr_keychainId = keychainId,
              sr_password = normalizeOptionalString (field payload ''password''),
              sr_privateKey = normalizeOptionalString (field payload ''privateKey''),
              sr_privateKeyPassphrase = normalizeOptionalString (field payload ''privateKeyPassphrase''),
              sr_strictHostKey = Some (or_default strictHostKey True),
              sr_enableSshCompression = Some (or_default enableSshCompression False),
              sr_remoteEnhancementsEnabled = Some (or_default remoteEnhancementsEnabled True),
              sr_disableCharacterWidthCompatibilityMode = Some (or_default disableCharacterWidthCompatibilityMode False),
              sr_terminalClipboardAccess = Some (or_default terminalClipboardAccess DEFAULT_TERMINAL_CLIPBOARD_ACCESS),
              sr_proxyMode = pc_proxyMode (projr proxyConfiguration),
              sr_proxyUrl = pc_proxyUrl (projr proxyConfiguration),
              sr_folderId = normalizeOptionalString (field payload ''folderId''),
              sr_iconKey = iconKey, sr_colorKey = colorKey,
              sr_tagIds = Some (normalizeUniqueStringIds (field payload ''tagIds'')),
              sr_note = note\<rparr>)"

definition parseUpdateServerRequest :: "(jstring \<Rightarrow> url option) \<Rightarrow> json \<Rightarrow> server_request validation" where
  "parseUpdateServerRequest parse_url payload =
     (if \<not> isRecord payload then Inl body_problem
      else
        let name = normalizeOptionalString (field payload ''name'');
            host = normalizeOptionalString (field payload ''host'');
            username = normalizeOptionalString (field payload ''username'');
            authType = field payload ''authType'';
            keychainId = normalizeOptionalString (field payload ''keychainId'');
            port = normalizePort (field payload ''port'');
            strictHostKey = normalizeOptionalBoolean (field payload ''strictHostKey'');
            enableSshCompression = normalizeOptionalBoolean (field payload ''enableSshCompression'');
            remoteEnhancementsEnabled = normalizeOptionalBoolean (field payload ''remoteEnhancementsEnabled'');
            disableCharacterWidthCompatibilityMode =
              normalizeOptionalBoolean (field payload ''disableCharacterWidthCompatibilityMode'');
            terminalClipboardAccess =
              normalizeOptionalTerminalClipboardAccess (field payload ''terminalClipboardAccess'');
            proxyConfiguration = normalizeServerProxyConfiguration parse_url
              (field payload ''proxyMode'') (field payload ''proxyUrl'') None;
            note = normalizeOptionalString (field payload ''note'');
            iconKey = normalizeOptionalIconKey (field payload ''iconKey'');
            colorKey = normalizeOptionalColorKey (field payload ''colorKey'')
        in reject_first
             [(absent_or_longer 120 name,
               problem ''serverNameLength'' ''Server name is required and must be 1-120 characters.''),
              (absent_or_longer 255 host,
               problem ''hostLength'' ''Host is required and must be 1-255 characters.''),
              (absent_or_longer 120 username,
               problem ''usernameLength'' ''Username is required and must be 1-120 characters.''),
              (\<not> isValidTcpPort port,
               problem ''portRange'' ''Port must be an integer in range 1-65535.''),
              (keychainId = None \<and> \<not> isSshAuthType authType,
               problem ''authTypeEnum'' ''Auth type must be one of: password, key, both.''),
              (isl proxyConfiguration, projl proxyConfiguration),
              (given payload ''strictHostKey'' \<and> strictHostKey = None,
               problem ''strictHostKeyType'' ''strictHostKey must be a boolean value.''),
              (given payload ''enableSshCompression'' \<and> enableSshCompression = None,
               problem ''enableSshCompressionType'' ''enableSshCompression must be a boolean value.''),
              (given payload ''remoteEnhancementsEnabled'' \<and> remoteEnhancementsEnabled = None,
               problem ''remoteEnhancementsEnabledType'' ''remoteEnhancementsEnabled must be a boolean value.''),
              (given payload ''disableCharacterWidthCompatibilityMode'' \<and>
                 disableCharacterWidthCompatibilityMode = None,
               problem ''disableCharacterWidthCompatibilityModeType''
                 ''disableCharacterWidthCompatibilityMode must be a boolean value.''),
              (given payload ''terminalClipboardAccess'' \<and> terminalClipboardAccess = None,
               problem ''terminalClipboardAccessEnum''
                 ''terminalClipboardAccess must be one of: off, writeAskRead, readWrite, askAlways.''),
              (given payload ''iconKey'' \<and> iconKey = None,
               problem ''iconKeyLength'' ''Icon key must be between 1 and 64 characters when provided.''),
              (given payload ''colorKey'' \<and> colorKey = None,
               problem ''colorKeyInvalid''
                 ''Color key must be one of the predefined SSH visual colors when provided.''),
              (present_and_longer 3000 note,
               problem ''noteLength'' ''Note must be 3000 characters or fewer.'')]
             \<lparr>sr_name = the name, sr_host = the host, sr_port = port, sr_username = the username,
              sr_authType = (if keychainId \<noteq> None then None else mode_string authType),
              sr_keychainId = keychainId,
              sr_password = normalizeOptionalString (field payload ''password''),
              sr_privateKey = normalizeOptionalString (field payload ''privateKey''),
              sr_privateKeyPassphrase = normalizeOptionalString (field payload ''privateKeyPassphrase''),
              sr_strictHostKey = strictHostKey,
              sr_enableSshCompression = enableSshCompression,
              sr_remoteEnhancementsEnabled = remoteEnhancementsEnabled,
              sr_disableCharacterWidthCompatibilityMode = disableCharacterWidthCompatibilityMode,
              sr_terminalClipboardAccess = terminalClipboardAccess,
              sr_proxyMode = pc_proxyMode (projr proxyConfiguration),
              sr_proxyUrl = pc_proxyUrl (projr proxyConfiguration),
              sr_folderId = normalizeOptionalString (field payload ''folderId''),
              sr_iconKey = iconKey, sr_colorKey = colorKey,
              sr_tagIds = normalizeOptionalUniqueStringIds (field payload ''tagIds''),
              sr_note = note\<rparr>)"

section \<open>Sessions and fingerprints\<close>

record session_request =
  ss_serverId :: jstring
  ss_cols :: jsnum
  ss_rows :: jsnum
  ss_term :: jstring
  ss_connectTimeoutSec :: jsnum
  ss_strictHostKey :: "bool option"
  ss_enableSshCompression :: "bool option"
  ss_remoteEnhancementsEnabled :: "bool option"
  ss_systemProxyRules :: "jstring option"

text \<open>\<open>typeof v === 'number' ? v : Number(v ?? fallback)\<close>.\<close>

definition number_or :: "rat \<Rightarrow> json \<Rightarrow> jsnum" where
  "number_or fallback v = (case v of JNum n \<Rightarrow> n | _ \<Rightarrow> to_number (nullish_default v (JNum (Num fallback))))"

definition out_of_range :: "rat \<Rightarrow> rat \<Rightarrow> jsnum \<Rightarrow> bool" where
  "out_of_range lo hi n \<longleftrightarrow> \<not> is_integer n \<or> num_lt n (Num lo) \<or> num_lt (Num hi) n"

definition parseCreateSessionRequest :: "json \<Rightarrow> session_request validation" where
  "parseCreateSessionRequest payload =
     (if \<not> isRecord payload then Inl body_problem
      else
        let serverId = normalizeOptionalString (field payload ''serverId'');
            cols = number_or 120 (field payload ''cols'');
            rows = number_or 32 (field payload ''rows'');
            trm = or_default (normalizeOptionalString (field payload ''term'')) (js ''xterm-256color'');
            connectTimeoutSec = number_or 45 (field payload ''connectTimeoutSec'');
            strictHostKey = normalizeOptionalBoolean (field payload ''strictHostKey'');
            enableSshCompression = normalizeOptionalBoolean (field payload ''enableSshCompression'');
            remoteEnhancementsEnabled = normalizeOptionalBoolean (field payload ''remoteEnhancementsEnabled'');
            systemProxyRules = normalizeOptionalSystemProxyRules (field payload ''systemProxyRules'')
        in reject_first
             [(serverId = None, problem ''serverIdRequired'' ''serverId is required.''),
              (given payload ''strictHostKey'' \<and> strictHostKey = None,
               problem ''strictHostKeyType'' ''strictHostKey must be a boolean value.''),
              (given payload ''enableSshCompression'' \<and> enableSshCompression = None,
               problem ''enableSshCompressionType'' ''enableSshCompression must be a boolean value.''),
              (given payload ''remoteEnhancementsEnabled'' \<and> remoteEnhancementsEnabled = None,
               problem ''remoteEnhancementsEnabledType'' ''remoteEnhancementsEnabled must be a boolean value.''),
              (given payload ''systemProxyRules'' \<and> systemProxyRules = None,
               problem ''systemProxyRulesLength'' ''systemProxyRules must be 4096 characters or fewer.''),
              (out_of_range 20 400 cols,
               problem ''colsRange'' ''cols must be an integer between 20 and 400.''),
              (out_of_range 10 200 rows,
               problem ''rowsRange'' ''rows must be an integer between 10 and 200.''),
              (length trm < 2 \<or> length trm > 64,
               problem ''termLength'' ''term must be a string between 2 and 64 characters.''),
              (out_of_range 5 180 connectTimeoutSec,
               problem ''connectTimeoutRange'' ''connectTimeoutSec must be an integer between 5 and 180.'')]
             \<lparr>ss_serverId = the serverId, ss_cols = cols, ss_rows = rows, ss_term = trm,
              ss_connectTimeoutSec = connectTimeoutSec, ss_strictHostKey = strictHostKey,
              ss_enableSshCompression = enableSshCompression,
              ss_remoteEnhancementsEnabled = remoteEnhancementsEnabled,
              ss_systemProxyRules = systemProxyRules\<rparr>)"

record fingerprint_request =
  fp_serverId :: jstring
  fp_fingerprintSha256 :: jstring
  fp_algorithm :: jstring

definition parseTrustFingerprintRequest :: "json \<Rightarrow> fingerprint_request validation" where
  "parseTrustFingerprintRequest payload =
     (if \<not> isRecord payload then Inl body_problem
      else
        let serverId = normalizeOptionalString (field payload ''serverId'');
            fingerprintSha256 = normalizeOptionalString (field payload ''fingerprintSha256'');
            algorithm = or_default (normalizeOptionalString (field payload ''algorithm'')) (js ''sha256'')
        in reject_first
             [(serverId = None, problem ''serverIdRequired'' ''serverId is required.''),
              (absent_or_longer 255 fingerprintSha256,
               problem ''fingerprintLength'' ''fingerprintSha256 is required and must be 1-255 characters.''),
              (length algorithm < 1 \<or> length algorithm > 64,
               problem ''algorithmLength'' ''algorithm must be 1-64 characters.''),
              (algorithm \<noteq> js ''sha256'',
               problem ''fingerprintAlgorithmUnsupported''
                 ''Only sha256 host fingerprint algorithm is supported.'')]
             \<lparr>fp_serverId = the serverId, fp_fingerprintSha256 = the fingerprintSha256,
              fp_algorithm = algorithm\<rparr>)"

section \<open>Creating and updating a server\<close>

text \<open>What creation fills in for the fields that an update leaves alone.\<close>

definition fill_defaults :: "server_request \<Rightarrow> server_request" where
  "fill_defaults r = r
     \<lparr>sr_strictHostKey := Some (or_default (sr_strictHostKey r) True),
      sr_enableSshCompression := Some (or_default (sr_enableSshCompression r) False),
      sr_remoteEnhancementsEnabled := Some (or_default (sr_remoteEnhancementsEnabled r) True),
      sr_disableCharacterWidthCompatibilityMode :=
        Some (or_default (sr_disableCharacterWidthCompatibilityMode r) False),
      sr_terminalClipboardAccess :=
        Some (or_default (sr_terminalClipboardAccess r) DEFAULT_TERMINAL_CLIPBOARD_ACCESS),
      sr_proxyMode := Some (or_default (sr_proxyMode r) (js ''default'')),
      sr_tagIds := Some (or_default (sr_tagIds r) [])\<rparr>"

lemma map_sum_reject_first:
  "map_sum id f (reject_first checks v) = reject_first checks (f v)"
proof (induction checks)
  case (Cons c checks)
  then show ?case by (cases c) simp
qed simp

lemma reject_first_cong:
  assumes "list_all2 (\<lambda>c c'. fst c = fst c' \<and> (fst c \<longrightarrow> snd c = snd c')) checks checks'" and "v = v'"
  shows "reject_first checks v = reject_first checks' v'"
  using assms
proof (induction rule: list_all2_induct)
  case (Cons c cs c' cs')
  then show ?case by (cases c; cases c') auto
qed simp

lemma proxy_default:
  "normalizeServerProxyConfiguration parse_url mode raw (Some (js ''default'')) =
     map_sum id (\<lambda>c. c\<lparr>pc_proxyMode := Some (or_default (pc_proxyMode c) (js ''default''))\<rparr>)
       (normalizeServerProxyConfiguration parse_url mode raw None)"
  by (cases mode)
    (auto simp: normalizeServerProxyConfiguration_def Let_def isSshServerProxyMode_def
      SSH_SERVER_PROXY_MODES_def split: option.splits sum.splits)

lemma optional_ids_default:
  "or_default (normalizeOptionalUniqueStringIds v) [] = normalizeUniqueStringIds v"
  by (cases v) (simp_all add: normalizeOptionalUniqueStringIds_def normalizeUniqueStringIds_def)

lemma create_is_update:
  "parseCreateServerRequest parse_url payload =
     map_sum id fill_defaults (parseUpdateServerRequest parse_url payload)"
proof (cases "isRecord payload")
  case True
  let ?p = "normalizeServerProxyConfiguration parse_url (field payload ''proxyMode'') (field payload ''proxyUrl'') None"
  show ?thesis
  proof (cases ?p)
    case (Inl e)
    then show ?thesis
      unfolding parseCreateServerRequest_def parseUpdateServerRequest_def Let_def proxy_default
        if_not_P [OF True [THEN not_not [THEN iffD2]]] map_sum_reject_first
      by (simp del: append.simps)
  next
    case (Inr c)
    then show ?thesis
      unfolding parseCreateServerRequest_def parseUpdateServerRequest_def Let_def proxy_default
        if_not_P [OF True [THEN not_not [THEN iffD2]]] map_sum_reject_first
      by (intro reject_first_cong)
        (simp_all add: fill_defaults_def optional_ids_default del: reject_first.simps append.simps)
  qed
qed (simp add: parseCreateServerRequest_def parseUpdateServerRequest_def)

section \<open>What an accepted request looks like\<close>

definition integer_within :: "int \<Rightarrow> int \<Rightarrow> jsnum \<Rightarrow> bool" where
  "integer_within lo hi x \<longleftrightarrow> (\<exists>n. x = Num (of_int n) \<and> lo \<le> n \<and> n \<le> hi)"

lemma not_out_of_range:
  assumes "\<not> out_of_range (of_int lo) (of_int hi) x"
  shows "integer_within lo hi x"
proof -
  obtain n where x: "x = Num (of_int n)"
    using assms unfolding out_of_range_def by (metis is_integer_obtain)
  with assms show ?thesis by (auto simp: out_of_range_def integer_within_def)
qed

lemma session_ok:
  assumes "parseCreateSessionRequest payload = Inr r"
  shows "clean (ss_serverId r) \<and> integer_within 20 400 (ss_cols r) \<and> integer_within 10 200 (ss_rows r) \<and>
     integer_within 5 180 (ss_connectTimeoutSec r) \<and> 2 \<le> length (ss_term r) \<and> length (ss_term r) \<le> 64"
proof -
  have rec: "isRecord payload"
    by (rule ccontr) (use assms in \<open>simp add: parseCreateSessionRequest_def\<close>)
  note c = assms [unfolded parseCreateSessionRequest_def Let_def not_not
      if_not_P [where P = "\<not> isRecord payload", unfolded not_not, OF rec]
      reject_first_Inr list.pred_inject fst_conv]
  note eq = c [THEN conjunct1, symmetric] and ck = c [THEN conjunct2]
  have "clean (ss_serverId r)"
    unfolding eq using ck normalizeOptionalString_clean by fastforce
  moreover have "integer_within 20 400 (ss_cols r)" "integer_within 10 200 (ss_rows r)"
    "integer_within 5 180 (ss_connectTimeoutSec r)"
    unfolding eq session_request.select_convs using ck not_out_of_range [of 20 400] not_out_of_range [of 10 200] not_out_of_range [of 5 180]
    unfolding of_int_numeral by blast+
  moreover have "2 \<le> length (ss_term r)" "length (ss_term r) \<le> 64"
    unfolding eq using ck by simp_all
  ultimately show ?thesis by blast
qed

text \<open>A server authenticates by its own method or by a keychain entry, never by both.\<close>

definition auth_ok :: "server_request \<Rightarrow> bool" where
  "auth_ok r \<longleftrightarrow>
     (sr_keychainId r = None \<longleftrightarrow> sr_authType r \<noteq> None) \<and>
     (\<forall>a. sr_authType r = Some a \<longrightarrow> a \<in> set (map js [''password'', ''key'', ''both'']))"

text \<open>A custom proxy has a URL, and every stored URL is one the URL parser produced for a proxy.\<close>

definition proxy_ok :: "(jstring \<Rightarrow> url option) \<Rightarrow> server_request \<Rightarrow> bool" where
  "proxy_ok parse_url r \<longleftrightarrow>
     (sr_proxyMode r = Some (js ''custom'') \<longrightarrow> sr_proxyUrl r \<noteq> None) \<and>
     (\<forall>m. sr_proxyMode r = Some m \<longrightarrow> m \<in> set SSH_SERVER_PROXY_MODES) \<and>
     (\<forall>u. sr_proxyUrl r = Some u \<longrightarrow>
        (\<exists>s p. clean s \<and> length s \<le> MAX_PROXY_URL_LENGTH \<and> parse_url s = Some p \<and> url_href p = u \<and>
           url_protocol p \<in> set SUPPORTED_PROXY_PROTOCOLS \<and> url_hostname p \<noteq> [] \<and> url_search p = [] \<and>
           url_hash p = [] \<and> (url_pathname p = [] \<or> url_pathname p = js ''/'')))"

definition server_ok :: "(jstring \<Rightarrow> url option) \<Rightarrow> server_request \<Rightarrow> bool" where
  "server_ok parse_url r \<longleftrightarrow>
     clean (sr_name r) \<and> length (sr_name r) \<le> 120 \<and> clean (sr_host r) \<and> length (sr_host r) \<le> 255 \<and>
     clean (sr_username r) \<and> length (sr_username r) \<le> 120 \<and> isValidTcpPort (sr_port r) \<and>
     auth_ok r \<and> proxy_ok parse_url r \<and>
     (\<forall>ids. sr_tagIds r = Some ids \<longrightarrow> distinct ids \<and> (\<forall>i\<in>set ids. clean i))"

lemma validateProxyUrl_Inr:
  assumes "validateProxyUrl parse_url (JStr s) = Inr u" and "clean s"
  shows "\<exists>p. length s \<le> MAX_PROXY_URL_LENGTH \<and> parse_url s = Some p \<and> url_href p = u \<and>
     url_protocol p \<in> set SUPPORTED_PROXY_PROTOCOLS \<and> url_hostname p \<noteq> [] \<and> url_search p = [] \<and>
     url_hash p = [] \<and> (url_pathname p = [] \<or> url_pathname p = js ''/'')"
  using assms unfolding clean_def
  by (auto simp: validateProxyUrl_def Let_def split: if_splits option.splits)

lemma proxy_configuration_ok:
  assumes "normalizeServerProxyConfiguration parse_url mode raw d = Inr c" and "d = None"
    and "sr_proxyMode r = pc_proxyMode c" and "sr_proxyUrl r = pc_proxyUrl c"
  shows "proxy_ok parse_url r"
proof (cases "normalizeOptionalString raw")
  case None
  with assms show ?thesis
    by (cases mode) (auto simp: normalizeServerProxyConfiguration_def proxy_ok_def Let_def
        isSshServerProxyMode_def split: if_splits)
next
  case (Some s)
  have mode: "mode = JUndefined \<or> isSshServerProxyMode mode"
    and url: "validateProxyUrl parse_url (JStr s) = Inr (the (pc_proxyUrl c))"
    and set: "pc_proxyUrl c \<noteq> None" "pc_proxyMode c = mode_string mode"
    using assms(1,2) Some
    by (auto simp: normalizeServerProxyConfiguration_def Let_def split: if_splits sum.splits)
  have "\<forall>m. pc_proxyMode c = Some m \<longrightarrow> m \<in> set SSH_SERVER_PROXY_MODES"
    using mode unfolding set(2) by (cases mode) (auto simp: isSshServerProxyMode_def)
  then show ?thesis
    using validateProxyUrl_Inr [OF url normalizeOptionalString_clean [OF Some]]
      normalizeOptionalString_clean [OF Some] set(1)
    unfolding proxy_ok_def assms(3,4) by fastforce
qed

lemma authType_ok: "isSshAuthType v \<Longrightarrow> \<exists>a\<in>set (map js [''password'', ''key'', ''both'']). mode_string v = Some a"
  by (auto simp: isSshAuthType_def)

lemma auth_okI:
  assumes "k \<noteq> None \<or> isSshAuthType v" and "sr_keychainId r = k"
    and "sr_authType r = (if k \<noteq> None then None else mode_string v)"
  shows "auth_ok r"
  using assms authType_ok [of v] by (cases k) (auto simp: auth_ok_def)

lemma update_server_ok:
  assumes "parseUpdateServerRequest parse_url payload = Inr r"
  shows "server_ok parse_url r"
proof -
  have rec: "isRecord payload"
    by (rule ccontr) (use assms in \<open>simp add: parseUpdateServerRequest_def\<close>)
  note c = assms [unfolded parseUpdateServerRequest_def Let_def not_not
      if_not_P [where P = "\<not> isRecord payload", unfolded not_not, OF rec]
      reject_first_Inr list.pred_inject fst_conv]
  note eq = c [THEN conjunct1, symmetric] and ck = c [THEN conjunct2]
  have "\<not> absent_or_longer 120 (normalizeOptionalString (field payload ''name''))"
    "\<not> absent_or_longer 255 (normalizeOptionalString (field payload ''host''))"
    "\<not> absent_or_longer 120 (normalizeOptionalString (field payload ''username''))"
    using ck by blast+
  then have strings: "clean (sr_name r)" "length (sr_name r) \<le> 120" "clean (sr_host r)" "length (sr_host r) \<le> 255"
    "clean (sr_username r)" "length (sr_username r) \<le> 120"
    unfolding eq server_request.select_convs using absent_or_longer_clean by fastforce+
  have port: "isValidTcpPort (sr_port r)" unfolding eq server_request.select_convs using ck by blast
  have "normalizeOptionalString (field payload ''keychainId'') \<noteq> None \<or> isSshAuthType (field payload ''authType'')"
    using ck by (elim conjE) fast
  then have auth: "auth_ok r"
    by (rule auth_okI) (simp_all add: eq)
  have "\<not> isl (normalizeServerProxyConfiguration parse_url (field payload ''proxyMode'') (field payload ''proxyUrl'') None)"
    using ck by blast
  then have "proxy_ok parse_url r"
    by (intro proxy_configuration_ok [OF _ refl]) (rule sum.collapse(2) [symmetric], assumption, simp_all add: eq)
  moreover have "\<forall>ids. sr_tagIds r = Some ids \<longrightarrow> distinct ids \<and> (\<forall>i\<in>set ids. clean i)"
    unfolding eq server_request.select_convs
    using ids_distinct ids_clean by (auto simp: normalizeOptionalUniqueStringIds_def split: json.splits)
  ultimately show ?thesis unfolding server_ok_def using strings port auth by blast
qed

lemma fill_defaults_ok:
  assumes "server_ok parse_url r"
  shows "server_ok parse_url (fill_defaults r)"
proof -
  have "auth_ok (fill_defaults r)" using assms by (simp add: server_ok_def auth_ok_def fill_defaults_def)
  moreover have "proxy_ok parse_url (fill_defaults r)"
    using assms unfolding server_ok_def proxy_ok_def fill_defaults_def
    by (cases "sr_proxyMode r") (simp_all add: SSH_SERVER_PROXY_MODES_def)
  ultimately show ?thesis
    using assms unfolding server_ok_def by (cases "sr_tagIds r") (simp_all add: fill_defaults_def)
qed

lemma create_server_ok:
  assumes "parseCreateServerRequest parse_url payload = Inr r"
  shows "server_ok parse_url r"
proof -
  obtain r' where "parseUpdateServerRequest parse_url payload = Inr r'" "r = fill_defaults r'"
    using assms unfolding create_is_update
    by (cases "parseUpdateServerRequest parse_url payload") auto
  then show ?thesis using fill_defaults_ok update_server_ok by blast
qed

end
