(* ===== verification/ValidationTheorems.thy ===== *)
theory ValidationTheorems
  imports SshValidation
begin

text \<open>
  What a request body satisfies once the parsers of packages/backend/src/port-forward/validation.ts
  and packages/backend/src/ssh/validation.ts have accepted it.
\<close>

section \<open>Sample requests\<close>

definition sample_rule :: rule_payload where
  "sample_rule = \<lparr>pr_name = js ''db'', pr_serverId = js ''s1'', pr_type = LocalRule,
     pr_localBindHost = Some (js ''127.0.0.1''), pr_localBindPort = Some (Num 5432),
     pr_remoteBindHost = None, pr_remoteBindPort = None,
     pr_targetHost = Some (js ''db''), pr_targetPort = Some (Num 5432), pr_note = None\<rparr>"

lemma sample_clean [simp]: "clean (js ''db'')" "clean (js ''s1'')"
  by (simp_all add: clean_def trim_def trim_start_def trim_end_def is_space_def js_simps)

lemma sample_port [simp]: "isValidTcpPort (Num 5432)"
  by (simp add: isValidTcpPort_def)

lemma sample_rule_ok: "rule_ok sample_rule"
  by (simp add: rule_ok_def sample_rule_def host_ok_def port_ok_def)

lemma trim_samples [simp]:
  "trim (js ''db'') = js ''db''" "trim (js ''s1'') = js ''s1''" "trim (js ''password'') = js ''password''"
  by (simp_all add: trim_def trim_start_def trim_end_def is_space_def js_simps)

definition sample_server :: json where
  "sample_server = JObj [(js ''name'', JStr (js ''db'')), (js ''host'', JStr (js ''db'')),
     (js ''username'', JStr (js ''s1'')), (js ''port'', JNum (Num 5432)),
     (js ''authType'', JStr (js ''password'')), (js ''password'', JStr (js ''s1''))]"

lemma sample_server_accepted:
  "\<exists>r. parseCreateServerRequest (\<lambda>_. None) sample_server = Inr r \<and> sr_strictHostKey r = Some True"
  by (simp add: parseCreateServerRequest_def sample_server_def isRecord_def Let_def normalizeOptionalString_def
      normalizePort_def normalizeOptionalBoolean_def normalizeOptionalTerminalClipboardAccess_def
      normalizeServerProxyConfiguration_def normalizeOptionalUniqueStringIds_def isSshAuthType_def
      normalizeOptionalIconKey_def normalizeOptionalColorKey_def isSshServerProxyMode_def
      SSH_SERVER_PROXY_MODES_def)

definition sample_session :: json where
  "sample_session = JObj [(js ''serverId'', JStr (js ''s1'')), (js ''cols'', JNum (Num 80))]"

lemma sample_session_accepted:
  "\<exists>r. parseCreateSessionRequest sample_session = Inr r \<and> ss_cols r = Num 80 \<and> ss_rows r = Num 32"
  by (simp add: parseCreateSessionRequest_def sample_session_def isRecord_def Let_def normalizeOptionalString_def
      normalizeOptionalBoolean_def number_or_def out_of_range_def normalizeOptionalSystemProxyRules_def)

section \<open>Properties\<close>

text \<open>An accepted port-forwarding rule has trimmed nonempty names within their lengths and exactly the
  endpoints its kind uses, each with a valid host and a TCP port; the others are absent.\<close>
theorem accepted_rule_ok:
  assumes "parsePortForwardRulePayload payload = Inr r"
  shows "rule_ok r"
  by (rule parse_rule_ok [OF assms])

theorem accepted_rule_ok_witness:
  "rule_ok sample_rule \<and> parsePortForwardRulePayload (encode_rule sample_rule) = Inr sample_rule"
  using accepted_rule_ok [OF rule_roundtrip [OF sample_rule_ok]] rule_roundtrip [OF sample_rule_ok] by blast

text \<open>C38: Round trip: a valid rule written back as a request body is accepted and parsed to itself, so the
  parser accepts every rule it can produce and normalizes nothing twice.\<close>
theorem rule_parse_roundtrip:
  assumes "rule_ok r"
  shows "parsePortForwardRulePayload (encode_rule r) = Inr r"
  by (rule rule_roundtrip [OF assms])

theorem rule_parse_roundtrip_witness: "parsePortForwardRulePayload (encode_rule sample_rule) = Inr sample_rule"
  by (rule rule_parse_roundtrip [OF sample_rule_ok])

text \<open>C34: Creating and updating a server apply the same checks in the same order: creation rejects with the
  same error as an update of the same body, and otherwise accepts what the update accepts with the
  defaults filled in.\<close>
theorem create_server_refines_update:
  "parseCreateServerRequest parse_url payload =
     map_sum id fill_defaults (parseUpdateServerRequest parse_url payload)"
  by (rule create_is_update)

text \<open>An accepted server has trimmed nonempty name, host and user within their lengths, a TCP port, one
  way to authenticate, a known proxy mode whose stored URL the URL parser produced, and distinct tags.\<close>
theorem accepted_server_ok:
  assumes "parseCreateServerRequest parse_url payload = Inr r"
  shows "server_ok parse_url r"
  by (rule create_server_ok [OF assms])

theorem accepted_server_ok_witness:
  "\<exists>r. parseCreateServerRequest (\<lambda>_. None) sample_server = Inr r \<and> server_ok (\<lambda>_. None) r"
  using sample_server_accepted accepted_server_ok by blast

text \<open>An accepted session request has a terminal of 20 to 400 columns and 10 to 200 rows, a connect
  timeout of 5 to 180 seconds, all integers, and a terminal type of 2 to 64 characters.\<close>
theorem accepted_session_ok:
  assumes "parseCreateSessionRequest payload = Inr r"
  shows "clean (ss_serverId r) \<and> integer_within 20 400 (ss_cols r) \<and> integer_within 10 200 (ss_rows r) \<and>
    integer_within 5 180 (ss_connectTimeoutSec r) \<and> 2 \<le> length (ss_term r) \<and> length (ss_term r) \<le> 64"
  by (rule session_ok [OF assms])

theorem accepted_session_ok_witness:
  "\<exists>r. parseCreateSessionRequest sample_session = Inr r \<and> integer_within 20 400 (ss_cols r)"
  using sample_session_accepted accepted_session_ok by blast

end
