(* ===== verification/JsonText.thy ===== *)
theory JsonText
  imports JsonValues Utf8
begin

text \<open>
  \<open>JSON.parse\<close> and \<open>JSON.stringify\<close> of the standard library on the values of type \<open>json\<close>. The
  decimal text of a finite number is the parameter \<open>num_text\<close>: the shortest representation of a
  double is not modelled. \<open>JSON.parse\<close> throws exactly where \<open>json_parse\<close> is \<open>None\<close>.
\<close>

section \<open>Parsing\<close>

definition json_space :: "nat \<Rightarrow> bool" where
  "json_space c \<longleftrightarrow> c = 32 \<or> c = 9 \<or> c = 10 \<or> c = 13"

definition skip_space :: "jstring \<Rightarrow> jstring" where
  "skip_space s = dropWhile json_space s"

definition escape_unit :: "nat \<Rightarrow> nat option" where
  "escape_unit c =
     (if c = 34 \<or> c = 92 \<or> c = 47 then Some c
      else if c = 98 then Some 8 else if c = 102 then Some 12 else if c = 110 then Some 10
      else if c = 114 then Some 13 else if c = 116 then Some 9 else None)"

text \<open>The rest of a string literal after its opening quote.\<close>

function string_rest :: "jstring \<Rightarrow> (jstring \<times> jstring) option" where
  "string_rest [] = None"
| "string_rest (c # s) =
     (if c = 34 then Some ([], s)
      else if c < 32 then None
      else if c = 92 then
        (if s = [] then None
         else if hd s = 117 then
           (let hex = take 4 (tl s)
            in if length hex = 4 \<and> list_all (is_digit 16) hex
               then map_option (\<lambda>(u, r). (digits_value 16 hex # u, r)) (string_rest (drop 5 s)) else None)
         else (case escape_unit (hd s) of
                 None \<Rightarrow> None
               | Some v \<Rightarrow> map_option (\<lambda>(u, r). (v # u, r)) (string_rest (tl s))))
      else map_option (\<lambda>(u, r). (c # u, r)) (string_rest s))"
  by pat_completeness auto
termination by (relation "measure length") auto

text \<open>A number literal is the longest prefix of its grammar.\<close>

definition integer_part :: "jstring \<Rightarrow> (jstring \<times> jstring) option" where
  "integer_part s =
     (let ds = takeWhile (is_digit 10) s; r = dropWhile (is_digit 10) s
      in if ds = [] then None
         else if hd ds = 48 then Some ([48], tl ds @ r) else Some (ds, r))"

definition fraction_part :: "jstring \<Rightarrow> (jstring \<times> jstring) option" where
  "fraction_part s =
     (if s \<noteq> [] \<and> hd s = 46
      then let ds = takeWhile (is_digit 10) (tl s)
           in if ds = [] then None else Some (ds, dropWhile (is_digit 10) (tl s))
      else Some ([], s))"

definition number_exponent :: "jstring \<Rightarrow> (int \<times> jstring) option" where
  "number_exponent s =
     (if s \<noteq> [] \<and> (hd s = 101 \<or> hd s = 69)
      then let t = tl s;
               neg = (t \<noteq> [] \<and> hd t = 45);
               u = (if t \<noteq> [] \<and> (hd t = 45 \<or> hd t = 43) then tl t else t);
               ds = takeWhile (is_digit 10) u
           in if ds = [] then None
              else Some ((if neg then - 1 else 1) * int (digits_value 10 ds), dropWhile (is_digit 10) u)
      else Some (0, s))"

definition number_rest :: "jstring \<Rightarrow> (jsnum \<times> jstring) option" where
  "number_rest s =
     (let neg = (s \<noteq> [] \<and> hd s = 45); s1 = (if neg then tl s else s)
      in case integer_part s1 of
           None \<Rightarrow> None
         | Some (whole, s2) \<Rightarrow>
             (case fraction_part s2 of
                None \<Rightarrow> None
              | Some (frac_digits, s3) \<Rightarrow>
                  (case number_exponent s3 of
                     None \<Rightarrow> None
                   | Some (e, s4) \<Rightarrow>
                       let q = of_nat (digits_value 10 (whole @ frac_digits)) * ten_pow (e - int (length frac_digits))
                       in Some (round_double (if neg then - q else q), s4))))"

text \<open>
  The properties of an object: a repeated key keeps the place of its first occurrence, and array
  indices come first, in ascending order.
\<close>

definition array_index :: "jstring \<Rightarrow> bool" where
  "array_index k \<longleftrightarrow> k \<noteq> [] \<and> list_all (is_digit 10) k \<and> (hd k \<noteq> 48 \<or> k = [48]) \<and>
     digits_value 10 k < 4294967295"

definition js_object :: "(jstring \<times> json) list \<Rightarrow> json" where
  "js_object members =
     (let m = fold (\<lambda>(k, v). map_set k v) members []
      in JObj (sort_by (\<lambda>a b. digits_value 10 (fst a) \<le> digits_value 10 (fst b))
                 (filter (\<lambda>e. array_index (fst e)) m) @ filter (\<lambda>e. \<not> array_index (fst e)) m))"

text \<open>
  The recursive descent, with the fuel of one unit per value, element or member; a text of length
  \<open>n\<close> has at most \<open>n\<close> of them.
\<close>

fun parse_value :: "nat \<Rightarrow> jstring \<Rightarrow> (json \<times> jstring) option"
  and parse_elements :: "nat \<Rightarrow> jstring \<Rightarrow> (json list \<times> jstring) option"
  and parse_members :: "nat \<Rightarrow> jstring \<Rightarrow> ((jstring \<times> json) list \<times> jstring) option" where
  "parse_value 0 s = None"
| "parse_value (Suc fuel) s0 =
     (let s = skip_space s0
      in if s = [] then None
         else if hd s = 123 then
           (let r = skip_space (tl s)
            in if r \<noteq> [] \<and> hd r = 125 then Some (JObj [], tl r)
               else map_option (\<lambda>(ms, t). (js_object ms, t)) (parse_members fuel r))
         else if hd s = 91 then
           (let r = skip_space (tl s)
            in if r \<noteq> [] \<and> hd r = 93 then Some (JArr [], tl r)
               else map_option (\<lambda>(vs, t). (JArr vs, t)) (parse_elements fuel r))
         else if hd s = 34 then map_option (\<lambda>(str, t). (JStr str, t)) (string_rest (tl s))
         else if take 4 s = js ''true'' then Some (JBool True, drop 4 s)
         else if take 5 s = js ''false'' then Some (JBool False, drop 5 s)
         else if take 4 s = js ''null'' then Some (JNull, drop 4 s)
         else map_option (\<lambda>(n, t). (JNum n, t)) (number_rest s))"
| "parse_elements 0 s = None"
| "parse_elements (Suc fuel) s =
     (case parse_value fuel s of
        None \<Rightarrow> None
      | Some (v, r0) \<Rightarrow>
          let r = skip_space r0
          in if r = [] then None
             else if hd r = 93 then Some ([v], tl r)
             else if hd r = 44 then map_option (\<lambda>(vs, t). (v # vs, t)) (parse_elements fuel (tl r))
             else None)"
| "parse_members 0 s = None"
| "parse_members (Suc fuel) s0 =
     (let s = skip_space s0
      in if s = [] \<or> hd s \<noteq> 34 then None
         else case string_rest (tl s) of
                None \<Rightarrow> None
              | Some (k, r0) \<Rightarrow>
                  let r = skip_space r0
                  in if r = [] \<or> hd r \<noteq> 58 then None
                     else case parse_value fuel (tl r) of
                            None \<Rightarrow> None
                          | Some (v, t0) \<Rightarrow>
                              let t = skip_space t0
                              in if t = [] then None
                                 else if hd t = 125 then Some ([(k, v)], tl t)
                                 else if hd t = 44
                                 then map_option (\<lambda>(ms, u). ((k, v) # ms, u)) (parse_members fuel (tl t))
                                 else None)"

definition json_parse :: "jstring \<Rightarrow> json option" where
  "json_parse s =
     (case parse_value (2 * length s + 2) s of
        None \<Rightarrow> None
      | Some (v, r) \<Rightarrow> if skip_space r = [] then Some v else None)"

section \<open>Printing\<close>

definition hex4 :: "nat \<Rightarrow> jstring" where
  "hex4 c = map (\<lambda>d. if d < 10 then 48 + d else 87 + d) [c div 4096 mod 16, c div 256 mod 16, c div 16 mod 16, c mod 16]"

definition quote_unit :: "nat \<Rightarrow> jstring" where
  "quote_unit c =
     (if c = 34 \<or> c = 92 then [92, c]
      else if c = 8 then [92, 98] else if c = 12 then [92, 102] else if c = 10 then [92, 110]
      else if c = 13 then [92, 114] else if c = 9 then [92, 116]
      else if c < 32 \<or> high_surrogate c \<or> low_surrogate c then [92, 117] @ hex4 c
      else [c])"

text \<open>A pair of surrogates is printed as it is, a lone surrogate is escaped.\<close>

fun quote_units :: "jstring \<Rightarrow> jstring" where
  "quote_units [] = []"
| "quote_units [c] = quote_unit c"
| "quote_units (c # d # s) =
     (if high_surrogate c \<and> low_surrogate d then c # d # quote_units s
      else quote_unit c @ quote_units (d # s))"

definition quote_json :: "jstring \<Rightarrow> jstring" where
  "quote_json s = [34] @ quote_units s @ [34]"

fun comma_join :: "jstring list \<Rightarrow> jstring" where
  "comma_join [] = []"
| "comma_join [x] = x"
| "comma_join (x # xs) = x @ [44] @ comma_join xs"

text \<open>\<open>None\<close> is the \<open>undefined\<close> that \<open>JSON.stringify(undefined)\<close> returns.\<close>

fun stringify :: "(rat \<Rightarrow> jstring) \<Rightarrow> json \<Rightarrow> jstring option" where
  "stringify num_text JUndefined = None"
| "stringify num_text JNull = Some (js ''null'')"
| "stringify num_text (JBool b) = Some (if b then js ''true'' else js ''false'')"
| "stringify num_text (JNum n) = Some (case n of Num q \<Rightarrow> num_text q | _ \<Rightarrow> js ''null'')"
| "stringify num_text (JStr s) = Some (quote_json s)"
| "stringify num_text (JArr vs) =
     Some ([91] @ comma_join (map (\<lambda>v. case stringify num_text v of None \<Rightarrow> js ''null'' | Some t \<Rightarrow> t) vs) @ [93])"
| "stringify num_text (JObj fs) =
     Some ([123] @
       comma_join (concat (map (\<lambda>(k, v). case stringify num_text v of
           None \<Rightarrow> [] | Some t \<Rightarrow> [quote_json k @ [58] @ t]) fs)) @ [125])"

section \<open>String literals are read back\<close>

definition hex_unit :: "nat \<Rightarrow> nat" where
  "hex_unit d = (if d < 10 then 48 + d else 87 + d)"

lemma hex_unit_value: "d < 16 \<Longrightarrow> digit_value 16 (hex_unit d) = Some d"
  by (auto simp: hex_unit_def)

lemma hex4_value:
  assumes "c < 65536"
  shows "list_all (is_digit 16) (hex4 c)" and "digits_value 16 (hex4 c) = c"
proof -
  have h: "hex4 c = map hex_unit [c div 4096 mod 16, c div 256 mod 16, c div 16 mod 16, c mod 16]"
    by (simp add: hex4_def hex_unit_def)
  show "list_all (is_digit 16) (hex4 c)"
    unfolding h is_digit_def by (simp add: hex_unit_value del: digit_value.simps)
  have "digits_value 16 (hex4 c) =
      16 * (16 * (16 * (c div 4096 mod 16) + c div 256 mod 16) + c div 16 mod 16) + c mod 16"
    unfolding h digits_value_def by (simp add: hex_unit_value del: digit_value.simps)
  also have "\<dots> = c"
  proof -
    have "16 * (c div 4096 mod 16) + c div 256 mod 16 = c div 256"
      using assms div_mult_mod_eq [of "c div 256" 16] by (simp add: div_mult2_eq [symmetric])
    then have "16 * (16 * (c div 4096 mod 16) + c div 256 mod 16) + c div 16 mod 16 = c div 16"
      using div_mult_mod_eq [of "c div 16" 16] by (simp add: div_mult2_eq [symmetric])
    then show ?thesis by (simp only:) simp
  qed
  finally show "digits_value 16 (hex4 c) = c" .
qed

end
