(* ===== verification/RemoteShellEvents.thy ===== *)
theory RemoteShellEvents
  imports JsonText
begin

text \<open>
  The filter between the SSH output stream and the terminal
  (packages/backend/src/ssh/remote-shell-events.ts): the parser that recovers the OSC 777 events of
  the remote helper from arbitrarily chunked output, and the validation of an event. The names come
  from packages/api-contract/src/terminal-protocol.ts. \<open>Buffer.from(s, 'base64')\<close> is the parameter
  \<open>from_base64\<close>; everything else of the standard library is modelled.
\<close>

section \<open>Constants\<close>

definition REMOTE_SHELL_NAMES :: "jstring list" where
  "REMOTE_SHELL_NAMES = map js [''bash'', ''zsh'', ''fish'', ''sh'', ''ash'']"

definition REMOTE_SHELL_EVENT_NAMES :: "jstring list" where
  "REMOTE_SHELL_EVENT_NAMES = map js [''integration-ready'', ''prompt-ready'', ''cwd'', ''command-start'',
     ''command-end'', ''foreground-command'', ''line-state'']"

definition REMOTE_SHELL_CAPABILITIES :: "jstring list" where
  "REMOTE_SHELL_CAPABILITIES = map js [''cwd'', ''command-start'', ''command-end'', ''foreground-command'',
     ''prompt-ready'', ''line-state'']"

definition OSC_PAYLOAD_MAX_BYTES :: nat where "OSC_PAYLOAD_MAX_BYTES = 8 * 1024"
definition CAPABILITY_MAX_COUNT :: nat where "CAPABILITY_MAX_COUNT = 32"
definition CWD_MAX_BYTES :: nat where "CWD_MAX_BYTES = 4 * 1024"
definition COMMAND_MAX_BYTES :: nat where "COMMAND_MAX_BYTES = 255"
definition LINE_LENGTH_MAX :: rat where "LINE_LENGTH_MAX = 1024 * 1024"

definition ESCAPE :: nat where "ESCAPE = 0x1b"
definition BELL :: nat where "BELL = 7"
definition STRING_TERMINATOR :: jstring where "STRING_TERMINATOR = [ESCAPE, 92]"
definition COSMOSH_OSC_PREFIX :: jstring where "COSMOSH_OSC_PREFIX = ESCAPE # js '']777;cosmosh;''"

section \<open>Validating an event\<close>

datatype event_detail =
    IntegrationReady
  | PromptReady "jsnum option"                \<comment> \<open>prompt generation\<close>
  | Cwd jstring
  | LineState jsnum jsnum jsnum               \<comment> \<open>line length, cursor index, prompt generation\<close>
  | CommandStart jstring jstring              \<comment> \<open>command, command id\<close>
  | ForegroundCommand jstring jstring
  | CommandEnd jstring jstring jsnum jsnum    \<comment> \<open>command, command id, exit code, duration\<close>

record shell_event =
  se_shell :: jstring
  se_helperVersion :: jstring
  se_protocolVersion :: jsnum
  se_capabilities :: "jstring list"
  se_timestamp :: jsnum
  se_detail :: event_detail

definition isObjectRecord :: "json \<Rightarrow> bool" where
  "isObjectRecord v = is_record v"

definition alphanumeric :: "nat \<Rightarrow> bool" where
  "alphanumeric c \<longleftrightarrow> (65 \<le> c \<and> c \<le> 90) \<or> (97 \<le> c \<and> c \<le> 122) \<or> (48 \<le> c \<and> c \<le> 57)"

definition helper_version_pattern :: "jstring \<Rightarrow> bool" where
  "helper_version_pattern s \<longleftrightarrow> s \<noteq> [] \<and> list_all (\<lambda>c. alphanumeric c \<or> c \<in> set (js ''._+-'')) s"

definition command_id_pattern :: "jstring \<Rightarrow> bool" where
  "command_id_pattern s \<longleftrightarrow> s \<noteq> [] \<and> list_all (\<lambda>c. alphanumeric c \<or> c \<in> set (js ''._:-'')) s"

fun collect_capabilities :: "jstring list \<Rightarrow> json list \<Rightarrow> jstring list option" where
  "collect_capabilities acc [] = Some acc"
| "collect_capabilities acc (JStr c # vs) =
     (if c \<notin> set REMOTE_SHELL_CAPABILITIES \<or> c \<in> set acc then None
      else collect_capabilities (acc @ [c]) vs)"
| "collect_capabilities acc (v # vs) = None"

definition normalizeCapabilities :: "json \<Rightarrow> jstring list option" where
  "normalizeCapabilities v =
     (case v of
        JArr vs \<Rightarrow>
          if length vs = 0 \<or> length vs > CAPABILITY_MAX_COUNT then None else collect_capabilities [] vs
      | _ \<Rightarrow> None)"

definition normalizeBoundedInteger :: "json \<Rightarrow> rat \<Rightarrow> rat \<Rightarrow> jsnum option" where
  "normalizeBoundedInteger v minimum maximum =
     (case v of
        JNum n \<Rightarrow>
          if \<not> is_safe_integer n \<or> num_lt n (Num minimum) \<or> num_lt (Num maximum) n then None else Some n
      | _ \<Rightarrow> None)"

definition normalizeCommandId :: "json \<Rightarrow> jstring option" where
  "normalizeCommandId v =
     (case v of
        JStr s \<Rightarrow> if length s = 0 \<or> length s > 128 \<or> \<not> command_id_pattern s then None else Some s
      | _ \<Rightarrow> None)"

definition containsAsciiControlCharacter :: "jstring \<Rightarrow> bool" where
  "containsAsciiControlCharacter s = list_ex (\<lambda>c. c \<le> 0x1f \<or> c = 0x7f) s"

definition decodeBoundedBase64Utf8 :: "(jstring \<Rightarrow> bytes) \<Rightarrow> json \<Rightarrow> nat \<Rightarrow> jstring option" where
  "decodeBoundedBase64Utf8 from_base64 v maxBytes =
     (case v of
        JStr s \<Rightarrow>
          if length s = 0 \<or> length s > (maxBytes + 2) div 3 * 4 + 4 then None
          else
            let decodedBytes = from_base64 s
            in if length decodedBytes = 0 \<or> length decodedBytes > maxBytes \<or> to_base64 decodedBytes \<noteq> s
               then None else text_decoder_fatal decodedBytes
      | _ \<Rightarrow> None)"

text \<open>\<open>!s\<close> for a string that may be \<open>null\<close>.\<close>

fun falsy :: "jstring option \<Rightarrow> bool" where
  "falsy None = True"
| "falsy (Some s) = (s = [])"

definition command_detail :: "(jstring \<Rightarrow> bytes) \<Rightarrow> json \<Rightarrow> jstring \<Rightarrow> event_detail option" where
  "command_detail from_base64 v eventName =
     (let command = decodeBoundedBase64Utf8 from_base64 (get_field v (js ''commandBase64'')) COMMAND_MAX_BYTES;
          commandId = normalizeCommandId (get_field v (js ''commandId''))
      in if falsy command \<or> containsAsciiControlCharacter (the command) \<or> falsy commandId then None
         else if eventName = js ''command-start'' then Some (CommandStart (the command) (the commandId))
         else if eventName = js ''foreground-command'' then Some (ForegroundCommand (the command) (the commandId))
         else
           let exitCode = normalizeBoundedInteger (get_field v (js ''exitCode'')) 0 255;
               durationMs = normalizeBoundedInteger (get_field v (js ''durationMs'')) 0 max_safe_integer
           in if exitCode = None \<or> durationMs = None then None
              else Some (CommandEnd (the command) (the commandId) (the exitCode) (the durationMs)))"

definition event_detail :: "(jstring \<Rightarrow> bytes) \<Rightarrow> json \<Rightarrow> jstring \<Rightarrow> jstring list \<Rightarrow> event_detail option" where
  "event_detail from_base64 v eventName capabilities =
     (if eventName = js ''integration-ready'' then Some IntegrationReady
      else if eventName \<notin> set capabilities then None
      else if eventName = js ''prompt-ready'' then
        (let promptGeneration = normalizeBoundedInteger (get_field v (js ''promptGeneration'')) 0 max_safe_integer
         in if js ''line-state'' \<in> set capabilities \<and> promptGeneration = None then None
            else Some (PromptReady promptGeneration))
      else if eventName = js ''cwd'' then
        (let cwd = decodeBoundedBase64Utf8 from_base64 (get_field v (js ''cwdBase64'')) CWD_MAX_BYTES
         in if falsy cwd \<or> \<not> starts_with (the cwd) [47] \<or> 0 \<in> set (the cwd) then None
            else Some (Cwd (the cwd)))
      else if eventName = js ''line-state'' then
        (let lineLength = normalizeBoundedInteger (get_field v (js ''lineLength'')) 0 LINE_LENGTH_MAX;
             cursorIndex = normalizeBoundedInteger (get_field v (js ''cursorIndex'')) 0 LINE_LENGTH_MAX;
             promptGeneration = normalizeBoundedInteger (get_field v (js ''promptGeneration'')) 0 max_safe_integer
         in if lineLength = None \<or> cursorIndex = None \<or> promptGeneration = None \<or>
               num_lt (the lineLength) (the cursorIndex)
            then None
            else Some (LineState (the lineLength) (the cursorIndex) (the promptGeneration)))
      else command_detail from_base64 v eventName)"

definition normalizeRemoteShellEvent :: "(jstring \<Rightarrow> bytes) \<Rightarrow> json \<Rightarrow> shell_event option" where
  "normalizeRemoteShellEvent from_base64 v =
     (if \<not> isObjectRecord v then None
      else case (get_field v (js ''event''), get_field v (js ''shell''), get_field v (js ''helperVersion''),
                 get_field v (js ''protocolVersion''), get_field v (js ''timestamp'')) of
        (JStr event, JStr shell, JStr helperVersion, JNum protocolVersion, JNum timestamp) \<Rightarrow>
          if event \<notin> set REMOTE_SHELL_EVENT_NAMES \<or> shell \<notin> set REMOTE_SHELL_NAMES \<or>
             \<not> helper_version_pattern helperVersion \<or> \<not> is_integer protocolVersion \<or>
             num_lt protocolVersion (Num 1) then None
          else (case normalizeCapabilities (get_field v (js ''capabilities'')) of
                  None \<Rightarrow> None
                | Some capabilities \<Rightarrow>
                    if \<not> is_safe_integer timestamp \<or> num_lt timestamp (Num 0) then None
                    else map_option
                      (\<lambda>detail. \<lparr>se_shell = shell, se_helperVersion = helperVersion,
                         se_protocolVersion = protocolVersion, se_capabilities = capabilities,
                         se_timestamp = timestamp, se_detail = detail\<rparr>)
                      (event_detail from_base64 v event capabilities))
      | _ \<Rightarrow> None)"

definition parseRemoteShellEventPayload :: "(jstring \<Rightarrow> bytes) \<Rightarrow> jstring \<Rightarrow> shell_event option" where
  "parseRemoteShellEventPayload from_base64 payload =
     (let decoded = buffer_to_utf8 (from_base64 payload)
      in if byte_length decoded > OSC_PAYLOAD_MAX_BYTES then None
         else case json_parse decoded of
                None \<Rightarrow> None
              | Some v \<Rightarrow> normalizeRemoteShellEvent from_base64 v)"

section \<open>The stream parser\<close>

datatype frame = OutputFrame jstring | EventFrame shell_event

record osc_parser =
  pendingEscape :: bool
  pendingOscPrefix :: "jstring option"
  pendingCosmoshOsc :: "jstring option"
  pendingCosmoshPayloadBytes :: nat
  discardingOversizedCosmoshOsc :: bool
  discardSawEscape :: bool

definition new_parser :: osc_parser where
  "new_parser = \<lparr>pendingEscape = False, pendingOscPrefix = None, pendingCosmoshOsc = None,
     pendingCosmoshPayloadBytes = 0, discardingOversizedCosmoshOsc = False, discardSawEscape = False\<rparr>"

definition readSequencePayloadEnd :: "jstring \<Rightarrow> nat" where
  "readSequencePayloadEnd s =
     (if ends_with s STRING_TERMINATOR then length s - length STRING_TERMINATOR else length s - 1)"

definition terminated :: "jstring \<Rightarrow> bool" where
  "terminated s \<longleftrightarrow> ends_with s [BELL] \<or> ends_with s STRING_TERMINATOR"

definition parseCompletedOsc :: "(jstring \<Rightarrow> bytes) \<Rightarrow> jstring \<Rightarrow> jstring \<times> shell_event option" where
  "parseCompletedOsc from_base64 s =
     (if \<not> starts_with s COSMOSH_OSC_PREFIX then (s, None)
      else
        let payload = drop (length COSMOSH_OSC_PREFIX) (take (readSequencePayloadEnd s) s)
        in if byte_length payload > OSC_PAYLOAD_MAX_BYTES then ([], None)
           else ([], parseRemoteShellEventPayload from_base64 payload))"

text \<open>The result: visible output and a completed sequence.\<close>

definition appendOscPrefixChar :: "nat \<Rightarrow> osc_parser \<Rightarrow> jstring \<times> jstring option \<times> osc_parser" where
  "appendOscPrefixChar c p =
     (case pendingOscPrefix p of
        None \<Rightarrow> ([], None, p)
      | Some pending \<Rightarrow>
          let candidate = pending @ [c]
          in if terminated candidate then ([], Some candidate, p\<lparr>pendingOscPrefix := None\<rparr>)
             else if candidate = COSMOSH_OSC_PREFIX
             then ([], None, p\<lparr>pendingOscPrefix := None, pendingCosmoshOsc := Some candidate,
                               pendingCosmoshPayloadBytes := 0\<rparr>)
             else if starts_with COSMOSH_OSC_PREFIX candidate
             then ([], None, p\<lparr>pendingOscPrefix := Some candidate\<rparr>)
             else (candidate, None, p\<lparr>pendingOscPrefix := None\<rparr>))"

definition appendCosmoshOscChar :: "nat \<Rightarrow> osc_parser \<Rightarrow> jstring option \<times> osc_parser" where
  "appendCosmoshOscChar c p =
     (case pendingCosmoshOsc p of
        None \<Rightarrow> (None, p)
      | Some pending \<Rightarrow>
          let osc = pending @ [c]
          in if terminated osc
             then (Some osc, p\<lparr>pendingCosmoshOsc := None, pendingCosmoshPayloadBytes := 0\<rparr>)
             else
               let n = pendingCosmoshPayloadBytes p + byte_length [c]
               in if n > OSC_PAYLOAD_MAX_BYTES
                  then (None, p\<lparr>pendingCosmoshOsc := None, pendingCosmoshPayloadBytes := 0,
                                discardingOversizedCosmoshOsc := True, discardSawEscape := (c = ESCAPE)\<rparr>)
                  else (None, p\<lparr>pendingCosmoshOsc := Some osc, pendingCosmoshPayloadBytes := n\<rparr>))"

definition consumeDiscardedOscChar :: "nat \<Rightarrow> osc_parser \<Rightarrow> osc_parser" where
  "consumeDiscardedOscChar c p =
     (if discardSawEscape p
      then (if c = 92
            then p\<lparr>discardSawEscape := (c = ESCAPE), discardingOversizedCosmoshOsc := False\<rparr>
            else p\<lparr>discardSawEscape := (c = ESCAPE)\<rparr>)
      else if c = BELL then p\<lparr>discardingOversizedCosmoshOsc := False\<rparr>
      else if c = ESCAPE then p\<lparr>discardSawEscape := True\<rparr> else p)"

text \<open>The local state of one call of \<open>parse\<close>: the visible output not framed yet, and the frames.\<close>

type_synonym parse_state = "osc_parser \<times> jstring \<times> frame list"

definition appendParsedOsc :: "jstring \<times> shell_event option \<Rightarrow> jstring \<times> frame list \<Rightarrow> jstring \<times> frame list" where
  "appendParsedOsc parsed acc =
     (let out = fst acc @ fst parsed
      in case snd parsed of
           None \<Rightarrow> (out, snd acc)
         | Some event \<Rightarrow>
             ([], snd acc @ (if out \<noteq> [] then [OutputFrame out] else []) @ [EventFrame event]))"

definition parse_char :: "(jstring \<Rightarrow> bytes) \<Rightarrow> nat \<Rightarrow> parse_state \<Rightarrow> parse_state" where
  "parse_char from_base64 c st =
     (let (p, acc) = st
      in if discardingOversizedCosmoshOsc p then (consumeDiscardedOscChar c p, acc)
         else if pendingCosmoshOsc p \<noteq> None then
           (let (completed, p') = appendCosmoshOscChar c p
            in (p', case completed of
                      None \<Rightarrow> acc
                    | Some s \<Rightarrow> appendParsedOsc (parseCompletedOsc from_base64 s) acc))
         else if pendingOscPrefix p \<noteq> None then
           (let (out, completed, p') = appendOscPrefixChar c p;
                acc' = (fst acc @ out, snd acc)
            in (p', case completed of
                      None \<Rightarrow> acc'
                    | Some s \<Rightarrow> appendParsedOsc (parseCompletedOsc from_base64 s) acc'))
         else if pendingEscape p then
           (let p' = p\<lparr>pendingEscape := False\<rparr>
            in if c = 93 then (p'\<lparr>pendingOscPrefix := Some [ESCAPE, 93]\<rparr>, acc)
               else (p', fst acc @ [ESCAPE, c], snd acc))
         else if c = ESCAPE then (p\<lparr>pendingEscape := True\<rparr>, acc)
         else (p, fst acc @ [c], snd acc))"

definition parse_chunk :: "(jstring \<Rightarrow> bytes) \<Rightarrow> jstring \<Rightarrow> osc_parser \<Rightarrow> frame list \<times> osc_parser" where
  "parse_chunk from_base64 chunk p =
     (let (p', out, frames) = fold (parse_char from_base64) chunk (p, [], [])
      in (frames @ (if out \<noteq> [] then [OutputFrame out] else []), p'))"

definition parser_flush :: "osc_parser \<Rightarrow> jstring \<times> osc_parser" where
  "parser_flush p =
     ((if pendingEscape p then [ESCAPE] else []) @
      (case pendingOscPrefix p of None \<Rightarrow> [] | Some s \<Rightarrow> s) @
      (case pendingCosmoshOsc p of None \<Rightarrow> [] | Some s \<Rightarrow> s),
      p\<lparr>pendingEscape := False, pendingOscPrefix := None, pendingCosmoshOsc := None,
        pendingCosmoshPayloadBytes :=
          (if pendingCosmoshOsc p \<noteq> None then 0 else pendingCosmoshPayloadBytes p),
        discardingOversizedCosmoshOsc := False, discardSawEscape := False\<rparr>)"

section \<open>Chunking does not matter\<close>

text \<open>The stream that frames carry: visible code units and events, in order.\<close>

fun frame_stream :: "frame \<Rightarrow> (nat + shell_event) list" where
  "frame_stream (OutputFrame s) = map Inl s"
| "frame_stream (EventFrame e) = [Inr e]"

definition stream_of :: "frame list \<Rightarrow> (nat + shell_event) list" where
  "stream_of fs = concat (map frame_stream fs)"

lemma stream_of_append [simp]: "stream_of (fs @ gs) = stream_of fs @ stream_of gs"
  by (simp add: stream_of_def)

lemma stream_of_output [simp]:
  "stream_of (if out \<noteq> [] then [OutputFrame out] else []) = map Inl out"
  by (simp add: stream_of_def)

lemma stream_of_event [simp]: "stream_of [EventFrame e] = [Inr e]" "stream_of [] = []"
  by (simp_all add: stream_of_def)

definition acc_stream :: "jstring \<times> frame list \<Rightarrow> (nat + shell_event) list" where
  "acc_stream acc = stream_of (snd acc) @ map Inl (fst acc)"

fun parsed_stream :: "jstring \<times> shell_event option \<Rightarrow> (nat + shell_event) list" where
  "parsed_stream (out, None) = map Inl out"
| "parsed_stream (out, Some e) = map Inl out @ [Inr e]"

lemma acc_stream_appendParsedOsc:
  "acc_stream (appendParsedOsc parsed acc) = acc_stream acc @ parsed_stream parsed"
  by (cases parsed; cases "snd parsed")
    (auto simp: appendParsedOsc_def acc_stream_def stream_of_def)

text \<open>One code unit: the next parser state, the visible output and the event it completes.\<close>

definition char_piece :: "(jstring \<Rightarrow> bytes) \<Rightarrow> nat \<Rightarrow> osc_parser \<Rightarrow> (jstring \<times> shell_event option) \<times> osc_parser" where
  "char_piece fb c p =
     (if discardingOversizedCosmoshOsc p then (([], None), consumeDiscardedOscChar c p)
      else if pendingCosmoshOsc p \<noteq> None then
        (case fst (appendCosmoshOscChar c p) of None \<Rightarrow> ([], None) | Some s \<Rightarrow> parseCompletedOsc fb s,
         snd (appendCosmoshOscChar c p))
      else if pendingOscPrefix p \<noteq> None then
        (case fst (snd (appendOscPrefixChar c p)) of
           None \<Rightarrow> (fst (appendOscPrefixChar c p), None)
         | Some s \<Rightarrow> parseCompletedOsc fb s, snd (snd (appendOscPrefixChar c p)))
      else if pendingEscape p then
        (if c = 93 then ([], None) else ([ESCAPE, c], None),
         if c = 93 then p\<lparr>pendingEscape := False, pendingOscPrefix := Some [ESCAPE, 93]\<rparr>
         else p\<lparr>pendingEscape := False\<rparr>)
      else if c = ESCAPE then (([], None), p\<lparr>pendingEscape := True\<rparr>)
      else (([c], None), p))"

lemma appendParsedOsc_None: "appendParsedOsc (out, None) acc = (fst acc @ out, snd acc)"
  by (simp add: appendParsedOsc_def)

lemma appendParsedOsc_Nil [simp]: "appendParsedOsc ([], None) acc = acc"
  by (simp add: appendParsedOsc_def)

lemma completed_no_output:
  "fst (snd (appendOscPrefixChar c p)) = Some s \<Longrightarrow> fst (appendOscPrefixChar c p) = []"
  by (auto simp: appendOscPrefixChar_def Let_def split: option.splits if_splits)

lemma parse_char_piece:
  "parse_char fb c (p, acc) = (snd (char_piece fb c p), appendParsedOsc (fst (char_piece fb c p)) acc)"
proof -
  consider (discard) "discardingOversizedCosmoshOsc p"
    | (cosmosh) "\<not> discardingOversizedCosmoshOsc p" "pendingCosmoshOsc p \<noteq> None"
    | (osc) "\<not> discardingOversizedCosmoshOsc p" "pendingCosmoshOsc p = None" "pendingOscPrefix p \<noteq> None"
    | (plain) "\<not> discardingOversizedCosmoshOsc p" "pendingCosmoshOsc p = None" "pendingOscPrefix p = None"
    by blast
  then show ?thesis
  proof cases
    case cosmosh
    then show ?thesis
      by (simp add: parse_char_def char_piece_def split: prod.split option.split)
  next
    case osc
    obtain out comp p' where r: "appendOscPrefixChar c p = (out, comp, p')" by (rule prod_cases3)
    with osc completed_no_output [of c p] show ?thesis
      by (cases comp) (simp_all add: parse_char_def char_piece_def appendParsedOsc_None)
  qed (simp_all add: parse_char_def char_piece_def appendParsedOsc_None Let_def)
qed

definition osc_step :: "(jstring \<Rightarrow> bytes) \<Rightarrow> nat \<Rightarrow> osc_parser \<Rightarrow> (nat + shell_event) list \<times> osc_parser" where
  "osc_step fb c p = (parsed_stream (fst (char_piece fb c p)), snd (char_piece fb c p))"

lemma parse_char_stream:
  "fst (parse_char fb c (p, acc)) = snd (osc_step fb c p)"
  "acc_stream (snd (parse_char fb c (p, acc))) = acc_stream acc @ fst (osc_step fb c p)"
  by (simp_all add: parse_char_piece osc_step_def acc_stream_appendParsedOsc)

fun osc_run :: "(jstring \<Rightarrow> bytes) \<Rightarrow> jstring \<Rightarrow> osc_parser \<Rightarrow> (nat + shell_event) list \<times> osc_parser" where
  "osc_run fb [] p = ([], p)"
| "osc_run fb (c # cs) p =
     (let (es, p') = osc_step fb c p; (fs, p'') = osc_run fb cs p' in (es @ fs, p''))"

lemma osc_run_append:
  "osc_run fb (xs @ ys) p =
     (fst (osc_run fb xs p) @ fst (osc_run fb ys (snd (osc_run fb xs p))), snd (osc_run fb ys (snd (osc_run fb xs p))))"
  by (induction xs arbitrary: p) (simp_all add: Let_def split: prod.split)

lemma fold_parse_char:
  "fst (fold (parse_char fb) cs (p, acc)) = snd (osc_run fb cs p) \<and>
   acc_stream (snd (fold (parse_char fb) cs (p, acc))) = acc_stream acc @ fst (osc_run fb cs p)"
proof (induction cs arbitrary: p acc)
  case (Cons c cs)
  obtain p' acc' where pc: "parse_char fb c (p, acc) = (p', acc')"
    by (cases "parse_char fb c (p, acc)")
  then show ?case
    using Cons.IH [of p' acc'] parse_char_stream [of fb c p acc] by (simp add: Let_def split: prod.split)
qed simp

lemma parse_chunk_run:
  "stream_of (fst (parse_chunk fb chunk p)) = fst (osc_run fb chunk p)"
  "snd (parse_chunk fb chunk p) = snd (osc_run fb chunk p)"
  using fold_parse_char [of fb chunk p "([], [])"]
  by (auto simp: parse_chunk_def acc_stream_def Let_def split: prod.splits)

text \<open>Parsing a list of chunks one after the other.\<close>

fun parse_chunks :: "(jstring \<Rightarrow> bytes) \<Rightarrow> jstring list \<Rightarrow> osc_parser \<Rightarrow> frame list \<times> osc_parser" where
  "parse_chunks fb [] p = ([], p)"
| "parse_chunks fb (c # cs) p =
     (let (fs, p') = parse_chunk fb c p; (gs, p'') = parse_chunks fb cs p' in (fs @ gs, p''))"

lemma parse_chunks_run:
  "stream_of (fst (parse_chunks fb cs p)) = fst (osc_run fb (concat cs) p) \<and>
   snd (parse_chunks fb cs p) = snd (osc_run fb (concat cs) p)"
proof (induction cs arbitrary: p)
  case (Cons c cs)
  show ?case
    using Cons.IH [of "snd (parse_chunk fb c p)"] parse_chunk_run [of fb c p]
    by (auto simp: osc_run_append split: prod.split)
qed simp

end
