(* ===== verification/RemoteShellProofs.thy ===== *)
theory RemoteShellProofs
  imports RemoteShellEvents
begin

text \<open>
  What the stream parser keeps: the memory it holds is bounded, output without the helper's prefix
  passes through unchanged, an oversized sequence is discarded; and what a validated event is.
\<close>

section \<open>The shape of the parser state\<close>

lemma length_prefix [simp]: "length COSMOSH_OSC_PREFIX = 14"
  by (simp add: COSMOSH_OSC_PREFIX_def)

lemma prefix_not_terminated: "\<not> terminated COSMOSH_OSC_PREFIX"
  by (simp add: COSMOSH_OSC_PREFIX_def terminated_def STRING_TERMINATOR_def ESCAPE_def BELL_def js_simps
      suffix_def)

definition parser_inv :: "osc_parser \<Rightarrow> bool" where
  "parser_inv p \<longleftrightarrow>
     (pendingEscape p \<longrightarrow> pendingOscPrefix p = None \<and> pendingCosmoshOsc p = None \<and>
        \<not> discardingOversizedCosmoshOsc p) \<and>
     (\<forall>s. pendingOscPrefix p = Some s \<longrightarrow> strict_prefix s COSMOSH_OSC_PREFIX \<and> 2 \<le> length s \<and>
        pendingCosmoshOsc p = None \<and> \<not> discardingOversizedCosmoshOsc p) \<and>
     (\<forall>s. pendingCosmoshOsc p = Some s \<longrightarrow> prefix COSMOSH_OSC_PREFIX s \<and>
        length s \<le> 14 + pendingCosmoshPayloadBytes p \<and>
        pendingCosmoshPayloadBytes p \<le> OSC_PAYLOAD_MAX_BYTES \<and> \<not> discardingOversizedCosmoshOsc p) \<and>
     (pendingCosmoshOsc p = None \<longrightarrow> pendingCosmoshPayloadBytes p = 0)"

text \<open>The code units that the parser holds back.\<close>

definition held :: "osc_parser \<Rightarrow> jstring" where
  "held p = fst (parser_flush p)"

lemma new_parser_inv [simp]: "parser_inv new_parser"
  by (simp add: parser_inv_def new_parser_def)

lemma held_new [simp]: "held new_parser = []"
  by (simp add: held_def parser_flush_def new_parser_def)

lemma escape_prefix: "strict_prefix [ESCAPE, 93] COSMOSH_OSC_PREFIX"
  by (simp add: COSMOSH_OSC_PREFIX_def strict_prefix_def js_simps)

lemma prefix_inv:
  assumes "parser_inv p" and "pendingOscPrefix p \<noteq> None"
  shows "parser_inv (snd (snd (appendOscPrefixChar c p)))"
proof -
  obtain s where s: "pendingOscPrefix p = Some s" using assms(2) by auto
  with assms(1) have inv: "strict_prefix s COSMOSH_OSC_PREFIX" "2 \<le> length s" "pendingCosmoshOsc p = None"
    "\<not> discardingOversizedCosmoshOsc p" "\<not> pendingEscape p" "pendingCosmoshPayloadBytes p = 0"
    by (auto simp: parser_inv_def)
  then show ?thesis
    by (auto simp: appendOscPrefixChar_def s Let_def parser_inv_def strict_prefix_def)
qed

lemma byte_length_char: "1 \<le> byte_length [c]"
  by (simp add: unit_bytes_def)

lemma cosmosh_inv:
  assumes "parser_inv p" and "pendingCosmoshOsc p \<noteq> None"
  shows "parser_inv (snd (appendCosmoshOscChar c p))"
proof -
  obtain s where s: "pendingCosmoshOsc p = Some s" using assms(2) by auto
  with assms(1) have inv: "prefix COSMOSH_OSC_PREFIX s" "length s \<le> 14 + pendingCosmoshPayloadBytes p"
    "\<not> discardingOversizedCosmoshOsc p" "\<not> pendingEscape p" "pendingOscPrefix p = None"
    by (auto simp: parser_inv_def)
  have "Suc (length s) \<le> 14 + (pendingCosmoshPayloadBytes p + byte_length [c])"
    using inv(2) byte_length_char [of c] by linarith
  then show ?thesis
    using inv unfolding appendCosmoshOscChar_def s
    by (auto simp: Let_def parser_inv_def not_less simp del: byte_length.simps)
qed

lemma char_piece_inv:
  assumes "parser_inv p"
  shows "parser_inv (snd (char_piece fb c p))"
proof -
  consider (discard) "discardingOversizedCosmoshOsc p"
    | (cosmosh) "\<not> discardingOversizedCosmoshOsc p" "pendingCosmoshOsc p \<noteq> None"
    | (osc) "\<not> discardingOversizedCosmoshOsc p" "pendingCosmoshOsc p = None" "pendingOscPrefix p \<noteq> None"
    | (plain) "\<not> discardingOversizedCosmoshOsc p" "pendingCosmoshOsc p = None" "pendingOscPrefix p = None"
    by blast
  then show ?thesis
  proof cases
    case discard
    then show ?thesis
      using assms by (auto simp: char_piece_def consumeDiscardedOscChar_def parser_inv_def)
  next
    case cosmosh
    then show ?thesis using cosmosh_inv [OF assms, of c] by (simp add: char_piece_def)
  next
    case osc
    then show ?thesis using prefix_inv [OF assms, of c] by (simp add: char_piece_def)
  next
    case plain
    then show ?thesis
      using assms escape_prefix by (simp add: char_piece_def parser_inv_def)
  qed
qed

lemma osc_run_inv: "parser_inv p \<Longrightarrow> parser_inv (snd (osc_run fb cs p))"
proof (induction cs arbitrary: p)
  case (Cons c cs)
  have "parser_inv (snd (osc_run fb cs (snd (char_piece fb c p))))"
    by (intro Cons.IH char_piece_inv Cons.prems)
  then show ?case by (auto simp: osc_step_def split: prod.split)
qed simp

lemma held_bounded:
  assumes "parser_inv p"
  shows "length (held p) \<le> 14 + OSC_PAYLOAD_MAX_BYTES"
proof -
  have "length s < 14" if "pendingOscPrefix p = Some s" for s
    using assms that prefix_length_less [of s COSMOSH_OSC_PREFIX] by (simp add: parser_inv_def)
  moreover have "length s \<le> 14 + OSC_PAYLOAD_MAX_BYTES" if "pendingCosmoshOsc p = Some s" for s
    using assms that by (force simp: parser_inv_def)
  ultimately show ?thesis
    using assms unfolding held_def parser_flush_def
    by (cases "pendingOscPrefix p"; cases "pendingCosmoshOsc p"; cases "pendingEscape p")
      (auto simp: parser_inv_def less_imp_le)
qed

section \<open>Output without the prefix of the helper\<close>

text \<open>
  While the prefix has not occurred, the visible output and what is held back are the input.
\<close>

definition passing :: "osc_parser \<Rightarrow> bool" where
  "passing p \<longleftrightarrow> parser_inv p \<and> pendingCosmoshOsc p = None \<and> \<not> discardingOversizedCosmoshOsc p"

lemma held_passing:
  "passing p \<Longrightarrow> held p = (if pendingEscape p then [ESCAPE] else case pendingOscPrefix p of None \<Rightarrow> [] | Some s \<Rightarrow> s)"
  by (auto simp: passing_def held_def parser_flush_def parser_inv_def split: option.splits)

lemma strict_prefix_snoc_eq:
  assumes "strict_prefix s P" and "prefix P (s @ [c])"
  shows "P = s @ [c]"
proof -
  have "length s < length P" using assms(1) by (rule prefix_length_less)
  moreover have "length P \<le> Suc (length s)" using prefix_length_le [OF assms(2)] by simp
  ultimately have "length P = length (s @ [c])" by simp
  moreover obtain t where "s @ [c] = P @ t" using assms(2) by (rule prefixE)
  ultimately show ?thesis by simp
qed

lemma passing_step:
  assumes pass: "passing p" and new: "held p @ [c] \<noteq> COSMOSH_OSC_PREFIX"
  obtains out where "osc_step fb c p = (map Inl out, snd (osc_step fb c p))"
    and "out @ held (snd (osc_step fb c p)) = held p @ [c]" and "passing (snd (osc_step fb c p))"
proof -
  let ?p' = "snd (char_piece fb c p)"
  have inv': "parser_inv ?p'" using pass by (intro char_piece_inv) (simp add: passing_def)
  have "\<exists>out. fst (char_piece fb c p) = (out, None) \<and> out @ held ?p' = held p @ [c] \<and>
      pendingCosmoshOsc ?p' = None \<and> \<not> discardingOversizedCosmoshOsc ?p'"
  proof (cases "pendingOscPrefix p")
    case None
    with pass show ?thesis
      by (auto simp: passing_def char_piece_def held_def parser_flush_def)
  next
    case (Some s)
    with pass have s: "strict_prefix s COSMOSH_OSC_PREFIX" "\<not> pendingEscape p"
      "pendingCosmoshOsc p = None" "\<not> discardingOversizedCosmoshOsc p"
      by (auto simp: passing_def parser_inv_def)
    have h: "held p = s" using held_passing [OF pass] Some s by simp
    then have ne: "s @ [c] \<noteq> COSMOSH_OSC_PREFIX" using new by simp
    then have "\<not> starts_with (s @ [c]) COSMOSH_OSC_PREFIX"
      using strict_prefix_snoc_eq [OF s(1)] by auto
    then have whole: "parseCompletedOsc fb (s @ [c]) = (s @ [c], None)" by (simp add: parseCompletedOsc_def)
    show ?thesis
      unfolding h using s Some ne whole
      by (auto simp: char_piece_def appendOscPrefixChar_def Let_def held_def parser_flush_def)
  qed
  then obtain out where "fst (char_piece fb c p) = (out, None)" "out @ held ?p' = held p @ [c]"
    "passing ?p'" using inv' unfolding passing_def by blast
  then show ?thesis using that [of out] by (simp add: osc_step_def)
qed

lemma transparent:
  assumes "\<not> sublist COSMOSH_OSC_PREFIX cs"
  shows "\<exists>out. fst (osc_run fb cs new_parser) = map Inl out \<and>
     out @ held (snd (osc_run fb cs new_parser)) = cs \<and> passing (snd (osc_run fb cs new_parser))"
  using assms
proof (induction cs rule: rev_induct)
  case Nil
  show ?case by (simp add: passing_def) (simp add: new_parser_def)
next
  case (snoc c cs)
  let ?p = "snd (osc_run fb cs new_parser)"
  have "\<not> sublist COSMOSH_OSC_PREFIX cs"
    using snoc.prems sublist_append_leftI sublist_appendI sublist_order.order.trans
    by (metis append_Nil sublist_def)
  then obtain out where out: "fst (osc_run fb cs new_parser) = map Inl out" "out @ held ?p = cs" "passing ?p"
    using snoc.IH by blast
  have "held ?p @ [c] \<noteq> COSMOSH_OSC_PREFIX"
  proof
    assume "held ?p @ [c] = COSMOSH_OSC_PREFIX"
    then have "out @ COSMOSH_OSC_PREFIX = (out @ held ?p) @ [c]" by simp
    with out(2) have "cs @ [c] = out @ COSMOSH_OSC_PREFIX @ []" by simp
    with snoc.prems show False unfolding sublist_def by blast
  qed
  from passing_step [OF out(3) this, of fb] obtain more where
    more: "osc_step fb c ?p = (map Inl more, snd (osc_step fb c ?p))"
      "more @ held (snd (osc_step fb c ?p)) = held ?p @ [c]" "passing (snd (osc_step fb c ?p))" .
  have run: "osc_run fb (cs @ [c]) new_parser = (map Inl (out @ more), snd (osc_step fb c ?p))"
    using arg_cong [OF more(1), of fst] out(1) by (auto simp: osc_run_append split: prod.split)
  have "out @ more @ held (snd (osc_step fb c ?p)) = cs @ [c]" using more(2) out(2) by simp
  with run more(3) show ?case by (intro exI [of _ "out @ more"]) simp
qed

section \<open>Discarding\<close>

lemma discard_swallows:
  assumes "discardingOversizedCosmoshOsc p" and "\<not> discardSawEscape p"
    and "BELL \<notin> set cs" and "ESCAPE \<notin> set cs"
  shows "osc_run fb cs p = ([], p)"
  using assms(3,4)
proof (induction cs)
  case (Cons c cs)
  then have "osc_step fb c p = ([], p)"
    using assms(1,2) by (auto simp: osc_step_def char_piece_def consumeDiscardedOscChar_def)
  with Cons show ?case by simp
qed simp

text \<open>A BEL ends the discarded sequence, unless an ESC stands directly before it.\<close>
lemma discard_bell:
  "discardingOversizedCosmoshOsc p \<Longrightarrow> \<not> discardSawEscape p \<Longrightarrow>
   osc_run fb [BELL] p = ([], p\<lparr>discardingOversizedCosmoshOsc := False\<rparr>)"
  by (simp add: osc_step_def char_piece_def consumeDiscardedOscChar_def)

lemma discard_escape_bell:
  "discardingOversizedCosmoshOsc p \<Longrightarrow> \<not> discardSawEscape p \<Longrightarrow> osc_run fb [ESCAPE, BELL] p = ([], p)"
  by (simp add: osc_step_def char_piece_def consumeDiscardedOscChar_def ESCAPE_def BELL_def)

section \<open>Validated events\<close>

definition int_between :: "rat \<Rightarrow> rat \<Rightarrow> jsnum \<Rightarrow> bool" where
  "int_between lo hi x \<longleftrightarrow> (\<exists>n::int. x = Num (of_int n) \<and> lo \<le> of_int n \<and> of_int n \<le> hi)"

definition command_ok :: "jstring \<Rightarrow> jstring \<Rightarrow> bool" where
  "command_ok command commandId \<longleftrightarrow> command \<noteq> [] \<and> length command \<le> COMMAND_MAX_BYTES \<and> \<not> containsAsciiControlCharacter command \<and>
     commandId \<noteq> [] \<and> length commandId \<le> 128 \<and> command_id_pattern commandId"

fun detail_ok :: "jstring list \<Rightarrow> event_detail \<Rightarrow> bool" where
  "detail_ok caps IntegrationReady = True"
| "detail_ok caps (PromptReady g) = (js ''prompt-ready'' \<in> set caps \<and>
     (js ''line-state'' \<in> set caps \<longrightarrow> g \<noteq> None) \<and> (\<forall>n. g = Some n \<longrightarrow> int_between 0 max_safe_integer n))"
| "detail_ok caps (Cwd path) = (js ''cwd'' \<in> set caps \<and> length path \<le> CWD_MAX_BYTES \<and> starts_with path [47] \<and> 0 \<notin> set path)"
| "detail_ok caps (LineState len cursor g) = (js ''line-state'' \<in> set caps \<and>
     int_between 0 LINE_LENGTH_MAX len \<and> int_between 0 LINE_LENGTH_MAX cursor \<and> num_le cursor len \<and>
     int_between 0 max_safe_integer g)"
| "detail_ok caps (CommandStart c i) = (js ''command-start'' \<in> set caps \<and> command_ok c i)"
| "detail_ok caps (ForegroundCommand c i) = (js ''foreground-command'' \<in> set caps \<and> command_ok c i)"
| "detail_ok caps (CommandEnd c i x d) = (js ''command-end'' \<in> set caps \<and> command_ok c i \<and>
     int_between 0 255 x \<and> int_between 0 max_safe_integer d)"

definition event_ok :: "shell_event \<Rightarrow> bool" where
  "event_ok e \<longleftrightarrow> se_shell e \<in> set REMOTE_SHELL_NAMES \<and> helper_version_pattern (se_helperVersion e) \<and>
     (\<exists>n::int. se_protocolVersion e = Num (of_int n) \<and> 1 \<le> n) \<and>
     se_capabilities e \<noteq> [] \<and> distinct (se_capabilities e) \<and>
     set (se_capabilities e) \<subseteq> set REMOTE_SHELL_CAPABILITIES \<and>
     int_between 0 max_safe_integer (se_timestamp e) \<and> detail_ok (se_capabilities e) (se_detail e)"

lemma collect_capabilities_ok:
  "collect_capabilities acc vs = Some caps \<Longrightarrow> distinct acc \<Longrightarrow> set acc \<subseteq> set REMOTE_SHELL_CAPABILITIES \<Longrightarrow>
   distinct caps \<and> set caps \<subseteq> set REMOTE_SHELL_CAPABILITIES \<and> length caps = length acc + length vs"
proof (induction acc vs rule: collect_capabilities.induct)
  case (2 acc c vs)
  then show ?case by (auto split: if_splits)
qed simp_all

lemma normalizeCapabilities_ok:
  assumes "normalizeCapabilities v = Some caps"
  shows "caps \<noteq> [] \<and> distinct caps \<and> set caps \<subseteq> set REMOTE_SHELL_CAPABILITIES"
proof -
  obtain vs where "v = JArr vs" "vs \<noteq> []" "collect_capabilities [] vs = Some caps"
    using assms by (auto simp: normalizeCapabilities_def split: json.splits if_splits)
  then show ?thesis using collect_capabilities_ok [of "[]" vs caps] by auto
qed

lemma safe_within:
  assumes "is_safe_integer n" and "\<not> num_lt n (Num lo)" and "\<not> num_lt (Num hi) n"
  shows "int_between lo hi n"
proof -
  obtain i where "n = Num (of_int i)" using is_safe_integer_integer [OF assms(1)] is_integer_obtain by metis
  with assms show ?thesis by (auto simp: int_between_def)
qed

lemma safe_upper: "is_safe_integer n \<Longrightarrow> \<not> num_lt (Num max_safe_integer) n"
  by (cases n) simp_all

lemma bounded_within: "normalizeBoundedInteger v lo hi = Some n \<Longrightarrow> int_between lo hi n"
  by (auto simp: normalizeBoundedInteger_def intro: safe_within split: json.splits if_splits)

lemma commandId_ok:
  "normalizeCommandId v = Some i \<Longrightarrow> i \<noteq> [] \<and> length i \<le> 128 \<and> command_id_pattern i"
  by (auto simp: normalizeCommandId_def split: json.splits if_splits)

lemma within_not_lt: "int_between a b x \<Longrightarrow> int_between c d y \<Longrightarrow> \<not> num_lt x y \<Longrightarrow> num_le y x"
  by (auto simp: int_between_def)

lemma strict_sequence_length: "fst (utf8_sequence n cp lo hi bs) = Some c \<Longrightarrow> length bs = n + length (snd (utf8_sequence n cp lo hi bs))"
  by (induction n cp lo hi bs rule: utf8_sequence.induct) (auto split: if_splits)

lemma lead_positive: "lead b = Some (n, cp, lo, hi) \<Longrightarrow> 1 \<le> n"
  by (auto simp: lead_def split: if_splits)

lemma utf8_strict_length: "utf8_strict bs = Some s \<Longrightarrow> length s \<le> length bs"
proof (induction bs arbitrary: s rule: utf8_strict.induct)
  case (2 b bs)
  show ?case
  proof (cases "b < 0x80")
    case True
    then show ?thesis using 2 by auto
  next
    case False
    with 2(3) obtain n cp lo hi where lead: "lead b = Some (n, cp, lo, hi)" by (auto split: option.splits)
    with 2(3) False obtain c where c: "fst (utf8_sequence n cp lo hi bs) = Some c" by (auto split: option.splits)
    with 2(3) False lead obtain t where t: "utf8_strict (snd (utf8_sequence n cp lo hi bs)) = Some t" "s = code_units c @ t"
      by auto
    have "length t \<le> length (snd (utf8_sequence n cp lo hi bs))" by (rule 2(2) [OF False lead refl refl refl c t(1)])
    moreover have "length (code_units c) \<le> 2" by (simp add: code_units_def)
    ultimately show ?thesis
      using strict_sequence_length [OF c] lead_positive [OF lead] t(2) by simp
  qed
qed simp

lemma bounded_text:
  assumes "decodeBoundedBase64Utf8 fb v n = Some c"
  shows "length c \<le> n"
proof -
  obtain bs where "\<not> n < length bs" and "text_decoder_fatal bs = Some c"
    using assms by (auto simp: decodeBoundedBase64Utf8_def Let_def split: json.splits if_splits)
  then have "length bs \<le> n" and "text_decoder_fatal bs = Some c" by simp_all
  moreover have "length (strip_bom (map unat bs)) \<le> length bs" by (simp add: strip_bom_def)
  ultimately show ?thesis using utf8_strict_length [of "strip_bom (map unat bs)" c] by (simp add: text_decoder_fatal_def)
qed

lemma command_detail_ok:
  assumes "command_detail fb v e = Some d" and "e \<in> set caps"
    and "e \<in> {js ''command-start'', js ''foreground-command'', js ''command-end''}"
  shows "detail_ok caps d"
proof -
  obtain c where c: "decodeBoundedBase64Utf8 fb (get_field v (js ''commandBase64'')) COMMAND_MAX_BYTES = Some c"
    "c \<noteq> []" "\<not> containsAsciiControlCharacter c"
    using assms(1) by (cases "decodeBoundedBase64Utf8 fb (get_field v (js ''commandBase64'')) COMMAND_MAX_BYTES")
      (auto simp: command_detail_def Let_def split: if_splits)
  obtain i where i: "normalizeCommandId (get_field v (js ''commandId'')) = Some i"
    using assms(1) by (cases "normalizeCommandId (get_field v (js ''commandId''))")
      (auto simp: command_detail_def Let_def split: if_splits)
  have ok: "command_ok c i" using c commandId_ok [OF i] bounded_text [OF c(1)] by (simp add: command_ok_def)
  then show ?thesis
    using assms c i bounded_within
    by (auto simp: command_detail_def Let_def split: if_splits)
qed

lemma event_detail_ok:
  assumes "event_detail fb v e caps = Some d" and "e \<in> set REMOTE_SHELL_EVENT_NAMES"
  shows "detail_ok caps d"
proof -
  consider "e = js ''integration-ready''" | "e = js ''prompt-ready''" | "e = js ''cwd''" | "e = js ''line-state''"
    | "e \<in> {js ''command-start'', js ''foreground-command'', js ''command-end''}"
    using assms(2) by (auto simp: REMOTE_SHELL_EVENT_NAMES_def)
  then show ?thesis
  proof cases
    case 2
    then show ?thesis
      using assms(1) bounded_within by (auto simp: event_detail_def Let_def split: if_splits)
  next
    case 3
    have "length (the (decodeBoundedBase64Utf8 fb v n)) \<le> n" if "\<not> falsy (decodeBoundedBase64Utf8 fb v n)" for v n
      using that bounded_text by (cases "decodeBoundedBase64Utf8 fb v n") auto
    then show ?thesis
      using 3 assms(1) by (auto simp: event_detail_def Let_def split: if_splits)
  next
    case 4
    then show ?thesis
      using assms(1) bounded_within within_not_lt
      by (auto simp: event_detail_def Let_def split: if_splits) blast
  next
    case 5
    then show ?thesis
      using assms(1) by (auto simp: event_detail_def split: if_splits intro!: command_detail_ok)
  qed (use assms(1) in \<open>auto simp: event_detail_def\<close>)
qed

lemma normalized_event_ok:
  assumes "normalizeRemoteShellEvent fb v = Some e"
  shows "event_ok e"
proof -
  obtain event shell ver prot ts caps d where
    f: "event \<in> set REMOTE_SHELL_EVENT_NAMES" "shell \<in> set REMOTE_SHELL_NAMES" "helper_version_pattern ver"
      "is_integer prot" "\<not> num_lt prot (Num 1)"
      "normalizeCapabilities (get_field v (js ''capabilities'')) = Some caps"
      "is_safe_integer ts" "\<not> num_lt ts (Num 0)" "event_detail fb v event caps = Some d"
    and e: "e = \<lparr>se_shell = shell, se_helperVersion = ver, se_protocolVersion = prot, se_capabilities = caps,
      se_timestamp = ts, se_detail = d\<rparr>"
    using assms unfolding normalizeRemoteShellEvent_def
    by (simp split: if_splits json.splits option.splits) blast
  obtain n where "prot = Num (of_int n)" using f(4) by (rule is_integer_obtain)
  with f(5) have "\<exists>n::int. prot = Num (of_int n) \<and> 1 \<le> n" by auto
  moreover have "int_between 0 max_safe_integer ts" using f(7,8) safe_upper by (intro safe_within)
  ultimately show ?thesis
    using f normalizeCapabilities_ok [OF f(6)] event_detail_ok [OF f(9,1)] by (simp add: event_ok_def e)
qed

end
