(* ===== verification/TerminalSessions.thy ===== *)
theory TerminalSessions
  imports Contracts Utf8
begin

text \<open>
  The lifecycle that all terminal sessions share
  (packages/backend/src/terminal/base-session-service.ts), with the hooks of local terminals
  (packages/backend/src/local-terminal/session-service.ts): the bounded buffer of output that
  arrives while no client is attached, attaching a WebSocket by path and token, and disposing a
  session once. Sessions are shared mutable objects, so they live in a store; sockets are named by
  numbers, and \<open>sv_open\<close> tells which of them are in state OPEN. Reasons are translation keys.
\<close>

section \<open>Data\<close>

datatype server_message = Ready | Output jstring | Exit jstring | Control jstring

record tsession =
  ts_sessionId :: jstring
  ts_websocketToken :: jstring
  pendingOutput :: "jstring list"
  pendingOutputBytes :: nat
  pendingOutputDropCount :: nat
  attachTimeout :: bool
  telemetryInterval :: bool
  historySyncTimeout :: bool
  ts_socket :: "nat option"
  ts_disposed :: bool

datatype service_effect =
    SocketSend nat server_message
  | SocketClose nat nat jstring
  | TransportDisposed nat
  | DroppedWarning nat nat

record service =
  sv_store :: "nat \<Rightarrow> tsession"
  sv_next :: nat
  sv_sessions :: "(jstring \<times> nat) list"
  sv_open :: "nat \<Rightarrow> bool"
  sv_effects :: "service_effect list"

definition PENDING_OUTPUT_MAX_CHUNKS :: nat where "PENDING_OUTPUT_MAX_CHUNKS = 2048"
definition PENDING_OUTPUT_MAX_BYTES :: nat where "PENDING_OUTPUT_MAX_BYTES = 1024 * 1024"

section \<open>The session id of a WebSocket path\<close>

text \<open>
  \<open>decodeURIComponent\<close>: every maximal run of escapes is decoded as strict UTF-8; \<open>None\<close> stands for
  the \<open>URIError\<close>.
\<close>

definition hex_value :: "nat \<Rightarrow> nat option" where
  "hex_value c =
     (if 48 \<le> c \<and> c \<le> 57 then Some (c - 48)
      else if 97 \<le> c \<and> c \<le> 102 then Some (c - 87)
      else if 65 \<le> c \<and> c \<le> 70 then Some (c - 55) else None)"

fun take_escapes :: "jstring \<Rightarrow> (nat list \<times> jstring) option" where
  "take_escapes (p # a # b # s) =
     (if p \<noteq> 37 then Some ([], p # a # b # s)
      else case (hex_value a, hex_value b) of
             (Some x, Some y) \<Rightarrow> map_option (\<lambda>(bs, r). ((16 * x + y) # bs, r)) (take_escapes s)
           | _ \<Rightarrow> None)"
| "take_escapes s = (if s \<noteq> [] \<and> hd s = 37 then None else Some ([], s))"

lemma take_escapes_length:
  "take_escapes s = Some (bs, r) \<Longrightarrow> length r \<le> length s \<and> (s \<noteq> [] \<longrightarrow> hd s = 37 \<longrightarrow> length r < length s)"
  by (induction s arbitrary: bs r rule: take_escapes.induct)
    (fastforce split: if_splits option.splits)+

function decodeURIComponent :: "jstring \<Rightarrow> jstring option" where
  "decodeURIComponent [] = Some []"
| "decodeURIComponent (c # s) =
     (if c \<noteq> 37 then map_option (Cons c) (decodeURIComponent s)
      else case take_escapes (c # s) of
             None \<Rightarrow> None
           | Some (bs, r) \<Rightarrow>
               (case utf8_strict bs of
                  None \<Rightarrow> None
                | Some u \<Rightarrow> map_option (append u) (decodeURIComponent r)))"
  by pat_completeness auto
termination
  by (relation "measure length") (auto dest!: take_escapes_length)

definition resolveTerminalWebSocketSessionId :: "jstring \<Rightarrow> jstring \<Rightarrow> jstring option" where
  "resolveTerminalWebSocketSessionId pathname pathPrefix =
     (if \<not> starts_with pathname pathPrefix then None
      else case decodeURIComponent (drop (length pathPrefix) pathname) of
             None \<Rightarrow> None
           | Some sessionId \<Rightarrow> if length sessionId > 0 then Some sessionId else None)"

section \<open>Sending and buffering\<close>

text \<open>
  The loop that drops the oldest chunks. An empty chunk at the head ends it, as \<open>!dropped\<close> does
  in the code.
\<close>

function drop_loop :: "tsession \<Rightarrow> tsession" where
  "drop_loop s =
     (if length (pendingOutput s) > PENDING_OUTPUT_MAX_CHUNKS \<or>
         pendingOutputBytes s > PENDING_OUTPUT_MAX_BYTES
      then (case pendingOutput s of
              [] \<Rightarrow> s
            | dropped # rest \<Rightarrow>
                if dropped = [] then s\<lparr>pendingOutput := rest\<rparr>
                else drop_loop (s\<lparr>pendingOutput := rest,
                       pendingOutputBytes := pendingOutputBytes s - byte_length dropped,
                       pendingOutputDropCount := pendingOutputDropCount s + 1\<rparr>))
      else s)"
  by pat_completeness auto
termination by (relation "measure (\<lambda>s. length (pendingOutput s))") auto

declare drop_loop.simps [simp del]

definition bufferPendingOutput :: "jstring \<Rightarrow> tsession \<Rightarrow> tsession" where
  "bufferPendingOutput data s =
     drop_loop (s\<lparr>pendingOutput := pendingOutput s @ [data],
                  pendingOutputBytes := pendingOutputBytes s + byte_length data\<rparr>)"

definition update_session :: "nat \<Rightarrow> (tsession \<Rightarrow> tsession) \<Rightarrow> service \<Rightarrow> service" where
  "update_session a f v = v\<lparr>sv_store := (sv_store v)(a := f (sv_store v a))\<rparr>"

definition effect :: "service_effect list \<Rightarrow> service \<Rightarrow> service" where
  "effect es v = v\<lparr>sv_effects := sv_effects v @ es\<rparr>"

definition attached_open :: "service \<Rightarrow> tsession \<Rightarrow> bool" where
  "attached_open v s = (case ts_socket s of None \<Rightarrow> False | Some k \<Rightarrow> sv_open v k)"

definition sendServerMessage :: "nat \<Rightarrow> server_message \<Rightarrow> service \<Rightarrow> service" where
  "sendServerMessage a payload v =
     (let s = sv_store v a
      in if ts_disposed s then v
         else if \<not> attached_open v s then
           (case payload of
              Output data \<Rightarrow> update_session a (bufferPendingOutput data) v
            | _ \<Rightarrow> v)
         else effect [SocketSend (the (ts_socket s)) payload] v)"

text \<open>
  The flush loop; \<open>None\<close> when it does not return. An empty chunk is skipped.
\<close>

partial_function (option) flush_loop :: "nat \<Rightarrow> service \<Rightarrow> service option" where
  "flush_loop a v =
     (case pendingOutput (sv_store v a) of
        [] \<Rightarrow> Some v
      | data # rest \<Rightarrow>
          if data = [] then flush_loop a (update_session a (\<lambda>s. s\<lparr>pendingOutput := rest\<rparr>) v)
          else flush_loop a (sendServerMessage a (Output data)
                 (update_session a (\<lambda>s. s\<lparr>pendingOutput := rest,
                    pendingOutputBytes := pendingOutputBytes s - byte_length data\<rparr>) v)))"

definition flushPendingOutput :: "nat \<Rightarrow> service \<Rightarrow> service option" where
  "flushPendingOutput a v =
     map_option (\<lambda>v.
         if pendingOutputDropCount (sv_store v a) > 0
         then update_session a (\<lambda>s. s\<lparr>pendingOutputDropCount := 0\<rparr>)
                (effect [DroppedWarning a (pendingOutputDropCount (sv_store v a))] v)
         else v)
       (flush_loop a v)"

section \<open>Lifecycle\<close>

definition close_socket :: "nat \<Rightarrow> nat \<Rightarrow> jstring \<Rightarrow> service \<Rightarrow> service" where
  "close_socket k code reason v =
     effect [SocketClose k code reason] (v\<lparr>sv_open := (sv_open v)(k := False)\<rparr>)"

definition registerSession :: "jstring \<Rightarrow> jstring \<Rightarrow> service \<Rightarrow> service" where
  "registerSession sid token v =
     v\<lparr>sv_store := (sv_store v)(sv_next v := \<lparr>ts_sessionId = sid, ts_websocketToken = token,
         pendingOutput = [], pendingOutputBytes = 0, pendingOutputDropCount = 0,
         attachTimeout = True, telemetryInterval = True, historySyncTimeout = True,
         ts_socket = None, ts_disposed = False\<rparr>),
       sv_next := Suc (sv_next v), sv_sessions := map_set sid (sv_next v) (sv_sessions v)\<rparr>"

text \<open>The common disposal; \<open>disposeTransport\<close> kills the process behind the terminal.\<close>

definition disposeSession :: "jstring \<Rightarrow> jstring \<Rightarrow> service \<Rightarrow> service" where
  "disposeSession sessionId reason v =
     (case map_of (sv_sessions v) sessionId of
        None \<Rightarrow> v
      | Some a \<Rightarrow>
          if ts_disposed (sv_store v a) then v
          else
            let v1 = update_session a (\<lambda>s. s\<lparr>attachTimeout := False, telemetryInterval := False,
                       historySyncTimeout := False\<rparr>) v;
                v2 = sendServerMessage a (Exit reason) v1;
                v3 = update_session a (\<lambda>s. s\<lparr>ts_disposed := True\<rparr>) v2;
                v4 = v3\<lparr>sv_sessions := map_delete sessionId (sv_sessions v3)\<rparr>;
                v5 = effect [TransportDisposed a] v4;
                v6 = (if attached_open v5 (sv_store v5 a)
                      then close_socket (the (ts_socket (sv_store v5 a))) 1000 reason v5 else v5)
            in update_session a (\<lambda>s. s\<lparr>ts_socket := None\<rparr>) v6)"

definition closeSession :: "jstring \<Rightarrow> service \<Rightarrow> bool \<times> service" where
  "closeSession sessionId v =
     (if map_of (sv_sessions v) sessionId = None then (False, v)
      else (True, disposeSession sessionId (js ''ws.sessionClosedByApiRequest'') v))"

fun close_each :: "jstring list \<Rightarrow> nat \<Rightarrow> service \<Rightarrow> nat \<times> service" where
  "close_each [] closedCount v = (closedCount, v)"
| "close_each (i # ids) closedCount v =
     (let (closed, v') = closeSession i v
      in close_each ids (if closed then closedCount + 1 else closedCount) v')"

definition closeAllSessions :: "service \<Rightarrow> nat \<times> service" where
  "closeAllSessions v = close_each (map fst (sv_sessions v)) 0 v"

definition stop_sessions :: "service \<Rightarrow> service" where
  "stop_sessions v = fold (\<lambda>i. disposeSession i (js ''ws.backendShutdown'')) (map fst (sv_sessions v)) v"

definition getActiveSessionCount :: "service \<Rightarrow> nat" where
  "getActiveSessionCount v = length (sv_sessions v)"

definition onSessionAttached :: "nat \<Rightarrow> service \<Rightarrow> service option" where
  "onSessionAttached a v = flushPendingOutput a (sendServerMessage a Ready v)"

text \<open>A connection on a fresh socket \<open>k\<close>, which the server hands over in state OPEN.\<close>

definition connection :: "nat \<Rightarrow> jstring \<Rightarrow> jstring \<Rightarrow> jstring \<Rightarrow> service \<Rightarrow> service option" where
  "connection k pathname pathPrefix token v0 =
     (let v = v0\<lparr>sv_open := (sv_open v0)(k := True)\<rparr>
      in case resolveTerminalWebSocketSessionId pathname pathPrefix of
           None \<Rightarrow> Some (close_socket k 1008 (js ''ws.invalidWebsocketPath'') v)
         | Some sessionId \<Rightarrow>
             (case map_of (sv_sessions v) sessionId of
                None \<Rightarrow> Some (close_socket k 1008 (js ''ws.sessionInvalidOrExpired'') v)
              | Some a \<Rightarrow>
                  if ts_disposed (sv_store v a) \<or> token \<noteq> ts_websocketToken (sv_store v a)
                  then Some (close_socket k 1008 (js ''ws.sessionInvalidOrExpired'') v)
                  else
                    let v1 = (if attached_open v (sv_store v a)
                              then close_socket (the (ts_socket (sv_store v a))) 1012
                                     (js ''ws.sessionReconnectedFromNewClient'') v
                              else v);
                        v2 = update_session a (\<lambda>s. s\<lparr>ts_socket := Some k, attachTimeout := False\<rparr>) v1
                    in onSessionAttached a v2))"

text \<open>
  The close and error events of socket \<open>k\<close>, on which the handlers of session \<open>a\<close> were installed;
  the socket is no longer open then.
\<close>

definition socket_gone :: "nat \<Rightarrow> nat \<Rightarrow> jstring \<Rightarrow> service \<Rightarrow> service" where
  "socket_gone k a reason v0 =
     (let v = v0\<lparr>sv_open := (sv_open v0)(k := False)\<rparr>
      in if ts_disposed (sv_store v a) \<or> ts_socket (sv_store v a) \<noteq> Some k then v
         else disposeSession (ts_sessionId (sv_store v a)) reason v)"

section \<open>The buffer\<close>

definition buffer_ok :: "tsession \<Rightarrow> bool" where
  "buffer_ok s \<longleftrightarrow> [] \<notin> set (pendingOutput s) \<and>
     pendingOutputBytes s = sum_list (map byte_length (pendingOutput s)) \<and>
     length (pendingOutput s) \<le> PENDING_OUTPUT_MAX_CHUNKS \<and>
     pendingOutputBytes s \<le> PENDING_OUTPUT_MAX_BYTES"

text \<open>
  Dropping removes a prefix, counts it, and stops as soon as the limits hold.
\<close>
lemma drop_loop_spec:
  assumes "[] \<notin> set (pendingOutput s)"
    and "pendingOutputBytes s = sum_list (map byte_length (pendingOutput s))"
  shows "\<exists>n. drop_loop s = s\<lparr>pendingOutput := drop n (pendingOutput s),
           pendingOutputBytes := sum_list (map byte_length (drop n (pendingOutput s))),
           pendingOutputDropCount := pendingOutputDropCount s + n\<rparr> \<and>
     n \<le> length (pendingOutput s) \<and> buffer_ok (drop_loop s) \<and>
     (\<forall>m<n. length (drop m (pendingOutput s)) > PENDING_OUTPUT_MAX_CHUNKS \<or>
        sum_list (map byte_length (drop m (pendingOutput s))) > PENDING_OUTPUT_MAX_BYTES)"
  using assms
proof (induction s rule: drop_loop.induct)
  case (1 s)
  show ?case
  proof (cases "length (pendingOutput s) > PENDING_OUTPUT_MAX_CHUNKS \<or>
      pendingOutputBytes s > PENDING_OUTPUT_MAX_BYTES")
    case False
    then have "drop_loop s = s" by (subst drop_loop.simps) simp
    then show ?thesis
      using False 1(2,3) by (intro exI [of _ 0]) (simp add: buffer_ok_def not_less)
  next
    case True
    then obtain d r where dr: "pendingOutput s = d # r"
      using 1(3) by (cases "pendingOutput s") (auto simp: PENDING_OUTPUT_MAX_CHUNKS_def)
    let ?s' = "s\<lparr>pendingOutput := r, pendingOutputBytes := pendingOutputBytes s - byte_length d,
      pendingOutputDropCount := pendingOutputDropCount s + 1\<rparr>"
    have d: "d \<noteq> []" using 1(2) dr by auto
    have step: "drop_loop s = drop_loop ?s'"
      using True dr d by (subst drop_loop.simps) simp
    obtain n where n: "drop_loop ?s' = ?s'\<lparr>pendingOutput := drop n r,
           pendingOutputBytes := sum_list (map byte_length (drop n r)),
           pendingOutputDropCount := pendingOutputDropCount ?s' + n\<rparr>" "n \<le> length r"
      "buffer_ok (drop_loop ?s')"
      "\<forall>m<n. length (drop m r) > PENDING_OUTPUT_MAX_CHUNKS \<or>
        sum_list (map byte_length (drop m r)) > PENDING_OUTPUT_MAX_BYTES"
      using 1(1) [OF True dr d] 1(2,3) dr by auto
    have "length (drop m (d # r)) > PENDING_OUTPUT_MAX_CHUNKS \<or>
        sum_list (map byte_length (drop m (d # r))) > PENDING_OUTPUT_MAX_BYTES" if "m < Suc n" for m
    proof (cases m)
      case 0
      then show ?thesis using True 1(3) dr by simp
    next
      case (Suc k)
      then show ?thesis using n(4) that by simp
    qed
    then show ?thesis
      using n step dr by (intro exI [of _ "Suc n"]) simp
  qed
qed

lemma buffer_spec:
  assumes "buffer_ok s" and "data \<noteq> []"
  shows "\<exists>n. bufferPendingOutput data s = s\<lparr>pendingOutput := drop n (pendingOutput s @ [data]),
           pendingOutputBytes := sum_list (map byte_length (drop n (pendingOutput s @ [data]))),
           pendingOutputDropCount := pendingOutputDropCount s + n\<rparr> \<and>
     n \<le> Suc (length (pendingOutput s)) \<and> buffer_ok (bufferPendingOutput data s) \<and>
     (\<forall>m<n. length (drop m (pendingOutput s @ [data])) > PENDING_OUTPUT_MAX_CHUNKS \<or>
        sum_list (map byte_length (drop m (pendingOutput s @ [data]))) > PENDING_OUTPUT_MAX_BYTES)"
  unfolding bufferPendingOutput_def
  using drop_loop_spec [of "s\<lparr>pendingOutput := pendingOutput s @ [data],
      pendingOutputBytes := pendingOutputBytes s + byte_length data\<rparr>"] assms
  by (auto simp: buffer_ok_def)

end
