(* ===== verification/TerminalSessionProofs.thy ===== *)
theory TerminalSessionProofs
  imports TerminalSessions
begin

text \<open>
  What the terminal services keep: an invariant of all reachable states, delivery of the buffered
  output in order, and the disposal of each session once.
\<close>

section \<open>Frames\<close>

lemma update_session_fields [simp]:
  "sv_sessions (update_session a f v) = sv_sessions v"
  "sv_next (update_session a f v) = sv_next v"
  "sv_open (update_session a f v) = sv_open v"
  "sv_effects (update_session a f v) = sv_effects v"
  "sv_store (update_session a f v) = (sv_store v)(a := f (sv_store v a))"
  by (simp_all add: update_session_def)

lemma effect_fields [simp]:
  "sv_sessions (effect es v) = sv_sessions v"
  "sv_next (effect es v) = sv_next v"
  "sv_open (effect es v) = sv_open v"
  "sv_store (effect es v) = sv_store v"
  "sv_effects (effect es v) = sv_effects v @ es"
  by (simp_all add: effect_def)

lemma close_socket_fields [simp]:
  "sv_sessions (close_socket k c r v) = sv_sessions v"
  "sv_next (close_socket k c r v) = sv_next v"
  "sv_store (close_socket k c r v) = sv_store v"
  "sv_open (close_socket k c r v) = (sv_open v)(k := False)"
  "sv_effects (close_socket k c r v) = sv_effects v @ [SocketClose k c r]"
  by (simp_all add: close_socket_def)

section \<open>The invariant\<close>

fun is_disposal :: "nat \<Rightarrow> service_effect \<Rightarrow> bool" where
  "is_disposal a (TransportDisposed b) = (a = b)"
| "is_disposal a _ = False"

definition disposals :: "nat \<Rightarrow> service \<Rightarrow> nat" where
  "disposals a v = length (filter (is_disposal a) (sv_effects v))"

definition session_ok :: "service \<Rightarrow> nat \<Rightarrow> bool" where
  "session_ok v a \<longleftrightarrow>
     (let s = sv_store v a in
        buffer_ok s \<and>
        (\<not> ts_disposed s \<longleftrightarrow> map_of (sv_sessions v) (ts_sessionId s) = Some a) \<and>
        (ts_disposed s \<longrightarrow> ts_socket s = None \<and> \<not> attachTimeout s \<and> \<not> telemetryInterval s \<and>
           \<not> historySyncTimeout s) \<and>
        disposals a v = (if ts_disposed s then 1 else 0))"

definition service_ok :: "service \<Rightarrow> bool" where
  "service_ok v \<longleftrightarrow>
     distinct (map fst (sv_sessions v)) \<and>
     (\<forall>i a. map_of (sv_sessions v) i = Some a \<longrightarrow> a < sv_next v \<and> ts_sessionId (sv_store v a) = i) \<and>
     (\<forall>a. a < sv_next v \<longrightarrow> session_ok v a) \<and> (\<forall>a. a \<ge> sv_next v \<longrightarrow> disposals a v = 0)"

text \<open>A change of one session that keeps its identity, and effects other than disposals.\<close>
lemma service_ok_update:
  assumes ok: "service_ok v" and "sv_sessions v' = sv_sessions v" and "sv_next v' = sv_next v"
    and "sv_store v' = (sv_store v)(a := s')" and eff: "sv_effects v' = sv_effects v @ es"
    and none: "\<And>b. filter (is_disposal b) es = []"
    and s': "buffer_ok (sv_store v a) \<Longrightarrow> buffer_ok s'" "ts_sessionId s' = ts_sessionId (sv_store v a)"
      "ts_disposed s' = ts_disposed (sv_store v a)"
      "ts_disposed s' \<Longrightarrow> ts_socket (sv_store v a) = None \<and> \<not> attachTimeout (sv_store v a) \<and>
         \<not> telemetryInterval (sv_store v a) \<and> \<not> historySyncTimeout (sv_store v a) \<Longrightarrow>
         ts_socket s' = None \<and> \<not> attachTimeout s' \<and> \<not> telemetryInterval s' \<and> \<not> historySyncTimeout s'"
  shows "service_ok v'"
proof -
  have d: "disposals b v' = disposals b v" for b using eff none by (simp add: disposals_def)
  have "session_ok v' b" if "b < sv_next v" for b
    using ok that assms(2,4) s' d by (cases "b = a") (auto simp: service_ok_def session_ok_def Let_def)
  then show ?thesis using ok assms(2,3,4) s'(2) d by (auto simp: service_ok_def)
qed

lemma service_ok_same:
  assumes "service_ok v" and "sv_sessions v' = sv_sessions v" and "sv_next v' = sv_next v"
    and "sv_store v' = sv_store v" and "sv_effects v' = sv_effects v @ es"
    and "\<And>b. filter (is_disposal b) es = []"
  shows "service_ok v'"
  by (rule service_ok_update [OF assms(1-3), of 0 "sv_store v 0" es]) (use assms in auto)

lemma buffer_fields:
  assumes "buffer_ok s" and "data \<noteq> []"
  shows "buffer_ok (bufferPendingOutput data s)"
    and "ts_sessionId (bufferPendingOutput data s) = ts_sessionId s"
    and "ts_disposed (bufferPendingOutput data s) = ts_disposed s"
    and "ts_socket (bufferPendingOutput data s) = ts_socket s"
  using buffer_spec [OF assms] by auto

definition sendable :: "server_message \<Rightarrow> bool" where
  "sendable m \<longleftrightarrow> m \<noteq> Output []"

lemma send_ok:
  assumes ok: "service_ok v" and a: "a < sv_next v" and m: "sendable m"
  shows "service_ok (sendServerMessage a m v)"
proof -
  let ?s = "sv_store v a"
  have b: "buffer_ok ?s" using ok a by (simp add: service_ok_def session_ok_def Let_def)
  consider "ts_disposed ?s" | "\<not> ts_disposed ?s" "attached_open v ?s"
    | d where "\<not> ts_disposed ?s" "\<not> attached_open v ?s" "m = Output d" "d \<noteq> []"
    | "\<not> ts_disposed ?s" "\<not> attached_open v ?s" "\<forall>d. m \<noteq> Output d"
    using m by (cases m) (auto simp: sendable_def)
  then show ?thesis
  proof cases
    case 2
    then show ?thesis
      by (intro service_ok_same [OF ok, of _ "[SocketSend (the (ts_socket ?s)) m]"])
        (simp_all add: sendServerMessage_def)
  next
    case (3 d)
    note f = buffer_fields [OF b 3(4)]
    show ?thesis
      by (rule service_ok_update [OF ok, of _ a "bufferPendingOutput d ?s" "[]"])
        (use 3 f in \<open>simp_all add: sendServerMessage_def\<close>)
  next
    case 4
    then have "sendServerMessage a m v = v" by (cases m) (simp_all add: sendServerMessage_def)
    with ok show ?thesis by simp
  qed (use ok in \<open>simp add: sendServerMessage_def\<close>)
qed

lemma send_fields [simp]:
  "sv_sessions (sendServerMessage a m v) = sv_sessions v"
  "sv_next (sendServerMessage a m v) = sv_next v"
  "sv_open (sendServerMessage a m v) = sv_open v"
  by (auto simp: sendServerMessage_def Let_def split: server_message.split)

lemma send_attached:
  "\<not> ts_disposed (sv_store v a) \<Longrightarrow> ts_socket (sv_store v a) = Some k \<Longrightarrow> sv_open v k \<Longrightarrow>
   sendServerMessage a m v = effect [SocketSend k m] v"
  by (simp add: sendServerMessage_def attached_open_def)

section \<open>Flushing\<close>

lemma update_same_address [simp]:
  "update_session a f (update_session a g v) = update_session a (f \<circ> g) v"
  by (simp add: update_session_def)

lemma update_effect: "update_session a f (effect es v) = effect es (update_session a f v)"
  by (simp add: update_session_def effect_def)

text \<open>To an open socket every buffered chunk is sent, in order, and the loop returns.\<close>
lemma flush_attached:
  assumes "\<not> ts_disposed (sv_store v a)" and "ts_socket (sv_store v a) = Some k" and "sv_open v k"
    and "pendingOutput (sv_store v a) = chunks" and "[] \<notin> set chunks"
    and "pendingOutputBytes (sv_store v a) = sum_list (map byte_length chunks)"
  shows "flush_loop a v = Some (effect (map (\<lambda>d. SocketSend k (Output d)) chunks)
           (update_session a (\<lambda>s. s\<lparr>pendingOutput := [], pendingOutputBytes := 0\<rparr>) v))"
  using assms
proof (induction chunks arbitrary: v)
  case Nil
  have "sv_store v a = (sv_store v a)\<lparr>pendingOutput := [], pendingOutputBytes := 0\<rparr>"
    using Nil(4,6) by simp
  then have "update_session a (\<lambda>s. s\<lparr>pendingOutput := [], pendingOutputBytes := 0\<rparr>) v = v"
    by (simp add: update_session_def)
  then show ?case using Nil by (simp add: flush_loop.simps effect_def)
next
  case (Cons d chunks)
  let ?v1 = "update_session a (\<lambda>s. s\<lparr>pendingOutput := chunks,
      pendingOutputBytes := pendingOutputBytes s - byte_length d\<rparr>) v"
  let ?v2 = "effect [SocketSend k (Output d)] ?v1"
  have "d \<noteq> []" using Cons.prems(5) by auto
  then have "flush_loop a v = flush_loop a ?v2"
    using Cons.prems by (subst flush_loop.simps) (simp add: send_attached)
  also have "flush_loop a ?v2 = Some (effect (map (\<lambda>d. SocketSend k (Output d)) chunks)
      (update_session a (\<lambda>s. s\<lparr>pendingOutput := [], pendingOutputBytes := 0\<rparr>) ?v2))"
    by (rule Cons.IH) (use Cons.prems in simp_all)
  also have "update_session a (\<lambda>s. s\<lparr>pendingOutput := [], pendingOutputBytes := 0\<rparr>) ?v2 =
      effect [SocketSend k (Output d)] (update_session a (\<lambda>s. s\<lparr>pendingOutput := [], pendingOutputBytes := 0\<rparr>) v)"
    by (simp add: update_effect comp_def)
  finally show ?case by (simp add: effect_def)
qed

text \<open>
  Without an open socket a flush of buffered output does not return: each round puts the chunk that
  it took back at the end.
\<close>
lemma flush_detached_diverges:
  assumes "\<not> ts_disposed (sv_store v a)" and "\<not> attached_open v (sv_store v a)"
    and "buffer_ok (sv_store v a)" and "pendingOutput (sv_store v a) \<noteq> []"
  shows "flush_loop a v = None"
proof -
  let ?stuck = "\<lambda>a v. \<not> ts_disposed (sv_store v a) \<and> \<not> attached_open v (sv_store v a) \<and>
    buffer_ok (sv_store v a) \<and> pendingOutput (sv_store v a) \<noteq> []"
  have "\<not> ?stuck a v" if "flush_loop a v = Some v'" for v'
  proof (rule flush_loop.raw_induct [where P = "\<lambda>a v y. \<not> ?stuck a v", OF _ that])
    fix loop a v y
    assume IH: "\<And>a v y. loop a v = Some y \<Longrightarrow> \<not> ?stuck a v"
      and body: "(case pendingOutput (sv_store v a) of [] \<Rightarrow> Some v
        | data # rest \<Rightarrow>
          if data = [] then loop a (update_session a (\<lambda>s. s\<lparr>pendingOutput := rest\<rparr>) v)
          else loop a (sendServerMessage a (Output data)
                 (update_session a (\<lambda>s. s\<lparr>pendingOutput := rest,
                    pendingOutputBytes := pendingOutputBytes s - byte_length data\<rparr>) v))) = Some y"
    show "\<not> ?stuck a v"
    proof
      assume st: "?stuck a v"
      then obtain d r where dr: "pendingOutput (sv_store v a) = d # r" by (cases "pendingOutput (sv_store v a)") auto
      have d: "d \<noteq> []" using st dr by (auto simp: buffer_ok_def)
      let ?s = "(sv_store v a)\<lparr>pendingOutput := r,
          pendingOutputBytes := pendingOutputBytes (sv_store v a) - byte_length d\<rparr>"
      let ?v1 = "update_session a (\<lambda>s. s\<lparr>pendingOutput := r,
          pendingOutputBytes := pendingOutputBytes s - byte_length d\<rparr>) v"
      have ok: "buffer_ok ?s" using st dr by (auto simp: buffer_ok_def)
      obtain n where n: "bufferPendingOutput d ?s = ?s\<lparr>pendingOutput := drop n (r @ [d]),
             pendingOutputBytes := sum_list (map byte_length (drop n (r @ [d]))),
             pendingOutputDropCount := pendingOutputDropCount ?s + n\<rparr>"
        "buffer_ok (bufferPendingOutput d ?s)"
        "\<forall>m<n. length (drop m (r @ [d])) > PENDING_OUTPUT_MAX_CHUNKS \<or>
          sum_list (map byte_length (drop m (r @ [d]))) > PENDING_OUTPUT_MAX_BYTES"
        using buffer_spec [OF ok d] by auto
      have "\<not> (length (r @ [d]) > PENDING_OUTPUT_MAX_CHUNKS \<or>
          sum_list (map byte_length (r @ [d])) > PENDING_OUTPUT_MAX_BYTES)"
        using st dr by (auto simp: buffer_ok_def)
      then have "n = 0" using n(3) by (metis drop0 gr0I)
      then have pend: "pendingOutput (bufferPendingOutput d ?s) = r @ [d]" using n(1) by simp
      have send: "sendServerMessage a (Output d) ?v1 = update_session a (bufferPendingOutput d) ?v1"
        using st by (cases "ts_socket (sv_store v a)") (simp_all add: sendServerMessage_def attached_open_def)
      have "loop a (update_session a (bufferPendingOutput d) ?v1) = Some y"
        using body dr d send by simp
      from IH [OF this] show False
        using st n(2) pend buffer_fields(3,4) [OF ok d]
        by (cases "ts_socket (sv_store v a)") (simp_all add: attached_open_def)
    qed
  qed
  then show ?thesis using assms by (cases "flush_loop a v") auto
qed

section \<open>Disposal\<close>

lemma dispose_none [simp]: "map_of (sv_sessions v) i = None \<Longrightarrow> disposeSession i r v = v"
  by (simp add: disposeSession_def)

text \<open>Disposing a live session, field by field.\<close>
lemma dispose_live:
  assumes ok: "service_ok v" and m: "map_of (sv_sessions v) i = Some a"
  shows "sv_sessions (disposeSession i r v) = map_delete i (sv_sessions v)"
    and "sv_next (disposeSession i r v) = sv_next v"
    and "sv_store (disposeSession i r v) = (sv_store v)(a := (sv_store v a)
           \<lparr>attachTimeout := False, telemetryInterval := False, historySyncTimeout := False,
            ts_disposed := True, ts_socket := None\<rparr>)"
    and "\<exists>es. sv_effects (disposeSession i r v) = sv_effects v @ es \<and>
           (\<forall>b. filter (is_disposal b) es = (if b = a then [TransportDisposed a] else []))"
    and "\<And>k. sv_open (disposeSession i r v) k \<longleftrightarrow> sv_open v k \<and> ts_socket (sv_store v a) \<noteq> Some k"
proof -
  have a: "a < sv_next v" "ts_sessionId (sv_store v a) = i" using ok m by (auto simp: service_ok_def)
  then have live: "\<not> ts_disposed (sv_store v a)"
    using ok m by (auto simp: service_ok_def session_ok_def Let_def)
  let ?v1 = "update_session a (\<lambda>s. s\<lparr>attachTimeout := False, telemetryInterval := False,
      historySyncTimeout := False\<rparr>) v"
  have send: "sendServerMessage a (Exit r) ?v1 =
      (if attached_open v (sv_store v a) then effect [SocketSend (the (ts_socket (sv_store v a))) (Exit r)] ?v1
       else ?v1)"
    using live by (cases "ts_socket (sv_store v a)") (simp_all add: sendServerMessage_def attached_open_def)
  note defs = disposeSession_def Let_def m send attached_open_def
  show "sv_sessions (disposeSession i r v) = map_delete i (sv_sessions v)"
    "sv_next (disposeSession i r v) = sv_next v"
    using live by (simp_all add: defs)
  show "sv_store (disposeSession i r v) = (sv_store v)(a := (sv_store v a)
           \<lparr>attachTimeout := False, telemetryInterval := False, historySyncTimeout := False,
            ts_disposed := True, ts_socket := None\<rparr>)"
    using live by (simp add: defs)
  show "\<exists>es. sv_effects (disposeSession i r v) = sv_effects v @ es \<and>
           (\<forall>b. filter (is_disposal b) es = (if b = a then [TransportDisposed a] else []))"
    using live by (cases "attached_open v (sv_store v a)") (auto simp: defs)
  show "sv_open (disposeSession i r v) k \<longleftrightarrow> sv_open v k \<and> ts_socket (sv_store v a) \<noteq> Some k" for k
    using live by (cases "ts_socket (sv_store v a)") (auto simp: defs)
qed

lemma dispose_ok:
  assumes ok: "service_ok v"
  shows "service_ok (disposeSession i r v)"
proof (cases "map_of (sv_sessions v) i")
  case (Some a)
  note d = dispose_live [OF ok Some, of r]
  have a: "a < sv_next v" "ts_sessionId (sv_store v a) = i" using ok Some by (auto simp: service_ok_def)
  obtain es where es: "sv_effects (disposeSession i r v) = sv_effects v @ es"
    "\<And>b. filter (is_disposal b) es = (if b = a then [TransportDisposed a] else [])"
    using d(4) by blast
  have cnt: "disposals b (disposeSession i r v) = disposals b v + (if b = a then 1 else 0)" for b
    using es by (simp add: disposals_def)
  have live: "disposals a v = 0"
    using ok a Some by (auto simp: service_ok_def session_ok_def Let_def)
  have "session_ok (disposeSession i r v) b" if b: "b < sv_next v" for b
  proof (cases "b = a")
    case True
    have "buffer_ok (sv_store v a)" using ok a(1) by (simp add: service_ok_def session_ok_def Let_def)
    then have "buffer_ok ((sv_store v a)\<lparr>attachTimeout := False, telemetryInterval := False,
        historySyncTimeout := False, ts_disposed := True, ts_socket := None\<rparr>)"
      by (simp add: buffer_ok_def)
    then show ?thesis
      unfolding True session_ok_def Let_def d(1) d(3) cnt live by (simp add: a(2))
  next
    case False
    have "ts_sessionId (sv_store v b) = i \<longrightarrow> map_of (sv_sessions v) i \<noteq> Some b" using False Some by simp
    moreover have "session_ok v b" using ok b by (simp add: service_ok_def)
    ultimately show ?thesis
      using False unfolding session_ok_def Let_def d(1) d(3) cnt by auto
  qed
  moreover have "distinct (map fst (sv_sessions (disposeSession i r v)))"
    using ok d(1) by (simp add: service_ok_def)
  moreover have "\<forall>j b. map_of (sv_sessions (disposeSession i r v)) j = Some b \<longrightarrow>
      b < sv_next v \<and> ts_sessionId (sv_store (disposeSession i r v) b) = j"
    using ok d(1,3) a by (auto simp: service_ok_def split: if_splits)
  ultimately show ?thesis
    using ok d(2) cnt a by (auto simp: service_ok_def)
qed (use ok in simp)

lemma close_ok: "service_ok v \<Longrightarrow> service_ok (snd (closeSession i v))"
  by (simp add: closeSession_def dispose_ok)

lemma close_each_spec:
  assumes "service_ok v" and "distinct ids" and "\<forall>i\<in>set ids. map_of (sv_sessions v) i \<noteq> None"
  shows "service_ok (snd (close_each ids n v)) \<and> fst (close_each ids n v) = n + length ids \<and>
     map_of (sv_sessions (snd (close_each ids n v))) = map_of (sv_sessions v) |` (- set ids)"
  using assms
proof (induction ids arbitrary: n v)
  case (Cons i ids)
  let ?v' = "disposeSession i (js ''ws.sessionClosedByApiRequest'') v"
  obtain a where a: "map_of (sv_sessions v) i = Some a" using Cons.prems(3) by auto
  have m: "map_of (sv_sessions ?v') = (map_of (sv_sessions v))(i := None)"
    by (simp add: dispose_live(1) [OF Cons.prems(1) a])
  have step: "close_each (i # ids) n v = close_each ids (Suc n) ?v'"
    using a by (simp add: closeSession_def)
  have "\<forall>j\<in>set ids. map_of (sv_sessions ?v') j \<noteq> None" using Cons.prems(2,3) m by auto
  from Cons.IH [OF dispose_ok [OF Cons.prems(1)] _ this, of "Suc n"] Cons.prems(2)
  show ?case unfolding step m by (auto simp: restrict_map_def fun_eq_iff)
qed (simp add: restrict_map_def)

lemma fold_dispose_spec:
  assumes "service_ok v"
  shows "service_ok (fold (\<lambda>i. disposeSession i r) ids v) \<and>
     map_of (sv_sessions (fold (\<lambda>i. disposeSession i r) ids v)) = map_of (sv_sessions v) |` (- set ids)"
  using assms
proof (induction ids arbitrary: v)
  case (Cons i ids)
  have "map_of (sv_sessions (disposeSession i r v)) = (map_of (sv_sessions v))(i := None)"
  proof (cases "map_of (sv_sessions v) i")
    case None
    then show ?thesis by (simp add: fun_upd_idem)
  next
    case (Some a)
    show ?thesis by (simp add: dispose_live(1) [OF Cons.prems Some])
  qed
  with Cons.IH [OF dispose_ok [OF Cons.prems]] show ?case
    by (auto simp: restrict_map_def fun_eq_iff)
qed (simp add: restrict_map_def)

lemma restrict_all: "map_of m |` (- set (map fst m)) = Map.empty"
  by (auto simp: restrict_map_def fun_eq_iff map_of_eq_None_iff)

section \<open>Attaching\<close>

lemma reset_ok:
  assumes "service_ok v"
  shows "service_ok (update_session a (\<lambda>s. s\<lparr>pendingOutputDropCount := 0\<rparr>) (effect [DroppedWarning b n] v))"
  by (rule service_ok_update [OF assms, of _ a "(sv_store v a)\<lparr>pendingOutputDropCount := 0\<rparr>" "[DroppedWarning b n]"])
    (simp_all add: buffer_ok_def)

lemma flush_ok:
  assumes ok: "service_ok v" and a: "a < sv_next v" and live: "\<not> ts_disposed (sv_store v a)"
    and k: "ts_socket (sv_store v a) = Some k" "sv_open v k"
  shows "\<exists>v'. flushPendingOutput a v = Some v' \<and> service_ok v' \<and>
     pendingOutput (sv_store v' a) = [] \<and> pendingOutputDropCount (sv_store v' a) = 0 \<and>
     sv_sessions v' = sv_sessions v \<and>
     (\<exists>es. sv_effects v' = sv_effects v @
        map (\<lambda>d. SocketSend k (Output d)) (pendingOutput (sv_store v a)) @ es \<and> set es \<subseteq> {DroppedWarning a (pendingOutputDropCount (sv_store v a))})"
proof -
  have b: "buffer_ok (sv_store v a)" using ok a by (simp add: service_ok_def session_ok_def Let_def)
  let ?chunks = "pendingOutput (sv_store v a)"
  let ?sent = "map (\<lambda>d. SocketSend k (Output d)) ?chunks"
  let ?v1 = "effect ?sent (update_session a (\<lambda>s. s\<lparr>pendingOutput := [], pendingOutputBytes := 0\<rparr>) v)"
  have loop: "flush_loop a v = Some ?v1"
    by (rule flush_attached [OF live k refl]) (use b in \<open>simp_all add: buffer_ok_def\<close>)
  let ?n = "pendingOutputDropCount (sv_store v a)"
  let ?v2 = "if ?n > 0 then update_session a (\<lambda>s. s\<lparr>pendingOutputDropCount := 0\<rparr>)
      (effect [DroppedWarning a ?n] ?v1) else ?v1"
  have fl: "flushPendingOutput a v = Some ?v2" by (simp add: flushPendingOutput_def loop)
  have "filter (is_disposal b) ?sent = []" for b by (simp add: filter_empty_conv)
  then have "service_ok ?v1"
    by (intro service_ok_update [OF ok, of _ a "(sv_store v a)\<lparr>pendingOutput := [], pendingOutputBytes := 0\<rparr>" ?sent])
      (simp_all add: buffer_ok_def live)
  then have "service_ok ?v2"
    using reset_ok by (cases "?n > 0") simp_all
  then show ?thesis
    unfolding fl by (intro exI [of _ ?v2] conjI refl) auto
qed

text \<open>A connection either is refused, changing no session, or is attached and served.\<close>
lemma connection_cases:
  assumes ok: "service_ok v" and fresh: "\<And>a. a < sv_next v \<Longrightarrow> ts_socket (sv_store v a) \<noteq> Some k"
  shows "(\<exists>reason. connection k path pre token v = Some (close_socket k 1008 reason (v\<lparr>sv_open := (sv_open v)(k := True)\<rparr>)))
    \<or> (\<exists>i a v'. resolveTerminalWebSocketSessionId path pre = Some i \<and> map_of (sv_sessions v) i = Some a \<and>
        token = ts_websocketToken (sv_store v a) \<and> connection k path pre token v = Some v' \<and> service_ok v' \<and>
        sv_sessions v' = sv_sessions v \<and> pendingOutput (sv_store v' a) = [] \<and>
        (\<exists>es fs. sv_effects v' = sv_effects v @ es @ SocketSend k Ready #
           map (\<lambda>d. SocketSend k (Output d)) (pendingOutput (sv_store v a)) @ fs \<and>
         (\<forall>e\<in>set es. \<exists>old. e = SocketClose old 1012 (js ''ws.sessionReconnectedFromNewClient'')) \<and>
         (\<forall>e\<in>set fs. \<exists>n. e = DroppedWarning a n)))"
proof -
  let ?v = "v\<lparr>sv_open := (sv_open v)(k := True)\<rparr>"
  show ?thesis
  proof (cases "\<exists>i a. resolveTerminalWebSocketSessionId path pre = Some i \<and> map_of (sv_sessions v) i = Some a \<and>
      \<not> ts_disposed (sv_store v a) \<and> token = ts_websocketToken (sv_store v a)")
    case False
    then show ?thesis
      by (intro disjI1) (auto simp: connection_def Let_def split: option.splits)
  next
    case True
    then obtain i a where ia: "resolveTerminalWebSocketSessionId path pre = Some i"
      "map_of (sv_sessions v) i = Some a" "\<not> ts_disposed (sv_store v a)"
      "token = ts_websocketToken (sv_store v a)" by blast
    have a: "a < sv_next v" using ok ia(2) by (auto simp: service_ok_def)
    let ?s = "sv_store v a"
    let ?v1 = "if attached_open ?v ?s then close_socket (the (ts_socket ?s)) 1012
        (js ''ws.sessionReconnectedFromNewClient'') ?v else ?v"
    let ?closes = "if attached_open ?v ?s then [SocketClose (the (ts_socket ?s)) 1012
        (js ''ws.sessionReconnectedFromNewClient'')] else []"
    let ?s2 = "?s\<lparr>ts_socket := Some k, attachTimeout := False\<rparr>"
    let ?v2 = "update_session a (\<lambda>s. s\<lparr>ts_socket := Some k, attachTimeout := False\<rparr>) ?v1"
    let ?v3 = "effect [SocketSend k Ready] ?v2"
    have "filter (is_disposal b) ?closes = []" for b by simp
    then have ok2: "service_ok ?v2"
      by (intro service_ok_update [OF ok, of _ a ?s2 ?closes]) (use ia(3) in \<open>simp_all add: buffer_ok_def\<close>)
    have eff2: "sv_effects ?v2 = sv_effects v @ ?closes" by simp
    have store2: "sv_store ?v2 a = ?s2" by simp
    have "the (ts_socket ?s) \<noteq> k" if "attached_open ?v ?s"
      using that fresh [OF a] by (cases "ts_socket ?s") (auto simp: attached_open_def)
    then have open2: "sv_open ?v2 k" by auto
    have ready: "sendServerMessage a Ready ?v2 = ?v3"
      using ia(3) open2 by (intro send_attached) simp_all
    have ok3: "service_ok ?v3" by (rule service_ok_same [OF ok2, of _ "[SocketSend k Ready]"]) simp_all
    have p: "a < sv_next ?v3" "\<not> ts_disposed (sv_store ?v3 a)" "ts_socket (sv_store ?v3 a) = Some k"
      "sv_open ?v3 k" using a ia(3) open2 by simp_all
    obtain v' where v': "flushPendingOutput a ?v3 = Some v'" "service_ok v'" "pendingOutput (sv_store v' a) = []"
      "sv_sessions v' = sv_sessions ?v3" and e: "\<exists>es. sv_effects v' = sv_effects ?v3 @
        map (\<lambda>d. SocketSend k (Output d)) (pendingOutput (sv_store ?v3 a)) @ es \<and>
        set es \<subseteq> {DroppedWarning a (pendingOutputDropCount (sv_store ?v3 a))}"
      using flush_ok [OF ok3 p] by blast
    have con: "connection k path pre token v = Some v'"
      using ia v'(1) ready
      by (cases "attached_open ?v ?s") (simp_all add: connection_def Let_def onSessionAttached_def)
    from e obtain fs where fs: "sv_effects v' = sv_effects ?v3 @
        map (\<lambda>d. SocketSend k (Output d)) (pendingOutput (sv_store ?v3 a)) @ fs"
      "set fs \<subseteq> {DroppedWarning a (pendingOutputDropCount (sv_store ?v3 a))}" by blast
    have "pendingOutput (sv_store ?v3 a) = pendingOutput ?s" by simp
    with fs(1) have "sv_effects v' = sv_effects v @ ?closes @ SocketSend k Ready #
        map (\<lambda>d. SocketSend k (Output d)) (pendingOutput ?s) @ fs"
      unfolding effect_fields eff2 by simp
    moreover have "\<forall>e\<in>set fs. \<exists>n. e = DroppedWarning a n" using fs(2) by blast
    moreover have "\<forall>e\<in>set ?closes. \<exists>old. e = SocketClose old 1012 (js ''ws.sessionReconnectedFromNewClient'')"
      by simp
    moreover have "sv_sessions v' = sv_sessions v" using v'(4) by simp
    ultimately show ?thesis using ia(1,2,4) con v'(2,3) by blast
  qed
qed


section \<open>All reachable states\<close>

definition new_service :: service where
  "new_service = \<lparr>sv_store = (\<lambda>_. undefined), sv_next = 0, sv_sessions = [], sv_open = (\<lambda>_. False),
     sv_effects = []\<rparr>"

text \<open>
  The events: a new session under a fresh random id; output and other messages of the terminal (the
  output of a process is never the empty string); a connection on a fresh socket; the end of a
  socket; a timeout, an exit of the process or a request of the client, which dispose a session
  with some reason; and the operations of the API.
\<close>

inductive service_step :: "service \<Rightarrow> service \<Rightarrow> bool" where
  svc_register: "map_of (sv_sessions v) sid = None \<Longrightarrow> service_step v (registerSession sid token v)"
| svc_send: "a < sv_next v \<Longrightarrow> sendable m \<Longrightarrow> service_step v (sendServerMessage a m v)"
| svc_connect: "(\<And>a. a < sv_next v \<Longrightarrow> ts_socket (sv_store v a) \<noteq> Some k) \<Longrightarrow> connection k path pre token v = Some v' \<Longrightarrow>
     service_step v v'"
| svc_gone: "a < sv_next v \<Longrightarrow> service_step v (socket_gone k a reason v)"
| svc_dispose: "service_step v (disposeSession sid reason v)"
| svc_close: "service_step v (snd (closeSession sid v))"
| svc_close_all: "service_step v (snd (closeAllSessions v))"
| svc_stop: "service_step v (stop_sessions v)"

inductive service_reachable :: "service \<Rightarrow> bool" where
  svc_new: "service_reachable new_service"
| svc_next: "service_reachable v \<Longrightarrow> service_step v v' \<Longrightarrow> service_reachable v'"

lemma open_ok: "service_ok (v\<lparr>sv_open := f\<rparr>) = service_ok v"
  by (simp add: service_ok_def session_ok_def disposals_def)

lemma register_ok:
  assumes ok: "service_ok v" and new: "map_of (sv_sessions v) sid = None"
  shows "service_ok (registerSession sid token v)"
proof -
  let ?n = "sv_next v"
  have sess: "sv_sessions (registerSession sid token v) = sv_sessions v @ [(sid, ?n)]"
    by (simp add: registerSession_def map_set_new [OF new])
  have d: "disposals b (registerSession sid token v) = disposals b v" for b
    by (simp add: disposals_def registerSession_def)
  have m: "map_of (sv_sessions (registerSession sid token v)) = (map_of (sv_sessions v))(sid \<mapsto> ?n)"
    by (simp add: registerSession_def)
  have "session_ok (registerSession sid token v) b" if b: "b < Suc ?n" for b
  proof (cases "b = ?n")
    case True
    then show ?thesis
      using ok m d unfolding session_ok_def Let_def
      by (simp add: registerSession_def buffer_ok_def service_ok_def)
  next
    case False
    then have "session_ok v b" using ok b by (simp add: service_ok_def)
    then show ?thesis
      using False m d new unfolding session_ok_def Let_def by (auto simp: registerSession_def)
  qed
  moreover have "distinct (map fst (sv_sessions (registerSession sid token v)))"
    using ok new unfolding sess by (auto simp: service_ok_def map_of_eq_None_iff)
  moreover have "\<forall>i a. map_of (sv_sessions (registerSession sid token v)) i = Some a \<longrightarrow>
      a < Suc ?n \<and> ts_sessionId (sv_store (registerSession sid token v) a) = i"
  proof (intro allI impI)
    fix i a
    assume "map_of (sv_sessions (registerSession sid token v)) i = Some a"
    then consider "i = sid" "a = ?n" | "i \<noteq> sid" "map_of (sv_sessions v) i = Some a"
      unfolding m by (auto split: if_splits)
    then show "a < Suc ?n \<and> ts_sessionId (sv_store (registerSession sid token v) a) = i"
    proof cases
      case 2
      then have "a < ?n" "ts_sessionId (sv_store v a) = i" using ok by (auto simp: service_ok_def)
      then show ?thesis by (simp add: registerSession_def)
    qed (simp add: registerSession_def)
  qed
  ultimately show ?thesis
    using ok d by (simp add: service_ok_def registerSession_def)
qed

lemma close_socket_ok: "service_ok v \<Longrightarrow> service_ok (close_socket k c r v)"
  by (rule service_ok_same [of v _ "[SocketClose k c r]"]) simp_all

lemma service_step_ok: "service_step v v' \<Longrightarrow> service_ok v \<Longrightarrow> service_ok v'"
proof (induction rule: service_step.induct)
  case (svc_connect v k path pre token v')
  from connection_cases [OF svc_connect(3,1), of path pre token] svc_connect(2) show ?case
    using close_socket_ok open_ok [where v = v and f = "(sv_open v)(k := True)"] svc_connect(3) by fastforce
next
  case (svc_gone a v k reason)
  then show ?case by (simp add: socket_gone_def Let_def dispose_ok open_ok)
next
  case (svc_close_all v)
  have "service_ok v \<longrightarrow> service_ok (snd (closeAllSessions v))"
    unfolding closeAllSessions_def
    by (intro impI close_each_spec [THEN conjunct1])
      (auto simp: service_ok_def map_of_eq_None_iff)
  with svc_close_all show ?case by blast
next
  case (svc_stop v)
  then show ?case unfolding stop_sessions_def by (rule fold_dispose_spec [THEN conjunct1])
qed (simp_all add: register_ok send_ok dispose_ok close_ok)

lemma service_reachable_ok: "service_reachable v \<Longrightarrow> service_ok v"
proof (induction rule: service_reachable.induct)
  case svc_new
  show ?case by (simp add: service_ok_def new_service_def disposals_def)
qed (rule service_step_ok)

end
