(* ===== verification/TerminalInput.thy ===== *)
theory TerminalInput
  imports JsonText
begin

text \<open>
  What local and SSH terminals share about their input (packages/backend/src/terminal/shared.ts):
  the messages a client may send, the size of the terminal, the history of commands, and the line
  that the user is typing.
\<close>

section \<open>Client messages\<close>

record completion_request =
  cr_requestId :: jstring
  cr_linePrefix :: jstring
  cr_cursorIndex :: jsnum
  cr_workingDirectoryHint :: "jstring option"
  cr_limit :: "jsnum option"
  cr_fuzzyMatch :: "bool option"
  cr_includeHistory :: "bool option"
  cr_includeBuiltInCommands :: "bool option"
  cr_includePathSuggestions :: "bool option"
  cr_includePasswordSuggestions :: "bool option"
  cr_trigger :: jstring

datatype client_message =
    TextInput jstring
  | BinaryInput jstring
  | Resize jsnum jsnum
  | CloseRequest
  | Ping
  | HistoryDelete jstring
  | CompletionRequest completion_request

text \<open>A field that must be absent or of one type: \<open>None\<close> when it has another type.\<close>

fun optional_string :: "json \<Rightarrow> jstring option option" where
  "optional_string JUndefined = Some None"
| "optional_string (JStr s) = Some (Some s)"
| "optional_string _ = None"

fun optional_number :: "json \<Rightarrow> jsnum option option" where
  "optional_number JUndefined = Some None"
| "optional_number (JNum n) = Some (Some n)"
| "optional_number _ = None"

fun optional_boolean :: "json \<Rightarrow> bool option option" where
  "optional_boolean JUndefined = Some None"
| "optional_boolean (JBool b) = Some (Some b)"
| "optional_boolean _ = None"

definition completion_request_of :: "json \<Rightarrow> client_message option" where
  "completion_request_of parsed =
     (case (get_field parsed (js ''requestId''), get_field parsed (js ''linePrefix''),
            get_field parsed (js ''cursorIndex''), get_field parsed (js ''trigger'')) of
        (JStr requestId, JStr linePrefix, JNum cursorIndex, JStr trigger) \<Rightarrow>
          if trigger \<noteq> js ''typing'' \<and> trigger \<noteq> js ''manual'' then None
          else (case (optional_string (get_field parsed (js ''workingDirectoryHint'')),
                      optional_number (get_field parsed (js ''limit'')),
                      optional_boolean (get_field parsed (js ''fuzzyMatch'')),
                      optional_boolean (get_field parsed (js ''includeHistory'')),
                      optional_boolean (get_field parsed (js ''includeBuiltInCommands'')),
                      optional_boolean (get_field parsed (js ''includePathSuggestions'')),
                      optional_boolean (get_field parsed (js ''includePasswordSuggestions''))) of
                  (Some hint, Some maxItems, Some fuzzy, Some history, Some builtIn, Some paths, Some passwords) \<Rightarrow>
                    Some (CompletionRequest
                      \<lparr>cr_requestId = requestId, cr_linePrefix = linePrefix, cr_cursorIndex = cursorIndex,
                       cr_workingDirectoryHint = hint, cr_limit = maxItems, cr_fuzzyMatch = fuzzy,
                       cr_includeHistory = history, cr_includeBuiltInCommands = builtIn,
                       cr_includePathSuggestions = paths, cr_includePasswordSuggestions = passwords,
                       cr_trigger = trigger\<rparr>)
                | _ \<Rightarrow> None)
      | _ \<Rightarrow> None)"

fun is_string :: "json \<Rightarrow> bool" where
  "is_string (JStr s) = True"
| "is_string _ = False"

fun is_number :: "json \<Rightarrow> bool" where
  "is_number (JNum n) = True"
| "is_number _ = False"

fun string_value :: "json \<Rightarrow> jstring" where
  "string_value (JStr s) = s"
| "string_value _ = []"

fun number_value :: "json \<Rightarrow> jsnum" where
  "number_value (JNum n) = n"
| "number_value _ = NaN"

definition message_of :: "json \<Rightarrow> client_message option" where
  "message_of parsed =
     (let type = get_field parsed (js ''type''); data = get_field parsed (js ''data'');
          encoding = get_field parsed (js ''encoding''); cols = get_field parsed (js ''cols'');
          rows = get_field parsed (js ''rows''); command = get_field parsed (js ''command'')
      in if type = JStr (js ''input'') \<and> is_string data then
           (if encoding = JUndefined then Some (TextInput (string_value data))
            else if encoding \<noteq> JStr (js ''binary'') then None
            else if list_ex (\<lambda>c. c > 0xff) (string_value data) then None
            else Some (BinaryInput (string_value data)))
         else if type = JStr (js ''resize'') \<and> is_number cols \<and> is_number rows
         then Some (Resize (number_value cols) (number_value rows))
         else if type = JStr (js ''close'') then Some CloseRequest
         else if type = JStr (js ''ping'') then Some Ping
         else if type = JStr (js ''history-delete'') \<and> is_string command
         then Some (HistoryDelete (string_value command))
         else if type = JStr (js ''completion-request'') then completion_request_of parsed
         else None)"

text \<open>The text of a frame; what is not JSON, and \<open>null\<close>, whose properties cannot be read, is refused.\<close>

definition normalizeTerminalClientMessage :: "jstring \<Rightarrow> client_message option" where
  "normalizeTerminalClientMessage payload =
     (case json_parse payload of
        None \<Rightarrow> None
      | Some parsed \<Rightarrow> if parsed = JNull then None else message_of parsed)"

section \<open>Sizes and delays\<close>

definition clampTerminalSize :: "jsnum \<Rightarrow> rat \<Rightarrow> rat \<Rightarrow> rat \<Rightarrow> rat" where
  "clampTerminalSize v fallback lo hi =
     (case v of
        Num q \<Rightarrow> min hi (max lo (of_int \<lfloor>q + 1 / 2\<rfloor>))
      | _ \<Rightarrow> fallback)"

definition HISTORY_REFRESH_DEBOUNCE_MS :: rat where "HISTORY_REFRESH_DEBOUNCE_MS = 120"
definition HISTORY_REFRESH_THROTTLE_MS :: rat where "HISTORY_REFRESH_THROTTLE_MS = 450"
definition HISTORY_MAX_ENTRIES :: nat where "HISTORY_MAX_ENTRIES = 200"

definition computeHistorySyncDelayMs :: "rat \<Rightarrow> rat \<Rightarrow> bool \<Rightarrow> rat" where
  "computeHistorySyncDelayMs lastStarted now immediate =
     (let throttleRemaining = max 0 (HISTORY_REFRESH_THROTTLE_MS - (now - lastStarted));
          baseDelay = (if immediate then 0 else HISTORY_REFRESH_DEBOUNCE_MS)
      in max baseDelay throttleRemaining)"

section \<open>Shell history\<close>

text \<open>\<open>output.split(/\r?\n/)\<close>.\<close>

fun split_lines :: "jstring \<Rightarrow> jstring \<Rightarrow> jstring list" where
  "split_lines cur [] = [cur]"
| "split_lines cur (c # s) =
     (if c = 10 then cur # split_lines [] s
      else if c = 13 \<and> s \<noteq> [] \<and> hd s = 10 then cur # split_lines [] (tl s)
      else split_lines (cur @ [c]) s)"

definition line_terminator :: "nat \<Rightarrow> bool" where
  "line_terminator c \<longleftrightarrow> c = 10 \<or> c = 13 \<or> c = 0x2028 \<or> c = 0x2029"

definition ascii_digit :: "nat \<Rightarrow> bool" where
  "ascii_digit c \<longleftrightarrow> 48 \<le> c \<and> c \<le> 57"

text \<open>\<open>/^#[0-9]{9,}$/\<close>.\<close>

definition timestamp_line :: "jstring \<Rightarrow> bool" where
  "timestamp_line s \<longleftrightarrow> s \<noteq> [] \<and> hd s = 35 \<and> list_all ascii_digit (tl s) \<and> 9 \<le> length (tl s)"

text \<open>\<open>/^:\s*\d+:\d+;(.*)$/\<close>: the captured command.\<close>

definition zsh_extended :: "jstring \<Rightarrow> jstring option" where
  "zsh_extended s =
     (if s = [] \<or> hd s \<noteq> 58 then None
      else
        let a = dropWhile is_space (tl s); b = dropWhile ascii_digit a
        in if a = b \<or> b = [] \<or> hd b \<noteq> 58 then None
           else
             let c = tl b; d = dropWhile ascii_digit c
             in if c = d \<or> d = [] \<or> hd d \<noteq> 59 \<or> list_ex line_terminator (tl d) then None
                else Some (tl d))"

text \<open>\<open>/^\s*\d+\*?\s+(.*)$/\<close>.\<close>

definition numbered_history :: "jstring \<Rightarrow> jstring option" where
  "numbered_history s =
     (let a = dropWhile is_space s; b = dropWhile ascii_digit a;
          c = (if b \<noteq> [] \<and> hd b = 42 then tl b else b); d = dropWhile is_space c
      in if a = b \<or> c = d \<or> list_ex line_terminator d then None else Some d)"

definition ascii_lower :: "nat \<Rightarrow> nat" where
  "ascii_lower c = (if 65 \<le> c \<and> c \<le> 90 then c + 32 else c)"

text \<open>\<open>/^(when|paths?|exit|cwd):\s*/i\<close>.\<close>

definition metadata_line :: "jstring \<Rightarrow> bool" where
  "metadata_line s = list_ex (\<lambda>p. starts_with (map ascii_lower s) (js p))
     [''when:'', ''path:'', ''paths:'', ''exit:'', ''cwd:'']"

text \<open>\<open>s.replace(/\\n/g, '\n')\<close>: a backslash and an n become a line feed.\<close>

fun unescape_newlines :: "jstring \<Rightarrow> jstring" where
  "unescape_newlines [] = []"
| "unescape_newlines [c] = [c]"
| "unescape_newlines (c # d # s) =
     (if c = 92 \<and> d = 110 then 10 # unescape_newlines s else c # unescape_newlines (d # s))"

definition nonempty :: "jstring \<Rightarrow> jstring option" where
  "nonempty s = (if length s > 0 then Some s else None)"

definition parseTerminalHistoryLine :: "jstring \<Rightarrow> jstring option" where
  "parseTerminalHistoryLine line =
     (let trimmed = trim line
      in if trimmed = [] then None
         else if timestamp_line trimmed then None
         else if starts_with trimmed (js ''- cmd: '') then nonempty (trim (unescape_newlines (drop 7 trimmed)))
         else case zsh_extended trimmed of
                Some command \<Rightarrow> nonempty (trim command)
              | None \<Rightarrow>
                  (case numbered_history trimmed of
                     Some command \<Rightarrow> nonempty (trim command)
                   | None \<Rightarrow> if metadata_line trimmed then None else Some trimmed))"

definition parsed_commands :: "jstring \<Rightarrow> jstring list" where
  "parsed_commands output = concat (map (\<lambda>line. case parseTerminalHistoryLine line of
     None \<Rightarrow> [] | Some command \<Rightarrow> [command]) (split_lines [] output))"

text \<open>The loop from the newest command back; \<open>seen\<close> is the set of \<open>deduplicated\<close>.\<close>

fun collect_newest :: "nat \<Rightarrow> jstring list \<Rightarrow> jstring list \<Rightarrow> jstring list" where
  "collect_newest maxEntries deduplicated [] = deduplicated"
| "collect_newest maxEntries deduplicated (command # commands) =
     (if command \<in> set deduplicated then collect_newest maxEntries deduplicated commands
      else if length (deduplicated @ [command]) \<ge> maxEntries then deduplicated @ [command]
      else collect_newest maxEntries (deduplicated @ [command]) commands)"

definition parseTerminalHistoryOutput :: "nat \<Rightarrow> jstring \<Rightarrow> jstring list" where
  "parseTerminalHistoryOutput maxEntries output =
     rev (collect_newest maxEntries [] (rev (parsed_commands output)))"

fun append_commands :: "nat \<Rightarrow> jstring list \<Rightarrow> jstring list \<Rightarrow> jstring list" where
  "append_commands maxEntries merged [] = merged"
| "append_commands maxEntries merged (command # commands) =
     (let normalized = trim command
      in if normalized = [] \<or> normalized \<in> set merged then append_commands maxEntries merged commands
         else if length (merged @ [normalized]) \<ge> maxEntries then merged @ [normalized]
         else append_commands maxEntries (merged @ [normalized]) commands)"

definition mergeTerminalRecentCommands :: "nat \<Rightarrow> jstring list \<Rightarrow> jstring list \<Rightarrow> jstring list" where
  "mergeTerminalRecentCommands maxEntries prioritized fallback =
     (let merged = append_commands maxEntries [] prioritized
      in if length merged < maxEntries then append_commands maxEntries merged fallback else merged)"

section \<open>The line being typed\<close>

record interactive_state =
  lineBuffer :: jstring
  recentCommands :: "jstring list"

text \<open>The second component collects the commands reported to \<open>onCommandSubmitted\<close>.\<close>

definition commitCurrentBuffer ::
    "nat \<Rightarrow> interactive_state \<times> jstring list \<Rightarrow> interactive_state \<times> jstring list" where
  "commitCurrentBuffer maxEntries st =
     (let normalizedCommand = trim (lineBuffer (fst st))
      in if normalizedCommand = [] then ((fst st)\<lparr>lineBuffer := []\<rparr>, snd st)
         else (\<lparr>lineBuffer = [],
                recentCommands = take maxEntries
                  (normalizedCommand # filter (\<lambda>e. e \<noteq> normalizedCommand) (recentCommands (fst st)))\<rparr>,
               snd st @ [normalizedCommand]))"

fun type_chars :: "nat \<Rightarrow> jstring \<Rightarrow> interactive_state \<times> jstring list \<Rightarrow> interactive_state \<times> jstring list" where
  "type_chars maxEntries [] st = st"
| "type_chars maxEntries (c # cs) st =
     (if c = 0x1b then st
      else if c = 13 \<or> c = 10 then type_chars maxEntries cs (commitCurrentBuffer maxEntries st)
      else if c = 3 then type_chars maxEntries cs ((fst st)\<lparr>lineBuffer := []\<rparr>, snd st)
      else if c = 0x7f \<or> c = 8
      then type_chars maxEntries cs ((fst st)\<lparr>lineBuffer := butlast (lineBuffer (fst st))\<rparr>, snd st)
      else if c = 9 \<or> c = 0 then type_chars maxEntries cs st
      else if c \<ge> 32 then type_chars maxEntries cs ((fst st)\<lparr>lineBuffer := lineBuffer (fst st) @ [c]\<rparr>, snd st)
      else type_chars maxEntries cs st)"

definition updateInteractiveCompletionState ::
    "nat option \<Rightarrow> interactive_state \<Rightarrow> jstring \<Rightarrow> interactive_state \<times> jstring list" where
  "updateInteractiveCompletionState maxEntriesOption state inputData =
     (let maxEntries = max 1 (case maxEntriesOption of None \<Rightarrow> HISTORY_MAX_ENTRIES | Some n \<Rightarrow> n)
      in type_chars maxEntries inputData (state, []))"

section \<open>Histories\<close>

text \<open>The newest distinct commands: a command keeps the place of its last occurrence.\<close>
lemma collect_newest_spec:
  "distinct d \<Longrightarrow> length d < n \<Longrightarrow>
   collect_newest n d cs = take n (d @ filter (\<lambda>c. c \<notin> set d) (unique cs))"
proof (induction n d cs rule: collect_newest.induct)
  case (2 n d c cs)
  show ?case
  proof (cases "c \<in> set d")
    case True
    then have "filter (\<lambda>x. x \<noteq> c \<and> x \<notin> set d) (unique cs) = filter (\<lambda>x. x \<notin> set d) (unique cs)"
      by (intro filter_cong) auto
    with True 2 show ?thesis by simp
  next
    case False
    have "filter (\<lambda>x. x \<notin> set d \<and> x \<noteq> c) (unique cs) = filter (\<lambda>x. x \<noteq> c \<and> x \<notin> set d) (unique cs)"
      by (intro filter_cong) auto
    with False 2 show ?thesis by (cases "n = Suc (length d)") simp_all
  qed
qed simp

lemma history_output_spec:
  assumes "0 < n"
  shows "parseTerminalHistoryOutput n output = slice_last n (remdups (parsed_commands output))"
proof -
  let ?cs = "parsed_commands output"
  have "collect_newest n [] (rev ?cs) = take n (rev (remdups ?cs))"
    using collect_newest_spec [of "[]" n "rev ?cs"] assms by (simp add: unique_def)
  then show ?thesis
    by (simp add: parseTerminalHistoryOutput_def slice_last_def rev_take)
qed

lemma append_commands_spec:
  "distinct m \<Longrightarrow> length m < n \<Longrightarrow>
   append_commands n m cs = take n (m @ filter (\<lambda>c. c \<notin> set m) (unique (filter (\<lambda>c. c \<noteq> []) (map trim cs))))"
proof (induction n m cs rule: append_commands.induct)
  case (2 n m c cs)
  let ?u = "unique (filter (\<lambda>c. c \<noteq> []) (map trim cs))"
  show ?case
  proof (cases "trim c = []")
    case True
    with 2 show ?thesis by (simp add: Let_def)
  next
    case ne: False
    show ?thesis
    proof (cases "trim c \<in> set m")
      case True
      then have "filter (\<lambda>x. x \<noteq> trim c \<and> x \<notin> set m) ?u = filter (\<lambda>x. x \<notin> set m) ?u"
        by (intro filter_cong) auto
      with True ne 2 show ?thesis by (simp add: Let_def)
    next
      case False
      have "filter (\<lambda>x. x \<notin> set m \<and> x \<noteq> trim c) ?u = filter (\<lambda>x. x \<noteq> trim c \<and> x \<notin> set m) ?u"
        by (intro filter_cong) auto
      with False ne 2 show ?thesis by (cases "n = Suc (length m)") (simp_all add: Let_def)
    qed
  qed
qed simp

lemma merge_spec:
  assumes "0 < n"
  shows "mergeTerminalRecentCommands n prioritized fallback =
     take n (unique (filter (\<lambda>c. c \<noteq> []) (map trim (prioritized @ fallback))))"
proof -
  let ?p = "unique (filter (\<lambda>c. c \<noteq> []) (map trim prioritized))"
  let ?f = "unique (filter (\<lambda>c. c \<noteq> []) (map trim fallback))"
  have p: "append_commands n [] prioritized = take n ?p"
    using append_commands_spec [of "[]" n prioritized] assms by simp
  have all: "unique (filter (\<lambda>c. c \<noteq> []) (map trim (prioritized @ fallback))) =
      ?p @ filter (\<lambda>c. c \<notin> set ?p) ?f"
    by (simp add: unique_append)
  show ?thesis
  proof (cases "length ?p < n")
    case True
    then show ?thesis
      using append_commands_spec [of ?p n fallback]
      unfolding mergeTerminalRecentCommands_def all p by (simp add: Let_def)
  next
    case False
    then show ?thesis unfolding mergeTerminalRecentCommands_def all p by (simp add: Let_def)
  qed
qed

section \<open>Typing\<close>

definition recent_ok :: "nat \<Rightarrow> interactive_state \<Rightarrow> bool" where
  "recent_ok n s \<longleftrightarrow> distinct (recentCommands s) \<and> length (recentCommands s) \<le> n \<and>
     (\<forall>c\<in>set (recentCommands s). c \<noteq> [] \<and> trim c = c)"

lemma commit_ok: "recent_ok n (fst st) \<Longrightarrow> recent_ok n (fst (commitCurrentBuffer n st))"
  by (auto simp: commitCurrentBuffer_def Let_def recent_ok_def intro!: distinct_take dest!: in_set_takeD)

lemma recent_ok_buffer [simp]: "recent_ok n (s\<lparr>lineBuffer := b\<rparr>) = recent_ok n s"
  by (simp add: recent_ok_def)

lemma type_chars_ok: "recent_ok n (fst st) \<Longrightarrow> recent_ok n (fst (type_chars n cs st))"
  by (induction n cs st rule: type_chars.induct) (simp_all add: commit_ok)

text \<open>A typed line followed by a return is submitted, trimmed, and becomes the newest command.\<close>
lemma type_plain:
  assumes "list_all (\<lambda>c. 32 \<le> c \<and> c \<noteq> 0x7f) line"
  shows "type_chars n (line @ cs) st =
     type_chars n cs ((fst st)\<lparr>lineBuffer := lineBuffer (fst st) @ line\<rparr>, snd st)"
  using assms
proof (induction line arbitrary: st)
  case (Cons c line)
  then show ?case by auto
qed simp

lemma submit_line:
  assumes "list_all (\<lambda>c. 32 \<le> c \<and> c \<noteq> 0x7f) line" and "trim (lineBuffer state @ line) \<noteq> []"
  shows "updateInteractiveCompletionState opt state (line @ [13]) =
     (\<lparr>lineBuffer = [], recentCommands = take (max 1 (case opt of None \<Rightarrow> HISTORY_MAX_ENTRIES | Some n \<Rightarrow> n))
         (trim (lineBuffer state @ line) #
          filter (\<lambda>e. e \<noteq> trim (lineBuffer state @ line)) (recentCommands state))\<rparr>,
      [trim (lineBuffer state @ line)])"
  using assms by (simp add: updateInteractiveCompletionState_def type_plain commitCurrentBuffer_def Let_def)

section \<open>Messages\<close>

definition message_ok :: "client_message \<Rightarrow> bool" where
  "message_ok m = (case m of
     BinaryInput s \<Rightarrow> list_all (\<lambda>c. c \<le> 0xff) s
   | CompletionRequest r \<Rightarrow> cr_trigger r = js ''typing'' \<or> cr_trigger r = js ''manual''
   | _ \<Rightarrow> True)"

lemma completion_request_of_ok: "completion_request_of v = Some m \<Longrightarrow> message_ok m"
  by (auto simp: completion_request_of_def message_ok_def split: json.splits if_splits option.splits)

lemma message_of_ok: "message_of v = Some m \<Longrightarrow> message_ok m"
  using completion_request_of_ok [of v m]
  by (auto simp: message_of_def Let_def message_ok_def list_ex_iff list_all_iff not_less split: if_splits)

lemma clamp_range: "lo \<le> hi \<Longrightarrow> lo \<le> fallback \<Longrightarrow> fallback \<le> hi \<Longrightarrow>
   lo \<le> clampTerminalSize v fallback lo hi \<and> clampTerminalSize v fallback lo hi \<le> hi"
  by (cases v) (auto simp: clampTerminalSize_def)

lemma history_delay:
  "HISTORY_REFRESH_THROTTLE_MS \<le> (now + computeHistorySyncDelayMs started now i) - started \<and>
   0 \<le> computeHistorySyncDelayMs started now i"
  by (auto simp: computeHistorySyncDelayMs_def HISTORY_REFRESH_DEBOUNCE_MS_def Let_def)

end
