(* ===== verification/TerminalTheorems.thy ===== *)
theory TerminalTheorems
  imports RemoteShellProofs TerminalSessionProofs TerminalInput
begin

text \<open>
  What the terminal services of the backend guarantee: the stream parser of the helper events
  (packages/backend/src/ssh/remote-shell-events.ts), the lifecycle and the output buffer of sessions
  (packages/backend/src/terminal/base-session-service.ts), and the bookkeeping of commands
  (packages/backend/src/terminal/shared.ts).
\<close>

section \<open>The stream parser\<close>

lemma completed_event_ok: "snd (parseCompletedOsc fb s) = Some e \<Longrightarrow> event_ok e"
  using normalized_event_ok
  by (auto simp: parseCompletedOsc_def parseRemoteShellEventPayload_def Let_def split: if_splits option.splits)

lemma char_event_ok: "snd (fst (char_piece fb c p)) = Some e \<Longrightarrow> event_ok e"
  using completed_event_ok by (auto simp: char_piece_def split: if_splits option.splits)

lemma step_event_ok: "Inr e \<in> set (fst (osc_step fb c p)) \<Longrightarrow> event_ok e"
  using char_event_ok [of fb c p]
  by (cases "fst (char_piece fb c p)"; cases "snd (fst (char_piece fb c p))") (auto simp: osc_step_def)

lemma run_event_ok: "Inr e \<in> set (fst (osc_run fb cs p)) \<Longrightarrow> event_ok e"
proof (induction cs arbitrary: p)
  case (Cons c cs)
  then show ?case using step_event_ok [of e fb c p] by (auto split: prod.splits) (metis fst_conv)+
qed simp

lemma stream_event: "EventFrame e \<in> set fs \<Longrightarrow> Inr e \<in> set (stream_of fs)"
  by (force simp: stream_of_def)

text \<open>On decoded text, the parser does not depend on the cuts.\<close>
theorem parsing_ignores_cuts:
  "stream_of (fst (parse_chunks fb cs p)) = stream_of (fst (parse_chunk fb (concat cs) p)) \<and>
   snd (parse_chunks fb cs p) = snd (parse_chunk fb (concat cs) p)"
  by (simp add: parse_chunks_run parse_chunk_run)

text \<open>Each chunk of the SSH stream is decoded on its own (\<open>chunk.toString('utf8')\<close>), so the text is that of the
  whole stream only when no cut lies inside a character.\<close>

lemma sequence_append:
  "fst (utf8_sequence n cp lo hi bs) = Some c \<Longrightarrow>
     utf8_sequence n cp lo hi (bs @ ys) = (Some c, snd (utf8_sequence n cp lo hi bs) @ ys)"
  by (induction n cp lo hi bs rule: utf8_sequence.induct) (auto split: if_splits)

lemma decode_append: "utf8_strict bs = Some s \<Longrightarrow> utf8_decode (bs @ ys) = s @ utf8_decode ys"
proof (induction bs arbitrary: s rule: utf8_strict.induct)
  case (2 b bs)
  show ?case
  proof (cases "b < 0x80")
    case True
    then show ?thesis using 2 by auto
  next
    case False
    with 2(3) obtain n cp lo hi where lead: "lead b = Some (n, cp, lo, hi)" by (auto split: option.splits)
    with 2(3) False obtain c where c: "fst (utf8_sequence n cp lo hi bs) = Some c" by (auto split: option.splits)
    with 2(3) False lead obtain t where t: "utf8_strict (snd (utf8_sequence n cp lo hi bs)) = Some t" "s = code_units c @ t"
      by auto
    show ?thesis
      using 2(2) [OF False lead refl refl refl c t(1)] False lead sequence_append [OF c] t(2) by simp
  qed
qed simp

lemma decode_chunks:
  assumes "\<forall>chunk\<in>set chunks. utf8_strict (map unat chunk) \<noteq> None"
  shows "concat (map buffer_to_utf8 chunks) = buffer_to_utf8 (concat chunks)"
  using assms
proof (induction chunks)
  case Nil
  show ?case by (simp add: buffer_to_utf8_def)
next
  case (Cons b bs)
  then obtain s where "utf8_strict (map unat b) = Some s" by auto
  then show ?case using Cons by (simp add: buffer_to_utf8_def decode_append strict_decode)
qed

text \<open>C4: The events, the visible output and the state the parser is left in do not depend on how the bytes of the
  SSH stream are cut into chunks, as long as no cut lies inside the bytes of a character: feeding the chunks,
  each decoded on its own, is feeding the whole stream at once.\<close>
theorem chunking_invariant:
  assumes "\<forall>chunk\<in>set chunks. utf8_strict (map unat chunk) \<noteq> None"
  shows "stream_of (fst (parse_chunks fb (map buffer_to_utf8 chunks) p)) =
      stream_of (fst (parse_chunk fb (buffer_to_utf8 (concat chunks)) p)) \<and>
    snd (parse_chunks fb (map buffer_to_utf8 chunks) p) = snd (parse_chunk fb (buffer_to_utf8 (concat chunks)) p)"
  by (simp add: parse_chunks_run parse_chunk_run decode_chunks [OF assms])

theorem chunking_invariant_witness:
  "stream_of (fst (parse_chunks (\<lambda>_. []) (map buffer_to_utf8 [[0xC3, 0xA9], [0x1B], [0x61]]) new_parser)) =
     stream_of (fst (parse_chunk (\<lambda>_. []) (buffer_to_utf8 [0xC3, 0xA9, 0x1B, 0x61]) new_parser))"
  using chunking_invariant [of "[[0xC3, 0xA9], [0x1B], [0x61]]" "\<lambda>_. []" new_parser] by (simp add: lead_def)

text \<open>Output that does not contain the prefix of the helper passes through unchanged: what is visible
  followed by what the parser still holds back is the input, and there is no event.\<close>
theorem plain_output_transparent:
  assumes "\<not> sublist COSMOSH_OSC_PREFIX (concat cs)"
  shows "\<exists>out. stream_of (fst (parse_chunks fb cs new_parser)) = map Inl out \<and>
    out @ held (snd (parse_chunks fb cs new_parser)) = concat cs"
  using transparent [OF assms, of fb] by (auto simp: parse_chunks_run)

theorem plain_output_transparent_witness:
  "\<exists>out. stream_of (fst (parse_chunks (\<lambda>_. []) [[27], [93, 48, 59], [97]] new_parser)) = map Inl out \<and>
    out @ held (snd (parse_chunks (\<lambda>_. []) [[27], [93, 48, 59], [97]] new_parser)) = [27, 93, 48, 59, 97]"
proof -
  have "\<not> sublist COSMOSH_OSC_PREFIX (concat [[27], [93, 48, 59], [97]])"
    by (rule notI, drule sublist_length_le) simp
  from plain_output_transparent [OF this, of "\<lambda>_. []"] show ?thesis by simp
qed

text \<open>Whatever arrives, the parser holds back at most the prefix and 8 KiB of payload.\<close>
theorem parser_memory_bounded:
  "length (held (snd (parse_chunks fb cs new_parser))) \<le> 14 + OSC_PAYLOAD_MAX_BYTES"
  by (rule held_bounded) (simp add: parse_chunks_run osc_run_inv)

text \<open>C35: Every event that leaves the parser satisfies the protocol: a known shell, a positive integral
  protocol version, distinct known capabilities, which include the event unless it is the announcement of the
  integration, and bounded fields: a directory has at most 4096 and a command at most 255 units, a command no
  control character, and every number lies in its range.\<close>
theorem parsed_events_valid:
  "list_all (\<lambda>f. case f of OutputFrame out \<Rightarrow> True | EventFrame e \<Rightarrow> event_ok e)
     (fst (parse_chunks fb cs p))"
proof -
  have "event_ok e" if "EventFrame e \<in> set (fst (parse_chunks fb cs p))" for e
    using stream_event [OF that] run_event_ok by (simp add: parse_chunks_run)
  then show ?thesis by (auto simp: list_all_iff split: frame.split)
qed

text \<open>A bell right after an escape ends a helper sequence that is being collected, but it does not end
  one that is being discarded: the parser goes on discarding the output that follows.\<close>
theorem bell_after_escape:
  "fst (appendCosmoshOscChar BELL (p\<lparr>pendingCosmoshOsc := Some s\<rparr>)) = Some (s @ [BELL]) \<and>
   consumeDiscardedOscChar BELL (p\<lparr>discardingOversizedCosmoshOsc := True, discardSawEscape := True\<rparr>) =
     p\<lparr>discardingOversizedCosmoshOsc := True, discardSawEscape := False\<rparr>"
  by (simp add: appendCosmoshOscChar_def consumeDiscardedOscChar_def terminated_def Let_def BELL_def ESCAPE_def)

section \<open>Terminal sessions\<close>

text \<open>C37: Buffering a chunk of output that is not empty, in a session whose buffer is within its limits, appends it
  and drops the oldest chunks, as few as the limits allow: afterwards at most 2048 chunks and 1 MiB are
  buffered, and the drop counter has counted them.  (For an empty chunk the byte limit can be exceeded, see
  empty_chunk_breaks_limit.)\<close>
theorem output_buffer_bounded:
  assumes "buffer_ok s" and "data \<noteq> []"
  shows "\<exists>n. pendingOutput (bufferPendingOutput data s) = drop n (pendingOutput s @ [data]) \<and>
    pendingOutputDropCount (bufferPendingOutput data s) = pendingOutputDropCount s + n \<and>
    buffer_ok (bufferPendingOutput data s) \<and>
    (\<forall>m<n. length (drop m (pendingOutput s @ [data])) > PENDING_OUTPUT_MAX_CHUNKS \<or>
       sum_list (map byte_length (drop m (pendingOutput s @ [data]))) > PENDING_OUTPUT_MAX_BYTES)"
proof -
  from buffer_spec [OF assms] obtain n where
    eq: "bufferPendingOutput data s = s\<lparr>pendingOutput := drop n (pendingOutput s @ [data]),
           pendingOutputBytes := sum_list (map byte_length (drop n (pendingOutput s @ [data]))),
           pendingOutputDropCount := pendingOutputDropCount s + n\<rparr>"
    and n: "buffer_ok (bufferPendingOutput data s)"
      "\<forall>m<n. length (drop m (pendingOutput s @ [data])) > PENDING_OUTPUT_MAX_CHUNKS \<or>
        sum_list (map byte_length (drop m (pendingOutput s @ [data]))) > PENDING_OUTPUT_MAX_BYTES"
    by blast
  show ?thesis using n by (intro exI [of _ n]) (simp add: eq)
qed

definition sample_session :: tsession where
  "sample_session = \<lparr>ts_sessionId = js ''s'', ts_websocketToken = js ''t'', pendingOutput = [],
     pendingOutputBytes = 0, pendingOutputDropCount = 0, attachTimeout = True, telemetryInterval = True,
     historySyncTimeout = True, ts_socket = None, ts_disposed = False\<rparr>"

lemma sample_buffer_ok: "buffer_ok sample_session"
  by (simp add: buffer_ok_def sample_session_def)

theorem output_buffer_bounded_witness: "buffer_ok (bufferPendingOutput [97] sample_session)"
  using output_buffer_bounded [OF sample_buffer_ok, of "[97]"] by auto

text \<open>The byte limit of the buffer depends on the chunks being nonempty: with an empty chunk at the
  head, the loop stops after removing it, and the limit stays exceeded.\<close>
theorem empty_chunk_breaks_limit:
  assumes "pendingOutput s = [] # rest" and "pendingOutputBytes s + byte_length data > PENDING_OUTPUT_MAX_BYTES"
  shows "pendingOutputBytes (bufferPendingOutput data s) > PENDING_OUTPUT_MAX_BYTES \<and>
    pendingOutput (bufferPendingOutput data s) = rest @ [data]"
  using assms by (simp add: bufferPendingOutput_def drop_loop.simps)

theorem empty_chunk_breaks_limit_witness:
  "pendingOutputBytes (bufferPendingOutput [97]
     (sample_session\<lparr>pendingOutput := [[], [98]], pendingOutputBytes := PENDING_OUTPUT_MAX_BYTES\<rparr>)) > PENDING_OUTPUT_MAX_BYTES"
  using empty_chunk_breaks_limit [of "sample_session\<lparr>pendingOutput := [[], [98]],
      pendingOutputBytes := PENDING_OUTPUT_MAX_BYTES\<rparr>" "[[98]]" "[97]"]
  by (simp add: unit_bytes_def)

text \<open>Flushing the buffer of a live session returns exactly when a client is attached on an open socket
  or nothing is buffered: a chunk sent while detached goes back into the buffer, and the loop never ends.\<close>
theorem flush_terminates_iff:
  assumes "\<not> ts_disposed (sv_store v a)" and "buffer_ok (sv_store v a)"
  shows "flush_loop a v \<noteq> None \<longleftrightarrow> attached_open v (sv_store v a) \<or> pendingOutput (sv_store v a) = []"
proof (cases "attached_open v (sv_store v a)")
  case True
  then obtain k where k: "ts_socket (sv_store v a) = Some k" "sv_open v k"
    by (auto simp: attached_open_def split: option.splits)
  have "flush_loop a v \<noteq> None"
    using flush_attached [OF assms(1) k refl] assms(2) by (simp add: buffer_ok_def)
  then show ?thesis using True by simp
next
  case False
  then show ?thesis
    using flush_detached_diverges [OF assms(1) False assms(2)]
    by (cases "pendingOutput (sv_store v a) = []") (simp_all add: flush_loop.simps)
qed

definition sample_service :: service where
  "sample_service = registerSession (js ''s'') (js ''t'') new_service"

lemma sample_service_reachable: "service_reachable sample_service"
  unfolding sample_service_def by (rule svc_next [OF svc_new svc_register]) (simp add: new_service_def)

lemma sample_service_fields:
  "sv_store sample_service 0 = sample_session" "sv_next sample_service = 1"
  "sv_sessions sample_service = [(js ''s'', 0)]"
  by (simp_all add: sample_service_def registerSession_def new_service_def sample_session_def)

theorem flush_terminates_iff_witness: "flush_loop 0 sample_service \<noteq> None"
  using flush_terminates_iff [of sample_service 0] sample_buffer_ok
  by (simp add: sample_service_fields) (simp add: sample_session_def)

text \<open>C36: In every reachable service a session is in the session map exactly until it is disposed; its
  transport is disposed at most once, exactly when the session is; and a disposed session keeps no
  socket, timeout or interval.\<close>
theorem session_disposed_once:
  assumes "service_reachable v" and "a < sv_next v"
  shows "disposals a v = (if ts_disposed (sv_store v a) then 1 else 0) \<and>
    (\<not> ts_disposed (sv_store v a) \<longleftrightarrow> map_of (sv_sessions v) (ts_sessionId (sv_store v a)) = Some a) \<and>
    (ts_disposed (sv_store v a) \<longrightarrow> ts_socket (sv_store v a) = None \<and> \<not> attachTimeout (sv_store v a) \<and>
       \<not> telemetryInterval (sv_store v a) \<and> \<not> historySyncTimeout (sv_store v a)) \<and>
    buffer_ok (sv_store v a)"
proof -
  have "session_ok v a" using service_reachable_ok [OF assms(1)] assms(2) by (simp add: service_ok_def)
  then show ?thesis by (simp add: session_ok_def Let_def)
qed

theorem session_disposed_once_witness:
  "disposals 0 sample_service = 0 \<and> map_of (sv_sessions sample_service) (js ''s'') = Some 0"
  using session_disposed_once [OF sample_service_reachable, of 0]
  by (simp add: sample_service_fields sample_session_def)

text \<open>A connection on a fresh socket is either closed with code 1008, and nothing else happens, or its path
  and token name a live session: then every older client is closed with code 1012, the new one gets
  the ready message and the buffered output in order, and the buffer is empty.\<close>
theorem connection_outcome:
  assumes "service_reachable v" and "\<And>a. a < sv_next v \<Longrightarrow> ts_socket (sv_store v a) \<noteq> Some k"
  shows "(\<exists>reason. connection k path pre token v = Some (close_socket k 1008 reason (v\<lparr>sv_open := (sv_open v)(k := True)\<rparr>)))
    \<or> (\<exists>i a v'. resolveTerminalWebSocketSessionId path pre = Some i \<and> map_of (sv_sessions v) i = Some a \<and>
        token = ts_websocketToken (sv_store v a) \<and> connection k path pre token v = Some v' \<and>
        sv_sessions v' = sv_sessions v \<and> pendingOutput (sv_store v' a) = [] \<and>
        (\<exists>es fs. sv_effects v' = sv_effects v @ es @ SocketSend k Ready #
           map (\<lambda>d. SocketSend k (Output d)) (pendingOutput (sv_store v a)) @ fs \<and>
         (\<forall>e\<in>set es. \<exists>old. e = SocketClose old 1012 (js ''ws.sessionReconnectedFromNewClient'')) \<and>
         (\<forall>e\<in>set fs. \<exists>n. e = DroppedWarning a n)))"
  using connection_cases [OF service_reachable_ok [OF assms(1)] assms(2), of path pre token] by blast

theorem connection_outcome_witness:
  "connection 7 (js ''/ws/s'') (js ''/ws/'') (js ''t'') sample_service \<noteq> None"
proof -
  have "ts_socket (sv_store sample_service a) \<noteq> Some 7" if "a < sv_next sample_service" for a
    using that by (simp add: sample_service_fields) (simp add: sample_session_def)
  from connection_outcome [OF sample_service_reachable this, of "js ''/ws/s''" "js ''/ws/''" "js ''t''"]
  show ?thesis by auto
qed

text \<open>Closing all sessions closes each of them once, returns their number and leaves none.\<close>
theorem close_all_empties:
  assumes "service_reachable v"
  shows "fst (closeAllSessions v) = getActiveSessionCount v \<and> sv_sessions (snd (closeAllSessions v)) = []"
proof -
  have ok: "service_ok v" by (rule service_reachable_ok [OF assms])
  have "distinct (map fst (sv_sessions v))" using ok by (simp add: service_ok_def)
  moreover have "\<forall>i\<in>set (map fst (sv_sessions v)). map_of (sv_sessions v) i \<noteq> None"
    by (auto simp: map_of_eq_None_iff)
  ultimately have c: "fst (closeAllSessions v) = length (sv_sessions v)"
    "map_of (sv_sessions (snd (closeAllSessions v))) = Map.empty"
    using close_each_spec [OF ok, of "map fst (sv_sessions v)" 0] restrict_all [of "sv_sessions v"]
    by (simp_all add: closeAllSessions_def)
  then show ?thesis by (simp add: getActiveSessionCount_def)
qed

theorem close_all_empties_witness: "sv_sessions (snd (closeAllSessions sample_service)) = []"
  using close_all_empties [OF sample_service_reachable] by blast

section \<open>Commands\<close>

text \<open>The history shown for a shell is the newest commands of its output, each once at its last
  occurrence, in the order of the output, and at most as many as asked for.\<close>
theorem history_is_newest_distinct:
  assumes "0 < n"
  shows "parseTerminalHistoryOutput n output = slice_last n (remdups (parsed_commands output))"
  by (rule history_output_spec [OF assms])

theorem history_is_newest_distinct_witness:
  "parseTerminalHistoryOutput 2 (js ''ls'') = slice_last 2 (remdups (parsed_commands (js ''ls'')))"
  by (rule history_is_newest_distinct) simp

text \<open>A line of printable characters followed by return is submitted trimmed, clears the line buffer, and
  becomes the newest of the recent commands, which stay distinct and bounded.\<close>
theorem typed_line_submitted:
  assumes "list_all (\<lambda>c. 32 \<le> c \<and> c \<noteq> 0x7f) line" and "trim (lineBuffer state @ line) \<noteq> []"
  shows "updateInteractiveCompletionState opt state (line @ [13]) =
    (\<lparr>lineBuffer = [], recentCommands = take (max 1 (case opt of None \<Rightarrow> HISTORY_MAX_ENTRIES | Some n \<Rightarrow> n))
        (trim (lineBuffer state @ line) #
         filter (\<lambda>e. e \<noteq> trim (lineBuffer state @ line)) (recentCommands state))\<rparr>,
     [trim (lineBuffer state @ line)])"
  by (rule submit_line [OF assms])

theorem typed_line_submitted_witness:
  "snd (updateInteractiveCompletionState None \<lparr>lineBuffer = [], recentCommands = []\<rparr> ([108, 115, 32] @ [13])) = [[108, 115]]"
proof -
  have "trim [108, 115, 32] = [108, 115]" by (simp add: trim_def trim_start_def trim_end_def is_space_def)
  then show ?thesis
    using typed_line_submitted [of "[108, 115, 32]" "\<lparr>lineBuffer = [], recentCommands = []\<rparr>" None] by simp
qed

end
