(* ===== verification/CompletionCwd.thy ===== *)
theory CompletionCwd
  imports ShellWords
begin

text \<open>
  The working directory and the secret prompts that the completion of a terminal session follows
  (packages/backend/src/terminal/completion/runtime-state.ts): the tail of the visible output, prompts for a
  password, the tokens of a submitted command, \<open>cd\<close>, and the directory shown in a shell prompt.  Regular
  expressions are written as the list of the ways they match, in the order in which the matcher tries them.
\<close>

section \<open>Regular expressions\<close>

text \<open>\<open>p*\<close> at the start of a text: what it takes and what is left, the longest first.\<close>

definition greedy :: "(nat \<Rightarrow> bool) \<Rightarrow> jstring \<Rightarrow> (jstring \<times> jstring) list" where
  "greedy p s = map (\<lambda>n. (take n s, drop n s)) (rev [0..<Suc (length (takeWhile p s))])"

definition spaces :: "jstring \<Rightarrow> jstring list" where
  "spaces s = map snd (greedy is_space s)"

text \<open>A literal without regard to case.\<close>

definition literal :: "jstring \<Rightarrow> jstring \<Rightarrow> jstring list" where
  "literal w s = (if length w \<le> length s \<and> lower_case (take (length w) s) = w then [drop (length w) s] else [])"

definition followed :: "(jstring \<Rightarrow> jstring list) \<Rightarrow> (jstring \<Rightarrow> jstring list) \<Rightarrow> jstring \<Rightarrow> jstring list" where
  "followed f g s = concat (map g (f s))"

text \<open>\<open>(?: for [^:]+)?\<close>\<close>

definition for_clause :: "jstring \<Rightarrow> jstring \<Rightarrow> jstring list" where
  "for_clause w s =
     concat (map (\<lambda>r. concat (map (\<lambda>(t, q). if t = [] then [] else [q]) (greedy (\<lambda>c. c \<noteq> 58) r))) (literal w s))
     @ [s]"

text \<open>The tail of each pattern: the clause, a colon, white space, and the end of the text.\<close>

definition prompt_end :: "jstring \<Rightarrow> jstring \<Rightarrow> bool" where
  "prompt_end clause s = list_ex (\<lambda>r. r = []) (followed (for_clause clause) (followed (literal (js '':'')) spaces) s)"

fun tails :: "jstring \<Rightarrow> jstring list" where
  "tails [] = [[]]"
| "tails (c # s) = (c # s) # tails s"

definition sudo_prompt :: "jstring \<Rightarrow> bool" where
  "sudo_prompt line = list_ex
     (\<lambda>s. list_ex (prompt_end (js '' for ''))
       (followed (literal (js ''['')) (followed spaces (followed (literal (js ''sudo'')) (followed spaces
         (followed (literal (js '']'')) (followed spaces (literal (js ''password''))))))) s))
     (tails line)"

definition password_prompt :: "jstring \<Rightarrow> bool" where
  "password_prompt line \<longleftrightarrow>
     list_ex (prompt_end (js '' for '')) (literal (js ''password'') line) \<or>
     list_ex (\<lambda>s. s \<noteq> [] \<and> is_space (hd s) \<and>
         list_ex (prompt_end (js '' for '')) (literal (js ''password'') (tl s))) (tails line)"

definition passphrase_prompt :: "jstring \<Rightarrow> bool" where
  "passphrase_prompt line = list_ex
     (\<lambda>s. list_ex (prompt_end (js '' for key '')) (literal (js ''enter passphrase'') s)) (tails line)"

definition secret_prompt :: "jstring \<Rightarrow> bool" where
  "secret_prompt line \<longleftrightarrow> sudo_prompt line \<or> password_prompt line \<or> passphrase_prompt line"

section \<open>The visible tail of the output\<close>

text \<open>
  The end of an operating-system command: \<open>[^\a]*\<close> runs to the first bell; without one, the matcher goes back
  to the last string terminator.
\<close>

fun after_last_terminator :: "jstring \<Rightarrow> jstring option" where
  "after_last_terminator (c # d # s) =
     (case after_last_terminator (d # s) of
        Some r \<Rightarrow> Some r
      | None \<Rightarrow> if c = 27 \<and> d = 92 then Some s else None)"
| "after_last_terminator _ = None"

definition osc_end :: "jstring \<Rightarrow> jstring option" where
  "osc_end s =
     (if 7 \<in> set s then Some (tl (dropWhile (\<lambda>c. c \<noteq> 7) s)) else after_last_terminator s)"

lemma after_last_terminator_length: "after_last_terminator s = Some r \<Longrightarrow> length r < length s"
  by (induction s arbitrary: r rule: after_last_terminator.induct) (auto split: option.splits if_splits)

lemma osc_end_length: "osc_end s = Some r \<Longrightarrow> length r < length s"
proof -
  assume r: "osc_end s = Some r"
  show ?thesis
  proof (cases "7 \<in> set s")
    case True
    then have "dropWhile (\<lambda>c. c \<noteq> 7) s \<noteq> []" by (auto simp: dropWhile_eq_Nil_conv)
    moreover have "length (dropWhile (\<lambda>c. c \<noteq> 7) s) \<le> length s" by (rule length_dropWhile_le)
    ultimately have "length (tl (dropWhile (\<lambda>c. c \<noteq> 7) s)) < length s"
      by (cases "dropWhile (\<lambda>c. c \<noteq> 7) s") auto
    with r True show ?thesis by (auto simp: osc_end_def)
  next
    case False
    with r show ?thesis by (auto simp: osc_end_def dest: after_last_terminator_length)
  qed
qed

function strip_osc :: "jstring \<Rightarrow> jstring" where
  "strip_osc [] = []"
| "strip_osc (c # s) =
     (case (if c = 27 \<and> s \<noteq> [] \<and> hd s = 93 then osc_end (tl s) else None) of
        Some r \<Rightarrow> strip_osc r
      | None \<Rightarrow> c # strip_osc s)"
  by pat_completeness auto
termination
proof (relation "measure length", goal_cases)
  case (3 c s r)
  then show ?case by (cases s) (auto split: if_splits dest!: osc_end_length)
qed auto

declare strip_osc.simps(2) [simp del]

text \<open>\<open>ESC [ [0-?]* [ -/]* [@-~]\<close>: the three classes are disjoint, so there is one way to match.\<close>

definition csi_end :: "jstring \<Rightarrow> jstring option" where
  "csi_end s =
     (let r = dropWhile (\<lambda>c. 32 \<le> c \<and> c \<le> 47) (dropWhile (\<lambda>c. 48 \<le> c \<and> c \<le> 63) s)
      in if r \<noteq> [] \<and> 64 \<le> hd r \<and> hd r \<le> 126 then Some (tl r) else None)"

lemma csi_end_length: "csi_end s = Some r \<Longrightarrow> length r < length s"
proof -
  assume r: "csi_end s = Some r"
  let ?r = "dropWhile (\<lambda>c. 32 \<le> c \<and> c \<le> 47) (dropWhile (\<lambda>c. 48 \<le> c \<and> c \<le> 63) s)"
  have "length ?r \<le> length (dropWhile (\<lambda>c. 48 \<le> c \<and> c \<le> 63) s)" by (rule length_dropWhile_le)
  also have "\<dots> \<le> length s" by (rule length_dropWhile_le)
  finally show ?thesis using r by (cases ?r) (auto simp: csi_end_def Let_def split: if_splits)
qed

function strip_csi :: "jstring \<Rightarrow> jstring" where
  "strip_csi [] = []"
| "strip_csi (c # s) =
     (case (if c = 27 \<and> s \<noteq> [] \<and> hd s = 91 then csi_end (tl s) else None) of
        Some r \<Rightarrow> strip_csi r
      | None \<Rightarrow> c # strip_csi s)"
  by pat_completeness auto
termination
proof (relation "measure length", goal_cases)
  case (3 c s r)
  then show ?case by (cases s) (auto split: if_splits dest!: csi_end_length)
qed auto

declare strip_csi.simps(2) [simp del]

definition stripAnsiCodes :: "jstring \<Rightarrow> jstring" where
  "stripAnsiCodes s = strip_csi (strip_osc s)"

definition SECRET_PROMPT_MAX_ACTIVE_MS :: int where "SECRET_PROMPT_MAX_ACTIVE_MS = 45000"
definition SECRET_PROMPT_TAIL_MAX_LENGTH :: nat where "SECRET_PROMPT_TAIL_MAX_LENGTH = 1024"

definition normalizeTail :: "jstring \<Rightarrow> jstring" where
  "normalizeTail s =
     (let normalizedLineBreaks = map (\<lambda>c. if c = 13 then 10 else c) (stripAnsiCodes s)
      in if length normalizedLineBreaks \<le> SECRET_PROMPT_TAIL_MAX_LENGTH then normalizedLineBreaks
         else slice_last SECRET_PROMPT_TAIL_MAX_LENGTH normalizedLineBreaks)"

record prompt_state =
  outputTail :: jstring
  promptDetectedAtMs :: int
  shouldSuggestSecret :: bool

definition updatePromptStateFromOutput :: "prompt_state \<Rightarrow> jstring \<Rightarrow> int \<Rightarrow> prompt_state" where
  "updatePromptStateFromOutput state outputChunk nowMs =
     (let nextTail = normalizeTail (outputTail state @ outputChunk);
          lastVisibleLine = trim (last (split_on 10 nextTail));
          stillActive = (shouldSuggestSecret state \<and>
            nowMs - promptDetectedAtMs state \<le> SECRET_PROMPT_MAX_ACTIVE_MS)
      in if \<not> secret_prompt lastVisibleLine
         then \<lparr>outputTail = nextTail, promptDetectedAtMs = if stillActive then promptDetectedAtMs state else 0,
               shouldSuggestSecret = stillActive\<rparr>
         else \<lparr>outputTail = nextTail, promptDetectedAtMs = nowMs, shouldSuggestSecret = True\<rparr>)"

definition updatePromptStateFromInput :: "prompt_state \<Rightarrow> jstring \<Rightarrow> prompt_state" where
  "updatePromptStateFromInput state inputData =
     (if \<not> shouldSuggestSecret state then state
      else if 13 \<notin> set inputData \<and> 10 \<notin> set inputData then state
      else state\<lparr>promptDetectedAtMs := 0, shouldSuggestSecret := False\<rparr>)"

section \<open>The tokens of a command\<close>

datatype quote = Unquoted | SingleQuote | DoubleQuote

text \<open>The inner loop: the token read so far, and the rest of the input where it ends.\<close>

fun read_token :: "quote \<Rightarrow> jstring \<Rightarrow> jstring \<Rightarrow> jstring \<times> jstring" where
  "read_token q token [] = (token, [])"
| "read_token SingleQuote token (c # s) =
     (if c = 39 then read_token Unquoted token s else read_token SingleQuote (token @ [c]) s)"
| "read_token DoubleQuote token (c # s) =
     (if c = 34 then read_token Unquoted token s
      else if c = 92 then
        (case s of [] \<Rightarrow> read_token DoubleQuote (token @ [c]) []
         | d # r \<Rightarrow> read_token DoubleQuote (token @ [d]) r)
      else read_token DoubleQuote (token @ [c]) s)"
| "read_token Unquoted token (c # s) =
     (if is_space c then (token, c # s)
      else if c = 39 then read_token SingleQuote token s
      else if c = 34 then read_token DoubleQuote token s
      else if c = 92 then
        (case s of [] \<Rightarrow> read_token Unquoted (token @ [c]) []
         | d # r \<Rightarrow> read_token Unquoted (token @ [d]) r)
      else read_token Unquoted (token @ [c]) s)"

lemma read_token_length: "length (snd (read_token q token s)) \<le> length s"
proof (induction q token s rule: read_token.induct)
  case (2 token c s)
  then show ?case by (cases "c = 39") simp_all
next
  case (3 token c s)
  then show ?case by (cases "c = 34"; cases "c = 92"; cases s) simp_all
next
  case (4 token c s)
  then show ?case by (cases "is_space c"; cases "c = 92"; cases "c = 39"; cases "c = 34"; cases s) simp_all
qed simp

lemma read_token_progress:
  assumes "s \<noteq> []" and "\<not> is_space (hd s)"
  shows "length (snd (read_token Unquoted [] s)) < length s"
proof (cases s)
  case (Cons c r)
  have less: "length (snd (read_token q t r)) < Suc (length r)" for q t
    using read_token_length [of q t r] by simp
  show ?thesis
  proof (cases "c = 92")
    case True
    show ?thesis
    proof (cases r)
      case (Cons d u)
      then show ?thesis using True \<open>s = c # r\<close> read_token_length [of Unquoted "[d]" u] by (simp add: is_space_def)
    qed (use True Cons in \<open>simp add: is_space_def\<close>)
  qed (use assms(2) Cons less in simp)
qed (use assms in simp)

lemma split_progress:
  assumes "dropWhile is_space s \<noteq> []"
  shows "length (snd (read_token Unquoted [] (dropWhile is_space s))) < length s"
proof -
  have "length (snd (read_token Unquoted [] (dropWhile is_space s))) < length (dropWhile is_space s)"
    by (rule read_token_progress [OF assms hd_dropWhile [OF assms]])
  also have "\<dots> \<le> length s" by (rule length_dropWhile_le)
  finally show ?thesis .
qed

function split_tokens :: "jstring \<Rightarrow> jstring list" where
  "split_tokens s =
     (let s' = dropWhile is_space s
      in if s' = [] then []
         else let (token, r) = read_token Unquoted [] s'
              in if token = [] then split_tokens r else token # split_tokens r)"
  by pat_completeness auto
termination
proof (relation "measure length", goal_cases)
  case (2 s s' x token r)
  then show ?case using split_progress [of s] by (cases "read_token Unquoted [] s'") simp
next
  case (3 s s' x token r)
  then show ?case using split_progress [of s] by (cases "read_token Unquoted [] s'") simp
qed simp

declare split_tokens.simps [simp del]

definition splitCommandTokens :: "jstring \<Rightarrow> jstring list" where
  "splitCommandTokens command = split_tokens command"

section \<open>Changes of directory\<close>

definition resolveCdTarget :: "jstring list \<Rightarrow> jstring option" where
  "resolveCdTarget tokens =
     (if lower_case (case tokens of [] \<Rightarrow> [] | t # ts \<Rightarrow> t) \<noteq> js ''cd'' then None
      else case find (\<lambda>token. token \<noteq> [] \<and> \<not> starts_with token [45]) (tl tokens) of
             None \<Rightarrow> Some [126]
           | Some target \<Rightarrow> if target = [45] then None else Some target)"

text \<open>
  \<open>home\<close> is \<open>process.env.HOME\<close> and \<open>processCwd\<close> the working directory of the process; \<open>path\<close> is the POSIX
  variant.
\<close>

definition or_else :: "jstring option \<Rightarrow> jstring \<Rightarrow> jstring" where
  "or_else v d = (case v of None \<Rightarrow> d | Some s \<Rightarrow> if s = [] then d else s)"

definition updateLocalCompletionCwd :: "jstring option \<Rightarrow> jstring \<Rightarrow> jstring \<Rightarrow> jstring \<Rightarrow> jstring" where
  "updateLocalCompletionCwd home processCwd currentCwd command =
     (case resolveCdTarget (splitCommandTokens command) of
        None \<Rightarrow> currentCwd
      | Some cdTarget \<Rightarrow>
          let normalizedTarget = (if starts_with cdTarget [126] then posix_join [or_else home currentCwd, tl cdTarget]
                                  else cdTarget)
          in if normalizedTarget = [] \<or> normalizedTarget = [126] then or_else home currentCwd
             else if posix_is_absolute normalizedTarget then posix_normalize normalizedTarget
             else posix_normalize (posix_resolve2 processCwd currentCwd normalizedTarget))"

definition clean_home :: "jstring option \<Rightarrow> jstring option" where
  "clean_home home = (case home of None \<Rightarrow> None | Some h \<Rightarrow> if trim h = [] then None else Some (trim h))"

text \<open>\<open>null\<close> and the empty text are both falsy, but only the former is \<open>None\<close>.\<close>

definition updateRemoteCompletionCwd ::
  "jstring \<Rightarrow> jstring option \<Rightarrow> jstring option \<Rightarrow> jstring \<Rightarrow> jstring option" where
  "updateRemoteCompletionCwd processCwd home currentCwd command =
     (case resolveCdTarget (splitCommandTokens command) of
        None \<Rightarrow> currentCwd
      | Some cdTarget \<Rightarrow>
          let homeDirectory = clean_home home
          in if cdTarget = [126] then (case homeDirectory of Some h \<Rightarrow> Some (posix_normalize h) | None \<Rightarrow> currentCwd)
             else if starts_with cdTarget [slash] then Some (posix_normalize cdTarget)
             else if starts_with cdTarget [126, slash] then
               (case homeDirectory of
                  Some h \<Rightarrow> Some (posix_normalize (posix_join [h, drop 2 cdTarget]))
                | None \<Rightarrow> currentCwd)
             else case currentCwd of
                    None \<Rightarrow> None
                  | Some cwd \<Rightarrow> if cwd = [] then currentCwd
                                else Some (posix_normalize (posix_resolve2 processCwd cwd cdTarget)))"

definition replayRemoteCompletionCwdCommands ::
  "jstring \<Rightarrow> jstring option \<Rightarrow> jstring option \<Rightarrow> jstring list \<Rightarrow> jstring option" where
  "replayRemoteCompletionCwdCommands processCwd home baseCwd commands =
     foldl (updateRemoteCompletionCwd processCwd home) baseCwd commands"

section \<open>The directory in a prompt\<close>

text \<open>\<open>([^\s]+)\s*[#$]$\<close>: what the group captures, in the order of the matcher.\<close>

definition path_then_sign :: "jstring \<Rightarrow> jstring list" where
  "path_then_sign s = concat (map (\<lambda>(path, r).
     if path \<noteq> [] \<and> list_ex (\<lambda>q. q = [35] \<or> q = [36]) (spaces r) then [path] else [])
     (greedy (\<lambda>c. \<not> is_space c) s))"

definition first_match :: "'a list \<Rightarrow> 'a option" where
  "first_match ms = (case ms of [] \<Rightarrow> None | m # _ \<Rightarrow> Some m)"

definition hostPromptMatch :: "jstring \<Rightarrow> jstring option" where
  "hostPromptMatch line = first_match (concat (map
     (\<lambda>s. if s \<noteq> [] \<and> hd s = 58 then concat (map path_then_sign (spaces (tl s))) else []) (tails line)))"

definition plainPromptMatch :: "jstring \<Rightarrow> jstring option" where
  "plainPromptMatch line = first_match (path_then_sign line)"

definition prompt_candidate :: "jstring \<Rightarrow> jstring" where
  "prompt_candidate line =
     (case hostPromptMatch line of Some c \<Rightarrow> c
      | None \<Rightarrow> (case plainPromptMatch line of Some c \<Rightarrow> c | None \<Rightarrow> []))"

text \<open>The loop over the lines, the last first; \<open>None\<close> when no line decides.\<close>

fun prompt_cwd :: "jstring option \<Rightarrow> jstring option \<Rightarrow> jstring list \<Rightarrow> jstring option" where
  "prompt_cwd currentCwd home [] = None"
| "prompt_cwd currentCwd home (line # earlier) =
     (let candidate = prompt_candidate line
      in if candidate = [] then prompt_cwd currentCwd home earlier
         else if candidate = [126] then
           (case clean_home home of Some h \<Rightarrow> Some (posix_normalize h) | None \<Rightarrow> currentCwd)
         else if starts_with candidate [126, slash] then
           (case clean_home home of
              Some h \<Rightarrow> Some (posix_normalize (posix_join [h, drop 2 candidate]))
            | None \<Rightarrow> currentCwd)
         else if \<not> starts_with candidate [slash] then prompt_cwd currentCwd home earlier
         else Some (posix_normalize candidate))"

definition resolveRemotePromptCwd :: "jstring \<Rightarrow> jstring option \<Rightarrow> jstring option \<Rightarrow> jstring option" where
  "resolveRemotePromptCwd tail currentCwd home =
     prompt_cwd currentCwd home (rev (filter (\<lambda>line. length line > 0) (map trim (split_on 10 tail))))"

end
