(* ===== verification/CompletionTheorems.thy ===== *)
theory CompletionTheorems
  imports CompletionCwd
begin

text \<open>
  The tokens, directories and prompts of \<open>CompletionCwd\<close>: the tokenizer against the reference tokens of the
  shell, \<open>cd\<close> against a walk over the segments of a path, and when a secret is suggested.
\<close>

section \<open>Tokens\<close>

lemma read_single: "39 \<notin> set p \<Longrightarrow> read_token SingleQuote token (p @ 39 # s) = read_token Unquoted (token @ p) s"
  by (induction p arbitrary: token) auto

definition shell_spaces :: "jstring \<Rightarrow> bool" where
  "shell_spaces s \<longleftrightarrow> list_all (\<lambda>c. is_space c \<longrightarrow> c = 32 \<or> c = 9) s"

definition started :: "jstring option \<Rightarrow> jstring" where
  "started cur = (case cur of None \<Rightarrow> [] | Some w \<Rightarrow> w)"

lemma started_extend: "started (extend_word cur w) = started cur @ w"
  by (simp add: started_def extend_word_def)

lemma takeWhile_dropWhile_quote:
  assumes "dropWhile (\<lambda>d. d \<noteq> 39) s \<noteq> []"
  shows "s = takeWhile (\<lambda>d. d \<noteq> 39) s @ (39::nat) # tl (dropWhile (\<lambda>d. d \<noteq> 39) s)"
    and "39 \<notin> set (takeWhile (\<lambda>d. d \<noteq> 39) s)"
proof -
  have "hd (dropWhile (\<lambda>d. d \<noteq> 39) s) = 39" using hd_dropWhile [OF assms] by simp
  then have "dropWhile (\<lambda>d. d \<noteq> 39) s = 39 # tl (dropWhile (\<lambda>d. d \<noteq> 39) s)"
    using assms by (metis list.collapse)
  then show "s = takeWhile (\<lambda>d. d \<noteq> 39) s @ 39 # tl (dropWhile (\<lambda>d. d \<noteq> 39) s)"
    by (metis takeWhile_dropWhile_id)
qed (auto dest: set_takeWhileD)

definition next_token :: "jstring \<Rightarrow> jstring \<Rightarrow> jstring list \<Rightarrow> bool" where
  "next_token token r ws \<longleftrightarrow>
     (\<exists>more. filter (\<lambda>w. w \<noteq> []) ws = (if token = [] then [] else [token]) @ filter (\<lambda>w. w \<noteq> []) more \<and>
        shell_tokens None r = Some (map Word more) \<and> shell_spaces r)"

lemma no_word_ended [simp]: "map_option (\<lambda>ts. end_word None @ ts) m = m"
  by (cases m) (simp_all add: end_word_def)

lemma no_operator: "end_word cur @ AndIf # z \<noteq> map Word ws" "end_word cur @ RedirectOut # z \<noteq> map Word ws"
proof -
  have "AndIf \<notin> set (map Word ws)" "RedirectOut \<notin> set (map Word ws)" by auto
  then show "end_word cur @ AndIf # z \<noteq> map Word ws" "end_word cur @ RedirectOut # z \<noteq> map Word ws"
    by (metis in_set_conv_decomp)+
qed

lemma shell_blank: "c = 32 \<or> c = 9 \<Longrightarrow> shell_tokens None (c # s) = shell_tokens None s"
  by (subst shell_tokens.simps) auto

lemma read_word:
  assumes "shell_tokens cur s = Some (map Word ws)" and "shell_spaces s"
  shows "next_token (fst (read_token Unquoted (started cur) s)) (snd (read_token Unquoted (started cur) s)) ws"
  using assms
proof (induction cur s arbitrary: ws rule: shell_tokens.induct)
  case (1 cur)
  then show ?case
    by (cases cur; cases ws) (auto simp: end_word_def started_def next_token_def)
next
  case (2 cur c s)
  note result = 2(7) [unfolded shell_tokens.simps(2) [of cur c s]]
  consider (single) "c = 39" | (backslash) "c = 92" | (space) "c = 32 \<or> c = 9" | (other) "c \<notin> {39, 92, 32, 9}" by blast
  then show ?case
  proof cases
    case single
    let ?inner = "takeWhile (\<lambda>d. d \<noteq> 39) s" and ?r = "dropWhile (\<lambda>d. d \<noteq> 39) s"
    have r: "?r \<noteq> []"
    proof
      assume "?r = []"
      with result single show False by (simp add: Let_def del: dropWhile_eq_Nil_conv)
    qed
    note s = takeWhile_dropWhile_quote [OF r]
    have "set (tl ?r) \<subseteq> set s" by (metis list.set_sel(2) r set_dropWhileD subsetI)
    then have ok: "shell_spaces (tl ?r)" using 2(8) by (auto simp: shell_spaces_def list_all_iff)
    have "shell_tokens (extend_word cur ?inner) (tl ?r) = Some (map Word ws)"
      using result single r by (simp add: Let_def del: dropWhile_eq_Nil_conv)
    from 2(1) [OF single refl refl r this ok]
    have "next_token (fst (read_token Unquoted (started cur @ ?inner) (tl ?r)))
        (snd (read_token Unquoted (started cur @ ?inner) (tl ?r))) ws"
      by (simp only: started_extend)
    moreover have "read_token Unquoted (started cur) (c # s) = read_token Unquoted (started cur @ ?inner) (tl ?r)"
    proof -
      have "read_token Unquoted (started cur) (c # s) = read_token SingleQuote (started cur) s"
        using single by (simp add: is_space_def)
      also have "\<dots> = read_token SingleQuote (started cur) (?inner @ 39 # tl ?r)" using s(1) by simp
      finally show ?thesis using read_single [OF s(2)] by simp
    qed
    ultimately show ?thesis by simp
  next
    case backslash
    then obtain d u where s: "s = d # u" using result by (cases s) auto
    have d: "d \<noteq> 10" and u: "shell_spaces u" using 2(8) s by (auto simp: shell_spaces_def is_space_def)
    have "shell_tokens (extend_word cur [d]) u = Some (map Word ws)" using result backslash s d by simp
    with 2(2) backslash s d u have "next_token (fst (read_token Unquoted (started cur @ [d]) u))
        (snd (read_token Unquoted (started cur @ [d]) u)) ws"
      by (simp add: started_extend)
    then show ?thesis using backslash s by (simp add: is_space_def)
  next
    case space
    then obtain ts where ts: "shell_tokens None s = Some ts" "end_word cur @ ts = map Word ws"
      using result by (auto split: if_splits)
    then obtain as bs where "ws = as @ bs" "end_word cur = map Word as" "ts = map Word bs"
      by (metis append_eq_map_conv)
    moreover from this have "filter (\<lambda>w. w \<noteq> []) as = (if started cur = [] then [] else [started cur])"
      by (cases cur; cases as) (auto simp: end_word_def started_def)
    moreover have "read_token Unquoted (started cur) (c # s) = (started cur, c # s)"
      using space by (auto simp: is_space_def)
    ultimately show ?thesis using ts 2(8) shell_blank [OF space, of s]
      unfolding next_token_def by (intro exI [of _ bs]) simp
  next
    case other
    have plain: "\<not> is_space c" using 2(8) other by (auto simp: shell_spaces_def)
    have "shell_tokens (extend_word cur [c]) s = Some (map Word ws)" "\<not> shell_special c"
      using result other by (simp_all add: no_operator split: if_splits)
    moreover have "shell_spaces s" using 2(8) by (simp add: shell_spaces_def)
    ultimately have "next_token (fst (read_token Unquoted (started cur @ [c]) s))
        (snd (read_token Unquoted (started cur @ [c]) s)) ws"
      using 2(6) other by (auto simp: started_extend shell_special_def)
    moreover have "c \<noteq> 34" using \<open>\<not> shell_special c\<close> by (auto simp: shell_special_def)
    ultimately show ?thesis using other plain by simp
  qed
qed

lemma shell_skip_spaces:
  "shell_spaces s \<Longrightarrow> shell_tokens None s = shell_tokens None (dropWhile is_space s)"
proof (induction s)
  case (Cons c s)
  show ?case
  proof (cases "is_space c")
    case True
    then have "c = 32 \<or> c = 9" using Cons.prems by (simp add: shell_spaces_def)
    then have "shell_tokens None (c # s) = shell_tokens None s" by (rule shell_blank)
    with True Cons show ?thesis by (simp add: shell_spaces_def)
  qed simp
qed simp

lemma split_matches_shell:
  "shell_tokens None s = Some (map Word ws) \<Longrightarrow> shell_spaces s \<Longrightarrow> split_tokens s = filter (\<lambda>w. w \<noteq> []) ws"
proof (induction s arbitrary: ws rule: split_tokens.induct)
  case (1 s)
  let ?s = "dropWhile is_space s"
  have ok: "shell_spaces ?s" using 1(4) by (auto simp: shell_spaces_def list_all_iff dest: set_dropWhileD)
  have t: "shell_tokens None ?s = Some (map Word ws)" using 1(3) shell_skip_spaces [OF 1(4)] by simp
  obtain token r where tr: "read_token Unquoted [] ?s = (token, r)" by (cases "read_token Unquoted [] ?s")
  show ?case
  proof (cases "?s = []")
    case True
    with t have "ws = []" by (cases ws) (simp_all add: end_word_def)
    with True show ?thesis by (subst split_tokens.simps) (simp only: Let_def if_True, simp)
  next
    case False
    have "next_token token r ws" using read_word [OF t ok] tr by (simp add: started_def)
    then obtain more where more: "filter (\<lambda>w. w \<noteq> []) ws = (if token = [] then [] else [token]) @ filter (\<lambda>w. w \<noteq> []) more"
      "shell_tokens None r = Some (map Word more)" "shell_spaces r"
      by (auto simp: next_token_def)
    have "split_tokens r = filter (\<lambda>w. w \<noteq> []) more"
      using 1(1,2) [OF refl False refl tr [symmetric] _ more(2,3)] by (cases "token = []") auto
    with more(1) False tr show ?thesis
      by (subst split_tokens.simps) (simp only: Let_def if_False prod.case, simp)
  qed
qed

lemma read_escaped:
  "39 \<notin> set p \<Longrightarrow> read_token Unquoted token (39 # p @ escape_quotes v @ 39 # s) = read_token Unquoted (token @ p @ v) s"
proof (induction v arbitrary: p token)
  case Nil
  then show ?case by (simp add: read_single is_space_def)
next
  case (Cons c v)
  show ?case
  proof (cases "c = 39")
    case True
    have "read_token Unquoted token (39 # p @ escape_quotes (c # v) @ 39 # s) =
        read_token SingleQuote token (p @ 39 # 92 # 39 # 39 # escape_quotes v @ 39 # s)"
      using True by (simp add: escape_quotes_Cons is_space_def)
    also have "\<dots> = read_token Unquoted (token @ p @ [39]) (39 # [] @ escape_quotes v @ 39 # s)"
      using Cons.prems by (simp add: read_single is_space_def)
    also have "\<dots> = read_token Unquoted ((token @ p @ [39]) @ [] @ v) s" by (rule Cons.IH) simp
    finally show ?thesis using True by simp
  next
    case False
    then show ?thesis using Cons.IH [of "p @ [c]" token] Cons.prems by (simp add: escape_quotes_Cons)
  qed
qed

lemma read_quote: "read_token Unquoted token (quotePosixShellToken v @ s) = read_token Unquoted (token @ v) s"
  using read_escaped [of "[]" token v s] by (simp add: quotePosixShellToken_def)

lemma quote_starts: "dropWhile is_space (quotePosixShellToken v @ s) = quotePosixShellToken v @ s"
  by (simp add: quotePosixShellToken_def is_space_def)

lemma split_blank: "is_space c \<Longrightarrow> split_tokens (c # s) = split_tokens s"
  by (subst (1 2) split_tokens.simps) simp

lemma split_token:
  "dropWhile is_space s = s \<Longrightarrow> s \<noteq> [] \<Longrightarrow> read_token Unquoted [] s = (token, r) \<Longrightarrow> token \<noteq> [] \<Longrightarrow>
     split_tokens s = token # split_tokens r"
  by (subst split_tokens.simps) (simp only: Let_def if_False prod.case)

lemma split_quoted:
  assumes "v \<noteq> []" and "s = [] \<or> is_space (hd s)"
  shows "split_tokens (quotePosixShellToken v @ s) = v # split_tokens s"
proof -
  have "read_token Unquoted [] (quotePosixShellToken v @ s) = (v, s)"
    using assms(2) read_quote [of "[]" v "[]"] by (cases s) (auto simp: read_quote)
  then show ?thesis
    using split_token [OF quote_starts _ _ assms(1)] by (simp add: quotePosixShellToken_def)
qed

lemma split_Nil [simp]: "split_tokens [] = []"
  by (subst split_tokens.simps) simp

lemma split_quoted_words:
  "list_all (\<lambda>v. v \<noteq> []) vs \<Longrightarrow> split_tokens (join_with 32 (map quotePosixShellToken vs)) = vs"
proof (induction vs)
  case (Cons v vs)
  show ?case
  proof (cases vs)
    case Nil
    then show ?thesis using Cons.prems split_quoted [of v "[]"] by simp
  next
    case (Cons w ws)
    then have "join_with 32 (map quotePosixShellToken (v # vs)) =
        quotePosixShellToken v @ 32 # join_with 32 (map quotePosixShellToken vs)"
      by simp
    also have "split_tokens \<dots> = v # split_tokens (32 # join_with 32 (map quotePosixShellToken vs))"
      using Cons.prems by (intro split_quoted) (simp_all add: is_space_def)
    also have "\<dots> = v # vs" using Cons.IH Cons.prems by (simp add: split_blank is_space_def)
    finally show ?thesis .
  qed
qed simp

section \<open>Directories\<close>

text \<open>The walk over the segments of a path: what \<open>cd\<close> does in a tree without symbolic links.\<close>

definition walk :: "jstring list \<Rightarrow> jstring \<Rightarrow> jstring list" where
  "walk segs target = foldl (push_segment False) segs (split_on slash target)"

lemma walk_plain: "list_all plain_segment segs \<Longrightarrow> list_all plain_segment (walk segs target)"
proof -
  have "list_all plain_segment st \<Longrightarrow> \<forall>x\<in>set xs. slash \<notin> set x \<Longrightarrow>
      list_all plain_segment (foldl (push_segment False) st xs)" for st xs
    by (induction xs arbitrary: st) (simp_all add: push_segment_plain)
  then show "list_all plain_segment segs \<Longrightarrow> ?thesis" by (simp add: walk_def split_on_no_sep)
qed

lemma resolve_walks:
  assumes "list_all plain_segment segs" and "\<not> starts_with target [slash]"
  shows "posix_resolve2 processCwd (abs_path segs) target = abs_path (walk segs target)"
proof -
  have "normalize_segments False (split_on slash (abs_path segs @ slash # target)) = walk segs target"
  proof (cases "segs = []")
    case True
    then show ?thesis by (simp add: normalize_segments_def walk_def push_segment_def)
  next
    case False
    then show ?thesis
      using assms(1) by (simp add: split_on_prefix_sep split_abs_path normalize_segments_def walk_def
          push_segment_def [of False "[]" "[]"] foldl_push_plain)
  qed
  then show ?thesis using assms(2) by (simp add: posix_resolve2_def abs_path_def Let_def)
qed

definition cd_to :: "jstring \<Rightarrow> jstring" where
  "cd_to target = js ''cd '' @ quotePosixShellToken target"

text \<open>A relative target that \<open>cd\<close> does not read as an option, nor the code as the home directory.\<close>

definition relative_target :: "jstring \<Rightarrow> bool" where
  "relative_target target \<longleftrightarrow> target \<noteq> [] \<and> hd target \<notin> {45, 47, 126}"

lemma split_cd: "v \<noteq> [] \<Longrightarrow> splitCommandTokens (cd_to v) = [js ''cd'', v]"
proof -
  assume v: "v \<noteq> []"
  have cd: "js ''cd '' = [99, 100, 32]" "js ''cd'' = [99, 100]" by (simp_all add: js_simps)
  have "splitCommandTokens (cd_to v) = js ''cd'' # split_tokens (32 # quotePosixShellToken v)"
    unfolding splitCommandTokens_def cd_to_def cd by (subst split_tokens.simps) (simp add: is_space_def)
  also have "\<dots> = [js ''cd'', v]" using split_quoted [of v "[]"] v by (simp add: split_blank is_space_def)
  finally show ?thesis .
qed

lemma cd_target: "v \<noteq> [] \<Longrightarrow> hd v \<noteq> 45 \<Longrightarrow> resolveCdTarget [js ''cd'', v] = Some v"
  by (cases v) (auto simp: resolveCdTarget_def js_simps lower_case_def lower_unit_def)

lemma cd_walks:
  assumes "list_all plain_segment segs" and "relative_target target"
  shows "updateRemoteCompletionCwd processCwd home (Some (abs_path segs)) (cd_to target) = Some (abs_path (walk segs target))"
proof -
  obtain c t where t: "target = c # t" "c \<notin> {45, 47, 126}" using assms(2) by (cases target) (auto simp: relative_target_def)
  then have "\<not> starts_with target [slash]" "\<not> starts_with target [126, slash]" by auto
  with assms(1) t show ?thesis
    by (simp add: updateRemoteCompletionCwd_def split_cd cd_target Let_def resolve_walks walk_plain)
      (simp add: abs_path_def)
qed

lemma replay_walks:
  assumes "list_all plain_segment segs" and "list_all relative_target targets"
  shows "replayRemoteCompletionCwdCommands processCwd home (Some (abs_path segs)) (map cd_to targets) =
    Some (abs_path (foldl walk segs targets))"
  using assms unfolding replayRemoteCompletionCwdCommands_def
  by (induction targets arbitrary: segs) (simp_all add: cd_walks walk_plain)

section \<open>Prompts\<close>

lemma greedy_all: "list_all p s \<Longrightarrow> greedy p s = map (\<lambda>n. (take n s, drop n s)) (rev [0..<Suc (length s)])"
  by (simp add: greedy_def list_all_iff takeWhile_eq_all_conv [THEN iffD2])

lemma spaces_none: "s = [] \<or> \<not> is_space (hd s) \<Longrightarrow> spaces s = [s]"
  by (cases s) (auto simp: spaces_def greedy_def)

lemma path_then_sign_match:
  assumes "list_all (\<lambda>c. \<not> is_space c) path" and "path \<noteq> []" and "sign = 35 \<or> sign = 36"
  shows "first_match (path_then_sign (path @ [sign])) = Some path"
proof -
  have s: "\<not> is_space sign" using assms(3) by (auto simp: is_space_def)
  have "greedy (\<lambda>c. \<not> is_space c) (path @ [sign]) = (path @ [sign], []) # (path, [sign]) #
      map (\<lambda>n. (take n (path @ [sign]), drop n (path @ [sign]))) (rev [0..<length path])"
    using assms(1) s by (subst greedy_all) simp_all
  then show ?thesis
    using assms(2,3) s by (auto simp: path_then_sign_def spaces_none first_match_def)
qed

lemma tails_skip:
  "c \<notin> set p \<Longrightarrow> concat (map (\<lambda>s. if s \<noteq> [] \<and> hd s = c then f s else []) (tails (p @ c # s))) =
     f (c # s) @ concat (map (\<lambda>s. if s \<noteq> [] \<and> hd s = c then f s else []) (tails s))"
  by (induction p) auto

lemma host_prompt:
  assumes "58 \<notin> set host" and "list_all (\<lambda>c. \<not> is_space c) path" and "path \<noteq> []" and "sign = 35 \<or> sign = 36"
  shows "hostPromptMatch (host @ 58 # path @ [sign]) = Some path"
proof -
  have "\<not> is_space (hd (path @ [sign]))" using assms(2,3) by (cases path) auto
  then have "concat (map path_then_sign (spaces (path @ [sign]))) = path_then_sign (path @ [sign])"
    by (simp add: spaces_none)
  moreover have "path_then_sign (path @ [sign]) \<noteq> []" "hd (path_then_sign (path @ [sign])) = path"
    using path_then_sign_match [OF assms(2-4)] by (auto simp: first_match_def split: list.splits)
  ultimately show ?thesis
    unfolding hostPromptMatch_def tails_skip [OF assms(1)]
    by (cases "path_then_sign (path @ [sign])") (simp_all add: first_match_def)
qed

lemma split_on_last_line: "10 \<notin> set line \<Longrightarrow> split_on 10 (earlier @ 10 # line) = split_on 10 earlier @ [line]"
  by (simp add: split_on_prefix_sep split_on_plain)

lemma trim_prompt:
  "\<not> is_space (hd s) \<Longrightarrow> \<not> is_space c \<Longrightarrow> s \<noteq> [] \<Longrightarrow> trim (s @ [c, 32]) = s @ [c]"
proof -
  assume s: "\<not> is_space (hd s)" "\<not> is_space c" "s \<noteq> []"
  then have "trim_start (s @ [c, 32]) = s @ [c, 32]" by (cases s) (simp_all add: trim_start_def)
  moreover have "is_space 32" by (simp add: is_space_def)
  ultimately show ?thesis using s(2) by (simp add: trim_def trim_end_def)
qed

text \<open>The directory that a prompt of the form "host:path$ " shows on the last line of the output is the one
  the session follows, whatever was printed before and whatever the directory was.\<close>
theorem prompt_shows_directory:
  assumes "58 \<notin> set host" and "10 \<notin> set host" and "host \<noteq> []" and "\<not> is_space (hd host)"
    and "list_all (\<lambda>c. \<not> is_space c) path" and "starts_with path [slash]" and "sign = 35 \<or> sign = 36"
  shows "resolveRemotePromptCwd (earlier @ [10] @ host @ [58] @ path @ [sign, 32]) currentCwd home =
    Some (posix_normalize path)"
proof -
  let ?line = "host @ 58 # path @ [sign]"
  obtain p where path: "path = slash # p" using assms(6) by (auto simp: prefix_def)
  have "is_space 10" by (simp add: is_space_def)
  with assms(5) have "10 \<notin> set path" by (auto simp: list_all_iff)
  then have "10 \<notin> set (?line @ [32])" using assms(2,7) by auto
  moreover have "earlier @ [10] @ host @ [58] @ path @ [sign, 32] = earlier @ 10 # (?line @ [32])" by simp
  ultimately have split: "split_on 10 (earlier @ [10] @ host @ [58] @ path @ [sign, 32]) = split_on 10 earlier @ [?line @ [32]]"
    by (simp only: split_on_last_line not_False_eq_True)
  have line: "trim (?line @ [32]) = ?line"
    using trim_prompt [of "host @ 58 # path" sign] assms(3,4,7) by (auto simp: is_space_def hd_append)
  have lines: "rev (filter (\<lambda>line. length line > 0)
      (map trim (split_on 10 (earlier @ [10] @ host @ [58] @ path @ [sign, 32])))) =
    ?line # rev (filter (\<lambda>line. length line > 0) (map trim (split_on 10 earlier)))"
    unfolding split map_append list.map line by simp
  have "prompt_candidate ?line = path"
    using host_prompt [OF assms(1,5) _ assms(7)] path by (simp add: prompt_candidate_def)
  then show ?thesis
    unfolding resolveRemotePromptCwd_def lines by (simp add: path Let_def)
qed

theorem prompt_shows_directory_witness:
  "resolveRemotePromptCwd (js ''ls'' @ [10] @ js ''u@h'' @ [58] @ js ''/a/../b'' @ [36, 32]) None None = Some (js ''/b'')"
proof -
  have split: "split_on slash (js ''/a/../b'') = [[], [97], dotdot, [98]]"
    by (simp add: js_simps)
  have "normalize_segments False [[], [97], dotdot, [98]] = [[98]]"
    by (simp add: normalize_segments_def push_segment_def)
  then have "posix_normalize (js ''/a/../b'') = js ''/b''"
    by (simp add: posix_normalize_def split Let_def) (simp add: js_simps)
  moreover have "58 \<notin> set (js ''u@h'')" "10 \<notin> set (js ''u@h'')" "\<not> is_space (hd (js ''u@h''))"
    "list_all (\<lambda>c. \<not> is_space c) (js ''/a/../b'')" "starts_with (js ''/a/../b'') [slash]"
    by (simp_all add: js_simps is_space_def)
  ultimately show ?thesis
    using prompt_shows_directory [of "js ''u@h''" "js ''/a/../b''" 36 "js ''ls''" None None] by simp
qed

section \<open>Properties of commands\<close>

text \<open>C17: Wherever a POSIX shell reads a command as plain words (no operator, expansion or double quote) and
  separates them by spaces and tabs, the tokenizer reads the same words, the empty ones left out.\<close>
theorem tokens_match_shell:
  assumes "shell_tokens None command = Some (map Word ws)" and "shell_spaces command"
  shows "splitCommandTokens command = filter (\<lambda>w. w \<noteq> []) ws"
  using split_matches_shell [OF assms] by (simp add: splitCommandTokens_def)

theorem tokens_match_shell_witness:
  "splitCommandTokens (js ''cd '' @ [39, 97, 32, 98, 39]) = [js ''cd'', [97, 32, 98]]"
proof -
  have "shell_tokens None (js ''cd '' @ [39, 97, 32, 98, 39]) = Some (map Word [js ''cd'', [97, 32, 98]])"
    by (simp add: js_simps shell_tokens.simps(2) shell_special_def extend_word_def end_word_def Let_def)
  moreover have "shell_spaces (js ''cd '' @ [39, 97, 32, 98, 39])" by (simp add: js_simps shell_spaces_def is_space_def)
  ultimately show ?thesis using tokens_match_shell [of _ "[js ''cd'', [97, 32, 98]]"] by simp
qed

text \<open>Words quoted for the shell come back from the tokenizer unchanged, whatever they contain.\<close>
theorem quoted_words_roundtrip:
  assumes "list_all (\<lambda>w. w \<noteq> []) ws"
  shows "splitCommandTokens (join_with 32 (map quotePosixShellToken ws)) = ws"
  using split_quoted_words [OF assms] by (simp add: splitCommandTokens_def)

theorem quoted_words_roundtrip_witness:
  "splitCommandTokens (join_with 32 (map quotePosixShellToken [js ''cd'', [39, 10, 92]])) = [js ''cd'', [39, 10, 92]]"
  using quoted_words_roundtrip [of "[js ''cd'', [39, 10, 92]]"] by simp

text \<open>C18: Replaying changes of directory on the text of a path follows the walk over its segments: each relative
  target is taken from the directory reached, and ".." leaves it.\<close>
theorem replay_refines_walk:
  assumes "list_all plain_segment segs" and "list_all relative_target targets"
  shows "replayRemoteCompletionCwdCommands processCwd home (Some (abs_path segs)) (map cd_to targets) =
    Some (abs_path (foldl walk segs targets))"
  by (rule replay_walks [OF assms])

theorem replay_refines_walk_witness:
  "replayRemoteCompletionCwdCommands [] None (Some (abs_path [js ''a'']))
     (map cd_to [js ''b c/d'', js ''../..'', js ''e'']) = Some (abs_path [js ''a'', js ''e''])"
proof -
  have "list_all plain_segment [js ''a'']" by (simp add: plain_segment_def js_simps)
  moreover have "list_all relative_target [js ''b c/d'', js ''../..'', js ''e'']"
    by (simp add: relative_target_def js_simps)
  moreover have "foldl walk [js ''a''] [js ''b c/d'', js ''../..'', js ''e''] = [js ''a'', js ''e'']"
    by (simp add: walk_def js_simps push_segment_def)
  ultimately show ?thesis using replay_refines_walk [of "[js ''a'']" "[js ''b c/d'', js ''../..'', js ''e'']" "[]" None] by simp
qed

text \<open>"cd -" is taken for a change to the home directory: the dash is skipped as an option, so the test for
  the previous directory is never reached.\<close>
theorem cd_dash_goes_home:
  "updateRemoteCompletionCwd processCwd home currentCwd (js ''cd -'') =
     (case clean_home home of Some h \<Rightarrow> Some (posix_normalize h) | None \<Rightarrow> currentCwd)"
proof -
  have "read_token Unquoted [] (js ''cd -'') = (js ''cd'', [32, 45])" by (simp add: js_simps is_space_def)
  moreover have "dropWhile is_space (js ''cd -'') = js ''cd -''" by (simp add: js_simps is_space_def)
  ultimately have "split_tokens (js ''cd -'') = js ''cd'' # split_tokens [32, 45]"
    by (intro split_token) simp_all
  also have "split_tokens [32, 45] = [[45]]"
    using split_token [of "[45]" "[45]" "[]"] by (simp add: split_blank is_space_def)
  finally have "resolveCdTarget (splitCommandTokens (js ''cd -'')) = Some [126]"
    by (simp add: splitCommandTokens_def resolveCdTarget_def js_simps lower_case_def lower_unit_def)
  then show ?thesis by (simp add: updateRemoteCompletionCwd_def)
qed

section \<open>Properties of the output\<close>

text \<open>An operating-system command that ends with a string terminator swallows the visible text after it, up
  to the next bell: the expression for its body also takes the terminator.\<close>
theorem visible_text_lost:
  assumes "7 \<notin> set title" and "7 \<notin> set visible"
  shows "stripAnsiCodes ([27, 93] @ title @ [27, 92] @ visible @ [7]) = []"
proof -
  have "7 \<notin> set (title @ [27, 92] @ visible)" using assms by simp
  then have "dropWhile (\<lambda>c. c \<noteq> 7) ((title @ [27, 92] @ visible) @ 7 # []) = 7 # []" by (rule dropWhile_not_in)
  then have "osc_end (title @ [27, 92] @ visible @ [7]) = Some []" by (simp add: osc_end_def)
  then show ?thesis by (simp add: stripAnsiCodes_def strip_osc.simps(2))
qed

theorem visible_text_lost_witness: "stripAnsiCodes ([27, 93] @ js ''0;t'' @ [27, 92] @ js ''user$ '' @ [7]) = []"
  using visible_text_lost [of "js ''0;t''" "js ''user$ ''"] by (simp add: js_simps)

datatype prompt_event = OutputChunk jstring int | InputData jstring

fun prompt_step :: "prompt_state \<Rightarrow> prompt_event \<Rightarrow> prompt_state" where
  "prompt_step state (OutputChunk chunk now) = updatePromptStateFromOutput state chunk now"
| "prompt_step state (InputData data) = updatePromptStateFromInput state data"

definition fresh_prompt :: prompt_state where
  "fresh_prompt = \<lparr>outputTail = [], promptDetectedAtMs = 0, shouldSuggestSecret = False\<rparr>"

text \<open>The prompt is still waiting after event \<open>e\<close>: no line was entered, and at most 45 seconds have passed.\<close>

fun still_waiting :: "int \<Rightarrow> prompt_event \<Rightarrow> bool" where
  "still_waiting t (OutputChunk chunk now) \<longleftrightarrow> now - t \<le> SECRET_PROMPT_MAX_ACTIVE_MS"
| "still_waiting t (InputData data) \<longleftrightarrow> 13 \<notin> set data \<and> 10 \<notin> set data"

definition shows_prompt :: "prompt_state \<Rightarrow> jstring \<Rightarrow> bool" where
  "shows_prompt state chunk \<longleftrightarrow> secret_prompt (trim (last (split_on 10 (normalizeTail (outputTail state @ chunk)))))"

definition prompted :: "prompt_event list \<Rightarrow> int \<Rightarrow> bool" where
  "prompted evs t \<longleftrightarrow> (\<exists>before chunk later. evs = before @ OutputChunk chunk t # later \<and>
     shows_prompt (foldl prompt_step fresh_prompt before) chunk \<and> list_all (still_waiting t) later)"

lemma prompted_snoc: "prompted evs t \<Longrightarrow> still_waiting t e \<Longrightarrow> prompted (evs @ [e]) t"
  unfolding prompted_def list_all_iff
proof (elim exE conjE)
  fix before chunk later
  assume "evs = before @ OutputChunk chunk t # later" "shows_prompt (foldl prompt_step fresh_prompt before) chunk"
    "\<forall>x\<in>set later. still_waiting t x" "still_waiting t e"
  then show "\<exists>before chunk later. evs @ [e] = before @ OutputChunk chunk t # later \<and>
      shows_prompt (foldl prompt_step fresh_prompt before) chunk \<and> (\<forall>x\<in>set later. still_waiting t x)"
    by (intro exI [of _ before] exI [of _ chunk] exI [of _ "later @ [e]"]) auto
qed

lemma suggestion_prompted:
  "shouldSuggestSecret (foldl prompt_step fresh_prompt evs) \<Longrightarrow>
     prompted evs (promptDetectedAtMs (foldl prompt_step fresh_prompt evs))"
proof (induction evs rule: rev_induct)
  case (snoc e evs)
  let ?s = "foldl prompt_step fresh_prompt evs"
  show ?case
  proof (cases e)
    case (OutputChunk chunk now)
    show ?thesis
    proof (cases "shows_prompt ?s chunk")
      case True
      then have "prompted (evs @ [e]) now"
        using OutputChunk unfolding prompted_def by (intro exI [of _ evs] exI [of _ chunk] exI [of _ "[]"]) simp
      then show ?thesis
        using OutputChunk True by (simp add: updatePromptStateFromOutput_def Let_def shows_prompt_def)
    next
      case False
      then have "foldl prompt_step fresh_prompt (evs @ [e]) = \<lparr>outputTail = normalizeTail (outputTail ?s @ chunk),
          promptDetectedAtMs = promptDetectedAtMs ?s, shouldSuggestSecret = True\<rparr>"
        "shouldSuggestSecret ?s" "still_waiting (promptDetectedAtMs ?s) e"
        using snoc.prems OutputChunk
        by (auto simp: updatePromptStateFromOutput_def Let_def shows_prompt_def split: if_splits)
      with prompted_snoc [OF snoc.IH] show ?thesis by simp
    qed
  next
    case (InputData data)
    then have "foldl prompt_step fresh_prompt (evs @ [e]) = ?s" "still_waiting (promptDetectedAtMs ?s) e"
      using snoc.prems by (auto simp: updatePromptStateFromInput_def split: if_splits)
    with prompted_snoc [OF snoc.IH] snoc.prems show ?thesis by simp
  qed
qed (simp add: fresh_prompt_def)

text \<open>C19: The session offers the stored secret only when a prompt for one was the last visible line of some output,
  no line has been entered since, and every later output came within 45 seconds of it.\<close>
theorem secret_only_after_prompt:
  assumes "shouldSuggestSecret (foldl prompt_step fresh_prompt evs)"
  shows "\<exists>before chunk t later. evs = before @ OutputChunk chunk t # later \<and>
    shows_prompt (foldl prompt_step fresh_prompt before) chunk \<and> list_all (still_waiting t) later"
  using suggestion_prompted [OF assms] unfolding prompted_def by blast

lemma sample_prompt: "shows_prompt fresh_prompt (js ''Password:'')"
proof -
  have "stripAnsiCodes (js ''Password:'') = js ''Password:''"
    by (simp add: stripAnsiCodes_def js_simps strip_osc.simps(2) strip_csi.simps(2))
  then have "normalizeTail (js ''Password:'') = js ''Password:''"
    by (simp add: normalizeTail_def Let_def SECRET_PROMPT_TAIL_MAX_LENGTH_def) (simp add: js_simps)
  moreover have "trim (last (split_on 10 (js ''Password:''))) = js ''Password:''"
    by (simp add: js_simps trim_def trim_start_def trim_end_def is_space_def)
  moreover have "literal (js ''password'') (js ''Password:'') = [js '':'']"
    by (simp add: literal_def js_simps lower_case_def lower_unit_def)
  moreover have "prompt_end (js '' for '') (js '':'')"
    by (simp add: prompt_end_def followed_def for_clause_def literal_def js_simps lower_case_def lower_unit_def
        spaces_def greedy_def)
  ultimately show ?thesis
    by (simp add: shows_prompt_def fresh_prompt_def secret_prompt_def password_prompt_def)
qed

theorem secret_only_after_prompt_witness:
  "\<exists>before chunk t later. [OutputChunk (js ''Password:'') 7, InputData (js ''x'')] = before @ OutputChunk chunk t # later \<and>
    shows_prompt (foldl prompt_step fresh_prompt before) chunk \<and> list_all (still_waiting t) later"
proof (rule secret_only_after_prompt)
  have "shouldSuggestSecret (prompt_step fresh_prompt (OutputChunk (js ''Password:'') 7))"
    using sample_prompt by (simp add: updatePromptStateFromOutput_def Let_def shows_prompt_def)
  then show "shouldSuggestSecret (foldl prompt_step fresh_prompt [OutputChunk (js ''Password:'') 7, InputData (js ''x'')])"
    by (simp add: updatePromptStateFromInput_def js_simps)
qed

end
