(* ===== verification/PaneState.thy ===== *)
theory PaneState
  imports RemoteShellProofs Contracts
begin

text \<open>
  The declarative state of the terminal panes (packages/renderer/src/pages/ssh/ssh-pane-state.ts)
  and the projections of the command timeline
  (packages/renderer/src/pages/ssh/terminal-command-timeline-state.ts). The reducer consumes the
  helper events that the backend validated (theory \<open>RemoteShellEvents\<close>). Panes are the entries of an
  object keyed by generated ids.
\<close>

section \<open>Data\<close>

datatype connection_state = Connecting | Connected | ConnectionFailed

record telemetry =
  cpuUsagePercent :: "jsnum option"
  memoryUsedBytes :: "jsnum option"
  memoryTotalBytes :: "jsnum option"
  networkRxBytesPerSec :: "jsnum option"
  networkTxBytesPerSec :: "jsnum option"
  tm_recentCommands :: "jstring list"

record bootstrap_status =
  bs_phase :: jstring
  bs_state :: jstring
  bs_version :: "jstring option"
  bs_code :: "jstring option"
  bs_message :: "jstring option"

datatype runtime_state = RuntimePending | RuntimeActive | RuntimeDisabled

record runtime_status =
  rs_state :: runtime_state
  rs_helperVersion :: "jstring option"
  rs_protocolVersion :: "jsnum option"
  rs_capabilities :: "jstring list option"
  rs_code :: "jstring option"
  rs_message :: "jstring option"

datatype server_message =
    ReadyMessage
  | OutputMessage jstring
  | ErrorMessage jstring
  | ExitMessage jstring
  | PongMessage
  | TelemetryMessage telemetry
  | HistoryMessage "jstring list"
  | CompletionResponse jstring
  | BootstrapStatus bootstrap_status
  | RuntimeStatus runtime_status
  | ShellEvent shell_event

record line_state =
  ls_lineLength :: jsnum
  ls_cursorIndex :: jsnum
  ls_promptGeneration :: jsnum

record command_lifecycle =
  cl_commandId :: jstring
  cl_command :: jstring
  cl_startedAt :: rat
  cl_endedAt :: "rat option"
  cl_durationMs :: "jsnum option"
  cl_exitCode :: "jsnum option"

record pane =
  connectionState :: connection_state
  connectionError :: jstring
  telemetryState :: telemetry
  remoteBootstrapStatus :: "bootstrap_status option"
  remoteEnhancementRuntimeStatus :: "runtime_status option"
  debugEvents :: "(rat \<times> server_message) list"
  trustedCwd :: "jstring option"
  promptGeneration :: "jsnum option"
  lineState :: "line_state option"
  commandTimeline :: "command_lifecycle list"

datatype pane_action =
    EnsurePane jstring
  | ResetPane jstring
  | RemovePane jstring
  | TransportState jstring connection_state "jstring option"
  | ServerMessage jstring server_message rat

type_synonym pane_map = "(jstring \<times> pane) list"

definition DEBUG_EVENT_MAX_COUNT :: nat where "DEBUG_EVENT_MAX_COUNT = 200"
definition COMMAND_TIMELINE_MAX_COUNT :: nat where "COMMAND_TIMELINE_MAX_COUNT = 200"

section \<open>The reducer\<close>

definition DEFAULT_TELEMETRY_STATE :: telemetry where
  "DEFAULT_TELEMETRY_STATE =
     \<lparr>cpuUsagePercent = None, memoryUsedBytes = None, memoryTotalBytes = None,
      networkRxBytesPerSec = None, networkTxBytesPerSec = None, tm_recentCommands = []\<rparr>"

definition createSshPaneState :: pane where
  "createSshPaneState =
     \<lparr>connectionState = Connecting, connectionError = [],
      telemetryState = DEFAULT_TELEMETRY_STATE\<lparr>tm_recentCommands := []\<rparr>,
      remoteBootstrapStatus = None, remoteEnhancementRuntimeStatus = None, debugEvents = [],
      trustedCwd = None, promptGeneration = None, lineState = None, commandTimeline = []\<rparr>"

definition appendDebugEvent :: "(rat \<times> server_message) list \<Rightarrow> server_message \<Rightarrow> rat \<Rightarrow> (rat \<times> server_message) list" where
  "appendDebugEvent evs payload receivedAt =
     slice_last (DEBUG_EVENT_MAX_COUNT - 1) evs @ [(receivedAt, payload)]"

definition appendCommandStart ::
    "command_lifecycle list \<Rightarrow> jstring \<Rightarrow> jstring \<Rightarrow> rat \<Rightarrow> command_lifecycle list" where
  "appendCommandStart timeline command commandId receivedAt =
     (case find_index (\<lambda>e. cl_commandId e = commandId) timeline of
        Some i \<Rightarrow> timeline
      | None \<Rightarrow> slice_last (COMMAND_TIMELINE_MAX_COUNT - 1) timeline @
          [\<lparr>cl_commandId = commandId, cl_command = command, cl_startedAt = receivedAt,
            cl_endedAt = None, cl_durationMs = None, cl_exitCode = None\<rparr>])"

fun num_value :: "jsnum \<Rightarrow> rat" where
  "num_value (Num q) = q"
| "num_value _ = 0"

definition applyCommandEnd ::
    "command_lifecycle list \<Rightarrow> jstring \<Rightarrow> jstring \<Rightarrow> jsnum \<Rightarrow> jsnum \<Rightarrow> rat \<Rightarrow> command_lifecycle list" where
  "applyCommandEnd timeline command commandId exitCode durationMs receivedAt =
     (case find_index (\<lambda>e. cl_commandId e = commandId) timeline of
        None \<Rightarrow> slice_last (COMMAND_TIMELINE_MAX_COUNT - 1) timeline @
          [\<lparr>cl_commandId = commandId, cl_command = command,
            cl_startedAt = max 0 (receivedAt - num_value durationMs),
            cl_endedAt = Some receivedAt, cl_durationMs = Some durationMs, cl_exitCode = Some exitCode\<rparr>]
      | Some i \<Rightarrow> timeline[i := (timeline ! i)\<lparr>cl_command := command, cl_endedAt := Some receivedAt,
          cl_durationMs := Some durationMs, cl_exitCode := Some exitCode\<rparr>])"

definition reduceShellEvent :: "pane \<Rightarrow> shell_event \<Rightarrow> rat \<Rightarrow> pane" where
  "reduceShellEvent state e receivedAt =
     (let nextState = state\<lparr>debugEvents := appendDebugEvent (debugEvents state) (ShellEvent e) receivedAt\<rparr>
      in case se_detail e of
           Cwd cwd \<Rightarrow> nextState\<lparr>trustedCwd := Some cwd\<rparr>
         | PromptReady generation \<Rightarrow>
             nextState\<lparr>promptGeneration :=
               (case generation of None \<Rightarrow> promptGeneration nextState | Some g \<Rightarrow> Some g), lineState := None\<rparr>
         | LineState len cursor generation \<Rightarrow>
             if promptGeneration nextState \<noteq> None \<and> promptGeneration nextState \<noteq> Some generation
             then nextState
             else nextState\<lparr>promptGeneration := Some generation,
                    lineState := Some \<lparr>ls_lineLength = len, ls_cursorIndex = cursor,
                      ls_promptGeneration = generation\<rparr>\<rparr>
         | CommandStart command commandId \<Rightarrow>
             nextState\<lparr>lineState := None,
               commandTimeline := appendCommandStart (commandTimeline nextState) command commandId receivedAt\<rparr>
         | CommandEnd command commandId exitCode durationMs \<Rightarrow>
             nextState\<lparr>commandTimeline :=
               applyCommandEnd (commandTimeline nextState) command commandId exitCode durationMs receivedAt\<rparr>
         | _ \<Rightarrow> nextState)"

definition reduceServerMessage :: "pane \<Rightarrow> server_message \<Rightarrow> rat \<Rightarrow> pane" where
  "reduceServerMessage state payload receivedAt =
     (case payload of
        ReadyMessage \<Rightarrow> state\<lparr>connectionState := Connected, connectionError := []\<rparr>
      | ErrorMessage message \<Rightarrow> state\<lparr>connectionState := ConnectionFailed, connectionError := message\<rparr>
      | ExitMessage reason \<Rightarrow> state\<lparr>connectionState := ConnectionFailed, connectionError := reason\<rparr>
      | TelemetryMessage t \<Rightarrow> state\<lparr>telemetryState := t\<rparr>
      | HistoryMessage commands \<Rightarrow>
          state\<lparr>telemetryState := (telemetryState state)\<lparr>tm_recentCommands := commands\<rparr>\<rparr>
      | BootstrapStatus b \<Rightarrow>
          state\<lparr>remoteBootstrapStatus := Some b,
                debugEvents := appendDebugEvent (debugEvents state) payload receivedAt\<rparr>
      | RuntimeStatus r \<Rightarrow>
          (let s = state\<lparr>remoteEnhancementRuntimeStatus := Some r,
                 debugEvents := appendDebugEvent (debugEvents state) payload receivedAt\<rparr>
           in if rs_state r = RuntimeActive then s
              else s\<lparr>trustedCwd := None, promptGeneration := None, lineState := None\<rparr>)
      | ShellEvent e \<Rightarrow> reduceShellEvent state e receivedAt
      | _ \<Rightarrow> state)"

definition pane_of :: "pane_map \<Rightarrow> jstring \<Rightarrow> pane" where
  "pane_of state i = (case map_of state i of None \<Rightarrow> createSshPaneState | Some p \<Rightarrow> p)"

fun reduceSshPaneState :: "pane_map \<Rightarrow> pane_action \<Rightarrow> pane_map" where
  "reduceSshPaneState state (RemovePane i) =
     (if map_of state i = None then state else map_delete i state)"
| "reduceSshPaneState state (ResetPane i) = map_set i createSshPaneState state"
| "reduceSshPaneState state (EnsurePane i) =
     (if map_of state i \<noteq> None then state else map_set i createSshPaneState state)"
| "reduceSshPaneState state (TransportState i conn err) =
     map_set i ((pane_of state i)\<lparr>connectionState := conn,
       connectionError := (case err of Some e \<Rightarrow> e
         | None \<Rightarrow> if conn = ConnectionFailed then connectionError (pane_of state i) else [])\<rparr>) state"
| "reduceSshPaneState state (ServerMessage i payload receivedAt) =
     map_set i (reduceServerMessage (pane_of state i) payload receivedAt) state"

section \<open>The compact timeline\<close>

definition ENTRY_ITEM_LIMIT :: nat where "ENTRY_ITEM_LIMIT = 8"
definition MENU_ITEM_LIMIT :: nat where "MENU_ITEM_LIMIT = 100"
definition ENTRY_LINE_HEIGHT_PX :: rat where "ENTRY_LINE_HEIGHT_PX = 2"
definition ENTRY_LINE_GAP_PX :: rat where "ENTRY_LINE_GAP_PX = 10"
definition ENTRY_HIT_PADDING_PX :: rat where "ENTRY_HIT_PADDING_PX = 8"
definition IDLE_TIMEOUT_MS :: rat where "IDLE_TIMEOUT_MS = 5000"

definition selectCommandTimelineMenuItems :: "'a list \<Rightarrow> 'a list" where
  "selectCommandTimelineMenuItems items = slice_last MENU_ITEM_LIMIT items"

definition selectCommandTimelineEntryItems :: "'a list \<Rightarrow> 'a list" where
  "selectCommandTimelineEntryItems items = slice_last ENTRY_ITEM_LIMIT items"

definition resolveCommandTimelineEntryHeight :: "jsnum \<Rightarrow> rat" where
  "resolveCommandTimelineEntryHeight itemCount =
     (let normalizedItemCount = (case itemCount of Num q \<Rightarrow> max 0 \<lfloor>q\<rfloor> | _ \<Rightarrow> 0);
          visibleItemCount = min (int ENTRY_ITEM_LIMIT) normalizedItemCount
      in if visibleItemCount = 0 then 0
         else of_int visibleItemCount * ENTRY_LINE_HEIGHT_PX +
              of_int (visibleItemCount - 1) * ENTRY_LINE_GAP_PX)"

definition resolveCommandTimelineEntryHitHeight :: "jsnum \<Rightarrow> rat" where
  "resolveCommandTimelineEntryHitHeight itemCount =
     (let entryHeight = resolveCommandTimelineEntryHeight itemCount
      in if entryHeight = 0 then 0 else entryHeight + ENTRY_HIT_PADDING_PX * 2)"

definition resolveCommandTimelineIdleDelay :: "rat \<Rightarrow> rat \<Rightarrow> rat" where
  "resolveCommandTimelineIdleDelay lastActivityAt now =
     (let elapsed = max 0 (now - lastActivityAt) in max 0 (IDLE_TIMEOUT_MS - elapsed))"

definition shouldShowCommandTimelineEntry :: "bool \<Rightarrow> bool \<Rightarrow> bool \<Rightarrow> bool" where
  "shouldShowCommandTimelineEntry historyVisible activityVisible menuOpen =
     (historyVisible \<and> (activityVisible \<or> menuOpen))"

definition shouldDismissCommandTimelineForPointerLeave :: "bool \<Rightarrow> bool \<Rightarrow> bool \<Rightarrow> bool \<Rightarrow> bool" where
  "shouldDismissCommandTimelineForPointerLeave insideTrigger insideContent actionMenuOpen insideActionMenu =
     (\<not> actionMenuOpen \<and> \<not> insideTrigger \<and> \<not> insideContent \<and> \<not> insideActionMenu)"

section \<open>Bounded logs\<close>

lemma slice_snoc: "0 < n \<Longrightarrow> slice_last (n - 1) xs @ [x] = slice_last n (xs @ [x])"
  by (cases n) (simp_all add: slice_last_def)

interpretation debug_log: bounded_log "\<lambda>(t, p) evs. appendDebugEvent evs p t" "\<lambda>evs. evs" DEBUG_EVENT_MAX_COUNT
proof
  fix x :: "rat \<times> server_message" and l
  show "(case x of (t, p) \<Rightarrow> \<lambda>evs. appendDebugEvent evs p t) l = slice_last DEBUG_EVENT_MAX_COUNT (l @ [x])"
    unfolding appendDebugEvent_def prod.case_eq_if prod.collapse
    by (rule slice_snoc) (simp add: DEBUG_EVENT_MAX_COUNT_def)
qed

section \<open>The invariant of a pane\<close>

definition lifecycle_ok :: "command_lifecycle \<Rightarrow> bool" where
  "lifecycle_ok e \<longleftrightarrow> (cl_endedAt e = None \<longleftrightarrow> cl_durationMs e = None) \<and>
     (cl_endedAt e = None \<longleftrightarrow> cl_exitCode e = None)"

definition pane_ok :: "pane \<Rightarrow> bool" where
  "pane_ok p \<longleftrightarrow>
     length (debugEvents p) \<le> DEBUG_EVENT_MAX_COUNT \<and>
     length (commandTimeline p) \<le> COMMAND_TIMELINE_MAX_COUNT \<and>
     distinct (map cl_commandId (commandTimeline p)) \<and> list_all lifecycle_ok (commandTimeline p) \<and>
     (\<forall>l. lineState p = Some l \<longrightarrow> promptGeneration p = Some (ls_promptGeneration l))"

lemma create_ok [simp]: "pane_ok createSshPaneState"
  by (simp add: pane_ok_def createSshPaneState_def)

lemma debug_bounded: "length (appendDebugEvent evs p t) \<le> DEBUG_EVENT_MAX_COUNT"
  using debug_log.append_bounded [of "(t, p)" evs] by simp

definition timeline_ok :: "command_lifecycle list \<Rightarrow> bool" where
  "timeline_ok es \<longleftrightarrow> length es \<le> COMMAND_TIMELINE_MAX_COUNT \<and> distinct (map cl_commandId es) \<and>
     list_all lifecycle_ok es"

lemma timeline_push:
  assumes ok: "timeline_ok es" and new: "find_index (\<lambda>e. cl_commandId e = cl_commandId x) es = None"
    and x: "lifecycle_ok x"
  shows "timeline_ok (slice_last (COMMAND_TIMELINE_MAX_COUNT - 1) es @ [x])"
proof -
  let ?s = "slice_last (COMMAND_TIMELINE_MAX_COUNT - 1) es"
  have sub: "set ?s \<subseteq> set es" by (rule set_slice_last_subset)
  have "distinct (map cl_commandId ?s)"
    using ok by (simp add: timeline_ok_def slice_last_def drop_map [symmetric])
  moreover have "cl_commandId x \<notin> cl_commandId ` set ?s"
    using new sub unfolding find_index_None_iff by force
  moreover have "list_all lifecycle_ok ?s" using ok sub by (auto simp: timeline_ok_def list_all_iff)
  ultimately show ?thesis using x by (simp add: timeline_ok_def COMMAND_TIMELINE_MAX_COUNT_def)
qed

lemma start_timeline_ok:
  "timeline_ok es \<Longrightarrow> timeline_ok (appendCommandStart es command commandId t)"
  by (auto simp: appendCommandStart_def lifecycle_ok_def simp del: One_nat_def
      intro!: timeline_push split: option.split)

lemma end_timeline_ok:
  assumes "timeline_ok es"
  shows "timeline_ok (applyCommandEnd es command commandId code dur t)"
proof (cases "find_index (\<lambda>e. cl_commandId e = commandId) es")
  case None
  then show ?thesis
    using assms by (auto simp: applyCommandEnd_def lifecycle_ok_def simp del: One_nat_def intro!: timeline_push)
next
  case (Some i)
  let ?e = "(es ! i)\<lparr>cl_command := command, cl_endedAt := Some t, cl_durationMs := Some dur, cl_exitCode := Some code\<rparr>"
  have i: "i < length es" using find_index_SomeD [OF Some] by blast
  then have "map cl_commandId (es[i := ?e]) = map cl_commandId es"
    by (simp add: map_update) (metis length_map list_update_id nth_map)
  moreover have "list_all lifecycle_ok (es[i := ?e])"
    using assms by (auto simp: timeline_ok_def list_all_iff lifecycle_ok_def dest!: set_update_subset_insert [THEN subsetD])
  ultimately show ?thesis using assms Some by (simp add: applyCommandEnd_def timeline_ok_def)
qed

lemma pane_ok_timeline:
  "pane_ok p \<longleftrightarrow> length (debugEvents p) \<le> DEBUG_EVENT_MAX_COUNT \<and> timeline_ok (commandTimeline p) \<and>
     (\<forall>l. lineState p = Some l \<longrightarrow> promptGeneration p = Some (ls_promptGeneration l))"
  by (auto simp: pane_ok_def timeline_ok_def)

lemma shell_event_pane_ok:
  assumes "pane_ok p"
  shows "pane_ok (reduceShellEvent p e t)"
  using assms debug_bounded start_timeline_ok end_timeline_ok
  by (cases "se_detail e") (auto simp: pane_ok_timeline reduceShellEvent_def Let_def split: option.split)

lemma message_pane_ok: "pane_ok p \<Longrightarrow> pane_ok (reduceServerMessage p m t)"
  using debug_bounded shell_event_pane_ok
  by (cases m) (auto simp: reduceServerMessage_def Let_def pane_ok_timeline)

definition panes_ok :: "pane_map \<Rightarrow> bool" where
  "panes_ok s \<longleftrightarrow> distinct (map fst s) \<and> (\<forall>i p. map_of s i = Some p \<longrightarrow> pane_ok p)"

lemma pane_of_ok: "panes_ok s \<Longrightarrow> pane_ok (pane_of s i)"
  by (auto simp: panes_ok_def pane_of_def split: option.split)

lemma map_set_panes_ok: "panes_ok s \<Longrightarrow> pane_ok p \<Longrightarrow> panes_ok (map_set i p s)"
  by (auto simp: panes_ok_def)

lemma transport_ok: "pane_ok p \<Longrightarrow> pane_ok (p\<lparr>connectionState := c, connectionError := e\<rparr>)"
  by (simp add: pane_ok_def)

lemma reduce_panes_ok: "panes_ok s \<Longrightarrow> panes_ok (reduceSshPaneState s a)"
proof (cases a)
  case (RemovePane i)
  assume "panes_ok s"
  with RemovePane show ?thesis by (auto simp: panes_ok_def set_map_delete split: if_splits)
qed (auto intro!: map_set_panes_ok transport_ok message_pane_ok pane_of_ok)

lemma fold_panes_ok: "panes_ok s \<Longrightarrow> panes_ok (foldl reduceSshPaneState s as)"
  by (induction as arbitrary: s) (simp_all add: reduce_panes_ok)

fun action_pane :: "pane_action \<Rightarrow> jstring" where
  "action_pane (EnsurePane i) = i"
| "action_pane (ResetPane i) = i"
| "action_pane (RemovePane i) = i"
| "action_pane (TransportState i c e) = i"
| "action_pane (ServerMessage i m t) = i"

lemma other_panes: "j \<noteq> action_pane a \<Longrightarrow> map_of (reduceSshPaneState s a) j = map_of s j"
  by (cases a) auto

text \<open>A command that starts and ends has one entry, which holds its outcome.\<close>
lemma find_index_snoc:
  "find_index P xs = None \<Longrightarrow> P x \<Longrightarrow> find_index P (xs @ [x]) = Some (length xs)"
  by (induction xs) (auto split: if_splits)

lemma lifecycle_recorded:
  assumes "find_index (\<lambda>e. cl_commandId e = commandId) es = None"
  shows "applyCommandEnd (appendCommandStart es c commandId t) c' commandId code dur t' =
     slice_last (COMMAND_TIMELINE_MAX_COUNT - 1) es @
       [\<lparr>cl_commandId = commandId, cl_command = c', cl_startedAt = t, cl_endedAt = Some t',
         cl_durationMs = Some dur, cl_exitCode = Some code\<rparr>]"
proof -
  let ?s = "slice_last (COMMAND_TIMELINE_MAX_COUNT - 1) es"
  have "find_index (\<lambda>e. cl_commandId e = commandId) ?s = None"
    using assms set_slice_last_subset [of "COMMAND_TIMELINE_MAX_COUNT - 1" es]
    unfolding find_index_None_iff by blast
  then show ?thesis
    using assms by (simp add: appendCommandStart_def applyCommandEnd_def find_index_snoc del: length_slice_last)
qed

end
