(* ===== verification/SshRuntime.thy ===== *)
theory SshRuntime
  imports PaneState TerminalInput CompletionCwd
begin

text \<open>
  The live state of one SSH terminal (packages/backend/src/ssh/session-service.ts): how the output of the shell
  becomes frames for the client, when the events of the remote helper are trusted, what is kept while no
  client is attached, and what the input of the client does.  The transport is a list of effects; the clock,
  the bootstrap result and the translations are arguments.
\<close>

section \<open>Data\<close>

record runtime_contract =
  rc_shell :: jstring
  rc_helperVersion :: jstring
  rc_protocolVersion :: jsnum
  rc_capabilities :: "jstring list"

text \<open>
  \<open>ClientAttached\<close> marks that a socket was attached, \<open>ToClient\<close> is a message on it.  The other effects are calls
  on the shell stream and the exec channel (\<open>HistoryFetch\<close> is the command that prints the history) and the
  warning on the console.
\<close>

datatype ssh_effect =
    ClientAttached
  | ToClient server_message
  | ToShell jstring
  | BytesToShell jstring
  | SetWindow rat rat
  | RemoteExec jstring
  | HistoryFetch
  | CompletionAsked completion_request
  | FramesDropped nat
  | TransportClosed

text \<open>
  \<open>sh_open\<close> is whether a socket is attached in state OPEN; \<open>sh_sync\<close> is the delay of the armed history timer.
\<close>

record ssh_session =
  sh_registered :: bool
  sh_disposed :: bool
  sh_open :: bool
  sh_effects :: "ssh_effect list"
  sh_parser :: osc_parser
  sh_frames :: "frame list"
  sh_frameBytes :: nat
  sh_dropCount :: nat
  sh_bootstrapStatuses :: "bootstrap_status list"
  sh_state :: runtime_state
  sh_contract :: "runtime_contract option"
  sh_code :: "jstring option"
  sh_message :: "jstring option"
  sh_handshakeTimer :: bool
  sh_shellReady :: bool
  sh_shellCwd :: "jstring option"
  sh_foregroundCommand :: "jstring option"
  sh_lastCommand :: "jstring option"
  sh_lastCommandId :: "jstring option"
  sh_lastExitCode :: "jsnum option"
  sh_lastDurationMs :: "jsnum option"
  sh_commandCount :: nat
  sh_sync :: "rat option"
  sh_syncInFlight :: bool
  sh_syncPending :: bool
  sh_lastSyncAt :: rat
  sh_recentCommands :: "jstring list"
  sh_interactive :: interactive_state
  sh_workingDirectory :: "jstring option"
  sh_homeDirectory :: "jstring option"
  sh_pendingCwdCommands :: "jstring list"
  sh_prompt :: prompt_state

text \<open>What the host gives: base64 decoding, the text of a number, the working directory of the process.\<close>

record ssh_host =
  ho_from_base64 :: "jstring \<Rightarrow> bytes"
  ho_num_text :: "rat \<Rightarrow> jstring"
  ho_cwd :: jstring

definition push_effect :: "ssh_effect \<Rightarrow> ssh_session \<Rightarrow> ssh_session" where
  "push_effect e s = s\<lparr>sh_effects := sh_effects s @ [e]\<rparr>"

section \<open>Frames for a client that is not attached\<close>

text \<open>The helper event as the object that is serialized, its fields in the order of the code.\<close>

fun detail_fields :: "event_detail \<Rightarrow> (jstring \<times> json) list" where
  "detail_fields IntegrationReady = [(js ''event'', JStr (js ''integration-ready''))]"
| "detail_fields (PromptReady generation) =
     [(js ''event'', JStr (js ''prompt-ready'')),
      (js ''promptGeneration'', case generation of None \<Rightarrow> JUndefined | Some n \<Rightarrow> JNum n)]"
| "detail_fields (Cwd cwd) = [(js ''event'', JStr (js ''cwd'')), (js ''cwd'', JStr cwd)]"
| "detail_fields (LineState lineLength cursorIndex generation) =
     [(js ''event'', JStr (js ''line-state'')), (js ''lineLength'', JNum lineLength),
      (js ''cursorIndex'', JNum cursorIndex), (js ''promptGeneration'', JNum generation)]"
| "detail_fields (CommandStart command commandId) =
     [(js ''event'', JStr (js ''command-start'')), (js ''command'', JStr command), (js ''commandId'', JStr commandId)]"
| "detail_fields (ForegroundCommand command commandId) =
     [(js ''event'', JStr (js ''foreground-command'')), (js ''command'', JStr command),
      (js ''commandId'', JStr commandId)]"
| "detail_fields (CommandEnd command commandId exitCode durationMs) =
     [(js ''event'', JStr (js ''command-end'')), (js ''command'', JStr command), (js ''commandId'', JStr commandId),
      (js ''exitCode'', JNum exitCode), (js ''durationMs'', JNum durationMs)]"

definition event_json :: "shell_event \<Rightarrow> json" where
  "event_json e = JObj
     ([(js ''type'', JStr (js ''remote-shell-event'')), (js ''shell'', JStr (se_shell e)),
       (js ''helperVersion'', JStr (se_helperVersion e)), (js ''protocolVersion'', JNum (se_protocolVersion e)),
       (js ''capabilities'', JArr (map JStr (se_capabilities e))), (js ''timestamp'', JNum (se_timestamp e))] @
      detail_fields (se_detail e))"

fun getPendingStreamFrameBytes :: "ssh_host \<Rightarrow> frame \<Rightarrow> nat" where
  "getPendingStreamFrameBytes H (OutputFrame data) = byte_length data"
| "getPendingStreamFrameBytes H (EventFrame e) =
     byte_length (case stringify (ho_num_text H) (event_json e) of None \<Rightarrow> [] | Some t \<Rightarrow> t)"

definition FRAME_MAX_COUNT :: nat where "FRAME_MAX_COUNT = 2048"
definition FRAME_MAX_BYTES :: nat where "FRAME_MAX_BYTES = 1024 * 1024"

text \<open>Dropping the oldest frames; the subtraction of naturals is \<open>Math.max(0, ...)\<close>.\<close>

function drop_frames :: "ssh_host \<Rightarrow> ssh_session \<Rightarrow> ssh_session" where
  "drop_frames H s =
     (if length (sh_frames s) > FRAME_MAX_COUNT \<or> sh_frameBytes s > FRAME_MAX_BYTES
      then (case sh_frames s of
              [] \<Rightarrow> s
            | f # fs \<Rightarrow> drop_frames H (s\<lparr>sh_frames := fs,
                sh_frameBytes := sh_frameBytes s - getPendingStreamFrameBytes H f,
                sh_dropCount := sh_dropCount s + 1\<rparr>))
      else s)"
  by pat_completeness auto
termination by (relation "measure (\<lambda>(H, s). length (sh_frames s))") auto

declare drop_frames.simps [simp del]

definition bufferPendingStreamFrame :: "ssh_host \<Rightarrow> frame \<Rightarrow> ssh_session \<Rightarrow> ssh_session" where
  "bufferPendingStreamFrame H f s =
     drop_frames H (s\<lparr>sh_frames := sh_frames s @ [f],
       sh_frameBytes := sh_frameBytes s + getPendingStreamFrameBytes H f\<rparr>)"

section \<open>Messages to the client\<close>

definition sendServerMessage :: "ssh_host \<Rightarrow> server_message \<Rightarrow> ssh_session \<Rightarrow> ssh_session" where
  "sendServerMessage H payload s =
     (if sh_disposed s then s
      else if \<not> sh_open s then
        (case payload of
           OutputMessage data \<Rightarrow> bufferPendingStreamFrame H (OutputFrame data) s
         | ShellEvent e \<Rightarrow> bufferPendingStreamFrame H (EventFrame e) s
         | _ \<Rightarrow> s)
      else push_effect (ToClient payload) s)"

text \<open>
  A waiting frame is sent with the method of the base class; while the socket is open, that is the message itself.
\<close>

definition send_frame :: "frame \<Rightarrow> ssh_session \<Rightarrow> ssh_session" where
  "send_frame f s =
     (if sh_disposed s then s
      else case f of
        OutputFrame data \<Rightarrow> push_effect (ToClient (OutputMessage data)) s
      | EventFrame e \<Rightarrow> if sh_state s = RuntimeActive then push_effect (ToClient (ShellEvent e)) s else s)"

lemma frames_send_frame [simp]: "sh_frames (send_frame f s) = sh_frames s"
  by (simp add: send_frame_def push_effect_def split: frame.split)

function flush_loop :: "ssh_host \<Rightarrow> ssh_session \<Rightarrow> ssh_session" where
  "flush_loop H s =
     (case sh_frames s of
        [] \<Rightarrow> s
      | f # fs \<Rightarrow>
          if \<not> sh_open s then s
          else flush_loop H (send_frame f
                 (s\<lparr>sh_frames := fs, sh_frameBytes := sh_frameBytes s - getPendingStreamFrameBytes H f\<rparr>)))"
  by pat_completeness auto
termination by (relation "measure (\<lambda>(H, s). length (sh_frames s))") auto

declare flush_loop.simps [simp del]

definition flushPendingStreamFrames :: "ssh_host \<Rightarrow> ssh_session \<Rightarrow> ssh_session" where
  "flushPendingStreamFrames H s0 =
     (let s = flush_loop H s0
      in if sh_frames s = [] \<and> sh_dropCount s > 0
         then (push_effect (FramesDropped (sh_dropCount s)) s)\<lparr>sh_dropCount := 0\<rparr> else s)"

definition discardPendingRemoteShellEventFrames :: "ssh_host \<Rightarrow> ssh_session \<Rightarrow> ssh_session" where
  "discardPendingRemoteShellEventFrames H s =
     (let kept = filter (\<lambda>f. case f of OutputFrame d \<Rightarrow> True | EventFrame e \<Rightarrow> False) (sh_frames s)
      in s\<lparr>sh_frames := kept, sh_frameBytes := sum_list (map (getPendingStreamFrameBytes H) kept)\<rparr>)"

definition runtime_status_of :: "ssh_session \<Rightarrow> runtime_status" where
  "runtime_status_of s =
     \<lparr>rs_state = sh_state s, rs_helperVersion = map_option rc_helperVersion (sh_contract s),
      rs_protocolVersion = map_option rc_protocolVersion (sh_contract s),
      rs_capabilities = map_option rc_capabilities (sh_contract s), rs_code = sh_code s, rs_message = sh_message s\<rparr>"

definition sendRemoteEnhancementRuntimeStatus :: "ssh_host \<Rightarrow> ssh_session \<Rightarrow> ssh_session" where
  "sendRemoteEnhancementRuntimeStatus H s = sendServerMessage H (RuntimeStatus (runtime_status_of s)) s"

text \<open>The bootstrap statuses are shifted one by one and sent.\<close>

fun send_statuses :: "ssh_host \<Rightarrow> bootstrap_status list \<Rightarrow> ssh_session \<Rightarrow> ssh_session" where
  "send_statuses H [] s = s"
| "send_statuses H (b # bs) s =
     send_statuses H bs (sendServerMessage H (BootstrapStatus b) (s\<lparr>sh_bootstrapStatuses := bs\<rparr>))"

definition onSessionAttached :: "ssh_host \<Rightarrow> ssh_session \<Rightarrow> ssh_session" where
  "onSessionAttached H s =
     (let s1 = sendServerMessage H ReadyMessage s;
          s2 = send_statuses H (sh_bootstrapStatuses s1) s1
      in flushPendingStreamFrames H (sendRemoteEnhancementRuntimeStatus H s2))"

section \<open>Trust in the helper\<close>

definition resolveRemoteEnhancementsSessionGate :: "bool \<Rightarrow> bool option \<Rightarrow> bool" where
  "resolveRemoteEnhancementsSessionGate persistedEnabled requestedEnabled \<longleftrightarrow>
     persistedEnabled \<and> requestedEnabled \<noteq> Some False"

definition usesStructuredRemoteCommandLifecycle :: "runtime_state \<Rightarrow> jstring list option \<Rightarrow> bool" where
  "usesStructuredRemoteCommandLifecycle st capabilities \<longleftrightarrow>
     st = RuntimeActive \<and> (case capabilities of None \<Rightarrow> False | Some cs \<Rightarrow> js ''command-start'' \<in> set cs)"

definition remoteShellEventMatchesContract :: "shell_event \<Rightarrow> runtime_contract \<Rightarrow> bool" where
  "remoteShellEventMatchesContract e c \<longleftrightarrow>
     se_shell e = rc_shell c \<and> se_helperVersion e = rc_helperVersion c \<and>
     se_protocolVersion e = rc_protocolVersion c \<and>
     length (se_capabilities e) = length (rc_capabilities c) \<and>
     list_all (\<lambda>k. k \<in> set (rc_capabilities c)) (se_capabilities e)"

definition clearRemoteEnhancementHandshakeTimeout :: "ssh_session \<Rightarrow> ssh_session" where
  "clearRemoteEnhancementHandshakeTimeout s = s\<lparr>sh_handshakeTimer := False\<rparr>"

definition startRemoteEnhancementHandshakeTimeout :: "ssh_session \<Rightarrow> ssh_session" where
  "startRemoteEnhancementHandshakeTimeout s0 =
     (let s = clearRemoteEnhancementHandshakeTimeout s0
      in if sh_state s \<noteq> RuntimePending then s else s\<lparr>sh_handshakeTimer := True\<rparr>)"

definition disableRemoteEnhancementsRuntime :: "ssh_host \<Rightarrow> jstring \<Rightarrow> jstring \<Rightarrow> ssh_session \<Rightarrow> ssh_session" where
  "disableRemoteEnhancementsRuntime H code message s =
     (let s1 = (clearRemoteEnhancementHandshakeTimeout s)
            \<lparr>sh_state := RuntimeDisabled, sh_code := Some code, sh_message := Some message\<rparr>;
          s2 = (discardPendingRemoteShellEventFrames H s1)
            \<lparr>sh_shellReady := False, sh_shellCwd := None, sh_foregroundCommand := None, sh_lastCommand := None,
             sh_lastCommandId := None, sh_lastExitCode := None, sh_lastDurationMs := None\<rparr>
      in sendRemoteEnhancementRuntimeStatus H s2)"

definition handshake_timeout :: "ssh_host \<Rightarrow> ssh_session \<Rightarrow> ssh_session" where
  "handshake_timeout H s0 =
     (if \<not> sh_handshakeTimer s0 then s0
      else
        let s = s0\<lparr>sh_handshakeTimer := False\<rparr>
        in if sh_disposed s \<or> sh_state s \<noteq> RuntimePending then s
           else disableRemoteEnhancementsRuntime H (js ''HELPER_HANDSHAKE_TIMEOUT'')
                  (js ''remote helper handshake was not received before the runtime deadline'') s)"

section \<open>The history of the remote shell\<close>

definition scheduleHistorySync :: "int \<Rightarrow> bool \<Rightarrow> ssh_session \<Rightarrow> ssh_session" where
  "scheduleHistorySync now immediate s =
     (if \<not> sh_registered s \<or> sh_disposed s then s
      else s\<lparr>sh_sync := Some (computeHistorySyncDelayMs (sh_lastSyncAt s) (of_int now) immediate)\<rparr>)"

text \<open>The timer fires and the command that reads the history starts.\<close>

definition syncRemoteHistory :: "int \<Rightarrow> ssh_session \<Rightarrow> ssh_session" where
  "syncRemoteHistory now s =
     (if \<not> sh_registered s \<or> sh_disposed s then s
      else if sh_syncInFlight s then s\<lparr>sh_syncPending := True\<rparr>
      else push_effect HistoryFetch (s\<lparr>sh_syncInFlight := True, sh_lastSyncAt := of_int now\<rparr>))"

definition history_timer_fires :: "int \<Rightarrow> ssh_session \<Rightarrow> ssh_session" where
  "history_timer_fires now s =
     (if sh_sync s = None then s else syncRemoteHistory now (s\<lparr>sh_sync := None\<rparr>))"

text \<open>The rest of \<open>syncRemoteHistory\<close>, when the command has ended: its output, or \<open>None\<close> when it failed.\<close>

definition history_read :: "ssh_host \<Rightarrow> int \<Rightarrow> jstring option \<Rightarrow> ssh_session \<Rightarrow> ssh_session" where
  "history_read H now stdout s =
     (if \<not> sh_syncInFlight s then s
      else
        let s1 = (case stdout of
              None \<Rightarrow> s
            | Some text \<Rightarrow>
                let commands = parseTerminalHistoryOutput HISTORY_MAX_ENTRIES text;
                    s0 = s\<lparr>sh_recentCommands := commands,
                      sh_interactive := (sh_interactive s)\<lparr>recentCommands :=
                        mergeTerminalRecentCommands HISTORY_MAX_ENTRIES commands (recentCommands (sh_interactive s))\<rparr>\<rparr>
                in sendServerMessage H (HistoryMessage commands) s0);
            s2 = s1\<lparr>sh_syncInFlight := False\<rparr>
        in if sh_syncPending s2 then scheduleHistorySync now False (s2\<lparr>sh_syncPending := False\<rparr>) else s2)"

definition escapeShellSingleQuote :: "jstring \<Rightarrow> jstring" where
  "escapeShellSingleQuote value = concat (map (\<lambda>c. if c = 39 then [39, 34, 39, 34, 39] else [c]) value)"

definition DELETE_SCRIPT :: jstring where
  "DELETE_SCRIPT =
     js ''cleanup_plain(){ file=\"$1\"; if [ -f \"$file\" ]; then tmp=\"$file.cosmosh.$$\"; grep -Fvx -- \"$target\" \"$file\" > \"$tmp\" 2>/dev/null && mv \"$tmp\" \"$file\"; fi; }; '' @
     js ''cleanup_zsh(){ file=\"$1\"; if [ -f \"$file\" ]; then tmp=\"$file.cosmosh.$$\"; awk -v target=\"$target\" \"{line=$0;cmd=line; if (match(line,/^: [0-9]+:[0-9]+;/)) {cmd=substr(line,RSTART+RLENGTH)} if (cmd==target) {next} print line}\" \"$file\" > \"$tmp\" 2>/dev/null && mv \"$tmp\" \"$file\"; fi; }; '' @
     js ''cleanup_plain \"$HISTFILE\"; cleanup_plain \"$HOME/.bash_history\"; cleanup_plain \"$HOME/.ash_history\"; cleanup_plain \"$HOME/.sh_history\"; cleanup_plain \"$HOME/.mksh_history\"; cleanup_plain \"$HOME/.ksh_history\"; cleanup_zsh \"$HOME/.zsh_history\";''"

text \<open>The literal \<open>' sh -lc \\'\<close> of the source is one backslash at the end, not an opening quote.\<close>

definition delete_command :: "jstring \<Rightarrow> jstring" where
  "delete_command normalizedCommand =
     js '' sh -lc '' @ [92] @ js ''set +e; target='' @ [39] @ escapeShellSingleQuote normalizedCommand @ [39] @ js ''; '' @
     DELETE_SCRIPT @ [39]"

definition deleteRemoteHistoryEntry :: "jstring \<Rightarrow> ssh_session \<Rightarrow> ssh_session" where
  "deleteRemoteHistoryEntry command s =
     (let normalizedCommand = trim command
      in if length normalizedCommand = 0 then s else push_effect (RemoteExec (delete_command normalizedCommand)) s)"

text \<open>The rest of it, when the remote command has ended, whatever its outcome.\<close>

definition history_deleted :: "ssh_host \<Rightarrow> int \<Rightarrow> jstring \<Rightarrow> ssh_session \<Rightarrow> ssh_session" where
  "history_deleted H now normalizedCommand s =
     (let s1 = s\<lparr>sh_recentCommands := filter (\<lambda>e. e \<noteq> normalizedCommand) (sh_recentCommands s),
            sh_interactive := (sh_interactive s)\<lparr>recentCommands :=
              filter (\<lambda>e. e \<noteq> normalizedCommand) (recentCommands (sh_interactive s))\<rparr>\<rparr>
      in scheduleHistorySync now True (sendServerMessage H (HistoryMessage (sh_recentCommands s1)) s1))"

section \<open>The working directory for completion\<close>

definition applyResolvedRemoteCompletionCwd :: "jstring option \<Rightarrow> ssh_session \<Rightarrow> ssh_session" where
  "applyResolvedRemoteCompletionCwd cwd s =
     (if falsy cwd then s else s\<lparr>sh_workingDirectory := cwd, sh_pendingCwdCommands := []\<rparr>)"

definition applyRemoteCompletionBaseCwd :: "ssh_host \<Rightarrow> jstring option \<Rightarrow> ssh_session \<Rightarrow> ssh_session" where
  "applyRemoteCompletionBaseCwd H baseCwd s =
     (if falsy baseCwd then s
      else s\<lparr>sh_workingDirectory := replayRemoteCompletionCwdCommands (ho_cwd H) (sh_homeDirectory s) baseCwd
               (sh_pendingCwdCommands s),
             sh_pendingCwdCommands := []\<rparr>)"

text \<open>The two directories in the output of the probe, and what is done with them once it has ended.\<close>

definition probed_directories :: "jstring option \<Rightarrow> jstring option \<times> jstring option" where
  "probed_directories stdout =
     (let ls = (case stdout of None \<Rightarrow> [] | Some text \<Rightarrow> filter (\<lambda>line. length line > 0) (map trim (ArchiveCommands.split_lines text)))
      in (if length ls > 0 then Some (ls ! 0) else None, if length ls > 1 then Some (ls ! 1) else None))"

definition completion_directories_probed :: "ssh_host \<Rightarrow> jstring option \<Rightarrow> ssh_session \<Rightarrow> ssh_session" where
  "completion_directories_probed H stdout s =
     (let (workingDirectory, homeDirectory) = probed_directories stdout;
          s1 = (if falsy homeDirectory then s else s\<lparr>sh_homeDirectory := homeDirectory\<rparr>)
      in if falsy (sh_workingDirectory s1) \<or> length (sh_pendingCwdCommands s1) > 0
         then applyRemoteCompletionBaseCwd H workingDirectory s1 else s1)"

text \<open>The hint of a request, given the home directory that is known when it is resolved.\<close>

definition resolveRequestCompletionWorkingDirectory :: "jstring option \<Rightarrow> jstring option \<Rightarrow> jstring option" where
  "resolveRequestCompletionWorkingDirectory homeDirectory hintValue =
     (let hintedCwd = (case hintValue of None \<Rightarrow> [] | Some h \<Rightarrow> trim h)
      in if hintedCwd = [] then None
         else if starts_with hintedCwd [47] then Some hintedCwd
         else if hintedCwd = [126] \<and> \<not> falsy homeDirectory then homeDirectory
         else if starts_with hintedCwd [126, 47] \<and> \<not> falsy homeDirectory
         then Some (the homeDirectory @ tl hintedCwd) else None)"

section \<open>Output of the shell\<close>

definition handleVisibleShellOutput :: "ssh_host \<Rightarrow> int \<Rightarrow> jstring \<Rightarrow> ssh_session \<Rightarrow> ssh_session" where
  "handleVisibleShellOutput H now data s =
     (let s1 = s\<lparr>sh_prompt := updatePromptStateFromOutput (sh_prompt s) data now\<rparr>;
          promptCwd = resolveRemotePromptCwd (outputTail (sh_prompt s1)) (sh_workingDirectory s1) (sh_homeDirectory s1)
      in sendServerMessage H (OutputMessage data) (applyResolvedRemoteCompletionCwd promptCwd s1))"

definition applyRemoteShellEventState :: "int \<Rightarrow> shell_event \<Rightarrow> ssh_session \<Rightarrow> ssh_session" where
  "applyRemoteShellEventState now e s =
     (case se_detail e of
        IntegrationReady \<Rightarrow> s\<lparr>sh_shellReady := True\<rparr>
      | Cwd cwd \<Rightarrow>
          if cwd = [] then s else applyResolvedRemoteCompletionCwd (Some cwd) (s\<lparr>sh_shellCwd := Some cwd\<rparr>)
      | PromptReady generation \<Rightarrow> s\<lparr>sh_shellReady := True, sh_foregroundCommand := None\<rparr>
      | ForegroundCommand command commandId \<Rightarrow> s\<lparr>sh_foregroundCommand := Some command\<rparr>
      | CommandStart command commandId \<Rightarrow>
          if command = [] then s
          else
            let s1 = s\<lparr>sh_lastCommand := Some command\<rparr>
            in if sh_lastCommandId s1 \<noteq> Some commandId
               then scheduleHistorySync now False
                      (s1\<lparr>sh_lastCommandId := Some commandId, sh_commandCount := sh_commandCount s1 + 1\<rparr>)
               else s1
      | CommandEnd command commandId exitCode durationMs \<Rightarrow>
          (if command = [] then s else s\<lparr>sh_lastCommand := Some command\<rparr>)
            \<lparr>sh_lastExitCode := Some exitCode, sh_lastDurationMs := Some durationMs\<rparr>
      | LineState lineLength cursorIndex generation \<Rightarrow> s)"

definition activate :: "ssh_host \<Rightarrow> ssh_session \<Rightarrow> ssh_session" where
  "activate H s =
     sendRemoteEnhancementRuntimeStatus H
       ((clearRemoteEnhancementHandshakeTimeout s)\<lparr>sh_state := RuntimeActive, sh_code := None, sh_message := None\<rparr>)"

definition handleRemoteShellEvent :: "ssh_host \<Rightarrow> int \<Rightarrow> shell_event \<Rightarrow> ssh_session \<Rightarrow> ssh_session" where
  "handleRemoteShellEvent H now e s =
     (if sh_state s = RuntimeDisabled then s
      else if sh_contract s = None \<or> \<not> remoteShellEventMatchesContract e (the (sh_contract s))
      then disableRemoteEnhancementsRuntime H (js ''HELPER_CONTRACT_MISMATCH'') (js ''remote helper contract mismatch'') s
      else if sh_state s = RuntimePending \<and> se_detail e \<noteq> IntegrationReady then s
      else
        let s1 = (if sh_state s = RuntimePending then activate H s else s)
        in sendServerMessage H (ShellEvent e) (applyRemoteShellEventState now e s1))"

fun handle_frame :: "ssh_host \<Rightarrow> int \<Rightarrow> frame \<Rightarrow> ssh_session \<Rightarrow> ssh_session" where
  "handle_frame H now (EventFrame e) s = handleRemoteShellEvent H now e s"
| "handle_frame H now (OutputFrame data) s = handleVisibleShellOutput H now data s"

definition handleShellOutput :: "ssh_host \<Rightarrow> int \<Rightarrow> jstring \<Rightarrow> ssh_session \<Rightarrow> ssh_session" where
  "handleShellOutput H now data s =
     (let (frames, p) = parse_chunk (ho_from_base64 H) data (sh_parser s)
      in fold (handle_frame H now) frames (s\<lparr>sh_parser := p\<rparr>))"

section \<open>Input of the client\<close>

text \<open>What a submitted command does to the directory that is followed.\<close>

definition command_submitted :: "ssh_host \<Rightarrow> jstring \<Rightarrow> ssh_session \<Rightarrow> ssh_session" where
  "command_submitted H command s =
     (if falsy (sh_workingDirectory s)
      then s\<lparr>sh_pendingCwdCommands := sh_pendingCwdCommands s @ [command]\<rparr>
      else s\<lparr>sh_workingDirectory :=
               updateRemoteCompletionCwd (ho_cwd H) (sh_homeDirectory s) (sh_workingDirectory s) command\<rparr>)"

text \<open>\<open>data.split(/\r\n|[\r\n]/).length - 1\<close>\<close>

fun count_line_ends :: "jstring \<Rightarrow> nat" where
  "count_line_ends (c # d # s) =
     (if c = 13 \<and> d = 10 then Suc (count_line_ends s)
      else (if c = 13 \<or> c = 10 then 1 else 0) + count_line_ends (d # s))"
| "count_line_ends [c] = (if c = 13 \<or> c = 10 then 1 else 0)"
| "count_line_ends [] = 0"

definition text_input :: "ssh_host \<Rightarrow> int \<Rightarrow> jstring \<Rightarrow> ssh_session \<Rightarrow> ssh_session" where
  "text_input H now data s =
     (let (interactive, commands) =
            updateInteractiveCompletionState (Some HISTORY_MAX_ENTRIES) (sh_interactive s) data;
          s1 = (fold (command_submitted H) commands s)\<lparr>sh_interactive := interactive,
                  sh_prompt := updatePromptStateFromInput (sh_prompt s) data\<rparr>;
          structured = usesStructuredRemoteCommandLifecycle (sh_state s1) (map_option rc_capabilities (sh_contract s1));
          s2 = (if (13 \<in> set data \<or> 10 \<in> set data) \<and> \<not> structured
                then scheduleHistorySync now False
                       (s1\<lparr>sh_commandCount := sh_commandCount s1 + max 1 (count_line_ends data)\<rparr>)
                else s1)
      in push_effect (ToShell data) s2)"

definition disposeSession :: "ssh_host \<Rightarrow> jstring \<Rightarrow> ssh_session \<Rightarrow> ssh_session" where
  "disposeSession H reason s =
     (if \<not> sh_registered s \<or> sh_disposed s then s
      else
        let s1 = clearRemoteEnhancementHandshakeTimeout (s\<lparr>sh_sync := None\<rparr>);
            s2 = sendServerMessage H (ExitMessage reason) s1
        in push_effect TransportClosed (s2\<lparr>sh_disposed := True, sh_registered := False, sh_open := False\<rparr>))"

definition handleClientMessage :: "ssh_host \<Rightarrow> int \<Rightarrow> jstring \<Rightarrow> ssh_session \<Rightarrow> ssh_session" where
  "handleClientMessage H now rawPayload s =
     (case normalizeTerminalClientMessage rawPayload of
        None \<Rightarrow> sendServerMessage H (ErrorMessage (js ''ws.invalidWebsocketMessageFormat'')) s
      | Some (BinaryInput data) \<Rightarrow> push_effect (BytesToShell data) s
      | Some (TextInput data) \<Rightarrow> text_input H now data s
      | Some (Resize cols rows) \<Rightarrow>
          push_effect (SetWindow (clampTerminalSize rows 32 10 200) (clampTerminalSize cols 120 20 400)) s
      | Some Ping \<Rightarrow> sendServerMessage H PongMessage s
      | Some (HistoryDelete command) \<Rightarrow> deleteRemoteHistoryEntry command s
      | Some (CompletionRequest request) \<Rightarrow>
          if \<not> falsy (sh_foregroundCommand s) then sendServerMessage H (CompletionResponse (cr_requestId request)) s
          else push_effect (CompletionAsked request) s
      | Some CloseRequest \<Rightarrow> disposeSession H (js ''ws.clientRequestedClose'') s)"

section \<open>Creation\<close>

text \<open>The output that arrives before the session exists: the chunks, their bytes, and how many were dropped.\<close>

function drop_early :: "jstring list \<times> nat \<times> nat \<Rightarrow> jstring list \<times> nat \<times> nat" where
  "drop_early (chunks, bytes, drops) =
     (if length chunks > FRAME_MAX_COUNT \<or> bytes > FRAME_MAX_BYTES
      then (case chunks of
              [] \<Rightarrow> (chunks, bytes, drops)
            | d # rest \<Rightarrow> if d = [] then (rest, bytes, drops) else drop_early (rest, bytes - byte_length d, drops + 1))
      else (chunks, bytes, drops))"
  by pat_completeness auto
termination by (relation "measure (\<lambda>(chunks, bytes, drops). length chunks)") auto

declare drop_early.simps [simp del]

definition buffer_early :: "jstring \<Rightarrow> jstring list \<times> nat \<times> nat \<Rightarrow> jstring list \<times> nat \<times> nat" where
  "buffer_early chunk b = (case b of (chunks, bytes, drops) \<Rightarrow>
     drop_early (chunks @ [chunk], bytes + byte_length chunk, drops))"

datatype bootstrap_result = BootstrapReady runtime_contract | BootstrapDisabled jstring jstring

definition new_session :: "bootstrap_status list \<Rightarrow> bootstrap_result \<Rightarrow> nat \<Rightarrow> ssh_session" where
  "new_session statuses result drops =
     \<lparr>sh_registered = False, sh_disposed = False, sh_open = False, sh_effects = [], sh_parser = new_parser,
      sh_frames = [], sh_frameBytes = 0, sh_dropCount = drops, sh_bootstrapStatuses = statuses,
      sh_state = (case result of BootstrapReady c \<Rightarrow> RuntimePending | BootstrapDisabled c m \<Rightarrow> RuntimeDisabled),
      sh_contract = (case result of BootstrapReady c \<Rightarrow> Some c | BootstrapDisabled c m \<Rightarrow> None),
      sh_code = (case result of BootstrapReady c \<Rightarrow> None | BootstrapDisabled c m \<Rightarrow> Some c),
      sh_message = (case result of BootstrapReady c \<Rightarrow> None | BootstrapDisabled c m \<Rightarrow> Some m),
      sh_handshakeTimer = False, sh_shellReady = False, sh_shellCwd = None, sh_foregroundCommand = None,
      sh_lastCommand = None, sh_lastCommandId = None, sh_lastExitCode = None, sh_lastDurationMs = None,
      sh_commandCount = 0, sh_sync = None, sh_syncInFlight = False, sh_syncPending = False, sh_lastSyncAt = 0,
      sh_recentCommands = [], sh_interactive = \<lparr>lineBuffer = [], recentCommands = []\<rparr>,
      sh_workingDirectory = None, sh_homeDirectory = None, sh_pendingCwdCommands = [],
      sh_prompt = \<lparr>outputTail = [], promptDetectedAtMs = 0, shouldSuggestSecret = False\<rparr>\<rparr>"

text \<open>The session is registered after the early output has been replayed through the parser.\<close>

definition create_session :: "ssh_host \<Rightarrow> int \<Rightarrow> bootstrap_status list \<Rightarrow> bootstrap_result \<Rightarrow> jstring list \<Rightarrow> ssh_session" where
  "create_session H now statuses result early =
     (let (chunks, bytes, drops) = fold buffer_early early ([], 0, 0);
          s1 = startRemoteEnhancementHandshakeTimeout (new_session statuses result drops);
          s2 = fold (handleShellOutput H now) chunks s1
      in scheduleHistorySync now True (s2\<lparr>sh_registered := True\<rparr>))"

section \<open>Events\<close>

text \<open>A chunk of the stream is decoded on its own.\<close>

definition shell_data :: "ssh_host \<Rightarrow> int \<Rightarrow> bytes \<Rightarrow> ssh_session \<Rightarrow> ssh_session" where
  "shell_data H now chunk s = handleShellOutput H now (buffer_to_utf8 chunk) s"

datatype ssh_event =
    ShellData int bytes
  | ClientConnects
  | ClientSocketClosing
  | ClientMessage int jstring
  | HandshakeTimeout
  | HistoryTimer int
  | HistoryRead int "jstring option"
  | HistoryDeleted int jstring
  | DirectoriesProbed "jstring option"
  | ConnectionError jstring
  | Disposed jstring

fun ssh_step :: "ssh_host \<Rightarrow> ssh_event \<Rightarrow> ssh_session \<Rightarrow> ssh_session" where
  "ssh_step H (ShellData now chunk) s = shell_data H now chunk s"
| "ssh_step H ClientConnects s =
     (if \<not> sh_registered s \<or> sh_disposed s then s
      else onSessionAttached H (push_effect ClientAttached (s\<lparr>sh_open := True\<rparr>)))"
| "ssh_step H ClientSocketClosing s = s\<lparr>sh_open := False\<rparr>"
| "ssh_step H (ClientMessage now payload) s = handleClientMessage H now payload s"
| "ssh_step H HandshakeTimeout s = handshake_timeout H s"
| "ssh_step H (HistoryTimer now) s = history_timer_fires now s"
| "ssh_step H (HistoryRead now stdout) s = history_read H now stdout s"
| "ssh_step H (HistoryDeleted now command) s = history_deleted H now command s"
| "ssh_step H (DirectoriesProbed stdout) s = completion_directories_probed H stdout s"
| "ssh_step H (ConnectionError message) s =
     disposeSession H (js ''ws.sshConnectionError'') (sendServerMessage H (ErrorMessage message) s)"
| "ssh_step H (Disposed reason) s = disposeSession H reason s"

end
