(* ===== verification/SshRuntimeProofs.thy ===== *)
theory SshRuntimeProofs
  imports SshRuntime
begin

text \<open>
  The invariant of an SSH session: the frames that wait for a client are accounted for and within the limits,
  helper events wait or are sent only while the helper is trusted, and an attached client has been told the
  state the session is in.
\<close>

section \<open>What the client has been told\<close>

fun seen :: "runtime_state option \<Rightarrow> ssh_effect \<Rightarrow> runtime_state option" where
  "seen st ClientAttached = None"
| "seen st (ToClient (RuntimeStatus r)) = Some (rs_state r)"
| "seen st _ = st"

definition told :: "ssh_effect list \<Rightarrow> runtime_state option" where
  "told es = foldl seen None es"

lemma told_snoc [simp]: "told (es @ [e]) = seen (told es) e"
  by (simp add: told_def)

definition trusted_event :: "runtime_contract option \<Rightarrow> shell_event \<Rightarrow> bool" where
  "trusted_event C e \<longleftrightarrow> (case C of None \<Rightarrow> False | Some c \<Rightarrow> remoteShellEventMatchesContract e c)"

fun effect_ok :: "runtime_contract option \<Rightarrow> runtime_state option \<Rightarrow> ssh_effect \<Rightarrow> bool" where
  "effect_ok C st (ToClient (ShellEvent e)) \<longleftrightarrow> st = Some RuntimeActive \<and> trusted_event C e"
| "effect_ok C st _ \<longleftrightarrow> True"

definition trace_ok :: "runtime_contract option \<Rightarrow> ssh_effect list \<Rightarrow> bool" where
  "trace_ok C es \<longleftrightarrow> (\<forall>before e after. es = before @ e # after \<longrightarrow> effect_ok C (told before) e)"

lemma trace_ok_Nil [simp]: "trace_ok C []"
  by (simp add: trace_ok_def)

lemma trace_ok_snoc [simp]: "trace_ok C (es @ [e]) \<longleftrightarrow> trace_ok C es \<and> effect_ok C (told es) e"
proof
  assume ok: "trace_ok C (es @ [e])"
  have "effect_ok C (told before) x" if "es = before @ x # after" for before x after
    using ok that unfolding trace_ok_def by (metis append.assoc append_Cons)
  moreover have "effect_ok C (told es) e" using ok unfolding trace_ok_def by blast
  ultimately show "trace_ok C es \<and> effect_ok C (told es) e" unfolding trace_ok_def by blast
next
  assume ok: "trace_ok C es \<and> effect_ok C (told es) e"
  have "effect_ok C (told before) x" if "es @ [e] = before @ x # after" for before x after
  proof (cases after rule: rev_cases)
    case (snoc ys y)
    with that have "es = before @ x # ys" by (metis append.assoc append_Cons butlast_snoc)
    with ok show ?thesis unfolding trace_ok_def by blast
  qed (use that ok in simp)
  then show "trace_ok C (es @ [e])" unfolding trace_ok_def by blast
qed

section \<open>The invariant\<close>

definition queue_ok :: "ssh_host \<Rightarrow> frame list \<Rightarrow> nat \<Rightarrow> bool" where
  "queue_ok H fs n \<longleftrightarrow> n = sum_list (map (getPendingStreamFrameBytes H) fs) \<and>
     length fs \<le> FRAME_MAX_COUNT \<and> n \<le> FRAME_MAX_BYTES"

text \<open>A waiting helper event: only while the helper is active, and within its contract.\<close>

fun frame_ok :: "runtime_contract option \<Rightarrow> runtime_state \<Rightarrow> frame \<Rightarrow> bool" where
  "frame_ok C st (OutputFrame d) \<longleftrightarrow> True"
| "frame_ok C st (EventFrame e) \<longleftrightarrow> st = RuntimeActive \<and> trusted_event C e"

text \<open>\<open>announced\<close> is false between the attachment of a socket and the status that is sent to it.\<close>

definition core_ok :: "ssh_host \<Rightarrow> runtime_contract option \<Rightarrow> bool \<Rightarrow> ssh_session \<Rightarrow> bool" where
  "core_ok H C announced s \<longleftrightarrow>
     sh_contract s = C \<and> (sh_state s \<noteq> RuntimeDisabled \<longrightarrow> C \<noteq> None) \<and>
     trace_ok C (sh_effects s) \<and> queue_ok H (sh_frames s) (sh_frameBytes s) \<and>
     list_all (frame_ok C (sh_state s)) (sh_frames s) \<and> (sh_disposed s \<longrightarrow> \<not> sh_open s) \<and>
     (announced \<and> sh_open s \<longrightarrow> told (sh_effects s) = Some (sh_state s))"

definition same_core :: "ssh_session \<Rightarrow> ssh_session \<Rightarrow> bool" where
  "same_core s t \<longleftrightarrow> sh_contract t = sh_contract s \<and> sh_state t = sh_state s \<and> sh_effects t = sh_effects s \<and>
     sh_frames t = sh_frames s \<and> sh_frameBytes t = sh_frameBytes s \<and> sh_disposed t = sh_disposed s \<and>
     sh_open t = sh_open s"

lemma same_core_ok: "same_core s t \<Longrightarrow> core_ok H C a s \<Longrightarrow> core_ok H C a t"
  by (simp add: same_core_def core_ok_def)

lemma same_core_trans: "same_core s t \<Longrightarrow> same_core t u \<Longrightarrow> same_core s u"
  by (simp add: same_core_def)

text \<open>The operations that leave the queue, the trace and the trust alone.\<close>
lemma schedule_same: "same_core s (scheduleHistorySync now im s)"
  by (simp add: same_core_def scheduleHistorySync_def)

lemma cwd_same: "same_core s (applyResolvedRemoteCompletionCwd cwd s)"
  by (simp add: same_core_def applyResolvedRemoteCompletionCwd_def)

lemma base_cwd_same: "same_core s (applyRemoteCompletionBaseCwd H cwd s)"
  by (simp add: same_core_def applyRemoteCompletionBaseCwd_def)

lemma probed_same: "same_core s (completion_directories_probed H stdout s)"
  by (auto simp: completion_directories_probed_def Let_def same_core_def applyRemoteCompletionBaseCwd_def
      split: prod.split)

lemma event_state_same: "same_core s (applyRemoteShellEventState now e s)"
  by (cases "se_detail e")
    (auto simp: applyRemoteShellEventState_def same_core_def scheduleHistorySync_def
      applyResolvedRemoteCompletionCwd_def Let_def)

lemma submitted_same: "same_core s (fold (command_submitted H) commands s)"
proof (induction commands arbitrary: s)
  case (Cons c cs)
  have "same_core s (command_submitted H c s)" by (simp add: same_core_def command_submitted_def)
  then show ?case using Cons.IH same_core_trans by (simp only: fold_Cons comp_apply)
qed (simp add: same_core_def)

lemma clear_same: "same_core s (clearRemoteEnhancementHandshakeTimeout s)"
  by (simp add: same_core_def clearRemoteEnhancementHandshakeTimeout_def)

section \<open>The queue\<close>

lemma drop_frames_spec:
  assumes "sh_frameBytes s = sum_list (map (getPendingStreamFrameBytes H) (sh_frames s))"
  shows "\<exists>n. drop_frames H s = s\<lparr>sh_frames := drop n (sh_frames s),
           sh_frameBytes := sum_list (map (getPendingStreamFrameBytes H) (drop n (sh_frames s))),
           sh_dropCount := sh_dropCount s + n\<rparr> \<and>
     queue_ok H (sh_frames (drop_frames H s)) (sh_frameBytes (drop_frames H s))"
  using assms
proof (induction H s rule: drop_frames.induct)
  case (1 H s)
  show ?case
  proof (cases "length (sh_frames s) > FRAME_MAX_COUNT \<or> sh_frameBytes s > FRAME_MAX_BYTES")
    case False
    then have "drop_frames H s = s" by (subst drop_frames.simps) simp
    with False 1(2) show ?thesis
      by (intro exI [of _ 0]) (simp add: queue_ok_def not_less)
  next
    case True
    with 1(2) obtain f fs where fs: "sh_frames s = f # fs" by (cases "sh_frames s") auto
    let ?t = "s\<lparr>sh_frames := fs, sh_frameBytes := sh_frameBytes s - getPendingStreamFrameBytes H f,
      sh_dropCount := sh_dropCount s + 1\<rparr>"
    have step: "drop_frames H s = drop_frames H ?t" using True fs by (subst drop_frames.simps) simp
    have "sh_frameBytes ?t = sum_list (map (getPendingStreamFrameBytes H) (sh_frames ?t))"
      using 1(2) fs by simp
    from 1(1) [OF True fs this] obtain n where
      n: "drop_frames H ?t = ?t\<lparr>sh_frames := drop n fs,
          sh_frameBytes := sum_list (map (getPendingStreamFrameBytes H) (drop n fs)), sh_dropCount := sh_dropCount ?t + n\<rparr>"
        "queue_ok H (sh_frames (drop_frames H ?t)) (sh_frameBytes (drop_frames H ?t))"
      by auto
    show ?thesis by (rule exI [of _ "Suc n"]) (use n fs step in simp)
  qed
qed

lemma list_all_drop: "list_all P xs \<Longrightarrow> list_all P (drop n xs)"
  by (auto simp: list_all_iff dest: in_set_dropD)

lemma buffer_ok:
  assumes "core_ok H C a s" and "frame_ok C (sh_state s) f"
  shows "core_ok H C a (bufferPendingStreamFrame H f s)"
proof -
  let ?s = "s\<lparr>sh_frames := sh_frames s @ [f], sh_frameBytes := sh_frameBytes s + getPendingStreamFrameBytes H f\<rparr>"
  have "sh_frameBytes ?s = sum_list (map (getPendingStreamFrameBytes H) (sh_frames ?s))"
    using assms(1) by (simp add: core_ok_def queue_ok_def)
  from drop_frames_spec [OF this] obtain n where
    n: "bufferPendingStreamFrame H f s = ?s\<lparr>sh_frames := drop n (sh_frames ?s),
          sh_frameBytes := sum_list (map (getPendingStreamFrameBytes H) (drop n (sh_frames ?s))),
          sh_dropCount := sh_dropCount ?s + n\<rparr>"
      "queue_ok H (sh_frames (bufferPendingStreamFrame H f s)) (sh_frameBytes (bufferPendingStreamFrame H f s))"
    unfolding bufferPendingStreamFrame_def by blast
  have "list_all (frame_ok C (sh_state s)) (drop n (sh_frames s @ [f]))"
    by (rule list_all_drop) (use assms in \<open>simp add: core_ok_def\<close>)
  with n assms(1) show ?thesis by (simp add: core_ok_def)
qed

section \<open>Sending\<close>

lemma ssh_send_ok:
  assumes "core_ok H C True s" and "\<And>r. m = RuntimeStatus r \<Longrightarrow> rs_state r = sh_state s"
    and "\<And>e. m = ShellEvent e \<Longrightarrow> sh_state s = RuntimeActive \<and> trusted_event C e"
  shows "core_ok H C True (sendServerMessage H m s)"
proof -
  consider (disposed) "sh_disposed s" | (detached) "\<not> sh_disposed s" "\<not> sh_open s" | (attached) "\<not> sh_disposed s" "sh_open s"
    by blast
  then show ?thesis
  proof cases
    case detached
    have "core_ok H C True (bufferPendingStreamFrame H (OutputFrame d) s)" for d
      by (rule buffer_ok [OF assms(1)]) simp
    moreover have "core_ok H C True (bufferPendingStreamFrame H (EventFrame e) s)" if "m = ShellEvent e" for e
      by (rule buffer_ok [OF assms(1)]) (use assms(3) [OF that] in simp)
    ultimately show ?thesis
      using detached assms(1) by (cases m) (simp_all add: sendServerMessage_def)
  next
    case attached
    with assms show ?thesis
      by (cases m) (auto simp: sendServerMessage_def core_ok_def push_effect_def)
  qed (use assms(1) in \<open>simp add: sendServerMessage_def\<close>)
qed

lemma send_plain_ok:
  assumes "core_ok H C True s" and "\<forall>r. m \<noteq> RuntimeStatus r" and "\<forall>e. m \<noteq> ShellEvent e"
  shows "core_ok H C True (sendServerMessage H m s)"
  by (rule ssh_send_ok [OF assms(1)]) (use assms(2,3) in auto)

lemma effect_push_ok:
  assumes "core_ok H C True s" and "e \<noteq> ClientAttached" and "\<forall>m. e \<noteq> ToClient m"
  shows "core_ok H C True (push_effect e s)"
  using assms by (cases e) (auto simp: core_ok_def push_effect_def)

lemma state_send [simp]:
  "sh_state (sendServerMessage H m s) = sh_state s" "sh_contract (sendServerMessage H m s) = sh_contract s"
  "sh_open (sendServerMessage H m s) = sh_open s" "sh_disposed (sendServerMessage H m s) = sh_disposed s"
  "sh_registered (sendServerMessage H m s) = sh_registered s"
proof -
  have d: "sh_state (drop_frames H s) = sh_state s \<and> sh_contract (drop_frames H s) = sh_contract s \<and>
      sh_open (drop_frames H s) = sh_open s \<and> sh_disposed (drop_frames H s) = sh_disposed s \<and>
      sh_registered (drop_frames H s) = sh_registered s" for s
    by (induction H s rule: drop_frames.induct) (subst (1 2 3 4 5) drop_frames.simps, simp split: list.split)
  show "sh_state (sendServerMessage H m s) = sh_state s" "sh_contract (sendServerMessage H m s) = sh_contract s"
    "sh_open (sendServerMessage H m s) = sh_open s" "sh_disposed (sendServerMessage H m s) = sh_disposed s"
    "sh_registered (sendServerMessage H m s) = sh_registered s"
    using d by (simp_all add: sendServerMessage_def push_effect_def bufferPendingStreamFrame_def split: server_message.split)
qed

section \<open>Disabling and activating\<close>

lemma sum_filter_le: "sum_list (map (w :: 'a \<Rightarrow> nat) (filter P xs)) \<le> sum_list (map w xs)"
  by (induction xs) auto

lemma queue_filter:
  "queue_ok H fs n \<Longrightarrow> queue_ok H (filter P fs) (sum_list (map (getPendingStreamFrameBytes H) (filter P fs)))"
  using sum_filter_le [of "getPendingStreamFrameBytes H" P fs] le_trans [OF length_filter_le [of P fs]]
  by (auto simp: queue_ok_def)

lemma untold_ok: "core_ok H C True s \<Longrightarrow> core_ok H C False s"
  by (simp add: core_ok_def)

text \<open>A status message restores the agreement with the client.\<close>
lemma status_ok:
  assumes "core_ok H C False s"
  shows "core_ok H C True (sendRemoteEnhancementRuntimeStatus H s)"
  using assms
  by (cases "sh_disposed s"; cases "sh_open s")
    (simp_all add: sendRemoteEnhancementRuntimeStatus_def sendServerMessage_def core_ok_def push_effect_def
      runtime_status_of_def)

lemma disable_ok:
  assumes "core_ok H C True s"
  shows "core_ok H C True (disableRemoteEnhancementsRuntime H code message s)"
proof -
  let ?kept = "filter (\<lambda>f. case f of OutputFrame d \<Rightarrow> True | EventFrame e \<Rightarrow> False) (sh_frames s)"
  have "list_all (frame_ok C RuntimeDisabled) ?kept" by (auto simp: list_all_iff split: frame.splits)
  moreover have "queue_ok H ?kept (sum_list (map (getPendingStreamFrameBytes H) ?kept))"
    using assms unfolding core_ok_def by (blast intro: queue_filter)
  ultimately show ?thesis
    using assms
    unfolding disableRemoteEnhancementsRuntime_def Let_def
    by (intro status_ok)
      (simp add: core_ok_def discardPendingRemoteShellEventFrames_def clearRemoteEnhancementHandshakeTimeout_def
        Let_def)
qed

lemma activate_ok:
  assumes "core_ok H C True s" and "sh_state s = RuntimePending"
  shows "core_ok H C True (activate H s)"
proof -
  have "list_all (frame_ok C RuntimeActive) (sh_frames s)"
    using assms by (auto simp: core_ok_def list_all_iff elim!: frame_ok.elims(2))
  with assms show ?thesis
    unfolding activate_def
    by (intro status_ok) (simp add: core_ok_def clearRemoteEnhancementHandshakeTimeout_def)
qed

lemma activate_state [simp]: "sh_state (activate H s) = RuntimeActive"
  by (simp add: activate_def sendRemoteEnhancementRuntimeStatus_def)

lemma shell_event_ok:
  assumes "core_ok H C True s"
  shows "core_ok H C True (handleRemoteShellEvent H now e s)"
proof -
  have C: "sh_contract s = C" using assms by (simp add: core_ok_def)
  show ?thesis
  proof (cases "sh_state s = RuntimeDisabled \<or> C = None \<or> \<not> remoteShellEventMatchesContract e (the C) \<or>
      sh_state s = RuntimePending \<and> se_detail e \<noteq> IntegrationReady")
    case True
    have "handleRemoteShellEvent H now e s \<in> {s, disableRemoteEnhancementsRuntime H
        (js ''HELPER_CONTRACT_MISMATCH'') (js ''remote helper contract mismatch'') s}"
      using True unfolding handleRemoteShellEvent_def C by (simp only: Let_def split: if_split) blast
    with assms disable_ok [OF assms] show ?thesis by (metis empty_iff insert_iff)
  next
    case False
    let ?s = "if sh_state s = RuntimePending then activate H s else s"
    let ?t = "applyRemoteShellEventState now e ?s"
    have active: "sh_state ?s = RuntimeActive" using False by (cases "sh_state s") auto
    have trusted: "trusted_event C e" using False by (auto simp: trusted_event_def)
    have "core_ok H C True ?s" using assms activate_ok by simp
    then have "core_ok H C True ?t" by (rule same_core_ok [OF event_state_same])
    moreover have "sh_state ?t = RuntimeActive" using active event_state_same [of ?s now e] by (simp add: same_core_def)
    ultimately have "core_ok H C True (sendServerMessage H (ShellEvent e) ?t)"
      using trusted by (intro ssh_send_ok) auto
    moreover have "handleRemoteShellEvent H now e s = sendServerMessage H (ShellEvent e) ?t"
      using False C unfolding handleRemoteShellEvent_def Let_def by auto
    ultimately show ?thesis by simp
  qed
qed

lemma visible_ok: "core_ok H C True s \<Longrightarrow> core_ok H C True (handleVisibleShellOutput H now data s)"
  unfolding handleVisibleShellOutput_def Let_def
  by (intro send_plain_ok same_core_ok [OF cwd_same]) (simp_all add: core_ok_def)

lemma frames_ok: "core_ok H C True s \<Longrightarrow> core_ok H C True (fold (handle_frame H now) fs s)"
proof (induction fs arbitrary: s)
  case (Cons f fs)
  have "core_ok H C True (handle_frame H now f s)"
    using Cons.prems by (cases f) (simp_all add: shell_event_ok visible_ok)
  with Cons.IH show ?case by simp
qed simp

lemma output_ok: "core_ok H C True s \<Longrightarrow> core_ok H C True (handleShellOutput H now data s)"
  unfolding handleShellOutput_def by (auto split: prod.split intro!: frames_ok) (simp add: core_ok_def)

section \<open>Attaching\<close>

lemma flush_loop_ok:
  "core_ok H C True s \<Longrightarrow> core_ok H C True (flush_loop H s)"
proof (induction H s rule: flush_loop.induct)
  case (1 H s)
  show ?case
  proof (cases "sh_frames s")
    case Nil
    then show ?thesis using 1(2) by (subst flush_loop.simps) simp
  next
    case (Cons f fs)
    show ?thesis
    proof (cases "sh_open s")
      case True
      let ?s = "s\<lparr>sh_frames := fs, sh_frameBytes := sh_frameBytes s - getPendingStreamFrameBytes H f\<rparr>"
      have "core_ok H C True ?s" using 1(2) Cons by (simp add: core_ok_def queue_ok_def)
      then have "core_ok H C True (send_frame f ?s)"
        using 1(2) Cons True by (cases f) (auto simp: core_ok_def push_effect_def send_frame_def)
      from 1(1) [OF Cons _ this] True Cons show ?thesis by (subst flush_loop.simps) simp
    qed (use Cons 1(2) in \<open>subst flush_loop.simps, simp\<close>)
  qed
qed

lemma ssh_flush_ok: "core_ok H C True s \<Longrightarrow> core_ok H C True (flushPendingStreamFrames H s)"
  using flush_loop_ok [of H C s]
  by (auto simp: flushPendingStreamFrames_def Let_def core_ok_def push_effect_def)

lemma send_plain_untold:
  assumes "core_ok H C False s" and "\<forall>r. m \<noteq> RuntimeStatus r" and "\<forall>e. m \<noteq> ShellEvent e" and "sh_open s"
  shows "core_ok H C False (sendServerMessage H m s)"
  using assms by (cases m) (auto simp: sendServerMessage_def core_ok_def push_effect_def)

lemma statuses_ok: "core_ok H C False s \<Longrightarrow> sh_open s \<Longrightarrow> core_ok H C False (send_statuses H bs s)"
proof (induction bs arbitrary: s)
  case (Cons b bs)
  have "core_ok H C False (s\<lparr>sh_bootstrapStatuses := bs\<rparr>)" using Cons.prems(1) by (simp add: core_ok_def)
  with Cons show ?case by (simp add: send_plain_untold)
qed simp

lemma attach_ok:
  assumes "core_ok H C True s" and "\<not> sh_disposed s"
  shows "core_ok H C True (onSessionAttached H (push_effect ClientAttached (s\<lparr>sh_open := True\<rparr>)))"
proof -
  let ?s = "push_effect ClientAttached (s\<lparr>sh_open := True\<rparr>)"
  let ?r = "sendServerMessage H ReadyMessage ?s"
  have s: "core_ok H C False ?s" "sh_open ?s" using assms by (simp_all add: core_ok_def push_effect_def)
  then have "core_ok H C False ?r" by (simp add: send_plain_untold)
  then have "core_ok H C False (send_statuses H (sh_bootstrapStatuses ?r) ?r)"
    using s(2) by (intro statuses_ok) simp_all
  then show ?thesis unfolding onSessionAttached_def Let_def by (intro ssh_flush_ok status_ok)
qed

section \<open>Every event\<close>

lemma ssh_dispose_ok:
  assumes "core_ok H C True s"
  shows "core_ok H C True (disposeSession H reason s)"
proof (cases "\<not> sh_registered s \<or> sh_disposed s")
  case False
  let ?s = "sendServerMessage H (ExitMessage reason) (clearRemoteEnhancementHandshakeTimeout (s\<lparr>sh_sync := None\<rparr>))"
  have "core_ok H C True (clearRemoteEnhancementHandshakeTimeout (s\<lparr>sh_sync := None\<rparr>))"
    using assms by (simp add: core_ok_def clearRemoteEnhancementHandshakeTimeout_def)
  then have "core_ok H C True ?s" by (simp add: send_plain_ok)
  then have "core_ok H C True (?s\<lparr>sh_disposed := True, sh_registered := False, sh_open := False\<rparr>)"
    by (simp add: core_ok_def)
  with False show ?thesis by (simp add: disposeSession_def Let_def effect_push_ok)
qed (use assms in \<open>auto simp: disposeSession_def\<close>)

lemma sync_done_ok:
  "core_ok H C True s \<Longrightarrow> core_ok H C True (if sh_syncPending (s\<lparr>sh_syncInFlight := False\<rparr>)
     then scheduleHistorySync now False (s\<lparr>sh_syncInFlight := False, sh_syncPending := False\<rparr>)
     else s\<lparr>sh_syncInFlight := False\<rparr>)"
proof -
  assume "core_ok H C True s"
  then have "core_ok H C True (s\<lparr>sh_syncInFlight := False, sh_syncPending := False\<rparr>)"
    "core_ok H C True (s\<lparr>sh_syncInFlight := False\<rparr>)"
    by (simp_all add: core_ok_def)
  then show ?thesis by (simp add: same_core_ok [OF schedule_same])
qed

lemma history_read_ok:
  assumes "core_ok H C True s"
  shows "core_ok H C True (history_read H now stdout s)"
proof -
  have ok: "core_ok H C True (sendServerMessage H (HistoryMessage c) (s\<lparr>sh_recentCommands := c, sh_interactive := i\<rparr>))" for c i
    using assms by (intro send_plain_ok) (simp_all add: core_ok_def)
  show ?thesis
  proof (cases stdout)
    case None
    then show ?thesis
      using sync_done_ok [OF assms] assms unfolding history_read_def Let_def
      by (cases "sh_syncInFlight s") (simp_all only: option.simps if_True if_False simp_thms)
  next
    case (Some out)
    then show ?thesis
      using sync_done_ok [OF ok] assms unfolding history_read_def Let_def
      by (cases "sh_syncInFlight s") (simp_all only: option.simps if_True if_False simp_thms)
  qed
qed

lemma text_input_ok:
  assumes "core_ok H C True s"
  shows "core_ok H C True (text_input H now data s)"
proof -
  have ok: "core_ok H C True ((fold (command_submitted H) cs s)\<lparr>sh_interactive := i, sh_prompt := p\<rparr>)" for cs i p
    using same_core_ok [OF submitted_same assms] by (simp add: core_ok_def)
  have counted: "core_ok H C True (scheduleHistorySync now False (t\<lparr>sh_commandCount := n\<rparr>))" if "core_ok H C True t" for t n
    by (rule same_core_ok [OF schedule_same]) (use that in \<open>simp add: core_ok_def\<close>)
  show ?thesis
    unfolding text_input_def Let_def
    by (auto split: prod.split simp: effect_push_ok ok counted)
qed

lemma message_ok:
  assumes "core_ok H C True s"
  shows "core_ok H C True (handleClientMessage H now payload s)"
proof -
  have delete: "core_ok H C True (deleteRemoteHistoryEntry c s)" for c
    using assms by (simp add: deleteRemoteHistoryEntry_def Let_def effect_push_ok)
  show ?thesis
    unfolding handleClientMessage_def
    using assms
    by (auto simp: effect_push_ok send_plain_ok ssh_dispose_ok text_input_ok delete split: option.split client_message.split)
qed

lemma deleted_ok:
  assumes "core_ok H C True s"
  shows "core_ok H C True (history_deleted H now command s)"
proof -
  have "core_ok H C True (s\<lparr>sh_recentCommands := c, sh_interactive := i\<rparr>)" for c i
    using assms by (simp add: core_ok_def)
  then show ?thesis
    unfolding history_deleted_def Let_def by (intro same_core_ok [OF schedule_same] send_plain_ok) simp_all
qed

lemma ssh_step_ok:
  assumes "core_ok H C True s"
  shows "core_ok H C True (ssh_step H e s)"
proof (cases e)
  case ClientConnects
  then show ?thesis using assms attach_ok by simp
next
  case ClientSocketClosing
  then show ?thesis using assms by (simp add: core_ok_def)
next
  case HandshakeTimeout
  have "core_ok H C True (s\<lparr>sh_handshakeTimer := False\<rparr>)" using assms by (simp add: core_ok_def)
  with HandshakeTimeout assms show ?thesis by (simp add: handshake_timeout_def Let_def disable_ok)
next
  case (HistoryTimer now)
  have "core_ok H C True (s\<lparr>sh_sync := None, sh_syncPending := True\<rparr>)"
    "core_ok H C True (s\<lparr>sh_sync := None\<rparr>)"
    "core_ok H C True (s\<lparr>sh_sync := None, sh_syncInFlight := True, sh_lastSyncAt := of_int now\<rparr>)"
    using assms by (simp_all add: core_ok_def)
  with HistoryTimer assms show ?thesis by (simp add: history_timer_fires_def syncRemoteHistory_def effect_push_ok)
next
  case (DirectoriesProbed out)
  then show ?thesis using same_core_ok [OF probed_same assms] by simp
next
  case (ConnectionError m)
  then show ?thesis using assms by (simp add: ssh_dispose_ok send_plain_ok)
qed (use assms in \<open>simp_all add: shell_data_def output_ok message_ok history_read_ok deleted_ok ssh_dispose_ok\<close>)

lemma ssh_steps_ok: "core_ok H C True s \<Longrightarrow> core_ok H C True (fold (ssh_step H) es s)"
  by (induction es arbitrary: s) (simp_all add: ssh_step_ok)

definition offered :: "bootstrap_result \<Rightarrow> runtime_contract option" where
  "offered result = (case result of BootstrapReady c \<Rightarrow> Some c | BootstrapDisabled c m \<Rightarrow> None)"

lemma ssh_create_ok: "core_ok H (offered result) True (create_session H now statuses result early)"
proof -
  obtain chunks bytes drops where b: "fold buffer_early early ([], 0, 0) = (chunks, bytes, drops)" by (metis prod_cases3)
  have "core_ok H (offered result) True (startRemoteEnhancementHandshakeTimeout (new_session statuses result drops))"
    by (cases result)
      (simp_all add: core_ok_def startRemoteEnhancementHandshakeTimeout_def clearRemoteEnhancementHandshakeTimeout_def
        new_session_def offered_def queue_ok_def Let_def)
  then have "core_ok H (offered result) True (fold (handleShellOutput H now) chunks
      (startRemoteEnhancementHandshakeTimeout (new_session statuses result drops)))"
  proof (induction chunks arbitrary: drops rule: rev_induct)
    case (snoc c cs)
    then show ?case by (simp add: output_ok)
  qed simp
  then have "core_ok H (offered result) True ((fold (handleShellOutput H now) chunks
      (startRemoteEnhancementHandshakeTimeout (new_session statuses result drops)))\<lparr>sh_registered := True\<rparr>)"
    by (simp add: core_ok_def)
  then show ?thesis by (simp add: create_session_def b same_core_ok [OF schedule_same])
qed

definition ssh_run :: "ssh_host \<Rightarrow> int \<Rightarrow> bootstrap_status list \<Rightarrow> bootstrap_result \<Rightarrow> jstring list \<Rightarrow> ssh_event list \<Rightarrow> ssh_session" where
  "ssh_run H now statuses result early es = fold (ssh_step H) es (create_session H now statuses result early)"

lemma ssh_run_ok: "core_ok H (offered result) True (ssh_run H now statuses result early es)"
  unfolding ssh_run_def by (rule ssh_steps_ok [OF ssh_create_ok])

end
