(* ===== verification/SshTheorems.thy ===== *)
theory SshTheorems
  imports SshRuntimeProofs
begin

text \<open>
  What an SSH session guarantees its client, and where it does not (packages/backend/src/ssh/session-service.ts):
  every run starts with \<open>create_session\<close> and is a sequence of the events of \<open>SshRuntime\<close>.
\<close>

section \<open>Helper events\<close>

text \<open>C14: Whatever the shell prints and the client does, a helper event is sent to the client only when it comes
  from the runtime that the bootstrap validated, and after the client attached now was told that the runtime is
  active and not that it stopped being so.\<close>
theorem helper_events_trusted: "trace_ok (offered result) (sh_effects (ssh_run H now statuses result early es))"
  using ssh_run_ok unfolding core_ok_def by blast

text \<open>The queue for a client that is not attached never holds more than 2048 frames or one mebibyte, and the
  count of its bytes is exact.\<close>
theorem detached_queue_bounded:
  "length (sh_frames (ssh_run H now statuses result early es)) \<le> 2048 \<and>
   sh_frameBytes (ssh_run H now statuses result early es) \<le> 1048576 \<and>
   sh_frameBytes (ssh_run H now statuses result early es) =
     sum_list (map (getPendingStreamFrameBytes H) (sh_frames (ssh_run H now statuses result early es)))"
  using ssh_run_ok [of H result now statuses early es]
  by (simp add: core_ok_def queue_ok_def FRAME_MAX_COUNT_def FRAME_MAX_BYTES_def)

section \<open>What the session derives from the helper\<close>

definition helper_state ::
  "ssh_session \<Rightarrow> runtime_state \<times> bool \<times> jstring option \<times> jstring option \<times> jstring option \<times> jstring option \<times> jsnum option \<times> jsnum option" where
  "helper_state s = (sh_state s, sh_shellReady s, sh_shellCwd s, sh_foregroundCommand s, sh_lastCommand s,
     sh_lastCommandId s, sh_lastExitCode s, sh_lastDurationMs s)"

definition gated :: "ssh_session \<Rightarrow> bool" where
  "gated s \<longleftrightarrow> sh_state s = RuntimeActive \<or>
     (\<not> sh_shellReady s \<and> sh_shellCwd s = None \<and> sh_foregroundCommand s = None \<and> sh_lastCommand s = None \<and>
      sh_lastCommandId s = None \<and> sh_lastExitCode s = None \<and> sh_lastDurationMs s = None)"

text \<open>A step that keeps the gate, and never opens it again once it is closed for good.\<close>

definition gate_step :: "ssh_session \<Rightarrow> ssh_session \<Rightarrow> bool" where
  "gate_step s t \<longleftrightarrow> (gated s \<longrightarrow> gated t) \<and> (sh_state s = RuntimeDisabled \<longrightarrow> sh_state t = RuntimeDisabled)"

lemma gate_trans: "gate_step s t \<Longrightarrow> gate_step t u \<Longrightarrow> gate_step s u"
  by (simp add: gate_step_def)

lemma gate_same: "helper_state t = helper_state s \<Longrightarrow> gate_step s t"
  by (simp add: helper_state_def gate_step_def gated_def)

lemma helper_send [simp]: "helper_state (sendServerMessage H m s) = helper_state s"
proof -
  have "helper_state (drop_frames H s) = helper_state s" for s
    by (induction H s rule: drop_frames.induct)
      (subst drop_frames.simps, simp split: list.split, simp add: helper_state_def)
  then show ?thesis
    by (cases m) (simp_all add: sendServerMessage_def push_effect_def bufferPendingStreamFrame_def, simp_all add: helper_state_def)
qed

lemma helper_status [simp]: "helper_state (sendRemoteEnhancementRuntimeStatus H s) = helper_state s"
  by (simp add: sendRemoteEnhancementRuntimeStatus_def)

lemma helper_push [simp]: "helper_state (push_effect e s) = helper_state s"
  by (simp add: helper_state_def push_effect_def)

lemma helper_schedule [simp]: "helper_state (scheduleHistorySync now im s) = helper_state s"
  by (simp add: helper_state_def scheduleHistorySync_def)

lemma helper_cwd [simp]:
  "helper_state (applyResolvedRemoteCompletionCwd cwd s) = helper_state s"
  "helper_state (applyRemoteCompletionBaseCwd H cwd s) = helper_state s"
  "helper_state (fold (command_submitted H) cmds s) = helper_state s"
proof -
  show "helper_state (fold (command_submitted H) cmds s) = helper_state s"
    by (induction cmds arbitrary: s) (simp_all add: command_submitted_def, simp_all add: helper_state_def)
qed (simp_all add: helper_state_def applyResolvedRemoteCompletionCwd_def applyRemoteCompletionBaseCwd_def)

lemma gate_disable: "gate_step s (disableRemoteEnhancementsRuntime H code message s)"
proof -
  have "gated (disableRemoteEnhancementsRuntime H code message s) \<and>
      sh_state (disableRemoteEnhancementsRuntime H code message s) = RuntimeDisabled"
    using helper_status [of H] unfolding disableRemoteEnhancementsRuntime_def Let_def helper_state_def gated_def prod.inject
    by (simp add: discardPendingRemoteShellEventFrames_def Let_def)
  then show ?thesis by (simp add: gate_step_def)
qed

lemma gate_event: "gate_step s (handleRemoteShellEvent H now e s)"
proof (cases "sh_state s = RuntimeDisabled \<or> sh_contract s = None \<or>
    \<not> remoteShellEventMatchesContract e (the (sh_contract s)) \<or> sh_state s = RuntimePending \<and> se_detail e \<noteq> IntegrationReady")
  case True
  then have "handleRemoteShellEvent H now e s \<in> {s, disableRemoteEnhancementsRuntime H
      (js ''HELPER_CONTRACT_MISMATCH'') (js ''remote helper contract mismatch'') s}"
    unfolding handleRemoteShellEvent_def by (simp only: Let_def split: if_split) blast
  with gate_disable show ?thesis by (metis empty_iff gate_same insert_iff)
next
  case False
  let ?t = "applyRemoteShellEventState now e (if sh_state s = RuntimePending then activate H s else s)"
  have "sh_state ?t = RuntimeActive"
    using False event_state_same [of "if sh_state s = RuntimePending then activate H s else s" now e]
    by (cases "sh_state s") (auto simp: same_core_def)
  moreover have "handleRemoteShellEvent H now e s = sendServerMessage H (ShellEvent e) ?t"
    using False unfolding handleRemoteShellEvent_def Let_def by auto
  ultimately show ?thesis using False by (simp add: gate_step_def gated_def)
qed

lemma gate_output: "gate_step s (handleShellOutput H now data s)"
proof -
  have visible: "gate_step s (handleVisibleShellOutput H now d s)" for d s
    by (rule gate_same) (simp add: handleVisibleShellOutput_def Let_def, simp add: helper_state_def)
  have frame: "gate_step s (handle_frame H now f s)" for f s
    by (cases f) (simp_all add: visible gate_event)
  have "gate_step s (fold (handle_frame H now) fs s)" for fs s
  proof (induction fs arbitrary: s)
    case (Cons f fs)
    show ?case using gate_trans [OF frame Cons.IH] by simp
  qed (simp add: gate_same)
  moreover have "gate_step s (s\<lparr>sh_parser := p\<rparr>)" for p by (simp add: gate_same helper_state_def)
  ultimately show ?thesis by (auto simp: handleShellOutput_def intro: gate_trans split: prod.split)
qed

lemma helper_dispose [simp]: "helper_state (disposeSession H reason s) = helper_state s"
proof -
  have drop: "helper_state (s\<lparr>sh_disposed := a, sh_registered := b, sh_open := c\<rparr>) = helper_state s" for a b c s
    by (simp add: helper_state_def)
  show ?thesis
    by (simp add: disposeSession_def Let_def drop) (simp add: helper_state_def clearRemoteEnhancementHandshakeTimeout_def)
qed

lemma helper_attach [simp]: "helper_state (onSessionAttached H s) = helper_state s"
proof -
  have frame: "helper_state (send_frame f s) = helper_state s" for f s
    by (simp add: send_frame_def split: frame.split)
  have loop: "helper_state (flush_loop H s) = helper_state s" for s
  proof (induction H s rule: flush_loop.induct)
    case (1 H s)
    show ?case
      by (subst flush_loop.simps) (use 1 frame in \<open>auto simp: helper_state_def split: list.split\<close>)
  qed
  have drops: "helper_state (s\<lparr>sh_dropCount := n\<rparr>) = helper_state s" for n s by (simp add: helper_state_def)
  have statuses: "helper_state (send_statuses H bs s) = helper_state s" for bs s
    by (induction bs arbitrary: s) (simp_all, simp add: helper_state_def)
  show ?thesis by (simp add: onSessionAttached_def flushPendingStreamFrames_def Let_def drops loop statuses)
qed

lemma helper_message [simp]: "helper_state (handleClientMessage H now payload s) = helper_state s"
proof -
  have input: "helper_state (text_input H now d s) = helper_state s" for d
  proof -
    have "helper_state (t\<lparr>sh_interactive := i, sh_prompt := p\<rparr>) = helper_state t"
      "helper_state (t\<lparr>sh_commandCount := n\<rparr>) = helper_state t" for t i p n
      by (simp_all add: helper_state_def)
    then show ?thesis by (simp add: text_input_def Let_def split: prod.split)
  qed
  show ?thesis
    by (simp add: handleClientMessage_def input deleteRemoteHistoryEntry_def Let_def split: option.split client_message.split)
qed

lemma gate_ssh_step: "gate_step s (ssh_step H e s)"
proof (cases e)
  case (ShellData now chunk)
  then show ?thesis by (simp add: shell_data_def gate_output)
next
  case HandshakeTimeout
  have "gate_step s (s\<lparr>sh_handshakeTimer := False\<rparr>)" by (simp add: gate_same helper_state_def)
  with HandshakeTimeout gate_trans [OF this gate_disable] show ?thesis
    by (simp add: handshake_timeout_def Let_def gate_same)
next
  case (HistoryRead now stdout)
  have "helper_state (t\<lparr>sh_syncInFlight := a, sh_syncPending := b\<rparr>) = helper_state t"
    "helper_state (t\<lparr>sh_syncInFlight := a\<rparr>) = helper_state t"
    "helper_state (t\<lparr>sh_recentCommands := c, sh_interactive := i\<rparr>) = helper_state t" for t a b c i
    by (simp_all add: helper_state_def)
  with HistoryRead show ?thesis by (intro gate_same) (simp add: history_read_def Let_def split: option.split)
next
  case (HistoryTimer now)
  then show ?thesis
    by (intro gate_same) (simp add: history_timer_fires_def syncRemoteHistory_def push_effect_def helper_state_def)
next
  case (DirectoriesProbed out)
  have "helper_state (s\<lparr>sh_homeDirectory := h\<rparr>) = helper_state s" for h by (simp add: helper_state_def)
  with DirectoriesProbed show ?thesis
    by (intro gate_same) (simp add: completion_directories_probed_def Let_def split: prod.split)
next
  case (HistoryDeleted now command)
  have "helper_state (t\<lparr>sh_recentCommands := c, sh_interactive := i\<rparr>) = helper_state t" for t c i
    by (simp add: helper_state_def)
  with HistoryDeleted show ?thesis by (intro gate_same) (simp add: history_deleted_def Let_def)
next
  case ClientConnects
  have "helper_state (s\<lparr>sh_open := True\<rparr>) = helper_state s" by (simp add: helper_state_def)
  with ClientConnects show ?thesis by (intro gate_same) simp
next
  case ClientSocketClosing
  then show ?thesis by (intro gate_same) (simp add: helper_state_def)
qed (intro gate_same; simp)+

lemma gate_steps: "gate_step s (fold (ssh_step H) es s)"
proof (induction es arbitrary: s)
  case (Cons e es)
  show ?case using gate_trans [OF gate_ssh_step Cons.IH] by simp
qed (simp add: gate_same)

lemma gate_create: "gated (create_session H now statuses result early)"
proof -
  obtain chunks bytes drops where b: "fold buffer_early early ([], 0, 0) = (chunks, bytes, drops)" by (metis prod_cases3)
  let ?s = "startRemoteEnhancementHandshakeTimeout (new_session statuses result drops)"
  have "gate_step ?s (fold (handleShellOutput H now) chunks ?s)"
  proof (induction chunks rule: rev_induct)
    case (snoc c cs)
    then show ?case using gate_trans [OF snoc gate_output] by simp
  qed (simp add: gate_same)
  moreover have "gated ?s"
    by (simp add: startRemoteEnhancementHandshakeTimeout_def clearRemoteEnhancementHandshakeTimeout_def new_session_def
        gated_def Let_def)
  ultimately have "gated (fold (handleShellOutput H now) chunks ?s)" by (simp add: gate_step_def)
  then show ?thesis by (simp add: create_session_def b scheduleHistorySync_def gated_def Let_def)
qed

text \<open>C20: Nothing that a helper reported outlives its trust: unless the runtime is active, the session holds no
  directory, command or exit code of the remote shell.\<close>
theorem untrusted_state_is_clear: "gated (ssh_run H now statuses result early es)"
  unfolding ssh_run_def using gate_steps gate_create unfolding gate_step_def by blast

text \<open>A runtime that was disabled is never pending or active again, whatever follows.\<close>
theorem disabled_is_final:
  assumes "sh_state (ssh_run H now statuses result early es) = RuntimeDisabled"
  shows "sh_state (ssh_run H now statuses result early (es @ later)) = RuntimeDisabled"
  using gate_steps [of "ssh_run H now statuses result early es" H later] assms
  by (simp add: ssh_run_def gate_step_def)

theorem disabled_is_final_witness:
  "sh_state (ssh_run \<lparr>ho_from_base64 = (\<lambda>_. []), ho_num_text = (\<lambda>_. []), ho_cwd = [slash]\<rparr> 0 []
     (BootstrapDisabled [] []) [] ([] @ [ClientConnects, HandshakeTimeout])) = RuntimeDisabled"
  by (rule disabled_is_final)
    (simp add: ssh_run_def create_session_def scheduleHistorySync_def startRemoteEnhancementHandshakeTimeout_def
      clearRemoteEnhancementHandshakeTimeout_def new_session_def Let_def)

section \<open>The renderer's view\<close>

text \<open>What a pane of the renderer makes of the effects: it reduces the messages.\<close>

fun pane_step :: "rat \<Rightarrow> ssh_effect \<Rightarrow> pane \<Rightarrow> pane" where
  "pane_step t (ToClient m) p = reduceServerMessage p m t"
| "pane_step t _ p = p"

definition pane_view :: "rat \<Rightarrow> ssh_effect list \<Rightarrow> pane \<Rightarrow> pane" where
  "pane_view t es p = fold (pane_step t) es p"

definition pane_agrees :: "runtime_state \<Rightarrow> pane \<Rightarrow> bool" where
  "pane_agrees st p \<longleftrightarrow> map_option rs_state (remoteEnhancementRuntimeStatus p) = Some st \<and>
     (st \<noteq> RuntimeActive \<longrightarrow> trustedCwd p = None \<and> promptGeneration p = None \<and> lineState p = None)"

lemma event_agrees: "pane_agrees RuntimeActive p \<Longrightarrow> pane_agrees RuntimeActive (reduceServerMessage p (ShellEvent e) t)"
  by (cases "se_detail e") (simp_all add: pane_agrees_def reduceServerMessage_def reduceShellEvent_def Let_def)

lemma message_agrees:
  "pane_agrees st p \<Longrightarrow> \<forall>r. m \<noteq> RuntimeStatus r \<Longrightarrow> \<forall>e. m \<noteq> ShellEvent e \<Longrightarrow> pane_agrees st (reduceServerMessage p m t)"
  by (cases m) (simp_all add: pane_agrees_def reduceServerMessage_def)

lemma view_agrees:
  "trace_ok C es \<Longrightarrow> told es = Some st \<Longrightarrow> pane_agrees st (pane_view t es p)"
proof (induction es arbitrary: st rule: rev_induct)
  case (snoc x es)
  have ok: "trace_ok C es" and x: "effect_ok C (told es) x" using snoc.prems(1) by simp_all
  have view: "pane_view t (es @ [x]) p = pane_step t x (pane_view t es p)" by (simp add: pane_view_def)
  show ?case
  proof (cases x)
    case (ToClient m)
    show ?thesis
    proof (cases m)
      case (RuntimeStatus r)
      then show ?thesis
        using snoc.prems(2) ToClient view by (simp add: pane_agrees_def reduceServerMessage_def Let_def)
    next
      case (ShellEvent e)
      then show ?thesis
        using snoc ok x ToClient view event_agrees by simp
    qed (use snoc ok ToClient view message_agrees in simp_all)
  qed (use snoc ok view in simp_all)
qed (simp add: told_def)

text \<open>C15: The session and the renderer agree: whatever state the pane was in before, once it has reduced the
  messages of a session that is attached, it shows the state of the helper runtime that the session is in, and
  unless that is active it trusts no directory and no prompt position.\<close>
theorem renderer_agrees:
  assumes "sh_open (ssh_run H now statuses result early es)"
  shows "pane_agrees (sh_state (ssh_run H now statuses result early es))
    (pane_view t (sh_effects (ssh_run H now statuses result early es)) p)"
  using assms ssh_run_ok [of H result now statuses early es] view_agrees unfolding core_ok_def by blast

lemma sample_attached:
  "sh_open (ssh_run H 0 [] (BootstrapDisabled c m) [] [ClientConnects])"
proof -
  have flush: "sh_open (flush_loop H s) = sh_open s" for s
    by (induction H s rule: flush_loop.induct)
      (subst flush_loop.simps, simp add: send_frame_def push_effect_def split: list.split frame.split)
  have statuses: "sh_open (send_statuses H bs s) = sh_open s" for bs s
    by (induction bs arbitrary: s) simp_all
  have "sh_registered (create_session H 0 [] (BootstrapDisabled c m) [])"
    "\<not> sh_disposed (create_session H 0 [] (BootstrapDisabled c m) [])"
    by (simp_all add: create_session_def scheduleHistorySync_def startRemoteEnhancementHandshakeTimeout_def
        clearRemoteEnhancementHandshakeTimeout_def new_session_def Let_def)
  then show ?thesis
    by (simp add: ssh_run_def onSessionAttached_def flushPendingStreamFrames_def Let_def flush statuses
        sendRemoteEnhancementRuntimeStatus_def push_effect_def)
qed

definition plain_host :: ssh_host where
  "plain_host = \<lparr>ho_from_base64 = (\<lambda>_. []), ho_num_text = (\<lambda>_. js ''0''), ho_cwd = [slash]\<rparr>"

theorem renderer_agrees_witness:
  "pane_agrees (sh_state (ssh_run plain_host 0 [] (BootstrapDisabled [] []) [] [ClientConnects]))
    (pane_view 1 (sh_effects (ssh_run plain_host 0 [] (BootstrapDisabled [] []) [] [ClientConnects])) createSshPaneState)"
  by (rule renderer_agrees [OF sample_attached])

section \<open>Output\<close>

fun output_text :: "ssh_effect \<Rightarrow> jstring list" where
  "output_text (ToClient (OutputMessage data)) = [data]"
| "output_text _ = []"

definition delivered :: "ssh_session \<Rightarrow> jstring list" where
  "delivered s = concat (map output_text (sh_effects s))"

fun visible_text :: "frame \<Rightarrow> jstring list" where
  "visible_text (OutputFrame data) = [data]"
| "visible_text (EventFrame e) = []"

definition attached :: "ssh_session \<Rightarrow> bool" where
  "attached s \<longleftrightarrow> sh_open s \<and> \<not> sh_disposed s"

lemma ssh_send_attached: "attached s \<Longrightarrow> sendServerMessage H m s = push_effect (ToClient m) s"
  by (simp add: attached_def sendServerMessage_def)

text \<open>The client stays attached and gets no output.\<close>

definition quiet :: "ssh_session \<Rightarrow> ssh_session \<Rightarrow> bool" where
  "quiet s t \<longleftrightarrow> (attached s \<longrightarrow> attached t \<and> delivered t = delivered s)"

lemma quiet_trans: "quiet s t \<Longrightarrow> quiet t u \<Longrightarrow> quiet s u"
  by (auto simp: quiet_def)

lemma same_core_quiet: "same_core s t \<Longrightarrow> quiet s t"
  by (simp add: same_core_def attached_def delivered_def quiet_def)

lemma send_quiet: "\<forall>d. m \<noteq> OutputMessage d \<Longrightarrow> quiet s (sendServerMessage H m s)"
  by (cases m) (simp_all add: quiet_def ssh_send_attached, simp_all add: attached_def delivered_def push_effect_def)

lemma status_quiet: "quiet s (sendRemoteEnhancementRuntimeStatus H s)"
  by (simp add: sendRemoteEnhancementRuntimeStatus_def send_quiet)

lemma disable_quiet: "quiet s (disableRemoteEnhancementsRuntime H code message s)"
  unfolding disableRemoteEnhancementsRuntime_def Let_def
  by (rule quiet_trans [OF _ status_quiet])
    (simp add: quiet_def attached_def delivered_def discardPendingRemoteShellEventFrames_def
      clearRemoteEnhancementHandshakeTimeout_def Let_def)

lemma activate_quiet: "quiet s (activate H s)"
  unfolding activate_def
  by (rule quiet_trans [OF _ status_quiet])
    (simp add: quiet_def attached_def delivered_def clearRemoteEnhancementHandshakeTimeout_def)

lemma event_quiet: "quiet s (handleRemoteShellEvent H now e s)"
proof -
  have "quiet s s" by (simp add: quiet_def)
  moreover have "quiet t (sendServerMessage H (ShellEvent e) (applyRemoteShellEventState now e t))" for t
    by (rule quiet_trans [OF same_core_quiet [OF event_state_same] send_quiet]) simp
  ultimately show ?thesis
    unfolding handleRemoteShellEvent_def Let_def
    by (auto intro: disable_quiet quiet_trans [OF activate_quiet])
qed

lemma visible_attached:
  assumes "attached s"
  shows "attached (handleVisibleShellOutput H now data s) \<and>
    delivered (handleVisibleShellOutput H now data s) = delivered s @ [data]"
proof -
  let ?t = "applyResolvedRemoteCompletionCwd cwd (s\<lparr>sh_prompt := p\<rparr>)"
  have "attached (applyResolvedRemoteCompletionCwd cwd (s\<lparr>sh_prompt := p\<rparr>)) \<and>
      delivered (applyResolvedRemoteCompletionCwd cwd (s\<lparr>sh_prompt := p\<rparr>)) = delivered s" for cwd p
    using assms by (simp add: applyResolvedRemoteCompletionCwd_def attached_def delivered_def)
  then show ?thesis
    by (simp add: handleVisibleShellOutput_def Let_def ssh_send_attached)
      (simp add: attached_def delivered_def push_effect_def)
qed

lemma frames_attached:
  "attached s \<Longrightarrow> attached (fold (handle_frame H now) fs s) \<and>
     delivered (fold (handle_frame H now) fs s) = delivered s @ concat (map visible_text fs)"
proof (induction fs arbitrary: s)
  case (Cons f fs)
  have "attached (handle_frame H now f s) \<and> delivered (handle_frame H now f s) = delivered s @ visible_text f"
    using Cons.prems visible_attached event_quiet by (cases f) (auto simp: quiet_def)
  with Cons.IH [of "handle_frame H now f s"] show ?case by simp
qed simp

lemma parser_kept:
  "sh_parser (fold (handle_frame H now) fs s) = sh_parser s"
proof -
  have buffer: "sh_parser (drop_frames H s) = sh_parser s" for s
    by (induction H s rule: drop_frames.induct) (subst drop_frames.simps, simp split: list.split)
  have send: "sh_parser (sendServerMessage H m s) = sh_parser s" for m s
    by (simp add: sendServerMessage_def push_effect_def bufferPendingStreamFrame_def buffer split: server_message.split)
  have disable: "sh_parser (disableRemoteEnhancementsRuntime H c m s) = sh_parser s" for c m s
    by (simp add: disableRemoteEnhancementsRuntime_def sendRemoteEnhancementRuntimeStatus_def send
        discardPendingRemoteShellEventFrames_def clearRemoteEnhancementHandshakeTimeout_def Let_def)
  have activate: "sh_parser (activate H s) = sh_parser s" for s
    by (simp add: activate_def sendRemoteEnhancementRuntimeStatus_def send clearRemoteEnhancementHandshakeTimeout_def)
  have state: "sh_parser (applyRemoteShellEventState now e s) = sh_parser s" for e s
    by (simp add: applyRemoteShellEventState_def scheduleHistorySync_def applyResolvedRemoteCompletionCwd_def Let_def
        split: event_detail.split)
  have "sh_parser (handle_frame H now f s) = sh_parser s" for f s
    by (cases f) (simp_all add: handleRemoteShellEvent_def handleVisibleShellOutput_def Let_def send disable activate state
        applyResolvedRemoteCompletionCwd_def)
  then show ?thesis by (induction fs arbitrary: s) simp_all
qed

lemma output_attached:
  assumes "attached s"
  shows "attached (fold (handleShellOutput H now) cs s) \<and>
    delivered (fold (handleShellOutput H now) cs s) =
      delivered s @ concat (map visible_text (fst (parse_chunks (ho_from_base64 H) cs (sh_parser s))))"
  using assms
proof (induction cs arbitrary: s)
  case (Cons c cs)
  obtain fs p where fp: "parse_chunk (ho_from_base64 H) c (sh_parser s) = (fs, p)" by (metis prod.exhaust)
  let ?t = "handleShellOutput H now c s"
  have "attached (s\<lparr>sh_parser := p\<rparr>)" "delivered (s\<lparr>sh_parser := p\<rparr>) = delivered s"
    using Cons.prems by (simp_all add: attached_def delivered_def)
  then have t: "attached ?t" "delivered ?t = delivered s @ concat (map visible_text fs)" "sh_parser ?t = p"
    using frames_attached [of "s\<lparr>sh_parser := p\<rparr>"] by (simp_all add: handleShellOutput_def fp parser_kept)
  from Cons.IH [OF t(1)] t show ?case by (simp add: fp split: prod.split)
qed simp

text \<open>C16: While a client is attached, it gets every visible frame of what the shell prints, once and in order, and
  nothing else as output, however the stream is cut into chunks and whatever the helper events in it do.\<close>
theorem attached_output_lossless:
  assumes "attached s"
  shows "delivered (fold (handleShellOutput H now) cs s) =
    delivered s @ concat (map visible_text (fst (parse_chunks (ho_from_base64 H) cs (sh_parser s))))"
  using output_attached [OF assms] by blast

definition attached_session :: ssh_session where
  "attached_session = (new_session [] (BootstrapDisabled [] []) 0)\<lparr>sh_registered := True, sh_open := True\<rparr>"

theorem attached_output_lossless_witness:
  "delivered (fold (handleShellOutput plain_host 0) [js ''a'', js ''b''] attached_session) =
     [] @ concat (map visible_text (fst (parse_chunks (\<lambda>_. []) [js ''a'', js ''b''] new_parser)))"
proof -
  have "attached attached_session" by (simp add: attached_def attached_session_def new_session_def)
  from attached_output_lossless [OF this, of plain_host 0 "[js ''a'', js ''b'']"] show ?thesis
    by (simp add: attached_session_def new_session_def delivered_def plain_host_def)
qed

lemma plain_parse:
  assumes "c \<noteq> 27"
  shows "parse_chunk fb [c] new_parser = ([OutputFrame [c]], new_parser)"
  using assms
  by (simp add: parse_chunk_def parse_char_def new_parser_def ESCAPE_def Let_def)

text \<open>A character that the transport splits into two chunks is lost: each chunk of the stream is decoded on its
  own, so an attached client is shown two replacement characters instead.\<close>
theorem split_character_lost:
  assumes "attached s" and "sh_parser s = new_parser"
  shows "delivered (fold (shell_data H now) [[0xC3], [0xA9]] s) = delivered s @ [[0xFFFD], [0xFFFD]] \<and>
    delivered (fold (shell_data H now) [[0xC3, 0xA9]] s) = delivered s @ [[0xE9]]"
proof -
  have decoded: "buffer_to_utf8 [0xC3] = [0xFFFD]" "buffer_to_utf8 [0xA9] = [0xFFFD]" "buffer_to_utf8 [0xC3, 0xA9] = [0xE9]"
    by (simp_all add: buffer_to_utf8_def lead_def code_units_def)
  have chunks: "fold (shell_data H now) bs s = fold (handleShellOutput H now) (map buffer_to_utf8 bs) s" for bs
    by (induction bs arbitrary: s) (simp_all add: shell_data_def)
  have lossless: "delivered (fold (handleShellOutput H now) cs s) =
      delivered s @ concat (map visible_text (fst (parse_chunks (ho_from_base64 H) cs (sh_parser s))))" for cs
    using output_attached [OF assms(1)] by blast
  show ?thesis unfolding chunks lossless assms(2) by (simp add: decoded plain_parse)
qed

theorem split_character_lost_witness:
  "delivered (fold (shell_data plain_host 0) [[0xC3], [0xA9]] attached_session) = [[0xFFFD], [0xFFFD]] \<and>
   delivered (fold (shell_data plain_host 0) [[0xC3, 0xA9]] attached_session) = [[0xE9]]"
proof -
  have "attached attached_session" "sh_parser attached_session = new_parser" "delivered attached_session = []"
    by (simp_all add: attached_def attached_session_def new_session_def delivered_def)
  with split_character_lost [of attached_session plain_host 0] show ?thesis by (simp del: fold_simps)
qed

section \<open>The directory of the session\<close>

lemma update_cwd_nonempty:
  assumes "d \<noteq> []"
  shows "\<exists>d'. updateRemoteCompletionCwd pc home (Some d) command = Some d' \<and> d' \<noteq> []"
proof -
  have n: "posix_normalize p \<noteq> []" for p by (simp add: posix_normalize_def Let_def)
  show ?thesis using assms n by (auto simp: updateRemoteCompletionCwd_def Let_def split: option.split)
qed

lemma submitted_known:
  assumes "sh_workingDirectory s = Some d" and "d \<noteq> []"
  shows "fold (command_submitted H) cmds s =
    s\<lparr>sh_workingDirectory := replayRemoteCompletionCwdCommands (ho_cwd H) (sh_homeDirectory s) (Some d) cmds\<rparr>"
  using assms
proof (induction cmds arbitrary: s d)
  case Nil
  then show ?case by (simp add: replayRemoteCompletionCwdCommands_def)
next
  case (Cons c cs)
  obtain d' where d': "updateRemoteCompletionCwd (ho_cwd H) (sh_homeDirectory s) (Some d) c = Some d'" "d' \<noteq> []"
    using update_cwd_nonempty [OF Cons.prems(2)] by blast
  then have "command_submitted H c s = s\<lparr>sh_workingDirectory := Some d'\<rparr>"
    using Cons.prems by (simp add: command_submitted_def)
  with Cons.IH [of "s\<lparr>sh_workingDirectory := Some d'\<rparr>" d'] d' show ?case
    by (simp add: replayRemoteCompletionCwdCommands_def)
qed

lemma submitted_unknown:
  "falsy (sh_workingDirectory s) \<Longrightarrow>
     fold (command_submitted H) cmds s = s\<lparr>sh_pendingCwdCommands := sh_pendingCwdCommands s @ cmds\<rparr>"
proof (induction cmds arbitrary: s)
  case (Cons c cs)
  then have "command_submitted H c s = s\<lparr>sh_pendingCwdCommands := sh_pendingCwdCommands s @ [c]\<rparr>"
    by (simp add: command_submitted_def)
  with Cons show ?case by simp
qed simp

text \<open>It does not matter when the probe of the remote directories answers: commands submitted before it leave the
  session in the same state as the same commands submitted after it.\<close>
theorem probe_commutes_with_commands:
  assumes "sh_workingDirectory s = None" and "sh_pendingCwdCommands s = []"
    and "\<not> falsy (fst (probed_directories stdout))"
  shows "completion_directories_probed H stdout (fold (command_submitted H) cmds s) =
    fold (command_submitted H) cmds (completion_directories_probed H stdout s)"
proof -
  obtain d home where probed: "probed_directories stdout = (Some d, home)" "d \<noteq> []"
    using assms(3) by (cases "probed_directories stdout"; cases "fst (probed_directories stdout)") auto
  have pending: "fold (command_submitted H) cmds s = s\<lparr>sh_pendingCwdCommands := cmds\<rparr>"
    using submitted_unknown [of s H cmds] assms by simp
  have "completion_directories_probed H stdout s =
      (if falsy home then s else s\<lparr>sh_homeDirectory := home\<rparr>)\<lparr>sh_workingDirectory := Some d, sh_pendingCwdCommands := []\<rparr>"
    using assms probed
    by (simp add: completion_directories_probed_def applyRemoteCompletionBaseCwd_def replayRemoteCompletionCwdCommands_def)
  moreover have "completion_directories_probed H stdout (fold (command_submitted H) cmds s) =
      (let t = (if falsy home then s else s\<lparr>sh_homeDirectory := home\<rparr>)
       in t\<lparr>sh_workingDirectory := replayRemoteCompletionCwdCommands (ho_cwd H) (sh_homeDirectory t) (Some d) cmds,
            sh_pendingCwdCommands := []\<rparr>)"
    using assms probed pending
    by (simp add: completion_directories_probed_def applyRemoteCompletionBaseCwd_def Let_def)
  ultimately show ?thesis
    using probed(2) by (simp add: submitted_known Let_def)
qed

theorem probe_commutes_with_commands_witness:
  "completion_directories_probed plain_host (Some (js ''/a''))
     (fold (command_submitted plain_host) [js ''cd b''] (new_session [] (BootstrapDisabled [] []) 0)) =
   fold (command_submitted plain_host) [js ''cd b'']
     (completion_directories_probed plain_host (Some (js ''/a'')) (new_session [] (BootstrapDisabled [] []) 0))"
proof (rule probe_commutes_with_commands)
  have "ArchiveCommands.split_lines (js ''/a'') = [js ''/a'']" by (simp add: js_simps)
  moreover have "trim (js ''/a'') = js ''/a''"
    by (simp add: js_simps trim_def trim_start_def trim_end_def is_space_def)
  ultimately show "\<not> falsy (fst (probed_directories (Some (js ''/a''))))" by (simp add: probed_directories_def)
qed (simp_all add: new_session_def)

section \<open>Secrets and the history\<close>

text \<open>What the user types at a password prompt is kept as a recent command and offered as a completion: the line
  is recorded although the session knows that it waits for a secret.\<close>
theorem typed_secret_recorded:
  assumes "shouldSuggestSecret (sh_prompt s)" and "lineBuffer (sh_interactive s) = []"
    and "list_all (\<lambda>c. 32 \<le> c \<and> c \<noteq> 0x7f) secret" and "trim secret \<noteq> []"
  shows "hd (recentCommands (sh_interactive (text_input H now (secret @ [13]) s))) = trim secret"
proof -
  have sched: "sh_interactive (scheduleHistorySync now False t) = sh_interactive t" for t
    by (simp add: scheduleHistorySync_def)
  have "updateInteractiveCompletionState (Some HISTORY_MAX_ENTRIES) (sh_interactive s) (secret @ [13]) =
      (\<lparr>lineBuffer = [], recentCommands = take (max 1 HISTORY_MAX_ENTRIES)
          (trim secret # filter (\<lambda>e. e \<noteq> trim secret) (recentCommands (sh_interactive s)))\<rparr>, [trim secret])"
    using submit_line [of secret "sh_interactive s" "Some HISTORY_MAX_ENTRIES"] assms(2-4) by simp
  then show ?thesis
    by (simp add: text_input_def Let_def push_effect_def sched HISTORY_MAX_ENTRIES_def)
qed

theorem typed_secret_recorded_witness:
  "hd (recentCommands (sh_interactive (text_input plain_host 0 (js ''pw'' @ [13])
     ((new_session [] (BootstrapDisabled [] []) 0)\<lparr>sh_prompt :=
        \<lparr>outputTail = js ''Password:'', promptDetectedAtMs = 0, shouldSuggestSecret = True\<rparr>\<rparr>)))) = js ''pw''"
proof -
  have "trim (js ''pw'') = js ''pw''" by (simp add: js_simps trim_def trim_start_def trim_end_def is_space_def)
  moreover have "list_all (\<lambda>c. 32 \<le> c \<and> c \<noteq> 0x7f) (js ''pw'')" by (simp add: js_simps)
  ultimately show ?thesis
    using typed_secret_recorded [of "(new_session [] (BootstrapDisabled [] []) 0)\<lparr>sh_prompt :=
        \<lparr>outputTail = js ''Password:'', promptDetectedAtMs = 0, shouldSuggestSecret = True\<rparr>\<rparr>" "js ''pw''" plain_host 0]
    by (simp add: new_session_def)
qed

text \<open>
  The quoting of a shell (POSIX 2.2): the quotes that are open at the end of a text.  Inside double quotes and
  outside, a backslash takes the next character.
\<close>

fun open_quote :: "quote \<Rightarrow> jstring \<Rightarrow> quote" where
  "open_quote q [] = q"
| "open_quote SingleQuote (c # s) = open_quote (if c = 39 then Unquoted else SingleQuote) s"
| "open_quote DoubleQuote (c # s) =
     (if c = 92 then open_quote DoubleQuote (tl s) else open_quote (if c = 34 then Unquoted else DoubleQuote) s)"
| "open_quote Unquoted (c # s) =
     (if c = 92 then open_quote Unquoted (tl s)
      else open_quote (if c = 39 then SingleQuote else if c = 34 then DoubleQuote else Unquoted) s)"

lemma open_quote_append: "92 \<notin> set s \<Longrightarrow> open_quote q (s @ t) = open_quote (open_quote q s) t"
  by (induction q s rule: open_quote.induct) auto

lemma open_quote_escaped:
  "open_quote SingleQuote (escapeShellSingleQuote v @ 39 # t) = open_quote Unquoted t"
  by (induction v) (simp_all add: escapeShellSingleQuote_def)

lemma script_closed: "92 \<notin> set DELETE_SCRIPT" "open_quote Unquoted DELETE_SCRIPT = Unquoted"
  by (simp_all add: DELETE_SCRIPT_def js_simps)

text \<open>The command that deletes an entry of the remote history always ends inside a quote that is not closed, so
  a shell refuses it and deletes nothing: the backslash before the script stands where its opening quote should.\<close>
theorem delete_command_unterminated: "open_quote Unquoted (delete_command command) = SingleQuote"
proof -
  have "open_quote Unquoted (DELETE_SCRIPT @ [39]) = SingleQuote"
    by (simp add: open_quote_append script_closed)
  then show ?thesis
    by (simp add: delete_command_def js_simps open_quote_escaped)
qed

end
