(* ===== verification/Tabs.thy ===== *)
theory Tabs
  imports Prelude
begin

text \<open>
  The tab strip of the window (packages/renderer/src/lib/useTabs.ts): the pure helpers, the handlers
  the hook returns, and its two effects. A handler runs on the committed state; the updates it queues
  are applied in order and then the effects whose dependencies changed run. \<open>t\<close> is the translation
  function of the i18n module. The free-form \<open>state\<close> of a tab is a type variable.
\<close>

section \<open>Data\<close>

record 'st tab =
  tab_id :: jstring
  tab_title :: jstring
  tab_page :: jstring
  tab_iconKey :: jstring
  tab_iconColorKey :: "jstring option"
  tab_closable :: "bool option"
  tab_state :: "'st option"

text \<open>A \<open>Partial<TabItem>\<close>: the properties that are present.\<close>

datatype 'st tab_update =
    SetTitle jstring
  | SetPage jstring
  | SetIconKey jstring
  | SetIconColorKey "jstring option"
  | SetClosable "bool option"
  | SetState "'st option"

fun apply_update :: "'st tab_update \<Rightarrow> 'st tab \<Rightarrow> 'st tab" where
  "apply_update (SetTitle x) tb = tb\<lparr>tab_title := x\<rparr>"
| "apply_update (SetPage x) tb = tb\<lparr>tab_page := x\<rparr>"
| "apply_update (SetIconKey x) tb = tb\<lparr>tab_iconKey := x\<rparr>"
| "apply_update (SetIconColorKey x) tb = tb\<lparr>tab_iconColorKey := x\<rparr>"
| "apply_update (SetClosable x) tb = tb\<lparr>tab_closable := x\<rparr>"
| "apply_update (SetState x) tb = tb\<lparr>tab_state := x\<rparr>"

abbreviation spread :: "'st tab_update list \<Rightarrow> 'st tab \<Rightarrow> 'st tab" where
  "spread updates tb \<equiv> fold apply_update updates tb"

record 'st tabs_state =
  tabs :: "'st tab list"
  activeTabId :: jstring
  recentTabIds :: "jstring list"
  tabCounter :: nat

section \<open>Pure helpers\<close>

definition insertTabAtRequestedPosition :: "'st tab list \<Rightarrow> 'st tab \<Rightarrow> jstring option \<Rightarrow> 'st tab list" where
  "insertTabAtRequestedPosition current nextTab insertAfterTabId =
     (case insertAfterTabId of
        None \<Rightarrow> current @ [nextTab]
      | Some anchorTabId \<Rightarrow>
          if anchorTabId = [] then current @ [nextTab]
          else case find_index (\<lambda>tb. tab_id tb = anchorTabId) current of
                 None \<Rightarrow> current @ [nextTab]
               | Some anchorIndex \<Rightarrow>
                   if length current - 1 \<le> anchorIndex then current @ [nextTab]
                   else take (anchorIndex + 1) current @ [nextTab] @ drop (anchorIndex + 1) current)"

definition tabs_by_id :: "'st tab list \<Rightarrow> (jstring \<times> 'st tab) list" where
  "tabs_by_id ts = fold (\<lambda>tb. map_set (tab_id tb) tb) ts []"

fun recent_loop :: "(jstring \<times> 'st tab) list \<Rightarrow> jstring list \<Rightarrow> 'st tab list \<Rightarrow> 'st tab list" where
  "recent_loop tabsById [] ordered = ordered"
| "recent_loop tabsById (i # is) ordered =
     (case map_of tabsById i of
        None \<Rightarrow> recent_loop tabsById is ordered
      | Some tb \<Rightarrow> if i \<in> set (map tab_id ordered) then recent_loop tabsById is ordered
                  else recent_loop tabsById is (ordered @ [tb]))"

fun missing_loop :: "'st tab list \<Rightarrow> 'st tab list \<Rightarrow> 'st tab list" where
  "missing_loop [] ordered = ordered"
| "missing_loop (tb # ts) ordered =
     (if tab_id tb \<in> set (map tab_id ordered) then missing_loop ts ordered
      else missing_loop ts (ordered @ [tb]))"

definition orderTabsByRecentUse :: "'st tab list \<Rightarrow> jstring list \<Rightarrow> 'st tab list" where
  "orderTabsByRecentUse ts recent = missing_loop ts (recent_loop (tabs_by_id ts) recent [])"

definition resolveTabClose :: "'st tab list \<Rightarrow> jstring \<Rightarrow> (nat \<times> 'st tab list) option" where
  "resolveTabClose ts tabId =
     (case find_index (\<lambda>tb. tab_id tb = tabId) ts of
        None \<Rightarrow> None
      | Some closingIndex \<Rightarrow> Some (closingIndex, filter (\<lambda>tb. tab_id tb \<noteq> tabId) ts))"

definition resolvePageDefaults :: "(jstring \<Rightarrow> jstring) \<Rightarrow> jstring \<Rightarrow> jstring \<times> jstring" where
  "resolvePageDefaults t page =
     (if page = js ''home'' then (t (js ''tabs.page.home''), js ''home'')
      else if page = js ''ssh'' then (t (js ''tabs.page.ssh''), js ''ssh'')
      else if page = js ''sftp'' then (t (js ''tabs.page.sftp''), js ''sftp'')
      else if page = js ''settings'' then (t (js ''tabs.page.settings''), js ''settings'')
      else if page = js ''audit-logs'' then (t (js ''tabs.page.auditLogs''), js ''audit'')
      else if page = js ''settings-editor'' then (t (js ''tabs.page.settingsEditor''), js ''settings'')
      else if page = js ''debug'' then (t (js ''tabs.page.debug''), js ''debug'')
      else (page, js ''file''))"

section \<open>The hook\<close>

fun nat_text :: "nat \<Rightarrow> jstring" where
  "nat_text n = (if n < 10 then [48 + n] else nat_text (n div 10) @ [48 + n mod 10])"

declare nat_text.simps [simp del]

text \<open>\<open>now\<close> is the text of \<open>Date.now()\<close>.\<close>

definition buildTab ::
    "(jstring \<Rightarrow> jstring) \<Rightarrow> jstring \<Rightarrow> nat \<Rightarrow> jstring \<Rightarrow> 'st tab_update list \<Rightarrow> 'st tab" where
  "buildTab t now counter page overrides =
     (let defaults = resolvePageDefaults t page
      in spread overrides
           \<lparr>tab_id = js ''tab-'' @ now @ js ''-'' @ nat_text counter, tab_title = fst defaults,
            tab_page = page, tab_iconKey = snd defaults, tab_iconColorKey = None,
            tab_closable = Some True, tab_state = None\<rparr>)"

definition initial_tabs :: "(jstring \<Rightarrow> jstring) \<Rightarrow> jstring \<Rightarrow> jstring \<Rightarrow> 'st tabs_state" where
  "initial_tabs t now initialPage =
     (let first = buildTab t now 1 initialPage []
      in \<lparr>tabs = [first], activeTabId = tab_id first, recentTabIds = [tab_id first], tabCounter = 2\<rparr>)"

definition setActiveTabId :: "jstring \<Rightarrow> 'st tabs_state \<Rightarrow> 'st tabs_state" where
  "setActiveTabId nextTabId s =
     s\<lparr>activeTabId := nextTabId,
       recentTabIds :=
         (if take 1 (recentTabIds s) = [nextTabId] then recentTabIds s
          else nextTabId # filter (\<lambda>i. i \<noteq> nextTabId) (recentTabIds s))\<rparr>"

fun push_missing :: "jstring list \<Rightarrow> jstring list \<Rightarrow> jstring list" where
  "push_missing [] next_ids = next_ids"
| "push_missing (i # is) next_ids =
     (if i \<in> set next_ids then push_missing is next_ids else push_missing is (next_ids @ [i]))"

text \<open>The first effect runs when \<open>tabs\<close> changed, the second when \<open>tabs\<close> or \<open>activeTabId\<close> did.\<close>

definition sync_recent_effect :: "'st tabs_state \<Rightarrow> 'st tabs_state" where
  "sync_recent_effect s =
     (let liveTabIds = map tab_id (tabs s);
          kept = filter (\<lambda>i. i \<in> set liveTabIds) (recentTabIds s)
      in s\<lparr>recentTabIds := push_missing liveTabIds kept\<rparr>)"

definition valid_active_effect :: "'st tabs_state \<Rightarrow> 'st tabs_state" where
  "valid_active_effect s =
     (case tabs s of
        [] \<Rightarrow> s
      | first # rest \<Rightarrow>
          if list_ex (\<lambda>tb. tab_id tb = activeTabId s) (tabs s) then s else setActiveTabId (tab_id first) s)"

definition run_effects :: "bool \<Rightarrow> 'st tabs_state \<Rightarrow> 'st tabs_state" where
  "run_effects tabs_changed s = valid_active_effect (if tabs_changed then sync_recent_effect s else s)"

definition addTab ::
    "(jstring \<Rightarrow> jstring) \<Rightarrow> jstring \<Rightarrow> jstring \<Rightarrow> 'st tab_update list \<Rightarrow> jstring option \<Rightarrow>
     'st tabs_state \<Rightarrow> 'st tabs_state" where
  "addTab t now page overrides anchor s =
     (let nextTab = buildTab t now (tabCounter s) page overrides
      in run_effects True (setActiveTabId (tab_id nextTab)
           (s\<lparr>tabs := insertTabAtRequestedPosition (tabs s) nextTab anchor, tabCounter := tabCounter s + 1\<rparr>)))"

definition updateTab :: "jstring \<Rightarrow> 'st tab_update list \<Rightarrow> 'st tabs_state \<Rightarrow> 'st tabs_state" where
  "updateTab i updates s =
     run_effects True (s\<lparr>tabs := map (\<lambda>tb. if tab_id tb = i then spread updates tb else tb) (tabs s)\<rparr>)"

definition openPageInTab :: "(jstring \<Rightarrow> jstring) \<Rightarrow> jstring \<Rightarrow> jstring \<Rightarrow> 'st tabs_state \<Rightarrow> 'st tabs_state" where
  "openPageInTab t i page s =
     (let defaults = resolvePageDefaults t page
      in run_effects True (s\<lparr>tabs := map (\<lambda>tb.
           if tab_id tb = i
           then tb\<lparr>tab_page := page, tab_title := fst defaults, tab_iconKey := snd defaults,
                   tab_iconColorKey := None\<rparr>
           else tb) (tabs s)\<rparr>))"

definition openPageInActiveTab :: "(jstring \<Rightarrow> jstring) \<Rightarrow> jstring \<Rightarrow> 'st tabs_state \<Rightarrow> 'st tabs_state" where
  "openPageInActiveTab t page s = openPageInTab t (activeTabId s) page s"

text \<open>The flag of the handlers below tells whether \<open>onLastTabClose\<close> was called.\<close>

definition closeTab :: "jstring \<Rightarrow> 'st tabs_state \<Rightarrow> 'st tabs_state \<times> bool" where
  "closeTab i s =
     (case resolveTabClose (tabs s) i of
        None \<Rightarrow> (s, False)
      | Some (closingIndex, nextTabs) \<Rightarrow>
          if nextTabs = [] then (s, True)
          else let s' = (if activeTabId s = i
                         then setActiveTabId (tab_id
                           (if closingIndex < length nextTabs then nextTabs ! closingIndex
                            else if 0 < closingIndex \<and> closingIndex - 1 < length nextTabs
                                 then nextTabs ! (closingIndex - 1) else nextTabs ! 0)) s
                         else s)
               in (run_effects True (s'\<lparr>tabs := nextTabs\<rparr>), False))"

definition closeRightTabs :: "jstring \<Rightarrow> 'st tabs_state \<Rightarrow> 'st tabs_state \<times> bool" where
  "closeRightTabs i s =
     (case find_index (\<lambda>tb. tab_id tb = i) (tabs s) of
        None \<Rightarrow> (s, False)
      | Some index \<Rightarrow>
          let nextTabs = take (index + 1) (tabs s)
          in if nextTabs = [] then (s, True)
             else let s' = (if list_ex (\<lambda>tb. tab_id tb = activeTabId s) nextTabs then s
                            else setActiveTabId (tab_id (last nextTabs)) s)
                  in (run_effects True (s'\<lparr>tabs := nextTabs\<rparr>), False))"

definition closeOtherTabs :: "jstring \<Rightarrow> 'st tabs_state \<Rightarrow> 'st tabs_state" where
  "closeOtherTabs i s =
     (case find_index (\<lambda>tb. tab_id tb = i) (tabs s) of
        None \<Rightarrow> s
      | Some index \<Rightarrow>
          let target = tabs s ! index
          in run_effects True ((setActiveTabId (tab_id target) s)\<lparr>tabs := [target]\<rparr>))"

fun reorder_loop ::
    "'st tab list \<Rightarrow> (jstring \<times> 'st tab) list \<Rightarrow> 'st tab list \<Rightarrow> ('st tab list \<times> (jstring \<times> 'st tab) list) option"
where
  "reorder_loop [] currentTabsById reordered = Some (reordered, currentTabsById)"
| "reorder_loop (nextTab # rest) currentTabsById reordered =
     (case map_of currentTabsById (tab_id nextTab) of
        None \<Rightarrow> None
      | Some currentTab \<Rightarrow>
          reorder_loop rest (map_delete (tab_id nextTab) currentTabsById) (reordered @ [currentTab]))"

definition reordered_tabs :: "'st tab list \<Rightarrow> 'st tab list \<Rightarrow> 'st tab list option" where
  "reordered_tabs nextTabs currentTabs =
     (if length nextTabs \<noteq> length currentTabs then None
      else case reorder_loop nextTabs (tabs_by_id currentTabs) [] of
             None \<Rightarrow> None
           | Some (reordered, leftover) \<Rightarrow>
               if leftover \<noteq> [] then None
               else if list_ex (\<lambda>(index, tb). \<not> (index < length currentTabs \<and>
                         tab_id tb = tab_id (currentTabs ! index))) (enumerate 0 reordered)
                    then Some reordered else None)"

definition reorderTabs :: "'st tab list \<Rightarrow> 'st tabs_state \<Rightarrow> 'st tabs_state" where
  "reorderTabs nextTabs s =
     (case reordered_tabs nextTabs (tabs s) of
        None \<Rightarrow> s | Some ts \<Rightarrow> run_effects True (s\<lparr>tabs := ts\<rparr>))"

definition recentTabs :: "'st tabs_state \<Rightarrow> 'st tab list" where
  "recentTabs s = orderTabsByRecentUse (tabs s) (recentTabIds s)"

definition activeTab :: "'st tabs_state \<Rightarrow> 'st tab" where
  "activeTab s =
     (case find_index (\<lambda>tb. tab_id tb = activeTabId s) (tabs s) of
        Some i \<Rightarrow> tabs s ! i | None \<Rightarrow> hd (tabs s))"

datatype 'st tab_action =
    AddTab jstring jstring "'st tab_update list" "jstring option"
  | UpdateTab jstring "'st tab_update list"
  | OpenPageInTab jstring jstring
  | OpenPageInActiveTab jstring
  | CloseTab jstring
  | CloseRightTabs jstring
  | CloseOtherTabs jstring
  | ReorderTabs "'st tab list"
  | SetActiveTabId jstring

fun tabs_step :: "(jstring \<Rightarrow> jstring) \<Rightarrow> 'st tab_action \<Rightarrow> 'st tabs_state \<Rightarrow> 'st tabs_state" where
  "tabs_step t (AddTab now page overrides anchor) s = addTab t now page overrides anchor s"
| "tabs_step t (UpdateTab i updates) s = updateTab i updates s"
| "tabs_step t (OpenPageInTab i page) s = openPageInTab t i page s"
| "tabs_step t (OpenPageInActiveTab page) s = openPageInActiveTab t page s"
| "tabs_step t (CloseTab i) s = fst (closeTab i s)"
| "tabs_step t (CloseRightTabs i) s = fst (closeRightTabs i s)"
| "tabs_step t (CloseOtherTabs i) s = closeOtherTabs i s"
| "tabs_step t (ReorderTabs ts) s = reorderTabs ts s"
| "tabs_step t (SetActiveTabId i) s = run_effects False (setActiveTabId i s)"

section \<open>Generated ids\<close>

lemma nat_text_digits: "set (nat_text n) \<subseteq> {48..57}"
proof (induction n rule: nat_text.induct)
  case (1 n)
  then show ?case by (cases "n < 10") (auto simp: nat_text.simps [of n])
qed

definition digits_text :: "jstring \<Rightarrow> nat" where
  "digits_text = foldl (\<lambda>v c. 10 * v + (c - 48)) 0"

lemma digits_text_nat [simp]: "digits_text (nat_text n) = n"
proof (induction n rule: nat_text.induct)
  case (1 n)
  then show ?case by (cases "n < 10") (simp_all add: nat_text.simps [of n] digits_text_def)
qed

lemma nat_text_inject: "nat_text m = nat_text n \<longleftrightarrow> m = n"
  by (metis digits_text_nat)

lemma append_sep_inject:
  "x \<notin> set d \<Longrightarrow> x \<notin> set e \<Longrightarrow> a @ x # d = b @ x # e \<longleftrightarrow> a = b \<and> d = e"
proof (rule iffI)
  assume x: "x \<notin> set d" "x \<notin> set e" and eq: "a @ x # d = b @ x # e"
  have "rev d @ x # rev a = rev e @ x # rev b" using arg_cong [OF eq, of rev] by simp
  then have "takeWhile (\<lambda>y. y \<noteq> x) (rev d @ x # rev a) = takeWhile (\<lambda>y. y \<noteq> x) (rev e @ x # rev b)"
    by simp
  moreover have "\<forall>y\<in>set d. y \<noteq> x" "\<forall>y\<in>set e. y \<noteq> x" using x by auto
  ultimately have "rev d = rev e" by (simp add: takeWhile_append)
  then show "a = b \<and> d = e" using eq by simp
qed simp

definition issued :: "nat \<Rightarrow> jstring \<Rightarrow> bool" where
  "issued c i \<longleftrightarrow> (\<exists>now n. n < c \<and> i = js ''tab-'' @ now @ js ''-'' @ nat_text n)"

lemma next_id_fresh: "\<not> issued c (js ''tab-'' @ now @ js ''-'' @ nat_text c)"
proof
  assume "issued c (js ''tab-'' @ now @ js ''-'' @ nat_text c)"
  then obtain now' n where n: "n < c" "now @ js ''-'' @ nat_text c = now' @ js ''-'' @ nat_text n"
    by (auto simp: issued_def)
  have dash: "js ''-'' = [45]" by (simp add: js_simps)
  have "45 \<notin> set (nat_text c)" "45 \<notin> set (nat_text n)" using nat_text_digits by fastforce+
  then show False using n append_sep_inject [of 45 "nat_text c" "nat_text n" now now']
    by (simp add: dash nat_text_inject)
qed

lemma issued_mono: "issued c i \<Longrightarrow> c \<le> c' \<Longrightarrow> issued c' i"
  unfolding issued_def using less_le_trans by blast

lemma tab_id_spread [simp]: "tab_id (spread updates tb) = tab_id tb"
proof (induction updates arbitrary: tb)
  case (Cons u updates)
  then show ?case by (cases u) simp_all
qed simp

lemma tab_id_build: "tab_id (buildTab t now c page overrides) = js ''tab-'' @ now @ js ''-'' @ nat_text c"
  by (simp add: buildTab_def Let_def)

section \<open>The order of recent use\<close>

lemma fold_map_set:
  "distinct (map tab_id ts) \<Longrightarrow> set (map tab_id ts) \<inter> set (map fst m) = {} \<Longrightarrow>
   fold (\<lambda>tb. map_set (tab_id tb) tb) ts m = m @ map (\<lambda>tb. (tab_id tb, tb)) ts"
proof (induction ts arbitrary: m)
  case (Cons tb ts)
  then have "map_of m (tab_id tb) = None" by (auto simp: map_of_eq_None_iff)
  with Cons show ?case by (auto simp: map_set_new)
qed simp

lemma tabs_by_id_distinct:
  "distinct (map tab_id ts) \<Longrightarrow> tabs_by_id ts = map (\<lambda>tb. (tab_id tb, tb)) ts"
  by (simp add: tabs_by_id_def fold_map_set)

lemma map_of_tabs:
  "distinct (map tab_id ts) \<Longrightarrow>
   map_of (tabs_by_id ts) i = Some tb \<longleftrightarrow> tb \<in> set ts \<and> tab_id tb = i"
  by (subst map_of_eq_Some_iff) (auto simp: tabs_by_id_distinct comp_def)

lemma map_of_tabs_None:
  "distinct (map tab_id ts) \<Longrightarrow> map_of (tabs_by_id ts) i = None \<longleftrightarrow> i \<notin> set (map tab_id ts)"
  by (simp add: tabs_by_id_distinct map_of_eq_None_iff image_image)

lemma recent_loop_spec:
  assumes d: "distinct (map tab_id ts)"
  shows "map tab_id (recent_loop (tabs_by_id ts) is ord) =
           map tab_id ord @
           filter (\<lambda>i. i \<in> tab_id ` set ts \<and> i \<notin> tab_id ` set ord) (unique is) \<and>
         set (recent_loop (tabs_by_id ts) is ord) \<subseteq> set ord \<union> set ts"
proof (induction "is" arbitrary: ord)
  case (Cons i "is")
  show ?case
  proof (cases "map_of (tabs_by_id ts) i")
    case None
    then have "i \<notin> tab_id ` set ts" using map_of_tabs_None [OF d] by auto
    then show ?thesis using Cons.IH [of ord] None by (auto simp: filter_filter intro!: filter_cong)
  next
    case (Some tb)
    then have tb: "tb \<in> set ts" "tab_id tb = i" using map_of_tabs [OF d] by auto
    show ?thesis
    proof (cases "i \<in> tab_id ` set ord")
      case True
      then show ?thesis using Cons.IH [of ord] Some by (auto simp: filter_filter intro!: filter_cong)
    next
      case False
      then show ?thesis
        using Cons.IH [of "ord @ [tb]"] Some tb by (auto simp: filter_filter intro!: filter_cong)
    qed
  qed
qed simp

lemma missing_loop_spec:
  "distinct (map tab_id ts) \<Longrightarrow>
   missing_loop ts ord = ord @ filter (\<lambda>tb. tab_id tb \<notin> tab_id ` set ord) ts"
proof (induction ts ord rule: missing_loop.induct)
  case (2 tb ts ord)
  then have "tab_id tb' \<noteq> tab_id tb" if "tb' \<in> set ts" for tb'
    using that by (metis distinct.simps(2) image_eqI image_set list.simps(9))
  with 2 show ?case by (auto intro!: filter_cong)
qed simp

lemma order_ids:
  assumes d: "distinct (map tab_id ts)"
  shows "map tab_id (orderTabsByRecentUse ts recent) =
    filter (\<lambda>i. i \<in> tab_id ` set ts) (unique recent) @
    filter (\<lambda>i. i \<notin> set recent) (map tab_id ts)"
proof -
  let ?o = "recent_loop (tabs_by_id ts) recent []"
  have o: "map tab_id ?o = filter (\<lambda>i. i \<in> tab_id ` set ts) (unique recent)"
    using recent_loop_spec [OF d, of recent "[]"] by simp
  then have "tab_id ` set ?o = {i \<in> set recent. i \<in> tab_id ` set ts}"
    unfolding image_set o by auto
  then have "map tab_id (filter (\<lambda>tb. tab_id tb \<notin> tab_id ` set ?o) ts) =
      filter (\<lambda>i. i \<notin> set recent) (map tab_id ts)"
    unfolding filter_map o_def by (intro arg_cong [where f = "map tab_id"] filter_cong) auto
  then show ?thesis by (simp add: orderTabsByRecentUse_def missing_loop_spec [OF d] o)
qed

lemma order_perm:
  assumes d: "distinct (map tab_id ts)"
  shows "mset (orderTabsByRecentUse ts recent) = mset ts"
proof -
  let ?r = "orderTabsByRecentUse ts recent"
  have ids: "set (map tab_id ?r) = set (map tab_id ts)" "distinct (map tab_id ?r)"
    using d by (auto simp: order_ids [OF d] distinct_map)
  have sub: "set ?r \<subseteq> set ts"
    using recent_loop_spec [OF d, of recent "[]"]
    by (auto simp: orderTabsByRecentUse_def missing_loop_spec [OF d])
  have inj: "inj_on tab_id (set ts)" using d by (simp add: distinct_map)
  have "set ts \<subseteq> set ?r"
  proof
    fix tb assume tb: "tb \<in> set ts"
    then have "tab_id tb \<in> tab_id ` set ?r" using ids(1) by simp
    then obtain r where "r \<in> set ?r" "tab_id r = tab_id tb" by auto
    with sub tb inj show "tb \<in> set ?r" by (auto dest: inj_onD)
  qed
  with sub have "set ?r = set ts" by blast
  moreover have "distinct ?r" "distinct ts" using d ids(2) by (auto simp: distinct_map)
  ultimately show ?thesis using set_eq_iff_mset_eq_distinct by blast
qed

section \<open>Reordering\<close>

lemma reorder_loop_sound:
  "reorder_loop nx m acc = Some (re, lo) \<Longrightarrow> distinct (map fst m) \<Longrightarrow> \<forall>(k, v)\<in>set m. tab_id v = k \<Longrightarrow>
   \<exists>ts. re = acc @ ts \<and> map tab_id ts = map tab_id nx \<and> mset ts + mset (map snd lo) = mset (map snd m)"
proof (induction nx m acc rule: reorder_loop.induct)
  case (2 x nx m acc)
  then obtain tb where tb: "map_of m (tab_id x) = Some tb" by (auto split: option.splits)
  then have mem: "(tab_id x, tb) \<in> set m" by (rule map_of_SomeD)
  obtain ms me where m: "m = ms @ (tab_id x, tb) # me" using split_list [OF mem] by blast
  have del: "map_delete (tab_id x) m = ms @ me"
  proof -
    have "filter (\<lambda>e. fst e \<noteq> tab_id x) ms = ms" "filter (\<lambda>e. fst e \<noteq> tab_id x) me = me"
      using "2.prems"(2) m by (auto simp: filter_id_conv image_iff)
    then show ?thesis by (simp add: m map_delete_def)
  qed
  have "\<exists>ts. re = (acc @ [tb]) @ ts \<and> map tab_id ts = map tab_id nx \<and>
      mset ts + mset (map snd lo) = mset (map snd (map_delete (tab_id x) m))"
    using "2.prems" tb by (intro "2.IH") (auto simp: set_map_delete)
  then obtain ts where ts: "re = acc @ tb # ts" "map tab_id ts = map tab_id nx"
    "mset ts + mset (map snd lo) = mset (map snd (ms @ me))" unfolding del by auto
  moreover have "tab_id tb = tab_id x" using "2.prems"(3) mem by auto
  ultimately show ?case by (intro exI [of _ "tb # ts"]) (simp add: m)
qed simp

lemma reorder_loop_complete:
  "distinct (map tab_id nx) \<Longrightarrow> tab_id ` set nx = fst ` set m \<Longrightarrow>
   \<exists>re. reorder_loop nx m acc = Some (re, [])"
proof (induction nx m acc rule: reorder_loop.induct)
  case (2 x nx m acc)
  then obtain tb where tb: "map_of m (tab_id x) = Some tb"
    by (metis image_eqI list.set_intros(1) map_of_eq_None_iff not_None_eq)
  have "fst ` set (map_delete (tab_id x) m) = fst ` set m - {tab_id x}"
    by (auto simp: set_map_delete image_iff)
  moreover have "tab_id ` set nx = fst ` set m - {tab_id x}"
    using "2.prems" by (simp add: insert_absorb flip: "2.prems"(2)) 
  ultimately have "tab_id ` set nx = fst ` set (map_delete (tab_id x) m)" by simp
  then show ?case using "2.IH" [OF tb] "2.prems" tb by auto
qed simp

lemma reordered_cases:
  assumes d: "distinct (map tab_id cur)"
  shows "case reordered_tabs nx cur of
      None \<Rightarrow> mset (map tab_id nx) = mset (map tab_id cur) \<longrightarrow> map tab_id nx = map tab_id cur
    | Some ts \<Rightarrow> map tab_id ts = map tab_id nx \<and> mset ts = mset cur"
proof -
  let ?m = "tabs_by_id cur"
  have m: "map snd ?m = cur" "distinct (map fst ?m)" "\<forall>(k, v)\<in>set ?m. tab_id v = k"
      "fst ` set ?m = tab_id ` set cur"
    using d by (auto simp: tabs_by_id_distinct comp_def image_image)
  have sound: "map tab_id re = map tab_id nx \<and> mset re = mset cur"
    if "reorder_loop nx ?m [] = Some (re, [])" for re
    using reorder_loop_sound [OF that m(2,3)] m(1) by auto
  have complete: "length nx = length cur \<and> (\<exists>re. reorder_loop nx ?m [] = Some (re, []))"
    if eq: "mset (map tab_id nx) = mset (map tab_id cur)"
  proof -
    have "distinct (map tab_id nx)" using eq d mset_eq_imp_distinct_iff by blast
    moreover have "tab_id ` set nx = fst ` set ?m"
      using arg_cong [OF eq, of set_mset] unfolding m(4) by simp
    moreover have "length nx = length cur" using arg_cong [OF eq, of size] by simp
    ultimately show ?thesis using reorder_loop_complete by blast
  qed
  have same: "map tab_id re = map tab_id cur"
    if "map tab_id re = map tab_id nx" "length nx = length cur"
      "\<not> list_ex (\<lambda>(i, tb). \<not> (i < length cur \<and> tab_id tb = tab_id (cur ! i))) (enumerate 0 re)" for re
  proof (rule nth_equalityI)
    have len: "length re = length nx" using arg_cong [OF that(1), of length] by simp
    then show "length (map tab_id re) = length (map tab_id cur)" using that(2) by simp
    fix i assume i: "i < length (map tab_id re)"
    then have "(i, re ! i) \<in> set (enumerate 0 re)" by (auto simp: in_set_enumerate_eq)
    then show "map tab_id re ! i = map tab_id cur ! i"
      using that(2,3) i len by (auto simp: list_ex_iff)
  qed
  show ?thesis
  proof (cases "length nx = length cur \<and> (\<exists>re. reorder_loop nx ?m [] = Some (re, []))")
    case True
    then obtain re where re: "length nx = length cur" "reorder_loop nx ?m [] = Some (re, [])" by blast
    show ?thesis
      using sound [OF re(2)] same [of re] re(1) by (simp add: reordered_tabs_def re(2))
  next
    case False
    then have "reordered_tabs nx cur = None"
      by (auto simp: reordered_tabs_def split: option.split)
    then show ?thesis using False complete by auto
  qed
qed

section \<open>The invariant of the tab strip\<close>

definition tabs_ok :: "'st tabs_state \<Rightarrow> bool" where
  "tabs_ok s \<longleftrightarrow>
     tabs s \<noteq> [] \<and> distinct (map tab_id (tabs s)) \<and> activeTabId s \<in> tab_id ` set (tabs s) \<and>
     take 1 (recentTabIds s) = [activeTabId s] \<and> distinct (recentTabIds s) \<and>
     tab_id ` set (tabs s) \<subseteq> set (recentTabIds s) \<and>
     (\<forall>i\<in>tab_id ` set (tabs s). issued (tabCounter s) i)"

text \<open>What holds between a handler and the effects.\<close>

definition tabs_pending :: "bool \<Rightarrow> 'st tabs_state \<Rightarrow> bool" where
  "tabs_pending changed s \<longleftrightarrow>
     tabs s \<noteq> [] \<and> distinct (map tab_id (tabs s)) \<and> distinct (recentTabIds s) \<and>
     take 1 (recentTabIds s) = [activeTabId s] \<and>
     (changed \<or> tab_id ` set (tabs s) \<subseteq> set (recentTabIds s)) \<and>
     (\<forall>i\<in>tab_id ` set (tabs s). issued (tabCounter s) i)"

lemma push_missing_spec:
  "distinct is \<Longrightarrow> push_missing is ks = ks @ filter (\<lambda>i. i \<notin> set ks) is"
  by (induction "is" ks rule: push_missing.induct) (auto intro!: filter_cong)

lemma setActive_simps [simp]:
  "tabs (setActiveTabId i s) = tabs s" "activeTabId (setActiveTabId i s) = i"
  "tabCounter (setActiveTabId i s) = tabCounter s"
  "take 1 (recentTabIds (setActiveTabId i s)) = [i]"
  "set (recentTabIds (setActiveTabId i s)) = insert i (set (recentTabIds s))"
  "distinct (recentTabIds s) \<Longrightarrow> distinct (recentTabIds (setActiveTabId i s))"
  by (cases "recentTabIds s"; auto simp: setActiveTabId_def)+

lemma list_ex_id: "list_ex (\<lambda>tb. tab_id tb = i) ts \<longleftrightarrow> i \<in> tab_id ` set ts"
  by (auto simp: list_ex_iff)

lemma valid_active_ok:
  assumes "tabs s \<noteq> []" and "distinct (map tab_id (tabs s))" and "distinct (recentTabIds s)"
    and "activeTabId s \<in> tab_id ` set (tabs s) \<Longrightarrow> take 1 (recentTabIds s) = [activeTabId s]"
    and "tab_id ` set (tabs s) \<subseteq> set (recentTabIds s)"
    and "\<forall>i\<in>tab_id ` set (tabs s). issued (tabCounter s) i"
  shows "tabs_ok (valid_active_effect s)"
proof (cases "activeTabId s \<in> tab_id ` set (tabs s)")
  case True
  then have "valid_active_effect s = s"
    unfolding valid_active_effect_def list_ex_id by (cases "tabs s") simp_all
  then show ?thesis using assms True by (simp add: tabs_ok_def)
next
  case False
  then have "valid_active_effect s = setActiveTabId (tab_id (hd (tabs s))) s"
    using assms(1) unfolding valid_active_effect_def list_ex_id by (cases "tabs s") simp_all
  then show ?thesis using assms by (auto simp: tabs_ok_def simp del: One_nat_def)
qed

lemma sync_recent:
  assumes "distinct (map tab_id (tabs s))" and "distinct (recentTabIds s)"
  shows "tabs (sync_recent_effect s) = tabs s" "activeTabId (sync_recent_effect s) = activeTabId s"
    "tabCounter (sync_recent_effect s) = tabCounter s"
    "set (recentTabIds (sync_recent_effect s)) = tab_id ` set (tabs s)"
    "distinct (recentTabIds (sync_recent_effect s))"
    "take 1 (recentTabIds s) = [activeTabId s] \<Longrightarrow> activeTabId s \<in> tab_id ` set (tabs s) \<Longrightarrow>
     take 1 (recentTabIds (sync_recent_effect s)) = [activeTabId s]"
  using assms
  by (cases "recentTabIds s"; auto simp: sync_recent_effect_def Let_def push_missing_spec)+

lemma run_effects_ok: "tabs_pending changed s \<Longrightarrow> tabs_ok (run_effects changed s)"
  unfolding run_effects_def tabs_pending_def
  by (cases changed; simp del: One_nat_def; rule valid_active_ok; simp add: sync_recent del: One_nat_def)

lemma tabs_ok_pending: "tabs_ok s \<Longrightarrow> tabs_pending changed s"
  by (simp add: tabs_ok_def tabs_pending_def)

section \<open>Every handler keeps the invariant\<close>

lemma insert_mset: "mset (insertTabAtRequestedPosition ts tb anchor) = add_mset tb (mset ts)"
proof -
  have "mset (take n ts) + mset (drop n ts) = mset ts" for n
    by (metis append_take_drop_id mset_append)
  then show ?thesis
    by (simp add: insertTabAtRequestedPosition_def split: option.split)
qed

lemma insert_ids:
  "tab_id ` set (insertTabAtRequestedPosition ts tb anchor) = insert (tab_id tb) (tab_id ` set ts)"
  "distinct (map tab_id (insertTabAtRequestedPosition ts tb anchor)) \<longleftrightarrow>
     tab_id tb \<notin> tab_id ` set ts \<and> distinct (map tab_id ts)"
proof -
  let ?n = "insertTabAtRequestedPosition ts tb anchor"
  have "set ?n = insert tb (set ts)" using arg_cong [OF insert_mset, of set_mset ts tb anchor] by simp
  then show "tab_id ` set ?n = insert (tab_id tb) (tab_id ` set ts)" by simp
  have "mset (map tab_id ?n) = mset (map tab_id (tb # ts))" by (simp add: insert_mset)
  from mset_eq_imp_distinct_iff [OF this]
  show "distinct (map tab_id ?n) \<longleftrightarrow> tab_id tb \<notin> tab_id ` set ts \<and> distinct (map tab_id ts)"
    by simp
qed

lemma insert_nonempty: "insertTabAtRequestedPosition ts tb anchor \<noteq> []"
  using arg_cong [OF insert_mset, of size ts tb anchor] by auto

lemma addTab_ok:
  assumes "tabs_ok s"
  shows "tabs_ok (addTab t now page overrides anchor s)"
proof -
  have fresh: "tab_id (buildTab t now (tabCounter s) page overrides) \<notin> tab_id ` set (tabs s)"
    using assms next_id_fresh unfolding tab_id_build tabs_ok_def by blast
  have "issued (Suc (tabCounter s)) i" if "issued (tabCounter s) i" for i
    using that by (rule issued_mono) simp
  moreover have "issued (Suc (tabCounter s)) (tab_id (buildTab t now (tabCounter s) page overrides))"
    unfolding tab_id_build issued_def by auto
  ultimately have "tabs_pending True (setActiveTabId (tab_id (buildTab t now (tabCounter s) page overrides))
      (s\<lparr>tabs := insertTabAtRequestedPosition (tabs s) (buildTab t now (tabCounter s) page overrides) anchor,
         tabCounter := tabCounter s + 1\<rparr>))"
    using assms fresh unfolding Suc_eq_plus1
    by (simp add: tabs_pending_def tabs_ok_def insert_ids insert_nonempty del: One_nat_def)
  then show ?thesis unfolding addTab_def Let_def by (rule run_effects_ok)
qed

lemma same_ids_ok:
  assumes "tabs_ok s" and "map tab_id ts = map tab_id (tabs s)"
  shows "tabs_ok (run_effects True (s\<lparr>tabs := ts\<rparr>))"
proof -
  have "tab_id ` set ts = tab_id ` set (tabs s)" using arg_cong [OF assms(2), of set] by simp
  moreover have "ts \<noteq> []" using assms unfolding tabs_ok_def by auto
  ultimately have "tabs_pending True (s\<lparr>tabs := ts\<rparr>)"
    using assms by (simp add: tabs_ok_def tabs_pending_def del: One_nat_def)
  then show ?thesis by (rule run_effects_ok)
qed

lemma sub_ids_ok:
  assumes ok: "tabs_ok s" and ts: "ts \<noteq> []" "distinct (map tab_id ts)" "set ts \<subseteq> set (tabs s)"
  shows "tabs_ok (run_effects True (s\<lparr>tabs := ts\<rparr>))"
    and "tabs_ok (run_effects True ((setActiveTabId i s)\<lparr>tabs := ts\<rparr>))"
proof -
  have iss: "\<forall>i\<in>tab_id ` set ts. issued (tabCounter s) i"
    using ok ts(3) unfolding tabs_ok_def by blast
  have "tabs_pending True (s\<lparr>tabs := ts\<rparr>)"
    using ok ts iss by (simp add: tabs_ok_def tabs_pending_def del: One_nat_def)
  then show "tabs_ok (run_effects True (s\<lparr>tabs := ts\<rparr>))" by (rule run_effects_ok)
  have "tabs_pending True ((setActiveTabId i s)\<lparr>tabs := ts\<rparr>)"
    using ok ts iss by (simp add: tabs_ok_def tabs_pending_def del: One_nat_def)
  then show "tabs_ok (run_effects True ((setActiveTabId i s)\<lparr>tabs := ts\<rparr>))" by (rule run_effects_ok)
qed

lemma updateTab_ok: "tabs_ok s \<Longrightarrow> tabs_ok (updateTab i updates s)"
  unfolding updateTab_def by (rule same_ids_ok) simp_all

lemma openPage_ok: "tabs_ok s \<Longrightarrow> tabs_ok (openPageInTab t i page s)"
  unfolding openPageInTab_def Let_def by (rule same_ids_ok) simp_all

lemma distinct_map_filter_tabs: "distinct (map tab_id ts) \<Longrightarrow> distinct (map tab_id (filter P ts))"
  by (simp add: distinct_map_filter)

lemma closeTab_ok:
  assumes "tabs_ok s"
  shows "tabs_ok (fst (closeTab i s))"
proof -
  have d: "distinct (map tab_id (filter (\<lambda>tb. tab_id tb \<noteq> i) (tabs s)))"
    using assms by (simp add: tabs_ok_def distinct_map_filter_tabs)
  show ?thesis
    using assms sub_ids_ok [OF assms _ d]
    by (auto simp: closeTab_def resolveTabClose_def Let_def simp del: One_nat_def split: option.split)
qed

lemma closeRight_ok:
  assumes "tabs_ok s"
  shows "tabs_ok (fst (closeRightTabs i s))"
proof -
  have d: "distinct (map tab_id (take n (tabs s)))" for n
    using assms by (simp add: tabs_ok_def distinct_take flip: take_map)
  have sub: "set (take n (tabs s)) \<subseteq> set (tabs s)" for n by (rule set_take_subset)
  show ?thesis
    using assms sub_ids_ok [OF assms _ d sub]
    by (auto simp: closeRightTabs_def Let_def simp del: One_nat_def split: option.split)
qed

lemma closeOther_ok:
  assumes "tabs_ok s"
  shows "tabs_ok (closeOtherTabs i s)"
proof (cases "find_index (\<lambda>tb. tab_id tb = i) (tabs s)")
  case (Some n)
  then have "n < length (tabs s)" using find_index_SomeD by blast
  then show ?thesis
    using sub_ids_ok(2) [OF assms, of "[tabs s ! n]"] Some
    by (simp add: closeOtherTabs_def Let_def del: One_nat_def)
qed (simp add: assms closeOtherTabs_def)

lemma reorder_ok:
  assumes ok: "tabs_ok s"
  shows "tabs_ok (reorderTabs nx s)"
proof (cases "reordered_tabs nx (tabs s)")
  case (Some ts)
  have d: "distinct (map tab_id (tabs s))" using ok by (simp add: tabs_ok_def)
  from reordered_cases [OF d, of nx] Some have ms: "mset ts = mset (tabs s)" by simp
  have "distinct (map tab_id ts)"
    using d mset_eq_imp_distinct_iff [of "map tab_id ts" "map tab_id (tabs s)"] ms by simp
  moreover have "set ts \<subseteq> set (tabs s)" "ts \<noteq> []"
    using arg_cong [OF ms, of set_mset] ok by (auto simp: tabs_ok_def)
  ultimately show ?thesis using sub_ids_ok(1) [OF ok, of ts] Some by (simp add: reorderTabs_def)
qed (simp add: ok reorderTabs_def)

lemma setActive_pending:
  "tabs_ok s \<Longrightarrow> tabs_pending False (setActiveTabId i s)"
  by (auto simp: tabs_ok_def tabs_pending_def simp del: One_nat_def)

lemma tabs_step_ok: "tabs_ok s \<Longrightarrow> tabs_ok (tabs_step t a s)"
  by (cases a) (simp_all add: addTab_ok updateTab_ok openPage_ok openPageInActiveTab_def closeTab_ok
      closeRight_ok closeOther_ok reorder_ok run_effects_ok setActive_pending)

lemma initial_tabs_ok: "tabs_ok (initial_tabs t now page)"
proof -
  have "issued 2 (js ''tab-'' @ now @ js ''-'' @ nat_text 1)" unfolding issued_def by force
  then show ?thesis by (simp add: initial_tabs_def Let_def tabs_ok_def tab_id_build)
qed

lemma fold_tabs_ok: "tabs_ok s \<Longrightarrow> tabs_ok (fold (tabs_step t) as s)"
  by (induction as arbitrary: s) (simp_all add: tabs_step_ok)

section \<open>The switcher\<close>

lemma hd_unique: "hd (unique (x # xs)) = x"
  by simp

lemma recentTabs_spec:
  assumes ok: "tabs_ok s"
  shows "mset (recentTabs s) = mset (tabs s)" and "tab_id (hd (recentTabs s)) = activeTabId s"
proof -
  have d: "distinct (map tab_id (tabs s))" using ok by (simp add: tabs_ok_def)
  show ms: "mset (recentTabs s) = mset (tabs s)" by (simp add: recentTabs_def order_perm [OF d])
  obtain rs where rs: "recentTabIds s = activeTabId s # rs"
    using ok by (cases "recentTabIds s") (auto simp: tabs_ok_def)
  have "map tab_id (recentTabs s) = activeTabId s # tl (map tab_id (recentTabs s))"
    using ok by (simp add: recentTabs_def order_ids [OF d] rs tabs_ok_def)
  then show "tab_id (hd (recentTabs s)) = activeTabId s"
    by (cases "recentTabs s") simp_all
qed

text \<open>Closing the active tab activates the tab that takes its place, or else the one before it.\<close>
lemma closed_tab_gone:
  assumes ok: "tabs_ok s" and "length (tabs s) \<noteq> 1"
  shows "i \<notin> tab_id ` set (tabs (fst (closeTab i s)))" and "\<not> snd (closeTab i s)"
proof -
  have keep: "tabs (run_effects True s') = tabs s'" for s' :: "'a tabs_state"
    by (auto simp: run_effects_def valid_active_effect_def sync_recent_effect_def Let_def split: list.split)
  have "filter (\<lambda>tb. tab_id tb \<noteq> i) (tabs s) \<noteq> []"
  proof
    assume none: "filter (\<lambda>tb. tab_id tb \<noteq> i) (tabs s) = []"
    then have "set (map tab_id (tabs s)) \<subseteq> {i}" by (auto simp: filter_empty_conv)
    then have "card (set (map tab_id (tabs s))) \<le> 1" using card_mono [of "{i}"] by fastforce
    moreover have "card (set (map tab_id (tabs s))) = length (tabs s)"
      using ok distinct_card [of "map tab_id (tabs s)"] by (simp add: tabs_ok_def)
    ultimately have "length (tabs s) \<le> 1" by simp
    with ok assms(2) show False by (cases "tabs s") (auto simp: tabs_ok_def)
  qed
  then show "i \<notin> tab_id ` set (tabs (fst (closeTab i s)))" "\<not> snd (closeTab i s)"
    by (auto simp: closeTab_def resolveTabClose_def Let_def keep find_index_None_iff simp del: One_nat_def
        split: option.split)
qed

lemma closeTab_active:
  assumes ok: "tabs_ok s" and i: "tabs s = xs @ tb # ys" and a: "activeTabId s = tab_id tb"
    and more: "xs @ ys \<noteq> []"
  shows "activeTabId (fst (closeTab (tab_id tb) s)) = tab_id (if ys = [] then last xs else hd ys)"
    and "tabs (fst (closeTab (tab_id tb) s)) = xs @ ys"
proof -
  have d: "distinct (map tab_id (xs @ tb # ys))" using ok i by (simp add: tabs_ok_def)
  then have "\<forall>x\<in>set (xs @ ys). tab_id x \<noteq> tab_id tb" by (auto simp: image_iff)
  then have "filter (\<lambda>x. tab_id x \<noteq> tab_id tb) (xs @ ys) = xs @ ys" by (rule filter_True)
  then have f: "filter (\<lambda>x. tab_id x \<noteq> tab_id tb) (tabs s) = xs @ ys" by (simp add: i)
  have fi: "find_index (\<lambda>x. tab_id x = tab_id tb) (tabs s) = Some (length xs)"
    using d unfolding i by (induction xs) auto
  let ?n = "if length xs < length (xs @ ys) then (xs @ ys) ! length xs
            else if 0 < length xs \<and> length xs - 1 < length (xs @ ys) then (xs @ ys) ! (length xs - 1)
            else (xs @ ys) ! 0"
  have n: "?n = (if ys = [] then last xs else hd ys)"
    using more by (auto simp: nth_append last_conv_nth hd_conv_nth)
  have c: "fst (closeTab (tab_id tb) s) = run_effects True ((setActiveTabId (tab_id ?n) s)\<lparr>tabs := xs @ ys\<rparr>)"
    using more a by (auto simp: closeTab_def resolveTabClose_def fi f Let_def simp del: One_nat_def)
  have "?n \<in> set (xs @ ys)" unfolding n using more by auto
  then have mem: "tab_id ?n \<in> tab_id ` set (xs @ ys)" by (rule imageI)
  have "run_effects True s' = sync_recent_effect s'" if "activeTabId s' \<in> tab_id ` set (tabs s')"
    for s' :: "'a tabs_state"
    using that by (cases "tabs s'")
      (auto simp: run_effects_def valid_active_effect_def sync_recent_effect_def Let_def list_ex_id)
  then have "fst (closeTab (tab_id tb) s) = sync_recent_effect ((setActiveTabId (tab_id ?n) s)\<lparr>tabs := xs @ ys\<rparr>)"
    unfolding c using mem by simp
  then show "activeTabId (fst (closeTab (tab_id tb) s)) = tab_id (if ys = [] then last xs else hd ys)"
    "tabs (fst (closeTab (tab_id tb) s)) = xs @ ys"
    unfolding n by (simp_all add: sync_recent_effect_def Let_def)
qed

end
