(* ===== verification/WindowTheorems.thy ===== *)
theory WindowTheorems
  imports PaneState Tabs
begin

text \<open>
  What the renderer keeps true of its state: the terminal panes
  (packages/renderer/src/pages/ssh/ssh-pane-state.ts) and the tab strip
  (packages/renderer/src/lib/useTabs.ts).
\<close>

section \<open>Terminal panes\<close>

text \<open>C40: Whatever actions reach the pane state, every pane keeps at most 200 debug events and 200 timeline
  entries, with one entry per command id whose end, duration and exit code appear together, and a
  line state only of the prompt generation it believes in.\<close>
theorem panes_stay_ok: "panes_ok (foldl reduceSshPaneState [] actions)"
  by (rule fold_panes_ok) (simp add: panes_ok_def)

text \<open>An action changes the pane it names and no other.\<close>
theorem panes_isolated:
  assumes "j \<noteq> action_pane a"
  shows "map_of (reduceSshPaneState s a) j = map_of s j"
  by (rule other_panes [OF assms])

theorem panes_isolated_witness:
  "map_of (reduceSshPaneState [([1], createSshPaneState)] (RemovePane [2])) [1] = Some createSshPaneState"
  using panes_isolated [of "[1]" "RemovePane [2]" "[([1], createSshPaneState)]"] by simp

text \<open>A command that starts and then ends has one entry in the timeline, the newest, which keeps when it
  started and records the outcome; the older entries stay in order.\<close>
theorem command_lifecycle_recorded:
  assumes "find_index (\<lambda>e. cl_commandId e = commandId) es = None"
  shows "applyCommandEnd (appendCommandStart es c commandId t) c' commandId code dur t' =
    slice_last (COMMAND_TIMELINE_MAX_COUNT - 1) es @
      [\<lparr>cl_commandId = commandId, cl_command = c', cl_startedAt = t, cl_endedAt = Some t',
        cl_durationMs = Some dur, cl_exitCode = Some code\<rparr>]"
  by (rule lifecycle_recorded [OF assms])

theorem command_lifecycle_recorded_witness:
  "length (applyCommandEnd (appendCommandStart [] [108] [49] 5) [108] [49] (Num 0) (Num 3) 8) = 1"
  using command_lifecycle_recorded [of "[49]" "[]" "[108]" 5 "[108]" "Num 0" "Num 3" 8] by simp

text \<open>However many events are logged for a pane, the log holds the newest of everything ever logged.\<close>
theorem debug_log_newest:
  assumes "evs \<noteq> []"
  shows "fold (\<lambda>(t, p) es. appendDebugEvent es p t) evs l = slice_last DEBUG_EVENT_MAX_COUNT (l @ evs)"
  by (rule debug_log.entries_fold [OF assms])

theorem debug_log_newest_witness:
  "fold (\<lambda>(t, p) es. appendDebugEvent es p t) [(1, PongMessage)] [] = slice_last DEBUG_EVENT_MAX_COUNT [(1, PongMessage)]"
  using debug_log_newest [of "[(1, PongMessage)]" "[]"] by simp

section \<open>Tabs\<close>

definition sample_tabs :: "unit tabs_state" where
  "sample_tabs = addTab id (js ''2'') (js ''ssh'') [] None (initial_tabs id (js ''1'') (js ''home''))"

lemma sample_tabs_ok: "tabs_ok sample_tabs"
  unfolding sample_tabs_def by (rule addTab_ok [OF initial_tabs_ok])

text \<open>C39: However the user adds, edits, closes, reorders and selects tabs, the strip is never empty, the ids
  are distinct and were generated, the active tab is one of the tabs and leads the recent ones, and
  every tab is among the recent ones.\<close>
theorem tabs_stay_ok: "tabs_ok (fold (tabs_step t) actions (initial_tabs t now page))"
  by (rule fold_tabs_ok [OF initial_tabs_ok])

text \<open>The switcher by recent use lists every tab exactly once, the active one first.\<close>
theorem switcher_lists_all:
  assumes "tabs_ok s"
  shows "mset (recentTabs s) = mset (tabs s) \<and> tab_id (hd (recentTabs s)) = activeTabId s"
  using recentTabs_spec [OF assms] by blast

theorem switcher_lists_all_witness: "mset (recentTabs sample_tabs) = mset (tabs sample_tabs)"
  using switcher_lists_all [OF sample_tabs_ok] by blast

text \<open>Closing the active tab, when it is not the last one, removes it alone and activates the tab that
  takes its place, or else the one before it.\<close>
theorem close_activates_neighbour:
  assumes "tabs_ok s" and "tabs s = xs @ tb # ys" and "activeTabId s = tab_id tb" and "xs @ ys \<noteq> []"
  shows "activeTabId (fst (closeTab (tab_id tb) s)) = tab_id (if ys = [] then last xs else hd ys) \<and>
    tabs (fst (closeTab (tab_id tb) s)) = xs @ ys"
  using closeTab_active [OF assms] by blast

lemma sample_tabs_fields:
  "tabs sample_tabs = [buildTab id (js ''1'') 1 (js ''home'') [], buildTab id (js ''2'') 2 (js ''ssh'') []]"
  "activeTabId sample_tabs = tab_id (buildTab id (js ''2'') 2 (js ''ssh'') [] :: unit tab)"
  by (auto simp: sample_tabs_def addTab_def initial_tabs_def Let_def run_effects_def valid_active_effect_def
      sync_recent_effect_def setActiveTabId_def insertTabAtRequestedPosition_def)

theorem close_activates_neighbour_witness:
  "activeTabId (fst (closeTab (activeTabId sample_tabs) sample_tabs)) =
     tab_id (buildTab id (js ''1'') 1 (js ''home'') [] :: unit tab)"
  using close_activates_neighbour [OF sample_tabs_ok, of "[buildTab id (js ''1'') 1 (js ''home'') []]"
      "buildTab id (js ''2'') 2 (js ''ssh'') []" "[]"]
  by (simp add: sample_tabs_fields)

text \<open>Dragging tabs either rearranges the current tabs in the order of the ids that the drag reports, when
  these are the ids of the current tabs, or changes nothing; no tab is lost, duplicated or replaced.\<close>
theorem reorder_is_permutation:
  assumes "distinct (map tab_id cur)"
  shows "case reordered_tabs nx cur of
      None \<Rightarrow> mset (map tab_id nx) = mset (map tab_id cur) \<longrightarrow> map tab_id nx = map tab_id cur
    | Some ts \<Rightarrow> map tab_id ts = map tab_id nx \<and> mset ts = mset cur"
  by (rule reordered_cases [OF assms])

theorem reorder_is_permutation_witness:
  "case reordered_tabs (rev (tabs sample_tabs)) (tabs sample_tabs) of
     None \<Rightarrow> map tab_id (rev (tabs sample_tabs)) = map tab_id (tabs sample_tabs)
   | Some ts \<Rightarrow> mset ts = mset (tabs sample_tabs)"
proof -
  have d: "distinct (map tab_id (tabs sample_tabs))" using sample_tabs_ok by (simp add: tabs_ok_def)
  show ?thesis
    using reorder_is_permutation [OF d, of "rev (tabs sample_tabs)"] by (auto split: option.splits)
qed

end
