(* ===== verification/PortForwardConnections.thy ===== *)
theory PortForwardConnections
  imports Socks5 Contracts
begin

text \<open>
  One running port-forwarding rule (packages/backend/src/port-forward/session-service.ts): the
  sockets and channels of its runtime, and the handlers that run on their events.

  A socket or channel is a number; the runtime holds what the code can observe of it.  Of a stream
  the model keeps who consumes its data, as Node documents it: a stream without a consumer is
  paused and keeps what arrives, a \<open>data\<close> listener or a pipe starts it, and once it flows without a
  consumer what arrives is lost.  Half-closed streams are not modelled.  Events that cannot happen
  (a socket that is not known, data on a destroyed socket) leave the runtime as it is.
\<close>

section \<open>Sockets and channels\<close>

datatype consumer =
    Paused                \<comment> \<open>no listener yet: data waits in the stream\<close>
  | DataListener          \<comment> \<open>\<open>socket.on('data', onData)\<close>\<close>
  | Unattended            \<comment> \<open>flowing without a listener: data is lost\<close>
  | PipedTo nat

datatype socks_stage = GreetingStage | RequestStage | PipingStage

datatype socket_role =
    UntrackedSocket       \<comment> \<open>destroyed on arrival, no listener attached\<close>
  | LocalSocket
  | DynamicSocket
  | TargetSocket nat      \<comment> \<open>opened for a channel of a remote rule\<close>

record pf_socket =
  sk_role :: socket_role
  sk_consumer :: consumer
  sk_pending :: bytes
  sk_stage :: socks_stage
  sk_buffer :: bytes
  sk_initialData :: bytes     \<comment> \<open>\<open>remaining\<close> of the request, for the callback\<close>
  sk_forwarding :: bool       \<comment> \<open>a \<open>forwardOut\<close> callback is outstanding\<close>
  sk_channel :: "nat option"  \<comment> \<open>the channel that its \<open>close\<close> listener destroys\<close>
  sk_timeout :: nat           \<comment> \<open>0 when the idle timeout is off\<close>
  sk_destroyed :: bool
  sk_closed :: bool           \<comment> \<open>\<open>close\<close> has been emitted\<close>

record pf_channel =
  ch_socket :: "nat option"   \<comment> \<open>the socket its listeners refer to\<close>
  ch_accepted :: bool         \<comment> \<open>accepted from the server, rather than opened to it\<close>
  ch_consumer :: consumer
  ch_pending :: bytes
  ch_destroyed :: bool
  ch_closed :: bool

datatype pf_effect =
    SocketWrote nat bytes
  | ChannelWrote nat bytes
  | ForwardOutRequested nat jstring nat jstring nat
      \<comment> \<open>socket, source address and port, target host and port\<close>
  | ConnectionRejected nat    \<comment> \<open>\<open>reject()\<close> of a channel offer\<close>

record pf_runtime =
  rt_ruleId :: jstring
  rt_localServer :: bool
  rt_localSockets :: "nat list"
  rt_channels :: "nat list"
  rt_remoteSockets :: "nat list"
  rt_activeConnectionCount :: nat
  rt_startedAt :: nat
  rt_boundHost :: "jstring option"
  rt_boundPort :: "nat option"
  rt_lastError :: "jstring option"
  rt_tcpConnectionListener :: bool
  \<comment> \<open>the objects the runtime refers to\<close>
  rt_accepting :: bool        \<comment> \<open>the local server is listening\<close>
  rt_sockets :: "(nat \<times> pf_socket) list"
  rt_channelStore :: "(nat \<times> pf_channel) list"
  rt_effects :: "pf_effect list"
  rt_disposed :: bool         \<comment> \<open>the teardown of \<open>disposeRuntimeState\<close> has run\<close>
  rt_ended :: bool            \<comment> \<open>\<open>client.end()\<close> has been called\<close>

definition MAX_ACTIVE_CONNECTIONS_PER_RULE :: nat where "MAX_ACTIVE_CONNECTIONS_PER_RULE = 64"
definition FORWARD_CONNECTION_TIMEOUT_MS :: nat where "FORWARD_CONNECTION_TIMEOUT_MS = 15000"

definition new_runtime :: "jstring \<Rightarrow> nat \<Rightarrow> pf_runtime" where
  "new_runtime ruleId now =
     \<lparr>rt_ruleId = ruleId, rt_localServer = False, rt_localSockets = [], rt_channels = [],
      rt_remoteSockets = [], rt_activeConnectionCount = 0, rt_startedAt = now, rt_boundHost = None,
      rt_boundPort = None, rt_lastError = None, rt_tcpConnectionListener = False, rt_accepting = False,
      rt_sockets = [], rt_channelStore = [], rt_effects = [], rt_disposed = False, rt_ended = False\<rparr>"

definition new_socket :: "socket_role \<Rightarrow> pf_socket" where
  "new_socket r =
     \<lparr>sk_role = r, sk_consumer = Paused, sk_pending = [], sk_stage = GreetingStage, sk_buffer = [],
      sk_initialData = [], sk_forwarding = False, sk_channel = None, sk_timeout = 0, sk_destroyed = False,
      sk_closed = False\<rparr>"

definition new_channel :: "nat option \<Rightarrow> bool \<Rightarrow> pf_channel" where
  "new_channel s accepted =
     \<lparr>ch_socket = s, ch_accepted = accepted, ch_consumer = Paused, ch_pending = [],
      ch_destroyed = False, ch_closed = False\<rparr>"

section \<open>Primitive effects\<close>

fun update_entry :: "'k \<Rightarrow> ('v \<Rightarrow> 'v) \<Rightarrow> ('k \<times> 'v) list \<Rightarrow> ('k \<times> 'v) list" where
  "update_entry k f [] = []"
| "update_entry k f ((k', v) # m) = (if k' = k then (k', f v) # m else (k', v) # update_entry k f m)"

definition on_socket :: "nat \<Rightarrow> (pf_socket \<Rightarrow> pf_socket) \<Rightarrow> pf_runtime \<Rightarrow> pf_runtime" where
  "on_socket s f rt = rt\<lparr>rt_sockets := update_entry s f (rt_sockets rt)\<rparr>"

definition on_channel :: "nat \<Rightarrow> (pf_channel \<Rightarrow> pf_channel) \<Rightarrow> pf_runtime \<Rightarrow> pf_runtime" where
  "on_channel c f rt = rt\<lparr>rt_channelStore := update_entry c f (rt_channelStore rt)\<rparr>"

definition emit_effect :: "pf_effect \<Rightarrow> pf_runtime \<Rightarrow> pf_runtime" where
  "emit_effect e rt = rt\<lparr>rt_effects := rt_effects rt @ [e]\<rparr>"

definition set_last_error :: "jstring \<Rightarrow> pf_runtime \<Rightarrow> pf_runtime" where
  "set_last_error msg rt = rt\<lparr>rt_lastError := Some msg\<rparr>"

definition destroy_socket :: "nat \<Rightarrow> pf_runtime \<Rightarrow> pf_runtime" where
  "destroy_socket s = on_socket s (\<lambda>k. k\<lparr>sk_destroyed := True\<rparr>)"

definition destroy_channel :: "nat \<Rightarrow> pf_runtime \<Rightarrow> pf_runtime" where
  "destroy_channel c = on_channel c (\<lambda>k. k\<lparr>ch_destroyed := True\<rparr>)"

definition set_timeout :: "nat \<Rightarrow> nat \<Rightarrow> pf_runtime \<Rightarrow> pf_runtime" where
  "set_timeout ms s = on_socket s (\<lambda>k. k\<lparr>sk_timeout := ms\<rparr>)"

text \<open>A write on a destroyed stream does nothing.\<close>

definition write_socket :: "nat \<Rightarrow> bytes \<Rightarrow> pf_runtime \<Rightarrow> pf_runtime" where
  "write_socket s bs rt =
     (case map_of (rt_sockets rt) s of
        None \<Rightarrow> rt
      | Some k \<Rightarrow> if sk_destroyed k \<or> bs = [] then rt else emit_effect (SocketWrote s bs) rt)"

definition write_channel :: "nat \<Rightarrow> bytes \<Rightarrow> pf_runtime \<Rightarrow> pf_runtime" where
  "write_channel c bs rt =
     (case map_of (rt_channelStore rt) c of
        None \<Rightarrow> rt
      | Some k \<Rightarrow> if ch_destroyed k \<or> bs = [] then rt else emit_effect (ChannelWrote c bs) rt)"

text \<open>\<open>socket.pipe(channel)\<close> and \<open>channel.pipe(socket)\<close>: what waits in the source is passed on.\<close>

definition pipe_socket :: "nat \<Rightarrow> nat \<Rightarrow> pf_runtime \<Rightarrow> pf_runtime" where
  "pipe_socket s c rt =
     (case map_of (rt_sockets rt) s of
        None \<Rightarrow> rt
      | Some k \<Rightarrow>
          if sk_destroyed k then rt
          else on_socket s (\<lambda>k. k\<lparr>sk_consumer := PipedTo c, sk_pending := []\<rparr>)
                 (write_channel c (sk_pending k) rt))"

definition pipe_channel :: "nat \<Rightarrow> nat \<Rightarrow> pf_runtime \<Rightarrow> pf_runtime" where
  "pipe_channel c s rt =
     (case map_of (rt_channelStore rt) c of
        None \<Rightarrow> rt
      | Some k \<Rightarrow>
          if ch_destroyed k then rt
          else on_channel c (\<lambda>k. k\<lparr>ch_consumer := PipedTo s, ch_pending := []\<rparr>)
                 (write_socket s (ch_pending k) rt))"

section \<open>Handlers\<close>

text \<open>The sets of the runtime keep their elements in insertion order, each once.\<close>

definition set_add :: "'a \<Rightarrow> 'a list \<Rightarrow> 'a list" where
  "set_add x xs = (if x \<in> set xs then xs else xs @ [x])"

definition set_remove :: "'a \<Rightarrow> 'a list \<Rightarrow> 'a list" where
  "set_remove x xs = filter (\<lambda>y. y \<noteq> x) xs"

definition trackLocalSocket :: "nat \<Rightarrow> pf_runtime \<Rightarrow> pf_runtime" where
  "trackLocalSocket s rt =
     rt\<lparr>rt_localSockets := set_add s (rt_localSockets rt),
        rt_activeConnectionCount := rt_activeConnectionCount rt + 1\<rparr>"

definition untrackLocalSocket :: "nat \<Rightarrow> pf_runtime \<Rightarrow> pf_runtime" where
  "untrackLocalSocket s rt =
     rt\<lparr>rt_localSockets := set_remove s (rt_localSockets rt),
        rt_activeConnectionCount := rt_activeConnectionCount rt - 1\<rparr>"

text \<open>\<open>forwardOut\<close> for an accepted socket; address and port of the peer may be unknown.\<close>

definition forwardOut ::
    "nat \<Rightarrow> jstring option \<Rightarrow> nat option \<Rightarrow> jstring \<Rightarrow> nat \<Rightarrow> pf_runtime \<Rightarrow> pf_runtime" where
  "forwardOut s addr port host target rt =
     on_socket s (\<lambda>k. k\<lparr>sk_forwarding := True\<rparr>)
       (emit_effect (ForwardOutRequested s
           (case addr of None \<Rightarrow> js ''127.0.0.1'' | Some a \<Rightarrow> a)
           (case port of None \<Rightarrow> 0 | Some p \<Rightarrow> p) host target) rt)"

definition add_socket :: "nat \<Rightarrow> pf_socket \<Rightarrow> pf_runtime \<Rightarrow> pf_runtime" where
  "add_socket s k rt = rt\<lparr>rt_sockets := rt_sockets rt @ [(s, k)]\<rparr>"

definition add_channel :: "nat \<Rightarrow> pf_channel \<Rightarrow> pf_runtime \<Rightarrow> pf_runtime" where
  "add_channel c k rt = rt\<lparr>rt_channelStore := rt_channelStore rt @ [(c, k)]\<rparr>"

definition handleLocalTcpConnection ::
    "jstring \<Rightarrow> nat \<Rightarrow> nat \<Rightarrow> jstring option \<Rightarrow> nat option \<Rightarrow> pf_runtime \<Rightarrow> pf_runtime" where
  "handleLocalTcpConnection targetHost targetPort s addr port rt =
     (if rt_activeConnectionCount rt \<ge> MAX_ACTIVE_CONNECTIONS_PER_RULE
      then destroy_socket s (add_socket s (new_socket UntrackedSocket) rt)
      else
        forwardOut s addr port targetHost targetPort
          (set_timeout FORWARD_CONNECTION_TIMEOUT_MS s
            (trackLocalSocket s (add_socket s (new_socket LocalSocket) rt))))"

definition handleDynamicTcpConnection :: "nat \<Rightarrow> pf_runtime \<Rightarrow> pf_runtime" where
  "handleDynamicTcpConnection s rt =
     (if rt_activeConnectionCount rt \<ge> MAX_ACTIVE_CONNECTIONS_PER_RULE
      then destroy_socket s (add_socket s (new_socket UntrackedSocket) rt)
      else
        on_socket s (\<lambda>k. k\<lparr>sk_consumer := DataListener\<rparr>)
          (set_timeout FORWARD_CONNECTION_TIMEOUT_MS s
            (trackLocalSocket s (add_socket s (new_socket DynamicSocket) rt))))"

text \<open>\<open>handleSocksConnect\<close> up to the callback of \<open>forwardOut\<close>.\<close>

definition handleSocksConnect ::
    "nat \<Rightarrow> jstring option \<Rightarrow> nat option \<Rightarrow> jstring \<Rightarrow> nat \<Rightarrow> bytes \<Rightarrow> pf_runtime \<Rightarrow> pf_runtime" where
  "handleSocksConnect s addr port targetHost targetPort initialData rt =
     forwardOut s addr port targetHost targetPort
       (on_socket s (\<lambda>k. k\<lparr>sk_initialData := initialData\<rparr>)
         (set_timeout FORWARD_CONNECTION_TIMEOUT_MS s rt))"

fun write_all :: "nat \<Rightarrow> bytes list \<Rightarrow> pf_runtime \<Rightarrow> pf_runtime" where
  "write_all s [] rt = rt"
| "write_all s (b # bs) rt = write_all s bs (write_socket s b rt)"

text \<open>The part of \<open>onData\<close> after the greeting, on the buffer that is left.\<close>

definition socks_request :: "nat \<Rightarrow> jstring option \<Rightarrow> nat option \<Rightarrow> bytes \<Rightarrow> pf_runtime \<Rightarrow> pf_runtime" where
  "socks_request s addr port buf rt =
     (case parseSocks5ConnectRequest buf of
        NeedMoreData \<Rightarrow> rt
      | Unsupported code n \<Rightarrow> destroy_socket s (write_socket s (writeSocks5Response (word_of_nat code)) rt)
      | Invalid code n \<Rightarrow> destroy_socket s (write_socket s (writeSocks5Response (word_of_nat code)) rt)
      | Connect host p n \<Rightarrow>
          handleSocksConnect s addr port host p (drop n buf)
            (on_socket s (\<lambda>k. k\<lparr>sk_stage := PipingStage, sk_consumer := Unattended\<rparr>) rt))"

definition onData :: "nat \<Rightarrow> jstring option \<Rightarrow> nat option \<Rightarrow> bytes \<Rightarrow> pf_runtime \<Rightarrow> pf_runtime" where
  "onData s addr port chunk rt =
     (case map_of (rt_sockets rt) s of
        None \<Rightarrow> rt
      | Some k \<Rightarrow>
          let buffer = sk_buffer k @ chunk;
              rt1 = on_socket s (\<lambda>k. k\<lparr>sk_buffer := buffer\<rparr>) rt
          in if sk_stage k = GreetingStage then
               (if length buffer < 2 then rt1
                else if length buffer < 2 + unat (buffer ! 1) then rt1
                else
                  case handleSocks5Greeting buffer of
                    (None, replies) \<Rightarrow> destroy_socket s (write_all s replies rt1)
                  | (Some remaining, replies) \<Rightarrow>
                      socks_request s addr port remaining
                        (on_socket s (\<lambda>k. k\<lparr>sk_buffer := remaining, sk_stage := RequestStage\<rparr>)
                          (write_all s replies rt1)))
             else if sk_stage k \<noteq> RequestStage then rt1
             else socks_request s addr port buffer rt1)"

definition pipeSocketAndChannel :: "nat \<Rightarrow> nat \<Rightarrow> pf_runtime \<Rightarrow> pf_runtime" where
  "pipeSocketAndChannel s c rt =
     on_socket s (\<lambda>k. k\<lparr>sk_channel := Some c\<rparr>)
       (pipe_channel c s (pipe_socket s c (set_timeout 0 s
         (rt\<lparr>rt_channels := set_add c (rt_channels rt)\<rparr>))))"

text \<open>The callback of \<open>forwardOut\<close>: for a SOCKS connection the client is answered first.\<close>

definition forwardOut_answered :: "nat \<Rightarrow> jstring + nat \<Rightarrow> pf_runtime \<Rightarrow> pf_runtime" where
  "forwardOut_answered s answer rt =
     (case map_of (rt_sockets rt) s of
        None \<Rightarrow> rt
      | Some k \<Rightarrow>
          let dynamic = (sk_role k = DynamicSocket);
              rt1 = on_socket s (\<lambda>k. k\<lparr>sk_forwarding := False\<rparr>) rt
          in case answer of
               Inl msg \<Rightarrow>
                 let rt2 = set_last_error msg rt1
                 in destroy_socket s (if dynamic then write_socket s (writeSocks5Response 0x05) rt2 else rt2)
             | Inr c \<Rightarrow>
                 let rt2 = add_channel c (new_channel (Some s) False) rt1;
                     rt3 = (if dynamic
                            then write_channel c (sk_initialData k) (write_socket s (writeSocks5Response 0x00) rt2)
                            else rt2)
                 in pipeSocketAndChannel s c rt3)"

text \<open>A remote rule: the target is connected for an accepted channel.\<close>

definition truthy_text :: "jstring option \<Rightarrow> bool" where
  "truthy_text x \<longleftrightarrow> (case x of None \<Rightarrow> False | Some t \<Rightarrow> t \<noteq> [])"

definition truthy_num :: "nat option \<Rightarrow> bool" where
  "truthy_num x \<longleftrightarrow> (case x of None \<Rightarrow> False | Some n \<Rightarrow> n \<noteq> 0)"

definition pipeRemoteForwardConnection ::
    "jstring option \<Rightarrow> nat option \<Rightarrow> nat \<Rightarrow> nat \<Rightarrow> pf_runtime \<Rightarrow> pf_runtime" where
  "pipeRemoteForwardConnection targetHost targetPort c s rt =
     (if \<not> truthy_text targetHost \<or> \<not> truthy_num targetPort then destroy_channel c rt
      else
        let rt1 = rt\<lparr>rt_channels := set_add c (rt_channels rt),
                     rt_activeConnectionCount := rt_activeConnectionCount rt + 1\<rparr>;
            rt2 = add_socket s (new_socket (TargetSocket c)) (on_channel c (\<lambda>k. k\<lparr>ch_socket := Some s\<rparr>) rt1)
        in set_timeout FORWARD_CONNECTION_TIMEOUT_MS s
             (rt2\<lparr>rt_remoteSockets := set_add s (rt_remoteSockets rt2)\<rparr>))"

definition tcpConnectionListener ::
    "jstring option \<Rightarrow> nat option \<Rightarrow> nat \<Rightarrow> nat \<Rightarrow> bool \<Rightarrow> pf_runtime \<Rightarrow> pf_runtime" where
  "tcpConnectionListener targetHost targetPort c s acceptable rt =
     (if rt_activeConnectionCount rt \<ge> MAX_ACTIVE_CONNECTIONS_PER_RULE \<or> \<not> acceptable
      then emit_effect (ConnectionRejected c) rt
      else pipeRemoteForwardConnection targetHost targetPort c s (add_channel c (new_channel None True) rt))"

text \<open>The listeners on the \<open>close\<close> event of a socket.\<close>

definition socket_closed :: "nat \<Rightarrow> pf_socket \<Rightarrow> pf_runtime \<Rightarrow> pf_runtime" where
  "socket_closed s k rt =
     (case sk_role k of
        UntrackedSocket \<Rightarrow> rt
      | TargetSocket c \<Rightarrow>
          rt\<lparr>rt_channels := set_remove c (rt_channels rt),
             rt_remoteSockets := set_remove s (rt_remoteSockets rt),
             rt_activeConnectionCount := rt_activeConnectionCount rt - 1\<rparr>
      | _ \<Rightarrow>
          (case sk_channel k of
             Some c \<Rightarrow> destroy_channel c (untrackLocalSocket s rt)
           | None \<Rightarrow> untrackLocalSocket s rt))"

definition socket_errored :: "nat \<Rightarrow> pf_socket \<Rightarrow> jstring \<Rightarrow> pf_runtime \<Rightarrow> pf_runtime" where
  "socket_errored s k msg rt =
     (case sk_role k of
        UntrackedSocket \<Rightarrow> rt
      | TargetSocket c \<Rightarrow> destroy_channel c (set_last_error msg rt)
      | _ \<Rightarrow> set_last_error msg rt)"

text \<open>What arrives on a socket goes to its consumer.\<close>

definition socket_data :: "nat \<Rightarrow> jstring option \<Rightarrow> nat option \<Rightarrow> bytes \<Rightarrow> pf_socket \<Rightarrow> pf_runtime \<Rightarrow> pf_runtime" where
  "socket_data s addr port chunk k rt =
     (case sk_consumer k of
        Paused \<Rightarrow> on_socket s (\<lambda>k. k\<lparr>sk_pending := sk_pending k @ chunk\<rparr>) rt
      | DataListener \<Rightarrow> onData s addr port chunk rt
      | Unattended \<Rightarrow> rt
      | PipedTo c \<Rightarrow> write_channel c chunk rt)"

definition channel_data :: "nat \<Rightarrow> bytes \<Rightarrow> pf_channel \<Rightarrow> pf_runtime \<Rightarrow> pf_runtime" where
  "channel_data c chunk k rt =
     (case ch_consumer k of
        PipedTo s \<Rightarrow> write_socket s chunk rt
      | _ \<Rightarrow> on_channel c (\<lambda>k. k\<lparr>ch_pending := ch_pending k @ chunk\<rparr>) rt)"

section \<open>Events\<close>

datatype rule_kind = LocalRule | RemoteRule | DynamicRule

record pf_target =
  tg_kind :: rule_kind
  tg_host :: "jstring option"
  tg_port :: "nat option"

datatype pf_event =
    ConnectionArrived nat "jstring option" "nat option"
  | ChannelOffered nat nat bool
  | SocketConnected nat
  | SocketData nat "jstring option" "nat option" bytes
  | SocketTimedOut nat
  | SocketErrored nat jstring
  | SocketClosed nat
  | ForwardOutAnswered nat "jstring + nat"
  | ChannelData nat bytes
  | ChannelErrored nat jstring
  | ChannelClosed nat

abbreviation socket_of :: "nat \<Rightarrow> pf_runtime \<Rightarrow> pf_socket option" where
  "socket_of s rt \<equiv> map_of (rt_sockets rt) s"

abbreviation channel_of :: "nat \<Rightarrow> pf_runtime \<Rightarrow> pf_channel option" where
  "channel_of c rt \<equiv> map_of (rt_channelStore rt) c"

fun connection_step :: "pf_target \<Rightarrow> pf_event \<Rightarrow> pf_runtime \<Rightarrow> pf_runtime" where
  "connection_step T (ConnectionArrived s addr port) rt =
     (if \<not> rt_accepting rt \<or> socket_of s rt \<noteq> None then rt
      else case tg_kind T of
        LocalRule \<Rightarrow>
          handleLocalTcpConnection (case tg_host T of None \<Rightarrow> [] | Some h \<Rightarrow> h)
            (case tg_port T of None \<Rightarrow> 0 | Some p \<Rightarrow> p) s addr port rt
      | DynamicRule \<Rightarrow> handleDynamicTcpConnection s rt
      | RemoteRule \<Rightarrow> rt)"
| "connection_step T (ChannelOffered c s acceptable) rt =
     (if \<not> rt_tcpConnectionListener rt \<or> socket_of s rt \<noteq> None \<or> channel_of c rt \<noteq> None then rt
      else tcpConnectionListener (tg_host T) (tg_port T) c s acceptable rt)"
| "connection_step T (SocketConnected s) rt =
     (case socket_of s rt of
        Some k \<Rightarrow>
          (case sk_role k of
             TargetSocket c \<Rightarrow>
               if sk_destroyed k \<or> sk_consumer k \<noteq> Paused then rt
               else pipe_channel c s (pipe_socket s c rt)
           | _ \<Rightarrow> rt)
      | None \<Rightarrow> rt)"
| "connection_step T (SocketData s addr port chunk) rt =
     (case socket_of s rt of
        Some k \<Rightarrow> if sk_destroyed k \<or> sk_closed k then rt else socket_data s addr port chunk k rt
      | None \<Rightarrow> rt)"
| "connection_step T (SocketTimedOut s) rt =
     (case socket_of s rt of
        Some k \<Rightarrow> if sk_destroyed k \<or> sk_timeout k = 0 then rt else destroy_socket s rt
      | None \<Rightarrow> rt)"
| "connection_step T (SocketErrored s msg) rt =
     (case socket_of s rt of
        Some k \<Rightarrow> if sk_destroyed k then rt else socket_errored s k msg (destroy_socket s rt)
      | None \<Rightarrow> rt)"
| "connection_step T (SocketClosed s) rt =
     (case socket_of s rt of
        Some k \<Rightarrow>
          if sk_closed k then rt
          else socket_closed s k (on_socket s (\<lambda>k. k\<lparr>sk_closed := True, sk_destroyed := True\<rparr>) rt)
      | None \<Rightarrow> rt)"
| "connection_step T (ForwardOutAnswered s answer) rt =
     (case socket_of s rt of
        Some k \<Rightarrow>
          if \<not> sk_forwarding k \<or> (case answer of Inr c \<Rightarrow> channel_of c rt \<noteq> None | _ \<Rightarrow> False) then rt
          else forwardOut_answered s answer rt
      | None \<Rightarrow> rt)"
| "connection_step T (ChannelData c chunk) rt =
     (case channel_of c rt of
        Some k \<Rightarrow> if ch_destroyed k \<or> ch_closed k then rt else channel_data c chunk k rt
      | None \<Rightarrow> rt)"
| "connection_step T (ChannelErrored c msg) rt =
     (case channel_of c rt of
        Some k \<Rightarrow>
          if ch_destroyed k then rt
          else (case ch_socket k of
              None \<Rightarrow> destroy_channel c rt
            | Some s \<Rightarrow> destroy_socket s (set_last_error msg (destroy_channel c rt)))
      | None \<Rightarrow> rt)"
| "connection_step T (ChannelClosed c) rt =
     (case channel_of c rt of
        Some k \<Rightarrow>
          if ch_closed k then rt
          else
            let rt1 = on_channel c (\<lambda>k. k\<lparr>ch_closed := True, ch_destroyed := True\<rparr>) rt
            in if ch_accepted k
               then (case ch_socket k of None \<Rightarrow> rt1 | Some s \<Rightarrow> destroy_socket s rt1)
               else rt1\<lparr>rt_channels := set_remove c (rt_channels rt1)\<rparr>
      | None \<Rightarrow> rt)"

text \<open>
  The synchronous part of \<open>disposeRuntimeState\<close>: everything that is tracked is destroyed, and a local
  server accepts no more.
\<close>

definition destroy_all :: "pf_runtime \<Rightarrow> pf_runtime" where
  "destroy_all rt =
     (let rt1 = (fold destroy_socket (rt_localSockets rt) rt)\<lparr>rt_localSockets := []\<rparr>;
          rt2 = (fold destroy_socket (rt_remoteSockets rt1) rt1)\<lparr>rt_remoteSockets := []\<rparr>
      in (fold destroy_channel (rt_channels rt2) rt2)\<lparr>rt_channels := []\<rparr>)"

definition teardown :: "pf_runtime \<Rightarrow> pf_runtime" where
  "teardown rt = (destroy_all rt)\<lparr>rt_accepting := False, rt_disposed := True\<rparr>"

definition connection_run :: "pf_target \<Rightarrow> pf_event list \<Rightarrow> pf_runtime \<Rightarrow> pf_runtime" where
  "connection_run T es rt = fold (connection_step T) es rt"

end
