(* ===== verification/PortForwardService.thy ===== *)
theory PortForwardService
  imports PortForwardConnections
begin

text \<open>
  Starting and stopping port-forwarding rules (packages/backend/src/port-forward/session-service.ts)
  and the lifecycle monitor of a new SSH client (packages/backend/src/ssh/connect.ts).

  An \<open>await\<close> suspends the function that runs: its stage names the await and holds the variables
  that the rest uses.  The database, the SSH library and the local server answer later, in any
  order, and what they answer is part of the event.  Between two awaits a function runs to the next
  one, as in the source.
\<close>

section \<open>Rules, results and stages\<close>

record pf_rule =
  pr_id :: jstring
  pr_name :: jstring
  pr_type :: rule_kind
  pr_serverId :: jstring
  pr_serverName :: jstring
  pr_serverHost :: jstring
  pr_serverPort :: nat
  pr_strictHostKey :: bool
  pr_localBindHost :: "jstring option"
  pr_localBindPort :: "nat option"
  pr_remoteBindHost :: "jstring option"
  pr_remoteBindPort :: "nat option"
  pr_targetHost :: "jstring option"
  pr_targetPort :: "nat option"
  pr_note :: "jstring option"
  pr_lastStartedAt :: "nat option"
  pr_lastStoppedAt :: "nat option"
  pr_lastFailureMessage :: "jstring option"
  pr_createdAt :: nat
  pr_updatedAt :: nat

text \<open>The runtime part of an API item; a time stands for its ISO text.\<close>

datatype pf_runtime_view =
    Stopped
  | Running nat "jstring option" "nat option" nat "jstring option"
      \<comment> \<open>active connections, bound host and port, start, last error\<close>

record pf_item =
  it_rule :: pf_rule
  it_runtime :: pf_runtime_view

definition mapPortForwardRuleItem :: "pf_rule \<Rightarrow> pf_runtime option \<Rightarrow> pf_item" where
  "mapPortForwardRuleItem rule runtime =
     \<lparr>it_rule = rule,
      it_runtime = (case runtime of
          None \<Rightarrow> Stopped
        | Some r \<Rightarrow> Running (rt_activeConnectionCount r) (rt_boundHost r) (rt_boundPort r)
                           (rt_startedAt r) (rt_lastError r))\<rparr>"

record start_input =
  si_ruleId :: jstring
  si_requestId :: "jstring option"
  si_connectTimeoutSec :: nat
  si_systemProxyRules :: "jstring option"

type_synonym proxy_metadata = "jstring \<times> jstring"   \<comment> \<open>mode and protocol\<close>

datatype start_result =
    StartSuccess pf_item
  | StartNotFound
  | StartActive
  | StartHostUntrusted jstring jstring nat jstring   \<comment> \<open>server, host, port, fingerprint\<close>
  | StartFailed jstring
  | StartThrew

datatype stop_result = StopSuccess pf_item | StopNotFound | StopThrew

datatype pf_result = StartResult jstring start_result | StopResult jstring stop_result

text \<open>Who waits for a teardown, with what it does next.\<close>

datatype after_dispose =
    FailStart start_input pf_rule jstring proxy_metadata
  | RethrowUpdate start_input
  | FinishStop pf_rule
  | FinishClose jstring jstring "(start_input \<times> pf_rule \<times> proxy_metadata) option"
  | FinishShutdown

datatype pf_stage =
    AwaitRule start_input
  | AwaitTrustedKeys start_input pf_rule
  | AwaitClient start_input pf_rule
  | AwaitFailurePersisted start_input pf_rule jstring "proxy_metadata option"
  | AwaitForward start_input pf_rule nat proxy_metadata
  | AwaitStarted start_input pf_rule nat proxy_metadata
  | AwaitUnforward nat after_dispose
  | AwaitServerClose nat after_dispose
  | AwaitClosePersisted jstring jstring "(start_input \<times> pf_rule \<times> proxy_metadata) option"
  | AwaitStopRule jstring
  | AwaitStopped pf_rule

datatype client_answer =
    ClientReady proxy_metadata
  | ClientUntrusted jstring jstring "proxy_metadata option"   \<comment> \<open>fingerprint, message\<close>
  | ClientFailed jstring "proxy_metadata option"

datatype pf_answer =
    GotRule "pf_rule option"
  | GotKeys "jstring list"
  | GotClient client_answer
  | Done
  | Threw "jstring option"       \<comment> \<open>the message, when an \<open>Error\<close> was thrown\<close>

datatype audit_outcome = AuditFailure jstring | AuditSuccess

datatype pf_log =
    OpenedClient jstring bool "jstring list" nat "jstring option"
      \<comment> \<open>rule, strict host key, trusted fingerprints, timeout, proxy rules\<close>
  | FailurePersisted jstring jstring
  | StartPersisted jstring nat
  | StopPersisted jstring nat
  | ClosePersisted jstring jstring nat
  | AuditStart jstring audit_outcome
  | AuditStop jstring
  | Returned pf_result

text \<open>
  The SSH client of a runtime: what the lifecycle monitor of \<open>openSshClient\<close> recorded, whether its
  listeners are attached, and whether the service has attached its own.
\<close>

record pf_client =
  cl_firstError :: "jstring option"
  cl_closed :: bool
  cl_releaseAfterClose :: bool
  cl_released :: bool
  cl_handled :: bool

record pf_service =
  ps_activeRules :: "(jstring \<times> nat) list"
  ps_startingRuleIds :: "jstring list"
  ps_runtimes :: "(nat \<times> pf_runtime) list"
  ps_clients :: "(nat \<times> pf_client) list"
  ps_rules :: "(nat \<times> pf_rule) list"    \<comment> \<open>the rule that the handlers of a runtime closed over\<close>
  ps_ops :: "(nat \<times> pf_stage) list"
  ps_next :: nat
  ps_failed :: "nat list"                \<comment> \<open>runtimes whose teardown threw\<close>
  ps_log :: "pf_log list"

definition new_service :: pf_service where
  "new_service =
     \<lparr>ps_activeRules = [], ps_startingRuleIds = [], ps_runtimes = [], ps_clients = [], ps_rules = [],
      ps_ops = [], ps_next = 0, ps_failed = [], ps_log = []\<rparr>"

text \<open>Localized texts are parameters.\<close>

record pf_texts =
  tx_invalidPayload :: jstring
  tx_startFailedNoReason :: jstring
  tx_sshConnectionClosed :: jstring

section \<open>The lifecycle monitor\<close>

definition new_client :: pf_client where
  "new_client = \<lparr>cl_firstError = None, cl_closed = False, cl_releaseAfterClose = False,
                 cl_released = False, cl_handled = False\<rparr>"

definition monitor_error :: "jstring \<Rightarrow> pf_client \<Rightarrow> pf_client" where
  "monitor_error msg c =
     (if cl_released c then c
      else c\<lparr>cl_firstError := (case cl_firstError c of None \<Rightarrow> Some msg | Some m \<Rightarrow> Some m)\<rparr>)"

definition releaseMonitor :: "pf_client \<Rightarrow> pf_client" where
  "releaseMonitor c = c\<lparr>cl_released := True\<rparr>"

definition monitor_close :: "pf_client \<Rightarrow> pf_client" where
  "monitor_close c =
     (if cl_released c then c
      else let c1 = c\<lparr>cl_closed := True\<rparr>
           in if cl_releaseAfterClose c1 then releaseMonitor c1 else c1)"

definition releaseAfterClose :: "pf_client \<Rightarrow> pf_client" where
  "releaseAfterClose c =
     (let c1 = c\<lparr>cl_releaseAfterClose := True\<rparr>
      in if cl_closed c1 then releaseMonitor c1 else c1)"

section \<open>Suspending and returning\<close>

definition suspend :: "pf_stage \<Rightarrow> pf_service \<Rightarrow> pf_service" where
  "suspend st S = S\<lparr>ps_ops := ps_ops S @ [(ps_next S, st)], ps_next := ps_next S + 1\<rparr>"

definition write_log :: "pf_log \<Rightarrow> pf_service \<Rightarrow> pf_service" where
  "write_log l S = S\<lparr>ps_log := ps_log S @ [l]\<rparr>"

definition on_runtime :: "nat \<Rightarrow> (pf_runtime \<Rightarrow> pf_runtime) \<Rightarrow> pf_service \<Rightarrow> pf_service" where
  "on_runtime i f S = S\<lparr>ps_runtimes := update_entry i f (ps_runtimes S)\<rparr>"

definition on_client :: "nat \<Rightarrow> (pf_client \<Rightarrow> pf_client) \<Rightarrow> pf_service \<Rightarrow> pf_service" where
  "on_client i f S = S\<lparr>ps_clients := update_entry i f (ps_clients S)\<rparr>"

abbreviation runtime_of :: "nat \<Rightarrow> pf_service \<Rightarrow> pf_runtime option" where
  "runtime_of i S \<equiv> map_of (ps_runtimes S) i"

abbreviation client_of :: "nat \<Rightarrow> pf_service \<Rightarrow> pf_client option" where
  "client_of i S \<equiv> map_of (ps_clients S) i"

abbreviation active_of :: "jstring \<Rightarrow> pf_service \<Rightarrow> nat option" where
  "active_of r S \<equiv> map_of (ps_activeRules S) r"

text \<open>The end of a start runs the \<open>finally\<close> block of \<open>startRule\<close>.\<close>

definition finish_start :: "start_input \<Rightarrow> start_result \<Rightarrow> pf_service \<Rightarrow> pf_service" where
  "finish_start i r S =
     write_log (Returned (StartResult (si_ruleId i) r))
       (S\<lparr>ps_startingRuleIds := set_remove (si_ruleId i) (ps_startingRuleIds S)\<rparr>)"

definition finish_stop :: "jstring \<Rightarrow> stop_result \<Rightarrow> pf_service \<Rightarrow> pf_service" where
  "finish_stop ruleId r S = write_log (Returned (StopResult ruleId r)) S"

definition isRuleActive :: "jstring \<Rightarrow> pf_service \<Rightarrow> bool" where
  "isRuleActive ruleId S \<longleftrightarrow> active_of ruleId S \<noteq> None \<or> ruleId \<in> set (ps_startingRuleIds S)"

definition listRules :: "pf_rule list \<Rightarrow> pf_service \<Rightarrow> pf_item list" where
  "listRules rules S =
     map (\<lambda>rule. mapPortForwardRuleItem rule
            (case active_of (pr_id rule) S of None \<Rightarrow> None | Some i \<Rightarrow> runtime_of i S)) rules"

definition resolveErrorMessage :: "jstring option \<Rightarrow> jstring \<Rightarrow> jstring" where
  "resolveErrorMessage err fallback =
     (case err of Some m \<Rightarrow> if trim m \<noteq> [] then m else fallback | None \<Rightarrow> fallback)"

section \<open>Teardown\<close>

definition persistStartFailure ::
    "start_input \<Rightarrow> pf_rule \<Rightarrow> jstring \<Rightarrow> proxy_metadata option \<Rightarrow> pf_service \<Rightarrow> pf_service" where
  "persistStartFailure i rule msg proxy S = suspend (AwaitFailurePersisted i rule msg proxy) S"

definition logStartFailure :: "pf_rule \<Rightarrow> jstring \<Rightarrow> pf_service \<Rightarrow> pf_service" where
  "logStartFailure rule msg S = write_log (AuditStart (pr_id rule) (AuditFailure msg)) S"

definition close_returned ::
    "jstring \<Rightarrow> (start_input \<times> pf_rule \<times> proxy_metadata) option \<Rightarrow> pf_service \<Rightarrow> pf_service" where
  "close_returned msg caller S =
     (case caller of
        None \<Rightarrow> S
      | Some (i, rule, proxy) \<Rightarrow> finish_start i (StartFailed msg) (logStartFailure rule msg S))"

fun after_disposed :: "after_dispose \<Rightarrow> pf_service \<Rightarrow> pf_service" where
  "after_disposed (FailStart i rule msg proxy) S = persistStartFailure i rule msg (Some proxy) S"
| "after_disposed (RethrowUpdate i) S = finish_start i StartThrew S"
| "after_disposed (FinishStop rule) S = suspend (AwaitStopped rule) S"
| "after_disposed (FinishClose ruleId msg caller) S = suspend (AwaitClosePersisted ruleId msg caller) S"
| "after_disposed FinishShutdown S = S"

text \<open>The teardown threw: the function that awaits it fails, an unexpected close only logs.\<close>

fun dispose_threw :: "after_dispose \<Rightarrow> pf_service \<Rightarrow> pf_service" where
  "dispose_threw (FailStart i rule msg proxy) S = finish_start i StartThrew S"
| "dispose_threw (RethrowUpdate i) S = finish_start i StartThrew S"
| "dispose_threw (FinishStop rule) S = finish_stop (pr_id rule) StopThrew S"
| "dispose_threw (FinishClose ruleId msg caller) S = close_returned msg caller S"
| "dispose_threw FinishShutdown S = S"

definition dispose_end :: "nat \<Rightarrow> after_dispose \<Rightarrow> pf_service \<Rightarrow> pf_service" where
  "dispose_end i k S =
     after_disposed k
       (on_runtime i (\<lambda>r. r\<lparr>rt_localServer := False, rt_ended := True, rt_activeConnectionCount := 0\<rparr>) S)"

definition dispose_streams :: "nat \<Rightarrow> after_dispose \<Rightarrow> pf_service \<Rightarrow> pf_service" where
  "dispose_streams i k S =
     (let S1 = on_runtime i teardown S
      in case runtime_of i S1 of
           Some r \<Rightarrow> if rt_localServer r then suspend (AwaitServerClose i k) S1 else dispose_end i k S1
         | None \<Rightarrow> S1)"

definition disposeRuntimeState :: "nat \<Rightarrow> after_dispose \<Rightarrow> pf_service \<Rightarrow> pf_service" where
  "disposeRuntimeState i k S =
     (let S1 = on_runtime i (\<lambda>r. r\<lparr>rt_tcpConnectionListener := False\<rparr>) S
      in case runtime_of i S1 of
           Some r \<Rightarrow>
             if truthy_text (rt_boundHost r) \<and> truthy_num (rt_boundPort r) \<and> \<not> rt_localServer r
             then suspend (AwaitUnforward i k) S1
             else dispose_streams i k S1
         | None \<Rightarrow> S1)"

definition deactivate :: "jstring \<Rightarrow> pf_service \<Rightarrow> pf_service" where
  "deactivate ruleId S = S\<lparr>ps_activeRules := map_delete ruleId (ps_activeRules S)\<rparr>"

definition handleUnexpectedClose ::
    "jstring \<Rightarrow> jstring \<Rightarrow> (start_input \<times> pf_rule \<times> proxy_metadata) option \<Rightarrow> pf_service \<Rightarrow> pf_service" where
  "handleUnexpectedClose ruleId msg caller S =
     (case active_of ruleId S of
        None \<Rightarrow> close_returned msg caller S
      | Some i \<Rightarrow>
          disposeRuntimeState i (FinishClose ruleId msg caller)
            (deactivate ruleId (on_runtime i (set_last_error msg) S)))"

section \<open>Starting\<close>

definition startRule :: "start_input \<Rightarrow> pf_service \<Rightarrow> pf_service" where
  "startRule i S =
     (if isRuleActive (si_ruleId i) S
      then write_log (Returned (StartResult (si_ruleId i) StartActive)) S
      else suspend (AwaitRule i)
             (S\<lparr>ps_startingRuleIds := set_add (si_ruleId i) (ps_startingRuleIds S)\<rparr>))"

definition fail_forward ::
    "pf_texts \<Rightarrow> start_input \<Rightarrow> pf_rule \<Rightarrow> nat \<Rightarrow> proxy_metadata \<Rightarrow> jstring option \<Rightarrow> pf_service \<Rightarrow> pf_service" where
  "fail_forward X i rule rt proxy err S =
     disposeRuntimeState rt
       (FailStart i rule (resolveErrorMessage err (tx_startFailedNoReason X)) proxy)
       (on_client rt releaseAfterClose S)"

text \<open>\<open>startLocalRule\<close>, \<open>startDynamicRule\<close> and \<open>startRemoteRule\<close> up to their await.\<close>

definition local_bind_ok :: "pf_rule \<Rightarrow> bool" where
  "local_bind_ok rule \<longleftrightarrow> truthy_text (pr_localBindHost rule) \<and> truthy_num (pr_localBindPort rule)"

definition remote_bind_ok :: "pf_rule \<Rightarrow> bool" where
  "remote_bind_ok rule \<longleftrightarrow> truthy_text (pr_remoteBindHost rule) \<and> truthy_num (pr_remoteBindPort rule)"

definition target_ok :: "pf_rule \<Rightarrow> bool" where
  "target_ok rule \<longleftrightarrow> truthy_text (pr_targetHost rule) \<and> truthy_num (pr_targetPort rule)"

definition rule_startable :: "pf_rule \<Rightarrow> bool" where
  "rule_startable rule =
     (case pr_type rule of
        LocalRule \<Rightarrow> local_bind_ok rule \<and> target_ok rule
      | DynamicRule \<Rightarrow> local_bind_ok rule
      | RemoteRule \<Rightarrow> remote_bind_ok rule \<and> target_ok rule)"

definition start_forward ::
    "pf_texts \<Rightarrow> start_input \<Rightarrow> pf_rule \<Rightarrow> nat \<Rightarrow> proxy_metadata \<Rightarrow> pf_service \<Rightarrow> pf_service" where
  "start_forward X i rule rt proxy S =
     (if \<not> rule_startable rule
      then fail_forward X i rule rt proxy (Some (tx_invalidPayload X)) S
      else suspend (AwaitForward i rule rt proxy)
             (on_runtime rt (\<lambda>r. case pr_type rule of
                 RemoteRule \<Rightarrow> r\<lparr>rt_tcpConnectionListener := True\<rparr>
               | _ \<Rightarrow> r\<lparr>rt_localServer := True\<rparr>) S))"

text \<open>The local server listens, or the remote one forwards: the runtime is bound.\<close>

definition bind_runtime :: "pf_rule \<Rightarrow> pf_runtime \<Rightarrow> pf_runtime" where
  "bind_runtime rule r =
     (case pr_type rule of
        RemoteRule \<Rightarrow> r\<lparr>rt_boundHost := pr_remoteBindHost rule, rt_boundPort := pr_remoteBindPort rule\<rparr>
      | _ \<Rightarrow> r\<lparr>rt_accepting := True, rt_boundHost := pr_localBindHost rule, rt_boundPort := pr_localBindPort rule\<rparr>)"

definition client_opened ::
    "pf_texts \<Rightarrow> nat \<Rightarrow> start_input \<Rightarrow> pf_rule \<Rightarrow> client_answer \<Rightarrow> pf_service \<Rightarrow> pf_service" where
  "client_opened X now i rule a S =
     (case a of
        ClientUntrusted fp msg proxy \<Rightarrow>
          finish_start i (StartHostUntrusted (pr_serverId rule) (pr_serverHost rule) (pr_serverPort rule) fp)
            (write_log (AuditStart (pr_id rule) (AuditFailure msg)) S)
      | ClientFailed msg proxy \<Rightarrow> persistStartFailure i rule msg proxy S
      | ClientReady proxy \<Rightarrow>
          let rt = ps_next S
          in start_forward X i rule rt proxy
               (S\<lparr>ps_runtimes := ps_runtimes S @ [(rt, new_runtime (pr_id rule) now)],
                  ps_clients := ps_clients S @ [(rt, new_client)],
                  ps_rules := ps_rules S @ [(rt, rule)],
                  ps_next := rt + 1\<rparr>))"

definition guarded_failure :: "pf_texts \<Rightarrow> pf_client \<Rightarrow> jstring option" where
  "guarded_failure X c =
     (case cl_firstError c of
        Some m \<Rightarrow> Some m
      | None \<Rightarrow> if cl_closed c then Some (tx_sshConnectionClosed X) else None)"

definition start_persisted ::
    "pf_texts \<Rightarrow> start_input \<Rightarrow> pf_rule \<Rightarrow> nat \<Rightarrow> proxy_metadata \<Rightarrow> pf_rule \<Rightarrow> pf_service \<Rightarrow> pf_service" where
  "start_persisted X i rule rt proxy updatedRule S =
     (let S1 = on_client rt (\<lambda>c. releaseMonitor (c\<lparr>cl_handled := True\<rparr>)) S
      in case client_of rt S1 of
           None \<Rightarrow> S1
         | Some c \<Rightarrow>
             if truthy_text (guarded_failure X c)
             then handleUnexpectedClose (pr_id rule) (the (guarded_failure X c)) (Some (i, rule, proxy)) S1
             else finish_start i (StartSuccess (mapPortForwardRuleItem updatedRule (runtime_of rt S1)))
                    (write_log (AuditStart (pr_id rule) AuditSuccess) S1))"

section \<open>Stopping\<close>

definition stopRule :: "jstring \<Rightarrow> pf_service \<Rightarrow> pf_service" where
  "stopRule ruleId S = suspend (AwaitStopRule ruleId) S"

definition stop_found :: "jstring \<Rightarrow> pf_rule \<Rightarrow> pf_service \<Rightarrow> pf_service" where
  "stop_found ruleId rule S =
     (case active_of ruleId S of
        None \<Rightarrow> suspend (AwaitStopped rule) S
      | Some i \<Rightarrow> disposeRuntimeState i (FinishStop rule) (deactivate ruleId S))"

definition stop_all :: "pf_service \<Rightarrow> pf_service" where
  "stop_all S =
     fold (\<lambda>e. disposeRuntimeState (snd e) FinishShutdown) (ps_activeRules S) (S\<lparr>ps_activeRules := []\<rparr>)"

section \<open>Events\<close>

text \<open>
  A suspended function goes on with the answer to its await.  \<open>findUnique\<close> and \<open>update\<close> answer with
  the row that has the id asked for; other answers do not occur.
\<close>

fun resume :: "pf_texts \<Rightarrow> nat \<Rightarrow> pf_stage \<Rightarrow> pf_answer \<Rightarrow> pf_service \<Rightarrow> pf_service option" where
  "resume X now (AwaitRule i) (GotRule None) S = Some (finish_start i StartNotFound S)"
| "resume X now (AwaitRule i) (GotRule (Some rule)) S =
     (if pr_id rule = si_ruleId i then Some (suspend (AwaitTrustedKeys i rule) S) else None)"
| "resume X now (AwaitRule i) (Threw e) S = Some (finish_start i StartThrew S)"
| "resume X now (AwaitTrustedKeys i rule) (GotKeys keys) S =
     Some (suspend (AwaitClient i rule)
       (write_log (OpenedClient (pr_id rule) (pr_strictHostKey rule) keys (si_connectTimeoutSec i)
           (si_systemProxyRules i)) S))"
| "resume X now (AwaitTrustedKeys i rule) (Threw e) S = Some (finish_start i StartThrew S)"
| "resume X now (AwaitClient i rule) (GotClient a) S = Some (client_opened X now i rule a S)"
| "resume X now (AwaitClient i rule) (Threw e) S = Some (finish_start i StartThrew S)"
| "resume X now (AwaitFailurePersisted i rule msg proxy) Done S =
     Some (finish_start i (StartFailed msg)
       (logStartFailure rule msg (write_log (FailurePersisted (pr_id rule) msg) S)))"
| "resume X now (AwaitFailurePersisted i rule msg proxy) (Threw e) S = Some (finish_start i StartThrew S)"
| "resume X now (AwaitForward i rule rt proxy) Done S =
     Some (suspend (AwaitStarted i rule rt proxy)
       (let S1 = on_runtime rt (bind_runtime rule) S
        in S1\<lparr>ps_activeRules := map_set (pr_id rule) rt (ps_activeRules S1)\<rparr>))"
| "resume X now (AwaitForward i rule rt proxy) (Threw e) S = Some (fail_forward X i rule rt proxy e S)"
| "resume X now (AwaitStarted i rule rt proxy) (GotRule (Some updatedRule)) S =
     (if pr_id updatedRule = pr_id rule
      then Some (start_persisted X i rule rt proxy updatedRule
             (write_log (StartPersisted (pr_id rule) (case runtime_of rt S of None \<Rightarrow> 0 | Some r \<Rightarrow> rt_startedAt r)) S))
      else None)"
| "resume X now (AwaitStarted i rule rt proxy) (Threw e) S =
     Some (disposeRuntimeState rt (RethrowUpdate i)
       (on_client rt releaseAfterClose (deactivate (pr_id rule) S)))"
| "resume X now (AwaitUnforward rt k) Done S = Some (dispose_streams rt k S)"
| "resume X now (AwaitUnforward rt k) (Threw e) S =
     Some (dispose_threw k (S\<lparr>ps_failed := ps_failed S @ [rt]\<rparr>))"
| "resume X now (AwaitServerClose rt k) Done S = Some (dispose_end rt k S)"
| "resume X now (AwaitClosePersisted ruleId msg caller) Done S =
     Some (close_returned msg caller (write_log (ClosePersisted ruleId msg now) S))"
| "resume X now (AwaitClosePersisted ruleId msg caller) (Threw e) S = Some (close_returned msg caller S)"
| "resume X now (AwaitStopRule ruleId) (GotRule None) S = Some (finish_stop ruleId StopNotFound S)"
| "resume X now (AwaitStopRule ruleId) (GotRule (Some rule)) S =
     (if pr_id rule = ruleId then Some (stop_found ruleId rule S) else None)"
| "resume X now (AwaitStopRule ruleId) (Threw e) S = Some (finish_stop ruleId StopThrew S)"
| "resume X now (AwaitStopped rule) (GotRule (Some updatedRule)) S =
     (if pr_id updatedRule = pr_id rule
      then Some (finish_stop (pr_id rule) (StopSuccess (mapPortForwardRuleItem updatedRule None))
             (write_log (AuditStop (pr_id rule)) (write_log (StopPersisted (pr_id rule) now) S)))
      else None)"
| "resume X now (AwaitStopped rule) (Threw e) S = Some (finish_stop (pr_id rule) StopThrew S)"
| "resume X now st a S = None"

datatype pf_input =
    StartRequested start_input
  | StopRequested jstring
  | ShutdownRequested
  | Answered nat pf_answer
  | ClientErrored nat jstring
  | ClientClosed nat
  | RuntimeEvent nat pf_event

definition rule_target :: "pf_rule \<Rightarrow> pf_target" where
  "rule_target rule = \<lparr>tg_kind = pr_type rule, tg_host = pr_targetHost rule, tg_port = pr_targetPort rule\<rparr>"

definition client_event :: "nat \<Rightarrow> jstring \<Rightarrow> (pf_client \<Rightarrow> pf_client) \<Rightarrow> pf_service \<Rightarrow> pf_service" where
  "client_event rt msg f S =
     (case (client_of rt S, runtime_of rt S) of
        (Some c, Some r) \<Rightarrow>
          let S1 = on_client rt f S
          in if cl_handled c then handleUnexpectedClose (rt_ruleId r) msg None S1 else S1
      | _ \<Rightarrow> S)"

fun service_step :: "pf_texts \<Rightarrow> nat \<times> pf_input \<Rightarrow> pf_service \<Rightarrow> pf_service" where
  "service_step X (now, StartRequested i) S = startRule i S"
| "service_step X (now, StopRequested ruleId) S = stopRule ruleId S"
| "service_step X (now, ShutdownRequested) S = stop_all S"
| "service_step X (now, Answered op a) S =
     (case map_of (ps_ops S) op of
        None \<Rightarrow> S
      | Some st \<Rightarrow>
          (case resume X now st a (S\<lparr>ps_ops := map_delete op (ps_ops S)\<rparr>) of None \<Rightarrow> S | Some S' \<Rightarrow> S'))"
| "service_step X (now, ClientErrored rt msg) S = client_event rt msg (monitor_error msg) S"
| "service_step X (now, ClientClosed rt) S =
     client_event rt (tx_sshConnectionClosed X) monitor_close S"
| "service_step X (now, RuntimeEvent rt e) S =
     (case map_of (ps_rules S) rt of
        None \<Rightarrow> S
      | Some rule \<Rightarrow> on_runtime rt (connection_step (rule_target rule) e) S)"

definition service_run :: "pf_texts \<Rightarrow> (nat \<times> pf_input) list \<Rightarrow> pf_service \<Rightarrow> pf_service" where
  "service_run X es S = fold (service_step X) es S"

end
