(* ===== verification/PortForwardProofs.thy ===== *)
theory PortForwardProofs
  imports PortForwardConnections
begin

text \<open>
  The invariant of a runtime: its sets and its connection count are those of the sockets that have
  not closed, and after the teardown every socket is destroyed.
\<close>

section \<open>Stores\<close>

lemma map_of_update_entry [simp]:
  "map_of (update_entry k f m) k' = (if k' = k then map_option f (map_of m k) else map_of m k')"
  by (induction k f m rule: update_entry.induct) auto

lemma keys_update_entry [simp]: "map fst (update_entry k f m) = map fst m"
  by (induction k f m rule: update_entry.induct) auto

lemma update_entry_same:
  "(\<And>v. map_of m k = Some v \<Longrightarrow> f v = v) \<Longrightarrow> update_entry k f m = m"
  by (induction k f m rule: update_entry.induct) (auto split: if_splits)

lemma update_entry_snoc:
  "k \<notin> fst ` set m \<Longrightarrow> update_entry k f (m @ [(k, v)]) = m @ [(k, f v)]"
  by (induction m) auto

lemma update_entry_map:
  "distinct (map fst m) \<Longrightarrow> update_entry k f m = map (\<lambda>(k', v). (k', if k' = k then f v else v)) m"
proof (induction m)
  case (Cons e m)
  then have "k \<notin> fst ` set m \<Longrightarrow> map (\<lambda>(k', v). (k', if k' = k then f v else v)) m = m"
    by (intro map_idI) (auto simp: image_iff)
  with Cons show ?case by (cases e) auto
qed simp

lemma filter_update_kept:
  assumes "\<And>v. map_of m k = Some v \<Longrightarrow> P (k, f v) = P (k, v)"
  shows "map fst (filter P (update_entry k f m)) = map fst (filter P m)"
  using assms by (induction k f m rule: update_entry.induct) (auto split: if_splits)

lemma filter_absent: "k \<notin> fst ` set m \<Longrightarrow> filter (\<lambda>y. y \<noteq> k) (map fst (filter P m)) = map fst (filter P m)"
  by (induction m) auto

lemma filter_update_dropped:
  assumes "distinct (map fst m)" and "map_of m k = Some v" and "\<not> P (k, f v)"
  shows "map fst (filter P (update_entry k f m)) = set_remove k (map fst (filter P m))"
  using assms unfolding set_remove_def
  by (induction k f m rule: update_entry.induct) (auto simp: filter_absent split: if_splits)

lemma set_remove_length:
  "distinct xs \<Longrightarrow> x \<in> set xs \<Longrightarrow> length (set_remove x xs) = length xs - 1"
proof (induction xs)
  case (Cons a xs)
  then show ?case
    by (cases "a = x")
      (auto simp: set_remove_def filter_id_conv intro!: arg_cong [where f = length] dest: length_pos_if_in_set)
qed simp

lemma set_add_new: "x \<notin> set xs \<Longrightarrow> set_add x xs = xs @ [x]"
  by (simp add: set_add_def)

lemma set_remove_absent: "x \<notin> set xs \<Longrightarrow> set_remove x xs = xs"
  by (auto simp: set_remove_def filter_id_conv)

section \<open>Frames\<close>

text \<open>
  What most handlers leave alone: the sets, the count and the life cycle of the runtime, and the
  role of its sockets; a socket that is destroyed stays destroyed.
\<close>

definition same_socket :: "nat \<times> pf_socket \<Rightarrow> nat \<times> pf_socket \<Rightarrow> bool" where
  "same_socket a b \<longleftrightarrow> fst a = fst b \<and> sk_role (snd a) = sk_role (snd b) \<and>
     sk_closed (snd a) = sk_closed (snd b) \<and> (sk_destroyed (snd a) \<longrightarrow> sk_destroyed (snd b))"

definition same_frame :: "pf_runtime \<Rightarrow> pf_runtime \<Rightarrow> bool" where
  "same_frame a b \<longleftrightarrow> list_all2 same_socket (rt_sockets a) (rt_sockets b) \<and>
     rt_localSockets a = rt_localSockets b \<and> rt_remoteSockets a = rt_remoteSockets b \<and>
     rt_activeConnectionCount a = rt_activeConnectionCount b \<and> rt_ruleId a = rt_ruleId b \<and>
     rt_localServer a = rt_localServer b \<and> rt_accepting a = rt_accepting b \<and>
     rt_tcpConnectionListener a = rt_tcpConnectionListener b \<and>
     rt_boundHost a = rt_boundHost b \<and> rt_boundPort a = rt_boundPort b \<and>
     rt_disposed a = rt_disposed b \<and> rt_ended a = rt_ended b"

named_theorems frame_intros \<open>operations that stay in the frame of the runtime\<close>

lemma same_frame_refl [simp]: "same_frame rt rt"
  by (simp add: same_frame_def list_all2_refl same_socket_def)

lemma same_frame_trans: "same_frame a b \<Longrightarrow> same_frame b c \<Longrightarrow> same_frame a c"
proof -
  have t: "same_socket x z" if "same_socket x y" and "same_socket y z" for x y z
    using that by (auto simp: same_socket_def)
  assume ab: "same_frame a b" and bc: "same_frame b c"
  have "list_all2 same_socket (rt_sockets a) (rt_sockets c)"
    using list_all2_trans [of same_socket same_socket same_socket] t ab bc
    unfolding same_frame_def by blast
  with ab bc show "same_frame a c" by (simp add: same_frame_def)
qed

lemma same_sockets_update:
  assumes "\<And>k. same_socket (s, k) (s, f k)"
  shows "list_all2 same_socket m (update_entry s f m)"
  using assms
  by (induction s f m rule: update_entry.induct) (auto simp: list_all2_refl same_socket_def)

lemma frame_on_socket:
  assumes "same_frame a b" and "\<And>k. same_socket (s, k) (s, f k)"
  shows "same_frame a (on_socket s f b)"
proof -
  have "same_frame b (on_socket s f b)"
    using same_sockets_update [OF assms(2)] by (simp add: same_frame_def on_socket_def)
  then show ?thesis using same_frame_trans assms(1) by blast
qed

lemma frame_socket_fields [frame_intros]:
  assumes "same_frame a b"
  shows "same_frame a (destroy_socket s b)" and "same_frame a (set_timeout n s b)"
    and "same_frame a (on_socket s (\<lambda>k. k\<lparr>sk_consumer := x\<rparr>) b)"
    and "same_frame a (on_socket s (\<lambda>k. k\<lparr>sk_consumer := x, sk_pending := p\<rparr>) b)"
    and "same_frame a (on_socket s (\<lambda>k. k\<lparr>sk_pending := sk_pending k @ p\<rparr>) b)"
    and "same_frame a (on_socket s (\<lambda>k. k\<lparr>sk_forwarding := f\<rparr>) b)"
    and "same_frame a (on_socket s (\<lambda>k. k\<lparr>sk_channel := c\<rparr>) b)"
    and "same_frame a (on_socket s (\<lambda>k. k\<lparr>sk_initialData := p\<rparr>) b)"
    and "same_frame a (on_socket s (\<lambda>k. k\<lparr>sk_buffer := p\<rparr>) b)"
    and "same_frame a (on_socket s (\<lambda>k. k\<lparr>sk_buffer := p, sk_stage := g\<rparr>) b)"
    and "same_frame a (on_socket s (\<lambda>k. k\<lparr>sk_stage := g, sk_consumer := x\<rparr>) b)"
  unfolding destroy_socket_def set_timeout_def
  by (rule frame_on_socket [OF assms], simp add: same_socket_def)+

lemma frame_others [frame_intros]:
  assumes "same_frame a b"
  shows "same_frame a (on_channel c g b)" and "same_frame a (destroy_channel c b)"
    and "same_frame a (emit_effect e b)" and "same_frame a (set_last_error msg b)"
    and "same_frame a (add_channel c k b)" and "same_frame a (b\<lparr>rt_channels := cs\<rparr>)"
    and "same_frame a (b\<lparr>rt_lastError := m\<rparr>)"
  using assms
  by (simp_all add: same_frame_def on_channel_def destroy_channel_def emit_effect_def
      set_last_error_def add_channel_def)

lemma frame_writes [frame_intros]:
  assumes "same_frame a b"
  shows "same_frame a (write_socket s bs b)" and "same_frame a (write_channel c bs b)"
  using assms by (auto simp: write_socket_def write_channel_def split: option.splits intro!: frame_intros)

lemma frame_pipes [frame_intros]:
  assumes "same_frame a b"
  shows "same_frame a (pipe_socket s c b)" and "same_frame a (pipe_channel c s b)"
  using assms by (auto simp: pipe_socket_def pipe_channel_def split: option.splits intro!: frame_intros)

lemma frame_write_all [frame_intros]: "same_frame a b \<Longrightarrow> same_frame a (write_all s bs b)"
  by (induction s bs b rule: write_all.induct) (auto intro!: frame_intros)

lemma frame_forwardOut [frame_intros]: "same_frame a b \<Longrightarrow> same_frame a (forwardOut s x y h p b)"
  by (auto simp: forwardOut_def intro!: frame_intros)

lemma frame_socks_request [frame_intros]: "same_frame a b \<Longrightarrow> same_frame a (socks_request s x y buf b)"
  by (auto simp: socks_request_def handleSocksConnect_def split: socks5_request.splits intro!: frame_intros)

lemma frame_onData [frame_intros]: "same_frame a b \<Longrightarrow> same_frame a (onData s x y chunk b)"
  by (auto simp: onData_def Let_def split: option.splits prod.splits intro!: frame_intros)

lemma frame_pipe_both [frame_intros]: "same_frame a b \<Longrightarrow> same_frame a (pipeSocketAndChannel s c b)"
  unfolding pipeSocketAndChannel_def by (intro frame_intros)

lemma frame_answered [frame_intros]: "same_frame a b \<Longrightarrow> same_frame a (forwardOut_answered s ans b)"
  unfolding forwardOut_answered_def Let_def
  by (auto split: option.split sum.split intro!: frame_intros)

lemma frame_data [frame_intros]:
  assumes "same_frame a b"
  shows "same_frame a (socket_data s x y chunk k b)" and "same_frame a (channel_data c chunk h b)"
  using assms by (auto simp: socket_data_def channel_data_def split: consumer.splits intro!: frame_intros)

lemma frame_errored [frame_intros]: "same_frame a b \<Longrightarrow> same_frame a (socket_errored s k msg b)"
  by (auto simp: socket_errored_def split: socket_role.splits intro!: frame_intros)

text \<open>Only an arriving or closing connection leaves the frame.\<close>

fun moves_connections :: "pf_event \<Rightarrow> bool" where
  "moves_connections (ConnectionArrived s a p) = True"
| "moves_connections (ChannelOffered c s ok) = True"
| "moves_connections (SocketClosed s) = True"
| "moves_connections e = False"

lemma frame_step: "\<not> moves_connections e \<Longrightarrow> same_frame rt (connection_step T e rt)"
  by (cases "(T, e, rt)" rule: connection_step.cases)
    (auto simp: Let_def split: option.splits socket_role.splits intro!: frame_intros)


section \<open>The invariant\<close>

definition local_open :: "nat \<times> pf_socket \<Rightarrow> bool" where
  "local_open e \<longleftrightarrow> sk_role (snd e) \<in> {LocalSocket, DynamicSocket} \<and> \<not> sk_closed (snd e)"

definition target_open :: "nat \<times> pf_socket \<Rightarrow> bool" where
  "target_open e \<longleftrightarrow> (\<exists>c. sk_role (snd e) = TargetSocket c) \<and> \<not> sk_closed (snd e)"

definition conn_ok :: "pf_runtime \<Rightarrow> bool" where
  "conn_ok rt \<longleftrightarrow>
     distinct (map fst (rt_sockets rt)) \<and>
     (\<forall>(s, k) \<in> set (rt_sockets rt).
        sk_closed k \<or> sk_role k = UntrackedSocket \<or> rt_disposed rt \<longrightarrow> sk_destroyed k) \<and>
     rt_activeConnectionCount rt \<le> MAX_ACTIVE_CONNECTIONS_PER_RULE \<and>
     (rt_ended rt \<longrightarrow> rt_disposed rt) \<and>
     (if rt_disposed rt
      then \<not> rt_accepting rt \<and> \<not> rt_tcpConnectionListener rt
      else rt_localSockets rt = map fst (filter local_open (rt_sockets rt)) \<and>
           rt_remoteSockets rt = map fst (filter target_open (rt_sockets rt)) \<and>
           rt_activeConnectionCount rt = length (rt_localSockets rt) + length (rt_remoteSockets rt))"

lemma conn_ok_new [simp]: "conn_ok (new_runtime r now)"
  by (simp add: conn_ok_def new_runtime_def)

lemma same_sockets_facts:
  assumes "list_all2 same_socket xs ys"
  shows "map fst xs = map fst ys"
    and "map fst (filter local_open xs) = map fst (filter local_open ys)"
    and "map fst (filter target_open xs) = map fst (filter target_open ys)"
    and "(\<forall>(s, k) \<in> set xs. sk_closed k \<or> sk_role k = UntrackedSocket \<or> d \<longrightarrow> sk_destroyed k) \<Longrightarrow>
         (\<forall>(s, k) \<in> set ys. sk_closed k \<or> sk_role k = UntrackedSocket \<or> d \<longrightarrow> sk_destroyed k)"
  using assms
  by (induction rule: list_all2_induct) (auto simp: same_socket_def local_open_def target_open_def)

lemma conn_ok_frame:
  assumes "conn_ok a" and "same_frame a b"
  shows "conn_ok b"
proof -
  have l: "list_all2 same_socket (rt_sockets a) (rt_sockets b)" using assms(2) by (simp add: same_frame_def)
  show ?thesis
    using assms same_sockets_facts(1,2,3) [OF l] same_sockets_facts(4) [OF l, of "rt_disposed a"]
    by (auto simp: conn_ok_def same_frame_def)
qed

lemma conn_ok_step_frame: "conn_ok rt \<Longrightarrow> \<not> moves_connections e \<Longrightarrow> conn_ok (connection_step T e rt)"
  using conn_ok_frame frame_step by blast

text \<open>A new connection.\<close>
lemma conn_ok_reject:
  assumes "conn_ok rt" and "socket_of s rt = None" and "\<not> rt_disposed rt"
  shows "conn_ok (destroy_socket s (add_socket s (new_socket UntrackedSocket) rt))"
proof -
  have fresh: "s \<notin> fst ` set (rt_sockets rt)" using assms(2) by (simp add: map_of_eq_None_iff)
  have "destroy_socket s (add_socket s (new_socket UntrackedSocket) rt) =
      rt\<lparr>rt_sockets := rt_sockets rt @ [(s, (new_socket UntrackedSocket)\<lparr>sk_destroyed := True\<rparr>)]\<rparr>"
    using update_entry_snoc [OF fresh] by (simp add: destroy_socket_def on_socket_def add_socket_def)
  then show ?thesis
    using assms fresh by (auto simp: conn_ok_def local_open_def target_open_def new_socket_def)
qed

lemma conn_ok_track:
  assumes ok: "conn_ok rt" and fresh: "socket_of s rt = None" and live: "\<not> rt_disposed rt"
    and room: "rt_activeConnectionCount rt < MAX_ACTIVE_CONNECTIONS_PER_RULE"
    and role: "r = LocalSocket \<or> r = DynamicSocket"
  shows "conn_ok (trackLocalSocket s (add_socket s (new_socket r) rt))"
proof -
  have "s \<notin> fst ` set (rt_sockets rt)" using fresh by (simp add: map_of_eq_None_iff)
  moreover from this have "s \<notin> set (rt_localSockets rt)" using ok live by (auto simp: conn_ok_def)
  ultimately show ?thesis
    using ok live room role
    by (auto simp: conn_ok_def trackLocalSocket_def add_socket_def set_add_def local_open_def
        target_open_def new_socket_def)
qed

lemma conn_ok_target:
  assumes ok: "conn_ok rt" and fresh: "socket_of s rt = None" and live: "\<not> rt_disposed rt"
    and room: "rt_activeConnectionCount rt < MAX_ACTIVE_CONNECTIONS_PER_RULE"
  shows "conn_ok (pipeRemoteForwardConnection h p c s rt)"
proof (cases "truthy_text h \<and> truthy_num p")
  case True
  let ?r = "rt\<lparr>rt_channels := set_add c (rt_channels rt),
      rt_activeConnectionCount := rt_activeConnectionCount rt + 1,
      rt_channelStore := update_entry c (\<lambda>k. k\<lparr>ch_socket := Some s\<rparr>) (rt_channelStore rt),
      rt_sockets := rt_sockets rt @ [(s, new_socket (TargetSocket c))],
      rt_remoteSockets := set_add s (rt_remoteSockets rt)\<rparr>"
  have "s \<notin> fst ` set (rt_sockets rt)" using fresh by (simp add: map_of_eq_None_iff)
  moreover from this have "s \<notin> set (rt_remoteSockets rt)" using ok live by (auto simp: conn_ok_def)
  ultimately have "conn_ok ?r"
    using ok live room
    by (auto simp: conn_ok_def set_add_def local_open_def target_open_def new_socket_def)
  moreover have "same_frame ?r (pipeRemoteForwardConnection h p c s rt)"
    using True unfolding pipeRemoteForwardConnection_def Let_def add_socket_def on_channel_def
    by (auto intro!: frame_intros)
  ultimately show ?thesis by (rule conn_ok_frame)
next
  case False
  have "same_frame rt (destroy_channel c rt)" by (intro frame_intros same_frame_refl)
  with ok have "conn_ok (destroy_channel c rt)" by (rule conn_ok_frame)
  then show ?thesis using False by (simp add: pipeRemoteForwardConnection_def)
qed

text \<open>A connection that closes.\<close>
lemma conn_ok_closed:
  assumes ok: "conn_ok rt" and k: "socket_of s rt = Some k" and open_: "\<not> sk_closed k"
  shows "conn_ok (socket_closed s k (on_socket s (\<lambda>k. k\<lparr>sk_closed := True, sk_destroyed := True\<rparr>) rt))"
proof -
  let ?f = "\<lambda>k. k\<lparr>sk_closed := True, sk_destroyed := True\<rparr>"
  let ?xs = "update_entry s ?f (rt_sockets rt)"
  have d: "distinct (map fst (rt_sockets rt))" using ok by (simp add: conn_ok_def)
  have mem: "(s, k) \<in> set (rt_sockets rt)" using k by (rule map_of_SomeD)
  have all: "\<forall>(s', k') \<in> set ?xs. sk_closed k' \<or> sk_role k' = UntrackedSocket \<or> rt_disposed rt \<longrightarrow> sk_destroyed k'"
  proof -
    have "sk_closed k' \<or> sk_role k' = UntrackedSocket \<or> rt_disposed rt \<longrightarrow> sk_destroyed k'"
      if "(s', k') \<in> set (rt_sockets rt)" for s' k'
      using ok that unfolding conn_ok_def by blast
    then show ?thesis unfolding update_entry_map [OF d] by auto
  qed
  have drop_l: "map fst (filter local_open ?xs) = set_remove s (map fst (filter local_open (rt_sockets rt)))"
    by (rule filter_update_dropped [OF d k]) (simp add: local_open_def)
  have drop_t: "map fst (filter target_open ?xs) = set_remove s (map fst (filter target_open (rt_sockets rt)))"
    by (rule filter_update_dropped [OF d k]) (simp add: target_open_def)
  have uniq: "(s, k') \<in> set (rt_sockets rt) \<Longrightarrow> k' = k" for k'
    using map_of_is_SomeI [OF d] k by fastforce
  have notin_l: "set_remove s (map fst (filter local_open (rt_sockets rt))) = map fst (filter local_open (rt_sockets rt))"
    if "\<not> local_open (s, k)" using that uniq by (intro set_remove_absent) auto
  have notin_t: "set_remove s (map fst (filter target_open (rt_sockets rt))) = map fst (filter target_open (rt_sockets rt))"
    if "\<not> target_open (s, k)" using that uniq by (intro set_remove_absent) auto
  have dl: "distinct (map fst (filter P (rt_sockets rt)))" for P
    using d by (rule distinct_map_filter)
  have len: "length (set_remove s (map fst (filter P (rt_sockets rt)))) = length (filter P (rt_sockets rt)) - 1"
    and pos: "0 < length (filter P (rt_sockets rt))" if "P (s, k)" for P
  proof -
    have "s \<in> set (map fst (filter P (rt_sockets rt)))" using that mem by force
    from set_remove_length [OF dl this] length_pos_if_in_set [OF this]
    show "length (set_remove s (map fst (filter P (rt_sockets rt)))) = length (filter P (rt_sockets rt)) - 1"
      and "0 < length (filter P (rt_sockets rt))" by simp_all
  qed
  have count: "rt_activeConnectionCount rt - 1 = length (set_remove s (map fst (filter P (rt_sockets rt)))) + n"
    if "P (s, k)" and "rt_activeConnectionCount rt = length (filter P (rt_sockets rt)) + n" for P n
    using len [of P, OF that(1)] pos [of P, OF that(1)] that(2) by linarith
  let ?u = "rt\<lparr>rt_sockets := ?xs\<rparr>"
  have base: "conn_ok (socket_closed s k ?u)"
  proof (cases "sk_role k")
    case UntrackedSocket
    then have "\<not> local_open (s, k)" "\<not> target_open (s, k)" by (simp_all add: local_open_def target_open_def)
    then show ?thesis
      using ok all d UntrackedSocket notin_l notin_t drop_l drop_t
      by (simp add: conn_ok_def socket_closed_def)
  next
    case (TargetSocket c)
    then have t: "target_open (s, k)" and l: "\<not> local_open (s, k)"
      using open_ by (simp_all add: local_open_def target_open_def)
    show ?thesis
      using ok all d TargetSocket notin_l [OF l] drop_l drop_t count [of target_open, OF t]
      by (auto simp: conn_ok_def socket_closed_def)
  next
    case LocalSocket
    then have t: "\<not> target_open (s, k)" and l: "local_open (s, k)"
      using open_ by (simp_all add: local_open_def target_open_def)
    have "conn_ok (untrackLocalSocket s ?u)"
      using ok all d notin_t [OF t] drop_l drop_t count [of local_open, OF l]
      by (auto simp: conn_ok_def untrackLocalSocket_def)
    then show ?thesis
      using LocalSocket conn_ok_frame [OF _ frame_others(2) [OF same_frame_refl]]
      by (auto simp: socket_closed_def split: option.splits)
  next
    case DynamicSocket
    then have t: "\<not> target_open (s, k)" and l: "local_open (s, k)"
      using open_ by (simp_all add: local_open_def target_open_def)
    have "conn_ok (untrackLocalSocket s ?u)"
      using ok all d notin_t [OF t] drop_l drop_t count [of local_open, OF l]
      by (auto simp: conn_ok_def untrackLocalSocket_def)
    then show ?thesis
      using DynamicSocket conn_ok_frame [OF _ frame_others(2) [OF same_frame_refl]]
      by (auto simp: socket_closed_def split: option.splits)
  qed
  then show ?thesis by (simp add: on_socket_def)
qed

lemma conn_ok_step:
  assumes ok: "conn_ok rt"
  shows "conn_ok (connection_step T e rt)"
proof (cases "moves_connections e")
  case False
  with ok show ?thesis by (rule conn_ok_step_frame)
next
  case True
  then show ?thesis
  proof (cases e)
    case (ConnectionArrived s addr port)
    show ?thesis
    proof (cases "rt_accepting rt \<and> socket_of s rt = None")
      case True
      then have live: "\<not> rt_disposed rt" and fresh: "socket_of s rt = None" using ok by (auto simp: conn_ok_def)
      have rej: "conn_ok (destroy_socket s (add_socket s (new_socket UntrackedSocket) rt))"
        by (rule conn_ok_reject [OF ok fresh live])
      have loc: "conn_ok (handleLocalTcpConnection h p s addr port rt)" for h p
      proof (cases "rt_activeConnectionCount rt \<ge> MAX_ACTIVE_CONNECTIONS_PER_RULE")
        case False
        then have "conn_ok (trackLocalSocket s (add_socket s (new_socket LocalSocket) rt))"
          using conn_ok_track [OF ok fresh live] by simp
        moreover have "same_frame (trackLocalSocket s (add_socket s (new_socket LocalSocket) rt))
            (handleLocalTcpConnection h p s addr port rt)"
          using False unfolding handleLocalTcpConnection_def by (auto intro!: frame_intros)
        ultimately show ?thesis by (rule conn_ok_frame)
      qed (simp add: handleLocalTcpConnection_def rej)
      have dyn: "conn_ok (handleDynamicTcpConnection s rt)"
      proof (cases "rt_activeConnectionCount rt \<ge> MAX_ACTIVE_CONNECTIONS_PER_RULE")
        case False
        then have "conn_ok (trackLocalSocket s (add_socket s (new_socket DynamicSocket) rt))"
          using conn_ok_track [OF ok fresh live] by simp
        moreover have "same_frame (trackLocalSocket s (add_socket s (new_socket DynamicSocket) rt))
            (handleDynamicTcpConnection s rt)"
          using False unfolding handleDynamicTcpConnection_def by (auto intro!: frame_intros)
        ultimately show ?thesis by (rule conn_ok_frame)
      qed (simp add: handleDynamicTcpConnection_def rej)
      show ?thesis using ok loc dyn ConnectionArrived by (simp split: rule_kind.split)
    qed (use ok ConnectionArrived in auto)
  next
    case (ChannelOffered c s acceptable)
    show ?thesis
    proof (cases "rt_tcpConnectionListener rt \<and> socket_of s rt = None \<and> channel_of c rt = None")
      case True
      then have live: "\<not> rt_disposed rt" and fresh: "socket_of s rt = None" using ok by (auto simp: conn_ok_def)
      have "conn_ok (tcpConnectionListener h p c s acceptable rt)" for h p
      proof (cases "rt_activeConnectionCount rt \<ge> MAX_ACTIVE_CONNECTIONS_PER_RULE \<or> \<not> acceptable")
        case True
        then show ?thesis
          using conn_ok_frame [OF ok frame_others(3) [OF same_frame_refl]] by (simp add: tcpConnectionListener_def)
      next
        case False
        have "conn_ok (add_channel c (new_channel None True) rt)"
          by (rule conn_ok_frame [OF ok frame_others(5) [OF same_frame_refl]])
        then show ?thesis
          using False live fresh conn_ok_target [of "add_channel c (new_channel None True) rt" s h p c]
          by (simp add: tcpConnectionListener_def add_channel_def not_le)
      qed
      then show ?thesis using True ChannelOffered by simp
    qed (use ok ChannelOffered in auto)
  next
    case (SocketClosed s)
    then show ?thesis using ok conn_ok_closed by (auto split: option.split)
  qed simp_all
qed

text \<open>The teardown destroys every socket.\<close>
lemma fold_destroy_socket:
  "rt_sockets (fold destroy_socket ss rt) =
     map (\<lambda>(s, k). (s, if s \<in> set ss then k\<lparr>sk_destroyed := True\<rparr> else k)) (rt_sockets rt)"
  if "distinct (map fst (rt_sockets rt))"
  using that
proof (induction ss arbitrary: rt)
  case (Cons a ss)
  have "distinct (map fst (rt_sockets (destroy_socket a rt)))"
    using Cons.prems by (simp add: destroy_socket_def on_socket_def)
  from Cons.IH [OF this] show ?case
    using Cons.prems by (auto simp: destroy_socket_def on_socket_def update_entry_map split: prod.splits)
qed simp


lemma fold_destroy_frame: "same_frame a b \<Longrightarrow> same_frame a (fold destroy_socket ss b)"
  by (induction ss arbitrary: b) (simp_all add: frame_intros)

lemma fold_destroy_channel_frame: "same_frame a b \<Longrightarrow> same_frame a (fold destroy_channel cs b)"
  by (induction cs arbitrary: b) (simp_all add: frame_intros)

lemma fold_destroy_channel_sockets [simp]: "rt_sockets (fold destroy_channel cs b) = rt_sockets b"
  by (induction cs arbitrary: b) (simp_all add: destroy_channel_def on_channel_def)

lemma fold_destroy_sets [simp]:
  "rt_localSockets (fold destroy_socket ss rt) = rt_localSockets rt"
  "rt_remoteSockets (fold destroy_socket ss rt) = rt_remoteSockets rt"
  "rt_channels (fold destroy_socket ss rt) = rt_channels rt"
  "rt_tcpConnectionListener (fold destroy_socket ss rt) = rt_tcpConnectionListener rt"
  "rt_activeConnectionCount (fold destroy_socket ss rt) = rt_activeConnectionCount rt"
  "rt_channelStore (fold destroy_socket ss rt) = rt_channelStore rt"
  "rt_effects (fold destroy_socket ss rt) = rt_effects rt"
  by (induction ss arbitrary: rt) (simp_all add: destroy_socket_def on_socket_def)

lemma fold_destroy_channel_sets [simp]:
  "rt_localSockets (fold destroy_channel cs rt) = rt_localSockets rt"
  "rt_remoteSockets (fold destroy_channel cs rt) = rt_remoteSockets rt"
  "rt_tcpConnectionListener (fold destroy_channel cs rt) = rt_tcpConnectionListener rt"
  "rt_activeConnectionCount (fold destroy_channel cs rt) = rt_activeConnectionCount rt"
  by (induction cs arbitrary: rt) (simp_all add: destroy_channel_def on_channel_def)

lemma teardown_sockets:
  assumes "distinct (map fst (rt_sockets rt))"
  shows "rt_sockets (teardown rt) =
    map (\<lambda>(s, k). (s, if s \<in> set (rt_localSockets rt) \<union> set (rt_remoteSockets rt)
                        then k\<lparr>sk_destroyed := True\<rparr> else k)) (rt_sockets rt)"
proof -
  let ?a = "(fold destroy_socket (rt_localSockets rt) rt)\<lparr>rt_localSockets := []\<rparr>"
  have s1: "rt_sockets ?a = map (\<lambda>(s, k). (s, if s \<in> set (rt_localSockets rt) then k\<lparr>sk_destroyed := True\<rparr> else k)) (rt_sockets rt)"
    using fold_destroy_socket [OF assms] by simp
  then have d: "distinct (map fst (rt_sockets ?a))" using assms by (auto simp: case_prod_beta comp_def)
  have "rt_sockets (teardown rt) = rt_sockets (fold destroy_socket (rt_remoteSockets rt) ?a)"
    by (simp add: teardown_def destroy_all_def Let_def)
  also have "\<dots> = map (\<lambda>(s, k). (s, if s \<in> set (rt_localSockets rt) \<union> set (rt_remoteSockets rt)
      then k\<lparr>sk_destroyed := True\<rparr> else k)) (rt_sockets rt)"
    unfolding fold_destroy_socket [OF d] s1 by (auto simp: comp_def case_prod_beta)
  finally show ?thesis .
qed

lemma conn_ok_teardown:
  assumes ok: "conn_ok rt" and off: "\<not> rt_tcpConnectionListener rt"
  shows "conn_ok (teardown rt)"
proof -
  have d: "distinct (map fst (rt_sockets rt))" using ok by (simp add: conn_ok_def)
  have all: "sk_destroyed k \<or> s \<in> set (rt_localSockets rt) \<union> set (rt_remoteSockets rt)"
    if "(s, k) \<in> set (rt_sockets rt)" for s k
  proof (cases "rt_disposed rt \<or> sk_closed k \<or> sk_role k = UntrackedSocket")
    case True
    then show ?thesis using ok that by (auto simp: conn_ok_def)
  next
    case False
    then have "local_open (s, k) \<or> target_open (s, k)"
      by (cases "sk_role k") (auto simp: local_open_def target_open_def)
    then show ?thesis using False ok that unfolding conn_ok_def by force
  qed
  have keys: "map fst (rt_sockets (teardown rt)) = map fst (rt_sockets rt)"
    using teardown_sockets [OF d] by (auto simp: case_prod_beta comp_def)
  have "\<forall>(s, k) \<in> set (rt_sockets (teardown rt)). sk_destroyed k"
    unfolding teardown_sockets [OF d] by (auto dest!: all)
  moreover have "rt_activeConnectionCount (teardown rt) = rt_activeConnectionCount rt"
    "rt_disposed (teardown rt)" "\<not> rt_accepting (teardown rt)"
    "rt_tcpConnectionListener (teardown rt) = rt_tcpConnectionListener rt"
    by (simp_all add: teardown_def destroy_all_def Let_def)
  ultimately show ?thesis using ok off d keys by (auto simp: conn_ok_def)
qed

end
