(* ===== verification/PortForwardServiceProofs.thy ===== *)
theory PortForwardServiceProofs
  imports PortForwardService PortForwardProofs
begin

text \<open>
  The invariant of the port-forward service: which runtimes are active, which are held by a function
  that is suspended, and which starts are in flight.  A function that runs is accounted for by the
  stage it was resumed from, so that the invariant also speaks of the states between two awaits.
\<close>

section \<open>The life of a runtime\<close>

definition same_life :: "pf_runtime \<Rightarrow> pf_runtime \<Rightarrow> bool" where
  "same_life a b \<longleftrightarrow> rt_ruleId a = rt_ruleId b \<and> rt_disposed a = rt_disposed b \<and> rt_ended a = rt_ended b \<and>
     rt_tcpConnectionListener a = rt_tcpConnectionListener b"

lemma same_frame_life: "same_frame a b \<Longrightarrow> same_life a b"
  by (simp add: same_frame_def same_life_def)

lemma same_life_trans: "same_life a b \<Longrightarrow> same_life b c \<Longrightarrow> same_life a c"
  by (simp add: same_life_def)

lemma same_life_tracked:
  "same_life rt (trackLocalSocket s rt)" "same_life rt (add_socket s k rt)" "same_life rt (untrackLocalSocket s rt)"
  by (simp_all add: same_life_def trackLocalSocket_def add_socket_def untrackLocalSocket_def)

lemma same_life_local: "same_life rt (handleLocalTcpConnection h p s x y rt)"
proof -
  have "same_frame a (forwardOut s x y h p (set_timeout n s a))" "same_frame a (destroy_socket s a)" for a n
    by (intro frame_intros same_frame_refl)+
  then show ?thesis
    unfolding handleLocalTcpConnection_def
    by (auto intro: same_life_trans [OF same_life_trans [OF same_life_tracked(2) same_life_tracked(1)] same_frame_life]
        same_life_trans [OF same_life_tracked(2) same_frame_life])
qed

lemma same_life_listen: "same_life rt (handleDynamicTcpConnection s rt)"
proof -
  have "same_frame a (on_socket s (\<lambda>k. k\<lparr>sk_consumer := DataListener\<rparr>) (set_timeout n s a))"
    "same_frame a (destroy_socket s a)" for a n
    by (intro frame_intros same_frame_refl)+
  then show ?thesis
    unfolding handleDynamicTcpConnection_def
    by (auto intro: same_life_trans [OF same_life_trans [OF same_life_tracked(2) same_life_tracked(1)] same_frame_life]
        same_life_trans [OF same_life_tracked(2) same_frame_life])
qed

lemma same_life_offer: "same_life rt (tcpConnectionListener h p c s a rt)"
  by (simp add: tcpConnectionListener_def pipeRemoteForwardConnection_def Let_def same_life_def
      emit_effect_def destroy_channel_def on_channel_def add_channel_def add_socket_def set_timeout_def on_socket_def)

lemma same_life_closed: "same_life rt (socket_closed s k rt)"
  by (simp add: socket_closed_def same_life_def destroy_channel_def on_channel_def untrackLocalSocket_def
      split: socket_role.split option.split)

lemma same_life_step: "same_life rt (connection_step T e rt)"
proof (cases "moves_connections e")
  case False
  then show ?thesis using same_frame_life frame_step by blast
next
  case True
  have refl: "same_life rt rt" by (simp add: same_life_def)
  from True show ?thesis
  proof (cases e)
    case (SocketClosed s)
    have "same_life rt (on_socket s f rt)" for f by (simp add: same_life_def on_socket_def)
    then show ?thesis
      using SocketClosed refl same_life_trans [OF _ same_life_closed] by (auto split: option.split)
  qed (auto simp: refl same_life_local same_life_listen same_life_offer split: rule_kind.split)
qed

lemma teardown_life [simp]:
  "rt_ruleId (teardown rt) = rt_ruleId rt" "rt_disposed (teardown rt)" "rt_ended (teardown rt) = rt_ended rt"
  "rt_localServer (teardown rt) = rt_localServer rt"
proof -
  have a: "rt_ruleId (fold destroy_socket ss r) = rt_ruleId r" "rt_ended (fold destroy_socket ss r) = rt_ended r"
    "rt_localServer (fold destroy_socket ss r) = rt_localServer r" for ss r
    by (induction ss arbitrary: r) (simp_all add: destroy_socket_def on_socket_def)
  have b: "rt_ruleId (fold destroy_channel ss r) = rt_ruleId r" "rt_ended (fold destroy_channel ss r) = rt_ended r"
    "rt_localServer (fold destroy_channel ss r) = rt_localServer r" for ss r
    by (induction ss arbitrary: r) (simp_all add: destroy_channel_def on_channel_def)
  show "rt_ruleId (teardown rt) = rt_ruleId rt" "rt_disposed (teardown rt)" "rt_ended (teardown rt) = rt_ended rt"
    "rt_localServer (teardown rt) = rt_localServer rt"
    by (simp_all add: teardown_def destroy_all_def Let_def a b)
qed

section \<open>The invariant\<close>

fun start_after :: "after_dispose \<Rightarrow> jstring option" where
  "start_after (FailStart i rule msg proxy) = Some (si_ruleId i)"
| "start_after (RethrowUpdate i) = Some (si_ruleId i)"
| "start_after (FinishClose ruleId msg (Some (i, rule, proxy))) = Some (si_ruleId i)"
| "start_after k = None"

fun start_of :: "pf_stage \<Rightarrow> jstring option" where
  "start_of (AwaitRule i) = Some (si_ruleId i)"
| "start_of (AwaitTrustedKeys i rule) = Some (si_ruleId i)"
| "start_of (AwaitClient i rule) = Some (si_ruleId i)"
| "start_of (AwaitFailurePersisted i rule msg proxy) = Some (si_ruleId i)"
| "start_of (AwaitForward i rule rt proxy) = Some (si_ruleId i)"
| "start_of (AwaitStarted i rule rt proxy) = Some (si_ruleId i)"
| "start_of (AwaitUnforward rt k) = start_after k"
| "start_of (AwaitServerClose rt k) = start_after k"
| "start_of (AwaitClosePersisted ruleId msg (Some (i, rule, proxy))) = Some (si_ruleId i)"
| "start_of st = None"

fun holds :: "pf_stage \<Rightarrow> nat \<Rightarrow> bool" where
  "holds (AwaitForward i rule rt proxy) j = (rt = j)"
| "holds (AwaitUnforward rt k) j = (rt = j)"
| "holds (AwaitServerClose rt k) j = (rt = j)"
| "holds st j = False"

fun forwards :: "pf_stage \<Rightarrow> nat \<Rightarrow> bool" where
  "forwards (AwaitForward i rule rt proxy) j = (rt = j)"
| "forwards st j = False"

definition starts :: "jstring \<Rightarrow> pf_stage list \<Rightarrow> nat" where
  "starts r xs = length (filter (\<lambda>st. start_of st = Some r) xs)"

definition holders :: "nat \<Rightarrow> pf_stage list \<Rightarrow> nat" where
  "holders i xs = length (filter (\<lambda>st. holds st i) xs)"

lemma counts_simps [simp]:
  "starts r [] = 0" "starts r (st # xs) = (if start_of st = Some r then 1 else 0) + starts r xs"
  "starts r (xs @ ys) = starts r xs + starts r ys"
  "holders i [] = 0" "holders i (st # xs) = (if holds st i then 1 else 0) + holders i xs"
  "holders i (xs @ ys) = holders i xs + holders i ys"
  by (simp_all add: starts_def holders_def)

abbreviation active_ids :: "pf_service \<Rightarrow> nat set" where
  "active_ids S \<equiv> snd ` set (ps_activeRules S)"

fun stage_ok :: "pf_service \<Rightarrow> pf_stage \<Rightarrow> bool" where
  "stage_ok S (AwaitRule i) = (active_of (si_ruleId i) S = None)"
| "stage_ok S (AwaitTrustedKeys i rule) = (active_of (si_ruleId i) S = None \<and> pr_id rule = si_ruleId i)"
| "stage_ok S (AwaitClient i rule) = (active_of (si_ruleId i) S = None \<and> pr_id rule = si_ruleId i)"
| "stage_ok S (AwaitForward i rule rt proxy) =
     (active_of (si_ruleId i) S = None \<and> pr_id rule = si_ruleId i \<and> rt \<notin> active_ids S \<and>
      (\<exists>r. runtime_of rt S = Some r \<and> rt_ruleId r = si_ruleId i \<and> \<not> rt_disposed r \<and> \<not> rt_ended r))"
| "stage_ok S (AwaitStarted i rule rt proxy) =
     ((active_of (si_ruleId i) S = None \<or> active_of (si_ruleId i) S = Some rt) \<and> pr_id rule = si_ruleId i \<and>
      (\<exists>r. runtime_of rt S = Some r \<and> rt_ruleId r = si_ruleId i))"
| "stage_ok S (AwaitUnforward rt k) = (rt \<notin> active_ids S \<and> (\<exists>r. runtime_of rt S = Some r \<and> \<not> rt_tcpConnectionListener r))"
| "stage_ok S (AwaitServerClose rt k) = (rt \<notin> active_ids S \<and> (\<exists>r. runtime_of rt S = Some r \<and> rt_disposed r))"
| "stage_ok S st = True"

definition keys_ok :: "pf_service \<Rightarrow> bool" where
  "keys_ok S \<longleftrightarrow> distinct (map fst (ps_ops S)) \<and> (\<forall>e\<in>set (ps_ops S). fst e < ps_next S) \<and>
     distinct (map fst (ps_runtimes S)) \<and> (\<forall>e\<in>set (ps_runtimes S). fst e < ps_next S) \<and>
     map fst (ps_clients S) = map fst (ps_runtimes S) \<and> map fst (ps_rules S) = map fst (ps_runtimes S) \<and>
     distinct (map fst (ps_activeRules S))"

definition accounted :: "nat set \<Rightarrow> pf_stage list \<Rightarrow> pf_service \<Rightarrow> bool" where
  "accounted E sts S \<longleftrightarrow>
     (\<forall>i r. runtime_of i S = Some r \<longrightarrow>
        i \<in> E \<or> i \<in> active_ids S \<or> rt_ended r \<or> i \<in> set (ps_failed S) \<or> 0 < holders i sts)"

definition active_ok :: "pf_stage list \<Rightarrow> pf_service \<Rightarrow> bool" where
  "active_ok sts S \<longleftrightarrow>
     (\<forall>(r, i) \<in> set (ps_activeRules S). holders i sts = 0 \<and>
        (\<exists>rt. runtime_of i S = Some rt \<and> rt_ruleId rt = r \<and> \<not> rt_disposed rt \<and> \<not> rt_ended rt))"

definition starts_ok :: "pf_stage list \<Rightarrow> pf_service \<Rightarrow> bool" where
  "starts_ok sts S \<longleftrightarrow> distinct (ps_startingRuleIds S) \<and>
     (\<forall>r. starts r sts = (if r \<in> set (ps_startingRuleIds S) then 1 else 0))"

definition conns_ok :: "pf_service \<Rightarrow> bool" where
  "conns_ok S \<longleftrightarrow> (\<forall>i r. runtime_of i S = Some r \<longrightarrow> conn_ok r)"

definition stages :: "pf_stage list \<Rightarrow> pf_service \<Rightarrow> pf_stage list" where
  "stages running S = map snd (ps_ops S) @ running"

text \<open>\<open>E\<close> are runtimes that are between two owners.\<close>

definition service_inv_but :: "nat set \<Rightarrow> pf_stage list \<Rightarrow> pf_service \<Rightarrow> bool" where
  "service_inv_but E running S \<longleftrightarrow>
     keys_ok S \<and> accounted E (stages running S) S \<and> active_ok (stages running S) S \<and>
     starts_ok (stages running S) S \<and> conns_ok S \<and>
     (\<forall>st \<in> set (stages running S). stage_ok S st) \<and>
     (\<forall>st \<in> set (stages running S). \<forall>i. forwards st i \<longrightarrow> holders i (stages running S) = 1)"

abbreviation service_inv :: "pf_stage list \<Rightarrow> pf_service \<Rightarrow> bool" where
  "service_inv \<equiv> service_inv_but {}"

abbreviation service_ok :: "pf_service \<Rightarrow> bool" where
  "service_ok S \<equiv> service_inv [] S"

lemma service_ok_new: "service_ok new_service"
  by (simp add: service_inv_but_def stages_def keys_ok_def accounted_def active_ok_def starts_ok_def
      conns_ok_def new_service_def)

lemma forwards_holds: "forwards st i \<Longrightarrow> holds st i"
  by (cases st) simp_all

section \<open>Running and suspended functions\<close>

lemma stage_ok_cong:
  assumes "ps_activeRules S' = ps_activeRules S" and "ps_runtimes S' = ps_runtimes S"
  shows "stage_ok S' st = stage_ok S st"
  by (cases st) (simp_all add: assms)

lemma inv_suspend:
  assumes inv: "service_inv (st # R) S"
  shows "service_inv R (suspend st S)"
proof -
  have st: "stage_ok (suspend st S) st' = stage_ok S st'" for st'
    by (rule stage_ok_cong) (simp_all add: suspend_def)
  have "starts r (stages R (suspend st S)) = starts r (stages (st # R) S)"
    "holders i (stages R (suspend st S)) = holders i (stages (st # R) S)" for r i
    by (simp_all add: stages_def suspend_def)
  moreover have "set (stages R (suspend st S)) = set (stages (st # R) S)"
    by (auto simp: stages_def suspend_def)
  moreover have "keys_ok (suspend st S)"
    using inv by (auto simp: service_inv_but_def keys_ok_def suspend_def less_Suc_eq)
  moreover have "ps_runtimes (suspend st S) = ps_runtimes S" "ps_activeRules (suspend st S) = ps_activeRules S"
    "ps_startingRuleIds (suspend st S) = ps_startingRuleIds S" "ps_failed (suspend st S) = ps_failed S"
    by (simp_all add: suspend_def)
  ultimately show ?thesis
    using inv by (simp add: service_inv_but_def accounted_def active_ok_def starts_ok_def conns_ok_def st)
qed

lemma inv_resume:
  assumes inv: "service_inv [] S" and op: "map_of (ps_ops S) n = Some st"
  shows "service_inv [st] (S\<lparr>ps_ops := map_delete n (ps_ops S)\<rparr>)"
proof -
  let ?S = "S\<lparr>ps_ops := map_delete n (ps_ops S)\<rparr>"
  have d: "distinct (map fst (ps_ops S))" using inv by (simp add: service_inv_but_def keys_ok_def)
  have m: "mset (map snd m) = mset (map snd (map_delete n m) @ [st])"
    if "distinct (map fst m)" "map_of m n = Some st" for m :: "(nat \<times> pf_stage) list"
    using that
  proof (induction m)
    case (Cons e m)
    then show ?case
    proof (cases "fst e = n")
      case True
      then have "map_delete n m = m" using Cons.prems(1) unfolding map_delete_def
        by (intro filter_True) (auto simp: image_iff)
      then show ?thesis using True Cons.prems by (auto simp: map_delete_def split: if_splits prod.splits)
    qed (auto simp: map_delete_def split: if_splits prod.splits)
  qed simp
  have mm: "mset (stages [st] ?S) = mset (stages [] S)" using m [OF d op] by (simp add: stages_def)
  have cnt: "length (filter P (stages [st] ?S)) = length (filter P (stages [] S))" for P
    using arg_cong [OF mm, of "\<lambda>M. size (filter_mset P M)"] by (metis mset_filter size_mset)
  have se: "set (stages [st] ?S) = set (stages [] S)" using mset_eq_setD [OF mm] .
  have st: "stage_ok ?S st' = stage_ok S st'" for st' by (rule stage_ok_cong) simp_all
  have "keys_ok ?S" using inv by (auto simp: service_inv_but_def keys_ok_def set_map_delete)
  then show ?thesis
    using inv by (simp add: service_inv_but_def accounted_def active_ok_def starts_ok_def conns_ok_def st se
        cnt starts_def holders_def)
qed

text \<open>The function that runs takes another role, for the same start and the same runtimes.\<close>
lemma inv_switch:
  assumes inv: "service_inv [st] S" and start: "start_of st' = start_of st"
    and held: "\<And>i. holds st' i = holds st i" and fwd: "\<And>i. forwards st' i \<Longrightarrow> forwards st i"
    and ok: "stage_ok S st'"
  shows "service_inv [st'] S"
  using inv start held fwd ok
  by (auto simp: service_inv_but_def accounted_def active_ok_def starts_ok_def stages_def)

text \<open>It lets go of a runtime that is accounted for otherwise.\<close>
lemma inv_release:
  assumes inv: "service_inv [st] S" and start: "start_of st' = start_of st"
    and free: "\<And>i. \<not> holds st' i" and ok: "stage_ok S st'"
    and ended: "\<And>i r. holds st i \<Longrightarrow> runtime_of i S = Some r \<Longrightarrow> rt_ended r \<or> i \<in> set (ps_failed S)"
    and nofwd: "\<And>i. \<not> forwards st i"
  shows "service_inv [st'] S"
proof -
  have nf: "\<not> forwards st' i" for i using free forwards_holds by blast
  have a: "accounted {} (stages [st'] S) S"
    unfolding accounted_def
  proof (intro allI impI)
    fix i r assume i: "runtime_of i S = Some r"
    then have "i \<in> active_ids S \<or> rt_ended r \<or> i \<in> set (ps_failed S) \<or> 0 < holders i (stages [st] S)"
      using inv i by (simp add: service_inv_but_def accounted_def)
    then show "i \<in> {} \<or> i \<in> active_ids S \<or> rt_ended r \<or> i \<in> set (ps_failed S) \<or> 0 < holders i (stages [st'] S)"
      using ended [OF _ i] free by (auto simp: stages_def split: if_splits)
  qed
  have b: "active_ok (stages [st'] S) S"
    using inv by (auto simp: service_inv_but_def active_ok_def stages_def free)
  have c: "starts_ok (stages [st'] S) S"
    using inv start by (simp add: service_inv_but_def starts_ok_def stages_def)
  have d: "holders i (stages [st'] S) = 1" if "st0 \<in> set (stages [st'] S)" "forwards st0 i" for st0 i
  proof -
    from that nf have m: "st0 \<in> set (map snd (ps_ops S))" by (auto simp: stages_def)
    then have "st0 \<in> set (stages [st] S)" by (auto simp: stages_def)
    then have one: "holders i (stages [st] S) = 1" using inv that(2) unfolding service_inv_but_def by blast
    have "0 < holders i (map snd (ps_ops S))"
      using m forwards_holds [OF that(2)] by (auto simp: holders_def filter_empty_conv)
    then show ?thesis using one free by (auto simp: stages_def split: if_splits)
  qed
  show ?thesis using inv a b c d ok by (auto simp: service_inv_but_def stages_def)
qed

text \<open>A function that is not a start and holds nothing can end, and one that does not belong to a
  start can begin.\<close>
lemma inv_end:
  assumes "service_inv [st] S" and "start_of st = None" and "\<And>i. \<not> holds st i"
  shows "service_inv [] S"
  using assms by (simp add: service_inv_but_def accounted_def active_ok_def starts_ok_def stages_def)

lemma inv_begin:
  assumes "service_inv [] S" and "start_of st = None" and "\<And>i. \<not> holds st i" and "stage_ok S st"
  shows "service_inv [st] S"
proof -
  have "\<not> forwards st i" for i using assms(3) forwards_holds by blast
  then show ?thesis
    using assms by (simp add: service_inv_but_def accounted_def active_ok_def starts_ok_def stages_def)
qed

lemma inv_log: "service_inv R (write_log l S) = service_inv R S"
proof -
  have "stage_ok (write_log l S) st = stage_ok S st" for st by (rule stage_ok_cong) (simp_all add: write_log_def)
  moreover have "stages R (write_log l S) = stages R S" by (simp add: stages_def write_log_def)
  ultimately show ?thesis
    by (simp add: service_inv_but_def accounted_def active_ok_def starts_ok_def conns_ok_def keys_ok_def)
      (simp add: write_log_def)
qed

lemma inv_finish_start:
  assumes inv: "service_inv [st] S" and start: "start_of st = Some (si_ruleId i)" and free: "\<And>j. \<not> holds st j"
  shows "service_inv [] (finish_start i r S)"
proof -
  let ?S = "S\<lparr>ps_startingRuleIds := set_remove (si_ruleId i) (ps_startingRuleIds S)\<rparr>"
  have st: "stage_ok ?S st' = stage_ok S st'" for st' by (rule stage_ok_cong) simp_all
  have s: "starts_ok (stages [] ?S) ?S"
    unfolding starts_ok_def
  proof (intro conjI allI)
    have sok: "starts_ok (stages [st] S) S" using inv by (simp add: service_inv_but_def)
    then show "distinct (ps_startingRuleIds ?S)" by (simp add: starts_ok_def set_remove_def)
    fix r
    have "starts r (stages [st] S) = (if r \<in> set (ps_startingRuleIds S) then 1 else 0)"
      using sok by (simp add: starts_ok_def)
    then show "starts r (stages [] ?S) = (if r \<in> set (ps_startingRuleIds ?S) then 1 else 0)"
      using start by (auto simp: stages_def set_remove_def split: if_splits)
  qed
  have "keys_ok ?S" using inv by (simp add: service_inv_but_def keys_ok_def)
  then have "service_inv [] ?S"
    using inv s free by (simp add: service_inv_but_def accounted_def active_ok_def conns_ok_def stages_def st)
  then show ?thesis by (simp add: finish_start_def inv_log)
qed


section \<open>Changing a runtime\<close>

text \<open>
  A change of the runtime that a function holds, or of a live one that keeps its life: the invariant
  depends on its life cycle, its listener and its connections.
\<close>
lemma inv_runtime:
  assumes inv: "service_inv_but E R S" and i: "runtime_of i S = Some r"
    and rule: "rt_ruleId (f r) = rt_ruleId r"
    and ended: "rt_ended r \<Longrightarrow> rt_ended (f r)" and disposed: "rt_disposed r \<Longrightarrow> rt_disposed (f r)"
    and listener: "\<not> rt_tcpConnectionListener r \<and> (\<exists>k. AwaitUnforward i k \<in> set (stages R S)) \<Longrightarrow> \<not> rt_tcpConnectionListener (f r)"
    and alive: "i \<in> active_ids S \<or> (\<exists>st\<in>set (stages R S). forwards st i) \<Longrightarrow>
      rt_disposed (f r) = rt_disposed r \<and> rt_ended (f r) = rt_ended r"
    and conn: "conn_ok r \<Longrightarrow> conn_ok (f r)"
  shows "service_inv_but E R (on_runtime i f S)"
proof -
  let ?S = "on_runtime i f S"
  have eq: "ps_activeRules ?S = ps_activeRules S" "ps_ops ?S = ps_ops S" "ps_failed ?S = ps_failed S"
    "ps_startingRuleIds ?S = ps_startingRuleIds S" "ps_next ?S = ps_next S"
    "ps_clients ?S = ps_clients S" "ps_rules ?S = ps_rules S"
    by (simp_all add: on_runtime_def)
  have rt: "runtime_of j ?S = (if j = i then Some (f r) else runtime_of j S)" for j
    using i by (simp add: on_runtime_def)
  have sts: "stages R ?S = stages R S" by (simp add: stages_def eq)
  have keys: "keys_ok ?S"
  proof -
    have "fst ` set (ps_runtimes ?S) = fst ` set (ps_runtimes S)"
      unfolding on_runtime_def by (simp flip: set_map)
    then have "(\<forall>e\<in>set (ps_runtimes ?S). fst e < ps_next S) = (\<forall>e\<in>set (ps_runtimes S). fst e < ps_next S)"
      by (metis (no_types, lifting) image_iff)
    then show ?thesis
      using inv by (simp add: service_inv_but_def keys_ok_def eq) (simp add: on_runtime_def)
  qed
  have acc: "accounted E (stages R ?S) ?S"
    unfolding accounted_def sts eq
  proof (intro allI impI)
    fix j q assume j: "runtime_of j ?S = Some q"
    obtain q' where q': "runtime_of j S = Some q'" "rt_ended q' \<Longrightarrow> rt_ended q"
      using j i ended by (auto simp: rt split: if_splits)
    then have "j \<in> E \<or> j \<in> active_ids S \<or> rt_ended q' \<or> j \<in> set (ps_failed S) \<or> 0 < holders j (stages R S)"
      using inv by (simp add: service_inv_but_def accounted_def)
    then show "j \<in> E \<or> j \<in> active_ids S \<or> rt_ended q \<or> j \<in> set (ps_failed S) \<or> 0 < holders j (stages R S)"
      using q'(2) by auto
  qed
  have act: "active_ok (stages R ?S) ?S"
    unfolding active_ok_def sts eq
  proof (intro ballI, clarify)
    fix q j assume m: "(q, j) \<in> set (ps_activeRules S)"
    then have old: "holders j (stages R S) = 0 \<and>
        (\<exists>rt. runtime_of j S = Some rt \<and> rt_ruleId rt = q \<and> \<not> rt_disposed rt \<and> \<not> rt_ended rt)"
      using inv by (auto simp: service_inv_but_def active_ok_def)
    have "j = i \<Longrightarrow> i \<in> active_ids S" using m by force
    then show "holders j (stages R S) = 0 \<and>
        (\<exists>rt. runtime_of j ?S = Some rt \<and> rt_ruleId rt = q \<and> \<not> rt_disposed rt \<and> \<not> rt_ended rt)"
      using old i alive rule by (auto simp: rt)
  qed
  have stage: "stage_ok ?S st" if m: "st \<in> set (stages R S)" for st
  proof -
    have old: "stage_ok S st" using inv m by (simp add: service_inv_but_def)
    show ?thesis
    proof (cases st)
      case (AwaitForward a b j d)
      have "j = i \<Longrightarrow> \<exists>st\<in>set (stages R S). forwards st i" using m AwaitForward by force
      then show ?thesis using AwaitForward old alive i rule by (auto simp: eq rt)
    next
      case (AwaitUnforward j k)
      then have "j = i \<Longrightarrow> \<exists>k. AwaitUnforward i k \<in> set (stages R S)" using m by auto
      then show ?thesis using AwaitUnforward old listener i by (auto simp: eq rt)
    qed (use old i rule disposed in \<open>auto simp: eq rt\<close>)
  qed
  have "conns_ok ?S" using inv i conn by (auto simp: service_inv_but_def conns_ok_def rt)
  then show ?thesis
    using inv keys acc act stage by (simp add: service_inv_but_def sts starts_ok_def eq)
qed

lemma inv_client: "service_inv R S \<Longrightarrow> service_inv R (on_client i f S)"
proof -
  have "stage_ok (on_client i f S) st = stage_ok S st" for st by (rule stage_ok_cong) (simp_all add: on_client_def)
  moreover have "stages R (on_client i f S) = stages R S" by (simp add: stages_def on_client_def)
  moreover have "keys_ok (on_client i f S) = keys_ok S" by (simp add: keys_ok_def on_client_def)
  ultimately show "service_inv R S \<Longrightarrow> service_inv R (on_client i f S)"
    by (simp add: service_inv_but_def accounted_def active_ok_def starts_ok_def conns_ok_def)
      (simp add: on_client_def)
qed

section \<open>Teardown\<close>

lemma inv_stage_runtime:
  assumes "service_inv [st] S" and "holds st i"
  obtains r where "runtime_of i S = Some r" and "i \<notin> active_ids S"
  using assms by (cases st) (auto simp: service_inv_but_def stages_def)

lemma inv_after_disposed:
  assumes inv: "service_inv [AwaitServerClose i k] S" and i: "runtime_of i S = Some r" and ended: "rt_ended r"
  shows "service_inv [] (after_disposed k S)"
proof -
  have rel: "service_inv [st] S" if "start_of st = start_after k" "\<And>j. \<not> holds st j" "stage_ok S st" for st
    by (rule inv_release [OF inv]) (use that i ended in auto)
  show ?thesis
  proof (cases k)
    case (FailStart a b c d)
    then show ?thesis by (auto simp: persistStartFailure_def intro!: inv_suspend rel)
  next
    case (RethrowUpdate a)
    have "service_inv [AwaitFailurePersisted a undefined [] None] S" by (rule rel) (simp_all add: RethrowUpdate)
    then have "service_inv [] (finish_start a StartThrew S)" by (rule inv_finish_start) simp_all
    then show ?thesis using RethrowUpdate by simp
  next
    case (FinishStop a)
    then show ?thesis by (auto intro!: inv_suspend rel)
  next
    case (FinishClose a b c)
    then show ?thesis by (cases c) (auto intro!: inv_suspend rel)
  next
    case FinishShutdown
    have "service_inv [AwaitStopRule []] S" by (rule rel) (simp_all add: FinishShutdown)
    then have "service_inv [] S" by (rule inv_end) simp_all
    then show ?thesis using FinishShutdown by simp
  qed
qed

lemma inv_close_returned:
  assumes inv: "service_inv [st] S" and st: "start_of st = start_after (FinishClose ruleId msg caller)"
    and free: "\<And>j. \<not> holds st j"
  shows "service_inv [] (close_returned m caller S)"
proof (cases caller)
  case None
  then show ?thesis using inv_end [OF inv _ free] st by (simp add: close_returned_def)
next
  case (Some c)
  obtain a b d where c: "c = (a, b, d)" by (cases c)
  have "service_inv [st] (logStartFailure b m S)" using inv by (simp add: logStartFailure_def inv_log)
  then have "service_inv [] (finish_start a (StartFailed m) (logStartFailure b m S))"
    by (rule inv_finish_start) (use st free Some c in simp_all)
  then show ?thesis using Some c by (simp add: close_returned_def)
qed

lemma inv_dispose_threw:
  assumes inv: "service_inv [AwaitUnforward i k] S"
  shows "service_inv [] (dispose_threw k (S\<lparr>ps_failed := ps_failed S @ [i]\<rparr>))"
proof -
  let ?S = "S\<lparr>ps_failed := ps_failed S @ [i]\<rparr>"
  have st: "stage_ok ?S st = stage_ok S st" for st by (rule stage_ok_cong) simp_all
  have keys: "keys_ok ?S" using inv by (simp add: service_inv_but_def keys_ok_def)
  have inv': "service_inv [AwaitUnforward i k] ?S"
  proof -
    have "accounted {} sts S \<Longrightarrow> accounted {} sts ?S" for sts unfolding accounted_def by simp metis
    then show ?thesis
      using inv keys by (simp add: service_inv_but_def active_ok_def starts_ok_def conns_ok_def stages_def st)
  qed
  have rel: "service_inv [st] ?S" if "start_of st = start_after k" "\<And>j. \<not> holds st j" "stage_ok ?S st" for st
    by (rule inv_release [OF inv']) (use that in auto)
  have fin: "service_inv [] (finish_start a StartThrew ?S)" if "start_after k = Some (si_ruleId a)" for a
  proof -
    have "service_inv [AwaitFailurePersisted a undefined [] None] ?S" by (rule rel) (simp_all add: that)
    then show ?thesis by (rule inv_finish_start) simp_all
  qed
  have out: "service_inv [] ?S" if "start_after k = None"
  proof -
    have "service_inv [AwaitStopRule []] ?S" by (rule rel) (simp_all add: that)
    then show ?thesis by (rule inv_end) simp_all
  qed
  show ?thesis
  proof (cases k)
    case (FinishClose a b c)
    have "service_inv [AwaitClosePersisted a b c] ?S"
      by (rule rel) (cases c, auto simp: FinishClose)
    then have "service_inv [] (close_returned b c ?S)"
      by (rule inv_close_returned [where ruleId = a and msg = b]) (cases c, auto)
    then show ?thesis using FinishClose by simp
  qed (use fin out in \<open>auto simp: finish_stop_def inv_log\<close>)
qed

lemma inv_dispose_end:
  assumes inv: "service_inv [AwaitServerClose i k] S"
  shows "service_inv [] (dispose_end i k S)"
proof -
  obtain r where r: "runtime_of i S = Some r" "i \<notin> active_ids S"
    using inv_stage_runtime [OF inv] by auto
  have d: "rt_disposed r" using inv r by (simp add: service_inv_but_def stages_def)
  have nofwd: "\<not> forwards st i" if "st \<in> set (stages [AwaitServerClose i k] S)" for st
  proof
    assume f: "forwards st i"
    then have "holders i (stages [AwaitServerClose i k] S) = 1" using inv that by (simp add: service_inv_but_def)
    moreover have "st \<in> set (map snd (ps_ops S))" using that f by (auto simp: stages_def)
    then have "0 < holders i (map snd (ps_ops S))"
      using forwards_holds [OF f] by (auto simp: holders_def filter_empty_conv)
    ultimately show False by (simp add: stages_def)
  qed
  let ?f = "\<lambda>r. r\<lparr>rt_localServer := False, rt_ended := True, rt_activeConnectionCount := 0\<rparr>"
  have "service_inv [AwaitServerClose i k] (on_runtime i ?f S)"
    by (rule inv_runtime [OF inv r(1)]) (use r(2) d nofwd in \<open>auto simp: conn_ok_def\<close>)
  moreover have "runtime_of i (on_runtime i ?f S) = Some (?f r)" using r by (simp add: on_runtime_def)
  ultimately show ?thesis unfolding dispose_end_def by (rule inv_after_disposed) simp
qed


lemma inv_dispose_streams:
  assumes inv: "service_inv [AwaitUnforward i k] S"
  shows "service_inv [] (dispose_streams i k S)"
proof -
  obtain r where r: "runtime_of i S = Some r" "i \<notin> active_ids S"
    using inv_stage_runtime [OF inv] by auto
  have off: "\<not> rt_tcpConnectionListener r" using inv r by (simp add: service_inv_but_def stages_def)
  have nofwd: "\<not> forwards st i" if "st \<in> set (stages [AwaitUnforward i k] S)" for st
  proof
    assume f: "forwards st i"
    then have "holders i (stages [AwaitUnforward i k] S) = 1" using inv that by (simp add: service_inv_but_def)
    moreover have "st \<in> set (map snd (ps_ops S))" using that f by (auto simp: stages_def)
    then have "0 < holders i (map snd (ps_ops S))"
      using forwards_holds [OF f] by (auto simp: holders_def filter_empty_conv)
    ultimately show False by (simp add: stages_def)
  qed
  let ?S = "on_runtime i teardown S"
  have listener: "\<not> rt_tcpConnectionListener (teardown r)"
    using off by (simp add: teardown_def destroy_all_def Let_def)
  have inv': "service_inv [AwaitUnforward i k] ?S"
    by (rule inv_runtime [OF inv r(1)]) (use r(2) nofwd off listener in \<open>auto intro: conn_ok_teardown\<close>)
  have r': "runtime_of i ?S = Some (teardown r)" using r by (simp add: on_runtime_def)
  have act: "i \<notin> active_ids ?S" using r(2) by (simp add: on_runtime_def)
  have "service_inv [AwaitServerClose i k] ?S"
    by (rule inv_switch [OF inv']) (use r' act in auto)
  then show ?thesis
    unfolding dispose_streams_def Let_def r' by (auto intro: inv_suspend inv_dispose_end)
qed

text \<open>A runtime that is no longer active is torn down.\<close>
lemma inv_dispose:
  assumes inv: "service_inv [AwaitUnforward i k] (on_runtime i (\<lambda>r. r\<lparr>rt_tcpConnectionListener := False\<rparr>) S)"
  shows "service_inv [] (disposeRuntimeState i k S)"
proof -
  let ?S = "on_runtime i (\<lambda>r. r\<lparr>rt_tcpConnectionListener := False\<rparr>) S"
  have "holds (AwaitUnforward i k) i" by simp
  from inv_stage_runtime [OF inv this] obtain r where r: "runtime_of i ?S = Some r" by blast
  show ?thesis
    unfolding disposeRuntimeState_def Let_def r by (auto intro: inv_suspend [OF inv] inv_dispose_streams [OF inv])
qed

text \<open>
  The function that runs takes hold of a runtime that is not active and that no start is about to
  forward.
\<close>
lemma inv_grab:
  assumes inv: "service_inv_but {i} [st] S" and st: "start_of st = start_after k"
    and i: "runtime_of i S = Some r" "i \<notin> active_ids S"
    and fresh: "\<And>st'. st' \<in> set (map snd (ps_ops S)) \<Longrightarrow> \<not> forwards st' i"
    and only: "\<And>j. holds st j \<Longrightarrow> j = i"
  shows "service_inv [] (disposeRuntimeState i k S)"
proof (rule inv_dispose)
  let ?f = "\<lambda>r. r\<lparr>rt_tcpConnectionListener := False\<rparr>"
  let ?S = "on_runtime i ?f S"
  let ?new = "AwaitUnforward i k"
  have conn: "conn_ok r \<Longrightarrow> conn_ok (?f r)" by (auto simp: conn_ok_def)
  have inv1: "service_inv_but {i} [st] ?S"
    by (rule inv_runtime [OF inv i(1)]) (use conn in auto)
  have i1: "runtime_of i ?S = Some (?f r)" using i by (simp add: on_runtime_def)
  have a1: "i \<notin> active_ids ?S" using i(2) by (simp add: on_runtime_def)
  have ops: "ps_ops ?S = ps_ops S" by (simp add: on_runtime_def)
  have acc: "accounted {} (stages [?new] ?S) ?S"
    unfolding accounted_def
  proof (intro allI impI)
    fix j q assume "runtime_of j ?S = Some q"
    then have "j = i \<or> j \<in> active_ids ?S \<or> rt_ended q \<or> j \<in> set (ps_failed ?S) \<or> 0 < holders j (stages [st] ?S)"
      using inv1 by (simp add: service_inv_but_def accounted_def)
    then show "j \<in> {} \<or> j \<in> active_ids ?S \<or> rt_ended q \<or> j \<in> set (ps_failed ?S) \<or> 0 < holders j (stages [?new] ?S)"
      using only [of j] by (auto simp: stages_def split: if_splits)
  qed
  have act: "active_ok (stages [?new] ?S) ?S"
    unfolding active_ok_def
  proof (intro ballI, clarify)
    fix q j assume m: "(q, j) \<in> set (ps_activeRules ?S)"
    then have "j \<noteq> i" using a1 by force
    then show "holders j (stages [?new] ?S) = 0 \<and>
        (\<exists>rt. runtime_of j ?S = Some rt \<and> rt_ruleId rt = q \<and> \<not> rt_disposed rt \<and> \<not> rt_ended rt)"
      using inv1 m by (auto simp: service_inv_but_def active_ok_def stages_def)
  qed
  have starts: "starts_ok (stages [?new] ?S) ?S"
    using inv1 st by (simp add: service_inv_but_def starts_ok_def stages_def)
  have fwd: "holders j (stages [?new] ?S) = 1" if "s0 \<in> set (stages [?new] ?S)" "forwards s0 j" for s0 j
  proof -
    have m: "s0 \<in> set (map snd (ps_ops S))" using that by (auto simp: stages_def ops)
    then have "j \<noteq> i" using fresh that(2) by blast
    moreover have "s0 \<in> set (stages [st] ?S)" using m by (simp add: stages_def ops)
    then have "holders j (stages [st] ?S) = 1" using inv1 that(2) unfolding service_inv_but_def by blast
    ultimately show ?thesis using only [of j] by (auto simp: stages_def split: if_splits)
  qed
  have "stage_ok ?S ?new" using i1 a1 by auto
  then show "service_inv [?new] ?S"
    using inv1 acc act starts fwd by (auto simp: service_inv_but_def stages_def)
qed

lemma inv_weaken: "service_inv R S \<Longrightarrow> service_inv_but E R S"
  by (simp add: service_inv_but_def accounted_def)

lemma inv_deactivate:
  assumes inv: "service_inv R S" and i: "active_of q S = Some i"
  shows "service_inv_but {i} R (deactivate q S)" and "i \<notin> active_ids (deactivate q S)"
    and "\<exists>r. runtime_of i (deactivate q S) = Some r" and "holders i (stages R S) = 0"
proof -
  let ?S = "deactivate q S"
  have d: "distinct (map fst (ps_activeRules S))" using inv by (simp add: service_inv_but_def keys_ok_def)
  have qi: "(q, i) \<in> set (ps_activeRules S)" using i by (rule map_of_SomeD)
  have mem: "e \<in> set (ps_activeRules ?S) \<longleftrightarrow> e \<in> set (ps_activeRules S) \<and> fst e \<noteq> q" for e
    by (auto simp: deactivate_def set_map_delete)
  have act: "active_of q' ?S = (if q' = q then None else active_of q' S)" for q'
    by (simp add: deactivate_def)
  have ok: "active_ok (stages R S) S" using inv by (simp add: service_inv_but_def)
  have uniq: "q' = q" if "(q', i) \<in> set (ps_activeRules S)" for q'
  proof -
    have "case (q', i) of (r, i) \<Rightarrow> \<exists>rt. runtime_of i S = Some rt \<and> rt_ruleId rt = r"
      using bspec [OF ok [unfolded active_ok_def] that] by auto
    moreover have "case (q, i) of (r, i) \<Rightarrow> \<exists>rt. runtime_of i S = Some rt \<and> rt_ruleId rt = r"
      using bspec [OF ok [unfolded active_ok_def] qi] by auto
    ultimately show ?thesis by auto
  qed
  then show out: "i \<notin> active_ids ?S" using mem by force
  have sub: "active_ids ?S \<subseteq> active_ids S" using mem by auto
  have rest: "j \<in> active_ids ?S" if jm: "j \<in> active_ids S" and ne: "j \<noteq> i" for j
  proof -
    obtain q' where q': "(q', j) \<in> set (ps_activeRules S)" using jm by auto
    have "q' \<noteq> q" using map_of_is_SomeI [OF d q'] i ne by auto
    then show ?thesis using q' mem [of "(q', j)"] by force
  qed
  show "\<exists>r. runtime_of i ?S = Some r" "holders i (stages R S) = 0"
    using ok qi by (auto simp: active_ok_def deactivate_def)
  have same: "ps_runtimes ?S = ps_runtimes S" "ps_ops ?S = ps_ops S" "ps_failed ?S = ps_failed S"
    "ps_startingRuleIds ?S = ps_startingRuleIds S" "stages R ?S = stages R S"
    by (simp_all add: deactivate_def stages_def)
  have "accounted {i} (stages R ?S) ?S"
    unfolding accounted_def same
  proof (intro allI impI)
    fix j r assume "runtime_of j S = Some r"
    then have "j \<in> active_ids S \<or> rt_ended r \<or> j \<in> set (ps_failed S) \<or> 0 < holders j (stages R S)"
      using inv by (simp add: service_inv_but_def accounted_def)
    then show "j \<in> {i} \<or> j \<in> active_ids ?S \<or> rt_ended r \<or> j \<in> set (ps_failed S) \<or> 0 < holders j (stages R S)"
      using rest by auto
  qed
  moreover have "active_ok (stages R ?S) ?S"
    using ok mem unfolding active_ok_def same by blast
  moreover have "keys_ok ?S"
    using inv by (simp add: service_inv_but_def keys_ok_def deactivate_def)
  moreover have "stage_ok S st \<Longrightarrow> stage_ok ?S st" for st
    using sub by (cases st) (auto simp: act same)
  ultimately show "service_inv_but {i} R ?S"
    using inv by (simp add: service_inv_but_def starts_ok_def conns_ok_def same)
qed

text \<open>The rule of a live runtime is stopped: nothing else refers to the runtime.\<close>
lemma inv_stop_active:
  assumes inv: "service_inv [st] S" and st: "start_of st = start_after k"
    and i: "active_of q S = Some i" and free: "\<And>j. \<not> holds st j"
  shows "service_inv [] (disposeRuntimeState i k (deactivate q S))"
proof -
  note d = inv_deactivate [OF inv i]
  obtain r where r: "runtime_of i (deactivate q S) = Some r" using d(3) by blast
  have "\<not> forwards st' i" if "st' \<in> set (map snd (ps_ops (deactivate q S)))" for st'
  proof
    assume "forwards st' i"
    moreover have "st' \<in> set (map snd (ps_ops S))" using that by (simp add: deactivate_def)
    ultimately have "0 < holders i (stages [st] S)"
      using forwards_holds by (force simp: holders_def stages_def filter_empty_conv)
    then show False using d(4) by simp
  qed
  then show ?thesis by (intro inv_grab [OF d(1) st r d(2)]) (use free in auto)
qed

lemma inv_unexpected:
  assumes inv: "service_inv [st] S" and st: "start_of st = start_after (FinishClose ruleId msg caller)"
    and free: "\<And>j. \<not> holds st j"
  shows "service_inv [] (handleUnexpectedClose ruleId msg caller S)"
proof (cases "active_of ruleId S")
  case None
  then show ?thesis using inv_close_returned [OF inv st free] by (simp add: handleUnexpectedClose_def)
next
  case (Some i)
  have "\<exists>r. runtime_of i S = Some r" using inv_deactivate(3) [OF inv Some] by (simp add: deactivate_def)
  then obtain r where r: "runtime_of i S = Some r" by blast
  have "service_inv [st] (on_runtime i (set_last_error msg) S)"
    by (rule inv_runtime [OF inv r]) (auto simp: set_last_error_def conn_ok_def)
  moreover have "active_of ruleId (on_runtime i (set_last_error msg) S) = Some i"
    using Some by (simp add: on_runtime_def)
  ultimately have "service_inv [] (disposeRuntimeState i (FinishClose ruleId msg caller)
      (deactivate ruleId (on_runtime i (set_last_error msg) S)))"
    using st free by (intro inv_stop_active) auto
  then show ?thesis using Some by (simp add: handleUnexpectedClose_def)
qed


section \<open>Starting\<close>

lemma inv_active_rule:
  assumes inv: "service_inv R S" and m: "(q, i) \<in> set (ps_activeRules S)"
  shows "\<exists>rt. runtime_of i S = Some rt \<and> rt_ruleId rt = q \<and> \<not> rt_disposed rt \<and> \<not> rt_ended rt"
    and "active_of q S = Some i" and "holders i (stages R S) = 0"
proof -
  have "active_ok (stages R S) S" using inv by (simp add: service_inv_but_def)
  from bspec [OF this [unfolded active_ok_def] m]
  show "\<exists>rt. runtime_of i S = Some rt \<and> rt_ruleId rt = q \<and> \<not> rt_disposed rt \<and> \<not> rt_ended rt"
    and "holders i (stages R S) = 0" by auto
  have "distinct (map fst (ps_activeRules S))" using inv by (simp add: service_inv_but_def keys_ok_def)
  then show "active_of q S = Some i" using m by (rule map_of_is_SomeI)
qed

lemma inv_starting:
  assumes inv: "service_ok S" and idle: "\<not> isRuleActive (si_ruleId i) S"
  shows "service_ok (startRule i S)"
proof -
  let ?S = "S\<lparr>ps_startingRuleIds := set_add (si_ruleId i) (ps_startingRuleIds S)\<rparr>"
  have st: "stage_ok ?S st = stage_ok S st" for st by (rule stage_ok_cong) simp_all
  have keys: "keys_ok ?S" using inv by (simp add: service_inv_but_def keys_ok_def)
  have starts: "starts_ok (stages [AwaitRule i] ?S) ?S"
    using inv idle by (auto simp: service_inv_but_def starts_ok_def stages_def isRuleActive_def set_add_def)
  have "active_of (si_ruleId i) S = None" using idle by (simp add: isRuleActive_def)
  then have "service_inv [AwaitRule i] ?S"
    using inv keys starts by (simp add: service_inv_but_def accounted_def active_ok_def conns_ok_def stages_def st)
  then have "service_ok (suspend (AwaitRule i) ?S)" by (rule inv_suspend)
  then show ?thesis using idle by (simp add: startRule_def)
qed

lemma inv_new_runtime:
  assumes inv: "service_inv [AwaitClient i rule] S"
  shows "service_inv [AwaitForward i rule (ps_next S) proxy]
    (S\<lparr>ps_runtimes := ps_runtimes S @ [(ps_next S, new_runtime (pr_id rule) now)],
       ps_clients := ps_clients S @ [(ps_next S, new_client)],
       ps_rules := ps_rules S @ [(ps_next S, rule)],
       ps_next := ps_next S + 1\<rparr>)" (is "service_inv [?st] ?S")
proof -
  let ?n = "ps_next S"
  have keys: "keys_ok S" using inv by (simp add: service_inv_but_def)
  then have new: "?n \<notin> fst ` set (ps_runtimes S)" by (auto simp: keys_ok_def)
  then have none: "runtime_of ?n S = None" by (simp add: map_of_eq_None_iff)
  have rt: "runtime_of j ?S = (if j = ?n then Some (new_runtime (pr_id rule) now) else runtime_of j S)" for j
    using none by (auto simp: map_add_def split: option.split)
  have same: "ps_activeRules ?S = ps_activeRules S" "ps_ops ?S = ps_ops S" "ps_failed ?S = ps_failed S"
    "ps_startingRuleIds ?S = ps_startingRuleIds S" by simp_all
  have keys': "keys_ok ?S" using keys new by (auto simp: keys_ok_def less_Suc_eq)
  have unheld: "\<not> holds st ?n" if "st \<in> set (stages [AwaitClient i rule] S)" for st
    using inv that none by (cases st) (auto simp: service_inv_but_def)
  then have zero: "holders ?n (map snd (ps_ops S)) = 0"
    by (auto simp: holders_def stages_def filter_empty_conv)
  have unact: "?n \<notin> active_ids S"
    using inv_active_rule(1) [OF inv] none by fastforce
  have acc: "accounted {} (stages [?st] ?S) ?S"
    unfolding accounted_def
  proof (intro allI impI)
    fix j q assume q: "runtime_of j ?S = Some q"
    show "j \<in> {} \<or> j \<in> active_ids ?S \<or> rt_ended q \<or> j \<in> set (ps_failed ?S) \<or> 0 < holders j (stages [?st] ?S)"
    proof (cases "j = ?n")
      case False
      then have "runtime_of j S = Some q" using q rt [of j] by simp
      then have "j \<in> active_ids S \<or> rt_ended q \<or> j \<in> set (ps_failed S) \<or> 0 < holders j (stages [AwaitClient i rule] S)"
        using inv by (simp add: service_inv_but_def accounted_def)
      then show ?thesis by (simp add: stages_def)
    qed (simp add: stages_def)
  qed
  have act: "active_ok (stages [?st] ?S) ?S"
    unfolding active_ok_def
  proof (intro ballI, clarify)
    fix q j assume "(q, j) \<in> set (ps_activeRules ?S)"
    then have m: "(q, j) \<in> set (ps_activeRules S)" by simp
    then have "j \<noteq> ?n" using unact by force
    then show "holders j (stages [?st] ?S) = 0 \<and>
        (\<exists>rt. runtime_of j ?S = Some rt \<and> rt_ruleId rt = q \<and> \<not> rt_disposed rt \<and> \<not> rt_ended rt)"
      using inv_active_rule [OF inv m] by (auto simp: rt stages_def)
  qed
  have starts: "starts_ok (stages [?st] ?S) ?S"
    using inv by (simp add: service_inv_but_def starts_ok_def stages_def)
  have conns: "conns_ok ?S"
    unfolding conns_ok_def
  proof (intro allI impI)
    fix j q assume q: "runtime_of j ?S = Some q"
    have "conns_ok S" using inv by (simp add: service_inv_but_def)
    then show "conn_ok q" using q rt [of j] by (auto simp: conns_ok_def split: if_splits)
  qed
  have old: "stage_ok ?S st" if m: "st \<in> set (map snd (ps_ops S))" for st
  proof -
    have o: "stage_ok S st" using inv m by (auto simp: service_inv_but_def stages_def)
    then show ?thesis using none by (cases st) (auto simp: rt same)
  qed
  have "pr_id rule = si_ruleId i \<and> active_of (si_ruleId i) S = None"
    using inv by (simp add: service_inv_but_def stages_def)
  moreover have rn: "runtime_of ?n ?S = Some (new_runtime (pr_id rule) now)" using rt [of ?n] by simp
  ultimately have new_ok: "stage_ok ?S ?st"
    unfolding stage_ok.simps rn using unact by (simp add: new_runtime_def)
  have fwd: "holders j (stages [?st] ?S) = 1" if "st \<in> set (stages [?st] ?S)" "forwards st j" for st j
  proof (cases "j = ?n")
    case True
    then show ?thesis using zero by (simp add: stages_def)
  next
    case False
    then have m: "st \<in> set (map snd (ps_ops S))" using that by (auto simp: stages_def)
    then have "st \<in> set (stages [AwaitClient i rule] S)" by (auto simp: stages_def)
    then have "holders j (stages [AwaitClient i rule] S) = 1"
      using inv that(2) unfolding service_inv_but_def by blast
    then show ?thesis using False by (simp add: stages_def)
  qed
  have "stage_ok ?S st" if "st \<in> set (stages [?st] ?S)" for st
  proof (cases "st = ?st")
    case False
    then have "st \<in> set (map snd (ps_ops S))" using that by (auto simp: stages_def)
    then show ?thesis by (rule old)
  next
    case True
    show ?thesis unfolding True by (rule new_ok)
  qed
  then show ?thesis
    using keys' acc act starts conns fwd unfolding service_inv_but_def by blast
qed

lemma inv_fail_forward:
  assumes inv: "service_inv [AwaitForward i rule rt proxy] S"
  shows "service_ok (fail_forward X i rule rt proxy err S)"
proof -
  let ?k = "FailStart i rule (resolveErrorMessage err (tx_startFailedNoReason X)) proxy"
  let ?f = "\<lambda>r. r\<lparr>rt_tcpConnectionListener := False\<rparr>"
  let ?S = "on_client rt releaseAfterClose S"
  have inv1: "service_inv [AwaitForward i rule rt proxy] ?S" by (rule inv_client [OF inv])
  obtain r where r: "runtime_of rt ?S = Some r" "rt \<notin> active_ids ?S" using inv_stage_runtime [OF inv1] by auto
  have conn: "conn_ok r \<Longrightarrow> conn_ok (?f r)" by (auto simp: conn_ok_def)
  have inv2: "service_inv [AwaitForward i rule rt proxy] (on_runtime rt ?f ?S)"
    by (rule inv_runtime [OF inv1 r(1)]) (use conn in auto)
  have rt: "runtime_of rt (on_runtime rt ?f ?S) = Some (?f r)" using r(1) by (simp add: on_runtime_def)
  have "service_inv [AwaitUnforward rt ?k] (on_runtime rt ?f ?S)"
    by (rule inv_switch [OF inv2]) (use rt r(2) in \<open>auto simp: on_runtime_def\<close>)
  then show ?thesis unfolding fail_forward_def by (rule inv_dispose)
qed

lemma inv_start_forward:
  assumes inv: "service_inv [AwaitForward i rule rt proxy] S"
  shows "service_ok (start_forward X i rule rt proxy S)"
proof (cases "rule_startable rule")
  case True
  obtain r where r: "runtime_of rt S = Some r" "rt \<notin> active_ids S" using inv_stage_runtime [OF inv] by auto
  have live: "\<not> rt_disposed r" using inv r by (simp add: service_inv_but_def stages_def)
  have one: "AwaitUnforward rt k \<notin> set (stages [AwaitForward i rule rt proxy] S)" for k
  proof
    assume "AwaitUnforward rt k \<in> set (stages [AwaitForward i rule rt proxy] S)"
    then have "AwaitUnforward rt k \<in> set (map snd (ps_ops S))" by (simp add: stages_def)
    then have "0 < holders rt (map snd (ps_ops S))" by (force simp: holders_def filter_empty_conv)
    moreover have "holders rt (stages [AwaitForward i rule rt proxy] S) = 1"
      using inv by (simp add: service_inv_but_def stages_def)
    ultimately show False by (simp add: stages_def)
  qed
  let ?f = "\<lambda>r. case pr_type rule of RemoteRule \<Rightarrow> r\<lparr>rt_tcpConnectionListener := True\<rparr>
    | _ \<Rightarrow> r\<lparr>rt_localServer := True\<rparr>"
  have "service_inv [AwaitForward i rule rt proxy] (on_runtime rt ?f S)"
    by (rule inv_runtime [OF inv r(1)]) (use one live in \<open>auto simp: conn_ok_def split: rule_kind.split\<close>)
  then show ?thesis using True by (simp add: start_forward_def inv_suspend)
qed (use inv_fail_forward [OF inv] in \<open>simp add: start_forward_def\<close>)

lemma inv_activate:
  assumes inv: "service_inv [AwaitForward i rule rt proxy] S"
  shows "service_inv [AwaitStarted i rule rt proxy]
    (S\<lparr>ps_activeRules := map_set (pr_id rule) rt (ps_activeRules S)\<rparr>)" (is "service_inv [?st] ?S")
proof -
  let ?old = "AwaitForward i rule rt proxy"
  have ok: "stage_ok S ?old" using inv by (simp add: service_inv_but_def stages_def)
  then have id: "pr_id rule = si_ruleId i" and none: "active_of (si_ruleId i) S = None"
    and unact: "rt \<notin> active_ids S" by auto
  obtain r where r: "runtime_of rt S = Some r" "rt_ruleId r = si_ruleId i" "\<not> rt_disposed r" "\<not> rt_ended r"
    using ok by auto
  have A: "map_set (pr_id rule) rt (ps_activeRules S) = ps_activeRules S @ [(si_ruleId i, rt)]"
    using none by (simp add: id map_set_new)
  have ids: "active_ids ?S = insert rt (active_ids S)" by (auto simp: A)
  have one: "holders rt (map snd (ps_ops S)) = 0"
  proof -
    have "holders rt (stages [?old] S) = 1" using inv by (simp add: service_inv_but_def stages_def)
    then show ?thesis by (simp add: stages_def)
  qed
  then have unheld: "\<not> holds st rt" if "st \<in> set (map snd (ps_ops S))" for st
    using that by (auto simp: holders_def filter_empty_conv)
  have keys: "keys_ok ?S" using inv by (simp add: service_inv_but_def keys_ok_def)
  have acc: "accounted {} (stages [?st] ?S) ?S"
    unfolding accounted_def ids
  proof (intro allI impI)
    fix j q assume "runtime_of j ?S = Some q"
    then have "j \<in> active_ids S \<or> rt_ended q \<or> j \<in> set (ps_failed S) \<or> 0 < holders j (stages [?old] S)"
      using inv by (simp add: service_inv_but_def accounted_def)
    then show "j \<in> {} \<or> j \<in> insert rt (active_ids S) \<or> rt_ended q \<or> j \<in> set (ps_failed ?S) \<or> 0 < holders j (stages [?st] ?S)"
      by (auto simp: stages_def split: if_splits)
  qed
  have act: "active_ok (stages [?st] ?S) ?S"
    unfolding active_ok_def
  proof (intro ballI, clarify)
    fix q j assume "(q, j) \<in> set (ps_activeRules ?S)"
    then consider "(q, j) \<in> set (ps_activeRules S)" | "q = si_ruleId i" "j = rt" by (auto simp: A)
    then show "holders j (stages [?st] ?S) = 0 \<and>
        (\<exists>rt. runtime_of j ?S = Some rt \<and> rt_ruleId rt = q \<and> \<not> rt_disposed rt \<and> \<not> rt_ended rt)"
    proof cases
      case 1
      from inv_active_rule [OF inv 1] show ?thesis by (auto simp: stages_def)
    qed (use r one in \<open>simp add: stages_def\<close>)
  qed
  have single: "start_of st \<noteq> Some (si_ruleId i)" if "st \<in> set (map snd (ps_ops S))" for st
  proof
    assume "start_of st = Some (si_ruleId i)"
    then have "0 < starts (si_ruleId i) (map snd (ps_ops S))"
      using that by (auto simp: starts_def filter_empty_conv)
    moreover have "starts (si_ruleId i) (stages [?old] S) \<le> 1"
      using inv by (simp add: service_inv_but_def starts_ok_def)
    ultimately show False by (simp add: stages_def)
  qed
  have act_of: "map_of (ps_activeRules S @ [(si_ruleId i, rt)]) q =
      (if q = si_ruleId i then Some rt else active_of q S)" for q
    using none by (auto simp: map_add_def split: option.split)
  have old: "stage_ok ?S st" if m: "st \<in> set (map snd (ps_ops S))" for st
  proof -
    have o: "stage_ok S st" using inv m by (auto simp: service_inv_but_def stages_def)
    show ?thesis
      using o single [OF m] unheld [OF m]
      by (cases st) (auto simp: A act_of simp del: map_of_map_set map_of_append)
  qed
  have new_ok: "stage_ok ?S ?st" using r by (simp add: id)
  have fwd: "holders j (stages [?st] ?S) = 1" if "st \<in> set (stages [?st] ?S)" "forwards st j" for st j
  proof -
    have m: "st \<in> set (map snd (ps_ops S))" using that by (auto simp: stages_def)
    then have "st \<in> set (stages [?old] S)" by (auto simp: stages_def)
    then have "holders j (stages [?old] S) = 1" using inv that(2) unfolding service_inv_but_def by blast
    moreover have "j \<noteq> rt" using unheld [OF m] forwards_holds [OF that(2)] by blast
    ultimately show ?thesis by (simp add: stages_def)
  qed
  have starts: "starts_ok (stages [?st] ?S) ?S"
    using inv by (simp add: service_inv_but_def starts_ok_def stages_def)
  have conns: "conns_ok ?S" using inv by (simp add: service_inv_but_def conns_ok_def)
  show ?thesis
    using keys acc act starts conns old new_ok fwd by (auto simp: service_inv_but_def stages_def)
qed


text \<open>The start whose database update failed tears its runtime down, wherever it is now.\<close>
lemma inv_update_threw:
  assumes inv: "service_inv [AwaitStarted i rule rt proxy] S"
  shows "service_ok (disposeRuntimeState rt (RethrowUpdate i)
    (on_client rt releaseAfterClose (deactivate (pr_id rule) S)))"
proof -
  let ?st = "AwaitStarted i rule rt proxy"
  let ?D = "deactivate (pr_id rule) S"
  let ?S = "on_client rt releaseAfterClose ?D"
  have ok: "stage_ok S ?st" using inv by (simp add: service_inv_but_def stages_def)
  then have id: "pr_id rule = si_ruleId i" by simp
  obtain r where r: "runtime_of rt S = Some r" "rt_ruleId r = si_ruleId i" using ok by auto
  have ops: "ps_ops ?S = ps_ops S" by (simp add: on_client_def deactivate_def)
  have act: "active_of (si_ruleId i) S = None \<or> active_of (si_ruleId i) S = Some rt" using ok by simp
  have D: "service_inv_but {rt} [?st] ?D" "rt \<notin> active_ids ?D"
  proof (atomize (full), cases "active_of (si_ruleId i) S = None")
    case True
    then have "map_delete (pr_id rule) (ps_activeRules S) = ps_activeRules S"
      unfolding map_delete_def id by (intro filter_True) (auto simp: map_of_eq_None_iff image_iff)
    then have eq: "?D = S" by (simp add: deactivate_def)
    have "rt \<notin> active_ids S"
    proof
      assume "rt \<in> active_ids S"
      then obtain q where q: "(q, rt) \<in> set (ps_activeRules S)" by auto
      then have "q = si_ruleId i" using inv_active_rule(1) [OF inv q] r by simp
      then show False using True inv_active_rule(2) [OF inv q] by simp
    qed
    then show "service_inv_but {rt} [?st] ?D \<and> rt \<notin> active_ids ?D" using inv_weaken [OF inv] eq by simp
  next
    case False
    then have "active_of (pr_id rule) S = Some rt" using act id by auto
    from inv_deactivate [OF inv this] show "service_inv_but {rt} [?st] ?D \<and> rt \<notin> active_ids ?D" by blast
  qed
  have inv1: "service_inv_but {rt} [?st] ?S"
  proof -
    have "stage_ok ?S st = stage_ok ?D st" for st by (rule stage_ok_cong) (simp_all add: on_client_def)
    moreover have "stages R ?S = stages R ?D" for R by (simp add: stages_def on_client_def)
    moreover have "keys_ok ?S = keys_ok ?D" by (simp add: keys_ok_def on_client_def)
    ultimately show ?thesis
      using D(1) by (simp add: service_inv_but_def accounted_def active_ok_def starts_ok_def conns_ok_def)
        (simp add: on_client_def)
  qed
  have fresh: "\<not> forwards st rt" if m: "st \<in> set (map snd (ps_ops ?S))" for st
  proof
    assume f: "forwards st rt"
    have m': "st \<in> set (map snd (ps_ops S))" using m by (simp only: ops)
    then have "stage_ok S st" using inv by (auto simp: service_inv_but_def stages_def)
    then have "start_of st = Some (si_ruleId i)" using f r by (cases st) auto
    then have "0 < starts (si_ruleId i) (map snd (ps_ops S))"
      using m' by (auto simp: starts_def filter_empty_conv)
    moreover have "starts (si_ruleId i) (stages [?st] S) \<le> 1"
      using inv by (simp add: service_inv_but_def starts_ok_def)
    ultimately show False by (simp add: stages_def)
  qed
  show ?thesis
    by (rule inv_grab [OF inv1 _ _ _ fresh])
      (use r D(2) in \<open>auto simp: on_client_def deactivate_def\<close>)
qed

section \<open>Every step\<close>

lemma inv_client_opened:
  assumes inv: "service_inv [AwaitClient i rule] S"
  shows "service_ok (client_opened X now i rule a S)"
proof (cases a)
  case (ClientReady proxy)
  then show ?thesis
    using inv_start_forward [OF inv_new_runtime [OF inv]] by (simp add: client_opened_def Let_def)
next
  case (ClientUntrusted fp msg proxy)
  have "service_inv [AwaitClient i rule] (write_log (AuditStart (pr_id rule) (AuditFailure msg)) S)"
    using inv by (simp add: inv_log)
  then show ?thesis using ClientUntrusted by (simp add: client_opened_def inv_finish_start)
next
  case (ClientFailed msg proxy)
  have "service_inv [AwaitFailurePersisted i rule msg proxy] S" by (rule inv_switch [OF inv]) simp_all
  then show ?thesis using ClientFailed by (simp add: client_opened_def persistStartFailure_def inv_suspend)
qed

lemma inv_start_persisted:
  assumes inv: "service_inv [AwaitStarted i rule rt proxy] S"
  shows "service_ok (start_persisted X i rule rt proxy updated S)"
proof -
  let ?S = "on_client rt (\<lambda>c. releaseMonitor (c\<lparr>cl_handled := True\<rparr>)) S"
  have inv1: "service_inv [AwaitStarted i rule rt proxy] ?S" by (rule inv_client [OF inv])
  have "map fst (ps_clients ?S) = map fst (ps_runtimes ?S)"
    using inv1 by (simp add: service_inv_but_def keys_ok_def)
  moreover have "\<exists>r. runtime_of rt ?S = Some r" using inv1 by (auto simp: service_inv_but_def stages_def)
  then have "rt \<in> set (map fst (ps_runtimes ?S))" by (force dest: map_of_SomeD)
  ultimately have "rt \<in> set (map fst (ps_clients ?S))" by metis
  then have "client_of rt ?S \<noteq> None" by (simp add: map_of_eq_None_iff)
  then obtain c where c: "client_of rt ?S = Some c" by blast
  have fin: "service_ok (finish_start i res (write_log l ?S))" for res l
    by (rule inv_finish_start [where st = "AwaitStarted i rule rt proxy"]) (use inv1 in \<open>simp_all add: inv_log\<close>)
  have "service_ok (handleUnexpectedClose (pr_id rule) msg (Some (i, rule, proxy)) ?S)" for msg
    by (rule inv_unexpected [OF inv1]) simp_all
  then show ?thesis unfolding start_persisted_def Let_def c using fin by simp
qed

lemma inv_stop_found:
  assumes inv: "service_inv [AwaitStopRule ruleId] S"
  shows "service_ok (stop_found ruleId rule S)"
proof (cases "active_of ruleId S")
  case None
  have "service_inv [AwaitStopped rule] S" by (rule inv_switch [OF inv]) simp_all
  then show ?thesis using None by (simp add: stop_found_def inv_suspend)
next
  case (Some i)
  have "service_ok (disposeRuntimeState i (FinishStop rule) (deactivate ruleId S))"
    by (rule inv_stop_active [OF inv _ Some]) simp_all
  then show ?thesis using Some by (simp add: stop_found_def)
qed

lemma inv_finish_stop: "service_inv [st] S \<Longrightarrow> start_of st = None \<Longrightarrow> (\<And>j. \<not> holds st j) \<Longrightarrow>
  service_ok (finish_stop ruleId res S)"
  by (auto simp: finish_stop_def inv_log intro: inv_end)

lemma inv_forwarded:
  assumes inv: "service_inv [AwaitForward i rule rt proxy] S"
  shows "service_ok (suspend (AwaitStarted i rule rt proxy)
    (let S1 = on_runtime rt (bind_runtime rule) S
     in S1\<lparr>ps_activeRules := map_set (pr_id rule) rt (ps_activeRules S1)\<rparr>))"
proof -
  have "holds (AwaitForward i rule rt proxy) rt" by simp
  from inv_stage_runtime [OF inv this] obtain r where r: "runtime_of rt S = Some r" by blast
  have live: "\<not> rt_disposed r" using inv r by (simp add: service_inv_but_def stages_def)
  have "service_inv [AwaitForward i rule rt proxy] (on_runtime rt (bind_runtime rule) S)"
    by (rule inv_runtime [OF inv r])
      (use live in \<open>auto simp: bind_runtime_def conn_ok_def split: rule_kind.split\<close>)
  from inv_suspend [OF inv_activate [OF this]] show ?thesis by (simp add: Let_def)
qed

lemma inv_resumed:
  assumes inv: "service_inv [st] S" and res: "resume X now st a S = Some S'"
  shows "service_ok S'"
proof -
  have start_threw: "service_ok (finish_start i r S)"
    if "start_of st = Some (si_ruleId i)" "\<And>j. \<not> holds st j" for i r
    by (rule inv_finish_start [OF inv that])
  have logged: "service_inv [st] (write_log l S)" for l using inv by (simp add: inv_log)
  show ?thesis
  proof (cases st)
    case (AwaitRule i)
    have "service_inv [AwaitTrustedKeys i rule] S" if "pr_id rule = si_ruleId i" for rule
      using inv AwaitRule that by (intro inv_switch [OF inv]) (auto simp: service_inv_but_def stages_def)
    then show ?thesis
      using res AwaitRule start_threw
      by (cases a) (auto split: if_splits option.splits intro!: inv_suspend elim!: option.exhaust resume.elims)
  next
    case (AwaitTrustedKeys i rule)
    then have "service_inv [AwaitClient i rule] S"
      using inv by (intro inv_switch [OF inv]) (auto simp: service_inv_but_def stages_def)
    then show ?thesis
      using res AwaitTrustedKeys start_threw by (cases a) (auto simp: inv_log intro!: inv_suspend)
  next
    case (AwaitClient i rule)
    then show ?thesis
      using res start_threw inv inv_client_opened by (cases a) auto
  next
    case (AwaitFailurePersisted i rule msg proxy)
    have "service_inv [st] (logStartFailure rule msg (write_log (FailurePersisted (pr_id rule) msg) S))"
      using inv by (simp add: logStartFailure_def inv_log)
    then have "service_ok (finish_start i (StartFailed msg)
       (logStartFailure rule msg (write_log (FailurePersisted (pr_id rule) msg) S)))"
      by (rule inv_finish_start) (simp_all add: AwaitFailurePersisted)
    then show ?thesis using res AwaitFailurePersisted start_threw by (cases a) auto
  next
    case (AwaitForward i rule rt proxy)
    then have "service_inv [AwaitForward i rule rt proxy] S" using inv by simp
    from inv_forwarded [OF this] inv_fail_forward [OF this] show ?thesis
      using res AwaitForward by (cases a) auto
  next
    case (AwaitStarted i rule rt proxy)
    then have "service_inv [AwaitStarted i rule rt proxy] S"
      "\<And>l. service_inv [AwaitStarted i rule rt proxy] (write_log l S)" using inv logged by simp_all
    from inv_update_threw [OF this(1)] inv_start_persisted [OF this(2)] show ?thesis
      using res AwaitStarted by (cases a) (auto split: if_splits option.splits elim!: resume.elims)
  next
    case (AwaitUnforward rt k)
    then show ?thesis
      using res inv inv_dispose_streams inv_dispose_threw by (cases a) auto
  next
    case (AwaitServerClose rt k)
    then show ?thesis using res inv inv_dispose_end by (cases a) auto
  next
    case (AwaitClosePersisted ruleId msg caller)
    have "service_ok (close_returned msg caller S0)" if "service_inv [st] S0" for S0
      by (rule inv_close_returned [OF that, where ruleId = ruleId and msg = msg])
        (cases caller, auto simp: AwaitClosePersisted)
    then show ?thesis using res AwaitClosePersisted inv logged by (cases a) auto
  next
    case (AwaitStopRule ruleId)
    then show ?thesis
      using res inv inv_stop_found inv_finish_stop
      by (cases a) (auto split: if_splits option.splits elim!: resume.elims)
  next
    case (AwaitStopped rule)
    have "service_ok S" by (rule inv_end [OF inv]) (simp_all add: AwaitStopped)
    then show ?thesis
      using res AwaitStopped
      by (cases a) (auto simp: inv_log finish_stop_def split: if_splits option.splits elim!: resume.elims)
  qed
qed


lemma inv_unexpected_event:
  assumes inv: "service_ok S"
  shows "service_ok (handleUnexpectedClose ruleId msg None S)"
proof -
  have "service_inv [AwaitStopRule []] S" by (rule inv_begin [OF inv]) simp_all
  then show ?thesis by (rule inv_unexpected) simp_all
qed

lemma inv_client_event:
  assumes inv: "service_ok S"
  shows "service_ok (client_event rt msg f S)"
  using inv inv_unexpected_event [OF inv_client [OF inv]] inv_client [OF inv]
  by (auto simp: client_event_def Let_def split: option.split)

lemma after_disposed_active:
  "ps_activeRules (disposeRuntimeState i FinishShutdown S) = ps_activeRules S"
  by (simp add: disposeRuntimeState_def Let_def dispose_streams_def dispose_end_def suspend_def on_runtime_def
      split: option.split)

lemma dispose_shutdown_commute:
  "disposeRuntimeState i FinishShutdown (S\<lparr>ps_activeRules := A\<rparr>) =
     (disposeRuntimeState i FinishShutdown S)\<lparr>ps_activeRules := A\<rparr>"
  by (simp add: disposeRuntimeState_def Let_def dispose_streams_def dispose_end_def suspend_def on_runtime_def
      split: option.split)

lemma inv_stop_all:
  assumes inv: "service_ok S"
  shows "service_ok (stop_all S)"
proof -
  have "service_ok (fold (\<lambda>e. disposeRuntimeState (snd e) FinishShutdown) es (S\<lparr>ps_activeRules := []\<rparr>))"
    if "service_ok S" "ps_activeRules S = es" for es S
    using that
  proof (induction es arbitrary: S)
    case Nil
    then show ?case by (cases S) simp
  next
    case (Cons e es)
    obtain q i where e: "e = (q, i)" by (cases e)
    let ?S = "disposeRuntimeState i FinishShutdown (deactivate q S)"
    have "distinct (map fst (e # es))" using Cons.prems by (simp add: service_inv_but_def keys_ok_def)
    then have del: "map_delete q (e # es) = es"
      unfolding map_delete_def e by (auto simp: image_iff intro!: filter_True)
    have "service_inv [AwaitStopRule []] S" by (rule inv_begin [OF Cons.prems(1)]) simp_all
    then have "service_ok ?S"
      by (rule inv_stop_active) (use Cons.prems e in simp_all)
    moreover have act: "ps_activeRules ?S = es"
      using Cons.prems del by (simp add: after_disposed_active deactivate_def)
    ultimately have "service_ok (fold (\<lambda>e. disposeRuntimeState (snd e) FinishShutdown) es (?S\<lparr>ps_activeRules := []\<rparr>))"
      by (rule Cons.IH)
    moreover have "?S\<lparr>ps_activeRules := []\<rparr> = disposeRuntimeState i FinishShutdown (S\<lparr>ps_activeRules := []\<rparr>)"
      by (simp add: deactivate_def flip: dispose_shutdown_commute)
    ultimately show ?case by (simp add: e)
  qed
  from this [OF inv refl] show ?thesis by (simp add: stop_all_def)
qed

lemma inv_runtime_event:
  assumes inv: "service_ok S"
  shows "service_ok (on_runtime rt (connection_step T e) S)"
proof (cases "runtime_of rt S")
  case (Some r)
  have "same_life r (connection_step T e r)" by (rule same_life_step)
  then show ?thesis
    by (intro inv_runtime [OF inv Some]) (auto simp: same_life_def conn_ok_step)
next
  case None
  then have "update_entry rt f (ps_runtimes S) = ps_runtimes S" for f
    by (intro update_entry_same) simp
  then show ?thesis using inv by (simp add: on_runtime_def)
qed

theorem port_forward_step_ok:
  assumes inv: "service_ok S"
  shows "service_ok (service_step X e S)"
proof (cases "(X, e, S)" rule: service_step.cases)
  case (1 X now i S)
  then show ?thesis
    using inv inv_starting by (cases "isRuleActive (si_ruleId i) S") (auto simp: startRule_def inv_log)
next
  case (2 X now ruleId S)
  have "service_inv [AwaitStopRule ruleId] S" by (rule inv_begin) (use 2 inv in simp_all)
  then show ?thesis using 2 by (simp add: stopRule_def inv_suspend)
next
  case (4 X now n a S)
  then show ?thesis
    using inv by (auto split: option.split intro: inv_resumed [OF inv_resume])
next
  case (7 X now rt e S)
  then show ?thesis using inv inv_runtime_event by (auto split: option.split)
qed (use inv inv_stop_all inv_client_event in auto)

end
