(* ===== verification/PortForwardFlow.thy ===== *)
theory PortForwardFlow
  imports PortForwardProofs
begin

text \<open>
  What arrives on a socket is passed on: the bytes written to the channel of a forwarded connection
  are the bytes that arrived on its socket, however the events of the connections interleave.
\<close>

section \<open>What a socket has sent and a channel has received\<close>

definition accepted_data :: "nat \<Rightarrow> pf_event \<Rightarrow> pf_runtime \<Rightarrow> bytes" where
  "accepted_data s e rt =
     (case e of
        SocketData s' addr port chunk \<Rightarrow>
          (case socket_of s rt of
             Some k \<Rightarrow> if s' = s \<and> \<not> sk_destroyed k \<and> \<not> sk_closed k then chunk else []
           | None \<Rightarrow> [])
      | _ \<Rightarrow> [])"

fun arrived :: "pf_target \<Rightarrow> nat \<Rightarrow> pf_event list \<Rightarrow> pf_runtime \<Rightarrow> bytes" where
  "arrived T s [] rt = []"
| "arrived T s (e # es) rt = accepted_data s e rt @ arrived T s es (connection_step T e rt)"

fun written :: "nat \<Rightarrow> pf_effect \<Rightarrow> bytes" where
  "written c (ChannelWrote c' bs) = (if c' = c then bs else [])"
| "written c e = []"

definition channel_output :: "nat \<Rightarrow> pf_runtime \<Rightarrow> bytes" where
  "channel_output c rt = concat (map (written c) (rt_effects rt))"

lemma channel_output_frame [simp]:
  "channel_output c (on_socket s f rt) = channel_output c rt"
  "channel_output c (on_channel c' g rt) = channel_output c rt"
  "channel_output c (add_channel c' h rt) = channel_output c rt"
  "channel_output c (add_socket s k rt) = channel_output c rt"
  "channel_output c (rt\<lparr>rt_channels := cs\<rparr>) = channel_output c rt"
  "channel_output c (rt\<lparr>rt_remoteSockets := ss\<rparr>) = channel_output c rt"
  "channel_output c (rt\<lparr>rt_channels := cs, rt_activeConnectionCount := n\<rparr>) = channel_output c rt"
  by (simp_all add: channel_output_def on_socket_def on_channel_def add_channel_def add_socket_def)

lemma stores_frame [simp]:
  "rt_channelStore (on_socket s f rt) = rt_channelStore rt"
  "rt_sockets (on_channel c g rt) = rt_sockets rt"
  by (simp_all add: on_socket_def on_channel_def)

section \<open>The flow invariant\<close>

text \<open>\<open>D s\<close> are the bytes that have arrived on the socket so far.\<close>

definition flow_socket ::
    "(nat \<Rightarrow> pf_channel option) \<Rightarrow> (nat \<Rightarrow> bytes) \<Rightarrow> (nat \<Rightarrow> bytes) \<Rightarrow> nat \<Rightarrow> pf_socket \<Rightarrow> bool" where
  "flow_socket C W D s k \<longleftrightarrow>
     (\<forall>c. sk_consumer k = PipedTo c \<or> sk_role k = TargetSocket c \<longrightarrow>
        (\<exists>h. C c = Some h \<and> ch_socket h = Some s)) \<and>
     (sk_consumer k \<in> {DataListener, Unattended} \<longrightarrow> sk_role k = DynamicSocket) \<and>
     (sk_forwarding k \<longrightarrow> sk_role k = DynamicSocket \<or> sk_role k = LocalSocket \<and> sk_consumer k = Paused) \<and>
     (\<forall>c. sk_role k = TargetSocket c \<and> sk_consumer k = Paused \<longrightarrow> W c = []) \<and>
     (sk_role k \<noteq> DynamicSocket \<and> \<not> sk_destroyed k \<longrightarrow>
        (sk_consumer k = Paused \<longrightarrow> sk_pending k = D s) \<and>
        (\<forall>c h. sk_consumer k = PipedTo c \<and> C c = Some h \<and> \<not> ch_destroyed h \<longrightarrow> W c = D s))"

definition flow_ok :: "pf_runtime \<Rightarrow> (nat \<Rightarrow> bytes) \<Rightarrow> bool" where
  "flow_ok rt D \<longleftrightarrow>
     (\<forall>s k. socket_of s rt = Some k \<longrightarrow>
        flow_socket (map_of (rt_channelStore rt)) (\<lambda>c. channel_output c rt) D s k) \<and>
     (\<forall>s. socket_of s rt = None \<longrightarrow> D s = []) \<and>
     (\<forall>c. channel_of c rt = None \<longrightarrow> channel_output c rt = [])"

lemma flow_socketD: "flow_ok rt D \<Longrightarrow> socket_of s rt = Some k \<Longrightarrow>
  flow_socket (map_of (rt_channelStore rt)) (\<lambda>c. channel_output c rt) D s k"
  by (simp add: flow_ok_def)

lemma flow_okI:
  assumes "\<And>s k. socket_of s rt = Some k \<Longrightarrow>
      flow_socket (map_of (rt_channelStore rt)) (\<lambda>c. channel_output c rt) D s k"
    and "\<And>s. socket_of s rt = None \<Longrightarrow> D s = []"
    and "\<And>c. channel_of c rt = None \<Longrightarrow> channel_output c rt = []"
  shows "flow_ok rt D"
  using assms by (simp add: flow_ok_def)

lemma flow_noneD: "flow_ok rt D \<Longrightarrow> socket_of s rt = None \<Longrightarrow> D s = []"
  by (simp add: flow_ok_def)

lemma flow_outputD: "flow_ok rt D \<Longrightarrow> channel_of c rt = None \<Longrightarrow> channel_output c rt = []"
  by (simp add: flow_ok_def)

lemma flow_socket_mono:
  assumes ok: "flow_socket C W D s k" and D: "D' s = D s"
    and C: "\<And>c h. C c = Some h \<Longrightarrow> ch_socket h = Some s \<Longrightarrow>
      \<exists>h'. C' c = Some h' \<and> ch_socket h' = Some s \<and> (ch_destroyed h \<longrightarrow> ch_destroyed h') \<and> W' c = W c"
  shows "flow_socket C' W' D' s k"
proof -
  have own: "\<exists>h h'. C c = Some h \<and> C' c = Some h' \<and> ch_socket h' = Some s \<and>
      (ch_destroyed h \<longrightarrow> ch_destroyed h') \<and> W' c = W c"
    if "sk_consumer k = PipedTo c \<or> sk_role k = TargetSocket c" for c
    using ok that C unfolding flow_socket_def by blast
  show ?thesis
    unfolding flow_socket_def
  proof (intro conjI allI impI)
    fix c assume "sk_consumer k = PipedTo c \<or> sk_role k = TargetSocket c"
    then show "\<exists>h. C' c = Some h \<and> ch_socket h = Some s" using own by blast
  next
    assume "sk_consumer k \<in> {DataListener, Unattended}"
    then show "sk_role k = DynamicSocket" using ok by (simp add: flow_socket_def)
  next
    assume "sk_forwarding k"
    then show "sk_role k = DynamicSocket \<or> sk_role k = LocalSocket \<and> sk_consumer k = Paused"
      using ok by (simp add: flow_socket_def)
  next
    fix c assume "sk_role k = TargetSocket c \<and> sk_consumer k = Paused"
    then show "W' c = []" using ok own [of c] by (auto simp: flow_socket_def)
  next
    assume "sk_role k \<noteq> DynamicSocket \<and> \<not> sk_destroyed k" "sk_consumer k = Paused"
    then show "sk_pending k = D' s" using ok D by (simp add: flow_socket_def)
  next
    fix c h
    assume a: "sk_role k \<noteq> DynamicSocket \<and> \<not> sk_destroyed k"
      and b: "sk_consumer k = PipedTo c \<and> C' c = Some h \<and> \<not> ch_destroyed h"
    then obtain g where "C c = Some g" "\<not> ch_destroyed g" "W' c = W c" using own [of c] by auto
    then show "W' c = D' s" using ok a b D by (simp add: flow_socket_def)
  qed
qed

text \<open>The flow of a runtime is a matter of its stores and of what it wrote.\<close>
lemma flow_ok_cong:
  assumes "rt_sockets a = rt_sockets b" and "rt_channelStore a = rt_channelStore b"
    and "\<And>c. channel_output c a = channel_output c b"
  shows "flow_ok a D = flow_ok b D"
  using assms by (simp add: flow_ok_def)

named_theorems flow_intros \<open>operations that keep the flow\<close>

lemma flow_on_socket:
  assumes "flow_ok rt D"
    and "\<And>k. sk_role (f k) = sk_role k" and "\<And>k. sk_consumer (f k) = sk_consumer k"
    and "\<And>k. sk_pending (f k) = sk_pending k" and "\<And>k. sk_destroyed k \<Longrightarrow> sk_destroyed (f k)"
    and "\<And>k. sk_forwarding (f k) \<Longrightarrow> sk_forwarding k"
  shows "flow_ok (on_socket s f rt) D"
proof -
  have "flow_socket C W D s (f k)" if "flow_socket C W D s k" for C W k
    using that assms(5,6) [of k] by (auto simp: flow_socket_def assms(2-4))
  then show ?thesis
    using assms(1) by (auto simp: flow_ok_def on_socket_def channel_output_def)
qed

lemma flow_socket_fields [flow_intros]:
  assumes "flow_ok rt D"
  shows "flow_ok (destroy_socket s rt) D" and "flow_ok (set_timeout n s rt) D"
    and "flow_ok (on_socket s (\<lambda>k. k\<lparr>sk_forwarding := False\<rparr>) rt) D"
    and "flow_ok (on_socket s (\<lambda>k. k\<lparr>sk_channel := c\<rparr>) rt) D"
    and "flow_ok (on_socket s (\<lambda>k. k\<lparr>sk_initialData := p\<rparr>) rt) D"
    and "flow_ok (on_socket s (\<lambda>k. k\<lparr>sk_buffer := p\<rparr>) rt) D"
    and "flow_ok (on_socket s (\<lambda>k. k\<lparr>sk_buffer := p, sk_stage := g\<rparr>) rt) D"
    and "flow_ok (on_socket s (\<lambda>k. k\<lparr>sk_closed := True, sk_destroyed := True\<rparr>) rt) D"
  unfolding destroy_socket_def set_timeout_def
  by (rule flow_on_socket [OF assms], simp_all)+

lemma flow_on_channel:
  assumes "flow_ok rt D"
    and "\<And>h. ch_socket (f h) = ch_socket h" and "\<And>h. ch_destroyed h \<Longrightarrow> ch_destroyed (f h)"
  shows "flow_ok (on_channel c f rt) D"
proof -
  let ?C = "map_of (rt_channelStore rt)"
  have "flow_socket (map_of (update_entry c f (rt_channelStore rt))) W D s k"
    if "flow_socket ?C W D s k" for W s k
    by (rule flow_socket_mono [OF that]) (use assms(2,3) in auto)
  then show ?thesis
    using assms(1) by (auto simp: flow_ok_def on_channel_def channel_output_def)
qed

lemma flow_channel_fields [flow_intros]:
  assumes "flow_ok rt D"
  shows "flow_ok (destroy_channel c rt) D"
    and "flow_ok (on_channel c (\<lambda>h. h\<lparr>ch_closed := True, ch_destroyed := True\<rparr>) rt) D"
    and "flow_ok (on_channel c (\<lambda>h. h\<lparr>ch_consumer := x, ch_pending := p\<rparr>) rt) D"
    and "flow_ok (on_channel c (\<lambda>h. h\<lparr>ch_pending := ch_pending h @ p\<rparr>) rt) D"
  unfolding destroy_channel_def by (rule flow_on_channel [OF assms], simp_all)+

lemma flow_record_fields [flow_intros]:
  assumes "flow_ok rt D"
  shows "flow_ok (rt\<lparr>rt_channels := cs\<rparr>) D" and "flow_ok (rt\<lparr>rt_lastError := m\<rparr>) D"
    and "flow_ok (set_last_error msg rt) D" and "flow_ok (untrackLocalSocket s rt) D"
    and "flow_ok (trackLocalSocket s rt) D"
    and "flow_ok (rt\<lparr>rt_channels := cs, rt_activeConnectionCount := n\<rparr>) D"
    and "flow_ok (rt\<lparr>rt_remoteSockets := ss\<rparr>) D"
    and "flow_ok (rt\<lparr>rt_channels := cs, rt_remoteSockets := ss, rt_activeConnectionCount := n\<rparr>) D"
  using assms
  by (simp_all add: flow_ok_def channel_output_def set_last_error_def untrackLocalSocket_def
      trackLocalSocket_def)

lemma flow_emit [flow_intros]:
  assumes "flow_ok rt D" and "\<And>c. written c e = []"
  shows "flow_ok (emit_effect e rt) D"
  using assms by (simp add: flow_ok_def channel_output_def emit_effect_def)

lemma flow_write_socket [flow_intros]: "flow_ok rt D \<Longrightarrow> flow_ok (write_socket s bs rt) D"
  by (auto simp: write_socket_def split: option.splits intro!: flow_intros)

lemma flow_write_all [flow_intros]: "flow_ok rt D \<Longrightarrow> flow_ok (write_all s bs rt) D"
  by (induction s bs rt rule: write_all.induct) (auto intro: flow_intros)

lemma flow_pipe_channel [flow_intros]: "flow_ok rt D \<Longrightarrow> flow_ok (pipe_channel c s rt) D"
  by (auto simp: pipe_channel_def split: option.splits intro!: flow_intros)

text \<open>An update of one socket that may change what its flow depends on.\<close>
lemma flow_update_socket:
  assumes ok: "flow_ok rt D" and k: "socket_of s rt = Some k"
    and new: "flow_socket (map_of (rt_channelStore rt)) (\<lambda>c. channel_output c rt) E s (f k)"
    and D: "\<And>s'. s' \<noteq> s \<Longrightarrow> E s' = D s'"
  shows "flow_ok (on_socket s f rt) E"
proof (rule flow_okI)
  fix s' k' assume a: "socket_of s' (on_socket s f rt) = Some k'"
  have "flow_socket (map_of (rt_channelStore rt)) (\<lambda>c. channel_output c rt) E s' k'"
  proof (cases "s' = s")
    case True
    then show ?thesis using a k new by (simp add: on_socket_def)
  next
    case False
    then have "socket_of s' rt = Some k'" using a by (simp add: on_socket_def)
    from flow_socketD [OF ok this] show ?thesis
      by (rule flow_socket_mono) (use D False in auto)
  qed
  then show "flow_socket (map_of (rt_channelStore (on_socket s f rt))) (\<lambda>c. channel_output c (on_socket s f rt)) E s' k'"
    by simp
next
  fix s' assume "socket_of s' (on_socket s f rt) = None"
  then have "s' \<noteq> s" "socket_of s' rt = None" using k by (auto simp: on_socket_def split: if_splits)
  then show "E s' = []" using flow_noneD [OF ok] D by simp
next
  fix c assume "channel_of c (on_socket s f rt) = None"
  then show "channel_output c (on_socket s f rt) = []"
    using flow_outputD [OF ok, of c] by (simp add: on_socket_def channel_output_def)
qed

lemma flow_forwardOut:
  assumes ok: "flow_ok rt D" and k: "socket_of s rt = Some k"
    and role: "sk_role k = DynamicSocket \<or> sk_role k = LocalSocket \<and> sk_consumer k = Paused"
  shows "flow_ok (forwardOut s x y h p rt) D"
proof -
  let ?rt = "emit_effect (ForwardOutRequested s (case x of None \<Rightarrow> js ''127.0.0.1'' | Some a \<Rightarrow> a)
      (case y of None \<Rightarrow> 0 | Some p \<Rightarrow> p) h p) rt"
  have ok': "flow_ok ?rt D" by (intro flow_emit ok) simp
  have k': "socket_of s ?rt = Some k" using k by (simp add: emit_effect_def)
  show ?thesis
    unfolding forwardOut_def
    by (rule flow_update_socket [OF ok' k'])
      (use flow_socketD [OF ok' k'] role in \<open>auto simp: flow_socket_def\<close>)
qed

lemma channel_output_write:
  "channel_output c' (write_channel c bs rt) =
     (case channel_of c rt of
        Some h \<Rightarrow> if ch_destroyed h \<or> c' \<noteq> c then channel_output c' rt else channel_output c' rt @ bs
      | None \<Rightarrow> channel_output c' rt)"
  by (auto simp: write_channel_def channel_output_def emit_effect_def split: option.splits)

lemma write_channel_fields [simp]:
  "rt_sockets (write_channel c bs rt) = rt_sockets rt"
  "rt_channelStore (write_channel c bs rt) = rt_channelStore rt"
  by (auto simp: write_channel_def emit_effect_def split: option.splits)

text \<open>A new channel has received nothing.\<close>
lemma flow_add_channel:
  assumes "flow_ok rt D" and "channel_of c rt = None"
  shows "flow_ok (add_channel c h rt) D"
proof -
  have out: "channel_output c' (add_channel c h rt) = channel_output c' rt" for c'
    by (simp add: add_channel_def channel_output_def)
  show ?thesis
  proof (rule flow_okI)
    fix s k assume "socket_of s (add_channel c h rt) = Some k"
    then have "socket_of s rt = Some k" by (simp add: add_channel_def)
    from flow_socketD [OF assms(1) this]
    show "flow_socket (map_of (rt_channelStore (add_channel c h rt))) (\<lambda>c'. channel_output c' (add_channel c h rt)) D s k"
      by (rule flow_socket_mono)
        (use assms(2) in \<open>auto simp: out, auto simp: add_channel_def map_add_def split: option.splits\<close>)
  next
    fix s assume "socket_of s (add_channel c h rt) = None"
    then show "D s = []" using flow_noneD [OF assms(1), of s] by (simp add: add_channel_def)
  next
    fix c' assume "channel_of c' (add_channel c h rt) = None"
    then have "channel_of c' rt = None" by (auto simp: add_channel_def map_add_def split: option.splits)
    then show "channel_output c' (add_channel c h rt) = []"
      using flow_outputD [OF assms(1)] by (simp add: out)
  qed
qed

text \<open>A new socket has sent nothing.\<close>
lemma flow_add_socket:
  assumes "flow_ok rt D" and "socket_of s rt = None"
    and "flow_socket (map_of (rt_channelStore rt)) (\<lambda>c. channel_output c rt) D s k"
  shows "flow_ok (add_socket s k rt) D"
  using assms by (auto simp: flow_ok_def add_socket_def channel_output_def map_add_def split: option.splits)

text \<open>Bytes written to a channel on behalf of the socket that owns it.\<close>
lemma flow_write_owner:
  assumes ok: "flow_ok rt D" and s: "socket_of s rt = Some k"
    and c: "channel_of c rt = Some h" "ch_socket h = Some s"
    and free: "\<And>c'. sk_role k = TargetSocket c' \<Longrightarrow> sk_consumer k \<noteq> Paused"
    and flow: "\<And>c'. sk_role k \<noteq> DynamicSocket \<Longrightarrow> sk_consumer k = PipedTo c' \<Longrightarrow> c' = c"
    and paused: "sk_role k \<noteq> DynamicSocket \<Longrightarrow> sk_consumer k \<noteq> Paused"
  shows "flow_ok (write_channel c bs rt) (D(s := D s @ bs))"
proof -
  have None: "socket_of s' rt = None \<Longrightarrow> (D(s := D s @ bs)) s' = []" for s'
    using ok s by (auto simp: flow_ok_def)
  have "flow_socket (map_of (rt_channelStore rt)) (\<lambda>c'. channel_output c' (write_channel c bs rt)) (D(s := D s @ bs)) s' k'"
    if k': "socket_of s' rt = Some k'" for s' k'
  proof (cases "s' = s")
    case True
    with k' s have [simp]: "k' = k" by simp
    note old = flow_socketD [OF ok s]
    have W: "channel_output c' (write_channel c bs rt) = channel_output c' rt" if "c' \<noteq> c" for c'
      using that c by (simp add: channel_output_write)
    show ?thesis
      unfolding flow_socket_def
    proof (intro conjI allI impI)
      fix c' assume "sk_consumer k' = PipedTo c' \<or> sk_role k' = TargetSocket c'"
      then show "\<exists>h. channel_of c' rt = Some h \<and> ch_socket h = Some s'"
        using old True \<open>k' = k\<close> unfolding flow_socket_def by blast
    next
      assume "sk_consumer k' \<in> {DataListener, Unattended}"
      then show "sk_role k' = DynamicSocket" using old by (simp add: flow_socket_def)
    next
      assume "sk_forwarding k'"
      then show "sk_role k' = DynamicSocket \<or> sk_role k' = LocalSocket \<and> sk_consumer k' = Paused"
        using old by (simp add: flow_socket_def)
    next
      fix c' assume "sk_role k' = TargetSocket c' \<and> sk_consumer k' = Paused"
      then show "channel_output c' (write_channel c bs rt) = []" using free by auto
    next
      assume "sk_role k' \<noteq> DynamicSocket \<and> \<not> sk_destroyed k'" "sk_consumer k' = Paused"
      then show "sk_pending k' = (D(s := D s @ bs)) s'" using paused True by simp
    next
      fix c' h'
      assume a: "sk_role k' \<noteq> DynamicSocket \<and> \<not> sk_destroyed k'"
        and b: "sk_consumer k' = PipedTo c' \<and> channel_of c' rt = Some h' \<and> \<not> ch_destroyed h'"
      then have "c' = c" using flow by simp
      then show "channel_output c' (write_channel c bs rt) = (D(s := D s @ bs)) s'"
        using a b True old c by (simp add: flow_socket_def channel_output_write)
    qed
  next
    case False
    then show ?thesis
      by (intro flow_socket_mono [OF flow_socketD [OF ok k']])
        (use c in \<open>auto simp: channel_output_write\<close>)
  qed
  moreover have "channel_output c' (write_channel c bs rt) = []" if "channel_of c' rt = None" for c'
    using that ok c by (auto simp: channel_output_write flow_ok_def)
  ultimately show ?thesis using None by (auto intro!: flow_okI)
qed


lemma flow_dynamic:
  assumes ok: "flow_ok rt D" and s: "socket_of s rt = Some k" and dyn: "sk_role k = DynamicSocket"
  shows "flow_ok rt (D(s := x))"
proof (rule flow_okI)
  fix s' k' assume k': "socket_of s' rt = Some k'"
  show "flow_socket (map_of (rt_channelStore rt)) (\<lambda>c. channel_output c rt) (D(s := x)) s' k'"
    using flow_socketD [OF ok k'] k' s dyn by (cases "s' = s") (auto simp: flow_socket_def)
qed (use flow_noneD [OF ok] flow_outputD [OF ok] s in auto)

text \<open>Piping the socket to its channel passes on what waits.\<close>
lemma flow_pipe_socket:
  assumes ok: "flow_ok rt D" and s: "socket_of s rt = Some k"
    and c: "channel_of c rt = Some h" "ch_socket h = Some s"
    and start: "sk_role k = DynamicSocket \<or>
      channel_output c rt = [] \<and> sk_consumer k = Paused \<and> \<not> sk_forwarding k"
  shows "flow_ok (pipe_socket s c rt) D"
proof (cases "sk_destroyed k")
  case False
  let ?w = "write_channel c (sk_pending k) rt"
  let ?f = "\<lambda>k. k\<lparr>sk_consumer := PipedTo c, sk_pending := []\<rparr>"
  let ?r = "on_socket s ?f ?w"
  have "flow_ok ?r D"
  proof (rule flow_okI)
    fix s' k' assume a: "socket_of s' ?r = Some k'"
    have "flow_socket (map_of (rt_channelStore rt)) (\<lambda>c. channel_output c ?w) D s' k'"
    proof (cases "s' = s")
      case True
      then have "k' = ?f k" using a s by (simp add: on_socket_def)
      then show ?thesis
        using flow_socketD [OF ok s] True c False start
        unfolding flow_socket_def by (auto simp: channel_output_write)
    next
      case False
      then have "socket_of s' rt = Some k'" using a by (simp add: on_socket_def)
      from flow_socketD [OF ok this] show ?thesis
        by (rule flow_socket_mono) (use c False in \<open>auto simp: channel_output_write\<close>)
    qed
    then show "flow_socket (map_of (rt_channelStore ?r)) (\<lambda>c. channel_output c ?r) D s' k'"
      by simp
  next
    fix s' assume "socket_of s' ?r = None"
    then show "D s' = []" using flow_noneD [OF ok, of s'] s by (auto simp: on_socket_def split: if_splits)
  next
    fix c' assume "channel_of c' ?r = None"
    then have "channel_of c' rt = None" by (simp add: on_socket_def)
    then show "channel_output c' ?r = []"
      using flow_outputD [OF ok, of c'] c by (auto simp: channel_output_write)
  qed
  then show ?thesis using s False by (simp add: pipe_socket_def)
qed (use ok s in \<open>simp add: pipe_socket_def\<close>)

section \<open>The flow of every event\<close>

lemma socket_of_simps [simp]:
  "socket_of s (on_socket s' f rt) = (if s = s' then map_option f (socket_of s' rt) else socket_of s rt)"
  "socket_of s (on_channel c g rt) = socket_of s rt"
  "socket_of s (add_channel c h rt) = socket_of s rt"
  "socket_of s (emit_effect e rt) = socket_of s rt"
  "socket_of s (set_last_error m rt) = socket_of s rt"
  "socket_of s (write_socket s' bs rt) = socket_of s rt"
  "channel_of c (on_socket s' f rt) = channel_of c rt"
  "channel_of c (on_channel c' g rt) = (if c = c' then map_option g (channel_of c' rt) else channel_of c rt)"
  "channel_of c (add_socket s' k rt) = channel_of c rt"
  "channel_of c (emit_effect e rt) = channel_of c rt"
  "channel_of c (set_last_error m rt) = channel_of c rt"
  "channel_of c (write_socket s' bs rt) = channel_of c rt"
  "channel_of c rt = None \<Longrightarrow> channel_of c (add_channel c h rt) = Some h"
  "socket_of s rt = None \<Longrightarrow> socket_of s (add_socket s k rt) = Some k"
  by (auto simp: on_socket_def on_channel_def add_channel_def add_socket_def emit_effect_def
      set_last_error_def write_socket_def map_add_def split: option.split)

lemma channel_output_writes [simp]:
  "channel_output c (write_socket s bs rt) = channel_output c rt"
  "channel_output c (set_last_error m rt) = channel_output c rt"
  by (auto simp: write_socket_def emit_effect_def channel_output_def set_last_error_def split: option.split)

lemma flow_pipe_both:
  assumes ok: "flow_ok rt D" and s: "socket_of s rt = Some k"
    and c: "channel_of c rt = Some h" "ch_socket h = Some s"
    and start: "sk_role k = DynamicSocket \<or>
      channel_output c rt = [] \<and> sk_consumer k = Paused \<and> \<not> sk_forwarding k"
  shows "flow_ok (pipeSocketAndChannel s c rt) D"
proof -
  let ?r = "set_timeout 0 s (rt\<lparr>rt_channels := set_add c (rt_channels rt)\<rparr>)"
  have "flow_ok ?r D" by (intro flow_intros ok)
  moreover have "socket_of s ?r = Some (k\<lparr>sk_timeout := 0\<rparr>)" using s by (simp add: set_timeout_def)
  moreover have "channel_of c ?r = Some h" using c by (simp add: set_timeout_def)
  ultimately have "flow_ok (pipe_socket s c ?r) D"
    by (rule flow_pipe_socket [OF _ _ _ c(2)]) (use start in \<open>simp add: set_timeout_def\<close>)
  then show ?thesis unfolding pipeSocketAndChannel_def by (intro flow_intros)
qed

lemma flow_answered:
  assumes ok: "flow_ok rt D" and k: "socket_of s rt = Some k" and f: "sk_forwarding k"
    and new: "\<And>c. answer = Inr c \<Longrightarrow> channel_of c rt = None"
  shows "flow_ok (forwardOut_answered s answer rt) D"
proof (cases answer)
  case (Inl msg)
  then show ?thesis using ok k by (auto simp: forwardOut_answered_def Let_def intro!: flow_intros)
next
  case (Inr c)
  let ?r1 = "on_socket s (\<lambda>k. k\<lparr>sk_forwarding := False\<rparr>) rt"
  let ?r2 = "add_channel c (new_channel (Some s) False) ?r1"
  let ?k = "k\<lparr>sk_forwarding := False\<rparr>"
  let ?h = "new_channel (Some s) False"
  have none: "channel_of c rt = None" using new Inr by simp
  have ok1: "flow_ok ?r1 D" by (intro flow_intros ok)
  have ok2: "flow_ok ?r2 D" by (rule flow_add_channel [OF ok1]) (simp add: none)
  have h: "channel_of c ?r2 = Some ?h" "ch_socket ?h = Some s" using none by (simp_all add: new_channel_def)
  have k2: "socket_of s ?r2 = Some ?k" using k by simp
  show ?thesis
  proof (cases "sk_role k = DynamicSocket")
    case True
    let ?w = "write_socket s (writeSocks5Response 0x00) ?r2"
    let ?r3 = "write_channel c (sk_initialData k) ?w"
    have okw: "flow_ok ?w D" by (intro flow_intros ok2)
    have kw: "socket_of s ?w = Some ?k" and hw: "channel_of c ?w = Some ?h" using k2 h by simp_all
    have "flow_ok ?r3 (D(s := D s @ sk_initialData k))"
      by (rule flow_write_owner [OF okw kw hw h(2)]) (use True in simp_all)
    moreover have k3: "socket_of s ?r3 = Some ?k" using kw by simp
    ultimately have "flow_ok ?r3 ((D(s := D s @ sk_initialData k))(s := D s))"
      by (rule flow_dynamic) (use True in simp)
    then have ok3: "flow_ok ?r3 D" by simp
    have "flow_ok (pipeSocketAndChannel s c ?r3) D"
      by (rule flow_pipe_both [OF ok3 k3 _ h(2)]) (use hw True in simp_all)
    then show ?thesis using k Inr True by (simp add: forwardOut_answered_def Let_def)
  next
    case False
    have "sk_consumer k = Paused"
      using flow_socketD [OF ok k] False f by (simp add: flow_socket_def)
    moreover have "channel_output c ?r2 = []" using flow_outputD [OF ok none] by simp
    ultimately have "flow_ok (pipeSocketAndChannel s c ?r2) D"
      by (intro flow_pipe_both [OF ok2 k2 h]) simp_all
    then show ?thesis using k Inr False by (simp add: forwardOut_answered_def Let_def)
  qed
qed

lemma flow_arrived:
  assumes ok: "flow_ok rt D" and none: "socket_of s rt = None"
    and role: "r = UntrackedSocket \<or> r = LocalSocket \<or> r = DynamicSocket"
  shows "flow_ok (add_socket s (new_socket r) rt) D"
  by (rule flow_add_socket [OF ok none])
    (use role flow_noneD [OF ok none] in \<open>auto simp: flow_socket_def new_socket_def\<close>)

lemma track_socket_of [simp]: "socket_of s (trackLocalSocket s' rt) = socket_of s rt"
  by (simp add: trackLocalSocket_def)

lemma flow_local:
  assumes ok: "flow_ok rt D" and none: "socket_of s rt = None"
  shows "flow_ok (handleLocalTcpConnection h p s x y rt) D"
proof (cases "rt_activeConnectionCount rt \<ge> MAX_ACTIVE_CONNECTIONS_PER_RULE")
  case True
  then show ?thesis
    unfolding handleLocalTcpConnection_def by (auto intro!: flow_intros flow_arrived [OF ok none])
next
  case False
  let ?r = "set_timeout FORWARD_CONNECTION_TIMEOUT_MS s (trackLocalSocket s (add_socket s (new_socket LocalSocket) rt))"
  have "flow_ok ?r D" by (intro flow_intros flow_arrived [OF ok none]) simp
  moreover have "socket_of s ?r = Some ((new_socket LocalSocket)\<lparr>sk_timeout := FORWARD_CONNECTION_TIMEOUT_MS\<rparr>)"
    using none by (simp add: set_timeout_def)
  ultimately have "flow_ok (forwardOut s x y h p ?r) D"
    by (rule flow_forwardOut) (simp add: new_socket_def)
  then show ?thesis using False by (simp add: handleLocalTcpConnection_def)
qed

lemma flow_listen:
  assumes ok: "flow_ok rt D" and none: "socket_of s rt = None"
  shows "flow_ok (handleDynamicTcpConnection s rt) D"
proof (cases "rt_activeConnectionCount rt \<ge> MAX_ACTIVE_CONNECTIONS_PER_RULE")
  case True
  then show ?thesis
    unfolding handleDynamicTcpConnection_def by (auto intro!: flow_intros flow_arrived [OF ok none])
next
  case False
  let ?r = "set_timeout FORWARD_CONNECTION_TIMEOUT_MS s (trackLocalSocket s (add_socket s (new_socket DynamicSocket) rt))"
  have ok': "flow_ok ?r D" by (intro flow_intros flow_arrived [OF ok none]) simp
  have "socket_of s ?r = Some ((new_socket DynamicSocket)\<lparr>sk_timeout := FORWARD_CONNECTION_TIMEOUT_MS\<rparr>)"
    using none by (simp add: set_timeout_def)
  then have "flow_ok (on_socket s (\<lambda>k. k\<lparr>sk_consumer := DataListener\<rparr>) ?r) D"
    by (rule flow_update_socket [OF ok']) (auto simp: flow_socket_def new_socket_def)
  then show ?thesis using False by (simp add: handleDynamicTcpConnection_def)
qed

lemma flow_claim_channel:
  assumes ok: "flow_ok rt D" and none: "socket_of s rt = None"
    and c: "channel_of c rt = Some h" "ch_socket h = None"
  shows "flow_ok (on_channel c (\<lambda>k. k\<lparr>ch_socket := Some s\<rparr>) rt) D"
proof (rule flow_okI)
  let ?r = "on_channel c (\<lambda>k. k\<lparr>ch_socket := Some s\<rparr>) rt"
  fix s' k' assume "socket_of s' ?r = Some k'"
  then have "socket_of s' rt = Some k'" by simp
  from flow_socketD [OF ok this]
  show "flow_socket (map_of (rt_channelStore ?r)) (\<lambda>c. channel_output c ?r) D s' k'"
    by (rule flow_socket_mono) (use c in \<open>auto simp: on_channel_def channel_output_def\<close>)
next
  fix s' assume "socket_of s' (on_channel c (\<lambda>k. k\<lparr>ch_socket := Some s\<rparr>) rt) = None"
  then show "D s' = []" using flow_noneD [OF ok] by simp
next
  fix c' assume "channel_of c' (on_channel c (\<lambda>k. k\<lparr>ch_socket := Some s\<rparr>) rt) = None"
  then show "channel_output c' (on_channel c (\<lambda>k. k\<lparr>ch_socket := Some s\<rparr>) rt) = []"
    using flow_outputD [OF ok] by (simp split: if_splits)
qed


lemma flow_target:
  assumes ok: "flow_ok rt D" and none: "socket_of s rt = None"
    and c: "channel_of c rt = Some h" "ch_socket h = None" "channel_output c rt = []"
  shows "flow_ok (pipeRemoteForwardConnection host p c s rt) D"
proof (cases "truthy_text host \<and> truthy_num p")
  case True
  let ?r1 = "rt\<lparr>rt_channels := set_add c (rt_channels rt), rt_activeConnectionCount := rt_activeConnectionCount rt + 1\<rparr>"
  let ?r2 = "on_channel c (\<lambda>k. k\<lparr>ch_socket := Some s\<rparr>) ?r1"
  let ?r3 = "add_socket s (new_socket (TargetSocket c)) ?r2"
  have "flow_ok ?r1 D" by (intro flow_intros ok)
  then have ok2: "flow_ok ?r2 D" by (rule flow_claim_channel) (use none c in simp_all)
  have "flow_ok ?r3 D"
    by (rule flow_add_socket [OF ok2])
      (use none c flow_noneD [OF ok none] in \<open>auto simp: flow_socket_def new_socket_def\<close>)
  then have "flow_ok (set_timeout FORWARD_CONNECTION_TIMEOUT_MS s
      (?r3\<lparr>rt_remoteSockets := set_add s (rt_remoteSockets ?r3)\<rparr>)) D"
    by (intro flow_intros)
  then show ?thesis using True by (simp add: pipeRemoteForwardConnection_def Let_def)
next
  case False
  then show ?thesis by (auto simp: pipeRemoteForwardConnection_def intro!: flow_intros ok)
qed

lemma flow_offered:
  assumes ok: "flow_ok rt D" and none: "socket_of s rt = None" "channel_of c rt = None"
  shows "flow_ok (tcpConnectionListener host p c s acceptable rt) D"
proof (cases "rt_activeConnectionCount rt \<ge> MAX_ACTIVE_CONNECTIONS_PER_RULE \<or> \<not> acceptable")
  case True
  then show ?thesis by (auto simp: tcpConnectionListener_def intro!: flow_intros ok)
next
  case False
  let ?r = "add_channel c (new_channel None True) rt"
  have "flow_ok (pipeRemoteForwardConnection host p c s ?r) D"
    by (rule flow_target [OF flow_add_channel [OF ok none(2)], where h = "new_channel None True"])
      (use none flow_outputD [OF ok none(2)] in \<open>simp_all add: new_channel_def\<close>)
  then show ?thesis using False by (auto simp: tcpConnectionListener_def)
qed

lemma flow_connected:
  assumes ok: "flow_ok rt D" and k: "socket_of s rt = Some k" and role: "sk_role k = TargetSocket c"
    and start: "sk_consumer k = Paused"
  shows "flow_ok (pipe_channel c s (pipe_socket s c rt)) D"
proof -
  have f: "flow_socket (map_of (rt_channelStore rt)) (\<lambda>c. channel_output c rt) D s k"
    by (rule flow_socketD [OF ok k])
  then obtain h where h: "channel_of c rt = Some h" "ch_socket h = Some s"
    using role unfolding flow_socket_def by blast
  have "channel_output c rt = [] \<and> \<not> sk_forwarding k"
    using f role start unfolding flow_socket_def by auto
  then have "flow_ok (pipe_socket s c rt) D"
    by (intro flow_pipe_socket [OF ok k h]) (use start in simp)
  then show ?thesis by (intro flow_intros)
qed

text \<open>The SOCKS negotiation writes to no channel.\<close>
lemma flow_socks_request:
  assumes ok: "flow_ok rt D" and k: "socket_of s rt = Some k" and dyn: "sk_role k = DynamicSocket"
  shows "flow_ok (socks_request s x y buf rt) D"
proof (cases "parseSocks5ConnectRequest buf")
  case (Connect host p n)
  let ?f = "\<lambda>k. k\<lparr>sk_stage := PipingStage, sk_consumer := Unattended\<rparr>"
  let ?r1 = "on_socket s ?f rt"
  let ?r2 = "on_socket s (\<lambda>k. k\<lparr>sk_initialData := drop n buf\<rparr>) (set_timeout FORWARD_CONNECTION_TIMEOUT_MS s ?r1)"
  have "flow_ok ?r1 D"
    by (rule flow_update_socket [OF ok k])
      (use flow_socketD [OF ok k] dyn in \<open>auto simp: flow_socket_def\<close>)
  then have "flow_ok ?r2 D" by (intro flow_intros)
  moreover have "socket_of s ?r2 = Some ((?f k)\<lparr>sk_timeout := FORWARD_CONNECTION_TIMEOUT_MS, sk_initialData := drop n buf\<rparr>)"
    using k by (simp add: set_timeout_def)
  ultimately have "flow_ok (forwardOut s x y host p ?r2) D"
    by (rule flow_forwardOut) (use dyn in simp)
  then show ?thesis using Connect by (simp add: socks_request_def handleSocksConnect_def)
qed (use ok in \<open>auto simp: socks_request_def intro!: flow_intros\<close>)

lemma socket_of_write_all [simp]: "socket_of s (write_all s' bs rt) = socket_of s rt"
  by (induction s' bs rt rule: write_all.induct) simp_all

lemma flow_onData:
  assumes ok: "flow_ok rt D" and k: "socket_of s rt = Some k" and dyn: "sk_role k = DynamicSocket"
  shows "flow_ok (onData s x y chunk rt) D"
proof -
  let ?r1 = "on_socket s (\<lambda>k. k\<lparr>sk_buffer := b\<rparr>) rt"
  have ok1: "flow_ok (on_socket s (\<lambda>k. k\<lparr>sk_buffer := b\<rparr>) rt) D" for b by (intro flow_intros ok)
  have greet: "flow_ok (socks_request s x y r (on_socket s (\<lambda>k. k\<lparr>sk_buffer := r, sk_stage := RequestStage\<rparr>)
      (write_all s replies (on_socket s (\<lambda>k. k\<lparr>sk_buffer := b\<rparr>) rt)))) D" for r replies b
    by (rule flow_socks_request [where k = "k\<lparr>sk_buffer := r, sk_stage := RequestStage\<rparr>"])
      (use k dyn in \<open>auto intro!: flow_intros ok1\<close>)
  have req: "flow_ok (socks_request s x y b (on_socket s (\<lambda>k. k\<lparr>sk_buffer := b\<rparr>) rt)) D" for b
    by (rule flow_socks_request [OF ok1, where k = "k\<lparr>sk_buffer := b\<rparr>"]) (use k dyn in simp_all)
  show ?thesis
    using k unfolding onData_def Let_def
    by (auto split: prod.split option.split intro!: flow_intros ok1 greet req)
qed

lemma flow_data:
  assumes ok: "flow_ok rt D" and k: "socket_of s rt = Some k" and live: "\<not> sk_destroyed k"
  shows "flow_ok (socket_data s x y chunk k rt) (D(s := D s @ chunk))"
proof (cases "sk_consumer k")
  case Paused
  have "flow_ok (on_socket s (\<lambda>k. k\<lparr>sk_pending := sk_pending k @ chunk\<rparr>) rt) (D(s := D s @ chunk))"
    by (rule flow_update_socket [OF ok k])
      (use flow_socketD [OF ok k] Paused live in \<open>auto simp: flow_socket_def\<close>)
  then show ?thesis using Paused by (simp add: socket_data_def)
next
  case DataListener
  then have dyn: "sk_role k = DynamicSocket" using flow_socketD [OF ok k] by (simp add: flow_socket_def)
  have "flow_ok rt (D(s := D s @ chunk))" by (rule flow_dynamic [OF ok k dyn])
  from flow_onData [OF this k dyn] show ?thesis using DataListener by (simp add: socket_data_def)
next
  case Unattended
  then have "sk_role k = DynamicSocket" using flow_socketD [OF ok k] by (simp add: flow_socket_def)
  then show ?thesis using flow_dynamic [OF ok k] Unattended by (simp add: socket_data_def)
next
  case (PipedTo c)
  then obtain h where h: "channel_of c rt = Some h" "ch_socket h = Some s"
    using flow_socketD [OF ok k] unfolding flow_socket_def by blast
  have "flow_ok (write_channel c chunk rt) (D(s := D s @ chunk))"
    by (rule flow_write_owner [OF ok k h]) (use PipedTo in simp_all)
  then show ?thesis using PipedTo by (simp add: socket_data_def)
qed

lemma flow_channel_data [flow_intros]: "flow_ok rt D \<Longrightarrow> flow_ok (channel_data c chunk h rt) D"
  by (auto simp: channel_data_def split: consumer.split intro!: flow_intros)

lemma flow_closed [flow_intros]: "flow_ok rt D \<Longrightarrow> flow_ok (socket_closed s k rt) D"
  by (auto simp: socket_closed_def split: socket_role.split option.split intro!: flow_intros)

lemma flow_errored [flow_intros]: "flow_ok rt D \<Longrightarrow> flow_ok (socket_errored s k m rt) D"
  by (auto simp: socket_errored_def split: socket_role.split intro!: flow_intros)

theorem flow_step:
  assumes ok: "flow_ok rt D"
  shows "flow_ok (connection_step T e rt) (\<lambda>s. D s @ accepted_data s e rt)"
proof (cases e)
  case (SocketData s x y chunk)
  show ?thesis
  proof (cases "\<exists>k. socket_of s rt = Some k \<and> \<not> sk_destroyed k \<and> \<not> sk_closed k")
    case True
    then obtain k where k: "socket_of s rt = Some k" "\<not> sk_destroyed k" "\<not> sk_closed k" by blast
    have "(\<lambda>s'. D s' @ accepted_data s' e rt) = D(s := D s @ chunk)"
      using k SocketData by (auto simp: accepted_data_def fun_eq_iff split: option.split)
    then show ?thesis using flow_data [OF ok k(1,2)] k SocketData by simp
  next
    case False
    then have "(\<lambda>s'. D s' @ accepted_data s' e rt) = D"
      using SocketData by (auto simp: accepted_data_def fun_eq_iff split: option.split)
    then show ?thesis using ok False SocketData by (auto split: option.split)
  qed
next
  case (ConnectionArrived s x y)
  then show ?thesis
    using ok flow_local flow_listen by (auto simp: accepted_data_def split: rule_kind.split)
next
  case (ChannelOffered c s a)
  then show ?thesis using ok flow_offered by (auto simp: accepted_data_def)
next
  case (SocketConnected s)
  then show ?thesis
    using ok flow_connected by (auto simp: accepted_data_def split: option.split socket_role.split)
next
  case (ForwardOutAnswered s a)
  then show ?thesis
    using ok by (auto simp: accepted_data_def split: option.split sum.splits intro!: flow_answered [OF ok])
qed (use ok in \<open>auto simp: accepted_data_def Let_def split: option.split intro!: flow_intros\<close>)

lemma flow_run:
  "flow_ok rt D \<Longrightarrow> flow_ok (connection_run T es rt) (\<lambda>s. D s @ arrived T s es rt)"
proof (induction es arbitrary: rt D)
  case (Cons e es)
  from Cons.IH [OF flow_step [OF Cons.prems]] show ?case by (simp add: connection_run_def)
qed (simp add: connection_run_def)

lemma flow_new: "rt_sockets rt = [] \<Longrightarrow> rt_effects rt = [] \<Longrightarrow> flow_ok rt (\<lambda>s. [])"
  by (simp add: flow_ok_def channel_output_def)

end
