(* ===== verification/PortForwardTheorems.thy ===== *)
theory PortForwardTheorems
  imports PortForwardServiceProofs PortForwardFlow
begin

text \<open>
  What the port-forward service guarantees (packages/backend/src/port-forward/session-service.ts):
  no SSH client is leaked, one start per rule, bounded connections, and forwarding that loses
  nothing; and where it does not.
\<close>

interpretation service: step_invariant "service_step X" service_ok for X
  by unfold_locales (rule port_forward_step_ok)

interpretation connections: step_invariant "connection_step T" conn_ok for T
  by unfold_locales (rule conn_ok_step)

lemma reachable_service_ok: "service_ok (service_run X es new_service)"
  unfolding service_run_def by (rule service.run [OF service_ok_new])

section \<open>A sample service\<close>

definition sample_texts :: pf_texts where
  "sample_texts = \<lparr>tx_invalidPayload = js ''invalid'', tx_startFailedNoReason = js ''no reason'',
                   tx_sshConnectionClosed = js ''closed''\<rparr>"

definition sample_rule :: pf_rule where
  "sample_rule = \<lparr>pr_id = js ''r'', pr_name = js ''web'', pr_type = DynamicRule, pr_serverId = js ''s'',
     pr_serverName = js ''host'', pr_serverHost = js ''h'', pr_serverPort = 22, pr_strictHostKey = True,
     pr_localBindHost = Some (js ''127.0.0.1''), pr_localBindPort = Some 1080,
     pr_remoteBindHost = None, pr_remoteBindPort = None, pr_targetHost = None, pr_targetPort = None,
     pr_note = None, pr_lastStartedAt = None, pr_lastStoppedAt = None, pr_lastFailureMessage = None,
     pr_createdAt = 0, pr_updatedAt = 0\<rparr>"

definition sample_start :: start_input where
  "sample_start = \<lparr>si_ruleId = js ''r'', si_requestId = None, si_connectTimeoutSec = 45,
                   si_systemProxyRules = None\<rparr>"

text \<open>The answers that start the sample rule; \<open>n\<close> is the number of the first suspended stage.\<close>

definition start_answers :: "nat \<Rightarrow> (nat \<times> pf_input) list" where
  "start_answers n =
     [(0, StartRequested sample_start),
      (0, Answered n (GotRule (Some sample_rule))),
      (0, Answered (n + 1) (GotKeys [])),
      (0, Answered (n + 2) (GotClient (ClientReady (js ''none'', js '''')))),
      (0, Answered (n + 4) Done),
      (0, Answered (n + 5) (GotRule (Some sample_rule)))]"

definition stop_answers :: "nat \<Rightarrow> (nat \<times> pf_input) list" where
  "stop_answers n =
     [(0, StopRequested (js ''r'')),
      (0, Answered n (GotRule (Some sample_rule))),
      (0, Answered (n + 1) Done),
      (0, Answered (n + 2) (GotRule (Some sample_rule)))]"

lemmas sample_defs = sample_rule_def sample_start_def sample_texts_def start_answers_def stop_answers_def
  service_run_def new_service_def startRule_def isRuleActive_def suspend_def set_add_def map_delete_def
  write_log_def client_opened_def start_forward_def rule_startable_def local_bind_ok_def truthy_text_def
  truthy_num_def on_runtime_def new_runtime_def new_client_def bind_runtime_def start_persisted_def
  on_client_def releaseMonitor_def guarded_failure_def finish_start_def set_remove_def stopRule_def
  stop_found_def disposeRuntimeState_def deactivate_def dispose_streams_def teardown_def destroy_all_def
  dispose_end_def finish_stop_def Let_def

lemma sample_rule_started:
  "let S = service_run sample_texts (start_answers 0) new_service
   in ps_activeRules S = [(js ''r'', 3)] \<and> ps_startingRuleIds S = [] \<and> ps_ops S = [] \<and> ps_next S = 6"
  by (simp add: sample_defs)


section \<open>Clients and starts\<close>

text \<open>C21: No SSH client is leaked: whatever is requested and however the database, the SSH library and
  the servers answer, every runtime the service ever opened is active, is held by a function that is
  suspended and goes on to start it or to tear it down, has been ended, or had its teardown fail.\<close>
theorem no_client_leaked:
  assumes "runtime_of i (service_run X es new_service) = Some r"
  shows "i \<in> active_ids (service_run X es new_service) \<or> rt_ended r \<or>
    i \<in> set (ps_failed (service_run X es new_service)) \<or>
    (\<exists>st\<in>set (map snd (ps_ops (service_run X es new_service))). holds st i)"
proof -
  let ?S = "service_run X es new_service"
  have "accounted {} (stages [] ?S) ?S"
    using reachable_service_ok [of X es] by (simp add: service_inv_but_def)
  then have "i \<in> active_ids ?S \<or> rt_ended r \<or> i \<in> set (ps_failed ?S) \<or> 0 < holders i (map snd (ps_ops ?S))"
    using assms by (simp add: accounted_def stages_def)
  then show ?thesis by (auto simp: holders_def filter_empty_conv)
qed

theorem no_client_leaked_witness:
  "3 \<in> active_ids (service_run sample_texts (start_answers 0) new_service)"
proof -
  obtain r where "runtime_of 3 (service_run sample_texts (start_answers 0) new_service) = Some r \<and> \<not> rt_ended r"
    by (simp add: sample_defs)
  then show ?thesis
    using no_client_leaked [where i = 3 and X = sample_texts and es = "start_answers 0"]
    by (auto simp: sample_defs)
qed

text \<open>A rule is started by one request at a time and runs at most once: exactly one suspended function
  belongs to the start of a rule that is starting and none to any other rule, no two active entries
  have the same rule or the same runtime, and an active runtime is neither torn down nor ended.\<close>
theorem one_start_per_rule:
  "starts ruleId (map snd (ps_ops (service_run X es new_service))) =
     (if ruleId \<in> set (ps_startingRuleIds (service_run X es new_service)) then 1 else 0) \<and>
   distinct (map fst (ps_activeRules (service_run X es new_service))) \<and>
   inj_on snd (set (ps_activeRules (service_run X es new_service))) \<and>
   list_all (\<lambda>(q, i). \<exists>r. runtime_of i (service_run X es new_service) = Some r \<and> rt_ruleId r = q \<and>
       \<not> rt_disposed r \<and> \<not> rt_ended r) (ps_activeRules (service_run X es new_service))"
proof -
  let ?S = "service_run X es new_service"
  have inv: "service_ok ?S" by (rule reachable_service_ok)
  have "starts ruleId (map snd (ps_ops ?S)) = (if ruleId \<in> set (ps_startingRuleIds ?S) then 1 else 0)"
    using inv by (simp add: service_inv_but_def starts_ok_def stages_def)
  moreover have "distinct (map fst (ps_activeRules ?S))" using inv by (simp add: service_inv_but_def keys_ok_def)
  moreover have "inj_on snd (set (ps_activeRules ?S))"
  proof (rule inj_onI)
    fix e f assume "e \<in> set (ps_activeRules ?S)" "f \<in> set (ps_activeRules ?S)" "snd e = snd f"
    then show "e = f"
      using inv_active_rule(1) [OF inv, of "fst e" "snd e"] inv_active_rule(1) [OF inv, of "fst f" "snd f"]
      by (cases e; cases f) auto
  qed
  moreover have "list_all (\<lambda>(q, i). \<exists>r. runtime_of i ?S = Some r \<and> rt_ruleId r = q \<and>
      \<not> rt_disposed r \<and> \<not> rt_ended r) (ps_activeRules ?S)"
    using inv_active_rule(1) [OF inv] by (auto simp: list_all_iff)
  ultimately show ?thesis by blast
qed

text \<open>C22: The connections of a rule are bounded and counted: a runtime never has more than 64 of them, and
  until it is torn down the count is the number of its sockets that are open; afterwards every socket
  it ever had is destroyed and it accepts no more.\<close>
theorem connections_counted:
  assumes "runtime_of i (service_run X es new_service) = Some r"
  shows "rt_activeConnectionCount r \<le> 64 \<and>
    (if rt_disposed r
     then (\<forall>(s, k)\<in>set (rt_sockets r). sk_destroyed k) \<and> \<not> rt_accepting r \<and> \<not> rt_tcpConnectionListener r
     else rt_activeConnectionCount r =
       length (filter (\<lambda>e. sk_role (snd e) \<noteq> UntrackedSocket \<and> \<not> sk_closed (snd e)) (rt_sockets r)))"
proof -
  let ?S = "service_run X es new_service"
  have ok: "conn_ok r"
    using reachable_service_ok [of X es] assms by (simp add: service_inv_but_def conns_ok_def)
  have split: "length (filter local_open xs) + length (filter target_open xs) =
      length (filter (\<lambda>e. sk_role (snd e) \<noteq> UntrackedSocket \<and> \<not> sk_closed (snd e)) xs)" for xs
  proof (induction xs)
    case (Cons e xs)
    then show ?case
      by (cases "sk_role (snd e)") (auto simp: local_open_def target_open_def)
  qed simp
  show ?thesis
    using ok split [of "rt_sockets r"] by (auto simp: conn_ok_def MAX_ACTIVE_CONNECTIONS_PER_RULE_def)
qed

theorem connections_counted_witness:
  "\<exists>r. runtime_of 3 (service_run sample_texts (start_answers 0 @
        [(0, RuntimeEvent 3 (ConnectionArrived 9 None None))]) new_service) = Some r \<and>
     rt_activeConnectionCount r = 1 \<and> length (rt_sockets r) = 1 \<and> rt_activeConnectionCount r \<le> 64"
proof -
  let ?es = "start_answers 0 @ [(0, RuntimeEvent 3 (ConnectionArrived 9 None None))]"
  obtain r where r: "runtime_of 3 (service_run sample_texts ?es new_service) = Some r"
    "rt_activeConnectionCount r = 1" "length (rt_sockets r) = 1"
    by (simp add: sample_defs rule_target_def handleDynamicTcpConnection_def MAX_ACTIVE_CONNECTIONS_PER_RULE_def
        on_socket_def set_timeout_def trackLocalSocket_def add_socket_def)
  then show ?thesis using connections_counted [OF r(1)] by auto
qed

section \<open>Forwarding\<close>

text \<open>C23: Forwarding loses nothing: on a rule that forwards a port, once the socket of a connection is
  piped to its channel and both are alive, the bytes written to the channel are exactly the bytes that
  arrived on the socket, in order, those that arrived before the channel was open included.\<close>
theorem forwarding_lossless:
  assumes "rt_sockets R = []" and "rt_effects R = []"
    and "socket_of s (connection_run T es R) = Some k"
    and "sk_role k \<noteq> DynamicSocket" and "\<not> sk_destroyed k" and "sk_consumer k = PipedTo c"
    and "channel_of c (connection_run T es R) = Some h" and "\<not> ch_destroyed h"
  shows "channel_output c (connection_run T es R) = arrived T s es R"
  using flow_socketD [OF flow_run [OF flow_new [OF assms(1,2)]] assms(3)] assms(4-8)
  by (simp add: flow_socket_def)

definition local_target :: pf_target where
  "local_target = \<lparr>tg_kind = LocalRule, tg_host = Some (js ''h''), tg_port = Some 80\<rparr>"

text \<open>A client that sends before and after the channel opens.\<close>

definition local_events :: "pf_event list" where
  "local_events =
     [ConnectionArrived 1 None None, SocketData 1 None None [10, 11],
      ForwardOutAnswered 1 (Inr 2), SocketData 1 None None [12]]"

lemmas connection_defs = connection_run_def new_runtime_def handleLocalTcpConnection_def
  handleDynamicTcpConnection_def MAX_ACTIVE_CONNECTIONS_PER_RULE_def FORWARD_CONNECTION_TIMEOUT_MS_def
  forwardOut_def on_socket_def on_channel_def emit_effect_def set_timeout_def trackLocalSocket_def
  set_add_def add_socket_def add_channel_def new_socket_def new_channel_def socket_data_def
  forwardOut_answered_def Let_def pipeSocketAndChannel_def pipe_socket_def pipe_channel_def
  write_channel_def write_socket_def

lemma local_sample:
  "\<exists>k h. socket_of 1 (connection_run local_target local_events ((new_runtime [] 0)\<lparr>rt_accepting := True\<rparr>)) = Some k \<and>
     sk_role k = LocalSocket \<and> \<not> sk_destroyed k \<and> sk_consumer k = PipedTo 2 \<and> sk_timeout k = 0 \<and>
     channel_of 2 (connection_run local_target local_events ((new_runtime [] 0)\<lparr>rt_accepting := True\<rparr>)) = Some h \<and>
     \<not> ch_destroyed h"
  by (simp add: local_target_def local_events_def connection_defs)


theorem forwarding_lossless_witness:
  "channel_output 2 (connection_run local_target local_events ((new_runtime [] 0)\<lparr>rt_accepting := True\<rparr>)) = [10, 11, 12]"
proof -
  let ?R = "(new_runtime [] 0)\<lparr>rt_accepting := True\<rparr>"
  obtain k h where kh: "socket_of 1 (connection_run local_target local_events ?R) = Some k"
    "sk_role k = LocalSocket" "\<not> sk_destroyed k" "sk_consumer k = PipedTo 2"
    "channel_of 2 (connection_run local_target local_events ?R) = Some h" "\<not> ch_destroyed h"
    using local_sample by blast
  have "channel_output 2 (connection_run local_target local_events ?R) = arrived local_target 1 local_events ?R"
    by (rule forwarding_lossless [OF _ _ kh(1) _ kh(3-6)]) (simp_all add: new_runtime_def kh(2))
  also have "\<dots> = [10, 11, 12]"
    by (simp add: local_target_def local_events_def connection_defs accepted_data_def)
  finally show ?thesis .
qed

section \<open>SOCKS connections\<close>

lemma on_socket_fuse: "on_socket s f (on_socket s g rt) = on_socket s (\<lambda>k. f (g k)) rt"
proof -
  have "update_entry s f (update_entry s g m) = update_entry s (\<lambda>k. f (g k)) m" for m
    by (induction s g m rule: update_entry.induct) auto
  then show ?thesis by (simp add: on_socket_def)
qed

lemma write_socket_on_socket:
  assumes "\<And>k. sk_destroyed (f k) = sk_destroyed k"
  shows "write_socket s bs (on_socket s f rt) = on_socket s f (write_socket s bs rt)"
  by (auto simp: write_socket_def assms split: option.split) (simp_all add: emit_effect_def on_socket_def)

lemma write_all_on_socket:
  assumes "\<And>k. sk_destroyed (f k) = sk_destroyed k"
  shows "write_all s bs (on_socket s f rt) = on_socket s f (write_all s bs rt)"
  by (induction s bs rt rule: write_all.induct) (simp_all add: write_socket_on_socket assms)

lemma greeting_append:
  assumes "2 \<le> length b" and "2 + unat (b ! 1) \<le> length b" and "handleSocks5Greeting b = (Some r, out)"
  shows "handleSocks5Greeting (b @ y) = (Some (r @ y), out)"
  using assms by (auto simp: handleSocks5Greeting_def Let_def nth_append subarray_append split: if_splits)

text \<open>The connection is still negotiating.\<close>

definition negotiating :: "nat \<Rightarrow> pf_runtime \<Rightarrow> bool" where
  "negotiating s rt \<longleftrightarrow>
     (\<exists>k. socket_of s rt = Some k \<and> sk_consumer k = DataListener \<and> \<not> sk_destroyed k \<and> \<not> sk_closed k)"

lemma socks_request_more:
  assumes "negotiating s (socks_request s x y b rt)" and "socket_of s rt = Some k"
  shows "parseSocks5ConnectRequest b = NeedMoreData"
  using assms
  by (cases "parseSocks5ConnectRequest b")
    (auto simp: negotiating_def socks_request_def destroy_socket_def handleSocksConnect_def forwardOut_def set_timeout_def)

lemma onData_greeted:
  assumes "socket_of s rt = Some k" and "sk_stage k = GreetingStage" and "sk_buffer k @ c = B"
    and "2 \<le> length B" and "2 + unat (B ! 1) \<le> length B" and "handleSocks5Greeting B = (Some r, out)"
  shows "onData s x y c rt = socks_request s x y r
    (on_socket s (\<lambda>k. k\<lparr>sk_buffer := r, sk_stage := RequestStage\<rparr>)
      (write_all s out (on_socket s (\<lambda>k. k\<lparr>sk_buffer := B\<rparr>) rt)))"
  using assms by (simp add: onData_def Let_def)

lemma onData_append:
  assumes k: "socket_of s rt = Some k" and neg: "negotiating s (onData s x y a rt)"
  shows "onData s x y (a @ b) rt = onData s x y b (onData s x y a rt)"
proof -
  let ?set = "\<lambda>v k. k\<lparr>sk_buffer := v\<rparr>"
  let ?buf = "sk_buffer k @ a"
  have fuse: "on_socket s (?set v) (on_socket s (?set u) r) = on_socket s (?set v) r" for u v r
    by (simp add: on_socket_fuse)
  show ?thesis
  proof (cases "sk_stage k = GreetingStage")
    case True
    show ?thesis
    proof (cases "length ?buf < 2 \<or> length ?buf < 2 + unat (?buf ! 1)")
      case short: True
      then have one: "onData s x y a rt = on_socket s (?set ?buf) rt"
        using k True by (auto simp: onData_def Let_def)
      show ?thesis
        unfolding one using k True by (simp add: onData_def Let_def fuse)
    next
      case False
      obtain r out where g: "handleSocks5Greeting ?buf = (r, out)" by (cases "handleSocks5Greeting ?buf")
      let ?w = "\<lambda>v. write_all s out (on_socket s (?set v) rt)"
      let ?next = "\<lambda>u v. on_socket s (\<lambda>k. k\<lparr>sk_buffer := u, sk_stage := RequestStage\<rparr>) (?w v)"
      show ?thesis
      proof (cases r)
        case None
        then have "onData s x y a rt = destroy_socket s (?w ?buf)"
          using k True False g by (simp add: onData_def Let_def)
        then show ?thesis using neg k by (auto simp: negotiating_def destroy_socket_def)
      next
        case (Some rest)
        have full: "2 \<le> length ?buf" "2 + unat (?buf ! 1) \<le> length ?buf" using False by auto
        have one: "onData s x y a rt = socks_request s x y rest (?next rest ?buf)"
          by (rule onData_greeted [OF k True refl full]) (simp add: g Some)
        have "parseSocks5ConnectRequest rest = NeedMoreData"
          by (rule socks_request_more [OF neg [unfolded one]]) (use k in simp)
        then have one': "onData s x y a rt = ?next rest ?buf" using one by (simp add: socks_request_def)
        have g': "handleSocks5Greeting (?buf @ b) = (Some (rest @ b), out)"
          by (rule greeting_append [OF full]) (simp add: g Some)
        have full': "2 \<le> length (?buf @ b)" "2 + unat ((?buf @ b) ! 1) \<le> length (?buf @ b)"
        proof -
          have "(?buf @ b) ! 1 = ?buf ! 1" by (rule nth_append_left) (use full(1) in linarith)
          then show "2 + unat ((?buf @ b) ! 1) \<le> length (?buf @ b)"
            using trans_le_add1 [OF full(2)] by (metis length_append)
          show "2 \<le> length (?buf @ b)" using full(1) unfolding length_append by linarith
        qed
        have "onData s x y (a @ b) rt = socks_request s x y (rest @ b) (?next (rest @ b) (?buf @ b))"
          by (rule onData_greeted [OF k True _ full' g']) simp
        also have "?next (rest @ b) (?buf @ b) = on_socket s (?set (rest @ b)) (?next rest ?buf)"
        proof -
          have "(\<lambda>k. k\<lparr>sk_stage := RequestStage, sk_buffer := rest @ b\<rparr>) =
              (\<lambda>k :: pf_socket. k\<lparr>sk_buffer := rest @ b, sk_stage := RequestStage\<rparr>)" by auto
          then show ?thesis by (simp add: write_all_on_socket on_socket_fuse)
        qed
        also have "socks_request s x y (rest @ b) \<dots> = onData s x y b (?next rest ?buf)"
          using k by (simp add: onData_def Let_def)
        finally show ?thesis unfolding one' .
      qed
    qed
  next
    case False
    show ?thesis
    proof (cases "sk_stage k = RequestStage")
      case True
      have one: "onData s x y a rt = socks_request s x y ?buf (on_socket s (?set ?buf) rt)"
        using k True by (simp add: onData_def Let_def)
      have "parseSocks5ConnectRequest ?buf = NeedMoreData"
        by (rule socks_request_more [OF neg [unfolded one]]) (use k in simp)
      then have one': "onData s x y a rt = on_socket s (?set ?buf) rt" using one by (simp add: socks_request_def)
      show ?thesis unfolding one' using k True by (simp add: onData_def Let_def fuse)
    next
      case piping: False
      with False have one: "onData s x y c rt = on_socket s (?set (sk_buffer k @ c)) rt" for c
        using k by (simp add: onData_def Let_def)
      show ?thesis unfolding one using k False piping by (simp add: onData_def Let_def fuse)
    qed
  qed
qed

text \<open>The SOCKS negotiation does not depend on how the client's bytes are cut into chunks: as long as
  the connection is still negotiating after a first part, receiving the parts one after the other
  leaves the same runtime, with the same replies and the same connect request, as receiving them at
  once.\<close>
theorem socks_chunks_irrelevant:
  assumes "negotiating s rt" and "negotiating s (connection_step T (SocketData s x y a) rt)"
  shows "connection_step T (SocketData s x y (a @ b)) rt =
    connection_step T (SocketData s x y b) (connection_step T (SocketData s x y a) rt)"
proof -
  obtain k where k: "socket_of s rt = Some k" "sk_consumer k = DataListener" "\<not> sk_destroyed k" "\<not> sk_closed k"
    using assms(1) by (auto simp: negotiating_def)
  have step: "connection_step T (SocketData s x y c) rt = onData s x y c rt" for c
    using k by (simp add: socket_data_def)
  have neg: "negotiating s (onData s x y a rt)" using assms(2) by (simp only: step)
  then obtain k' where "socket_of s (onData s x y a rt) = Some k'" "sk_consumer k' = DataListener"
    "\<not> sk_destroyed k'" "\<not> sk_closed k'"
    by (auto simp: negotiating_def)
  then have "connection_step T (SocketData s x y b) (onData s x y a rt) = onData s x y b (onData s x y a rt)"
    by (simp add: socket_data_def)
  then show ?thesis unfolding step using onData_append [OF k(1) neg] by simp
qed

definition dynamic_target :: pf_target where
  "dynamic_target = \<lparr>tg_kind = DynamicRule, tg_host = None, tg_port = None\<rparr>"

definition socks_client :: pf_runtime where
  "socks_client = connection_step dynamic_target (ConnectionArrived 1 None None)
     ((new_runtime [] 0)\<lparr>rt_accepting := True\<rparr>)"

lemma socks_client_negotiating: "negotiating 1 socks_client"
  by (simp add: negotiating_def socks_client_def dynamic_target_def connection_defs)

theorem socks_chunks_irrelevant_witness:
  "connection_step dynamic_target (SocketData 1 None None [5, 1, 0]) socks_client =
   connection_step dynamic_target (SocketData 1 None None [0])
     (connection_step dynamic_target (SocketData 1 None None [5, 1]) socks_client)"
  using socks_chunks_irrelevant [OF socks_client_negotiating,
      of dynamic_target None None "[5, 1]" "[0]"]
  by (simp add: negotiating_def socks_client_def dynamic_target_def connection_defs onData_def)

text \<open>What a SOCKS client sends between its connect request and the answer is lost when it arrives in a
  chunk of its own: the listener is gone and the pipe is not there yet.  In the same chunk as the
  request it is forwarded.\<close>
theorem early_data_lost:
  "channel_output 2 (connection_run dynamic_target
       [SocketData 1 None None [5, 1, 0], SocketData 1 None None (ipv4_request 10 0 0 1 80),
        SocketData 1 None None early, ForwardOutAnswered 1 (Inr 2)] socks_client) = [] \<and>
   channel_output 2 (connection_run dynamic_target
       [SocketData 1 None None [5, 1, 0], SocketData 1 None None (ipv4_request 10 0 0 1 80 @ early),
        ForwardOutAnswered 1 (Inr 2)] socks_client) = early"
proof -
  have p: "parseSocks5ConnectRequest (ipv4_request 10 0 0 1 80 @ e) =
      Connect (join_strings (js ''.'') (map (\<lambda>b. to_radix 10 (unat b)) [10, 0, 0, 1 :: 8 word])) 80 10" for e
    using ipv4_roundtrip [of 80 10 0 0 1 e] by simp
  have l: "length (ipv4_request 10 0 0 1 80) = 10" by (simp add: ipv4_request_def)
  have m: "parseSocks5ConnectRequest [] = NeedMoreData" by (simp add: parseSocks5ConnectRequest_def)
  have g: "handleSocks5Greeting [5, 1, 0] = (Some [], [[5, 0]])"
    by (simp add: handleSocks5Greeting_def socks_constants subarray_def)
  show ?thesis
    using p [of "[]"]
    by (simp add: socks_client_def dynamic_target_def connection_defs onData_def g m p l socks_request_def
        handleSocksConnect_def channel_output_def)
qed


text \<open>A connection that is forwarded to the SSH server may idle: its timeout is switched off when it is
  piped.  A connection that comes from the SSH server keeps the timeout for connecting, so it is
  closed after fifteen seconds without traffic, and its channel is neither destroyed nor tracked any
  more.\<close>

definition remote_target :: pf_target where
  "remote_target = \<lparr>tg_kind = RemoteRule, tg_host = Some (js ''h''), tg_port = Some 80\<rparr>"

definition remote_events :: "pf_event list" where
  "remote_events = [ChannelOffered 2 1 True, SocketConnected 1, SocketData 1 None None [10]]"

theorem remote_connection_times_out:
  "let R = connection_run remote_target remote_events ((new_runtime [] 0)\<lparr>rt_tcpConnectionListener := True\<rparr>);
       Q = connection_run remote_target [SocketTimedOut 1, SocketClosed 1] R
   in (\<exists>k. socket_of 1 R = Some k \<and> sk_consumer k = PipedTo 2 \<and> sk_timeout k = FORWARD_CONNECTION_TIMEOUT_MS) \<and>
      rt_channels R = [2] \<and> rt_channels Q = [] \<and> rt_activeConnectionCount Q = 0 \<and>
      (\<exists>h. channel_of 2 Q = Some h \<and> \<not> ch_destroyed h)"
  by (simp add: remote_target_def remote_events_def connection_defs tcpConnectionListener_def
      pipeRemoteForwardConnection_def truthy_text_def truthy_num_def destroy_socket_def socket_closed_def
      set_remove_def)

text \<open>The channel of a connection whose client has left before it was opened is leaked: it is tracked, but
  not counted, and nothing destroys it while the rule runs.\<close>
theorem late_channel_leaks:
  "let R = connection_run local_target [ConnectionArrived 1 None None, SocketTimedOut 1, SocketClosed 1,
         ForwardOutAnswered 1 (Inr 2)] ((new_runtime [] 0)\<lparr>rt_accepting := True\<rparr>)
   in rt_activeConnectionCount R = 0 \<and> rt_channels R = [2] \<and> (\<exists>h. channel_of 2 R = Some h \<and> \<not> ch_destroyed h)"
  by (simp add: local_target_def connection_defs destroy_socket_def socket_closed_def set_remove_def
      untrackLocalSocket_def)

section \<open>Stopping\<close>

text \<open>The end of a stopped rule's SSH client stops the rule again: the listeners of a client know the
  rule but not the runtime, so when the rule has been started again by the time the old client
  closes, its new runtime is taken off the active rules and torn down.\<close>
theorem late_close_stops_rule:
  assumes "client_of i S = Some c" and "cl_handled c" and "runtime_of i S = Some r"
  shows "active_of (rt_ruleId r) (service_step X (now, ClientClosed i) S) = None"
proof -
  have active: "ps_activeRules (disposeRuntimeState j (FinishClose q m None) S) = ps_activeRules S" for j q m S
    by (simp add: disposeRuntimeState_def Let_def dispose_streams_def dispose_end_def suspend_def
        on_runtime_def split: option.split)
  show ?thesis
    using assms
    by (simp add: client_event_def handleUnexpectedClose_def Let_def close_returned_def active
        deactivate_def on_client_def split: option.split)
qed

definition restarted :: pf_service where
  "restarted = service_run sample_texts (start_answers 0 @ stop_answers 6 @ start_answers 9) new_service"

lemma restarted_facts:
  "ps_activeRules restarted = [(js ''r'', 12)] \<and>
   (\<exists>r c. runtime_of 3 restarted = Some r \<and> rt_ruleId r = js ''r'' \<and> rt_ended r \<and>
          client_of 3 restarted = Some c \<and> cl_handled c)"
  by (simp add: restarted_def sample_defs)

theorem late_close_stops_rule_witness:
  "active_of (js ''r'') restarted = Some 12 \<and>
   active_of (js ''r'') (service_step sample_texts (0, ClientClosed 3) restarted) = None"
proof -
  obtain r c where rc: "runtime_of 3 restarted = Some r" "rt_ruleId r = js ''r''"
    "client_of 3 restarted = Some c" "cl_handled c"
    using restarted_facts by blast
  then show ?thesis
    using late_close_stops_rule [OF rc(3,4,1), of sample_texts 0] restarted_facts by simp
qed

text \<open>A stop that arrives while the rule is still starting is lost: it reports success, and the rule
  becomes active afterwards.\<close>
theorem stop_during_start_lost:
  "let S = service_run sample_texts (take 4 (start_answers 0) @
         [(0, StopRequested (js ''r'')), (0, Answered 5 (GotRule (Some sample_rule))),
          (0, Answered 6 (GotRule (Some sample_rule))),
          (0, Answered 4 Done), (0, Answered 7 (GotRule (Some sample_rule)))]) new_service
   in Returned (StopResult (js ''r'') (StopSuccess (mapPortForwardRuleItem sample_rule None))) \<in> set (ps_log S) \<and>
      active_of (js ''r'') S = Some 3 \<and> ps_ops S = []"
  by (simp add: sample_defs)

text \<open>When the SSH library refuses to cancel a remote forwarding, the teardown ends before it has
  destroyed anything: the sockets and the client stay, and no function refers to them any more.\<close>
theorem failed_unforward_leaves_everything:
  assumes "map_of (ps_ops S) n = Some (AwaitUnforward i k)" and "runtime_of i S = Some r"
  shows "runtime_of i (service_step X (now, Answered n (Threw e)) S) = Some r \<and>
    i \<in> set (ps_failed (service_step X (now, Answered n (Threw e)) S))"
proof (cases k)
  case (FinishClose a b c)
  then show ?thesis
    using assms
    by (cases c) (auto simp: close_returned_def logStartFailure_def write_log_def finish_start_def)
qed (use assms in \<open>simp_all add: finish_start_def finish_stop_def write_log_def\<close>)

end
