(* ===== verification/SftpPaths.thy ===== *)
theory SftpPaths
  imports ArchiveJobs Utf8
begin

text \<open>
  The paths and names of packages/backend/src/sftp/session-service.ts: what a requested path becomes,
  how the path of an entry is built, the numbered names of copies, the test that a path may be changed
  at all, the containment test, and the display of mode bits.  Paths that leave a caller are absolute
  paths of plain segments on every server that answers \<open>realpath\<close>; the lemmas say where a path built
  from a name of the server survives a second request and where it does not.
\<close>

section \<open>Requested paths\<close>

text \<open>\<open>trimmed.replace(/\\/g, '/')\<close>\<close>

abbreviation backslash :: nat where "backslash \<equiv> 92"

definition forward_slashes :: "jstring \<Rightarrow> jstring" where
  "forward_slashes s = map (\<lambda>c. if c = backslash then slash else c) s"

definition normalizeSftpPathInput :: "jstring option \<Rightarrow> jstring" where
  "normalizeSftpPathInput input =
     (let trimmed = trim (case input of None \<Rightarrow> [] | Some s \<Rightarrow> s)
      in if trimmed = [] \<or> trimmed = dot then dot
         else let normalized = posix_normalize (forward_slashes trimmed)
              in if normalized = [] then dot else normalized)"

definition joinSftpPath :: "jstring \<Rightarrow> jstring \<Rightarrow> jstring" where
  "joinSftpPath parent name =
     (if parent = [slash] \<or> parent = dot
      then posix_normalize ((if parent = [slash] then [] else parent) @ slash # name)
      else posix_normalize (parent @ slash # name))"

definition isMutableSftpEntryPath :: "jstring \<Rightarrow> bool" where
  "isMutableSftpEntryPath targetPath \<longleftrightarrow> targetPath \<noteq> [] \<and> targetPath \<noteq> dot \<and> targetPath \<noteq> [slash]"

text \<open>\<open>path.replace(/\/+$/, '')\<close>\<close>

definition strip_slashes :: "jstring \<Rightarrow> jstring" where
  "strip_slashes s = rev (dropWhile (\<lambda>c. c = slash) (rev s))"

definition isSameOrDescendantPath :: "jstring \<Rightarrow> jstring \<Rightarrow> bool" where
  "isSameOrDescendantPath sourcePath targetPath =
     (let normalizedSource = strip_slashes sourcePath; normalizedTarget = strip_slashes targetPath
      in normalizedTarget = normalizedSource \<or> starts_with normalizedTarget (normalizedSource @ [slash]))"

section \<open>Names\<close>

text \<open>
  \<open>path.posix.extname\<close>: from the last dot of the last name on, unless that dot is its first character
  or the name is two dots.
\<close>

definition last_dot :: "jstring \<Rightarrow> nat option" where
  "last_dot s = (if 46 \<in> set s then Some (length s - 1 - length (takeWhile (\<lambda>c. c \<noteq> 46) (rev s))) else None)"

definition posix_extname :: "jstring \<Rightarrow> jstring" where
  "posix_extname p =
     (let name = posix_basename p
      in case last_dot name of
           None \<Rightarrow> []
         | Some i \<Rightarrow> if i = 0 \<or> name = dotdot then [] else drop i name)"

text \<open>The attempt is a small integer: \<open>${attempt}\<close> is its decimal form.\<close>

definition copy_suffix :: "nat \<Rightarrow> jstring" where
  "copy_suffix attempt = js '' copy'' @ (if attempt > 1 then 32 # decimal attempt else [])"

definition copy_name :: "jstring \<Rightarrow> nat \<Rightarrow> jstring" where
  "copy_name baseName attempt =
     (let extensionName = posix_extname baseName;
          stem = (if extensionName \<noteq> [] then take (length baseName - length extensionName) baseName else baseName)
      in stem @ copy_suffix attempt @ extensionName)"

definition buildSftpCopyTargetCandidate :: "jstring \<Rightarrow> nat \<Rightarrow> jstring" where
  "buildSftpCopyTargetCandidate targetPath attempt =
     (if attempt = 0 then targetPath
      else let directoryName = posix_dirname targetPath;
               candidateName = copy_name (posix_basename targetPath) attempt
           in if directoryName = dot then candidateName else joinSftpPath directoryName candidateName)"

definition resolveEntryName :: "jstring \<Rightarrow> jstring" where
  "resolveEntryName targetPath =
     (if targetPath = [slash] then [slash]
      else let name = posix_basename targetPath in if name \<noteq> [] then name else targetPath)"

definition resolveEntryExtension :: "jstring \<Rightarrow> entry_type \<Rightarrow> jstring" where
  "resolveEntryExtension name ty =
     (if ty \<noteq> FileEntry \<and> ty \<noteq> SymlinkEntry then []
      else let e = posix_extname name in lower_case (if starts_with e dot then drop 1 e else e))"

definition resolveParentPath :: "jstring \<Rightarrow> jstring option" where
  "resolveParentPath inputPath =
     (if inputPath = [] \<or> inputPath = [slash] then None
      else let parentPath = posix_dirname inputPath
           in if parentPath = inputPath then None else Some (if parentPath \<noteq> [] then parentPath else [slash]))"

definition resolveSymlinkTargetPath :: "jstring \<Rightarrow> jstring \<Rightarrow> jstring" where
  "resolveSymlinkTargetPath linkPath targetPath =
     (if starts_with targetPath [slash] then normalizeSftpPathInput (Some targetPath)
      else joinSftpPath (case resolveParentPath linkPath of None \<Rightarrow> dot | Some p \<Rightarrow> p) targetPath)"

section \<open>Mode bits\<close>

definition permission_bits :: "(nat \<times> nat) list" where
  "permission_bits = zip [256, 128, 64, 32, 16, 8, 4, 2, 1] (concat (replicate 3 (js ''rwx'')))"

definition formatSftpPermissions :: "nat \<Rightarrow> jstring" where
  "formatSftpPermissions mode =
     (case entryType mode of DirectoryEntry \<Rightarrow> js ''d'' | SymlinkEntry \<Rightarrow> js ''l'' | FileEntry \<Rightarrow> js ''-''
      | OtherEntry \<Rightarrow> js ''?'') @
     map (\<lambda>(bit, symbol). if mode AND bit = bit then symbol else 45) permission_bits"

text \<open>\<open>n.toString(8)\<close> and \<open>padStart\<close>\<close>

fun octal :: "nat \<Rightarrow> jstring" where
  "octal n = (if n < 8 then [48 + n] else octal (n div 8) @ [48 + n mod 8])"

declare octal.simps [simp del]

definition padStart :: "nat \<Rightarrow> nat \<Rightarrow> jstring \<Rightarrow> jstring" where
  "padStart width fill s = replicate (width - length s) fill @ s"

definition formatSftpPermissionOctal :: "nat \<Rightarrow> jstring" where
  "formatSftpPermissionOctal mode = padStart 4 48 (octal (mode AND 4095))"

definition escapeSftpShellPath :: "jstring \<Rightarrow> jstring" where
  "escapeSftpShellPath targetPath = quotePosixShellToken targetPath"

section \<open>Hidden entries\<close>

text \<open>
  A value of an extended attribute: what a server's attribute parser may leave, bytes included.
  \<open>toLocaleLowerCase\<close> is modelled on the letters A to Z, as in the names of the archive service: only
  they can make one of the compared words.
\<close>

datatype marker = MBool bool | MNumber jsnum | MText jstring | MBytes "nat list"
  | MRecord "(jstring \<times> marker) list" | MOther

definition true_words :: "jstring list" where
  "true_words = map js [''1'', ''true'', ''yes'', ''y'', ''on'', ''hidden'']"

definition false_words :: "jstring list" where
  "false_words = map js ['''', ''0'', ''false'', ''no'', ''n'', ''off'', ''visible'']"

definition parse_marker_text :: "jstring \<Rightarrow> bool option" where
  "parse_marker_text value =
     (let normalized = lower_case (trim value)
      in if normalized \<in> set true_words then Some True
         else if normalized \<in> set false_words then Some False else None)"

lemma map_of_size_marker:
  assumes "map_of fs k = Some v"
  shows "size v < size (MRecord fs)"
proof -
  have "size v \<le> size_prod (\<lambda>_. 0) size (k, v)" by simp
  also have "\<dots> < size (MRecord fs)"
    using size_list_estimation' [OF map_of_SomeD [OF assms] order_refl, of "size_prod (\<lambda>_. 0) size"] by simp
  finally show ?thesis .
qed

text \<open>
  The decoded text of bytes is tried first; a single byte is a flag.  A record answers with the first of
  the three keys it has.
\<close>

function parseSftpHiddenMarkerValue :: "marker \<Rightarrow> bool option" where
  "parseSftpHiddenMarkerValue (MBool b) = Some b"
| "parseSftpHiddenMarkerValue (MNumber x) = Some (x \<noteq> Num 0)"
| "parseSftpHiddenMarkerValue (MText s) = parse_marker_text s"
| "parseSftpHiddenMarkerValue (MBytes bs) =
     (if bs = [] then Some False
      else case parse_marker_text (trim (filter (\<lambda>c. c \<noteq> 0) (utf8_decode bs))) of
             Some b \<Rightarrow> Some b
           | None \<Rightarrow> if length bs = 1 then Some (hd bs \<noteq> 0) else None)"
| "parseSftpHiddenMarkerValue (MRecord fs) =
     (case map_of fs (js ''hidden'') of
        Some v \<Rightarrow> parseSftpHiddenMarkerValue v
      | None \<Rightarrow> (case map_of fs (js ''isHidden'') of
          Some v \<Rightarrow> parseSftpHiddenMarkerValue v
        | None \<Rightarrow> (case map_of fs (js ''is_hidden'') of
            Some v \<Rightarrow> parseSftpHiddenMarkerValue v
          | None \<Rightarrow> None)))"
| "parseSftpHiddenMarkerValue MOther = None"
  by pat_completeness auto
termination
  by (relation "measure size") (simp_all only: in_measure map_of_size_marker, simp_all)

definition hidden_names :: "jstring list" where
  "hidden_names = map js [''hidden'', ''ishidden'', ''filehidden'', ''systemhidden'', ''doshidden'',
     ''attributehidden'', ''attributeshidden'', ''comapplefinderinfohidden'']"

definition normalizeSftpExtendedAttributeName :: "jstring \<Rightarrow> jstring" where
  "normalizeSftpExtendedAttributeName key =
     filter (\<lambda>c. 97 \<le> c \<and> c \<le> 122 \<or> 48 \<le> c \<and> c \<le> 57) (lower_case key)"

fun first_marker :: "(jstring \<times> marker) list \<Rightarrow> bool" where
  "first_marker [] = False"
| "first_marker ((rawKey, rawValue) # rest) =
     (let normalizedKey = normalizeSftpExtendedAttributeName rawKey
      in if normalizedKey \<notin> set hidden_names \<and> \<not> ends_with normalizedKey (js ''hidden'') then first_marker rest
         else case parseSftpHiddenMarkerValue rawValue of Some b \<Rightarrow> b | None \<Rightarrow> first_marker rest)"

definition resolveSftpEntryHiddenState :: "jstring \<Rightarrow> marker \<Rightarrow> bool" where
  "resolveSftpEntryHiddenState name extended =
     (let trimmedName = trim name
      in if starts_with trimmedName dot \<and> trimmedName \<noteq> dot \<and> trimmedName \<noteq> dotdot then True
         else case extended of MRecord fs \<Rightarrow> first_marker fs | _ \<Rightarrow> False)"

end
