(* ===== verification/SftpTransfers.thy ===== *)
theory SftpTransfers
  imports Contracts
begin

text \<open>
  The progress records of uploads and downloads (packages/backend/src/sftp/session-service.ts):
  \<open>beginTransfer\<close>, the counting of streamed bytes with its smoothed rate, completion, failure, and the
  removal of records that finished long enough ago.  \<open>now\<close> is \<open>Date.now()\<close> at the call; a rate is a
  rational, so the rounding of its division is not modelled.
\<close>

section \<open>Records\<close>

datatype transfer_direction = Download | Upload

datatype transfer_status = TransferRunning | TransferCompleted | TransferFailed

record transfer =
  tf_transferId :: jstring
  tf_direction :: transfer_direction
  tf_status :: transfer_status
  tf_transferredBytes :: nat
  tf_totalBytes :: nat
  tf_bytesPerSecond :: rat
  tf_startedAt :: rat
  tf_updatedAt :: rat
  tf_finishedAt :: "rat option"
  tf_errorMessage :: "jstring option"
  tf_lastSpeedSampleAt :: rat
  tf_lastSpeedSampleBytes :: nat

type_synonym transfers = "(jstring \<times> transfer) list"

definition SFTP_TRANSFER_RETENTION_MS :: rat where "SFTP_TRANSFER_RETENTION_MS = 60000"

definition SFTP_TRANSFER_SPEED_SAMPLE_INTERVAL_MS :: rat where "SFTP_TRANSFER_SPEED_SAMPLE_INTERVAL_MS = 250"

section \<open>Operations\<close>

text \<open>An absent or empty identifier means that nobody watches the transfer.\<close>

fun watched :: "jstring option \<Rightarrow> bool" where
  "watched None = False"
| "watched (Some i) = (i \<noteq> [])"

definition pruneExpiredTransfers :: "rat \<Rightarrow> transfers \<Rightarrow> transfers" where
  "pruneExpiredTransfers now ts =
     filter (\<lambda>(i, t). case tf_finishedAt t of None \<Rightarrow> True
                      | Some f \<Rightarrow> \<not> f < now - SFTP_TRANSFER_RETENTION_MS) ts"

definition beginTransfer :: "rat \<Rightarrow> jstring option \<Rightarrow> transfer_direction \<Rightarrow> nat \<Rightarrow> transfers \<Rightarrow> transfers" where
  "beginTransfer now transferId direction totalBytes ts =
     (if \<not> watched transferId then ts
      else map_set (the transferId)
        \<lparr>tf_transferId = the transferId, tf_direction = direction, tf_status = TransferRunning,
         tf_transferredBytes = 0, tf_totalBytes = totalBytes, tf_bytesPerSecond = 0, tf_startedAt = now,
         tf_updatedAt = now, tf_finishedAt = None, tf_errorMessage = None, tf_lastSpeedSampleAt = now,
         tf_lastSpeedSampleBytes = 0\<rparr>
        (pruneExpiredTransfers now ts))"

text \<open>The rate after a sample of \<open>bytes\<close> in \<open>duration\<close> milliseconds.\<close>

definition smoothed_rate :: "rat \<Rightarrow> nat \<Rightarrow> rat \<Rightarrow> rat" where
  "smoothed_rate rate bytes duration =
     (let sampledRate = of_nat bytes * 1000 / duration
      in if rate = 0 then sampledRate else rate * (65 / 100) + sampledRate * (35 / 100))"

definition record_bytes :: "rat \<Rightarrow> nat \<Rightarrow> transfer \<Rightarrow> transfer" where
  "record_bytes now byteLength t =
     (if tf_status t \<noteq> TransferRunning then t
      else
        let t1 = t\<lparr>tf_transferredBytes := tf_transferredBytes t + byteLength, tf_updatedAt := now\<rparr>;
            duration = now - tf_lastSpeedSampleAt t1
        in if duration < SFTP_TRANSFER_SPEED_SAMPLE_INTERVAL_MS then t1
           else t1\<lparr>tf_bytesPerSecond := smoothed_rate (tf_bytesPerSecond t1)
                     (tf_transferredBytes t1 - tf_lastSpeedSampleBytes t1) duration,
                   tf_lastSpeedSampleAt := now, tf_lastSpeedSampleBytes := tf_transferredBytes t1\<rparr>)"

definition complete_record :: "rat \<Rightarrow> transfer \<Rightarrow> transfer" where
  "complete_record now t =
     (let duration = now - tf_lastSpeedSampleAt t; bytes = tf_transferredBytes t - tf_lastSpeedSampleBytes t
      in t\<lparr>tf_status := TransferCompleted, tf_totalBytes := max (tf_totalBytes t) (tf_transferredBytes t),
           tf_bytesPerSecond := (if duration > 0 \<and> bytes > 0 then smoothed_rate (tf_bytesPerSecond t) bytes duration
                                 else tf_bytesPerSecond t),
           tf_updatedAt := now, tf_finishedAt := Some now\<rparr>)"

definition fail_record :: "rat \<Rightarrow> jstring \<Rightarrow> transfer \<Rightarrow> transfer" where
  "fail_record now message t =
     t\<lparr>tf_status := TransferFailed, tf_updatedAt := now, tf_finishedAt := Some now, tf_errorMessage := Some message\<rparr>"

text \<open>A handler changes the record of its identifier in place, when it is still there.\<close>

definition update_transfer :: "(transfer \<Rightarrow> transfer) \<Rightarrow> jstring option \<Rightarrow> transfers \<Rightarrow> transfers" where
  "update_transfer f transferId ts =
     (if \<not> watched transferId then ts
      else case map_of ts (the transferId) of None \<Rightarrow> ts | Some t \<Rightarrow> map_set (the transferId) (f t) ts)"

definition recordTransferredBytes :: "rat \<Rightarrow> jstring option \<Rightarrow> nat \<Rightarrow> transfers \<Rightarrow> transfers" where
  "recordTransferredBytes now transferId byteLength = update_transfer (record_bytes now byteLength) transferId"

definition completeTransfer :: "rat \<Rightarrow> jstring option \<Rightarrow> transfers \<Rightarrow> transfers" where
  "completeTransfer now = update_transfer (complete_record now)"

definition failTransfer :: "rat \<Rightarrow> jstring option \<Rightarrow> jstring \<Rightarrow> transfers \<Rightarrow> transfers" where
  "failTransfer now transferId errorMessage = update_transfer (fail_record now errorMessage) transferId"

definition getTransferProgress :: "rat \<Rightarrow> jstring \<Rightarrow> transfers \<Rightarrow> transfer option \<times> transfers" where
  "getTransferProgress now transferId ts =
     (let ts' = pruneExpiredTransfers now ts in (map_of ts' transferId, ts'))"

section \<open>The invariant\<close>

text \<open>
  A record counts at least what its last sample counted, never shows a negative rate, is finished
  exactly when it no longer runs, and shows at most the whole once it is complete.
\<close>

definition transfer_ok :: "transfer \<Rightarrow> bool" where
  "transfer_ok t \<longleftrightarrow>
     tf_lastSpeedSampleBytes t \<le> tf_transferredBytes t \<and> 0 \<le> tf_bytesPerSecond t \<and>
     (tf_finishedAt t = None \<longleftrightarrow> tf_status t = TransferRunning) \<and>
     (tf_status t = TransferCompleted \<longrightarrow> tf_transferredBytes t \<le> tf_totalBytes t)"

definition transfers_ok :: "transfers \<Rightarrow> bool" where
  "transfers_ok ts \<longleftrightarrow> distinct (map fst ts) \<and>
     list_all (\<lambda>(i, t). i = tf_transferId t \<and> i \<noteq> [] \<and> transfer_ok t) ts"

lemma smoothed_rate_nonneg: "0 \<le> rate \<Longrightarrow> 0 < duration \<Longrightarrow> 0 \<le> smoothed_rate rate bytes duration"
  by (simp add: smoothed_rate_def Let_def)

lemma record_bytes_ok: "transfer_ok t \<Longrightarrow> transfer_ok (record_bytes now n t)"
  by (auto simp: transfer_ok_def record_bytes_def Let_def SFTP_TRANSFER_SPEED_SAMPLE_INTERVAL_MS_def
      intro: smoothed_rate_nonneg)

lemma complete_record_ok: "transfer_ok t \<Longrightarrow> transfer_ok (complete_record now t)"
  by (auto simp: transfer_ok_def complete_record_def Let_def intro: smoothed_rate_nonneg)

lemma fail_record_ok: "transfer_ok t \<Longrightarrow> transfer_ok (fail_record now m t)"
  by (simp add: transfer_ok_def fail_record_def)

lemma record_ids [simp]:
  "tf_transferId (record_bytes now n t) = tf_transferId t"
  "tf_transferId (complete_record now t) = tf_transferId t"
  "tf_transferId (fail_record now m t) = tf_transferId t"
  by (simp_all add: record_bytes_def complete_record_def fail_record_def Let_def)

lemma list_all_map_set:
  "list_all P m \<Longrightarrow> P (k, v) \<Longrightarrow> list_all P (map_set k v m)"
  by (induction k v m rule: map_set.induct) auto

lemma transfers_ok_set:
  assumes "transfers_ok ts" and "tf_transferId t = i" and "i \<noteq> []" and "transfer_ok t"
  shows "transfers_ok (map_set i t ts)"
  using assms list_all_map_set [of "\<lambda>(i, t). i = tf_transferId t \<and> i \<noteq> [] \<and> transfer_ok t" ts i t]
  by (simp add: transfers_ok_def)

lemma transfers_ok_prune: "transfers_ok ts \<Longrightarrow> transfers_ok (pruneExpiredTransfers now ts)"
  by (auto simp: transfers_ok_def pruneExpiredTransfers_def list_all_iff distinct_map_filter)

lemma transfers_okD: "transfers_ok ts \<Longrightarrow> map_of ts i = Some t \<Longrightarrow> tf_transferId t = i \<and> i \<noteq> [] \<and> transfer_ok t"
  by (fastforce simp: transfers_ok_def list_all_iff dest: map_of_SomeD)

lemma transfers_ok_update:
  assumes "transfers_ok ts" and "\<And>t. transfer_ok t \<Longrightarrow> transfer_ok (f t)"
    and "\<And>t. tf_transferId (f t) = tf_transferId t"
  shows "transfers_ok (update_transfer f i ts)"
proof (cases "watched i \<and> map_of ts (the i) \<noteq> None")
  case True
  then obtain t where t: "map_of ts (the i) = Some t" by auto
  from transfers_okD [OF assms(1) t] have "transfers_ok (map_set (the i) (f t) ts)"
    by (intro transfers_ok_set) (simp_all add: assms)
  with True t show ?thesis by (simp add: update_transfer_def)
qed (auto simp: update_transfer_def assms split: option.split)

lemma transfers_ok_begin: "transfers_ok ts \<Longrightarrow> transfers_ok (beginTransfer now i d n ts)"
  by (cases i) (auto simp: beginTransfer_def transfer_ok_def intro!: transfers_ok_set transfers_ok_prune)

section \<open>Handlers\<close>

datatype transfer_event =
    Begin "jstring option" transfer_direction nat
  | Bytes "jstring option" nat
  | Complete "jstring option"
  | Fail "jstring option" jstring
  | Poll jstring

fun handle_transfer :: "rat \<times> transfer_event \<Rightarrow> transfers \<Rightarrow> transfers" where
  "handle_transfer (now, Begin i d n) ts = beginTransfer now i d n ts"
| "handle_transfer (now, Bytes i n) ts = recordTransferredBytes now i n ts"
| "handle_transfer (now, Complete i) ts = completeTransfer now i ts"
| "handle_transfer (now, Fail i m) ts = failTransfer now i m ts"
| "handle_transfer (now, Poll i) ts = snd (getTransferProgress now i ts)"

lemma transfers_ok_event: "transfers_ok ts \<Longrightarrow> transfers_ok (handle_transfer e ts)"
  by (cases e; cases "snd e")
    (auto simp: recordTransferredBytes_def completeTransfer_def failTransfer_def getTransferProgress_def Let_def
      intro!: transfers_ok_begin transfers_ok_prune transfers_ok_update record_bytes_ok complete_record_ok fail_record_ok)

text \<open>A finished record keeps its status and its count until a transfer with its identifier begins or ends again.\<close>
lemma bytes_after_finish:
  assumes "map_of ts i = Some t" and "tf_status t \<noteq> TransferRunning"
  shows "map_of (recordTransferredBytes now j n ts) i = Some t"
  using assms by (cases "map_of ts (the j)") (auto simp: recordTransferredBytes_def update_transfer_def record_bytes_def)

text \<open>A record that still runs is never removed.\<close>
lemma prune_keeps_running:
  assumes "transfers_ok ts" and "map_of ts i = Some t" and "tf_status t = TransferRunning"
  shows "map_of (pruneExpiredTransfers now ts) i = Some t"
proof -
  have "tf_finishedAt t = None" using assms transfers_okD [OF assms(1,2)] by (simp add: transfer_ok_def)
  with assms show ?thesis
    by (intro map_of_is_SomeI)
      (auto simp: transfers_ok_def pruneExpiredTransfers_def distinct_map_filter dest: map_of_SomeD)
qed

interpretation transfers: step_invariant handle_transfer transfers_ok
  by unfold_locales (rule transfers_ok_event)

end
