(* ===== verification/SftpRequests.thy ===== *)
theory SftpRequests
  imports SftpPaths SftpTransfers OperationGuard Procedures
begin

text \<open>
  One request of the SFTP service (packages/backend/src/sftp/session-service.ts): the classification of
  its errors, the state of a session that it reads and writes, and \<open>runSftpOperation\<close>, which bounds a
  request, closes the session after a timeout or a transport failure, and never sends anything on a closed
  session.  The server behind ssh2 and the local file system are the fields of a record over an arbitrary
  world \<open>'w\<close>; every reply also tells what other handlers did to the session before the caller goes on.
\<close>

section \<open>Errors\<close>

text \<open>
  \<open>PlainError code message\<close> is an \<open>Error\<close> with its own \<open>code\<close> property, or \<open>undefined\<close> without one;
  \<open>RemoteConflictError\<close> is \<open>SftpRemoteConflictError\<close>; the failures of the guard are \<open>GuardFailure\<close>.
\<close>

datatype thrown = PlainError json jstring | RemoteConflictError jstring

type_synonym sftp_error = "thrown guard_error"

definition code_text :: "failure_code \<Rightarrow> jstring" where
  "code_text code = (case code of OPERATION_TIMEOUT \<Rightarrow> js ''SFTP_OPERATION_TIMEOUT''
     | TRANSPORT_CLOSED \<Rightarrow> js ''SFTP_TRANSPORT_CLOSED'')"

text \<open>The text of a failure; \<open>num\<close> is the decimal form that a template string gives a number.\<close>

fun detail_text :: "(jsnum \<Rightarrow> jstring) \<Rightarrow> failure_detail \<Rightarrow> jstring" where
  "detail_text num (AbsoluteLimit op ms) =
     js ''The '' @ op @ js '' operation did not complete within the '' @ num ms @ js '' ms absolute limit.''"
| "detail_text num (NoProgress op ms) =
     js ''The '' @ op @ js '' operation did not complete or make progress within '' @ num ms @ js '' ms.''"
| "detail_text num (TransportInterrupted op) =
     js ''The '' @ op @ js '' operation was interrupted because the SFTP transport closed.''"

fun error_text :: "(jsnum \<Rightarrow> jstring) \<Rightarrow> sftp_error \<Rightarrow> jstring" where
  "error_text num (GuardFailure f) = code_text (of_code f) @ js '': '' @ detail_text num (of_detail f)"
| "error_text num (Thrown (PlainError code message)) = message"
| "error_text num (Thrown (RemoteConflictError message)) = message"

fun readSftpErrorCode :: "sftp_error \<Rightarrow> json" where
  "readSftpErrorCode (GuardFailure f) = JStr (code_text (of_code f))"
| "readSftpErrorCode (Thrown (PlainError (JNum n) message)) = JNum n"
| "readSftpErrorCode (Thrown (PlainError (JStr s) message)) = JStr s"
| "readSftpErrorCode _ = JUndefined"

definition readSftpErrorMessage :: "(jsnum \<Rightarrow> jstring) \<Rightarrow> sftp_error \<Rightarrow> jstring" where
  "readSftpErrorMessage num e = lower_case (error_text num e)"

definition isNoSuchFile :: "(jsnum \<Rightarrow> jstring) \<Rightarrow> sftp_error \<Rightarrow> bool" where
  "isNoSuchFile num e \<longleftrightarrow> readSftpErrorCode e \<in> {JNum (Num 2), JStr (js ''ENOENT'')} \<or>
     contains_text (js ''no such file'') (readSftpErrorMessage num e)"

definition isFileAlreadyExistsError :: "(jsnum \<Rightarrow> jstring) \<Rightarrow> sftp_error \<Rightarrow> bool" where
  "isFileAlreadyExistsError num e \<longleftrightarrow> readSftpErrorCode e \<in> {JNum (Num 11), JStr (js ''EEXIST'')} \<or>
     contains_text (js ''already exists'') (readSftpErrorMessage num e) \<or>
     contains_text (js ''file exists'') (readSftpErrorMessage num e)"

definition isPermissionDeniedError :: "(jsnum \<Rightarrow> jstring) \<Rightarrow> sftp_error \<Rightarrow> bool" where
  "isPermissionDeniedError num e \<longleftrightarrow>
     readSftpErrorCode e \<in> {JNum (Num 3), JStr (js ''EACCES''), JStr (js ''EPERM'')} \<or>
     contains_text (js ''permission denied'') (readSftpErrorMessage num e)"

definition upper_case :: "jstring \<Rightarrow> jstring" where
  "upper_case s = map (\<lambda>c. if 97 \<le> c \<and> c \<le> 122 then c - 32 else c) s"

definition SFTP_TRANSPORT_ERROR_CODES :: "jstring list" where
  "SFTP_TRANSPORT_ERROR_CODES = map js [''ECONNRESET'', ''EPIPE'', ''ETIMEDOUT'', ''ENOTCONN'',
     ''ERR_STREAM_DESTROYED'', ''ERR_STREAM_PREMATURE_CLOSE'']"

definition transport_phrases :: "jstring list" where
  "transport_phrases = map js [''connection lost'', ''connection closed'', ''channel closed'',
     ''client is not connected'', ''no response from server'', ''no sftp connection'', ''socket closed'']"

definition isSftpTransportFailure :: "(jsnum \<Rightarrow> jstring) \<Rightarrow> sftp_error \<Rightarrow> bool" where
  "isSftpTransportFailure num e \<longleftrightarrow>
     (case readSftpErrorCode e of JStr s \<Rightarrow> upper_case s \<in> set SFTP_TRANSPORT_ERROR_CODES | _ \<Rightarrow> False) \<or>
     list_ex (\<lambda>p. contains_text p (readSftpErrorMessage num e)) transport_phrases"

fun own_code :: "sftp_error \<Rightarrow> json" where
  "own_code (GuardFailure f) = JStr (code_text (of_code f))"
| "own_code (Thrown (PlainError code message)) = code"
| "own_code (Thrown (RemoteConflictError message)) = JUndefined"

definition isGenericSftpFailureError :: "(jsnum \<Rightarrow> jstring) \<Rightarrow> sftp_error \<Rightarrow> bool" where
  "isGenericSftpFailureError num e \<longleftrightarrow> trim (readSftpErrorMessage num e) = js ''failure'' \<or>
     own_code e \<in> {JNum (Num 4), JStr (js ''4''), JStr (js ''FAILURE'')}"

definition resolveErrorMessage :: "(jsnum \<Rightarrow> jstring) \<Rightarrow> sftp_error \<Rightarrow> jstring \<Rightarrow> jstring" where
  "resolveErrorMessage num e fallback = (if trim (error_text num e) \<noteq> [] then error_text num e else fallback)"

definition resolveUploadErrorMessage :: "(jsnum \<Rightarrow> jstring) \<Rightarrow> sftp_error \<Rightarrow> jstring \<Rightarrow> jstring" where
  "resolveUploadErrorMessage num e fallback =
     (if isGenericSftpFailureError num e then fallback else resolveErrorMessage num e fallback)"

text \<open>\<open>operationErrorCode\<close> and \<open>outcomeUnknown\<close>, absent for an ordinary failure.\<close>

type_synonym failure_metadata = "(failure_code \<times> bool) option"

fun resolveOperationFailureMetadata :: "sftp_error \<Rightarrow> failure_metadata" where
  "resolveOperationFailureMetadata (GuardFailure f) = Some (of_code f, of_outcomeUnknown f)"
| "resolveOperationFailureMetadata (Thrown _) = None"

datatype symlink_status = LinkExists | LinkBroken | LinkPermissionDenied | LinkUnknown

definition resolveSymlinkTargetStatus :: "(jsnum \<Rightarrow> jstring) \<Rightarrow> sftp_error \<Rightarrow> symlink_status" where
  "resolveSymlinkTargetStatus num e =
     (if isNoSuchFile num e then LinkBroken
      else if isPermissionDeniedError num e then LinkPermissionDenied else LinkUnknown)"

section \<open>The session and the server\<close>

record file_stats =
  fs_mode :: nat
  fs_size :: nat
  fs_uid :: nat
  fs_gid :: nat
  fs_mtime :: nat
  fs_atime :: nat
  fs_extended :: marker

text \<open>An entry of a directory: its name, its long form (empty when the server sends none), its attributes.\<close>

type_synonym directory_entry = "jstring \<times> jstring \<times> file_stats"

text \<open>The arguments of \<open>logSftpMutation\<close>: the action, the path, the target path when there is one.\<close>

type_synonym mutation_log = "(jstring \<times> jstring \<times> jstring option) list"

text \<open>
  \<open>lv_closed\<close>: \<open>session.isClosed\<close>, which holds exactly when the session was evicted and its controller
  aborted; \<open>lv_destroyed\<close> counts the calls of \<open>closeUnusableTransport\<close>, from whichever handler.
\<close>

record 'w live =
  lv_world :: 'w
  lv_closed :: bool
  lv_destroyed :: nat
  lv_transfers :: transfers
  lv_audit :: mutation_log

text \<open>
  What other handlers do while a request is in flight: nothing, \<open>markSessionUnavailable\<close> (the session is closed
  or a task is cancelled), or \<open>markClosed\<close> of \<open>watchSessionTransport\<close>.
\<close>

datatype meanwhile = Undisturbed | SessionEvicted | TransportLost

text \<open>
  How a request ends: with a value, with an error of ssh2, at one of its deadlines, or because the
  transport signal fired first.
\<close>

datatype 'a reply = Answer 'a | Refusal json jstring | Expired timeout_kind | Interrupted

type_synonym ('w, 'a) sftp_request = "'w \<Rightarrow> 'a reply \<times> meanwhile \<times> 'w"

text \<open>A byte stream: the chunks it counted, with their times, whether it opened its target, and its end.\<close>

type_synonym 'w stream_request = "'w \<Rightarrow> (rat \<times> nat) list \<times> bool \<times> unit reply \<times> meanwhile \<times> 'w"

type_synonym ('w, 'a) local_request = "'w \<Rightarrow> (thrown + 'a) \<times> meanwhile \<times> 'w"

record 'w server =
  sv_text :: "jstring \<Rightarrow> jstring"
  sv_numText :: "jsnum \<Rightarrow> jstring"
  sv_idleTimeoutMs :: jsnum
  sv_absoluteTimeoutMs :: jsnum
  sv_temporaryRoot :: jstring
  sv_cwd :: jstring
  sv_nameLe :: "jstring \<Rightarrow> jstring \<Rightarrow> bool"
  sv_now :: "'w \<Rightarrow> rat"
  sv_stamp :: "'w \<Rightarrow> jstring \<times> 'w"
  sv_realpath :: "jstring \<Rightarrow> ('w, jstring) sftp_request"
  sv_readdir :: "jstring \<Rightarrow> ('w, directory_entry list) sftp_request"
  sv_readlink :: "jstring \<Rightarrow> ('w, jstring) sftp_request"
  sv_symlink :: "jstring \<Rightarrow> jstring \<Rightarrow> ('w, unit) sftp_request"
  sv_stat :: "jstring \<Rightarrow> ('w, file_stats) sftp_request"
  sv_lstat :: "jstring \<Rightarrow> ('w, file_stats) sftp_request"
  sv_open :: "jstring \<Rightarrow> ('w, nat) sftp_request"
  sv_close :: "nat \<Rightarrow> ('w, unit) sftp_request"
  sv_read :: "nat \<Rightarrow> nat \<Rightarrow> nat \<Rightarrow> ('w, nat list) sftp_request"
  sv_writeFile :: "jstring \<Rightarrow> nat list \<Rightarrow> nat \<Rightarrow> ('w, unit) sftp_request"
  sv_mkdir :: "jstring \<Rightarrow> nat \<Rightarrow> ('w, unit) sftp_request"
  sv_unlink :: "jstring \<Rightarrow> ('w, unit) sftp_request"
  sv_rmdir :: "jstring \<Rightarrow> ('w, unit) sftp_request"
  sv_rename :: "jstring \<Rightarrow> jstring \<Rightarrow> ('w, unit) sftp_request"
  sv_posixRename :: "(jstring \<Rightarrow> jstring \<Rightarrow> ('w, unit) sftp_request) option"
  sv_copyStream :: "jstring \<Rightarrow> jstring \<Rightarrow> nat \<Rightarrow> ('w, unit) sftp_request"
  sv_downloadStream :: "jstring \<Rightarrow> jstring \<Rightarrow> nat option \<Rightarrow> 'w stream_request"
  sv_uploadStream :: "jstring \<Rightarrow> jstring \<Rightarrow> nat \<Rightarrow> 'w stream_request"
  sv_localLstat :: "jstring \<Rightarrow> ('w, nat \<times> nat) local_request"
  sv_localRealpath :: "jstring \<Rightarrow> ('w, jstring) local_request"
  sv_localMkdir :: "jstring \<Rightarrow> ('w, unit) local_request"
  sv_localRename :: "jstring \<Rightarrow> jstring \<Rightarrow> ('w, unit) local_request"
  sv_localUnlink :: "jstring \<Rightarrow> ('w, unit) local_request"

type_synonym ('w, 'a) sftp_proc = "('w live, sftp_error, 'a) proc"

section \<open>Guarded requests\<close>

text \<open>
  \<open>poisonUnusableSession\<close> with \<open>markSessionUnavailable\<close>: only the call that finds the session open
  destroys the transport.
\<close>

definition poisonUnusableSession :: "'w live \<Rightarrow> 'w live" where
  "poisonUnusableSession s =
     (if lv_closed s then s else s\<lparr>lv_closed := True, lv_destroyed := lv_destroyed s + 1\<rparr>)"

fun other_handler :: "meanwhile \<Rightarrow> 'w live \<Rightarrow> 'w live" where
  "other_handler Undisturbed s = s"
| "other_handler SessionEvicted s = s\<lparr>lv_closed := True\<rparr>"
| "other_handler TransportLost s =
     (if lv_closed s then s else s\<lparr>lv_closed := True, lv_destroyed := lv_destroyed s + 1\<rparr>)"

definition transport_failure :: "jstring \<Rightarrow> operation_impact \<Rightarrow> sftp_error" where
  "transport_failure operation impact =
     GuardFailure (SftpOperationFailure TRANSPORT_CLOSED operation impact None Idle)"

definition timeout_error :: "'w server \<Rightarrow> jstring \<Rightarrow> operation_impact \<Rightarrow> timeout_kind \<Rightarrow> sftp_error" where
  "timeout_error R operation impact kind =
     GuardFailure (SftpOperationFailure OPERATION_TIMEOUT operation impact
       (Some (case kind of Idle \<Rightarrow> sv_idleTimeoutMs R | Absolute \<Rightarrow> sv_absoluteTimeoutMs R)) kind)"

definition settle_reply ::
  "'w server \<Rightarrow> jstring \<Rightarrow> operation_impact \<Rightarrow> 'a reply \<Rightarrow> 'w live \<Rightarrow> (sftp_error + 'a) \<times> 'w live" where
  "settle_reply R operation impact r s =
     (case r of
        Answer v \<Rightarrow> (Inr v, s)
      | Interrupted \<Rightarrow> (Inl (transport_failure operation impact), s\<lparr>lv_closed := True\<rparr>)
      | Expired kind \<Rightarrow> (Inl (timeout_error R operation impact kind), poisonUnusableSession s)
      | Refusal code message \<Rightarrow>
          (let e = Thrown (PlainError code message)
           in if isSftpTransportFailure (sv_numText R) e
              then (Inl (transport_failure operation impact), poisonUnusableSession s) else (Inl e, s)))"

text \<open>\<open>runSftpOperation\<close>: the guard refuses at once when the signal of the session has fired.\<close>

definition runSftpOperation ::
  "'w server \<Rightarrow> jstring \<Rightarrow> operation_impact \<Rightarrow> ('w, 'a) sftp_request \<Rightarrow> ('w, 'a) sftp_proc" where
  "runSftpOperation R operation impact request = (\<lambda>s.
     if lv_closed s then Some (Inl (transport_failure operation impact), s)
     else let (r, others, w) = request (lv_world s)
          in Some (settle_reply R operation impact r (other_handler others (s\<lparr>lv_world := w\<rparr>))))"

text \<open>
  A stream counts its chunks in the record of its transfer; the flag tells whether it opened its target,
  which the caller reads after a failure as well.
\<close>

definition count_chunks :: "jstring option \<Rightarrow> (rat \<times> nat) list \<Rightarrow> transfers \<Rightarrow> transfers" where
  "count_chunks transferId chunks ts = fold (\<lambda>(now, n). recordTransferredBytes now transferId n) chunks ts"

definition run_stream ::
  "'w server \<Rightarrow> jstring \<Rightarrow> operation_impact \<Rightarrow> jstring option \<Rightarrow> 'w stream_request
     \<Rightarrow> ('w, sftp_error option \<times> bool) sftp_proc" where
  "run_stream R operation impact transferId request = (\<lambda>s.
     if lv_closed s then Some (Inr (Some (transport_failure operation impact), False), s)
     else let (chunks, opened, r, others, w) = request (lv_world s);
              (result, s') = settle_reply R operation impact r
                (other_handler others
                  (s\<lparr>lv_world := w, lv_transfers := count_chunks transferId chunks (lv_transfers s)\<rparr>))
          in Some (Inr (case result of Inl e \<Rightarrow> Some e | Inr _ \<Rightarrow> None, opened), s'))"

definition run_local :: "('w, 'a) local_request \<Rightarrow> ('w, 'a) sftp_proc" where
  "run_local request = (\<lambda>s.
     let (r, others, w) = request (lv_world s)
     in Some (case r of Inl e \<Rightarrow> Inl (Thrown e) | Inr v \<Rightarrow> Inr v, other_handler others (s\<lparr>lv_world := w\<rparr>)))"

definition stamp :: "'w server \<Rightarrow> ('w, jstring) sftp_proc" where
  "stamp R = (\<lambda>s. let (x, w) = sv_stamp R (lv_world s) in Some (Inr x, s\<lparr>lv_world := w\<rparr>))"

text \<open>\<open>throw new Error(session.t(key))\<close>\<close>

definition plain_failure :: "'w server \<Rightarrow> string \<Rightarrow> sftp_error" where
  "plain_failure R key = Thrown (PlainError JUndefined (sv_text R (js key)))"

definition logSftpMutation :: "string \<Rightarrow> jstring \<Rightarrow> jstring option \<Rightarrow> ('w, unit) sftp_proc" where
  "logSftpMutation action path target = modify_io (\<lambda>s. s\<lparr>lv_audit := lv_audit s @ [(js action, path, target)]\<rparr>)"

definition on_transfers :: "'w server \<Rightarrow> (rat \<Rightarrow> transfers \<Rightarrow> transfers) \<Rightarrow> ('w, unit) sftp_proc" where
  "on_transfers R f = modify_io (\<lambda>s. s\<lparr>lv_transfers := f (sv_now R (lv_world s)) (lv_transfers s)\<rparr>)"

section \<open>The requests of the service\<close>

definition sftp_readdir where "sftp_readdir R p = runSftpOperation R (js ''readdir'') ReadOp (sv_readdir R p)"
definition sftp_readlink where "sftp_readlink R p = runSftpOperation R (js ''readlink'') ReadOp (sv_readlink R p)"
definition sftp_symlink where
  "sftp_symlink R target p = runSftpOperation R (js ''symlink'') MutationOp (sv_symlink R target p)"
definition sftp_stat where "sftp_stat R p = runSftpOperation R (js ''stat'') ReadOp (sv_stat R p)"
definition sftp_lstat where "sftp_lstat R p = runSftpOperation R (js ''lstat'') ReadOp (sv_lstat R p)"
definition sftp_open where "sftp_open R p = runSftpOperation R (js ''open'') ReadOp (sv_open R p)"
definition sftp_closeHandle where
  "sftp_closeHandle R h = runSftpOperation R (js ''close-handle'') ReadOp (sv_close R h)"
definition sftp_read where
  "sftp_read R h len pos = runSftpOperation R (js ''read'') ReadOp (sv_read R h len pos)"
definition sftp_writeFile where
  "sftp_writeFile R p content mode = runSftpOperation R (js ''write-file'') MutationOp (sv_writeFile R p content mode)"
definition sftp_mkdir where "sftp_mkdir R p mode = runSftpOperation R (js ''mkdir'') MutationOp (sv_mkdir R p mode)"
definition sftp_unlink where "sftp_unlink R p = runSftpOperation R (js ''unlink'') MutationOp (sv_unlink R p)"
definition sftp_rmdir where "sftp_rmdir R p = runSftpOperation R (js ''rmdir'') MutationOp (sv_rmdir R p)"
definition sftp_rename where
  "sftp_rename R p q = runSftpOperation R (js ''rename'') MutationOp (sv_rename R p q)"
definition sftp_copyFile where
  "sftp_copyFile R p q st = runSftpOperation R (js ''copy-stream'') MutationOp (sv_copyStream R p q (fs_mode st AND 511))"

definition resolveRealPath :: "'w server \<Rightarrow> jstring \<Rightarrow> ('w, jstring option) sftp_proc" where
  "resolveRealPath R inputPath =
     catch_io
       (bind_io (runSftpOperation R (js ''realpath'') ReadOp (sv_realpath R inputPath)) (\<lambda>p. return_io (Some p)))
       (\<lambda>e. if isSftpOperationFailure e then throw_io e else return_io None)"

definition sftp_pathExists :: "'w server \<Rightarrow> jstring \<Rightarrow> ('w, bool) sftp_proc" where
  "sftp_pathExists R p =
     catch_io (then_io (sftp_stat R p) (return_io True))
       (\<lambda>e. if isNoSuchFile (sv_numText R) e then return_io False else throw_io e)"

end
