(* ===== verification/SftpOperations.thy ===== *)
theory SftpOperations
  imports SftpRequests
begin

text \<open>
  The operations of the SFTP service (packages/backend/src/sftp/session-service.ts), each as the primitive
  that a scheduled task runs: creating, renaming, copying, linking and deleting entries, batches, reading
  and writing files, uploads and downloads, listings and details.  An operation ends with a value of its result type;
  what it throws inside is caught as the source catches it.
\<close>

section \<open>Results\<close>

text \<open>
  \<open>SftpOperationResult\<close>: the path, the target path, and for written files the size and the modification
  time in milliseconds; a failure has its message, whether its reason is \<open>remote-conflict\<close>, and the
  metadata of a guarded request.
\<close>

datatype sftp_result =
    NotFound
  | Done jstring "jstring option" "(nat \<times> nat) option"
  | FailedResult jstring bool failure_metadata

definition with_open :: "'r \<Rightarrow> ('w, 'r) sftp_proc \<Rightarrow> ('w, 'r) sftp_proc" where
  "with_open missing m = bind_io (read_io lv_closed) (\<lambda>closed. if closed then return_io missing else m)"

definition refuse :: "'w server \<Rightarrow> string \<Rightarrow> ('w, sftp_result) sftp_proc" where
  "refuse R key = return_io (FailedResult (sv_text R (js key)) False None)"

definition failed_result :: "'w server \<Rightarrow> string \<Rightarrow> sftp_error \<Rightarrow> sftp_result" where
  "failed_result R key e =
     FailedResult (resolveErrorMessage (sv_numText R) e (sv_text R (js key))) False (resolveOperationFailureMetadata e)"

definition attempt :: "'w server \<Rightarrow> string \<Rightarrow> ('w, sftp_result) sftp_proc \<Rightarrow> ('w, sftp_result) sftp_proc" where
  "attempt R key m = catch_io m (\<lambda>e. return_io (failed_result R key e))"

definition formatStatsTimestamp :: "nat \<Rightarrow> nat" where
  "formatStatsTimestamp seconds = seconds * 1000"

section \<open>Creating and renaming\<close>

definition createFilePrimitive :: "'w server \<Rightarrow> jstring option \<Rightarrow> ('w, sftp_result) sftp_proc" where
  "createFilePrimitive R requestedPath = with_open NotFound
     (let p = normalizeSftpPathInput requestedPath
      in if \<not> isMutableSftpEntryPath p then refuse R ''errors.sftp.pathRequired''
         else attempt R ''errors.sftp.fileCreateFailedNoReason''
           (then_io (sftp_writeFile R p [] 420) (return_io (Done p None None))))"

definition createDirectoryPrimitive :: "'w server \<Rightarrow> jstring option \<Rightarrow> ('w, sftp_result) sftp_proc" where
  "createDirectoryPrimitive R requestedPath = with_open NotFound
     (let p = normalizeSftpPathInput requestedPath
      in if \<not> isMutableSftpEntryPath p then refuse R ''errors.sftp.pathRequired''
         else attempt R ''errors.sftp.directoryCreateFailedNoReason''
           (then_io (sftp_mkdir R p 493) (return_io (Done p None None))))"

definition renameEntryPrimitive :: "'w server \<Rightarrow> jstring option \<Rightarrow> jstring option \<Rightarrow> ('w, sftp_result) sftp_proc" where
  "renameEntryPrimitive R requestedSource requestedTarget = with_open NotFound
     (let p = normalizeSftpPathInput requestedSource; q = normalizeSftpPathInput requestedTarget
      in if \<not> isMutableSftpEntryPath p \<or> \<not> isMutableSftpEntryPath q then refuse R ''errors.sftp.pathRequired''
         else if p = q then return_io (Done p (Some q) None)
         else attempt R ''errors.sftp.entryRenameFailedNoReason''
           (bind_io (sftp_lstat R p) (\<lambda>st.
              if entryType (fs_mode st) = DirectoryEntry \<and> isSameOrDescendantPath p q
              then throw_io (plain_failure R ''errors.sftp.moveIntoSelfUnsupported'')
              else then_io (sftp_rename R p q)
                (then_io (logSftpMutation ''rename'' p (Some q)) (return_io (Done p (Some q) None))))))"

section \<open>Copying, linking, deleting\<close>

primrec first_free :: "'w server \<Rightarrow> jstring \<Rightarrow> nat list \<Rightarrow> ('w, jstring) sftp_proc" where
  "first_free R targetPath [] = throw_io (plain_failure R ''errors.sftp.copyTargetConflict'')"
| "first_free R targetPath (n # ns) =
     bind_io (sftp_pathExists R (buildSftpCopyTargetCandidate targetPath n)) (\<lambda>taken.
       if \<not> taken then return_io (buildSftpCopyTargetCandidate targetPath n) else first_free R targetPath ns)"

definition resolveAvailableCopyPath :: "'w server \<Rightarrow> jstring \<Rightarrow> ('w, jstring) sftp_proc" where
  "resolveAvailableCopyPath R targetPath = first_free R targetPath [0..<100]"

text \<open>The names of the entries to descend into.\<close>

definition child_names :: "directory_entry list \<Rightarrow> jstring list" where
  "child_names es = filter (\<lambda>n. n \<noteq> dot \<and> n \<noteq> dotdot) (map fst es)"

partial_function (option) copyEntryRecursive :: "'w server \<Rightarrow> jstring \<Rightarrow> jstring \<Rightarrow> ('w, unit) sftp_proc" where
  "copyEntryRecursive R source target s =
     bind_io (sftp_lstat R source) (\<lambda>st.
       if entryType (fs_mode st) = DirectoryEntry then
         then_io (sftp_mkdir R target (fs_mode st AND 511))
         (bind_io (sftp_readdir R source) (\<lambda>children.
            for_each (\<lambda>n. copyEntryRecursive R (joinSftpPath source n) (joinSftpPath target n)) (child_names children)))
       else if entryType (fs_mode st) = FileEntry then sftp_copyFile R source target st
       else throw_io (plain_failure R ''errors.sftp.entryCopyUnsupported'')) s"

partial_function (option) deleteEntryRecursive :: "'w server \<Rightarrow> jstring \<Rightarrow> bool \<Rightarrow> ('w, unit) sftp_proc" where
  "deleteEntryRecursive R target recursive s =
     bind_io (sftp_lstat R target) (\<lambda>st.
       if entryType (fs_mode st) \<noteq> DirectoryEntry then sftp_unlink R target
       else if \<not> recursive then sftp_rmdir R target
       else bind_io (sftp_readdir R target) (\<lambda>entries.
         then_io (for_each (\<lambda>n. deleteEntryRecursive R (joinSftpPath target n) True) (child_names entries))
         (sftp_rmdir R target))) s"

definition copyEntryPrimitive :: "'w server \<Rightarrow> jstring option \<Rightarrow> jstring option \<Rightarrow> ('w, sftp_result) sftp_proc" where
  "copyEntryPrimitive R requestedSource requestedTarget = with_open NotFound
     (let p = normalizeSftpPathInput requestedSource; q = normalizeSftpPathInput requestedTarget
      in if \<not> isMutableSftpEntryPath p \<or> \<not> isMutableSftpEntryPath q then refuse R ''errors.sftp.pathRequired''
         else attempt R ''errors.sftp.entryCopyFailedNoReason''
           (bind_io (resolveAvailableCopyPath R q) (\<lambda>resolved.
              if isSameOrDescendantPath p resolved
              then throw_io (plain_failure R ''errors.sftp.copyIntoSelfUnsupported'')
              else then_io (copyEntryRecursive R p resolved)
                (then_io (logSftpMutation ''copy'' p (Some resolved)) (return_io (Done p (Some resolved) None))))))"

definition linkEntryPrimitive :: "'w server \<Rightarrow> jstring option \<Rightarrow> jstring option \<Rightarrow> ('w, sftp_result) sftp_proc" where
  "linkEntryPrimitive R requestedSource requestedTarget = with_open NotFound
     (let p = normalizeSftpPathInput requestedSource; q = normalizeSftpPathInput requestedTarget
      in if \<not> isMutableSftpEntryPath p \<or> \<not> isMutableSftpEntryPath q then refuse R ''errors.sftp.pathRequired''
         else attempt R ''errors.sftp.entryLinkFailedNoReason''
           (bind_io (resolveAvailableCopyPath R q) (\<lambda>resolved.
              then_io (sftp_symlink R p resolved)
                (then_io (logSftpMutation ''link'' p (Some resolved)) (return_io (Done p (Some resolved) None))))))"

definition deleteEntryPrimitive :: "'w server \<Rightarrow> jstring option \<Rightarrow> bool \<Rightarrow> ('w, sftp_result) sftp_proc" where
  "deleteEntryPrimitive R requestedPath recursive = with_open NotFound
     (let p = normalizeSftpPathInput requestedPath
      in if \<not> isMutableSftpEntryPath p then refuse R ''errors.sftp.pathRequired''
         else attempt R ''errors.sftp.entryDeleteFailedNoReason''
           (then_io (deleteEntryRecursive R p recursive)
             (then_io (logSftpMutation ''delete'' p None) (return_io (Done p None None)))))"

section \<open>Batches\<close>

datatype batch_operation = BatchCopy | BatchMove | BatchDelete | BatchLink

datatype item_status = ItemSuccess | ItemFailed | ItemSkipped

record batch_item =
  bi_path :: jstring
  bi_type :: entry_type
  bi_status :: item_status
  bi_message :: "jstring option"
  bi_targetPath :: "jstring option"
  bi_metadata :: failure_metadata

record batch_summary =
  bs_operation :: batch_operation
  bs_totalCount :: nat
  bs_completedCount :: nat
  bs_failedCount :: nat
  bs_skippedCount :: nat
  bs_stoppedOnFailure :: bool
  bs_results :: "batch_item list"

datatype batch_result = BatchNotFound | BatchFailed jstring | BatchDone batch_summary

definition runSingleBatchEntryOperation ::
  "'w server \<Rightarrow> batch_operation \<Rightarrow> jstring \<times> entry_type \<Rightarrow> jstring option \<Rightarrow> ('w, sftp_result) sftp_proc" where
  "runSingleBatchEntryOperation R operation entry targetDirectory =
     (let targetPath = joinSftpPath (case targetDirectory of None \<Rightarrow> dot | Some d \<Rightarrow> d) (posix_basename (fst entry))
      in case operation of
           BatchDelete \<Rightarrow> deleteEntryPrimitive R (Some (fst entry)) (snd entry = DirectoryEntry)
         | BatchCopy \<Rightarrow> copyEntryPrimitive R (Some (fst entry)) (Some targetPath)
         | BatchLink \<Rightarrow> linkEntryPrimitive R (Some (fst entry)) (Some targetPath)
         | BatchMove \<Rightarrow> renameEntryPrimitive R (Some (fst entry)) (Some targetPath))"

definition item_of :: "'w server \<Rightarrow> jstring \<times> entry_type \<Rightarrow> sftp_result \<Rightarrow> batch_item" where
  "item_of R entry result =
     (case result of
        Done p target meta \<Rightarrow> \<lparr>bi_path = p, bi_type = snd entry, bi_status = ItemSuccess, bi_message = None,
          bi_targetPath = (if target = Some [] then None else target), bi_metadata = None\<rparr>
      | NotFound \<Rightarrow> \<lparr>bi_path = fst entry, bi_type = snd entry, bi_status = ItemFailed,
          bi_message = Some (sv_text R (js ''errors.sftp.sessionNotFound'')), bi_targetPath = None, bi_metadata = None\<rparr>
      | FailedResult message conflict meta \<Rightarrow> \<lparr>bi_path = fst entry, bi_type = snd entry, bi_status = ItemFailed,
          bi_message = Some message, bi_targetPath = None, bi_metadata = meta\<rparr>)"

definition skipped_item :: "'w server \<Rightarrow> jstring \<times> entry_type \<Rightarrow> batch_item" where
  "skipped_item R entry =
     \<lparr>bi_path = fst entry, bi_type = snd entry, bi_status = ItemSkipped,
      bi_message = Some (sv_text R (js ''errors.sftp.batchSkippedAfterFailure'')), bi_targetPath = None,
      bi_metadata = None\<rparr>"

fun succeeded :: "sftp_result \<Rightarrow> bool" where
  "succeeded (Done p target meta) = True"
| "succeeded _ = False"

primrec run_entries ::
  "'w server \<Rightarrow> batch_operation \<Rightarrow> jstring option \<Rightarrow> batch_item list \<Rightarrow> (jstring \<times> entry_type) list
     \<Rightarrow> ('w, batch_item list \<times> bool) sftp_proc" where
  "run_entries R operation targetDirectory results [] = return_io (results, False)"
| "run_entries R operation targetDirectory results (entry # entries) =
     bind_io (runSingleBatchEntryOperation R operation entry targetDirectory) (\<lambda>result.
       if succeeded result then run_entries R operation targetDirectory (results @ [item_of R entry result]) entries
       else return_io (results @ item_of R entry result # map (skipped_item R) entries, True))"

definition count_status :: "item_status \<Rightarrow> batch_item list \<Rightarrow> nat" where
  "count_status st items = length (filter (\<lambda>i. bi_status i = st) items)"

definition normalized_directory :: "jstring option \<Rightarrow> jstring option" where
  "normalized_directory directory =
     (if directory = None \<or> directory = Some [] then None else Some (normalizeSftpPathInput directory))"

definition normalized_entries :: "(jstring \<times> entry_type) list \<Rightarrow> (jstring \<times> entry_type) list" where
  "normalized_entries entries = map (\<lambda>e. (normalizeSftpPathInput (Some (fst e)), snd e)) entries"

definition runBatchOperationPrimitive ::
  "'w server \<Rightarrow> batch_operation \<Rightarrow> (jstring \<times> entry_type) list \<Rightarrow> jstring option \<Rightarrow> ('w, batch_result) sftp_proc" where
  "runBatchOperationPrimitive R operation inputEntries inputDirectory = with_open BatchNotFound
     (if inputEntries = [] then return_io (BatchFailed (sv_text R (js ''errors.sftp.batchEntriesRequired'')))
      else let targetDirectory = normalized_directory inputDirectory; entries = normalized_entries inputEntries
           in if operation \<in> {BatchCopy, BatchMove, BatchLink} \<and> targetDirectory = None
              then return_io (BatchFailed (sv_text R (js ''errors.sftp.batchTargetRequired'')))
              else if list_ex (\<lambda>e. \<not> isMutableSftpEntryPath (fst e)) entries
              then return_io (BatchFailed (sv_text R (js ''errors.sftp.pathRequired'')))
              else bind_io (run_entries R operation targetDirectory [] entries) (\<lambda>(results, stopped).
                return_io (BatchDone \<lparr>bs_operation = operation, bs_totalCount = length entries,
                  bs_completedCount = count_status ItemSuccess results, bs_failedCount = count_status ItemFailed results,
                  bs_skippedCount = count_status ItemSkipped results, bs_stoppedOnFailure = stopped,
                  bs_results = results\<rparr>)))"

end
