(* ===== verification/SftpFiles.thy ===== *)
theory SftpFiles
  imports SftpOperations
begin

text \<open>
  The operations on file contents (packages/backend/src/sftp/session-service.ts): the preview, writing
  text back, uploads and downloads with their progress records, the replacement of a remote file
  through a temporary one with the conflict check against the snapshot that was opened, and the confinement
  of local sources to the temporary root.  Local paths are POSIX paths.
\<close>

section \<open>Bounds and snapshots\<close>

definition MAX_READ_FILE_MAX_BYTES :: nat where "MAX_READ_FILE_MAX_BYTES = 16 * 1024 * 1024"

definition DEFAULT_READ_FILE_MAX_BYTES :: nat where "DEFAULT_READ_FILE_MAX_BYTES = 256 * 1024"

definition math_trunc :: "rat \<Rightarrow> int" where
  "math_trunc q = (if q < 0 then \<lceil>q\<rceil> else \<lfloor>q\<rfloor>)"

definition normalizeReadFileMaxBytes :: "jsnum option \<Rightarrow> nat" where
  "normalizeReadFileMaxBytes requested =
     (case requested of
        Some (Num q) \<Rightarrow> if q = 0 then DEFAULT_READ_FILE_MAX_BYTES
                        else min (nat (max (math_trunc q) 1024)) MAX_READ_FILE_MAX_BYTES
      | _ \<Rightarrow> DEFAULT_READ_FILE_MAX_BYTES)"

text \<open>
  The snapshot of the caller: the size, and \<open>Date.parse(modifiedAt)\<close>, which is \<open>NaN\<close> for a text
  that is no date.
\<close>

record snapshot =
  sn_size :: jsnum
  sn_modifiedMs :: jsnum

definition doesRemoteSnapshotMatch :: "file_stats \<Rightarrow> snapshot \<Rightarrow> bool" where
  "doesRemoteSnapshotMatch st sn \<longleftrightarrow> Num (of_nat (fs_size st)) = sn_size sn \<and>
     (case sn_modifiedMs sn of Num ms \<Rightarrow> int (fs_mtime st) = math_trunc (ms / 1000) | _ \<Rightarrow> False)"

section \<open>Replacing a remote file\<close>

definition tryOpenSshPosixRename :: "'w server \<Rightarrow> jstring \<Rightarrow> jstring \<Rightarrow> ('w, bool) sftp_proc" where
  "tryOpenSshPosixRename R p q =
     (case sv_posixRename R of
        None \<Rightarrow> return_io False
      | Some f \<Rightarrow> then_io (runSftpOperation R (js ''posix-rename'') MutationOp (f p q)) (return_io True))"

definition assertRemoteSnapshotStillMatches :: "'w server \<Rightarrow> jstring \<Rightarrow> snapshot \<Rightarrow> ('w, unit) sftp_proc" where
  "assertRemoteSnapshotStillMatches R p sn =
     bind_io (sftp_stat R p) (\<lambda>st.
       if entryType (fs_mode st) \<noteq> FileEntry \<or> \<not> doesRemoteSnapshotMatch st sn
       then throw_io (Thrown (RemoteConflictError (sv_text R (js ''errors.sftp.fileUploadRemoteChanged''))))
       else return_io ())"

definition replaceRemoteFileFromTemp ::
  "'w server \<Rightarrow> jstring \<Rightarrow> jstring \<Rightarrow> snapshot option \<Rightarrow> ('w, unit) sftp_proc" where
  "replaceRemoteFileFromTemp R temporaryPath targetPath expected =
     bind_io
       (catch_io (tryOpenSshPosixRename R temporaryPath targetPath)
         (\<lambda>e. if isSftpOperationFailure e then throw_io e else return_io False))
       (\<lambda>renamed. if renamed then return_io () else
          catch_io (sftp_rename R temporaryPath targetPath) (\<lambda>renameError.
            if \<not> isGenericSftpFailureError (sv_numText R) renameError then throw_io renameError
            else
              then_io (case expected of None \<Rightarrow> return_io ()
                       | Some sn \<Rightarrow> assertRemoteSnapshotStillMatches R targetPath sn)
              (then_io (sftp_unlink R targetPath)
              (catch_io (sftp_rename R temporaryPath targetPath) (\<lambda>replaceError.
                 throw_io (if trim (error_text (sv_numText R) replaceError) \<noteq> [] then replaceError
                           else renameError))))))"

definition unlinkRemoteTempFile :: "'w server \<Rightarrow> jstring \<Rightarrow> ('w, unit) sftp_proc" where
  "unlinkRemoteTempFile R p = catch_io (sftp_unlink R p) (\<lambda>e. return_io ())"

text \<open>\<open>.NAME.cosmosh-TIME-UUID.tmp\<close> in the directory of the target.\<close>

definition temporary_path :: "'w server \<Rightarrow> jstring \<Rightarrow> ('w, jstring) sftp_proc" where
  "temporary_path R targetPath =
     bind_io (stamp R) (\<lambda>x. return_io
       (joinSftpPath (case resolveParentPath targetPath of None \<Rightarrow> dot | Some d \<Rightarrow> d)
          (dot @ resolveEntryName targetPath @ js ''.cosmosh-'' @ x @ js ''.tmp'')))"

definition writeBufferToRemotePath ::
  "'w server \<Rightarrow> nat list \<Rightarrow> jstring \<Rightarrow> nat \<Rightarrow> snapshot option \<Rightarrow> ('w, unit) sftp_proc" where
  "writeBufferToRemotePath R content targetPath mode expected =
     bind_io (temporary_path R targetPath) (\<lambda>temporaryPath.
       catch_io
         (then_io (sftp_writeFile R temporaryPath content mode)
           (replaceRemoteFileFromTemp R temporaryPath targetPath expected))
         (\<lambda>e. then_io (unlinkRemoteTempFile R temporaryPath) (throw_io e)))"

section \<open>Reading and writing text\<close>

datatype read_result =
    ReadNotFound
  | ReadDone jstring jstring nat bool
  | ReadFailed jstring failure_metadata

text \<open>The loop fills the buffer; a reply is the bytes that one read put into it.\<close>

function readFullyIntoBuffer :: "'w server \<Rightarrow> nat \<Rightarrow> nat \<Rightarrow> nat list \<Rightarrow> ('w, nat list) sftp_proc" where
  "readFullyIntoBuffer R handle len got =
     (if length got < len then
        bind_io (sftp_read R handle (len - length got) (length got)) (\<lambda>data.
          if data = [] then return_io got else readFullyIntoBuffer R handle len (got @ data))
      else return_io got)"
  by pat_completeness auto
termination
  by (relation "measure (\<lambda>(R, handle, len, got). len - length got)")
    (auto simp: length_greater_0_conv [symmetric] simp del: length_greater_0_conv)

declare readFullyIntoBuffer.simps [simp del]

text \<open>\<open>try { m } finally { f.catch(() => undefined) }\<close>\<close>

definition finally_quietly :: "('w, 'a) sftp_proc \<Rightarrow> ('w, unit) sftp_proc \<Rightarrow> ('w, 'a) sftp_proc" where
  "finally_quietly m f =
     bind_io (catch_io (bind_io m (\<lambda>x. return_io (Inr x))) (\<lambda>e. return_io (Inl e))) (\<lambda>r.
       then_io (catch_io f (\<lambda>e. return_io ()))
         (case r of Inl e \<Rightarrow> throw_io e | Inr x \<Rightarrow> return_io x))"

definition readFilePreviewPrimitive ::
  "'w server \<Rightarrow> jstring option \<Rightarrow> jsnum option \<Rightarrow> ('w, read_result) sftp_proc" where
  "readFilePreviewPrimitive R requestedPath requestedMaxBytes = with_open ReadNotFound
     (let p = normalizeSftpPathInput requestedPath
      in if \<not> isMutableSftpEntryPath p then return_io (ReadFailed (sv_text R (js ''errors.sftp.pathRequired'')) None)
         else catch_io
           (bind_io (sftp_stat R p) (\<lambda>st.
              if entryType (fs_mode st) \<noteq> FileEntry
              then return_io (ReadFailed (sv_text R (js ''errors.sftp.fileReadUnsupported'')) None)
              else let maxBytes = normalizeReadFileMaxBytes requestedMaxBytes;
                       readLength = min (fs_size st) maxBytes
                   in bind_io (sftp_open R p) (\<lambda>handle.
                      bind_io
                        (finally_quietly
                          (if readLength > 0 then readFullyIntoBuffer R handle readLength [] else return_io [])
                          (sftp_closeHandle R handle))
                        (\<lambda>data. return_io (ReadDone p (utf8_decode data) (fs_size st) (fs_size st > maxBytes))))))
           (\<lambda>e. return_io (ReadFailed
              (resolveErrorMessage (sv_numText R) e (sv_text R (js ''errors.sftp.fileReadFailedNoReason'')))
              (resolveOperationFailureMetadata e))))"

text \<open>The catch block of a write: a conflict keeps its own message and reason.\<close>

definition write_failed :: "'w server \<Rightarrow> string \<Rightarrow> sftp_error \<Rightarrow> sftp_result" where
  "write_failed R key e =
     (case e of
        Thrown (RemoteConflictError message) \<Rightarrow> FailedResult message True None
      | _ \<Rightarrow> FailedResult (resolveUploadErrorMessage (sv_numText R) e (sv_text R (js key))) False
               (resolveOperationFailureMetadata e))"

definition conflict_result :: "'w server \<Rightarrow> string \<Rightarrow> sftp_result" where
  "conflict_result R key = FailedResult (sv_text R (js key)) True None"

definition written :: "'w server \<Rightarrow> jstring \<Rightarrow> ('w, sftp_result) sftp_proc" where
  "written R p =
     bind_io (sftp_stat R p) (\<lambda>st. return_io (Done p None (Some (fs_size st, formatStatsTimestamp (fs_mtime st)))))"

definition writeTextFilePrimitive ::
  "'w server \<Rightarrow> jstring option \<Rightarrow> jstring \<Rightarrow> snapshot \<Rightarrow> bool \<Rightarrow> ('w, sftp_result) sftp_proc" where
  "writeTextFilePrimitive R requestedPath content expected overwrite = with_open NotFound
     (let p = normalizeSftpPathInput requestedPath; contentBuffer = utf8_encode content
      in if \<not> isMutableSftpEntryPath p then refuse R ''errors.sftp.pathRequired''
         else if length contentBuffer > MAX_READ_FILE_MAX_BYTES then refuse R ''errors.sftp.fileWriteTooLarge''
         else catch_io
           (bind_io (sftp_stat R p) (\<lambda>st.
              if entryType (fs_mode st) \<noteq> FileEntry then refuse R ''errors.sftp.fileUploadUnsupported''
              else if \<not> overwrite \<and> \<not> doesRemoteSnapshotMatch st expected
              then return_io (conflict_result R ''errors.sftp.fileUploadRemoteChanged'')
              else then_io (writeBufferToRemotePath R contentBuffer p (fs_mode st AND 511)
                       (if overwrite then None else Some expected))
                (then_io (logSftpMutation ''write-file'' p None) (written R p))))
           (\<lambda>e. return_io (write_failed R ''errors.sftp.fileWriteFailedNoReason'' e)))"

section \<open>Local files\<close>

definition posix_segments :: "jstring \<Rightarrow> jstring list" where
  "posix_segments p = filter (\<lambda>x. x \<noteq> []) (split_on slash p)"

definition posix_relative :: "jstring \<Rightarrow> jstring \<Rightarrow> jstring \<Rightarrow> jstring" where
  "posix_relative cwd source target =
     (let f = posix_segments (posix_resolve2 cwd [] source); t = posix_segments (posix_resolve2 cwd [] target);
          k = length (longest_common_prefix f t)
      in join_with slash (replicate (length f - k) dotdot @ drop k t))"

definition isLocalPathInsideDirectory :: "jstring \<Rightarrow> jstring \<Rightarrow> jstring \<Rightarrow> bool" where
  "isLocalPathInsideDirectory cwd candidatePath parentPath =
     (let relativePath = posix_relative cwd parentPath candidatePath
      in relativePath = [] \<or> (length relativePath > 0 \<and> \<not> starts_with relativePath dotdot \<and>
           \<not> posix_is_absolute relativePath))"

text \<open>\<open>lstat\<close> of the local file system gives the mode and the size.\<close>

definition regular_local :: "nat \<times> nat \<Rightarrow> bool" where
  "regular_local st \<longleftrightarrow> entryType (fst st) = FileEntry"

definition resolveExistingUploadLocalPath :: "'w server \<Rightarrow> jstring \<Rightarrow> ('w, jstring option) sftp_proc" where
  "resolveExistingUploadLocalPath R localPath =
     (let normalized = posix_resolve2 (sv_cwd R) [] localPath
      in if \<not> isLocalPathInsideDirectory (sv_cwd R) normalized (sv_temporaryRoot R) then return_io None
         else catch_io
           (bind_io (run_local (sv_localLstat R normalized)) (\<lambda>st.
              if \<not> regular_local st then return_io None
              else bind_io (run_local (sv_localRealpath R normalized)) (\<lambda>canonical.
                if \<not> isLocalPathInsideDirectory (sv_cwd R) canonical (sv_temporaryRoot R) then return_io None
                else return_io (Some canonical))))
           (\<lambda>e. return_io None))"

section \<open>Uploads\<close>

definition uploadLocalFileToRemotePath ::
  "'w server \<Rightarrow> jstring \<Rightarrow> jstring \<Rightarrow> nat \<Rightarrow> snapshot option \<Rightarrow> jstring option \<Rightarrow> ('w, unit) sftp_proc" where
  "uploadLocalFileToRemotePath R localPath targetPath mode expected transferId =
     bind_io (temporary_path R targetPath) (\<lambda>temporaryPath.
       catch_io
         (bind_io (run_stream R (js ''upload-stream'') MutationOp transferId (sv_uploadStream R localPath temporaryPath mode))
           (\<lambda>(failed, opened). case failed of
              Some e \<Rightarrow> throw_io e
            | None \<Rightarrow> replaceRemoteFileFromTemp R temporaryPath targetPath expected))
         (\<lambda>e. then_io (unlinkRemoteTempFile R temporaryPath) (throw_io e)))"

definition createRemoteFileFromLocalPath ::
  "'w server \<Rightarrow> jstring \<Rightarrow> jstring \<Rightarrow> nat \<Rightarrow> jstring option \<Rightarrow> ('w, unit) sftp_proc" where
  "createRemoteFileFromLocalPath R localPath targetPath mode transferId =
     bind_io (run_stream R (js ''upload-stream'') MutationOp transferId (sv_uploadStream R localPath targetPath mode))
       (\<lambda>(failed, opened). case failed of
          None \<Rightarrow> return_io ()
        | Some e \<Rightarrow>
            if isFileAlreadyExistsError (sv_numText R) e
            then throw_io (Thrown (RemoteConflictError (sv_text R (js ''errors.sftp.fileUploadTargetExists''))))
            else then_io (if opened then unlinkRemoteTempFile R targetPath else return_io ()) (throw_io e))"

text \<open>The stats of the target; an absent target is \<open>None\<close>.\<close>

definition stat_target :: "'w server \<Rightarrow> jstring \<Rightarrow> ('w, file_stats option) sftp_proc" where
  "stat_target R p =
     catch_io (bind_io (sftp_stat R p) (\<lambda>st. return_io (Some st)))
       (\<lambda>e. if \<not> isNoSuchFile (sv_numText R) e then throw_io e else return_io None)"

definition upload_refusal :: "'w server \<Rightarrow> file_stats option \<Rightarrow> snapshot option \<Rightarrow> bool \<Rightarrow> sftp_result option" where
  "upload_refusal R target expected overwrite =
     (case target of
        Some st \<Rightarrow>
          if entryType (fs_mode st) \<noteq> FileEntry
          then Some (FailedResult (sv_text R (js ''errors.sftp.fileUploadUnsupported'')) False None)
          else if overwrite then None
          else (case expected of
              None \<Rightarrow> Some (conflict_result R ''errors.sftp.fileUploadTargetExists'')
            | Some sn \<Rightarrow> if \<not> doesRemoteSnapshotMatch st sn
                         then Some (conflict_result R ''errors.sftp.fileUploadRemoteChanged'') else None)
      | None \<Rightarrow> if expected \<noteq> None \<and> \<not> overwrite
                then Some (conflict_result R ''errors.sftp.fileUploadRemoteChanged'') else None)"

definition send_upload ::
  "'w server \<Rightarrow> jstring \<Rightarrow> jstring \<Rightarrow> file_stats option \<Rightarrow> snapshot option \<Rightarrow> bool \<Rightarrow> jstring option \<Rightarrow> ('w, unit) sftp_proc" where
  "send_upload R localPath p target expected overwrite transferId =
     (case target of
        Some st \<Rightarrow> uploadLocalFileToRemotePath R localPath p (fs_mode st AND 511)
          (if overwrite then None else expected) transferId
      | None \<Rightarrow> createRemoteFileFromLocalPath R localPath p 420 transferId)"

definition upload_failed :: "'w server \<Rightarrow> jstring option \<Rightarrow> sftp_error \<Rightarrow> ('w, sftp_result) sftp_proc" where
  "upload_failed R transferId e =
     then_io (on_transfers R (\<lambda>now. failTransfer now transferId
         (resolveUploadErrorMessage (sv_numText R) e (sv_text R (js ''errors.sftp.fileUploadFailedNoReason'')))))
       (return_io (write_failed R ''errors.sftp.fileUploadFailedNoReason'' e))"

definition with_source ::
  "'w server \<Rightarrow> jstring \<Rightarrow> (jstring \<Rightarrow> ('w, sftp_result) sftp_proc) \<Rightarrow> ('w, sftp_result) sftp_proc" where
  "with_source R localPath k =
     bind_io (resolveExistingUploadLocalPath R localPath) (\<lambda>canonical.
       case canonical of
         None \<Rightarrow> refuse R ''errors.sftp.localFileReadUnsupported''
       | Some c \<Rightarrow> k c)"

definition uploadFilePrimitive ::
  "'w server \<Rightarrow> jstring option \<Rightarrow> jstring option \<Rightarrow> snapshot option \<Rightarrow> bool \<Rightarrow> jstring option
     \<Rightarrow> ('w, sftp_result) sftp_proc" where
  "uploadFilePrimitive R requestedPath localPath expected overwrite transferId = with_open NotFound
     (let p = normalizeSftpPathInput requestedPath;
          requestedLocal = (case localPath of None \<Rightarrow> [] | Some l \<Rightarrow> trim l);
          normalizedLocal = posix_resolve2 (sv_cwd R) [] requestedLocal
      in if \<not> isMutableSftpEntryPath p then refuse R ''errors.sftp.pathRequired''
         else if requestedLocal = [] then refuse R ''errors.sftp.localPathRequired''
         else if \<not> isLocalPathInsideDirectory (sv_cwd R) normalizedLocal (sv_temporaryRoot R)
         then refuse R ''errors.sftp.localFileReadUnsupported''
         else catch_io
           (bind_io (stat_target R p) (\<lambda>target.
              case upload_refusal R target expected overwrite of
                Some r \<Rightarrow> return_io r
              | None \<Rightarrow>
                  with_source R normalizedLocal (\<lambda>c.
                    bind_io (run_local (sv_localLstat R c)) (\<lambda>st.
                      if \<not> regular_local st then refuse R ''errors.sftp.localFileReadUnsupported''
                      else then_io (on_transfers R (\<lambda>now. beginTransfer now transferId Upload (snd st)))
                        (then_io (send_upload R c p target expected overwrite transferId)
                        (then_io (logSftpMutation ''upload'' p None)
                        (bind_io (written R p) (\<lambda>r.
                           then_io (on_transfers R (\<lambda>now. completeTransfer now transferId)) (return_io r)))))))))
           (upload_failed R transferId))"

section \<open>Downloads\<close>

datatype download_result =
    DownloadNotFound
  | DownloadDone jstring jstring nat
  | DownloadFailed jstring failure_metadata

definition downloadFileToLocalPath :: "'w server \<Rightarrow> jstring \<Rightarrow> jstring \<Rightarrow> jstring option \<Rightarrow> ('w, unit) sftp_proc" where
  "downloadFileToLocalPath R sourcePath localPath transferId =
     bind_io (stamp R) (\<lambda>x.
       let localDirectory = posix_dirname localPath;
           temporaryPath = posix_join [localDirectory, dot @ posix_basename localPath @ js ''.cosmosh-'' @ x @ js ''.tmp''];
           mode = (if isLocalPathInsideDirectory (sv_cwd R) (posix_resolve2 (sv_cwd R) [] localPath) (sv_temporaryRoot R)
                   then Some 384 else None)
       in then_io (run_local (sv_localMkdir R localDirectory))
         (catch_io
           (bind_io (run_stream R (js ''download-stream'') ReadOp transferId (sv_downloadStream R sourcePath temporaryPath mode))
             (\<lambda>(failed, opened). case failed of
                Some e \<Rightarrow> throw_io e
              | None \<Rightarrow> run_local (sv_localRename R temporaryPath localPath)))
           (\<lambda>e. then_io (catch_io (run_local (sv_localUnlink R temporaryPath)) (\<lambda>e. return_io ())) (throw_io e))))"

definition download_failed :: "'w server \<Rightarrow> jstring option \<Rightarrow> sftp_error \<Rightarrow> ('w, download_result) sftp_proc" where
  "download_failed R transferId e =
     (let message = resolveErrorMessage (sv_numText R) e (sv_text R (js ''errors.sftp.fileDownloadFailedNoReason''))
      in then_io (on_transfers R (\<lambda>now. failTransfer now transferId message))
           (return_io (DownloadFailed message (resolveOperationFailureMetadata e))))"

definition downloadFilePrimitive ::
  "'w server \<Rightarrow> jstring option \<Rightarrow> jstring option \<Rightarrow> jstring option \<Rightarrow> ('w, download_result) sftp_proc" where
  "downloadFilePrimitive R requestedPath localPath transferId = with_open DownloadNotFound
     (let p = normalizeSftpPathInput requestedPath;
          l = (case localPath of None \<Rightarrow> [] | Some l \<Rightarrow> trim l)
      in if \<not> isMutableSftpEntryPath p
         then return_io (DownloadFailed (sv_text R (js ''errors.sftp.pathRequired'')) None)
         else if l = [] then return_io (DownloadFailed (sv_text R (js ''errors.sftp.localPathRequired'')) None)
         else catch_io
           (bind_io (sftp_stat R p) (\<lambda>st.
              if entryType (fs_mode st) \<noteq> FileEntry
              then return_io (DownloadFailed (sv_text R (js ''errors.sftp.fileReadUnsupported'')) None)
              else then_io (on_transfers R (\<lambda>now. beginTransfer now transferId Download (fs_size st)))
                (then_io (downloadFileToLocalPath R p l transferId)
                (then_io (on_transfers R (\<lambda>now. completeTransfer now transferId))
                  (return_io (DownloadDone p l (fs_size st)))))))
           (download_failed R transferId))"

end
