(* ===== verification/SftpListing.thy ===== *)
theory SftpListing
  imports SftpOperations
begin

text \<open>
  Listings and details of the SFTP service (packages/backend/src/sftp/session-service.ts, with the order of
  the browser from packages/api-contract/src/sftp.ts): the metadata of an entry, the target of a symbolic
  link, the entries of a directory, the details of selected paths.  \<open>Promise.all\<close> over the entries of a
  directory is run one entry after the other; its requests only read.
\<close>

section \<open>Entries\<close>

text \<open>The fields that are present when the target of a link exists.\<close>

record link_stats =
  ls_type :: entry_type
  ls_size :: nat
  ls_mode :: nat
  ls_permissions :: jstring
  ls_permissionOctal :: jstring
  ls_modifiedAt :: nat
  ls_accessedAt :: nat

text \<open>\<open>sy_base\<close>: the path of the link, the path it resolves to, and whether the first is absolute.\<close>

record symlink_target =
  sy_status :: symlink_status
  sy_base :: "(jstring \<times> jstring \<times> bool) option"
  sy_stats :: "link_stats option"
  sy_message :: "jstring option"

record sftp_entry =
  se_name :: jstring
  se_path :: jstring
  se_parentPath :: "jstring option"
  se_type :: entry_type
  se_size :: nat
  se_mode :: nat
  se_permissions :: jstring
  se_permissionOctal :: jstring
  se_uid :: nat
  se_gid :: nat
  se_modifiedAt :: nat
  se_accessedAt :: nat
  se_extension :: jstring
  se_shellEscapedPath :: jstring
  se_isHidden :: bool
  se_longname :: jstring
  se_symlinkTarget :: "symlink_target option"

definition buildSftpEntry ::
  "jstring \<Rightarrow> jstring \<Rightarrow> file_stats \<Rightarrow> jstring \<Rightarrow> symlink_target option \<Rightarrow> sftp_entry" where
  "buildSftpEntry name path stats longname target =
     (let ty = entryType (fs_mode stats)
      in \<lparr>se_name = name, se_path = path, se_parentPath = resolveParentPath path, se_type = ty,
          se_size = fs_size stats, se_mode = fs_mode stats, se_permissions = formatSftpPermissions (fs_mode stats),
          se_permissionOctal = formatSftpPermissionOctal (fs_mode stats), se_uid = fs_uid stats, se_gid = fs_gid stats,
          se_modifiedAt = formatStatsTimestamp (fs_mtime stats), se_accessedAt = formatStatsTimestamp (fs_atime stats),
          se_extension = resolveEntryExtension name ty, se_shellEscapedPath = escapeSftpShellPath path,
          se_isHidden = resolveSftpEntryHiddenState name (fs_extended stats), se_longname = longname,
          se_symlinkTarget = target\<rparr>)"

section \<open>The targets of links\<close>

definition link_stats_of :: "file_stats \<Rightarrow> link_stats" where
  "link_stats_of stats =
     \<lparr>ls_type = entryType (fs_mode stats), ls_size = fs_size stats, ls_mode = fs_mode stats,
      ls_permissions = formatSftpPermissions (fs_mode stats),
      ls_permissionOctal = formatSftpPermissionOctal (fs_mode stats),
      ls_modifiedAt = formatStatsTimestamp (fs_mtime stats), ls_accessedAt = formatStatsTimestamp (fs_atime stats)\<rparr>"

definition operation_message :: "'w server \<Rightarrow> sftp_error \<Rightarrow> jstring" where
  "operation_message R e = resolveErrorMessage (sv_numText R) e (sv_text R (js ''errors.sftp.operationFailedNoReason''))"

definition resolveSymlinkTargetMetadata :: "'w server \<Rightarrow> jstring \<Rightarrow> ('w, symlink_target) sftp_proc" where
  "resolveSymlinkTargetMetadata R linkPath =
     catch_io
       (bind_io (sftp_readlink R linkPath) (\<lambda>targetPath.
          let resolvedPath = resolveSymlinkTargetPath linkPath targetPath;
              base = Some (targetPath, resolvedPath, starts_with targetPath [slash])
          in catch_io
            (bind_io (sftp_stat R resolvedPath) (\<lambda>targetStats. return_io
               \<lparr>sy_status = LinkExists, sy_base = base, sy_stats = Some (link_stats_of targetStats), sy_message = None\<rparr>))
            (\<lambda>e. if isSftpOperationFailure e then throw_io e
                 else return_io \<lparr>sy_status = resolveSymlinkTargetStatus (sv_numText R) e, sy_base = base, sy_stats = None,
                        sy_message = Some (operation_message R e)\<rparr>)))
       (\<lambda>e. if isSftpOperationFailure e then throw_io e
            else return_io \<lparr>sy_status = LinkUnknown, sy_base = None, sy_stats = None,
                   sy_message = Some (operation_message R e)\<rparr>)"

definition link_target :: "'w server \<Rightarrow> jstring \<Rightarrow> file_stats \<Rightarrow> ('w, symlink_target option) sftp_proc" where
  "link_target R path stats =
     (if entryType (fs_mode stats) = SymlinkEntry
      then bind_io (resolveSymlinkTargetMetadata R path) (\<lambda>target. return_io (Some target))
      else return_io None)"

section \<open>Directories\<close>

text \<open>\<open>sv_nameLe\<close> is \<open>localeCompare(...) <= 0\<close> with numeric collation; the sort of arrays is stable.\<close>

definition entry_le :: "'w server \<Rightarrow> sftp_entry \<Rightarrow> sftp_entry \<Rightarrow> bool" where
  "entry_le R left right =
     (if se_type left = DirectoryEntry \<and> se_type right \<noteq> DirectoryEntry then True
      else if se_type left \<noteq> DirectoryEntry \<and> se_type right = DirectoryEntry then False
      else sv_nameLe R (se_name left) (se_name right))"

definition sortSftpEntriesByBrowserOrder :: "'w server \<Rightarrow> sftp_entry list \<Rightarrow> sftp_entry list" where
  "sortSftpEntriesByBrowserOrder R entries = sort_by (entry_le R) entries"

datatype list_result =
    ListNotFound
  | ListDone jstring "jstring option" "sftp_entry list"
  | ListFailed jstring failure_metadata

primrec listed_entries :: "'w server \<Rightarrow> jstring \<Rightarrow> directory_entry list \<Rightarrow> ('w, sftp_entry list) sftp_proc" where
  "listed_entries R directory [] = return_io []"
| "listed_entries R directory (entry # entries) =
     (let path = joinSftpPath directory (fst entry); attrs = snd (snd entry)
      in bind_io (link_target R path attrs) (\<lambda>target.
         bind_io (listed_entries R directory entries) (\<lambda>rest.
           return_io (buildSftpEntry (fst entry) path attrs (fst (snd entry)) target # rest))))"

definition listDirectoryPrimitive :: "'w server \<Rightarrow> jstring option \<Rightarrow> ('w, list_result) sftp_proc" where
  "listDirectoryPrimitive R requestedPath = with_open ListNotFound
     (let p = normalizeSftpPathInput requestedPath; fallback = sv_text R (js ''errors.sftp.directoryListFailedNoReason'')
      in catch_io
        (bind_io (resolveRealPath R p) (\<lambda>resolved. case resolved of
            None \<Rightarrow> return_io (ListFailed fallback None)
          | Some d \<Rightarrow>
              if d = [] then return_io (ListFailed fallback None)
              else bind_io (sftp_readdir R d) (\<lambda>entries.
                bind_io (listed_entries R d (filter (\<lambda>e. fst e \<noteq> dot \<and> fst e \<noteq> dotdot) entries)) (\<lambda>mapped.
                  return_io (ListDone d (resolveParentPath d) (sortSftpEntriesByBrowserOrder R mapped))))))
        (\<lambda>e. return_io (ListFailed (resolveErrorMessage (sv_numText R) e fallback) (resolveOperationFailureMetadata e))))"

section \<open>Details\<close>

datatype details_item =
    DetailsFound jstring sftp_entry
  | DetailsFailed jstring jstring failure_metadata

datatype details_result = DetailsNotFound | DetailsDone nat "details_item list"

definition getSingleEntryDetails :: "'w server \<Rightarrow> jstring \<Rightarrow> ('w, details_item) sftp_proc" where
  "getSingleEntryDetails R p =
     catch_io
       (bind_io (sftp_lstat R p) (\<lambda>stats.
          bind_io (link_target R p stats) (\<lambda>target.
            return_io (DetailsFound p (buildSftpEntry (resolveEntryName p) p stats [] target)))))
       (\<lambda>e. return_io (DetailsFailed p (operation_message R e) (resolveOperationFailureMetadata e)))"

primrec details_of :: "'w server \<Rightarrow> jstring list \<Rightarrow> ('w, details_item list) sftp_proc" where
  "details_of R [] = return_io []"
| "details_of R (requestedPath # paths) =
     (let p = normalizeSftpPathInput (Some requestedPath)
      in bind_io
        (if \<not> isMutableSftpEntryPath p
         then return_io (DetailsFailed p (sv_text R (js ''errors.sftp.pathRequired'')) None)
         else getSingleEntryDetails R p) (\<lambda>item.
         bind_io (details_of R paths) (\<lambda>items. return_io (item # items))))"

definition getEntryDetailsPrimitive :: "'w server \<Rightarrow> jstring list \<Rightarrow> ('w, details_result) sftp_proc" where
  "getEntryDetailsPrimitive R requestedPaths = with_open DetailsNotFound
     (bind_io (details_of R requestedPaths) (\<lambda>entries. return_io (DetailsDone (length requestedPaths) entries)))"

end
