(* ===== verification/SftpCalls.thy ===== *)
theory SftpCalls
  imports SftpFiles SftpListing
begin

text \<open>
  The operations of one SFTP session under one name: what a route or a task asks for, and what it gets.
\<close>

text \<open>The calls that a task or a route makes on a session, and what each ends with.\<close>

datatype sftp_call =
    CreateFileCall "jstring option"
  | CreateDirectoryCall "jstring option"
  | RenameCall "jstring option" "jstring option"
  | CopyCall "jstring option" "jstring option"
  | LinkCall "jstring option" "jstring option"
  | DeleteCall "jstring option" bool
  | BatchCall batch_operation "(jstring \<times> entry_type) list" "jstring option"
  | ReadCall "jstring option" "jsnum option"
  | WriteCall "jstring option" jstring snapshot bool
  | UploadCall "jstring option" "jstring option" "snapshot option" bool "jstring option"
  | DownloadCall "jstring option" "jstring option" "jstring option"
  | ListCall "jstring option"
  | DetailsCall "jstring list"

datatype sftp_answer =
    OperationAnswer sftp_result | BatchAnswer batch_result | ReadAnswer read_result | DownloadAnswer download_result
  | ListAnswer list_result | DetailsAnswer details_result

definition map_io :: "('a \<Rightarrow> 'b) \<Rightarrow> ('s, 'e, 'a) proc \<Rightarrow> ('s, 'e, 'b) proc" where
  "map_io f m = bind_io m (\<lambda>x. return_io (f x))"

fun run_call :: "'w server \<Rightarrow> sftp_call \<Rightarrow> ('w, sftp_answer) sftp_proc" where
  "run_call R (CreateFileCall a) = map_io OperationAnswer (createFilePrimitive R a)"
| "run_call R (CreateDirectoryCall a) = map_io OperationAnswer (createDirectoryPrimitive R a)"
| "run_call R (RenameCall a b) = map_io OperationAnswer (renameEntryPrimitive R a b)"
| "run_call R (CopyCall a b) = map_io OperationAnswer (copyEntryPrimitive R a b)"
| "run_call R (LinkCall a b) = map_io OperationAnswer (linkEntryPrimitive R a b)"
| "run_call R (DeleteCall a r) = map_io OperationAnswer (deleteEntryPrimitive R a r)"
| "run_call R (BatchCall op es d) = map_io BatchAnswer (runBatchOperationPrimitive R op es d)"
| "run_call R (ReadCall a n) = map_io ReadAnswer (readFilePreviewPrimitive R a n)"
| "run_call R (WriteCall a c sn ov) = map_io OperationAnswer (writeTextFilePrimitive R a c sn ov)"
| "run_call R (UploadCall a l sn ov i) = map_io OperationAnswer (uploadFilePrimitive R a l sn ov i)"
| "run_call R (DownloadCall a l i) = map_io DownloadAnswer (downloadFilePrimitive R a l i)"
| "run_call R (ListCall a) = map_io ListAnswer (listDirectoryPrimitive R a)"
| "run_call R (DetailsCall ps) = map_io DetailsAnswer (getEntryDetailsPrimitive R ps)"

definition run_calls :: "'w server \<Rightarrow> sftp_call list \<Rightarrow> ('w, unit) sftp_proc" where
  "run_calls R = for_each (\<lambda>c. then_io (run_call R c) (return_io ()))"

end
