(* ===== verification/SftpTasks.thy ===== *)
theory SftpTasks
  imports SftpCalls TaskScheduler
begin

text \<open>
  The tasks that routes start on an SFTP session (packages/backend/src/sftp/session-service.ts): what a
  request reserves, the operation it runs, the outcome it leaves, the failures of the scheduler in the
  vocabulary of the API, and the same for the operations that a route awaits (\<open>runCoordinatedSftpOperation\<close>).
\<close>

section \<open>Requests\<close>

text \<open>\<open>expectedModifiedAt\<close> is the parsed time; an empty text counts as absent.\<close>

datatype task_request =
    CreateFileTask jstring
  | CreateDirectoryTask jstring
  | RenameTask jstring jstring
  | UploadTask jstring jstring "jsnum option" "jsnum option" bool "jstring option"
  | DownloadTask jstring jstring "jstring option"
  | BatchTask batch_operation "(jstring \<times> entry_type) list" "jstring option"

fun task_operation :: "task_request \<Rightarrow> jstring" where
  "task_operation (CreateFileTask p) = js ''create-file''"
| "task_operation (CreateDirectoryTask p) = js ''create-directory''"
| "task_operation (RenameTask p q) = js ''rename''"
| "task_operation (UploadTask p l sz md ov i) = js ''upload''"
| "task_operation (DownloadTask p l i) = js ''download''"
| "task_operation (BatchTask op es d) = js ''batch''"

fun task_transfer :: "task_request \<Rightarrow> jstring option" where
  "task_transfer (UploadTask p l sz md ov i) = i"
| "task_transfer (DownloadTask p l i) = i"
| "task_transfer _ = None"

fun resolveTaskResources :: "task_request \<Rightarrow> task_resources" where
  "resolveTaskResources (DownloadTask p l i) = \<lparr>impact = ReadImpact, workload = Heavy, exclusive = False\<rparr>"
| "resolveTaskResources (UploadTask p l sz md ov i) = \<lparr>impact = MutationImpact, workload = Heavy, exclusive = False\<rparr>"
| "resolveTaskResources (BatchTask op es d) = \<lparr>impact = MutationImpact, workload = Heavy, exclusive = False\<rparr>"
| "resolveTaskResources _ = \<lparr>impact = MutationImpact, workload = Light, exclusive = False\<rparr>"

fun resolveTaskRemotePaths :: "task_request \<Rightarrow> jstring list" where
  "resolveTaskRemotePaths (CreateFileTask p) = [p]"
| "resolveTaskRemotePaths (CreateDirectoryTask p) = [p]"
| "resolveTaskRemotePaths (UploadTask p l sz md ov i) = [p]"
| "resolveTaskRemotePaths (DownloadTask p l i) = [p]"
| "resolveTaskRemotePaths (RenameTask p q) = [p, q]"
| "resolveTaskRemotePaths (BatchTask op es d) =
     map fst es @ (case d of Some t \<Rightarrow> if t = [] then [] else [t] | None \<Rightarrow> [])"

section \<open>Outcomes\<close>

datatype task_result =
    OperationTask jstring "jstring option" "(nat \<times> nat) option"
  | DownloadedTask jstring jstring nat
  | BatchedTask batch_summary

text \<open>What runners return and throw: results of tasks, results of awaited operations, errors, archive data.\<close>

datatype task_value = Retained task_result | Answered sftp_answer | Raised sftp_error | ArchiveValue

definition SFTP_SESSION_NOT_FOUND :: jstring where "SFTP_SESSION_NOT_FOUND = js ''SFTP_SESSION_NOT_FOUND''"
definition SFTP_OPERATION_FAILED :: jstring where "SFTP_OPERATION_FAILED = js ''SFTP_OPERATION_FAILED''"
definition SFTP_UPLOAD_CONFLICT :: jstring where "SFTP_UPLOAD_CONFLICT = js ''SFTP_UPLOAD_CONFLICT''"

definition SFTP_TASK_ERROR_CODES :: "jstring list" where
  "SFTP_TASK_ERROR_CODES = map js [''SFTP_TASK_DEADLINE_EXCEEDED'', ''SFTP_OPERATION_TIMEOUT'',
     ''SFTP_TRANSPORT_CLOSED'', ''SFTP_SESSION_NOT_FOUND'', ''SFTP_OPERATION_FAILED'', ''SFTP_UPLOAD_CONFLICT'',
     ''SFTP_VALIDATION_FAILED'']"

text \<open>\<open>...(unknown ? { outcomeUnknown: true } : {})\<close>\<close>

definition marked :: "bool \<Rightarrow> bool option" where "marked b = (if b then Some True else None)"

definition metadata_code :: "failure_metadata \<Rightarrow> jstring" where
  "metadata_code md = (case md of Some (c, u) \<Rightarrow> code_text c | None \<Rightarrow> SFTP_OPERATION_FAILED)"

definition metadata_unknown :: "failure_metadata \<Rightarrow> bool" where
  "metadata_unknown md = (case md of Some (c, u) \<Rightarrow> u | None \<Rightarrow> False)"

definition resolveTaskFailure :: "jstring \<Rightarrow> bool \<Rightarrow> failure_metadata \<Rightarrow> task_failure" where
  "resolveTaskFailure message conflict md =
     \<lparr>fl_code = (if conflict then SFTP_UPLOAD_CONFLICT else metadata_code md), fl_message = message,
      fl_outcomeUnknown = marked (metadata_unknown md)\<rparr>"

definition buildMissingSessionTaskOutcome :: "'w server \<Rightarrow> task_value run_outcome" where
  "buildMissingSessionTaskOutcome R =
     RunFailed \<lparr>fl_code = SFTP_SESSION_NOT_FOUND, fl_message = sv_text R (js ''errors.sftp.sessionNotFound''),
       fl_outcomeUnknown = None\<rparr> None"

fun toTaskOperationOutcome :: "'w server \<Rightarrow> sftp_result \<Rightarrow> task_value run_outcome" where
  "toTaskOperationOutcome R NotFound = buildMissingSessionTaskOutcome R"
| "toTaskOperationOutcome R (FailedResult message conflict md) = RunFailed (resolveTaskFailure message conflict md) None"
| "toTaskOperationOutcome R (Done p target info) =
     RunSucceeded (Some (Retained (OperationTask p (if target = Some [] then None else target) info)))"

fun toTaskDownloadOutcome :: "'w server \<Rightarrow> download_result \<Rightarrow> task_value run_outcome" where
  "toTaskDownloadOutcome R DownloadNotFound = buildMissingSessionTaskOutcome R"
| "toTaskDownloadOutcome R (DownloadFailed message md) = RunFailed (resolveTaskFailure message False md) None"
| "toTaskDownloadOutcome R (DownloadDone p l n) = RunSucceeded (Some (Retained (DownloadedTask p l n)))"

definition find_failed :: "batch_item list \<Rightarrow> batch_item option" where
  "find_failed items = List.find (\<lambda>i. bi_status i = ItemFailed) items"

fun toTaskBatchOutcome :: "'w server \<Rightarrow> batch_result \<Rightarrow> task_value run_outcome" where
  "toTaskBatchOutcome R BatchNotFound = buildMissingSessionTaskOutcome R"
| "toTaskBatchOutcome R (BatchFailed message) = RunFailed (resolveTaskFailure message False None) None"
| "toTaskBatchOutcome R (BatchDone b) =
     (if bs_failedCount b = 0 then RunSucceeded (Some (Retained (BatchedTask b)))
      else let failedItem = find_failed (bs_results b);
               md = (case failedItem of None \<Rightarrow> None | Some i \<Rightarrow> bi_metadata i)
           in RunFailed
             \<lparr>fl_code = metadata_code md,
              fl_message = (case failedItem of Some i \<Rightarrow>
                  (case bi_message i of Some m \<Rightarrow> m | None \<Rightarrow> sv_text R (js ''errors.sftp.operationFailedNoReason''))
                | None \<Rightarrow> sv_text R (js ''errors.sftp.operationFailedNoReason'')),
              fl_outcomeUnknown = marked (metadata_unknown md)\<rparr>
             (Some (Retained (BatchedTask b))))"

definition expected_snapshot :: "jsnum option \<Rightarrow> jsnum option \<Rightarrow> snapshot option" where
  "expected_snapshot expectedSize expectedModifiedAt =
     (case (expectedSize, expectedModifiedAt) of
        (Some sz, Some ms) \<Rightarrow> Some \<lparr>sn_size = sz, sn_modifiedMs = ms\<rparr>
      | _ \<Rightarrow> None)"

fun executeTaskRequest :: "'w server \<Rightarrow> task_request \<Rightarrow> ('w, task_value run_outcome) sftp_proc" where
  "executeTaskRequest R (CreateFileTask p) = map_io (toTaskOperationOutcome R) (createFilePrimitive R (Some p))"
| "executeTaskRequest R (CreateDirectoryTask p) = map_io (toTaskOperationOutcome R) (createDirectoryPrimitive R (Some p))"
| "executeTaskRequest R (RenameTask p q) = map_io (toTaskOperationOutcome R) (renameEntryPrimitive R (Some p) (Some q))"
| "executeTaskRequest R (UploadTask p l sz md ov i) =
     map_io (toTaskOperationOutcome R) (uploadFilePrimitive R (Some p) (Some l) (expected_snapshot sz md) ov i)"
| "executeTaskRequest R (DownloadTask p l i) =
     map_io (toTaskDownloadOutcome R) (downloadFilePrimitive R (Some p) (Some l) i)"
| "executeTaskRequest R (BatchTask op es d) = map_io (toTaskBatchOutcome R) (runBatchOperationPrimitive R op es d)"

section \<open>The view of the API\<close>

definition normalizeTaskErrorCode :: "jstring \<Rightarrow> jstring" where
  "normalizeTaskErrorCode code = (if code \<in> set SFTP_TASK_ERROR_CODES then code else SFTP_OPERATION_FAILED)"

record task_data =
  td_sessionId :: jstring
  td_taskId :: jstring
  td_operation :: jstring
  td_state :: task_state
  td_remotePaths :: "jstring list"
  td_transferId :: "jstring option"
  td_createdAt :: rat
  td_deadlineAt :: rat
  td_startedAt :: "rat option"
  td_finishedAt :: "rat option"
  td_result :: "task_value option"
  td_errorCode :: "jstring option"
  td_errorMessage :: "jstring option"
  td_outcomeUnknown :: "bool option"

text \<open>A record of a public task; \<open>pt_ref\<close> is the address of its scheduler record, which its handle holds.\<close>

record public_task =
  pt_operation :: jstring
  pt_remotePaths :: "jstring list"
  pt_transferId :: "jstring option"
  pt_ref :: nat
  pt_released :: bool
  pt_retentionTimer :: bool

definition toApiTaskData :: "public_task \<Rightarrow> task_value task_snapshot \<Rightarrow> task_data" where
  "toApiTaskData rec sn =
     \<lparr>td_sessionId = sn_sessionId sn, td_taskId = sn_taskId sn, td_operation = pt_operation rec,
      td_state = sn_state sn, td_remotePaths = pt_remotePaths rec,
      td_transferId = (if pt_transferId rec = Some [] then None else pt_transferId rec),
      td_createdAt = sn_createdAt sn, td_deadlineAt = sn_deadlineAt sn, td_startedAt = sn_startedAt sn,
      td_finishedAt = sn_finishedAt sn,
      td_result = (case sn_result sn of None \<Rightarrow> sn_partialResult sn | Some v \<Rightarrow> Some v),
      td_errorCode = map_option (\<lambda>f. normalizeTaskErrorCode (fl_code f)) (sn_failure sn),
      td_errorMessage = (case sn_failure sn of Some f \<Rightarrow> if fl_message f = [] then None else Some (fl_message f)
        | None \<Rightarrow> None),
      td_outcomeUnknown = (case sn_failure sn of Some f \<Rightarrow> if fl_outcomeUnknown f = Some True then Some True else None
        | None \<Rightarrow> None)\<rparr>"

section \<open>What the scheduler is given\<close>

definition public_failure :: "'w server \<Rightarrow> task_resources \<Rightarrow> task_value \<Rightarrow> task_failure option" where
  "public_failure R resources err =
     (case err of
        Raised e \<Rightarrow> Some \<lparr>fl_code = SFTP_OPERATION_FAILED,
          fl_message = resolveErrorMessage (sv_numText R) e (sv_text R (js ''errors.sftp.operationFailedNoReason'')),
          fl_outcomeUnknown = marked (impact resources = MutationImpact)\<rparr>
      | _ \<Rightarrow> None)"

definition public_spec :: "'w server \<Rightarrow> task_request \<Rightarrow> task_value task_spec" where
  "public_spec R request =
     \<lparr>ts_taskId = None, ts_operation = task_operation request, ts_resources = resolveTaskResources request,
      ts_claims = resolveTaskRemotePaths request, ts_absoluteTimeoutMs = sv_absoluteTimeoutMs R,
      ts_cancellationSignal = None, ts_mapFailure = Some (public_failure R (resolveTaskResources request)),
      ts_onAbort = True\<rparr>"

definition awaited_failure :: "'w server \<Rightarrow> task_resources \<Rightarrow> task_value \<Rightarrow> task_failure option" where
  "awaited_failure R resources err =
     (case err of
        Raised (GuardFailure f) \<Rightarrow> Some \<lparr>fl_code = code_text (of_code f),
          fl_message = error_text (sv_numText R) (GuardFailure f), fl_outcomeUnknown = marked (of_outcomeUnknown f)\<rparr>
      | _ \<Rightarrow> public_failure R resources err)"

definition awaited_spec ::
  "'w server \<Rightarrow> jstring \<Rightarrow> task_resources \<Rightarrow> jstring list \<Rightarrow> task_value task_spec" where
  "awaited_spec R operation resources claims =
     \<lparr>ts_taskId = None, ts_operation = js ''legacy-'' @ operation, ts_resources = resources, ts_claims = claims,
      ts_absoluteTimeoutMs = sv_absoluteTimeoutMs R, ts_cancellationSignal = None,
      ts_mapFailure = Some (awaited_failure R resources), ts_onAbort = True\<rparr>"

text \<open>
  What a route gets when its operation settled: the answer of the operation, or a failure with the code of a
  guarded request, when the task was stopped by its deadline or cancelled.
\<close>

definition awaited_code :: "task_value task_snapshot \<Rightarrow> failure_code option" where
  "awaited_code sn =
     (let code = map_option fl_code (sn_failure sn)
      in if code = Some DEADLINE_EXCEEDED_CODE \<or> code = Some (code_text OPERATION_TIMEOUT) then Some OPERATION_TIMEOUT
         else if sn_state sn = Cancelled \<or> code = Some (code_text TRANSPORT_CLOSED) then Some TRANSPORT_CLOSED
         else None)"

definition awaited_unknown :: "task_value task_snapshot \<Rightarrow> task_resources \<Rightarrow> bool" where
  "awaited_unknown sn resources \<longleftrightarrow>
     impact resources = MutationImpact \<and> sn_startedAt sn \<noteq> None \<and>
     (sn_state sn = Cancelled \<or> (\<exists>f. sn_failure sn = Some f \<and> fl_outcomeUnknown f = Some True))"

definition awaited_result ::
  "'w server \<Rightarrow> task_resources \<Rightarrow> task_value task_snapshot \<Rightarrow> (jstring \<times> failure_code option \<times> bool) + task_value" where
  "awaited_result R resources sn =
     (case (sn_state sn, sn_result sn) of
        (Succeeded, Some v) \<Rightarrow> Inr v
      | _ \<Rightarrow> Inl (case sn_failure sn of Some f \<Rightarrow> fl_message f
                    | None \<Rightarrow> sv_text R (js ''errors.sftp.operationFailedNoReason''),
                  awaited_code sn, awaited_unknown sn resources))"

end
