(* ===== verification/SftpSessions.thy ===== *)
theory SftpSessions
  imports SftpTasks
begin

text \<open>
  The SFTP session service around its operations (packages/backend/src/sftp/session-service.ts): the sessions
  and their transports, one scheduler per session, the records of public tasks with their bound and their
  retention, closing and shutdown.  Session objects are addressed by their position, because handlers keep
  an object after its session left the map.  What the service does when a scheduler calls an abort hook or
  resolves \<open>released\<close> is done here; the archive service and ssh2 are not part of this state.
\<close>

section \<open>State\<close>

record session_object =
  so_sessionId :: jstring
  so_closed :: bool
  so_aborted :: bool
  so_destroyed :: nat
  so_ended :: nat

text \<open>
  Who started a task: a public task, an operation that a route awaits, or the archive service; with the
  session object that its closures hold.
\<close>

datatype task_kind = PublicKind nat | AwaitedKind nat | ArchiveKind nat

type_synonym task_scheduler = "task_value scheduler"

text \<open>
  \<open>ss_reactions\<close>: the handlers waiting for \<open>released\<close> of a task.  \<open>ss_closing\<close>: calls of \<open>closeSession\<close>
  that wait for the scheduler to drain.  \<open>ss_stopping\<close>: the calls that \<open>stop\<close> waits for.
\<close>

record service =
  ss_objects :: "session_object list"
  ss_sessions :: "(jstring \<times> nat) list"
  ss_schedulers :: "(jstring \<times> task_scheduler) list"
  ss_tasks :: "(jstring \<times> (jstring \<times> public_task) list) list"
  ss_reactions :: "(jstring \<times> nat \<times> task_kind) list"
  ss_closing :: "(jstring \<times> nat) list"
  ss_stopping :: "nat list option"

definition new_sftp_service :: service where
  "new_sftp_service =
     \<lparr>ss_objects = [], ss_sessions = [], ss_schedulers = [], ss_tasks = [], ss_reactions = [], ss_closing = [],
      ss_stopping = None\<rparr>"

definition SFTP_TASK_RECORD_LIMIT_PER_SESSION :: nat where "SFTP_TASK_RECORD_LIMIT_PER_SESSION = 512"

definition update_object :: "nat \<Rightarrow> (session_object \<Rightarrow> session_object) \<Rightarrow> service \<Rightarrow> service" where
  "update_object i f S =
     (if i < length (ss_objects S) then S\<lparr>ss_objects := (ss_objects S)[i := f (ss_objects S ! i)]\<rparr> else S)"

definition records_of :: "jstring \<Rightarrow> service \<Rightarrow> (jstring \<times> public_task) list" where
  "records_of sid S = (case map_of (ss_tasks S) sid of None \<Rightarrow> [] | Some ts \<Rightarrow> ts)"

definition set_records :: "jstring \<Rightarrow> (jstring \<times> public_task) list \<Rightarrow> service \<Rightarrow> service" where
  "set_records sid ts S = S\<lparr>ss_tasks := map_set sid ts (ss_tasks S)\<rparr>"

definition set_scheduler :: "jstring \<Rightarrow> task_scheduler \<Rightarrow> service \<Rightarrow> service" where
  "set_scheduler sid sched S = S\<lparr>ss_schedulers := map_set sid sched (ss_schedulers S)\<rparr>"

section \<open>Sessions\<close>

text \<open>\<open>this.sessions.set(sessionId, session)\<close> with the listeners of its transport.\<close>

definition registerSftpSession :: "jstring \<Rightarrow> service \<Rightarrow> nat \<times> service" where
  "registerSftpSession sid S =
     (let i = length (ss_objects S)
      in (i, S\<lparr>ss_objects := ss_objects S @
                 [\<lparr>so_sessionId = sid, so_closed = False, so_aborted = False, so_destroyed = 0, so_ended = 0\<rparr>],
               ss_sessions := map_set sid i (ss_sessions S)\<rparr>))"

definition getOpenSession :: "jstring \<Rightarrow> service \<Rightarrow> nat option \<times> service" where
  "getOpenSession sid S =
     (case map_of (ss_sessions S) sid of
        None \<Rightarrow> (None, S)
      | Some i \<Rightarrow>
          if so_closed (ss_objects S ! i) then (None, S\<lparr>ss_sessions := map_delete sid (ss_sessions S)\<rparr>)
          else (Some i, S))"

definition deleteClosedTaskSchedulerIfUnused :: "jstring \<Rightarrow> service \<Rightarrow> service" where
  "deleteClosedTaskSchedulerIfUnused sid S =
     (if map_of (ss_sessions S) sid \<noteq> None then S
      else if records_of sid S \<noteq> [] then S
      else if (case map_of (ss_schedulers S) sid of None \<Rightarrow> False | Some sched \<Rightarrow> listTasks sched \<noteq> []) then S
      else S\<lparr>ss_tasks := map_delete sid (ss_tasks S), ss_schedulers := map_delete sid (ss_schedulers S)\<rparr>)"

definition markSessionUnavailable :: "nat \<Rightarrow> service \<Rightarrow> bool \<times> service" where
  "markSessionUnavailable i S =
     (let sid = so_sessionId (ss_objects S ! i); wasOpen = (\<not> so_closed (ss_objects S ! i));
          S1 = update_object i (\<lambda>x. x\<lparr>so_closed := True, so_aborted := True\<rparr>) S;
          S2 = (if map_of (ss_sessions S) sid = Some i then S1\<lparr>ss_sessions := map_delete sid (ss_sessions S1)\<rparr> else S1)
      in (wasOpen, deleteClosedTaskSchedulerIfUnused sid S2))"

definition closeUnusableTransport :: "nat \<Rightarrow> service \<Rightarrow> service" where
  "closeUnusableTransport i S = update_object i (\<lambda>x. x\<lparr>so_destroyed := so_destroyed x + 1\<rparr>) S"

definition poisonSession :: "nat \<Rightarrow> service \<Rightarrow> service" where
  "poisonSession i S =
     (let (wasOpen, S1) = markSessionUnavailable i S
      in if \<not> wasOpen then S1 else closeUnusableTransport i S1)"

text \<open>The listeners of the client and of the channel.\<close>

definition markClosed :: "nat \<Rightarrow> service \<Rightarrow> service" where
  "markClosed i S =
     (if so_closed (ss_objects S ! i) then S
      else closeUnusableTransport i (snd (markSessionUnavailable i S)))"

section \<open>Running a scheduler\<close>

definition kind_of :: "jstring \<Rightarrow> nat \<Rightarrow> service \<Rightarrow> task_kind option" where
  "kind_of sid r S = map_option (\<lambda>(s, q, k). k) (List.find (\<lambda>(s, q, k). s = sid \<and> q = r) (ss_reactions S))"

text \<open>\<open>onAbort\<close> of the three callers; what the archive service does there is left to it.\<close>

definition on_abort :: "task_kind \<Rightarrow> abort_reason \<Rightarrow> service \<Rightarrow> service" where
  "on_abort kind reason S =
     (case (kind, reason) of
        (_, AbortDeadline) \<Rightarrow> poisonSession (case kind of PublicKind i \<Rightarrow> i | AwaitedKind i \<Rightarrow> i | ArchiveKind i \<Rightarrow> i) S
      | (ArchiveKind i, AbortCancelled) \<Rightarrow> S
      | (PublicKind i, AbortCancelled) \<Rightarrow> snd (markSessionUnavailable i S)
      | (AwaitedKind i, AbortCancelled) \<Rightarrow> snd (markSessionUnavailable i S))"

definition run_hook :: "jstring \<Rightarrow> task_value effect \<Rightarrow> service \<Rightarrow> service" where
  "run_hook sid e S =
     (case e of
        AbortHook r reason \<Rightarrow> (case kind_of sid r S of None \<Rightarrow> S | Some kind \<Rightarrow> on_abort kind reason S)
      | _ \<Rightarrow> S)"

text \<open>A method of the scheduler of \<open>sid\<close> and the hooks that it calls.\<close>

definition with_scheduler :: "jstring \<Rightarrow> task_scheduler \<Rightarrow> task_scheduler \<Rightarrow> service \<Rightarrow> service" where
  "with_scheduler sid old new S =
     fold (run_hook sid) (drop (length (effects old)) (effects new)) (set_scheduler sid new S)"

definition initial_scheduler :: "jstring \<Rightarrow> task_scheduler" where
  "initial_scheduler sid =
     \<lparr>sc_sessionId = sid, sc_limits = \<lparr>lm_total = 3, lm_heavy = 2, lm_mutation = 1\<rparr>, store = (\<lambda>_. undefined),
      records = [], queue = [], active = [], idleWaiters = [], sequence = 0, isDispatching = False, effects = []\<rparr>"

definition getOrCreateTaskScheduler :: "jstring \<Rightarrow> service \<Rightarrow> task_scheduler \<times> service" where
  "getOrCreateTaskScheduler sid S =
     (case map_of (ss_schedulers S) sid of
        Some sched \<Rightarrow> (sched, S)
      | None \<Rightarrow> (initial_scheduler sid, set_scheduler sid (initial_scheduler sid) S))"

section \<open>Records of public tasks\<close>

definition getOrCreatePublicTaskRecords :: "jstring \<Rightarrow> service \<Rightarrow> service" where
  "getOrCreatePublicTaskRecords sid S = (case map_of (ss_tasks S) sid of Some ts \<Rightarrow> S | None \<Rightarrow> set_records sid [] S)"

definition forget :: "jstring \<Rightarrow> jstring \<Rightarrow> service \<Rightarrow> service" where
  "forget sid taskId S =
     (case map_of (ss_schedulers S) sid of
        None \<Rightarrow> S
      | Some sched \<Rightarrow> set_scheduler sid (snd (forgetTask taskId sched)) S)"

text \<open>The record is compared by its task; \<open>getOpenSession\<close> has the effect that it has there.\<close>

definition removePublicTaskRecord :: "jstring \<Rightarrow> jstring \<Rightarrow> nat \<Rightarrow> service \<Rightarrow> service" where
  "removePublicTaskRecord sid taskId r S =
     (if (case map_of (records_of sid S) taskId of None \<Rightarrow> True | Some pt \<Rightarrow> pt_ref pt \<noteq> r) then S
      else
        let S1 = forget sid taskId (set_records sid (map_delete taskId (records_of sid S)) S);
            S2 = (if records_of sid S1 = []
                  then let (session, S2) = getOpenSession sid S1
                       in if session = None then S2\<lparr>ss_tasks := map_delete sid (ss_tasks S2)\<rparr> else S2
                  else S1)
        in deleteClosedTaskSchedulerIfUnused sid S2)"

definition task_state_of :: "jstring \<Rightarrow> public_task \<Rightarrow> service \<Rightarrow> task_state" where
  "task_state_of sid pt S =
     (case map_of (ss_schedulers S) sid of
        Some sched \<Rightarrow> sn_state (rc_snapshot (store sched (pt_ref pt)))
      | None \<Rightarrow> Failed)"

text \<open>One pass over the records: those that pass the test are removed until there is room.\<close>

fun evict :: "(service \<Rightarrow> public_task \<Rightarrow> bool) \<Rightarrow> jstring \<Rightarrow> (jstring \<times> public_task) list \<Rightarrow> service \<Rightarrow> bool \<times> service" where
  "evict test sid [] S = (False, S)"
| "evict test sid ((taskId, pt) # rest) S =
     (if \<not> test S pt then evict test sid rest S
      else let S1 = removePublicTaskRecord sid taskId (pt_ref pt) S
           in if length (records_of sid S1) < SFTP_TASK_RECORD_LIMIT_PER_SESSION then (True, S1)
              else evict test sid rest S1)"

definition quietly_ended :: "jstring \<Rightarrow> service \<Rightarrow> public_task \<Rightarrow> bool" where
  "quietly_ended sid S pt \<longleftrightarrow> pt_released pt \<and> task_state_of sid pt S \<in> {Succeeded, Cancelled}"

definition makeRoomForPublicTask :: "jstring \<Rightarrow> service \<Rightarrow> bool \<times> service" where
  "makeRoomForPublicTask sid S =
     (if length (records_of sid S) < SFTP_TASK_RECORD_LIMIT_PER_SESSION then (True, S)
      else
        let (room, S1) = evict (quietly_ended sid) sid (records_of sid S) S
        in if room then (True, S1)
           else evict (\<lambda>S pt. pt_released pt) sid (records_of sid S1) S1)"

section \<open>Starting\<close>

datatype start_result = StartNotFound | StartFailed jstring | StartDone task_data

text \<open>
  \<open>schedule\<close> throws for an empty operation, a deadline that is no positive number and an identifier that is
  taken; the service reports the text of the error.
\<close>

fun schedule_error_text :: "scheduler_error \<Rightarrow> jstring" where
  "schedule_error_text (DuplicateTaskId i) = js ''SFTP task id is already registered: '' @ i"
| "schedule_error_text (RangeError what) =
     (if what = ''operation'' then js ''SFTP task operation must not be empty.''
      else js ''SFTP task absolute timeout must be a positive finite number.'')"

definition startTask ::
  "(jstring \<Rightarrow> jstring \<Rightarrow> bool) \<Rightarrow> 'w server \<Rightarrow> rat \<Rightarrow> jstring \<Rightarrow> jstring \<Rightarrow> task_request \<Rightarrow> service
     \<Rightarrow> start_result \<times> service" where
  "startTask locale_le R now newId sid request S0 =
     (let (session, S1) = getOpenSession sid S0
      in case session of
           None \<Rightarrow> (StartNotFound, S1)
         | Some i \<Rightarrow>
             let S2 = getOrCreatePublicTaskRecords sid S1;
                 (room, S3) = makeRoomForPublicTask sid S2
             in if \<not> room then (StartFailed (sv_text R (js ''errors.sftp.taskQueueFull'')), S3)
                else
                  let (sched, S4) = getOrCreateTaskScheduler sid S3
                  in case schedule locale_le now newId (public_spec R request) sched of
                       Inl e \<Rightarrow> (StartFailed (schedule_error_text e), S4)
                     | Inr (r, sched') \<Rightarrow>
                         let S5 = with_scheduler sid sched sched'
                               (S4\<lparr>ss_reactions := ss_reactions S4 @ [(sid, r, PublicKind i)]\<rparr>);
                             sn = copySnapshot (rc_snapshot (store sched' r));
                             pt = \<lparr>pt_operation = task_operation request, pt_remotePaths = sn_claims sn,
                                   pt_transferId = (if task_transfer request = Some [] then None else task_transfer request),
                                   pt_ref = r, pt_released = False, pt_retentionTimer = False\<rparr>
                         in (StartDone (toApiTaskData pt sn),
                             set_records sid (map_set (sn_taskId sn) pt (records_of sid S5)) S5))"

text \<open>
  \<open>runCoordinatedSftpOperation\<close> and the two archive calls, up to the point where they wait: the caller has
  found the session open.
\<close>

definition admit ::
  "(jstring \<Rightarrow> jstring \<Rightarrow> bool) \<Rightarrow> rat \<Rightarrow> jstring \<Rightarrow> jstring \<Rightarrow> (nat \<Rightarrow> task_kind) \<Rightarrow> task_value task_spec \<Rightarrow> service
     \<Rightarrow> nat option \<times> service" where
  "admit locale_le now newId sid kind spec S0 =
     (let (session, S1) = getOpenSession sid S0
      in case session of
           None \<Rightarrow> (None, S1)
         | Some i \<Rightarrow>
             let (sched, S2) = getOrCreateTaskScheduler sid S1
             in case schedule locale_le now newId spec sched of
                  Inl e \<Rightarrow> (None, S2)
                | Inr (r, sched') \<Rightarrow>
                    (Some r, with_scheduler sid sched sched'
                       (S2\<lparr>ss_reactions := ss_reactions S2 @ [(sid, r, kind i)]\<rparr>)))"

section \<open>Reactions\<close>

definition armPublicTaskRetention :: "jstring \<Rightarrow> jstring \<Rightarrow> nat \<Rightarrow> service \<Rightarrow> service" where
  "armPublicTaskRetention sid taskId r S =
     (case map_of (records_of sid S) taskId of
        Some pt \<Rightarrow> if pt_ref pt \<noteq> r then S
          else set_records sid (map_set taskId (pt\<lparr>pt_released := True, pt_retentionTimer := True\<rparr>) (records_of sid S)) S
      | None \<Rightarrow> S)"

text \<open>What follows \<open>released\<close> of a task: a public task is retained, any other is forgotten.\<close>

definition on_released :: "jstring \<Rightarrow> jstring \<Rightarrow> nat \<Rightarrow> task_kind \<Rightarrow> service \<Rightarrow> service" where
  "on_released sid taskId r kind S =
     (case kind of
        PublicKind i \<Rightarrow> armPublicTaskRetention sid taskId r S
      | _ \<Rightarrow> deleteClosedTaskSchedulerIfUnused sid (forget sid taskId S))"

definition retention_fires :: "jstring \<Rightarrow> jstring \<Rightarrow> service \<Rightarrow> service" where
  "retention_fires sid taskId S =
     (case map_of (records_of sid S) taskId of
        Some pt \<Rightarrow> if pt_retentionTimer pt then removePublicTaskRecord sid taskId (pt_ref pt) S else S
      | None \<Rightarrow> S)"

section \<open>Closing\<close>

definition closeSftpSession :: "rat \<Rightarrow> jstring \<Rightarrow> service \<Rightarrow> bool \<times> service" where
  "closeSftpSession now sid S =
     (case map_of (ss_sessions S) sid of
        None \<Rightarrow> (False, S)
      | Some i \<Rightarrow>
          let S1 = (case map_of (ss_schedulers S) sid of
                 None \<Rightarrow> S
               | Some sched \<Rightarrow> with_scheduler sid sched (cancelAll now sched) S);
              S2 = snd (markSessionUnavailable i S1)
          in (True, S2\<lparr>ss_closing := ss_closing S2 @ [(sid, i)]\<rparr>))"

text \<open>The scheduler is idle, or five seconds have passed; the archive service has closed its part.\<close>

definition close_drained :: "jstring \<Rightarrow> nat \<Rightarrow> service \<Rightarrow> service" where
  "close_drained sid i S =
     deleteClosedTaskSchedulerIfUnused sid
       (update_object i (\<lambda>x. x\<lparr>so_ended := so_ended x + 1\<rparr>) (S\<lparr>ss_closing := remove1 (sid, i) (ss_closing S)\<rparr>))"

definition closeAllSftpSessions :: "rat \<Rightarrow> service \<Rightarrow> service" where
  "closeAllSftpSessions now S = fold (\<lambda>sid S. snd (closeSftpSession now sid S)) (map fst (ss_sessions S)) S"

definition stop_begins :: "rat \<Rightarrow> service \<Rightarrow> service" where
  "stop_begins now S =
     (let S1 = closeAllSftpSessions now S in S1\<lparr>ss_stopping := Some (map snd (ss_sessions S))\<rparr>)"

text \<open>Handlers that still wait find nothing to do after the maps are cleared.\<close>

definition stop_ends :: "service \<Rightarrow> service" where
  "stop_ends S = S\<lparr>ss_schedulers := [], ss_tasks := [], ss_reactions := [], ss_stopping := None\<rparr>"

section \<open>Listing tasks\<close>

definition snapshot_of :: "jstring \<Rightarrow> public_task \<Rightarrow> service \<Rightarrow> task_value task_snapshot option" where
  "snapshot_of sid pt S =
     map_option (\<lambda>sched. copySnapshot (rc_snapshot (store sched (pt_ref pt)))) (map_of (ss_schedulers S) sid)"

definition listPublicTasks :: "jstring \<Rightarrow> service \<Rightarrow> task_data list option" where
  "listPublicTasks sid S =
     (case map_of (ss_tasks S) sid of
        None \<Rightarrow> if fst (getOpenSession sid S) \<noteq> None then Some [] else None
      | Some ts \<Rightarrow> Some (List.map_filter (\<lambda>(taskId, pt). map_option (toApiTaskData pt) (snapshot_of sid pt S)) ts))"

definition getPublicTask :: "jstring \<Rightarrow> jstring \<Rightarrow> service \<Rightarrow> task_data option" where
  "getPublicTask sid taskId S =
     (case map_of (records_of sid S) taskId of
        None \<Rightarrow> None
      | Some pt \<Rightarrow> map_option (toApiTaskData pt) (snapshot_of sid pt S))"

section \<open>Events\<close>

text \<open>
  What happens to the service, one event at a time.  Identifiers of sessions are random, so a new one is a
  text that has not been used.  A scheduler moves by its own steps, which add and remove no task; a request that runs into its
  deadline poisons its session.
\<close>

definition fresh_id :: "jstring \<Rightarrow> service \<Rightarrow> bool" where
  "fresh_id sid S \<longleftrightarrow> trim sid \<noteq> [] \<and> sid \<notin> so_sessionId ` set (ss_objects S) \<and> sid \<notin> fst ` set (ss_sessions S) \<and>
     sid \<notin> fst ` set (ss_schedulers S) \<and> sid \<notin> fst ` set (ss_tasks S)"

inductive service_step :: "(jstring \<Rightarrow> jstring \<Rightarrow> bool) \<Rightarrow> 'w server \<Rightarrow> service \<Rightarrow> service \<Rightarrow> bool"
  for locale_le :: "jstring \<Rightarrow> jstring \<Rightarrow> bool" and R :: "'w server" where
  session_opens: "fresh_id sid S \<Longrightarrow> service_step locale_le R S (snd (registerSftpSession sid S))"
| session_read: "service_step locale_le R S (snd (getOpenSession sid S))"
| transport_closes: "i < length (ss_objects S) \<Longrightarrow> service_step locale_le R S (markClosed i S)"
| request_expires: "i < length (ss_objects S) \<Longrightarrow> service_step locale_le R S (poisonSession i S)"
| task_starts: "service_step locale_le R S (snd (startTask locale_le R now newId sid request S))"
| operation_awaited:
    "service_step locale_le R S
       (snd (admit locale_le now newId sid AwaitedKind (awaited_spec R operation resources claims) S))"
| archive_admitted: "service_step locale_le R S (snd (admit locale_le now newId sid ArchiveKind spec S))"
| scheduler_runs:
    "map_of (ss_schedulers S) sid = Some sched \<Longrightarrow> sched_step locale_le sched sched' \<Longrightarrow> records sched' = records sched \<Longrightarrow>
     service_step locale_le R S (with_scheduler sid sched sched' S)"
| task_released:
    "(sid, r, kind) \<in> set (ss_reactions S) \<Longrightarrow> map_of (ss_schedulers S) sid = Some sched \<Longrightarrow>
     rc_releaseResolved (store sched r) \<Longrightarrow>
     service_step locale_le R S (on_released sid (taskId_of sched r) r kind
       (S\<lparr>ss_reactions := remove1 (sid, r, kind) (ss_reactions S)\<rparr>))"
| record_expires: "service_step locale_le R S (retention_fires sid taskId S)"
| session_closes: "service_step locale_le R S (snd (closeSftpSession now sid S))"
| close_ends: "(sid, i) \<in> set (ss_closing S) \<Longrightarrow> service_step locale_le R S (close_drained sid i S)"
| service_stops: "service_step locale_le R S (stop_begins now S)"
| service_stopped: "ss_stopping S = Some awaited \<Longrightarrow> set awaited \<inter> snd ` set (ss_closing S) = {} \<Longrightarrow>
    service_step locale_le R S (stop_ends S)"

inductive service_reachable :: "(jstring \<Rightarrow> jstring \<Rightarrow> bool) \<Rightarrow> 'w server \<Rightarrow> service \<Rightarrow> bool"
  for locale_le :: "jstring \<Rightarrow> jstring \<Rightarrow> bool" and R :: "'w server" where
  service_begins: "service_reachable locale_le R new_sftp_service"
| service_moves: "service_reachable locale_le R S \<Longrightarrow> service_step locale_le R S T \<Longrightarrow> service_reachable locale_le R T"

end
