(* ===== verification/SftpSessionProofs.thy ===== *)
theory SftpSessionProofs
  imports SftpSessions SchedulerSafety
begin

text \<open>
  Invariants of the SFTP session service: the map of sessions holds exactly the open session objects, a
  transport is destroyed at most once, the records of public tasks are bounded, every scheduler is a reachable
  scheduler, and a scheduler or a map of records is kept only for a session that still needs it.
\<close>

section \<open>The invariant\<close>

definition objects_ok :: "service \<Rightarrow> bool" where
  "objects_ok S \<longleftrightarrow> (\<forall>i<length (ss_objects S). let x = ss_objects S ! i in
     (\<not> so_closed x \<longrightarrow> map_of (ss_sessions S) (so_sessionId x) = Some i) \<and> so_aborted x = so_closed x \<and>
     so_destroyed x \<le> (if so_closed x then 1 else 0) \<and> trim (so_sessionId x) \<noteq> [])"

definition sessions_ok :: "service \<Rightarrow> bool" where
  "sessions_ok S \<longleftrightarrow> (\<forall>sid i. map_of (ss_sessions S) sid = Some i \<longrightarrow>
     i < length (ss_objects S) \<and> so_sessionId (ss_objects S ! i) = sid \<and> \<not> so_closed (ss_objects S ! i))"

fun kind_object :: "task_kind \<Rightarrow> nat" where
  "kind_object (PublicKind i) = i"
| "kind_object (AwaitedKind i) = i"
| "kind_object (ArchiveKind i) = i"

definition refs_ok :: "service \<Rightarrow> bool" where
  "refs_ok S \<longleftrightarrow> (\<forall>(sid, r, kind)\<in>set (ss_reactions S). kind_object kind < length (ss_objects S)) \<and>
     (\<forall>(sid, i)\<in>set (ss_closing S). i < length (ss_objects S))"

definition records_ok :: "service \<Rightarrow> bool" where
  "records_ok S \<longleftrightarrow> (\<forall>sid. length (records_of sid S) \<le> SFTP_TASK_RECORD_LIMIT_PER_SESSION \<and>
     distinct (map fst (records_of sid S)))"

definition schedulers_ok :: "(jstring \<Rightarrow> jstring \<Rightarrow> bool) \<Rightarrow> service \<Rightarrow> bool" where
  "schedulers_ok le S \<longleftrightarrow> (\<forall>sid sched. map_of (ss_schedulers S) sid = Some sched \<longrightarrow> sched_reachable le sched)"

text \<open>What makes the service keep the scheduler and the records of a session.\<close>

definition needed :: "service \<Rightarrow> jstring \<Rightarrow> bool" where
  "needed S sid \<longleftrightarrow> map_of (ss_sessions S) sid \<noteq> None \<or> records_of sid S \<noteq> [] \<or>
     (\<exists>sched. map_of (ss_schedulers S) sid = Some sched \<and> records sched \<noteq> [])"

definition kept_at :: "service \<Rightarrow> jstring \<Rightarrow> bool" where
  "kept_at S sid \<longleftrightarrow> (map_of (ss_schedulers S) sid \<noteq> None \<or> map_of (ss_tasks S) sid \<noteq> None \<longrightarrow> needed S sid)"

definition ok_except :: "(jstring \<Rightarrow> jstring \<Rightarrow> bool) \<Rightarrow> jstring set \<Rightarrow> service \<Rightarrow> bool" where
  "ok_except le X S \<longleftrightarrow> objects_ok S \<and> sessions_ok S \<and> refs_ok S \<and> records_ok S \<and> schedulers_ok le S \<and>
     (\<forall>sid. sid \<notin> X \<longrightarrow> kept_at S sid)"

lemmas service_defs = ok_except_def objects_ok_def sessions_ok_def refs_ok_def records_ok_def schedulers_ok_def

lemma ok_exceptD:
  assumes "ok_except le X S"
  shows "objects_ok S" "sessions_ok S" "refs_ok S" "records_ok S" "schedulers_ok le S" "sid \<notin> X \<Longrightarrow> kept_at S sid"
  using assms by (simp_all add: ok_except_def)

lemma ok_weaken: "ok_except le X S \<Longrightarrow> X \<subseteq> Y \<Longrightarrow> ok_except le Y S"
  by (auto simp: ok_except_def)

lemma listTasks_empty [simp]: "listTasks s = [] \<longleftrightarrow> records s = []"
proof
  assume "listTasks s = []"
  then have "sort_by (\<lambda>l r. rc_sequence (store s l) \<le> rc_sequence (store s r)) (map snd (records s)) = []"
    by (simp add: listTasks_def)
  then have "set (map snd (records s)) = {}" by (metis set_sort_by set_empty)
  then show "records s = []" by simp
qed (simp add: listTasks_def sort_by_def)

section \<open>Sessions\<close>

lemma update_object_fields [simp]:
  "length (ss_objects (update_object i f S)) = length (ss_objects S)"
  "ss_sessions (update_object i f S) = ss_sessions S" "ss_schedulers (update_object i f S) = ss_schedulers S"
  "ss_tasks (update_object i f S) = ss_tasks S" "ss_reactions (update_object i f S) = ss_reactions S"
  "ss_closing (update_object i f S) = ss_closing S" "records_of sid (update_object i f S) = records_of sid S"
  by (simp_all add: update_object_def records_of_def)

lemma update_object_nth:
  "j < length (ss_objects S) \<Longrightarrow>
     ss_objects (update_object i f S) ! j = (if j = i then f (ss_objects S ! i) else ss_objects S ! j)"
  by (simp add: update_object_def nth_list_update)

lemma delete_closed_fields [simp]:
  "ss_objects (deleteClosedTaskSchedulerIfUnused sid S) = ss_objects S"
  "ss_sessions (deleteClosedTaskSchedulerIfUnused sid S) = ss_sessions S"
  "ss_reactions (deleteClosedTaskSchedulerIfUnused sid S) = ss_reactions S"
  "ss_closing (deleteClosedTaskSchedulerIfUnused sid S) = ss_closing S"
  "records_of q (deleteClosedTaskSchedulerIfUnused sid S) = records_of q S"
  by (auto simp: deleteClosedTaskSchedulerIfUnused_def records_of_def split: option.splits)

lemma delete_closed_ok:
  assumes "ok_except le (insert sid X) S"
  shows "ok_except le X (deleteClosedTaskSchedulerIfUnused sid S)"
proof -
  let ?T = "deleteClosedTaskSchedulerIfUnused sid S"
  have sched: "map_of (ss_schedulers ?T) q = (if q = sid \<and> \<not> needed S sid then None else map_of (ss_schedulers S) q)"
    and task: "map_of (ss_tasks ?T) q = (if q = sid \<and> \<not> needed S sid then None else map_of (ss_tasks S) q)" for q
    by (auto simp: deleteClosedTaskSchedulerIfUnused_def needed_def split: option.splits)
  have "kept_at ?T q" if "q \<notin> X" for q
  proof (cases "q = sid")
    case True
    then show ?thesis by (simp add: kept_at_def sched task) (simp add: needed_def sched)
  next
    case False
    then show ?thesis
      using ok_exceptD(6) [OF assms, of q] that by (simp add: kept_at_def needed_def sched task)
  qed
  then show ?thesis
    using assms sched by (auto simp: service_defs)
qed

lemma mark_fields [simp]:
  "length (ss_objects (snd (markSessionUnavailable i S))) = length (ss_objects S)"
  "ss_reactions (snd (markSessionUnavailable i S)) = ss_reactions S"
  "ss_closing (snd (markSessionUnavailable i S)) = ss_closing S"
  "records_of q (snd (markSessionUnavailable i S)) = records_of q S"
  "fst (markSessionUnavailable i S) = (\<not> so_closed (ss_objects S ! i))"
  by (auto simp: markSessionUnavailable_def Let_def) (auto simp: records_of_def)

lemma mark_closed:
  "i < length (ss_objects S) \<Longrightarrow> j < length (ss_objects S) \<Longrightarrow>
     ss_objects (snd (markSessionUnavailable i S)) ! j =
       (if j = i then (ss_objects S ! i)\<lparr>so_closed := True, so_aborted := True\<rparr> else ss_objects S ! j)"
  by (auto simp: markSessionUnavailable_def Let_def update_object_nth)

lemma mark_ok:
  assumes "ok_except le X S" and "i < length (ss_objects S)"
  shows "ok_except le X (snd (markSessionUnavailable i S))"
proof -
  let ?sid = "so_sessionId (ss_objects S ! i)"
  let ?S1 = "update_object i (\<lambda>x. x\<lparr>so_closed := True, so_aborted := True\<rparr>) S"
  let ?S2 = "if map_of (ss_sessions S) ?sid = Some i then ?S1\<lparr>ss_sessions := map_delete ?sid (ss_sessions ?S1)\<rparr> else ?S1"
  note ok = ok_exceptD [OF assms(1)]
  have fields: "ss_objects ?S2 = ss_objects ?S1" "ss_schedulers ?S2 = ss_schedulers S" "ss_tasks ?S2 = ss_tasks S"
    "ss_reactions ?S2 = ss_reactions S" "ss_closing ?S2 = ss_closing S" "records_of q ?S2 = records_of q S" for q
    by (simp_all add: records_of_def)
  have sess: "map_of (ss_sessions ?S2) q = (if q = ?sid \<and> map_of (ss_sessions S) ?sid = Some i then None else map_of (ss_sessions S) q)" for q
    by simp
  have "objects_ok ?S2"
    unfolding objects_ok_def Let_def
  proof (intro allI impI)
    fix j
    assume "j < length (ss_objects ?S2)"
    then have j: "j < length (ss_objects S)" by (simp add: fields)
    have old: "\<not> so_closed (ss_objects S ! k) \<longrightarrow> map_of (ss_sessions S) (so_sessionId (ss_objects S ! k)) = Some k"
      "so_aborted (ss_objects S ! k) = so_closed (ss_objects S ! k)"
      "so_destroyed (ss_objects S ! k) \<le> (if so_closed (ss_objects S ! k) then 1 else 0)"
      "trim (so_sessionId (ss_objects S ! k)) \<noteq> []" if "k < length (ss_objects S)" for k
      using ok(1) that by (auto simp: objects_ok_def Let_def)
    show "(\<not> so_closed (ss_objects ?S2 ! j) \<longrightarrow> map_of (ss_sessions ?S2) (so_sessionId (ss_objects ?S2 ! j)) = Some j) \<and>
        so_aborted (ss_objects ?S2 ! j) = so_closed (ss_objects ?S2 ! j) \<and>
        so_destroyed (ss_objects ?S2 ! j) \<le> (if so_closed (ss_objects ?S2 ! j) then 1 else 0) \<and>
        trim (so_sessionId (ss_objects ?S2 ! j)) \<noteq> []"
      unfolding sess fields(1) update_object_nth [OF j]
      using old [OF j] old [OF assms(2)] by (cases "j = i") (auto split: if_splits)
  qed
  moreover have "sessions_ok ?S2"
    unfolding sessions_ok_def
  proof (intro allI impI)
    fix q k
    assume q: "map_of (ss_sessions ?S2) q = Some k"
    then have old: "map_of (ss_sessions S) q = Some k" and keep: "\<not> (q = ?sid \<and> map_of (ss_sessions S) ?sid = Some i)"
      unfolding sess by (auto split: if_splits)
    have k: "k < length (ss_objects S)" "so_sessionId (ss_objects S ! k) = q" "\<not> so_closed (ss_objects S ! k)"
      using ok(2) old by (auto simp: sessions_ok_def)
    then have "k \<noteq> i" using keep old by auto
    then show "k < length (ss_objects ?S2) \<and> so_sessionId (ss_objects ?S2 ! k) = q \<and> \<not> so_closed (ss_objects ?S2 ! k)"
      unfolding fields(1) update_object_nth [OF k(1)] using k by simp
  qed
  moreover have "kept_at ?S2 q" if "q \<notin> insert ?sid X" for q
    using ok(6) [of q] that unfolding kept_at_def needed_def sess fields by simp
  ultimately have "ok_except le (insert ?sid X) ?S2"
    using ok(3-5) unfolding ok_except_def refs_ok_def records_ok_def schedulers_ok_def fields by simp
  then show ?thesis
    using delete_closed_ok by (simp add: markSessionUnavailable_def Let_def)
qed

lemma destroy_ok:
  assumes "ok_except le X S" and "i < length (ss_objects S)" and "so_closed (ss_objects S ! i)" and "so_destroyed (ss_objects S ! i) = 0"
  shows "ok_except le X (closeUnusableTransport i S)"
proof -
  let ?T = "closeUnusableTransport i S"
  have fields: "length (ss_objects ?T) = length (ss_objects S)" "ss_sessions ?T = ss_sessions S"
    "ss_schedulers ?T = ss_schedulers S" "ss_tasks ?T = ss_tasks S" "ss_reactions ?T = ss_reactions S"
    "ss_closing ?T = ss_closing S" "records_of q ?T = records_of q S" for q
    by (simp_all add: closeUnusableTransport_def)
  have nth: "ss_objects ?T ! j = (if j = i then (ss_objects S ! i)\<lparr>so_destroyed := 1\<rparr> else ss_objects S ! j)"
    if "j < length (ss_objects S)" for j
    using that assms(4) by (simp add: closeUnusableTransport_def update_object_nth)
  have "objects_ok ?T"
    using ok_exceptD(1) [OF assms(1)] assms(2,3) by (auto simp: objects_ok_def Let_def fields nth)
  moreover have "sessions_ok ?T"
    using ok_exceptD(2) [OF assms(1)] by (auto simp: sessions_ok_def fields nth)
  ultimately show ?thesis
    using assms(1) unfolding ok_except_def refs_ok_def records_ok_def schedulers_ok_def kept_at_def needed_def fields by simp
qed

lemma transport_gone_ok:
  assumes "ok_except le X S" and "i < length (ss_objects S)" and "\<not> so_closed (ss_objects S ! i)"
  shows "ok_except le X (closeUnusableTransport i (snd (markSessionUnavailable i S)))"
proof (rule destroy_ok [OF mark_ok [OF assms(1,2)]])
  have "so_destroyed (ss_objects S ! i) = 0"
    using ok_exceptD(1) [OF assms(1)] assms(2,3) by (fastforce simp: objects_ok_def Let_def)
  then show "so_closed (ss_objects (snd (markSessionUnavailable i S)) ! i)"
    "so_destroyed (ss_objects (snd (markSessionUnavailable i S)) ! i) = 0"
    using assms(2) by (simp_all add: mark_closed)
qed (use assms(2) in simp)

lemma poison_ok:
  "ok_except le X S \<Longrightarrow> i < length (ss_objects S) \<Longrightarrow> ok_except le X (poisonSession i S)"
  using transport_gone_ok [of le X S i] mark_ok [of le X S i] mark_fields(5) [of i S]
  by (cases "markSessionUnavailable i S"; cases "so_closed (ss_objects S ! i)") (simp_all add: poisonSession_def)

lemma markClosed_ok:
  "ok_except le X S \<Longrightarrow> i < length (ss_objects S) \<Longrightarrow> ok_except le X (markClosed i S)"
  using transport_gone_ok by (auto simp: markClosed_def)

lemma poison_fields [simp]:
  "length (ss_objects (poisonSession i S)) = length (ss_objects S)" "ss_reactions (poisonSession i S) = ss_reactions S"
  "ss_closing (poisonSession i S) = ss_closing S" "records_of q (poisonSession i S) = records_of q S"
proof -
  obtain b T where T: "markSessionUnavailable i S = (b, T)" by fastforce
  have "length (ss_objects T) = length (ss_objects S)" "ss_reactions T = ss_reactions S" "ss_closing T = ss_closing S"
    "records_of q T = records_of q S" using mark_fields(1-4) [where i = i and S = S] T by simp_all
  then show "length (ss_objects (poisonSession i S)) = length (ss_objects S)" "ss_reactions (poisonSession i S) = ss_reactions S"
    "ss_closing (poisonSession i S) = ss_closing S" "records_of q (poisonSession i S) = records_of q S"
    by (simp_all add: poisonSession_def T closeUnusableTransport_def)
qed

text \<open>A session in the map is open.\<close>
lemma getOpenSession_ok:
  "ok_except le X S \<Longrightarrow> getOpenSession sid S = (map_of (ss_sessions S) sid, S)"
  by (auto simp: getOpenSession_def ok_except_def sessions_ok_def split: option.splits)

lemma sftp_register_ok:
  assumes "ok_except le X S" and "fresh_id sid S"
  shows "ok_except le X (snd (registerSftpSession sid S))"
proof -
  note ok = ok_exceptD [OF assms(1)]
  let ?T = "snd (registerSftpSession sid S)"
  let ?new = "\<lparr>so_sessionId = sid, so_closed = False, so_aborted = False, so_destroyed = 0, so_ended = 0\<rparr>"
  have fields: "ss_objects ?T = ss_objects S @ [?new]" "ss_schedulers ?T = ss_schedulers S" "ss_tasks ?T = ss_tasks S"
    "ss_reactions ?T = ss_reactions S" "ss_closing ?T = ss_closing S" "records_of q ?T = records_of q S"
    "map_of (ss_sessions ?T) q = (if q = sid then Some (length (ss_objects S)) else map_of (ss_sessions S) q)" for q
    by (simp_all add: registerSftpSession_def Let_def records_of_def)
  have other: "so_sessionId (ss_objects S ! i) \<noteq> sid" if "i < length (ss_objects S)" for i
    using assms(2) that by (auto simp: fresh_id_def)
  have "objects_ok ?T"
    using ok(1) other assms(2) by (auto simp: objects_ok_def Let_def fields nth_append less_Suc_eq fresh_id_def)
  moreover have "sessions_ok ?T"
    using ok(2) by (fastforce simp: sessions_ok_def fields nth_append)
  moreover have "refs_ok ?T"
    using ok(3) by (auto simp: refs_ok_def fields intro: less_SucI)
  moreover have "kept_at ?T q" if "q \<notin> X" for q
    using ok(6) [OF that] by (auto simp: kept_at_def needed_def fields)
  ultimately show ?thesis
    using ok(4,5) by (simp add: ok_except_def records_ok_def schedulers_ok_def fields)
qed

section \<open>Schedulers\<close>

lemma set_scheduler_fields [simp]:
  "ss_objects (set_scheduler sid sched S) = ss_objects S" "ss_sessions (set_scheduler sid sched S) = ss_sessions S"
  "ss_tasks (set_scheduler sid sched S) = ss_tasks S" "ss_reactions (set_scheduler sid sched S) = ss_reactions S"
  "ss_closing (set_scheduler sid sched S) = ss_closing S" "records_of q (set_scheduler sid sched S) = records_of q S"
  "map_of (ss_schedulers (set_scheduler sid sched S)) = (map_of (ss_schedulers S))(sid \<mapsto> sched)"
  by (simp_all add: set_scheduler_def records_of_def)

lemma set_scheduler_ok:
  assumes "ok_except le X S" and "sched_reachable le sched" and "sid \<in> X \<or> needed (set_scheduler sid sched S) sid"
  shows "ok_except le X (set_scheduler sid sched S)"
proof -
  note ok = ok_exceptD [OF assms(1)]
  have "kept_at (set_scheduler sid sched S) q" if "q \<notin> X" for q
    using ok(6) [OF that] assms(3) that by (cases "q = sid") (auto simp: kept_at_def needed_def)
  then show ?thesis
    using ok(1-5) assms(2) by (auto simp: service_defs)
qed

lemma run_hook_ok: "ok_except le X S \<Longrightarrow> ok_except le X (run_hook sid e S)"
proof -
  assume ok: "ok_except le X S"
  have hook: "ok_except le X (on_abort kind reason S)" if "kind_of sid r S = Some kind" for r kind reason
  proof -
    have "kind_object kind < length (ss_objects S)"
      using that ok_exceptD(3) [OF ok] by (fastforce simp: kind_of_def refs_ok_def find_Some_iff in_set_conv_nth)
    then show ?thesis
      using mark_ok [OF ok] poison_ok [OF ok] ok by (cases kind; cases reason) (simp_all add: on_abort_def)
  qed
  show ?thesis
    by (cases e) (auto simp: run_hook_def ok split: option.split intro: hook)
qed

lemma run_hook_fields [simp]:
  "length (ss_objects (run_hook sid e S)) = length (ss_objects S)" "ss_reactions (run_hook sid e S) = ss_reactions S"
  "ss_closing (run_hook sid e S) = ss_closing S" "records_of q (run_hook sid e S) = records_of q S"
  by (auto simp: run_hook_def on_abort_def split: effect.split option.split task_kind.split abort_reason.split)

lemma run_hooks:
  "ok_except le X S \<Longrightarrow> ok_except le X (fold (run_hook sid) es S)"
  "length (ss_objects (fold (run_hook sid) es S)) = length (ss_objects S)"
  "ss_reactions (fold (run_hook sid) es S) = ss_reactions S" "ss_closing (fold (run_hook sid) es S) = ss_closing S"
  "records_of q (fold (run_hook sid) es S) = records_of q S"
  by (induction es arbitrary: S) (simp_all add: run_hook_ok)

lemma with_scheduler_fields [simp]:
  "length (ss_objects (with_scheduler sid old new S)) = length (ss_objects S)"
  "ss_reactions (with_scheduler sid old new S) = ss_reactions S" "ss_closing (with_scheduler sid old new S) = ss_closing S"
  "records_of q (with_scheduler sid old new S) = records_of q S"
  by (simp_all add: with_scheduler_def run_hooks)

lemma with_scheduler_ok:
  assumes "ok_except le X S" and "sched_reachable le new" and "sid \<in> X \<or> needed (set_scheduler sid new S) sid"
  shows "ok_except le X (with_scheduler sid old new S)"
  unfolding with_scheduler_def by (rule run_hooks(1) [OF set_scheduler_ok [OF assms]])

text \<open>A step that keeps the records of the scheduler keeps what is needed.\<close>
lemma needed_cong:
  assumes "needed S sid" and "map_of (ss_sessions T) sid = map_of (ss_sessions S) sid" and "records_of sid T = records_of sid S"
    and "\<And>sched. map_of (ss_schedulers S) sid = Some sched \<Longrightarrow> records sched \<noteq> [] \<Longrightarrow>
      \<exists>sched'. map_of (ss_schedulers T) sid = Some sched' \<and> records sched' \<noteq> []"
  shows "needed T sid"
  using assms unfolding needed_def by metis

lemma same_records_ok:
  assumes "ok_except le X S" and "map_of (ss_schedulers S) sid = Some sched" and "sched_step le sched sched'"
    and "records sched' = records sched"
  shows "ok_except le X (with_scheduler sid sched sched' S)"
proof (rule with_scheduler_ok [OF assms(1)])
  show "sched_reachable le sched'"
    using ok_exceptD(5) [OF assms(1)] assms(2,3) by (auto simp: schedulers_ok_def intro: reach_step)
  show "sid \<in> X \<or> needed (set_scheduler sid sched' S) sid"
  proof (cases "sid \<in> X")
    case False
    then have "needed S sid" using ok_exceptD(6) [OF assms(1)] assms(2) by (simp add: kept_at_def)
    then show ?thesis by (intro disjI2, elim needed_cong) (use assms in simp_all)
  qed simp
qed

lemma initial_reachable: "trim sid \<noteq> [] \<Longrightarrow> sched_reachable le (initial_scheduler sid)"
proof -
  assume "trim sid \<noteq> []"
  then have "new_scheduler sid None None None = Inr (initial_scheduler sid)"
    by (simp add: new_scheduler_def initial_scheduler_def DEFAULT_LIMITS_def validateLimits_def positive_integer_def
        num_nat.simps Let_def)
  then show ?thesis by (rule reach_new)
qed

section \<open>Records of tasks\<close>

lemma set_records_fields [simp]:
  "ss_objects (set_records sid ts S) = ss_objects S" "ss_sessions (set_records sid ts S) = ss_sessions S"
  "ss_schedulers (set_records sid ts S) = ss_schedulers S" "ss_reactions (set_records sid ts S) = ss_reactions S"
  "ss_closing (set_records sid ts S) = ss_closing S"
  "records_of q (set_records sid ts S) = (if q = sid then ts else records_of q S)"
  "map_of (ss_tasks (set_records sid ts S)) = (map_of (ss_tasks S))(sid \<mapsto> ts)"
  by (simp_all add: set_records_def records_of_def)

lemma set_records_ok:
  assumes "ok_except le X S" and "length ts \<le> SFTP_TASK_RECORD_LIMIT_PER_SESSION" and "distinct (map fst ts)"
    and "sid \<in> X \<or> needed (set_records sid ts S) sid"
  shows "ok_except le X (set_records sid ts S)"
proof -
  note ok = ok_exceptD [OF assms(1)]
  have "kept_at (set_records sid ts S) q" if "q \<notin> X" for q
    using ok(6) [OF that] assms(4) that unfolding kept_at_def by (cases "q = sid") (simp_all add: needed_def)
  moreover have "records_ok (set_records sid ts S)"
    using ok(4) assms(2,3) unfolding records_ok_def set_records_fields by simp
  ultimately show ?thesis
    using ok(1,2,3,5)
    unfolding ok_except_def objects_ok_def sessions_ok_def refs_ok_def schedulers_ok_def set_records_fields by blast
qed

lemma forget_fields [simp]:
  "ss_objects (forget sid taskId S) = ss_objects S" "ss_sessions (forget sid taskId S) = ss_sessions S"
  "ss_tasks (forget sid taskId S) = ss_tasks S" "ss_reactions (forget sid taskId S) = ss_reactions S"
  "ss_closing (forget sid taskId S) = ss_closing S" "records_of q (forget sid taskId S) = records_of q S"
  by (simp_all add: forget_def records_of_def split: option.split)

lemma forget_ok:
  assumes "ok_except le (insert sid X) S"
  shows "ok_except le (insert sid X) (forget sid taskId S)"
proof (cases "map_of (ss_schedulers S) sid")
  case (Some sched)
  have "sched_reachable le (snd (forgetTask taskId sched))"
    using ok_exceptD(5) [OF assms] Some by (auto simp: schedulers_ok_def intro: reach_step step_forget)
  then show ?thesis
    using set_scheduler_ok [OF assms] Some by (simp add: forget_def)
qed (simp add: forget_def assms)

lemma length_map_delete: "length (map_delete k m) \<le> length m"
  by (simp add: map_delete_def)

lemma remove_record_eq:
  assumes "ok_except le X S" and "map_of (records_of sid S) taskId = Some pt" and "pt_ref pt = r"
  defines "S1 \<equiv> forget sid taskId (set_records sid (map_delete taskId (records_of sid S)) S)"
  shows "removePublicTaskRecord sid taskId r S = deleteClosedTaskSchedulerIfUnused sid
    (if records_of sid S1 = [] \<and> map_of (ss_sessions S) sid = None then S1\<lparr>ss_tasks := map_delete sid (ss_tasks S1)\<rparr> else S1)"
proof -
  have "sessions_ok S1"
    using ok_exceptD(2) [OF assms(1)] unfolding S1_def sessions_ok_def forget_fields set_records_fields .
  then have "getOpenSession sid S1 = (map_of (ss_sessions S) sid, S1)"
    by (auto simp: getOpenSession_def sessions_ok_def S1_def split: option.split)
  then show ?thesis
    unfolding removePublicTaskRecord_def Let_def S1_def [symmetric] using assms(2,3) by simp
qed

lemma forget_removed_ok:
  assumes "ok_except le X S"
  shows "ok_except le X (removePublicTaskRecord sid taskId r S)"
proof (cases "\<exists>pt. map_of (records_of sid S) taskId = Some pt \<and> pt_ref pt = r")
  case True
  then obtain pt where pt: "map_of (records_of sid S) taskId = Some pt" "pt_ref pt = r" by blast
  let ?ts = "map_delete taskId (records_of sid S)"
  let ?S1 = "forget sid taskId (set_records sid ?ts S)"
  have "length ?ts \<le> SFTP_TASK_RECORD_LIMIT_PER_SESSION" and "distinct (map fst ?ts)"
    using ok_exceptD(4) [OF assms] length_map_delete [of taskId "records_of sid S"]
    by (auto simp: records_ok_def intro: le_trans)
  then have S1: "ok_except le (insert sid X) ?S1"
    by (intro forget_ok set_records_ok [OF ok_weaken [OF assms]]) auto
  have "ok_except le (insert sid X) (?S1\<lparr>ss_tasks := map_delete sid (ss_tasks ?S1)\<rparr>)" if empty: "records_of sid ?S1 = []"
  proof -
    let ?T = "?S1\<lparr>ss_tasks := map_delete sid (ss_tasks ?S1)\<rparr>"
    note ok = ok_exceptD [OF S1]
    have same: "records_of q ?T = records_of q ?S1" for q
      using empty by (simp add: records_of_def split: option.split)
    have "kept_at ?T q" if "q \<notin> insert sid X" for q
      using ok(6) [OF that] that unfolding kept_at_def needed_def same by simp
    moreover have "objects_ok ?T" "sessions_ok ?T" "refs_ok ?T" "schedulers_ok le ?T" "records_ok ?T"
      using ok(1-5) unfolding objects_ok_def sessions_ok_def refs_ok_def schedulers_ok_def records_ok_def same by simp_all
    ultimately show ?thesis unfolding ok_except_def by blast
  qed
  then show ?thesis
    using S1 unfolding remove_record_eq [OF assms pt] by (intro delete_closed_ok) simp
next
  case False
  then show ?thesis using assms by (auto simp: removePublicTaskRecord_def split: option.split)
qed

lemma remove_record_fields [simp]:
  "ss_reactions (removePublicTaskRecord sid taskId r S) = ss_reactions S"
  "ss_closing (removePublicTaskRecord sid taskId r S) = ss_closing S"
  "ss_objects (removePublicTaskRecord sid taskId r S) = ss_objects S"
  by (auto simp: removePublicTaskRecord_def Let_def getOpenSession_def split: option.split)

lemma remove_record_sessions [simp]:
  "ok_except le X S \<Longrightarrow> ss_sessions (removePublicTaskRecord sid taskId r S) = ss_sessions S"
  using remove_record_eq [of le X S sid taskId]
  by (cases "\<exists>pt. map_of (records_of sid S) taskId = Some pt \<and> pt_ref pt = r")
    (auto, auto simp: removePublicTaskRecord_def split: option.split)

lemma remove_record_records:
  assumes "ok_except le X S" and "map_of (records_of sid S) taskId = Some pt" and "pt_ref pt = r"
  shows "records_of q (removePublicTaskRecord sid taskId r S) =
    (if q = sid then map_delete taskId (records_of sid S) else records_of q S)"
proof -
  have drop: "records_of p (T\<lparr>ss_tasks := map_delete sid (ss_tasks T')\<rparr>) = (if p = sid then [] else records_of p T')" for p T T'
    by (simp add: records_of_def)
  show ?thesis
    unfolding remove_record_eq [OF assms] by (simp add: drop)
qed

section \<open>Making room\<close>

text \<open>At the bound one removal makes room, so a pass removes the first record that passes its test.\<close>
lemma evict_eq:
  assumes "ok_except le X S" and "\<And>taskId pt. (taskId, pt) \<in> set rest \<Longrightarrow> map_of (records_of sid S) taskId = Some pt"
  shows "evict test sid rest S = (case List.find (\<lambda>(taskId, pt). test S pt) rest of
     None \<Rightarrow> (False, S) | Some (taskId, pt) \<Rightarrow> (True, removePublicTaskRecord sid taskId (pt_ref pt) S))"
  using assms(2)
proof (induction rest)
  case (Cons e rest)
  obtain taskId pt where e: "e = (taskId, pt)" by (cases e)
  then have pt: "map_of (records_of sid S) taskId = Some pt" using Cons.prems by simp
  then have "length (map_delete taskId (records_of sid S)) < length (records_of sid S)"
    unfolding map_delete_def by (rule_tac x = "(taskId, pt)" in length_filter_less) (auto dest: map_of_SomeD)
  then have "length (records_of sid (removePublicTaskRecord sid taskId (pt_ref pt) S)) < SFTP_TASK_RECORD_LIMIT_PER_SESSION"
    using ok_exceptD(4) [OF assms(1)] remove_record_records [OF assms(1) pt refl, of sid]
    by (auto simp: records_ok_def intro: less_le_trans)
  then show ?case using Cons e by (simp add: Let_def)
qed simp

lemma makeRoom_eq:
  assumes "ok_except le X S"
  shows "makeRoomForPublicTask sid S =
    (if length (records_of sid S) < SFTP_TASK_RECORD_LIMIT_PER_SESSION then (True, S)
     else case List.find (\<lambda>(taskId, pt). quietly_ended sid S pt) (records_of sid S) of
       Some (taskId, pt) \<Rightarrow> (True, removePublicTaskRecord sid taskId (pt_ref pt) S)
     | None \<Rightarrow> (case List.find (\<lambda>(taskId, pt). pt_released pt) (records_of sid S) of
         Some (taskId, pt) \<Rightarrow> (True, removePublicTaskRecord sid taskId (pt_ref pt) S)
       | None \<Rightarrow> (False, S)))"
proof -
  have mem: "map_of (records_of sid S) taskId = Some pt" if "(taskId, pt) \<in> set (records_of sid S)" for taskId pt
    using ok_exceptD(4) [OF assms] that by (simp add: records_ok_def)
  note pass = evict_eq [OF assms mem]
  show ?thesis
    by (auto simp: makeRoomForPublicTask_def Let_def pass split: option.split prod.split)
qed

lemma makeRoom_ok:
  assumes "ok_except le X S" and "makeRoomForPublicTask sid S = (room, T)"
  shows "ok_except le X T" and "ss_sessions T = ss_sessions S" and "ss_objects T = ss_objects S"
    and "ss_reactions T = ss_reactions S" and "ss_closing T = ss_closing S"
    and "room \<Longrightarrow> length (records_of sid T) < SFTP_TASK_RECORD_LIMIT_PER_SESSION"
proof -
  have small: "length (records_of sid (removePublicTaskRecord sid taskId (pt_ref pt) S)) < SFTP_TASK_RECORD_LIMIT_PER_SESSION"
    if "List.find P (records_of sid S) = Some (taskId, pt)" for P taskId pt
  proof -
    have m: "(taskId, pt) \<in> set (records_of sid S)" using that by (auto simp: find_Some_iff)
    then have pt: "map_of (records_of sid S) taskId = Some pt"
      using ok_exceptD(4) [OF assms(1)] by (simp add: records_ok_def)
    have "length (map_delete taskId (records_of sid S)) < length (records_of sid S)"
      unfolding map_delete_def by (rule length_filter_less [OF m]) simp
    then show ?thesis
      using ok_exceptD(4) [OF assms(1)] remove_record_records [OF assms(1) pt refl, of sid]
      by (auto simp: records_ok_def intro: less_le_trans)
  qed
  show "ok_except le X T" "ss_sessions T = ss_sessions S" "ss_objects T = ss_objects S"
    "ss_reactions T = ss_reactions S" "ss_closing T = ss_closing S"
    "room \<Longrightarrow> length (records_of sid T) < SFTP_TASK_RECORD_LIMIT_PER_SESSION"
    using assms(2) assms(1) small unfolding makeRoom_eq [OF assms(1)]
    by (auto simp: forget_removed_ok split: if_splits option.splits)
qed

section \<open>Starting tasks\<close>

lemma add_reaction_ok:
  assumes "ok_except le X S" and "kind_object kind < length (ss_objects S)"
  shows "ok_except le X (S\<lparr>ss_reactions := ss_reactions S @ [(sid, r, kind)]\<rparr>)"
proof -
  let ?T = "S\<lparr>ss_reactions := ss_reactions S @ [(sid, r, kind)]\<rparr>"
  note ok = ok_exceptD [OF assms(1)]
  have same: "records_of q ?T = records_of q S" for q by (simp add: records_of_def)
  have "kept_at ?T q" if "q \<notin> X" for q
    using ok(6) [OF that] unfolding kept_at_def needed_def same by simp
  moreover have "objects_ok ?T" "sessions_ok ?T" "schedulers_ok le ?T" "records_ok ?T"
    using ok(1,2,4,5) unfolding objects_ok_def sessions_ok_def schedulers_ok_def records_ok_def same by simp_all
  moreover have "refs_ok ?T" using ok(3) assms(2) by (auto simp: refs_ok_def)
  ultimately show ?thesis unfolding ok_except_def by blast
qed

lemma open_session:
  assumes "ok_except le X S" and "map_of (ss_sessions S) sid = Some i"
  shows "i < length (ss_objects S)" and "trim sid \<noteq> []"
  using ok_exceptD(1,2) [OF assms(1)] assms(2) by (auto simp: sessions_ok_def objects_ok_def Let_def)

lemma get_scheduler_ok:
  assumes "ok_except le X S" and "map_of (ss_sessions S) sid = Some i" and "getOrCreateTaskScheduler sid S = (sched, T)"
  shows "ok_except le X T" and "sched_reachable le sched" and "ss_sessions T = ss_sessions S" and "ss_objects T = ss_objects S"
    and "ss_reactions T = ss_reactions S" and "ss_closing T = ss_closing S" and "records_of q T = records_of q S"
proof -
  have fresh: "sched_reachable le (initial_scheduler sid)"
    by (rule initial_reachable) (rule open_session(2) [OF assms(1,2)])
  have "needed (set_scheduler sid s S) sid" for s
    using assms(2) by (simp add: needed_def)
  then have created: "ok_except le X (set_scheduler sid (initial_scheduler sid) S)"
    by (intro set_scheduler_ok [OF assms(1) fresh]) simp
  have "(map_of (ss_schedulers S) sid = Some sched \<and> T = S) \<or>
      (sched = initial_scheduler sid \<and> T = set_scheduler sid (initial_scheduler sid) S)"
    using assms(3) by (auto simp: getOrCreateTaskScheduler_def split: option.splits)
  then show "ok_except le X T" "sched_reachable le sched" "ss_sessions T = ss_sessions S" "ss_objects T = ss_objects S"
    "ss_reactions T = ss_reactions S" "ss_closing T = ss_closing S" "records_of q T = records_of q S"
    using assms(1) created fresh ok_exceptD(5) [OF assms(1)] unfolding schedulers_ok_def by auto
qed

text \<open>A task that is scheduled: its reaction is registered and the hooks have run.\<close>
lemma scheduled_ok:
  assumes "ok_except le X S" and "map_of (ss_sessions S) sid = Some i" and "sched_reachable le sched"
    and "schedule le now newId spec sched = Inr (r, sched')" and "kind_object kind = i"
  shows "ok_except le X (with_scheduler sid sched sched' (S\<lparr>ss_reactions := ss_reactions S @ [(sid, r, kind)]\<rparr>))"
proof (rule with_scheduler_ok)
  show "ok_except le X (S\<lparr>ss_reactions := ss_reactions S @ [(sid, r, kind)]\<rparr>)"
    using open_session(1) [OF assms(1,2)] assms(5) by (intro add_reaction_ok [OF assms(1)]) simp
  show "sched_reachable le sched'"
    using assms(3,4) by (rule reach_step [OF _ step_schedule])
  show "sid \<in> X \<or> needed (set_scheduler sid sched' (S\<lparr>ss_reactions := ss_reactions S @ [(sid, r, kind)]\<rparr>)) sid"
    using assms(2) by (simp add: needed_def)
qed

lemma admit_ok:
  assumes "ok_except le X S" and "\<And>i. kind_object (kind i) = i"
  shows "ok_except le X (snd (admit le now newId sid kind spec S))"
proof (cases "map_of (ss_sessions S) sid")
  case (Some i)
  obtain sched T where T: "getOrCreateTaskScheduler sid S = (sched, T)" by fastforce
  note get = get_scheduler_ok [OF assms(1) Some T]
  have open': "map_of (ss_sessions T) sid = Some i" using get(3) Some by simp
  show ?thesis
  proof (cases "schedule le now newId spec sched")
    case (Inl e)
    then show ?thesis using get(1) assms(1) Some T by (simp add: admit_def getOpenSession_ok [OF assms(1)])
  next
    case (Inr x)
    obtain r sched' where x: "x = (r, sched')" by (cases x)
    show ?thesis
      using scheduled_ok [OF get(1) open' get(2) Inr [unfolded x], of "kind i"] assms Some T Inr x by (simp add: admit_def getOpenSession_ok [OF assms(1)])
  qed
qed (simp add: admit_def assms getOpenSession_ok [OF assms(1)])

lemma length_map_set: "length (map_set k v m) \<le> Suc (length m)"
  by (induction k v m rule: map_set.induct) auto

lemma map_set_not_Nil [simp]: "map_set k v m \<noteq> []"
  by (cases "(k, v, m)" rule: map_set.cases) auto

lemma create_records_ok:
  assumes "ok_except le X S" and "map_of (ss_sessions S) sid = Some i"
  shows "ok_except le X (getOrCreatePublicTaskRecords sid S)" and "ss_sessions (getOrCreatePublicTaskRecords sid S) = ss_sessions S"
    and "ss_objects (getOrCreatePublicTaskRecords sid S) = ss_objects S"
    and "records_of q (getOrCreatePublicTaskRecords sid S) = records_of q S"
proof -
  have "needed (set_records sid [] S) sid" using assms(2) by (simp add: needed_def)
  then show "ok_except le X (getOrCreatePublicTaskRecords sid S)"
    using assms(1) set_records_ok [OF assms(1), of "[]" sid] by (auto simp: getOrCreatePublicTaskRecords_def split: option.split)
qed (auto simp: getOrCreatePublicTaskRecords_def records_of_def split: option.split)

lemma startTask_ok:
  assumes "ok_except le X S"
  shows "ok_except le X (snd (startTask le R now newId sid request S))"
proof (cases "map_of (ss_sessions S) sid")
  case (Some i)
  note create = create_records_ok [OF assms Some]
  obtain room S3 where S3: "makeRoomForPublicTask sid (getOrCreatePublicTaskRecords sid S) = (room, S3)" by fastforce
  note made = makeRoom_ok [OF create(1) S3]
  have open3: "map_of (ss_sessions S3) sid = Some i" using made(2) create(2) Some by simp
  obtain sched S4 where S4: "getOrCreateTaskScheduler sid S3 = (sched, S4)" by fastforce
  note get = get_scheduler_ok [OF made(1) open3 S4]
  have open4: "map_of (ss_sessions S4) sid = Some i" using get(3) open3 by simp
  show ?thesis
  proof (cases "\<not> room")
    case True
    then show ?thesis using made(1) S3 Some by (simp add: startTask_def getOpenSession_ok [OF assms])
  next
    case room: False
    show ?thesis
    proof (cases "schedule le now newId (public_spec R request) sched")
      case (Inl e)
      then show ?thesis using get(1) S3 S4 Some room by (simp add: startTask_def getOpenSession_ok [OF assms])
    next
      case (Inr x)
      obtain r sched' where x: "x = (r, sched')" by (cases x)
      let ?S5 = "with_scheduler sid sched sched' (S4\<lparr>ss_reactions := ss_reactions S4 @ [(sid, r, PublicKind i)]\<rparr>)"
      have S5: "ok_except le X ?S5"
        using scheduled_ok [OF get(1) open4 get(2) Inr [unfolded x], of "PublicKind i"] by simp
      have recs: "records_of sid ?S5 = records_of sid S3"
        using get(7) by (simp add: records_of_def [of sid "S4\<lparr>ss_reactions := z\<rparr>" for z]) (simp add: records_of_def)
      have "ok_except le X (set_records sid (map_set k pt (records_of sid ?S5)) ?S5)" for k pt
      proof (rule set_records_ok [OF S5])
        show "length (map_set k pt (records_of sid ?S5)) \<le> SFTP_TASK_RECORD_LIMIT_PER_SESSION"
          using length_map_set [of k pt "records_of sid ?S5"] made(6) room recs by simp
        show "distinct (map fst (map_set k pt (records_of sid ?S5)))"
          using ok_exceptD(4) [OF S5] unfolding records_ok_def by (intro distinct_map_set) blast
      qed (simp add: needed_def)
      then show ?thesis
        using S3 S4 Some room Inr x by (simp add: startTask_def getOpenSession_ok [OF assms] Let_def)
    qed
  qed
qed (simp add: startTask_def assms getOpenSession_ok [OF assms])

section \<open>Reactions and closing\<close>

lemma other_fields_ok:
  assumes "ok_except le X S" and "ss_objects T = ss_objects S" and "ss_sessions T = ss_sessions S"
    and "ss_schedulers T = ss_schedulers S" and "ss_tasks T = ss_tasks S" and "refs_ok T"
  shows "ok_except le X T"
proof -
  have same: "records_of q T = records_of q S" for q by (simp add: records_of_def assms(5))
  show ?thesis
    using assms(1,6)
    unfolding ok_except_def objects_ok_def sessions_ok_def records_ok_def schedulers_ok_def kept_at_def needed_def same assms(2-5)
    by blast
qed

lemma remove_reaction_ok:
  assumes "ok_except le X S"
  shows "ok_except le X (S\<lparr>ss_reactions := remove1 e (ss_reactions S)\<rparr>)"
  by (rule other_fields_ok [OF assms])
    (use ok_exceptD(3) [OF assms] set_remove1_subset [of e "ss_reactions S"] in \<open>auto simp: refs_ok_def\<close>)

lemma arm_ok:
  assumes "ok_except le X S"
  shows "ok_except le X (armPublicTaskRetention sid taskId r S)"
proof (cases "\<exists>pt. map_of (records_of sid S) taskId = Some pt \<and> pt_ref pt = r")
  case True
  then obtain pt where pt: "map_of (records_of sid S) taskId = Some pt" "pt_ref pt = r" by blast
  let ?ts = "map_set taskId (pt\<lparr>pt_released := True, pt_retentionTimer := True\<rparr>) (records_of sid S)"
  have d: "distinct (map fst (records_of sid S))" and l: "length (records_of sid S) \<le> SFTP_TASK_RECORD_LIMIT_PER_SESSION"
    using ok_exceptD(4) [OF assms] by (auto simp: records_ok_def)
  have "length (map_set k v m) = length m" if "map_of m k = Some w" for k m and v w :: public_task
    using that by (induction k v m rule: map_set.induct) (auto split: if_splits)
  from this [OF pt(1)] have "length ?ts \<le> SFTP_TASK_RECORD_LIMIT_PER_SESSION" using l by simp
  then have "ok_except le X (set_records sid ?ts S)"
    by (rule set_records_ok [OF assms _ distinct_map_set [OF d]]) (simp add: needed_def)
  then show ?thesis using pt by (simp add: armPublicTaskRetention_def)
next
  case False
  then show ?thesis using assms by (auto simp: armPublicTaskRetention_def split: option.split)
qed

lemma on_released_ok:
  assumes "ok_except le X S"
  shows "ok_except le X (on_released sid taskId r kind S)"
  using arm_ok [OF assms] delete_closed_ok [OF forget_ok [OF ok_weaken [OF assms subset_insertI]]]
  by (cases kind) (simp_all add: on_released_def)

lemma retention_ok:
  assumes "ok_except le X S"
  shows "ok_except le X (retention_fires sid taskId S)"
  using forget_removed_ok [OF assms] assms by (auto simp: retention_fires_def split: option.split)

lemma add_closing_ok:
  assumes "ok_except le X S" and "i < length (ss_objects S)"
  shows "ok_except le X (S\<lparr>ss_closing := ss_closing S @ [(sid, i)]\<rparr>)"
  by (rule other_fields_ok [OF assms(1)]) (use ok_exceptD(3) [OF assms(1)] assms(2) in \<open>auto simp: refs_ok_def\<close>)

lemma sftp_close_ok:
  assumes "ok_except le X S"
  shows "ok_except le X (snd (closeSftpSession now sid S))"
proof (cases "map_of (ss_sessions S) sid")
  case (Some i)
  let ?S1 = "case map_of (ss_schedulers S) sid of None \<Rightarrow> S | Some sched \<Rightarrow> with_scheduler sid sched (cancelAll now sched) S"
  have i: "i < length (ss_objects S)" by (rule open_session(1) [OF assms Some])
  have "ok_except le X ?S1"
  proof (cases "map_of (ss_schedulers S) sid")
    case (Some sched)
    have "sched_reachable le (cancelAll now sched)"
      using ok_exceptD(5) [OF assms] Some by (auto simp: schedulers_ok_def intro: reach_step step_cancelAll)
    then have "ok_except le X (with_scheduler sid sched (cancelAll now sched) S)"
      by (rule with_scheduler_ok [OF assms]) (simp add: needed_def \<open>map_of (ss_sessions S) sid = Some i\<close>)
    then show ?thesis using Some by simp
  qed (simp add: assms)
  moreover have "length (ss_objects ?S1) = length (ss_objects S)" by (auto split: option.split)
  ultimately have "ok_except le X (snd (markSessionUnavailable i ?S1))"
    and "i < length (ss_objects (snd (markSessionUnavailable i ?S1)))"
    using mark_ok i by (metis, metis mark_fields(1))
  then show ?thesis
    unfolding closeSftpSession_def Some option.case Let_def snd_conv by (rule add_closing_ok)
qed (simp add: closeSftpSession_def assms)

lemma same_objects_ok:
  assumes "objects_ok S" and "sessions_ok S" and "length (ss_objects T) = length (ss_objects S)" and "ss_sessions T = ss_sessions S"
    and "\<And>j. j < length (ss_objects S) \<Longrightarrow> so_sessionId (ss_objects T ! j) = so_sessionId (ss_objects S ! j)"
    and "\<And>j. j < length (ss_objects S) \<Longrightarrow> so_closed (ss_objects T ! j) = so_closed (ss_objects S ! j)"
    and "\<And>j. j < length (ss_objects S) \<Longrightarrow> so_aborted (ss_objects T ! j) = so_aborted (ss_objects S ! j)"
    and "\<And>j. j < length (ss_objects S) \<Longrightarrow> so_destroyed (ss_objects T ! j) = so_destroyed (ss_objects S ! j)"
  shows "objects_ok T" and "sessions_ok T"
  using assms by (simp add: objects_ok_def Let_def) (use assms in \<open>simp add: sessions_ok_def\<close>)

lemma drained_ok:
  assumes "ok_except le X S"
  shows "ok_except le X (close_drained sid i S)"
proof -
  let ?S1 = "S\<lparr>ss_closing := remove1 (sid, i) (ss_closing S)\<rparr>"
  let ?T = "update_object i (\<lambda>x. x\<lparr>so_ended := so_ended x + 1\<rparr>) ?S1"
  have S1: "ok_except le X ?S1"
    by (rule other_fields_ok [OF assms])
      (use ok_exceptD(3) [OF assms] set_remove1_subset [of "(sid, i)" "ss_closing S"] in \<open>auto simp: refs_ok_def\<close>)
  note ok = ok_exceptD [OF S1]
  have same: "so_sessionId (ss_objects ?T ! j) = so_sessionId (ss_objects ?S1 ! j)"
    "so_closed (ss_objects ?T ! j) = so_closed (ss_objects ?S1 ! j)"
    "so_aborted (ss_objects ?T ! j) = so_aborted (ss_objects ?S1 ! j)"
    "so_destroyed (ss_objects ?T ! j) = so_destroyed (ss_objects ?S1 ! j)" if "j < length (ss_objects ?S1)" for j
    unfolding update_object_nth [OF that] by simp_all
  have "objects_ok ?T"
    by (rule same_objects_ok(1) [OF ok(1,2)]) (simp_all only: same update_object_fields)
  moreover have "sessions_ok ?T"
    by (rule same_objects_ok(2) [OF ok(1,2)]) (simp_all only: same update_object_fields)
  moreover have "refs_ok ?T" using ok(3) unfolding refs_ok_def update_object_fields .
  moreover have "records_ok ?T" using ok(4) unfolding records_ok_def update_object_fields .
  moreover have "schedulers_ok le ?T" using ok(5) unfolding schedulers_ok_def update_object_fields .
  moreover have "kept_at ?T q" if "q \<notin> X" for q
    using ok(6) [OF that] unfolding kept_at_def needed_def update_object_fields .
  ultimately have "ok_except le X ?T" unfolding ok_except_def by blast
  then show ?thesis
    unfolding close_drained_def by (rule delete_closed_ok [OF ok_weaken [OF _ subset_insertI]])
qed

lemma stop_ok:
  assumes "ok_except le X S"
  shows "ok_except le X (stop_begins now S)"
proof -
  have "ok_except le X (fold (\<lambda>sid S. snd (closeSftpSession now sid S)) sids S)" for sids
    using assms by (induction sids arbitrary: S) (simp_all add: sftp_close_ok)
  then have all: "ok_except le X (closeAllSftpSessions now S)" by (simp add: closeAllSftpSessions_def)
  show ?thesis
    unfolding stop_begins_def Let_def
    by (rule other_fields_ok [OF all]) (use ok_exceptD(3) [OF all] in \<open>auto simp: refs_ok_def\<close>)
qed

lemma stopped_ok:
  assumes "ok_except le X S"
  shows "ok_except le X (stop_ends S)"
  using ok_exceptD [OF assms]
  by (auto simp: stop_ends_def ok_except_def objects_ok_def sessions_ok_def refs_ok_def records_ok_def schedulers_ok_def
      kept_at_def records_of_def)

section \<open>Every event keeps the invariant\<close>

lemma sftp_service_step_ok:
  assumes "service_step le R S T" and "ok_except le X S"
  shows "ok_except le X T"
  using assms
proof (induction rule: service_step.induct)
  case (session_read sid S)
  then show ?case by (simp add: getOpenSession_ok)
qed (simp_all add: sftp_register_ok markClosed_ok poison_ok startTask_ok admit_ok same_records_ok on_released_ok
    remove_reaction_ok retention_ok sftp_close_ok drained_ok stop_ok stopped_ok)

lemma new_service_ok: "ok_except le X new_sftp_service"
  by (simp add: new_sftp_service_def ok_except_def objects_ok_def sessions_ok_def refs_ok_def records_ok_def
      schedulers_ok_def kept_at_def records_of_def)

lemma sftp_service_reachable_ok: "service_reachable le R S \<Longrightarrow> ok_except le {} S"
  by (induction rule: service_reachable.induct) (auto intro: new_service_ok sftp_service_step_ok)

end
