(* ===== verification/SftpPathTheorems.thy ===== *)
theory SftpPathTheorems
  imports SftpPaths ArchiveTermination
begin

text \<open>
  Facts about the paths of the SFTP service: on absolute paths of plain segments the containment test
  is the prefix order, the numbered copies of an entry are pairwise distinct names of one directory, a
  path built from a listed name survives the normalization of the next request unless the name ends in
  white space or holds a backslash, and the two displays of mode bits can be read back.
\<close>

section \<open>Absolute paths\<close>

lemma joinSftpPath_abs [simp]:
  assumes "list_all plain_segment segs" and "plain_segment x"
  shows "joinSftpPath (abs_path segs) x = abs_path (segs @ [x])"
proof (cases "segs = []")
  case True
  then have "joinSftpPath (abs_path segs) x = posix_normalize (abs_path [x])"
    by (simp add: joinSftpPath_def abs_path_single)
  then show ?thesis using assms True by simp
next
  case False
  then obtain t where t: "abs_path segs = slash # t" and "t \<noteq> []"
    using assms join_with_eq_Nil [of segs] by (simp add: abs_path_def)
  then have "joinSftpPath (abs_path segs) x = posix_normalize (abs_path (segs @ [x]))"
    using False abs_path_snoc [of segs x] by (simp add: joinSftpPath_def)
  then show ?thesis using assms by simp
qed

lemma strip_slashes_abs [simp]:
  assumes "list_all plain_segment segs"
  shows "strip_slashes (abs_path segs) = (if segs = [] then [] else abs_path segs)"
proof (cases segs rule: rev_cases)
  case Nil
  then show ?thesis by (simp add: strip_slashes_def)
next
  case (snoc xs x)
  then have "plain_segment x" using assms by simp
  with snoc show ?thesis
    by (cases "xs = []") (simp_all add: strip_slashes_def abs_path_single abs_path_snoc plain_last plain_last [where ys = "[slash]", simplified])
qed

lemma abs_path_not_Nil [simp]: "abs_path segs \<noteq> []" "[] \<noteq> abs_path segs" "abs_path segs \<noteq> dot"
  by (simp_all add: abs_path_def)

lemma abs_path_root_iff [simp]: "list_all plain_segment segs \<Longrightarrow> abs_path segs = [slash] \<longleftrightarrow> segs = []"
  using join_with_eq_Nil [of segs] by (simp add: abs_path_def)

lemma starts_abs: "starts_with (abs_path xs) [slash]"
  by (simp add: abs_path_def)

lemma descendant_abs:
  assumes "list_all plain_segment xs" and "list_all plain_segment ys"
  shows "isSameOrDescendantPath (abs_path ys) (abs_path xs) \<longleftrightarrow> prefix ys xs"
proof (cases "ys = [] \<or> xs = []")
  case True
  then show ?thesis
    using assms starts_abs [of xs] by (auto simp: isSameOrDescendantPath_def Let_def)
next
  case False
  then show ?thesis
    using assms starts_with_abs_path [OF assms] abs_path_inject [OF assms]
    by (auto simp: isSameOrDescendantPath_def Let_def strict_prefix_def)
qed

section \<open>Requests for listed entries\<close>

lemma forward_slashes_id: "backslash \<notin> set s \<Longrightarrow> forward_slashes s = s"
  by (induction s) (auto simp: forward_slashes_def)

lemma trim_id:
  assumes "s \<noteq> []" and "\<not> is_space (hd s)" and "\<not> is_space (last s)"
  shows "trim s = s"
proof -
  have "trim_start s = s" using assms by (cases s) (simp_all add: trim_start_def)
  moreover have "trim_end s = s" using assms by (cases s rule: rev_cases) (simp_all add: trim_end_def)
  ultimately show ?thesis by (simp add: trim_def)
qed

lemma in_join_with: "c \<in> set (join_with d xs) \<Longrightarrow> c = d \<or> (\<exists>x\<in>set xs. c \<in> set x)"
  by (induction d xs rule: join_with.induct) auto

lemma last_abs_snoc: "plain_segment x \<Longrightarrow> last (abs_path (segs @ [x])) = last x"
  by (cases "segs = []") (simp_all add: abs_path_single abs_path_snoc plain_segment_def)

lemma request_again:
  assumes "list_all plain_segment (segs @ [x])"
    and "\<forall>s\<in>set (segs @ [x]). backslash \<notin> set s" and "\<not> is_space (last x)"
  shows "normalizeSftpPathInput (Some (abs_path (segs @ [x]))) = abs_path (segs @ [x])"
proof -
  have "trim (abs_path (segs @ [x])) = abs_path (segs @ [x])"
    by (rule trim_id) (use assms in \<open>simp_all add: last_abs_snoc\<close>, simp add: abs_path_def is_space_def)
  moreover have "backslash \<notin> set (abs_path (segs @ [x]))"
    using assms(2) in_join_with [of backslash slash "segs @ [x]"] by (auto simp: abs_path_def)
  ultimately show ?thesis
    using assms(1) by (simp add: normalizeSftpPathInput_def Let_def forward_slashes_id)
qed

section \<open>Numbered copies\<close>

lemma last_dot_Some: "last_dot s = Some i \<Longrightarrow> i < length s"
  by (auto simp: last_dot_def in_set_conv_decomp split: if_splits)

lemma basename_plain: "plain_segment x \<Longrightarrow> posix_basename x = x"
proof -
  assume plain: "plain_segment x"
  have "takeWhile (\<lambda>c. c \<noteq> slash) (rev x) = rev x"
    unfolding takeWhile_eq_all_conv using plain by (auto simp: plain_segment_def)
  then have "rev (takeWhile (\<lambda>c. c \<noteq> slash) (rev x)) = x" by (metis rev_rev_ident)
  then show ?thesis using plain_last [OF plain, of "[]"] unfolding posix_basename_def by simp
qed

lemma extname_drop:
  assumes "plain_segment x"
  obtains k where "k \<le> length x" and "posix_extname x = drop k x"
proof -
  have "posix_basename x = x"
    using assms by (rule basename_plain)
  then have "posix_extname x = drop (length x) x \<or> (\<exists>i. last_dot x = Some i \<and> posix_extname x = drop i x)"
    by (cases "last_dot x") (auto simp: posix_extname_def Let_def)
  then show thesis
    using that [of "length x"] that last_dot_Some [of x] by (auto intro: less_imp_le)
qed

lemma copy_name_parts:
  assumes "plain_segment x"
  obtains stem ext where "x = stem @ ext" and "\<And>n. copy_name x n = stem @ copy_suffix n @ ext"
proof -
  obtain k where k: "k \<le> length x" "posix_extname x = drop k x" using extname_drop [OF assms] .
  show thesis
    by (rule that [of "take k x" "drop k x"])
      (use k in \<open>auto simp: copy_name_def Let_def\<close>)
qed

text \<open>Decimal numerals tell numbers apart.\<close>

definition numeral_value :: "jstring \<Rightarrow> nat" where
  "numeral_value s = foldl (\<lambda>a c. a * 10 + (c - 48)) 0 s"

lemma numeral_value_decimal: "numeral_value (decimal n) = n"
proof (induction n rule: decimal.induct)
  case (1 n)
  then show ?case
    by (cases "n < 10") (simp_all add: decimal.simps [of n] numeral_value_def)
qed

lemma decimal_inject [simp]: "decimal m = decimal n \<longleftrightarrow> m = n"
  by (metis numeral_value_decimal)

lemma copy_suffix_inject:
  assumes "0 < m" and "0 < n"
  shows "copy_suffix m = copy_suffix n \<longleftrightarrow> m = n"
  using assms by (auto simp: copy_suffix_def)

lemma copy_name_inject:
  assumes "plain_segment x" and "0 < m" and "0 < n"
  shows "copy_name x m = copy_name x n \<longleftrightarrow> m = n"
proof -
  obtain stem ext where "\<And>n. copy_name x n = stem @ copy_suffix n @ ext"
    using copy_name_parts [OF assms(1)] by metis
  then show ?thesis using copy_suffix_inject [OF assms(2,3)] by simp
qed

lemma decimal_digits: "c \<in> set (decimal n) \<Longrightarrow> 48 \<le> c \<and> c \<le> 57"
  by (induction n rule: decimal.induct) (subst (asm) (2) decimal.simps, auto split: if_splits)

lemma copy_suffix_text: "slash \<notin> set (copy_suffix n)" "5 \<le> length (copy_suffix n)"
  using decimal_digits [of slash n] by (auto simp: copy_suffix_def js_simps)

lemma copy_name_plain: "plain_segment x \<Longrightarrow> plain_segment (copy_name x n)"
proof -
  assume plain: "plain_segment x"
  then obtain stem ext where "x = stem @ ext" and n: "copy_name x n = stem @ copy_suffix n @ ext"
    by (rule copy_name_parts) blast
  then have "slash \<notin> set (copy_name x n)" and "2 < length (copy_name x n)"
    using plain copy_suffix_text [of n] by (auto simp: plain_segment_def)
  then show ?thesis by (auto simp: plain_segment_def)
qed

lemma copy_name_fresh: "plain_segment x \<Longrightarrow> copy_name x n \<noteq> x"
proof -
  assume "plain_segment x"
  then obtain stem ext where "x = stem @ ext" and n: "copy_name x n = stem @ copy_suffix n @ ext"
    by (rule copy_name_parts) blast
  moreover have "copy_suffix n \<noteq> []" using copy_suffix_text(2) [of n] by auto
  ultimately have "length x < length (copy_name x n)" by simp
  then show ?thesis by auto
qed

lemma candidate_abs:
  assumes "list_all plain_segment segs" and "plain_segment x" and "0 < n"
  shows "buildSftpCopyTargetCandidate (abs_path (segs @ [x])) n = abs_path (segs @ [copy_name x n])"
  using assms copy_name_plain [of x n] by (simp add: buildSftpCopyTargetCandidate_def Let_def)

section \<open>Mode bits\<close>

definition read_octal :: "jstring \<Rightarrow> nat" where
  "read_octal s = foldl (\<lambda>a c. a * 8 + (c - 48)) 0 s"

lemma read_octal_octal: "read_octal (octal n) = n"
proof (induction n rule: octal.induct)
  case (1 n)
  then show ?case by (cases "n < 8") (simp_all add: octal.simps [of n] read_octal_def)
qed

lemma read_octal_pad: "read_octal (replicate k 48 @ s) = read_octal s"
  by (induction k) (simp_all add: read_octal_def)

lemma length_octal: "n < 8 ^ Suc k \<Longrightarrow> length (octal n) \<le> Suc k"
proof (induction k arbitrary: n)
  case 0
  then show ?case by (simp add: octal.simps [of n])
next
  case (Suc k)
  then have "n div 8 < 8 ^ Suc k" by (simp add: div_less_iff_less_mult mult.commute)
  from Suc.IH [OF this] show ?case by (simp add: octal.simps [of n])
qed

lemma formatSftpPermissionOctal_length: "length (formatSftpPermissionOctal mode) = 4"
proof -
  have "mode AND 4095 = take_bit 12 mode"
    by (simp add: take_bit_eq_mask mask_eq_exp_minus_1)
  then have "mode AND 4095 < 8 ^ Suc 3" by (simp add: take_bit_eq_mod)
  from length_octal [OF this] show ?thesis by (simp add: formatSftpPermissionOctal_def padStart_def)
qed

definition read_permissions :: "jstring \<Rightarrow> nat" where
  "read_permissions s = foldl (\<lambda>a c. 2 * a + (if c = 45 then 0 else 1)) 0 (tl s)"

lemma permission_bit: "mode AND 2 ^ k = (2::nat) ^ k \<longleftrightarrow> bit mode k"
proof
  assume "mode AND 2 ^ k = (2::nat) ^ k"
  then have "bit (mode AND 2 ^ k) k \<longleftrightarrow> bit ((2::nat) ^ k) k" by simp
  then show "bit mode k" by (simp add: bit_and_iff bit_exp_iff)
next
  assume "bit mode k"
  then show "mode AND 2 ^ k = (2::nat) ^ k"
    by (intro bit_eqI) (auto simp: bit_and_iff bit_exp_iff)
qed

definition permission_positions :: "(nat \<times> nat) list" where
  "permission_positions = [(8, 114), (7, 119), (6, 120), (5, 114), (4, 119), (3, 120), (2, 114), (1, 119), (0, 120)]"

lemma permission_bits_positions: "permission_bits = map (\<lambda>(k, c). (2 ^ k, c)) permission_positions"
  by (simp add: permission_bits_def permission_positions_def js_simps numeral_eq_Suc)

lemma formatSftpPermissions_bits:
  obtains t where "formatSftpPermissions mode = t # map (\<lambda>(k, c). if bit mode k then c else 45) permission_positions"
proof -
  have "map (\<lambda>(b, c). if mode AND b = b then c else 45) permission_bits =
      map (\<lambda>(k, c). if bit mode k then c else 45) permission_positions"
    by (simp add: permission_bits_positions permission_bit case_prod_beta)
  then show thesis
    using that by (cases "entryType mode") (simp_all add: formatSftpPermissions_def js_simps)
qed

lemma read_symbols:
  "\<forall>(k, c)\<in>set ps. c \<noteq> 45 \<Longrightarrow>
     foldl (\<lambda>a c. 2 * a + (if c = 45 then 0 else 1)) n (map (\<lambda>(k, c). if bit mode k then c else 45) ps) =
     foldl (\<lambda>a k. 2 * a + of_bool (bit mode k)) n (map fst ps)"
  by (induction ps arbitrary: n) auto

lemma symbols_read: "read_permissions (formatSftpPermissions mode) = take_bit 9 mode"
proof -
  obtain t where "formatSftpPermissions mode =
      t # map (\<lambda>(k, c). if bit mode k then c else 45) permission_positions"
    by (rule formatSftpPermissions_bits)
  then have "read_permissions (formatSftpPermissions mode) =
      foldl (\<lambda>a k. 2 * a + of_bool (bit mode k)) 0 (map fst permission_positions)"
    by (simp only: read_permissions_def list.sel)
      (rule read_symbols, simp add: permission_positions_def)
  also have "map fst permission_positions = rev [0..<9]" by code_simp
  also have "foldl (\<lambda>a k. 2 * a + of_bool (bit mode k)) 0 (rev [0..<9]) =
      foldl (\<lambda>a b. 2 * a + of_bool b) 0 (rev (map (bit mode) [0..<9]))"
    by (simp only: rev_map foldl_map)
  also have "\<dots> = horner_sum of_bool 2 (map (bit mode) [0..<9])"
    by (simp add: horner_sum_foldr foldl_conv_foldr add.commute)
  finally show ?thesis by (simp only: horner_sum_bit_eq_take_bit)
qed

section \<open>Properties\<close>

text \<open>C29: The search for a free copy target tries a different path at every attempt, all of them entries of the
  directory of the requested target: it tries as many names as it makes attempts.\<close>
theorem copy_candidates_distinct:
  assumes "list_all plain_segment segs" and "plain_segment x"
  shows "inj (buildSftpCopyTargetCandidate (abs_path (segs @ [x]))) \<and>
    (\<forall>n. posix_dirname (buildSftpCopyTargetCandidate (abs_path (segs @ [x])) n) = abs_path segs)"
proof -
  have cand: "buildSftpCopyTargetCandidate (abs_path (segs @ [x])) n =
      abs_path (segs @ [if n = 0 then x else copy_name x n])" for n
    using candidate_abs [OF assms, of n] by (cases n) (simp_all add: buildSftpCopyTargetCandidate_def)
  have plain: "plain_segment (if n = 0 then x else copy_name x n)" for n
    using assms(2) copy_name_plain [OF assms(2)] by simp
  have "inj (buildSftpCopyTargetCandidate (abs_path (segs @ [x])))"
  proof (rule injI)
    fix m n
    assume "buildSftpCopyTargetCandidate (abs_path (segs @ [x])) m = buildSftpCopyTargetCandidate (abs_path (segs @ [x])) n"
    then have "(if m = 0 then x else copy_name x m) = (if n = 0 then x else copy_name x n)"
      unfolding cand using abs_path_inject assms(1) plain by simp
    then show "m = n"
      using copy_name_inject [OF assms(2)] copy_name_fresh [OF assms(2)] by (metis neq0_conv)
  qed
  moreover have "posix_dirname (buildSftpCopyTargetCandidate (abs_path (segs @ [x])) n) = abs_path segs" for n
    unfolding cand using assms(1) plain by simp
  ultimately show ?thesis by blast
qed

theorem copy_candidates_distinct_witness:
  "inj (buildSftpCopyTargetCandidate (abs_path [js ''home'', js ''a.tar.gz''])) \<and>
   posix_dirname (buildSftpCopyTargetCandidate (abs_path [js ''home'', js ''a.tar.gz'']) 7) = abs_path [js ''home''] \<and>
   buildSftpCopyTargetCandidate (abs_path [js ''home'', js ''a.tar.gz'']) 2 = js ''/home/a.tar copy 2.gz''"
proof -
  have plain: "list_all plain_segment [js ''home'']" "plain_segment (js ''a.tar.gz'')"
    by (simp_all add: plain_segment_def js_simps)
  have "buildSftpCopyTargetCandidate (abs_path ([js ''home''] @ [js ''a.tar.gz''])) 2 = js ''/home/a.tar copy 2.gz''"
    unfolding candidate_abs [OF plain zero_less_numeral]
    by (simp add: copy_name_def posix_extname_def basename_plain [OF plain(2)] Let_def last_dot_def copy_suffix_def
        decimal.simps abs_path_def) (simp add: js_simps)
  then show ?thesis
    using copy_candidates_distinct [OF plain] by simp
qed

text \<open>The path that the service lists for an entry comes back unchanged when the next request names it,
  as long as no name on it holds a backslash and the last one does not end in white space.\<close>
theorem listed_path_addressable:
  assumes "list_all plain_segment segs" and "plain_segment x"
    and "\<forall>s\<in>set (x # segs). backslash \<notin> set s" and "\<not> is_space (last x)"
  shows "normalizeSftpPathInput (Some (joinSftpPath (abs_path segs) x)) = joinSftpPath (abs_path segs) x"
  using assms request_again [of segs x] by auto

theorem listed_path_addressable_witness:
  "normalizeSftpPathInput (Some (joinSftpPath (abs_path [js ''home'', js ''me'']) (js ''my notes.txt''))) =
   js ''/home/me/my notes.txt''"
proof -
  have "normalizeSftpPathInput (Some (joinSftpPath (abs_path [js ''home'', js ''me'']) (js ''my notes.txt''))) =
      joinSftpPath (abs_path [js ''home'', js ''me'']) (js ''my notes.txt'')"
    by (rule listed_path_addressable) (simp_all add: plain_segment_def js_simps is_space_def)
  also have "\<dots> = js ''/home/me/my notes.txt''"
    by (subst joinSftpPath_abs) (simp_all add: plain_segment_def abs_path_def js_simps)
  finally show ?thesis .
qed

text \<open>Two different entries of one directory can have listed paths that the service reads as one: a
  request for the entry whose name ends in a space, or holds a backslash, acts on another entry.\<close>
theorem listed_paths_collide:
  "joinSftpPath (js ''/d'') (js ''report '') \<noteq> joinSftpPath (js ''/d'') (js ''report'') \<and>
   normalizeSftpPathInput (Some (joinSftpPath (js ''/d'') (js ''report ''))) = js ''/d/report'' \<and>
   normalizeSftpPathInput (Some (joinSftpPath (js ''/d'') (js ''report''))) = js ''/d/report'' \<and>
   normalizeSftpPathInput (Some (joinSftpPath (js ''/d'') (js ''a'' @ [backslash] @ js ''b''))) = js ''/d/a/b''"
  by (simp add: joinSftpPath_def normalizeSftpPathInput_def posix_normalize_def normalize_segments_def push_segment_def
      Let_def trim_def trim_start_def trim_end_def is_space_def forward_slashes_def js_simps)

text \<open>C0: The guard against changing the root or the working directory itself compares spellings: the input
  \<open>./\<close> passes it although it names the working directory.\<close>

theorem mutable_guard_passes_working_directory:
  "\<not> isMutableSftpEntryPath (normalizeSftpPathInput (Some (js ''.''))) \<and>
   \<not> isMutableSftpEntryPath (normalizeSftpPathInput (Some (js ''//''))) \<and>
   isMutableSftpEntryPath (normalizeSftpPathInput (Some (js ''./'')))"
  by (simp add: isMutableSftpEntryPath_def normalizeSftpPathInput_def posix_normalize_def normalize_segments_def
      push_segment_def Let_def trim_def trim_start_def trim_end_def is_space_def forward_slashes_def js_simps)

text \<open>Both displays of the permission bits can be read back: the symbolic one gives the nine bits of
  owner, group and others, the octal one the twelve bits with the special flags, in four digits.\<close>
theorem permissions_readable:
  "read_permissions (formatSftpPermissions mode) = mode mod 2 ^ 9 \<and>
   read_octal (formatSftpPermissionOctal mode) = mode mod 2 ^ 12 \<and>
   length (formatSftpPermissionOctal mode) = 4"
proof -
  have "read_octal (formatSftpPermissionOctal mode) = take_bit 12 mode"
    by (simp add: formatSftpPermissionOctal_def padStart_def read_octal_pad read_octal_octal take_bit_eq_mask
        mask_eq_exp_minus_1)
  then show ?thesis
    using formatSftpPermissionOctal_length [of mode] symbols_read [of mode] by (simp only: take_bit_eq_mod)
qed

end
