(* ===== verification/SftpTree.thy ===== *)
theory SftpTree
  imports SftpFiles SftpPathTheorems ArchiveTree
begin

text \<open>
  A server with a file tree, as an instance of the requests of the SFTP service, and the two recursions
  over the remote tree compared with operations on trees: a recursive deletion removes exactly the subtree,
  a copy adds a copy of the subtree and leaves the rest as it was.  Both return.
\<close>

section \<open>Stores on trees\<close>

lemma map_set_same: "map_of m k = Some v \<Longrightarrow> map_set k v m = m"
  by (induction k v m rule: map_set.induct) (auto split: if_splits)

lemma map_set_twice: "map_set k v (map_set k u m) = map_set k v m"
  by (induction k u m rule: map_set.induct) auto

lemma map_delete_set: "map_delete k (map_set k u m) = map_delete k m"
  by (induction k u m rule: map_set.induct) (auto simp: map_delete_def)

lemma store_Cons:
  "xs \<noteq> [] \<Longrightarrow> store (x # xs) m (DirNode es) =
     DirNode (case map_of es x of None \<Rightarrow> es | Some n \<Rightarrow> map_set x (store xs m n) es)"
  by (auto simp: neq_Nil_conv)

lemma lookup_Cons_SomeE:
  assumes "lookup (x # xs) t = Some n"
  obtains es c where "t = DirNode es" and "map_of es x = Some c" and "lookup xs c = Some n"
  using assms by (cases t) (auto split: option.splits)

lemma lookup_store_here:
  "lookup xs t = Some n \<Longrightarrow> xs \<noteq> [] \<Longrightarrow> lookup xs (store xs (Some m) t) = Some m"
proof (induction xs arbitrary: t)
  case (Cons x xs)
  from Cons.prems(1) show ?case
    by (rule lookup_Cons_SomeE) (use Cons.IH in \<open>cases "xs = []"; simp add: store_Cons\<close>)
qed simp

lemma store_twice:
  "lookup xs t = Some n \<Longrightarrow> xs \<noteq> [] \<Longrightarrow> store xs a (store xs (Some m) t) = store xs a t"
proof (induction xs arbitrary: t)
  case (Cons x xs)
  from Cons.prems(1) show ?case
    by (rule lookup_Cons_SomeE)
      (use Cons.IH in \<open>cases "xs = []"; simp add: store_Cons map_set_twice map_delete_set split: option.split\<close>)
qed simp

lemma store_same: "lookup xs t = Some n \<Longrightarrow> xs \<noteq> [] \<Longrightarrow> store xs (Some n) t = t"
proof (induction xs arbitrary: t)
  case (Cons x xs)
  from Cons.prems(1) show ?case
    by (rule lookup_Cons_SomeE) (use Cons.IH in \<open>cases "xs = []"; simp add: store_Cons map_set_same\<close>)
qed simp

lemma store_below:
  assumes "lookup xs t = Some (DirNode es)" and "xs \<noteq> []"
  shows "store (xs @ [x]) m t = store xs (Some (store [x] m (DirNode es))) t"
  using assms
proof (induction xs arbitrary: t)
  case (Cons y xs)
  obtain fs c where c: "t = DirNode fs" "map_of fs y = Some c" "lookup xs c = Some (DirNode es)"
    using Cons.prems(1) by (rule lookup_Cons_SomeE)
  then show ?case using Cons.IH [of c] by (cases "xs = []") (simp_all add: store_Cons)
qed simp

text \<open>A new entry is the last one of its directory.\<close>
lemma map_delete_absent: "map_of m k = None \<Longrightarrow> map_delete k m = m"
  by (induction m) (auto simp: map_delete_def split: if_splits)

lemma map_delete_new: "map_of m k = None \<Longrightarrow> map_delete k (map_set k v m) = m"
  by (simp add: map_delete_set map_delete_absent)

lemma lookup_store_new:
  "lookup xs t = Some (DirNode es) \<Longrightarrow> lookup (xs @ [x]) (store (xs @ [x]) (Some n) t) = Some n"
proof (induction xs arbitrary: t)
  case (Cons y xs)
  from Cons.prems(1) show ?case by (rule lookup_Cons_SomeE) (use Cons.IH in \<open>simp add: store_Cons\<close>)
qed simp

lemma store_new_twice:
  "lookup xs t = Some (DirNode es) \<Longrightarrow>
     store (xs @ [x]) (Some m) (store (xs @ [x]) (Some n) t) = store (xs @ [x]) (Some m) t"
proof (induction xs arbitrary: t)
  case (Cons y xs)
  from Cons.prems(1) show ?case
    by (rule lookup_Cons_SomeE) (use Cons.IH in \<open>simp add: store_Cons map_set_twice\<close>)
qed (simp add: map_set_twice)

text \<open>A store changes nothing at a path that is neither above nor below it.\<close>
lemma parallel_Cons: "x # xs \<parallel> y # ys \<longleftrightarrow> x \<noteq> y \<or> xs \<parallel> ys"
  by (auto simp: parallel_def)

lemma lookup_store_parallel: "xs \<parallel> ys \<Longrightarrow> lookup xs (store ys m t) = lookup xs t"
proof (induction ys m t arbitrary: xs rule: store.induct)
  case (1 x m es)
  then obtain y ys where "xs = y # ys" "y \<noteq> x"
    by (cases xs) (auto simp: parallel_Cons)
  then show ?case by (cases m) simp_all
next
  case (2 x v va m es)
  then obtain y ys where xs: "xs = y # ys"
    by (cases xs) auto
  show ?case
  proof (cases "y = x")
    case True
    then have "ys \<parallel> (v # va)" using 2(2) xs by (simp add: parallel_Cons)
    then show ?thesis using 2(1) True xs by (auto split: option.split)
  next
    case False
    then show ?thesis using xs by (auto split: option.split)
  qed
qed simp_all

lemma lookup_prefix_None: "lookup xs t = None \<Longrightarrow> prefix xs ys \<Longrightarrow> lookup ys t = None"
  by (auto simp: prefix_def lookup_append)

section \<open>Links\<close>

text \<open>
  The resolution of a path as POSIX describes it: \<open>cur\<close> are the names of the directory reached so far, a
  link among the rest is replaced by its target, which starts at the root when it is absolute, and after the
  given number of links the resolution fails.
\<close>

function follow_links :: "nat \<Rightarrow> node \<Rightarrow> jstring list \<Rightarrow> jstring list \<Rightarrow> jstring list option" where
  "follow_links links t cur [] = Some cur"
| "follow_links links t cur (x # xs) =
     (if \<not> is_dir_at cur t then None
      else if x = dot then follow_links links t cur xs
      else if x = dotdot then follow_links links t (butlast cur) xs
      else case lookup (cur @ [x]) t of
             None \<Rightarrow> None
           | Some (LinkNode l) \<Rightarrow>
               (if links = 0 then None
                else follow_links (links - 1) t (if starts_with l [slash] then [] else cur) (path_names l @ xs))
           | Some n \<Rightarrow> follow_links links t (cur @ [x]) xs)"
  by pat_completeness auto
termination
  by (relation "measures [\<lambda>(links, t, cur, xs). links, \<lambda>(links, t, cur, xs). length xs]") auto

definition MAX_LINKS :: nat where "MAX_LINKS = 40"

text \<open>What STAT, OPEN and READDIR find at a path, and the entry that LSTAT and the mutations name.\<close>

definition target_at :: "jstring \<Rightarrow> node \<Rightarrow> jstring list option" where
  "target_at p t = follow_links MAX_LINKS t [] (path_names p)"

definition entry_at :: "jstring \<Rightarrow> node \<Rightarrow> jstring list option" where
  "entry_at p t =
     (let xs = path_names p
      in if xs = [] \<or> last xs = dot \<or> last xs = dotdot then target_at p t
         else case follow_links MAX_LINKS t [] (butlast xs) of None \<Rightarrow> None | Some d \<Rightarrow> Some (d @ [last xs]))"

definition target_node :: "jstring \<Rightarrow> node \<Rightarrow> node option" where
  "target_node p t = (case target_at p t of None \<Rightarrow> None | Some xs \<Rightarrow> lookup xs t)"

definition entry_node :: "jstring \<Rightarrow> node \<Rightarrow> node option" where
  "entry_node p t = (case entry_at p t of None \<Rightarrow> None | Some xs \<Rightarrow> lookup xs t)"

text \<open>A path through directories is its own resolution.\<close>
lemma lookup_below_file: "lookup xs t = Some n \<Longrightarrow> \<nexists>es. n = DirNode es \<Longrightarrow> ys \<noteq> [] \<Longrightarrow> lookup (xs @ ys) t = None"
  by (cases n; cases ys) (auto simp: lookup_append)

lemma follow_plain:
  assumes "lookup (cur @ xs) t = Some n" and "list_all plain_segment xs" and "\<nexists>l. n = LinkNode l"
  shows "follow_links links t cur xs = Some (cur @ xs)"
  using assms(1,2)
proof (induction xs arbitrary: cur)
  case (Cons x xs)
  obtain es where es: "lookup cur t = Some (DirNode es)"
    using Cons.prems(1) lookup_below_file [of cur t _ "x # xs"]
    by (cases "lookup cur t") (auto simp: lookup_append)
  obtain m where m: "lookup (cur @ [x]) t = Some m"
    using Cons.prems(1) es by (auto simp: lookup_append split: option.splits)
  have "\<nexists>l. m = LinkNode l"
  proof (cases "xs = []")
    case False
    then show ?thesis using lookup_below_file [OF m, of xs] Cons.prems(1) by auto
  qed (use m Cons.prems(1) assms(3) in simp)
  then show ?case
    using Cons.IH [of "cur @ [x]"] Cons.prems es m
    by (cases m) (auto simp: is_dir_at_def plain_segment_def)
qed simp

lemma dirs_above: "lookup (ps @ [x]) t = Some n \<Longrightarrow> \<exists>es. lookup ps t = Some (DirNode es)"
  by (cases "lookup ps t") (auto simp: lookup_append elim: lookup_Cons_SomeE)

lemma target_plain:
  "lookup xs t = Some n \<Longrightarrow> list_all plain_segment xs \<Longrightarrow> \<nexists>l. n = LinkNode l \<Longrightarrow> target_at (abs_path xs) t = Some xs"
  using follow_plain [of "[]" xs t n MAX_LINKS] by (simp add: target_at_def)

lemma entry_below:
  assumes "lookup ps t = Some (DirNode es)" and "list_all plain_segment (ps @ [x])"
  shows "entry_at (abs_path (ps @ [x])) t = Some (ps @ [x])"
proof -
  have "path_names (abs_path (ps @ [x])) = ps @ [x]" using assms(2) by (rule path_names_abs)
  then show ?thesis
    using follow_plain [of "[]" ps t "DirNode es" MAX_LINKS] assms
    by (simp add: entry_at_def plain_segment_def)
qed

lemma entry_plain:
  assumes "lookup xs t = Some n" and "list_all plain_segment xs"
  shows "entry_at (abs_path xs) t = Some xs"
proof (cases xs rule: rev_cases)
  case Nil
  then show ?thesis using path_names_abs [of "[]"] by (simp add: entry_at_def target_at_def)
next
  case (snoc ps x)
  then obtain es where "lookup ps t = Some (DirNode es)" using assms(1) dirs_above by blast
  then show ?thesis using entry_below assms(2) snoc by simp
qed

lemma target_node_plain [simp]:
  "lookup xs t = Some n \<Longrightarrow> list_all plain_segment xs \<Longrightarrow> \<nexists>l. n = LinkNode l \<Longrightarrow> target_node (abs_path xs) t = Some n"
  by (simp add: target_node_def target_plain)

lemma entry_node_plain [simp]:
  "lookup xs t = Some n \<Longrightarrow> list_all plain_segment xs \<Longrightarrow> entry_node (abs_path xs) t = Some n"
  by (simp add: entry_node_def entry_plain)

lemma target_node_free:
  assumes "is_dir_at (butlast xs) t" and "lookup xs t = None" and "xs \<noteq> []" and "list_all plain_segment xs"
  shows "target_node (abs_path xs) t = None"
proof -
  obtain ps x where xs: "xs = ps @ [x]" using assms(3) by (cases xs rule: rev_cases) auto
  obtain es where es: "lookup ps t = Some (DirNode es)"
    using assms(1) xs by (auto simp: is_dir_at_def split: option.splits node.splits)
  have "follow_links k t cur (ys @ [x]) = None"
    if "lookup (cur @ ys) t = Some (DirNode es)" "list_all plain_segment (ys @ [x])" "lookup (cur @ ys @ [x]) t = None" for k cur ys
    using that
  proof (induction ys arbitrary: cur)
    case (Cons y ys)
    obtain fs where fs: "lookup cur t = Some (DirNode fs)"
      using Cons.prems(1) lookup_below_file [of cur t _ "y # ys"]
      by (cases "lookup cur t") (auto simp: lookup_append)
    obtain m where m: "lookup (cur @ [y]) t = Some m"
      using Cons.prems(1) fs by (auto simp: lookup_append split: option.splits)
    have "\<nexists>l. m = LinkNode l"
    proof (cases "ys = []")
      case False
      then show ?thesis using lookup_below_file [OF m, of ys] Cons.prems(1) by auto
    qed (use m Cons.prems(1) in simp)
    then show ?case
      using Cons.IH [of "cur @ [y]"] Cons.prems fs m by (cases m) (auto simp: is_dir_at_def plain_segment_def)
  qed (auto simp: is_dir_at_def plain_segment_def)
  from this [of "[]" ps] es assms(2,4) xs show ?thesis by (simp add: target_node_def target_at_def)
qed

section \<open>The server\<close>

text \<open>Modes are not kept: every request is permitted.\<close>

fun node_size :: "node \<Rightarrow> nat" where
  "node_size (FileNode c) = length c"
| "node_size (LinkNode l) = length l"
| "node_size (DirNode es) = 0"

definition stats_of :: "node \<Rightarrow> file_stats" where
  "stats_of n = \<lparr>fs_mode = node_mode n, fs_size = node_size n,
     fs_uid = 0, fs_gid = 0, fs_mtime = 0, fs_atime = 0, fs_extended = MOther\<rparr>"

definition missing :: "'a reply" where "missing = Refusal (JNum (Num 2)) (js ''No such file'')"

definition failure_reply :: "'a reply" where "failure_reply = Refusal (JNum (Num 4)) (js ''Failure'')"

definition serve :: "(node \<Rightarrow> 'a reply \<times> node) \<Rightarrow> (node, 'a) sftp_request" where
  "serve f t = (let (r, t') = f t in (r, Undisturbed, t'))"

definition serve_stat :: "jstring \<Rightarrow> node \<Rightarrow> file_stats reply \<times> node" where
  "serve_stat p t = (case target_node p t of None \<Rightarrow> missing | Some n \<Rightarrow> Answer (stats_of n), t)"

definition serve_lstat :: "jstring \<Rightarrow> node \<Rightarrow> file_stats reply \<times> node" where
  "serve_lstat p t = (case entry_node p t of None \<Rightarrow> missing | Some n \<Rightarrow> Answer (stats_of n), t)"

definition serve_readdir :: "jstring \<Rightarrow> node \<Rightarrow> directory_entry list reply \<times> node" where
  "serve_readdir p t =
     (case target_node p t of
        None \<Rightarrow> missing
      | Some (DirNode es) \<Rightarrow> Answer (map (\<lambda>e. (fst e, [], stats_of (snd e))) es)
      | Some _ \<Rightarrow> failure_reply, t)"

text \<open>A new entry needs its directory and a free name; a link with that name takes it, wherever it points.\<close>

definition serve_create :: "jstring \<Rightarrow> node \<Rightarrow> node \<Rightarrow> unit reply \<times> node" where
  "serve_create p n t =
     (case entry_at p t of
        None \<Rightarrow> (missing, t)
      | Some xs \<Rightarrow>
          if xs = [] \<or> lookup xs t \<noteq> None then (failure_reply, t)
          else if \<not> is_dir_at (butlast xs) t then (missing, t)
          else (Answer (), store xs (Some n) t))"

definition serve_unlink :: "jstring \<Rightarrow> node \<Rightarrow> unit reply \<times> node" where
  "serve_unlink p t =
     (case entry_at p t of
        None \<Rightarrow> (missing, t)
      | Some xs \<Rightarrow> (case lookup xs t of
           None \<Rightarrow> (missing, t)
         | Some (DirNode es) \<Rightarrow> (failure_reply, t)
         | Some _ \<Rightarrow> (Answer (), store xs None t)))"

definition serve_rmdir :: "jstring \<Rightarrow> node \<Rightarrow> unit reply \<times> node" where
  "serve_rmdir p t =
     (case entry_at p t of
        None \<Rightarrow> (missing, t)
      | Some xs \<Rightarrow> (case lookup xs t of
           None \<Rightarrow> (missing, t)
         | Some n \<Rightarrow> if n = DirNode [] \<and> xs \<noteq> [] then (Answer (), store xs None t) else (failure_reply, t)))"

definition serve_copy :: "jstring \<Rightarrow> jstring \<Rightarrow> node \<Rightarrow> unit reply \<times> node" where
  "serve_copy p q t =
     (case target_node p t of
        Some (FileNode c) \<Rightarrow> serve_create q (FileNode c) t
      | None \<Rightarrow> (missing, t)
      | Some _ \<Rightarrow> (failure_reply, t))"

text \<open>Renaming does not replace an entry: the old protocol version answers with its general failure.\<close>

definition serve_rename :: "jstring \<Rightarrow> jstring \<Rightarrow> node \<Rightarrow> unit reply \<times> node" where
  "serve_rename p q t =
     (case (entry_at p t, entry_at q t) of
        (Some xs, Some ys) \<Rightarrow> (case lookup xs t of
           None \<Rightarrow> (missing, t)
         | Some n \<Rightarrow>
             if xs = [] \<or> ys = [] \<or> prefix xs ys \<or> lookup ys t \<noteq> None then (failure_reply, t)
             else if \<not> is_dir_at (butlast ys) t then (missing, t)
             else (Answer (), store ys (Some n) (store xs None t)))
      | _ \<Rightarrow> (missing, t))"

definition serve_realpath :: "jstring \<Rightarrow> node \<Rightarrow> jstring reply \<times> node" where
  "serve_realpath p t = (case target_at p t of None \<Rightarrow> missing | Some xs \<Rightarrow> Answer (abs_path xs), t)"

definition serve_readlink :: "jstring \<Rightarrow> node \<Rightarrow> jstring reply \<times> node" where
  "serve_readlink p t =
     (case entry_node p t of
        None \<Rightarrow> missing | Some (LinkNode l) \<Rightarrow> Answer l | Some _ \<Rightarrow> failure_reply, t)"

definition tree_server :: "node server \<Rightarrow> node server" where
  "tree_server base = base
     \<lparr>sv_stat := (\<lambda>p. serve (serve_stat p)), sv_lstat := (\<lambda>p. serve (serve_lstat p)),
      sv_readdir := (\<lambda>p. serve (serve_readdir p)), sv_realpath := (\<lambda>p. serve (serve_realpath p)),
      sv_readlink := (\<lambda>p. serve (serve_readlink p)),
      sv_mkdir := (\<lambda>p m. serve (serve_create p (DirNode []))),
      sv_writeFile := (\<lambda>p c m. serve (serve_create p (FileNode c))),
      sv_symlink := (\<lambda>target p. serve (serve_create p (LinkNode target))),
      sv_unlink := (\<lambda>p. serve (serve_unlink p)), sv_rmdir := (\<lambda>p. serve (serve_rmdir p)),
      sv_rename := (\<lambda>p q. serve (serve_rename p q)), sv_posixRename := None,
      sv_copyStream := (\<lambda>p q m. serve (serve_copy p q))\<rparr>"

text \<open>One request on an open session: the reply of the server, no change of the session.\<close>

fun outcome :: "'a reply \<Rightarrow> sftp_error + 'a" where
  "outcome (Answer v) = Inr v"
| "outcome (Refusal code m) = Inl (Thrown (PlainError code m))"
| "outcome _ = Inl (Thrown (PlainError JUndefined []))"

lemma not_transport:
  "\<not> isSftpTransportFailure num (Thrown (PlainError (JNum (Num 2)) (js ''No such file'')))"
  "\<not> isSftpTransportFailure num (Thrown (PlainError (JNum (Num 4)) (js ''Failure'')))"
  by (simp_all add: isSftpTransportFailure_def transport_phrases_def readSftpErrorMessage_def lower_case_def
      lower_unit_def js_simps prefix_def)

lemma serve_run:
  assumes "\<not> lv_closed s" and "f (lv_world s) = (r, t)"
    and "r = missing \<or> r = failure_reply \<or> (\<exists>v. r = Answer v)"
  shows "runSftpOperation R op imp (serve f) s = Some (outcome r, s\<lparr>lv_world := t\<rparr>)"
  using assms not_transport
  by (auto simp: runSftpOperation_def serve_def settle_reply_def missing_def failure_reply_def)

lemma tree_server_fields [simp]:
  "sv_stat (tree_server base) p = serve (serve_stat p)"
  "sv_lstat (tree_server base) p = serve (serve_lstat p)"
  "sv_readdir (tree_server base) p = serve (serve_readdir p)"
  "sv_realpath (tree_server base) p = serve (serve_realpath p)"
  "sv_readlink (tree_server base) p = serve (serve_readlink p)"
  "sv_mkdir (tree_server base) p m = serve (serve_create p (DirNode []))"
  "sv_writeFile (tree_server base) p c m = serve (serve_create p (FileNode c))"
  "sv_symlink (tree_server base) q p = serve (serve_create p (LinkNode q))"
  "sv_unlink (tree_server base) p = serve (serve_unlink p)"
  "sv_rmdir (tree_server base) p = serve (serve_rmdir p)"
  "sv_rename (tree_server base) p q = serve (serve_rename p q)"
  "sv_posixRename (tree_server base) = None"
  "sv_copyStream (tree_server base) p q m = serve (serve_copy p q)"
  "sv_text (tree_server base) = sv_text base"
  "sv_numText (tree_server base) = sv_numText base"
  by (simp_all add: tree_server_def)

lemma tree_lstat_run:
  assumes opened: "\<not> lv_closed s"
  shows "sftp_lstat (tree_server base) p s =
     Some (case entry_node p (lv_world s) of None \<Rightarrow> outcome missing | Some n \<Rightarrow> Inr (stats_of n), s)"
  using serve_run [OF opened, of "serve_lstat p" _ "lv_world s"]
  by (auto simp: sftp_lstat_def serve_lstat_def split: option.split)

lemma tree_stat_run:
  assumes opened: "\<not> lv_closed s"
  shows "sftp_stat (tree_server base) p s =
     Some (case target_node p (lv_world s) of None \<Rightarrow> outcome missing | Some n \<Rightarrow> Inr (stats_of n), s)"
  using serve_run [OF opened, of "serve_stat p" _ "lv_world s"]
  by (auto simp: sftp_stat_def serve_stat_def split: option.split)

lemma tree_readdir_run:
  assumes opened: "\<not> lv_closed s" and "lookup xs (lv_world s) = Some (DirNode es)" and "list_all plain_segment xs"
  shows "sftp_readdir (tree_server base) (abs_path xs) s = Some (Inr (map (\<lambda>e. (fst e, [], stats_of (snd e))) es), s)"
  using serve_run [OF opened, of "serve_readdir (abs_path xs)" _ "lv_world s"] assms(2-)
  by (auto simp: sftp_readdir_def serve_readdir_def)

lemma tree_unlink_run:
  assumes opened: "\<not> lv_closed s" and "lookup xs (lv_world s) = Some n" and "\<nexists>es. n = DirNode es" and "list_all plain_segment xs"
  shows "sftp_unlink (tree_server base) (abs_path xs) s = Some (Inr (), s\<lparr>lv_world := store xs None (lv_world s)\<rparr>)"
  using serve_run [OF opened, of "serve_unlink (abs_path xs)" _ "store xs None (lv_world s)"] assms(2-) entry_plain [OF assms(2,4)]
  by (cases n) (auto simp: sftp_unlink_def serve_unlink_def)

lemma tree_rmdir_run:
  assumes opened: "\<not> lv_closed s" and "lookup xs (lv_world s) = Some (DirNode [])" and "xs \<noteq> []" and "list_all plain_segment xs"
  shows "sftp_rmdir (tree_server base) (abs_path xs) s = Some (Inr (), s\<lparr>lv_world := store xs None (lv_world s)\<rparr>)"
  using serve_run [OF opened, of "serve_rmdir (abs_path xs)" _ "store xs None (lv_world s)"] assms(2-) entry_plain [OF assms(2,4)]
  by (auto simp: sftp_rmdir_def serve_rmdir_def)

lemma serve_create_new:
  assumes "lookup ps t = Some (DirNode es)" and "map_of es x = None" and "list_all plain_segment (ps @ [x])"
  shows "serve_create (abs_path (ps @ [x])) n t = (Answer (), store (ps @ [x]) (Some n) t)"
  using assms(1,2) entry_below [OF assms(1,3)] by (simp add: serve_create_def is_dir_at_def lookup_append)

lemma tree_mkdir_run:
  assumes opened: "\<not> lv_closed s" and "lookup ps (lv_world s) = Some (DirNode es)" and "map_of es x = None"
    and "list_all plain_segment (ps @ [x])"
  shows "sftp_mkdir (tree_server base) (abs_path (ps @ [x])) m s =
    Some (Inr (), s\<lparr>lv_world := store (ps @ [x]) (Some (DirNode [])) (lv_world s)\<rparr>)"
  using serve_run [of s "serve_create (abs_path (ps @ [x])) (DirNode [])", OF opened serve_create_new [OF assms(2-4)]]
  by (simp add: sftp_mkdir_def)

lemma tree_copy_run:
  assumes opened: "\<not> lv_closed s" and "lookup ps (lv_world s) = Some (DirNode es)" and "map_of es x = None"
    and "list_all plain_segment (ps @ [x])" and "lookup xs (lv_world s) = Some (FileNode c)" and "list_all plain_segment xs"
  shows "sftp_copyFile (tree_server base) (abs_path xs) (abs_path (ps @ [x])) st s =
    Some (Inr (), s\<lparr>lv_world := store (ps @ [x]) (Some (FileNode c)) (lv_world s)\<rparr>)"
  using serve_run [OF opened, of "serve_copy (abs_path xs) (abs_path (ps @ [x]))" _ "store (ps @ [x]) (Some (FileNode c)) (lv_world s)"]
    serve_create_new [OF assms(2-4)] assms(5,6)
  by (simp add: sftp_copyFile_def serve_copy_def)

lemma entry_type_stats [simp]:
  "entryType (fs_mode (stats_of (DirNode es))) = DirectoryEntry"
  "entryType (fs_mode (stats_of (FileNode c))) = FileEntry"
  "entryType (fs_mode (stats_of (LinkNode l))) = SymlinkEntry"
  by (simp_all add: entryType_def stats_of_def)

section \<open>Deleting\<close>

lemma child_names_plain:
  "list_all (\<lambda>e. plain_segment (fst e)) es \<Longrightarrow> child_names (map (\<lambda>e. (fst e, f e)) es) = map fst es"
  by (induction es) (auto simp: child_names_def plain_segment_def)

lemma delete_leaf:
  assumes "\<not> lv_closed s" and "lookup xs (lv_world s) = Some n" and "\<nexists>es. n = DirNode es" and "list_all plain_segment xs"
  shows "deleteEntryRecursive (tree_server base) (abs_path xs) r s =
    Some (Inr (), s\<lparr>lv_world := store xs None (lv_world s)\<rparr>)"
  using assms
  by (subst deleteEntryRecursive.simps, cases n)
    (simp_all add: tree_lstat_run tree_unlink_run)

lemma delete_children:
  assumes "\<And>e s. e \<in> set es \<Longrightarrow> \<not> lv_closed s \<Longrightarrow> lookup (segs @ [fst e]) (lv_world s) = Some (snd e) \<Longrightarrow>
      deleteEntryRecursive R (abs_path (segs @ [fst e])) True s =
        Some (Inr (), s\<lparr>lv_world := store (segs @ [fst e]) None (lv_world s)\<rparr>)"
    and "\<not> lv_closed s" and "lookup segs (lv_world s) = Some (DirNode es)" and "segs \<noteq> []" and "distinct (map fst es)"
    and "list_all plain_segment segs" and "list_all (\<lambda>e. plain_segment (fst e)) es"
  shows "for_each (\<lambda>n. deleteEntryRecursive R (joinSftpPath (abs_path segs) n) True) (map fst es) s =
    Some (Inr (), s\<lparr>lv_world := store segs (Some (DirNode [])) (lv_world s)\<rparr>)"
  using assms
proof (induction es arbitrary: s)
  case Nil
  then show ?case using store_same [of segs "lv_world s" "DirNode []"] by simp
next
  case (Cons e es)
  let ?s = "s\<lparr>lv_world := store (segs @ [fst e]) None (lv_world s)\<rparr>"
  have "map_of ((fst e, snd e) # es) (fst e) = Some (snd e)" by simp
  then have "deleteEntryRecursive R (abs_path (segs @ [fst e])) True s = Some (Inr (), ?s)"
    using Cons.prems(1) [of e s] Cons.prems by (simp add: lookup_append)
  moreover have "store (segs @ [fst e]) None (lv_world s) = store segs (Some (DirNode es)) (lv_world s)"
  proof -
    have "map_delete (fst e) (e # es) = es"
      using Cons.prems(5) by (auto simp: map_delete_def filter_id_conv intro: rev_image_eqI)
    then show ?thesis using store_below [OF Cons.prems(3,4), of "fst e" None] by simp
  qed
  moreover have "lookup segs (store segs (Some (DirNode es)) (lv_world s)) = Some (DirNode es)"
    using lookup_store_here [OF Cons.prems(3,4)] .
  moreover have "store segs (Some (DirNode [])) (store segs (Some (DirNode es)) (lv_world s)) =
      store segs (Some (DirNode [])) (lv_world s)"
    using store_twice [OF Cons.prems(3,4)] .
  ultimately show ?case
    using Cons.prems Cons.IH [of ?s] by simp
qed

lemma delete_tree:
  assumes "\<not> lv_closed s" and "lookup segs (lv_world s) = Some n" and "well_named n" and "segs \<noteq> []"
    and "list_all plain_segment segs"
  shows "deleteEntryRecursive (tree_server base) (abs_path segs) True s =
    Some (Inr (), s\<lparr>lv_world := store segs None (lv_world s)\<rparr>)"
  using assms
proof (induction n arbitrary: s segs)
  case (DirNode es)
  let ?s = "s\<lparr>lv_world := store segs (Some (DirNode [])) (lv_world s)\<rparr>"
  have plain: "list_all (\<lambda>e. plain_segment (fst e)) es" and dist: "distinct (map fst es)"
    using DirNode.prems(3) by (auto simp: list_all_iff)
  have "for_each (\<lambda>n. deleteEntryRecursive (tree_server base) (joinSftpPath (abs_path segs) n) True) (map fst es) s =
      Some (Inr (), ?s)"
  proof (rule delete_children [OF _ DirNode.prems(1,2,4) dist DirNode.prems(5) plain])
    fix e and t :: "node live"
    assume e: "e \<in> set es" "\<not> lv_closed t" "lookup (segs @ [fst e]) (lv_world t) = Some (snd e)"
    have "well_named (snd e)" and "plain_segment (fst e)"
      using DirNode.prems(3) e(1) by (auto simp: list_all_iff)
    then show "deleteEntryRecursive (tree_server base) (abs_path (segs @ [fst e])) True t =
        Some (Inr (), t\<lparr>lv_world := store (segs @ [fst e]) None (lv_world t)\<rparr>)"
      using DirNode.IH [of e "snd e" t "segs @ [fst e]"] e DirNode.prems(5) by (cases e) (simp add: snds.simps)
  qed
  moreover have "sftp_rmdir (tree_server base) (abs_path segs) ?s =
      Some (Inr (), s\<lparr>lv_world := store segs None (lv_world s)\<rparr>)"
    using tree_rmdir_run [of ?s segs base] DirNode.prems lookup_store_here [OF DirNode.prems(2,4)]
      store_twice [OF DirNode.prems(2,4)] by simp
  ultimately show ?case
    using DirNode.prems tree_readdir_run [of s segs es base]
    by (subst deleteEntryRecursive.simps) (simp add: tree_lstat_run child_names_plain [OF plain])
qed (simp_all add: delete_leaf)

section \<open>Copying\<close>

text \<open>A tree of directories and files only.\<close>

fun link_free :: "node \<Rightarrow> bool" where
  "link_free (FileNode c) \<longleftrightarrow> True"
| "link_free (LinkNode l) \<longleftrightarrow> False"
| "link_free (DirNode es) \<longleftrightarrow> list_all (\<lambda>e. link_free (snd e)) es"

text \<open>The directory of a new entry.\<close>

definition free_entry :: "jstring list \<Rightarrow> node \<Rightarrow> bool" where
  "free_entry ys t \<longleftrightarrow> ys \<noteq> [] \<and> is_dir_at (butlast ys) t \<and> lookup ys t = None"

lemma free_entryE:
  assumes "free_entry ys t"
  obtains ps y es where "ys = ps @ [y]" and "lookup ps t = Some (DirNode es)" and "map_of es y = None"
proof -
  obtain ps y where ys: "ys = ps @ [y]" using assms by (cases ys rule: rev_cases) (auto simp: free_entry_def)
  moreover obtain es where es: "lookup ps t = Some (DirNode es)"
    using assms ys by (auto simp: free_entry_def is_dir_at_def split: option.splits node.splits)
  moreover have "map_of es y = None"
    using assms ys es by (auto simp: free_entry_def lookup_append split: option.splits)
  ultimately show thesis by (rule that)
qed

lemma copy_children:
  assumes "\<And>e s. e \<in> set es \<Longrightarrow> \<not> lv_closed s \<Longrightarrow> lookup (xs @ [fst e]) (lv_world s) = Some (snd e) \<Longrightarrow>
      free_entry (ys @ [fst e]) (lv_world s) \<Longrightarrow>
      copyEntryRecursive R (abs_path (xs @ [fst e])) (abs_path (ys @ [fst e])) s =
        Some (Inr (), s\<lparr>lv_world := store (ys @ [fst e]) (Some (snd e)) (lv_world s)\<rparr>)"
    and "\<not> lv_closed s" and "lookup xs (lv_world s) = Some (DirNode (done' @ es))"
    and "lookup ys (lv_world s) = Some (DirNode done')" and "ys \<noteq> []" and "xs \<parallel> ys"
    and "distinct (map fst (done' @ es))"
    and "list_all plain_segment xs" and "list_all plain_segment ys" and "list_all (\<lambda>e. plain_segment (fst e)) es"
  shows "for_each (\<lambda>n. copyEntryRecursive R (joinSftpPath (abs_path xs) n) (joinSftpPath (abs_path ys) n)) (map fst es) s =
    Some (Inr (), s\<lparr>lv_world := store ys (Some (DirNode (done' @ es))) (lv_world s)\<rparr>)"
  using assms
proof (induction es arbitrary: s done')
  case Nil
  then show ?case using store_same [of ys "lv_world s" "DirNode done'"] by simp
next
  case (Cons e es)
  let ?s = "s\<lparr>lv_world := store (ys @ [fst e]) (Some (snd e)) (lv_world s)\<rparr>"
  have new: "map_of done' (fst e) = None"
    using Cons.prems(7) by (auto simp: map_of_eq_None_iff)
  then have child: "map_of (done' @ e # es) (fst e) = Some (snd e)"
    by (cases e) (simp add: map_add_def)
  have run: "copyEntryRecursive R (abs_path (xs @ [fst e])) (abs_path (ys @ [fst e])) s = Some (Inr (), ?s)"
    using Cons.prems(1) [of e s] Cons.prems(2-5) new child
    by (simp add: lookup_append free_entry_def is_dir_at_def)
  have w: "store (ys @ [fst e]) (Some (snd e)) (lv_world s) = store ys (Some (DirNode (done' @ [e]))) (lv_world s)"
    using store_below [OF Cons.prems(4,5), of "fst e" "Some (snd e)"] map_set_new [OF new] by simp
  have here: "lookup ys (lv_world ?s) = Some (DirNode (done' @ [e]))"
    using lookup_store_here [OF Cons.prems(4,5)] w by simp
  have there: "lookup xs (lv_world ?s) = Some (DirNode ((done' @ [e]) @ es))"
    using lookup_store_parallel [OF Cons.prems(6)] Cons.prems(3) w by simp
  have "for_each (\<lambda>n. copyEntryRecursive R (joinSftpPath (abs_path xs) n) (joinSftpPath (abs_path ys) n)) (map fst es) ?s =
      Some (Inr (), ?s\<lparr>lv_world := store ys (Some (DirNode ((done' @ [e]) @ es))) (lv_world ?s)\<rparr>)"
    by (rule Cons.IH [OF _ _ there here Cons.prems(5,6)]) (use Cons.prems in simp_all)
  then show ?case
    using run w store_twice [OF Cons.prems(4,5)] Cons.prems by simp
qed

lemma copy_tree:
  assumes "\<not> lv_closed s" and "lookup xs (lv_world s) = Some n" and "well_named n" and "link_free n"
    and "free_entry ys (lv_world s)" and "\<not> prefix xs ys"
    and "list_all plain_segment xs" and "list_all plain_segment ys"
  shows "copyEntryRecursive (tree_server base) (abs_path xs) (abs_path ys) s =
    Some (Inr (), s\<lparr>lv_world := store ys (Some n) (lv_world s)\<rparr>)"
  using assms
proof (induction n arbitrary: s xs ys)
  case (FileNode c)
  obtain ps y es where y: "ys = ps @ [y]" "lookup ps (lv_world s) = Some (DirNode es)" "map_of es y = None"
    using FileNode.prems(5) by (rule free_entryE)
  then show ?case
    using FileNode.prems tree_copy_run [of s ps es y xs c base]
    by (subst copyEntryRecursive.simps) (simp add: tree_lstat_run)
next
  case (DirNode es)
  obtain ps y fs where y: "ys = ps @ [y]" "lookup ps (lv_world s) = Some (DirNode fs)" "map_of fs y = None"
    using DirNode.prems(5) by (rule free_entryE)
  let ?s = "s\<lparr>lv_world := store ys (Some (DirNode [])) (lv_world s)\<rparr>"
  have plain: "list_all (\<lambda>e. plain_segment (fst e)) es" and dist: "distinct (map fst es)"
    using DirNode.prems(3) by (auto simp: list_all_iff)
  have "\<not> prefix ys xs"
    using DirNode.prems(2,5) lookup_prefix_None [of ys "lv_world s" xs] by (auto simp: free_entry_def)
  then have par: "xs \<parallel> ys" using DirNode.prems(6) by blast
  have there: "lookup xs (lv_world ?s) = Some (DirNode es)"
    using lookup_store_parallel [OF par] DirNode.prems(2) by simp
  have here: "lookup ys (lv_world ?s) = Some (DirNode [])"
    using lookup_store_new [OF y(2)] y(1) by simp
  have "for_each (\<lambda>n. copyEntryRecursive (tree_server base) (joinSftpPath (abs_path xs) n) (joinSftpPath (abs_path ys) n))
      (map fst es) ?s = Some (Inr (), ?s\<lparr>lv_world := store ys (Some (DirNode ([] @ es))) (lv_world ?s)\<rparr>)"
  proof (rule copy_children [OF _ _ _ here _ par])
    fix e and t :: "node live"
    assume e: "e \<in> set es" "\<not> lv_closed t" "lookup (xs @ [fst e]) (lv_world t) = Some (snd e)"
      "free_entry (ys @ [fst e]) (lv_world t)"
    have "well_named (snd e)" and "link_free (snd e)" and "plain_segment (fst e)"
      using DirNode.prems(3,4) e(1) by (auto simp: list_all_iff)
    moreover have "\<not> prefix (xs @ [fst e]) (ys @ [fst e])"
      using par by (auto simp: prefix_snoc dest: append_prefixD)
    ultimately show "copyEntryRecursive (tree_server base) (abs_path (xs @ [fst e])) (abs_path (ys @ [fst e])) t =
        Some (Inr (), t\<lparr>lv_world := store (ys @ [fst e]) (Some (snd e)) (lv_world t)\<rparr>)"
      using DirNode.IH [of e "snd e" t "xs @ [fst e]" "ys @ [fst e]"] e DirNode.prems(7,8)
      by (cases e) (simp add: snds.simps)
  qed (use DirNode.prems there y dist plain in simp_all)
  moreover have "sftp_mkdir (tree_server base) (abs_path ys) m s = Some (Inr (), ?s)" for m
    using tree_mkdir_run [of s ps fs y base m] DirNode.prems y by simp
  moreover have "sftp_readdir (tree_server base) (abs_path xs) ?s =
      Some (Inr (map (\<lambda>e. (fst e, [], stats_of (snd e))) es), ?s)"
    using tree_readdir_run [of ?s xs es base] DirNode.prems there by simp
  ultimately show ?case
    using DirNode.prems y store_new_twice [OF y(2), of y "DirNode es" "DirNode []"]
    by (subst copyEntryRecursive.simps) (simp add: tree_lstat_run child_names_plain [OF plain])
qed simp

end
