(* ===== verification/SftpProofs.thy ===== *)
theory SftpProofs
  imports SftpFiles SftpListing
begin

text \<open>
  What every procedure of the SFTP service keeps.  \<open>obeys rel m\<close> says that a run of \<open>m\<close> leads from a
  state to a related one; a relation that contains the single updates of a session contains every
  operation, which the locale \<open>session_relation\<close> proves once.  \<open>safe p Q m\<close> follows errors: a failure of the guard leaves \<open>m\<close>
  only on a closed session, where \<open>p\<close> is an error that is being handled, and a value that \<open>m\<close> returns on
  an open session has the property \<open>Q\<close>.
\<close>

named_theorems obeys_intros \<open>the combinators and requests respect a relation of sessions\<close>
named_theorems safe_intros \<open>errors of the guard leave a procedure on a closed session only\<close>

section \<open>Relations that procedures respect\<close>

lemma other_handler_transfers [simp]:
  "other_handler others (s\<lparr>lv_world := w, lv_transfers := ts\<rparr>) = (other_handler others (s\<lparr>lv_world := w\<rparr>))\<lparr>lv_transfers := ts\<rparr>"
  "lv_transfers (other_handler others s) = lv_transfers s"
  by (cases others; simp)+

definition obeys :: "('s \<Rightarrow> 's \<Rightarrow> bool) \<Rightarrow> ('s, 'e, 'a) proc \<Rightarrow> bool" where
  "obeys rel m \<longleftrightarrow> (\<forall>s r s'. m s = Some (r, s') \<longrightarrow> rel s s')"

lemma obeysD: "obeys rel m \<Longrightarrow> m s = Some (r, s') \<Longrightarrow> rel s s'"
  by (auto simp: obeys_def)

lemma obeys_if [obeys_intros]:
  "obeys rel m \<Longrightarrow> obeys rel k \<Longrightarrow> obeys rel (if b then m else k)"
  by simp

lemma obeys_option [obeys_intros]:
  "obeys rel m \<Longrightarrow> (\<And>x. obeys rel (k x)) \<Longrightarrow> obeys rel (case x of None \<Rightarrow> m | Some x \<Rightarrow> k x)"
  by (cases x) simp_all

lemma obeys_sum [obeys_intros]:
  "(\<And>x. obeys rel (m x)) \<Longrightarrow> (\<And>x. obeys rel (k x)) \<Longrightarrow> obeys rel (case x of Inl x \<Rightarrow> m x | Inr x \<Rightarrow> k x)"
  by (cases x) simp_all

lemma obeys_prod [obeys_intros]:
  "(\<And>x y. obeys rel (m x y)) \<Longrightarrow> obeys rel (case x of (x, y) \<Rightarrow> m x y)"
  by (cases x) simp

lemma obeys_batch_operation [obeys_intros]:
  "obeys rel a \<Longrightarrow> obeys rel b \<Longrightarrow> obeys rel c \<Longrightarrow> obeys rel d \<Longrightarrow>
   obeys rel (case op of BatchCopy \<Rightarrow> a | BatchMove \<Rightarrow> b | BatchDelete \<Rightarrow> c | BatchLink \<Rightarrow> d)"
  by (cases op) simp_all

locale run_relation =
  fixes rel :: "'s \<Rightarrow> 's \<Rightarrow> bool"
  assumes rel_refl: "rel s s"
    and rel_trans: "rel s t \<Longrightarrow> rel t u \<Longrightarrow> rel s u"
begin

lemma obeys_return [obeys_intros]: "obeys rel (return_io x)"
  by (simp add: obeys_def return_io_def rel_refl)

lemma obeys_throw [obeys_intros]: "obeys rel (throw_io e)"
  by (simp add: obeys_def throw_io_def rel_refl)

lemma obeys_read [obeys_intros]: "obeys rel (read_io f)"
  by (simp add: obeys_def read_io_def rel_refl)

lemma obeys_bind [obeys_intros]:
  "obeys rel m \<Longrightarrow> (\<And>x. obeys rel (k x)) \<Longrightarrow> obeys rel (bind_io m k)"
  unfolding obeys_def bind_io_def
  by (auto split: option.splits prod.splits sum.splits intro: rel_trans) (blast intro: rel_trans)+

lemma obeys_catch [obeys_intros]:
  "obeys rel m \<Longrightarrow> (\<And>x. obeys rel (k x)) \<Longrightarrow> obeys rel (catch_io m k)"
  unfolding obeys_def catch_io_def
  by (auto split: option.splits prod.splits sum.splits intro: rel_trans) (blast intro: rel_trans)+

lemma obeys_then [obeys_intros]:
  "obeys rel m \<Longrightarrow> obeys rel k \<Longrightarrow> obeys rel (then_io m k)"
  unfolding then_io_def by (intro obeys_bind)

lemma obeys_for_each [obeys_intros]:
  "(\<And>x. obeys rel (f x)) \<Longrightarrow> obeys rel (for_each f xs)"
  by (induction xs) (simp_all add: obeys_return obeys_then)

end

locale session_relation = run_relation rel for rel :: "'w live \<Rightarrow> 'w live \<Rightarrow> bool" +
  assumes moved: "rel s (s\<lparr>lv_world := w\<rparr>)"
    and closing: "rel s (s\<lparr>lv_closed := True\<rparr>)"
    and destroying: "\<not> lv_closed s \<Longrightarrow> rel s (s\<lparr>lv_closed := True, lv_destroyed := lv_destroyed s + 1\<rparr>)"
    and logging: "rel s (s\<lparr>lv_audit := lv_audit s @ es\<rparr>)"
    and transferring: "rel s (s\<lparr>lv_transfers := handle_transfer e (lv_transfers s)\<rparr>)"
begin

lemma meanwhile: "rel s (other_handler others (s\<lparr>lv_world := w\<rparr>))"
proof (cases others)
  case Undisturbed
  then show ?thesis using moved by simp
next
  case SessionEvicted
  then show ?thesis using rel_trans [OF moved closing, of s w] by simp
next
  case TransportLost
  then show ?thesis
    using moved [of s w] destroying [of "s\<lparr>lv_world := w\<rparr>"] rel_trans by (cases "lv_closed s") auto
qed

lemma poisoning: "rel s (poisonUnusableSession s)"
  using destroying [of s] by (simp add: poisonUnusableSession_def rel_refl)

lemma settling: "rel s (snd (settle_reply R operation impact r s))"
  by (cases r) (simp_all add: settle_reply_def rel_refl closing poisoning Let_def)

lemma counting: "rel s (s\<lparr>lv_transfers := count_chunks i chunks (lv_transfers s)\<rparr>)"
proof (induction chunks arbitrary: s)
  case Nil
  then show ?case by (simp add: count_chunks_def rel_refl)
next
  case (Cons c chunks)
  obtain now n where c: "c = (now, n)" by (cases c)
  let ?t = "s\<lparr>lv_transfers := recordTransferredBytes now i n (lv_transfers s)\<rparr>"
  have "rel s ?t" using transferring [of s "(now, Bytes i n)"] by simp
  moreover have "rel ?t (?t\<lparr>lv_transfers := count_chunks i chunks (lv_transfers ?t)\<rparr>)" by (rule Cons.IH)
  ultimately show ?case using c by (simp add: count_chunks_def rel_trans)
qed

lemma obeys_request [obeys_intros]: "obeys rel (runSftpOperation R operation impact request)"
  unfolding obeys_def
proof (intro allI impI)
  fix s r s'
  assume run: "runSftpOperation R operation impact request s = Some (r, s')"
  show "rel s s'"
  proof (cases "lv_closed s")
    case False
    obtain x c w where "request (lv_world s) = (x, c, w)" by (cases "request (lv_world s)")
    then have "s' = snd (settle_reply R operation impact x (other_handler c (s\<lparr>lv_world := w\<rparr>)))"
      using run False by (simp add: runSftpOperation_def)
    then show ?thesis using rel_trans [OF meanwhile settling] by simp
  qed (use run rel_refl in \<open>simp add: runSftpOperation_def\<close>)
qed

lemma obeys_stream [obeys_intros]: "obeys rel (run_stream R operation impact i request)"
  unfolding obeys_def
proof (intro allI impI)
  fix s r s'
  assume run: "run_stream R operation impact i request s = Some (r, s')"
  show "rel s s'"
  proof (cases "lv_closed s")
    case False
    obtain chunks opened x c w where req: "request (lv_world s) = (chunks, opened, x, c, w)" by (cases "request (lv_world s)")
    let ?t = "other_handler c (s\<lparr>lv_world := w\<rparr>)"
    let ?u = "?t\<lparr>lv_transfers := count_chunks i chunks (lv_transfers ?t)\<rparr>"
    have "s' = snd (settle_reply R operation impact x ?u)"
      using run False req by (auto simp: run_stream_def other_handler_transfers split: prod.splits)
    then show ?thesis
      using rel_trans [OF rel_trans [OF meanwhile counting] settling] by simp
  qed (use run rel_refl in \<open>simp add: run_stream_def\<close>)
qed

lemma obeys_local [obeys_intros]: "obeys rel (run_local request)"
  by (auto simp: obeys_def run_local_def meanwhile split: prod.splits)

lemma obeys_stamp [obeys_intros]: "obeys rel (stamp R)"
  by (auto simp: obeys_def stamp_def moved split: prod.splits)

lemma obeys_log [obeys_intros]: "obeys rel (logSftpMutation a p q)"
  by (simp add: obeys_def logSftpMutation_def modify_io_def logging)

lemma obeys_transfer [obeys_intros]:
  "obeys rel (on_transfers R (\<lambda>now. beginTransfer now i d n))"
  "obeys rel (on_transfers R (\<lambda>now. completeTransfer now i))"
  "obeys rel (on_transfers R (\<lambda>now. failTransfer now i m))"
  using transferring [of _ "(_, Begin i d n)"] transferring [of _ "(_, Complete i)"] transferring [of _ "(_, Fail i m)"]
  by (simp_all add: obeys_def on_transfers_def modify_io_def)

lemma obeys_transport [obeys_intros]:
  "obeys rel (resolveRealPath R p)" "obeys rel (sftp_pathExists R p)"
  "obeys rel (sftp_readdir R p)" "obeys rel (sftp_readlink R p)" "obeys rel (sftp_symlink R q p)"
  "obeys rel (sftp_stat R p)" "obeys rel (sftp_lstat R p)" "obeys rel (sftp_open R p)"
  "obeys rel (sftp_closeHandle R h)" "obeys rel (sftp_read R h n k)" "obeys rel (sftp_writeFile R p c m)"
  "obeys rel (sftp_mkdir R p m)" "obeys rel (sftp_unlink R p)" "obeys rel (sftp_rmdir R p)"
  "obeys rel (sftp_rename R p q)" "obeys rel (sftp_copyFile R p q st)"
  unfolding resolveRealPath_def sftp_pathExists_def sftp_readdir_def sftp_readlink_def sftp_symlink_def sftp_stat_def
    sftp_lstat_def sftp_open_def sftp_closeHandle_def sftp_read_def sftp_writeFile_def sftp_mkdir_def
    sftp_unlink_def sftp_rmdir_def sftp_rename_def sftp_copyFile_def
  by (intro obeys_intros)+

lemma obeys_first_free [obeys_intros]: "obeys rel (first_free R p ns)"
  by (induction ns) (simp_all, (intro obeys_intros; assumption)+)

lemma obeys_copy [obeys_intros]: "obeys rel (copyEntryRecursive R p q)"
  unfolding obeys_def
proof (intro allI impI)
  fix s r s'
  assume run: "copyEntryRecursive R p q s = Some (r, s')"
  have "rel s (snd (r, s'))"
  proof (rule copyEntryRecursive.raw_induct [where P = "\<lambda>R p q s y. rel s (snd y)", OF _ run])
    fix f :: "'w server \<Rightarrow> jstring \<Rightarrow> jstring \<Rightarrow> ('w, unit) sftp_proc" and R p q s y
    assume IH: "\<And>R p q s y. f R p q s = Some y \<Longrightarrow> rel s (snd y)"
    have f: "obeys rel (f R p q)" for R p q
      unfolding obeys_def using IH by fastforce
    assume body: "bind_io (sftp_lstat R p) (\<lambda>st.
       if entryType (fs_mode st) = DirectoryEntry then
         then_io (sftp_mkdir R q (fs_mode st AND 511))
         (bind_io (sftp_readdir R p) (\<lambda>children.
            for_each (\<lambda>n. f R (joinSftpPath p n) (joinSftpPath q n)) (child_names children)))
       else if entryType (fs_mode st) = FileEntry then sftp_copyFile R p q st
       else throw_io (plain_failure R ''errors.sftp.entryCopyUnsupported'')) s = Some y"
    then show "rel s (snd y)"
      by (cases y) (simp only: snd_conv, erule obeysD [rotated], intro obeys_intros f)
  qed
  then show "rel s s'" by simp
qed


lemma obeys_delete [obeys_intros]: "obeys rel (deleteEntryRecursive R p rec)"
  unfolding obeys_def
proof (intro allI impI)
  fix s r s'
  assume run: "deleteEntryRecursive R p rec s = Some (r, s')"
  have "rel s (snd (r, s'))"
  proof (rule deleteEntryRecursive.raw_induct [where P = "\<lambda>R p rec s y. rel s (snd y)", OF _ run])
    fix f :: "'w server \<Rightarrow> jstring \<Rightarrow> bool \<Rightarrow> ('w, unit) sftp_proc" and R p rec s y
    assume IH: "\<And>R p rec s y. f R p rec s = Some y \<Longrightarrow> rel s (snd y)"
    have f: "obeys rel (f R p rec)" for R p rec
      unfolding obeys_def using IH by fastforce
    assume body: "bind_io (sftp_lstat R p) (\<lambda>st.
       if entryType (fs_mode st) \<noteq> DirectoryEntry then sftp_unlink R p
       else if \<not> rec then sftp_rmdir R p
       else bind_io (sftp_readdir R p) (\<lambda>entries.
         then_io (for_each (\<lambda>n. f R (joinSftpPath p n) True) (child_names entries))
         (sftp_rmdir R p))) s = Some y"
    then show "rel s (snd y)"
      by (cases y) (simp only: snd_conv, erule obeysD [rotated], intro obeys_intros f)
  qed
  then show "rel s s'" by simp
qed


lemmas obeys_defs = with_open_def attempt_def refuse_def Let_def

lemma obeys_primitives [obeys_intros]:
  "obeys rel (createFilePrimitive R a)" "obeys rel (createDirectoryPrimitive R a)"
  "obeys rel (renameEntryPrimitive R a b)" "obeys rel (copyEntryPrimitive R a b)"
  "obeys rel (linkEntryPrimitive R a b)" "obeys rel (deleteEntryPrimitive R a rec)"
  unfolding createFilePrimitive_def createDirectoryPrimitive_def renameEntryPrimitive_def copyEntryPrimitive_def
    linkEntryPrimitive_def deleteEntryPrimitive_def resolveAvailableCopyPath_def obeys_defs
  by (intro obeys_intros)+

lemma obeys_entry [obeys_intros]: "obeys rel (runSingleBatchEntryOperation R op e d)"
  unfolding runSingleBatchEntryOperation_def Let_def by (intro obeys_intros)

lemma obeys_entries [obeys_intros]: "obeys rel (run_entries R op d items es)"
  by (induction es arbitrary: items) (simp_all, (intro obeys_intros; assumption)+)

lemma obeys_batch [obeys_intros]: "obeys rel (runBatchOperationPrimitive R op es d)"
  unfolding runBatchOperationPrimitive_def obeys_defs by (intro obeys_intros)

lemma obeys_fully [obeys_intros]: "obeys rel (readFullyIntoBuffer R h n got)"
proof (induction R h n got rule: readFullyIntoBuffer.induct)
  case (1 R h n got)
  have "obeys rel (readFullyIntoBuffer R h n (got @ data))" if "length got < n" and "data \<noteq> []" for data
    using 1 that by blast
  then show ?case
    by (subst readFullyIntoBuffer.simps, cases "length got < n") (auto intro!: obeys_bind obeys_transport obeys_return)
qed

lemma obeys_replace [obeys_intros]:
  "obeys rel (replaceRemoteFileFromTemp R p q sn)" "obeys rel (unlinkRemoteTempFile R p)"
  unfolding replaceRemoteFileFromTemp_def tryOpenSshPosixRename_def assertRemoteSnapshotStillMatches_def
    unlinkRemoteTempFile_def
  by (intro obeys_intros)+

lemma obeys_file_steps [obeys_intros]:
  "obeys rel (temporary_path R p)" "obeys rel (writeBufferToRemotePath R c p m sn)" "obeys rel (written R p)"
  "obeys rel (stat_target R p)" "obeys rel (resolveExistingUploadLocalPath R p)"
  "obeys rel (send_upload R l p target sn ov i)" "obeys rel (upload_failed R i e)"
  "obeys rel (downloadFileToLocalPath R p l i)" "obeys rel (download_failed R i e)"
  unfolding temporary_path_def writeBufferToRemotePath_def written_def stat_target_def
    resolveExistingUploadLocalPath_def send_upload_def uploadLocalFileToRemotePath_def
    createRemoteFileFromLocalPath_def upload_failed_def downloadFileToLocalPath_def download_failed_def Let_def
  by (intro obeys_intros)+

lemma obeys_files [obeys_intros]:
  "obeys rel (readFilePreviewPrimitive R a n)" "obeys rel (writeTextFilePrimitive R a c sn ov)"
  "obeys rel (uploadFilePrimitive R a l sn' ov i)" "obeys rel (downloadFilePrimitive R a l i)"
  unfolding readFilePreviewPrimitive_def writeTextFilePrimitive_def uploadFilePrimitive_def
    downloadFilePrimitive_def finally_quietly_def with_source_def obeys_defs
  by (intro obeys_intros)+

lemma obeys_link [obeys_intros]: "obeys rel (link_target R p st)"
  unfolding link_target_def resolveSymlinkTargetMetadata_def Let_def by (intro obeys_intros)

lemma obeys_listed [obeys_intros]: "obeys rel (listed_entries R d es)"
  by (induction es) (simp_all add: Let_def, (intro obeys_intros; assumption)+)

lemma obeys_details [obeys_intros]: "obeys rel (getSingleEntryDetails R p)" "obeys rel (details_of R ps)"
proof -
  show single: "obeys rel (getSingleEntryDetails R p)" for p
    unfolding getSingleEntryDetails_def by (intro obeys_intros)
  show "obeys rel (details_of R ps)"
    by (induction ps) (simp_all add: Let_def obeys_return obeys_bind single)
qed

lemma obeys_listings [obeys_intros]: "obeys rel (listDirectoryPrimitive R a)" "obeys rel (getEntryDetailsPrimitive R ps)"
  unfolding listDirectoryPrimitive_def getEntryDetailsPrimitive_def obeys_defs by (intro obeys_intros)+

end

section \<open>Where errors of the guard go\<close>

definition guard_closed :: "sftp_error option \<Rightarrow> 'w live \<Rightarrow> bool" where
  "guard_closed p s \<longleftrightarrow> (case p of Some (GuardFailure f) \<Rightarrow> lv_closed s | _ \<Rightarrow> True)"

definition safe :: "sftp_error option \<Rightarrow> ('a \<Rightarrow> bool) \<Rightarrow> ('w, 'a) sftp_proc \<Rightarrow> bool" where
  "safe p Q m \<longleftrightarrow> (\<forall>s r s'. guard_closed p s \<longrightarrow> m s = Some (r, s') \<longrightarrow>
     (lv_closed s \<longrightarrow> lv_closed s') \<and>
     (case r of Inl e \<Rightarrow> guard_closed (Some e) s' | Inr x \<Rightarrow> lv_closed s' \<or> Q x))"

lemma safeD:
  assumes "safe p Q m" and "guard_closed p s" and "m s = Some (r, s')"
  shows "lv_closed s \<Longrightarrow> lv_closed s'" and "r = Inl e \<Longrightarrow> guard_closed (Some e) s'"
    and "r = Inr x \<Longrightarrow> lv_closed s' \<or> Q x"
  using assms unfolding safe_def by force+

lemma guard_closed_mono: "guard_closed p s \<Longrightarrow> (lv_closed s \<Longrightarrow> lv_closed s') \<Longrightarrow> guard_closed p s'"
  by (auto simp: guard_closed_def split: option.splits guard_error.splits)

lemma guard_closed_simps [simp]:
  "guard_closed None s" "guard_closed (Some (Thrown t)) s" "guard_closed (Some (GuardFailure f)) s \<longleftrightarrow> lv_closed s"
  by (simp_all add: guard_closed_def)

lemma bind_SomeE:
  assumes "bind_io m k s = Some (r, s')"
  obtains e where "m s = Some (Inl e, s')" and "r = Inl e"
  | x t where "m s = Some (Inr x, t)" and "k x t = Some (r, s')"
  using assms by (auto simp: bind_io_def split: option.splits prod.splits sum.splits)

lemma safe_return: "(\<And>t. p \<noteq> None \<Longrightarrow> p = Some (Thrown t) \<Longrightarrow> Q x) \<Longrightarrow> (p = None \<Longrightarrow> Q x) \<Longrightarrow> safe p Q (return_io x)"
  by (cases p) (auto simp: safe_def return_io_def guard_closed_def split: guard_error.splits)

lemma safe_return_any [safe_intros]: "safe p (\<lambda>_. True) (return_io x)"
  by (simp add: safe_return)

lemma safe_rethrow [safe_intros]: "safe (Some e) Q (throw_io e)"
  by (simp add: safe_def throw_io_def)

lemma safe_throw [safe_intros]: "safe p Q (throw_io (Thrown t))"
  by (simp add: safe_def throw_io_def)

lemma safe_read [safe_intros]: "safe p (\<lambda>_. True) (read_io f)"
  by (simp add: safe_def read_io_def)

lemma safe_modify: "(\<And>s. lv_closed (f s) = lv_closed s) \<Longrightarrow> safe p (\<lambda>_. True) (modify_io f)"
  by (simp add: safe_def modify_io_def)

lemma safe_bind [safe_intros]:
  assumes "safe p (\<lambda>_. True) m" and "\<And>x. safe p Q (k x)"
  shows "safe p Q (bind_io m k)"
  unfolding safe_def
proof (intro allI impI)
  fix s r s'
  assume p: "guard_closed p s" and run: "bind_io m k s = Some (r, s')"
  from run show "(lv_closed s \<longrightarrow> lv_closed s') \<and> (case r of Inl e \<Rightarrow> guard_closed (Some e) s' | Inr x \<Rightarrow> lv_closed s' \<or> Q x)"
  proof (cases rule: bind_SomeE)
    case (1 e)
    then show ?thesis using safeD [OF assms(1) p] by auto
  next
    case (2 x t)
    have t: "lv_closed s \<longrightarrow> lv_closed t" using safeD(1) [OF assms(1) p 2(1)] by blast
    then have "guard_closed p t" using guard_closed_mono [OF p] by blast
    then show ?thesis using assms(2) [of x] 2(2) t unfolding safe_def by blast
  qed
qed

lemma safe_then [safe_intros]: "safe p (\<lambda>_. True) m \<Longrightarrow> safe p Q k \<Longrightarrow> safe p Q (then_io m k)"
  unfolding then_io_def by (rule safe_bind)

text \<open>A handler runs while its error is pending.\<close>
lemma safe_catch [safe_intros]:
  assumes "safe p Q m" and "\<And>e. safe (Some e) Q (h e)"
  shows "safe p Q (catch_io m h)"
  unfolding safe_def
proof (intro allI impI)
  fix s r s'
  assume p: "guard_closed p s" and run: "catch_io m h s = Some (r, s')"
  show "(lv_closed s \<longrightarrow> lv_closed s') \<and> (case r of Inl e \<Rightarrow> guard_closed (Some e) s' | Inr x \<Rightarrow> lv_closed s' \<or> Q x)"
  proof (cases "m s")
    case (Some y)
    obtain a t where y: "y = (a, t)" by (cases y)
    note m = safeD [OF assms(1) p Some [unfolded y]]
    show ?thesis
    proof (cases a)
      case (Inl e)
      then have "h e t = Some (r, s')" using run Some y by (simp add: catch_io_def)
      then show ?thesis using assms(2) [of e] m(1) m(2) [OF Inl] unfolding safe_def by blast
    next
      case (Inr x)
      then have "r = Inr x" and "s' = t" using run Some y by (simp_all add: catch_io_def)
      then show ?thesis using m(1) m(3) [OF Inr] by auto
    qed
  qed (use run in \<open>simp add: catch_io_def\<close>)
qed

lemma safe_if [safe_intros]: "(b \<Longrightarrow> safe p Q m) \<Longrightarrow> (\<not> b \<Longrightarrow> safe p Q k) \<Longrightarrow> safe p Q (if b then m else k)"
  by simp

lemma safe_option [safe_intros]:
  "safe p Q m \<Longrightarrow> (\<And>x. safe p Q (k x)) \<Longrightarrow> safe p Q (case x of None \<Rightarrow> m | Some x \<Rightarrow> k x)"
  by (cases x) simp_all

lemma safe_prod [safe_intros]:
  "(\<And>x y. safe p Q (m x y)) \<Longrightarrow> safe p Q (case x of (x, y) \<Rightarrow> m x y)"
  by (cases x) simp

lemma safe_for_each [safe_intros]: "(\<And>x. safe p (\<lambda>_. True) (f x)) \<Longrightarrow> safe p (\<lambda>_. True) (for_each f xs)"
  by (induction xs) (simp_all add: safe_return_any safe_then)

lemma settle_reply_closed:
  assumes "settle_reply R operation impact r s = (x, s')"
  shows "(lv_closed s \<longrightarrow> lv_closed s') \<and> (\<forall>e. x = Inl e \<longrightarrow> guard_closed (Some e) s')"
  using assms
  by (cases r) (auto simp: settle_reply_def transport_failure_def timeout_error_def poisonUnusableSession_def Let_def
      split: if_splits)

lemma other_handler_closed: "lv_closed s \<Longrightarrow> lv_closed (other_handler others s)"
  by (cases others) simp_all

lemma safe_request [safe_intros]: "safe p (\<lambda>_. True) (runSftpOperation R operation impact request)"
  unfolding safe_def runSftpOperation_def
  using settle_reply_closed [of R operation impact]
  by (auto simp: transport_failure_def split: prod.splits if_splits sum.splits) blast+

lemma safe_local [safe_intros]: "safe p (\<lambda>_. True) (run_local request)"
  by (auto simp: safe_def run_local_def other_handler_closed split: prod.splits sum.splits)

lemma safe_stamp [safe_intros]: "safe p (\<lambda>_. True) (stamp R)"
  by (auto simp: safe_def stamp_def split: prod.splits)

lemma safe_log [safe_intros]: "safe p (\<lambda>_. True) (logSftpMutation a b c)"
  unfolding logSftpMutation_def by (rule safe_modify) simp

lemma safe_transfers [safe_intros]: "safe p (\<lambda>_. True) (on_transfers R f)"
  unfolding on_transfers_def by (rule safe_modify) simp

interpretation closing: session_relation "\<lambda>s t. lv_closed s \<longrightarrow> lv_closed t"
  by unfold_locales auto

lemma safe_bind_value:
  assumes "safe p Q' m" and "\<And>x. Q' x \<Longrightarrow> safe p Q (k x)" and "\<And>x. obeys (\<lambda>s t. lv_closed s \<longrightarrow> lv_closed t) (k x)"
  shows "safe p Q (bind_io m k)"
  unfolding safe_def
proof (intro allI impI)
  fix s r s'
  assume p: "guard_closed p s" and run: "bind_io m k s = Some (r, s')"
  from run show "(lv_closed s \<longrightarrow> lv_closed s') \<and> (case r of Inl e \<Rightarrow> guard_closed (Some e) s' | Inr x \<Rightarrow> lv_closed s' \<or> Q x)"
  proof (cases rule: bind_SomeE)
    case (1 e)
    then show ?thesis using safeD [OF assms(1) p] by auto
  next
    case (2 x t)
    note m = safeD [OF assms(1) p 2(1)]
    show ?thesis
    proof (cases "lv_closed t")
      case True
      then have "lv_closed s'" using obeysD [OF assms(3) 2(2)] by blast
      then show ?thesis by (auto simp: guard_closed_def split: sum.split guard_error.split)
    next
      case False
      then have "safe p Q (k x)" using m(3) assms(2) by blast
      moreover have "guard_closed p t" using guard_closed_mono [OF p] m(1) by blast
      ultimately show ?thesis using 2(2) m(1) unfolding safe_def by blast
    qed
  qed
qed

lemma safe_transport [safe_intros]:
  "safe p (\<lambda>_. True) (resolveRealPath R a)" "safe p (\<lambda>_. True) (sftp_pathExists R a)"
  "safe p (\<lambda>_. True) (sftp_readdir R a)" "safe p (\<lambda>_. True) (sftp_readlink R a)"
  "safe p (\<lambda>_. True) (sftp_symlink R b a)" "safe p (\<lambda>_. True) (sftp_stat R a)"
  "safe p (\<lambda>_. True) (sftp_lstat R a)" "safe p (\<lambda>_. True) (sftp_open R a)"
  "safe p (\<lambda>_. True) (sftp_closeHandle R h)" "safe p (\<lambda>_. True) (sftp_read R h n k)"
  "safe p (\<lambda>_. True) (sftp_writeFile R a c m)" "safe p (\<lambda>_. True) (sftp_mkdir R a m)"
  "safe p (\<lambda>_. True) (sftp_unlink R a)" "safe p (\<lambda>_. True) (sftp_rmdir R a)"
  "safe p (\<lambda>_. True) (sftp_rename R a b)" "safe p (\<lambda>_. True) (sftp_copyFile R a b st)"
  unfolding resolveRealPath_def sftp_pathExists_def sftp_readdir_def sftp_readlink_def sftp_symlink_def sftp_stat_def
    sftp_lstat_def sftp_open_def sftp_closeHandle_def sftp_read_def sftp_writeFile_def sftp_mkdir_def
    sftp_unlink_def sftp_rmdir_def sftp_rename_def sftp_copyFile_def
  by (intro safe_intros)+

lemma safe_first_free [safe_intros]: "safe p (\<lambda>_. True) (first_free R a ns)"
  by (induction ns) (simp_all add: plain_failure_def, (intro safe_intros; assumption)+)

text \<open>The recursions, by their induction rule.\<close>

definition kept :: "sftp_error option \<Rightarrow> 'w live \<Rightarrow> (sftp_error + 'a) \<times> 'w live \<Rightarrow> bool" where
  "kept p s y \<longleftrightarrow> (guard_closed p s \<longrightarrow> (lv_closed s \<longrightarrow> lv_closed (snd y)) \<and>
     (case fst y of Inl e \<Rightarrow> guard_closed (Some e) (snd y) | Inr x \<Rightarrow> True))"

lemma safe_kept: "safe p (\<lambda>_. True) m \<longleftrightarrow> (\<forall>s y. m s = Some y \<longrightarrow> kept p s y)"
  by (auto simp: safe_def kept_def split: sum.splits)

lemma safe_copy [safe_intros]: "safe p (\<lambda>_. True) (copyEntryRecursive R a b)"
  unfolding safe_kept
proof (intro allI impI)
  fix s y
  assume "copyEntryRecursive R a b s = Some y"
  then show "kept p s y"
  proof (rule copyEntryRecursive.raw_induct [where P = "\<lambda>R a b s y. kept p s y", rotated])
    fix f :: "'w server \<Rightarrow> jstring \<Rightarrow> jstring \<Rightarrow> ('w, unit) sftp_proc" and R a b s y
    assume IH: "\<And>R a b s y. f R a b s = Some y \<Longrightarrow> kept p s y"
    have f: "safe p (\<lambda>_. True) (f R a b)" for R a b
      unfolding safe_kept using IH by blast
    have "safe p (\<lambda>_. True) (bind_io (sftp_lstat R a) (\<lambda>st.
       if entryType (fs_mode st) = DirectoryEntry then
         then_io (sftp_mkdir R b (fs_mode st AND 511))
         (bind_io (sftp_readdir R a) (\<lambda>children.
            for_each (\<lambda>n. f R (joinSftpPath a n) (joinSftpPath b n)) (child_names children)))
       else if entryType (fs_mode st) = FileEntry then sftp_copyFile R a b st
       else throw_io (plain_failure R ''errors.sftp.entryCopyUnsupported'')))"
      unfolding plain_failure_def by (intro safe_intros f)
    then show "bind_io (sftp_lstat R a) (\<lambda>st.
       if entryType (fs_mode st) = DirectoryEntry then
         then_io (sftp_mkdir R b (fs_mode st AND 511))
         (bind_io (sftp_readdir R a) (\<lambda>children.
            for_each (\<lambda>n. f R (joinSftpPath a n) (joinSftpPath b n)) (child_names children)))
       else if entryType (fs_mode st) = FileEntry then sftp_copyFile R a b st
       else throw_io (plain_failure R ''errors.sftp.entryCopyUnsupported'')) s = Some y \<Longrightarrow> kept p s y"
      unfolding safe_kept by blast
  qed
qed

lemma safe_delete [safe_intros]: "safe p (\<lambda>_. True) (deleteEntryRecursive R a r)"
  unfolding safe_kept
proof (intro allI impI)
  fix s y
  assume "deleteEntryRecursive R a r s = Some y"
  then show "kept p s y"
  proof (rule deleteEntryRecursive.raw_induct [where P = "\<lambda>R a r s y. kept p s y", rotated])
    fix f :: "'w server \<Rightarrow> jstring \<Rightarrow> bool \<Rightarrow> ('w, unit) sftp_proc" and R a r s y
    assume IH: "\<And>R a r s y. f R a r s = Some y \<Longrightarrow> kept p s y"
    have f: "safe p (\<lambda>_. True) (f R a r)" for R a r
      unfolding safe_kept using IH by blast
    have "safe p (\<lambda>_. True) (bind_io (sftp_lstat R a) (\<lambda>st.
       if entryType (fs_mode st) \<noteq> DirectoryEntry then sftp_unlink R a
       else if \<not> r then sftp_rmdir R a
       else bind_io (sftp_readdir R a) (\<lambda>entries.
         then_io (for_each (\<lambda>n. f R (joinSftpPath a n) True) (child_names entries))
         (sftp_rmdir R a))))"
      by (intro safe_intros f)
    then show "bind_io (sftp_lstat R a) (\<lambda>st.
       if entryType (fs_mode st) \<noteq> DirectoryEntry then sftp_unlink R a
       else if \<not> r then sftp_rmdir R a
       else bind_io (sftp_readdir R a) (\<lambda>entries.
         then_io (for_each (\<lambda>n. f R (joinSftpPath a n) True) (child_names entries))
         (sftp_rmdir R a))) s = Some y \<Longrightarrow> kept p s y"
      unfolding safe_kept by blast
  qed
qed

section \<open>Results without metadata\<close>

text \<open>A result of an operation that reports no failure of the guard.\<close>

fun meta_free :: "sftp_result \<Rightarrow> bool" where
  "meta_free (FailedResult message conflict (Some md)) = False"
| "meta_free _ = True"

lemma safe_result [safe_intros]: "meta_free r \<Longrightarrow> safe p meta_free (return_io r)"
  by (rule safe_return)

lemma safe_with_open [safe_intros]: "safe p Q m \<Longrightarrow> Q r \<Longrightarrow> safe p Q (with_open r m)"
  unfolding with_open_def by (intro safe_intros) (simp_all add: safe_return)

lemma safe_refuse [safe_intros]: "safe p meta_free (refuse R key)"
  by (simp add: refuse_def safe_result)

lemma safe_failed: "safe (Some e) meta_free (return_io (failed_result R key e))"
  by (rule safe_return) (auto simp: failed_result_def)

lemma safe_attempt [safe_intros]: "safe p meta_free m \<Longrightarrow> safe p meta_free (attempt R key m)"
  unfolding attempt_def by (intro safe_catch safe_failed)

lemma safe_primitives [safe_intros]:
  "safe p meta_free (createFilePrimitive R a)" "safe p meta_free (createDirectoryPrimitive R a)"
  "safe p meta_free (renameEntryPrimitive R a b)" "safe p meta_free (copyEntryPrimitive R a b)"
  "safe p meta_free (linkEntryPrimitive R a b)" "safe p meta_free (deleteEntryPrimitive R a r)"
  unfolding createFilePrimitive_def createDirectoryPrimitive_def renameEntryPrimitive_def copyEntryPrimitive_def
    linkEntryPrimitive_def deleteEntryPrimitive_def resolveAvailableCopyPath_def plain_failure_def Let_def
  by (intro safe_intros; simp)+

lemma safe_entry [safe_intros]: "safe p meta_free (runSingleBatchEntryOperation R op e d)"
  unfolding runSingleBatchEntryOperation_def Let_def by (cases op) (simp_all add: safe_primitives)

definition items_free :: "batch_item list \<Rightarrow> bool" where
  "items_free items \<longleftrightarrow> list_all (\<lambda>i. bi_metadata i = None) items"

lemma item_of_free: "meta_free r \<Longrightarrow> bi_metadata (item_of R e r) = None"
  by (cases r rule: meta_free.cases) (simp_all add: item_of_def)

lemma items_free_simps [simp]:
  "items_free []" "items_free (xs @ ys) \<longleftrightarrow> items_free xs \<and> items_free ys"
  "items_free (i # xs) \<longleftrightarrow> bi_metadata i = None \<and> items_free xs" "items_free (map (skipped_item R) es)"
  by (auto simp: items_free_def skipped_item_def list_all_iff)

lemma safe_entries: "items_free items \<Longrightarrow> safe p (\<lambda>(items, stopped). items_free items) (run_entries R op d items es)"
proof (induction es arbitrary: items)
  case Nil
  then show ?case by (simp add: safe_return)
next
  case (Cons e es)
  show ?case
    unfolding run_entries.simps
  proof (rule safe_bind_value [OF safe_entry])
    fix r
    assume "meta_free r"
    then show "safe p (\<lambda>(items, stopped). items_free items)
        (if succeeded r then run_entries R op d (items @ [item_of R e r]) es
         else return_io (items @ item_of R e r # map (skipped_item R) es, True))"
      using Cons by (auto simp: item_of_free intro!: safe_return)
  qed (intro closing.obeys_entries closing.obeys_return obeys_if)
qed

fun batch_free :: "batch_result \<Rightarrow> bool" where
  "batch_free (BatchDone b) = items_free (bs_results b)"
| "batch_free _ = True"

lemma safe_batch: "safe p batch_free (runBatchOperationPrimitive R op es d)"
  unfolding runBatchOperationPrimitive_def Let_def
proof (intro safe_with_open safe_if)
  show "safe p batch_free (bind_io (run_entries R op (normalized_directory d) [] (normalized_entries es)) (\<lambda>(results, stopped).
     return_io (BatchDone \<lparr>bs_operation = op, bs_totalCount = length (normalized_entries es),
       bs_completedCount = count_status ItemSuccess results, bs_failedCount = count_status ItemFailed results,
       bs_skippedCount = count_status ItemSkipped results, bs_stoppedOnFailure = stopped, bs_results = results\<rparr>)))"
    by (rule safe_bind_value [OF safe_entries])
      (auto intro!: safe_return closing.obeys_return split: prod.splits)
qed (simp_all add: safe_return)

section \<open>File operations\<close>

definition no_guard :: "sftp_error option \<Rightarrow> bool" where
  "no_guard x \<longleftrightarrow> (\<forall>f. x \<noteq> Some (GuardFailure f))"

lemma safe_stream: "safe p (\<lambda>(failed, opened). no_guard failed) (run_stream R operation impact i request)"
  unfolding safe_def
proof (intro allI impI)
  fix s r s'
  assume run: "run_stream R operation impact i request s = Some (r, s')"
  show "(lv_closed s \<longrightarrow> lv_closed s') \<and> (case r of Inl e \<Rightarrow> guard_closed (Some e) s'
    | Inr x \<Rightarrow> lv_closed s' \<or> (case x of (failed, opened) \<Rightarrow> no_guard failed))"
  proof (cases "lv_closed s")
    case False
    obtain chunks opened x c w where req: "request (lv_world s) = (chunks, opened, x, c, w)" by (cases "request (lv_world s)")
    obtain y t where y: "settle_reply R operation impact x (other_handler c (s\<lparr>lv_world := w,
        lv_transfers := count_chunks i chunks (lv_transfers s)\<rparr>)) = (y, t)" by fastforce
    have "s' = t" and "r = Inr (case y of Inl e \<Rightarrow> Some e | Inr _ \<Rightarrow> None, opened)"
      using run False req y by (auto simp: run_stream_def)
    then show ?thesis
      using settle_reply_closed [OF y] False
      by (cases y) (auto simp: no_guard_def guard_closed_def split: guard_error.splits)
  qed (use run in \<open>auto simp: run_stream_def\<close>)
qed

lemma safe_pass_on: "no_guard (Some e) \<Longrightarrow> safe p Q (throw_io e)"
  by (cases e) (simp_all add: no_guard_def safe_throw)

lemma trim_not_failure: "hd s = 115 \<Longrightarrow> s \<noteq> [] \<Longrightarrow> trim s \<noteq> js ''failure''"
proof
  assume s: "hd s = 115" "s \<noteq> []" and eq: "trim s = js ''failure''"
  then obtain t where t: "s = 115 # t" by (cases s) auto
  then have "trim_start s = s" by (simp add: trim_start_def is_space_def)
  then have "prefix (js ''failure'') s" using eq trim_end_prefix [of s] by (simp add: trim_def)
  then show False by (simp add: t js_simps)
qed

text \<open>The general failure of a server is never a failure of the guard.\<close>
lemma generic_thrown: "isGenericSftpFailureError num e \<Longrightarrow> \<exists>t. e = Thrown t"
proof (cases e)
  case (GuardFailure f)
  have "readSftpErrorMessage num e \<noteq> [] \<and> hd (readSftpErrorMessage num e) = 115"
    by (cases "of_code f") (simp_all add: GuardFailure readSftpErrorMessage_def code_text_def lower_case_def lower_unit_def js_simps)
  moreover have "own_code e \<notin> {JNum (Num 4), JStr (js ''4''), JStr (js ''FAILURE'')}"
    by (cases "of_code f") (simp_all add: GuardFailure code_text_def)
  moreover assume "isGenericSftpFailureError num e"
  ultimately show ?thesis
    using trim_not_failure [of "readSftpErrorMessage num e"] by (simp add: isGenericSftpFailureError_def)
qed simp

lemma safe_replace [safe_intros]:
  "safe p (\<lambda>_. True) (replaceRemoteFileFromTemp R a b sn)" "safe p (\<lambda>_. True) (unlinkRemoteTempFile R a)"
proof -
  let ?num = "sv_numText R"
  have retry: "safe q (\<lambda>_. True) (catch_io (sftp_rename R a b) (\<lambda>e. throw_io (if c e then e else Thrown t)))" for c t q
  proof (rule safe_catch [OF safe_transport(15)])
    fix e
    show "safe (Some e) (\<lambda>_. True) (throw_io (if c e then e else Thrown t))"
      by (cases "c e") (simp_all add: safe_rethrow safe_throw)
  qed
  have handler: "safe (Some e) (\<lambda>_. True) (if \<not> isGenericSftpFailureError ?num e then throw_io e
      else then_io (case sn of None \<Rightarrow> return_io () | Some sn \<Rightarrow> assertRemoteSnapshotStillMatches R b sn)
        (then_io (sftp_unlink R b)
        (catch_io (sftp_rename R a b) (\<lambda>e'. throw_io (if trim (error_text ?num e') \<noteq> [] then e' else e)))))" for e
  proof (cases "isGenericSftpFailureError ?num e")
    case True
    then obtain t where e: "e = Thrown t" using generic_thrown by blast
    show ?thesis
      unfolding assertRemoteSnapshotStillMatches_def
      by (simp only: True not_True_eq_False if_False) (unfold e, intro safe_intros retry)
  qed (simp add: safe_rethrow)
  show "safe p (\<lambda>_. True) (replaceRemoteFileFromTemp R a b sn)"
    unfolding replaceRemoteFileFromTemp_def tryOpenSshPosixRename_def
    by (intro safe_intros handler)
  show "safe p (\<lambda>_. True) (unlinkRemoteTempFile R a)"
    unfolding unlinkRemoteTempFile_def by (intro safe_intros)
qed

lemma safe_temporary [safe_intros]:
  "safe p (\<lambda>_. True) (temporary_path R a)" "safe p meta_free (written R a)"
  "safe p (\<lambda>_. True) (stat_target R a)" "safe p (\<lambda>_. True) (resolveExistingUploadLocalPath R a)"
  "safe p (\<lambda>_. True) (writeBufferToRemotePath R c a m sn)"
  unfolding temporary_path_def written_def stat_target_def resolveExistingUploadLocalPath_def writeBufferToRemotePath_def Let_def
  by (intro safe_intros safe_result; simp)+

lemma safe_stream_end:
  assumes "case x of (failed, opened) \<Rightarrow> no_guard failed" and "\<And>opened. safe p Q (k opened)"
    and "\<And>t opened. safe p Q (h (Thrown t) opened)"
  shows "safe p Q (case x of (failed, opened) \<Rightarrow> case failed of None \<Rightarrow> k opened | Some e \<Rightarrow> h e opened)"
proof (cases "fst x")
  case None
  then show ?thesis using assms(2) by (cases x) simp
next
  case (Some e)
  then obtain t where "e = Thrown t" using assms(1) by (cases x; cases e) (auto simp: no_guard_def)
  then show ?thesis using assms(3) Some by (cases x) simp
qed

lemma safe_upload_steps [safe_intros]:
  "safe p (\<lambda>_. True) (uploadLocalFileToRemotePath R l a m sn i)"
  "safe p (\<lambda>_. True) (createRemoteFileFromLocalPath R l a m i)"
  "safe p (\<lambda>_. True) (downloadFileToLocalPath R a l i)"
proof -
  show "safe p (\<lambda>_. True) (uploadLocalFileToRemotePath R l a m sn i)"
    unfolding uploadLocalFileToRemotePath_def
    by (intro safe_bind [OF safe_temporary(1)] safe_catch safe_bind_value [OF safe_stream] safe_stream_end)
      (auto intro!: safe_intros obeys_intros)
  show "safe p (\<lambda>_. True) (createRemoteFileFromLocalPath R l a m i)"
    unfolding createRemoteFileFromLocalPath_def
    by (intro safe_bind_value [OF safe_stream] safe_stream_end) (auto intro!: safe_intros obeys_intros)
  show "safe p (\<lambda>_. True) (downloadFileToLocalPath R a l i)"
    unfolding downloadFileToLocalPath_def Let_def
    by (intro safe_bind [OF safe_stamp] safe_then safe_catch safe_local safe_bind_value [OF safe_stream] safe_stream_end)
      (auto intro!: safe_intros obeys_intros)
qed

lemma safe_send [safe_intros]: "safe p (\<lambda>_. True) (send_upload R l a target sn ov i)"
  unfolding send_upload_def by (intro safe_intros)

lemma safe_write_failed: "safe (Some e) meta_free (return_io (write_failed R key e))"
  by (rule safe_return) (auto simp: write_failed_def split: thrown.splits)

lemma safe_write [safe_intros]: "safe p meta_free (writeTextFilePrimitive R a c sn ov)"
  unfolding writeTextFilePrimitive_def Let_def conflict_result_def
  by (intro safe_intros safe_write_failed safe_result; simp)+

lemma safe_upload [safe_intros]: "safe p meta_free (uploadFilePrimitive R a l sn ov i)"
proof -
  have failed: "safe (Some e) meta_free (upload_failed R i e)" for e
    unfolding upload_failed_def by (intro safe_then safe_transfers safe_write_failed)
  have refused: "safe p meta_free (return_io r)" if "upload_refusal R target sn ov = Some r" for target r p
    using that by (intro safe_result) (auto simp: upload_refusal_def conflict_result_def split: option.splits if_splits)
  have rest: "safe p meta_free (case upload_refusal R target sn ov of None \<Rightarrow> k | Some r \<Rightarrow> return_io r)"
    if "safe p meta_free k" for target k p
    using that refused by (cases "upload_refusal R target sn ov") simp_all
  have done': "safe p meta_free (bind_io (written R x) (\<lambda>r. then_io (on_transfers R f) (return_io r)))" for p f x
  proof (rule safe_bind_value [OF safe_temporary(2)])
    show "safe p meta_free (then_io (on_transfers R f) (return_io r))" if "meta_free r" for r
      using that by (intro safe_then safe_transfers safe_result)
    show "obeys (\<lambda>s t. lv_closed s \<longrightarrow> lv_closed t) (then_io (on_transfers R f) (return_io r))" for r
      by (simp add: obeys_def on_transfers_def modify_io_def return_io_def then_io_def bind_io_def)
  qed
  show ?thesis
    unfolding uploadFilePrimitive_def with_source_def Let_def
    by (intro safe_with_open safe_if safe_refuse safe_catch failed safe_bind [OF safe_temporary(3)] rest
        safe_bind [OF safe_temporary(4)] safe_option safe_bind [OF safe_local] safe_then safe_transfers safe_send
        safe_log done') simp_all
qed

fun read_free :: "read_result \<Rightarrow> bool" where
  "read_free (ReadFailed message (Some md)) = False"
| "read_free _ = True"

fun download_free :: "download_result \<Rightarrow> bool" where
  "download_free (DownloadFailed message (Some md)) = False"
| "download_free _ = True"

lemma safe_fully [safe_intros]: "safe p (\<lambda>_. True) (readFullyIntoBuffer R h n got)"
proof (induction R h n got rule: readFullyIntoBuffer.induct)
  case (1 R h n got)
  have "safe p (\<lambda>_. True) (readFullyIntoBuffer R h n (got @ data))" if "length got < n" and "data \<noteq> []" for data
    using 1 that by blast
  then show ?case
    by (subst readFullyIntoBuffer.simps, cases "length got < n") (auto intro!: safe_bind safe_transport safe_return_any)
qed

text \<open>
  The error that \<open>finally\<close> holds back is rethrown after the closing of the handle; it is carried as a value
  meanwhile.
\<close>

lemma safe_finally [safe_intros]:
  fixes m :: "('w, 'a) sftp_proc"
  assumes "safe p (\<lambda>_. True) m" and "\<And>q. safe q (\<lambda>_. True) f" and "obeys (\<lambda>s t. lv_closed s \<longrightarrow> lv_closed t) f"
  shows "safe p (\<lambda>_. True) (finally_quietly m f)"
  unfolding finally_quietly_def
proof (rule safe_bind_value [where Q' = "\<lambda>r. case r of Inl e \<Rightarrow> no_guard (Some e) | Inr _ \<Rightarrow> True"])
  show "safe p (\<lambda>r. case r of Inl e \<Rightarrow> no_guard (Some e) | Inr _ \<Rightarrow> True)
      (catch_io (bind_io m (\<lambda>x. return_io (Inr x))) (\<lambda>e. return_io (Inl e)))"
    by (intro safe_catch safe_bind [OF assms(1)] safe_return) (auto simp: no_guard_def)
next
  fix r :: "sftp_error + 'a"
  assume r: "case r of Inl e \<Rightarrow> no_guard (Some e) | Inr _ \<Rightarrow> True"
  show "safe p (\<lambda>_. True) (then_io (catch_io f (\<lambda>e. return_io ())) (case r of Inl e \<Rightarrow> throw_io e | Inr x \<Rightarrow> return_io x))"
    by (cases r) (use r in \<open>auto intro!: safe_then safe_catch safe_return_any assms safe_pass_on\<close>)
next
  fix r :: "sftp_error + 'a"
  show "obeys (\<lambda>s t. lv_closed s \<longrightarrow> lv_closed t)
      (then_io (catch_io f (\<lambda>e. return_io ())) (case r of Inl e \<Rightarrow> throw_io e | Inr x \<Rightarrow> return_io x))"
    by (intro obeys_intros assms(3))
qed

lemma safe_read_result: "read_free r \<Longrightarrow> safe p read_free (return_io r)"
  by (rule safe_return)

lemma safe_preview: "safe p read_free (readFilePreviewPrimitive R a n)"
proof -
  have failed: "safe (Some e) read_free (return_io (ReadFailed m (resolveOperationFailureMetadata e)))" for e m
    by (rule safe_return) auto
  show ?thesis
    unfolding readFilePreviewPrimitive_def Let_def
    by (intro safe_with_open safe_if safe_catch failed safe_bind safe_transport safe_finally safe_fully safe_return_any
        safe_read_result closing.obeys_transport) simp_all
qed

lemma safe_download: "safe p download_free (downloadFilePrimitive R a l i)"
proof -
  have failed: "safe (Some e) download_free (download_failed R i e)" for e
  proof -
    have "safe (Some e) download_free (return_io (DownloadFailed m (resolveOperationFailureMetadata e)))" for m
      by (rule safe_return) auto
    then show ?thesis unfolding download_failed_def Let_def by (intro safe_then safe_transfers)
  qed
  have answer: "download_free r \<Longrightarrow> safe p download_free (return_io r)" for r p
    by (rule safe_return)
  show ?thesis
    unfolding downloadFilePrimitive_def Let_def
    by (intro safe_with_open safe_if safe_catch failed safe_bind safe_then safe_transport safe_transfers
        safe_upload_steps answer) simp_all
qed

section \<open>Listings\<close>

lemma safe_link [safe_intros]: "safe p (\<lambda>_. True) (link_target R a st)"
  unfolding link_target_def resolveSymlinkTargetMetadata_def Let_def by (intro safe_intros)

lemma safe_listed [safe_intros]: "safe p (\<lambda>_. True) (listed_entries R d es)"
  by (induction es) (simp_all add: Let_def, (intro safe_intros; assumption)+)

fun list_free :: "list_result \<Rightarrow> bool" where
  "list_free (ListFailed message (Some md)) = False"
| "list_free _ = True"

fun item_free :: "details_item \<Rightarrow> bool" where
  "item_free (DetailsFailed a message (Some md)) = False"
| "item_free _ = True"

fun details_free :: "details_result \<Rightarrow> bool" where
  "details_free (DetailsDone n items) = list_all item_free items"
| "details_free DetailsNotFound = True"

lemma safe_listing: "safe p list_free (listDirectoryPrimitive R a)"
proof -
  have failed: "safe (Some e) list_free (return_io (ListFailed m (resolveOperationFailureMetadata e)))" for e m
    by (rule safe_return) auto
  have answer: "list_free r \<Longrightarrow> safe p list_free (return_io r)" for r p
    by (rule safe_return)
  show ?thesis
    unfolding listDirectoryPrimitive_def Let_def
    by (intro safe_with_open safe_catch failed safe_bind safe_transport safe_option safe_if safe_listed answer) simp_all
qed

lemma safe_single: "safe p item_free (getSingleEntryDetails R a)"
proof -
  have failed: "safe (Some e) item_free (return_io (DetailsFailed a m (resolveOperationFailureMetadata e)))" for e m
    by (rule safe_return) auto
  have answer: "item_free r \<Longrightarrow> safe p item_free (return_io r)" for r p
    by (rule safe_return)
  show ?thesis
    unfolding getSingleEntryDetails_def
    by (intro safe_catch failed safe_bind safe_transport safe_link answer) simp_all
qed

lemma safe_details_of: "safe p (list_all item_free) (details_of R ps)"
proof (induction ps)
  case Nil
  then show ?case by (simp add: safe_return)
next
  case (Cons a ps)
  let ?p = "normalizeSftpPathInput (Some a)"
  have item: "safe p item_free (if \<not> isMutableSftpEntryPath ?p
      then return_io (DetailsFailed ?p (sv_text R (js ''errors.sftp.pathRequired'')) None) else getSingleEntryDetails R ?p)"
    by (intro safe_if safe_single safe_return) simp_all
  show ?case
    unfolding details_of.simps Let_def
  proof (rule safe_bind_value [OF item])
    fix x
    assume x: "item_free x"
    show "safe p (list_all item_free) (bind_io (details_of R ps) (\<lambda>items. return_io (x # items)))"
      by (rule safe_bind_value [OF Cons.IH]) (auto simp: x closing.obeys_return intro: safe_return)
  qed (intro obeys_intros)
qed

lemma safe_details: "safe p details_free (getEntryDetailsPrimitive R ps)"
  unfolding getEntryDetailsPrimitive_def
  by (intro safe_with_open safe_bind_value [OF safe_details_of]) (auto intro: safe_return closing.obeys_return)

section \<open>Nothing is thrown\<close>

definition quiet :: "('s, 'e, 'a) proc \<Rightarrow> bool" where
  "quiet m \<longleftrightarrow> (\<forall>s r s'. m s = Some (r, s') \<longrightarrow> (\<exists>x. r = Inr x))"

lemma quiet_return [intro!]: "quiet (return_io x)"
  by (simp add: quiet_def return_io_def)

lemma quiet_modify [intro!]: "quiet (modify_io f)"
  by (simp add: quiet_def modify_io_def)

lemma quiet_read [intro!]: "quiet (read_io f)"
  by (simp add: quiet_def read_io_def)

lemma quiet_bind [intro!]: "quiet m \<Longrightarrow> (\<And>x. quiet (k x)) \<Longrightarrow> quiet (bind_io m k)"
  unfolding quiet_def by (blast elim: bind_SomeE)

lemma quiet_then [intro!]: "quiet m \<Longrightarrow> quiet k \<Longrightarrow> quiet (then_io m k)"
  unfolding then_io_def by (rule quiet_bind)

lemma quiet_catch [intro!]: "(\<And>e. quiet (h e)) \<Longrightarrow> quiet (catch_io m h)"
  unfolding quiet_def catch_io_def by (auto split: option.splits prod.splits sum.splits)

lemma quiet_with_open [intro!]: "quiet m \<Longrightarrow> quiet (with_open r m)"
  unfolding with_open_def by auto

lemma quiet_attempt [intro!]: "quiet (attempt R key m)" and quiet_refuse [intro!]: "quiet (refuse R key)"
  unfolding attempt_def refuse_def by auto

lemma quiet_on_transfers [intro!]: "quiet (on_transfers R f)"
  unfolding on_transfers_def by auto

lemma quiet_primitives [intro!]:
  "quiet (createFilePrimitive R a)" "quiet (createDirectoryPrimitive R a)" "quiet (renameEntryPrimitive R a b)"
  "quiet (copyEntryPrimitive R a b)" "quiet (linkEntryPrimitive R a b)" "quiet (deleteEntryPrimitive R a r)"
  unfolding createFilePrimitive_def createDirectoryPrimitive_def renameEntryPrimitive_def copyEntryPrimitive_def
    linkEntryPrimitive_def deleteEntryPrimitive_def Let_def
  by auto

lemma quiet_entry [intro!]: "quiet (runSingleBatchEntryOperation R op e d)"
  unfolding runSingleBatchEntryOperation_def Let_def by (cases op) auto

lemma quiet_entries [intro!]: "quiet (run_entries R op d items es)"
  by (induction es arbitrary: items) auto

lemma quiet_batch [intro!]: "quiet (runBatchOperationPrimitive R op es d)"
  unfolding runBatchOperationPrimitive_def Let_def by (auto split: prod.split)

lemma quiet_files [intro!]:
  "quiet (readFilePreviewPrimitive R a n)" "quiet (writeTextFilePrimitive R a c sn ov)"
  "quiet (uploadFilePrimitive R a l sn' ov i)" "quiet (downloadFilePrimitive R a l i)"
  unfolding readFilePreviewPrimitive_def writeTextFilePrimitive_def uploadFilePrimitive_def downloadFilePrimitive_def
    upload_failed_def download_failed_def with_source_def Let_def
  by auto

lemma quiet_details [intro!]: "quiet (details_of R ps)"
  by (induction ps) (auto simp: Let_def getSingleEntryDetails_def)

lemma quiet_listings [intro!]: "quiet (listDirectoryPrimitive R a)" "quiet (getEntryDetailsPrimitive R ps)"
  unfolding listDirectoryPrimitive_def getEntryDetailsPrimitive_def Let_def by auto

end
