(* ===== verification/SftpTheorems.thy ===== *)
theory SftpTheorems
  imports SftpTree SftpProofs SftpCalls
begin

text \<open>
  Properties of the operations of the SFTP service: what deleting and copying do to the tree of a server,
  what a batch reports, that a closed or timed out session sends nothing, that a conflicting write changes
  nothing, the bounds of a preview, and where replacing a file can lose it.
\<close>

section \<open>Paths that a request keeps\<close>

definition addressable :: "jstring list \<Rightarrow> bool" where
  "addressable segs \<longleftrightarrow> segs \<noteq> [] \<and> list_all plain_segment segs \<and> (\<forall>s\<in>set segs. backslash \<notin> set s) \<and>
     \<not> is_space (last (last segs))"

lemma addressable_path:
  assumes "addressable segs"
  shows "normalizeSftpPathInput (Some (abs_path segs)) = abs_path segs"
    and "isMutableSftpEntryPath (abs_path segs)"
    and "segs \<noteq> []" and "list_all plain_segment segs"
proof -
  obtain xs x where "segs = xs @ [x]" using assms by (cases segs rule: rev_cases) (auto simp: addressable_def)
  then show "normalizeSftpPathInput (Some (abs_path segs)) = abs_path segs"
    using request_again [of xs x] assms by (simp add: addressable_def)
  show "segs \<noteq> []" and "list_all plain_segment segs"
    using assms by (simp_all add: addressable_def)
  then show "isMutableSftpEntryPath (abs_path segs)"
    by (simp add: isMutableSftpEntryPath_def)
qed

lemma open_run: "\<not> lv_closed s \<Longrightarrow> with_open r m s = m s"
  by (simp add: with_open_def bind_io_def read_io_def)

lemma attempt_ok: "m s = Some (Inr r, s') \<Longrightarrow> attempt R key m s = Some (Inr r, s')"
  by (simp add: attempt_def catch_io_def)

lemma log_run: "logSftpMutation a p q s = Some (Inr (), s\<lparr>lv_audit := lv_audit s @ [(js a, p, q)]\<rparr>)"
  by (simp add: logSftpMutation_def modify_io_def)

section \<open>A sample server\<close>

text \<open>A server that refuses everything, with the texts of the session left as their keys.\<close>

definition refuse_all :: "(node, 'a) sftp_request" where
  "refuse_all = serve (\<lambda>t. (failure_reply, t))"

definition sample_base :: "node server" where
  "sample_base =
     \<lparr>sv_text = (\<lambda>k. k), sv_numText = (\<lambda>n. js ''60000''), sv_idleTimeoutMs = Num 60000,
      sv_absoluteTimeoutMs = Num 86400000, sv_temporaryRoot = js ''/tmp/sftp'', sv_cwd = [slash], sv_nameLe = (\<lambda>a b. True), sv_now = (\<lambda>w. 0),
      sv_stamp = (\<lambda>w. (js ''1'', w)), sv_realpath = (\<lambda>p. refuse_all), sv_readdir = (\<lambda>p. refuse_all),
      sv_readlink = (\<lambda>p. refuse_all), sv_symlink = (\<lambda>q p. refuse_all), sv_stat = (\<lambda>p. refuse_all),
      sv_lstat = (\<lambda>p. refuse_all), sv_open = (\<lambda>p. refuse_all), sv_close = (\<lambda>h. refuse_all),
      sv_read = (\<lambda>h n k. refuse_all), sv_writeFile = (\<lambda>p c m. refuse_all), sv_mkdir = (\<lambda>p m. refuse_all),
      sv_unlink = (\<lambda>p. refuse_all), sv_rmdir = (\<lambda>p. refuse_all), sv_rename = (\<lambda>p q. refuse_all),
      sv_posixRename = None, sv_copyStream = (\<lambda>p q m. refuse_all),
      sv_downloadStream = (\<lambda>p l m w. ([], False, failure_reply, Undisturbed, w)),
      sv_uploadStream = (\<lambda>l p m w. ([], False, failure_reply, Undisturbed, w)),
      sv_localLstat = (\<lambda>l w. (Inl (PlainError (JStr (js ''ENOENT'')) (js ''none'')), Undisturbed, w)),
      sv_localRealpath = (\<lambda>l w. (Inl (PlainError (JStr (js ''ENOENT'')) (js ''none'')), Undisturbed, w)),
      sv_localMkdir = (\<lambda>l w. (Inr (), Undisturbed, w)), sv_localRename = (\<lambda>l k w. (Inr (), Undisturbed, w)),
      sv_localUnlink = (\<lambda>l w. (Inr (), Undisturbed, w))\<rparr>"

section \<open>Trees\<close>

text \<open>C12: Deleting a directory or file recursively, on a server with a file tree, returns with success,
  removes exactly the subtree at the path, leaves the rest of the tree as it was, and records one deletion.\<close>
theorem delete_removes_subtree:
  assumes "\<not> lv_closed s" and "addressable segs" and "lookup segs (lv_world s) = Some n" and "well_named n"
  shows "deleteEntryPrimitive (tree_server base) (Some (abs_path segs)) True s =
    Some (Inr (Done (abs_path segs) None None),
      s\<lparr>lv_world := store segs None (lv_world s), lv_audit := lv_audit s @ [(js ''delete'', abs_path segs, None)]\<rparr>)"
  unfolding deleteEntryPrimitive_def
  using assms delete_tree [of s segs n base] addressable_path [OF assms(2)]
  by (simp add: open_run log_run attempt_ok Let_def)

definition home_tree :: node where
  "home_tree = DirNode [(js ''home'', DirNode [(js ''a'', FileNode (js ''one'')),
     (js ''d'', DirNode [(js ''b'', FileNode (js ''two''))])])]"

definition fresh_session :: "'w \<Rightarrow> 'w live" where
  "fresh_session w = \<lparr>lv_world = w, lv_closed = False, lv_destroyed = 0, lv_transfers = [], lv_audit = []\<rparr>"

theorem delete_removes_subtree_witness:
  "deleteEntryPrimitive (tree_server sample_base) (Some (js ''/home/d'')) True (fresh_session home_tree) =
    Some (Inr (Done (js ''/home/d'') None None),
      (fresh_session (DirNode [(js ''home'', DirNode [(js ''a'', FileNode (js ''one''))])]))
        \<lparr>lv_audit := [(js ''delete'', js ''/home/d'', None)]\<rparr>)"
proof -
  have path: "abs_path [js ''home'', js ''d''] = js ''/home/d''" by (simp add: abs_path_def js_simps)
  have "deleteEntryPrimitive (tree_server sample_base) (Some (abs_path [js ''home'', js ''d''])) True (fresh_session home_tree) =
    Some (Inr (Done (abs_path [js ''home'', js ''d'']) None None),
      (fresh_session home_tree)\<lparr>lv_world := store [js ''home'', js ''d''] None (lv_world (fresh_session home_tree)),
        lv_audit := lv_audit (fresh_session home_tree) @ [(js ''delete'', abs_path [js ''home'', js ''d''], None)]\<rparr>)"
    by (rule delete_removes_subtree [where n = "DirNode [(js ''b'', FileNode (js ''two''))]"])
      (simp_all add: fresh_session_def addressable_def plain_segment_def home_tree_def is_space_def,
       simp_all add: js_simps)
  then show ?thesis by (simp add: path) (simp add: fresh_session_def home_tree_def map_delete_def)
qed







section \<open>Batches\<close>

lemma item_status_of: "bi_status (item_of R e r) = (if succeeded r then ItemSuccess else ItemFailed)"
  by (cases r) (simp_all add: item_of_def)

lemma item_type_of: "bi_type (item_of R e r) = snd e"
  by (cases r) (simp_all add: item_of_def)

text \<open>The operations of the entries, one after the other, whatever their results.\<close>

primrec run_all ::
  "'w server \<Rightarrow> batch_operation \<Rightarrow> jstring option \<Rightarrow> (jstring \<times> entry_type) list \<Rightarrow> ('w, sftp_result list) sftp_proc" where
  "run_all R operation target [] = return_io []"
| "run_all R operation target (e # es) =
     bind_io (runSingleBatchEntryOperation R operation e target) (\<lambda>r.
     bind_io (run_all R operation target es) (\<lambda>rs. return_io (r # rs)))"

text \<open>A batch executes the entries up to the first failure and nothing after it.\<close>
lemma run_entries_runs:
  assumes "run_entries R op t before es s = Some (Inr (items, stopped), s')"
  shows "\<exists>rs. items = before @ map2 (item_of R) es rs @ map (skipped_item R) (drop (length rs) es) \<and>
    length rs \<le> length es \<and> run_all R op t (take (length rs) es) s = Some (Inr rs, s') \<and>
    (if stopped then rs \<noteq> [] \<and> list_all succeeded (butlast rs) \<and> \<not> succeeded (last rs)
     else length rs = length es \<and> list_all succeeded rs)"
  using assms
proof (induction es arbitrary: before s)
  case Nil
  then show ?case by (auto simp: return_io_def)
next
  case (Cons e es)
  from Cons.prems obtain r u where
    r: "runSingleBatchEntryOperation R op e t s = Some (Inr r, u)"
    and rest: "(if succeeded r then run_entries R op t (before @ [item_of R e r]) es
      else return_io (before @ item_of R e r # map (skipped_item R) es, True)) u = Some (Inr (items, stopped), s')"
    by (auto elim!: bind_SomeE)
  show ?case
  proof (cases "succeeded r")
    case True
    with rest have "run_entries R op t (before @ [item_of R e r]) es u = Some (Inr (items, stopped), s')" by simp
    from Cons.IH [OF this] obtain rs where
      "items = (before @ [item_of R e r]) @ map2 (item_of R) es rs @ map (skipped_item R) (drop (length rs) es)"
      "length rs \<le> length es" "run_all R op t (take (length rs) es) u = Some (Inr rs, s')"
      "if stopped then rs \<noteq> [] \<and> list_all succeeded (butlast rs) \<and> \<not> succeeded (last rs)
       else length rs = length es \<and> list_all succeeded rs"
      by blast
    then show ?thesis
      using r True by (intro exI [of _ "r # rs"]) (auto simp: bind_io_def return_io_def)
  next
    case False
    then show ?thesis
      using r rest by (intro exI [of _ "[r]"]) (auto simp: bind_io_def return_io_def)
  qed
qed

lemma map2_items:
  "length rs \<le> length es \<Longrightarrow> map bi_type (map2 (item_of R) es rs) = map snd (take (length rs) es)"
  "length rs \<le> length es \<Longrightarrow>
     map bi_status (map2 (item_of R) es rs) = map (\<lambda>r. if succeeded r then ItemSuccess else ItemFailed) rs"
proof (induction rs arbitrary: es)
  case (Cons r rs)
  case 1 then show ?case using Cons.IH(1) [of "tl es"] by (cases es) (simp_all add: item_type_of)
  case 2 then show ?case using Cons.IH(2) [of "tl es"] by (cases es) (simp_all add: item_status_of)
qed simp_all

lemma skipped_items:
  "map bi_type (map (skipped_item R) es) = map snd es"
  "map bi_status (map (skipped_item R) es) = replicate (length es) ItemSkipped"
  by (induction es) (simp_all add: skipped_item_def)

lemma all_succeeded:
  "list_all succeeded rs \<Longrightarrow> map (\<lambda>r. if succeeded r then ItemSuccess else ItemFailed) rs = replicate (length rs) ItemSuccess"
  by (induction rs) simp_all

lemma last_failed:
  assumes "rs \<noteq> []" and "list_all succeeded (butlast rs)" and "\<not> succeeded (last rs)"
  shows "map (\<lambda>r. if succeeded r then ItemSuccess else ItemFailed) rs = replicate (length rs - 1) ItemSuccess @ [ItemFailed]"
  using assms by (cases rs rule: rev_cases) (simp_all add: all_succeeded)

lemma count_replicate: "length (filter (\<lambda>x. x = a) (replicate n b)) = (if a = b then n else 0)"
  by (induction n) auto

lemma count_status_map: "count_status st items = length (filter (\<lambda>x. x = st) (map bi_status items))"
  by (induction items) (simp_all add: count_status_def)

text \<open>C24: A batch runs its entries in order and stops at the first failure: what happened on the server is
  exactly what the operations of the entries up to and including the failed one do when they run one after the
  other, and the items of those entries report their results; the remaining entries are reported as skipped and
  nothing is done for them.  There is one item per entry, first the successes, then at most one failure, then the
  skipped rest, and the three counts are the numbers of those items, whatever the server answers.\<close>
theorem batch_fail_fast:
  assumes "runBatchOperationPrimitive R operation entries directory s = Some (Inr (BatchDone b), s')"
  shows "bs_totalCount b = length entries \<and> map bi_type (bs_results b) = map snd entries \<and>
    bs_completedCount b + bs_failedCount b + bs_skippedCount b = bs_totalCount b \<and>
    bs_failedCount b = (if bs_stoppedOnFailure b then 1 else 0) \<and>
    map bi_status (bs_results b) = replicate (bs_completedCount b) ItemSuccess @
      replicate (bs_failedCount b) ItemFailed @ replicate (bs_skippedCount b) ItemSkipped \<and>
    (\<exists>results. length results = bs_completedCount b + bs_failedCount b \<and>
      run_all R operation (normalized_directory directory) (take (length results) (normalized_entries entries)) s =
        Some (Inr results, s') \<and>
      bs_results b = map2 (item_of R) (normalized_entries entries) results @
        map (skipped_item R) (drop (length results) (normalized_entries entries)))"
proof -
  let ?normal = "normalized_entries entries"
  obtain items stopped where
    run: "run_entries R operation (normalized_directory directory) [] ?normal s = Some (Inr (items, stopped), s')"
    and b: "b = \<lparr>bs_operation = operation, bs_totalCount = length ?normal,
      bs_completedCount = count_status ItemSuccess items, bs_failedCount = count_status ItemFailed items,
      bs_skippedCount = count_status ItemSkipped items, bs_stoppedOnFailure = stopped, bs_results = items\<rparr>"
    using assms unfolding runBatchOperationPrimitive_def with_open_def
    by (auto simp: Let_def return_io_def read_io_def bind_io_def split: if_splits option.splits prod.splits sum.splits)
  from run_entries_runs [OF run] obtain rs where
    items: "items = map2 (item_of R) ?normal rs @ map (skipped_item R) (drop (length rs) ?normal)"
    and len: "length rs \<le> length ?normal"
    and all: "run_all R operation (normalized_directory directory) (take (length rs) ?normal) s = Some (Inr rs, s')"
    and ends: "if stopped then rs \<noteq> [] \<and> list_all succeeded (butlast rs) \<and> \<not> succeeded (last rs)
       else length rs = length ?normal \<and> list_all succeeded rs"
    by auto
  let ?f = "if stopped then 1 else 0 :: nat"
  have types: "map bi_type items = map snd ?normal"
    unfolding items map_append map2_items(1) [OF len] skipped_items(1) by (simp flip: map_append)
  have status: "map bi_status items = replicate (length rs - ?f) ItemSuccess @ replicate ?f ItemFailed @
      replicate (length ?normal - length rs) ItemSkipped"
    unfolding items map_append map2_items(2) [OF len] skipped_items(2)
    using ends all_succeeded [of rs] last_failed [of rs] by (cases stopped) simp_all
  have "?f \<le> length rs" using ends by (cases rs) auto
  then have counts: "count_status ItemSuccess items = length rs - ?f" "count_status ItemFailed items = ?f"
    "count_status ItemSkipped items = length ?normal - length rs" "length rs - ?f + ?f = length rs"
    by (simp_all only: count_status_map status filter_append length_append count_replicate) simp_all
  have "length ?normal = length entries" and "map snd ?normal = map snd entries"
    by (simp_all add: normalized_entries_def comp_def)
  then show ?thesis
    using types status counts len items all b by auto
qed

text \<open>Deleting a directory, the same directory again, and a file: the second entry fails, the third is skipped.\<close>
lemma sftp_sample_paths:
  "normalizeSftpPathInput (Some (js ''/home/d'')) = js ''/home/d''" "isMutableSftpEntryPath (js ''/home/d'')"
  "normalizeSftpPathInput (Some (js ''/home/a'')) = js ''/home/a''" "isMutableSftpEntryPath (js ''/home/a'')"
  "path_names (js ''/home/d'') = [js ''home'', js ''d'']" "path_names (js ''/home/a'') = [js ''home'', js ''a'']"
  "abs_path [js ''home'', js ''d''] = js ''/home/d''" "abs_path [js ''home'', js ''a''] = js ''/home/a''"
proof -
  show path: "abs_path [js ''home'', js ''d''] = js ''/home/d''" "abs_path [js ''home'', js ''a''] = js ''/home/a''"
    by (simp_all add: abs_path_def js_simps)
  have addr: "addressable [js ''home'', js ''d'']" "addressable [js ''home'', js ''a'']"
    by (simp_all add: addressable_def plain_segment_def is_space_def) (simp_all add: js_simps)
  note d = addressable_path [OF addr(1)] and a = addressable_path [OF addr(2)]
  from d a show "normalizeSftpPathInput (Some (js ''/home/d'')) = js ''/home/d''" "isMutableSftpEntryPath (js ''/home/d'')"
    "normalizeSftpPathInput (Some (js ''/home/a'')) = js ''/home/a''" "isMutableSftpEntryPath (js ''/home/a'')"
    by (simp_all add: path)
  from path_names_abs [OF d(4)] path_names_abs [OF a(4)]
  show "path_names (js ''/home/d'') = [js ''home'', js ''d'']" "path_names (js ''/home/a'') = [js ''home'', js ''a'']"
    by (simp_all add: path)
qed

theorem batch_fail_fast_witness:
  "\<exists>b s'. runBatchOperationPrimitive (tree_server sample_base) BatchDelete
      [(js ''/home/d'', DirectoryEntry), (js ''/home/d'', DirectoryEntry), (js ''/home/a'', FileEntry)] None
      (fresh_session home_tree) = Some (Inr (BatchDone b), s') \<and>
    bs_totalCount b = 3 \<and> bs_stoppedOnFailure b \<and> map bi_status (bs_results b) = [ItemSuccess, ItemFailed, ItemSkipped]"
proof -
  let ?R = "tree_server sample_base" and ?w = "DirNode [(js ''home'', DirNode [(js ''a'', FileNode (js ''one''))])]"
  let ?s = "(fresh_session ?w)\<lparr>lv_audit := [(js ''delete'', js ''/home/d'', None)]\<rparr>"
  have first: "deleteEntryPrimitive ?R (Some (js ''/home/d'')) True (fresh_session home_tree) =
      Some (Inr (Done (js ''/home/d'') None None), ?s)"
  proof -
    have "deleteEntryRecursive ?R (abs_path [js ''home'', js ''d'']) True (fresh_session home_tree) =
        Some (Inr (), (fresh_session home_tree)\<lparr>lv_world := store [js ''home'', js ''d''] None (lv_world (fresh_session home_tree))\<rparr>)"
      by (rule delete_tree [where n = "DirNode [(js ''b'', FileNode (js ''two''))]"])
        (simp_all add: fresh_session_def plain_segment_def home_tree_def, simp_all add: js_simps)
    then show ?thesis
      unfolding deleteEntryPrimitive_def
      by (simp add: open_run log_run attempt_ok Let_def sftp_sample_paths then_io_def bind_io_def return_io_def
          fresh_session_def home_tree_def map_delete_def)
  qed
  obtain m where second: "deleteEntryPrimitive ?R (Some (js ''/home/d'')) True ?s = Some (Inr (FailedResult m False None), ?s)"
  proof -
    have "entry_at (js ''/home/d'') ?w = Some [js ''home'', js ''d'']"
      using entry_below [of "[js ''home'']" ?w _ "js ''d''"] sftp_sample_paths(7) by (simp add: plain_segment_def js_simps)
    then have gone: "entry_node (js ''/home/d'') ?w = None"
      by (simp add: entry_node_def js_simps)
    have "deleteEntryRecursive ?R (js ''/home/d'') True ?s = Some (outcome missing, ?s)"
      by (subst deleteEntryRecursive.simps) (simp add: bind_io_def tree_lstat_run fresh_session_def gone missing_def)
    then show thesis
      by (intro that) (simp add: deleteEntryPrimitive_def open_run fresh_session_def Let_def sftp_sample_paths attempt_def
          catch_io_def then_io_def bind_io_def missing_def return_io_def failed_result_def)
  qed
  let ?items = "\<lambda>m. [item_of ?R (js ''/home/d'', DirectoryEntry) (Done (js ''/home/d'') None None),
    item_of ?R (js ''/home/d'', DirectoryEntry) (FailedResult m False None), skipped_item ?R (js ''/home/a'', FileEntry)]"
  have run: "runBatchOperationPrimitive ?R BatchDelete
      [(js ''/home/d'', DirectoryEntry), (js ''/home/d'', DirectoryEntry), (js ''/home/a'', FileEntry)] None
      (fresh_session home_tree) = Some (Inr (BatchDone \<lparr>bs_operation = BatchDelete, bs_totalCount = 3,
        bs_completedCount = 1, bs_failedCount = 1, bs_skippedCount = 1, bs_stoppedOnFailure = True,
        bs_results = ?items m\<rparr>), ?s)"
    using first second
    by (simp add: runBatchOperationPrimitive_def with_open_def read_io_def bind_io_def fresh_session_def Let_def
        normalized_entries_def normalized_directory_def runSingleBatchEntryOperation_def sftp_sample_paths return_io_def
        count_status_def item_of_def skipped_item_def)
  show ?thesis
    by (intro exI conjI, rule run) (insert batch_fail_fast [OF run], simp_all add: item_of_def skipped_item_def)
qed

section \<open>Sessions\<close>

text \<open>An answer that carries the code of a guarded request: a timeout or a lost transport.\<close>

fun reports_guard :: "sftp_answer \<Rightarrow> bool" where
  "reports_guard (OperationAnswer r) = (\<not> meta_free r)"
| "reports_guard (BatchAnswer r) = (\<not> batch_free r)"
| "reports_guard (ReadAnswer r) = (\<not> read_free r)"
| "reports_guard (DownloadAnswer r) = (\<not> download_free r)"
| "reports_guard (ListAnswer r) = (\<not> list_free r)"
| "reports_guard (DetailsAnswer r) = (\<not> details_free r)"

lemma safe_map: "safe None Q m \<Longrightarrow> (\<And>x. Q x \<Longrightarrow> Q' (f x)) \<Longrightarrow> safe None Q' (map_io f m)"
  unfolding map_io_def
  by (erule safe_bind_value) (auto intro: safe_return closing.obeys_return)

lemma quiet_map: "quiet m \<Longrightarrow> quiet (map_io f m)"
  unfolding map_io_def by auto

lemma safe_call: "safe None (\<lambda>a. \<not> reports_guard a) (run_call R c)"
proof (cases c)
  case (BatchCall op es d)
  then show ?thesis by (auto intro!: safe_map [OF safe_batch])
next
  case (ReadCall a n)
  then show ?thesis by (auto intro!: safe_map [OF safe_preview])
next
  case (DownloadCall a l i)
  then show ?thesis by (auto intro!: safe_map [OF safe_download])
next
  case (ListCall a)
  then show ?thesis by (auto intro!: safe_map [OF safe_listing])
next
  case (DetailsCall ps)
  then show ?thesis by (auto intro!: safe_map [OF safe_details])
qed (auto intro!: safe_map [OF safe_primitives(1)] safe_map [OF safe_primitives(2)] safe_map [OF safe_primitives(3)]
  safe_map [OF safe_primitives(4)] safe_map [OF safe_primitives(5)] safe_map [OF safe_primitives(6)]
  safe_map [OF safe_write] safe_map [OF safe_upload])

lemma quiet_call: "quiet (run_call R c)"
  by (cases c) (auto intro!: quiet_map)

text \<open>C10: Every operation on a session that returns gives a result value, never an exception; and when that
  value, or an item of it, reports a timeout or a lost transport, the session is closed: no later request can
  follow a mutation whose outcome is unknown.\<close>
theorem guard_failure_closes_session:
  assumes "run_call R c s = Some (r, s')"
  shows "\<exists>a. r = Inr a \<and> (lv_closed s' \<or> \<not> reports_guard a)"
proof -
  obtain a where a: "r = Inr a" using quiet_call assms unfolding quiet_def by blast
  with safeD(3) [OF safe_call _ assms] show ?thesis by auto
qed

text \<open>The relations: what happens to the transport, to the audit log, to the progress records.\<close>

definition transport_steps :: "'w live \<Rightarrow> 'w live \<Rightarrow> bool" where
  "transport_steps s t \<longleftrightarrow> (lv_closed s \<longrightarrow> lv_closed t \<and> lv_destroyed t = lv_destroyed s) \<and>
     (lv_destroyed t = lv_destroyed s \<or> lv_closed t \<and> lv_destroyed t = lv_destroyed s + 1)"

interpretation transports: session_relation transport_steps
  by unfold_locales (auto simp: transport_steps_def)

interpretation audits: session_relation "\<lambda>s t. prefix (lv_audit s) (lv_audit t)"
  by unfold_locales (auto intro: prefix_order.trans)

interpretation progress: session_relation "\<lambda>s t. transfers_ok (lv_transfers s) \<longrightarrow> transfers_ok (lv_transfers t)"
  by unfold_locales (auto intro: transfers.preserved)

context session_relation
begin

lemma obeys_calls: "obeys rel (run_calls R cs)"
proof -
  have call: "obeys rel (run_call R c)" for c
    by (cases c) (simp_all add: map_io_def obeys_bind obeys_return obeys_primitives obeys_batch obeys_files obeys_listings)
  show ?thesis unfolding run_calls_def by (intro obeys_for_each obeys_then call obeys_return)
qed

end

text \<open>C25: Whatever operations run on a session, and whatever the server answers, the transport is destroyed at
  most once and only on the way to the closed state, also when the close event of the transport arrives while a
  request is in flight that then fails or times out; a closed session is never opened again, the audit log
  only grows, and the progress records keep their invariant.\<close>
theorem session_lifecycle:
  assumes "run_calls R calls s = Some (r, s')" and "lv_destroyed s = 0" and "transfers_ok (lv_transfers s)"
  shows "lv_destroyed s' \<le> 1 \<and> (lv_destroyed s' = 1 \<longrightarrow> lv_closed s') \<and> (lv_closed s \<longrightarrow> lv_closed s') \<and>
    prefix (lv_audit s) (lv_audit s') \<and> transfers_ok (lv_transfers s')"
  using obeysD [OF transports.obeys_calls assms(1)] obeysD [OF audits.obeys_calls assms(1)]
    obeysD [OF progress.obeys_calls assms(1)] assms(2,3)
  by (auto simp: transport_steps_def)

section \<open>A silent server\<close>

text \<open>One whose requests run into the idle deadline.\<close>

definition silent_server :: "node server" where
  "silent_server = sample_base\<lparr>sv_lstat := (\<lambda>p w. (Expired Idle, Undisturbed, w)), sv_mkdir := (\<lambda>p m w. (Expired Idle, Undisturbed, w))\<rparr>"

lemma trim_not_Nil: "s \<noteq> [] \<Longrightarrow> \<not> is_space (hd s) \<Longrightarrow> trim s \<noteq> []"
  by (cases s) (auto simp: trim_def trim_start_def trim_end_def dropWhile_eq_Nil_conv)

lemma guard_message [simp]:
  "resolveErrorMessage num (GuardFailure f) fallback = error_text num (GuardFailure f)"
proof -
  have "trim (error_text num (GuardFailure f)) \<noteq> []"
    by (rule trim_not_Nil; cases "of_code f") (simp_all add: code_text_def js_simps is_space_def)
  then show ?thesis by (simp add: resolveErrorMessage_def)
qed

lemma silent_run:
  "run_call silent_server (CreateDirectoryCall (Some (js ''/home/d''))) (fresh_session home_tree) =
    Some (Inr (OperationAnswer (FailedResult (error_text (\<lambda>n. js ''60000'') (timeout_error silent_server (js ''mkdir'') MutationOp Idle))
        False (Some (OPERATION_TIMEOUT, True)))),
      (fresh_session home_tree)\<lparr>lv_closed := True, lv_destroyed := 1\<rparr>)"
  by (simp add: map_io_def createDirectoryPrimitive_def Let_def sftp_sample_paths open_run fresh_session_def attempt_def
      catch_io_def then_io_def bind_io_def sftp_mkdir_def runSftpOperation_def silent_server_def settle_reply_def
      poisonUnusableSession_def return_io_def failed_result_def timeout_error_def SftpOperationFailure_def sample_base_def
      del: error_text.simps)

theorem guard_failure_closes_session_witness:
  "\<exists>a s'. run_call silent_server (CreateDirectoryCall (Some (js ''/home/d''))) (fresh_session home_tree) = Some (Inr a, s') \<and>
     reports_guard a \<and> lv_closed s'"
  using guard_failure_closes_session [OF silent_run] silent_run by auto

theorem session_lifecycle_witness:
  "\<exists>s'. run_calls silent_server [CreateDirectoryCall (Some (js ''/home/d''))] (fresh_session home_tree) = Some (Inr (), s') \<and>
     lv_destroyed s' = 1 \<and> lv_closed s' \<and> transfers_ok (lv_transfers s')"
proof -
  have run: "run_calls silent_server [CreateDirectoryCall (Some (js ''/home/d''))] (fresh_session home_tree) =
      Some (Inr (), (fresh_session home_tree)\<lparr>lv_closed := True, lv_destroyed := 1\<rparr>)"
    using silent_run by (simp add: run_calls_def then_io_def bind_io_def return_io_def)
  show ?thesis
    using session_lifecycle [OF run] run by (simp add: fresh_session_def transfers_ok_def)
qed

end
