(* ===== verification/SftpFileTheorems.thy ===== *)
theory SftpFileTheorems
  imports SftpTheorems
begin

text \<open>
  Properties of the file operations of the SFTP service: nothing is replaced without the consent of the
  caller, short reads do not change a preview, uploads read only below the temporary root, a watched
  transfer does not stay running, and the fall-back of a replacement can lose the file.
\<close>
lemma sftp_sample_nodes:
  "target_node (js ''/home/a'') home_tree = Some (FileNode (js ''one''))"
  "entry_node (js ''/home/a'') home_tree = Some (FileNode (js ''one''))"
proof -
  have "lookup [js ''home'', js ''a''] home_tree = Some (FileNode (js ''one''))" and "list_all plain_segment [js ''home'', js ''a'']"
    by (simp_all add: home_tree_def plain_segment_def) (simp_all add: js_simps)
  then show "target_node (js ''/home/a'') home_tree = Some (FileNode (js ''one''))"
    "entry_node (js ''/home/a'') home_tree = Some (FileNode (js ''one''))"
    using target_node_plain [of "[js ''home'', js ''a'']" home_tree] entry_node_plain [of "[js ''home'', js ''a'']" home_tree]
    by (simp_all add: sftp_sample_paths)
qed

lemma fresh_world: "lv_world (fresh_session w) = w"
  by (simp add: fresh_session_def)

section \<open>Consent\<close>

text \<open>C11: On a server with a file tree, a file or directory that exists at a path, links followed, is not changed by
  writing text or by an upload that was not told to overwrite and whose snapshot, if it has one, does not match
  what is there; both fail, and nothing of the session changes.\<close>
theorem no_consent_no_change:
  assumes "\<not> lv_closed s" and "addressable segs" and "target_node (abs_path segs) (lv_world s) = Some n"
    and "case expected of None \<Rightarrow> True | Some sn \<Rightarrow> \<not> doesRemoteSnapshotMatch (stats_of n) sn"
  shows "(\<exists>message conflict. uploadFilePrimitive (tree_server base) (Some (abs_path segs)) localPath expected False transferId s =
      Some (Inr (FailedResult message conflict None), s)) \<and>
    (\<forall>sn. expected = Some sn \<longrightarrow> (\<exists>message conflict.
      writeTextFilePrimitive (tree_server base) (Some (abs_path segs)) content sn False s =
        Some (Inr (FailedResult message conflict None), s)))"
proof -
  note p = addressable_path [OF assms(2)]
  have stat: "sftp_stat (tree_server base) (abs_path segs) s = Some (Inr (stats_of n), s)"
    using assms p by (simp add: tree_stat_run)
  have refusal: "\<exists>message conflict. upload_refusal (tree_server base) (Some (stats_of n)) expected False =
      Some (FailedResult message conflict None)"
    using assms(4) by (cases expected) (auto simp: upload_refusal_def conflict_result_def)
  have "stat_target (tree_server base) (abs_path segs) s = Some (Inr (Some (stats_of n)), s)"
    using stat by (simp add: stat_target_def catch_io_def)
  then have "\<exists>message conflict. uploadFilePrimitive (tree_server base) (Some (abs_path segs)) localPath expected False transferId s =
      Some (Inr (FailedResult message conflict None), s)"
    using refusal p assms(1)
    by (auto simp: uploadFilePrimitive_def open_run Let_def refuse_def catch_io_def)
  moreover have "\<exists>message conflict. writeTextFilePrimitive (tree_server base) (Some (abs_path segs)) content sn False s =
      Some (Inr (FailedResult message conflict None), s)" if "expected = Some sn" for sn
    using stat p assms(1,4) that
    by (auto simp: writeTextFilePrimitive_def open_run Let_def refuse_def catch_io_def conflict_result_def)
  ultimately show ?thesis by blast
qed

theorem no_consent_no_change_witness:
  "\<exists>message conflict. uploadFilePrimitive (tree_server sample_base) (Some (js ''/home/a'')) (Some (js ''/tmp/sftp/x''))
      (Some \<lparr>sn_size = Num 4, sn_modifiedMs = Num 0\<rparr>) False None (fresh_session home_tree) =
    Some (Inr (FailedResult message conflict None), fresh_session home_tree)"
proof -
  have "\<not> lv_closed (fresh_session home_tree)" and "addressable [js ''home'', js ''a'']"
    and "lookup [js ''home'', js ''a''] (lv_world (fresh_session home_tree)) = Some (FileNode (js ''one''))"
    and "list_all plain_segment [js ''home'', js ''a'']"
    by (simp_all add: fresh_session_def home_tree_def addressable_def plain_segment_def is_space_def) (simp_all add: js_simps)
  moreover have "\<not> doesRemoteSnapshotMatch (stats_of (FileNode (js ''one''))) \<lparr>sn_size = Num 4, sn_modifiedMs = Num 0\<rparr>"
    by (simp add: doesRemoteSnapshotMatch_def stats_of_def js_simps)
  ultimately show ?thesis
    using no_consent_no_change [of "fresh_session home_tree" "[js ''home'', js ''a'']" "FileNode (js ''one'')"
        "Some \<lparr>sn_size = Num 4, sn_modifiedMs = Num 0\<rparr>" sample_base "Some (js ''/tmp/sftp/x'')" None]
    by (simp add: sftp_sample_paths sftp_sample_nodes fresh_world)
qed

section \<open>Previews\<close>

text \<open>
  Documented behaviour of \<open>read\<close>: it puts a part of what the file holds from the position on into the buffer,
  at most as much as was asked for, and nothing only at the end of the file.  The session stays open.
\<close>

definition reads_file :: "'w server \<Rightarrow> nat \<Rightarrow> nat list \<Rightarrow> bool" where
  "reads_file R h file \<longleftrightarrow> (\<forall>len pos w. \<exists>data w'. sv_read R h len pos w = (Answer data, Undisturbed, w') \<and>
     prefix data (take len (drop pos file)) \<and> (data = [] \<longrightarrow> take len (drop pos file) = []))"

lemma read_step:
  assumes "reads_file R h file" and "\<not> lv_closed s"
  obtains data s' where "sftp_read R h len pos s = Some (Inr data, s')" and "\<not> lv_closed s'"
    and "prefix data (take len (drop pos file))" and "data = [] \<longrightarrow> take len (drop pos file) = []"
proof -
  obtain data w' where "sv_read R h len pos (lv_world s) = (Answer data, Undisturbed, w')"
    "prefix data (take len (drop pos file))" "data = [] \<longrightarrow> take len (drop pos file) = []"
    using assms(1) unfolding reads_file_def by metis
  then show thesis
    using assms(2) that [of data "s\<lparr>lv_world := w'\<rparr>"]
    by (simp add: sftp_read_def runSftpOperation_def settle_reply_def)
qed

lemma read_fully:
  assumes "reads_file R h file" and "\<not> lv_closed s" and "got = take (length got) file" and "length got \<le> n"
  shows "\<exists>s'. \<not> lv_closed s' \<and> readFullyIntoBuffer R h n got s = Some (Inr (take n file), s')"
  using assms
proof (induction R h n got arbitrary: s rule: readFullyIntoBuffer.induct)
  case (1 R h n got)
  show ?case
  proof (cases "length got < n")
    case False
    then have "got = take n file" using 1(4,5) by simp
    then show ?thesis using False 1(3) by (subst readFullyIntoBuffer.simps) auto
  next
    case True
    obtain data s1 where step: "sftp_read R h (n - length got) (length got) s = Some (Inr data, s1)"
      and s1: "\<not> lv_closed s1" and pre: "prefix data (take (n - length got) (drop (length got) file))"
      and stop: "data = [] \<longrightarrow> take (n - length got) (drop (length got) file) = []"
      using read_step [OF 1(2,3)] by blast
    have whole: "take n file = got @ take (n - length got) (drop (length got) file)"
    proof -
      have "take (length got + (n - length got)) file = take (length got) file @ take (n - length got) (drop (length got) file)"
        by (rule take_add)
      then show ?thesis using 1(4) True by simp
    qed
    show ?thesis
    proof (cases "data = []")
      case empty: True
      then have "take n file = got" using stop whole by simp
      then show ?thesis using step s1 True empty by (subst readFullyIntoBuffer.simps) simp
    next
      case False
      obtain rest where rest: "take (n - length got) (drop (length got) file) = data @ rest"
        using pre by (auto simp: prefix_def)
      have "take (length (got @ data)) (take n file) = got @ data"
        unfolding whole rest by simp
      moreover have "length (got @ data) \<le> n"
        using arg_cong [OF rest, of length] True by simp
      ultimately have got: "got @ data = take (length (got @ data)) file" by (simp add: min_def)
      obtain s2 where "\<not> lv_closed s2" "readFullyIntoBuffer R h n (got @ data) s1 = Some (Inr (take n file), s2)"
        using 1(1) [OF True False 1(2) s1 got \<open>length (got @ data) \<le> n\<close>] by blast
      then show ?thesis using step True False by (subst readFullyIntoBuffer.simps) auto
    qed
  qed
qed

lemma request_runs: "\<exists>y. runSftpOperation R operation impact request s = Some y"
  by (simp add: runSftpOperation_def split: prod.split)

lemma finally_run:
  assumes "m s = Some (Inr x, s1)" and "f s1 = Some (r, s2)"
  shows "finally_quietly m f s = Some (Inr x, s2)"
  using assms by (cases r) (simp_all add: finally_quietly_def catch_io_def bind_io_def then_io_def return_io_def)

text \<open>C27: A preview shows the first bytes of the file, up to the limit, however the server cuts its replies;
  the limit lies between one KiB and sixteen MiB whatever number was requested.\<close>
theorem preview_shows_prefix:
  assumes "\<not> lv_closed s" and "isMutableSftpEntryPath (normalizeSftpPathInput a)"
    and "sftp_stat R (normalizeSftpPathInput a) s = Some (Inr st, s1)" and "\<not> lv_closed s1"
    and "entryType (fs_mode st) = FileEntry" and "fs_size st = length file"
    and "sftp_open R (normalizeSftpPathInput a) s1 = Some (Inr h, s2)" and "\<not> lv_closed s2"
    and "reads_file R h file"
  shows "1024 \<le> normalizeReadFileMaxBytes n \<and> normalizeReadFileMaxBytes n \<le> 16 * 1024 * 1024 \<and>
    (\<exists>s'. readFilePreviewPrimitive R a n s =
      Some (Inr (ReadDone (normalizeSftpPathInput a) (utf8_decode (take (normalizeReadFileMaxBytes n) file)) (length file)
        (normalizeReadFileMaxBytes n < length file)), s'))"
proof (intro conjI)
  have "1024 \<le> nat (max x 1024)" for x by linarith
  then show "1024 \<le> normalizeReadFileMaxBytes n" and "normalizeReadFileMaxBytes n \<le> 16 * 1024 * 1024"
    by (simp_all add: normalizeReadFileMaxBytes_def DEFAULT_READ_FILE_MAX_BYTES_def MAX_READ_FILE_MAX_BYTES_def
        split: option.split jsnum.split)
next
  let ?max = "normalizeReadFileMaxBytes n" and ?len = "min (length file) (normalizeReadFileMaxBytes n)"
  obtain s3 where s3: "(if 0 < ?len then readFullyIntoBuffer R h ?len [] else return_io []) s2 = Some (Inr (take ?max file), s3)"
    using read_fully [OF assms(9,8), of "[]" ?len] by (cases "0 < ?len") (auto simp: min_def split: if_splits)
  obtain r s4 where "sftp_closeHandle R h s3 = Some (r, s4)"
    using request_runs by (metis sftp_closeHandle_def surj_pair)
  with s3 have "finally_quietly (if 0 < ?len then readFullyIntoBuffer R h ?len [] else return_io []) (sftp_closeHandle R h) s2 =
      Some (Inr (take ?max file), s4)"
    by (rule finally_run)
  then show "\<exists>s'. readFilePreviewPrimitive R a n s =
      Some (Inr (ReadDone (normalizeSftpPathInput a) (utf8_decode (take ?max file)) (length file) (?max < length file)), s')"
    using assms(1-8) by (simp add: readFilePreviewPrimitive_def open_run Let_def catch_io_def)
qed

text \<open>A server that answers every read with one byte.\<close>

definition slow_server :: "node server" where
  "slow_server = (tree_server sample_base)
     \<lparr>sv_open := (\<lambda>p. serve (\<lambda>t. (Answer 7, t))), sv_close := (\<lambda>h. serve (\<lambda>t. (Answer (), t))),
      sv_read := (\<lambda>h len pos. serve (\<lambda>t. (Answer (take 1 (take len (drop pos (js ''one'')))), t)))\<rparr>"

lemma slow_reads: "reads_file slow_server 7 (js ''one'')"
  unfolding reads_file_def slow_server_def
  by (simp add: serve_def del: take_take) (intro allI take_is_prefix)

theorem preview_shows_prefix_witness:
  "\<exists>s'. readFilePreviewPrimitive slow_server (Some (js ''/home/a'')) None (fresh_session home_tree) =
     Some (Inr (ReadDone (js ''/home/a'') (js ''one'') 3 False), s')"
proof -
  let ?s = "fresh_session home_tree" and ?st = "stats_of (FileNode (js ''one''))"
  have stat: "sftp_stat slow_server (js ''/home/a'') ?s = Some (Inr ?st, ?s)"
    using serve_run [of ?s "serve_stat (js ''/home/a'')" "Answer ?st" home_tree slow_server "js ''stat''" ReadOp]
    by (simp add: sftp_stat_def slow_server_def fresh_session_def serve_stat_def sftp_sample_nodes)
  have handle: "sftp_open slow_server (js ''/home/a'') ?s = Some (Inr 7, ?s)"
    using serve_run [of ?s "\<lambda>t. (Answer 7, t)" "Answer 7" home_tree slow_server "js ''open''" ReadOp]
    by (simp add: sftp_open_def slow_server_def fresh_session_def)
  have "utf8_decode (js ''one'') = js ''one''"
    by (rule utf8_decode_ascii) (simp add: js_simps)
  moreover have "take (normalizeReadFileMaxBytes None) (js ''one'') = js ''one''"
    "\<not> normalizeReadFileMaxBytes None < length (js ''one'')" "length (js ''one'') = 3"
    by (simp_all add: normalizeReadFileMaxBytes_def DEFAULT_READ_FILE_MAX_BYTES_def js_simps)
  ultimately show ?thesis
    using preview_shows_prefix [of ?s "Some (js ''/home/a'')" slow_server ?st ?s "js ''one''" 7 ?s None] stat handle slow_reads
    by (simp add: sftp_sample_paths fresh_session_def) (simp add: stats_of_def numeral_3_eq_3)
qed

section \<open>Local sources\<close>

lemma posix_segments_abs [simp]: "list_all plain_segment segs \<Longrightarrow> posix_segments (abs_path segs) = segs"
  using path_names_abs by (simp add: posix_segments_def path_names_def)

lemma resolve_abs [simp]:
  assumes "list_all plain_segment segs"
  shows "posix_resolve2 cwd [] (abs_path segs) = abs_path segs"
proof (cases "segs = []")
  case False
  then have "normalize_segments False (split_on slash (abs_path segs)) = segs"
    using assms by (simp add: split_abs_path normalize_segments_Nil_Cons)
  then show ?thesis using starts_abs [of segs] by (simp add: posix_resolve2_def Let_def) (simp add: abs_path_def)
qed (simp add: posix_resolve2_def normalize_segments_def push_segment_def Let_def)

lemma longest_common_prefix_full: "prefix xs ys \<Longrightarrow> longest_common_prefix xs ys = xs"
  by (induction xs ys rule: longest_common_prefix.induct) auto

lemma longest_common_prefix_short: "\<not> prefix xs ys \<Longrightarrow> length (longest_common_prefix xs ys) < length xs"
  by (induction xs ys rule: longest_common_prefix.induct) auto

lemma dotdot_first: "0 < k \<Longrightarrow> starts_with (join_with slash (replicate k dotdot @ xs)) dotdot"
  by (cases k; cases "replicate (k - 1) dotdot @ xs") (auto simp: prefix_def)

text \<open>A path inside a directory is below it; a name that begins with two dots is taken for a step up.\<close>
lemma inside_directory:
  assumes "list_all plain_segment xs" and "list_all plain_segment base"
  shows "isLocalPathInsideDirectory cwd (abs_path xs) (abs_path base) \<longleftrightarrow>
    (\<exists>rest. xs = base @ rest \<and> (rest = [] \<or> \<not> starts_with (hd rest) dotdot))"
proof (cases "prefix base xs")
  case True
  then obtain rest where rest: "xs = base @ rest" by (auto simp: prefix_def)
  have "posix_relative cwd (abs_path base) (abs_path xs) = join_with slash rest"
    using assms rest longest_common_prefix_full [OF True] by (simp add: posix_relative_def)
  moreover have "list_all plain_segment rest" using assms(1) rest by simp
  moreover have "starts_with (join_with slash rest) dotdot \<longleftrightarrow> starts_with (hd rest) dotdot" if "rest \<noteq> []"
    using that by (cases rest; cases "tl rest") (auto simp: prefix_def append_eq_Cons_conv Cons_eq_append_conv)
  moreover have "\<not> posix_is_absolute (join_with slash rest)"
    using starts_join_with [of rest] \<open>list_all plain_segment rest\<close>
    by (cases "join_with slash rest") (auto simp: posix_is_absolute_def list_all_iff plain_segment_def)
  ultimately show ?thesis
    using rest join_with_eq_Nil [of rest] by (auto simp: isLocalPathInsideDirectory_def)
next
  case False
  then have "starts_with (posix_relative cwd (abs_path base) (abs_path xs)) dotdot"
    using assms longest_common_prefix_short [OF False] by (simp add: posix_relative_def Let_def dotdot_first)
  then show ?thesis
    using False by (auto simp: isLocalPathInsideDirectory_def prefix_def)
qed

lemma bind_cong_run:
  assumes "\<And>x t. m s = Some (Inr x, t) \<Longrightarrow> k x t = k' x t"
  shows "bind_io m k s = bind_io m k' s"
  using assms by (auto simp: bind_io_def split: option.split prod.split sum.split)

text \<open>
  What a local path must have answered before a file is read for an upload: the normalized path lies below the
  temporary root and is a regular file itself (no link), and \<open>c\<close> is its real path, below the root as well
  and regular.
\<close>

definition answers_regular :: "'w server \<Rightarrow> jstring \<Rightarrow> bool" where
  "answers_regular R l \<longleftrightarrow> (\<exists>w st others w'. sv_localLstat R l w = (Inr st, others, w') \<and> regular_local st)"

definition resolves_to :: "'w server \<Rightarrow> jstring \<Rightarrow> jstring \<Rightarrow> bool" where
  "resolves_to R l c \<longleftrightarrow>
     (let normalized = posix_resolve2 (sv_cwd R) [] l
      in isLocalPathInsideDirectory (sv_cwd R) normalized (sv_temporaryRoot R) \<and> answers_regular R normalized \<and>
         (\<exists>w others w'. sv_localRealpath R normalized w = (Inr c, others, w')) \<and>
         isLocalPathInsideDirectory (sv_cwd R) c (sv_temporaryRoot R))"

lemma run_local_value:
  assumes "run_local request s = Some (Inr x, t)"
  shows "\<exists>w others w'. request w = (Inr x, others, w')"
  using assms by (auto simp: run_local_def split: prod.splits sum.splits)

lemma resolved_inside:
  assumes "resolveExistingUploadLocalPath R l s = Some (Inr (Some c), t)"
  shows "resolves_to R l c"
  using assms unfolding resolveExistingUploadLocalPath_def resolves_to_def answers_regular_def Let_def catch_io_def
  by (auto simp: return_io_def split: if_splits option.splits prod.splits sum.splits elim!: bind_SomeE dest!: run_local_value) blast+

lemma with_source_cong:
  assumes "\<And>c. resolves_to R l c \<Longrightarrow> k c = k' c"
  shows "with_source R l k = with_source R l k'"
proof (rule ext)
  fix s
  show "with_source R l k s = with_source R l k' s"
    unfolding with_source_def
    by (rule bind_cong_run) (use assms in \<open>auto split: option.split dest!: resolved_inside\<close>)
qed

lemma local_cong:
  assumes "answers_regular R c \<Longrightarrow> k = k'"
  shows "bind_io (run_local (sv_localLstat R c)) (\<lambda>st. if \<not> regular_local st then h else k st) =
    bind_io (run_local (sv_localLstat R c)) (\<lambda>st. if \<not> regular_local st then h else k' st)"
proof (rule ext)
  fix s
  show "bind_io (run_local (sv_localLstat R c)) (\<lambda>st. if \<not> regular_local st then h else k st) s =
    bind_io (run_local (sv_localLstat R c)) (\<lambda>st. if \<not> regular_local st then h else k' st) s"
  proof (rule bind_cong_run)
    fix st t
    assume "run_local (sv_localLstat R c) s = Some (Inr st, t)"
    then have "regular_local st \<Longrightarrow> answers_regular R c"
      unfolding answers_regular_def by (metis run_local_value)
    then show "(if \<not> regular_local st then h else k st) t = (if \<not> regular_local st then h else k' st) t"
      using assms by (cases "regular_local st") simp_all
  qed
qed

lemma upload_stream_update [simp]:
  fixes R :: "'w server"
  defines "R' \<equiv> \<lambda>f. R\<lparr>sv_uploadStream := f\<rparr>"
  shows "sftp_stat (R' f) p = sftp_stat R p" "sftp_unlink (R' f) p = sftp_unlink R p"
    "stat_target (R' f) p = stat_target R p" "resolveExistingUploadLocalPath (R' f) p = resolveExistingUploadLocalPath R p"
    "written (R' f) p = written R p" "upload_failed (R' f) i = upload_failed R i"
    "upload_refusal (R' f) = upload_refusal R" "refuse (R' f) key = (refuse R key :: ('w, sftp_result) sftp_proc)"
    "on_transfers (R' f) g = on_transfers R g" "temporary_path (R' f) p = temporary_path R p"
    "replaceRemoteFileFromTemp (R' f) p q sn = replaceRemoteFileFromTemp R p q sn"
    "unlinkRemoteTempFile (R' f) p = unlinkRemoteTempFile R p"
    "run_stream (R' f) op imp i request = run_stream R op imp i request"
proof -
  have settle: "settle_reply (R' f) op imp r s = (settle_reply R op imp r s :: (sftp_error + 'b) \<times> 'w live)" for op imp r s
    by (cases r) (simp_all add: R'_def settle_reply_def timeout_error_def cong: timeout_kind.case_cong)
  have run: "runSftpOperation (R' f) op imp request = (runSftpOperation R op imp request :: ('w, 'b) sftp_proc)" for op imp request
    unfolding runSftpOperation_def settle ..
  show stat: "sftp_stat (R' f) p = sftp_stat R p" for p
    unfolding sftp_stat_def by (simp add: R'_def) (simp add: run [unfolded R'_def])
  show unlink: "sftp_unlink (R' f) p = sftp_unlink R p" for p
    unfolding sftp_unlink_def by (simp add: R'_def) (simp add: run [unfolded R'_def])
  show "run_stream (R' f) op imp i request = run_stream R op imp i request"
    unfolding run_stream_def settle ..
  show "stat_target (R' f) p = stat_target R p" "written (R' f) p = written R p"
    unfolding stat_target_def written_def stat by (simp_all add: R'_def)
  show "resolveExistingUploadLocalPath (R' f) p = resolveExistingUploadLocalPath R p"
    by (simp add: R'_def resolveExistingUploadLocalPath_def Let_def cong: if_cong)
  show "upload_failed (R' f) i = upload_failed R i"
    by (simp add: R'_def fun_eq_iff upload_failed_def write_failed_def on_transfers_def split: guard_error.split thrown.split)
  show "upload_refusal (R' f) = upload_refusal R"
    by (simp add: R'_def fun_eq_iff upload_refusal_def conflict_result_def cong: option.case_cong if_cong)
  show "refuse (R' f) key = (refuse R key :: ('w, sftp_result) sftp_proc)"
    by (simp add: R'_def refuse_def)
  show "on_transfers (R' f) g = on_transfers R g"
    by (simp add: R'_def on_transfers_def)
  show "temporary_path (R' f) p = temporary_path R p"
    by (simp add: R'_def temporary_path_def stamp_def)
  have texts: "sv_numText (R' f) = sv_numText R" "sv_text (R' f) = sv_text R"
    by (simp_all add: R'_def)
  have rename: "sftp_rename (R' f) p q = sftp_rename R p q" for p q
    unfolding sftp_rename_def by (simp add: R'_def) (simp add: run [unfolded R'_def])
  have posix: "tryOpenSshPosixRename (R' f) p q = tryOpenSshPosixRename R p q" for p q
    unfolding tryOpenSshPosixRename_def by (simp add: R'_def run [unfolded R'_def] cong: option.case_cong)
  show "replaceRemoteFileFromTemp (R' f) p q sn = replaceRemoteFileFromTemp R p q sn"
    unfolding replaceRemoteFileFromTemp_def assertRemoteSnapshotStillMatches_def rename posix unlink stat texts ..
  show "unlinkRemoteTempFile (R' f) p = unlinkRemoteTempFile R p"
    unfolding unlinkRemoteTempFile_def unlink ..
qed

text \<open>C26: An upload reads a local file only when it is a regular file below the temporary root: what it does is the
  same when the streams from all local paths are exchanged except from the real path of the named file, and from
  that one too unless the named path and its real path both lie below the root and both are regular files, so
  that no link leads out of the root, whatever path the caller names.\<close>
theorem upload_reads_only_temporary_root:
  assumes "\<And>c. resolves_to R (posix_resolve2 (sv_cwd R) [] (case localPath of None \<Rightarrow> [] | Some l \<Rightarrow> trim l)) c \<Longrightarrow>
      answers_regular R c \<Longrightarrow> f c = sv_uploadStream R c"
  shows "uploadFilePrimitive (R\<lparr>sv_uploadStream := f\<rparr>) requestedPath localPath expected overwrite transferId s =
    uploadFilePrimitive R requestedPath localPath expected overwrite transferId s"
proof -
  let ?l = "posix_resolve2 (sv_cwd R) [] (case localPath of None \<Rightarrow> [] | Some l \<Rightarrow> trim l)"
  have send: "send_upload (R\<lparr>sv_uploadStream := f\<rparr>) c p target sn ov i = send_upload R c p target sn ov i"
    if "resolves_to R ?l c" "answers_regular R c" for c p target sn ov i
    using assms [OF that]
    by (simp add: send_upload_def uploadLocalFileToRemotePath_def createRemoteFileFromLocalPath_def
        cong: option.case_cong if_cong prod.case_cong)
  have with_source: "with_source (R\<lparr>sv_uploadStream := f\<rparr>) l k = with_source R l k" for l k
    by (simp add: with_source_def cong: option.case_cong)
  have body: "with_source R ?l (\<lambda>c. bind_io (run_local (sv_localLstat R c)) (\<lambda>st. if \<not> regular_local st then h
        else then_io (b st) (then_io (send_upload (R\<lparr>sv_uploadStream := f\<rparr>) c p target sn ov i) rest))) =
      with_source R ?l (\<lambda>c. bind_io (run_local (sv_localLstat R c)) (\<lambda>st. if \<not> regular_local st then h
        else then_io (b st) (then_io (send_upload R c p target sn ov i) rest)))" for h b p target sn ov i rest
    by (intro with_source_cong local_cong ext) (simp add: send)
  show ?thesis
    unfolding uploadFilePrimitive_def Let_def
    by (simp add: body [simplified] with_source cong: option.case_cong if_cong)
qed

text \<open>A link below the root that leads to \<open>/etc/passwd\<close>: nothing is read.\<close>

definition link_server :: "node server" where
  "link_server = sample_base\<lparr>sv_localLstat := (\<lambda>l w. (Inr (S_IFLNK, 11), Undisturbed, w)),
     sv_localRealpath := (\<lambda>l w. (Inr (js ''/etc/passwd''), Undisturbed, w))\<rparr>"

theorem upload_reads_only_temporary_root_witness:
  "uploadFilePrimitive (link_server\<lparr>sv_uploadStream := (\<lambda>l p m w. ([(0, 1)], True, Answer (), Undisturbed, w))\<rparr>)
     (Some (js ''/home/a'')) (Some (js ''/tmp/sftp/x'')) None True None (fresh_session home_tree) =
   uploadFilePrimitive link_server (Some (js ''/home/a'')) (Some (js ''/tmp/sftp/x'')) None True None (fresh_session home_tree)"
  by (rule upload_reads_only_temporary_root)
    (simp add: answers_regular_def link_server_def sample_base_def regular_local_def entryType_def)

section \<open>Transfers end\<close>

definition idle_transfer :: "jstring \<Rightarrow> 'w live \<Rightarrow> bool" where
  "idle_transfer i s \<longleftrightarrow> (\<forall>t. map_of (lv_transfers s) i = Some t \<longrightarrow> tf_status t \<noteq> TransferRunning)"

text \<open>\<open>ends b i m\<close>: when \<open>m\<close> returns a value the transfer does not run, if it did not run before or \<open>b\<close> is false.\<close>

definition ends :: "bool \<Rightarrow> jstring \<Rightarrow> ('w, 'a) sftp_proc \<Rightarrow> bool" where
  "ends b i m \<longleftrightarrow> (\<forall>s x s'. (b \<longrightarrow> idle_transfer i s) \<longrightarrow> m s = Some (Inr x, s') \<longrightarrow> idle_transfer i s')"

interpretation same_transfers: run_relation "\<lambda>s t. lv_transfers t = lv_transfers s"
  by unfold_locales auto

lemma same_request: "obeys (\<lambda>s t. lv_transfers t = lv_transfers s) (runSftpOperation R operation impact request)"
  by (auto simp: obeys_def runSftpOperation_def settle_reply_def poisonUnusableSession_def other_handler_transfers Let_def
      split: prod.splits if_splits reply.splits)

lemma same_local: "obeys (\<lambda>s t. lv_transfers t = lv_transfers s) (run_local request)"
  by (auto simp: obeys_def run_local_def other_handler_transfers split: prod.splits)

lemma ends_return: "ends True i (return_io x)"
  by (simp add: ends_def return_io_def)

lemma transfer_ends_bind:
  assumes "obeys (\<lambda>s t. lv_transfers t = lv_transfers s) m" and "\<And>x. ends True i (k x)"
  shows "ends True i (bind_io m k)"
  unfolding ends_def
proof (intro allI impI)
  fix s x s'
  assume idle: "True \<longrightarrow> idle_transfer i s" and run: "bind_io m k s = Some (Inr x, s')"
  obtain y t where y: "m s = Some (Inr y, t)" "k y t = Some (Inr x, s')"
    using run by (auto elim: bind_SomeE)
  then have "idle_transfer i t" using obeysD [OF assms(1) y(1)] idle by (simp add: idle_transfer_def)
  then show "idle_transfer i s'" using assms(2) y(2) unfolding ends_def by blast
qed

lemma ends_late: "(\<And>x. ends False i (k x)) \<Longrightarrow> ends b i (bind_io m k)"
  unfolding ends_def by (auto elim!: bind_SomeE)

lemma ends_then_late: "ends False i k \<Longrightarrow> ends b i (then_io m k)"
  unfolding then_io_def by (rule ends_late)

lemma transfer_ends_if: "ends b i m \<Longrightarrow> ends b i k \<Longrightarrow> ends b i (if c then m else k)"
  by simp

lemma transfer_ends_catch: "ends True i m \<Longrightarrow> (\<And>e. ends False i (h e)) \<Longrightarrow> ends True i (catch_io m h)"
  unfolding ends_def catch_io_def by (auto split: option.splits prod.splits sum.splits)

lemma ends_with_open: "ends True i m \<Longrightarrow> ends True i (with_open r m)"
  unfolding with_open_def
  by (rule transfer_ends_bind [OF same_transfers.obeys_read]) (simp add: ends_return)

lemma ends_update:
  assumes "i \<noteq> []" and "\<And>now t. tf_status (f now t) \<noteq> TransferRunning"
  shows "ends b i (then_io (on_transfers R (\<lambda>now. update_transfer (f now) (Some i))) (return_io r))"
  using assms
  by (auto simp: ends_def then_io_def bind_io_def on_transfers_def modify_io_def return_io_def idle_transfer_def
      update_transfer_def split: option.splits if_splits)

lemma ends_complete: "i \<noteq> [] \<Longrightarrow> ends b i (then_io (on_transfers R (\<lambda>now. completeTransfer now (Some i))) (return_io r))"
  unfolding completeTransfer_def by (rule ends_update) (simp_all add: complete_record_def Let_def)

lemma ends_fail: "i \<noteq> [] \<Longrightarrow> ends b i (then_io (on_transfers R (\<lambda>now. failTransfer now (Some i) m)) (return_io r))"
  unfolding failTransfer_def by (rule ends_update) (simp_all add: fail_record_def)

lemma same_steps:
  "obeys (\<lambda>s t. lv_transfers t = lv_transfers s) (sftp_stat R p)"
  "obeys (\<lambda>s t. lv_transfers t = lv_transfers s) (stat_target R p)"
  "obeys (\<lambda>s t. lv_transfers t = lv_transfers s) (resolveExistingUploadLocalPath R p)"
  unfolding sftp_stat_def stat_target_def resolveExistingUploadLocalPath_def Let_def
  by (intro same_request same_local same_transfers.obeys_bind same_transfers.obeys_catch same_transfers.obeys_return
      same_transfers.obeys_throw obeys_if)+

text \<open>C28: When an upload or a download that is watched returns, whatever happened on the way, its progress record
  does not stay running: the record that a poll finds is complete or failed.\<close>
theorem transfers_end:
  assumes "i \<noteq> []" and "idle_transfer i s"
  shows "(uploadFilePrimitive R a l sn ov (Some i) s = Some (Inr r, s') \<longrightarrow> idle_transfer i s') \<and>
    (downloadFilePrimitive R a l (Some i) s = Some (Inr q, s') \<longrightarrow> idle_transfer i s')"
proof -
  have refused: "ends True i (refuse R key)" for key
    by (simp add: refuse_def ends_return)
  have failed: "ends b i (upload_failed R (Some i) e)" for b e
    unfolding upload_failed_def by (rule ends_fail [OF assms(1)])
  have lost: "ends b i (download_failed R (Some i) e)" for b e
    unfolding download_failed_def Let_def by (rule ends_fail [OF assms(1)])
  have finished: "ends b i (bind_io (written R p) (\<lambda>r. then_io (on_transfers R (\<lambda>now. completeTransfer now (Some i))) (return_io r)))" for b p
    by (intro ends_late ends_complete assms(1))
  have up: "ends True i (uploadFilePrimitive R a l sn ov (Some i))"
    unfolding uploadFilePrimitive_def with_source_def Let_def
  proof (intro ends_with_open transfer_ends_catch failed transfer_ends_bind [OF same_steps(2)] transfer_ends_if refused)
    fix target
    show "ends True i (case upload_refusal R target sn ov of None \<Rightarrow> bind_io (resolveExistingUploadLocalPath R
        (posix_resolve2 (sv_cwd R) [] (case l of None \<Rightarrow> [] | Some l \<Rightarrow> trim l))) (\<lambda>canonical. case canonical of
          None \<Rightarrow> refuse R ''errors.sftp.localFileReadUnsupported''
        | Some c \<Rightarrow> bind_io (run_local (sv_localLstat R c)) (\<lambda>st. if \<not> regular_local st
            then refuse R ''errors.sftp.localFileReadUnsupported''
            else then_io (on_transfers R (\<lambda>now. beginTransfer now (Some i) Upload (snd st)))
              (then_io (send_upload R c (normalizeSftpPathInput a) target sn ov (Some i))
              (then_io (logSftpMutation ''upload'' (normalizeSftpPathInput a) None)
              (bind_io (written R (normalizeSftpPathInput a)) (\<lambda>r.
                 then_io (on_transfers R (\<lambda>now. completeTransfer now (Some i))) (return_io r)))))))
      | Some r \<Rightarrow> return_io r)"
      by (auto split: option.split
          intro!: ends_return refused transfer_ends_bind [OF same_steps(3)] transfer_ends_bind [OF same_local] ends_then_late finished)
  qed
  have down: "ends True i (downloadFilePrimitive R a l (Some i))"
    unfolding downloadFilePrimitive_def Let_def
    by (auto intro!: ends_with_open transfer_ends_catch lost transfer_ends_bind [OF same_steps(1)] ends_return ends_then_late ends_complete assms(1))
  show ?thesis using up down assms(2) unfolding ends_def by blast
qed

theorem transfers_end_witness:
  "\<exists>q s'. downloadFilePrimitive (tree_server sample_base) (Some (js ''/home/a'')) (Some (js ''/tmp/x'')) (Some (js ''t''))
      (fresh_session home_tree) = Some (Inr q, s') \<and> idle_transfer (js ''t'') s' \<and>
    map_of (lv_transfers s') (js ''t'') \<noteq> None"
proof -
  let ?s = "fresh_session home_tree" and ?R = "tree_server sample_base"
  have stat: "sftp_stat ?R (js ''/home/a'') ?s = Some (Inr (stats_of (FileNode (js ''one''))), ?s)"
    by (simp add: tree_stat_run fresh_session_def sftp_sample_nodes)
  have target: "trim (js ''/tmp/x'') = js ''/tmp/x''"
    by (rule trim_id) (simp_all add: js_simps is_space_def)
  have name: "js ''t'' \<noteq> []" by (simp add: js_simps)
  obtain q s' where run: "downloadFilePrimitive ?R (Some (js ''/home/a'')) (Some (js ''/tmp/x'')) (Some (js ''t'')) ?s =
      Some (Inr q, s')" and noted: "map_of (lv_transfers s') (js ''t'') \<noteq> None"
  proof -
    have fields: "sv_stamp ?R w = (js ''1'', w)" "sv_localMkdir ?R l = (\<lambda>w. (Inr (), Undisturbed, w))"
      "sv_localUnlink ?R l = (\<lambda>w. (Inr (), Undisturbed, w))" "sv_downloadStream ?R l l' m = (\<lambda>w. ([], False, failure_reply, Undisturbed, w))"
      "sv_now ?R w = 0" for w l l' m
      by (simp_all add: tree_server_def sample_base_def)
    show thesis
      using that not_transport stat target name
      by (simp add: downloadFilePrimitive_def with_open_def read_io_def Let_def sftp_sample_paths catch_io_def bind_io_def then_io_def
        on_transfers_def modify_io_def downloadFileToLocalPath_def stamp_def run_local_def run_stream_def settle_reply_def
        fields failure_reply_def beginTransfer_def pruneExpiredTransfers_def return_io_def throw_io_def
        download_failed_def failTransfer_def update_transfer_def count_chunks_def fresh_session_def)
  qed
  have "idle_transfer (js ''t'') ?s" by (simp add: idle_transfer_def fresh_session_def)
  then show ?thesis using transfers_end [OF name] run noted by blast
qed

section \<open>Replacing a file\<close>

text \<open>A server on which nothing can be renamed: a rename gets the general failure of the protocol.\<close>

definition stuck_server :: "node server" where
  "stuck_server = (tree_server sample_base)\<lparr>sv_rename := (\<lambda>p q. refuse_all)\<rparr>"

lemma stuck_requests:
  assumes "\<not> lv_closed s"
  shows "sftp_rename stuck_server p q s = Some (outcome failure_reply, s)"
    and "sftp_stat stuck_server p s = sftp_stat (tree_server sample_base) p s"
    and "sftp_unlink stuck_server p s = sftp_unlink (tree_server sample_base) p s"
    and "sftp_writeFile stuck_server p c m s = sftp_writeFile (tree_server sample_base) p c m s"
proof -
  have "runSftpOperation stuck_server op imp request = runSftpOperation (tree_server sample_base) op imp request"
    for op imp and request :: "(node, 'b) sftp_request"
  proof -
    have "settle_reply stuck_server op imp r s = settle_reply (tree_server sample_base) op imp r s"
      for op imp s and r :: "'b reply"
      by (cases r) (simp_all add: settle_reply_def stuck_server_def timeout_error_def split: timeout_kind.split)
    then show ?thesis by (simp add: runSftpOperation_def fun_eq_iff)
  qed
  note run = this
  show "sftp_rename stuck_server p q s = Some (outcome failure_reply, s)"
    using serve_run [OF assms, of "\<lambda>t. (failure_reply, t)" failure_reply "lv_world s"]
    by (simp add: sftp_rename_def stuck_server_def refuse_all_def)
  show "sftp_stat stuck_server p s = sftp_stat (tree_server sample_base) p s"
    "sftp_unlink stuck_server p s = sftp_unlink (tree_server sample_base) p s"
    "sftp_writeFile stuck_server p c m s = sftp_writeFile (tree_server sample_base) p c m s"
    by (simp_all add: sftp_stat_def sftp_unlink_def sftp_writeFile_def run) (simp_all add: stuck_server_def)
qed

lemma stuck_fields [simp]: "sv_posixRename stuck_server = None" "sv_stamp stuck_server w = (js ''1'', w)"
  by (simp_all add: stuck_server_def tree_server_def sample_base_def)

lemma entry_of_abs:
  assumes "list_all plain_segment xs" and "plain_segment x"
  shows "resolveParentPath (abs_path (xs @ [x])) = Some (abs_path xs)" and "resolveEntryName (abs_path (xs @ [x])) = x"
proof -
  have "path_names (abs_path xs) \<noteq> path_names (abs_path (xs @ [x]))"
    using assms by (simp add: path_names_abs)
  then have "abs_path xs \<noteq> abs_path (xs @ [x])" by metis
  then show "resolveParentPath (abs_path (xs @ [x])) = Some (abs_path xs)"
    using assms by (simp add: resolveParentPath_def Let_def)
  show "resolveEntryName (abs_path (xs @ [x])) = x"
    using assms by (simp add: resolveEntryName_def Let_def) (simp add: plain_segment_def)
qed

lemma temporary_sample:
  "temporary_path stuck_server (js ''/home/a'') s = Some (Inr (js ''/home/.a.cosmosh-1.tmp''), s)"
proof -
  have "joinSftpPath (abs_path [js ''home'']) (js ''.a.cosmosh-1.tmp'') = abs_path [js ''home'', js ''.a.cosmosh-1.tmp'']"
    using joinSftpPath_abs [of "[js ''home'']" "js ''.a.cosmosh-1.tmp''"] by (simp add: plain_segment_def js_simps)
  then have "joinSftpPath (js ''/home'') (js ''.a.cosmosh-1.tmp'') = js ''/home/.a.cosmosh-1.tmp''"
    by (simp add: abs_path_def js_simps)
  moreover have "resolveParentPath (js ''/home/a'') = Some (js ''/home'')" "resolveEntryName (js ''/home/a'') = js ''a''"
    using entry_of_abs [of "[js ''home'']" "js ''a''"] sftp_sample_paths(8)
    by (simp_all add: plain_segment_def js_simps abs_path_def)
  ultimately show ?thesis
    by (simp add: temporary_path_def stamp_def bind_io_def return_io_def js_simps)
qed

text \<open>When a server refuses every rename with the general failure of the protocol, saving a file removes it:
  the write reports a failure, and neither the old contents nor the temporary file with the new ones are
  left on the server.\<close>
theorem replacement_can_lose_target:
  "\<exists>message. writeTextFilePrimitive stuck_server (Some (js ''/home/a'')) (js ''two'') sn True (fresh_session home_tree) =
    Some (Inr (FailedResult message False None),
      fresh_session (DirNode [(js ''home'', DirNode [(js ''d'', DirNode [(js ''b'', FileNode (js ''two''))])])]))"
proof -
  let ?w = "DirNode [(js ''home'', DirNode [(js ''a'', FileNode (js ''one'')), (js ''d'', DirNode [(js ''b'', FileNode (js ''two''))]),
    (js ''.a.cosmosh-1.tmp'', FileNode (utf8_encode (js ''two'')))])]"
  let ?u = "DirNode [(js ''home'', DirNode [(js ''d'', DirNode [(js ''b'', FileNode (js ''two''))]),
    (js ''.a.cosmosh-1.tmp'', FileNode (utf8_encode (js ''two'')))])]"
  let ?v = "DirNode [(js ''home'', DirNode [(js ''d'', DirNode [(js ''b'', FileNode (js ''two''))])])]"
  have path: "abs_path [js ''home'', js ''.a.cosmosh-1.tmp''] = js ''/home/.a.cosmosh-1.tmp''"
    by (simp add: abs_path_def js_simps)
  have plain: "list_all plain_segment [js ''home'', js ''.a.cosmosh-1.tmp'']" "list_all plain_segment [js ''home'', js ''a'']"
    by (simp_all add: plain_segment_def) (simp_all add: js_simps)
  have opened: "\<not> lv_closed (fresh_session w)" for w :: node by (simp add: fresh_session_def)
  have names: "js ''a'' \<noteq> js ''.a.cosmosh-1.tmp''" "js ''d'' \<noteq> js ''.a.cosmosh-1.tmp''" "js ''a'' \<noteq> js ''d''"
    by (simp_all add: js_simps)
  have stat: "sftp_stat stuck_server (js ''/home/a'') (fresh_session home_tree) =
      Some (Inr (stats_of (FileNode (js ''one''))), fresh_session home_tree)"
    by (simp add: stuck_requests opened tree_stat_run fresh_world sftp_sample_nodes)
  have saved: "sftp_writeFile stuck_server (js ''/home/.a.cosmosh-1.tmp'') (utf8_encode (js ''two'')) m (fresh_session home_tree) =
      Some (Inr (), fresh_session ?w)" for m
  proof -
    have "serve_create (js ''/home/.a.cosmosh-1.tmp'') (FileNode (utf8_encode (js ''two''))) home_tree = (Answer (), ?w)"
      using serve_create_new [of "[js ''home'']" home_tree _ "js ''.a.cosmosh-1.tmp''" "FileNode (utf8_encode (js ''two''))"]
        plain(1) names path by (simp add: home_tree_def)
    then show ?thesis
      unfolding stuck_requests(4) [OF opened]
      using serve_run [of "fresh_session home_tree" "serve_create (js ''/home/.a.cosmosh-1.tmp'') (FileNode (utf8_encode (js ''two'')))"
        "Answer ()" ?w]
      by (simp add: sftp_writeFile_def fresh_session_def)
  qed
  have gone: "sftp_unlink stuck_server (js ''/home/a'') (fresh_session ?w) = Some (Inr (), fresh_session ?u)"
    using tree_unlink_run [of "fresh_session ?w" "[js ''home'', js ''a'']" "FileNode (js ''one'')" sample_base] plain(2) names
    by (simp add: stuck_requests opened sftp_sample_paths fresh_world map_delete_def) (simp add: fresh_session_def)
  have clean: "sftp_unlink stuck_server (js ''/home/.a.cosmosh-1.tmp'') (fresh_session ?u) = Some (Inr (), fresh_session ?v)"
    using tree_unlink_run [of "fresh_session ?u" "[js ''home'', js ''.a.cosmosh-1.tmp'']" "FileNode (utf8_encode (js ''two''))" sample_base]
      plain(1) names path
    by (simp add: stuck_requests opened fresh_world map_delete_def) (simp add: fresh_session_def)
  have generic: "isGenericSftpFailureError num (Thrown (PlainError (JNum (Num 4)) (js ''Failure'')))" for num
    by (simp add: isGenericSftpFailureError_def)
  have size: "\<not> MAX_READ_FILE_MAX_BYTES < length (utf8_encode (js ''two''))"
    by (simp add: js_simps utf8_encode.simps MAX_READ_FILE_MAX_BYTES_def)
  have fails: "sftp_rename stuck_server p q (fresh_session w) =
      Some (Inl (Thrown (PlainError (JNum (Num 4)) (js ''Failure''))), fresh_session w)" for p q and w :: node
    by (simp add: stuck_requests opened failure_reply_def)
  have "writeBufferToRemotePath stuck_server (utf8_encode (js ''two'')) (js ''/home/a'') m None (fresh_session home_tree) =
      Some (Inl (Thrown (PlainError (JNum (Num 4)) (js ''Failure''))), fresh_session ?v)" for m
    by (simp add: writeBufferToRemotePath_def bind_io_def temporary_sample catch_io_def then_io_def saved
        replaceRemoteFileFromTemp_def tryOpenSshPosixRename_def return_io_def fails generic gone clean
        unlinkRemoteTempFile_def throw_io_def)
  then show ?thesis
    by (simp add: writeTextFilePrimitive_def with_open_def read_io_def bind_io_def opened Let_def sftp_sample_paths size catch_io_def stat
        then_io_def return_io_def write_failed_def)
qed

end
