(* ===== verification/SftpListingTheorems.thy ===== *)
theory SftpListingTheorems
  imports SftpFileTheorems
begin

text \<open>
  Properties of listings and details: a listing of a directory of the tree shows every entry once, directories
  first; details answer every requested path in order.
\<close>

section \<open>Listings\<close>

lemma bind_run: "m s = Some (Inr x, t) \<Longrightarrow> bind_io m k s = k x t"
  by (simp add: bind_io_def)

lemma bind_fail: "m s = Some (Inl e, t) \<Longrightarrow> bind_io m k s = Some (Inl e, t)"
  by (simp add: bind_io_def)

lemma catch_run: "m s = Some (Inr x, t) \<Longrightarrow> catch_io m h s = Some (Inr x, t)"
  by (simp add: catch_io_def)

lemma catch_fail: "m s = Some (Inl e, t) \<Longrightarrow> catch_io m h s = h e t"
  by (simp add: catch_io_def)

lemma tree_realpath_run:
  assumes "\<not> lv_closed s" and "lookup xs (lv_world s) = Some (DirNode es)" and "list_all plain_segment xs"
  shows "resolveRealPath (tree_server base) (abs_path xs) s = Some (Inr (Some (abs_path xs)), s)"
  using serve_run [OF assms(1), of "serve_realpath (abs_path xs)" "Answer (abs_path xs)" "lv_world s"] target_plain [OF assms(2,3)]
  by (simp add: resolveRealPath_def serve_realpath_def catch_io_def bind_io_def return_io_def)

text \<open>The metadata of a link is always found: an error of the server only changes its status.\<close>
lemma tree_readlink_run:
  assumes "\<not> lv_closed s"
  shows "\<exists>r. sftp_readlink (tree_server base) p s = Some (outcome r, s) \<and>
    (r = missing \<or> r = failure_reply \<or> (\<exists>l. r = Answer l))"
proof -
  obtain r where "serve_readlink p (lv_world s) = (r, lv_world s)"
    and "r = missing \<or> r = failure_reply \<or> (\<exists>l. r = Answer l)"
    by (cases "entry_node p (lv_world s)") (auto simp: serve_readlink_def split: node.splits)
  then show ?thesis
    using serve_run [OF assms, of "serve_readlink p" r "lv_world s" "tree_server base"] by (auto simp: sftp_readlink_def)
qed

lemma tree_link_run:
  assumes "\<not> lv_closed s"
  shows "\<exists>target. link_target (tree_server base) p st s = Some (Inr target, s)"
proof -
  have inner: "\<exists>t. catch_io (bind_io (sftp_stat (tree_server base) q) (\<lambda>x. return_io (f x)))
      (\<lambda>e. if isSftpOperationFailure e then throw_io e else return_io (g e)) s = Some (Inr t, s)" for q f and g :: "sftp_error \<Rightarrow> 'b"
    using tree_stat_run [OF assms, of base q]
    by (cases "target_node q (lv_world s)") (simp_all add: catch_io_def bind_io_def return_io_def missing_def)
  have "\<exists>target. resolveSymlinkTargetMetadata (tree_server base) p s = Some (Inr target, s)"
  proof -
    obtain r where link: "sftp_readlink (tree_server base) p s = Some (outcome r, s)"
      and r: "r = missing \<or> r = failure_reply \<or> (\<exists>l. r = Answer l)"
      using tree_readlink_run [OF assms] by blast
    show ?thesis
    proof (cases "\<exists>l. r = Answer l")
      case True
      then obtain l where l: "r = Answer l" ..
      let ?q = "resolveSymlinkTargetPath p l"
      have "\<exists>t. catch_io (bind_io (sftp_stat (tree_server base) ?q) (\<lambda>st. return_io
          \<lparr>sy_status = LinkExists, sy_base = Some (l, ?q, starts_with l [slash]), sy_stats = Some (link_stats_of st), sy_message = None\<rparr>))
        (\<lambda>e. if isSftpOperationFailure e then throw_io e
          else return_io \<lparr>sy_status = resolveSymlinkTargetStatus (sv_numText (tree_server base)) e,
            sy_base = Some (l, ?q, starts_with l [slash]), sy_stats = None,
            sy_message = Some (operation_message (tree_server base) e)\<rparr>) s = Some (Inr t, s)"
        by (rule inner)
      then obtain t where t: "catch_io (bind_io (sftp_stat (tree_server base) ?q) (\<lambda>st. return_io
          \<lparr>sy_status = LinkExists, sy_base = Some (l, ?q, starts_with l [slash]), sy_stats = Some (link_stats_of st), sy_message = None\<rparr>))
        (\<lambda>e. if isSftpOperationFailure e then throw_io e
          else return_io \<lparr>sy_status = resolveSymlinkTargetStatus (sv_numText (tree_server base)) e,
            sy_base = Some (l, ?q, starts_with l [slash]), sy_stats = None,
            sy_message = Some (operation_message (tree_server base) e)\<rparr>) s = Some (Inr t, s)" ..
      show ?thesis
        unfolding resolveSymlinkTargetMetadata_def Let_def
        by (rule exI, rule catch_run, subst bind_run [where m = "sftp_readlink (tree_server base) p" and s = s, OF link [unfolded l outcome.simps]], rule t)
    next
      case False
      then obtain e where "outcome r = Inl (Thrown e)" using r by (auto simp: missing_def failure_reply_def)
      then show ?thesis
        unfolding resolveSymlinkTargetMetadata_def
        using link by (subst catch_fail, intro bind_fail) (auto simp: return_io_def)
    qed
  qed
  then show ?thesis
    by (auto simp: link_target_def bind_io_def return_io_def)
qed

definition listed_fields :: "sftp_entry \<Rightarrow> jstring \<times> jstring \<times> entry_type \<times> nat" where
  "listed_fields e = (se_name e, se_path e, se_type e, se_size e)"

definition node_fields :: "jstring list \<Rightarrow> jstring \<times> node \<Rightarrow> jstring \<times> jstring \<times> entry_type \<times> nat" where
  "node_fields segs e = (fst e, abs_path (segs @ [fst e]), entryType (node_mode (snd e)),
     node_size (snd e))"

lemma built_fields:
  "listed_fields (buildSftpEntry (fst e) (abs_path (segs @ [fst e])) (stats_of (snd e)) longname target) = node_fields segs e"
  by (simp add: listed_fields_def node_fields_def buildSftpEntry_def stats_of_def Let_def)

lemma tree_listed_run:
  assumes "\<not> lv_closed s" and "list_all plain_segment segs" and "list_all (\<lambda>e. plain_segment (fst e)) es"
  shows "\<exists>entries. listed_entries (tree_server base) (abs_path segs) (map (\<lambda>e. (fst e, [], stats_of (snd e))) es) s =
    Some (Inr entries, s) \<and> map listed_fields entries = map (node_fields segs) es"
  using assms(3)
proof (induction es)
  case (Cons e es)
  then obtain entries where rest: "listed_entries (tree_server base) (abs_path segs)
      (map (\<lambda>e. (fst e, [], stats_of (snd e))) es) s = Some (Inr entries, s)"
    "map listed_fields entries = map (node_fields segs) es"
    by auto
  obtain target where "link_target (tree_server base) (abs_path (segs @ [fst e])) (stats_of (snd e)) s = Some (Inr target, s)"
    using tree_link_run [OF assms(1)] by blast
  with rest show ?case
    using Cons.prems assms(2)
    by (simp add: Let_def built_fields)
qed simp

lemma filter_plain:
  "list_all (\<lambda>e. plain_segment (fst e)) es \<Longrightarrow>
     filter (\<lambda>e. fst e \<noteq> dot \<and> fst e \<noteq> dotdot) (map (\<lambda>e. (fst e, f e)) es) = map (\<lambda>e. (fst e, f e)) es"
  by (induction es) (auto simp: plain_segment_def)

lemma directories_first:
  "sorted_wrt (\<lambda>a b. se_type b = DirectoryEntry \<longrightarrow> se_type a = DirectoryEntry) (sortSftpEntriesByBrowserOrder R entries)"
  unfolding sortSftpEntriesByBrowserOrder_def
  by (rule sorted_wrt_sort_by) (auto simp: entry_le_def transp_def split: if_splits)

text \<open>On a server with a file tree, listing a directory returns with success and changes nothing: it shows
  every entry of the directory exactly once, with its name, its path, its type and its size, all directories
  before all other entries; links are listed even when they are broken.\<close>
theorem listing_shows_directory:
  assumes "\<not> lv_closed s" and "normalizeSftpPathInput a = abs_path segs" and "list_all plain_segment segs"
    and "lookup segs (lv_world s) = Some (DirNode es)" and "well_named (DirNode es)"
  shows "\<exists>entries. listDirectoryPrimitive (tree_server base) a s =
      Some (Inr (ListDone (abs_path segs) (resolveParentPath (abs_path segs)) entries), s) \<and>
    mset (map listed_fields entries) = mset (map (node_fields segs) es) \<and>
    sorted_wrt (\<lambda>x y. se_type y = DirectoryEntry \<longrightarrow> se_type x = DirectoryEntry) entries"
proof -
  have plain: "list_all (\<lambda>e. plain_segment (fst e)) es"
    using assms(5) by (auto simp: list_all_iff)
  obtain entries where "listed_entries (tree_server base) (abs_path segs) (map (\<lambda>e. (fst e, [], stats_of (snd e))) es) s =
      Some (Inr entries, s)" and fields: "map listed_fields entries = map (node_fields segs) es"
    using tree_listed_run [OF assms(1,3) plain] by blast
  then have "listDirectoryPrimitive (tree_server base) a s =
      Some (Inr (ListDone (abs_path segs) (resolveParentPath (abs_path segs))
        (sortSftpEntriesByBrowserOrder (tree_server base) entries)), s)"
    using assms(1,2) filter_plain [OF plain, of "\<lambda>e. ([] :: jstring, stats_of (snd e))"]
      tree_readdir_run [of s segs es base] tree_realpath_run [of s segs es base] assms(3,4)
    by (simp add: listDirectoryPrimitive_def open_run Let_def catch_io_def)
  moreover have "mset (map listed_fields (sortSftpEntriesByBrowserOrder R entries)) = mset (map (node_fields segs) es)" for R
    by (metis fields mset_map mset_sort_by sortSftpEntriesByBrowserOrder_def)
  ultimately show ?thesis
    using directories_first by blast
qed

theorem listing_shows_directory_witness:
  "\<exists>entries. listDirectoryPrimitive (tree_server sample_base) (Some (js ''/home/d'')) (fresh_session home_tree) =
      Some (Inr (ListDone (js ''/home/d'') (Some (js ''/home'')) entries), fresh_session home_tree) \<and>
    map listed_fields entries = [(js ''b'', js ''/home/d/b'', FileEntry, 3)]"
proof -
  have plain: "list_all plain_segment [js ''home'', js ''d'']" "plain_segment (js ''b'')"
    by (simp_all add: plain_segment_def) (simp_all add: js_simps)
  have parent: "resolveParentPath (js ''/home/d'') = Some (js ''/home'')"
    using entry_of_abs [of "[js ''home'']" "js ''d''"] plain sftp_sample_paths(7) by (simp add: abs_path_def js_simps)
  have path: "abs_path [js ''home'', js ''d'', js ''b''] = js ''/home/d/b''"
    by (simp add: abs_path_def js_simps)
  have "node_fields [js ''home'', js ''d''] (js ''b'', FileNode (js ''two'')) = (js ''b'', js ''/home/d/b'', FileEntry, 3)"
    by (simp add: node_fields_def path entryType_def)
  moreover obtain entries where "listDirectoryPrimitive (tree_server sample_base) (Some (js ''/home/d'')) (fresh_session home_tree) =
      Some (Inr (ListDone (js ''/home/d'') (Some (js ''/home'')) entries), fresh_session home_tree)"
    and "mset (map listed_fields entries) = mset (map (node_fields [js ''home'', js ''d'']) [(js ''b'', FileNode (js ''two''))])"
    using listing_shows_directory [of "fresh_session home_tree" "Some (js ''/home/d'')" "[js ''home'', js ''d'']"
        "[(js ''b'', FileNode (js ''two''))]" sample_base] plain
    by (auto simp: sftp_sample_paths parent fresh_session_def home_tree_def)
  ultimately show ?thesis by (auto simp del: mset_map)
qed

section \<open>Details\<close>

fun item_path :: "details_item \<Rightarrow> jstring" where
  "item_path (DetailsFound p e) = p"
| "item_path (DetailsFailed p m md) = p"

lemma single_details_path: "getSingleEntryDetails R p s = Some (Inr x, s') \<Longrightarrow> item_path x = p"
  by (auto simp: getSingleEntryDetails_def catch_io_def bind_io_def return_io_def
      split: option.splits prod.splits sum.splits)

lemma details_of_paths:
  "details_of R ps s = Some (Inr items, s') \<Longrightarrow> map item_path items = map (\<lambda>a. normalizeSftpPathInput (Some a)) ps"
proof (induction ps arbitrary: s items s')
  case (Cons a ps)
  obtain x t xs u where x: "(if \<not> isMutableSftpEntryPath (normalizeSftpPathInput (Some a))
      then return_io (DetailsFailed (normalizeSftpPathInput (Some a)) (sv_text R (js ''errors.sftp.pathRequired'')) None)
      else getSingleEntryDetails R (normalizeSftpPathInput (Some a))) s = Some (Inr x, t)"
    and xs: "details_of R ps t = Some (Inr xs, u)" and items: "items = x # xs"
    using Cons.prems by (auto simp: Let_def return_io_def elim!: bind_SomeE)
  have "item_path x = normalizeSftpPathInput (Some a)"
    using x by (auto simp: return_io_def split: if_splits dest: single_details_path)
  then show ?case using Cons.IH [OF xs] items by simp
qed (simp add: return_io_def)

text \<open>The details of selected entries answer every requested path, in order and under its normalized form,
  whatever the server answers: an entry that cannot be read is a failed item and does not stop the others.\<close>
theorem details_answer_every_path:
  assumes "getEntryDetailsPrimitive R paths s = Some (r, s')"
  shows "r = Inr DetailsNotFound \<and> lv_closed s \<or> (\<exists>items. r = Inr (DetailsDone (length paths) items) \<and>
    map item_path items = map (\<lambda>a. normalizeSftpPathInput (Some a)) paths)"
proof -
  obtain x where r: "r = Inr x" using quiet_listings(2) assms unfolding quiet_def by blast
  show ?thesis
    using assms details_of_paths unfolding r getEntryDetailsPrimitive_def with_open_def
    by (cases "lv_closed s") (auto simp: read_io_def bind_io_def return_io_def split: option.splits prod.splits sum.splits)
qed

theorem details_answer_every_path_witness:
  "\<exists>items s'. getEntryDetailsPrimitive (tree_server sample_base) [js ''/home/a'', js ''/'', js ''/home/d''] (fresh_session home_tree) =
     Some (Inr (DetailsDone 3 items), s') \<and> map item_path items = [js ''/home/a'', js ''/'', js ''/home/d'']"
proof -
  let ?R = "tree_server sample_base" and ?s = "fresh_session home_tree"
  have opened: "\<not> lv_closed ?s" by (simp add: fresh_session_def)
  have single: "\<exists>x. getSingleEntryDetails ?R p ?s = Some (Inr x, ?s)" for p
  proof (cases "entry_node p (lv_world ?s)")
    case None
    then show ?thesis
      by (simp add: getSingleEntryDetails_def catch_io_def bind_io_def tree_lstat_run [OF opened] missing_def return_io_def)
  next
    case (Some n)
    obtain target where "link_target ?R p (stats_of n) ?s = Some (Inr target, ?s)"
      using tree_link_run [OF opened] by blast
    then show ?thesis
      using Some by (simp add: getSingleEntryDetails_def catch_io_def bind_io_def tree_lstat_run [OF opened] return_io_def)
  qed
  have root_path: "normalizeSftpPathInput (Some (js ''/'')) = js ''/''" "\<not> isMutableSftpEntryPath (js ''/'')"
    using posix_normalize_abs_path [of "[]"]
    by (simp_all add: normalizeSftpPathInput_def isMutableSftpEntryPath_def Let_def js_simps trim_def trim_start_def trim_end_def
        is_space_def forward_slashes_def)
  obtain x z where "getSingleEntryDetails ?R (js ''/home/a'') ?s = Some (Inr x, ?s)"
    and "getSingleEntryDetails ?R (js ''/home/d'') ?s = Some (Inr z, ?s)"
    using single by meson
  then have run: "getEntryDetailsPrimitive ?R [js ''/home/a'', js ''/'', js ''/home/d''] ?s =
      Some (Inr (DetailsDone 3 [x, DetailsFailed (js ''/'') (js ''errors.sftp.pathRequired'') None, z]), ?s)"
    using opened by (simp add: getEntryDetailsPrimitive_def open_run sftp_sample_paths root_path bind_io_def return_io_def)
      (simp add: sample_base_def)
  show ?thesis
    using details_answer_every_path [OF run] opened run by (auto simp: sftp_sample_paths root_path)
qed

end
