(* ===== verification/SftpSessionTheorems.thy ===== *)
theory SftpSessionTheorems
  imports SftpSessionProofs SftpListingTheorems
begin

text \<open>
  Properties of the SFTP session service: what the outcome of a task says, which sessions are open, what is
  kept for a session and for how long, and how room is made for a new task.
\<close>

section \<open>Outcomes of tasks\<close>

definition outcome_free :: "task_value run_outcome \<Rightarrow> bool" where
  "outcome_free out = (case out of
     RunFailed f partial \<Rightarrow> fl_outcomeUnknown f \<noteq> Some True \<and> fl_code f \<notin> {code_text OPERATION_TIMEOUT, code_text TRANSPORT_CLOSED}
   | _ \<Rightarrow> True)"

definition well_coded :: "task_value run_outcome \<Rightarrow> bool" where
  "well_coded out = (case out of
     RunFailed f partial \<Rightarrow> normalizeTaskErrorCode (fl_code f) = fl_code f
   | RunSucceeded v \<Rightarrow> (\<exists>x. v = Some (Retained x))
   | RunCancelled v \<Rightarrow> False)"

lemma known_codes:
  "metadata_code md \<in> set SFTP_TASK_ERROR_CODES" "SFTP_UPLOAD_CONFLICT \<in> set SFTP_TASK_ERROR_CODES"
  "SFTP_SESSION_NOT_FOUND \<in> set SFTP_TASK_ERROR_CODES"
proof -
  have "code_text c \<in> set SFTP_TASK_ERROR_CODES" for c
    by (cases c) (simp_all add: code_text_def SFTP_TASK_ERROR_CODES_def)
  then show "metadata_code md \<in> set SFTP_TASK_ERROR_CODES"
    by (auto simp: metadata_code_def SFTP_OPERATION_FAILED_def SFTP_TASK_ERROR_CODES_def split: option.split)
qed (simp_all add: SFTP_UPLOAD_CONFLICT_def SFTP_SESSION_NOT_FOUND_def SFTP_TASK_ERROR_CODES_def)

lemmas outcome_defs = well_coded_def resolveTaskFailure_def buildMissingSessionTaskOutcome_def
  normalizeTaskErrorCode_def known_codes Let_def

lemma outcomes_well_coded:
  "well_coded (toTaskOperationOutcome R x)" "well_coded (toTaskDownloadOutcome R d)" "well_coded (toTaskBatchOutcome R b)"
proof -
  show "well_coded (toTaskOperationOutcome R x)" by (cases x) (simp_all add: outcome_defs)
  show "well_coded (toTaskDownloadOutcome R d)" by (cases d) (simp_all add: outcome_defs)
  show "well_coded (toTaskBatchOutcome R b)" by (cases b) (simp_all add: outcome_defs)
qed

lemma plain_codes:
  "SFTP_OPERATION_FAILED \<notin> {code_text OPERATION_TIMEOUT, code_text TRANSPORT_CLOSED}"
  "SFTP_UPLOAD_CONFLICT \<notin> {code_text OPERATION_TIMEOUT, code_text TRANSPORT_CLOSED}"
  "SFTP_SESSION_NOT_FOUND \<notin> {code_text OPERATION_TIMEOUT, code_text TRANSPORT_CLOSED}"
  by (simp_all add: SFTP_OPERATION_FAILED_def SFTP_UPLOAD_CONFLICT_def SFTP_SESSION_NOT_FOUND_def code_text_def js_simps)

lemma failure_free:
  "outcome_free (RunFailed (resolveTaskFailure message conflict None) partial)"
  using plain_codes by (simp add: outcome_free_def resolveTaskFailure_def metadata_code_def metadata_unknown_def marked_def)

lemma missing_free: "outcome_free (buildMissingSessionTaskOutcome R)"
  using plain_codes by (simp add: outcome_free_def buildMissingSessionTaskOutcome_def)

lemma operation_outcome_free: "meta_free x \<Longrightarrow> outcome_free (toTaskOperationOutcome R x)"
  by (cases x rule: meta_free.cases) (simp_all add: missing_free failure_free, simp_all add: outcome_free_def)

lemma download_outcome_free: "download_free d \<Longrightarrow> outcome_free (toTaskDownloadOutcome R d)"
  by (cases d rule: download_free.cases) (auto simp: missing_free failure_free, simp_all add: outcome_free_def)

lemma batch_outcome_free:
  assumes "batch_free b"
  shows "outcome_free (toTaskBatchOutcome R b)"
proof (cases b)
  case (BatchDone sum)
  have "(case find_failed (bs_results sum) of None \<Rightarrow> None | Some i \<Rightarrow> bi_metadata i) = None"
    using assms BatchDone by (auto simp: items_free_def list_all_iff find_failed_def find_Some_iff split: option.split)
  then show ?thesis
    using plain_codes BatchDone by (simp add: outcome_free_def metadata_code_def metadata_unknown_def marked_def)
qed (simp_all add: missing_free failure_free)

lemma safe_task: "safe None outcome_free (executeTaskRequest R request)"
  by (cases request)
    (auto intro!: safe_map [OF safe_primitives(1)] safe_map [OF safe_primitives(2)] safe_map [OF safe_primitives(3)]
      safe_map [OF safe_upload] safe_map [OF safe_download] safe_map [OF safe_batch]
      intro: operation_outcome_free download_outcome_free batch_outcome_free)

lemma map_quiet:
  assumes "map_io f m s = Some (r, s')" and "quiet m"
  shows "\<exists>x. r = Inr (f x)"
proof -
  from assms(1) obtain q t where m: "m s = Some (q, t)" and r: "r = (case q of Inl e \<Rightarrow> Inl e | Inr x \<Rightarrow> Inr (f x))"
    by (auto simp: map_io_def bind_io_def return_io_def split: option.splits sum.splits)
  moreover obtain x where "q = Inr x" using m assms(2) unfolding quiet_def by blast
  ultimately show ?thesis by auto
qed

text \<open>A task that runs never throws: it ends with a retained result or with a failure whose code is one
  that the API knows and passes on unchanged; when the failure is a timeout or a lost transport, or says that
  the outcome of a mutation is unknown, the session is closed, so no later task can follow it there.\<close>
theorem task_outcome:
  assumes "executeTaskRequest R request s = Some (r, s')"
  shows "\<exists>out. r = Inr out \<and>
    (case out of
       RunSucceeded v \<Rightarrow> \<exists>x. v = Some (Retained x)
     | RunFailed f partial \<Rightarrow> normalizeTaskErrorCode (fl_code f) = fl_code f \<and>
         (fl_outcomeUnknown f = Some True \<or> fl_code f \<in> {code_text OPERATION_TIMEOUT, code_text TRANSPORT_CLOSED} \<longrightarrow>
            lv_closed s')
     | RunCancelled v \<Rightarrow> False)"
proof -
  have "\<exists>out. r = Inr out \<and> well_coded out"
    using assms outcomes_well_coded by (cases request) (auto dest!: map_quiet)
  then obtain out where out: "r = Inr out" "well_coded out" by blast
  moreover have "lv_closed s' \<or> outcome_free out"
    using safeD(3) [OF safe_task _ assms] out(1) by simp
  ultimately show ?thesis
    by (auto simp: well_coded_def outcome_free_def split: run_outcome.splits)
qed

theorem task_outcome_witness:
  "\<exists>f s'. executeTaskRequest silent_server (CreateDirectoryTask (js ''/home/d'')) (fresh_session home_tree) =
      Some (Inr (RunFailed f None), s') \<and> fl_outcomeUnknown f = Some True \<and> lv_closed s'"
proof -
  let ?m = "error_text (\<lambda>n. js ''60000'') (timeout_error silent_server (js ''mkdir'') MutationOp Idle)"
  let ?t = "(fresh_session home_tree)\<lparr>lv_closed := True, lv_destroyed := 1\<rparr>"
  have "createDirectoryPrimitive silent_server (Some (js ''/home/d'')) (fresh_session home_tree) =
      Some (Inr (FailedResult ?m False (Some (OPERATION_TIMEOUT, True))), ?t)"
    using silent_run by (auto simp: map_io_def bind_io_def return_io_def split: option.splits sum.splits simp del: error_text.simps)
  then have run: "executeTaskRequest silent_server (CreateDirectoryTask (js ''/home/d'')) (fresh_session home_tree) =
      Some (Inr (RunFailed (resolveTaskFailure ?m False (Some (OPERATION_TIMEOUT, True))) None), ?t)"
    by (simp add: map_io_def bind_io_def return_io_def del: error_text.simps)
  show ?thesis
    using task_outcome [OF run] run by (simp add: resolveTaskFailure_def metadata_unknown_def marked_def del: error_text.simps)
qed

section \<open>Sessions\<close>

text \<open>In every state that the service can reach, the map of sessions holds exactly the session objects
  that are open, one for an identifier; an object's abort signal is set exactly when it is closed, and its
  transport has been destroyed at most once and never while it is open.\<close>
theorem open_sessions:
  assumes "service_reachable locale_le R S"
  shows "(map_of (ss_sessions S) sid = Some i \<longleftrightarrow>
      i < length (ss_objects S) \<and> so_sessionId (ss_objects S ! i) = sid \<and> \<not> so_closed (ss_objects S ! i)) \<and>
    (\<forall>x\<in>set (ss_objects S). so_aborted x = so_closed x \<and> so_destroyed x \<le> (if so_closed x then 1 else 0))"
proof (rule conjI)
  note ok = ok_exceptD [OF sftp_service_reachable_ok [OF assms]]
  show "map_of (ss_sessions S) sid = Some i \<longleftrightarrow>
      i < length (ss_objects S) \<and> so_sessionId (ss_objects S ! i) = sid \<and> \<not> so_closed (ss_objects S ! i)"
    using ok(1,2) unfolding objects_ok_def sessions_ok_def Let_def by blast
  show "\<forall>x\<in>set (ss_objects S). so_aborted x = so_closed x \<and> so_destroyed x \<le> (if so_closed x then 1 else 0)"
    using ok(1) unfolding objects_ok_def Let_def by (metis in_set_conv_nth)
qed

text \<open>A session that was opened and whose transport was lost.\<close>

definition lost_service :: service where
  "lost_service = markClosed 0 (snd (registerSftpSession (js ''s1'') new_sftp_service))"

definition one_session :: service where
  "one_session = snd (registerSftpSession (js ''s1'') new_sftp_service)"

lemma one_session_reachable: "service_reachable le R one_session"
  unfolding one_session_def
  by (rule service_moves [OF service_begins session_opens])
    (simp add: fresh_id_def new_sftp_service_def trim_not_Nil js_simps is_space_def)

lemma lost_service_reachable: "service_reachable le R lost_service"
  using service_moves [OF one_session_reachable transport_closes [of 0]]
  by (simp add: lost_service_def one_session_def registerSftpSession_def new_sftp_service_def)

theorem open_sessions_witness:
  "ss_sessions lost_service = [] \<and> (\<exists>x. ss_objects lost_service = [x] \<and> so_closed x \<and> so_aborted x \<and> so_destroyed x = 1)"
proof -
  have fields: "ss_sessions lost_service = []"
    "ss_objects lost_service = [\<lparr>so_sessionId = js ''s1'', so_closed = True, so_aborted = True, so_destroyed = 1, so_ended = 0\<rparr>]"
    by (simp_all add: lost_service_def markClosed_def registerSftpSession_def new_sftp_service_def markSessionUnavailable_def
        closeUnusableTransport_def update_object_def Let_def deleteClosedTaskSchedulerIfUnused_def records_of_def map_delete_def)
  show ?thesis
    using open_sessions [OF lost_service_reachable, of "js ''s1''" 0] fields by simp
qed

section \<open>What is kept\<close>

text \<open>In every state that the service can reach, each session has at most 512 records of public tasks, one
  for a task; every scheduler is in a state that the scheduler can reach; and a scheduler or a map of records
  is kept only while its session is open, a record of a public task is retained, or the scheduler still has
  tasks: nothing is left behind for a closed session that is done.\<close>
theorem kept_while_needed:
  assumes "service_reachable locale_le R S"
  shows "length (records_of sid S) \<le> 512 \<and> distinct (map fst (records_of sid S)) \<and>
    (\<forall>sched. map_of (ss_schedulers S) sid = Some sched \<longrightarrow> sched_reachable locale_le sched) \<and>
    (map_of (ss_schedulers S) sid \<noteq> None \<or> map_of (ss_tasks S) sid \<noteq> None \<longrightarrow>
       map_of (ss_sessions S) sid \<noteq> None \<or> records_of sid S \<noteq> [] \<or>
       (\<exists>sched. map_of (ss_schedulers S) sid = Some sched \<and> records sched \<noteq> []))"
  using ok_exceptD [OF sftp_service_reachable_ok [OF assms]]
  unfolding records_ok_def schedulers_ok_def kept_at_def needed_def SFTP_TASK_RECORD_LIMIT_PER_SESSION_def by blast

section \<open>Making room\<close>

text \<open>Below the bound a new task always finds room and nothing is removed.  At the bound exactly one record
  is removed: the oldest released one whose task succeeded or was cancelled, else the oldest released one; when
  no task has been released, the new task is refused and nothing is changed.\<close>
theorem room_for_task:
  assumes "service_reachable locale_le R S"
  shows "makeRoomForPublicTask sid S =
    (if length (records_of sid S) < 512 then (True, S)
     else case List.find (\<lambda>(taskId, pt). quietly_ended sid S pt) (records_of sid S) of
       Some (taskId, pt) \<Rightarrow> (True, removePublicTaskRecord sid taskId (pt_ref pt) S)
     | None \<Rightarrow> (case List.find (\<lambda>(taskId, pt). pt_released pt) (records_of sid S) of
         Some (taskId, pt) \<Rightarrow> (True, removePublicTaskRecord sid taskId (pt_ref pt) S)
       | None \<Rightarrow> (False, S))) \<and>
    (\<forall>taskId pt. map_of (records_of sid S) taskId = Some pt \<longrightarrow>
       records_of sid (removePublicTaskRecord sid taskId (pt_ref pt) S) = map_delete taskId (records_of sid S))"
  using makeRoom_eq [OF sftp_service_reachable_ok [OF assms]] remove_record_records [OF sftp_service_reachable_ok [OF assms]]
  unfolding SFTP_TASK_RECORD_LIMIT_PER_SESSION_def by simp

theorem kept_while_needed_witness:
  "map_of (ss_schedulers lost_service) (js ''s1'') = None \<and> map_of (ss_tasks lost_service) (js ''s1'') = None"
proof -
  have "ss_sessions lost_service = []" "records_of (js ''s1'') lost_service = []" "ss_schedulers lost_service = []"
    by (simp_all add: lost_service_def markClosed_def registerSftpSession_def new_sftp_service_def markSessionUnavailable_def
        closeUnusableTransport_def update_object_def Let_def deleteClosedTaskSchedulerIfUnused_def records_of_def map_delete_def)
  then show ?thesis
    using kept_while_needed [OF lost_service_reachable, of "js ''s1''"] by simp
qed

theorem room_for_task_witness:
  "makeRoomForPublicTask (js ''s1'') one_session = (True, one_session)"
  using room_for_task [OF one_session_reachable, of "js ''s1''"]
  by (simp add: one_session_def registerSftpSession_def new_sftp_service_def records_of_def Let_def)

section \<open>A task that was started\<close>

lemma dispatch_records: "sched_inv s \<Longrightarrow> records (dispatch now s) = records s"
proof -
  assume "sched_inv s"
  then have "sched_inv (dispatch_loop now (s\<lparr>isDispatching := True\<rparr>)) \<and>
      records (dispatch_loop now (s\<lparr>isDispatching := True\<rparr>)) = records s"
    by (intro dispatch_loop_invariant [where P = "\<lambda>t. sched_inv t \<and> records t = records s"])
      (auto intro: start_at_inv simp: sched_frame)
  then show ?thesis by (simp add: dispatch_def sched_frame)
qed

lemma scheduled_records:
  assumes "sched_reachable le sched" and "schedule le now newId spec sched = Inr (r, sched')"
  shows "records sched' \<noteq> []"
proof -
  have good: "sched_good sched" by (rule sched_reachable_good [OF assms(1)])
  obtain tid where tid: "map_of (records sched) tid = None" and s': "sched' = dispatch now (if ts_cancellationSignal spec = Some True
           then cancelRecord now r (enqueued le now tid spec sched) else enqueued le now tid spec sched)" and r: "r = sequence sched"
    using schedule_InrE [OF assms(2)] by metis
  have inv: "sched_inv (enqueued le now tid spec sched)"
    using good tid by (intro enqueued_inv) (simp_all add: sched_good_def)
  then have "sched_inv (cancelRecord now r (enqueued le now tid spec sched))"
    by (intro cancelRecord_inv) (simp_all add: r sched_frame)
  with inv show ?thesis by (simp add: s' dispatch_records sched_frame)
qed

lemma hook_keeps_scheduler:
  assumes "map_of (ss_schedulers S) sid = Some sched" and "records sched \<noteq> []"
  shows "map_of (ss_schedulers (run_hook q e S)) sid = Some sched"
proof -
  have drop: "map_of (ss_schedulers (deleteClosedTaskSchedulerIfUnused p T)) sid = Some sched"
    if "map_of (ss_schedulers T) sid = Some sched" for p T
    using that assms(2) by (auto simp: deleteClosedTaskSchedulerIfUnused_def split: option.split)
  have mark: "map_of (ss_schedulers (snd (markSessionUnavailable i S))) sid = Some sched" for i
    using drop assms(1) by (simp add: markSessionUnavailable_def Let_def)
  moreover have poison: "map_of (ss_schedulers (poisonSession i S)) sid = Some sched" for i
    using mark [of i] by (cases "markSessionUnavailable i S") (simp add: poisonSession_def closeUnusableTransport_def)
  ultimately have "map_of (ss_schedulers (on_abort kind reason S)) sid = Some sched" for kind reason
    using assms(1) by (cases kind; cases reason) (simp_all add: on_abort_def)
  then show ?thesis
    using assms(1) by (cases e) (simp_all add: run_hook_def split: option.split)
qed

lemma with_scheduler_keeps:
  assumes "records new \<noteq> []"
  shows "map_of (ss_schedulers (with_scheduler sid old new S)) sid = Some new"
proof -
  have "map_of (ss_schedulers (fold (run_hook q) es S)) sid = Some new" if "map_of (ss_schedulers S) sid = Some new" for q es S
    using that by (induction es arbitrary: S) (simp_all add: hook_keeps_scheduler assms)
  then show ?thesis by (simp add: with_scheduler_def)
qed

text \<open>A task that the service has started is found under its identifier, with the same data that the caller
  was given; it is one of the records of its session.\<close>
theorem started_task_found:
  assumes "service_reachable locale_le R S" and "startTask locale_le R now newId sid request S = (StartDone td, T)"
  shows "getPublicTask sid (td_taskId td) T = Some td \<and> td_operation td = task_operation request \<and>
    (\<exists>pt. map_of (records_of sid T) (td_taskId td) = Some pt \<and> \<not> pt_released pt)"
proof -
  note ok = sftp_service_reachable_ok [OF assms(1)]
  obtain i where i: "map_of (ss_sessions S) sid = Some i"
    using assms(2) by (auto simp: startTask_def getOpenSession_ok [OF ok] split: option.splits)
  note create = create_records_ok [OF ok i]
  obtain room S3 where S3: "makeRoomForPublicTask sid (getOrCreatePublicTaskRecords sid S) = (room, S3)" by fastforce
  note made = makeRoom_ok [OF create(1) S3]
  have open3: "map_of (ss_sessions S3) sid = Some i" using made(2) create(2) i by simp
  obtain sched S4 where S4: "getOrCreateTaskScheduler sid S3 = (sched, S4)" by fastforce
  note get = get_scheduler_ok [OF made(1) open3 S4]
  have room: "room"
    using assms(2) by (auto simp: startTask_def getOpenSession_ok [OF ok] i S3 split: if_splits)
  obtain r sched' where sch: "schedule locale_le now newId (public_spec R request) sched = Inr (r, sched')"
    using assms(2) room by (auto simp: startTask_def getOpenSession_ok [OF ok] i S3 S4 split: sum.splits)
  let ?S5 = "with_scheduler sid sched sched' (S4\<lparr>ss_reactions := ss_reactions S4 @ [(sid, r, PublicKind i)]\<rparr>)"
  have kept: "map_of (ss_schedulers ?S5) sid = Some sched'"
    by (rule with_scheduler_keeps [OF scheduled_records [OF get(2) sch]])
  define sn where "sn = copySnapshot (rc_snapshot (TaskScheduler.store sched' r))"
  define pt where "pt = \<lparr>pt_operation = task_operation request, pt_remotePaths = sn_claims sn,
    pt_transferId = (if task_transfer request = Some [] then None else task_transfer request),
    pt_ref = r, pt_released = False, pt_retentionTimer = False\<rparr>"
  have T: "td = toApiTaskData pt sn" "T = set_records sid (map_set (sn_taskId sn) pt (records_of sid ?S5)) ?S5"
    using assms(2) room sch by (simp_all add: startTask_def getOpenSession_ok [OF ok] i S3 S4 Let_def sn_def pt_def)
  have id: "td_taskId td = sn_taskId sn" and op: "td_operation td = task_operation request"
    by (simp_all add: T(1) toApiTaskData_def pt_def)
  have recs: "map_of (records_of sid T) (sn_taskId sn) = Some pt" by (simp add: T(2))
  have "snapshot_of sid pt T = Some sn"
    using kept by (simp add: snapshot_of_def T(2) sn_def pt_def)
  then show ?thesis
    using recs by (simp add: getPublicTask_def id op) (simp add: T(1) pt_def)
qed

theorem started_task_found_witness:
  "\<exists>td T. startTask (\<lambda>a b. True) sample_base 0 (js ''t1'') (js ''s1'') (CreateFileTask (js ''/home/f'')) one_session = (StartDone td, T) \<and>
     getPublicTask (js ''s1'') (td_taskId td) T = Some td"
proof -
  let ?spec = "public_spec sample_base (CreateFileTask (js ''/home/f''))"
  have valid: "validateTaskSpec ?spec = None"
    by (simp add: validateTaskSpec_def public_spec_def sample_base_def trim_not_Nil js_simps is_space_def)
  then obtain r sched' where sch: "schedule (\<lambda>a b. True) 0 (js ''t1'') ?spec (initial_scheduler (js ''s1'')) = Inr (r, sched')"
    by (simp add: schedule_def public_spec_def initial_scheduler_def Let_def)
  have map_one: "ss_sessions one_session = [(js ''s1'', 0)]" "ss_tasks one_session = []" "ss_schedulers one_session = []"
    "\<not> so_closed (ss_objects one_session ! 0)"
    by (simp_all add: one_session_def registerSftpSession_def new_sftp_service_def Let_def)
  obtain td T where start: "startTask (\<lambda>a b. True) sample_base 0 (js ''t1'') (js ''s1'') (CreateFileTask (js ''/home/f'')) one_session = (StartDone td, T)"
    using sch map_one
    by (simp add: startTask_def getOpenSession_def makeRoomForPublicTask_def getOrCreatePublicTaskRecords_def
        getOrCreateTaskScheduler_def SFTP_TASK_RECORD_LIMIT_PER_SESSION_def Let_def)
  show ?thesis
    using started_task_found [OF one_session_reachable start] start by blast
qed

end
